(* ===== verification/GoBase.thy ===== *)
theory GoBase
  imports Complex_Main "HOL-Library.Word" "HOL-Library.Sublist" "HOL-Library.AList"
    "HOL-Library.Char_ord" "HOL-Library.List_Lexorder" "HOL-Library.Product_Lexorder"
begin

text \<open>
  Shared prelude: the parts of the Go language and standard library the program uses, and the
  generic lemmas the component theories share.

  A Go string is a byte string, here a HOL \<^typ>\<open>string\<close> (a list of 8-bit characters). Functions
  that range over runes decode UTF-8 as \<open>unicode/utf8\<close> does (an ill-formed byte is the replacement
  rune of width one). \<open>strings.TrimSpace\<close> and \<open>strings.Fields\<close> recognise every Unicode space by
  its UTF-8 encoding. \<open>strings.ToLower\<close> and \<open>strings.ToUpper\<close> are modelled on ASCII letters; a
  byte above 127 is left as it is, so Unicode case mapping is outside the model.
\<close>

named_theorems go_str \<open>facts on the string primitives\<close>
named_theorems go_err \<open>case rules for results that may be an error\<close>

section \<open>Byte classes\<close>

abbreviation byte :: "char \<Rightarrow> nat" where
  "byte c \<equiv> of_char c"

definition isASCIIUpper :: "char \<Rightarrow> bool" where
  "isASCIIUpper c \<longleftrightarrow> 65 \<le> byte c \<and> byte c \<le> 90"

definition isASCIILower :: "char \<Rightarrow> bool" where
  "isASCIILower c \<longleftrightarrow> 97 \<le> byte c \<and> byte c \<le> 122"

definition toLowerChar :: "char \<Rightarrow> char" where
  "toLowerChar c = (if isASCIIUpper c then char_of (byte c + 32) else c)"

definition toUpperChar :: "char \<Rightarrow> char" where
  "toUpperChar c = (if isASCIILower c then char_of (byte c - 32) else c)"

definition ToLower :: "string \<Rightarrow> string" where
  "ToLower s = map toLowerChar s"

definition ToUpper :: "string \<Rightarrow> string" where
  "ToUpper s = map toUpperChar s"

definition asciiString :: "string \<Rightarrow> bool" where
  "asciiString s \<longleftrightarrow> list_all (\<lambda>c. byte c < 128) s"

section \<open>Searching and splitting\<close>

definition HasPrefix :: "string \<Rightarrow> string \<Rightarrow> bool" where
  "HasPrefix s p \<longleftrightarrow> prefix p s"

definition TrimPrefix :: "string \<Rightarrow> string \<Rightarrow> string" where
  "TrimPrefix s p = (if HasPrefix s p then drop (length p) s else s)"

definition HasSuffix :: "string \<Rightarrow> string \<Rightarrow> bool" where
  "HasSuffix s p \<longleftrightarrow> suffix p s"

text \<open>\<open>strings.Index\<close>: the least offset at which \<open>sep\<close> occurs, -1 when it does not.\<close>

fun indexOf :: "string \<Rightarrow> string \<Rightarrow> nat option" where
  "indexOf [] sep = (if sep = [] then Some 0 else None)"
| "indexOf (c # s) sep =
     (if prefix sep (c # s) then Some 0 else map_option Suc (indexOf s sep))"

definition Index :: "string \<Rightarrow> string \<Rightarrow> int" where
  "Index s sep = (case indexOf s sep of None \<Rightarrow> - 1 | Some n \<Rightarrow> int n)"

definition Contains :: "string \<Rightarrow> string \<Rightarrow> bool" where
  "Contains s sep \<longleftrightarrow> indexOf s sep \<noteq> None"

text \<open>\<open>strings.LastIndex\<close> for a separator of one byte.\<close>

fun LastIndexByte :: "string \<Rightarrow> char \<Rightarrow> int" where
  "LastIndexByte [] b = - 1"
| "LastIndexByte (c # s) b =
     (let i = LastIndexByte s b in if i \<ge> 0 then i + 1 else if c = b then 0 else - 1)"

text \<open>\<open>strings.FieldsFunc\<close> for a predicate on ASCII bytes: maximal runs without a separator.\<close>

fun fieldsAux :: "(char \<Rightarrow> bool) \<Rightarrow> string \<Rightarrow> string \<Rightarrow> string list" where
  "fieldsAux f cur [] = (if cur = [] then [] else [rev cur])"
| "fieldsAux f cur (c # s) =
     (if f c then (if cur = [] then fieldsAux f [] s else rev cur # fieldsAux f [] s)
      else fieldsAux f (c # cur) s)"

definition FieldsFunc :: "(char \<Rightarrow> bool) \<Rightarrow> string \<Rightarrow> string list" where
  "FieldsFunc f s = fieldsAux f [] s"

text \<open>\<open>strings.Split\<close> for a separator of one byte: every part, empty ones included.\<close>

fun splitByteAux :: "char \<Rightarrow> string \<Rightarrow> string \<Rightarrow> string list" where
  "splitByteAux b cur [] = [rev cur]"
| "splitByteAux b cur (c # s) =
     (if c = b then rev cur # splitByteAux b [] s else splitByteAux b (c # cur) s)"

definition SplitByte :: "string \<Rightarrow> char \<Rightarrow> string list" where
  "SplitByte s b = splitByteAux b [] s"

text \<open>\<open>strings.Join\<close>.\<close>

fun Join :: "string list \<Rightarrow> string \<Rightarrow> string" where
  "Join [] sep = []"
| "Join [x] sep = x"
| "Join (x # y # xs) sep = x @ sep @ Join (y # xs) sep"

section \<open>Unicode space\<close>

text \<open>The UTF-8 encodings of the runes \<open>unicode.IsSpace\<close> accepts.\<close>

definition goSpaces :: "string list" where
  "goSpaces =
     [[CHR 0x20], [CHR 0x09], [CHR 0x0A], [CHR 0x0B], [CHR 0x0C], [CHR 0x0D],
      [CHR 0xC2, CHR 0x85], [CHR 0xC2, CHR 0xA0], [CHR 0xE1, CHR 0x9A, CHR 0x80],
      [CHR 0xE2, CHR 0x80, CHR 0x80], [CHR 0xE2, CHR 0x80, CHR 0x81],
      [CHR 0xE2, CHR 0x80, CHR 0x82], [CHR 0xE2, CHR 0x80, CHR 0x83],
      [CHR 0xE2, CHR 0x80, CHR 0x84], [CHR 0xE2, CHR 0x80, CHR 0x85],
      [CHR 0xE2, CHR 0x80, CHR 0x86], [CHR 0xE2, CHR 0x80, CHR 0x87],
      [CHR 0xE2, CHR 0x80, CHR 0x88], [CHR 0xE2, CHR 0x80, CHR 0x89],
      [CHR 0xE2, CHR 0x80, CHR 0x8A], [CHR 0xE2, CHR 0x80, CHR 0xA8],
      [CHR 0xE2, CHR 0x80, CHR 0xA9], [CHR 0xE2, CHR 0x80, CHR 0xAF],
      [CHR 0xE2, CHR 0x81, CHR 0x9F], [CHR 0xE3, CHR 0x80, CHR 0x80]]"

text \<open>Strip every leading member of \<open>ws\<close> (the fuel is the length of the string).\<close>

fun stripFuel :: "nat \<Rightarrow> string list \<Rightarrow> string \<Rightarrow> string" where
  "stripFuel 0 ws s = s"
| "stripFuel (Suc n) ws s =
     (case find (\<lambda>w. prefix w s) ws of
        None \<Rightarrow> s
      | Some w \<Rightarrow> stripFuel n ws (drop (length w) s))"

definition stripLeft :: "string list \<Rightarrow> string \<Rightarrow> string" where
  "stripLeft ws s = stripFuel (length s) ws s"

definition TrimSpace :: "string \<Rightarrow> string" where
  "TrimSpace s = rev (stripLeft (map rev goSpaces) (rev (stripLeft goSpaces s)))"

text \<open>\<open>strings.Fields\<close>.\<close>

fun fieldsSpaceFuel :: "nat \<Rightarrow> string \<Rightarrow> string \<Rightarrow> string list" where
  "fieldsSpaceFuel 0 cur s = (if cur = [] then [] else [rev cur])"
| "fieldsSpaceFuel (Suc n) cur s =
     (case s of
        [] \<Rightarrow> (if cur = [] then [] else [rev cur])
      | c # cs \<Rightarrow>
          (case find (\<lambda>w. prefix w s) goSpaces of
             None \<Rightarrow> fieldsSpaceFuel n (c # cur) cs
           | Some w \<Rightarrow>
               (if cur = [] then fieldsSpaceFuel n [] (drop (length w) s)
                else rev cur # fieldsSpaceFuel n [] (drop (length w) s))))"

definition Fields :: "string \<Rightarrow> string list" where
  "Fields s = fieldsSpaceFuel (Suc (length s)) [] s"

section \<open>Runes\<close>

text \<open>\<open>utf8.DecodeRuneInString\<close> on a string that starts with \<open>c\<close>: the rune and its width.\<close>

definition runeError :: nat where
  "runeError = 65533"

definition contByte :: "nat \<Rightarrow> nat \<Rightarrow> string \<Rightarrow> nat \<Rightarrow> bool" where
  "contByte lo hi s i \<longleftrightarrow> i < length s \<and> lo \<le> byte (s ! i) \<and> byte (s ! i) \<le> hi"

definition decodeRune :: "char \<Rightarrow> string \<Rightarrow> nat \<times> nat" where
  "decodeRune c s =
     (let b = byte c; v = (\<lambda>i. byte (s ! i) - 128) in
      if b < 128 then (b, 1)
      else if 194 \<le> b \<and> b \<le> 223 \<and> contByte 128 191 s 0
        then ((b - 192) * 64 + v 0, 2)
      else if 224 \<le> b \<and> b \<le> 239 \<and>
          contByte (if b = 224 then 160 else 128) (if b = 237 then 159 else 191) s 0 \<and>
          contByte 128 191 s 1
        then ((b - 224) * 4096 + v 0 * 64 + v 1, 3)
      else if 240 \<le> b \<and> b \<le> 244 \<and>
          contByte (if b = 240 then 144 else 128) (if b = 244 then 143 else 191) s 0 \<and>
          contByte 128 191 s 1 \<and> contByte 128 191 s 2
        then ((b - 240) * 262144 + v 0 * 4096 + v 1 * 64 + v 2, 4)
      else (runeError, 1))"

text \<open>The runes a \<open>for _, r := range s\<close> loop visits.\<close>

function runes :: "string \<Rightarrow> nat list" where
  "runes [] = []"
| "runes (c # s) =
     (case decodeRune c s of (r, w) \<Rightarrow> r # runes (drop (w - 1) s))"
  by pat_completeness auto
termination
  by (relation "measure length") (auto simp: less_Suc_eq_le)

text \<open>The zero digits of Unicode category Nd (Unicode 15, the tables of Go 1.25).\<close>

definition ndZeros :: "nat list" where
  "ndZeros =
     [0x30, 0x660, 0x6F0, 0x7C0, 0x966, 0x9E6, 0xA66, 0xAE6, 0xB66, 0xBE6, 0xC66, 0xCE6,
      0xD66, 0xDE6, 0xE50, 0xED0, 0xF20, 0x1040, 0x1090, 0x17E0, 0x1810, 0x1946, 0x19D0,
      0x1A80, 0x1A90, 0x1B50, 0x1BB0, 0x1C40, 0x1C50, 0xA620, 0xA8D0, 0xA900, 0xA9D0,
      0xA9F0, 0xAA50, 0xABF0, 0xFF10, 0x104A0, 0x10D30, 0x11066, 0x110F0, 0x11136,
      0x111D0, 0x112F0, 0x11450, 0x114D0, 0x11650, 0x116C0, 0x11730, 0x118E0, 0x11950,
      0x11C50, 0x11D50, 0x11DA0, 0x11F50, 0x16A60, 0x16AC0, 0x16B50, 0x1D7CE, 0x1D7D8,
      0x1D7E2, 0x1D7EC, 0x1D7F6, 0x1E140, 0x1E2F0, 0x1E4D0, 0x1E950, 0x1FBF0]"

definition unicodeIsDigit :: "nat \<Rightarrow> bool" where
  "unicodeIsDigit r \<longleftrightarrow> list_ex (\<lambda>z. z \<le> r \<and> r < z + 10) ndZeros"

text \<open>\<open>r <= unicode.MaxASCII && unicode.IsLetter(r)\<close>.\<close>

definition asciiLetterRune :: "nat \<Rightarrow> bool" where
  "asciiLetterRune r \<longleftrightarrow> (65 \<le> r \<and> r \<le> 90) \<or> (97 \<le> r \<and> r \<le> 122)"

lemma unicodeIsDigit_ascii [simp]: "r < 128 \<Longrightarrow> unicodeIsDigit r \<longleftrightarrow> 48 \<le> r \<and> r \<le> 57"
  by (auto simp: unicodeIsDigit_def ndZeros_def)

section \<open>Decimal integers\<close>

definition isDigitChar :: "char \<Rightarrow> bool" where
  "isDigitChar c \<longleftrightarrow> 48 \<le> byte c \<and> byte c \<le> 57"

fun digitsVal :: "string \<Rightarrow> int \<Rightarrow> int" where
  "digitsVal [] acc = acc"
| "digitsVal (c # s) acc = digitsVal s (acc * 10 + (int (byte c) - 48))"

text \<open>\<open>fmt.Sprintf("%d", i)\<close> and \<open>strconv.Itoa\<close>.\<close>

fun natDigits :: "nat \<Rightarrow> string" where
  "natDigits n = (if n < 10 then [char_of (48 + n)] else natDigits (n div 10) @ [char_of (48 + n mod 10)])"

declare natDigits.simps [simp del]

definition fmtInt :: "int \<Rightarrow> string" where
  "fmtInt i = (if i < 0 then CHR ''-'' # natDigits (nat (- i)) else natDigits (nat i))"

text \<open>A \<open>float64\<close>, its finite values exact.\<close>

datatype go_float = Finite rat | PosInf | NegInf | NaN

text \<open>\<open>strconv.Atoi\<close>: an optional sign, at least one digit, the range of a 64-bit integer.\<close>

definition Atoi :: "string \<Rightarrow> int option" where
  "Atoi s =
     (let neg = (take 1 s = ''-'');
          ds = (if neg \<or> take 1 s = ''+'' then drop 1 s else s);
          v = (if neg then - digitsVal ds 0 else digitsVal ds 0) in
      if ds = [] \<or> \<not> list_all isDigitChar ds then None
      else if - (2 ^ 63) \<le> v \<and> v < 2 ^ 63 then Some v else None)"

lemma byte_char_of [simp]: "n < 256 \<Longrightarrow> byte (char_of n) = n"
  by simp

lemma natDigits_digit: "\<forall>c\<in>set (natDigits n). isDigitChar c"
proof (induction n rule: natDigits.induct)
  case (1 n)
  then show ?case by (subst natDigits.simps) (auto simp: isDigitChar_def)
qed

lemma natDigits_not_Nil: "natDigits n \<noteq> []"
  by (subst natDigits.simps) simp

lemma digitsVal_append: "digitsVal (xs @ ys) acc = digitsVal ys (digitsVal xs acc)"
  by (induction xs arbitrary: acc) simp_all

lemma digitsVal_natDigits: "digitsVal (natDigits n) 0 = int n"
proof (induction n rule: natDigits.induct)
  case (1 n)
  show ?case
  proof (cases "n < 10")
    case True
    then show ?thesis by (subst natDigits.simps) simp
  next
    case False
    then have "int (n div 10) * 10 + int (n mod 10) = int n" by presburger
    with 1 False show ?thesis by (subst natDigits.simps) (simp add: digitsVal_append)
  qed
qed

lemma natDigits_head: "take 1 (natDigits n) \<noteq> ''-'' \<and> take 1 (natDigits n) \<noteq> ''+''"
  using natDigits_digit [of n] by (cases "natDigits n") (auto simp: isDigitChar_def)

lemma Atoi_fmtInt:
  assumes "- (2 ^ 63) \<le> i" "i < 2 ^ 63"
  shows "Atoi (fmtInt i) = Some i"
proof (cases "i < 0")
  case True
  then show ?thesis
    using assms natDigits_digit [of "nat (- i)"] natDigits_not_Nil [of "nat (- i)"]
    by (simp add: Atoi_def fmtInt_def digitsVal_natDigits list_all_iff)
next
  case False
  then show ?thesis
    using assms natDigits_digit [of "nat i"] natDigits_not_Nil [of "nat i"] natDigits_head [of "nat i"]
    by (simp add: Atoi_def fmtInt_def digitsVal_natDigits list_all_iff)
qed

section \<open>Shared list lemmas\<close>

lemma distinct_filter_le1: "distinct (map f xs) \<Longrightarrow> length (filter (\<lambda>x. f x = k) xs) \<le> 1"
proof (induction xs)
  case (Cons x xs)
  then show ?case by (auto simp: filter_empty_conv image_iff)
qed simp

section \<open>Shared string lemmas\<close>

lemma splitByteAux_last: "b \<notin> set xs \<Longrightarrow> splitByteAux b cur xs = [rev cur @ xs]"
  by (induction xs arbitrary: cur) auto

lemma splitByteAux_sep:
  "b \<notin> set xs \<Longrightarrow> splitByteAux b cur (xs @ b # ys) = (rev cur @ xs) # splitByteAux b [] ys"
  by (induction xs arbitrary: cur) auto

definition graphic :: "char \<Rightarrow> bool" where
  "graphic c \<longleftrightarrow> 33 \<le> byte c \<and> byte c < 127"

lemma stripLeft_none:
  assumes "\<And>w. w \<in> set ws \<Longrightarrow> w \<noteq> [] \<and> hd w \<noteq> c"
  shows "stripLeft ws (c # s) = c # s"
proof -
  have "find (\<lambda>w. prefix w (c # s)) ws = None"
    using assms by (fastforce simp: find_None_iff prefix_Cons)
  then show ?thesis by (simp add: stripLeft_def)
qed

lemma goSpaces_graphic:
  "graphic c \<Longrightarrow> w \<in> set goSpaces \<Longrightarrow> w \<noteq> [] \<and> hd w \<noteq> c \<and> last w \<noteq> c"
  by (auto simp: goSpaces_def graphic_def)

lemma TrimSpace_graphic:
  assumes "s \<noteq> []" "graphic (hd s)" "graphic (last s)"
  shows "TrimSpace s = s"
proof -
  obtain c t where s: "s = c # t" using assms(1) by (cases s) auto
  have 1: "stripLeft goSpaces s = s"
    unfolding s by (rule stripLeft_none) (use goSpaces_graphic assms(2) s in auto)
  obtain d u where r: "rev s = d # u" using assms(1) by (cases "rev s") auto
  then have d: "d = last s" by (metis hd_rev list.sel(1))
  have "stripLeft (map rev goSpaces) (d # u) = d # u"
  proof (rule stripLeft_none)
    fix w
    assume "w \<in> set (map rev goSpaces)"
    then obtain v where "v \<in> set goSpaces" "w = rev v" by auto
    then show "w \<noteq> [] \<and> hd w \<noteq> d"
      using goSpaces_graphic [OF assms(3), of v] d by (simp add: hd_rev)
  qed
  with 1 r show ?thesis by (simp add: TrimSpace_def flip: r)
qed

lemma natDigits_graphic: "\<forall>c\<in>set (natDigits n). graphic c \<and> c \<noteq> CHR ''$''"
  using natDigits_digit [of n] by (force simp: graphic_def isDigitChar_def)

end
