(* ===== verification/Base64.thy ===== *)
theory Base64
  imports GoBase
begin

text \<open>
  The unpadded encodings of Go's \<open>encoding/base64\<close> (\<open>RawURLEncoding\<close>, \<open>RawStdEncoding\<close>): an
  encoder, the lenient decoder (carriage returns and newlines are skipped, unused trailing bits
  are ignored), the round trip, and where the byte \<open>-\<close> can occur in the encoding of ASCII data; and
  the padded \<open>StdEncoding\<close> on top of them.
\<close>

section \<open>Definitions\<close>

definition stdAlphabet :: string where
  "stdAlphabet = ''ABCDEFGHIJKLMNOPQRSTUVWXYZabcdefghijklmnopqrstuvwxyz0123456789+/''"

definition urlAlphabet :: string where
  "urlAlphabet = ''ABCDEFGHIJKLMNOPQRSTUVWXYZabcdefghijklmnopqrstuvwxyz0123456789-_''"

fun encodeSextets :: "string \<Rightarrow> nat list" where
  "encodeSextets [] = []"
| "encodeSextets [a] = [byte a div 4, byte a mod 4 * 16]"
| "encodeSextets [a, b] =
     [byte a div 4, byte a mod 4 * 16 + byte b div 16, byte b mod 16 * 4]"
| "encodeSextets (a # b # c # s) =
     byte a div 4 # (byte a mod 4 * 16 + byte b div 16) #
     (byte b mod 16 * 4 + byte c div 64) # (byte c mod 64) # encodeSextets s"

fun decodeSextets :: "nat list \<Rightarrow> string option" where
  "decodeSextets [] = Some []"
| "decodeSextets [w] = None"
| "decodeSextets [w, x] = Some [char_of (w * 4 + x div 16)]"
| "decodeSextets [w, x, y] =
     Some [char_of (w * 4 + x div 16), char_of (x mod 16 * 16 + y div 4)]"
| "decodeSextets (w # x # y # z # vs) =
     map_option (\<lambda>t. char_of (w * 4 + x div 16) # char_of (x mod 16 * 16 + y div 4) #
       char_of (y mod 4 * 64 + z) # t) (decodeSextets vs)"

fun alphabetValue :: "string \<Rightarrow> char \<Rightarrow> nat option" where
  "alphabetValue [] c = None"
| "alphabetValue (a # al) c = (if a = c then Some 0 else map_option Suc (alphabetValue al c))"

fun sextetsOf :: "string \<Rightarrow> string \<Rightarrow> nat list option" where
  "sextetsOf al [] = Some []"
| "sextetsOf al (c # s) =
     (if c = CHR 0x0D \<or> c = CHR 0x0A then sextetsOf al s
      else case alphabetValue al c of
        None \<Rightarrow> None
      | Some v \<Rightarrow> map_option (Cons v) (sextetsOf al s))"

definition rawEncode :: "string \<Rightarrow> string \<Rightarrow> string" where
  "rawEncode al s = map (\<lambda>v. al ! v) (encodeSextets s)"

definition rawDecode :: "string \<Rightarrow> string \<Rightarrow> string option" where
  "rawDecode al s = Option.bind (sextetsOf al s) decodeSextets"

section \<open>Round trip\<close>

lemma char_of_byte_parts [simp]:
  "char_of (byte a div 4 * 4 + (byte a mod 4 * 16 + y) div 16) = a" if "y < 16"
proof -
  have "(byte a mod 4 * 16 + y) div 16 = byte a mod 4" using that by simp
  then show ?thesis by simp
qed

lemma char_of_byte_parts2 [simp]:
  "char_of ((x * 16 + byte b div 16) mod 16 * 16 + (byte b mod 16 * 4 + y) div 4) = b"
  if "y < 4"
proof -
  have "(x * 16 + byte b div 16) mod 16 = byte b div 16"
    using nat_of_char_less_256 [of b] by (simp add: mod_eq_self_iff_div_eq_0 div_mult2_eq [symmetric])
  moreover have "(byte b mod 16 * 4 + y) div 4 = byte b mod 16" using that by simp
  ultimately show ?thesis by simp
qed

lemma char_of_byte_parts3 [simp]:
  "char_of ((x * 4 + byte c div 64) mod 4 * 64 + byte c mod 64) = c"
proof -
  have "(x * 4 + byte c div 64) mod 4 = byte c div 64"
    using nat_of_char_less_256 [of c] by (simp add: mod_eq_self_iff_div_eq_0 div_mult2_eq [symmetric])
  then show ?thesis by simp
qed

lemma byte_div_16 [simp]: "byte b div 16 < 16" and byte_div_64 [simp]: "byte b div 64 < 4"
  using nat_of_char_less_256 [of b] by (simp_all add: less_mult_imp_div_less del: nat_of_char_less_256)

lemma decode_encodeSextets: "decodeSextets (encodeSextets s) = Some s"
proof (induction s rule: encodeSextets.induct)
  case (2 a)
  then show ?case using char_of_byte_parts [of 0 a] by simp
next
  case (3 a b)
  then show ?case using char_of_byte_parts2 [of 0 "byte a mod 4" b] by simp
qed simp_all

lemma sextet_mid16: "byte a mod 4 * 16 + byte b div 16 < 64"
proof -
  have "byte a mod 4 < 4" by simp
  with byte_div_16 [of b] show ?thesis by linarith
qed

lemma sextet_mid64: "byte a mod 16 * 4 + byte b div 64 < 64"
proof -
  have "byte a mod 16 < 16" by simp
  with byte_div_64 [of b] show ?thesis by linarith
qed

lemma encodeSextets_less_64: "\<forall>v \<in> set (encodeSextets s). v < 64"
proof (induction s rule: encodeSextets.induct)
  case (4 a b c s)
  then show ?case using nat_of_char_less_256 [of a] nat_of_char_less_256 [of b] nat_of_char_less_256 [of c]
    by (auto intro: sextet_mid16 sextet_mid64 simp: less_mult_imp_div_less)
next
  case (2 a)
  then show ?case using nat_of_char_less_256 [of a] by (auto simp: less_mult_imp_div_less)
next
  case (3 a b)
  then show ?case using nat_of_char_less_256 [of a] nat_of_char_less_256 [of b]
    by (auto intro: sextet_mid16 simp: less_mult_imp_div_less)
qed simp

text \<open>
  What a codec needs of its alphabet; the laws of the encoder and decoder follow for every such
  alphabet and are instantiated for the two of the standard library.
\<close>

locale base64_alphabet =
  fixes al :: string
  assumes al_length: "length al = 64"
    and al_distinct: "distinct al"
    and al_no_newline: "CHR 0x0D \<notin> set al" "CHR 0x0A \<notin> set al"
begin

lemma alphabetValue_nth: "v < length xs \<Longrightarrow> distinct xs \<Longrightarrow> alphabetValue xs (xs ! v) = Some v"
  by (induction xs arbitrary: v) (auto simp: nth_Cons split: nat.splits)

lemma sextetsOf_map: "\<forall>v \<in> set vs. v < 64 \<Longrightarrow> sextetsOf al (map (\<lambda>v. al ! v) vs) = Some vs"
proof (induction vs)
  case (Cons v vs)
  then have "v < length al" by (simp add: al_length)
  then have "al ! v \<in> set al" by simp
  then have "al ! v \<noteq> CHR 0x0D" "al ! v \<noteq> CHR 0x0A" using al_no_newline by metis+
  with Cons show ?case
    using alphabetValue_nth [OF \<open>v < length al\<close> al_distinct] by simp
qed simp

lemma decode_encode: "rawDecode al (rawEncode al s) = Some s"
  by (simp add: rawDecode_def rawEncode_def sextetsOf_map encodeSextets_less_64
      decode_encodeSextets)

lemma encode_eq_Nil_iff: "rawEncode al s = [] \<longleftrightarrow> s = []"
  by (cases s rule: encodeSextets.cases) (simp_all add: rawEncode_def)

lemma set_encode: "set (rawEncode al s) \<subseteq> set al"
  using encodeSextets_less_64 [of s] by (auto simp: rawEncode_def al_length)

end

interpretation urlEnc: base64_alphabet urlAlphabet
  by unfold_locales (simp_all add: urlAlphabet_def)

interpretation stdEnc: base64_alphabet stdAlphabet
  by unfold_locales (simp_all add: stdAlphabet_def)

section \<open>The padded standard encoding\<close>

definition stdEncode :: "string \<Rightarrow> string" where
  "stdEncode s =
     (let raw = rawEncode stdAlphabet s in raw @ replicate ((4 - length raw mod 4) mod 4) CHR ''='')"

text \<open>
  The decoder drops carriage returns and newlines; the rest is a multiple of four characters, and one
  or two \<open>=\<close> may close it.
\<close>

definition stripPadding :: "string \<Rightarrow> string" where
  "stripPadding t =
     (if suffix ''=='' t then take (length t - 2) t
      else if suffix ''='' t then take (length t - 1) t else t)"

definition stdDecode :: "string \<Rightarrow> string option" where
  "stdDecode s =
     (let t = filter (\<lambda>c. c \<noteq> CHR 0x0D \<and> c \<noteq> CHR 0x0A) s in
      if length t mod 4 \<noteq> 0 then None else rawDecode stdAlphabet (stripPadding t))"

lemma length_encodeSextets:
  "length (encodeSextets s) mod 4 = (if length s mod 3 = 0 then 0 else Suc (length s mod 3))"
proof (induction s rule: encodeSextets.induct)
  case (4 a b c s)
  have "length (a # b # c # s) mod 3 = length s mod 3" by simp
  moreover have "length (encodeSextets (a # b # c # s)) mod 4 = length (encodeSextets s) mod 4"
    by simp
  ultimately show ?case using 4 by simp
qed simp_all

lemma stripPadding_pad:
  assumes "CHR ''='' \<notin> set r" "k \<le> 2"
  shows "stripPadding (r @ replicate k CHR ''='') = r"
proof -
  have none: "\<not> suffix ''='' r" "\<not> suffix ''=='' r" using assms(1) by (auto simp: suffix_def)
  have one: "\<not> suffix ''=='' (r @ ''='')"
  proof
    assume "suffix ''=='' (r @ ''='')"
    then obtain u where "r @ ''='' = (u @ ''='') @ ''=''" by (auto simp: suffix_def)
    then have "r = u @ ''=''" by (simp only: append_same_eq)
    with assms(1) show False by simp
  qed
  from assms(2) consider "k = 0" | "k = 1" | "k = 2" by linarith
  then show ?thesis
  proof cases
    case 3
    then have "suffix ''=='' (r @ replicate k CHR ''='')" by (simp add: numeral_2_eq_2 suffix_def)
    with 3 show ?thesis by (simp add: stripPadding_def)
  qed (use none one in \<open>simp_all add: stripPadding_def\<close>)
qed

lemma padded_length: "((n :: nat) + (4 - n mod 4) mod 4) mod 4 = 0"
proof -
  have "(n + (4 - n mod 4) mod 4) mod 4 = (n mod 4 + (4 - n mod 4) mod 4) mod 4" by (simp only: mod_add_left_eq)
  moreover have "n mod 4 < 4" by simp
  then consider "n mod 4 = 0" | "n mod 4 = 1" | "n mod 4 = 2" | "n mod 4 = 3" by linarith
  then have "(n mod 4 + (4 - n mod 4) mod 4) mod 4 = 0" by cases simp_all
  ultimately show ?thesis by simp
qed

lemma stdDecode_stdEncode: "stdDecode (stdEncode s) = Some s"
proof -
  let ?r = "rawEncode stdAlphabet s" and ?k = "(4 - length (rawEncode stdAlphabet s) mod 4) mod 4"
  have al: "CHR ''='' \<notin> set stdAlphabet" "CHR 0x0D \<notin> set stdAlphabet" "CHR 0x0A \<notin> set stdAlphabet"
    by (simp_all add: stdAlphabet_def)
  have chars: "CHR ''='' \<notin> set ?r" "CHR 0x0D \<notin> set ?r" "CHR 0x0A \<notin> set ?r"
    using stdEnc.set_encode [of s] al by blast+
  have k: "?k \<le> 2" using length_encodeSextets [of s] by (auto simp: rawEncode_def)
  have "filter (\<lambda>c. c \<noteq> CHR 0x0D \<and> c \<noteq> CHR 0x0A) (stdEncode s) = stdEncode s"
    using chars by (auto simp: stdEncode_def Let_def filter_id_conv)
  moreover have "length (stdEncode s) mod 4 = 0" using padded_length [of "length ?r"] by (simp only: stdEncode_def Let_def length_append length_replicate)
  moreover have "stripPadding (stdEncode s) = ?r"
    using stripPadding_pad [OF chars(1) k] by (simp add: stdEncode_def Let_def)
  ultimately show ?thesis by (simp add: stdDecode_def stdEnc.decode_encode)
qed

section \<open>Dashes in the URL-safe encoding of ASCII data\<close>

text \<open>
  In the encoding of ASCII bytes a \<open>-\<close> is always the last of a group of four characters, and the
  character after it, the first of the next group, is one of the first 32 of the alphabet.
\<close>

definition lowUrl :: "char set" where
  "lowUrl = set (take 32 urlAlphabet)"

fun dashThenLow :: "string \<Rightarrow> bool" where
  "dashThenLow [] = True"
| "dashThenLow [c] = True"
| "dashThenLow (c # d # s) = ((c = CHR ''-'' \<longrightarrow> d \<in> lowUrl) \<and> dashThenLow (d # s))"

lemma urlAlphabet_dash: "v < 62 \<Longrightarrow> urlAlphabet ! v \<noteq> CHR ''-''"
proof -
  have "list_all (\<lambda>v. urlAlphabet ! v \<noteq> CHR ''-'') [0..<62]" by code_simp
  then show "v < 62 \<Longrightarrow> urlAlphabet ! v \<noteq> CHR ''-''" by (simp add: list_all_iff)
qed

lemma urlAlphabet_low: "v < 32 \<Longrightarrow> urlAlphabet ! v \<in> lowUrl"
proof -
  assume v: "v < 32"
  have len: "length (take 32 urlAlphabet) = 32" by (simp add: urlAlphabet_def)
  with v have "take 32 urlAlphabet ! v \<in> set (take 32 urlAlphabet)" by (metis nth_mem)
  with v show ?thesis by (simp add: lowUrl_def)
qed

lemma ascii_first_low: "byte a < 128 \<Longrightarrow> urlAlphabet ! (byte a div 4) \<in> lowUrl"
  by (rule urlAlphabet_low) (simp add: less_mult_imp_div_less)

lemma ascii_first_dash: "byte a < 128 \<Longrightarrow> urlAlphabet ! (byte a div 4) \<noteq> CHR ''-''"
  by (rule urlAlphabet_dash) (simp add: less_mult_imp_div_less)

lemma ascii_second_dash:
  "byte b < 128 \<Longrightarrow> urlAlphabet ! (byte a mod 4 * 16 + byte b div 16) \<noteq> CHR ''-''"
proof (rule urlAlphabet_dash)
  assume "byte b < 128"
  then have "byte b div 16 < 8" by (simp add: less_mult_imp_div_less)
  moreover have "byte a mod 4 < 4" by simp
  ultimately show "byte a mod 4 * 16 + byte b div 16 < 62" by linarith
qed

lemma ascii_third_dash:
  "byte c < 128 \<Longrightarrow> urlAlphabet ! (byte b mod 16 * 4 + byte c div 64) \<noteq> CHR ''-''"
proof (rule urlAlphabet_dash)
  assume "byte c < 128"
  then have "byte c div 64 < 2" by (simp add: less_mult_imp_div_less)
  moreover have "byte b mod 16 < 16" by simp
  ultimately show "byte b mod 16 * 4 + byte c div 64 < 62" by linarith
qed

lemma short_tail_dash:
  "urlAlphabet ! (byte a mod 4 * 16) \<noteq> CHR ''-''" "urlAlphabet ! (byte a mod 16 * 4) \<noteq> CHR ''-''"
proof -
  have "byte a mod 4 < 4" "byte a mod 16 < 16" by simp_all
  then have "byte a mod 4 * 16 < 62" "byte a mod 16 * 4 < 62" by linarith+
  then show "urlAlphabet ! (byte a mod 4 * 16) \<noteq> CHR ''-''"
    "urlAlphabet ! (byte a mod 16 * 4) \<noteq> CHR ''-''" by (simp_all add: urlAlphabet_dash)
qed

lemmas ascii_dash_facts = ascii_first_low ascii_first_dash ascii_second_dash ascii_third_dash
  short_tail_dash

lemma dashThenLow_rawEncode_Cons:
  "asciiString s \<Longrightarrow> dashThenLow (d # rawEncode urlAlphabet s)"
  by (induction s arbitrary: d rule: encodeSextets.induct)
    (simp_all add: rawEncode_def asciiString_def ascii_dash_facts)

end
