(* ===== verification/Sha256.thy ===== *)
theory Sha256
  imports GoBase
begin

unbundle bit_operations_syntax

text \<open>
  The function \<open>crypto/sha256.Sum256\<close> of the Go standard library (FIPS 180-4) on byte strings and
  its lower-case hexadecimal form, as \<open>fmt.Sprintf("%x", ...)\<close> and \<open>hex.EncodeToString\<close> print it.
\<close>

type_synonym u32 = "32 word"

text \<open>The round constants of FIPS 180-4, section 4.2.2, in decimal.\<close>

definition sha256K :: "u32 list" where
  "sha256K =
     [1116352408, 1899447441, 3049323471, 3921009573, 961987163, 1508970993, 2453635748,
      2870763221, 3624381080, 310598401, 607225278, 1426881987, 1925078388, 2162078206,
      2614888103, 3248222580, 3835390401, 4022224774, 264347078, 604807628, 770255983,
      1249150122, 1555081692, 1996064986, 2554220882, 2821834349, 2952996808, 3210313671,
      3336571891, 3584528711, 113926993, 338241895, 666307205, 773529912, 1294757372,
      1396182291, 1695183700, 1986661051, 2177026350, 2456956037, 2730485921, 2820302411,
      3259730800, 3345764771, 3516065817, 3600352804, 4094571909, 275423344, 430227734,
      506948616, 659060556, 883997877, 958139571, 1322822218, 1537002063, 1747873779,
      1955562222, 2024104815, 2227730452, 2361852424, 2428436474, 2756734187, 3204031479,
      3329325298]"

definition rotr32 :: "nat \<Rightarrow> u32 \<Rightarrow> u32" where
  "rotr32 n w = drop_bit n w OR push_bit (32 - n) w"

text \<open>Big-endian bytes of a number, most significant first.\<close>

fun beBytes :: "nat \<Rightarrow> nat \<Rightarrow> nat list" where
  "beBytes 0 v = []"
| "beBytes (Suc n) v = beBytes n (v div 256) @ [v mod 256]"

definition sha256Pad :: "nat list \<Rightarrow> nat list" where
  "sha256Pad m =
     m @ [128] @ replicate ((119 - length m mod 64) mod 64) 0 @ beBytes 8 (8 * length m)"

fun beWords :: "nat list \<Rightarrow> u32 list" where
  "beWords (a # b # c # d # s) =
     word_of_nat (a * 16777216 + b * 65536 + c * 256 + d) # beWords s"
| "beWords _ = []"

text \<open>The message schedule, built newest word first.\<close>

fun extendSchedule :: "nat \<Rightarrow> u32 list \<Rightarrow> u32 list" where
  "extendSchedule 0 w = w"
| "extendSchedule (Suc n) w =
     (let x = w ! 14; y = w ! 1;
          s0 = rotr32 7 x XOR rotr32 18 x XOR drop_bit 3 x;
          s1 = rotr32 17 y XOR rotr32 19 y XOR drop_bit 10 y
      in extendSchedule n ((w ! 15 + s0 + w ! 6 + s1) # w))"

definition sha256Round :: "u32 list \<Rightarrow> u32 \<times> u32 \<Rightarrow> u32 list" where
  "sha256Round v kw =
     (case v of [a, b, c, d, e, f, g, h] \<Rightarrow>
        let s1 = rotr32 6 e XOR rotr32 11 e XOR rotr32 25 e;
            ch = (e AND f) XOR (NOT e AND g);
            t1 = h + s1 + ch + fst kw + snd kw;
            s0 = rotr32 2 a XOR rotr32 13 a XOR rotr32 22 a;
            maj = (a AND b) XOR (a AND c) XOR (b AND c);
            t2 = s0 + maj
        in [t1 + t2, a, b, c, d + t1, e, f, g]
      | _ \<Rightarrow> v)"

definition sha256Block :: "u32 list \<Rightarrow> u32 list \<Rightarrow> u32 list" where
  "sha256Block hs ws =
     map2 (+) hs (foldl sha256Round hs (zip sha256K (rev (extendSchedule 48 (rev ws)))))"

fun sha256Blocks :: "nat \<Rightarrow> u32 list \<Rightarrow> u32 list \<Rightarrow> u32 list" where
  "sha256Blocks 0 hs ws = hs"
| "sha256Blocks (Suc n) hs ws =
     (if ws = [] then hs else sha256Blocks n (sha256Block hs (take 16 ws)) (drop 16 ws))"

definition Sum256 :: "string \<Rightarrow> nat list" where
  "Sum256 s =
     (let ws = beWords (sha256Pad (map of_char s)) in
      concat (map (\<lambda>w. beBytes 4 (unat w))
        (sha256Blocks (length ws)
          [0x6a09e667, 0xbb67ae85, 0x3c6ef372, 0xa54ff53a, 0x510e527f, 0x9b05688c, 0x1f83d9ab,
           0x5be0cd19] ws)))"

definition hexDigit :: "nat \<Rightarrow> char" where
  "hexDigit n = ''0123456789abcdef'' ! n"

definition hexEncode :: "nat list \<Rightarrow> string" where
  "hexEncode bs = concat (map (\<lambda>b. [hexDigit (b div 16), hexDigit (b mod 16)]) bs)"

definition sha256Hex :: "string \<Rightarrow> string" where
  "sha256Hex s = hexEncode (Sum256 s)"

section \<open>Shape of the digest\<close>

lemma length_beBytes [simp]: "length (beBytes n v) = n"
  by (induction n arbitrary: v) simp_all

lemma beBytes_less: "\<forall>b \<in> set (beBytes n v). b < 256"
  by (induction n arbitrary: v) auto

lemma length_sha256Round [simp]: "length (sha256Round v kw) = length v"
  by (auto simp: sha256Round_def Let_def split: list.split)

lemma length_foldl_sha256Round [simp]: "length (foldl sha256Round v kws) = length v"
  by (induction kws arbitrary: v) simp_all

lemma length_sha256Blocks [simp]: "length (sha256Blocks n hs ws) = length hs"
  by (induction n arbitrary: hs ws) (simp_all add: sha256Block_def)

lemma length_Sum256: "length (Sum256 s) = 32"
proof -
  have "length (concat (map (\<lambda>w. beBytes 4 (unat w)) vs)) = 4 * length vs" for vs :: "u32 list"
    by (induction vs) simp_all
  then show ?thesis by (simp add: Sum256_def Let_def)
qed

lemma length_hexEncode [simp]: "length (hexEncode bs) = 2 * length bs"
  by (induction bs) (simp_all add: hexEncode_def)

lemma length_sha256Hex: "length (sha256Hex s) = 64"
  by (simp add: sha256Hex_def length_Sum256)

end
