(* ===== verification/Auth.thy ===== *)
theory Auth
  imports Base64 Sha256
begin

text \<open>
  The package \<open>auth\<close> (\<open>src/auth/dsl.go\<close>, \<open>src/auth/credentials.go\<close>): the routing DSL carried in a proxy username,
  \<open>base[-region-cc][-unlock-token][-node-pin][-session-id]\<close>. The definitions follow the parser
  function by function; the lemmas give the grammar the parser accepts, the shape of what it
  returns, and the round trip with the encoder of node-key pins.
\<close>

section \<open>Data\<close>

record ParsedUsername =
  uBase :: string
  uRegion :: string
  uSession :: string
  uUnlock :: "string list"
  uNode :: string

datatype auth_error =
    UsernameEmpty
  | BaseEmpty
  | InvalidSuffix string
  | RegionNotAlpha2
  | SessionEmpty
  | SessionTooLong
  | SessionInvalidChars
  | UnlockEmpty
  | UnknownUnlock string
  | NodeKeyNotToken
  | NodeKeyNotBase64
  | NodePinEmpty
  | NodePinTooLong
  | NodePinNotAddress
  | RuntimePanic \<comment> \<open>a slice expression out of range\<close>

definition maxSessionLength :: nat where
  "maxSessionLength = 64"

definition maxNodeLength :: nat where
  "maxNodeLength = 255"

definition nodeKeyPrefix :: string where
  "nodeKeyPrefix = ''key-''"

section \<open>Splitting at the markers\<close>

text \<open>\<open>firstMarker\<close>: the least non-negative argument, or the last argument when there is none.\<close>

definition firstMarker :: "int list \<Rightarrow> int" where
  "firstMarker positions =
     (let e = foldl (\<lambda>e p. if p < 0 then e else if e < 0 \<or> p < e then p else e) (- 1) positions
      in if e < 0 then last positions else e)"

definition splitValue :: "string \<Rightarrow> string \<times> string" where
  "splitValue raw =
     (let regionStart = Index raw ''-region-'';
          unlockStart = Index raw ''-unlock-'';
          sessionStart = Index raw ''-session-'';
          nodeStart = Index raw ''-node-'';
          valueEnd = nat (firstMarker [regionStart, unlockStart, sessionStart, nodeStart,
            int (length raw)])
      in (take valueEnd raw, drop valueEnd raw))"

section \<open>Character classes\<close>

definition isASCIIAlpha :: "nat \<Rightarrow> bool" where
  "isASCIIAlpha r = asciiLetterRune r"

definition isAlpha :: "string \<Rightarrow> bool" where
  "isAlpha v = list_all asciiLetterRune (runes v)"

definition isSessionID :: "string \<Rightarrow> bool" where
  "isSessionID v =
     list_all (\<lambda>r. r = 45 \<or> r = 95 \<or> unicodeIsDigit r \<or> isASCIIAlpha r) (runes v)"

definition isNodeKeyWireToken :: "string \<Rightarrow> bool" where
  "isNodeKeyWireToken v =
     (if v = [] then False
      else list_all (\<lambda>r. unicodeIsDigit r \<or> isASCIIAlpha r \<or> r = 45 \<or> r = 95) (runes v))"

definition isNodeAddress :: "string \<Rightarrow> bool" where
  "isNodeAddress v =
     (let colon = LastIndexByte v CHR '':'' in
      if colon \<le> 0 \<or> colon = int (length v) - 1 then False
      else let host = take (nat colon) v; port = drop (nat colon + 1) v in
        if Contains host '':'' then False
        else list_all (\<lambda>r. r = 46 \<or> r = 45 \<or> unicodeIsDigit r \<or> isASCIIAlpha r) (runes host) \<and>
          list_all unicodeIsDigit (runes port))"

section \<open>Parsing one suffix\<close>

definition parseRegion :: "string \<Rightarrow> auth_error + string \<times> string" where
  "parseRegion raw =
     (case splitValue raw of (v, rest) \<Rightarrow>
        if length v \<noteq> 2 \<or> \<not> isAlpha v then Inl RegionNotAlpha2
        else Inr (ToLower v, rest))"

definition parseSession :: "string \<Rightarrow> auth_error + string \<times> string" where
  "parseSession raw =
     (case splitValue raw of (v, rest) \<Rightarrow>
        if v = [] then Inl SessionEmpty
        else if length v > maxSessionLength then Inl SessionTooLong
        else if \<not> isSessionID v then Inl SessionInvalidChars
        else Inr (v, rest))"

definition normalizeUnlockToken :: "string \<Rightarrow> auth_error + string list" where
  "normalizeUnlockToken token =
     (let t = ToLower (TrimSpace token) in
      if t \<in> {''gpt'', ''openai'', ''chatgpt''} then Inr [''openai'']
      else if t = ''claude'' then Inr [''claude'']
      else if t = ''gemini'' then Inr [''gemini'']
      else if t = ''grok'' then Inr [''grok'']
      else if t \<in> {''cf'', ''cloudflare''} then Inr [''cf'']
      else if t = ''all'' then Inr [''openai'', ''claude'', ''grok'', ''gemini'', ''cf'']
      else Inl (UnknownUnlock token))"

text \<open>The closure \<open>add\<close> of \<open>parseUnlock\<close>: append the names not seen so far.\<close>

definition addUnseen :: "string list \<Rightarrow> string list \<Rightarrow> string list" where
  "addUnseen out names = foldl (\<lambda>out n. if n \<in> set out then out else out @ [n]) out names"

fun addTokens :: "string list \<Rightarrow> string list \<Rightarrow> auth_error + string list" where
  "addTokens out [] = Inr out"
| "addTokens out (p # parts) =
     (case normalizeUnlockToken p of
        Inl e \<Rightarrow> Inl e
      | Inr names \<Rightarrow> addTokens (addUnseen out names) parts)"

definition parseUnlock :: "string \<Rightarrow> auth_error + string list \<times> string" where
  "parseUnlock raw =
     (case splitValue raw of (v, rest) \<Rightarrow>
        if v = [] then Inl UnlockEmpty
        else let parts = FieldsFunc (\<lambda>c. c = CHR ''+'' \<or> c = CHR '','') v in
          if parts = [] then Inl UnlockEmpty
          else case addTokens [] parts of
              Inl e \<Rightarrow> Inl e
            | Inr out \<Rightarrow> if out = [] then Inl UnlockEmpty else Inr (out, rest))"

definition parseNode :: "string \<Rightarrow> auth_error + string \<times> string" where
  "parseNode raw =
     (if HasPrefix raw nodeKeyPrefix then
        (case splitValue raw of (v, rest) \<Rightarrow>
           if length v < length nodeKeyPrefix then Inl RuntimePanic
           else let enc = drop (length nodeKeyPrefix) v in
           if enc = [] \<or> \<not> isNodeKeyWireToken enc then Inl NodeKeyNotToken
           else case rawDecode urlAlphabet enc of
               None \<Rightarrow> Inl NodeKeyNotBase64
             | Some decoded \<Rightarrow>
                 if decoded = [] then Inl NodeKeyNotBase64
                 else Inr (nodeKeyPrefix @ decoded, rest))
      else
        (case splitValue raw of (v, rest) \<Rightarrow>
           if v = [] then Inl NodePinEmpty
           else if length v > maxNodeLength then Inl NodePinTooLong
           else if \<not> isNodeAddress v then Inl NodePinNotAddress
           else Inr (v, rest)))"

definition EncodeNodeKeyPin :: "string \<Rightarrow> string" where
  "EncodeNodeKeyPin nodeKey =
     (let k = TrimSpace nodeKey in if k = [] then [] else rawEncode urlAlphabet k)"

section \<open>ParseUsername\<close>

text \<open>
  Each suffix is optional: when the remainder starts with its marker, the rest after the marker is
  parsed and the field set, otherwise the field and the remainder stay as they are. The four
  \<open>if strings.HasPrefix(remainder, ...)\<close> statements of the source share this shape.
\<close>

definition optSuffix ::
  "string \<Rightarrow> (string \<Rightarrow> auth_error + 'a \<times> string) \<Rightarrow> ('a \<Rightarrow> ParsedUsername \<Rightarrow> ParsedUsername) \<Rightarrow>
   ParsedUsername \<times> string \<Rightarrow> auth_error + ParsedUsername \<times> string" where
  "optSuffix marker parse setField st =
     (case st of (parsed, remainder) \<Rightarrow>
        if HasPrefix remainder marker then
          (case parse (drop (length marker) remainder) of
             Inl e \<Rightarrow> Inl e
           | Inr (v, rest) \<Rightarrow> Inr (setField v parsed, rest))
        else Inr (parsed, remainder))"

definition andThen :: "'e + 'a \<Rightarrow> ('a \<Rightarrow> 'e + 'b) \<Rightarrow> 'e + 'b" where
  "andThen r f = (case r of Inl e \<Rightarrow> Inl e | Inr a \<Rightarrow> f a)"

definition ParseUsername :: "string \<Rightarrow> auth_error + ParsedUsername" where
  "ParseUsername raw =
     (if raw = [] then Inl UsernameEmpty
      else let regionStart = Index raw ''-region-'';
               unlockStart = Index raw ''-unlock-'';
               sessionStart = Index raw ''-session-'';
               nodeStart = Index raw ''-node-'';
               baseEnd = firstMarker [regionStart, unlockStart, sessionStart, nodeStart,
                 int (length raw)]
           in if baseEnd = 0 then Inl BaseEmpty
              else let parsed = \<lparr>uBase = take (nat baseEnd) raw, uRegion = [], uSession = [],
                         uUnlock = [], uNode = []\<rparr>;
                       remainder = drop (nat baseEnd) raw
                   in if remainder = [] then Inr parsed
                      else andThen
                        (andThen (andThen (andThen
                          (optSuffix ''-region-'' parseRegion (\<lambda>v p. p\<lparr>uRegion := v\<rparr>)
                             (parsed, remainder))
                          (optSuffix ''-unlock-'' parseUnlock (\<lambda>v p. p\<lparr>uUnlock := v\<rparr>)))
                          (optSuffix ''-node-'' parseNode (\<lambda>v p. p\<lparr>uNode := v\<rparr>)))
                          (optSuffix ''-session-'' parseSession (\<lambda>v p. p\<lparr>uSession := v\<rparr>)))
                        (\<lambda>(p, rem). if rem \<noteq> [] then Inl (InvalidSuffix rem) else Inr p))"

section \<open>Credentials\<close>

text \<open>\<open>subtle.ConstantTimeCompare(x, y) == 1\<close> holds exactly for equal byte strings.\<close>

definition ConstantTimeCompare :: "string \<Rightarrow> string \<Rightarrow> nat" where
  "ConstantTimeCompare x y = (if length x = length y \<and> x = y then 1 else 0)"

definition VerifyPasswordHash :: "string \<Rightarrow> string \<Rightarrow> string \<Rightarrow> string \<Rightarrow> bool" where
  "VerifyPasswordHash base password expectedBase expectedHash =
     (let baseMatch = (ConstantTimeCompare base expectedBase = 1);
          passwordHash = sha256Hex password;
          passwordMatch = (ConstantTimeCompare passwordHash expectedHash = 1)
      in baseMatch \<and> passwordMatch)"

definition VerifyPlainPassword :: "string \<Rightarrow> string \<Rightarrow> string \<Rightarrow> string \<Rightarrow> bool" where
  "VerifyPlainPassword base password expectedBase expectedPassword =
     (let baseMatch = (ConstantTimeCompare base expectedBase = 1);
          passwordMatch = (ConstantTimeCompare password expectedPassword = 1)
      in baseMatch \<and> passwordMatch)"

definition VerifyPassword :: "string \<Rightarrow> string \<Rightarrow> string \<Rightarrow> string \<Rightarrow> string \<Rightarrow> bool" where
  "VerifyPassword base password expectedBase expectedPassword expectedHash =
     (if expectedHash \<noteq> [] then VerifyPasswordHash base password expectedBase expectedHash
      else VerifyPlainPassword base password expectedBase expectedPassword)"

section \<open>What splitValue cuts\<close>

definition markers :: "string list" where
  "markers = [''-region-'', ''-unlock-'', ''-session-'', ''-node-'']"

definition startsMarker :: "string \<Rightarrow> bool" where
  "startsMarker s \<longleftrightarrow> list_ex (\<lambda>m. prefix m s) markers"

definition markerFree :: "string \<Rightarrow> bool" where
  "markerFree s \<longleftrightarrow> list_all (\<lambda>t. \<not> startsMarker t) (suffixes s)"

text \<open>The reference reading of \<open>splitValue\<close>: stop at the first position where a marker starts.\<close>

fun cut :: "string \<Rightarrow> string \<times> string" where
  "cut [] = ([], [])"
| "cut (c # s) =
     (if startsMarker (c # s) then ([], c # s) else (case cut s of (v, r) \<Rightarrow> (c # v, r)))"

lemma in_markers:
  "''-region-'' \<in> set markers" "''-unlock-'' \<in> set markers"
  "''-session-'' \<in> set markers" "''-node-'' \<in> set markers"
  by (simp_all add: markers_def)

abbreviation markerPositions :: "string \<Rightarrow> int list" where
  "markerPositions s \<equiv>
     [Index s ''-region-'', Index s ''-unlock-'', Index s ''-session-'', Index s ''-node-'',
      int (length s)]"

lemma Index_ge: "- 1 \<le> Index s m"
  by (simp add: Index_def split: option.split)

lemma Index_Cons:
  "m \<noteq> [] \<Longrightarrow> Index (c # s) m =
     (if prefix m (c # s) then 0 else if Index s m < 0 then - 1 else Index s m + 1)"
  by (auto simp: Index_def split: option.split)

lemma Index_Nil: "m \<noteq> [] \<Longrightarrow> Index [] m = - 1"
  by (simp add: Index_def)

lemma firstMarker_zero:
  assumes "- 1 \<le> a" "- 1 \<le> b" "- 1 \<le> c" "- 1 \<le> d" "0 \<le> n"
    and "a = 0 \<or> b = 0 \<or> c = 0 \<or> d = 0 \<or> n = 0"
  shows "firstMarker [a, b, c, d, n] = 0"
  using assms unfolding firstMarker_def Let_def by simp linarith

definition shiftPos :: "int \<Rightarrow> int" where
  "shiftPos p = (if p < 0 then - 1 else p + 1)"

abbreviation leastPos :: "int \<Rightarrow> int list \<Rightarrow> int" where
  "leastPos \<equiv> foldl (\<lambda>e p. if p < 0 then e else if e < 0 \<or> p < e then p else e)"

lemma leastPos_shift:
  "- 1 \<le> e \<Longrightarrow> leastPos (shiftPos e) (map shiftPos ps) = shiftPos (leastPos e ps)"
proof (induction ps arbitrary: e)
  case (Cons p ps)
  let ?e = "if p < 0 then e else if e < 0 \<or> p < e then p else e"
  have "(if shiftPos p < 0 then shiftPos e
      else if shiftPos e < 0 \<or> shiftPos p < shiftPos e then shiftPos p else shiftPos e)
    = shiftPos ?e"
    using Cons.prems by (auto simp: shiftPos_def)
  moreover have "- 1 \<le> ?e" using Cons.prems by auto
  ultimately show ?case using Cons.IH [of ?e] by (simp only: foldl.simps list.map)
qed simp

lemma firstMarker_shift:
  assumes "ps \<noteq> []" "0 \<le> last ps"
  shows "firstMarker (map shiftPos ps) = firstMarker ps + 1"
proof -
  have "leastPos (- 1) (map shiftPos ps) = shiftPos (leastPos (- 1) ps)"
    using leastPos_shift [of "- 1" ps] by (simp add: shiftPos_def)
  moreover have "last (map shiftPos ps) = last ps + 1"
    using assms by (simp add: last_map shiftPos_def)
  ultimately show ?thesis unfolding firstMarker_def Let_def by (simp only:) (simp add: shiftPos_def)
qed

lemma firstMarker_cut: "firstMarker (markerPositions s) = int (length (fst (cut s)))"
proof (induction s)
  case Nil
  show ?case by (simp add: Index_Nil firstMarker_def)
next
  case (Cons c s)
  show ?case
  proof (cases "startsMarker (c # s)")
    case True
    then have "firstMarker (markerPositions (c # s)) = 0"
      by (intro firstMarker_zero Index_ge)
        (auto simp: startsMarker_def markers_def Index_Cons)
    with True show ?thesis by simp
  next
    case False
    then have step: "Index (c # s) m = shiftPos (Index s m)" if "m \<in> set markers" for m
      using that Index_Cons [of m c s] by (auto simp: startsMarker_def markers_def shiftPos_def)
    have "markerPositions (c # s) = map shiftPos (markerPositions s)"
      by (simp only: list.map step in_markers) (simp add: shiftPos_def)
    moreover have "firstMarker (map shiftPos (markerPositions s)) =
        firstMarker (markerPositions s) + 1"
      by (rule firstMarker_shift) simp_all
    ultimately have "firstMarker (markerPositions (c # s)) = firstMarker (markerPositions s) + 1"
      by metis
    with Cons False show ?thesis by (simp split: prod.split)
  qed
qed

lemma cut_append: "fst (cut s) @ snd (cut s) = s"
  by (induction s) (auto split: prod.split)

lemma cut_take_drop:
  "take (length (fst (cut s))) s = fst (cut s)" "drop (length (fst (cut s))) s = snd (cut s)"
  by (metis append_eq_conv_conj cut_append)+

lemma splitValue_cut: "splitValue s = cut s"
  by (simp add: splitValue_def Let_def firstMarker_cut cut_take_drop)

lemma cut_rest: "snd (cut s) = [] \<or> startsMarker (snd (cut s))"
  by (induction s) (auto split: prod.split)

lemma suffixes_Cons_all:
  "markerFree (c # s) \<longleftrightarrow> \<not> startsMarker (c # s) \<and> markerFree s"
  by (auto simp: markerFree_def)

lemma not_startsMarker_Nil [simp]: "\<not> startsMarker []"
  by (simp add: startsMarker_def markers_def)

lemma markerFree_Nil [simp]: "markerFree []"
  by (simp add: markerFree_def)

text \<open>No marker has a dash strictly inside it, so a value that is free of markers when a dash is
  appended to it is cut exactly where the next marker starts.\<close>

lemma marker_inner: "m \<in> set markers \<Longrightarrow> 0 < i \<Longrightarrow> i + 1 < length m \<Longrightarrow> m ! i \<noteq> CHR ''-''"
proof -
  assume m: "m \<in> set markers" "0 < i" "i + 1 < length m"
  have "list_all (\<lambda>m. list_all (\<lambda>i. m ! i \<noteq> CHR ''-'') [1..<length m - 1]) markers" by code_simp
  with m show ?thesis by (auto simp: list_all_iff)
qed

lemma startsMarker_dash: "startsMarker s \<Longrightarrow> \<exists>t. s = CHR ''-'' # t"
  by (auto simp: startsMarker_def markers_def prefix_def)

lemma not_startsMarker_append:
  assumes "\<not> startsMarker (v @ ''-'')" "v \<noteq> []" "r = [] \<or> startsMarker r"
  shows "\<not> startsMarker (v @ r)"
proof
  assume "startsMarker (v @ r)"
  then obtain m where m: "m \<in> set markers" "prefix m (v @ r)"
    by (auto simp: startsMarker_def list_ex_iff)
  have not: "\<not> prefix m (v @ ''-'')"
    using assms(1) m(1) by (auto simp: startsMarker_def list_ex_iff)
  show False
  proof (cases "length m \<le> length v")
    case True
    with m(2) have "prefix m v" by (rule prefix_length_prefix [OF _ prefixI [OF refl]])
    with not show False by simp
  next
    case False
    with m(2) obtain r' where r: "r = CHR ''-'' # r'"
      using assms(3) startsMarker_dash by (auto simp: prefix_def)
    have idx: "m ! length v = CHR ''-''"
      using False m(2) r by (auto simp: prefix_def nth_append dest!: arg_cong [of _ _ "\<lambda>s. s ! length v"])
    show False
    proof (cases "length v + 1 < length m")
      case True
      with idx m(1) assms(2) marker_inner show False by auto
    next
      case short: False
      with m(2) r have "prefix m (v @ ''-'')"
        by (intro prefix_length_prefix [OF m(2)]) (auto simp: prefix_def)
      with not show False by simp
    qed
  qed
qed

lemma cut_append_marker:
  "markerFree (v @ ''-'') \<Longrightarrow> r = [] \<or> startsMarker r \<Longrightarrow> cut (v @ r) = (v, r)"
proof (induction v)
  case Nil
  then show ?case by (cases r) auto
next
  case (Cons c v)
  then have "\<not> startsMarker ((c # v) @ r)"
    using not_startsMarker_append [of "c # v" r] by (simp add: suffixes_Cons_all)
  with Cons show ?case by (simp add: suffixes_Cons_all)
qed

section \<open>The grammar\<close>

text \<open>
  A username is a base followed by optional segments. Each predicate relates the text of one
  segment (\<open>None\<close> when it is absent) to the field the parser returns for it.
\<close>

fun segment :: "string \<Rightarrow> string option \<Rightarrow> string" where
  "segment m None = []"
| "segment m (Some v) = m @ v"

fun regionSegment :: "string option \<Rightarrow> string \<Rightarrow> bool" where
  "regionSegment None r = (r = [])"
| "regionSegment (Some v) r = (length v = 2 \<and> isAlpha v \<and> r = ToLower v)"

fun unlockSegment :: "string option \<Rightarrow> string list \<Rightarrow> bool" where
  "unlockSegment None us = (us = [])"
| "unlockSegment (Some v) us =
     (us \<noteq> [] \<and> addTokens [] (FieldsFunc (\<lambda>c. c = CHR ''+'' \<or> c = CHR '','') v) = Inr us)"

fun nodeSegment :: "string option \<Rightarrow> string \<Rightarrow> bool" where
  "nodeSegment None n = (n = [])"
| "nodeSegment (Some v) n =
     (if HasPrefix v nodeKeyPrefix then
        isNodeKeyWireToken (drop (length nodeKeyPrefix) v) \<and>
        (\<exists>k. rawDecode urlAlphabet (drop (length nodeKeyPrefix) v) = Some k \<and> k \<noteq> [] \<and>
           n = nodeKeyPrefix @ k)
      else isNodeAddress v \<and> length v \<le> maxNodeLength \<and> n = v)"

fun sessionSegment :: "string option \<Rightarrow> string \<Rightarrow> bool" where
  "sessionSegment None s = (s = [])"
| "sessionSegment (Some v) s =
     (v \<noteq> [] \<and> length v \<le> maxSessionLength \<and> isSessionID v \<and> s = v)"

lemma andThen_simps [simp]: "andThen (Inl e) f = Inl e" "andThen (Inr a) f = f a"
  by (simp_all add: andThen_def)

lemma andThen_eq_Inr: "andThen r f = Inr b \<longleftrightarrow> (\<exists>a. r = Inr a \<and> f a = Inr b)"
  by (auto simp: andThen_def split: sum.splits)

lemma cut_eqD: "cut s = (v, r) \<Longrightarrow> s = v @ r"
  using cut_append [of s] by simp

lemma parseRegion_Inr:
  "parseRegion s = Inr (r, rest) \<longleftrightarrow> (\<exists>v. cut s = (v, rest) \<and> regionSegment (Some v) r)"
  by (auto simp: parseRegion_def splitValue_cut split: prod.splits if_splits)

lemma addTokens_Nil_empty: "addTokens [] [] = Inr us \<longleftrightarrow> us = []"
  by auto

lemma FieldsFunc_Nil [simp]: "FieldsFunc f [] = []"
  by (simp add: FieldsFunc_def)

lemma parseUnlock_Inr:
  "parseUnlock s = Inr (us, rest) \<longleftrightarrow> (\<exists>v. cut s = (v, rest) \<and> unlockSegment (Some v) us)"
  by (auto simp: parseUnlock_def splitValue_cut Let_def split: prod.splits if_splits sum.splits)

lemma isNodeAddress_nonempty: "isNodeAddress v \<Longrightarrow> v \<noteq> []"
  by (auto simp: isNodeAddress_def)

lemma cut_HasPrefix_key:
  assumes "cut s = (v, r)" "length nodeKeyPrefix \<le> length v"
  shows "HasPrefix s nodeKeyPrefix \<longleftrightarrow> HasPrefix v nodeKeyPrefix"
  using cut_eqD [OF assms(1)] assms(2) prefix_length_prefix [of nodeKeyPrefix "v @ r" v]
  by (auto simp: HasPrefix_def)

lemma cut_not_HasPrefix_key:
  "cut s = (v, r) \<Longrightarrow> \<not> HasPrefix s nodeKeyPrefix \<Longrightarrow> \<not> HasPrefix v nodeKeyPrefix"
  using cut_eqD [of s v r] by (auto simp: HasPrefix_def)

lemma HasPrefix_length: "HasPrefix s p \<Longrightarrow> length p \<le> length s"
  by (auto simp: HasPrefix_def prefix_def)

lemma parseNode_Inr:
  "parseNode s = Inr (n, rest) \<Longrightarrow> \<exists>v. cut s = (v, rest) \<and> nodeSegment (Some v) n"
  using cut_HasPrefix_key [of s] cut_not_HasPrefix_key [of s]
  by (fastforce simp: parseNode_def splitValue_cut Let_def isNodeAddress_nonempty
      split: prod.splits if_splits option.splits)

lemma parseNode_complete:
  assumes "cut s = (v, rest)" "nodeSegment (Some v) n"
    and "HasPrefix s nodeKeyPrefix \<longleftrightarrow> HasPrefix v nodeKeyPrefix"
  shows "parseNode s = Inr (n, rest)"
  using assms HasPrefix_length [of v nodeKeyPrefix]
  by (auto simp: parseNode_def splitValue_cut Let_def isNodeAddress_nonempty
      isNodeKeyWireToken_def split: if_splits)

lemma parseSession_Inr:
  "parseSession s = Inr (x, rest) \<longleftrightarrow> (\<exists>v. cut s = (v, rest) \<and> sessionSegment (Some v) x)"
  by (auto simp: parseSession_def splitValue_cut split: prod.splits if_splits)

lemma optSuffix_sound:
  "optSuffix m p f (u, s) = Inr (u', s') \<Longrightarrow>
     (\<not> HasPrefix s m \<and> u' = u \<and> s' = s) \<or>
     (\<exists>t x. s = m @ t \<and> p t = Inr (x, s') \<and> u' = f x u)"
  by (auto simp: optSuffix_def HasPrefix_def prefix_def split: if_splits sum.splits prod.splits)

lemma ParseUsername_cut:
  "ParseUsername raw =
     (if raw = [] then Inl UsernameEmpty
      else case cut raw of (b, s) \<Rightarrow>
        if b = [] then Inl BaseEmpty
        else if s = [] then Inr \<lparr>uBase = b, uRegion = [], uSession = [], uUnlock = [], uNode = []\<rparr>
        else andThen
          (andThen (andThen (andThen
            (optSuffix ''-region-'' parseRegion (\<lambda>v p. p\<lparr>uRegion := v\<rparr>)
               (\<lparr>uBase = b, uRegion = [], uSession = [], uUnlock = [], uNode = []\<rparr>, s))
            (optSuffix ''-unlock-'' parseUnlock (\<lambda>v p. p\<lparr>uUnlock := v\<rparr>)))
            (optSuffix ''-node-'' parseNode (\<lambda>v p. p\<lparr>uNode := v\<rparr>)))
            (optSuffix ''-session-'' parseSession (\<lambda>v p. p\<lparr>uSession := v\<rparr>)))
          (\<lambda>(p, rem). if rem \<noteq> [] then Inl (InvalidSuffix rem) else Inr p))"
  by (simp add: ParseUsername_def Let_def firstMarker_cut cut_take_drop split: prod.split)

lemma optSuffix_segment:
  assumes "optSuffix m p f (u, s) = Inr (u', s')"
    and "\<And>t x r. p t = Inr (x, r) \<Longrightarrow> \<exists>v. cut t = (v, r) \<and> P (Some v) x"
    and "P None z" "f z u = u"
  shows "\<exists>ov x. s = segment m ov @ s' \<and> P ov x \<and> u' = f x u"
proof -
  consider "u' = u" "s' = s" | t x where "s = m @ t" "p t = Inr (x, s')" "u' = f x u"
    using optSuffix_sound [OF assms(1)] by blast
  then show ?thesis
  proof cases
    case 1
    with assms(3,4) show ?thesis by (intro exI [of _ None] exI [of _ z]) simp
  next
    case 2
    obtain v where "cut t = (v, s')" "P (Some v) x" using assms(2) [OF 2(2)] by blast
    with 2 cut_eqD show ?thesis by (intro exI [of _ "Some v"] exI [of _ x]) auto
  qed
qed

text \<open>The username read as one base and four optional segments in the fixed order.\<close>

definition wellSegmented :: "string \<Rightarrow> ParsedUsername \<Rightarrow> bool" where
  "wellSegmented raw u \<longleftrightarrow>
     (\<exists>rv uv nv sv. raw = uBase u @ segment ''-region-'' rv @ segment ''-unlock-'' uv @
          segment ''-node-'' nv @ segment ''-session-'' sv \<and>
        uBase u \<noteq> [] \<and> regionSegment rv (uRegion u) \<and> unlockSegment uv (uUnlock u) \<and>
        nodeSegment nv (uNode u) \<and> sessionSegment sv (uSession u))"

lemma ParseUsername_wellSegmented:
  assumes "ParseUsername raw = Inr u"
  shows "wellSegmented raw u \<and> cut raw = (uBase u, drop (length (uBase u)) raw)"
proof -
  obtain b s where bs: "cut raw = (b, s)" by fastforce
  then have raw: "raw = b @ s" by (rule cut_eqD)
  let ?u0 = "\<lparr>uBase = b, uRegion = [], uSession = [], uUnlock = [], uNode = []\<rparr>"
  from assms bs have b: "b \<noteq> []" by (auto simp: ParseUsername_cut split: if_splits)
  show ?thesis
  proof (cases "s = []")
    case True
    with assms bs b have "u = ?u0" by (auto simp: ParseUsername_cut split: if_splits)
    with True raw b bs show ?thesis
      unfolding wellSegmented_def
      by (auto intro!: exI [of _ None])
  next
    case False
    with assms bs b obtain p1 s1 p2 s2 p3 s3 where
      1: "optSuffix ''-region-'' parseRegion (\<lambda>v p. p\<lparr>uRegion := v\<rparr>) (?u0, s) = Inr (p1, s1)" and
      2: "optSuffix ''-unlock-'' parseUnlock (\<lambda>v p. p\<lparr>uUnlock := v\<rparr>) (p1, s1) = Inr (p2, s2)" and
      3: "optSuffix ''-node-'' parseNode (\<lambda>v p. p\<lparr>uNode := v\<rparr>) (p2, s2) = Inr (p3, s3)" and
      4: "optSuffix ''-session-'' parseSession (\<lambda>v p. p\<lparr>uSession := v\<rparr>) (p3, s3) = Inr (u, [])"
      by (auto simp: ParseUsername_cut andThen_eq_Inr split: if_splits)
    obtain rv r where r: "s = segment ''-region-'' rv @ s1" "regionSegment rv r"
        "p1 = ?u0\<lparr>uRegion := r\<rparr>"
      using optSuffix_segment [OF 1, of regionSegment "[]"] parseRegion_Inr by auto
    obtain uv us where us: "s1 = segment ''-unlock-'' uv @ s2" "unlockSegment uv us"
        "p2 = p1\<lparr>uUnlock := us\<rparr>"
      using optSuffix_segment [OF 2, of unlockSegment "[]"] parseUnlock_Inr r(3) by auto
    obtain nv n where n: "s2 = segment ''-node-'' nv @ s3" "nodeSegment nv n"
        "p3 = p2\<lparr>uNode := n\<rparr>"
      using optSuffix_segment [OF 3, of nodeSegment "[]"] parseNode_Inr r(3) us(3) by auto
    obtain sv x where x: "s3 = segment ''-session-'' sv @ []" "sessionSegment sv x"
        "u = p3\<lparr>uSession := x\<rparr>"
      using optSuffix_segment [OF 4, of sessionSegment "[]"] parseSession_Inr r(3) us(3) n(3)
      by auto
    have u: "uBase u = b" "uRegion u = r" "uSession u = x" "uUnlock u = us" "uNode u = n"
      using r(3) us(3) n(3) x(3) by simp_all
    have "raw = b @ segment ''-region-'' rv @ segment ''-unlock-'' uv @
        segment ''-node-'' nv @ segment ''-session-'' sv"
      using raw r(1) us(1) n(1) x(1) by (simp only: append_Nil2)
    then have "wellSegmented raw u"
      unfolding wellSegmented_def u using b r(2) us(2) n(2) x(2) by blast
    moreover have "cut raw = (b, drop (length b) raw)" using bs raw by simp
    ultimately show ?thesis by (simp only: u)
  qed
qed

section \<open>Every well-formed username parses\<close>

lemma optSuffix_absent: "\<not> HasPrefix s m \<Longrightarrow> optSuffix m p f (u, s) = Inr (u, s)"
  by (simp add: optSuffix_def)

lemma optSuffix_present: "p t = Inr (x, r) \<Longrightarrow> optSuffix m p f (u, m @ t) = Inr (f x u, r)"
  by (simp add: optSuffix_def HasPrefix_def)

lemma optSuffix_segment_complete:
  assumes "P ov x" "P None z \<Longrightarrow> x = z \<Longrightarrow> f z u = u" "ov = None \<Longrightarrow> x = z"
    and "r = [] \<or> startsMarker r" "\<not> HasPrefix r m"
    and "\<And>v. ov = Some v \<Longrightarrow> markerFree (v @ ''-'')"
    and "\<And>v. ov = Some v \<Longrightarrow> cut (v @ r) = (v, r) \<Longrightarrow> p (v @ r) = Inr (x, r)"
  shows "optSuffix m p f (u, segment m ov @ r) = Inr (f x u, r)"
proof (cases ov)
  case None
  with assms show ?thesis by (auto simp: optSuffix_absent)
next
  case (Some v)
  with assms cut_append_marker have "p (v @ r) = Inr (x, r)" by blast
  with Some show ?thesis by (simp add: optSuffix_present)
qed

lemma LastIndexByte_mem: "0 \<le> LastIndexByte s b \<Longrightarrow> b \<in> set s"
  by (induction s) (auto simp: Let_def split: if_splits)

lemma isNodeAddress_colon: "isNodeAddress v \<Longrightarrow> CHR '':'' \<in> set v"
  by (rule LastIndexByte_mem) (auto simp: isNodeAddress_def Let_def split: if_splits)

lemma nodeSegment_HasPrefix:
  assumes "nodeSegment (Some v) n"
  shows "HasPrefix (v @ r) nodeKeyPrefix \<longleftrightarrow> HasPrefix v nodeKeyPrefix"
proof (cases "length nodeKeyPrefix \<le> length v")
  case True
  then show ?thesis
    using prefix_length_prefix [of nodeKeyPrefix "v @ r" v] by (auto simp: HasPrefix_def)
next
  case False
  then have no: "\<not> HasPrefix v nodeKeyPrefix" using HasPrefix_length by blast
  with assms have colon: "CHR '':'' \<in> set v" by (simp add: isNodeAddress_colon)
  have "\<not> HasPrefix (v @ r) nodeKeyPrefix"
  proof
    assume "HasPrefix (v @ r) nodeKeyPrefix"
    with False have "prefix v nodeKeyPrefix"
      using prefix_length_prefix [of v "v @ r" nodeKeyPrefix] by (simp add: HasPrefix_def)
    then have "set v \<subseteq> set nodeKeyPrefix" by (rule set_mono_prefix)
    with colon show False by (auto simp: nodeKeyPrefix_def)
  qed
  with no show ?thesis by simp
qed

text \<open>A value that keeps its meaning inside a username: no marker starts in it, even when the dash
  of the next marker follows.\<close>

fun safeValue :: "string option \<Rightarrow> bool" where
  "safeValue None = True"
| "safeValue (Some v) = markerFree (v @ ''-'')"

lemma tail_segments:
  fixes uv nv sv
  defines "t3 \<equiv> segment ''-session-'' sv"
  defines "t2 \<equiv> segment ''-node-'' nv @ t3"
  defines "t1 \<equiv> segment ''-unlock-'' uv @ t2"
  shows "t1 = [] \<or> startsMarker t1" "t2 = [] \<or> startsMarker t2" "t3 = [] \<or> startsMarker t3"
    "\<not> HasPrefix t1 ''-region-''" "\<not> HasPrefix t2 ''-unlock-''" "\<not> HasPrefix t3 ''-node-''"
  unfolding t1_def t2_def t3_def
  by (cases uv; cases nv; cases sv; simp add: startsMarker_def markers_def HasPrefix_def)+

lemma segment_startsMarker: "m \<in> set markers \<Longrightarrow> r = [] \<or> startsMarker r \<Longrightarrow>
   segment m ov @ r = [] \<or> startsMarker (segment m ov @ r)"
proof (cases ov)
  case (Some v)
  assume "m \<in> set markers"
  moreover have "prefix m (segment m ov @ r)" by (simp add: Some)
  ultimately show ?thesis by (auto simp: startsMarker_def list_ex_iff)
qed simp

lemma ParseUsername_segments:
  assumes b: "b \<noteq> []" "markerFree (b @ ''-'')"
    and safe: "safeValue rv" "safeValue uv" "safeValue nv" "safeValue sv"
    and seg: "regionSegment rv r" "unlockSegment uv us" "nodeSegment nv n" "sessionSegment sv x"
  shows "ParseUsername (b @ segment ''-region-'' rv @ segment ''-unlock-'' uv @
      segment ''-node-'' nv @ segment ''-session-'' sv) =
    Inr \<lparr>uBase = b, uRegion = r, uSession = x, uUnlock = us, uNode = n\<rparr>"
proof -
  let ?t3 = "segment ''-session-'' sv"
  let ?t2 = "segment ''-node-'' nv @ ?t3"
  let ?t1 = "segment ''-unlock-'' uv @ ?t2"
  let ?t0 = "segment ''-region-'' rv @ ?t1"
  let ?u = "\<lambda>r us n x. \<lparr>uBase = b, uRegion = r, uSession = x, uUnlock = us, uNode = n\<rparr>"
  have cut: "cut (b @ ?t0) = (b, ?t0)"
    using b by (intro cut_append_marker segment_startsMarker in_markers tail_segments)
  have 1: "optSuffix ''-region-'' parseRegion (\<lambda>v p. p\<lparr>uRegion := v\<rparr>) (?u [] [] [] [], ?t0) =
      Inr (?u r [] [] [], ?t1)"
    using optSuffix_segment_complete [of regionSegment rv r "[]" "\<lambda>v p. p\<lparr>uRegion := v\<rparr>"
        "?u [] [] [] []" ?t1 "''-region-''" parseRegion] seg(1) safe(1) tail_segments
    by (cases rv) (auto simp: parseRegion_Inr)
  have 2: "optSuffix ''-unlock-'' parseUnlock (\<lambda>v p. p\<lparr>uUnlock := v\<rparr>) (?u r [] [] [], ?t1) =
      Inr (?u r us [] [], ?t2)"
    using optSuffix_segment_complete [of unlockSegment uv us "[]" "\<lambda>v p. p\<lparr>uUnlock := v\<rparr>"
        "?u r [] [] []" ?t2 "''-unlock-''" parseUnlock] seg(2) safe(2) tail_segments
    by (cases uv) (auto simp: parseUnlock_Inr)
  have 3: "optSuffix ''-node-'' parseNode (\<lambda>v p. p\<lparr>uNode := v\<rparr>) (?u r us [] [], ?t2) =
      Inr (?u r us n [], ?t3)"
    using optSuffix_segment_complete [of nodeSegment nv n "[]" "\<lambda>v p. p\<lparr>uNode := v\<rparr>"
        "?u r us [] []" ?t3 "''-node-''" parseNode] seg(3) safe(3) tail_segments
      parseNode_complete nodeSegment_HasPrefix
    by (cases nv) auto
  have 4: "optSuffix ''-session-'' parseSession (\<lambda>v p. p\<lparr>uSession := v\<rparr>) (?u r us n [], ?t3) =
      Inr (?u r us n x, [])"
    using optSuffix_segment_complete [of sessionSegment sv x "[]" "\<lambda>v p. p\<lparr>uSession := v\<rparr>"
        "?u r us n []" "[]" "''-session-''" parseSession] seg(4) safe(4)
    by (cases sv) (auto simp: parseSession_Inr HasPrefix_def)
  show ?thesis
  proof (cases "?t0 = []")
    case True
    then have "rv = None" "uv = None" "nv = None" "sv = None"
      by (cases rv; cases uv; cases nv; cases sv; simp)+
    with seg cut b show ?thesis by (simp add: ParseUsername_cut)
  next
    case False
    define t where "t = ?t0"
    with False have "t \<noteq> []" by (simp only: not_False_eq_True)
    with b cut 1 2 3 4 show ?thesis unfolding t_def [symmetric]
      by (simp add: ParseUsername_cut)
  qed
qed

section \<open>Shape of the parsed fields\<close>

lemma decodeRune_ge: "128 \<le> byte c \<Longrightarrow> 128 \<le> fst (decodeRune c s)"
  by (auto simp: decodeRune_def Let_def contByte_def runeError_def)

lemma decodeRune_ascii: "byte c < 128 \<Longrightarrow> decodeRune c s = (byte c, 1)"
  by (simp add: decodeRune_def)

lemma runes_ascii: "asciiString s \<Longrightarrow> runes s = map of_char s"
  by (induction s) (simp_all add: asciiString_def decodeRune_ascii)

lemma isAlpha_bytes: "isAlpha v \<Longrightarrow> list_all (\<lambda>c. asciiLetterRune (byte c)) v"
  unfolding isAlpha_def
proof (induction v rule: runes.induct)
  case (2 c s)
  obtain r w where rw: "decodeRune c s = (r, w)" by fastforce
  from 2(2) rw have "asciiLetterRune r" by simp
  then have "r < 128" by (auto simp: asciiLetterRune_def)
  with rw decodeRune_ge [of c s] have "byte c < 128" by fastforce
  then have "(r, w) = (byte c, 1)" using rw decodeRune_ascii by metis
  with 2 rw show ?case by simp
qed simp

lemma byte_toLowerChar:
  "asciiLetterRune (byte c) \<Longrightarrow> isASCIILower (toLowerChar c)"
  by (auto simp: asciiLetterRune_def isASCIILower_def isASCIIUpper_def toLowerChar_def)

lemma isAlpha_ToLower: "isAlpha v \<Longrightarrow> list_all isASCIILower (ToLower v)"
  by (drule isAlpha_bytes) (auto simp: ToLower_def list_all_iff byte_toLowerChar)

abbreviation unlockNames :: "string list" where
  "unlockNames \<equiv> [''openai'', ''claude'', ''grok'', ''gemini'', ''cf'']"

lemma normalizeUnlockToken_names:
  "normalizeUnlockToken t = Inr us \<Longrightarrow> set us \<subseteq> set unlockNames"
  by (auto simp: normalizeUnlockToken_def Let_def split: if_splits)

lemma addUnseen_keeps:
  "distinct out \<Longrightarrow> distinct (addUnseen out us) \<and> set (addUnseen out us) = set out \<union> set us"
  unfolding addUnseen_def
  by (induction us arbitrary: out) auto

lemma addTokens_keeps:
  "addTokens out ps = Inr us \<Longrightarrow> distinct out \<Longrightarrow> set out \<subseteq> set unlockNames \<Longrightarrow>
     distinct us \<and> set us \<subseteq> set unlockNames"
proof (induction ps arbitrary: out)
  case (Cons p ps)
  then obtain ns where ns: "normalizeUnlockToken p = Inr ns" "addTokens (addUnseen out ns) ps = Inr us"
    by (auto split: sum.splits)
  have "distinct (addUnseen out ns) \<and> set (addUnseen out ns) \<subseteq> set unlockNames"
    using addUnseen_keeps [OF Cons.prems(2), of ns] normalizeUnlockToken_names [OF ns(1)] Cons.prems(3)
    by blast
  with Cons.IH ns(2) show ?case by blast
qed simp

text \<open>What a caller may rely on in a parsed username.\<close>

definition wellFormedRoute :: "ParsedUsername \<Rightarrow> bool" where
  "wellFormedRoute u \<longleftrightarrow>
     uBase u \<noteq> [] \<and> markerFree (uBase u) \<and>
     (uRegion u = [] \<or> length (uRegion u) = 2 \<and> list_all isASCIILower (uRegion u)) \<and>
     length (uSession u) \<le> 64 \<and> isSessionID (uSession u) \<and>
     distinct (uUnlock u) \<and> set (uUnlock u) \<subseteq> set unlockNames \<and>
     (uNode u = [] \<or> (\<exists>k. k \<noteq> [] \<and> uNode u = ''key-'' @ k) \<or>
        isNodeAddress (uNode u) \<and> length (uNode u) \<le> 255)"

lemma regionSegment_shape:
  "regionSegment rv r \<Longrightarrow> r = [] \<or> length r = 2 \<and> list_all isASCIILower r"
  by (cases rv) (auto simp: isAlpha_ToLower, simp add: ToLower_def)

lemma unlockSegment_shape: "unlockSegment uv us \<Longrightarrow> distinct us \<and> set us \<subseteq> set unlockNames"
proof (cases uv)
  case (Some v)
  assume "unlockSegment uv us"
  with Some show ?thesis using addTokens_keeps [of "[]" _ us] by auto
qed simp

lemma nodeSegment_shape:
  "nodeSegment nv n \<Longrightarrow> n = [] \<or> (\<exists>k. k \<noteq> [] \<and> n = ''key-'' @ k) \<or> isNodeAddress n \<and> length n \<le> 255"
  by (cases nv) (auto simp: nodeKeyPrefix_def maxNodeLength_def split: if_splits)

lemma sessionSegment_shape: "sessionSegment sv x \<Longrightarrow> length x \<le> 64 \<and> isSessionID x"
  by (cases sv) (auto simp: maxSessionLength_def isSessionID_def)

lemma startsMarker_prefix: "startsMarker v \<Longrightarrow> startsMarker (v @ r)"
  by (auto simp: startsMarker_def list_ex_iff intro: prefix_prefix)

lemma cut_markerFree: "markerFree (fst (cut s))"
proof (induction s)
  case (Cons c s)
  have "\<not> startsMarker (c # fst (cut s))" if "\<not> startsMarker (c # s)"
    using that startsMarker_prefix [of "c # fst (cut s)" "snd (cut s)"] cut_append [of s] by auto
  with Cons show ?case by (auto simp: suffixes_Cons_all split: prod.split)
qed simp

section \<open>Node-key pins\<close>

text \<open>
  In \<open>key-\<close> followed by the encoding of an ASCII node key every dash is followed by one of the
  first 32 characters of the URL-safe alphabet, never by the first letter of a marker.
\<close>

lemma lowUrl_not_marker: "CHR ''r'' \<notin> lowUrl" "CHR ''u'' \<notin> lowUrl" "CHR ''s'' \<notin> lowUrl" "CHR ''n'' \<notin> lowUrl"
  by (simp_all add: lowUrl_def urlAlphabet_def)

lemma dashThenLow_not_startsMarker: "dashThenLow w \<Longrightarrow> \<not> startsMarker w"
  by (cases w rule: dashThenLow.cases)
    (auto simp: startsMarker_def markers_def lowUrl_not_marker)

lemma dashThenLow_Cons: "dashThenLow (c # w) \<Longrightarrow> dashThenLow w"
  by (cases w) auto

lemma dashThenLow_markerFree: "dashThenLow w \<Longrightarrow> markerFree w"
  by (induction w) (auto simp: suffixes_Cons_all dashThenLow_not_startsMarker dest: dashThenLow_Cons)

lemma not_startsMarker_short: "\<not> startsMarker [c]" "\<not> startsMarker [c, CHR ''-'']"
  by (auto simp: startsMarker_def markers_def)

lemma dashThenLow_not_startsMarker_dash: "dashThenLow w \<Longrightarrow> w \<noteq> [] \<Longrightarrow> \<not> startsMarker (w @ ''-'')"
  by (cases w rule: dashThenLow.cases)
    (auto simp: not_startsMarker_short startsMarker_def markers_def lowUrl_not_marker)

lemma dashThenLow_safe: "dashThenLow w \<Longrightarrow> markerFree (w @ ''-'')"
proof (induction w)
  case Nil
  then show ?case by (simp add: suffixes_Cons_all not_startsMarker_short)
next
  case (Cons c w)
  then show ?case
    using dashThenLow_not_startsMarker_dash [of "c # w"]
    by (auto simp: suffixes_Cons_all dest: dashThenLow_Cons)
qed

lemma key_encode_safe:
  "asciiString k \<Longrightarrow> markerFree ((nodeKeyPrefix @ rawEncode urlAlphabet k) @ ''-'')"
  using dashThenLow_safe [of "nodeKeyPrefix @ rawEncode urlAlphabet k"]
    dashThenLow_rawEncode_Cons [of k "CHR ''-''"]
  by (simp add: nodeKeyPrefix_def)

lemma urlAlphabet_token:
  "c \<in> set urlAlphabet \<Longrightarrow> byte c < 128 \<and>
     (unicodeIsDigit (byte c) \<or> isASCIIAlpha (byte c) \<or> byte c = 45 \<or> byte c = 95)"
  by (auto simp: urlAlphabet_def isASCIIAlpha_def asciiLetterRune_def)

lemma isNodeKeyWireToken_encode: "k \<noteq> [] \<Longrightarrow> isNodeKeyWireToken (rawEncode urlAlphabet k)"
proof -
  assume "k \<noteq> []"
  have "\<forall>c \<in> set (rawEncode urlAlphabet k). c \<in> set urlAlphabet" using urlEnc.set_encode by blast
  then have tok: "\<forall>c \<in> set (rawEncode urlAlphabet k). byte c < 128 \<and>
      (unicodeIsDigit (byte c) \<or> isASCIIAlpha (byte c) \<or> byte c = 45 \<or> byte c = 95)"
    using urlAlphabet_token by blast
  then have "asciiString (rawEncode urlAlphabet k)" by (simp add: asciiString_def list_all_iff)
  with tok \<open>k \<noteq> []\<close> show ?thesis
    by (auto simp: isNodeKeyWireToken_def runes_ascii urlEnc.encode_eq_Nil_iff list_all_iff)
qed

lemma nodeSegment_key:
  "k \<noteq> [] \<Longrightarrow> nodeSegment (Some (nodeKeyPrefix @ rawEncode urlAlphabet k)) (nodeKeyPrefix @ k)"
  by (simp add: HasPrefix_def isNodeKeyWireToken_encode urlEnc.decode_encode)

section \<open>Properties\<close>

lemmas dsl_eval = ParseUsername_cut startsMarker_def markers_def optSuffix_def HasPrefix_def
  parseRegion_def parseUnlock_def parseNode_def parseSession_def splitValue_cut nodeKeyPrefix_def
  maxSessionLength_def isAlpha_def isSessionID_def isASCIIAlpha_def asciiLetterRune_def
  decodeRune_ascii ToLower_def toLowerChar_def isASCIIUpper_def FieldsFunc_def
  normalizeUnlockToken_def addUnseen_def TrimSpace_def stripLeft_def goSpaces_def Let_def char_of_def

text \<open>C5: Fixed order: a username that parses is its base followed by at most one region, unlock,
  node and session segment, in that order, each of the documented form; anything else is an error.\<close>

theorem ParseUsername_fixed_order:
  assumes "ParseUsername raw = Inr u"
  shows "wellSegmented raw u"
  using ParseUsername_wellSegmented [OF assms] by simp

theorem ParseUsername_fixed_order_witness:
  "ParseUsername ''u-region-jp-session-a'' =
     Inr \<lparr>uBase = ''u'', uRegion = ''jp'', uSession = ''a'', uUnlock = [], uNode = []\<rparr> \<and>
   wellSegmented ''u-region-jp-session-a''
     \<lparr>uBase = ''u'', uRegion = ''jp'', uSession = ''a'', uUnlock = [], uNode = []\<rparr>"
proof -
  have "ParseUsername ''u-region-jp-session-a'' =
      Inr \<lparr>uBase = ''u'', uRegion = ''jp'', uSession = ''a'', uUnlock = [], uNode = []\<rparr>"
    by (simp add: dsl_eval)
  with ParseUsername_fixed_order show ?thesis by blast
qed

text \<open>C31: Every field of a parsed username is well formed: a non-empty base without markers, a region
  of two lower-case letters, a session of at most 64 bytes of the session alphabet, distinct canonical
  unlock names, a node that is a non-empty key or an address of at most 255 bytes.\<close>

theorem ParseUsername_wellFormed:
  assumes "ParseUsername raw = Inr u"
  shows "wellFormedRoute u"
proof -
  from ParseUsername_wellSegmented [OF assms] obtain rv uv nv sv where
    "uBase u \<noteq> []" "regionSegment rv (uRegion u)" "unlockSegment uv (uUnlock u)"
    "nodeSegment nv (uNode u)" "sessionSegment sv (uSession u)"
    and cut: "cut raw = (uBase u, drop (length (uBase u)) raw)"
    by (auto simp: wellSegmented_def)
  moreover have "markerFree (uBase u)" using cut_markerFree [of raw] cut by simp
  ultimately show ?thesis
    unfolding wellFormedRoute_def
    using regionSegment_shape unlockSegment_shape nodeSegment_shape sessionSegment_shape by blast
qed

theorem ParseUsername_wellFormed_witness:
  "wellFormedRoute \<lparr>uBase = ''u'', uRegion = [], uSession = [], uUnlock = [''openai'', ''cf''], uNode = []\<rparr>"
proof -
  have "ParseUsername ''u-unlock-gpt+cf,openai'' =
      Inr \<lparr>uBase = ''u'', uRegion = [], uSession = [], uUnlock = [''openai'', ''cf''], uNode = []\<rparr>"
    by (simp add: dsl_eval)
  then show ?thesis by (rule ParseUsername_wellFormed)
qed

text \<open>Completeness: a base and segments of the documented form, in the fixed order, parse to exactly
  the fields they spell, provided no value contains a marker (also not with the dash that follows it).\<close>

theorem ParseUsername_complete:
  assumes "b \<noteq> []" "markerFree (b @ ''-'')"
    and "safeValue rv" "safeValue uv" "safeValue nv" "safeValue sv"
    and "regionSegment rv r" "unlockSegment uv us" "nodeSegment nv n" "sessionSegment sv x"
  shows "ParseUsername (b @ segment ''-region-'' rv @ segment ''-unlock-'' uv @
      segment ''-node-'' nv @ segment ''-session-'' sv) =
    Inr \<lparr>uBase = b, uRegion = r, uSession = x, uUnlock = us, uNode = n\<rparr>"
  using assms by (rule ParseUsername_segments)

theorem ParseUsername_complete_witness:
  "ParseUsername ''me-region-us-session-x'' =
     Inr \<lparr>uBase = ''me'', uRegion = ''us'', uSession = ''x'', uUnlock = [], uNode = []\<rparr>"
  using ParseUsername_complete [of "''me''" "Some ''us''" None None "Some ''x''" "''us''" "[]" "[]" "''x''"]
  by (simp add: dsl_eval markerFree_def)

text \<open>Round trip of stable pins: for a node key of ASCII bytes, the pin that
  \<open>EncodeNodeKeyPin\<close> produces, written as \<open>-node-key-<pin>\<close> between any region and session, is read
  back as \<open>key-\<close> followed by the (space-trimmed) node key, and no other field is disturbed.\<close>

theorem EncodeNodeKeyPin_roundtrip:
  assumes "b \<noteq> []" "markerFree (b @ ''-'')"
    and "asciiString (TrimSpace key)" "TrimSpace key \<noteq> []"
    and "safeValue rv" "regionSegment rv r" "safeValue sv" "sessionSegment sv x"
  shows "ParseUsername (b @ segment ''-region-'' rv @ ''-node-key-'' @ EncodeNodeKeyPin key @
      segment ''-session-'' sv) =
    Inr \<lparr>uBase = b, uRegion = r, uSession = x, uUnlock = [], uNode = ''key-'' @ TrimSpace key\<rparr>"
  using ParseUsername_segments [of b rv None
      "Some (nodeKeyPrefix @ rawEncode urlAlphabet (TrimSpace key))" sv r "[]"
      "nodeKeyPrefix @ TrimSpace key" x]
    assms key_encode_safe [OF assms(3)] nodeSegment_key [OF assms(4)]
  by (simp add: EncodeNodeKeyPin_def Let_def nodeKeyPrefix_def)

theorem EncodeNodeKeyPin_roundtrip_witness:
  "ParseUsername (''me-node-key-'' @ EncodeNodeKeyPin ''vm:h:1'' @ ''-session-api'') =
     Inr \<lparr>uBase = ''me'', uRegion = [], uSession = ''api'', uUnlock = [], uNode = ''key-vm:h:1''\<rparr>"
  using EncodeNodeKeyPin_roundtrip [of "''me''" "''vm:h:1''" None "[]" "Some ''api''" "''api''"]
  by (simp add: dsl_eval markerFree_def asciiString_def)

text \<open>The comment in \<open>parseNode\<close> that a base64url token cannot collide with a marker is false for
  node keys with bytes above 127: the dash belongs to the alphabet. The key \<open>a\<close>, U+F9E1, U+05FE is
  encoded as \<open>Ye-node-\<close>, and the username built from its pin is rejected.\<close>

theorem EncodeNodeKeyPin_marker_collision:
  "EncodeNodeKeyPin [CHR ''a'', CHR 0xEF, CHR 0xA7, CHR 0xA1, CHR 0xD7, CHR 0xBE] = ''Ye-node-'' \<and>
   ParseUsername (''u-node-key-'' @
     EncodeNodeKeyPin [CHR ''a'', CHR 0xEF, CHR 0xA7, CHR 0xA1, CHR 0xD7, CHR 0xBE]) =
   Inl (InvalidSuffix ''-node-'')"
proof -
  have enc: "EncodeNodeKeyPin [CHR ''a'', CHR 0xEF, CHR 0xA7, CHR 0xA1, CHR 0xD7, CHR 0xBE] = ''Ye-node-''"
    by (simp add: EncodeNodeKeyPin_def rawEncode_def urlAlphabet_def dsl_eval)
  have "ParseUsername ''u-node-key-Ye-node-'' = Inl (InvalidSuffix ''-node-'')"
    by (simp add: dsl_eval isNodeKeyWireToken_def rawDecode_def urlAlphabet_def)
  with enc show ?thesis by simp
qed

text \<open>C33: A crash before authentication: when the text \<open>-node-key\<close> is followed at once by a marker,
  \<open>parseNode\<close> slices \<open>value[len("key-"):]\<close> out of a value of length three, and the parser panics
  instead of returning an error, whatever the base.\<close>

theorem ParseUsername_node_key_panics:
  assumes "b \<noteq> []" "markerFree (b @ ''-'')" "startsMarker r"
  shows "ParseUsername (b @ ''-node-key'' @ r) = Inl RuntimePanic"
proof -
  obtain t where t: "r = CHR ''-'' # t" using startsMarker_dash [OF assms(3)] by blast
  have "cut (b @ ''-node-key'' @ r) = (b, ''-node-key'' @ r)"
    using assms(1,2) by (intro cut_append_marker) (simp_all add: startsMarker_def markers_def)
  moreover have "cut (''key'' @ r) = (''key'', r)"
    using assms(3) by (intro cut_append_marker)
      (simp_all add: suffixes_Cons_all startsMarker_def markers_def)
  ultimately show ?thesis using assms(1)
    by (simp add: ParseUsername_cut optSuffix_def HasPrefix_def parseNode_def nodeKeyPrefix_def
        splitValue_cut t)
qed

theorem ParseUsername_node_key_panics_witness:
  "ParseUsername ''u-node-key-session-x'' = Inl RuntimePanic"
  using ParseUsername_node_key_panics [of "''u''" "''-session-x''"]
  by (simp add: markerFree_def startsMarker_def markers_def)

text \<open>Password check: with a stored digest the password must hash to it, otherwise it must equal the
  stored plain password; in both cases the base must equal the configured user name. In particular the
  routing suffixes take no part in authentication.\<close>

theorem VerifyPassword_iff:
  "VerifyPassword base password expectedBase expectedPassword expectedHash \<longleftrightarrow>
     base = expectedBase \<and>
     (if expectedHash = [] then password = expectedPassword
      else sha256Hex password = expectedHash)"
  by (auto simp: VerifyPassword_def VerifyPasswordHash_def VerifyPlainPassword_def
      ConstantTimeCompare_def Let_def)

end
