(* ===== verification/Affinity.thy ===== *)
theory Affinity
  imports GoBase
begin

text \<open>
  The package \<open>affinity\<close> (\<open>src/affinity/store.go\<close>): the session store behind sticky routing. A Go
  map is an association list (its order stands for the unspecified iteration order), the set of
  sessions of a proxy is a list without duplicates, a \<open>time.Time\<close> is the integer number of
  nanoseconds of the injected clock, whose current reading is the field \<open>clock\<close>. Every operation
  runs under the mutex of the store, so one operation is one atomic step.
\<close>

section \<open>State\<close>

record Binding =
  bProxyID :: int
  bNodeAddress :: string
  bRegion :: string
  bLastActive :: int

record SessionBinding =
  sbSessionID :: string
  sbProxyID :: int
  sbNodeAddress :: string
  sbRegion :: string
  sbLastActive :: int

record SessionStore =
  bindings :: "(string \<times> Binding) list"
  reverseIdx :: "(int \<times> string list) list"
  cooldown :: "(int \<times> int) list"
  ttl :: int
  clock :: int
  gcStarted :: bool
  stopCh :: "nat option"
  gcLoops :: "nat list"
  nextCh :: nat

text \<open>
  The garbage collector: \<open>gcLoops\<close> lists the running \<open>gcLoop\<close> goroutines, each named by the stop
  channel it listens on, and \<open>nextCh\<close> numbers the channels \<open>make\<close> hands out.
\<close>

definition NewWithClock :: "int \<Rightarrow> int \<Rightarrow> SessionStore" where
  "NewWithClock t now = \<lparr>bindings = [], reverseIdx = [], cooldown = [], ttl = t, clock = now,
     gcStarted = False, stopCh = None, gcLoops = [], nextCh = 0\<rparr>"

section \<open>Operations\<close>

definition expired :: "SessionStore \<Rightarrow> Binding \<Rightarrow> bool" where
  "expired s b \<longleftrightarrow> ttl s > 0 \<and> clock s - bLastActive b \<ge> ttl s"

definition attachReverseLocked :: "string \<Rightarrow> int \<Rightarrow> SessionStore \<Rightarrow> SessionStore" where
  "attachReverseLocked sid pid s =
     (let st = (case map_of (reverseIdx s) pid of None \<Rightarrow> [] | Some st \<Rightarrow> st)
      in s\<lparr>reverseIdx := AList.update pid (List.insert sid st) (reverseIdx s)\<rparr>)"

definition detachReverseLocked :: "string \<Rightarrow> int \<Rightarrow> SessionStore \<Rightarrow> SessionStore" where
  "detachReverseLocked sid pid s =
     (case map_of (reverseIdx s) pid of
        None \<Rightarrow> s
      | Some st \<Rightarrow>
          let st' = removeAll sid st in
          if st' = [] then s\<lparr>reverseIdx := AList.delete pid (reverseIdx s)\<rparr>
          else s\<lparr>reverseIdx := AList.update pid st' (reverseIdx s)\<rparr>)"

definition removeBindingLocked :: "string \<Rightarrow> Binding \<Rightarrow> SessionStore \<Rightarrow> SessionStore" where
  "removeBindingLocked sid b s =
     detachReverseLocked sid (bProxyID b) (s\<lparr>bindings := AList.delete sid (bindings s)\<rparr>)"

definition Get :: "string \<Rightarrow> SessionStore \<Rightarrow> Binding option \<times> SessionStore" where
  "Get sid s =
     (case map_of (bindings s) sid of
        None \<Rightarrow> (None, s)
      | Some b \<Rightarrow>
          if expired s b then (None, removeBindingLocked sid b s)
          else let b' = b\<lparr>bLastActive := clock s\<rparr>
               in (Some b', s\<lparr>bindings := AList.update sid b' (bindings s)\<rparr>))"

definition SetProxy :: "string \<Rightarrow> int \<Rightarrow> string \<Rightarrow> string \<Rightarrow> SessionStore \<Rightarrow> SessionStore" where
  "SetProxy sid pid addr region s =
     (let s1 = (case map_of (bindings s) sid of
                  None \<Rightarrow> s
                | Some old \<Rightarrow> detachReverseLocked sid (bProxyID old) s);
          s2 = s1\<lparr>bindings := AList.update sid
                 \<lparr>bProxyID = pid, bNodeAddress = addr, bRegion = region, bLastActive = clock s1\<rparr>
                 (bindings s1)\<rparr>
      in attachReverseLocked sid pid s2)"

definition Set :: "string \<Rightarrow> string \<Rightarrow> string \<Rightarrow> SessionStore \<Rightarrow> SessionStore" where
  "Set sid addr region s = SetProxy sid 0 addr region s"

definition Remove :: "string \<Rightarrow> SessionStore \<Rightarrow> SessionStore" where
  "Remove sid s =
     (case map_of (bindings s) sid of None \<Rightarrow> s | Some b \<Rightarrow> removeBindingLocked sid b s)"

definition RemoveIfProxyID :: "string \<Rightarrow> int \<Rightarrow> SessionStore \<Rightarrow> bool \<times> SessionStore" where
  "RemoveIfProxyID sid pid s =
     (case map_of (bindings s) sid of
        None \<Rightarrow> (False, s)
      | Some b \<Rightarrow>
          if expired s b then (False, removeBindingLocked sid b s)
          else if bProxyID b \<noteq> pid then (False, s)
          else (True, removeBindingLocked sid b s))"

definition SetCooldown :: "int \<Rightarrow> int \<Rightarrow> SessionStore \<Rightarrow> SessionStore" where
  "SetCooldown pid until s = s\<lparr>cooldown := AList.update pid until (cooldown s)\<rparr>"

definition InCooldown :: "int \<Rightarrow> SessionStore \<Rightarrow> bool \<times> SessionStore" where
  "InCooldown pid s =
     (case map_of (cooldown s) pid of
        None \<Rightarrow> (False, s)
      | Some until \<Rightarrow>
          if \<not> clock s < until then (False, s\<lparr>cooldown := AList.delete pid (cooldown s)\<rparr>)
          else (True, s))"

definition CooldownRemaining :: "int \<Rightarrow> SessionStore \<Rightarrow> int \<times> SessionStore" where
  "CooldownRemaining pid s =
     (case map_of (cooldown s) pid of
        None \<Rightarrow> (0, s)
      | Some until \<Rightarrow>
          let rem = until - clock s in
          if rem \<le> 0 then (0, s\<lparr>cooldown := AList.delete pid (cooldown s)\<rparr>) else (rem, s))"

text \<open>
  The body of the loop in \<open>countByProxyLocked\<close> for one session of the set of \<open>pid\<close>. The local
  variable \<open>sessions\<close> is the very map stored in the reverse index, so deleting from it changes the
  index; an emptied set is only dropped from the index by \<open>removeBindingLocked\<close> or after the loop.
\<close>

definition countVisit :: "int \<Rightarrow> string \<Rightarrow> SessionStore \<Rightarrow> SessionStore" where
  "countVisit pid sid s =
     (case map_of (bindings s) sid of
        None \<Rightarrow> s\<lparr>reverseIdx := AList.map_entry pid (removeAll sid) (reverseIdx s)\<rparr>
      | Some b \<Rightarrow>
          if bProxyID b \<noteq> pid
          then s\<lparr>reverseIdx := AList.map_entry pid (removeAll sid) (reverseIdx s)\<rparr>
          else if expired s b then removeBindingLocked sid b s
          else s)"

definition countByProxyLocked :: "int \<Rightarrow> SessionStore \<Rightarrow> nat \<times> SessionStore" where
  "countByProxyLocked pid s =
     (case map_of (reverseIdx s) pid of
        None \<Rightarrow> (0, s)
      | Some sessions \<Rightarrow>
          if sessions = [] then (0, s)
          else let s' = fold (countVisit pid) sessions s;
                   left = (case map_of (reverseIdx s') pid of None \<Rightarrow> [] | Some st \<Rightarrow> st)
               in if left = [] then (0, s'\<lparr>reverseIdx := AList.delete pid (reverseIdx s')\<rparr>)
                  else (length left, s'))"

definition CountByProxy :: "int \<Rightarrow> SessionStore \<Rightarrow> nat \<times> SessionStore" where
  "CountByProxy pid s = countByProxyLocked pid s"

definition expireVisit :: "string \<times> Binding \<Rightarrow> SessionStore \<Rightarrow> SessionStore" where
  "expireVisit e s = (if expired s (snd e) then removeBindingLocked (fst e) (snd e) s else s)"

definition collectExpired :: "SessionStore \<Rightarrow> SessionStore" where
  "collectExpired s =
     (let s' = fold expireVisit (bindings s) s
      in s'\<lparr>cooldown := filter (\<lambda>(pid, until). clock s' < until) (cooldown s')\<rparr>)"

text \<open>
  \<open>StartGC\<close> and the two phases of \<open>Stop\<close>: the section under the mutex, which hands over the stop
  channel, and closing that channel and waiting for the loop to end.
\<close>

definition StartGC :: "int \<Rightarrow> SessionStore \<Rightarrow> SessionStore" where
  "StartGC interval s =
     (if interval \<le> 0 then s
      else if gcStarted s then s
      else s\<lparr>gcStarted := True, stopCh := Some (nextCh s), nextCh := Suc (nextCh s),
             gcLoops := nextCh s # gcLoops s\<rparr>)"

definition stopLocked :: "SessionStore \<Rightarrow> nat option \<times> SessionStore" where
  "stopLocked s =
     (if \<not> gcStarted s then (None, s)
      else (stopCh s, s\<lparr>gcStarted := False, stopCh := None\<rparr>))"

definition Stop :: "SessionStore \<Rightarrow> SessionStore" where
  "Stop s =
     (case stopLocked s of
        (None, s1) \<Rightarrow> s1
      | (Some ch, s1) \<Rightarrow> s1\<lparr>gcLoops := removeAll ch (gcLoops s1)\<rparr>)"

definition ListSessions :: "SessionStore \<Rightarrow> SessionBinding list" where
  "ListSessions s =
     map (\<lambda>(sid, b). \<lparr>sbSessionID = sid, sbProxyID = bProxyID b, sbNodeAddress = bNodeAddress b,
            sbRegion = bRegion b, sbLastActive = bLastActive b\<rparr>)
       (filter (\<lambda>(sid, b). \<not> expired s b) (bindings s))"

definition Count :: "SessionStore \<Rightarrow> nat" where
  "Count s = length (filter (\<lambda>(sid, b). \<not> expired s b) (bindings s))"

definition TTL :: "SessionStore \<Rightarrow> int" where
  "TTL s = ttl s"

definition SetTTL :: "int \<Rightarrow> SessionStore \<Rightarrow> SessionStore" where
  "SetTTL t s = s\<lparr>ttl := t\<rparr>"

definition RemainingTTL :: "SessionBinding \<Rightarrow> SessionStore \<Rightarrow> int" where
  "RemainingTTL b s =
     (if ttl s \<le> 0 then 0
      else let remaining = ttl s - (clock s - sbLastActive b)
           in if remaining < 0 then 0 else remaining)"

definition Now :: "SessionStore \<Rightarrow> int" where
  "Now s = clock s"

section \<open>The reverse index mirrors the bindings\<close>

definition revSet :: "SessionStore \<Rightarrow> int \<Rightarrow> string list" where
  "revSet s pid = (case map_of (reverseIdx s) pid of None \<Rightarrow> [] | Some st \<Rightarrow> st)"

definition boundSessions :: "SessionStore \<Rightarrow> int \<Rightarrow> string set" where
  "boundSessions s pid = {sid. \<exists>b. map_of (bindings s) sid = Some b \<and> bProxyID b = pid}"

definition affinity_inv :: "SessionStore \<Rightarrow> bool" where
  "affinity_inv s \<longleftrightarrow>
     distinct (map fst (bindings s)) \<and> distinct (map fst (reverseIdx s)) \<and>
     distinct (map fst (cooldown s)) \<and>
     (\<forall>pid. distinct (revSet s pid) \<and> set (revSet s pid) = boundSessions s pid) \<and>
     (\<forall>pid. map_of (reverseIdx s) pid \<noteq> Some [])"

lemmas alist_conv = AList.update_conv' AList.delete_conv'
lemmas alist_distinct = AList.distinct_update AList.distinct_delete

lemma gc_frame [simp]:
  "revSet (s\<lparr>gcStarted := a\<rparr>) = revSet s" "revSet (s\<lparr>stopCh := b\<rparr>) = revSet s"
  "revSet (s\<lparr>gcLoops := l\<rparr>) = revSet s" "revSet (s\<lparr>nextCh := n\<rparr>) = revSet s"
  "boundSessions (s\<lparr>gcStarted := a\<rparr>) = boundSessions s"
  "boundSessions (s\<lparr>stopCh := b\<rparr>) = boundSessions s"
  "boundSessions (s\<lparr>gcLoops := l\<rparr>) = boundSessions s"
  "boundSessions (s\<lparr>nextCh := n\<rparr>) = boundSessions s"
  by (simp_all add: revSet_def boundSessions_def fun_eq_iff)

lemma revSet_frame [simp]:
  "revSet (s\<lparr>bindings := x\<rparr>) = revSet s" "revSet (s\<lparr>cooldown := y\<rparr>) = revSet s"
  "revSet (s\<lparr>ttl := t\<rparr>) = revSet s" "revSet (s\<lparr>clock := c\<rparr>) = revSet s"
  by (simp_all add: revSet_def fun_eq_iff)

lemma boundSessions_frame [simp]:
  "boundSessions (s\<lparr>reverseIdx := x\<rparr>) = boundSessions s"
  "boundSessions (s\<lparr>cooldown := y\<rparr>) = boundSessions s"
  "boundSessions (s\<lparr>ttl := t\<rparr>) = boundSessions s"
  "boundSessions (s\<lparr>clock := c\<rparr>) = boundSessions s"
  by (simp_all add: boundSessions_def fun_eq_iff)

lemma attach_fields [simp]:
  "bindings (attachReverseLocked sid pid s) = bindings s"
  "cooldown (attachReverseLocked sid pid s) = cooldown s"
  "ttl (attachReverseLocked sid pid s) = ttl s" "clock (attachReverseLocked sid pid s) = clock s"
  by (simp_all add: attachReverseLocked_def Let_def)

lemma detach_fields [simp]:
  "bindings (detachReverseLocked sid pid s) = bindings s"
  "cooldown (detachReverseLocked sid pid s) = cooldown s"
  "ttl (detachReverseLocked sid pid s) = ttl s" "clock (detachReverseLocked sid pid s) = clock s"
  by (simp_all add: detachReverseLocked_def Let_def split: option.split)

lemma revSet_attach: "revSet (attachReverseLocked sid pid s) q =
    (if q = pid then List.insert sid (revSet s pid) else revSet s q)"
  by (simp add: attachReverseLocked_def revSet_def Let_def alist_conv)

lemma revSet_detach: "revSet (detachReverseLocked sid pid s) q =
    (if q = pid then removeAll sid (revSet s pid) else revSet s q)"
  by (auto simp: detachReverseLocked_def revSet_def Let_def alist_conv split: option.split)

lemma list_insert_not_Nil: "List.insert x xs \<noteq> []"
  by (cases xs) (auto simp: List.insert_def)

lemma attach_reverse:
  "distinct (map fst (reverseIdx s)) \<Longrightarrow> distinct (map fst (reverseIdx (attachReverseLocked sid pid s)))"
  "\<forall>q. map_of (reverseIdx s) q \<noteq> Some [] \<Longrightarrow>
     map_of (reverseIdx (attachReverseLocked sid pid s)) q \<noteq> Some []"
  by (auto simp: attachReverseLocked_def Let_def alist_distinct alist_conv list_insert_not_Nil)

lemma detach_reverse:
  "distinct (map fst (reverseIdx s)) \<Longrightarrow> distinct (map fst (reverseIdx (detachReverseLocked sid pid s)))"
  "\<forall>q. map_of (reverseIdx s) q \<noteq> Some [] \<Longrightarrow>
     map_of (reverseIdx (detachReverseLocked sid pid s)) q \<noteq> Some []"
  by (auto simp: detachReverseLocked_def Let_def alist_distinct alist_conv split: option.split)

lemma boundSessions_update:
  "boundSessions (s\<lparr>bindings := AList.update sid b (bindings s)\<rparr>) q =
     (if q = bProxyID b then insert sid (boundSessions s q) else boundSessions s q - {sid})"
  by (auto simp: boundSessions_def alist_conv)

lemma boundSessions_delete:
  "boundSessions (s\<lparr>bindings := AList.delete sid (bindings s)\<rparr>) q = boundSessions s q - {sid}"
  by (auto simp: boundSessions_def alist_conv)

lemma boundSessions_cong: "bindings s = bindings t \<Longrightarrow> boundSessions s = boundSessions t"
  by (simp add: boundSessions_def fun_eq_iff)

lemma removeBinding_fields [simp]:
  "bindings (removeBindingLocked sid b s) = AList.delete sid (bindings s)"
  "cooldown (removeBindingLocked sid b s) = cooldown s"
  "ttl (removeBindingLocked sid b s) = ttl s" "clock (removeBindingLocked sid b s) = clock s"
  by (simp_all add: removeBindingLocked_def)

lemma not_bound_elsewhere:
  "map_of (bindings s) sid = Some b \<Longrightarrow> q \<noteq> bProxyID b \<Longrightarrow> sid \<notin> boundSessions s q"
  by (auto simp: boundSessions_def)

lemma affinity_invI:
  assumes "distinct (map fst (bindings s))" "distinct (map fst (reverseIdx s))"
    "distinct (map fst (cooldown s))" "\<And>pid. distinct (revSet s pid)"
    "\<And>pid. set (revSet s pid) = boundSessions s pid" "\<And>pid. map_of (reverseIdx s) pid \<noteq> Some []"
  shows "affinity_inv s"
  using assms by (simp add: affinity_inv_def)

lemma affinity_invD:
  assumes "affinity_inv s"
  shows "distinct (map fst (bindings s))" "distinct (map fst (reverseIdx s))"
    "distinct (map fst (cooldown s))" "distinct (revSet s pid)"
    "set (revSet s pid) = boundSessions s pid" "\<forall>pid. map_of (reverseIdx s) pid \<noteq> Some []"
  using assms unfolding affinity_inv_def by blast+

lemma removeBinding_inv:
  assumes "affinity_inv s" "map_of (bindings s) sid = Some b"
  shows "affinity_inv (removeBindingLocked sid b s)"
proof (rule affinity_invI)
  let ?t = "removeBindingLocked sid b s"
  note d = affinity_invD [OF assms(1)]
  show "distinct (map fst (bindings ?t))" "distinct (map fst (cooldown ?t))"
    using d(1,3) by (simp_all add: alist_distinct)
  show "distinct (map fst (reverseIdx ?t))"
    using detach_reverse(1) [of "s\<lparr>bindings := _\<rparr>"] d(2) by (simp add: removeBindingLocked_def)
  show "map_of (reverseIdx ?t) pid \<noteq> Some []" for pid
    unfolding removeBindingLocked_def by (rule detach_reverse(2)) (use d(6) in simp)
  show "distinct (revSet ?t q)" for q
    using d(4) by (simp add: removeBindingLocked_def revSet_detach distinct_removeAll)
  show "set (revSet ?t q) = boundSessions ?t q" for q
    using d(5) [of q] not_bound_elsewhere [OF assms(2), of q] boundSessions_cong [OF detach_fields(1)]
      boundSessions_delete [where s = s and sid = sid and q = q]
    by (auto simp: removeBindingLocked_def revSet_detach)
qed

lemma touch_inv:
  assumes "affinity_inv s" "map_of (bindings s) sid = Some b" "bProxyID b' = bProxyID b"
  shows "affinity_inv (s\<lparr>bindings := AList.update sid b' (bindings s)\<rparr>)"
proof -
  have "boundSessions (s\<lparr>bindings := AList.update sid b' (bindings s)\<rparr>) = boundSessions s"
    using assms(2,3) by (auto simp: boundSessions_update fun_eq_iff) (auto simp: boundSessions_def)
  with assms(1) show ?thesis by (simp add: affinity_inv_def alist_distinct)
qed

lemma SetProxy_fields [simp]:
  "map_of (bindings (SetProxy sid pid a r s)) = (map_of (bindings s))
     (sid \<mapsto> \<lparr>bProxyID = pid, bNodeAddress = a, bRegion = r, bLastActive = clock s\<rparr>)"
  "cooldown (SetProxy sid pid a r s) = cooldown s" "ttl (SetProxy sid pid a r s) = ttl s"
  "clock (SetProxy sid pid a r s) = clock s"
  by (auto simp: SetProxy_def Let_def alist_conv split: option.split)

lemma SetProxy_inv:
  assumes "affinity_inv s"
  shows "affinity_inv (SetProxy sid pid a r s)"
proof -
  let ?s1 = "case map_of (bindings s) sid of None \<Rightarrow> s
    | Some old \<Rightarrow> detachReverseLocked sid (bProxyID old) s"
  let ?b = "\<lparr>bProxyID = pid, bNodeAddress = a, bRegion = r, bLastActive = clock ?s1\<rparr>"
  have f1: "bindings ?s1 = bindings s" "cooldown ?s1 = cooldown s"
    by (simp_all split: option.split)
  note d = affinity_invD [OF assms]
  have r1: "distinct (revSet ?s1 q)" "set (revSet ?s1 q) = boundSessions s q - {sid}" for q
    using d(4,5) [of q] not_bound_elsewhere [of s sid _ q]
    by (auto simp: revSet_detach distinct_removeAll boundSessions_def split: option.split)
  have r2: "distinct (map fst (reverseIdx ?s1))" "\<forall>q. map_of (reverseIdx ?s1) q \<noteq> Some []"
    using detach_reverse(1) [OF d(2)] detach_reverse(2) [OF d(6)] d(2,6)
    by (cases "map_of (bindings s) sid"; simp only: option.case; blast)+
  have s2: "boundSessions (?s1\<lparr>bindings := AList.update sid ?b (bindings ?s1)\<rparr>) q =
      (if q = pid then insert sid (boundSessions s q) else boundSessions s q - {sid})" for q
    using boundSessions_update [where s = ?s1 and sid = sid and b = ?b and q = q] boundSessions_cong [OF f1(1)] by simp
  define s2 where "s2 = ?s1\<lparr>bindings := AList.update sid ?b (bindings ?s1)\<rparr>"
  have rev2: "reverseIdx s2 = reverseIdx ?s1" "revSet s2 = revSet ?s1" "cooldown s2 = cooldown s"
    "bindings s2 = AList.update sid ?b (bindings s)"
    using f1 by (simp_all add: s2_def)
  have "affinity_inv (attachReverseLocked sid pid s2)"
  proof (rule affinity_invI)
    show "distinct (map fst (reverseIdx (attachReverseLocked sid pid s2)))"
      using attach_reverse(1) [of s2] r2(1) rev2(1) by simp
    show "map_of (reverseIdx (attachReverseLocked sid pid s2)) q \<noteq> Some []" for q
      by (rule attach_reverse(2)) (use r2(2) rev2(1) in metis)
    show "distinct (revSet (attachReverseLocked sid pid s2) q)" for q
      using r1(1) by (simp add: revSet_attach rev2(2))
    show "set (revSet (attachReverseLocked sid pid s2) q) =
        boundSessions (attachReverseLocked sid pid s2) q" for q
      using r1(2) s2 [of q] boundSessions_cong [OF attach_fields(1), of sid pid s2]
      by (auto simp: revSet_attach rev2(2) s2_def [symmetric])
  qed (use d(1,3) rev2 in \<open>simp_all add: alist_distinct\<close>)
  then show ?thesis by (simp only: SetProxy_def Let_def s2_def)
qed

lemma NewWithClock_inv: "affinity_inv (NewWithClock t now)"
  by (simp add: affinity_inv_def NewWithClock_def revSet_def boundSessions_def)

lemma Get_inv: "affinity_inv s \<Longrightarrow> affinity_inv (snd (Get sid s))"
  by (auto simp: Get_def Let_def removeBinding_inv touch_inv split: option.split)

lemma Remove_inv: "affinity_inv s \<Longrightarrow> affinity_inv (Remove sid s)"
  by (auto simp: Remove_def removeBinding_inv split: option.split)

lemma RemoveIfProxyID_inv: "affinity_inv s \<Longrightarrow> affinity_inv (snd (RemoveIfProxyID sid pid s))"
  by (auto simp: RemoveIfProxyID_def removeBinding_inv split: option.split)

lemma cooldown_inv:
  "affinity_inv s \<Longrightarrow> distinct (map fst c) \<Longrightarrow> affinity_inv (s\<lparr>cooldown := c\<rparr>)"
  by (simp add: affinity_inv_def)

lemma cooldown_ops_inv:
  assumes "affinity_inv s"
  shows "affinity_inv (SetCooldown pid u s)" "affinity_inv (snd (InCooldown pid s))"
    "affinity_inv (snd (CooldownRemaining pid s))"
  using assms
  by (auto simp: SetCooldown_def InCooldown_def CooldownRemaining_def Let_def affinity_inv_def
      alist_distinct split: option.split)

lemma SetTTL_inv: "affinity_inv s \<Longrightarrow> affinity_inv (SetTTL t s)"
  by (simp add: affinity_inv_def SetTTL_def)

section \<open>What a client observes\<close>

text \<open>
  The unexpired binding of a session and the open first-bind cooldown window of a proxy: expired
  entries are invisible, so the lazy purges of the operations must not change either view.
\<close>

definition live :: "SessionStore \<Rightarrow> string \<Rightarrow> Binding option" where
  "live s sid =
     (case map_of (bindings s) sid of None \<Rightarrow> None | Some b \<Rightarrow> if expired s b then None else Some b)"

definition window :: "SessionStore \<Rightarrow> int \<Rightarrow> int option" where
  "window s pid =
     (case map_of (cooldown s) pid of
        None \<Rightarrow> None
      | Some until \<Rightarrow> if clock s < until then Some until else None)"

definition liveOn :: "SessionStore \<Rightarrow> int \<Rightarrow> string set" where
  "liveOn s pid = {sid. \<exists>b. live s sid = Some b \<and> bProxyID b = pid}"

lemma live_cong:
  "map_of (bindings s) = map_of (bindings t) \<Longrightarrow> ttl s = ttl t \<Longrightarrow> clock s = clock t \<Longrightarrow> live s = live t"
  by (simp add: live_def expired_def fun_eq_iff split: option.split)

lemma window_cong:
  "map_of (cooldown s) = map_of (cooldown t) \<Longrightarrow> clock s = clock t \<Longrightarrow> window s = window t"
  by (simp add: window_def fun_eq_iff split: option.split)

lemma live_removeBinding: "live (removeBindingLocked sid b s) = (live s)(sid := None)"
  by (auto simp: live_def expired_def fun_eq_iff alist_conv split: option.split)

lemma live_expired_None:
  "map_of (bindings s) sid = Some b \<Longrightarrow> expired s b \<Longrightarrow> (live s)(sid := None) = live s"
  by (auto simp: live_def fun_eq_iff)

lemma liveOn_bound: "liveOn s pid \<subseteq> boundSessions s pid"
  by (auto simp: liveOn_def live_def boundSessions_def split: option.splits if_splits)

lemma Get_result: "fst (Get sid s) = map_option (\<lambda>b. b\<lparr>bLastActive := clock s\<rparr>) (live s sid)"
  by (simp add: Get_def live_def Let_def split: option.split)

lemma touched_not_expired: "\<not> expired s (b\<lparr>bLastActive := clock s\<rparr>)"
  by (simp add: expired_def)

lemma live_update:
  assumes "\<not> expired s b"
  shows "live (s\<lparr>bindings := AList.update sid b (bindings s)\<rparr>) = (live s)(sid \<mapsto> b)"
  using assms by (auto simp: live_def expired_def fun_eq_iff alist_conv split: option.split)

lemma Get_live: "live (snd (Get sid s)) = (live s)(sid := fst (Get sid s))"
  by (auto simp: Get_def Let_def live_removeBinding live_update touched_not_expired fun_upd_idem
      live_def split: option.split)

lemma SetProxy_live:
  "live (SetProxy sid pid a r s) = (live s)
     (sid \<mapsto> \<lparr>bProxyID = pid, bNodeAddress = a, bRegion = r, bLastActive = clock s\<rparr>)"
  by (auto simp: live_def expired_def fun_eq_iff split: option.split)

lemma Remove_live: "live (Remove sid s) = (live s)(sid := None)"
  by (auto simp: Remove_def live_removeBinding fun_upd_idem live_def split: option.split)

lemma RemoveIfProxyID_result:
  "fst (RemoveIfProxyID sid pid s) \<longleftrightarrow> sid \<in> liveOn s pid"
  by (auto simp: RemoveIfProxyID_def liveOn_def live_def split: option.split)

lemma RemoveIfProxyID_live:
  "live (snd (RemoveIfProxyID sid pid s)) =
     (if sid \<in> liveOn s pid then (live s)(sid := None) else live s)"
  by (auto simp: RemoveIfProxyID_def live_removeBinding live_expired_None liveOn_def
      split: option.split) (auto simp: live_def)

lemma clock_frame [simp]:
  "clock (snd (Get sid s)) = clock s" "clock (Remove sid s) = clock s"
  "clock (snd (RemoveIfProxyID sid pid s)) = clock s" "clock (SetCooldown pid u s) = clock s"
  "clock (snd (InCooldown pid s)) = clock s" "clock (snd (CooldownRemaining pid s)) = clock s"
  by (auto simp: Get_def Remove_def RemoveIfProxyID_def SetCooldown_def InCooldown_def
      CooldownRemaining_def Let_def split: option.split)

lemma window_frame [simp]:
  "window (snd (Get sid s)) = window s" "window (SetProxy sid pid a r s) = window s"
  "window (Remove sid s) = window s" "window (snd (RemoveIfProxyID sid pid s)) = window s"
  by (auto simp: Get_def SetProxy_def Remove_def RemoveIfProxyID_def Let_def intro!: window_cong
      split: option.split)

lemma live_cooldown_frame [simp]:
  "live (SetCooldown pid u s) = live s" "live (snd (InCooldown pid s)) = live s"
  "live (snd (CooldownRemaining pid s)) = live s"
  by (auto simp: SetCooldown_def InCooldown_def CooldownRemaining_def Let_def intro!: live_cong
      split: option.split)

lemma InCooldown_result: "fst (InCooldown pid s) \<longleftrightarrow> window s pid \<noteq> None"
  by (simp add: InCooldown_def window_def split: option.split)

lemma InCooldown_window: "window (snd (InCooldown pid s)) = window s"
  by (auto simp: InCooldown_def window_def fun_eq_iff alist_conv split: option.split)

lemma CooldownRemaining_result:
  "fst (CooldownRemaining pid s) = (case window s pid of None \<Rightarrow> 0 | Some u \<Rightarrow> u - clock s)"
  by (auto simp: CooldownRemaining_def window_def Let_def split: option.split)

lemma SetCooldown_window:
  "window (SetCooldown pid u s) = (window s)(pid := (if clock s < u then Some u else None))"
  by (auto simp: SetCooldown_def window_def fun_eq_iff alist_conv split: option.split)

section \<open>Counting and collecting\<close>

lemma liveOn_iff:
  assumes "map_of (bindings s) sid = Some b" "bProxyID b = pid"
  shows "sid \<in> liveOn s pid \<longleftrightarrow> \<not> expired s b"
  using assms by (auto simp: liveOn_def live_def)

lemma boundSessions_removeBinding:
  "boundSessions (removeBindingLocked sid b s) q = boundSessions s q - {sid}"
  using boundSessions_delete [where s = s and sid = sid and q = q] boundSessions_cong [OF detach_fields(1)]
  by (simp add: removeBindingLocked_def)

lemma window_removeBinding [simp]: "window (removeBindingLocked sid b s) = window s"
  by (rule window_cong) simp_all

lemma liveOn_cong: "live s = live t \<Longrightarrow> liveOn s = liveOn t"
  by (simp add: liveOn_def fun_eq_iff)

lemma countVisit_step:
  assumes "affinity_inv s" "sid \<in> boundSessions s pid"
  shows "affinity_inv (countVisit pid sid s)" "live (countVisit pid sid s) = live s"
    "window (countVisit pid sid s) = window s" "clock (countVisit pid sid s) = clock s"
    "boundSessions (countVisit pid sid s) pid = boundSessions s pid - ({sid} - liveOn s pid)"
proof -
  obtain b where b: "map_of (bindings s) sid = Some b" "bProxyID b = pid"
    using assms(2) by (auto simp: boundSessions_def)
  show "affinity_inv (countVisit pid sid s)"
    using b assms(1) by (simp add: countVisit_def removeBinding_inv)
  show "live (countVisit pid sid s) = live s"
    using b by (simp add: countVisit_def live_removeBinding live_expired_None)
  show "window (countVisit pid sid s) = window s" "clock (countVisit pid sid s) = clock s"
    using b by (simp_all add: countVisit_def)
  show "boundSessions (countVisit pid sid s) pid = boundSessions s pid - ({sid} - liveOn s pid)"
    using b by (auto simp: countVisit_def boundSessions_removeBinding liveOn_iff)
qed

lemma countVisit_fold:
  assumes "affinity_inv s" "distinct xs" "set xs \<subseteq> boundSessions s pid"
  shows "affinity_inv (fold (countVisit pid) xs s) \<and> live (fold (countVisit pid) xs s) = live s \<and>
    window (fold (countVisit pid) xs s) = window s \<and> clock (fold (countVisit pid) xs s) = clock s \<and>
    boundSessions (fold (countVisit pid) xs s) pid = boundSessions s pid - (set xs - liveOn s pid)"
  using assms
proof (induction xs arbitrary: s)
  case (Cons x xs)
  then have x: "x \<in> boundSessions s pid" by simp
  note st = countVisit_step [OF Cons.prems(1) x]
  have "set xs \<subseteq> boundSessions (countVisit pid x s) pid"
    using Cons.prems(2,3) st(5) by auto
  note ih = Cons.IH [OF st(1) _ this]
  show ?case
    using ih Cons.prems(2) st liveOn_cong [OF st(2)] by auto
qed simp

lemma map_of_delete_absent: "map_of xs k = None \<Longrightarrow> AList.delete k xs = xs"
  by (simp add: AList.delete_eq map_of_eq_None_iff filter_id_conv) force

lemma countByProxy_correct:
  assumes "affinity_inv s"
  shows "fst (countByProxyLocked pid s) = card (liveOn s pid)"
    "live (snd (countByProxyLocked pid s)) = live s"
    "window (snd (countByProxyLocked pid s)) = window s"
    "clock (snd (countByProxyLocked pid s)) = clock s"
    "affinity_inv (snd (countByProxyLocked pid s))"
proof -
  note d = affinity_invD [OF assms]
  have "fst (countByProxyLocked pid s) = card (liveOn s pid) \<and>
      live (snd (countByProxyLocked pid s)) = live s \<and>
      window (snd (countByProxyLocked pid s)) = window s \<and>
      clock (snd (countByProxyLocked pid s)) = clock s \<and>
      affinity_inv (snd (countByProxyLocked pid s))"
  proof (cases "map_of (reverseIdx s) pid")
    case None
    then have "liveOn s pid = {}" using d(5) [of pid] liveOn_bound [of s pid] by (simp add: revSet_def)
    with None assms show ?thesis by (simp add: countByProxyLocked_def)
  next
    case (Some xs)
    then have xs: "revSet s pid = xs" "xs \<noteq> []" using d(6) by (auto simp: revSet_def)
    let ?t = "fold (countVisit pid) xs s"
    have f: "affinity_inv ?t" "live ?t = live s" "window ?t = window s" "clock ?t = clock s"
      "boundSessions ?t pid = liveOn s pid"
      using countVisit_fold [OF assms, of xs pid] d(4,5) [of pid] xs liveOn_bound [of s pid] by auto
    have len: "length (revSet ?t pid) = card (liveOn s pid)"
      using distinct_card [OF affinity_invD(4) [OF f(1), of pid]] affinity_invD(5) [OF f(1), of pid] f(5)
      by simp
    have del: "revSet ?t pid = [] \<Longrightarrow> map_of (reverseIdx ?t) pid = None"
      using affinity_invD(6) [OF f(1)] by (auto simp: revSet_def split: option.splits)
    have "countByProxyLocked pid s =
        (if revSet ?t pid = [] then (0, ?t\<lparr>reverseIdx := AList.delete pid (reverseIdx ?t)\<rparr>)
         else (length (revSet ?t pid), ?t))"
      using Some xs(2) by (simp add: countByProxyLocked_def Let_def revSet_def)
    also have "\<dots> = (card (liveOn s pid), ?t)"
      using len [symmetric] map_of_delete_absent [OF del] by (cases "revSet ?t pid = []") simp_all
    finally have "countByProxyLocked pid s = (card (liveOn s pid), ?t)" .
    with f show ?thesis by simp
  qed
  then show "fst (countByProxyLocked pid s) = card (liveOn s pid)"
    "live (snd (countByProxyLocked pid s)) = live s"
    "window (snd (countByProxyLocked pid s)) = window s"
    "clock (snd (countByProxyLocked pid s)) = clock s"
    "affinity_inv (snd (countByProxyLocked pid s))" by blast+
qed

lemma map_of_filter_distinct:
  assumes "distinct (map fst xs)"
  shows "map_of (filter (\<lambda>(k, v). P v) xs) k =
    (case map_of xs k of None \<Rightarrow> None | Some v \<Rightarrow> if P v then Some v else None)"
  using assms by (induction xs) (auto simp: map_of_eq_None_iff split: option.split)

lemma expireVisit_fold:
  assumes "affinity_inv s" "distinct (map fst xs)" "\<And>e. e \<in> set xs \<Longrightarrow> map_of (bindings s) (fst e) = Some (snd e)"
  shows "affinity_inv (fold expireVisit xs s) \<and> live (fold expireVisit xs s) = live s \<and>
    cooldown (fold expireVisit xs s) = cooldown s \<and> clock (fold expireVisit xs s) = clock s \<and>
    ttl (fold expireVisit xs s) = ttl s \<and>
    (\<forall>sid. map_of (bindings (fold expireVisit xs s)) sid =
       (if \<exists>b. (sid, b) \<in> set xs \<and> expired s b then None else map_of (bindings s) sid))"
  using assms
proof (induction xs arbitrary: s)
  case (Cons e xs)
  have e: "map_of (bindings s) (fst e) = Some (snd e)" using Cons.prems(3) by simp
  let ?t = "expireVisit e s"
  have t: "affinity_inv ?t" "live ?t = live s" "cooldown ?t = cooldown s" "clock ?t = clock s"
    "ttl ?t = ttl s" "\<And>b. expired ?t b = expired s b"
    using Cons.prems(1) e
    by (auto simp: expireVisit_def removeBinding_inv live_removeBinding live_expired_None expired_def)
  have m: "map_of (bindings ?t) sid =
      (if sid = fst e \<and> expired s (snd e) then None else map_of (bindings s) sid)" for sid
    by (auto simp: expireVisit_def alist_conv)
  have "\<And>x. x \<in> set xs \<Longrightarrow> map_of (bindings ?t) (fst x) = Some (snd x)"
    using Cons.prems(2,3) m by (metis fst_conv image_eqI list.set_intros(2) list.set_map distinct.simps(2)
        list.simps(9))
  note ih = Cons.IH [OF t(1) _ this]
  have "(\<exists>b. (sid, b) \<in> set (e # xs) \<and> expired s b) \<longleftrightarrow>
      (sid = fst e \<and> expired s (snd e)) \<or> (\<exists>b. (sid, b) \<in> set xs \<and> expired s b)" for sid
    by (cases e) auto
  with ih Cons.prems(2) t m show ?case by auto
qed simp

lemma collectExpired_correct:
  assumes "affinity_inv s"
  shows "affinity_inv (collectExpired s)" "live (collectExpired s) = live s"
    "window (collectExpired s) = window s" "clock (collectExpired s) = clock s"
    "map_of (bindings (collectExpired s)) = live s" "map_of (cooldown (collectExpired s)) = window s"
proof -
  note d = affinity_invD [OF assms]
  let ?t = "fold expireVisit (bindings s) s"
  have "\<And>e. e \<in> set (bindings s) \<Longrightarrow> map_of (bindings s) (fst e) = Some (snd e)"
    using d(1) by simp
  note f = expireVisit_fold [OF assms d(1) this]
  have c: "collectExpired s = ?t\<lparr>cooldown := filter (\<lambda>(pid, until). clock s < until) (cooldown s)\<rparr>"
    using f by (simp add: collectExpired_def Let_def)
  have m: "map_of (filter (\<lambda>(pid, until). clock s < until) (cooldown s)) = window s"
    using map_of_filter_distinct [OF d(3)] by (simp add: window_def fun_eq_iff)
  show "affinity_inv (collectExpired s)"
    unfolding c using f d(3) by (intro cooldown_inv) (auto simp: distinct_map_filter)
  show l: "live (collectExpired s) = live s"
    using f live_cong [of "collectExpired s" ?t] by (simp add: c)
  show "clock (collectExpired s) = clock s" using f by (simp add: c)
  show "map_of (cooldown (collectExpired s)) = window s" by (simp add: c m)
  then show "window (collectExpired s) = window s"
    using \<open>clock (collectExpired s) = clock s\<close>
    by (auto simp: window_def fun_eq_iff split: option.splits if_splits)
  show "map_of (bindings (collectExpired s)) = live s"
  proof
    fix sid
    have "(\<exists>b. (sid, b) \<in> set (bindings s) \<and> expired s b) \<longleftrightarrow>
        (\<exists>b. map_of (bindings s) sid = Some b \<and> expired s b)"
      using map_of_eq_Some_iff [OF d(1)] by simp
    then show "map_of (bindings (collectExpired s)) sid = live s sid"
      using f by (simp add: c live_def split: option.split)
  qed
qed

lemma Count_live: "affinity_inv s \<Longrightarrow> Count s = card (dom (live s))"
proof -
  assume inv: "affinity_inv s"
  note d = affinity_invD(1) [OF inv]
  let ?l = "filter (\<lambda>(sid, b). \<not> expired s b) (bindings s)"
  have "distinct (map fst ?l)" using d by (simp add: distinct_map_filter)
  moreover have "map_of ?l = live s"
    using map_of_filter_distinct [OF d, of "\<lambda>b. \<not> expired s b"]
    by (auto simp: live_def fun_eq_iff split: option.split)
  ultimately show ?thesis
    using distinct_card [of "map fst ?l"] dom_map_of_conv_image_fst [of ?l] by (simp add: Count_def)
qed

lemma finite_live: "finite (dom (live s))"
  by (rule finite_subset [OF _ finite_dom_map_of [of "bindings s"]])
    (auto simp: live_def split: option.splits)

section \<open>Histories\<close>

text \<open>One atomic step of the store: an operation, or the clock moving forward.\<close>

inductive affinity_step :: "SessionStore \<Rightarrow> SessionStore \<Rightarrow> bool" where
  step_get: "affinity_step s (snd (Get sid s))"
| step_set: "affinity_step s (SetProxy sid pid a r s)"
| step_remove: "affinity_step s (Remove sid s)"
| step_remove_if: "affinity_step s (snd (RemoveIfProxyID sid pid s))"
| step_set_cooldown: "affinity_step s (SetCooldown pid u s)"
| step_in_cooldown: "affinity_step s (snd (InCooldown pid s))"
| step_remaining: "affinity_step s (snd (CooldownRemaining pid s))"
| step_count: "affinity_step s (snd (CountByProxy pid s))"
| step_collect: "affinity_step s (collectExpired s)"
| step_ttl: "affinity_step s (SetTTL d s)"
| step_start: "affinity_step s (StartGC i s)"
| step_stop: "affinity_step s (Stop s)"
| step_clock: "d \<ge> 0 \<Longrightarrow> affinity_step s (s\<lparr>clock := clock s + d\<rparr>)"

inductive affinity_reachable :: "SessionStore \<Rightarrow> bool" where
  reach_new: "affinity_reachable (NewWithClock d now)"
| reach_step: "affinity_reachable s \<Longrightarrow> affinity_step s t \<Longrightarrow> affinity_reachable t"

lemma gc_inv: "affinity_inv s \<Longrightarrow> affinity_inv (StartGC i s)" "affinity_inv s \<Longrightarrow> affinity_inv (Stop s)"
  by (auto simp: StartGC_def Stop_def stopLocked_def affinity_inv_def split: option.split)

lemma affinity_step_inv: "affinity_step s t \<Longrightarrow> affinity_inv s \<Longrightarrow> affinity_inv t"
proof (induction rule: affinity_step.induct)
  case (step_clock d s)
  then show ?case by (simp add: affinity_inv_def)
qed (simp_all add: Get_inv SetProxy_inv Remove_inv RemoveIfProxyID_inv cooldown_ops_inv SetTTL_inv
    countByProxy_correct(5) CountByProxy_def collectExpired_correct(1) gc_inv)

lemma reachable_inv: "affinity_reachable s \<Longrightarrow> affinity_inv s"
  by (induction rule: affinity_reachable.induct) (simp_all add: NewWithClock_inv affinity_step_inv)

lemma reach_set: "affinity_reachable s \<Longrightarrow> affinity_reachable (SetProxy sid pid a r s)"
  by (rule reach_step [OF _ step_set])

lemma reach_clock: "affinity_reachable s \<Longrightarrow> clock s \<le> c \<Longrightarrow> affinity_reachable (s\<lparr>clock := c\<rparr>)"
  using reach_step [OF _ step_clock [of "c - clock s" s]] by simp

definition gc_ok :: "SessionStore \<Rightarrow> bool" where
  "gc_ok s \<longleftrightarrow> gcLoops s = (case stopCh s of None \<Rightarrow> [] | Some c \<Rightarrow> [c]) \<and>
     (gcStarted s \<longleftrightarrow> stopCh s \<noteq> None)"

definition gcState :: "SessionStore \<Rightarrow> bool \<times> nat option \<times> nat list" where
  "gcState s = (gcStarted s, stopCh s, gcLoops s)"

lemma gc_ok_state: "gc_ok s \<longleftrightarrow>
    (case gcState s of (st, ch, ls) \<Rightarrow>
       ls = (case ch of None \<Rightarrow> [] | Some c \<Rightarrow> [c]) \<and> (st \<longleftrightarrow> ch \<noteq> None))"
  by (simp add: gcState_def gc_ok_def)

lemma gcState_frame [simp]:
  "gcState (s\<lparr>bindings := a\<rparr>) = gcState s" "gcState (s\<lparr>reverseIdx := b\<rparr>) = gcState s"
  "gcState (s\<lparr>cooldown := c\<rparr>) = gcState s" "gcState (s\<lparr>ttl := d\<rparr>) = gcState s"
  "gcState (s\<lparr>clock := e\<rparr>) = gcState s"
  by (simp_all add: gcState_def)

lemma gcState_inner [simp]:
  "gcState (attachReverseLocked sid pid s) = gcState s"
  "gcState (detachReverseLocked sid pid s) = gcState s"
  "gcState (removeBindingLocked sid b s) = gcState s"
  "gcState (countVisit pid sid s) = gcState s" "gcState (expireVisit e s) = gcState s"
  by (auto simp: attachReverseLocked_def detachReverseLocked_def removeBindingLocked_def Let_def
      countVisit_def expireVisit_def split: option.split)

lemma gcState_folds [simp]:
  "gcState (fold (countVisit pid) xs s) = gcState s" "gcState (fold expireVisit es s) = gcState s"
  by (induction xs arbitrary: s) (simp_all, induction es arbitrary: s, simp_all)

lemma gcState_ops [simp]:
  "gcState (snd (Get sid s)) = gcState s" "gcState (SetProxy sid pid a r s) = gcState s"
  "gcState (Remove sid s) = gcState s" "gcState (snd (RemoveIfProxyID sid pid s)) = gcState s"
  "gcState (SetCooldown pid u s) = gcState s" "gcState (snd (InCooldown pid s)) = gcState s"
  "gcState (snd (CooldownRemaining pid s)) = gcState s" "gcState (SetTTL d s) = gcState s"
  "gcState (collectExpired s) = gcState s" "gcState (snd (CountByProxy pid s)) = gcState s"
  by (auto simp: Get_def SetProxy_def Remove_def RemoveIfProxyID_def SetCooldown_def InCooldown_def
      CooldownRemaining_def SetTTL_def collectExpired_def CountByProxy_def countByProxyLocked_def
      Let_def split: option.split)

lemma gc_ok_start: "gc_ok s \<Longrightarrow> gc_ok (StartGC i s)"
  by (auto simp: gc_ok_def StartGC_def split: option.splits)

lemma gc_ok_stop: "gc_ok s \<Longrightarrow> gc_ok (Stop s) \<and> gcLoops (Stop s) = []"
  by (auto simp: gc_ok_def Stop_def stopLocked_def split: option.splits)

lemma affinity_step_gc: "affinity_step s t \<Longrightarrow> gc_ok s \<Longrightarrow> gc_ok t"
proof (induction rule: affinity_step.induct)
  case (step_start s i)
  then show ?case by (rule gc_ok_start)
next
  case (step_stop s)
  then show ?case using gc_ok_stop by blast
qed (simp_all add: gc_ok_state)

lemma reachable_gc_ok: "affinity_reachable s \<Longrightarrow> gc_ok s"
proof (induction rule: affinity_reachable.induct)
  case (reach_new d now)
  then show ?case by (simp add: gc_ok_def NewWithClock_def)
next
  case (reach_step s t)
  then show ?case using affinity_step_gc by blast
qed

section \<open>The interface its clients rely on\<close>

definition occupancy :: "(string \<Rightarrow> Binding option) \<Rightarrow> int \<Rightarrow> nat" where
  "occupancy v pid = card {sid. \<exists>b. v sid = Some b \<and> bProxyID b = pid}"

text \<open>
  The contract of the session store towards the selector: a view of live bindings and open
  windows, and what each operation answers and does to the view. The lemmas are the capacity
  arguments of the first-bind section.
\<close>

locale session_store =
  fixes inv :: "'s \<Rightarrow> bool"
    and view :: "'s \<Rightarrow> string \<Rightarrow> Binding option"
    and wind :: "'s \<Rightarrow> int \<Rightarrow> int option"
    and clk :: "'s \<Rightarrow> int"
    and get :: "string \<Rightarrow> 's \<Rightarrow> Binding option \<times> 's"
    and setp :: "string \<Rightarrow> int \<Rightarrow> string \<Rightarrow> string \<Rightarrow> 's \<Rightarrow> 's"
    and rmv :: "string \<Rightarrow> 's \<Rightarrow> 's"
    and cnt :: "int \<Rightarrow> 's \<Rightarrow> nat \<times> 's"
    and incd :: "int \<Rightarrow> 's \<Rightarrow> bool \<times> 's"
    and setcd :: "int \<Rightarrow> int \<Rightarrow> 's \<Rightarrow> 's"
  assumes inv_get: "inv s \<Longrightarrow> inv (snd (get sid s))"
    and inv_setp: "inv s \<Longrightarrow> inv (setp sid pid a r s)"
    and inv_rmv: "inv s \<Longrightarrow> inv (rmv sid s)"
    and inv_cnt: "inv s \<Longrightarrow> inv (snd (cnt pid s))"
    and inv_incd: "inv s \<Longrightarrow> inv (snd (incd pid s))"
    and inv_setcd: "inv s \<Longrightarrow> inv (setcd pid u s)"
    and finite_view: "finite (dom (view s))"
    and get_result: "fst (get sid s) = map_option (\<lambda>b. b\<lparr>bLastActive := clk s\<rparr>) (view s sid)"
    and get_view: "view (snd (get sid s)) = (view s)(sid := fst (get sid s))"
    and setp_view: "view (setp sid pid a r s) = (view s)
          (sid \<mapsto> \<lparr>bProxyID = pid, bNodeAddress = a, bRegion = r, bLastActive = clk s\<rparr>)"
    and rmv_view: "view (rmv sid s) = (view s)(sid := None)"
    and cnt_result: "inv s \<Longrightarrow> fst (cnt pid s) = occupancy (view s) pid"
    and cnt_view: "inv s \<Longrightarrow> view (snd (cnt pid s)) = view s"
    and incd_result: "fst (incd pid s) \<longleftrightarrow> wind s pid \<noteq> None"
    and incd_view: "view (snd (incd pid s)) = view s"
    and setcd_view: "view (setcd pid u s) = view s"
    and wind_get: "wind (snd (get sid s)) = wind s"
    and wind_setp: "wind (setp sid pid a r s) = wind s"
    and wind_rmv: "wind (rmv sid s) = wind s"
    and wind_cnt: "inv s \<Longrightarrow> wind (snd (cnt pid s)) = wind s"
    and wind_incd: "wind (snd (incd pid s)) = wind s"
    and setcd_wind: "wind (setcd pid u s) = (wind s)(pid := (if clk s < u then Some u else None))"
    and clk_frame: "clk (snd (get sid s)) = clk s" "clk (setp sid pid a r s) = clk s"
      "clk (rmv sid s) = clk s" "inv s \<Longrightarrow> clk (snd (cnt pid s)) = clk s"
      "clk (snd (incd pid s)) = clk s" "clk (setcd pid u s) = clk s"
begin

lemma finite_sessions: "finite {sid. \<exists>b. view s sid = Some b \<and> bProxyID b = pid}"
  by (rule finite_subset [OF _ finite_view [of s]]) auto

lemma get_occupancy: "occupancy (view (snd (get sid s))) = occupancy (view s)"
proof
  fix pid
  have "{x. \<exists>b. view (snd (get sid s)) x = Some b \<and> bProxyID b = pid} =
      {x. \<exists>b. view s x = Some b \<and> bProxyID b = pid}"
    by (auto simp: get_view get_result split: if_splits)
  then show "occupancy (view (snd (get sid s))) pid = occupancy (view s) pid"
    by (simp add: occupancy_def)
qed

lemma rmv_occupancy: "occupancy (view (rmv sid s)) pid \<le> occupancy (view s) pid"
  unfolding occupancy_def by (rule card_mono [OF finite_sessions]) (auto simp: rmv_view)

lemma setp_occupancy:
  "occupancy (view (setp sid pid a r s)) q \<le> occupancy (view s) q + (if q = pid then 1 else 0)"
proof -
  have "{x. \<exists>b. view (setp sid pid a r s) x = Some b \<and> bProxyID b = q} \<subseteq>
      {x. \<exists>b. view s x = Some b \<and> bProxyID b = q} \<union> (if q = pid then {sid} else {})"
    by (auto simp: setp_view)
  from card_mono [OF _ this] show ?thesis
    using finite_sessions card_Un_le [of _ "if q = pid then {sid} else {}"]
    by (fastforce simp: occupancy_def intro: order_trans)
qed

lemma first_bind_capacity:
  assumes "occupancy (view s) pid < m" "\<forall>q. occupancy (view s) q \<le> m"
  shows "occupancy (view (setp sid pid a r s)) q \<le> m"
  using setp_occupancy [of sid pid a r s q] assms by (cases "q = pid") (auto intro: order_trans)

end

interpretation aff: session_store affinity_inv live window clock Get SetProxy Remove CountByProxy
  InCooldown SetCooldown
  by unfold_locales
    (simp_all add: Get_inv SetProxy_inv Remove_inv cooldown_ops_inv countByProxy_correct CountByProxy_def
      finite_live Get_result Get_live SetProxy_live Remove_live InCooldown_result InCooldown_window
      SetCooldown_window occupancy_def liveOn_def)

section \<open>Properties\<close>

text \<open>
  C6: in every state the operations can reach, the reverse index mirrors the bindings: the set kept
  for a proxy holds, once each, exactly the sessions whose binding names that proxy, and no empty
  set is left behind in the index.
\<close>

theorem reverse_index_mirrors:
  assumes "affinity_reachable s"
  shows "distinct (revSet s pid) \<and> set (revSet s pid) = boundSessions s pid \<and>
    map_of (reverseIdx s) pid \<noteq> Some []"
  using affinity_invD(4,5,6) [OF reachable_inv [OF assms]] by blast

lemma sample_store_reachable:
  "affinity_reachable (SetProxy ''s2'' 7 ''h'' ''us'' (SetProxy ''s1'' 7 ''h'' ''us'' (NewWithClock 10 0)))"
  by (intro reach_set reach_new)

text \<open>Two sessions bound to proxy 7 are the two members of its set.\<close>

theorem reverse_index_mirrors_witness:
  "(\<lambda>s. set (revSet s 7) = boundSessions s 7 \<and> revSet s 7 = [''s2'', ''s1''])
     (SetProxy ''s2'' 7 ''h'' ''us'' (SetProxy ''s1'' 7 ''h'' ''us'' (NewWithClock 10 0)))"
  using reverse_index_mirrors [OF sample_store_reachable, of 7]
  by (simp add: SetProxy_def NewWithClock_def attachReverseLocked_def revSet_def Let_def List.insert_def)

text \<open>
  \<open>CountByProxy\<close> returns exactly the number of unexpired sessions bound to the proxy, and the
  stale entries it purges on the way were invisible: no session's live binding and no cooldown
  window changes.
\<close>

theorem CountByProxy_exact:
  assumes "affinity_reachable s"
  shows "fst (CountByProxy pid s) = card {sid. \<exists>b. live s sid = Some b \<and> bProxyID b = pid} \<and>
    live (snd (CountByProxy pid s)) = live s \<and> window (snd (CountByProxy pid s)) = window s"
  using countByProxy_correct [OF reachable_inv [OF assms], of pid]
  by (simp add: CountByProxy_def liveOn_def)

text \<open>Of two sessions bound to proxy 7 at time 0 and 6, only the second is alive at time 10.\<close>

theorem CountByProxy_exact_witness:
  "(\<lambda>s. fst (CountByProxy 7 s) = card {sid. \<exists>b. live s sid = Some b \<and> bProxyID b = 7} \<and>
       fst (CountByProxy 7 s) = 1 \<and> length (bindings s) = 2)
     ((SetProxy ''s2'' 7 ''h'' ''us''
         ((SetProxy ''s1'' 7 ''h'' ''us'' (NewWithClock 10 0))\<lparr>clock := 6\<rparr>))\<lparr>clock := 10\<rparr>)"
proof -
  let ?a = "(SetProxy ''s1'' 7 ''h'' ''us'' (NewWithClock 10 0))\<lparr>clock := 6\<rparr>"
  have "affinity_reachable ((SetProxy ''s2'' 7 ''h'' ''us'' ?a)\<lparr>clock := 10\<rparr>)"
    by (intro reach_clock reach_set reach_new) (simp_all add: NewWithClock_def)
  from CountByProxy_exact [OF this, of 7] show ?thesis
    by (simp add: SetProxy_def NewWithClock_def attachReverseLocked_def detachReverseLocked_def
        removeBindingLocked_def CountByProxy_def countByProxyLocked_def countVisit_def expired_def
        Let_def List.insert_def)
qed

text \<open>
  C34: the store refines a map from session to live binding. \<open>Get\<close> answers the live binding with its
  activity time refreshed and stores that answer; \<open>SetProxy\<close> rebinds one session; \<open>Remove\<close> forgets
  one session; \<open>RemoveIfProxyID\<close> forgets the session only when it is still live on the expected
  proxy, says so, and otherwise changes no session.
\<close>

theorem session_ops_refine_map:
  "fst (Get sid s) = map_option (\<lambda>b. b\<lparr>bLastActive := clock s\<rparr>) (live s sid) \<and>
   live (snd (Get sid s)) = (live s)(sid := fst (Get sid s)) \<and>
   live (SetProxy sid pid a r s) = (live s)
     (sid \<mapsto> \<lparr>bProxyID = pid, bNodeAddress = a, bRegion = r, bLastActive = clock s\<rparr>) \<and>
   live (Remove sid s) = (live s)(sid := None) \<and>
   (fst (RemoveIfProxyID sid pid s) \<longleftrightarrow> (\<exists>b. live s sid = Some b \<and> bProxyID b = pid)) \<and>
   live (snd (RemoveIfProxyID sid pid s)) =
     (if \<exists>b. live s sid = Some b \<and> bProxyID b = pid then (live s)(sid := None) else live s)"
  using Get_result Get_live SetProxy_live Remove_live RemoveIfProxyID_result RemoveIfProxyID_live
  by (simp add: liveOn_def)

text \<open>
  One collection pass keeps exactly the live bindings and exactly the open cooldown windows:
  what is stored afterwards is what a client could still observe, so entries of proxies that never
  come back are reclaimed and nothing live is lost.
\<close>

theorem collectExpired_exact:
  assumes "affinity_reachable s"
  shows "map_of (bindings (collectExpired s)) = live s \<and> map_of (cooldown (collectExpired s)) = window s \<and>
    live (collectExpired s) = live s \<and> window (collectExpired s) = window s \<and>
    Count (collectExpired s) = Count s"
  using collectExpired_correct [OF reachable_inv [OF assms]] Count_live [OF reachable_inv [OF assms]]
    Count_live [OF collectExpired_correct(1) [OF reachable_inv [OF assms]]] by simp

theorem collectExpired_exact_witness:
  "(\<lambda>s. map_of (bindings (collectExpired s)) ''s1'' = None \<and> length (bindings s) = 1)
     ((SetProxy ''s1'' 7 ''h'' ''us'' (NewWithClock 10 0))\<lparr>clock := 10\<rparr>)"
proof -
  have "affinity_reachable ((SetProxy ''s1'' 7 ''h'' ''us'' (NewWithClock 10 0))\<lparr>clock := 10\<rparr>)"
    by (intro reach_clock reach_set reach_new) (simp add: NewWithClock_def)
  from collectExpired_exact [OF this] show ?thesis
    by (simp add: live_def expired_def SetProxy_def NewWithClock_def attachReverseLocked_def Let_def)
qed

text \<open>
  At most one collector goroutine runs at any time, it runs exactly while the store counts as
  started, and after \<open>Stop\<close> none is left, however often \<open>StartGC\<close> and \<open>Stop\<close> were called before.
\<close>

theorem gc_single_loop:
  assumes "affinity_reachable s"
  shows "length (gcLoops s) = (if gcStarted s then 1 else 0) \<and> gcLoops (Stop s) = [] \<and>
    \<not> gcStarted (Stop s)"
  using reachable_gc_ok [OF assms] gc_ok_stop [of s]
  by (auto simp: gc_ok_def split: option.splits)

theorem gc_single_loop_witness:
  "(\<lambda>s. gcLoops (Stop s) = [] \<and> gcLoops s = [0]) (StartGC 5 (StartGC 5 (NewWithClock 10 0)))"
  using gc_single_loop [OF reach_step [OF reach_step [OF reach_new step_start] step_start], of 5 5 10 0]
  by (simp add: StartGC_def NewWithClock_def)

end
