(* ===== verification/StorageModel.thy ===== *)
theory StorageModel
  imports GoBase
begin

text \<open>
  The tables behind the package \<open>storage\<close> and the SQL statements the package issues.

  A table is the list of its rows (the order stands for the visiting order SQLite is free to choose),
  a nullable time column is an option, \<open>CURRENT_TIMESTAMP\<close> is the field \<open>now\<close> in seconds, a REAL is
  a rational. \<open>faults\<close> scripts the driver: every statement, \<open>BEGIN\<close> and \<open>COMMIT\<close> consumes one entry,
  and \<open>Some msg\<close> makes it fail with that message, so every \<open>err != nil\<close> branch of the source is a
  branch of the model. A statement that fails changes no row; a transaction that fails restores the
  tables it started from.
\<close>

section \<open>Rows and structs\<close>

record ProxyRow =
  cID :: int
  cAddress :: string
  cProtocol :: string
  cRegion :: string
  cRegionSource :: string
  cNote :: string
  cExitIP :: string
  cExitLocation :: string
  cLatency :: int
  cQualityGrade :: string
  cUseCount :: int
  cSuccessCount :: int
  cFailCount :: int
  cLastUsed :: "int option"
  cLastCheck :: "int option"
  cExitCheckedAt :: "int option"
  cDisabledAt :: "int option"
  cCreatedAt :: int
  cStatus :: string
  cUserPaused :: int
  cSource :: string
  cSubscriptionID :: int
  cIpapiisScore :: rat
  cIpapiFlags :: string
  cIpapiFlagsSeen :: int
  cStarred :: int
  cCfBlocked :: int
  cDualProtocol :: int
  cAiReachability :: string
  cProxyUsername :: string
  cProxyPassword :: string
  cNodeKey :: string

text \<open>The row the column defaults of \<open>CREATE TABLE\<close> give; \<open>created_at\<close> is set at insertion.\<close>

definition defaultRow :: ProxyRow where
  "defaultRow = \<lparr>cID = 0, cAddress = [], cProtocol = [], cRegion = [], cRegionSource = [], cNote = [],
     cExitIP = [], cExitLocation = [], cLatency = 0, cQualityGrade = ''C'', cUseCount = 0,
     cSuccessCount = 0, cFailCount = 0, cLastUsed = None, cLastCheck = None, cExitCheckedAt = None,
     cDisabledAt = None, cCreatedAt = 0, cStatus = ''active'', cUserPaused = 0, cSource = ''manual'',
     cSubscriptionID = 0, cIpapiisScore = - 1, cIpapiFlags = [], cIpapiFlagsSeen = 0, cStarred = 0,
     cCfBlocked = - 1, cDualProtocol = 0, cAiReachability = [], cProxyUsername = [],
     cProxyPassword = [], cNodeKey = []\<rparr>"

text \<open>The Go struct; \<open>None\<close> is the zero \<open>time.Time\<close>.\<close>

record Proxy =
  pID :: int
  pAddress :: string
  pProtocol :: string
  pRegion :: string
  pRegionSource :: string
  pNote :: string
  pExitIP :: string
  pExitLocation :: string
  pLatency :: int
  pQualityGrade :: string
  pUseCount :: int
  pSuccessCount :: int
  pFailCount :: int
  pLastUsed :: "int option"
  pLastCheck :: "int option"
  pExitCheckedAt :: "int option"
  pDisabledAt :: "int option"
  pCreatedAt :: int
  pStatus :: string
  pUserPaused :: bool
  pSource :: string
  pSubscriptionID :: int
  pIPAPIIsScore :: rat
  pIPAPIFlags :: string
  pIPAPIFlagsSeen :: bool
  pStarred :: bool
  pCFBlocked :: int
  pDualProtocol :: bool
  pAIReachability :: string
  pUsername :: string
  pPassword :: string
  pNodeKey :: string

definition scanProxy :: "ProxyRow \<Rightarrow> Proxy" where
  "scanProxy r = \<lparr>pID = cID r, pAddress = cAddress r, pProtocol = cProtocol r, pRegion = cRegion r,
     pRegionSource = cRegionSource r, pNote = cNote r, pExitIP = cExitIP r,
     pExitLocation = cExitLocation r, pLatency = cLatency r, pQualityGrade = cQualityGrade r,
     pUseCount = cUseCount r, pSuccessCount = cSuccessCount r, pFailCount = cFailCount r,
     pLastUsed = cLastUsed r, pLastCheck = cLastCheck r, pExitCheckedAt = cExitCheckedAt r,
     pDisabledAt = cDisabledAt r, pCreatedAt = cCreatedAt r, pStatus = cStatus r,
     pUserPaused = (cUserPaused r = 1), pSource = cSource r, pSubscriptionID = cSubscriptionID r,
     pIPAPIIsScore = cIpapiisScore r, pIPAPIFlags = cIpapiFlags r,
     pIPAPIFlagsSeen = (cIpapiFlagsSeen r = 1), pStarred = (cStarred r = 1),
     pCFBlocked = cCfBlocked r, pDualProtocol = (cDualProtocol r = 1),
     pAIReachability = cAiReachability r, pUsername = cProxyUsername r,
     pPassword = cProxyPassword r, pNodeKey = cNodeKey r\<rparr>"

record Subscription =
  sID :: int
  sName :: string
  sURL :: string
  sFilePath :: string
  sFormat :: string
  sRefreshMin :: int
  sLastFetch :: "int option"
  sLastSuccess :: "int option"
  sStatus :: string
  sProxyCount :: int
  sCreatedAt :: int
  sContributed :: bool
  sHeaders :: string

record DB =
  proxies :: "ProxyRow list"
  subscriptions :: "Subscription list"
  nextProxyID :: int
  nextSubID :: int
  now :: int
  faults :: "string option list"

definition SourceManual :: string where
  "SourceManual = ''manual''"

definition SourceSubscription :: string where
  "SourceSubscription = ''subscription''"

section \<open>Errors and statements\<close>

datatype store_error =
    ErrNoRows
  | ErrNotFound string
  | ErrAmbiguousProxyAddress string
  | ErrAmbiguousNodeKey string
  | ErrUniqueConstraint
  | ErrDriver string
  | ErrRejected string

type_synonym 'a db_op = "DB \<Rightarrow> (store_error + 'a) \<times> DB"

text \<open>\<open>errors.Is(err, sql.ErrNoRows)\<close>: the not-found error of an address lookup wraps it.\<close>

fun isNoRows :: "store_error \<Rightarrow> bool" where
  "isNoRows ErrNoRows = True"
| "isNoRows (ErrNotFound _) = True"
| "isNoRows _ = False"

fun isUniqueConstraintError :: "store_error \<Rightarrow> bool" where
  "isUniqueConstraintError ErrUniqueConstraint = True"
| "isUniqueConstraintError (ErrDriver m) = Contains (ToLower m) ''unique constraint''"
| "isUniqueConstraintError _ = False"

definition returnOp :: "'a \<Rightarrow> 'a db_op" where
  "returnOp x d = (Inr x, d)"

definition failOp :: "store_error \<Rightarrow> 'a db_op" where
  "failOp e d = (Inl e, d)"

definition bindOp :: "'a db_op \<Rightarrow> ('a \<Rightarrow> 'b db_op) \<Rightarrow> 'b db_op" where
  "bindOp m k d = (case m d of (Inl e, d1) \<Rightarrow> (Inl e, d1) | (Inr x, d1) \<Rightarrow> k x d1)"

text \<open>One statement: it meets the next scripted fault, or runs and may hit a constraint.\<close>

definition execSQL :: "(DB \<Rightarrow> store_error + 'a \<times> DB) \<Rightarrow> 'a db_op" where
  "execSQL f d =
     (let d0 = d\<lparr>faults := tl (faults d)\<rparr> in
      if faults d \<noteq> [] \<and> hd (faults d) \<noteq> None then (Inl (ErrDriver (the (hd (faults d)))), d0)
      else case f d0 of Inl e \<Rightarrow> (Inl e, d0) | Inr (x, d1) \<Rightarrow> (Inr x, d1))"

definition querySQL :: "(DB \<Rightarrow> 'a) \<Rightarrow> 'a db_op" where
  "querySQL q = execSQL (\<lambda>d. Inr (q d, d))"

text \<open>
  \<open>tx, err := db.Begin(); defer tx.Rollback(); body; tx.Commit()\<close>: any error leaves the tables as
  they were at \<open>BEGIN\<close>.
\<close>

definition rollbackTo :: "DB \<Rightarrow> DB \<Rightarrow> DB" where
  "rollbackTo d0 d = d0\<lparr>faults := faults d\<rparr>"

definition withTx :: "'a db_op \<Rightarrow> 'a db_op" where
  "withTx body d =
     (case querySQL (\<lambda>d. ()) d of
        (Inl e, d0) \<Rightarrow> (Inl e, d0)
      | (Inr _, d0) \<Rightarrow>
          (case bindOp body (\<lambda>x. bindOp (querySQL (\<lambda>d. ())) (\<lambda>u. returnOp x)) d0 of
             (Inl e, d1) \<Rightarrow> (Inl e, rollbackTo d0 d1)
           | (Inr x, d1) \<Rightarrow> (Inr x, d1)))"

text \<open>The unique index \<open>idx_proxy_identity\<close>.\<close>

definition rowIdentity :: "ProxyRow \<Rightarrow> string \<times> string \<times> int" where
  "rowIdentity r = (cAddress r, cSource r, cSubscriptionID r)"

definition identitiesUnique :: "ProxyRow list \<Rightarrow> bool" where
  "identitiesUnique ps \<longleftrightarrow> distinct (map rowIdentity ps)"

text \<open>\<open>UPDATE proxies SET f WHERE P\<close>, with the number of rows affected.\<close>

definition updateRows :: "('r \<Rightarrow> bool) \<Rightarrow> ('r \<Rightarrow> 'r) \<Rightarrow> 'r list \<Rightarrow> 'r list" where
  "updateRows P f rs = map (\<lambda>r. if P r then f r else r) rs"

definition countRows :: "('r \<Rightarrow> bool) \<Rightarrow> 'r list \<Rightarrow> int" where
  "countRows P rs = int (length (filter P rs))"

definition updateProxies ::
    "(DB \<Rightarrow> ProxyRow \<Rightarrow> bool) \<Rightarrow> (DB \<Rightarrow> ProxyRow \<Rightarrow> ProxyRow) \<Rightarrow> int db_op" where
  "updateProxies P f =
     execSQL (\<lambda>d. let ps = updateRows (P d) (f d) (proxies d) in
       if identitiesUnique ps then Inr (countRows (P d) (proxies d), d\<lparr>proxies := ps\<rparr>)
       else Inl ErrUniqueConstraint)"

text \<open>\<open>UPDATE ... RETURNING status\<close> read with \<open>QueryRow\<close>: the new status of the first row.\<close>

definition updateReturning ::
    "(DB \<Rightarrow> ProxyRow \<Rightarrow> bool) \<Rightarrow> (DB \<Rightarrow> ProxyRow \<Rightarrow> ProxyRow) \<Rightarrow> string db_op" where
  "updateReturning P f =
     bindOp
       (execSQL (\<lambda>d. let ps = updateRows (P d) (f d) (proxies d) in
          if identitiesUnique ps
          then Inr (map (cStatus \<circ> f d) (filter (P d) (proxies d)), d\<lparr>proxies := ps\<rparr>)
          else Inl ErrUniqueConstraint))
       (\<lambda>sts. if sts = [] then failOp ErrNoRows else returnOp (hd sts))"

definition deleteProxies :: "(DB \<Rightarrow> ProxyRow \<Rightarrow> bool) \<Rightarrow> int db_op" where
  "deleteProxies P =
     execSQL (\<lambda>d. Inr (countRows (P d) (proxies d),
                       d\<lparr>proxies := filter (\<lambda>r. \<not> P d r) (proxies d)\<rparr>))"

text \<open>
  \<open>INSERT INTO proxies ... ON CONFLICT(address, source, subscription_id)\<close>: the conflicting row is
  rewritten by \<open>onConflict\<close> (the identity for \<open>DO NOTHING\<close>).
\<close>

definition upsertProxy :: "ProxyRow \<Rightarrow> (ProxyRow \<Rightarrow> ProxyRow \<Rightarrow> ProxyRow) \<Rightarrow> unit db_op" where
  "upsertProxy r onConflict =
     execSQL (\<lambda>d.
       if rowIdentity r \<in> set (map rowIdentity (proxies d))
       then Inr ((), d\<lparr>proxies :=
              updateRows (\<lambda>old. rowIdentity old = rowIdentity r) (onConflict r) (proxies d)\<rparr>)
       else Inr ((), d\<lparr>proxies := proxies d @ [r\<lparr>cID := nextProxyID d, cCreatedAt := now d\<rparr>],
                       nextProxyID := nextProxyID d + 1\<rparr>))"

definition requireRowsAffected :: "int \<Rightarrow> unit db_op" where
  "requireRowsAffected n = (if n = 0 then failOp ErrNoRows else returnOp ())"

section \<open>Predicates shared by the statements\<close>

definition parentStatusIs :: "(string \<Rightarrow> bool) \<Rightarrow> DB \<Rightarrow> ProxyRow \<Rightarrow> bool" where
  "parentStatusIs Q d r \<longleftrightarrow> list_ex (\<lambda>s. sID s = cSubscriptionID r \<and> Q (sStatus s)) (subscriptions d)"

definition parentActive :: "DB \<Rightarrow> ProxyRow \<Rightarrow> bool" where
  "parentActive d r \<longleftrightarrow> cSource r \<noteq> SourceSubscription \<or> parentStatusIs (\<lambda>st. st = ''active'') d r"

definition parentNotPaused :: "DB \<Rightarrow> ProxyRow \<Rightarrow> bool" where
  "parentNotPaused d r \<longleftrightarrow> cSource r \<noteq> SourceSubscription \<or> parentStatusIs (\<lambda>st. st \<noteq> ''paused'') d r"

text \<open>\<open>selectableSubscriptionScopeSQL\<close>.\<close>

definition selectableSubscriptionScopeSQL :: "DB \<Rightarrow> ProxyRow \<Rightarrow> bool" where
  "selectableSubscriptionScopeSQL d r \<longleftrightarrow>
     cSource r \<noteq> ''subscription'' \<or> parentStatusIs (\<lambda>st. st \<noteq> ''paused'') d r"

text \<open>\<open>status IN ('active', 'degraded') AND user_paused = 0 AND fail_count < 3\<close> and the scope.\<close>

definition selectableRow :: "DB \<Rightarrow> ProxyRow \<Rightarrow> bool" where
  "selectableRow d r \<longleftrightarrow>
     cStatus r \<in> {''active'', ''degraded''} \<and> cUserPaused r = 0 \<and> cFailCount r < 3 \<and>
     selectableSubscriptionScopeSQL d r"

definition normalizeRegion :: "string \<Rightarrow> string" where
  "normalizeRegion region = ToLower (TrimSpace region)"

definition normalizeProtocol :: "string \<Rightarrow> string" where
  "normalizeProtocol protocol = ToLower (TrimSpace protocol)"

text \<open>\<open>alpha2RegionPattern\<close>: two ASCII letters (a final newline does not match \<open>$\<close> in Go).\<close>

definition alpha2RegionPattern :: "string \<Rightarrow> bool" where
  "alpha2RegionPattern s \<longleftrightarrow> length s = 2 \<and> list_all (\<lambda>c. asciiLetterRune (byte c)) s"

definition normalizeManualRegion :: "string \<Rightarrow> string" where
  "normalizeManualRegion region =
     (let normalized = normalizeRegion region in
      if \<not> alpha2RegionPattern normalized then [] else normalized)"

definition regionFromExitLocation :: "string \<Rightarrow> string" where
  "regionFromExitLocation exitLocation =
     (let fields = Fields exitLocation in
      if fields = [] \<or> \<not> alpha2RegionPattern (hd fields) then [] else ToLower (hd fields))"

section \<open>The subscriptions table\<close>

text \<open>The two partial unique indexes, on \<open>url\<close> and on \<open>file_path\<close>, which ignore empty strings.\<close>

definition subscriptionsUnique :: "Subscription list \<Rightarrow> bool" where
  "subscriptionsUnique ss \<longleftrightarrow>
     distinct (filter (\<lambda>u. u \<noteq> []) (map sURL ss)) \<and> distinct (filter (\<lambda>u. u \<noteq> []) (map sFilePath ss))"

definition insertSubscription :: "Subscription \<Rightarrow> int db_op" where
  "insertSubscription s =
     execSQL (\<lambda>d.
       let ss = subscriptions d @ [s\<lparr>sID := nextSubID d, sCreatedAt := now d\<rparr>] in
       if subscriptionsUnique ss
       then Inr (nextSubID d, d\<lparr>subscriptions := ss, nextSubID := nextSubID d + 1\<rparr>)
       else Inl ErrUniqueConstraint)"

definition updateSubscriptions ::
    "(Subscription \<Rightarrow> bool) \<Rightarrow> (DB \<Rightarrow> Subscription \<Rightarrow> Subscription) \<Rightarrow> int db_op" where
  "updateSubscriptions P f =
     execSQL (\<lambda>d. let ss = updateRows P (f d) (subscriptions d) in
       if subscriptionsUnique ss then Inr (countRows P (subscriptions d), d\<lparr>subscriptions := ss\<rparr>)
       else Inl ErrUniqueConstraint)"

definition deleteSubscriptions :: "(Subscription \<Rightarrow> bool) \<Rightarrow> int db_op" where
  "deleteSubscriptions P =
     execSQL (\<lambda>d. Inr (countRows P (subscriptions d),
                       d\<lparr>subscriptions := filter (\<lambda>s. \<not> P s) (subscriptions d)\<rparr>))"

section \<open>The invariant of the tables\<close>

definition db_inv :: "DB \<Rightarrow> bool" where
  "db_inv d \<longleftrightarrow>
     identitiesUnique (proxies d) \<and> distinct (map cID (proxies d)) \<and>
     (\<forall>r\<in>set (proxies d). 0 < cID r \<and> cID r < nextProxyID d) \<and> 0 < nextProxyID d \<and>
     subscriptionsUnique (subscriptions d) \<and> distinct (map sID (subscriptions d)) \<and>
     (\<forall>s\<in>set (subscriptions d). 0 < sID s \<and> sID s < nextSubID d) \<and> 0 < nextSubID d"

section \<open>Facts on statements\<close>

text \<open>The tables without the fault script: what an operation that fails must leave alone.\<close>

definition tables :: "DB \<Rightarrow> ProxyRow list \<times> Subscription list \<times> int \<times> int" where
  "tables d = (proxies d, subscriptions d, nextProxyID d, nextSubID d)"

text \<open>An operation is atomic when its error results leave the tables unchanged.\<close>

definition atomicOp :: "'a db_op \<Rightarrow> bool" where
  "atomicOp m \<longleftrightarrow> (\<forall>d e d1. db_inv d \<longrightarrow> m d = (Inl e, d1) \<longrightarrow> tables d1 = tables d)"

definition readOnly :: "'a db_op \<Rightarrow> bool" where
  "readOnly m \<longleftrightarrow> (\<forall>d. tables (snd (m d)) = tables d \<and> now (snd (m d)) = now d)"

named_theorems atomic \<open>operations whose errors leave the tables unchanged\<close>
named_theorems readonly \<open>operations that never change the tables\<close>

lemma tables_faults [simp]: "tables (d\<lparr>faults := fs\<rparr>) = tables d"
  by (simp add: tables_def)

lemma tables_rollback [simp]: "tables (rollbackTo d0 d) = tables d0"
  by (simp add: rollbackTo_def)

lemma atomicI: "(\<And>d e d1. db_inv d \<Longrightarrow> m d = (Inl e, d1) \<Longrightarrow> tables d1 = tables d) \<Longrightarrow> atomicOp m"
  by (simp add: atomicOp_def)

lemma db_inv_tables: "tables d = tables d' \<Longrightarrow> db_inv d = db_inv d'"
  by (simp add: db_inv_def tables_def)

lemma atomic_return [atomic]: "atomicOp (returnOp x)" and atomic_fail [atomic]: "atomicOp (failOp e)"
  by (simp_all add: atomicOp_def returnOp_def failOp_def)

lemma atomic_exec [atomic]: "atomicOp (execSQL f)"
  by (auto simp: atomicOp_def execSQL_def Let_def split: if_splits sum.splits)

lemma readonly_query [readonly]: "readOnly (querySQL q)"
  by (auto simp: readOnly_def querySQL_def execSQL_def Let_def)

lemma readonly_return [readonly]: "readOnly (returnOp x)" and readonly_fail [readonly]: "readOnly (failOp e)"
  by (simp_all add: readOnly_def returnOp_def failOp_def)

lemma readonly_bind [readonly]:
  "readOnly m \<Longrightarrow> (\<And>x. readOnly (k x)) \<Longrightarrow> readOnly (bindOp m k)"
  by (auto simp: readOnly_def bindOp_def split: prod.splits sum.splits) (metis snd_conv)+

lemma readonly_atomic: "readOnly m \<Longrightarrow> atomicOp m"
  by (metis atomicOp_def readOnly_def snd_conv)

lemma atomic_readonly_bind:
  assumes "readOnly m" "\<And>x. atomicOp (k x)"
  shows "atomicOp (bindOp m k)"
proof (rule atomicI)
  fix d e d1
  assume inv: "db_inv d" and *: "bindOp m k d = (Inl e, d1)"
  obtain y d2 where m: "m d = (y, d2)" by (cases "m d")
  have t: "tables d2 = tables d" using assms(1) m by (metis readOnly_def snd_conv)
  show "tables d1 = tables d"
  proof (cases y)
    case (Inl a)
    with * m t show ?thesis by (simp add: bindOp_def)
  next
    case (Inr x)
    with * m have "k x d2 = (Inl e, d1)" by (simp add: bindOp_def)
    with assms(2) [of x] t inv db_inv_tables [OF t] show ?thesis by (simp add: atomicOp_def)
  qed
qed

lemma atomic_withTx [atomic]: "atomicOp (withTx body)"
  by (auto simp: atomicOp_def withTx_def querySQL_def execSQL_def Let_def split: prod.splits sum.splits if_splits)

definition faulty :: "DB \<Rightarrow> bool" where
  "faulty d \<longleftrightarrow> faults d \<noteq> [] \<and> hd (faults d) \<noteq> None"

definition dropFault :: "DB \<Rightarrow> DB" where
  "dropFault d = d\<lparr>faults := tl (faults d)\<rparr>"

lemma dropFault_fields [simp]:
  "proxies (dropFault d) = proxies d" "subscriptions (dropFault d) = subscriptions d"
  "nextProxyID (dropFault d) = nextProxyID d" "nextSubID (dropFault d) = nextSubID d"
  "now (dropFault d) = now d" "faults (dropFault d) = tl (faults d)" "tables (dropFault d) = tables d"
  by (simp_all add: dropFault_def)

lemma execSQL_unfold:
  "execSQL f d =
     (if faulty d then (Inl (ErrDriver (the (hd (faults d)))), dropFault d)
      else case f (dropFault d) of Inl e \<Rightarrow> (Inl e, dropFault d) | Inr (x, d1) \<Rightarrow> (Inr x, d1))"
  unfolding execSQL_def faulty_def dropFault_def Let_def by (rule refl)

lemma querySQL_unfold:
  "querySQL q d =
     (if faulty d then (Inl (ErrDriver (the (hd (faults d)))), dropFault d)
      else (Inr (q (dropFault d)), dropFault d))"
  by (simp add: querySQL_def execSQL_unfold)

lemma bindOp_InrD:
  assumes "bindOp m k d = (Inr y, d2)"
  obtains x d1 where "m d = (Inr x, d1)" "k x d1 = (Inr y, d2)"
  using assms by (auto simp: bindOp_def split: prod.splits sum.splits)

lemma querySQL_InrD:
  assumes "querySQL q d = (Inr x, d1)"
  shows "x = q (dropFault d)" "d1 = dropFault d" "\<not> faulty d"
  using assms by (auto simp: querySQL_unfold split: if_splits)

lemma parentStatus_tables: "subscriptions d = subscriptions d' \<Longrightarrow> parentStatusIs Q d = parentStatusIs Q d'"
  by (simp add: parentStatusIs_def fun_eq_iff)

lemma scope_tables:
  assumes "subscriptions d = subscriptions d'"
  shows "selectableSubscriptionScopeSQL d = selectableSubscriptionScopeSQL d'"
    "selectableRow d = selectableRow d'" "parentActive d = parentActive d'"
    "parentNotPaused d = parentNotPaused d'"
  by (simp_all add: fun_eq_iff selectableSubscriptionScopeSQL_def selectableRow_def parentActive_def
      parentNotPaused_def parentStatus_tables [OF assms])

lemma scope_dropFault [simp]:
  "selectableSubscriptionScopeSQL (dropFault d) = selectableSubscriptionScopeSQL d"
  "selectableRow (dropFault d) = selectableRow d" "parentActive (dropFault d) = parentActive d"
  "parentNotPaused (dropFault d) = parentNotPaused d"
  by (rule scope_tables; simp)+

section \<open>Errors leave the tables alone\<close>

lemma countRows_zero: "countRows P rs = 0 \<longleftrightarrow> (\<forall>r\<in>set rs. \<not> P r)"
  by (simp add: countRows_def filter_empty_conv)

lemma updateRows_none: "\<forall>r\<in>set rs. \<not> P r \<Longrightarrow> updateRows P f rs = rs"
  by (simp add: updateRows_def map_idI)

lemma deleteRows_none: "\<forall>r\<in>set rs. \<not> P r \<Longrightarrow> filter (\<lambda>r. \<not> P r) rs = rs"
  by (simp add: filter_id_conv)

text \<open>A statement reports how many rows it touched, and touched none when it reports zero.\<close>

definition honest :: "int db_op \<Rightarrow> bool" where
  "honest m \<longleftrightarrow> atomicOp m \<and> (\<forall>d d1. m d = (Inr 0, d1) \<longrightarrow> tables d1 = tables d)"

lemma honest_exec:
  assumes "\<And>d d1. f d = Inr (0, d1) \<Longrightarrow> tables d1 = tables d"
  shows "honest (execSQL f)"
  unfolding honest_def
proof (intro conjI allI impI)
  show "atomicOp (execSQL f)" by (rule atomic_exec)
  fix d d1
  assume "execSQL f d = (Inr 0, d1)"
  then have "f (dropFault d) = Inr (0, d1)"
    by (auto simp: execSQL_unfold split: if_splits sum.splits)
  from assms [OF this] show "tables d1 = tables d" by simp
qed

lemma honest_updateProxies: "honest (updateProxies P f)"
  unfolding updateProxies_def Let_def
proof (rule honest_exec)
  fix d d1
  assume "(if identitiesUnique (updateRows (P d) (f d) (proxies d))
     then Inr (countRows (P d) (proxies d), d\<lparr>proxies := updateRows (P d) (f d) (proxies d)\<rparr>)
     else Inl ErrUniqueConstraint) = Inr (0, d1)"
  then have "countRows (P d) (proxies d) = 0" "d1 = d\<lparr>proxies := updateRows (P d) (f d) (proxies d)\<rparr>"
    by (auto split: if_splits)
  then show "tables d1 = tables d" using updateRows_none by (simp add: countRows_zero tables_def)
qed

lemma honest_deleteProxies: "honest (deleteProxies P)"
  by (auto simp: honest_def deleteProxies_def atomic_exec execSQL_unfold Let_def tables_def countRows_zero
      deleteRows_none split: if_splits sum.splits)

lemma honest_updateSubscriptions: "honest (updateSubscriptions P f)"
  unfolding updateSubscriptions_def Let_def
proof (rule honest_exec)
  fix d d1
  assume "(if subscriptionsUnique (updateRows P (f d) (subscriptions d))
     then Inr (countRows P (subscriptions d), d\<lparr>subscriptions := updateRows P (f d) (subscriptions d)\<rparr>)
     else Inl ErrUniqueConstraint) = Inr (0, d1)"
  then have "countRows P (subscriptions d) = 0" "d1 = d\<lparr>subscriptions := updateRows P (f d) (subscriptions d)\<rparr>"
    by (auto split: if_splits)
  then show "tables d1 = tables d" using updateRows_none by (simp add: countRows_zero tables_def)
qed

lemma bindOp_InlE:
  assumes "bindOp m k d = (Inl e, d2)"
  obtains "m d = (Inl e, d2)" | x d1 where "m d = (Inr x, d1)" "k x d1 = (Inl e, d2)"
  using assms by (auto simp: bindOp_def split: prod.splits sum.splits)

lemma atomicD: "atomicOp m \<Longrightarrow> db_inv d \<Longrightarrow> m d = (Inl e, d1) \<Longrightarrow> tables d1 = tables d"
  by (simp add: atomicOp_def)

lemma honest_bind_require: "honest m \<Longrightarrow> atomicOp (bindOp m requireRowsAffected)"
proof (rule atomicI)
  fix d e d2
  assume h: "honest m" and inv: "db_inv d" and "bindOp m requireRowsAffected d = (Inl e, d2)"
  from this(3) show "tables d2 = tables d"
  proof (cases rule: bindOp_InlE)
    case 1
    then show ?thesis using h inv atomicD unfolding honest_def by blast
  next
    case (2 x d1)
    then have "x = 0" "d2 = d1"
      by (auto simp: requireRowsAffected_def failOp_def returnOp_def split: if_splits)
    with 2 h show ?thesis unfolding honest_def by blast
  qed
qed

lemma atomic_updateReturning: "atomicOp (updateReturning P f)"
proof (rule atomicI)
  fix d e d2
  assume "db_inv d" and "updateReturning P f d = (Inl e, d2)"
  from this(2)[unfolded updateReturning_def] show "tables d2 = tables d"
  proof (cases rule: bindOp_InlE)
    case 1
    then show ?thesis by (auto simp: execSQL_unfold Let_def split: if_splits)
  next
    case (2 sts d1)
    then have s: "sts = []" "d2 = d1" by (auto simp: failOp_def returnOp_def split: if_splits)
    with 2(1) have "\<forall>r\<in>set (proxies d). \<not> P (dropFault d) r"
      and "d1 = (dropFault d)\<lparr>proxies := updateRows (P (dropFault d)) (f (dropFault d)) (proxies d)\<rparr>"
      by (auto simp: execSQL_unfold Let_def filter_empty_conv split: if_splits)
    moreover from this(1) have "updateRows (P (dropFault d)) (f (dropFault d)) (proxies d) = proxies d"
      by (rule updateRows_none)
    ultimately show ?thesis using s(2) by (simp add: tables_def)
  qed
qed

lemma atomic_bind_return: "atomicOp m \<Longrightarrow> atomicOp (bindOp m (\<lambda>x. returnOp (g x)))"
  by (rule atomicI, erule bindOp_InlE, erule (2) atomicD, simp add: returnOp_def)

lemma withTx_unfold:
  "withTx body d =
     (if faulty d then (Inl (ErrDriver (the (hd (faults d)))), dropFault d)
      else case bindOp body (\<lambda>x. bindOp (querySQL (\<lambda>d. ())) (\<lambda>u. returnOp x)) (dropFault d) of
             (Inl e, d1) \<Rightarrow> (Inl e, rollbackTo (dropFault d) d1)
           | (Inr x, d1) \<Rightarrow> (Inr x, d1))"
  by (simp add: withTx_def querySQL_unfold [of "\<lambda>d. ()" d])

end
