(* ===== verification/Json.thy ===== *)
theory Json
  imports GoBase
begin

text \<open>
  What the program uses of \<open>encoding/json\<close>: the syntax of a document as the scanner of the standard
  library accepts it, strings unquoted as \<open>unquote\<close> does, decoding into \<open>map[string]int\<close> with the
  behaviour on values of the wrong type, and encoding of such a map with its keys sorted.
\<close>

section \<open>Syntax\<close>

datatype json =
    JNull
  | JBool bool
  | JNum string
  | JStr string
  | JArr "json list"
  | JObj "(string \<times> json) list"

definition jsonSpace :: "char \<Rightarrow> bool" where
  "jsonSpace c \<longleftrightarrow> c \<in> {CHR 0x20, CHR 0x09, CHR 0x0A, CHR 0x0D}"

definition skipSpace :: "string \<Rightarrow> string" where
  "skipSpace s = dropWhile jsonSpace s"

text \<open>The UTF-8 encoding of a rune; what is not a scalar value becomes the replacement rune.\<close>

definition encodeRune :: "nat \<Rightarrow> string" where
  "encodeRune r0 =
     (let r = (if r0 > 0x10FFFF \<or> (0xD800 \<le> r0 \<and> r0 < 0xE000) then runeError else r0) in
      if r < 0x80 then [char_of r]
      else if r < 0x800 then [char_of (0xC0 + r div 64), char_of (0x80 + r mod 64)]
      else if r < 0x10000 then
        [char_of (0xE0 + r div 4096), char_of (0x80 + r div 64 mod 64), char_of (0x80 + r mod 64)]
      else [char_of (0xF0 + r div 262144), char_of (0x80 + r div 4096 mod 64),
            char_of (0x80 + r div 64 mod 64), char_of (0x80 + r mod 64)])"

definition hexVal :: "char \<Rightarrow> nat option" where
  "hexVal c =
     (let b = byte c in
      if 48 \<le> b \<and> b \<le> 57 then Some (b - 48)
      else if 97 \<le> b \<and> b \<le> 102 then Some (b - 87)
      else if 65 \<le> b \<and> b \<le> 70 then Some (b - 55)
      else None)"

text \<open>Four hexadecimal digits of a \<open>\u\<close> escape.\<close>

fun hex4 :: "string \<Rightarrow> (nat \<times> string) option" where
  "hex4 (a # b # c # d # s) =
     (case (hexVal a, hexVal b, hexVal c, hexVal d) of
        (Some a, Some b, Some c, Some d) \<Rightarrow> Some (((a * 16 + b) * 16 + c) * 16 + d, s)
      | _ \<Rightarrow> None)"
| "hex4 _ = None"

definition escapeChar :: "char \<Rightarrow> char option" where
  "escapeChar c = map_of
     [(CHR 0x22, CHR 0x22), (CHR 0x5C, CHR 0x5C), (CHR 0x2F, CHR 0x2F), (CHR ''b'', CHR 0x08),
      (CHR ''f'', CHR 0x0C), (CHR ''n'', CHR 0x0A), (CHR ''r'', CHR 0x0D), (CHR ''t'', CHR 0x09)] c"

text \<open>A low surrogate escape after a high one: the pair is one rune.\<close>

definition lowSurrogate :: "string \<Rightarrow> (nat \<times> string) option" where
  "lowSurrogate s =
     (case s of
        b # u # t \<Rightarrow>
          (if b = CHR 0x5C \<and> u = CHR ''u'' then
             (case hex4 t of
                Some (r, rest) \<Rightarrow> if 0xDC00 \<le> r \<and> r < 0xE000 then Some (r, rest) else None
              | None \<Rightarrow> None)
           else None)
      | _ \<Rightarrow> None)"

text \<open>
  The text after an opening quote: the unquoted bytes and what follows the closing quote. Control
  bytes and unknown escapes are syntax errors; an ill-formed UTF-8 byte is read as the
  replacement rune. The fuel is the number of bytes left.
\<close>

fun parseString :: "nat \<Rightarrow> string \<Rightarrow> (string \<times> string) option" where
  "parseString 0 s = None"
| "parseString (Suc n) s =
     (case s of
        [] \<Rightarrow> None
      | c # t \<Rightarrow>
          if c = CHR 0x22 then Some ([], t)
          else if byte c < 32 then None
          else if c = CHR 0x5C then
            (case t of
               [] \<Rightarrow> None
             | e # u \<Rightarrow>
                 if e = CHR ''u'' then
                   (case hex4 u of
                      None \<Rightarrow> None
                    | Some (r, rest) \<Rightarrow>
                        if 0xD800 \<le> r \<and> r < 0xDC00 then
                          (case lowSurrogate rest of
                             Some (r2, rest2) \<Rightarrow>
                               map_option (apfst ((@) (encodeRune
                                 (0x10000 + (r - 0xD800) * 0x400 + (r2 - 0xDC00))))) (parseString n rest2)
                           | None \<Rightarrow> map_option (apfst ((@) (encodeRune runeError))) (parseString n rest))
                        else map_option (apfst ((@) (encodeRune r))) (parseString n rest))
                 else
                   (case escapeChar e of
                      None \<Rightarrow> None
                    | Some x \<Rightarrow> map_option (apfst ((#) x)) (parseString n u)))
          else
            (case decodeRune c t of
               (r, w) \<Rightarrow>
                 map_option (apfst ((@) (if byte c < 128 then [c] else encodeRune r)))
                   (parseString n (drop (w - 1) t))))"

definition spanDigits :: "string \<Rightarrow> string \<times> string" where
  "spanDigits s = (takeWhile isDigitChar s, dropWhile isDigitChar s)"

definition parseIntPart :: "string \<Rightarrow> (string \<times> string) option" where
  "parseIntPart s =
     (case s of
        [] \<Rightarrow> None
      | c # t \<Rightarrow> if c = CHR ''0'' then Some ([c], t)
               else if isDigitChar c then Some (spanDigits s) else None)"

definition parseFrac :: "string \<Rightarrow> (string \<times> string) option" where
  "parseFrac s =
     (case s of
        c # t \<Rightarrow> if c = CHR ''.'' then
                  (case spanDigits t of (ds, u) \<Rightarrow> if ds = [] then None else Some (c # ds, u))
                else Some ([], s)
      | [] \<Rightarrow> Some ([], []))"

definition parseExp :: "string \<Rightarrow> (string \<times> string) option" where
  "parseExp s =
     (case s of
        c # t \<Rightarrow>
          if c = CHR ''e'' \<or> c = CHR ''E'' then
            (let sgn = takeWhile (\<lambda>x. x = CHR ''+'' \<or> x = CHR ''-'') (take 1 t) in
             case spanDigits (drop (length sgn) t) of
               (ds, u) \<Rightarrow> if ds = [] then None else Some (c # sgn @ ds, u))
          else Some ([], s)
      | [] \<Rightarrow> Some ([], []))"

definition parseNumber :: "string \<Rightarrow> (string \<times> string) option" where
  "parseNumber s =
     (let sgn = (if take 1 s = ''-'' then ''-'' else []) in
      case parseIntPart (drop (length sgn) s) of
        None \<Rightarrow> None
      | Some (i, s1) \<Rightarrow>
          (case parseFrac s1 of
             None \<Rightarrow> None
           | Some (f, s2) \<Rightarrow>
               (case parseExp s2 of
                  None \<Rightarrow> None
                | Some (e, s3) \<Rightarrow> Some (sgn @ i @ f @ e, s3))))"

text \<open>
  Values. \<open>fuel\<close> bounds the recursion (one more than the bytes left is enough, since every call
  consumes one); \<open>dep\<close> is the nesting the scanner still allows (its limit is 10000).
\<close>

fun parseVal :: "nat \<Rightarrow> nat \<Rightarrow> string \<Rightarrow> (json \<times> string) option"
  and parseMembers :: "nat \<Rightarrow> nat \<Rightarrow> string \<Rightarrow> ((string \<times> json) list \<times> string) option"
  and parseElems :: "nat \<Rightarrow> nat \<Rightarrow> string \<Rightarrow> (json list \<times> string) option" where
  "parseVal 0 dep s = None"
| "parseVal (Suc n) dep s =
     (case skipSpace s of
        [] \<Rightarrow> None
      | c # t \<Rightarrow>
          if c = CHR ''{'' then
            (if dep = 0 then None
             else if take 1 (skipSpace t) = ''}'' then Some (JObj [], drop 1 (skipSpace t))
             else map_option (apfst JObj) (parseMembers n (dep - 1) t))
          else if c = CHR ''['' then
            (if dep = 0 then None
             else if take 1 (skipSpace t) = '']'' then Some (JArr [], drop 1 (skipSpace t))
             else map_option (apfst JArr) (parseElems n (dep - 1) t))
          else if c = CHR 0x22 then map_option (apfst JStr) (parseString (length t) t)
          else if prefix ''true'' (c # t) then Some (JBool True, drop 4 (c # t))
          else if prefix ''false'' (c # t) then Some (JBool False, drop 5 (c # t))
          else if prefix ''null'' (c # t) then Some (JNull, drop 4 (c # t))
          else map_option (apfst JNum) (parseNumber (c # t)))"
| "parseMembers 0 dep s = None"
| "parseMembers (Suc n) dep s =
     (case skipSpace s of
        [] \<Rightarrow> None
      | q # t \<Rightarrow>
          if q \<noteq> CHR 0x22 then None
          else
            (case parseString (length t) t of
               None \<Rightarrow> None
             | Some (k, u) \<Rightarrow>
                 if take 1 (skipSpace u) \<noteq> '':'' then None
                 else
                   (case parseVal n dep (drop 1 (skipSpace u)) of
                      None \<Rightarrow> None
                    | Some (v, w) \<Rightarrow>
                        (case skipSpace w of
                           [] \<Rightarrow> None
                         | x # y \<Rightarrow>
                             if x = CHR ''}'' then Some ([(k, v)], y)
                             else if x = CHR '','' then
                               map_option (apfst ((#) (k, v))) (parseMembers n dep y)
                             else None))))"
| "parseElems 0 dep s = None"
| "parseElems (Suc n) dep s =
     (case parseVal n dep s of
        None \<Rightarrow> None
      | Some (v, w) \<Rightarrow>
          (case skipSpace w of
             [] \<Rightarrow> None
           | x # y \<Rightarrow>
               if x = CHR '']'' then Some ([v], y)
               else if x = CHR '','' then map_option (apfst ((#) v)) (parseElems n dep y)
               else None))"

definition parseJSON :: "string \<Rightarrow> json option" where
  "parseJSON s =
     (case parseVal (Suc (length s)) 10000 s of
        Some (v, rest) \<Rightarrow> if skipSpace rest = [] then Some v else None
      | None \<Rightarrow> None)"

section \<open>Decoding into a map of integers\<close>

text \<open>\<open>strconv.ParseInt(s, 10, 64)\<close> on a number literal.\<close>

definition parseInt64 :: "string \<Rightarrow> int option" where
  "parseInt64 s =
     (let neg = (take 1 s = ''-''); ds = (if neg then drop 1 s else s);
          v = (if neg then - digitsVal ds 0 else digitsVal ds 0) in
      if ds = [] \<or> \<not> list_all isDigitChar ds then None
      else if - (2 ^ 63) \<le> v \<and> v < 2 ^ 63 then Some v else None)"

text \<open>One element: the integer stored and whether an \<open>UnmarshalTypeError\<close> is recorded.\<close>

fun decodeIntElem :: "json \<Rightarrow> int \<times> bool" where
  "decodeIntElem (JNum l) = (case parseInt64 l of Some v \<Rightarrow> (v, False) | None \<Rightarrow> (0, True))"
| "decodeIntElem JNull = (0, False)"
| "decodeIntElem _ = (0, True)"

text \<open>
  \<open>json.Unmarshal(data, &m)\<close> with \<open>m\<close> a nil \<open>map[string]int\<close>: the map afterwards (\<open>None\<close> is nil)
  and whether an error is returned. A value of the wrong type records an error, but its key is
  still stored with the zero value and decoding goes on.
\<close>

definition unmarshalIntMap :: "string \<Rightarrow> (string \<times> int) list option \<times> bool" where
  "unmarshalIntMap s =
     (case parseJSON s of
        None \<Rightarrow> (None, True)
      | Some JNull \<Rightarrow> (None, False)
      | Some (JObj kvs) \<Rightarrow>
          (Some (foldl (\<lambda>m (k, v). AList.update k (fst (decodeIntElem v)) m) [] kvs),
           list_ex (\<lambda>(k, v). snd (decodeIntElem v)) kvs)
      | Some _ \<Rightarrow> (None, True))"

end
