(* ===== verification/StorageQueries.thy ===== *)
theory StorageQueries
  imports StorageModel Json
begin

text \<open>
  The read side of the package \<open>storage\<close>: \<open>regions.go\<close>, \<open>proxy_queries.go\<close>, \<open>proxy_counts.go\<close>
  and \<open>node_api_query.go\<close>. \<open>ORDER BY\<close> is a stable sort of the visited rows. Random choices are made
  by a parameter: \<open>rnd n\<close> stands for \<open>rand.Intn(n)\<close>, \<open>nano\<close> for \<open>time.Now().UnixNano()\<close>.
\<close>

section \<open>Selection by region\<close>

definition makeExcludeMap :: "int list \<Rightarrow> int \<Rightarrow> bool" where
  "makeExcludeMap excludes i \<longleftrightarrow> i \<in> set excludes"

definition queryProxies :: "(DB \<Rightarrow> ProxyRow list) \<Rightarrow> (int \<Rightarrow> bool) \<Rightarrow> Proxy list db_op" where
  "queryProxies q excludes =
     bindOp (querySQL q) (\<lambda>rows. returnOp (filter (\<lambda>p. \<not> excludes (pID p)) (map scanProxy rows)))"

definition regionOrder :: "ProxyRow \<Rightarrow> int \<times> int \<times> string \<times> int" where
  "regionOrder r = (if cLatency r \<le> 0 then 1 else 0, cLatency r, cAddress r, cID r)"

definition GetByRegion :: "string \<Rightarrow> int list \<Rightarrow> Proxy list db_op" where
  "GetByRegion region excludes =
     (let normalized = normalizeRegion region in
      queryProxies
        (\<lambda>d. sort_key regionOrder
           (filter (\<lambda>r. selectableRow d r \<and> (normalized \<noteq> [] \<longrightarrow> cRegion r = normalized)) (proxies d)))
        (makeExcludeMap excludes))"

definition GetRandomByRegion :: "(nat \<Rightarrow> nat) \<Rightarrow> string \<Rightarrow> int list \<Rightarrow> Proxy db_op" where
  "GetRandomByRegion rnd region excludes =
     bindOp (GetByRegion region excludes) (\<lambda>ps.
       if ps = [] then failOp (ErrRejected (''no available proxy for region: '' @ normalizeRegion region))
       else returnOp (ps ! rnd (length ps)))"

definition groupCounts :: "('r \<Rightarrow> string) \<Rightarrow> 'r list \<Rightarrow> (string \<times> int) list" where
  "groupCounts g rs = map (\<lambda>k. (k, countRows (\<lambda>r. g r = k) rs)) (remdups (map g rs))"

definition CountByRegion :: "(string \<times> int) list db_op" where
  "CountByRegion =
     querySQL (\<lambda>d. groupCounts cRegion (filter (\<lambda>r. selectableRow d r \<and> cRegion r \<noteq> []) (proxies d)))"

definition GetRegionsWithCount :: "(string \<times> int) list db_op" where
  "GetRegionsWithCount =
     querySQL (\<lambda>d. sort_key fst
       (groupCounts cRegion (filter (\<lambda>r. selectableRow d r \<and> cRegion r \<noteq> []) (proxies d))))"

section \<open>Single rows\<close>

text \<open>\<open>WHERE P ORDER BY id ASC LIMIT 2\<close>, and exactly one match wanted.\<close>

definition matchTwo :: "(ProxyRow \<Rightarrow> bool) \<Rightarrow> DB \<Rightarrow> Proxy list" where
  "matchTwo P d = map scanProxy (take 2 (sort_key cID (filter P (proxies d))))"

definition GetProxyByAddress :: "string \<Rightarrow> Proxy db_op" where
  "GetProxyByAddress address =
     bindOp (querySQL (matchTwo (\<lambda>r. cAddress r = address))) (\<lambda>matches.
       if matches = [] then failOp (ErrNotFound address)
       else if length matches > 1 then failOp (ErrAmbiguousProxyAddress address)
       else returnOp (hd matches))"

text \<open>\<open>QueryRow\<close> with \<open>scanProxy\<close>: the first match, if any.\<close>

definition firstRow :: "(ProxyRow \<Rightarrow> bool) \<Rightarrow> DB \<Rightarrow> Proxy option" where
  "firstRow P d = map_option scanProxy (find P (proxies d))"

definition GetProxyByIdentity :: "string \<Rightarrow> string \<Rightarrow> int \<Rightarrow> Proxy db_op" where
  "GetProxyByIdentity address source subscriptionID =
     (let sub = (if source = SourceManual then 0 else subscriptionID) in
      bindOp (querySQL (firstRow (\<lambda>r. rowIdentity r = (address, source, sub)))) (\<lambda>p.
        case p of
          Some p \<Rightarrow> returnOp p
        | None \<Rightarrow> failOp (ErrRejected (''proxy '' @ address @ '' not found''))))"

definition GetProxyByID :: "int \<Rightarrow> Proxy db_op" where
  "GetProxyByID i =
     bindOp (querySQL (firstRow (\<lambda>r. cID r = i))) (\<lambda>p.
       case p of Some p \<Rightarrow> returnOp p | None \<Rightarrow> failOp (ErrRejected ''proxy id not found''))"

definition GetProxyByNodeKey :: "string \<Rightarrow> Proxy db_op" where
  "GetProxyByNodeKey nodeKey0 =
     (let nodeKey = TrimSpace nodeKey0 in
      if nodeKey = [] then failOp (ErrRejected ''proxy node_key empty'')
      else
        bindOp (querySQL (matchTwo (\<lambda>r. cNodeKey r = nodeKey))) (\<lambda>matches.
          if matches = [] then failOp (ErrRejected (''proxy node_key '' @ nodeKey @ '' not found''))
          else if length matches > 1 then failOp (ErrAmbiguousNodeKey nodeKey)
          else returnOp (hd matches)))"

definition ownsRuntime :: "string \<Rightarrow> string \<Rightarrow> ProxyRow \<Rightarrow> bool" where
  "ownsRuntime nodeKey address r \<longleftrightarrow>
     (nodeKey \<noteq> [] \<and> cNodeKey r = nodeKey) \<or> (address \<noteq> [] \<and> cNodeKey r = [] \<and> cAddress r = address)"

definition HasOtherSubscriptionProxyOwner :: "string \<Rightarrow> string \<Rightarrow> int \<Rightarrow> bool db_op" where
  "HasOtherSubscriptionProxyOwner nodeKey0 address0 subscriptionID =
     (let nodeKey = TrimSpace nodeKey0; address = TrimSpace address0 in
      if nodeKey = [] \<and> address = [] then returnOp False
      else
        bindOp (querySQL (\<lambda>d. countRows (\<lambda>r.
            \<not> (cSource r = SourceSubscription \<and> cSubscriptionID r = subscriptionID) \<and>
            ownsRuntime nodeKey address r) (proxies d)))
          (\<lambda>n. returnOp (n > 0)))"

definition HasOtherProxyOwner :: "string \<Rightarrow> string \<Rightarrow> int \<Rightarrow> bool db_op" where
  "HasOtherProxyOwner nodeKey0 address0 proxyID =
     (let nodeKey = TrimSpace nodeKey0; address = TrimSpace address0 in
      if nodeKey = [] \<and> address = [] then returnOp False
      else
        bindOp (querySQL (\<lambda>d. countRows (\<lambda>r.
            cID r \<noteq> proxyID \<and> ownsRuntime nodeKey address r) (proxies d)))
          (\<lambda>n. returnOp (n > 0)))"

definition IsSubscriptionPaused :: "int \<Rightarrow> bool db_op" where
  "IsSubscriptionPaused i =
     (if i \<le> 0 then returnOp False
      else
        bindOp (querySQL (\<lambda>d. map_option sStatus (find (\<lambda>s. sID s = i) (subscriptions d)))) (\<lambda>st.
          case st of
            None \<Rightarrow> failOp (ErrRejected ''subscription not found'')
          | Some status \<Rightarrow> returnOp (status = ''paused'')))"

section \<open>Lists\<close>

definition queryRows :: "(DB \<Rightarrow> ProxyRow list) \<Rightarrow> Proxy list db_op" where
  "queryRows q = bindOp (querySQL q) (\<lambda>rows. returnOp (map scanProxy rows))"

definition gradeRank :: "string \<Rightarrow> int" where
  "gradeRank g = (if g = ''S'' then 1 else if g = ''A'' then 2 else if g = ''B'' then 3
                  else if g = ''C'' then 4 else 5)"

text \<open>\<open>ORDER BY grade, RANDOM() LIMIT 1\<close>: any row of the best grade present.\<close>

definition GetRandom :: "(nat \<Rightarrow> nat) \<Rightarrow> Proxy db_op" where
  "GetRandom rnd =
     bindOp (querySQL (\<lambda>d.
         let rows = filter (\<lambda>r. cStatus r = ''active'' \<and> cUserPaused r = 0 \<and> cFailCount r < 3 \<and>
                                selectableSubscriptionScopeSQL d r) (proxies d);
             best = filter (\<lambda>r. \<forall>x\<in>set rows. gradeRank (cQualityGrade r) \<le> gradeRank (cQualityGrade x)) rows
         in if best = [] then None else Some (best ! rnd (length best))))
       (\<lambda>row. case row of
          Some r \<Rightarrow> returnOp (scanProxy r)
        | None \<Rightarrow> failOp (ErrRejected ''no available proxy''))"

definition GetAllFiltered :: "string \<Rightarrow> Proxy list db_op" where
  "GetAllFiltered sourceFilter =
     queryRows (\<lambda>d. sort_key cLatency
       (filter (\<lambda>r. selectableRow d r \<and> (sourceFilter \<noteq> [] \<longrightarrow> cSource r = sourceFilter)) (proxies d)))"

definition GetAll :: "Proxy list db_op" where
  "GetAll = GetAllFiltered []"

definition GetAllForAdmin :: "Proxy list db_op" where
  "GetAllForAdmin =
     queryRows (\<lambda>d. sort_key (\<lambda>r. (if cStatus r = ''disabled'' then 1 else 0 :: int, cLatency r)) (proxies d))"

definition dualSupportsInboundProtocol :: "string \<Rightarrow> bool" where
  "dualSupportsInboundProtocol protocol \<longleftrightarrow> protocol = ''http'' \<or> protocol = ''socks5''"

definition proxySupportsInboundProtocol :: "Proxy \<Rightarrow> string \<Rightarrow> bool" where
  "proxySupportsInboundProtocol p protocol0 \<longleftrightarrow>
     (let protocol = normalizeProtocol protocol0 in
      normalizeProtocol (pProtocol p) = protocol \<or>
      (pDualProtocol p \<and> dualSupportsInboundProtocol protocol))"

definition inboundProtocolSQL :: "string \<Rightarrow> ProxyRow \<Rightarrow> bool" where
  "inboundProtocolSQL protocol0 r \<longleftrightarrow>
     (let protocol = normalizeProtocol protocol0 in
      if dualSupportsInboundProtocol protocol then cProtocol r = protocol \<or> cDualProtocol r = 1
      else cProtocol r = protocol)"

definition GetRandomExcludeFiltered :: "(nat \<Rightarrow> nat) \<Rightarrow> string list \<Rightarrow> string \<Rightarrow> Proxy db_op" where
  "GetRandomExcludeFiltered rnd excludes sourceFilter =
     bindOp (GetAllFiltered sourceFilter) (\<lambda>ps.
       let available = filter (\<lambda>p. pAddress p \<notin> set excludes) ps in
       if available = [] then
         failOp (ErrRejected (if sourceFilter \<noteq> [] then ''no available '' @ sourceFilter @ '' proxy''
                              else ''no available proxy''))
       else returnOp (available ! rnd (length available)))"

definition GetLowestLatencyExcludeFiltered :: "string list \<Rightarrow> string \<Rightarrow> Proxy db_op" where
  "GetLowestLatencyExcludeFiltered excludes sourceFilter =
     bindOp (GetAllFiltered sourceFilter) (\<lambda>ps.
       case find (\<lambda>p. pAddress p \<notin> set excludes) ps of
         Some p \<Rightarrow> returnOp p
       | None \<Rightarrow> failOp (ErrRejected ''no available proxy''))"

definition GetRandomByProtocolExcludeFiltered ::
    "int \<Rightarrow> string \<Rightarrow> string list \<Rightarrow> string \<Rightarrow> Proxy db_op" where
  "GetRandomByProtocolExcludeFiltered nano protocol excludes sourceFilter =
     bindOp (GetAllFiltered sourceFilter) (\<lambda>ps.
       let available =
         filter (\<lambda>p. proxySupportsInboundProtocol p protocol \<and> pAddress p \<notin> set excludes) ps in
       if available = [] then failOp (ErrRejected (''no '' @ protocol @ '' proxy available''))
       else returnOp (available ! nat (nano mod int (length available))))"

definition GetLowestLatencyByProtocolExcludeFiltered ::
    "string \<Rightarrow> string list \<Rightarrow> string \<Rightarrow> Proxy db_op" where
  "GetLowestLatencyByProtocolExcludeFiltered protocol excludes sourceFilter =
     bindOp (GetAllFiltered sourceFilter) (\<lambda>ps.
       case find (\<lambda>p. proxySupportsInboundProtocol p protocol \<and> pAddress p \<notin> set excludes) ps of
         Some p \<Rightarrow> returnOp p
       | None \<Rightarrow> failOp (ErrRejected (''no '' @ protocol @ '' proxy available'')))"

definition GetRandomExclude :: "(nat \<Rightarrow> nat) \<Rightarrow> string list \<Rightarrow> Proxy db_op" where
  "GetRandomExclude rnd excludes = GetRandomExcludeFiltered rnd excludes []"

definition GetLowestLatencyExclude :: "string list \<Rightarrow> Proxy db_op" where
  "GetLowestLatencyExclude excludes = GetLowestLatencyExcludeFiltered excludes []"

definition GetRandomByProtocolExclude :: "int \<Rightarrow> string \<Rightarrow> string list \<Rightarrow> Proxy db_op" where
  "GetRandomByProtocolExclude nano protocol excludes =
     GetRandomByProtocolExcludeFiltered nano protocol excludes []"

definition GetLowestLatencyByProtocolExclude :: "string \<Rightarrow> string list \<Rightarrow> Proxy db_op" where
  "GetLowestLatencyByProtocolExclude protocol excludes =
     GetLowestLatencyByProtocolExcludeFiltered protocol excludes []"

text \<open>
  \<open>ORDER BY COALESCE(last_check, '1970-01-01') ASC, quality_grade DESC LIMIT ?\<close>: two stable passes,
  the descending one on the reversed list.
\<close>

definition checkOrder :: "ProxyRow list \<Rightarrow> ProxyRow list" where
  "checkOrder rows =
     sort_key (\<lambda>r. case cLastCheck r of None \<Rightarrow> 0 | Some t \<Rightarrow> t) (rev (sort_key cQualityGrade rows))"

definition GetBatchForHealthCheck :: "int \<Rightarrow> Proxy list db_op" where
  "GetBatchForHealthCheck batchSize =
     (if batchSize \<le> 0 then failOp (ErrRejected ''health check batch size must be positive'')
      else queryRows (\<lambda>d. take (nat batchSize) (checkOrder (filter (selectableRow d) (proxies d)))))"

definition GetByProtocol :: "string \<Rightarrow> Proxy list db_op" where
  "GetByProtocol protocol =
     queryRows (\<lambda>d. sort_key cLatency
       (filter (\<lambda>r. selectableRow d r \<and> inboundProtocolSQL protocol r) (proxies d)))"

definition GetDisabledCustomProxies :: "Proxy list db_op" where
  "GetDisabledCustomProxies =
     queryRows (\<lambda>d. filter (\<lambda>r. cSource r = ''subscription'' \<and> cStatus r = ''disabled'' \<and>
                               selectableSubscriptionScopeSQL d r) (proxies d))"

section \<open>Counts\<close>

definition GetAverageLatency :: "string \<Rightarrow> int db_op" where
  "GetAverageLatency protocol =
     querySQL (\<lambda>d.
       let rows = filter (\<lambda>r. cProtocol r = protocol \<and> cStatus r = ''active'' \<and> cUserPaused r = 0 \<and>
                             cLatency r > 0 \<and> selectableSubscriptionScopeSQL d r) (proxies d)
       in if rows = [] then 0 else sum_list (map cLatency rows) div int (length rows))"

definition GetQualityDistribution :: "(string \<times> int) list db_op" where
  "GetQualityDistribution =
     querySQL (\<lambda>d. groupCounts cQualityGrade
       (filter (\<lambda>r. cStatus r = ''active'' \<and> cUserPaused r = 0 \<and> cFailCount r < 3 \<and>
                    selectableSubscriptionScopeSQL d r) (proxies d)))"

definition CountAll :: "int db_op" where
  "CountAll = querySQL (\<lambda>d. countRows (selectableRow d) (proxies d))"

definition CountAvailableByProtocol :: "string \<Rightarrow> int db_op" where
  "CountAvailableByProtocol protocol =
     querySQL (\<lambda>d. countRows (\<lambda>r. selectableRow d r \<and> inboundProtocolSQL protocol r) (proxies d))"

definition CountBySource :: "string \<Rightarrow> int db_op" where
  "CountBySource source =
     querySQL (\<lambda>d. countRows (\<lambda>r. cSource r = source \<and> selectableRow d r) (proxies d))"

section \<open>The read-only node API\<close>

record NodeAPIFilter =
  fRegion :: string
  fProtocol :: string
  fSource :: string
  fStatus :: string
  fMaxAbuse :: "go_float option"
  fCF :: string
  fAI :: "string list"
  fLimit :: int
  fOffset :: int

definition nodeAPIDefaultLimit :: int where
  "nodeAPIDefaultLimit = 500"

definition nodeAPIMaxLimit :: int where
  "nodeAPIMaxLimit = 2000"

definition normalizeNodeAPIPaging :: "int \<Rightarrow> int \<Rightarrow> int \<times> int" where
  "normalizeNodeAPIPaging rawLimit rawOffset =
     (let limit1 = (if rawLimit \<le> 0 then nodeAPIDefaultLimit else rawLimit);
          limit = (if limit1 > nodeAPIMaxLimit then nodeAPIMaxLimit else limit1);
          offset = (if rawOffset < 0 then 0 else rawOffset)
      in (limit, offset))"

definition lowerTrim :: "string \<Rightarrow> string" where
  "lowerTrim s = TrimSpace (ToLower s)"

text \<open>A column compared with a bound \<open>float64\<close>; SQLite binds NaN as \<open>NULL\<close>, which no score is below.\<close>

fun scoreAtMost :: "rat \<Rightarrow> go_float \<Rightarrow> bool" where
  "scoreAtMost s (Finite m) = (s \<le> m)"
| "scoreAtMost s PosInf = True"
| "scoreAtMost s NegInf = False"
| "scoreAtMost s NaN = False"

definition buildNodeAPIWhere :: "NodeAPIFilter \<Rightarrow> DB \<Rightarrow> ProxyRow \<Rightarrow> bool" where
  "buildNodeAPIWhere f d r \<longleftrightarrow>
     (lowerTrim (fStatus f) \<noteq> ''all'' \<longrightarrow> selectableRow d r) \<and>
     (lowerTrim (fRegion f) \<noteq> [] \<longrightarrow> cRegion r = lowerTrim (fRegion f)) \<and>
     (lowerTrim (fProtocol f) \<noteq> [] \<longrightarrow> inboundProtocolSQL (lowerTrim (fProtocol f)) r) \<and>
     (lowerTrim (fSource f) \<noteq> [] \<longrightarrow> cSource r = lowerTrim (fSource f)) \<and>
     (lowerTrim (fCF f) = ''open'' \<longrightarrow> cCfBlocked r = 0) \<and>
     (lowerTrim (fCF f) = ''blocked'' \<longrightarrow> cCfBlocked r = 1) \<and>
     (case fMaxAbuse f of None \<Rightarrow> True | Some m \<Rightarrow> cIpapiisScore r \<ge> 0 \<and> scoreAtMost (cIpapiisScore r) m)"

definition normalizeAIList :: "string list \<Rightarrow> string list" where
  "normalizeAIList ai =
     foldl (\<lambda>out raw. let name = lowerTrim raw in
              if name = [] \<or> name \<in> set out then out else out @ [name]) [] ai"

definition aiReachableAll :: "string \<Rightarrow> string list \<Rightarrow> bool" where
  "aiReachableAll raw0 names \<longleftrightarrow>
     (if names = [] then True
      else let raw = TrimSpace raw0 in
        if raw = [] then False
        else case unmarshalIntMap raw of
               (m, err) \<Rightarrow> \<not> err \<and>
                 list_all (\<lambda>name. (case m of None \<Rightarrow> None | Some kvs \<Rightarrow> map_of kvs name) = Some 0) names)"

definition apiOrder :: "ProxyRow \<Rightarrow> int \<times> int" where
  "apiOrder r = (cLatency r, cID r)"

definition countNodesForAPI :: "(DB \<Rightarrow> ProxyRow \<Rightarrow> bool) \<Rightarrow> int db_op" where
  "countNodesForAPI wher = querySQL (\<lambda>d. countRows (wher d) (proxies d))"

text \<open>One row of a batch: the state is total, skipped and the page so far.\<close>

definition aiRowStep ::
    "string list \<Rightarrow> int \<Rightarrow> int \<Rightarrow> int \<times> int \<times> Proxy list \<Rightarrow> Proxy \<Rightarrow> int \<times> int \<times> Proxy list" where
  "aiRowStep wantAI limit offset st p =
     (case st of (tot, skipped, page) \<Rightarrow>
        if \<not> aiReachableAll (pAIReachability p) wantAI then st
        else if skipped < offset then (tot + 1, skipped + 1, page)
        else if int (length page) < limit then (tot + 1, skipped, page @ [p])
        else (tot + 1, skipped, page))"

definition afterCursor :: "(int \<times> int) option \<Rightarrow> ProxyRow \<Rightarrow> bool" where
  "afterCursor cur r \<longleftrightarrow>
     (case cur of
        None \<Rightarrow> True
      | Some (lastLatency, lastID) \<Rightarrow>
          cLatency r > lastLatency \<or> (cLatency r = lastLatency \<and> cID r > lastID))"

text \<open>
  The cursor loop of \<open>listNodesForAPIWithAI\<close>. The fuel bounds the number of batches; each full
  batch moves the cursor past \<open>nodeAPIMaxLimit\<close> rows, so one more than the number of rows is enough.
\<close>

fun aiBatches ::
    "nat \<Rightarrow> (DB \<Rightarrow> ProxyRow \<Rightarrow> bool) \<Rightarrow> string list \<Rightarrow> int \<Rightarrow> int \<Rightarrow> (int \<times> int) option \<Rightarrow>
     int \<times> int \<times> Proxy list \<Rightarrow> (int \<times> int \<times> Proxy list) option db_op" where
  "aiBatches 0 wher wantAI limit offset cur st = returnOp None"
| "aiBatches (Suc n) wher wantAI limit offset cur st =
     bindOp (querySQL (\<lambda>d. take (nat nodeAPIMaxLimit)
               (sort_key apiOrder (filter (\<lambda>r. wher d r \<and> afterCursor cur r) (proxies d)))))
       (\<lambda>rows.
          let st' = foldl (aiRowStep wantAI limit offset) st (map scanProxy rows);
              cur' = (if rows = [] then cur else Some (apiOrder (last rows)))
          in if int (length rows) < nodeAPIMaxLimit then returnOp (Some st')
             else aiBatches n wher wantAI limit offset cur' st')"

definition listNodesForAPIWithAI ::
    "(DB \<Rightarrow> ProxyRow \<Rightarrow> bool) \<Rightarrow> string list \<Rightarrow> int \<Rightarrow> int \<Rightarrow> (Proxy list \<times> int) option db_op" where
  "listNodesForAPIWithAI wher wantAI limit offset d =
     bindOp (aiBatches (Suc (length (proxies d))) wher wantAI limit offset None (0, 0, []))
       (\<lambda>r. returnOp (map_option (\<lambda>(tot, skipped, page). (page, tot)) r)) d"

definition listNodesForAPI :: "NodeAPIFilter \<Rightarrow> (Proxy list \<times> int) option db_op" where
  "listNodesForAPI f =
     (case normalizeNodeAPIPaging (fLimit f) (fOffset f) of
        (limit, offset) \<Rightarrow>
          let wantAI = normalizeAIList (fAI f); wher = buildNodeAPIWhere f in
          if wantAI \<noteq> [] then listNodesForAPIWithAI wher wantAI limit offset
          else
            bindOp (countNodesForAPI wher) (\<lambda>tot.
              if offset \<ge> tot then returnOp (Some ([], tot))
              else
                bindOp (querySQL (\<lambda>d. take (nat limit) (drop (nat offset)
                          (sort_key apiOrder (filter (wher d) (proxies d))))))
                  (\<lambda>rows. returnOp (Some (map scanProxy rows, tot)))))"

definition ListNodesForAPI :: "NodeAPIFilter \<Rightarrow> (Proxy list \<times> int) option db_op" where
  "ListNodesForAPI f = withTx (listNodesForAPI f)"

section \<open>What the queries return\<close>

definition regionCandidates :: "string \<Rightarrow> int list \<Rightarrow> DB \<Rightarrow> Proxy list" where
  "regionCandidates region excludes d =
     filter (\<lambda>p. pID p \<notin> set excludes) (map scanProxy (sort_key regionOrder
       (filter (\<lambda>r. selectableRow d r \<and> (normalizeRegion region \<noteq> [] \<longrightarrow> cRegion r = normalizeRegion region))
         (proxies d))))"

lemma GetByRegion_eq:
  "GetByRegion region excludes d =
     (if faulty d then (Inl (ErrDriver (the (hd (faults d)))), dropFault d)
      else (Inr (regionCandidates region excludes d), dropFault d))"
  by (simp add: GetByRegion_def queryProxies_def Let_def bindOp_def querySQL_unfold returnOp_def
      regionCandidates_def makeExcludeMap_def)

lemma set_regionCandidates:
  "set (regionCandidates region excludes d) = scanProxy `
     {r \<in> set (proxies d). selectableRow d r \<and> cID r \<notin> set excludes \<and>
        (normalizeRegion region \<noteq> [] \<longrightarrow> cRegion r = normalizeRegion region)}"
  by (auto simp: regionCandidates_def scanProxy_def)

lemma readonly_lookups [readonly]:
  "readOnly (GetByRegion region excludes)" "readOnly (GetProxyByAddress a)" "readOnly (GetProxyByID i)"
  "readOnly (GetProxyByNodeKey k)" "readOnly (IsSubscriptionPaused i)"
  by (auto simp: GetByRegion_def queryProxies_def Let_def GetProxyByAddress_def GetProxyByID_def
      GetProxyByNodeKey_def IsSubscriptionPaused_def intro!: readonly_bind readonly_query
      readonly_return readonly_fail split: option.split)

section \<open>The cursor loop lists what one sorted query would\<close>

lemma aiRowStep_fold:
  assumes "0 \<le> limit" "0 \<le> offset"
  shows "foldl (aiRowStep wantAI limit offset) (0, 0, []) ps =
    (let good = filter (\<lambda>p. aiReachableAll (pAIReachability p) wantAI) ps in
     (int (length good), min offset (int (length good)), take (nat limit) (drop (nat offset) good)))"
proof (induction ps rule: rev_induct)
  case Nil
  then show ?case using assms by simp
next
  case (snoc p ps)
  let ?g = "filter (\<lambda>p. aiReachableAll (pAIReachability p) wantAI) ps"
  show ?case
  proof (cases "aiReachableAll (pAIReachability p) wantAI")
    case False
    with snoc show ?thesis by (simp add: aiRowStep_def Let_def)
  next
    case True
    consider (skip) "int (length ?g) < offset" | (page) "offset \<le> int (length ?g)" by linarith
    then show ?thesis
    proof cases
      case skip
      then have "length ?g < nat offset" by linarith
      with True skip snoc show ?thesis by (simp add: aiRowStep_def Let_def)
    next
      case page
      then have o: "nat offset \<le> length ?g" using assms(2) by linarith
      have len: "int (length (take (nat limit) (drop (nat offset) ?g))) < limit \<longleftrightarrow>
          length ?g - nat offset < nat limit"
        using assms(1) o by (auto simp: min_def)
      show ?thesis
      proof (cases "length ?g - nat offset < nat limit")
        case True
        with \<open>aiReachableAll (pAIReachability p) wantAI\<close> page o len snoc show ?thesis
          by (simp add: aiRowStep_def Let_def)
      next
        case False
        with \<open>aiReachableAll (pAIReachability p) wantAI\<close> page o len snoc show ?thesis
          by (simp add: aiRowStep_def Let_def)
      qed
    qed
  qed
qed

lemma afterCursor_less: "afterCursor (Some k) r \<longleftrightarrow> k < apiOrder r"
  by (cases k) (auto simp: afterCursor_def apiOrder_def less_prod_def)

lemma filter_after_last:
  assumes "sorted (map apiOrder (ys @ zs))" "distinct (map apiOrder (ys @ zs))" "ys \<noteq> []"
  shows "filter (afterCursor (Some (apiOrder (last ys)))) (ys @ zs) = zs"
proof -
  have l: "\<not> apiOrder (last ys) < apiOrder y" if "y \<in> set ys" for y
  proof -
    obtain us where us: "ys = us @ [last ys]" using assms(3) by (metis append_butlast_last_id)
    have "sorted (map apiOrder (us @ [last ys]))"
      using assms(1) us by (metis map_append sorted_append)
    then have "y \<in> set us \<Longrightarrow> apiOrder y \<le> apiOrder (last ys)" for y
      by (simp add: sorted_append)
    moreover have "y \<in> set us \<or> y = last ys" using that us by (metis Un_iff empty_iff empty_set insert_iff list.simps(15) set_append)
    ultimately show ?thesis by (metis linorder_not_less order_refl)
  qed
  have g: "apiOrder (last ys) < apiOrder z" if "z \<in> set zs" for z
  proof -
    have "apiOrder (last ys) \<le> apiOrder z"
      using assms(1,3) that by (auto simp: sorted_append)
    moreover have "apiOrder (last ys) \<noteq> apiOrder z"
    proof -
      have "apiOrder (last ys) \<in> set (map apiOrder ys)" "apiOrder z \<in> set (map apiOrder zs)"
        using assms(3) that by auto
      with assms(2) show ?thesis by (metis disjoint_iff distinct_append map_append)
    qed
    ultimately show ?thesis by simp
  qed
  show ?thesis
    using l g by (auto simp: afterCursor_less filter_empty_conv filter_id_conv)
qed

lemma aiBatches_exact:
  assumes "\<And>d' d''. tables d' = tables d'' \<Longrightarrow> wher d' = wher d''"
    and "xs = sort_key apiOrder (filter (wher d) (proxies d))" "distinct (map apiOrder xs)"
    and "filter (afterCursor cur) xs = rest" "\<exists>us. xs = us @ rest" "length rest < n"
    and "aiBatches n wher wantAI limit offset cur st d = (Inr res, d1)"
  shows "res = Some (foldl (aiRowStep wantAI limit offset) st (map scanProxy rest))"
  using assms(2-)
proof (induction n arbitrary: cur st d rest)
  case (Suc n)
  have t: "wher (dropFault d) = wher d" by (rule assms(1)) simp
  let ?batch = "take (nat nodeAPIMaxLimit) rest"
  have q: "sort_key apiOrder (filter (\<lambda>r. wher d r \<and> afterCursor cur r) (proxies d)) = rest"
    using Suc.prems(1,3) by (simp add: filter_sort conj_commute)
  from Suc.prems(6) obtain rows d2 where rows: "querySQL (\<lambda>d. take (nat nodeAPIMaxLimit)
        (sort_key apiOrder (filter (\<lambda>r. wher d r \<and> afterCursor cur r) (proxies d)))) d = (Inr rows, d2)"
    and k: "(let st' = foldl (aiRowStep wantAI limit offset) st (map scanProxy rows);
        cur' = (if rows = [] then cur else Some (apiOrder (last rows)))
        in if int (length rows) < nodeAPIMaxLimit then returnOp (Some st')
           else aiBatches n wher wantAI limit offset cur' st') d2 = (Inr res, d1)"
    by (auto elim!: bindOp_InrD)
  have r: "rows = ?batch" "d2 = dropFault d"
    using querySQL_InrD(1,2) [OF rows] q by (simp_all add: t)
  show ?case
  proof (cases "int (length rows) < nodeAPIMaxLimit")
    case True
    then have "?batch = rest" using r by (simp add: nodeAPIMaxLimit_def)
    with True k r show ?thesis by (simp add: returnOp_def Let_def)
  next
    case False
    then have big: "length ?batch = nat nodeAPIMaxLimit" "?batch \<noteq> []"
      using r by (auto simp: nodeAPIMaxLimit_def)
    let ?zs = "drop (nat nodeAPIMaxLimit) rest"
    obtain us where us: "xs = us @ rest" using Suc.prems(4) by blast
    have split: "xs = (us @ ?batch) @ ?zs" using us by simp
    have srt: "sorted (map apiOrder xs)" using Suc.prems(1) by simp
    have "filter (afterCursor (Some (apiOrder (last (us @ ?batch))))) ((us @ ?batch) @ ?zs) = ?zs"
      using filter_after_last [of "us @ ?batch" ?zs] srt Suc.prems(2) split big(2) by simp
    then have f: "filter (afterCursor (Some (apiOrder (last ?batch)))) xs = ?zs"
      using split big(2) by (metis last_appendR)
    have len: "length ?zs < n"
      using Suc.prems(5) big by (auto simp: nodeAPIMaxLimit_def)
    have xs': "xs = sort_key apiOrder (filter (wher (dropFault d)) (proxies (dropFault d)))"
      using Suc.prems(1) t by simp
    have k': "aiBatches n wher wantAI limit offset (Some (apiOrder (last ?batch)))
        (foldl (aiRowStep wantAI limit offset) st (map scanProxy ?batch)) (dropFault d) = (Inr res, d1)"
      using k r False big by (simp add: Let_def)
    have "res = Some (foldl (aiRowStep wantAI limit offset)
        (foldl (aiRowStep wantAI limit offset) st (map scanProxy ?batch)) (map scanProxy ?zs))"
      using Suc.IH [OF xs' Suc.prems(2) f _ len k'] split by blast
    then show ?thesis
      by (simp flip: foldl_append map_append)
  qed
qed simp

text \<open>What one sorted query over the whole table would list.\<close>

definition apiReference :: "NodeAPIFilter \<Rightarrow> DB \<Rightarrow> Proxy list" where
  "apiReference f d =
     filter (\<lambda>p. aiReachableAll (pAIReachability p) (normalizeAIList (fAI f)))
       (map scanProxy (sort_key apiOrder (filter (buildNodeAPIWhere f d) (proxies d))))"

lemma buildNodeAPIWhere_tables:
  "tables d = tables d' \<Longrightarrow> buildNodeAPIWhere f d = buildNodeAPIWhere f d'"
  using scope_tables(2) [of d d'] by (simp add: tables_def buildNodeAPIWhere_def fun_eq_iff)

lemma paging_bounds:
  "0 < fst (normalizeNodeAPIPaging l k)" "fst (normalizeNodeAPIPaging l k) \<le> nodeAPIMaxLimit"
  "0 \<le> snd (normalizeNodeAPIPaging l k)"
  by (simp_all add: normalizeNodeAPIPaging_def nodeAPIDefaultLimit_def nodeAPIMaxLimit_def Let_def)

lemma distinct_apiOrder:
  "distinct (map cID rows) \<Longrightarrow> distinct (map apiOrder (sort_key apiOrder (filter P rows)))"
proof -
  assume d: "distinct (map cID rows)"
  have "distinct (map cID (filter P rows))" using d by (rule distinct_map_filter)
  then have "distinct (map cID (sort_key apiOrder (filter P rows)))"
    by (metis distinct_map distinct_sort set_sort)
  then show ?thesis by (auto simp: distinct_map inj_on_def apiOrder_def)
qed

lemma listNodesForAPI_exact:
  assumes "distinct (map cID (proxies d))" "listNodesForAPI f d = (Inr res, d1)"
    and "normalizeNodeAPIPaging (fLimit f) (fOffset f) = (l, k)"
  shows "res = Some (take (nat l) (drop (nat k) (apiReference f d)), int (length (apiReference f d)))"
proof -
  let ?ai = "normalizeAIList (fAI f)" and ?w = "buildNodeAPIWhere f"
  let ?xs = "sort_key apiOrder (filter (?w d) (proxies d))"
  have lk: "0 \<le> l" "0 \<le> k" using paging_bounds [of "fLimit f" "fOffset f"] assms(3) by simp_all
  show ?thesis
  proof (cases "?ai = []")
    case True
    have ref: "apiReference f d = map scanProxy ?xs"
      by (simp add: apiReference_def True aiReachableAll_def)
    have w: "?w (dropFault d') = ?w d'" for d' by (rule buildNodeAPIWhere_tables) simp
    show ?thesis
      using assms(2,3) True lk
      by (auto simp: listNodesForAPI_def Let_def countNodesForAPI_def returnOp_def ref w countRows_def
          take_map drop_map bindOp_def querySQL_unfold split: if_splits)
  next
    case False
    with assms(2,3) obtain r d2 where
      r: "aiBatches (Suc (length (proxies d))) ?w ?ai l k None (0, 0, []) d = (Inr r, d2)"
      and res: "res = map_option (\<lambda>(tot, skipped, page). (page, tot)) r"
      by (auto simp: listNodesForAPI_def Let_def listNodesForAPIWithAI_def returnOp_def
          simp del: aiBatches.simps elim!: bindOp_InrD)
    have len: "length ?xs < Suc (length (proxies d))" by (simp add: less_Suc_eq_le)
    have "r = Some (foldl (aiRowStep ?ai l k) (0, 0, []) (map scanProxy ?xs))"
      by (rule aiBatches_exact [OF buildNodeAPIWhere_tables refl distinct_apiOrder [OF assms(1)] _ _ len r])
        (auto simp: afterCursor_def)
    with res show ?thesis
      by (simp add: aiRowStep_fold [OF lk] Let_def apiReference_def)
  qed
qed

end
