(* ===== verification/StorageProxies.thy ===== *)
theory StorageProxies
  imports StorageQueries
begin

text \<open>
  The write side of the proxies table: \<open>proxy_methods.go\<close>, \<open>proxy_updates.go\<close> and \<open>manual.go\<close>. A
  \<open>WHERE\<close> fragment with its arguments is a predicate on the database and the row; the right-hand
  sides of \<open>SET\<close> read the row as it was before the statement.
\<close>

section \<open>Inserting rows\<close>

definition newRow :: "string \<Rightarrow> string \<Rightarrow> string \<Rightarrow> int \<Rightarrow> ProxyRow" where
  "newRow address protocol source subID =
     defaultRow\<lparr>cAddress := address, cProtocol := protocol, cSource := source,
       cSubscriptionID := subID, cRegionSource := ''auto''\<rparr>"

definition AddProxy :: "string \<Rightarrow> string \<Rightarrow> unit db_op" where
  "AddProxy address protocol = upsertProxy (newRow address protocol ''manual'' 0) (\<lambda>new old. old)"

fun forOp :: "('a \<Rightarrow> unit db_op) \<Rightarrow> 'a list \<Rightarrow> unit db_op" where
  "forOp f [] = returnOp ()"
| "forOp f (x # xs) = bindOp (f x) (\<lambda>u. forOp f xs)"

text \<open>The \<open>Prepare\<close> of \<open>AddProxies\<close> is one more call that may fail.\<close>

definition AddProxies :: "Proxy list \<Rightarrow> unit db_op" where
  "AddProxies ps =
     withTx (bindOp (querySQL (\<lambda>d. ())) (\<lambda>u.
       forOp (\<lambda>p. upsertProxy (newRow (pAddress p) (pProtocol p) ''manual'' 0) (\<lambda>new old. old)) ps))"

definition AddProxyWithSource :: "string \<Rightarrow> string \<Rightarrow> string \<Rightarrow> int list \<Rightarrow> unit db_op" where
  "AddProxyWithSource address protocol source subscriptionID =
     (let sub0 = (if subscriptionID \<noteq> [] then hd subscriptionID else 0);
          subID = (if source = SourceManual then 0 else sub0) in
      if source = SourceSubscription \<and> subID \<le> 0
      then failOp (ErrRejected ''subscription proxy requires subscription_id'')
      else upsertProxy (newRow address protocol source subID)
             (\<lambda>new old. old\<lparr>cProtocol := cProtocol new,
                cRegionSource := (if cRegionSource old = [] then cRegionSource new else cRegionSource old)\<rparr>))"

section \<open>Rows named by an address\<close>

text \<open>The row with this address, provided it is the only one.\<close>

definition uniqueAddressProxyIDWhere :: "string \<Rightarrow> DB \<Rightarrow> ProxyRow \<Rightarrow> bool" where
  "uniqueAddressProxyIDWhere address d r \<longleftrightarrow>
     (case filter (\<lambda>m. cAddress m = address) (proxies d) of
        [m] \<Rightarrow> cID r = cID m
      | _ \<Rightarrow> False)"

definition finishAddressOnlyMutation :: "string \<Rightarrow> int db_op \<Rightarrow> unit db_op" where
  "finishAddressOnlyMutation address mutation =
     bindOp mutation (\<lambda>affected.
       if affected = 1 then returnOp ()
       else if affected > 1 then failOp (ErrRejected ''address-only mutation affected many rows'')
       else bindOp (GetProxyByAddress address) (\<lambda>p. failOp ErrNoRows))"

definition affecting :: "int db_op \<Rightarrow> unit db_op" where
  "affecting mutation = bindOp mutation requireRowsAffected"

definition whereID :: "int \<Rightarrow> DB \<Rightarrow> ProxyRow \<Rightarrow> bool" where
  "whereID i d r \<longleftrightarrow> cID r = i"

definition whereSubscriptionProxy :: "string \<Rightarrow> int \<Rightarrow> DB \<Rightarrow> ProxyRow \<Rightarrow> bool" where
  "whereSubscriptionProxy address subscriptionID d r \<longleftrightarrow>
     cAddress r = address \<and> cSource r = SourceSubscription \<and> cSubscriptionID r = subscriptionID"

definition Delete :: "string \<Rightarrow> unit db_op" where
  "Delete address = finishAddressOnlyMutation address (deleteProxies (uniqueAddressProxyIDWhere address))"

definition DeleteProxyByID :: "int \<Rightarrow> unit db_op" where
  "DeleteProxyByID i = affecting (deleteProxies (whereID i))"

definition DeleteBySubscriptionID :: "int \<Rightarrow> int db_op" where
  "DeleteBySubscriptionID sid =
     deleteProxies (\<lambda>d r. cSubscriptionID r = sid \<and> cSource r = SourceSubscription)"

definition DeleteBySource :: "string \<Rightarrow> int db_op" where
  "DeleteBySource source = deleteProxies (\<lambda>d r. cSource r = source)"

definition DeleteManualProxy :: "string \<Rightarrow> unit db_op" where
  "DeleteManualProxy address = affecting (deleteProxies (\<lambda>d r. cAddress r = address \<and> cSource r = ''manual''))"

section \<open>Exit information\<close>

definition CalculateQualityGrade :: "int \<Rightarrow> string" where
  "CalculateQualityGrade latencyMs =
     (if latencyMs \<le> 200 then ''S'' else if latencyMs \<le> 500 then ''A'' else if latencyMs \<le> 1000 then ''B''
      else if latencyMs \<le> 2000 then ''C'' else ''D'')"

record ExitObservation =
  oExitIP :: string
  oExitLocation :: string
  oLatencyMS :: int
  oIPAPIIsScore :: rat
  oIPAPIFlags :: string
  oIPAPIFlagsKnown :: bool
  oCFBlocked :: int
  oAIReachability :: string

definition trustedExit :: "ExitObservation \<Rightarrow> bool" where
  "trustedExit ob \<longleftrightarrow> oExitIP ob \<noteq> [] \<and> oExitLocation ob \<noteq> []"

text \<open>
  The five risk columns every write-back shares: an unknown value (score or Cloudflare below zero,
  flags not known, empty AI object) keeps the column.
\<close>

definition setRisk :: "ExitObservation \<Rightarrow> ProxyRow \<Rightarrow> ProxyRow" where
  "setRisk ob r = r\<lparr>
     cIpapiisScore := (if oIPAPIIsScore ob \<ge> 0 then oIPAPIIsScore ob else cIpapiisScore r),
     cIpapiFlags := (if oIPAPIFlagsKnown ob then oIPAPIFlags ob else cIpapiFlags r),
     cIpapiFlagsSeen := (if oIPAPIFlagsKnown ob then 1 else cIpapiFlagsSeen r),
     cCfBlocked := (if oCFBlocked ob \<ge> 0 then oCFBlocked ob else cCfBlocked r),
     cAiReachability := (if oAIReachability ob \<noteq> [] then oAIReachability ob else cAiReachability r)\<rparr>"

text \<open>\<open>region = CASE WHEN guard AND region_source != 'manual' AND region != '' THEN region END\<close>.\<close>

definition setRegion :: "bool \<Rightarrow> ExitObservation \<Rightarrow> ProxyRow \<Rightarrow> ProxyRow" where
  "setRegion guard ob r =
     (let region = regionFromExitLocation (oExitLocation ob) in
      r\<lparr>cRegion := (if guard \<and> cRegionSource r \<noteq> ''manual'' \<and> region \<noteq> [] then region else cRegion r)\<rparr>)"

definition setLatency :: "bool \<Rightarrow> ExitObservation \<Rightarrow> ProxyRow \<Rightarrow> ProxyRow" where
  "setLatency guard ob r = r\<lparr>
     cLatency := (if guard then oLatencyMS ob else cLatency r),
     cQualityGrade := (if guard then CalculateQualityGrade (oLatencyMS ob) else cQualityGrade r)\<rparr>"

definition setExit :: "bool \<Rightarrow> ExitObservation \<Rightarrow> ProxyRow \<Rightarrow> ProxyRow" where
  "setExit guard ob r = r\<lparr>
     cExitIP := (if guard then oExitIP ob else cExitIP r),
     cExitLocation := (if guard then oExitLocation ob else cExitLocation r)\<rparr>"

definition setExitCheckedAt :: "bool \<Rightarrow> DB \<Rightarrow> ProxyRow \<Rightarrow> ProxyRow" where
  "setExitCheckedAt guard d r = r\<lparr>cExitCheckedAt := (if guard then Some (now d) else cExitCheckedAt r)\<rparr>"

definition updateExitInfoWhereResult ::
    "(DB \<Rightarrow> ProxyRow \<Rightarrow> bool) \<Rightarrow> ExitObservation \<Rightarrow> bool \<Rightarrow> int db_op" where
  "updateExitInfoWhereResult wher ob renewLastCheck =
     updateProxies wher (\<lambda>d r.
       setRisk ob (setRegion True ob (setExitCheckedAt (trustedExit ob) d
         (setLatency (oLatencyMS ob > 0) ob (setExit (trustedExit ob) ob (r\<lparr>
            cFailCount := 0,
            cLastCheck := (if renewLastCheck then Some (now d)
                           else case cLastCheck r of None \<Rightarrow> Some (now d) | Some t \<Rightarrow> Some t)\<rparr>))))))"

definition updateExitInfoWhere ::
    "(DB \<Rightarrow> ProxyRow \<Rightarrow> bool) \<Rightarrow> ExitObservation \<Rightarrow> bool \<Rightarrow> unit db_op" where
  "updateExitInfoWhere wher ob renewLastCheck =
     affecting (updateExitInfoWhereResult wher ob renewLastCheck)"

definition UpdateExitInfo :: "string \<Rightarrow> ExitObservation \<Rightarrow> unit db_op" where
  "UpdateExitInfo address ob =
     finishAddressOnlyMutation address (updateExitInfoWhereResult (uniqueAddressProxyIDWhere address) ob True)"

definition UpdateProxyExitInfo :: "int \<Rightarrow> ExitObservation \<Rightarrow> unit db_op" where
  "UpdateProxyExitInfo i ob = updateExitInfoWhere (whereID i) ob True"

definition UpdateSubscriptionProxyExitInfo :: "string \<Rightarrow> int \<Rightarrow> ExitObservation \<Rightarrow> unit db_op" where
  "UpdateSubscriptionProxyExitInfo address sid ob =
     updateExitInfoWhere (whereSubscriptionProxy address sid) ob True"

definition UpdateDisabledSubscriptionProxyExitInfo :: "string \<Rightarrow> int \<Rightarrow> ExitObservation \<Rightarrow> unit db_op" where
  "UpdateDisabledSubscriptionProxyExitInfo address sid ob =
     updateExitInfoWhere (\<lambda>d r. whereSubscriptionProxy address sid d r \<and> cStatus r = ''disabled'') ob False"

definition RecoverSubscriptionProxyWithExitInfo :: "string \<Rightarrow> int \<Rightarrow> ExitObservation \<Rightarrow> unit db_op" where
  "RecoverSubscriptionProxyWithExitInfo address sid ob =
     withTx (affecting (updateProxies
       (\<lambda>d r. whereSubscriptionProxy address sid d r \<and> cStatus r = ''disabled'' \<and>
              parentStatusIs (\<lambda>st. st \<noteq> ''paused'') d r)
       (\<lambda>d r. setRisk ob (setRegion True ob (setLatency True ob (setExit True ob (r\<lparr>
          cStatus := ''active'', cFailCount := 0, cLastCheck := Some (now d)\<rparr>)))))))"

section \<open>Flags and statistics\<close>

definition SetProxyDualProtocol :: "int \<Rightarrow> bool \<Rightarrow> unit db_op" where
  "SetProxyDualProtocol i dual =
     affecting (updateProxies (whereID i) (\<lambda>d r. r\<lparr>cDualProtocol := (if dual then 1 else 0)\<rparr>))"

definition SetProxyStarred :: "int \<Rightarrow> bool \<Rightarrow> unit db_op" where
  "SetProxyStarred i starred =
     affecting (updateProxies (whereID i) (\<lambda>d r. r\<lparr>cStarred := (if starred then 1 else 0)\<rparr>))"

definition RecordProxyUseByID :: "int \<Rightarrow> bool \<Rightarrow> unit db_op" where
  "RecordProxyUseByID i success =
     (if success then
        affecting (updateProxies (whereID i) (\<lambda>d r. r\<lparr>cUseCount := cUseCount r + 1,
          cSuccessCount := cSuccessCount r + 1, cFailCount := 0, cLastUsed := Some (now d)\<rparr>))
      else
        affecting (updateProxies (whereID i) (\<lambda>d r. r\<lparr>cUseCount := cUseCount r + 1,
          cFailCount := cFailCount r + 1, cLastUsed := Some (now d)\<rparr>)))"

definition RecordProxyUse :: "string \<Rightarrow> bool \<Rightarrow> unit db_op" where
  "RecordProxyUse address success =
     bindOp (GetProxyByAddress address) (\<lambda>p. RecordProxyUseByID (pID p) success)"

definition rejectThreshold :: "'a db_op" where
  "rejectThreshold = failOp (ErrRejected ''failure threshold must be positive'')"

definition RecordProxyFailureByIDWithStatus :: "int \<Rightarrow> int \<Rightarrow> bool db_op" where
  "RecordProxyFailureByIDWithStatus i threshold =
     (if threshold \<le> 0 then rejectThreshold
      else
        bindOp (updateReturning (whereID i) (\<lambda>d r. r\<lparr>
            cUseCount := cUseCount r + 1, cFailCount := cFailCount r + 1,
            cStatus := (if cFailCount r + 1 \<ge> threshold then ''disabled'' else cStatus r),
            cLastUsed := Some (now d), cLastCheck := Some (now d)\<rparr>))
          (\<lambda>status. returnOp (status = ''disabled'')))"

definition RecordProxyFailureByID :: "int \<Rightarrow> int \<Rightarrow> unit db_op" where
  "RecordProxyFailureByID i threshold =
     bindOp (RecordProxyFailureByIDWithStatus i threshold) (\<lambda>b. returnOp ())"

section \<open>Geographic policy\<close>

text \<open>\<open>LIKE\<close>: case-insensitive on ASCII, \<open>%\<close> any run, \<open>_\<close> one UTF-8 character.\<close>

definition skipUTF8 :: "char \<Rightarrow> string \<Rightarrow> string" where
  "skipUTF8 c s = (if byte c \<ge> 192 then dropWhile (\<lambda>x. 128 \<le> byte x \<and> byte x < 192) s else s)"

lemma length_skipUTF8: "length (skipUTF8 c s) \<le> length s"
  by (simp add: skipUTF8_def length_dropWhile_le)

function likeMatch :: "string \<Rightarrow> string \<Rightarrow> bool" where
  "likeMatch [] s \<longleftrightarrow> s = []"
| "likeMatch (p # ps) s \<longleftrightarrow>
     (if p = CHR ''%'' then likeMatch ps s \<or> (case s of [] \<Rightarrow> False | c # t \<Rightarrow> likeMatch (p # ps) t)
      else case s of
             [] \<Rightarrow> False
           | c # t \<Rightarrow>
               if p = CHR 0x5F then likeMatch ps (skipUTF8 c t)
               else toLowerChar c = toLowerChar p \<and> likeMatch ps t)"
  by pat_completeness auto
termination
proof (relation "measure (\<lambda>(p, s). length p + length s)")
  fix p c :: char and ps s t :: string
  show "((ps, skipUTF8 c t), (p # ps, s)) \<in> measure (\<lambda>(p, s). length p + length s)" if "s = c # t"
    using length_skipUTF8 [of c t] that by simp
qed auto

definition countryMatch :: "string \<Rightarrow> ProxyRow \<Rightarrow> bool" where
  "countryMatch code r \<longleftrightarrow>
     cRegion r = normalizeRegion code \<or> cExitLocation r = ToUpper code \<or>
     likeMatch (ToUpper code @ '' %'') (cExitLocation r)"

definition onlineStatus :: "string \<Rightarrow> bool" where
  "onlineStatus st \<longleftrightarrow> st = ''active'' \<or> st = ''degraded''"

fun disableCodes :: "string list \<Rightarrow> int \<Rightarrow> int db_op" where
  "disableCodes [] tot = returnOp tot"
| "disableCodes (code # codes) tot =
     bindOp (updateProxies (\<lambda>d r. onlineStatus (cStatus r) \<and> countryMatch code r)
               (\<lambda>d r. r\<lparr>cStatus := ''disabled''\<rparr>))
       (\<lambda>affected. disableCodes codes (tot + affected))"

definition DisableBlockedCountries :: "string list \<Rightarrow> int db_op" where
  "DisableBlockedCountries codes = (if codes = [] then returnOp 0 else withTx (disableCodes codes 0))"

definition DisableNotAllowedCountries :: "string list \<Rightarrow> int db_op" where
  "DisableNotAllowedCountries codes =
     (if codes = [] then returnOp 0
      else updateProxies
        (\<lambda>d r. onlineStatus (cStatus r) \<and> (cRegion r \<noteq> [] \<or> cExitLocation r \<noteq> []) \<and>
               \<not> list_ex (\<lambda>code. countryMatch code r) codes)
        (\<lambda>d r. r\<lparr>cStatus := ''disabled''\<rparr>))"

section \<open>Enabling, disabling, pausing\<close>

definition disableProxyWhereResult :: "(DB \<Rightarrow> ProxyRow \<Rightarrow> bool) \<Rightarrow> int db_op" where
  "disableProxyWhereResult wher =
     updateProxies wher (\<lambda>d r. r\<lparr>cStatus := ''disabled'',
       cLastCheck := (if cStatus r = ''disabled'' \<and> cLastCheck r \<noteq> None then cLastCheck r else Some (now d))\<rparr>)"

definition disableProxyWhere :: "(DB \<Rightarrow> ProxyRow \<Rightarrow> bool) \<Rightarrow> unit db_op" where
  "disableProxyWhere wher = affecting (disableProxyWhereResult wher)"

definition DisableProxy :: "string \<Rightarrow> unit db_op" where
  "DisableProxy address =
     finishAddressOnlyMutation address (disableProxyWhereResult (uniqueAddressProxyIDWhere address))"

definition DisableProxyByID :: "int \<Rightarrow> unit db_op" where
  "DisableProxyByID i = disableProxyWhere (whereID i)"

definition DisableSubscriptionProxy :: "string \<Rightarrow> int \<Rightarrow> unit db_op" where
  "DisableSubscriptionProxy address sid = disableProxyWhere (whereSubscriptionProxy address sid)"

definition enableProxyWhereResult :: "(DB \<Rightarrow> ProxyRow \<Rightarrow> bool) \<Rightarrow> int db_op" where
  "enableProxyWhereResult wher =
     updateProxies (\<lambda>d r. wher d r \<and> cStatus r = ''disabled'' \<and> parentNotPaused d r)
       (\<lambda>d r. r\<lparr>cStatus := ''active'', cFailCount := 0\<rparr>)"

definition enableProxyWhere :: "(DB \<Rightarrow> ProxyRow \<Rightarrow> bool) \<Rightarrow> unit db_op" where
  "enableProxyWhere wher = affecting (enableProxyWhereResult wher)"

definition EnableProxy :: "string \<Rightarrow> unit db_op" where
  "EnableProxy address =
     finishAddressOnlyMutation address (enableProxyWhereResult (uniqueAddressProxyIDWhere address))"

definition EnableProxyByID :: "int \<Rightarrow> unit db_op" where
  "EnableProxyByID i = enableProxyWhere (whereID i)"

definition EnableSubscriptionProxy :: "string \<Rightarrow> int \<Rightarrow> unit db_op" where
  "EnableSubscriptionProxy address sid = enableProxyWhere (whereSubscriptionProxy address sid)"

definition PauseProxy :: "string \<Rightarrow> unit db_op" where
  "PauseProxy address = finishAddressOnlyMutation address
     (updateProxies (uniqueAddressProxyIDWhere address) (\<lambda>d r. r\<lparr>cUserPaused := 1\<rparr>))"

definition PauseProxyByID :: "int \<Rightarrow> unit db_op" where
  "PauseProxyByID i = affecting (updateProxies (whereID i) (\<lambda>d r. r\<lparr>cUserPaused := 1\<rparr>))"

definition UnpauseProxy :: "string \<Rightarrow> unit db_op" where
  "UnpauseProxy address = finishAddressOnlyMutation address
     (updateProxies (uniqueAddressProxyIDWhere address) (\<lambda>d r. r\<lparr>cUserPaused := 0, cFailCount := 0\<rparr>))"

definition UnpauseProxyByID :: "int \<Rightarrow> unit db_op" where
  "UnpauseProxyByID i =
     affecting (updateProxies (whereID i) (\<lambda>d r. r\<lparr>cUserPaused := 0, cFailCount := 0\<rparr>))"

section \<open>Write-back of asynchronous results\<close>

record RouteIdentity =
  rID :: int
  rAddress :: string
  rProtocol :: string
  rNodeKey :: string
  rUsername :: string
  rPassword :: string
  rSource :: string
  rSubscriptionID :: int
  rDualProtocol :: bool

definition RouteIdentityFromProxy :: "Proxy \<Rightarrow> RouteIdentity" where
  "RouteIdentityFromProxy p = \<lparr>rID = pID p, rAddress = pAddress p, rProtocol = pProtocol p,
     rNodeKey = pNodeKey p, rUsername = pUsername p, rPassword = pPassword p, rSource = pSource p,
     rSubscriptionID = pSubscriptionID p, rDualProtocol = pDualProtocol p\<rparr>"

definition routeIdentityWhere :: "RouteIdentity \<Rightarrow> ProxyRow \<Rightarrow> bool" where
  "routeIdentityWhere i r \<longleftrightarrow>
     cID r = rID i \<and> cAddress r = rAddress i \<and> cProtocol r = rProtocol i \<and> cNodeKey r = rNodeKey i \<and>
     cProxyUsername r = rUsername i \<and> cProxyPassword r = rPassword i \<and> cSource r = rSource i \<and>
     cSubscriptionID r = rSubscriptionID i \<and> cDualProtocol r = (if rDualProtocol i then 1 else 0)"

definition ApplyProbeObservation :: "RouteIdentity \<Rightarrow> ExitObservation \<Rightarrow> unit db_op" where
  "ApplyProbeObservation i ob =
     affecting (updateProxies (\<lambda>d r. routeIdentityWhere i r \<and> parentActive d r)
       (\<lambda>d r. setRisk ob (setRegion (trustedExit ob) ob (setExitCheckedAt (trustedExit ob) d
          (setExit (trustedExit ob) ob (setLatency True ob (r\<lparr>
             cFailCount := 0, cLastCheck := Some (now d)\<rparr>)))))))"

definition failureStatus :: "int \<Rightarrow> ProxyRow \<Rightarrow> string" where
  "failureStatus threshold r = (if cFailCount r + 1 \<ge> threshold then ''disabled'' else cStatus r)"

definition failureDisabledAt :: "int \<Rightarrow> DB \<Rightarrow> ProxyRow \<Rightarrow> int option" where
  "failureDisabledAt threshold d r =
     (if cFailCount r + 1 \<ge> threshold \<and> cDisabledAt r = None then Some (now d) else cDisabledAt r)"

definition RecordForwardFailure :: "RouteIdentity \<Rightarrow> int \<Rightarrow> bool db_op" where
  "RecordForwardFailure i threshold =
     (if threshold \<le> 0 then rejectThreshold
      else
        bindOp (updateReturning (\<lambda>d r. routeIdentityWhere i r) (\<lambda>d r. r\<lparr>
            cUseCount := cUseCount r + 1, cFailCount := cFailCount r + 1,
            cStatus := failureStatus threshold r, cLastUsed := Some (now d),
            cDisabledAt := failureDisabledAt threshold d r\<rparr>))
          (\<lambda>status. returnOp (status = ''disabled'')))"

definition RecordForwardSuccess :: "RouteIdentity \<Rightarrow> unit db_op" where
  "RecordForwardSuccess i =
     affecting (updateProxies (\<lambda>d r. routeIdentityWhere i r) (\<lambda>d r. r\<lparr>
       cUseCount := cUseCount r + 1, cSuccessCount := cSuccessCount r + 1, cFailCount := 0,
       cLastUsed := Some (now d)\<rparr>))"

definition RecordProbeFailure :: "RouteIdentity \<Rightarrow> ExitObservation \<Rightarrow> int \<Rightarrow> bool db_op" where
  "RecordProbeFailure i ob threshold =
     (if threshold \<le> 0 then rejectThreshold
      else
        bindOp (updateReturning (\<lambda>d r. routeIdentityWhere i r \<and> parentActive d r)
          (\<lambda>d r. setRisk ob (setRegion (trustedExit ob) ob (setExitCheckedAt (trustedExit ob) d
             (setExit (trustedExit ob) ob (setLatency (oLatencyMS ob > 0) ob (r\<lparr>
                cUseCount := cUseCount r + 1, cFailCount := cFailCount r + 1,
                cStatus := failureStatus threshold r, cLastCheck := Some (now d),
                cDisabledAt := failureDisabledAt threshold d r\<rparr>)))))))
          (\<lambda>status. returnOp (status = ''disabled'')))"

definition RecoverProxyFromProbe :: "RouteIdentity \<Rightarrow> ExitObservation \<Rightarrow> unit db_op" where
  "RecoverProxyFromProbe i ob =
     (if oExitIP ob = [] \<or> oExitLocation ob = []
      then failOp (ErrRejected ''cannot recover route without trusted exit observation'')
      else
        affecting (updateProxies
          (\<lambda>d r. routeIdentityWhere i r \<and> cStatus r = ''disabled'' \<and> cUserPaused r = 0 \<and> parentActive d r)
          (\<lambda>d r. setRisk ob (setRegion True ob (setLatency True ob (setExit True ob (r\<lparr>
             cStatus := ''active'', cFailCount := 0, cLastCheck := Some (now d),
             cExitCheckedAt := Some (now d), cDisabledAt := None\<rparr>)))))))"

definition RecordDisabledProbeFailure :: "RouteIdentity \<Rightarrow> ExitObservation \<Rightarrow> unit db_op" where
  "RecordDisabledProbeFailure i ob =
     affecting (updateProxies
       (\<lambda>d r. routeIdentityWhere i r \<and> cStatus r = ''disabled'' \<and> parentActive d r)
       (\<lambda>d r. setRisk ob (setRegion (trustedExit ob) ob (setExitCheckedAt (trustedExit ob) d
          (setExit (trustedExit ob) ob (setLatency (oLatencyMS ob > 0) ob (r\<lparr>
             cLastCheck := Some (now d),
             cDisabledAt := (case cDisabledAt r of None \<Rightarrow> Some (now d) | Some t \<Rightarrow> Some t)\<rparr>)))))))"

definition DisableRouteForPolicy :: "RouteIdentity \<Rightarrow> unit db_op" where
  "DisableRouteForPolicy i =
     affecting (updateProxies (\<lambda>d r. routeIdentityWhere i r \<and> parentActive d r)
       (\<lambda>d r. r\<lparr>cStatus := ''disabled'', cDisabledAt := None\<rparr>))"

section \<open>Manual nodes\<close>

definition manualRegionSource :: "string \<Rightarrow> string" where
  "manualRegionSource region = (if region \<noteq> [] then ''manual'' else ''auto'')"

definition addManualProxyExec ::
    "string \<Rightarrow> string \<Rightarrow> string \<Rightarrow> string \<Rightarrow> string \<Rightarrow> string \<Rightarrow> string \<Rightarrow> unit db_op" where
  "addManualProxyExec address protocol region0 note username password nodeKey0 =
     (let region = normalizeManualRegion region0;
          regionSource = manualRegionSource region;
          nodeKey = (if nodeKey0 = [] then ''manual:'' @ normalizeProtocol protocol @ '':'' @ address
                     else nodeKey0) in
      upsertProxy
        (defaultRow\<lparr>cAddress := address, cProtocol := normalizeProtocol protocol, cSource := ''manual'',
           cSubscriptionID := 0, cRegion := region, cRegionSource := regionSource, cNote := note,
           cStatus := ''disabled'', cProxyUsername := username, cProxyPassword := password,
           cNodeKey := nodeKey\<rparr>)
        (\<lambda>new old. old\<lparr>cProtocol := cProtocol new, cRegion := cRegion new,
           cRegionSource := cRegionSource new, cNote := cNote new, cStatus := ''disabled'',
           cProxyUsername := cProxyUsername new, cProxyPassword := cProxyPassword new,
           cNodeKey := cNodeKey new\<rparr>))"

definition AddManualProxy :: "string \<Rightarrow> string \<Rightarrow> string \<Rightarrow> string \<Rightarrow> unit db_op" where
  "AddManualProxy address protocol region note = addManualProxyExec address protocol region note [] [] []"

definition AddManualProxyWithCredentials ::
    "string \<Rightarrow> string \<Rightarrow> string \<Rightarrow> string \<Rightarrow> string \<Rightarrow> string \<Rightarrow> unit db_op" where
  "AddManualProxyWithCredentials address protocol region note username password =
     addManualProxyExec address protocol region note username password []"

text \<open>\<open>COALESCE(MIN(c), z)\<close>.\<close>

definition minOr :: "'b::linorder \<Rightarrow> 'b list \<Rightarrow> 'b" where
  "minOr z xs = (if xs = [] then z else Min (set xs))"

definition AddManualProxyWithNodeKey ::
    "string \<Rightarrow> string \<Rightarrow> string \<Rightarrow> string \<Rightarrow> string \<Rightarrow> unit db_op" where
  "AddManualProxyWithNodeKey address protocol region0 note nodeKey =
     (if nodeKey = [] then addManualProxyExec address protocol region0 note [] [] []
      else withTx (
        bindOp (querySQL (\<lambda>d.
            let rows = filter (\<lambda>r. cSource r = ''manual'' \<and> cSubscriptionID r = 0 \<and> cNodeKey r = nodeKey)
                         (proxies d)
            in (length rows, minOr 0 (map cID rows), minOr [] (map cAddress rows),
                minOr [] (map cProtocol rows))))
          (\<lambda>(n, proxyID, storedAddress, storedProtocol).
             if n > 1 then failOp (ErrAmbiguousNodeKey nodeKey)
             else if n = 0 then addManualProxyExec address protocol region0 note [] [] nodeKey
             else
               (let region = normalizeManualRegion region0; regionSource = manualRegionSource region in
                if storedAddress = address \<and> storedProtocol = normalizeProtocol protocol then
                  affecting (updateProxies (\<lambda>d r. cID r = proxyID \<and> cNodeKey r = nodeKey)
                    (\<lambda>d r. r\<lparr>cRegion := region, cRegionSource := regionSource, cNote := note\<rparr>))
                else
                  affecting (updateProxies (\<lambda>d r. cID r = proxyID \<and> cNodeKey r = nodeKey)
                    (\<lambda>d r. r\<lparr>cAddress := address, cProtocol := normalizeProtocol protocol,
                       cRegion := region, cRegionSource := regionSource, cNote := note,
                       cExitIP := [], cExitLocation := [], cLatency := 0, cQualityGrade := ''C'',
                       cFailCount := 0, cLastCheck := None, cExitCheckedAt := None,
                       cDisabledAt := None, cIpapiisScore := - 1, cIpapiFlags := [],
                       cIpapiFlagsSeen := 0, cCfBlocked := - 1, cAiReachability := [],
                       cStatus := ''disabled'', cProxyUsername := [], cProxyPassword := [],
                       cNodeKey := nodeKey\<rparr>))))))"

definition AddManualProxies :: "Proxy list \<Rightarrow> string \<Rightarrow> string \<Rightarrow> unit db_op" where
  "AddManualProxies ps region note =
     withTx (forOp (\<lambda>p. addManualProxyExec (pAddress p) (pProtocol p) region note
       (pUsername p) (pPassword p) (pNodeKey p)) ps)"

definition UpdateProxyRegion :: "string \<Rightarrow> string \<Rightarrow> bool \<Rightarrow> unit db_op" where
  "UpdateProxyRegion address region manual = finishAddressOnlyMutation address
     (updateProxies (uniqueAddressProxyIDWhere address) (\<lambda>d r. r\<lparr>cRegion := normalizeManualRegion region,
        cRegionSource := (if manual then ''manual'' else ''auto'')\<rparr>))"

definition UpdateProxyRegionByID :: "int \<Rightarrow> string \<Rightarrow> bool \<Rightarrow> unit db_op" where
  "UpdateProxyRegionByID i region manual =
     affecting (updateProxies (whereID i) (\<lambda>d r. r\<lparr>cRegion := normalizeManualRegion region,
        cRegionSource := (if manual then ''manual'' else ''auto'')\<rparr>))"

definition UpdateProxyNote :: "string \<Rightarrow> string \<Rightarrow> unit db_op" where
  "UpdateProxyNote address note = finishAddressOnlyMutation address
     (updateProxies (uniqueAddressProxyIDWhere address) (\<lambda>d r. r\<lparr>cNote := note\<rparr>))"

definition UpdateProxyNoteByID :: "int \<Rightarrow> string \<Rightarrow> unit db_op" where
  "UpdateProxyNoteByID i note = affecting (updateProxies (whereID i) (\<lambda>d r. r\<lparr>cNote := note\<rparr>))"

end
