(* ===== verification/StorageSubs.thy ===== *)
theory StorageSubs
  imports StorageProxies
begin

text \<open>The subscriptions of the package \<open>storage\<close> (\<open>subscriptions.go\<close>).\<close>

definition defaultSubscription :: Subscription where
  "defaultSubscription = \<lparr>sID = 0, sName = [], sURL = [], sFilePath = [], sFormat = ''clash'',
     sRefreshMin = 60, sLastFetch = None, sLastSuccess = None, sStatus = ''active'', sProxyCount = 0,
     sCreatedAt = 0, sContributed = False, sHeaders = []\<rparr>"

definition duplicateSubscription :: "'a db_op" where
  "duplicateSubscription = failOp (ErrRejected ''subscription URL or file exists'')"

text \<open>Replace a unique-constraint error by the duplicate message.\<close>

definition onUnique :: "'a db_op \<Rightarrow> 'a db_op" where
  "onUnique m d =
     (case m d of
        (Inl e, d1) \<Rightarrow> if isUniqueConstraintError e then duplicateSubscription d1 else (Inl e, d1)
      | (Inr x, d1) \<Rightarrow> (Inr x, d1))"

definition AddSubscription :: "string \<Rightarrow> string \<Rightarrow> string \<Rightarrow> string \<Rightarrow> int \<Rightarrow> string \<Rightarrow> int db_op" where
  "AddSubscription name url filePath fmt refreshMin headers =
     onUnique (insertSubscription (defaultSubscription\<lparr>sName := name, sURL := url,
       sFilePath := filePath, sFormat := fmt, sRefreshMin := refreshMin, sHeaders := headers\<rparr>))"

definition CountBySubscriptionID :: "int \<Rightarrow> (int \<times> int) db_op" where
  "CountBySubscriptionID subID =
     bindOp (querySQL (\<lambda>d. countRows (\<lambda>r. cSubscriptionID r = subID \<and> selectableRow d r) (proxies d)))
       (\<lambda>active. bindOp (querySQL (\<lambda>d. countRows (\<lambda>r. cSubscriptionID r = subID \<and> cStatus r = ''disabled'')
            (proxies d))) (\<lambda>disabled. returnOp (active, disabled)))"

definition CountPausedBySubscriptionID :: "int \<Rightarrow> int db_op" where
  "CountPausedBySubscriptionID subID =
     querySQL (\<lambda>d. countRows (\<lambda>r. cSubscriptionID r = subID \<and> cUserPaused r = 1) (proxies d))"

text \<open>A failing duplicate lookup is ignored by the code: only a found row rejects the URL.\<close>

definition AddContributedSubscription :: "string \<Rightarrow> string \<Rightarrow> int \<Rightarrow> int db_op" where
  "AddContributedSubscription name url refreshMin d =
     (if url = [] then failOp (ErrRejected ''URL must not be empty'') d
      else case querySQL (\<lambda>d. list_ex (\<lambda>s. sURL s = url \<and> sURL s \<noteq> []) (subscriptions d)) d of
             (Inr True, d1) \<Rightarrow> duplicateSubscription d1
           | (_, d1) \<Rightarrow> onUnique (insertSubscription (defaultSubscription\<lparr>sName := name, sURL := url,
                            sFormat := ''auto'', sRefreshMin := refreshMin, sContributed := True\<rparr>)) d1)"

definition UpdateSubscription ::
    "int \<Rightarrow> string \<Rightarrow> string \<Rightarrow> string \<Rightarrow> string \<Rightarrow> int \<Rightarrow> string \<Rightarrow> unit db_op" where
  "UpdateSubscription i name url filePath fmt refreshMin headers =
     affecting (onUnique (updateSubscriptions (\<lambda>s. sID s = i) (\<lambda>d s. s\<lparr>sName := name, sURL := url,
       sFilePath := filePath, sFormat := fmt, sRefreshMin := refreshMin, sHeaders := headers\<rparr>)))"

definition DeleteSubscription :: "int \<Rightarrow> unit db_op" where
  "DeleteSubscription i =
     withTx (bindOp (deleteProxies (\<lambda>d r. cSubscriptionID r = i \<and> cSource r = SourceSubscription))
       (\<lambda>n. bindOp (deleteSubscriptions (\<lambda>s. sID s = i)) requireRowsAffected))"

text \<open>\<open>ORDER BY created_at DESC\<close>: a stable descending pass.\<close>

definition GetSubscriptions :: "Subscription list db_op" where
  "GetSubscriptions = querySQL (\<lambda>d. sort_key (\<lambda>s. - sCreatedAt s) (subscriptions d))"

definition GetSubscription :: "int \<Rightarrow> Subscription db_op" where
  "GetSubscription i =
     bindOp (querySQL (\<lambda>d. find (\<lambda>s. sID s = i) (subscriptions d)))
       (\<lambda>s. case s of Some s \<Rightarrow> returnOp s | None \<Rightarrow> failOp (ErrRejected ''subscription not found''))"

definition UpdateSubscriptionFetch :: "int \<Rightarrow> int \<Rightarrow> unit db_op" where
  "UpdateSubscriptionFetch i proxyCount =
     affecting (updateSubscriptions (\<lambda>s. sID s = i)
       (\<lambda>d s. s\<lparr>sLastFetch := Some (now d), sProxyCount := proxyCount\<rparr>))"

definition UpdateSubscriptionAttempt :: "int \<Rightarrow> unit db_op" where
  "UpdateSubscriptionAttempt i =
     affecting (updateSubscriptions (\<lambda>s. sID s = i) (\<lambda>d s. s\<lparr>sLastFetch := Some (now d)\<rparr>))"

definition UpdateSubscriptionSuccess :: "int \<Rightarrow> unit db_op" where
  "UpdateSubscriptionSuccess i =
     affecting (updateSubscriptions (\<lambda>s. sID s = i) (\<lambda>d s. s\<lparr>sLastSuccess := Some (now d)\<rparr>))"

definition GetStaleSubscriptions :: "int \<Rightarrow> Subscription list db_op" where
  "GetStaleSubscriptions staleDays =
     querySQL (\<lambda>d. filter (\<lambda>s. sStatus s = ''active'' \<and>
         (case sLastSuccess s of None \<Rightarrow> True | Some t \<Rightarrow> now d - t > staleDays * 86400) \<and>
         now d - sCreatedAt s > staleDays * 86400) (subscriptions d))"

definition disableSubscriptionProxies :: "int \<Rightarrow> int db_op" where
  "disableSubscriptionProxies i =
     updateProxies
       (\<lambda>d r. cSource r = SourceSubscription \<and> cSubscriptionID r = i \<and> cStatus r \<noteq> ''disabled'')
       (\<lambda>d r. r\<lparr>cStatus := ''disabled''\<rparr>)"

definition ToggleSubscription :: "int \<Rightarrow> string db_op" where
  "ToggleSubscription i =
     withTx (bindOp (querySQL (\<lambda>d. map_option sStatus (find (\<lambda>s. sID s = i) (subscriptions d))))
       (\<lambda>st. case st of
          None \<Rightarrow> failOp ErrNoRows
        | Some current \<Rightarrow>
            (let newStatus = (if current \<noteq> ''active'' then ''active'' else ''paused'') in
             bindOp (updateSubscriptions (\<lambda>s. sID s = i) (\<lambda>d s. s\<lparr>sStatus := newStatus\<rparr>))
               (\<lambda>n. if newStatus = ''paused''
                    then bindOp (disableSubscriptionProxies i) (\<lambda>m. returnOp newStatus)
                    else returnOp newStatus))))"

definition PauseSubscription :: "int \<Rightarrow> unit db_op" where
  "PauseSubscription i =
     withTx (bindOp (affecting (updateSubscriptions (\<lambda>s. sID s = i) (\<lambda>d s. s\<lparr>sStatus := ''paused''\<rparr>)))
       (\<lambda>u. bindOp (disableSubscriptionProxies i) (\<lambda>n. returnOp ())))"

end
