(* ===== verification/SubscriptionStore.thy ===== *)
theory SubscriptionStore
  imports StorageSubs
begin

text \<open>
  Replacing the nodes of a subscription in one transaction (\<open>normalizeSubscriptionProxyEntries\<close> and
  \<open>replaceSubscriptionProxies\<close> of \<open>custom/manager.go\<close>), which writes the tables directly, and what the
  transaction makes of them.
\<close>

record subscriptionProxyEntry =
  eAddr :: string
  eProto :: string
  eDual :: bool
  eUsername :: string
  ePassword :: string
  eNodeKey :: string

text \<open>Comparing an entry with the one kept only decides what is logged.\<close>

fun normalizeEntries ::
    "subscriptionProxyEntry list \<Rightarrow> subscriptionProxyEntry list \<Rightarrow> subscriptionProxyEntry list" where
  "normalizeEntries normalized [] = normalized"
| "normalizeEntries normalized (e # es) =
     (if eNodeKey e \<noteq> [] \<and> eNodeKey e \<in> set (map eNodeKey normalized) then normalizeEntries normalized es
      else if eAddr e \<in> set (map eAddr normalized) then normalizeEntries normalized es
      else normalizeEntries (normalized @ [e]) es)"

definition normalizeSubscriptionProxyEntries :: "subscriptionProxyEntry list \<Rightarrow> subscriptionProxyEntry list" where
  "normalizeSubscriptionProxyEntries entries = normalizeEntries [] entries"

section \<open>The transaction\<close>

definition ofSub :: "int \<Rightarrow> ProxyRow \<Rightarrow> bool" where
  "ofSub subID r \<longleftrightarrow> cSubscriptionID r = subID \<and> cSource r = SourceSubscription"

definition intOfBool :: "bool \<Rightarrow> int" where
  "intOfBool b = (if b then 1 else 0)"

text \<open>The user's pause is found by node key, or by address for an entry without one.\<close>

definition pausedBefore :: "ProxyRow list \<Rightarrow> subscriptionProxyEntry \<Rightarrow> bool" where
  "pausedBefore pauseRows e \<longleftrightarrow>
     (if eNodeKey e \<noteq> [] then list_ex (\<lambda>r. cUserPaused r = 1 \<and> cNodeKey r \<noteq> [] \<and> cNodeKey r = eNodeKey e) pauseRows
      else list_ex (\<lambda>r. cUserPaused r = 1 \<and> cAddress r = eAddr e) pauseRows)"

definition incomingKey :: "subscriptionProxyEntry list \<Rightarrow> string \<Rightarrow> bool" where
  "incomingKey es k \<longleftrightarrow> k \<noteq> [] \<and> k \<in> set (map eNodeKey es)"

definition staleRow :: "subscriptionProxyEntry list \<Rightarrow> ProxyRow \<Rightarrow> bool" where
  "staleRow es r \<longleftrightarrow> \<not> incomingKey es (cNodeKey r)"

text \<open>\<open>keyToOld\<close>: of several rows with one key the last one read.\<close>

definition keyToOld :: "subscriptionProxyEntry list \<Rightarrow> ProxyRow list \<Rightarrow> string \<Rightarrow> ProxyRow option" where
  "keyToOld es mine k = find (\<lambda>r. cNodeKey r = k \<and> incomingKey es k) (rev mine)"

definition resetEvidence :: "subscriptionProxyEntry \<Rightarrow> ProxyRow \<Rightarrow> bool" where
  "resetEvidence e old \<longleftrightarrow>
     cAddress old \<noteq> eAddr e \<or> cProtocol old \<noteq> eProto e \<or> (cDualProtocol old \<noteq> 0) \<noteq> eDual e \<or>
     cProxyUsername old \<noteq> eUsername e \<or> cProxyPassword old \<noteq> ePassword e"

definition preserveActive :: "string \<Rightarrow> subscriptionProxyEntry \<Rightarrow> ProxyRow \<Rightarrow> bool" where
  "preserveActive subscriptionStatus e old \<longleftrightarrow>
     subscriptionStatus = ''active'' \<and> cStatus old = ''active'' \<and> cUserPaused old = 0 \<and> cFailCount old = 0 \<and>
     cExitCheckedAt old \<noteq> None \<and> cExitIP old \<noteq> [] \<and> cExitLocation old \<noteq> [] \<and> cLatency old > 0 \<and>
     \<not> resetEvidence e old \<and> cNodeKey old = eNodeKey e"

record keyedUpdate =
  kuIndex :: nat
  kuID :: int
  kuEntry :: subscriptionProxyEntry
  kuUserPaused :: int
  kuPreserveActive :: bool
  kuResetEvidence :: bool

record pendingInsert =
  piIndex :: nat
  piEntry :: subscriptionProxyEntry
  piUserPaused :: int

definition keyedUpdates ::
    "string \<Rightarrow> subscriptionProxyEntry list \<Rightarrow> ProxyRow list \<Rightarrow> ProxyRow list \<Rightarrow> keyedUpdate list" where
  "keyedUpdates status es pauseRows mine =
     concat (map (\<lambda>(i, e).
       case if eNodeKey e \<noteq> [] then keyToOld es mine (eNodeKey e) else None of
         Some old \<Rightarrow> [\<lparr>kuIndex = i, kuID = cID old, kuEntry = e, kuUserPaused = intOfBool (pausedBefore pauseRows e),
                      kuPreserveActive = preserveActive status e old, kuResetEvidence = resetEvidence e old\<rparr>]
       | None \<Rightarrow> []) (zip [0..<length es] es))"

definition pendingInserts ::
    "subscriptionProxyEntry list \<Rightarrow> ProxyRow list \<Rightarrow> ProxyRow list \<Rightarrow> pendingInsert list" where
  "pendingInserts es pauseRows mine =
     concat (map (\<lambda>(i, e).
       case if eNodeKey e \<noteq> [] then keyToOld es mine (eNodeKey e) else None of
         Some old \<Rightarrow> []
       | None \<Rightarrow> [\<lparr>piIndex = i, piEntry = e, piUserPaused = intOfBool (pausedBefore pauseRows e)\<rparr>])
       (zip [0..<length es] es))"

definition rebindAddress :: "int \<Rightarrow> string" where
  "rebindAddress i = ''rebind-'' @ fmtInt i @ ''.invalid:0''"

definition clearEvidence :: "ProxyRow \<Rightarrow> ProxyRow" where
  "clearEvidence r = r\<lparr>cFailCount := 0, cLastCheck := None, cExitCheckedAt := None, cDisabledAt := None,
     cExitIP := [], cExitLocation := [], cLatency := 0, cQualityGrade := ''C'',
     cRegion := (if cRegionSource r \<noteq> ''manual'' then [] else cRegion r), cIpapiisScore := - 1,
     cIpapiFlags := [], cIpapiFlagsSeen := 0, cCfBlocked := - 1, cAiReachability := []\<rparr>"

definition kuStatus :: "keyedUpdate \<Rightarrow> string" where
  "kuStatus ku = (if kuPreserveActive ku then ''active'' else ''disabled'')"

text \<open>The columns of the right-hand sides are those before the statement.\<close>

definition preUpdate :: "keyedUpdate \<Rightarrow> ProxyRow \<Rightarrow> ProxyRow" where
  "preUpdate ku r =
     (let e = kuEntry ku; r1 = (if kuResetEvidence ku then clearEvidence r else r) in
      r1\<lparr>cAddress := rebindAddress (kuID ku), cProtocol := eProto e, cStatus := kuStatus ku,
         cDualProtocol := intOfBool (eDual e), cUserPaused := kuUserPaused ku, cProxyUsername := eUsername e,
         cProxyPassword := ePassword e, cNodeKey := eNodeKey e,
         cRegionSource := (if cRegionSource r = [] then ''auto'' else cRegionSource r)\<rparr>)"

definition insertedRow :: "int \<Rightarrow> pendingInsert \<Rightarrow> ProxyRow" where
  "insertedRow subID p =
     (let e = piEntry p in
      defaultRow\<lparr>cAddress := eAddr e, cProtocol := eProto e, cSource := SourceSubscription, cSubscriptionID := subID,
        cRegionSource := ''auto'', cStatus := ''disabled'', cDualProtocol := intOfBool (eDual e),
        cUserPaused := piUserPaused p, cProxyUsername := eUsername e, cProxyPassword := ePassword e,
        cNodeKey := eNodeKey e\<rparr>)"

definition insertConflict :: "ProxyRow \<Rightarrow> ProxyRow \<Rightarrow> ProxyRow" where
  "insertConflict new old = old\<lparr>cProtocol := cProtocol new,
     cRegionSource := (if cRegionSource old = [] then cRegionSource new else cRegionSource old),
     cStatus := ''disabled'', cDualProtocol := cDualProtocol new, cUserPaused := cUserPaused new,
     cProxyUsername := cProxyUsername new, cProxyPassword := cProxyPassword new,
     cNodeKey := (if cNodeKey new \<noteq> [] then cNodeKey new else cNodeKey old)\<rparr>"

text \<open>The struct with every field at its zero value.\<close>

definition zeroProxy :: Proxy where
  "zeroProxy = \<lparr>pID = 0, pAddress = [], pProtocol = [], pRegion = [], pRegionSource = [], pNote = [], pExitIP = [],
     pExitLocation = [], pLatency = 0, pQualityGrade = [], pUseCount = 0, pSuccessCount = 0, pFailCount = 0,
     pLastUsed = None, pLastCheck = None, pExitCheckedAt = None, pDisabledAt = None, pCreatedAt = 0, pStatus = [],
     pUserPaused = False, pSource = [], pSubscriptionID = 0, pIPAPIIsScore = 0, pIPAPIFlags = [],
     pIPAPIFlagsSeen = False, pStarred = False, pCFBlocked = 0, pDualProtocol = False, pAIReachability = [],
     pUsername = [], pPassword = [], pNodeKey = []\<rparr>"

definition entryProxy :: "int \<Rightarrow> int \<Rightarrow> string \<Rightarrow> int \<Rightarrow> subscriptionProxyEntry \<Rightarrow> Proxy" where
  "entryProxy subID i status userPaused e = zeroProxy\<lparr>pID := i, pAddress := eAddr e, pProtocol := eProto e,
     pStatus := status, pSource := SourceSubscription, pSubscriptionID := subID, pDualProtocol := eDual e,
     pUserPaused := (userPaused = 1), pUsername := eUsername e, pPassword := ePassword e, pNodeKey := eNodeKey e\<rparr>"

definition insertEntry :: "int \<Rightarrow> pendingInsert \<Rightarrow> (nat \<times> Proxy) db_op" where
  "insertEntry subID p =
     bindOp (upsertProxy (insertedRow subID p) insertConflict) (\<lambda>u.
       bindOp (querySQL (\<lambda>d. find (\<lambda>r. rowIdentity r = (eAddr (piEntry p), SourceSubscription, subID)) (proxies d)))
         (\<lambda>found. case found of
            None \<Rightarrow> failOp ErrNoRows
          | Some r \<Rightarrow> returnOp (piIndex p, entryProxy subID (cID r) ''disabled'' (piUserPaused p) (piEntry p))))"

fun mapOp :: "('a \<Rightarrow> 'b db_op) \<Rightarrow> 'a list \<Rightarrow> 'b list db_op" where
  "mapOp f [] = returnOp []"
| "mapOp f (x # xs) = bindOp (f x) (\<lambda>y. bindOp (mapOp f xs) (\<lambda>ys. returnOp (y # ys)))"

definition keyedProxies :: "int \<Rightarrow> keyedUpdate list \<Rightarrow> (nat \<times> Proxy) list" where
  "keyedProxies subID kus =
     map (\<lambda>ku. (kuIndex ku, entryProxy subID (kuID ku) (kuStatus ku) (kuUserPaused ku) (kuEntry ku))) kus"

definition byIndex :: "nat \<Rightarrow> (nat \<times> Proxy) list \<Rightarrow> Proxy list" where
  "byIndex n ps = map (\<lambda>i. case map_of ps i of Some p \<Rightarrow> p | None \<Rightarrow> zeroProxy) [0..<n]"

text \<open>The statements that change rows, once the old rows are read.\<close>

definition replaceRows ::
    "int \<Rightarrow> subscriptionProxyEntry list \<Rightarrow> string \<Rightarrow> ProxyRow list \<Rightarrow> ProxyRow list \<Rightarrow> Proxy list db_op" where
  "replaceRows subID es status pauseRows mine =
     (let kus = keyedUpdates status es pauseRows mine; ins = pendingInserts es pauseRows mine in
      bindOp (forOp (\<lambda>r. bindOp (deleteProxies (\<lambda>d r'. cID r' = cID r)) (\<lambda>n. returnOp ())) (filter (staleRow es) mine)) (\<lambda>u1.
      bindOp (forOp (\<lambda>ku. bindOp (updateProxies (\<lambda>d r. cID r = kuID ku) (\<lambda>d. preUpdate ku)) (\<lambda>n. returnOp ())) kus) (\<lambda>u2.
      bindOp (forOp (\<lambda>ku. bindOp (updateProxies (\<lambda>d r. cID r = kuID ku) (\<lambda>d r. r\<lparr>cAddress := eAddr (kuEntry ku)\<rparr>))
        (\<lambda>n. returnOp ())) kus) (\<lambda>u3.
      bindOp (mapOp (insertEntry subID) ins) (\<lambda>ips.
      bindOp (updateSubscriptions (\<lambda>s. sID s = subID)
        (\<lambda>d s. s\<lparr>sLastFetch := Some (now d), sProxyCount := int (length es)\<rparr>)) (\<lambda>updated.
      if updated = 0 then failOp (ErrRejected ''subscription not found'')
      else returnOp (byIndex (length es) (keyedProxies subID kus @ ips))))))))"

definition replaceSubscriptionProxies :: "int \<Rightarrow> subscriptionProxyEntry list \<Rightarrow> Proxy list db_op" where
  "replaceSubscriptionProxies subID entries =
     (let es = normalizeSubscriptionProxyEntries entries in
      withTx (
        bindOp (querySQL (\<lambda>d. map_option sStatus (find (\<lambda>s. sID s = subID) (subscriptions d)))) (\<lambda>st.
        case st of
          None \<Rightarrow> failOp ErrNoRows
        | Some status \<Rightarrow>
            bindOp (querySQL (\<lambda>d. filter (ofSub subID) (proxies d))) (\<lambda>pauseRows.
            bindOp (querySQL (\<lambda>d. filter (ofSub subID) (proxies d))) (\<lambda>mine.
            replaceRows subID es status pauseRows mine)))))"

end
