(* ===== verification/StorageHistory.thy ===== *)
theory StorageHistory
  imports SubscriptionStore
begin

text \<open>
  Every operation of the package \<open>storage\<close> that writes, and the transaction of \<open>SubscriptionStore\<close>, as one
  datatype, and what holds of all of them: an error leaves the tables as they were, and every history keeps the invariant of the
  tables.
\<close>

datatype node_op =
    OpAddProxy string string
  | OpAddProxies "Proxy list"
  | OpAddProxyWithSource string string string "int list"
  | OpDelete string
  | OpDeleteProxyByID int
  | OpDeleteBySubscriptionID int
  | OpDeleteBySource string
  | OpDeleteManualProxy string
  | OpUpdateExitInfo string ExitObservation
  | OpUpdateProxyExitInfo int ExitObservation
  | OpUpdateSubscriptionProxyExitInfo string int ExitObservation
  | OpUpdateDisabledSubscriptionProxyExitInfo string int ExitObservation
  | OpRecoverSubscriptionProxyWithExitInfo string int ExitObservation
  | OpSetProxyDualProtocol int bool

datatype state_op =
    OpSetProxyStarred int bool
  | OpRecordProxyUse string bool
  | OpRecordProxyUseByID int bool
  | OpRecordProxyFailureByID int int
  | OpDisableBlockedCountries "string list"
  | OpDisableNotAllowedCountries "string list"
  | OpDisableProxy string
  | OpDisableProxyByID int
  | OpDisableSubscriptionProxy string int
  | OpEnableProxy string
  | OpEnableProxyByID int
  | OpEnableSubscriptionProxy string int
  | OpPauseProxy string
  | OpPauseProxyByID int
  | OpUnpauseProxy string
  | OpUnpauseProxyByID int

datatype route_op =
    OpApplyProbeObservation RouteIdentity ExitObservation
  | OpRecordForwardFailure RouteIdentity int
  | OpRecordForwardSuccess RouteIdentity
  | OpRecordProbeFailure RouteIdentity ExitObservation int
  | OpRecoverProxyFromProbe RouteIdentity ExitObservation
  | OpRecordDisabledProbeFailure RouteIdentity ExitObservation
  | OpDisableRouteForPolicy RouteIdentity

datatype manual_op =
    OpAddManualProxy string string string string
  | OpAddManualProxyWithCredentials string string string string string string
  | OpAddManualProxyWithNodeKey string string string string string
  | OpAddManualProxies "Proxy list" string string
  | OpUpdateProxyRegion string string bool
  | OpUpdateProxyRegionByID int string bool
  | OpUpdateProxyNote string string
  | OpUpdateProxyNoteByID int string

datatype sub_op =
    OpAddSubscription string string string string int string
  | OpAddContributedSubscription string string int
  | OpUpdateSubscription int string string string string int string
  | OpDeleteSubscription int
  | OpUpdateSubscriptionFetch int int
  | OpUpdateSubscriptionAttempt int
  | OpUpdateSubscriptionSuccess int
  | OpToggleSubscription int
  | OpPauseSubscription int
  | OpReplaceSubscriptionProxies int "subscriptionProxyEntry list"

datatype store_op =
    NodeOp node_op
  | StateOp state_op
  | RouteOp route_op
  | ManualOp manual_op
  | SubOp sub_op

definition dropResult :: "'a db_op \<Rightarrow> unit db_op" where
  "dropResult m = bindOp m (\<lambda>x. returnOp ())"

fun runNodeOp :: "node_op \<Rightarrow> unit db_op" where
  "runNodeOp (OpAddProxy a p) = AddProxy a p"
| "runNodeOp (OpAddProxies ps) = AddProxies ps"
| "runNodeOp (OpAddProxyWithSource a p s i) = AddProxyWithSource a p s i"
| "runNodeOp (OpDelete a) = Delete a"
| "runNodeOp (OpDeleteProxyByID i) = DeleteProxyByID i"
| "runNodeOp (OpDeleteBySubscriptionID i) = dropResult (DeleteBySubscriptionID i)"
| "runNodeOp (OpDeleteBySource s) = dropResult (DeleteBySource s)"
| "runNodeOp (OpDeleteManualProxy a) = DeleteManualProxy a"
| "runNodeOp (OpUpdateExitInfo a ob) = UpdateExitInfo a ob"
| "runNodeOp (OpUpdateProxyExitInfo i ob) = UpdateProxyExitInfo i ob"
| "runNodeOp (OpUpdateSubscriptionProxyExitInfo a i ob) = UpdateSubscriptionProxyExitInfo a i ob"
| "runNodeOp (OpUpdateDisabledSubscriptionProxyExitInfo a i ob) = UpdateDisabledSubscriptionProxyExitInfo a i ob"
| "runNodeOp (OpRecoverSubscriptionProxyWithExitInfo a i ob) = RecoverSubscriptionProxyWithExitInfo a i ob"
| "runNodeOp (OpSetProxyDualProtocol i b) = SetProxyDualProtocol i b"

fun runStateOp :: "state_op \<Rightarrow> unit db_op" where
  "runStateOp (OpSetProxyStarred i b) = SetProxyStarred i b"
| "runStateOp (OpRecordProxyUse a b) = RecordProxyUse a b"
| "runStateOp (OpRecordProxyUseByID i b) = RecordProxyUseByID i b"
| "runStateOp (OpRecordProxyFailureByID i n) = RecordProxyFailureByID i n"
| "runStateOp (OpDisableBlockedCountries cs) = dropResult (DisableBlockedCountries cs)"
| "runStateOp (OpDisableNotAllowedCountries cs) = dropResult (DisableNotAllowedCountries cs)"
| "runStateOp (OpDisableProxy a) = DisableProxy a"
| "runStateOp (OpDisableProxyByID i) = DisableProxyByID i"
| "runStateOp (OpDisableSubscriptionProxy a i) = DisableSubscriptionProxy a i"
| "runStateOp (OpEnableProxy a) = EnableProxy a"
| "runStateOp (OpEnableProxyByID i) = EnableProxyByID i"
| "runStateOp (OpEnableSubscriptionProxy a i) = EnableSubscriptionProxy a i"
| "runStateOp (OpPauseProxy a) = PauseProxy a"
| "runStateOp (OpPauseProxyByID i) = PauseProxyByID i"
| "runStateOp (OpUnpauseProxy a) = UnpauseProxy a"
| "runStateOp (OpUnpauseProxyByID i) = UnpauseProxyByID i"

fun runRouteOp :: "route_op \<Rightarrow> unit db_op" where
  "runRouteOp (OpApplyProbeObservation i ob) = ApplyProbeObservation i ob"
| "runRouteOp (OpRecordForwardFailure i n) = dropResult (RecordForwardFailure i n)"
| "runRouteOp (OpRecordForwardSuccess i) = RecordForwardSuccess i"
| "runRouteOp (OpRecordProbeFailure i ob n) = dropResult (RecordProbeFailure i ob n)"
| "runRouteOp (OpRecoverProxyFromProbe i ob) = RecoverProxyFromProbe i ob"
| "runRouteOp (OpRecordDisabledProbeFailure i ob) = RecordDisabledProbeFailure i ob"
| "runRouteOp (OpDisableRouteForPolicy i) = DisableRouteForPolicy i"

fun runManualOp :: "manual_op \<Rightarrow> unit db_op" where
  "runManualOp (OpAddManualProxy a p r n) = AddManualProxy a p r n"
| "runManualOp (OpAddManualProxyWithCredentials a p r n u w) = AddManualProxyWithCredentials a p r n u w"
| "runManualOp (OpAddManualProxyWithNodeKey a p r n k) = AddManualProxyWithNodeKey a p r n k"
| "runManualOp (OpAddManualProxies ps r n) = AddManualProxies ps r n"
| "runManualOp (OpUpdateProxyRegion a r b) = UpdateProxyRegion a r b"
| "runManualOp (OpUpdateProxyRegionByID i r b) = UpdateProxyRegionByID i r b"
| "runManualOp (OpUpdateProxyNote a n) = UpdateProxyNote a n"
| "runManualOp (OpUpdateProxyNoteByID i n) = UpdateProxyNoteByID i n"

fun runSubOp :: "sub_op \<Rightarrow> unit db_op" where
  "runSubOp (OpAddSubscription n u f m r h) = dropResult (AddSubscription n u f m r h)"
| "runSubOp (OpAddContributedSubscription n u r) = dropResult (AddContributedSubscription n u r)"
| "runSubOp (OpUpdateSubscription i n u f m r h) = UpdateSubscription i n u f m r h"
| "runSubOp (OpDeleteSubscription i) = DeleteSubscription i"
| "runSubOp (OpUpdateSubscriptionFetch i n) = UpdateSubscriptionFetch i n"
| "runSubOp (OpUpdateSubscriptionAttempt i) = UpdateSubscriptionAttempt i"
| "runSubOp (OpUpdateSubscriptionSuccess i) = UpdateSubscriptionSuccess i"
| "runSubOp (OpToggleSubscription i) = dropResult (ToggleSubscription i)"
| "runSubOp (OpPauseSubscription i) = PauseSubscription i"
| "runSubOp (OpReplaceSubscriptionProxies i es) = dropResult (replaceSubscriptionProxies i es)"

fun runOp :: "store_op \<Rightarrow> unit db_op" where
  "runOp (NodeOp p) = runNodeOp p"
| "runOp (StateOp p) = runStateOp p"
| "runOp (RouteOp p) = runRouteOp p"
| "runOp (ManualOp p) = runManualOp p"
| "runOp (SubOp p) = runSubOp p"

section \<open>Errors leave the tables unchanged\<close>

lemma atomic_dropResult: "atomicOp m \<Longrightarrow> atomicOp (dropResult m)"
  unfolding dropResult_def by (rule atomic_bind_return)

lemma atomic_honest: "honest m \<Longrightarrow> atomicOp m"
  by (simp add: honest_def)

lemma atomic_affecting: "honest m \<Longrightarrow> atomicOp (affecting m)"
  unfolding affecting_def by (rule honest_bind_require)

lemma atomic_upsertProxy: "atomicOp (upsertProxy r f)"
  unfolding upsertProxy_def by (rule atomic_exec)

lemma unique_address_single:
  assumes "db_inv d"
  shows "countRows (\<lambda>r. uniqueAddressProxyIDWhere a d r \<and> Q r) (proxies d) \<le> 1"
proof -
  have dist: "distinct (map cID (proxies d))" using assms by (simp add: db_inv_def)
  have le: "length (filter (\<lambda>r. P r \<and> Q r) xs) \<le> length (filter P xs)" for P and xs :: "ProxyRow list"
    by (induction xs) auto
  show ?thesis
  proof (cases "\<exists>m. filter (\<lambda>m. cAddress m = a) (proxies d) = [m]")
    case True
    then obtain m where "filter (\<lambda>m. cAddress m = a) (proxies d) = [m]" by blast
    then have "uniqueAddressProxyIDWhere a d = (\<lambda>r. cID r = cID m)"
      by (simp add: uniqueAddressProxyIDWhere_def fun_eq_iff)
    then show ?thesis
      using distinct_filter_le1 [OF dist, of "cID m"] le [of "\<lambda>r. cID r = cID m" "proxies d"]
      by (simp add: countRows_def)
  next
    case False
    then have "\<not> uniqueAddressProxyIDWhere a d r" for r
      by (auto simp: uniqueAddressProxyIDWhere_def split: list.splits)
    then show ?thesis by (simp add: countRows_def)
  qed
qed

lemma uniqueAddress_dropFault [simp]:
  "uniqueAddressProxyIDWhere a (dropFault d) = uniqueAddressProxyIDWhere a d"
  by (simp add: uniqueAddressProxyIDWhere_def fun_eq_iff)

lemma updateProxies_count:
  "updateProxies P f d = (Inr n, d1) \<Longrightarrow> n = countRows (P (dropFault d)) (proxies d)"
  by (auto simp: updateProxies_def execSQL_unfold Let_def split: if_splits)

lemma deleteProxies_count:
  "deleteProxies P d = (Inr n, d1) \<Longrightarrow> n = countRows (P (dropFault d)) (proxies d)"
  by (auto simp: deleteProxies_def execSQL_unfold Let_def split: if_splits)

lemma atomic_finish:
  assumes "honest m" "\<And>d n d1. db_inv d \<Longrightarrow> m d = (Inr n, d1) \<Longrightarrow> 0 \<le> n \<and> n \<le> 1"
  shows "atomicOp (finishAddressOnlyMutation a m)"
proof (rule atomicI)
  fix d e d2
  assume inv: "db_inv d" and "finishAddressOnlyMutation a m d = (Inl e, d2)"
  from this(2) [unfolded finishAddressOnlyMutation_def] show "tables d2 = tables d"
  proof (cases rule: bindOp_InlE)
    case 1
    then show ?thesis using assms(1) inv atomicD unfolding honest_def by blast
  next
    case (2 n d1)
    then have n: "n = 0" using assms(2) [OF inv 2(1)] by (auto simp: returnOp_def split: if_splits)
    then have t: "tables d1 = tables d" using 2(1) assms(1) unfolding honest_def by blast
    have "readOnly (bindOp (GetProxyByAddress a) (\<lambda>p. failOp ErrNoRows :: unit db_op))"
      by (intro readonly_bind readonly_lookups readonly_fail)
    with 2(2) n t show ?thesis by (simp add: readOnly_def) (metis snd_conv)
  qed
qed

lemma countRows_nonneg: "0 \<le> countRows P rs"
  by (simp add: countRows_def)

lemma atomic_finish_update:
  "atomicOp (finishAddressOnlyMutation a (updateProxies (\<lambda>d r. uniqueAddressProxyIDWhere a d r \<and> Q d r) f))"
  using unique_address_single
  by (intro atomic_finish honest_updateProxies) (auto dest!: updateProxies_count simp: countRows_nonneg)

lemma atomic_finish_update':
  "atomicOp (finishAddressOnlyMutation a (updateProxies (uniqueAddressProxyIDWhere a) f))"
  using atomic_finish_update [where Q = "\<lambda>d r. True"] by simp

lemma atomic_finish_delete:
  "atomicOp (finishAddressOnlyMutation a (deleteProxies (uniqueAddressProxyIDWhere a)))"
  using unique_address_single [where Q = "\<lambda>r. True"]
  by (intro atomic_finish honest_deleteProxies) (auto dest!: deleteProxies_count simp: countRows_nonneg)

lemma onUnique_InlE:
  assumes "onUnique m d = (Inl e, d1)"
  obtains e' where "m d = (Inl e', d1)"
  using assms unfolding onUnique_def duplicateSubscription_def failOp_def
  by (cases "m d"; cases "fst (m d)") (auto split: if_splits)

lemma onUnique_InrD: "onUnique m d = (Inr x, d1) \<Longrightarrow> m d = (Inr x, d1)"
  unfolding onUnique_def duplicateSubscription_def failOp_def
  by (cases "m d"; cases "fst (m d)") (auto split: if_splits)

lemma onUnique_atomic: "atomicOp m \<Longrightarrow> atomicOp (onUnique m)"
  by (rule atomicI, erule onUnique_InlE, erule (2) atomicD)

lemma onUnique_honest:
  assumes "honest m"
  shows "honest (onUnique m)"
  unfolding honest_def
proof (intro conjI allI impI)
  show "atomicOp (onUnique m)" by (rule onUnique_atomic [OF atomic_honest [OF assms]])
  fix d d1
  assume "onUnique m d = (Inr 0, d1)"
  from onUnique_InrD [OF this] assms show "tables d1 = tables d" unfolding honest_def by blast
qed

lemma atomic_insertSubscription: "atomicOp (insertSubscription s)"
  unfolding insertSubscription_def by (rule atomic_exec)

lemma atomic_AddContributed: "atomicOp (AddContributedSubscription n u r)"
proof (rule atomicI)
  fix d e d1
  assume inv: "db_inv d" and *: "AddContributedSubscription n u r d = (Inl e, d1)"
  let ?q = "querySQL (\<lambda>d. list_ex (\<lambda>s. sURL s = u \<and> sURL s \<noteq> []) (subscriptions d)) d"
  have q: "snd ?q = dropFault d" by (simp add: querySQL_unfold)
  have inv': "db_inv (dropFault d)" using inv db_inv_tables [of "dropFault d" d] by simp
  consider "u = []" "tables d1 = tables d" | "d1 = dropFault d"
    | s where "onUnique (insertSubscription s) (dropFault d) = (Inl e, d1)"
    using * q
    by (auto simp: AddContributedSubscription_def failOp_def duplicateSubscription_def
        split: if_splits prod.splits sum.splits bool.splits)
  then show "tables d1 = tables d"
  proof cases
    case 3
    from atomicD [OF onUnique_atomic [OF atomic_insertSubscription] inv' 3] show ?thesis by simp
  qed simp_all
qed

lemmas atomic_steps = atomic_dropResult atomic_affecting atomic_upsertProxy atomic_finish_update'
  atomic_finish_update atomic_finish_delete atomic_withTx atomic_return atomic_fail atomic_bind_return
  atomic_updateReturning onUnique_atomic atomic_insertSubscription atomic_AddContributed
  honest_updateProxies honest_deleteProxies honest_updateSubscriptions onUnique_honest
  atomic_honest [OF honest_updateProxies] atomic_honest [OF honest_deleteProxies]

lemma runNodeOp_atomic: "atomicOp (runNodeOp p)"
  by (cases p) (simp_all add: AddProxy_def AddProxies_def AddProxyWithSource_def Let_def Delete_def
      DeleteProxyByID_def DeleteBySubscriptionID_def DeleteBySource_def DeleteManualProxy_def
      UpdateExitInfo_def UpdateProxyExitInfo_def UpdateSubscriptionProxyExitInfo_def
      UpdateDisabledSubscriptionProxyExitInfo_def RecoverSubscriptionProxyWithExitInfo_def
      SetProxyDualProtocol_def updateExitInfoWhere_def updateExitInfoWhereResult_def atomic_steps)

lemma atomic_useByID: "atomicOp (RecordProxyUseByID i b)"
  by (simp add: RecordProxyUseByID_def atomic_steps)

lemma runStateOp_atomic: "atomicOp (runStateOp p)"
  by (cases p) (simp_all add: SetProxyStarred_def RecordProxyUse_def atomic_useByID
      atomic_readonly_bind readonly_lookups RecordProxyFailureByID_def RecordProxyFailureByIDWithStatus_def
      rejectThreshold_def DisableBlockedCountries_def DisableNotAllowedCountries_def DisableProxy_def
      DisableProxyByID_def DisableSubscriptionProxy_def disableProxyWhere_def disableProxyWhereResult_def
      EnableProxy_def EnableProxyByID_def EnableSubscriptionProxy_def enableProxyWhere_def
      enableProxyWhereResult_def PauseProxy_def PauseProxyByID_def UnpauseProxy_def UnpauseProxyByID_def
      atomic_steps)

lemma runRouteOp_atomic: "atomicOp (runRouteOp p)"
  by (cases p) (simp_all add: ApplyProbeObservation_def RecordForwardFailure_def RecordForwardSuccess_def
      RecordProbeFailure_def RecoverProxyFromProbe_def RecordDisabledProbeFailure_def
      DisableRouteForPolicy_def rejectThreshold_def atomic_steps)

lemma runManualOp_atomic: "atomicOp (runManualOp p)"
  by (cases p) (simp_all add: AddManualProxy_def AddManualProxyWithCredentials_def
      AddManualProxyWithNodeKey_def AddManualProxies_def addManualProxyExec_def Let_def
      UpdateProxyRegion_def UpdateProxyRegionByID_def UpdateProxyNote_def UpdateProxyNoteByID_def
      atomic_steps)

lemma runSubOp_atomic: "atomicOp (runSubOp p)"
  by (cases p) (simp_all add: AddSubscription_def UpdateSubscription_def DeleteSubscription_def
      UpdateSubscriptionFetch_def UpdateSubscriptionAttempt_def UpdateSubscriptionSuccess_def
      ToggleSubscription_def PauseSubscription_def replaceSubscriptionProxies_def Let_def atomic_steps)

lemma runOp_atomic: "atomicOp (runOp p)"
  by (cases p) (simp_all add: runNodeOp_atomic runStateOp_atomic runRouteOp_atomic runManualOp_atomic
      runSubOp_atomic)

section \<open>Every operation keeps the invariant of the tables\<close>

definition keepsInv :: "'a db_op \<Rightarrow> bool" where
  "keepsInv m \<longleftrightarrow> (\<forall>d. db_inv d \<longrightarrow> db_inv (snd (m d)))"

lemma keepsInvI: "(\<And>d. db_inv d \<Longrightarrow> db_inv (snd (m d))) \<Longrightarrow> keepsInv m"
  by (simp add: keepsInv_def)

lemma db_inv_dropFault [simp]: "db_inv (dropFault d) = db_inv d"
  by (rule db_inv_tables) simp

lemma keeps_readOnly: "readOnly m \<Longrightarrow> keepsInv m"
  unfolding readOnly_def keepsInv_def using db_inv_tables by blast

lemma keeps_bind:
  assumes "keepsInv m" "\<And>x. keepsInv (k x)"
  shows "keepsInv (bindOp m k)"
proof (rule keepsInvI)
  fix d
  assume "db_inv d"
  then have "db_inv (snd (m d))" using assms(1) by (simp add: keepsInv_def)
  then show "db_inv (snd (bindOp m k d))"
    using assms(2) by (cases "m d"; cases "fst (m d)") (auto simp: bindOp_def keepsInv_def)
qed

lemma keeps_exec:
  assumes "\<And>d x d1. db_inv d \<Longrightarrow> f d = Inr (x, d1) \<Longrightarrow> db_inv d1"
  shows "keepsInv (execSQL f)"
proof (rule keepsInvI)
  fix d
  assume "db_inv d"
  then have i: "db_inv (dropFault d)" by simp
  show "db_inv (snd (execSQL f d))"
  proof (cases "f (dropFault d)")
    case (Inr b)
    then obtain x d1 where f: "f (dropFault d) = Inr (x, d1)" by (cases b) auto
    show ?thesis using assms [OF i f] i f by (simp add: execSQL_unfold)
  qed (use i in \<open>simp add: execSQL_unfold\<close>)
qed

lemma keeps_withTx:
  assumes "keepsInv m"
  shows "keepsInv (withTx m)"
proof (rule keepsInvI)
  fix d
  assume "db_inv d"
  then have i: "db_inv (dropFault d)" by simp
  let ?b = "bindOp m (\<lambda>x. bindOp (querySQL (\<lambda>d. ())) (\<lambda>u. returnOp x))"
  have "keepsInv ?b"
    by (intro keeps_bind assms keeps_readOnly readonly_query readonly_return)
  then have b: "db_inv (snd (?b (dropFault d)))" using i by (simp add: keepsInv_def)
  have r: "db_inv (rollbackTo (dropFault d) x)" for x
    using i db_inv_tables [of "rollbackTo (dropFault d) x" "dropFault d"] by simp
  show "db_inv (snd (withTx m d))"
  proof (cases "?b (dropFault d)")
    case (Pair y d1)
    with b have "db_inv d1" by simp
    with i r Pair show ?thesis by (cases y) (simp_all add: withTx_unfold)
  qed
qed

lemma keeps_updateProxies:
  assumes "\<And>d r. cID (f d r) = cID r"
  shows "keepsInv (updateProxies P f)"
  unfolding updateProxies_def Let_def
proof (rule keeps_exec)
  fix d d1 :: DB and x
  assume i: "db_inv d" and "(if identitiesUnique (updateRows (P d) (f d) (proxies d))
     then Inr (countRows (P d) (proxies d), d\<lparr>proxies := updateRows (P d) (f d) (proxies d)\<rparr>)
     else Inl ErrUniqueConstraint) = Inr (x, d1)"
  then have d1: "identitiesUnique (updateRows (P d) (f d) (proxies d))"
    "d1 = d\<lparr>proxies := updateRows (P d) (f d) (proxies d)\<rparr>" by (auto split: if_splits)
  have "map cID (updateRows (P d) (f d) rs) = map cID rs" for rs
    by (simp add: updateRows_def assms)
  moreover have "\<forall>r\<in>set (updateRows (P d) (f d) (proxies d)). 0 < cID r \<and> cID r < nextProxyID d"
    using i by (auto simp: updateRows_def db_inv_def assms)
  ultimately show "db_inv d1" using i d1 by (simp add: db_inv_def)
qed

lemma keeps_updateReturning:
  assumes "\<And>d r. cID (f d r) = cID r"
  shows "keepsInv (updateReturning P f)"
proof (rule keepsInvI)
  fix d
  assume i: "db_inv d"
  have "snd (updateReturning P f d) = snd (updateProxies P f d)"
    by (simp add: updateReturning_def updateProxies_def bindOp_def execSQL_unfold Let_def failOp_def
        returnOp_def)
  with i keeps_updateProxies [OF assms, of P] show "db_inv (snd (updateReturning P f d))"
    by (simp add: keepsInv_def)
qed

lemma keeps_deleteProxies: "keepsInv (deleteProxies P)"
  unfolding deleteProxies_def
  by (rule keeps_exec) (auto simp: db_inv_def identitiesUnique_def distinct_map_filter)

lemma identities_append:
  "identitiesUnique ps \<Longrightarrow> rowIdentity r \<notin> set (map rowIdentity ps) \<Longrightarrow> identitiesUnique (ps @ [r])"
  by (simp add: identitiesUnique_def)

lemma keeps_upsertProxy:
  assumes "\<And>old. cID (onC r old) = cID old" "\<And>old. rowIdentity (onC r old) = rowIdentity old"
  shows "keepsInv (upsertProxy r onC)"
  unfolding upsertProxy_def
proof (rule keeps_exec)
  fix d d1 :: DB and x
  let ?u = "updateRows (\<lambda>old. rowIdentity old = rowIdentity r) (onC r) (proxies d)"
  let ?new = "r\<lparr>cID := nextProxyID d, cCreatedAt := now d\<rparr>"
  assume i: "db_inv d" and *: "(if rowIdentity r \<in> set (map rowIdentity (proxies d))
     then Inr ((), d\<lparr>proxies := ?u\<rparr>)
     else Inr ((), d\<lparr>proxies := proxies d @ [?new], nextProxyID := nextProxyID d + 1\<rparr>)) = Inr (x, d1)"
  have m: "map cID ?u = map cID (proxies d)" "map rowIdentity ?u = map rowIdentity (proxies d)"
    by (simp_all add: updateRows_def assms)
  have b: "\<forall>r\<in>set ?u. 0 < cID r \<and> cID r < nextProxyID d"
    using i by (auto simp: updateRows_def db_inv_def assms)
  have n: "rowIdentity ?new = rowIdentity r" by (simp add: rowIdentity_def)
  show "db_inv d1"
  proof (cases "rowIdentity r \<in> set (map rowIdentity (proxies d))")
    case True
    with * have "d1 = d\<lparr>proxies := ?u\<rparr>" by simp
    with i m b show ?thesis by (simp add: db_inv_def identitiesUnique_def)
  next
    case False
    with * have "d1 = d\<lparr>proxies := proxies d @ [?new], nextProxyID := nextProxyID d + 1\<rparr>" by simp
    with False i n identities_append [of "proxies d" ?new] show ?thesis
      by (auto simp: db_inv_def)
  qed
qed

lemma keeps_subscription_updates:
  assumes "\<And>d s. sID (f d s) = sID s"
  shows "keepsInv (updateSubscriptions P f)"
  unfolding updateSubscriptions_def Let_def
proof (rule keeps_exec)
  fix d d1 :: DB and x
  assume i: "db_inv d" and "(if subscriptionsUnique (updateRows P (f d) (subscriptions d))
     then Inr (countRows P (subscriptions d), d\<lparr>subscriptions := updateRows P (f d) (subscriptions d)\<rparr>)
     else Inl ErrUniqueConstraint) = Inr (x, d1)"
  then have d1: "subscriptionsUnique (updateRows P (f d) (subscriptions d))"
    "d1 = d\<lparr>subscriptions := updateRows P (f d) (subscriptions d)\<rparr>" by (auto split: if_splits)
  have "map sID (updateRows P (f d) rs) = map sID rs" for rs
    by (simp add: updateRows_def assms)
  moreover have "\<forall>s\<in>set (updateRows P (f d) (subscriptions d)). 0 < sID s \<and> sID s < nextSubID d"
    using i by (auto simp: updateRows_def db_inv_def assms)
  ultimately show "db_inv d1" using i d1 by (simp add: db_inv_def)
qed

lemma keeps_insertSubscription: "keepsInv (insertSubscription s)"
  unfolding insertSubscription_def Let_def
  by (rule keeps_exec) (fastforce simp: db_inv_def split: if_splits)

lemma keeps_deleteSubscriptions: "keepsInv (deleteSubscriptions P)"
proof -
  have "distinct (filter Q (map g ss)) \<Longrightarrow> distinct (filter Q (map g (filter R ss)))" for Q R and g :: "Subscription \<Rightarrow> string" and ss
    by (induction ss) auto
  then show ?thesis
    unfolding deleteSubscriptions_def
    by (intro keeps_exec) (auto simp: db_inv_def subscriptionsUnique_def distinct_map_filter)
qed

lemma set_columns_id [simp]:
  "cID (setRisk ob r) = cID r" "cID (setRegion b ob r) = cID r" "cID (setLatency b ob r) = cID r"
  "cID (setExit b ob r) = cID r" "cID (setExitCheckedAt b d r) = cID r"
  by (simp_all add: setRisk_def setRegion_def setLatency_def setExit_def setExitCheckedAt_def Let_def)

lemma keeps_return: "keepsInv (returnOp x)" and keeps_fail: "keepsInv (failOp e)"
  by (simp_all add: keepsInv_def returnOp_def failOp_def)

lemma keeps_affecting: "keepsInv m \<Longrightarrow> keepsInv (affecting m)"
  unfolding affecting_def requireRowsAffected_def
  by (rule keeps_bind) (auto simp: keeps_return keeps_fail)

lemma keeps_finish: "keepsInv m \<Longrightarrow> keepsInv (finishAddressOnlyMutation a m)"
  unfolding finishAddressOnlyMutation_def
  by (rule keeps_bind) (auto intro!: keeps_bind keeps_return keeps_fail keeps_readOnly [OF readonly_lookups(2)])

lemma keeps_onUnique: "keepsInv m \<Longrightarrow> keepsInv (onUnique m)"
proof (rule keepsInvI)
  fix d
  assume "keepsInv m" "db_inv d"
  then have "db_inv (snd (m d))" by (simp add: keepsInv_def)
  moreover have "snd (onUnique m d) = snd (m d)"
    by (cases "m d"; cases "fst (m d)") (auto simp: onUnique_def duplicateSubscription_def failOp_def)
  ultimately show "db_inv (snd (onUnique m d))" by simp
qed

lemma keeps_forOp: "(\<And>x. keepsInv (f x)) \<Longrightarrow> keepsInv (forOp f xs)"
  by (induction xs) (auto intro: keeps_return keeps_bind)

lemma keeps_disableCodes: "keepsInv (disableCodes cs n)"
  by (induction cs arbitrary: n) (auto intro!: keeps_return keeps_bind keeps_updateProxies)

lemma keeps_dropResult: "keepsInv m \<Longrightarrow> keepsInv (dropResult m)"
  unfolding dropResult_def by (auto intro: keeps_bind keeps_return)

lemmas keeps_steps = keeps_return keeps_fail keeps_affecting keeps_finish keeps_onUnique keeps_forOp
  keeps_disableCodes keeps_dropResult keeps_withTx keeps_bind keeps_updateProxies
  keeps_updateReturning keeps_deleteProxies keeps_upsertProxy keeps_subscription_updates
  keeps_insertSubscription keeps_deleteSubscriptions keeps_readOnly [OF readonly_query]
  keeps_readOnly [OF readonly_lookups(2)]

lemma keeps_newRow_ignore: "keepsInv (upsertProxy (newRow a p s i) (\<lambda>new old. old))"
  by (rule keeps_upsertProxy) simp_all

lemma keeps_addManual: "keepsInv (addManualProxyExec a p r n u w k)"
  unfolding addManualProxyExec_def Let_def by (rule keeps_upsertProxy) (simp_all add: rowIdentity_def)

lemma runNodeOp_inv: "keepsInv (runNodeOp p)"
  by (cases p) (auto simp: AddProxy_def AddProxies_def AddProxyWithSource_def Let_def Delete_def
      DeleteProxyByID_def DeleteBySubscriptionID_def DeleteBySource_def DeleteManualProxy_def
      UpdateExitInfo_def UpdateProxyExitInfo_def UpdateSubscriptionProxyExitInfo_def
      UpdateDisabledSubscriptionProxyExitInfo_def RecoverSubscriptionProxyWithExitInfo_def
      SetProxyDualProtocol_def updateExitInfoWhere_def updateExitInfoWhereResult_def rowIdentity_def
      intro!: keeps_newRow_ignore keeps_steps)

lemma runStateOp_inv: "keepsInv (runStateOp p)"
  by (cases p) (auto simp: SetProxyStarred_def RecordProxyUse_def RecordProxyUseByID_def
      RecordProxyFailureByID_def RecordProxyFailureByIDWithStatus_def
      rejectThreshold_def DisableBlockedCountries_def DisableNotAllowedCountries_def DisableProxy_def
      DisableProxyByID_def DisableSubscriptionProxy_def disableProxyWhere_def disableProxyWhereResult_def
      EnableProxy_def EnableProxyByID_def EnableSubscriptionProxy_def enableProxyWhere_def
      enableProxyWhereResult_def PauseProxy_def PauseProxyByID_def UnpauseProxy_def UnpauseProxyByID_def
      intro!: keeps_steps)

lemma runRouteOp_inv: "keepsInv (runRouteOp p)"
  by (cases p) (auto simp: ApplyProbeObservation_def RecordForwardFailure_def RecordForwardSuccess_def
      RecordProbeFailure_def RecoverProxyFromProbe_def RecordDisabledProbeFailure_def
      DisableRouteForPolicy_def rejectThreshold_def intro!: keeps_steps)

lemma keeps_manualNodeKey: "keepsInv (AddManualProxyWithNodeKey a p r n k)"
  unfolding AddManualProxyWithNodeKey_def Let_def
  by (auto intro!: keeps_withTx keeps_bind keeps_addManual keeps_affecting keeps_updateProxies keeps_fail
      keeps_readOnly [OF readonly_query] split: prod.split)

lemma runManualOp_inv: "keepsInv (runManualOp p)"
  by (cases p) (auto simp: AddManualProxy_def AddManualProxyWithCredentials_def
      AddManualProxies_def UpdateProxyRegion_def UpdateProxyRegionByID_def UpdateProxyNote_def
      UpdateProxyNoteByID_def intro!: keeps_manualNodeKey keeps_addManual keeps_steps)

lemma keeps_AddContributed: "keepsInv (AddContributedSubscription n u r)"
proof (rule keepsInvI)
  fix d
  assume i: "db_inv d"
  let ?m = "onUnique (insertSubscription (defaultSubscription\<lparr>sName := n, sURL := u,
      sFormat := ''auto'', sRefreshMin := r, sContributed := True\<rparr>))"
  have "db_inv (snd (?m (dropFault d)))"
    using i keeps_onUnique [OF keeps_insertSubscription] by (simp add: keepsInv_def)
  then show "db_inv (snd (AddContributedSubscription n u r d))"
    using i by (auto simp: AddContributedSubscription_def failOp_def duplicateSubscription_def
        querySQL_unfold split: bool.split)
qed

lemma keeps_toggle: "keepsInv (ToggleSubscription i)"
  unfolding ToggleSubscription_def Let_def disableSubscriptionProxies_def
  by (auto intro!: keeps_withTx keeps_bind keeps_fail keeps_return keeps_updateProxies
      keeps_subscription_updates keeps_readOnly [OF readonly_query] split: option.split)

lemma row_columns_id [simp]:
  "cID (clearEvidence r) = cID r" "cID (preUpdate ku r) = cID r" "cID (insertConflict new old) = cID old"
  "rowIdentity (insertConflict new old) = rowIdentity old"
  by (simp_all add: clearEvidence_def preUpdate_def insertConflict_def rowIdentity_def Let_def)

lemma keeps_mapOp: "(\<And>x. keepsInv (f x)) \<Longrightarrow> keepsInv (mapOp f xs)"
  by (induction xs) (auto intro!: keeps_return keeps_bind)

lemma keeps_insertEntry: "keepsInv (insertEntry subID p)"
  unfolding insertEntry_def
  by (auto intro!: keeps_bind keeps_upsertProxy keeps_readOnly [OF readonly_query] keeps_fail keeps_return
      split: option.split)

lemma keeps_replaceRows: "keepsInv (replaceRows subID es status ps mine)"
  unfolding replaceRows_def Let_def
  by (intro keeps_bind keeps_forOp keeps_mapOp keeps_insertEntry keeps_deleteProxies keeps_updateProxies
      keeps_subscription_updates keeps_return) (auto intro: keeps_fail keeps_return)

lemma keeps_replace: "keepsInv (replaceSubscriptionProxies subID es)"
  unfolding replaceSubscriptionProxies_def Let_def
  by (auto intro!: keeps_withTx keeps_bind keeps_replaceRows keeps_readOnly [OF readonly_query] keeps_fail
      split: option.split)

lemma runSubOp_inv: "keepsInv (runSubOp p)"
  by (cases p) (auto simp: AddSubscription_def UpdateSubscription_def DeleteSubscription_def
      UpdateSubscriptionFetch_def UpdateSubscriptionAttempt_def UpdateSubscriptionSuccess_def
      PauseSubscription_def disableSubscriptionProxies_def requireRowsAffected_def
      intro!: keeps_AddContributed keeps_toggle keeps_replace keeps_steps)

lemma runOp_inv: "keepsInv (runOp p)"
  by (cases p) (simp_all add: runNodeOp_inv runStateOp_inv runRouteOp_inv runManualOp_inv runSubOp_inv)

section \<open>Histories of the tables\<close>

definition emptyDB :: "int \<Rightarrow> string option list \<Rightarrow> DB" where
  "emptyDB t fs = \<lparr>proxies = [], subscriptions = [], nextProxyID = 1, nextSubID = 1, now = t, faults = fs\<rparr>"

inductive db_step :: "DB \<Rightarrow> DB \<Rightarrow> bool" where
  db_run: "db_step d (snd (runOp p d))"
| db_tick: "0 \<le> k \<Longrightarrow> db_step d (d\<lparr>now := now d + k\<rparr>)"
| db_fault: "db_step d (d\<lparr>faults := fs\<rparr>)"

inductive db_reachable :: "DB \<Rightarrow> bool" where
  db_new: "db_reachable (emptyDB t fs)"
| db_next: "db_reachable d \<Longrightarrow> db_step d d1 \<Longrightarrow> db_reachable d1"

lemma db_step_inv: "db_step d d1 \<Longrightarrow> db_inv d \<Longrightarrow> db_inv d1"
proof (induction rule: db_step.induct)
  case (db_run d p)
  then show ?case using runOp_inv by (simp add: keepsInv_def)
qed (simp_all add: db_inv_def)

lemma db_reachable_inv: "db_reachable d \<Longrightarrow> db_inv d"
proof (induction rule: db_reachable.induct)
  case (db_new t fs)
  then show ?case by (simp add: emptyDB_def db_inv_def identitiesUnique_def subscriptionsUnique_def)
next
  case (db_next d d1)
  then show ?case using db_step_inv by blast
qed

end
