(* ===== verification/StorageSpec.thy ===== *)
theory StorageSpec
  imports StorageHistory
begin

text \<open>
  The contracts of the package \<open>storage\<close>: what its queries return, which rows a write may touch and
  how, how the failure threshold and the retention clock behave, and what pausing a subscription
  guarantees.
\<close>

section \<open>Row-wise effects\<close>

definition rowsRelated :: "(ProxyRow \<Rightarrow> ProxyRow \<Rightarrow> bool) \<Rightarrow> 'a db_op \<Rightarrow> bool" where
  "rowsRelated R m \<longleftrightarrow>
     (\<forall>d. list_all2 R (proxies d) (proxies (snd (m d))) \<and> subscriptions (snd (m d)) = subscriptions d)"

lemma updateRows_related:
  assumes "\<And>r. R r r" "\<And>r. P r \<Longrightarrow> R r (f r)"
  shows "list_all2 R rs (updateRows P f rs)"
  by (simp add: updateRows_def list_all2_map2 list.rel_refl assms list_all2_same)

lemma related_updateProxies:
  assumes "\<And>r. R r r" "\<And>d r. P d r \<Longrightarrow> R r (f d r)"
  shows "rowsRelated R (updateProxies P f)"
  using updateRows_related [of R] assms list.rel_refl [of R]
  by (auto simp: rowsRelated_def updateProxies_def execSQL_unfold Let_def)

lemma related_bind_return:
  assumes "rowsRelated R m" "\<And>x d. snd (k x d) = d"
  shows "rowsRelated R (bindOp m k)"
  unfolding rowsRelated_def
proof
  fix d
  have "snd (bindOp m k d) = snd (m d)"
    using assms(2) by (cases "m d"; cases "fst (m d)") (auto simp: bindOp_def)
  then show "list_all2 R (proxies d) (proxies (snd (bindOp m k d))) \<and>
      subscriptions (snd (bindOp m k d)) = subscriptions d"
    using assms(1) by (simp add: rowsRelated_def)
qed

lemma related_affecting: "rowsRelated R m \<Longrightarrow> rowsRelated R (affecting m)"
  unfolding affecting_def
  by (erule related_bind_return) (simp add: requireRowsAffected_def failOp_def returnOp_def)

lemma related_returning:
  assumes "\<And>r. R r r" "\<And>d r. P d r \<Longrightarrow> R r (f d r)"
  shows "rowsRelated R (bindOp (updateReturning P f) (\<lambda>x. returnOp (g x)))"
proof (rule related_bind_return)
  have "snd (updateReturning P f d) = snd (updateProxies P f d)" for d
    by (simp add: updateReturning_def updateProxies_def bindOp_def execSQL_unfold Let_def failOp_def
        returnOp_def)
  then show "rowsRelated R (updateReturning P f)"
    using related_updateProxies [of R P f, OF assms] by (simp add: rowsRelated_def)
qed (simp add: returnOp_def)

lemma related_refl_ops:
  assumes "\<And>r. R r r"
  shows "rowsRelated R (failOp e)" "rowsRelated R (returnOp x)"
  using assms list.rel_refl [of R] by (auto simp: rowsRelated_def failOp_def returnOp_def)

lemmas related_steps = related_updateProxies related_affecting related_returning related_refl_ops

section \<open>Write-backs name one route\<close>

fun routeOf :: "route_op \<Rightarrow> RouteIdentity" where
  "routeOf (OpApplyProbeObservation i ob) = i"
| "routeOf (OpRecordForwardFailure i n) = i"
| "routeOf (OpRecordForwardSuccess i) = i"
| "routeOf (OpRecordProbeFailure i ob n) = i"
| "routeOf (OpRecoverProxyFromProbe i ob) = i"
| "routeOf (OpRecordDisabledProbeFailure i ob) = i"
| "routeOf (OpDisableRouteForPolicy i) = i"

lemmas set_columns = setRisk_def setRegion_def setLatency_def setExit_def setExitCheckedAt_def Let_def

lemmas route_ops = ApplyProbeObservation_def RecordForwardFailure_def RecordForwardSuccess_def
  RecordProbeFailure_def RecoverProxyFromProbe_def RecordDisabledProbeFailure_def
  DisableRouteForPolicy_def rejectThreshold_def

lemma related_dropResult: "rowsRelated R m \<Longrightarrow> rowsRelated R (dropResult m)"
  unfolding dropResult_def by (erule related_bind_return) (simp add: returnOp_def)

lemma set_columns_route [simp]:
  "routeIdentityWhere i (setRisk ob r) = routeIdentityWhere i r"
  "routeIdentityWhere i (setRegion b ob r) = routeIdentityWhere i r"
  "routeIdentityWhere i (setLatency b ob r) = routeIdentityWhere i r"
  "routeIdentityWhere i (setExit b ob r) = routeIdentityWhere i r"
  "routeIdentityWhere i (setExitCheckedAt b d r) = routeIdentityWhere i r"
  by (simp_all add: set_columns routeIdentityWhere_def)

lemma route_op_rows:
  "rowsRelated (\<lambda>r r'. r' = r \<or> routeIdentityWhere (routeOf p) r \<and> routeIdentityWhere (routeOf p) r')
     (runRouteOp p)"
  by (cases p; auto simp: route_ops intro!: related_dropResult related_steps;
      simp add: routeIdentityWhere_def)

text \<open>An update that matches no row is an error, whatever the driver does.\<close>

lemma affecting_none:
  "\<forall>r\<in>set (proxies d). \<not> P (dropFault d) r \<Longrightarrow> isl (fst (affecting (updateProxies P f) d))"
  by (simp add: affecting_def bindOp_def updateProxies_def execSQL_unfold Let_def requireRowsAffected_def
      failOp_def countRows_zero)

lemma returning_none:
  "\<forall>r\<in>set (proxies d). \<not> P (dropFault d) r \<Longrightarrow>
     isl (fst (bindOp (updateReturning P f) (\<lambda>x. returnOp (g x)) d))"
  by (simp add: updateReturning_def bindOp_def execSQL_unfold Let_def failOp_def filter_empty_conv)

lemma isl_dropResult: "isl (fst (dropResult m d)) = isl (fst (m d))"
  by (cases "m d"; cases "fst (m d)") (auto simp: dropResult_def bindOp_def returnOp_def)

lemma route_op_stale:
  assumes "\<forall>r\<in>set (proxies d). \<not> routeIdentityWhere (routeOf p) r"
  shows "isl (fst (runRouteOp p d))"
  using assms
  by (cases p) (simp_all add: route_ops isl_dropResult affecting_none returning_none failOp_def)

lemma atomic_isl:
  assumes "atomicOp m" "db_inv d" "isl (fst (m d))"
  shows "tables (snd (m d)) = tables d"
proof -
  obtain e d1 where "m d = (Inl e, d1)" using assms(3) by (cases "m d"; cases "fst (m d)") auto
  with atomicD [OF assms(1,2)] show ?thesis by simp
qed

section \<open>The failure threshold\<close>

lemma filter_by_id:
  assumes "distinct (map cID rs)" "r \<in> set rs" "P r" "\<And>x. P x \<Longrightarrow> cID x = cID r"
  shows "filter P rs = [r]"
  using assms(1-3)
proof (induction rs)
  case (Cons a rs)
  show ?case
  proof (cases "a = r")
    case True
    then have "\<not> P x" if "x \<in> set rs" for x
      using Cons.prems(1) that assms(4) by (metis distinct.simps(2) image_eqI list.set_map list.simps(9))
    with True Cons.prems show ?thesis by (simp add: filter_empty_conv)
  next
    case False
    then have "r \<in> set rs" using Cons.prems by simp
    then have "cID a \<noteq> cID r" using Cons.prems(1) by auto
    then have "\<not> P a" using assms(4) by blast
    with Cons \<open>r \<in> set rs\<close> show ?thesis by simp
  qed
qed simp

lemma route_unique:
  assumes "db_inv d" "r \<in> set (proxies d)" "routeIdentityWhere i r"
  shows "filter (routeIdentityWhere i) (proxies d) = [r]"
  using assms by (intro filter_by_id) (auto simp: db_inv_def routeIdentityWhere_def)

lemma updateRows_identities:
  assumes "\<And>r. rowIdentity (f r) = rowIdentity r"
  shows "identitiesUnique (updateRows P f rs) = identitiesUnique rs"
proof -
  have "map rowIdentity (updateRows P f rs) = map rowIdentity rs"
    by (simp add: updateRows_def assms)
  then show ?thesis by (simp add: identitiesUnique_def)
qed

text \<open>The row a forwarding failure writes.\<close>

definition forwardFailed :: "int \<Rightarrow> DB \<Rightarrow> ProxyRow \<Rightarrow> ProxyRow" where
  "forwardFailed n d r = r\<lparr>cUseCount := cUseCount r + 1, cFailCount := cFailCount r + 1,
     cStatus := failureStatus n r, cLastUsed := Some (now d), cDisabledAt := failureDisabledAt n d r\<rparr>"

lemma forwardFailure_exact:
  assumes "db_inv d" "\<not> faulty d" "r \<in> set (proxies d)" "routeIdentityWhere i r" "0 < n"
  shows "RecordForwardFailure i n d =
    (Inr (cFailCount r + 1 \<ge> n \<or> cStatus r = ''disabled''),
     (dropFault d)\<lparr>proxies := updateRows (routeIdentityWhere i) (forwardFailed n d) (proxies d)\<rparr>)"
proof -
  have ff: "forwardFailed n (dropFault d) = forwardFailed n d"
    by (simp add: forwardFailed_def failureDisabledAt_def fun_eq_iff)
  have u: "identitiesUnique (updateRows (routeIdentityWhere i) (forwardFailed n d) (proxies d))"
    using assms(1) updateRows_identities [of "forwardFailed n d"]
    by (simp add: db_inv_def forwardFailed_def rowIdentity_def)
  have op: "RecordForwardFailure i n = bindOp (updateReturning (\<lambda>d r. routeIdentityWhere i r)
      (\<lambda>d r. forwardFailed n d r)) (\<lambda>status. returnOp (status = ''disabled''))"
    using assms(5) by (simp add: RecordForwardFailure_def forwardFailed_def)
  show ?thesis
    using assms(2) u ff route_unique [OF assms(1,3,4)]
    by (simp add: op updateReturning_def bindOp_def execSQL_unfold Let_def returnOp_def)
      (auto simp: forwardFailed_def failureStatus_def)
qed

lemma forwardFailed_row:
  assumes "r \<in> set rs" "routeIdentityWhere i r"
  shows "forwardFailed n d r \<in> set (updateRows (routeIdentityWhere i) (forwardFailed n d) rs)"
  using assms by (force simp: updateRows_def)

lemma forwardFailed_route [simp]: "routeIdentityWhere i (forwardFailed n d r) = routeIdentityWhere i r"
  by (simp add: forwardFailed_def routeIdentityWhere_def)

lemma db_inv_forwardFailure: "db_inv d \<Longrightarrow> db_inv (snd (RecordForwardFailure i n d))"
proof -
  assume i: "db_inv d"
  have "snd (runRouteOp (OpRecordForwardFailure i n) d) = snd (RecordForwardFailure i n d)"
    by (cases "RecordForwardFailure i n d"; cases "fst (RecordForwardFailure i n d)")
      (auto simp: dropResult_def bindOp_def returnOp_def)
  with runRouteOp_inv [of "OpRecordForwardFailure i n"] i show ?thesis by (simp add: keepsInv_def) metis
qed

text \<open>After \<open>k\<close> failures in a row the count is \<open>k\<close>, and the node is disabled from the threshold on.\<close>

lemma forwardFailure_iterate:
  assumes "db_inv d" "faults d = []" "r \<in> set (proxies d)" "routeIdentityWhere i r" "0 < n"
    "cFailCount r = 0"
  shows "\<exists>r'. r' \<in> set (proxies (((\<lambda>d. snd (RecordForwardFailure i n d)) ^^ k) d)) \<and>
    routeIdentityWhere i r' \<and> cFailCount r' = int k \<and>
    cStatus r' = (if 0 < k \<and> n \<le> int k then ''disabled'' else cStatus r) \<and>
    db_inv (((\<lambda>d. snd (RecordForwardFailure i n d)) ^^ k) d) \<and>
    faults (((\<lambda>d. snd (RecordForwardFailure i n d)) ^^ k) d) = []"
proof (induction k)
  case 0
  then show ?case using assms by auto
next
  case (Suc k)
  let ?d = "((\<lambda>d. snd (RecordForwardFailure i n d)) ^^ k) d"
  from Suc obtain r' where r': "r' \<in> set (proxies ?d)" "routeIdentityWhere i r'" "cFailCount r' = int k"
    "cStatus r' = (if 0 < k \<and> n \<le> int k then ''disabled'' else cStatus r)" "db_inv ?d" "faults ?d = []"
    by blast
  have nf: "\<not> faulty ?d" using r'(6) by (simp add: faulty_def)
  note ex = forwardFailure_exact [OF r'(5) nf r'(1,2) assms(5)]
  have st: "cStatus (forwardFailed n ?d r') = (if n \<le> int (Suc k) then ''disabled'' else cStatus r)"
    using r'(3,4) by (auto simp: forwardFailed_def failureStatus_def)
  have fc: "cFailCount (forwardFailed n ?d r') = int (Suc k)"
    using r'(3) by (simp add: forwardFailed_def)
  show ?case
    using ex db_inv_forwardFailure [OF r'(5), of i n] forwardFailed_row [OF r'(1,2), of n ?d] r'(2,6) st fc
    by (intro exI [of _ "forwardFailed n ?d r'"]) simp
qed

section \<open>What an observation may overwrite\<close>

text \<open>
  The columns an observation leaves as they are: a region set by hand, and everything the
  observation does not know.
\<close>

definition keepsKnown :: "ExitObservation \<Rightarrow> ProxyRow \<Rightarrow> ProxyRow \<Rightarrow> bool" where
  "keepsKnown ob r r' \<longleftrightarrow>
     (cRegionSource r = ''manual'' \<longrightarrow> cRegion r' = cRegion r) \<and>
     (oIPAPIIsScore ob < 0 \<longrightarrow> cIpapiisScore r' = cIpapiisScore r) \<and>
     (\<not> oIPAPIFlagsKnown ob \<longrightarrow> cIpapiFlags r' = cIpapiFlags r \<and> cIpapiFlagsSeen r' = cIpapiFlagsSeen r) \<and>
     (oCFBlocked ob < 0 \<longrightarrow> cCfBlocked r' = cCfBlocked r) \<and>
     (oAIReachability ob = [] \<longrightarrow> cAiReachability r' = cAiReachability r) \<and>
     (\<not> trustedExit ob \<longrightarrow> cExitIP r' = cExitIP r \<and> cExitLocation r' = cExitLocation r \<and>
        cExitCheckedAt r' = cExitCheckedAt r)"

lemma probe_keepsKnown:
  "rowsRelated (keepsKnown ob) (ApplyProbeObservation i ob)"
  "rowsRelated (keepsKnown ob) (RecordProbeFailure i ob n)"
  "rowsRelated (keepsKnown ob) (RecordDisabledProbeFailure i ob)"
  "rowsRelated (keepsKnown ob) (RecoverProxyFromProbe i ob)"
  "rowsRelated (keepsKnown ob) (UpdateProxyExitInfo k ob)"
  by (auto simp: route_ops UpdateProxyExitInfo_def updateExitInfoWhere_def updateExitInfoWhereResult_def
      set_columns keepsKnown_def trustedExit_def intro!: related_steps)

section \<open>The retention clock\<close>

text \<open>A failure may start the clock of a node but never restarts a running one.\<close>

definition keepsClock :: "ProxyRow \<Rightarrow> ProxyRow \<Rightarrow> bool" where
  "keepsClock r r' \<longleftrightarrow> (\<forall>t. cDisabledAt r = Some t \<longrightarrow> cDisabledAt r' = Some t)"

lemma failures_keepClock:
  "rowsRelated keepsClock (RecordForwardFailure i n)"
  "rowsRelated keepsClock (RecordProbeFailure i ob n)"
  "rowsRelated keepsClock (RecordDisabledProbeFailure i ob)"
  "rowsRelated keepsClock (RecordForwardSuccess i)"
  "rowsRelated keepsClock (ApplyProbeObservation i ob)"
  by (auto simp: route_ops set_columns keepsClock_def failureDisabledAt_def intro!: related_steps)

section \<open>Pausing a subscription\<close>

lemma withTx_InrE:
  assumes "withTx body d = (Inr x, d2)"
  obtains d1 where "body (dropFault d) = (Inr x, d1)" "d2 = dropFault d1"
proof -
  have "bindOp body (\<lambda>x. bindOp (querySQL (\<lambda>d. ())) (\<lambda>u. returnOp x)) (dropFault d) = (Inr x, d2)"
    using assms by (auto simp: withTx_unfold split: if_splits prod.splits sum.splits)
  then obtain y d1 where b: "body (dropFault d) = (Inr y, d1)"
    "bindOp (querySQL (\<lambda>d. ())) (\<lambda>u. returnOp y) d1 = (Inr x, d2)" by (rule bindOp_InrD)
  from b(2) obtain u d3 where q: "querySQL (\<lambda>d. ()) d1 = (Inr u, d3)" "returnOp y d3 = (Inr x, d2)"
    by (rule bindOp_InrD)
  have "d3 = dropFault d1" "y = x" "d2 = d3"
    using querySQL_InrD(2) [OF q(1)] q(2) by (simp_all add: returnOp_def)
  with b(1) that show thesis by simp
qed

lemma updateProxies_InrD:
  assumes "updateProxies P f d = (Inr n, d1)"
  shows "d1 = (dropFault d)\<lparr>proxies := updateRows (P (dropFault d)) (f (dropFault d)) (proxies d)\<rparr>"
  using assms by (auto simp: updateProxies_def execSQL_unfold Let_def split: if_splits)

lemma updateSubscriptions_InrD:
  assumes "updateSubscriptions P f d = (Inr n, d1)"
  shows "d1 = (dropFault d)\<lparr>subscriptions := updateRows P (f (dropFault d)) (subscriptions d)\<rparr>"
    "n = countRows P (subscriptions d)"
  using assms by (auto simp: updateSubscriptions_def execSQL_unfold Let_def split: if_splits)

lemma affecting_InrE:
  assumes "affecting m d = (Inr u, d1)"
  obtains n where "m d = (Inr n, d1)" "n \<noteq> 0"
proof -
  obtain n d2 where n: "m d = (Inr n, d2)" "requireRowsAffected n d2 = (Inr u, d1)"
    using assms unfolding affecting_def by (rule bindOp_InrD)
  then have "n \<noteq> 0" "d2 = d1"
    by (auto simp: requireRowsAffected_def failOp_def returnOp_def split: if_splits)
  with n that show thesis by simp
qed

text \<open>Every row of the subscription is disabled and the subscription itself is paused.\<close>

definition subscriptionPaused :: "int \<Rightarrow> DB \<Rightarrow> bool" where
  "subscriptionPaused i d \<longleftrightarrow>
     (\<exists>s\<in>set (subscriptions d). sID s = i) \<and>
     (\<forall>s\<in>set (subscriptions d). sID s = i \<longrightarrow> sStatus s = ''paused'') \<and>
     (\<forall>r\<in>set (proxies d). cSource r = SourceSubscription \<and> cSubscriptionID r = i \<longrightarrow>
        cStatus r = ''disabled'')"

lemma updateRows_ball: "(\<forall>x\<in>set (updateRows P f rs). Q x) \<longleftrightarrow> (\<forall>r\<in>set rs. Q (if P r then f r else r))"
  by (induction rs) (simp_all add: updateRows_def)

lemma updateRows_bex: "(\<exists>x\<in>set (updateRows P f rs). Q x) \<longleftrightarrow> (\<exists>r\<in>set rs. Q (if P r then f r else r))"
  by (induction rs) (simp_all add: updateRows_def)

lemma disableSubscription_rows:
  assumes "disableSubscriptionProxies i d = (Inr n, d1)"
  shows "\<forall>r\<in>set (proxies d1). cSource r = SourceSubscription \<and> cSubscriptionID r = i \<longrightarrow>
      cStatus r = ''disabled''" "subscriptions d1 = subscriptions d"
proof -
  let ?P = "\<lambda>r. cSource r = SourceSubscription \<and> cSubscriptionID r = i \<and> cStatus r \<noteq> ''disabled''"
  have d1: "proxies d1 = updateRows ?P (\<lambda>r. r\<lparr>cStatus := ''disabled''\<rparr>) (proxies d)"
    "subscriptions d1 = subscriptions d"
    using updateProxies_InrD [OF assms [unfolded disableSubscriptionProxies_def]] by simp_all
  show "subscriptions d1 = subscriptions d" by (rule d1(2))
  show "\<forall>r\<in>set (proxies d1). cSource r = SourceSubscription \<and> cSubscriptionID r = i \<longrightarrow>
      cStatus r = ''disabled''"
    unfolding d1(1) updateRows_ball by simp
qed

lemma paused_rows:
  assumes "countRows (\<lambda>s. sID s = i) ss \<noteq> 0"
    and "ss' = updateRows (\<lambda>s. sID s = i) (\<lambda>s. s\<lparr>sStatus := ''paused''\<rparr>) ss"
  shows "\<exists>s\<in>set ss'. sID s = i" "\<forall>s\<in>set ss'. sID s = i \<longrightarrow> sStatus s = ''paused''"
proof -
  obtain s where "s \<in> set ss" "sID s = i" using assms(1) countRows_zero [of "\<lambda>s. sID s = i" ss] by auto
  then show "\<exists>s\<in>set ss'. sID s = i" unfolding assms(2) updateRows_bex by (intro bexI [of _ s]) simp_all
  show "\<forall>s\<in>set ss'. sID s = i \<longrightarrow> sStatus s = ''paused''" unfolding assms(2) updateRows_ball by simp
qed

lemma pauseSubscription_effect:
  assumes "PauseSubscription i d = (Inr u, d2)"
  shows "subscriptionPaused i d2"
proof -
  from assms [unfolded PauseSubscription_def] obtain d1 where
    b: "bindOp (affecting (updateSubscriptions (\<lambda>s. sID s = i) (\<lambda>d s. s\<lparr>sStatus := ''paused''\<rparr>)))
       (\<lambda>u. bindOp (disableSubscriptionProxies i) (\<lambda>n. returnOp ())) (dropFault d) = (Inr u, d1)"
    and d2: "d2 = dropFault d1" by (rule withTx_InrE)
  from b obtain v da where a: "affecting (updateSubscriptions (\<lambda>s. sID s = i) (\<lambda>d s. s\<lparr>sStatus := ''paused''\<rparr>))
      (dropFault d) = (Inr v, da)"
    and k: "bindOp (disableSubscriptionProxies i) (\<lambda>n. returnOp ()) da = (Inr u, d1)" by (rule bindOp_InrD)
  from k obtain n db where n: "disableSubscriptionProxies i da = (Inr n, db)" "returnOp () db = (Inr u, d1)"
    by (rule bindOp_InrD)
  from a obtain m where m: "updateSubscriptions (\<lambda>s. sID s = i) (\<lambda>d s. s\<lparr>sStatus := ''paused''\<rparr>)
      (dropFault d) = (Inr m, da)" "m \<noteq> 0" by (rule affecting_InrE)
  have s: "subscriptions da = updateRows (\<lambda>s. sID s = i) (\<lambda>s. s\<lparr>sStatus := ''paused''\<rparr>) (subscriptions d)"
    "countRows (\<lambda>s. sID s = i) (subscriptions d) \<noteq> 0"
    using updateSubscriptions_InrD [OF m(1)] m(2) by simp_all
  have "d1 = db" using n(2) by (simp add: returnOp_def)
  then show ?thesis
    using disableSubscription_rows [OF n(1)] paused_rows [OF s(2,1)] d2
    by (simp add: subscriptionPaused_def)
qed

lemma paused_not_selectable:
  assumes "subscriptionPaused i d" "r \<in> set (proxies d)" "cSource r = SourceSubscription" "cSubscriptionID r = i"
  shows "\<not> selectableRow d r" "\<not> parentNotPaused d r" "\<not> parentActive d r"
  using assms
  by (auto simp: subscriptionPaused_def selectableRow_def parentNotPaused_def parentActive_def
      parentStatusIs_def list_ex_iff)

section \<open>Properties\<close>

text \<open>
  C4: errors are atomic. Whichever writing operation of the store is run, in any state the store
  can reach and whatever the driver does (a failing statement, \<open>BEGIN\<close> or \<open>COMMIT\<close>), an error result
  leaves both tables and the id counters exactly as they were.
\<close>

theorem store_errors_leave_tables:
  assumes "db_reachable d" "runOp p d = (Inl e, d1)"
  shows "tables d1 = tables d"
  by (rule atomicD [OF runOp_atomic db_reachable_inv [OF assms(1)] assms(2)])

text \<open>Pausing an absent subscription inside its transaction fails and changes nothing.\<close>

theorem store_errors_leave_tables_witness:
  "fst (runOp (SubOp (OpPauseSubscription 3)) (emptyDB 0 [])) = Inl ErrNoRows \<and>
   tables (snd (runOp (SubOp (OpPauseSubscription 3)) (emptyDB 0 []))) = tables (emptyDB 0 [])"
proof -
  obtain d1 where "runOp (SubOp (OpPauseSubscription 3)) (emptyDB 0 []) = (Inl ErrNoRows, d1)"
    by (simp add: PauseSubscription_def withTx_unfold emptyDB_def faulty_def dropFault_def bindOp_def
        affecting_def updateSubscriptions_def execSQL_unfold updateRows_def subscriptionsUnique_def
        countRows_def requireRowsAffected_def failOp_def)
  from store_errors_leave_tables [OF db_new this] this show ?thesis by simp
qed

text \<open>
  In every reachable state the rows have distinct ids and distinct identities
  (address, source, subscription), the subscriptions have distinct ids, and no two subscriptions
  share a non-empty URL or file path.
\<close>

theorem store_identities_distinct:
  assumes "db_reachable d"
  shows "distinct (map cID (proxies d)) \<and> distinct (map rowIdentity (proxies d)) \<and>
    distinct (map sID (subscriptions d)) \<and>
    distinct (filter (\<lambda>u. u \<noteq> []) (map sURL (subscriptions d))) \<and>
    distinct (filter (\<lambda>u. u \<noteq> []) (map sFilePath (subscriptions d)))"
  using db_reachable_inv [OF assms] by (simp add: db_inv_def identitiesUnique_def subscriptionsUnique_def)

theorem store_identities_distinct_witness:
  "(\<lambda>d. distinct (map rowIdentity (proxies d)) \<and> map cAddress (proxies d) = [''h1''])
     (snd (runOp (NodeOp (OpAddProxy ''h1'' ''http'')) (snd (runOp (NodeOp (OpAddProxy ''h1'' ''http'')) (emptyDB 0 [])))))"
  using store_identities_distinct [OF db_next [OF db_next [OF db_new db_run] db_run], of
      "NodeOp (OpAddProxy ''h1'' ''http'')" "NodeOp (OpAddProxy ''h1'' ''http'')" 0 "[]"]
  by (simp add: AddProxy_def upsertProxy_def execSQL_unfold emptyDB_def faulty_def dropFault_def
      newRow_def defaultRow_def rowIdentity_def updateRows_def)

text \<open>
  C7: an asynchronous result only lands on the route it was measured on. Every write-back either
  leaves a row untouched or finds it carrying all nine columns of the route identity and leaves
  those columns as they are; when no row carries them any more the write-back reports an error
  and changes nothing.
\<close>

theorem route_writes_need_route:
  assumes "db_reachable d"
  shows "list_all2 (\<lambda>r r'. r' = r \<or> routeIdentityWhere (routeOf p) r \<and> routeIdentityWhere (routeOf p) r')
      (proxies d) (proxies (snd (runRouteOp p d))) \<and>
    subscriptions (snd (runRouteOp p d)) = subscriptions d \<and>
    ((\<forall>r\<in>set (proxies d). \<not> routeIdentityWhere (routeOf p) r) \<longrightarrow>
       (\<exists>e. fst (runRouteOp p d) = Inl e) \<and> tables (snd (runRouteOp p d)) = tables d)"
  using route_op_rows [of p] route_op_stale [of d p]
    atomic_isl [OF runRouteOp_atomic db_reachable_inv [OF assms], of p]
  by (auto simp: rowsRelated_def isl_def)

theorem route_writes_need_route_witness:
  "(\<lambda>i d. \<exists>e. fst (runRouteOp (OpRecordForwardSuccess i) d) = Inl e)
     \<lparr>rID = 1, rAddress = ''h1'', rProtocol = ''socks5'', rNodeKey = [], rUsername = [], rPassword = [],
       rSource = ''manual'', rSubscriptionID = 0, rDualProtocol = False\<rparr>
     (snd (runOp (NodeOp (OpAddProxy ''h1'' ''http'')) (emptyDB 0 [])))"
  using route_writes_need_route [OF db_next [OF db_new db_run], of "OpRecordForwardSuccess
      \<lparr>rID = 1, rAddress = ''h1'', rProtocol = ''socks5'', rNodeKey = [], rUsername = [], rPassword = [],
       rSource = ''manual'', rSubscriptionID = 0, rDualProtocol = False\<rparr>"
      "NodeOp (OpAddProxy ''h1'' ''http'')" 0 "[]"]
  by (simp add: AddProxy_def upsertProxy_def execSQL_unfold emptyDB_def faulty_def dropFault_def
      newRow_def defaultRow_def rowIdentity_def updateRows_def routeIdentityWhere_def)

text \<open>
  The failure threshold is exact. Starting from a node with no recorded failure, after \<open>k\<close>
  forwarding failures in a row its counter is \<open>k\<close>, and its status is \<open>disabled\<close> from the
  threshold-th failure on and unchanged before.
\<close>

theorem forward_failures_disable_at_threshold:
  assumes "db_reachable d" "faults d = []" "r \<in> set (proxies d)" "routeIdentityWhere i r" "0 < n"
    "cFailCount r = 0"
  shows "\<exists>r'\<in>set (proxies (((\<lambda>d. snd (RecordForwardFailure i n d)) ^^ k) d)).
    routeIdentityWhere i r' \<and> cFailCount r' = int k \<and>
    cStatus r' = (if 0 < k \<and> n \<le> int k then ''disabled'' else cStatus r)"
  using forwardFailure_iterate [OF db_reachable_inv [OF assms(1)] assms(2-), of k] by blast

definition sampleRow :: ProxyRow where
  "sampleRow = (newRow ''h1'' ''http'' ''manual'' 0)\<lparr>cID := 1, cCreatedAt := 0\<rparr>"

definition sampleRoute :: RouteIdentity where
  "sampleRoute = RouteIdentityFromProxy (scanProxy sampleRow)"

definition sampleDB :: DB where
  "sampleDB = (emptyDB 0 [])\<lparr>proxies := [sampleRow], nextProxyID := 2\<rparr>"

lemma sampleDB_run: "runOp (NodeOp (OpAddProxy ''h1'' ''http'')) (emptyDB 0 []) = (Inr (), sampleDB)"
  by (simp add: AddProxy_def upsertProxy_def execSQL_unfold emptyDB_def faulty_def dropFault_def
      sampleDB_def sampleRow_def)

lemma sampleDB_reachable: "db_reachable sampleDB"
  using db_next [OF db_new db_run, of "NodeOp (OpAddProxy ''h1'' ''http'')" 0 "[]"] by (simp only: sampleDB_run snd_conv)

lemma sample_facts:
  "faults sampleDB = []" "proxies sampleDB = [sampleRow]" "subscriptions sampleDB = []"
  "routeIdentityWhere sampleRoute sampleRow" "cFailCount sampleRow = 0" "cStatus sampleRow = ''active''"
  by (simp_all add: sampleDB_def emptyDB_def sampleRoute_def sampleRow_def newRow_def defaultRow_def
      routeIdentityWhere_def RouteIdentityFromProxy_def scanProxy_def)

theorem forward_failures_disable_at_threshold_witness:
  "(\<exists>r'\<in>set (proxies (((\<lambda>d. snd (RecordForwardFailure sampleRoute 3 d)) ^^ 3) sampleDB)).
      cFailCount r' = 3 \<and> cStatus r' = ''disabled'') \<and>
   (\<exists>r'\<in>set (proxies (((\<lambda>d. snd (RecordForwardFailure sampleRoute 3 d)) ^^ 2) sampleDB)).
      cFailCount r' = 2 \<and> cStatus r' = ''active'')"
  using forward_failures_disable_at_threshold [of sampleDB sampleRow sampleRoute 3 3]
    forward_failures_disable_at_threshold [of sampleDB sampleRow sampleRoute 3 2]
  by (auto simp: sample_facts sampleDB_reachable)

text \<open>
  Unknown observations never overwrite known ones. Over every probe write-back, a region set by
  hand stays, a missing abuse score, flag set, Cloudflare or AI result keeps the stored one, and an
  exit that is not fully known keeps the stored exit and its time.
\<close>

theorem probe_writes_keep_known:
  "list_all2 (keepsKnown ob) (proxies d) (proxies (snd (ApplyProbeObservation i ob d))) \<and>
   list_all2 (keepsKnown ob) (proxies d) (proxies (snd (RecordProbeFailure i ob n d))) \<and>
   list_all2 (keepsKnown ob) (proxies d) (proxies (snd (RecordDisabledProbeFailure i ob d))) \<and>
   list_all2 (keepsKnown ob) (proxies d) (proxies (snd (RecoverProxyFromProbe i ob d))) \<and>
   list_all2 (keepsKnown ob) (proxies d) (proxies (snd (UpdateProxyExitInfo k ob d)))"
  using probe_keepsKnown [of ob] by (simp add: rowsRelated_def)

text \<open>
  The retention clock of a disabled node, once running, is never restarted by later failures,
  successes or observations; only an explicit recovery or policy decision clears it.
\<close>

theorem failures_never_restart_clock:
  "list_all2 keepsClock (proxies d) (proxies (snd (RecordForwardFailure i n d))) \<and>
   list_all2 keepsClock (proxies d) (proxies (snd (RecordProbeFailure i ob n d))) \<and>
   list_all2 keepsClock (proxies d) (proxies (snd (RecordDisabledProbeFailure i ob d))) \<and>
   list_all2 keepsClock (proxies d) (proxies (snd (RecordForwardSuccess i d))) \<and>
   list_all2 keepsClock (proxies d) (proxies (snd (ApplyProbeObservation i ob d)))"
  using failures_keepClock by (simp add: rowsRelated_def)

text \<open>
  A subscription that was paused successfully has every one of its nodes disabled, none of
  them is offered for selection, and no enable, recovery or probe write-back applies to them.
\<close>

theorem paused_subscription_offers_no_node:
  assumes "PauseSubscription i d = (Inr u, d1)" "r \<in> set (proxies d1)"
    "cSource r = SourceSubscription" "cSubscriptionID r = i"
  shows "cStatus r = ''disabled'' \<and> \<not> selectableRow d1 r \<and> \<not> parentNotPaused d1 r \<and> \<not> parentActive d1 r"
  using pauseSubscription_effect [OF assms(1)] paused_not_selectable [of i d1 r] assms(2-)
  by (simp add: subscriptionPaused_def)

definition subscribedDB :: DB where
  "subscribedDB = (emptyDB 0 [])\<lparr>
     proxies := [(newRow ''h1'' ''http'' ''subscription'' 1)\<lparr>cID := 1\<rparr>], nextProxyID := 2,
     subscriptions := [defaultSubscription\<lparr>sID := 1, sURL := ''u''\<rparr>], nextSubID := 2\<rparr>"

theorem paused_subscription_offers_no_node_witness:
  "(\<lambda>r d1. r \<in> set (proxies d1) \<and> \<not> selectableRow d1 r)
     ((newRow ''h1'' ''http'' ''subscription'' 1)\<lparr>cID := 1, cStatus := ''disabled''\<rparr>)
     (snd (PauseSubscription 1 subscribedDB))"
proof -
  let ?r = "(newRow ''h1'' ''http'' ''subscription'' 1)\<lparr>cID := 1, cStatus := ''disabled''\<rparr>"
  obtain d1 where d1: "PauseSubscription 1 subscribedDB = (Inr (), d1)" "?r \<in> set (proxies d1)"
    by (simp add: PauseSubscription_def withTx_unfold subscribedDB_def emptyDB_def faulty_def dropFault_def
        bindOp_def affecting_def updateSubscriptions_def execSQL_unfold updateRows_def
        subscriptionsUnique_def countRows_def requireRowsAffected_def returnOp_def querySQL_unfold
        disableSubscriptionProxies_def updateProxies_def identitiesUnique_def newRow_def defaultRow_def
        SourceSubscription_def defaultSubscription_def)
  from paused_subscription_offers_no_node [OF d1] d1 show ?thesis
    by (simp add: newRow_def SourceSubscription_def)
qed

text \<open>
  \<open>GetByRegion\<close> returns, for the rows that are selectable (online status, not paused by the user,
  fewer than three failures, parent subscription not paused), of the wanted region and not
  excluded, exactly their structs, measured latencies first and ascending; on a driver error it
  returns no list.
\<close>

theorem GetByRegion_exact:
  "fst (GetByRegion region excludes d) =
     (if faulty d then Inl (ErrDriver (the (hd (faults d)))) else Inr (regionCandidates region excludes d)) \<and>
   set (regionCandidates region excludes d) = scanProxy `
     {r \<in> set (proxies d). selectableRow d r \<and> cID r \<notin> set excludes \<and>
        (normalizeRegion region = [] \<or> cRegion r = normalizeRegion region)} \<and>
   sorted (map (\<lambda>p. (if pLatency p \<le> 0 then 1 else 0 :: int, pLatency p, pAddress p, pID p))
     (regionCandidates region excludes d)) \<and>
   tables (snd (GetByRegion region excludes d)) = tables d"
proof -
  let ?rows = "sort_key regionOrder (filter (\<lambda>r. selectableRow d r \<and>
     (normalizeRegion region \<noteq> [] \<longrightarrow> cRegion r = normalizeRegion region)) (proxies d))"
  let ?k = "\<lambda>p. (if pLatency p \<le> 0 then 1 else 0 :: int, pLatency p, pAddress p, pID p)"
  have "map ?k (map scanProxy ?rows) = map regionOrder ?rows"
    by (simp add: regionOrder_def scanProxy_def)
  then have "sorted (map ?k (map scanProxy ?rows))" by (simp only: sorted_sort_key)
  then have "sorted (map ?k (regionCandidates region excludes d))"
    unfolding regionCandidates_def by (rule sorted_filter)
  then show ?thesis
    using set_regionCandidates [of region excludes d] by (simp add: GetByRegion_eq disj_imp)
qed

lemma readonly_aiBatches: "readOnly (aiBatches n w ai l k cur st)"
proof (induction n arbitrary: cur st)
  case (Suc n)
  show ?case unfolding aiBatches.simps Let_def
    by (intro readonly_bind readonly_query) (simp add: readonly_return Suc.IH del: split_paired_All)
qed (simp add: readonly_return)

lemma readonly_withAI: "readOnly (listNodesForAPIWithAI w ai l k)"
  unfolding readOnly_def
proof
  fix d :: DB
  have "readOnly (bindOp (aiBatches (Suc (length (proxies d))) w ai l k None (0, 0, []))
      (\<lambda>r. returnOp (map_option (\<lambda>(tot, skipped, page). (page, tot)) r)))"
    by (intro readonly_bind readonly_aiBatches readonly_return)
  then show "tables (snd (listNodesForAPIWithAI w ai l k d)) = tables d \<and>
      now (snd (listNodesForAPIWithAI w ai l k d)) = now d"
    by (simp add: readOnly_def listNodesForAPIWithAI_def del: aiBatches.simps)
qed

lemma readonly_listNodes: "readOnly (listNodesForAPI f)"
  by (auto simp: listNodesForAPI_def Let_def countNodesForAPI_def readonly_withAI split: prod.split
      intro!: readonly_bind readonly_query readonly_return)

lemma ListNodesForAPI_exact:
  assumes "db_inv d" "ListNodesForAPI f d = (Inr res, d1)" "normalizeNodeAPIPaging (fLimit f) (fOffset f) = (l, k)"
  shows "res = Some (take (nat l) (drop (nat k) (apiReference f d)), int (length (apiReference f d)))"
    and "tables d1 = tables d"
proof -
  obtain d2 where b: "listNodesForAPI f (dropFault d) = (Inr res, d2)" and d1: "d1 = dropFault d2"
    using assms(2) unfolding ListNodesForAPI_def by (rule withTx_InrE)
  have dist: "distinct (map cID (proxies (dropFault d)))" using assms(1) by (simp add: db_inv_def)
  have "buildNodeAPIWhere f (dropFault d) = buildNodeAPIWhere f d"
    by (rule buildNodeAPIWhere_tables) simp
  then have "apiReference f (dropFault d) = apiReference f d" by (simp add: apiReference_def)
  with listNodesForAPI_exact [OF dist b assms(3)]
  show "res = Some (take (nat l) (drop (nat k) (apiReference f d)), int (length (apiReference f d)))" by simp
  have "tables d2 = tables (dropFault d)" using readonly_listNodes b by (metis readOnly_def snd_conv)
  then show "tables d1 = tables d" by (simp add: d1)
qed

text \<open>
  C8: the node API pages correctly whichever path it takes. Whenever it answers, the batched cursor
  loop used with an AI filter and the single counted query used without one both return the page
  \<open>[offset, offset + limit)\<close> of the one sorted and filtered list, with the length of that list as the
  total; the loop always finishes.
\<close>

theorem ListNodesForAPI_pages:
  assumes "db_reachable d" "ListNodesForAPI f d = (Inr res, d1)"
    "normalizeNodeAPIPaging (fLimit f) (fOffset f) = (l, k)"
  shows "res = Some (take (nat l) (drop (nat k) (apiReference f d)), int (length (apiReference f d))) \<and>
    0 < l \<and> l \<le> 2000 \<and> 0 \<le> k"
  using ListNodesForAPI_exact(1) [OF db_reachable_inv [OF assms(1)] assms(2,3)]
    paging_bounds [of "fLimit f" "fOffset f"] assms(3)
  by (simp add: nodeAPIMaxLimit_def)

theorem ListNodesForAPI_pages_witness:
  "fst (ListNodesForAPI \<lparr>fRegion = [], fProtocol = [], fSource = [], fStatus = [], fMaxAbuse = None,
       fCF = [], fAI = [], fLimit = 0, fOffset = 0\<rparr> sampleDB) = Inr (Some ([scanProxy sampleRow], 1))"
proof -
  let ?f = "\<lparr>fRegion = [], fProtocol = [], fSource = [], fStatus = [], fMaxAbuse = None,
       fCF = [], fAI = [], fLimit = 0, fOffset = 0\<rparr>"
  have p: "normalizeNodeAPIPaging (fLimit ?f) (fOffset ?f) = (500, 0)"
    by (simp add: normalizeNodeAPIPaging_def nodeAPIDefaultLimit_def nodeAPIMaxLimit_def)
  have lt: "lowerTrim [] = []"
    by (simp add: lowerTrim_def ToLower_def TrimSpace_def stripLeft_def)
  have w: "buildNodeAPIWhere ?f d' sampleRow" for d'
    by (simp add: buildNodeAPIWhere_def lt selectableRow_def selectableSubscriptionScopeSQL_def
        sampleRow_def newRow_def defaultRow_def)
  have c: "countRows (buildNodeAPIWhere ?f d') (proxies sampleDB) = 1" for d'
    by (simp add: countRows_def sample_facts w)
  have ref: "apiReference ?f sampleDB = [scanProxy sampleRow]"
    by (simp add: apiReference_def sample_facts w normalizeAIList_def aiReachableAll_def)
  have nf: "\<not> faulty sampleDB" "\<not> faulty (dropFault sampleDB)" "\<not> faulty (dropFault (dropFault sampleDB))"
    "\<not> faulty (dropFault (dropFault (dropFault sampleDB)))"
    by (simp_all add: faulty_def sample_facts)
  obtain res d1 where r: "ListNodesForAPI ?f sampleDB = (Inr res, d1)"
    using p nf c by (simp add: ListNodesForAPI_def withTx_unfold listNodesForAPI_def normalizeAIList_def Let_def
        bindOp_def countNodesForAPI_def querySQL_unfold returnOp_def)
  from ListNodesForAPI_pages [OF sampleDB_reachable r p] ref r show ?thesis by simp
qed

end
