(* ===== verification/Config.thy ===== *)
theory Config
  imports Base64 Sha256 Auth
begin

text \<open>
  The package \<open>config\<close>: environment defaults, the persisted \<open>config.json\<close>, credentials and
  read-only API keys. The environment is a function from names to values (\<open>None\<close> when unset), the
  bytes of \<open>crypto/rand\<close> are arguments. A nil slice is \<open>None\<close> where the code tells it from an empty
  one. What \<open>json.MarshalIndent\<close> followed by \<open>json.Unmarshal\<close> does to the saved struct is
  \<open>jsonRoundTrip\<close>: the \<open>omitempty\<close> tags drop empty strings, zeros and empty slices, which are read
  back as the zero value, a nil slice included. The file system keeps the last complete
  \<open>config.json\<close>; \<open>fsFault\<close> names the step of a save that fails.
\<close>

section \<open>Settings\<close>

record APIKey =
  kID :: string
  kName :: string
  kHash :: string
  kCreatedAt :: int
  kLastUsedAt :: int
  kDisabled :: bool

record Config =
  cfgHTTPPort :: string
  cfgSOCKS5Port :: string
  cfgWebUIPort :: string
  cfgWebUIPasswordHash :: string
  cfgProxyAuthEnabled :: bool
  cfgProxyAuthUsername :: string
  cfgProxyAuthPassword :: string
  cfgProxyAuthPasswordHash :: string
  cfgSessionTTLMinutes :: int
  cfgMaxSessionsPerProxy :: int
  cfgProxyCooldownMinutes :: int
  cfgDefaultRegion :: string
  cfgBlockedCountries :: "string list"
  cfgAllowedCountries :: "string list"
  cfgDBPath :: string
  cfgValidateConcurrency :: int
  cfgValidateTimeout :: int
  cfgValidateURL :: string
  cfgMaxResponseMs :: int
  cfgHealthIntervalMinutes :: int
  cfgHealthCheckBatchSize :: int
  cfgHealthCheckConcurrency :: int
  cfgCustomProbeInterval :: int
  cfgCustomRefreshInterval :: int
  cfgSingBoxPath :: string
  cfgSingBoxBasePort :: int
  cfgSingBoxShardCount :: int
  cfgMaxRetry :: int
  cfgReadOnlyAPIKeys :: "APIKey list"
  cfgPublicHost :: string
  cfgReadOnlyAPIRatePerMin :: int

record savedConfig =
  svHTTPPort :: string
  svSOCKS5Port :: string
  svWebUIPort :: string
  svWebUIPasswordHash :: string
  svProxyAuthEnabled :: "bool option"
  svProxyAuthUsername :: string
  svProxyAuthPassword :: string
  svProxyAuthPasswordHash :: string
  svSessionTTLMinutes :: int
  svMaxSessionsPerProxy :: "int option"
  svProxyCooldownMinutes :: "int option"
  svDefaultRegion :: string
  svHealthIntervalMinutes :: int
  svMaxRetry :: "int option"
  svSingBoxPath :: string
  svSingBoxShardCount :: int
  svBlockedCountries :: "string list option"
  svAllowedCountries :: "string list option"
  svReadOnlyAPIKeys :: "APIKey list option"
  svPublicHost :: string
  svReadOnlyAPIRatePerMin :: "int option"

section \<open>Environment\<close>

type_synonym env = "string \<Rightarrow> string option"

definition Getenv :: "env \<Rightarrow> string \<Rightarrow> string" where
  "Getenv env k = (case env k of None \<Rightarrow> [] | Some v \<Rightarrow> v)"

definition envOrDefault :: "env \<Rightarrow> string \<Rightarrow> string \<Rightarrow> string" where
  "envOrDefault env key defaultValue = (if Getenv env key \<noteq> [] then Getenv env key else defaultValue)"

definition normalizePort :: "string \<Rightarrow> string" where
  "normalizePort value0 =
     (let value = TrimSpace value0 in
      if value = [] \<or> HasPrefix value '':'' then value else '':'' @ value)"

definition envPort :: "env \<Rightarrow> string \<Rightarrow> string \<Rightarrow> string" where
  "envPort env key defaultValue = normalizePort (envOrDefault env key defaultValue)"

definition envInt :: "env \<Rightarrow> string \<Rightarrow> int \<Rightarrow> int" where
  "envInt env key defaultValue =
     (case Atoi (TrimSpace (Getenv env key)) of
        None \<Rightarrow> defaultValue
      | Some v \<Rightarrow> if v \<le> 0 then defaultValue else v)"

definition envIntNonNegative :: "env \<Rightarrow> string \<Rightarrow> int \<Rightarrow> int" where
  "envIntNonNegative env key defaultValue =
     (let raw = TrimSpace (Getenv env key) in
      if raw = [] then defaultValue
      else case Atoi raw of None \<Rightarrow> defaultValue | Some v \<Rightarrow> if v < 0 then defaultValue else v)"

definition NormalizeCountryCode :: "string \<Rightarrow> string" where
  "NormalizeCountryCode value =
     (let code = ToUpper (TrimSpace value) in
      if length code \<noteq> 2 then []
      else if list_ex (\<lambda>r. r < 65 \<or> r > 90) (runes code) then [] else code)"

definition NormalizeCountryCodes :: "string list \<Rightarrow> string list" where
  "NormalizeCountryCodes values =
     foldl (\<lambda>normalized value. let code = NormalizeCountryCode value in
              if code = [] \<or> code \<in> set normalized then normalized else normalized @ [code]) [] values"

definition envCountries :: "env \<Rightarrow> string \<Rightarrow> string list" where
  "envCountries env key =
     (let value = TrimSpace (Getenv env key) in
      if value = [] then []
      else filter (\<lambda>c. c \<noteq> []) (map NormalizeCountryCode (SplitByte value CHR '','')))"

definition envCountriesDefault :: "env \<Rightarrow> string \<Rightarrow> string list \<Rightarrow> string list" where
  "envCountriesDefault env key defaultValue =
     (case env key of
        None \<Rightarrow> defaultValue
      | Some raw \<Rightarrow> if TrimSpace raw = [] then [] else envCountries env key)"

text \<open>The data directory, and with it \<open>DBPath\<close>, is resolved by the caller and is an argument here.\<close>

definition DefaultConfig :: "env \<Rightarrow> string \<Rightarrow> Config" where
  "DefaultConfig env dbPath = \<lparr>
     cfgHTTPPort = envPort env ''HTTP_PORT'' '':7802'',
     cfgSOCKS5Port = envPort env ''SOCKS5_PORT'' '':7801'',
     cfgWebUIPort = envPort env ''WEBUI_PORT'' '':7800'',
     cfgWebUIPasswordHash = [],
     cfgProxyAuthEnabled = True,
     cfgProxyAuthUsername = ''username'',
     cfgProxyAuthPassword = [],
     cfgProxyAuthPasswordHash = [],
     cfgSessionTTLMinutes = envInt env ''SESSION_TTL_MINUTES'' 1440,
     cfgMaxSessionsPerProxy = envIntNonNegative env ''MAX_SESSIONS_PER_PROXY'' 0,
     cfgProxyCooldownMinutes = envIntNonNegative env ''PROXY_COOLDOWN_MINUTES'' 0,
     cfgDefaultRegion = NormalizeCountryCode (Getenv env ''DEFAULT_REGION''),
     cfgBlockedCountries = envCountriesDefault env ''BLOCKED_COUNTRIES'' [''CN''],
     cfgAllowedCountries = envCountries env ''ALLOWED_COUNTRIES'',
     cfgDBPath = dbPath,
     cfgValidateConcurrency = 300,
     cfgValidateTimeout = 10,
     cfgValidateURL = ''http://www.gstatic.com/generate_204,http://cp.cloudflare.com/generate_204,http://captive.apple.com/hotspot-detect.html'',
     cfgMaxResponseMs = 5000,
     cfgHealthIntervalMinutes = envInt env ''HEALTH_CHECK_INTERVAL'' 5,
     cfgHealthCheckBatchSize = 20,
     cfgHealthCheckConcurrency = 50,
     cfgCustomProbeInterval = 10,
     cfgCustomRefreshInterval = 60,
     cfgSingBoxPath = envOrDefault env ''SINGBOX_PATH'' ''sing-box'',
     cfgSingBoxBasePort = 20000,
     cfgSingBoxShardCount = envInt env ''SINGBOX_SHARD_COUNT'' 4,
     cfgMaxRetry = envInt env ''MAX_RETRY'' 3,
     cfgReadOnlyAPIKeys = [],
     cfgPublicHost = TrimSpace (Getenv env ''PUBLIC_HOST''),
     cfgReadOnlyAPIRatePerMin = envInt env ''READONLY_API_RATE_PER_MIN'' 60\<rparr>"

section \<open>Saving\<close>

definition toSaved :: "Config \<Rightarrow> savedConfig" where
  "toSaved cfg = \<lparr>
     svHTTPPort = cfgHTTPPort cfg, svSOCKS5Port = cfgSOCKS5Port cfg, svWebUIPort = cfgWebUIPort cfg,
     svWebUIPasswordHash = cfgWebUIPasswordHash cfg,
     svProxyAuthEnabled = Some (cfgProxyAuthEnabled cfg),
     svProxyAuthUsername = cfgProxyAuthUsername cfg,
     svProxyAuthPassword = cfgProxyAuthPassword cfg,
     svProxyAuthPasswordHash = cfgProxyAuthPasswordHash cfg,
     svSessionTTLMinutes = cfgSessionTTLMinutes cfg,
     svMaxSessionsPerProxy = Some (cfgMaxSessionsPerProxy cfg),
     svProxyCooldownMinutes = Some (cfgProxyCooldownMinutes cfg),
     svDefaultRegion = NormalizeCountryCode (cfgDefaultRegion cfg),
     svHealthIntervalMinutes = cfgHealthIntervalMinutes cfg,
     svMaxRetry = Some (cfgMaxRetry cfg),
     svSingBoxPath = cfgSingBoxPath cfg,
     svSingBoxShardCount = cfgSingBoxShardCount cfg,
     svBlockedCountries = Some (NormalizeCountryCodes (cfgBlockedCountries cfg)),
     svAllowedCountries = Some (NormalizeCountryCodes (cfgAllowedCountries cfg)),
     svReadOnlyAPIKeys = Some (cfgReadOnlyAPIKeys cfg),
     svPublicHost = TrimSpace (cfgPublicHost cfg),
     svReadOnlyAPIRatePerMin = Some (cfgReadOnlyAPIRatePerMin cfg)\<rparr>"

definition omitEmpty :: "'a list option \<Rightarrow> 'a list option" where
  "omitEmpty xs = (case xs of None \<Rightarrow> None | Some ys \<Rightarrow> if ys = [] then None else Some ys)"

definition jsonRoundTrip :: "savedConfig \<Rightarrow> savedConfig" where
  "jsonRoundTrip s = s\<lparr>svBlockedCountries := omitEmpty (svBlockedCountries s),
     svAllowedCountries := omitEmpty (svAllowedCountries s),
     svReadOnlyAPIKeys := omitEmpty (svReadOnlyAPIKeys s)\<rparr>"

datatype fsFault =
  FailCreateTemp | FailChmod | FailWrite | FailSync | FailClose | FailRename

datatype config_error =
    ErrNegative string
  | ErrFS fsFault
  | ErrPanic string

record ConfigWorld =
  diskConfig :: "savedConfig option"
  tempFiles :: nat
  globalCfg :: "Config option"

definition validateForSave :: "Config \<Rightarrow> config_error option" where
  "validateForSave cfg =
     (if cfgMaxRetry cfg < 0 then Some (ErrNegative ''max_retry'')
      else if cfgMaxSessionsPerProxy cfg < 0 then Some (ErrNegative ''max_sessions_per_proxy'')
      else if cfgProxyCooldownMinutes cfg < 0 then Some (ErrNegative ''proxy_cooldown_minutes'')
      else None)"

text \<open>
  The steps of \<open>saveConfigAt\<close>: the temporary file exists from \<open>CreateTemp\<close> until the deferred remove,
  the target changes only in the final rename, and the published snapshot only after it.
\<close>

definition saveConfigAt ::
    "fsFault option \<Rightarrow> Config \<Rightarrow> ConfigWorld \<Rightarrow> (config_error + unit) \<times> ConfigWorld" where
  "saveConfigAt fault cfg w =
     (case validateForSave cfg of
        Some e \<Rightarrow> (Inl e, w)
      | None \<Rightarrow>
          if fault = Some FailCreateTemp then (Inl (ErrFS FailCreateTemp), w)
          else
            (let w1 = w\<lparr>tempFiles := tempFiles w + 1\<rparr>;
                 cleanup = (\<lambda>w. w\<lparr>tempFiles := tempFiles w - 1\<rparr>) in
             if fault = Some FailChmod then (Inl (ErrFS FailChmod), cleanup w1)
             else if fault = Some FailWrite then (Inl (ErrFS FailWrite), cleanup w1)
             else if fault = Some FailSync then (Inl (ErrFS FailSync), cleanup w1)
             else if fault = Some FailClose then (Inl (ErrFS FailClose), cleanup w1)
             else if fault = Some FailRename then (Inl (ErrFS FailRename), cleanup w1)
             else
               (let w2 = w1\<lparr>diskConfig := Some (jsonRoundTrip (toSaved cfg)),
                            tempFiles := tempFiles w1 - 1\<rparr>;
                    saved = cfg\<lparr>cfgDefaultRegion := NormalizeCountryCode (cfgDefaultRegion cfg),
                      cfgBlockedCountries := NormalizeCountryCodes (cfgBlockedCountries cfg),
                      cfgAllowedCountries := NormalizeCountryCodes (cfgAllowedCountries cfg)\<rparr>
                in (Inr (), w2\<lparr>globalCfg := Some saved\<rparr>))))"

section \<open>Loading\<close>

definition passwordHash :: "string \<Rightarrow> string" where
  "passwordHash plain = sha256Hex plain"

definition applySavedConfig :: "Config \<Rightarrow> savedConfig \<Rightarrow> Config" where
  "applySavedConfig cfg saved = cfg\<lparr>
     cfgHTTPPort := (if svHTTPPort saved \<noteq> [] then normalizePort (svHTTPPort saved) else cfgHTTPPort cfg),
     cfgSOCKS5Port := (if svSOCKS5Port saved \<noteq> [] then normalizePort (svSOCKS5Port saved) else cfgSOCKS5Port cfg),
     cfgWebUIPort := (if svWebUIPort saved \<noteq> [] then normalizePort (svWebUIPort saved) else cfgWebUIPort cfg),
     cfgWebUIPasswordHash :=
       (if svWebUIPasswordHash saved \<noteq> [] then svWebUIPasswordHash saved else cfgWebUIPasswordHash cfg),
     cfgProxyAuthEnabled :=
       (case svProxyAuthEnabled saved of None \<Rightarrow> cfgProxyAuthEnabled cfg | Some b \<Rightarrow> b),
     cfgProxyAuthUsername :=
       (if svProxyAuthUsername saved \<noteq> [] then svProxyAuthUsername saved else cfgProxyAuthUsername cfg),
     cfgProxyAuthPassword :=
       (if svProxyAuthPassword saved \<noteq> [] then svProxyAuthPassword saved else cfgProxyAuthPassword cfg),
     cfgProxyAuthPasswordHash :=
       (if svProxyAuthPasswordHash saved \<noteq> [] then svProxyAuthPasswordHash saved
        else if svProxyAuthPassword saved \<noteq> [] then passwordHash (svProxyAuthPassword saved)
        else cfgProxyAuthPasswordHash cfg),
     cfgSessionTTLMinutes :=
       (if svSessionTTLMinutes saved > 0 then svSessionTTLMinutes saved else cfgSessionTTLMinutes cfg),
     cfgMaxSessionsPerProxy :=
       (case svMaxSessionsPerProxy saved of None \<Rightarrow> cfgMaxSessionsPerProxy cfg
        | Some n \<Rightarrow> if n < 0 then 0 else n),
     cfgProxyCooldownMinutes :=
       (case svProxyCooldownMinutes saved of None \<Rightarrow> cfgProxyCooldownMinutes cfg
        | Some n \<Rightarrow> if n < 0 then 0 else n),
     cfgDefaultRegion :=
       (if svDefaultRegion saved \<noteq> [] then NormalizeCountryCode (svDefaultRegion saved)
        else cfgDefaultRegion cfg),
     cfgHealthIntervalMinutes :=
       (if svHealthIntervalMinutes saved > 0 then svHealthIntervalMinutes saved
        else cfgHealthIntervalMinutes cfg),
     cfgMaxRetry :=
       (case svMaxRetry saved of None \<Rightarrow> cfgMaxRetry cfg | Some n \<Rightarrow> if n \<ge> 0 then n else cfgMaxRetry cfg),
     cfgSingBoxPath := (if svSingBoxPath saved \<noteq> [] then svSingBoxPath saved else cfgSingBoxPath cfg),
     cfgSingBoxShardCount :=
       (if svSingBoxShardCount saved > 0 then svSingBoxShardCount saved else cfgSingBoxShardCount cfg),
     cfgBlockedCountries :=
       (case svBlockedCountries saved of None \<Rightarrow> cfgBlockedCountries cfg
        | Some cs \<Rightarrow> NormalizeCountryCodes cs),
     cfgAllowedCountries :=
       (case svAllowedCountries saved of None \<Rightarrow> cfgAllowedCountries cfg
        | Some cs \<Rightarrow> NormalizeCountryCodes cs),
     cfgReadOnlyAPIKeys :=
       (case svReadOnlyAPIKeys saved of None \<Rightarrow> cfgReadOnlyAPIKeys cfg | Some ks \<Rightarrow> ks),
     cfgPublicHost := TrimSpace (svPublicHost saved),
     cfgReadOnlyAPIRatePerMin :=
       (case svReadOnlyAPIRatePerMin saved of None \<Rightarrow> cfgReadOnlyAPIRatePerMin cfg
        | Some n \<Rightarrow> if n > 0 then n else cfgReadOnlyAPIRatePerMin cfg)\<rparr>"

text \<open>The part of \<open>Load\<close> that builds the settings from the defaults and a readable \<open>config.json\<close>.\<close>

definition loadSettings :: "env \<Rightarrow> string \<Rightarrow> savedConfig option \<Rightarrow> Config" where
  "loadSettings env dbPath disk =
     (let cfg = DefaultConfig env dbPath in
      case disk of
        None \<Rightarrow> cfg
      | Some saved \<Rightarrow>
          applySavedConfig (cfg\<lparr>cfgPublicHost := [], cfgReadOnlyAPIRatePerMin := 60\<rparr>) saved)"

section \<open>Credentials\<close>

definition credentialLength :: nat where
  "credentialLength = 16"

definition credentialAlphabet :: string where
  "credentialAlphabet = ''abcdefghijkmnpqrstuvwxyzABCDEFGHJKLMNPQRSTUVWXYZ23456789''"

definition generateCredential :: "string \<Rightarrow> string" where
  "generateCredential buf = map (\<lambda>b. credentialAlphabet ! (byte b mod length credentialAlphabet)) buf"

definition bytesToString :: "nat list \<Rightarrow> string" where
  "bytesToString bs = map char_of bs"

text \<open>\<open>HMAC-SHA-256\<close> and \<open>crypto/pbkdf2.Key\<close> with it (RFC 2104, RFC 8018).\<close>

definition hmacPad :: "string \<Rightarrow> string" where
  "hmacPad key0 =
     (let key = (if length key0 > 64 then bytesToString (Sum256 key0) else key0)
      in key @ replicate (64 - length key) (char_of (0 :: nat)))"

definition xorByte :: "nat \<Rightarrow> char \<Rightarrow> char" where
  "xorByte n c = char_of (unat ((word_of_nat n :: 8 word) XOR word_of_nat (byte c)))"

definition hmacSha256 :: "string \<Rightarrow> string \<Rightarrow> string" where
  "hmacSha256 key msg =
     (let k = hmacPad key in
      bytesToString (Sum256 (map (xorByte 0x5c) k @
        bytesToString (Sum256 (map (xorByte 0x36) k @ msg)))))"

definition xorString :: "string \<Rightarrow> string \<Rightarrow> string" where
  "xorString a b = map2 (\<lambda>x. xorByte (byte x)) a b"

fun pbkdf2Iterate :: "nat \<Rightarrow> string \<Rightarrow> string \<Rightarrow> string \<Rightarrow> string" where
  "pbkdf2Iterate 0 key u acc = acc"
| "pbkdf2Iterate (Suc n) key u acc =
     (let u' = hmacSha256 key u in pbkdf2Iterate n key u' (xorString acc u'))"

definition pbkdf2Block :: "string \<Rightarrow> string \<Rightarrow> nat \<Rightarrow> nat \<Rightarrow> string" where
  "pbkdf2Block key salt iterations i =
     (let u = hmacSha256 key (salt @ bytesToString (beBytes 4 i))
      in pbkdf2Iterate (iterations - 1) key u u)"

definition pbkdf2Key :: "string \<Rightarrow> string \<Rightarrow> nat \<Rightarrow> nat \<Rightarrow> string" where
  "pbkdf2Key key salt iterations keyLength =
     take keyLength (concat (map (pbkdf2Block key salt iterations) [1 ..< (keyLength + 31) div 32 + 1]))"

definition pbkdf2Scheme :: string where
  "pbkdf2Scheme = ''pbkdf2-sha256''"

definition encodePBKDF2 :: "string \<Rightarrow> string \<Rightarrow> int \<Rightarrow> string" where
  "encodePBKDF2 plain salt iterations =
     pbkdf2Scheme @ ''$'' @ fmtInt iterations @ ''$'' @ rawEncode stdAlphabet salt @ ''$'' @
     rawEncode stdAlphabet (pbkdf2Key plain salt (nat iterations) 32)"

definition HashWebUIPassword :: "string \<Rightarrow> string \<Rightarrow> string" where
  "HashWebUIPassword salt plain = encodePBKDF2 plain salt 210000"

text \<open>\<open>base64.RawStdEncoding.DecodeString\<close> skips line breaks.\<close>

definition decodeRawStd :: "string \<Rightarrow> string option" where
  "decodeRawStd s = rawDecode stdAlphabet (filter (\<lambda>c. c \<noteq> CHR 0x0A \<and> c \<noteq> CHR 0x0D) s)"

definition verifyPBKDF2 :: "string \<Rightarrow> string \<Rightarrow> bool" where
  "verifyPBKDF2 plain encoded =
     (case SplitByte encoded CHR ''$'' of
        [scheme, iter, salt64, key64] \<Rightarrow>
          scheme = pbkdf2Scheme \<and>
          (case Atoi iter of
             None \<Rightarrow> False
           | Some iterations \<Rightarrow>
               iterations > 0 \<and>
               (case decodeRawStd salt64 of
                  None \<Rightarrow> False
                | Some salt \<Rightarrow>
                    salt \<noteq> [] \<and>
                    (case decodeRawStd key64 of
                       None \<Rightarrow> False
                     | Some expected \<Rightarrow>
                         expected \<noteq> [] \<and>
                         ConstantTimeCompare (pbkdf2Key plain salt (nat iterations) (length expected)) expected = 1)))
      | _ \<Rightarrow> False)"

definition hexNibble :: "char \<Rightarrow> nat option" where
  "hexNibble c =
     (let b = byte c in
      if 48 \<le> b \<and> b \<le> 57 then Some (b - 48)
      else if 97 \<le> b \<and> b \<le> 102 then Some (b - 87)
      else if 65 \<le> b \<and> b \<le> 70 then Some (b - 55)
      else None)"

fun hexDecode :: "string \<Rightarrow> string option" where
  "hexDecode [] = Some []"
| "hexDecode [c] = None"
| "hexDecode (a # b # s) =
     (case (hexNibble a, hexNibble b, hexDecode s) of
        (Some x, Some y, Some t) \<Rightarrow> Some (char_of (x * 16 + y) # t)
      | _ \<Rightarrow> None)"

definition verifyLegacySHA256 :: "string \<Rightarrow> string \<Rightarrow> bool" where
  "verifyLegacySHA256 plain encoded =
     (length encoded = 64 \<and>
      (case hexDecode encoded of
         None \<Rightarrow> False
       | Some expected \<Rightarrow> ConstantTimeCompare (bytesToString (Sum256 plain)) expected = 1))"

definition VerifyWebUIPassword :: "string \<Rightarrow> string \<Rightarrow> bool \<times> bool" where
  "VerifyWebUIPassword plain encoded0 =
     (let encoded = TrimSpace encoded0 in
      if encoded = [] then (False, False)
      else if HasPrefix encoded (pbkdf2Scheme @ ''$'') then (verifyPBKDF2 plain encoded, False)
      else if verifyLegacySHA256 plain encoded then (True, True)
      else (False, False))"

section \<open>Read-only API keys\<close>

definition HashAPIKey :: "string \<Rightarrow> string" where
  "HashAPIKey plain = hexEncode (Sum256 plain)"

definition ValidateReadOnlyAPIKey :: "Config option \<Rightarrow> string \<Rightarrow> bool" where
  "ValidateReadOnlyAPIKey cfg plain =
     (case cfg of
        None \<Rightarrow> False
      | Some cfg \<Rightarrow>
          plain \<noteq> [] \<and>
          list_ex (\<lambda>key. \<not> (kDisabled key \<or> kHash key = []) \<and>
                         ConstantTimeCompare (kHash key) (HashAPIKey plain) = 1)
            (cfgReadOnlyAPIKeys cfg))"

definition parseReadOnlyAPIKeysEnv :: "string \<Rightarrow> string list" where
  "parseReadOnlyAPIKeysEnv raw0 =
     (let raw = TrimSpace raw0 in
      if raw = [] then []
      else foldl (\<lambda>out part. let plain = TrimSpace part in
                    if plain = [] \<or> plain \<in> set out then out else out @ [plain])
             [] (SplitByte raw CHR '',''))"

text \<open>The loop of the import: \<open>ids\<close> are the generated ids, \<open>t\<close> the time of the run.\<close>

fun importKeys :: "int \<Rightarrow> nat \<Rightarrow> (nat \<Rightarrow> string) \<Rightarrow> string list \<Rightarrow> APIKey list \<Rightarrow> APIKey list \<times> bool" where
  "importKeys t i ids [] keys = (keys, False)"
| "importKeys t i ids (plain # plains) keys =
     (if HashAPIKey plain \<in> set (filter (\<lambda>h. h \<noteq> []) (map kHash keys)) then importKeys t (Suc i) ids plains keys
      else
        (case importKeys t (Suc i) ids plains (keys @ [\<lparr>kID = ids i, kName = ''env-import'',
               kHash = HashAPIKey plain, kCreatedAt = t + int i, kLastUsedAt = 0, kDisabled = False\<rparr>]) of
           (ks, c) \<Rightarrow> (ks, True)))"

definition importReadOnlyAPIKeysFromEnv ::
    "env \<Rightarrow> int \<Rightarrow> (nat \<Rightarrow> string) \<Rightarrow> Config \<Rightarrow> Config \<times> bool" where
  "importReadOnlyAPIKeysFromEnv env t ids cfg =
     (let plains = parseReadOnlyAPIKeysEnv (Getenv env ''READONLY_API_KEYS'') in
      case importKeys t 0 ids plains (cfgReadOnlyAPIKeys cfg) of
        (keys, changed) \<Rightarrow> (cfg\<lparr>cfgReadOnlyAPIKeys := keys\<rparr>, changed))"

section \<open>First start\<close>

record FirstBootInfo =
  fbWebUIPassword :: string
  fbProxyAuthUsername :: string
  fbProxyAuthPassword :: string

text \<open>
  The three random reads of a first start (login password, its salt, proxy password) are arguments;
  a failing save is a panic.
\<close>

definition bootstrapCredentials ::
    "string \<Rightarrow> string \<Rightarrow> string \<Rightarrow> fsFault option \<Rightarrow> Config \<Rightarrow> ConfigWorld \<Rightarrow>
     (config_error + Config \<times> FirstBootInfo) \<times> ConfigWorld" where
  "bootstrapCredentials rndLogin salt rndProxy fault cfg w =
     (let needLogin = (cfgWebUIPasswordHash cfg = []);
          needProxy = (cfgProxyAuthPasswordHash cfg = []);
          login = generateCredential rndLogin;
          proxyPw = generateCredential rndProxy;
          user = (if cfgProxyAuthUsername cfg = [] then ''username'' else cfgProxyAuthUsername cfg);
          cfg1 = (if needLogin then cfg\<lparr>cfgWebUIPasswordHash := HashWebUIPassword salt login\<rparr> else cfg);
          cfg2 = (if needProxy then cfg1\<lparr>cfgProxyAuthUsername := user,
                    cfgProxyAuthPasswordHash := passwordHash proxyPw, cfgProxyAuthPassword := proxyPw\<rparr>
                  else cfg1);
          info = \<lparr>fbWebUIPassword = (if needLogin then login else []),
                  fbProxyAuthUsername = (if needProxy then user else []),
                  fbProxyAuthPassword = (if needProxy then proxyPw else [])\<rparr>
      in case saveConfigAt fault cfg2 w of
           (Inl e, w1) \<Rightarrow> (Inl (ErrPanic ''persist bootstrap credentials''), w1)
         | (Inr _, w1) \<Rightarrow> (Inr (cfg2, info), w1))"

record LoadInputs =
  liEnv :: env
  liDBPath :: string
  liReadError :: "config_error option"
  liRndLogin :: string
  liSalt :: string
  liRndProxy :: string
  liTime :: int
  liIDs :: "nat \<Rightarrow> string"
  liBootFault :: "fsFault option"
  liImportFault :: "fsFault option"

text \<open>\<open>Load\<close> after the data directory has been resolved and created.\<close>

definition Load :: "LoadInputs \<Rightarrow> ConfigWorld \<Rightarrow> (config_error + Config) \<times> ConfigWorld" where
  "Load inp w =
     (case liReadError inp of
        Some e \<Rightarrow> (Inl e, w)
      | None \<Rightarrow>
          (let persisted = (diskConfig w \<noteq> None);
               cfg0 = loadSettings (liEnv inp) (liDBPath inp) (diskConfig w);
               boot = (if cfgWebUIPasswordHash cfg0 = [] \<or> cfgProxyAuthPasswordHash cfg0 = []
                       then (case bootstrapCredentials (liRndLogin inp) (liSalt inp) (liRndProxy inp)
                                    (liBootFault inp) cfg0 w of
                               (Inl e, w1) \<Rightarrow> (Inl e, w1)
                             | (Inr (c, info), w1) \<Rightarrow> (Inr c, w1))
                       else (Inr cfg0, w))
           in case boot of
                (Inl e, w1) \<Rightarrow> (Inl e, w1)
              | (Inr cfg1, w1) \<Rightarrow>
                  if persisted then (Inr cfg1, w1\<lparr>globalCfg := Some cfg1\<rparr>)
                  else
                    (case importReadOnlyAPIKeysFromEnv (liEnv inp) (liTime inp) (liIDs inp) cfg1 of
                       (cfg2, imported) \<Rightarrow>
                         if imported then
                           (case saveConfigAt (liImportFault inp) cfg2 w1 of
                              (Inl e, w2) \<Rightarrow> (Inl (ErrPanic ''persist readonly api keys''), w2)
                            | (Inr _, w2) \<Rightarrow> (Inr cfg2, w2\<lparr>globalCfg := Some cfg2\<rparr>))
                         else (Inr cfg2, w1\<lparr>globalCfg := Some cfg2\<rparr>))))"

section \<open>Lemmas\<close>

lemma save_atomic:
  "saveConfigAt fault cfg w = (Inl e, w1) \<Longrightarrow> w1 = w"
  by (auto simp: saveConfigAt_def Let_def split: option.splits if_splits)

lemma save_success:
  assumes "saveConfigAt fault cfg w = (Inr u, w1)"
  shows "diskConfig w1 = Some (jsonRoundTrip (toSaved cfg))" "tempFiles w1 = tempFiles w"
    "0 \<le> cfgMaxRetry cfg" "0 \<le> cfgMaxSessionsPerProxy cfg" "0 \<le> cfgProxyCooldownMinutes cfg"
  using assms by (auto simp: saveConfigAt_def Let_def validateForSave_def split: option.splits if_splits)

lemma normalizeCodes_fixed:
  "list_all (\<lambda>c. NormalizeCountryCode c = c \<and> c \<noteq> []) cs \<Longrightarrow> distinct cs \<Longrightarrow> NormalizeCountryCodes cs = cs"
proof (induction cs rule: rev_induct)
  case (snoc c cs)
  then show ?case by (simp add: NormalizeCountryCodes_def Let_def)
qed (simp add: NormalizeCountryCodes_def)

text \<open>Settings in the form the program itself writes: normalised, non-empty where empty means absent.\<close>

definition savable :: "Config \<Rightarrow> bool" where
  "savable cfg \<longleftrightarrow>
     list_all (\<lambda>p. p \<noteq> [] \<and> normalizePort p = p) [cfgHTTPPort cfg, cfgSOCKS5Port cfg, cfgWebUIPort cfg] \<and>
     list_all (\<lambda>s. s \<noteq> []) [cfgWebUIPasswordHash cfg, cfgProxyAuthUsername cfg, cfgProxyAuthPassword cfg,
       cfgProxyAuthPasswordHash cfg, cfgSingBoxPath cfg] \<and>
     list_all (\<lambda>n. 0 < n) [cfgSessionTTLMinutes cfg, cfgHealthIntervalMinutes cfg, cfgSingBoxShardCount cfg,
       cfgReadOnlyAPIRatePerMin cfg] \<and>
     list_all (\<lambda>n. 0 \<le> n) [cfgMaxRetry cfg, cfgMaxSessionsPerProxy cfg, cfgProxyCooldownMinutes cfg] \<and>
     cfgDefaultRegion cfg \<noteq> [] \<and> NormalizeCountryCode (cfgDefaultRegion cfg) = cfgDefaultRegion cfg \<and>
     cfgBlockedCountries cfg \<noteq> [] \<and> NormalizeCountryCodes (cfgBlockedCountries cfg) = cfgBlockedCountries cfg \<and>
     cfgAllowedCountries cfg \<noteq> [] \<and> NormalizeCountryCodes (cfgAllowedCountries cfg) = cfgAllowedCountries cfg \<and>
     TrimSpace (cfgPublicHost cfg) = cfgPublicHost cfg \<and> cfgReadOnlyAPIKeys cfg \<noteq> []"

lemma loaded_equals_saved:
  assumes "savable cfg"
  shows "toSaved (loadSettings env db (Some (jsonRoundTrip (toSaved cfg)))) = toSaved cfg"
  using assms
  by (simp add: savable_def loadSettings_def applySavedConfig_def jsonRoundTrip_def toSaved_def omitEmpty_def
      Let_def)

lemma cleared_list_reappears:
  assumes "NormalizeCountryCodes (cfgBlockedCountries cfg) = []"
  shows "cfgBlockedCountries (loadSettings env db (Some (jsonRoundTrip (toSaved cfg)))) =
    envCountriesDefault env ''BLOCKED_COUNTRIES'' [''CN'']"
  using assms
  by (simp add: loadSettings_def applySavedConfig_def jsonRoundTrip_def toSaved_def omitEmpty_def
      DefaultConfig_def Let_def)

section \<open>Login passwords\<close>

lemma length_hmac: "length (hmacSha256 k m) = 32"
  by (simp add: hmacSha256_def Let_def bytesToString_def length_Sum256)

lemma length_pbkdf2Iterate: "length acc = 32 \<Longrightarrow> length (pbkdf2Iterate n key u acc) = 32"
  by (induction n arbitrary: u acc) (simp_all add: Let_def xorString_def length_hmac)

lemma length_pbkdf2Key: "length (pbkdf2Key plain salt n 32) = 32"
  by (simp add: pbkdf2Key_def pbkdf2Block_def Let_def length_pbkdf2Iterate length_hmac)

lemma stdAlphabet_graphic:
  "c \<in> set stdAlphabet \<Longrightarrow> graphic c \<and> c \<noteq> CHR ''$'' \<and> c \<noteq> CHR 0x0A \<and> c \<noteq> CHR 0x0D"
  by (auto simp: stdAlphabet_def graphic_def)

lemma rawStd_chars:
  "c \<in> set (rawEncode stdAlphabet s) \<Longrightarrow> graphic c \<and> c \<noteq> CHR ''$'' \<and> c \<noteq> CHR 0x0A \<and> c \<noteq> CHR 0x0D"
  using stdEnc.set_encode [of s] stdAlphabet_graphic by blast

lemma decodeRawStd_encode: "decodeRawStd (rawEncode stdAlphabet s) = Some s"
proof -
  have "filter (\<lambda>c. c \<noteq> CHR 0x0A \<and> c \<noteq> CHR 0x0D) (rawEncode stdAlphabet s) = rawEncode stdAlphabet s"
    using rawStd_chars by (auto simp: filter_id_conv)
  then show ?thesis by (simp add: decodeRawStd_def stdEnc.decode_encode)
qed

lemma scheme_chars: "\<forall>c\<in>set pbkdf2Scheme. c \<noteq> CHR ''$''"
  by (simp add: pbkdf2Scheme_def)

lemma encoded_split:
  assumes "0 \<le> n"
  shows "SplitByte (encodePBKDF2 plain salt n) CHR ''$'' =
    [pbkdf2Scheme, fmtInt n, rawEncode stdAlphabet salt, rawEncode stdAlphabet (pbkdf2Key plain salt (nat n) 32)]"
proof -
  have n: "CHR ''$'' \<notin> set (fmtInt n)"
    using natDigits_graphic [of "nat n"] assms by (auto simp: fmtInt_def)
  have r: "CHR ''$'' \<notin> set (rawEncode stdAlphabet s)" for s using rawStd_chars by blast
  have p: "CHR ''$'' \<notin> set pbkdf2Scheme" using scheme_chars by blast
  show ?thesis
    by (simp add: SplitByte_def encodePBKDF2_def splitByteAux_sep [OF p] splitByteAux_sep [OF n]
        splitByteAux_sep [OF r] splitByteAux_last [OF r])
qed

lemma verify_encoded:
  assumes "0 < n" "n < 2 ^ 63" "salt \<noteq> []"
  shows "verifyPBKDF2 plain (encodePBKDF2 q salt n) \<longleftrightarrow>
    pbkdf2Key plain salt (nat n) 32 = pbkdf2Key q salt (nat n) 32"
proof -
  have "Atoi (fmtInt n) = Some n" using assms by (intro Atoi_fmtInt) auto
  moreover have "pbkdf2Key q salt (nat n) 32 \<noteq> []"
    using length_pbkdf2Key [of q salt "nat n"] by (metis list.size(3) zero_neq_numeral)
  ultimately show ?thesis
    using assms by (simp add: verifyPBKDF2_def encoded_split decodeRawStd_encode length_pbkdf2Key
        ConstantTimeCompare_def)
qed

lemma encoded_trim: "TrimSpace (encodePBKDF2 plain salt n) = encodePBKDF2 plain salt n"
proof (rule TrimSpace_graphic)
  let ?k = "rawEncode stdAlphabet (pbkdf2Key plain salt (nat n) 32)"
  have k: "?k \<noteq> []"
    using stdEnc.encode_eq_Nil_iff length_pbkdf2Key [of plain salt "nat n"] by (metis list.size(3) zero_neq_numeral)
  show "encodePBKDF2 plain salt n \<noteq> []" by (simp add: encodePBKDF2_def)
  show "graphic (hd (encodePBKDF2 plain salt n))"
    by (simp add: encodePBKDF2_def pbkdf2Scheme_def graphic_def)
  have "last (encodePBKDF2 plain salt n) = last ?k" using k by (simp add: encodePBKDF2_def)
  then show "graphic (last (encodePBKDF2 plain salt n))" using rawStd_chars last_in_set [OF k] by metis
qed

lemma VerifyWebUIPassword_hash:
  assumes "salt \<noteq> []"
  shows "VerifyWebUIPassword plain (HashWebUIPassword salt q) =
    (pbkdf2Key plain salt 210000 32 = pbkdf2Key q salt 210000 32, False)"
proof -
  have "HasPrefix (HashWebUIPassword salt q) (pbkdf2Scheme @ ''$'')"
    by (simp add: HasPrefix_def HashWebUIPassword_def encodePBKDF2_def)
  moreover have "HashWebUIPassword salt q \<noteq> []"
    by (simp add: HashWebUIPassword_def encodePBKDF2_def)
  moreover have "TrimSpace (HashWebUIPassword salt q) = HashWebUIPassword salt q"
    by (simp add: HashWebUIPassword_def encoded_trim)
  ultimately show ?thesis
    using verify_encoded [of 210000 salt plain q] assms
    by (simp add: VerifyWebUIPassword_def Let_def) (simp add: HashWebUIPassword_def)
qed

section \<open>Imported keys\<close>

lemma importKeys_keeps: "set keys \<subseteq> set (fst (importKeys t i ids plains keys))"
proof (induction plains arbitrary: i keys)
  case (Cons p ps)
  have s: "set keys \<subseteq> set (fst (importKeys t (Suc i) ids ps (keys @ [k])))" for k
    using Cons.IH [of "keys @ [k]" "Suc i"] by simp
  show ?case using Cons.IH [of keys "Suc i"] s by (simp add: case_prod_beta)
qed simp

lemma hash_not_Nil: "HashAPIKey p \<noteq> []"
proof
  assume "HashAPIKey p = []"
  then have "length (HashAPIKey p) = 0" by simp
  then show False by (simp add: HashAPIKey_def length_Sum256)
qed

lemma importKeys_hash:
  assumes "p \<in> set plains"
  shows "HashAPIKey p \<in> kHash ` set (fst (importKeys t i ids plains keys))"
  using assms
proof (induction plains arbitrary: i keys)
  case (Cons q qs)
  show ?case
  proof (cases "p = q")
    case True
    let ?new = "\<lparr>kID = ids i, kName = ''env-import'', kHash = HashAPIKey q, kCreatedAt = t + int i,
        kLastUsedAt = 0, kDisabled = False\<rparr>"
    show ?thesis
    proof (cases "HashAPIKey q \<in> kHash ` set keys")
      case T: True
      then show ?thesis
        using importKeys_keeps [of keys t "Suc i" ids qs] True hash_not_Nil [of q] by auto
    next
      case False
      then have "?new \<in> set (fst (importKeys t (Suc i) ids qs (keys @ [?new])))"
        using importKeys_keeps [of "keys @ [?new]" t "Suc i" ids qs] by auto
      then have "HashAPIKey q \<in> kHash ` set (fst (importKeys t (Suc i) ids qs (keys @ [?new])))"
        by (rule rev_image_eqI) simp
      with True False show ?thesis by (simp add: case_prod_beta)
    qed
  next
    case False
    with Cons show ?thesis by (simp add: case_prod_beta)
  qed
qed simp

section \<open>Properties\<close>

text \<open>
  Saving is all or nothing. Whichever step fails (validation, temporary file, permissions,
  write, sync, close or rename), \<open>config.json\<close>, the published settings and the set of temporary
  files are as before; on success the file holds the encoded settings and no temporary file is left.
\<close>

theorem saveConfigAt_all_or_nothing:
  assumes "saveConfigAt fault cfg w = (res, w1)"
  shows "case res of
      Inl e \<Rightarrow> w1 = w
    | Inr u \<Rightarrow> diskConfig w1 = Some (jsonRoundTrip (toSaved cfg)) \<and> tempFiles w1 = tempFiles w \<and>
        0 \<le> cfgMaxRetry cfg \<and> 0 \<le> cfgMaxSessionsPerProxy cfg \<and> 0 \<le> cfgProxyCooldownMinutes cfg"
  using assms save_atomic [of fault cfg w] save_success [of fault cfg w] by (cases res) auto

definition sampleConfig :: Config where
  "sampleConfig = (DefaultConfig (\<lambda>k. None) ''db'')\<lparr>cfgHTTPPort := '':7802'', cfgSOCKS5Port := '':7801'',
     cfgWebUIPort := '':7800'', cfgWebUIPasswordHash := ''h'', cfgProxyAuthPassword := ''p'',
     cfgProxyAuthPasswordHash := ''q'', cfgSessionTTLMinutes := 1440, cfgMaxSessionsPerProxy := 2,
     cfgProxyCooldownMinutes := 0, cfgHealthIntervalMinutes := 5, cfgSingBoxPath := ''sing-box'',
     cfgSingBoxShardCount := 4, cfgMaxRetry := 3, cfgReadOnlyAPIRatePerMin := 60, cfgPublicHost := [],
     cfgDefaultRegion := ''US'', cfgBlockedCountries := [''CN''], cfgAllowedCountries := [''US''],
     cfgReadOnlyAPIKeys := [\<lparr>kID = ''i'', kName = ''n'', kHash = ''h'', kCreatedAt = 0, kLastUsedAt = 0,
       kDisabled = False\<rparr>]\<rparr>"

definition emptyWorld :: ConfigWorld where
  "emptyWorld = \<lparr>diskConfig = None, tempFiles = 0, globalCfg = None\<rparr>"

theorem saveConfigAt_all_or_nothing_witness:
  "fst (saveConfigAt (Some FailRename) sampleConfig emptyWorld) = Inl (ErrFS FailRename) \<and>
   snd (saveConfigAt (Some FailRename) sampleConfig emptyWorld) = emptyWorld"
proof -
  obtain w1 where "saveConfigAt (Some FailRename) sampleConfig emptyWorld = (Inl (ErrFS FailRename), w1)"
    by (simp add: saveConfigAt_def validateForSave_def sampleConfig_def Let_def)
  from saveConfigAt_all_or_nothing [OF this] this show ?thesis by simp
qed

text \<open>
  What is saved is what the next start reads. For settings in the form the program writes
  (normalised ports and country codes, positive intervals, non-empty lists), saving and loading
  again yields settings that are saved identically, whatever the environment variables say.
\<close>

theorem save_then_load_settings:
  assumes "savable cfg" "saveConfigAt fault cfg w = (Inr u, w1)"
  shows "toSaved (loadSettings env db (diskConfig w1)) = toSaved cfg"
  using save_success(1) [OF assms(2)] loaded_equals_saved [OF assms(1)] by simp

lemma sample_codes: "NormalizeCountryCode ''US'' = ''US''" "NormalizeCountryCode ''CN'' = ''CN''"
  by (simp_all add: NormalizeCountryCode_def TrimSpace_graphic graphic_def ToUpper_def toUpperChar_def
      isASCIILower_def decodeRune_def Let_def)

lemma sampleConfig_savable: "savable sampleConfig"
proof -
  have p: "normalizePort '':7802'' = '':7802''" "normalizePort '':7801'' = '':7801''"
    "normalizePort '':7800'' = '':7800''"
    by (simp_all add: normalizePort_def TrimSpace_graphic graphic_def HasPrefix_def)
  have "TrimSpace [] = []" by (simp add: TrimSpace_def stripLeft_def)
  with p sample_codes show ?thesis
    by (simp add: savable_def sampleConfig_def DefaultConfig_def NormalizeCountryCodes_def)
qed

theorem save_then_load_settings_witness:
  "cfgMaxSessionsPerProxy (loadSettings (\<lambda>k. Some ''9'') ''db''
     (diskConfig (snd (saveConfigAt None sampleConfig emptyWorld)))) = 2"
proof -
  obtain w1 where w1: "saveConfigAt None sampleConfig emptyWorld = (Inr (), w1)"
    by (simp add: saveConfigAt_def validateForSave_def sampleConfig_def Let_def)
  have "svMaxSessionsPerProxy (toSaved (loadSettings (\<lambda>k. Some ''9'') ''db'' (diskConfig w1))) =
      svMaxSessionsPerProxy (toSaved sampleConfig)"
    using save_then_load_settings [OF sampleConfig_savable w1] by simp
  then show ?thesis by (simp add: w1 toSaved_def) (simp add: sampleConfig_def)
qed

text \<open>
  A cleared block list does not survive a restart. When the operator empties the list, the saved
  file omits it, and the next start brings back the environment's list or the built-in one.
\<close>

theorem cleared_block_list_reappears:
  assumes "cfgBlockedCountries cfg = []" "env ''BLOCKED_COUNTRIES'' = None"
  shows "cfgBlockedCountries (loadSettings env db (Some (jsonRoundTrip (toSaved cfg)))) = [''CN'']"
  using cleared_list_reappears [of cfg env db] assms
  by (simp add: NormalizeCountryCodes_def envCountriesDefault_def)

theorem cleared_block_list_reappears_witness:
  "cfgBlockedCountries (loadSettings (\<lambda>k. None) ''db''
     (Some (jsonRoundTrip (toSaved (sampleConfig\<lparr>cfgBlockedCountries := []\<rparr>))))) = [''CN'']"
  by (rule cleared_block_list_reappears) simp_all

text \<open>
  First-start credentials work. When the bootstrap of a fresh installation succeeds, the login
  password shown once verifies against the stored hash without asking for an upgrade, the proxy
  password shown is accepted by the gateway's password check, and both are what is on disk.
\<close>

theorem bootstrap_credentials_verify:
  assumes "bootstrapCredentials rl salt rp fault cfg w = (Inr (c, info), w1)" "salt \<noteq> []"
    "cfgWebUIPasswordHash cfg = []" "cfgProxyAuthPasswordHash cfg = []"
  shows "VerifyWebUIPassword (fbWebUIPassword info) (cfgWebUIPasswordHash c) = (True, False) \<and>
    VerifyPassword (fbProxyAuthUsername info) (fbProxyAuthPassword info)
      (cfgProxyAuthUsername c) (cfgProxyAuthPassword c) (cfgProxyAuthPasswordHash c) \<and>
    diskConfig w1 = Some (jsonRoundTrip (toSaved c))"
proof -
  have c: "cfgWebUIPasswordHash c = HashWebUIPassword salt (fbWebUIPassword info)"
    "cfgProxyAuthUsername c = fbProxyAuthUsername info" "cfgProxyAuthPassword c = fbProxyAuthPassword info"
    "cfgProxyAuthPasswordHash c = passwordHash (fbProxyAuthPassword info)"
    "\<exists>u. saveConfigAt fault c w = (Inr u, w1)"
    using assms by (auto simp: bootstrapCredentials_def Let_def split: sum.splits prod.splits)
  then show ?thesis
    using VerifyWebUIPassword_hash [OF assms(2)] save_success(1)
    by (auto simp: VerifyPassword_def VerifyPasswordHash_def VerifyPlainPassword_def ConstantTimeCompare_def
        passwordHash_def Let_def)
qed

theorem bootstrap_credentials_verify_witness:
  "\<exists>c info w1. bootstrapCredentials ''abcdefghijklmnop'' ''0123456789abcdef'' ''ABCDEFGHIJKLMNOP'' None
       (sampleConfig\<lparr>cfgWebUIPasswordHash := [], cfgProxyAuthPasswordHash := []\<rparr>) emptyWorld = (Inr (c, info), w1) \<and>
     VerifyWebUIPassword (fbWebUIPassword info) (cfgWebUIPasswordHash c) = (True, False)"
proof -
  let ?cfg = "sampleConfig\<lparr>cfgWebUIPasswordHash := [], cfgProxyAuthPasswordHash := []\<rparr>"
  obtain c info w1 where b: "bootstrapCredentials ''abcdefghijklmnop'' ''0123456789abcdef'' ''ABCDEFGHIJKLMNOP'' None
      ?cfg emptyWorld = (Inr (c, info), w1)"
    by (simp add: bootstrapCredentials_def Let_def saveConfigAt_def validateForSave_def sampleConfig_def
        split: prod.split)
  have "VerifyWebUIPassword (fbWebUIPassword info) (cfgWebUIPasswordHash c) = (True, False)"
    using bootstrap_credentials_verify [OF b] by simp
  with b show ?thesis by blast
qed

text \<open>
  The stored login hash accepts exactly the passwords with the same PBKDF2-HMAC-SHA256 key, never
  requests an upgrade once in the new format, and an upgrade is only ever requested together with
  a successful check.
\<close>

theorem VerifyWebUIPassword_exact:
  assumes "salt \<noteq> []"
  shows "VerifyWebUIPassword plain (HashWebUIPassword salt q) =
      (pbkdf2Key plain salt 210000 32 = pbkdf2Key q salt 210000 32, False) \<and>
    (snd (VerifyWebUIPassword plain stored) \<longrightarrow> fst (VerifyWebUIPassword plain stored))"
  using VerifyWebUIPassword_hash [OF assms] by (simp add: VerifyWebUIPassword_def Let_def)

theorem VerifyWebUIPassword_exact_witness:
  "VerifyWebUIPassword ''secret'' (HashWebUIPassword ''salt'' ''secret'') = (True, False)"
  using VerifyWebUIPassword_exact [of "''salt''" "''secret''" "''secret''"] by simp

text \<open>
  Every key named in \<open>READONLY_API_KEYS\<close> authenticates after the import unless a disabled key with
  its fingerprint exists, keys already present are kept, and no plain key is stored (only the
  64-digit fingerprint).
\<close>

theorem imported_keys_authenticate:
  assumes "importReadOnlyAPIKeysFromEnv env t ids cfg = (cfg1, changed)"
    "p \<in> set (parseReadOnlyAPIKeysEnv (Getenv env ''READONLY_API_KEYS''))"
    "\<forall>k\<in>set (cfgReadOnlyAPIKeys cfg). \<not> kDisabled k" "p \<noteq> []"
  shows "ValidateReadOnlyAPIKey (Some cfg1) p \<and> set (cfgReadOnlyAPIKeys cfg) \<subseteq> set (cfgReadOnlyAPIKeys cfg1) \<and>
    length (HashAPIKey p) = 64"
proof -
  let ?imp = "importKeys t 0 ids (parseReadOnlyAPIKeysEnv (Getenv env ''READONLY_API_KEYS'')) (cfgReadOnlyAPIKeys cfg)"
  have c: "cfgReadOnlyAPIKeys cfg1 = fst ?imp"
    using assms(1) by (auto simp: importReadOnlyAPIKeysFromEnv_def Let_def split: prod.splits)
  have en: "\<not> kDisabled k" if "k \<in> set (fst (importKeys t i ids ps keys))" "\<forall>k\<in>set keys. \<not> kDisabled k"
    for k i ps keys
    using that by (induction ps arbitrary: i keys) (auto simp: case_prod_beta split: if_splits)
  from importKeys_hash [OF assms(2), of t 0 ids "cfgReadOnlyAPIKeys cfg"] obtain k where
    k: "k \<in> set (fst ?imp)" "kHash k = HashAPIKey p" by auto
  have "ValidateReadOnlyAPIKey (Some cfg1) p"
    using k en [OF k(1) assms(3)] assms(4) hash_not_Nil [of p]
    by (auto simp: ValidateReadOnlyAPIKey_def list_ex_iff c ConstantTimeCompare_def intro!: bexI [of _ k])
  then show ?thesis
    using importKeys_keeps [of "cfgReadOnlyAPIKeys cfg" t 0 ids] c by (simp add: HashAPIKey_def length_Sum256)
qed

theorem imported_keys_authenticate_witness:
  "ValidateReadOnlyAPIKey (Some (fst (importReadOnlyAPIKeysFromEnv
     (\<lambda>k. if k = ''READONLY_API_KEYS'' then Some ''k1,k2'' else None) 0 (\<lambda>i. ''id'') sampleConfig))) ''k2''"
proof -
  let ?env = "\<lambda>k. if k = ''READONLY_API_KEYS'' then Some ''k1,k2'' else None"
  have p: "''k2'' \<in> set (parseReadOnlyAPIKeysEnv (Getenv ?env ''READONLY_API_KEYS''))"
    by (simp add: parseReadOnlyAPIKeysEnv_def Getenv_def TrimSpace_graphic graphic_def SplitByte_def Let_def)
  obtain cfg1 ch where i: "importReadOnlyAPIKeysFromEnv ?env 0 (\<lambda>i. ''id'') sampleConfig = (cfg1, ch)"
    by (cases "importReadOnlyAPIKeysFromEnv ?env 0 (\<lambda>i. ''id'') sampleConfig")
  from imported_keys_authenticate [OF i p] i show ?thesis by (simp add: sampleConfig_def)
qed

end
