(* ===== verification/Selector.thy ===== *)
theory Selector
  imports StorageSpec Affinity Config
begin

text \<open>
  The package \<open>selector\<close>: \<open>selector.go\<close> and \<open>unlock_filter.go\<close>. The \<open>Store\<close> interface is a record of
  functions (the answers of one snapshot of the database, each call may fail); the session store is
  an option (\<open>None\<close> is a nil pointer) and is returned updated; \<open>config.Get()\<close> is an option;
  \<open>rnd n\<close> is \<open>rand.Intn(n)\<close>. Hashes are 64-bit words. The scores, computed in \<open>float64\<close> by the code,
  are real numbers here, so rounding is outside the model.
\<close>

section \<open>Interface and errors\<close>

record NodeStore =
  nsGetByRegion :: "string \<Rightarrow> int list \<Rightarrow> store_error + Proxy list"
  nsGetProxyByID :: "int \<Rightarrow> store_error + Proxy"
  nsGetProxyByAddress :: "string \<Rightarrow> store_error + Proxy"
  nsGetProxyByNodeKey :: "string \<Rightarrow> store_error + Proxy"
  nsIsSubscriptionPaused :: "int \<Rightarrow> store_error + bool"

text \<open>
  The errors: \<open>NoNode msg\<close> is any error that wraps \<open>ErrNoNode\<close> (\<open>errors.Is(err, ErrNoNode)\<close>) and reads
  \<open>msg\<close>; an error of the node store is passed through.
\<close>

datatype select_error =
    NoNode string
  | StoreFailed store_error

definition ErrNoNode :: string where
  "ErrNoNode = ''no available node''"

definition noNodeError :: "string \<Rightarrow> select_error" where
  "noNodeError region =
     (if region = [] then NoNode ErrNoNode else NoNode (ErrNoNode @ '' for region: '' @ region))"

definition noNodeCapacityError :: "string \<Rightarrow> select_error" where
  "noNodeCapacityError region =
     (if region = [] then NoNode (ErrNoNode @ '' (capacity)'')
      else NoNode (ErrNoNode @ '' for region: '' @ region @ '' (capacity)''))"

definition noNodeCooldownError :: "string \<Rightarrow> select_error" where
  "noNodeCooldownError region =
     (if region = [] then NoNode (ErrNoNode @ '' (cooldown)'')
      else NoNode (ErrNoNode @ '' for region: '' @ region @ '' (cooldown)''))"

section \<open>Filters\<close>

definition normalizeRegion_sel :: "string \<Rightarrow> string" where
  "normalizeRegion_sel region = ToLower (TrimSpace region)"

definition regionMismatch :: "string \<Rightarrow> string \<Rightarrow> bool" where
  "regionMismatch nodeRegion requestedRegion \<longleftrightarrow>
     requestedRegion \<noteq> [] \<and> normalizeRegion_sel nodeRegion \<noteq> normalizeRegion_sel requestedRegion"

definition bindingRegionMismatch :: "Binding \<Rightarrow> string \<Rightarrow> bool" where
  "bindingRegionMismatch b region = regionMismatch (bRegion b) region"

definition requestedOrBoundRegion :: "string \<Rightarrow> string \<Rightarrow> string" where
  "requestedOrBoundRegion requestedRegion boundRegion =
     (if requestedRegion \<noteq> [] then requestedRegion else boundRegion)"

definition excluded :: "int \<Rightarrow> int list \<Rightarrow> bool" where
  "excluded proxyID excludes = list_ex (\<lambda>e. e = proxyID) excludes"

definition unknownLatencyRank :: int where
  "unknownLatencyRank = 2 ^ 30"

definition latencyRank :: "int \<Rightarrow> int" where
  "latencyRank latency = (if latency \<le> 0 then unknownLatencyRank else latency)"

definition proxyAvailable :: "Proxy \<Rightarrow> bool" where
  "proxyAvailable p \<longleftrightarrow>
     \<not> pUserPaused p \<and> (pStatus p = ''active'' \<or> pStatus p = ''degraded'') \<and> pFailCount p < 3"

definition availableProxies :: "Proxy list \<Rightarrow> Proxy list" where
  "availableProxies ps = filter proxyAvailable ps"

text \<open>The map decoded from the stored AI object; a decoding error is ignored by the code.\<close>

definition aiMap :: "Proxy \<Rightarrow> (string \<times> int) list option" where
  "aiMap p =
     (let raw = TrimSpace (pAIReachability p) in
      if raw = [] then None else fst (unmarshalIntMap raw))"

definition unlockMet :: "Proxy \<Rightarrow> string \<Rightarrow> bool" where
  "unlockMet p req =
     (if req = ''cf'' then pCFBlocked p = 0
      else if req \<in> {''openai'', ''claude'', ''grok'', ''gemini''} then
        (case aiMap p of None \<Rightarrow> False | Some ai \<Rightarrow> map_of ai req = Some 0)
      else False)"

definition proxyMatchesUnlock :: "Proxy \<Rightarrow> string list \<Rightarrow> bool" where
  "proxyMatchesUnlock p unlock = (if unlock = [] then True else list_all (unlockMet p) unlock)"

definition filterByUnlock :: "Proxy list \<Rightarrow> string list \<Rightarrow> Proxy list" where
  "filterByUnlock ps unlock = (if unlock = [] then ps else filter (\<lambda>p. proxyMatchesUnlock p unlock) ps)"

section \<open>Session-less picks\<close>

definition pickStep :: "int \<times> Proxy list \<Rightarrow> Proxy \<Rightarrow> int \<times> Proxy list" where
  "pickStep st p =
     (case st of (bestRank, candidates) \<Rightarrow>
        let rank = latencyRank (pLatency p) in
        if rank < bestRank then (rank, [p])
        else if rank = bestRank then (bestRank, candidates @ [p])
        else st)"

definition lowestLatency :: "Proxy list \<Rightarrow> Proxy list" where
  "lowestLatency ps = snd (foldl pickStep (latencyRank (pLatency (hd ps)), [hd ps]) (tl ps))"

definition pickLowestLatency :: "(nat \<Rightarrow> nat) \<Rightarrow> Proxy list \<Rightarrow> Proxy" where
  "pickLowestLatency rnd ps = (let c = lowestLatency ps in c ! rnd (length c))"

definition PickUnlock ::
    "(nat \<Rightarrow> nat) \<Rightarrow> NodeStore \<Rightarrow> string \<Rightarrow> int list \<Rightarrow> string list \<Rightarrow> select_error + Proxy" where
  "PickUnlock rnd store region0 excludes unlock =
     (let region = normalizeRegion_sel region0 in
      case nsGetByRegion store region excludes of
        Inl e \<Rightarrow> Inl (StoreFailed e)
      | Inr ps \<Rightarrow>
          (let available = filterByUnlock (availableProxies ps) unlock in
           if available = [] then Inl (noNodeError region)
           else Inr (pickLowestLatency rnd available)))"

definition Pick :: "(nat \<Rightarrow> nat) \<Rightarrow> NodeStore \<Rightarrow> string \<Rightarrow> int list \<Rightarrow> select_error + Proxy" where
  "Pick rnd store region excludes = PickUnlock rnd store region excludes []"

section \<open>Stable hashing of a session over the candidates\<close>

type_synonym u64 = "64 word"

unbundle bit_operations_syntax

definition sessionFNV64Offset :: u64 where
  "sessionFNV64Offset = 14695981039346656037"

definition sessionFNV64Prime :: u64 where
  "sessionFNV64Prime = 1099511628211"

definition sessionFNVWriteByte :: "u64 \<Rightarrow> char \<Rightarrow> u64" where
  "sessionFNVWriteByte hash value = (hash XOR word_of_nat (byte value)) * sessionFNV64Prime"

definition sessionFNVWriteString :: "u64 \<Rightarrow> string \<Rightarrow> u64" where
  "sessionFNVWriteString hash value = foldl sessionFNVWriteByte hash value"

text \<open>
  Filling the 20-byte buffer from its end: \<open>None\<close> would be an index below zero.
\<close>

fun digitLoop :: "nat \<Rightarrow> u64 \<Rightarrow> string \<Rightarrow> string option" where
  "digitLoop 0 m ds = (if m = 0 then Some ds else None)"
| "digitLoop (Suc index) m ds =
     (if m = 0 then Some ds
      else digitLoop index (m div 10) (char_of (48 + unat (m mod 10)) # ds))"

definition magnitude64 :: "int \<Rightarrow> u64" where
  "magnitude64 v = (if v < 0 then word_of_int (- (v + 1)) + 1 else word_of_int v)"

definition int64Digits :: "int \<Rightarrow> string option" where
  "int64Digits v = (let m = magnitude64 v in if m = 0 then Some ''0'' else digitLoop 20 m [])"

definition sessionFNVWriteInt64 :: "u64 \<Rightarrow> int \<Rightarrow> u64 option" where
  "sessionFNVWriteInt64 hash v =
     (let hash1 = (if v < 0 then sessionFNVWriteByte hash CHR ''-'' else hash) in
      map_option (sessionFNVWriteString hash1) (int64Digits v))"

definition sessionHashSeed :: "string \<Rightarrow> u64" where
  "sessionHashSeed session =
     sessionFNVWriteByte (sessionFNVWriteString sessionFNV64Offset session) (char_of (0 :: nat))"

text \<open>The hash of a candidate; the option is the buffer bound of \<open>sessionFNVWriteInt64\<close>.\<close>

definition sessionProxyHash :: "u64 \<Rightarrow> Proxy \<Rightarrow> u64 option" where
  "sessionProxyHash seed p =
     (if pID p \<noteq> 0 then sessionFNVWriteInt64 (sessionFNVWriteString seed ''id:'') (pID p)
      else if pNodeKey p \<noteq> [] then
        Some (sessionFNVWriteString (sessionFNVWriteString seed ''key:'') (pNodeKey p))
      else Some (sessionFNVWriteString (sessionFNVWriteString seed ''address:'') (pAddress p)))"

definition mixSessionHash :: "u64 \<Rightarrow> u64" where
  "mixSessionHash v0 =
     (let v1 = v0 XOR drop_bit 30 v0;
          v2 = v1 * 0xbf58476d1ce4e5b9;
          v3 = v2 XOR drop_bit 27 v2;
          v4 = v3 * 0x94d049bb133111eb
      in v4 XOR drop_bit 31 v4)"

section \<open>Weights and scores\<close>

definition sessionLatencyWeight :: "int \<Rightarrow> real" where
  "sessionLatencyWeight latency =
     (if latency \<le> 0 then 1 else 1 + 250 / (250 + real_of_int latency))"

definition sessionReliabilityWeight :: "Proxy \<Rightarrow> real" where
  "sessionReliabilityWeight p =
     (let uses = (if pUseCount p < 0 then 0 else pUseCount p);
          successes0 = (if pSuccessCount p < 0 then 0 else pSuccessCount p);
          successes = (if successes0 > uses then uses else successes0);
          rate = (real_of_int successes + 2) / (real_of_int uses + 4)
      in 0.75 + 0.5 * rate)"

definition sessionLoadWeight :: "int \<Rightarrow> real" where
  "sessionLoadWeight activeBindings0 =
     (let activeBindings = (if activeBindings0 < 0 then 0 else activeBindings0)
      in 0.5 + (1 - 0.5) / (1 + real_of_int activeBindings))"

definition sessionCandidateWeight :: "Proxy \<Rightarrow> int \<Rightarrow> real" where
  "sessionCandidateWeight p activeBindings =
     sessionLatencyWeight (pLatency p) * sessionReliabilityWeight p * sessionLoadWeight activeBindings"

text \<open>The 53-bit sample of the mixed hash, in (0, 1].\<close>

definition hashSample :: "u64 option \<Rightarrow> real" where
  "hashSample h =
     (case h of
        None \<Rightarrow> 1
      | Some raw \<Rightarrow> real (unat (drop_bit 11 (mixSessionHash raw) + 1)) / 2 ^ 53)"

definition sessionRendezvousScoreWithSeed :: "u64 \<Rightarrow> Proxy \<Rightarrow> int \<Rightarrow> real" where
  "sessionRendezvousScoreWithSeed seed p activeBindings =
     - ln (hashSample (sessionProxyHash seed p)) / sessionCandidateWeight p activeBindings"

definition sessionRendezvousScoreWithLoad :: "string \<Rightarrow> Proxy \<Rightarrow> int \<Rightarrow> real" where
  "sessionRendezvousScoreWithLoad session p activeBindings =
     sessionRendezvousScoreWithSeed (sessionHashSeed session) p activeBindings"

definition sessionRendezvousScore :: "string \<Rightarrow> Proxy \<Rightarrow> real" where
  "sessionRendezvousScore session p = sessionRendezvousScoreWithLoad session p 0"

definition activeBindingCounts :: "SessionStore option \<Rightarrow> int \<Rightarrow> int" where
  "activeBindingCounts sessions pid =
     (case sessions of
        None \<Rightarrow> 0
      | Some s \<Rightarrow>
          if pid > 0 then int (length (filter (\<lambda>b. sbProxyID b = pid) (ListSessions s))) else 0)"

definition sessionProxyIdentity :: "Proxy \<Rightarrow> string" where
  "sessionProxyIdentity p =
     (if pID p \<noteq> 0 then ''id:'' @ fmtInt (pID p)
      else if pNodeKey p \<noteq> [] then ''key:'' @ pNodeKey p
      else ''address:'' @ pAddress p)"

text \<open>The separator is the four characters backslash, x, 0, 0, as the escaped format string has it.\<close>

definition tieSeparator :: string where
  "tieSeparator = [CHR 0x5C, CHR ''x'', CHR ''0'', CHR ''0'']"

definition sessionProxyTieKey :: "Proxy \<Rightarrow> string" where
  "sessionProxyTieKey p =
     sessionProxyIdentity p @ tieSeparator @ pNodeKey p @ tieSeparator @ pAddress p @ tieSeparator @
     fmtInt (pID p)"

text \<open>One step of the loop: the state is the pick, its score and its tie key once computed.\<close>

definition candidateStep ::
    "(Proxy \<Rightarrow> real) \<Rightarrow> Proxy \<times> real \<times> string option \<Rightarrow> Proxy \<Rightarrow> Proxy \<times> real \<times> string option" where
  "candidateStep score st p =
     (case st of (picked, bestScore, tie) \<Rightarrow>
        if score p < bestScore then (p, score p, None)
        else if score p = bestScore then
          (let bestTieKey = (case tie of None \<Rightarrow> sessionProxyTieKey picked | Some k \<Rightarrow> k);
               tieKey = sessionProxyTieKey p in
           if tieKey < bestTieKey then (p, bestScore, Some tieKey)
           else (picked, bestScore, Some bestTieKey))
        else st)"

definition pickSessionCandidateWithAffinity ::
    "Proxy list \<Rightarrow> string \<Rightarrow> SessionStore option \<Rightarrow> Proxy" where
  "pickSessionCandidateWithAffinity ps session sessions =
     (let score = (\<lambda>p. sessionRendezvousScoreWithSeed (sessionHashSeed session) p
                          (activeBindingCounts sessions (pID p)))
      in fst (foldl (candidateStep score) (hd ps, score (hd ps), None) (tl ps)))"

definition pickSessionCandidate :: "Proxy list \<Rightarrow> string \<Rightarrow> Proxy" where
  "pickSessionCandidate ps session = pickSessionCandidateWithAffinity ps session None"

section \<open>Capacity and cooldown\<close>

definition maxSessionsPerProxy :: "Config option \<Rightarrow> int" where
  "maxSessionsPerProxy cfg =
     (case cfg of None \<Rightarrow> 0 | Some c \<Rightarrow> if cfgMaxSessionsPerProxy c < 0 then 0 else cfgMaxSessionsPerProxy c)"

definition proxyCooldownMinutes :: "Config option \<Rightarrow> int" where
  "proxyCooldownMinutes cfg =
     (case cfg of None \<Rightarrow> 0 | Some c \<Rightarrow> if cfgProxyCooldownMinutes c < 0 then 0 else cfgProxyCooldownMinutes c)"

text \<open>The loops of the two filters; the lookups purge stale entries, so the store is threaded through.\<close>

fun occupancyLoop :: "Proxy list \<Rightarrow> int \<Rightarrow> SessionStore \<Rightarrow> Proxy list \<times> SessionStore" where
  "occupancyLoop [] maxSessions s = ([], s)"
| "occupancyLoop (p # ps) maxSessions s =
     (case CountByProxy (pID p) s of
        (n, s1) \<Rightarrow>
          (case occupancyLoop ps maxSessions s1 of
             (out, s2) \<Rightarrow> (if int n < maxSessions then p # out else out, s2)))"

definition filterByOccupancy ::
    "Proxy list \<Rightarrow> SessionStore option \<Rightarrow> int \<Rightarrow> Proxy list \<times> SessionStore option" where
  "filterByOccupancy ps sessions maxSessions =
     (case sessions of
        None \<Rightarrow> (ps, None)
      | Some s \<Rightarrow>
          if maxSessions \<le> 0 then (ps, Some s)
          else (case occupancyLoop ps maxSessions s of (out, s1) \<Rightarrow> (out, Some s1)))"

fun cooldownLoop :: "Proxy list \<Rightarrow> SessionStore \<Rightarrow> Proxy list \<times> SessionStore" where
  "cooldownLoop [] s = ([], s)"
| "cooldownLoop (p # ps) s =
     (case InCooldown (pID p) s of
        (c, s1) \<Rightarrow>
          (case cooldownLoop ps s1 of
             (out, s2) \<Rightarrow> (if \<not> c then p # out else out, s2)))"

definition filterByCooldown ::
    "Proxy list \<Rightarrow> SessionStore option \<Rightarrow> Proxy list \<times> SessionStore option" where
  "filterByCooldown ps sessions =
     (case sessions of
        None \<Rightarrow> (ps, None)
      | Some s \<Rightarrow> (case cooldownLoop ps s of (out, s1) \<Rightarrow> (out, Some s1)))"

text \<open>
  The two optional filters of \<open>pickForSession\<close>: \<open>None\<close> says that the filter ran and left no candidate.
\<close>

definition occupancyStage ::
    "Proxy list \<Rightarrow> int \<Rightarrow> SessionStore option \<Rightarrow> Proxy list option \<times> SessionStore option" where
  "occupancyStage available maxSessions sessions =
     (if maxSessions > 0 \<and> sessions \<noteq> None then
        (case filterByOccupancy available sessions maxSessions of
           (filtered, ss) \<Rightarrow> (if filtered = [] then None else Some filtered, ss))
      else (Some available, sessions))"

definition cooldownStage ::
    "Proxy list \<Rightarrow> int \<Rightarrow> SessionStore option \<Rightarrow> Proxy list option \<times> SessionStore option" where
  "cooldownStage available cooldownMinutes sessions =
     (if cooldownMinutes > 0 \<and> sessions \<noteq> None then
        (case filterByCooldown available sessions of
           (filtered, ss) \<Rightarrow> (if filtered = [] then None else Some filtered, ss))
      else (Some available, sessions))"

definition pickForSession ::
    "NodeStore \<Rightarrow> SessionStore option \<Rightarrow> string \<Rightarrow> string \<Rightarrow> int list \<Rightarrow> int \<Rightarrow> int \<Rightarrow> string list \<Rightarrow>
     (select_error + Proxy) \<times> SessionStore option" where
  "pickForSession store sessions region0 session excludes maxSessions cooldownMinutes unlock =
     (let region = normalizeRegion_sel region0 in
      case nsGetByRegion store region excludes of
        Inl e \<Rightarrow> (Inl (StoreFailed e), sessions)
      | Inr ps \<Rightarrow>
          (let available = filterByUnlock (availableProxies ps) unlock in
           if available = [] then (Inl (noNodeError region), sessions)
           else
             (case occupancyStage available maxSessions sessions of
                (None, ss) \<Rightarrow> (Inl (noNodeCapacityError region), ss)
              | (Some avail1, ss) \<Rightarrow>
                  (case cooldownStage avail1 cooldownMinutes ss of
                     (None, ss1) \<Rightarrow> (Inl (noNodeCooldownError region), ss1)
                   | (Some avail2, ss1) \<Rightarrow>
                       (Inr (pickSessionCandidateWithAffinity avail2 session ss1), ss1)))))"

section \<open>Resolving a route\<close>

definition parentNotPausedFor :: "NodeStore \<Rightarrow> Proxy \<Rightarrow> bool" where
  "parentNotPausedFor store p \<longleftrightarrow>
     (pSubscriptionID p > 0 \<longrightarrow> nsIsSubscriptionPaused store (pSubscriptionID p) = Inr False)"

definition resolvePinnedNode ::
    "NodeStore \<Rightarrow> ParsedUsername \<Rightarrow> int list \<Rightarrow> select_error + Proxy" where
  "resolvePinnedNode store route excludes =
     (let lookup = (if HasPrefix (uNode route) ''key-''
                    then nsGetProxyByNodeKey store (TrimPrefix (uNode route) ''key-'')
                    else nsGetProxyByAddress store (uNode route)) in
      case lookup of
        Inl e \<Rightarrow> Inl (noNodeError (uRegion route))
      | Inr p \<Rightarrow>
          if excluded (pID p) excludes then Inl (noNodeError (uRegion route))
          else if \<not> proxyAvailable p then Inl (noNodeError (uRegion route))
          else if regionMismatch (pRegion p) (uRegion route) then Inl (noNodeError (uRegion route))
          else if \<not> proxyMatchesUnlock p (uUnlock route) then Inl (noNodeError (uRegion route))
          else if \<not> parentNotPausedFor store p then Inl (noNodeError (uRegion route))
          else Inr p)"

definition stickyBoundProxy ::
    "NodeStore \<Rightarrow> SessionStore option \<Rightarrow> ParsedUsername \<Rightarrow> int list \<Rightarrow> Proxy option \<times> SessionStore option" where
  "stickyBoundProxy store sessions route excludes =
     (case sessions of
        None \<Rightarrow> (None, None)
      | Some s \<Rightarrow>
          (case Get (uSession route) s of
             (None, s1) \<Rightarrow> (None, Some s1)
           | (Some b, s1) \<Rightarrow>
               if bProxyID b \<le> 0 \<or> excluded (bProxyID b) excludes \<or> bindingRegionMismatch b (uRegion route)
               then (None, Some s1)
               else
                 (case nsGetProxyByID store (bProxyID b) of
                    Inl e \<Rightarrow> (None, Some s1)
                  | Inr p \<Rightarrow>
                      if \<not> proxyAvailable p \<or> regionMismatch (pRegion p) (uRegion route) then (None, Some s1)
                      else if \<not> proxyMatchesUnlock p (uUnlock route) then (None, Some s1)
                      else if \<not> parentNotPausedFor store p then (None, Some s1)
                      else (Some p, Some s1))))"

text \<open>Both branches of \<open>releaseStaleBinding\<close> remove the binding and return the same region.\<close>

definition releaseStaleBinding :: "SessionStore \<Rightarrow> ParsedUsername \<Rightarrow> int list \<Rightarrow> string \<times> SessionStore" where
  "releaseStaleBinding s route excludes =
     (case Get (uSession route) s of
        (None, s1) \<Rightarrow> (uRegion route, s1)
      | (Some b, s1) \<Rightarrow>
          (let rebindRegion = requestedOrBoundRegion (uRegion route) (bRegion b) in
           if bProxyID b \<le> 0 \<or> excluded (bProxyID b) excludes \<or> bindingRegionMismatch b (uRegion route)
           then (rebindRegion, Remove (uSession route) s1)
           else (rebindRegion, Remove (uSession route) s1)))"

definition minuteNanos :: int where
  "minuteNanos = 60000000000"

text \<open>\<open>time.Duration(m) * time.Minute\<close> is an \<open>int64\<close> product.\<close>

definition wrap64 :: "int \<Rightarrow> int" where
  "wrap64 x = (x + 2 ^ 63) mod 2 ^ 64 - 2 ^ 63"

definition cooldownNanos :: "int \<Rightarrow> int" where
  "cooldownNanos cooldownMinutes = wrap64 (cooldownMinutes * minuteNanos)"

text \<open>The clock of the session store; the system time \<open>sysNow\<close> stands in when there is none.\<close>

definition sessionsNow :: "int \<Rightarrow> SessionStore option \<Rightarrow> int" where
  "sessionsNow sysNow sessions = (case sessions of None \<Rightarrow> sysNow | Some s \<Rightarrow> Now s)"

text \<open>Writing the binding of a first bind and opening its cooldown window.\<close>

definition bindSession :: "ParsedUsername \<Rightarrow> Proxy \<Rightarrow> int \<Rightarrow> SessionStore \<Rightarrow> SessionStore" where
  "bindSession route p cooldownMinutes s =
     (let s1 = SetProxy (uSession route) (pID p) (pAddress p) (pRegion p) s in
      if cooldownMinutes > 0 then SetCooldown (pID p) (sessionsNow 0 (Some s1) + cooldownNanos cooldownMinutes) s1
      else s1)"

text \<open>The first-bind section of a pinned route with a session, under the first-bind lock.\<close>

definition pinnedSection ::
    "Config option \<Rightarrow> ParsedUsername \<Rightarrow> Proxy \<Rightarrow> SessionStore \<Rightarrow> (select_error + Proxy) \<times> SessionStore" where
  "pinnedSection cfg route p s =
     (case Get (uSession route) s of
        (got, s1) \<Rightarrow>
          if (case got of Some b \<Rightarrow> bProxyID b = pID p | None \<Rightarrow> False) then (Inr p, s1)
          else
            (let maxSessions = maxSessionsPerProxy cfg;
                 counted = (if maxSessions > 0 then CountByProxy (pID p) s1 else (0, s1));
                 full = (maxSessions > 0 \<and> int (fst counted) \<ge> maxSessions);
                 s2 = snd counted in
             if full then (Inl (noNodeCapacityError (uRegion route)), s2)
             else
               (let cooldownMinutes = proxyCooldownMinutes cfg;
                    cooled = (if cooldownMinutes > 0 then InCooldown (pID p) s2 else (False, s2));
                    s3 = snd cooled in
                if cooldownMinutes > 0 \<and> fst cooled then (Inl (noNodeCooldownError (uRegion route)), s3)
                else (Inr p, bindSession route p cooldownMinutes s3))))"

text \<open>The first-bind section of an unpinned session, under the first-bind lock.\<close>

definition firstBindSection ::
    "NodeStore \<Rightarrow> Config option \<Rightarrow> ParsedUsername \<Rightarrow> int list \<Rightarrow> SessionStore \<Rightarrow>
     (select_error + Proxy) \<times> SessionStore" where
  "firstBindSection store cfg route excludes s =
     (case stickyBoundProxy store (Some s) route excludes of
        (Some p, ss) \<Rightarrow> (Inr p, the ss)
      | (None, ss) \<Rightarrow>
          (case releaseStaleBinding (the ss) route excludes of
             (rebindRegion, s2) \<Rightarrow>
               (case pickForSession store (Some s2) rebindRegion (uSession route) excludes
                       (maxSessionsPerProxy cfg) (proxyCooldownMinutes cfg) (uUnlock route) of
                  (Inl e, ss3) \<Rightarrow> (Inl e, the ss3)
                | (Inr p, ss3) \<Rightarrow> (Inr p, bindSession route p (proxyCooldownMinutes cfg) (the ss3)))))"

definition Resolve ::
    "(nat \<Rightarrow> nat) \<Rightarrow> NodeStore \<Rightarrow> Config option \<Rightarrow> SessionStore option \<Rightarrow> ParsedUsername \<Rightarrow> int list \<Rightarrow>
     (select_error + Proxy) \<times> SessionStore option" where
  "Resolve rnd store cfg sessions route excludes =
     (if uNode route \<noteq> [] then
        (case resolvePinnedNode store route excludes of
           Inl e \<Rightarrow> (Inl e, sessions)
         | Inr p \<Rightarrow>
             if uSession route = [] then (Inr p, sessions)
             else
               (case sessions of
                  None \<Rightarrow> (Inr p, None)
                | Some s \<Rightarrow> map_prod id Some (pinnedSection cfg route p s)))
      else if uSession route = [] then
        (PickUnlock rnd store (uRegion route) excludes (uUnlock route), sessions)
      else
        (case stickyBoundProxy store sessions route excludes of
           (Some p, ss) \<Rightarrow> (Inr p, ss)
         | (None, ss) \<Rightarrow>
             (case ss of
                None \<Rightarrow>
                  pickForSession store None (uRegion route) (uSession route) excludes
                    (maxSessionsPerProxy cfg) (proxyCooldownMinutes cfg) (uUnlock route)
              | Some s \<Rightarrow> map_prod id Some (firstBindSection store cfg route excludes s))))"

end
