(* ===== verification/SelectorHistory.thy ===== *)
theory SelectorHistory
  imports Selector
begin

text \<open>
  The mechanics of the package \<open>selector\<close>: the hash and the weights, the pick among candidates, what the
  locked sections of \<open>Resolve\<close> do to the session store, and the histories in which requests interleave.
\<close>

section \<open>Hashing\<close>

lemma digitLoop_digits:
  assumes "unat m < 10 ^ n" "m \<noteq> 0"
  shows "digitLoop n m ds = Some (natDigits (unat m) @ ds)"
  using assms
proof (induction n arbitrary: m ds)
  case 0
  then show ?case by (simp add: unat_eq_zero)
next
  case (Suc n)
  have d: "unat (m div 10) = unat m div 10" "unat (m mod 10) = unat m mod 10"
    by (simp_all add: unat_div_distrib unat_mod_distrib)
  show ?case
  proof (cases "unat m < 10")
    case True
    then have "m div 10 = 0" using d(1) by (simp add: unat_eq_zero [symmetric])
    with True Suc.prems(2) d(2) show ?thesis
      by (cases n) (simp_all add: natDigits.simps [of "unat m"])
  next
    case False
    then have "m div 10 \<noteq> 0" using d(1) by (metis div_eq_0_iff unat_0 zero_neq_numeral)
    moreover have "unat (m div 10) < 10 ^ n" using Suc.prems(1) d(1) by (simp add: less_mult_imp_div_less mult.commute)
    ultimately show ?thesis
      using Suc.IH [of "m div 10"] Suc.prems(2) d False by (simp add: natDigits.simps [of "unat m"])
  qed
qed

lemma magnitude64_unat:
  assumes "- (2 ^ 63) \<le> v" "v < 2 ^ 63"
  shows "unat (magnitude64 v) = nat \<bar>v\<bar>"
proof (cases "v < 0")
  case True
  have "word_of_int (- (v + 1)) + 1 = (word_of_int (- v) :: 64 word)"
    by (metis add.commute add_uminus_conv_diff minus_add_distrib uminus_add_conv_diff diff_add_cancel of_int_1 of_int_add)
  then have "magnitude64 v = word_of_int (- v)" using True by (simp only: magnitude64_def if_True)
  with True assms show ?thesis by (simp only: unsigned_of_int) (simp add: take_bit_int_eq_self)
next
  case False
  with assms show ?thesis by (simp add: magnitude64_def unsigned_of_int take_bit_int_eq_self)
qed

lemma int64Digits_text:
  assumes "- (2 ^ 63) \<le> v" "v < 2 ^ 63"
  shows "int64Digits v = Some (natDigits (nat \<bar>v\<bar>))"
proof (cases "v = 0")
  case True
  have "CHR ''0'' = char_of (48 :: nat)" by code_simp
  with True show ?thesis by (simp add: int64Digits_def magnitude64_def natDigits.simps [of 0])
next
  case False
  note u = magnitude64_unat [OF assms]
  from False have nz: "magnitude64 v \<noteq> 0" using u by (metis nat_0_iff abs_le_zero_iff unat_0)
  have "unat (magnitude64 v) < 10 ^ 20" using unsigned_less [of "magnitude64 v", where 'a = nat] by simp
  from digitLoop_digits [OF this nz, of "[]"] nz u show ?thesis by (simp add: int64Digits_def Let_def)
qed

lemma sessionProxyHash_identity:
  assumes "- (2 ^ 63) \<le> pID p" "pID p < 2 ^ 63"
  shows "sessionProxyHash seed p = Some (sessionFNVWriteString seed (sessionProxyIdentity p))"
  using int64Digits_text [OF assms]
  by (auto simp: sessionProxyHash_def sessionFNVWriteInt64_def sessionProxyIdentity_def fmtInt_def
      sessionFNVWriteString_def Let_def)

section \<open>Weights and scores\<close>

lemma latencyWeight_bounds: "1 \<le> sessionLatencyWeight l \<and> sessionLatencyWeight l < 2"
  by (simp add: sessionLatencyWeight_def)

lemma reliabilityWeight_bounds: "0.75 < sessionReliabilityWeight p \<and> sessionReliabilityWeight p < 1.25"
proof -
  define u where "u = (if pUseCount p < 0 then 0 else pUseCount p)"
  define s0 where "s0 = (if pSuccessCount p < 0 then 0 else pSuccessCount p)"
  define s where "s = (if s0 > u then u else s0)"
  have "0 \<le> u" "0 \<le> s" "s \<le> u" by (simp_all add: u_def s0_def s_def)
  then have "0 \<le> real_of_int u" "0 \<le> real_of_int s" "real_of_int s \<le> real_of_int u" by simp_all
  then have "0 < (real_of_int s + 2) / (real_of_int u + 4)" "(real_of_int s + 2) / (real_of_int u + 4) < 1"
    by (simp_all add: field_simps)
  then obtain rate where rate_def: "rate = (real_of_int s + 2) / (real_of_int u + 4)"
    and r: "0 < rate" "rate < 1" by blast
  from r have "0.75 < 0.75 + 0.5 * rate \<and> 0.75 + 0.5 * rate < 1.25" by simp
  then show ?thesis
    by (simp only: rate_def sessionReliabilityWeight_def Let_def u_def [symmetric] s0_def [symmetric] s_def [symmetric])
qed

lemma loadWeight_bounds: "0.5 < sessionLoadWeight n \<and> sessionLoadWeight n \<le> 1"
  by (simp add: sessionLoadWeight_def Let_def field_simps)

lemma candidateWeight_bounds: "0.375 < sessionCandidateWeight p n \<and> sessionCandidateWeight p n < 2.5"
proof -
  define a b c where "a = sessionLatencyWeight (pLatency p)" and "b = sessionReliabilityWeight p"
    and "c = sessionLoadWeight n"
  have a: "1 \<le> a" "a < 2" and b: "0.75 < b" "b < 1.25" and c: "0.5 < c" "c \<le> 1"
    using latencyWeight_bounds reliabilityWeight_bounds loadWeight_bounds by (simp_all add: a_def b_def c_def)
  have ab: "0.75 < a * b" "a * b < 2.5"
    using less_le_trans [OF b(1) mult_right_mono [of 1 a b, simplified]] mult_strict_mono [of a 2 b "1.25"] a b
    by simp_all
  have "0.75 * 0.5 < (a * b) * c" using ab c by (intro mult_strict_mono) simp_all
  moreover have "(a * b) * c \<le> a * b" using ab c by (simp add: mult_left_le)
  ultimately show ?thesis using ab by (simp add: sessionCandidateWeight_def a_def b_def c_def)
qed

lemma hashSample_bounds: "0 < hashSample h \<and> hashSample h \<le> 1"
proof (cases h)
  case None
  then show ?thesis by (simp add: hashSample_def)
next
  case (Some raw)
  define x where "x = drop_bit 11 (mixSessionHash raw)"
  have "unat x < 2 ^ 53"
    using unsigned_less [of "mixSessionHash raw", where 'a = nat]
    by (simp add: x_def unat_drop_bit_eq del: unsigned_less) (simp add: drop_bit_eq_div)
  then have "unat (x + 1) = unat x + 1" by (simp add: unat_word_ariths)
  with \<open>unat x < 2 ^ 53\<close> have n: "0 < unat (x + 1)" "unat (x + 1) \<le> 2 ^ 53" by simp_all
  define y where "y = real (unat (x + 1))"
  have "0 < y" "y \<le> 2 ^ 53"
    using n of_nat_0_less_iff [where 'a = real] of_nat_mono [OF n(2), where 'a = real]
    unfolding y_def by (blast, simp only: of_nat_power of_nat_numeral)
  moreover have "hashSample h = y / 2 ^ 53" by (simp only: Some hashSample_def x_def y_def option.case)
  ultimately show ?thesis by simp
qed

lemma score_bounds: "0 \<le> sessionRendezvousScoreWithSeed seed p n"
  using hashSample_bounds [of "sessionProxyHash seed p"] candidateWeight_bounds [of p n]
  by (simp add: sessionRendezvousScoreWithSeed_def divide_le_0_iff)

section \<open>The pick among the candidates\<close>

definition rankedBy :: "(Proxy \<Rightarrow> real) \<Rightarrow> Proxy \<Rightarrow> real \<times> string" where
  "rankedBy score p = (score p, sessionProxyTieKey p)"

fun pickState :: "(Proxy \<Rightarrow> real) \<Rightarrow> Proxy \<times> real \<times> string option \<Rightarrow> bool" where
  "pickState score (q, best, tie) \<longleftrightarrow> best = score q \<and> (tie = None \<or> tie = Some (sessionProxyTieKey q))"

lemma candidateStep_better:
  assumes "pickState score (q, best, tie)"
  shows "pickState score (candidateStep score (q, best, tie) p)"
    "fst (candidateStep score (q, best, tie) p) = (if rankedBy score p < rankedBy score q then p else q)"
  using assms by (auto simp: candidateStep_def rankedBy_def Let_def split: option.split)

lemma candidateFold_least:
  assumes "pickState score st"
  shows "fst (foldl (candidateStep score) st ps) \<in> insert (fst st) (set ps) \<and>
    (\<forall>p\<in>insert (fst st) (set ps). rankedBy score (fst (foldl (candidateStep score) st ps)) \<le> rankedBy score p)"
  using assms
proof (induction ps arbitrary: st)
  case Nil
  then show ?case by simp
next
  case (Cons p ps)
  obtain q best tie where st: "st = (q, best, tie)" by (cases st)
  note b = candidateStep_better [OF Cons.prems [unfolded st], of p, folded st]
  let ?r = "foldl (candidateStep score) (candidateStep score st p) ps"
  from Cons.IH [OF b(1)] b(2) have
    mem: "fst ?r \<in> insert (if rankedBy score p < rankedBy score q then p else q) (set ps)" and
    le: "\<forall>x\<in>insert (if rankedBy score p < rankedBy score q then p else q) (set ps).
      rankedBy score (fst ?r) \<le> rankedBy score x" by auto
  have "rankedBy score (fst ?r) \<le> rankedBy score p" "rankedBy score (fst ?r) \<le> rankedBy score q"
    using le by (auto split: if_splits intro: order_trans less_imp_le)
  with mem le st show ?case by (auto split: if_splits)
qed

definition sessionScore :: "string \<Rightarrow> SessionStore option \<Rightarrow> Proxy \<Rightarrow> real" where
  "sessionScore session sessions p = sessionRendezvousScoreWithSeed (sessionHashSeed session) p
     (activeBindingCounts sessions (pID p))"

lemma pickSession_least:
  assumes "ps \<noteq> []"
  shows "pickSessionCandidateWithAffinity ps session sessions \<in> set ps"
    "p \<in> set ps \<Longrightarrow> rankedBy (sessionScore session sessions) (pickSessionCandidateWithAffinity ps session sessions) \<le>
       rankedBy (sessionScore session sessions) p"
proof -
  obtain a as where ps: "ps = a # as" using assms by (cases ps) auto
  let ?f = "sessionScore session sessions"
  have eq: "pickSessionCandidateWithAffinity ps session sessions =
      fst (foldl (candidateStep ?f) (a, ?f a, None) as)"
    by (simp add: ps pickSessionCandidateWithAffinity_def sessionScore_def [abs_def] Let_def)
  have "pickState ?f (a, ?f a, None)" by simp
  from candidateFold_least [OF this, of as]
  show "pickSessionCandidateWithAffinity ps session sessions \<in> set ps"
    "p \<in> set ps \<Longrightarrow> rankedBy ?f (pickSessionCandidateWithAffinity ps session sessions) \<le> rankedBy ?f p"
    unfolding eq by (simp_all add: ps) blast
qed

lemma digits_before_separator:
  assumes "natDigits m @ tieSeparator @ u = natDigits n @ tieSeparator @ v"
  shows "m = n"
proof -
  have "takeWhile isDigitChar (natDigits k @ tieSeparator @ w) = natDigits k" for k w
    using natDigits_digit [of k] by (simp add: tieSeparator_def isDigitChar_def takeWhile_append2)
  with assms have "natDigits m = natDigits n" by metis
  then show ?thesis by (metis digitsVal_natDigits of_nat_eq_iff)
qed

lemma tieKey_inj:
  assumes "0 < pID p" "0 < pID q" "sessionProxyTieKey p = sessionProxyTieKey q"
  shows "pID p = pID q"
proof -
  have "natDigits (nat (pID p)) @ tieSeparator @ pNodeKey p @ tieSeparator @ pAddress p @ tieSeparator @
      fmtInt (pID p) = natDigits (nat (pID q)) @ tieSeparator @ pNodeKey q @ tieSeparator @ pAddress q @
      tieSeparator @ fmtInt (pID q)"
    using assms by (simp add: sessionProxyTieKey_def sessionProxyIdentity_def fmtInt_def)
  from digits_before_separator [OF this] assms(1,2) show ?thesis by simp
qed

lemma foldl_min_least:
  "foldl min b xs \<in> insert b (set xs) \<and> (\<forall>x\<in>insert b (set xs). foldl min b xs \<le> (x :: int))"
proof (induction xs arbitrary: b)
  case (Cons x xs)
  from Cons.IH [of "min b x"] show ?case by (auto simp: min_def split: if_splits)
qed simp

lemma pickStep_fold:
  assumes "\<forall>p\<in>set c. latencyRank (pLatency p) = b"
  shows "foldl pickStep (b, c) ps =
    (let m = foldl min b (map (latencyRank \<circ> pLatency) ps) in
     (m, filter (\<lambda>p. latencyRank (pLatency p) = m) (c @ ps)))"
  using assms
proof (induction ps arbitrary: b c rule: list.induct)
  case Nil
  then show ?case by (simp add: filter_id_conv)
next
  case (Cons p ps)
  consider "latencyRank (pLatency p) < b" | "latencyRank (pLatency p) = b" | "b < latencyRank (pLatency p)"
    by linarith
  then show ?case
  proof cases
    case 1
    have "foldl min b' xs \<le> b'" for b' :: int and xs using foldl_min_least by blast
    from this [of "latencyRank (pLatency p)" "map (latencyRank \<circ> pLatency) ps"] 1
    have "foldl min (latencyRank (pLatency p)) (map (latencyRank \<circ> pLatency) ps) \<noteq> b" by linarith
    with Cons.prems have "filter (\<lambda>q. latencyRank (pLatency q) =
        foldl min (latencyRank (pLatency p)) (map (latencyRank \<circ> pLatency) ps)) c = []"
      by (simp add: filter_empty_conv)
    with 1 Cons.IH [of "[p]" "latencyRank (pLatency p)"] show ?thesis
      by (simp add: pickStep_def [of "(b, c)" p] Let_def o_def)
  next
    case 2
    with Cons.IH [of "c @ [p]" b] Cons.prems show ?thesis by (simp add: pickStep_def [of "(b, c)" p] Let_def o_def)
  next
    case 3
    have "foldl min b' xs \<le> b'" for b' :: int and xs using foldl_min_least by blast
    from this [of b] 3 have "latencyRank (pLatency p) \<noteq> foldl min b (map (latencyRank \<circ> pLatency) ps)"
      by (metis not_less)
    with 3 Cons.IH [of c b] Cons.prems show ?thesis by (simp add: pickStep_def [of "(b, c)" p] Let_def o_def)
  qed
qed

lemma lowestLatency_exact:
  assumes "ps \<noteq> []"
  shows "lowestLatency ps \<noteq> []"
    "p \<in> set (lowestLatency ps) \<longleftrightarrow>
       p \<in> set ps \<and> (\<forall>q\<in>set ps. latencyRank (pLatency p) \<le> latencyRank (pLatency q))"
proof -
  obtain a as where ps: "ps = a # as" using assms by (cases ps) auto
  define m where "m = foldl min (latencyRank (pLatency a)) (map (latencyRank \<circ> pLatency) as)"
  have m: "m \<in> (latencyRank \<circ> pLatency) ` set ps" "\<forall>q\<in>set ps. m \<le> latencyRank (pLatency q)"
    using foldl_min_least [of "latencyRank (pLatency a)" "map (latencyRank \<circ> pLatency) as"]
    by (auto simp: m_def ps)
  have l: "lowestLatency ps = filter (\<lambda>p. latencyRank (pLatency p) = m) ps"
    using pickStep_fold [of "[a]" "latencyRank (pLatency a)" as]
    by (simp add: lowestLatency_def ps Let_def m_def)
  show "lowestLatency ps \<noteq> []" using m(1) by (auto simp: l filter_empty_conv)
  show "p \<in> set (lowestLatency ps) \<longleftrightarrow>
       p \<in> set ps \<and> (\<forall>q\<in>set ps. latencyRank (pLatency p) \<le> latencyRank (pLatency q))"
    using m by (auto simp: l intro: antisym)
qed

lemma pickLowestLatency_mem:
  assumes "ps \<noteq> []" "\<And>n. 0 < n \<Longrightarrow> rnd n < n"
  shows "pickLowestLatency rnd ps \<in> set (lowestLatency ps)"
  using lowestLatency_exact(1) [OF assms(1)] assms(2) by (simp add: pickLowestLatency_def Let_def)

section \<open>What the locked sections do to the session store\<close>

text \<open>The session store looks the same to every client.\<close>

definition sameView :: "SessionStore \<Rightarrow> SessionStore \<Rightarrow> bool" where
  "sameView s t \<longleftrightarrow> affinity_inv t \<and> live t = live s \<and> window t = window s \<and> clock t = clock s"

lemma sameView_refl: "affinity_inv s \<Longrightarrow> sameView s s"
  by (simp add: sameView_def)

lemma sameView_trans: "sameView s t \<Longrightarrow> sameView t u \<Longrightarrow> sameView s u"
  by (simp add: sameView_def)

lemma sameView_count: "affinity_inv s \<Longrightarrow> sameView s (snd (CountByProxy pid s))"
  by (simp add: sameView_def aff.inv_cnt aff.cnt_view aff.wind_cnt aff.clk_frame)

lemma sameView_cooldown: "affinity_inv s \<Longrightarrow> sameView s (snd (InCooldown pid s))"
  by (simp add: sameView_def aff.inv_incd aff.incd_view aff.wind_incd)

lemma occupancyLoop_exact:
  "affinity_inv s \<Longrightarrow> occupancyLoop ps m s = (out, t) \<Longrightarrow>
     out = filter (\<lambda>p. int (occupancy (live s) (pID p)) < m) ps \<and> sameView s t"
proof (induction ps arbitrary: s out t)
  case Nil
  then show ?case by (simp add: sameView_refl)
next
  case (Cons p ps)
  obtain n s1 where c: "CountByProxy (pID p) s = (n, s1)" by fastforce
  obtain out1 t1 where l: "occupancyLoop ps m s1 = (out1, t1)" by fastforce
  have v: "sameView s s1" "n = occupancy (live s) (pID p)"
    using sameView_count [OF Cons.prems(1), of "pID p"] aff.cnt_result [OF Cons.prems(1), of "pID p"] c by simp_all
  with Cons.IH [OF _ l] Cons.prems(2) c l show ?case by (auto simp: sameView_def)
qed

lemma cooldownLoop_exact:
  "affinity_inv s \<Longrightarrow> cooldownLoop ps s = (out, t) \<Longrightarrow>
     out = filter (\<lambda>p. window s (pID p) = None) ps \<and> sameView s t"
proof (induction ps arbitrary: s out t)
  case Nil
  then show ?case by (simp add: sameView_refl)
next
  case (Cons p ps)
  obtain c s1 where c: "InCooldown (pID p) s = (c, s1)" by fastforce
  obtain out1 t1 where l: "cooldownLoop ps s1 = (out1, t1)" by fastforce
  have v: "sameView s s1" "c \<longleftrightarrow> window s (pID p) \<noteq> None"
    using sameView_cooldown [OF Cons.prems(1), of "pID p"] aff.incd_result [of "pID p" s] c by simp_all
  with Cons.IH [OF _ l] Cons.prems(2) c l show ?case by (auto simp: sameView_def)
qed

text \<open>The nodes that may be given to a route, before capacity and cooldown.\<close>

definition regionPool :: "NodeStore \<Rightarrow> string \<Rightarrow> int list \<Rightarrow> string list \<Rightarrow> Proxy list" where
  "regionPool store region excludes unlock =
     (case nsGetByRegion store (normalizeRegion_sel region) excludes of
        Inl e \<Rightarrow> []
      | Inr ps \<Rightarrow> filter (\<lambda>p. proxyAvailable p \<and> proxyMatchesUnlock p unlock) ps)"

lemma filterByUnlock_filter: "filterByUnlock ps unlock = filter (\<lambda>p. proxyMatchesUnlock p unlock) ps"
  by (simp add: filterByUnlock_def proxyMatchesUnlock_def)

definition roomFor :: "int \<Rightarrow> SessionStore \<Rightarrow> Proxy \<Rightarrow> bool" where
  "roomFor m s p \<longleftrightarrow> (m > 0 \<longrightarrow> int (occupancy (live s) (pID p)) < m)"

definition warm :: "int \<Rightarrow> SessionStore \<Rightarrow> Proxy \<Rightarrow> bool" where
  "warm c s p \<longleftrightarrow> (c > 0 \<longrightarrow> window s (pID p) = None)"

lemma occupancyStage_exact:
  assumes "affinity_inv s" "av \<noteq> []"
  shows "\<exists>t. sameView s t \<and> occupancyStage av m (Some s) =
    (let l = filter (roomFor m s) av in (if l = [] then None else Some l), Some t)"
proof (cases "m > 0")
  case True
  obtain out t where l: "occupancyLoop av m s = (out, t)" by fastforce
  have e: "filter (roomFor m s) av = filter (\<lambda>p. int (occupancy (live s) (pID p)) < m) av"
    using True by (simp add: roomFor_def [abs_def])
  show ?thesis
    using occupancyLoop_exact [OF assms(1) l] l True
    by (intro exI [of _ t]) (simp add: occupancyStage_def filterByOccupancy_def Let_def e)
next
  case False
  then have "filter (roomFor m s) av = av" by (simp add: roomFor_def)
  with False assms show ?thesis
    by (intro exI [of _ s]) (simp add: occupancyStage_def sameView_refl)
qed

lemma cooldownStage_exact:
  assumes "affinity_inv s" "av \<noteq> []"
  shows "\<exists>t. sameView s t \<and> cooldownStage av c (Some s) =
    (let l = filter (warm c s) av in (if l = [] then None else Some l), Some t)"
proof (cases "c > 0")
  case True
  obtain out t where l: "cooldownLoop av s = (out, t)" by fastforce
  have e: "filter (warm c s) av = filter (\<lambda>p. window s (pID p) = None) av"
    using True by (simp add: warm_def [abs_def])
  show ?thesis
    using cooldownLoop_exact [OF assms(1) l] l True
    by (intro exI [of _ t]) (simp add: cooldownStage_def filterByCooldown_def Let_def e)
next
  case False
  then have "filter (warm c s) av = av" by (simp add: warm_def)
  with False assms show ?thesis
    by (intro exI [of _ s]) (simp add: cooldownStage_def sameView_refl)
qed

text \<open>\<open>pickForSession\<close> on a store, branch by branch.\<close>

lemma pickForSession_exact:
  assumes inv: "affinity_inv s" and ps: "nsGetByRegion store (normalizeRegion_sel region) excludes = Inr ps"
  shows "\<exists>t. sameView s t \<and> pickForSession store (Some s) region session excludes m c unlock =
    (let pool = regionPool store region excludes unlock;
         room = filter (roomFor m s) pool; ready = filter (warm c s) room in
     if pool = [] then Inl (noNodeError (normalizeRegion_sel region))
     else if room = [] then Inl (noNodeCapacityError (normalizeRegion_sel region))
     else if ready = [] then Inl (noNodeCooldownError (normalizeRegion_sel region))
     else Inr (pickSessionCandidateWithAffinity ready session (Some t)), Some t)"
proof -
  define pool where "pool = regionPool store region excludes unlock"
  have f: "filterByUnlock (availableProxies ps) unlock = pool"
    by (simp add: pool_def regionPool_def ps filterByUnlock_filter availableProxies_def conj_commute)
  show ?thesis
  proof (cases "pool = []")
    case True
    then show ?thesis
      using inv by (intro exI [of _ s]) (simp add: pickForSession_def ps f sameView_refl Let_def pool_def [symmetric])
  next
    case False
    from occupancyStage_exact [OF inv this, of m] obtain t where t: "sameView s t"
      "occupancyStage pool m (Some s) =
        (let l = filter (roomFor m s) pool in (if l = [] then None else Some l), Some t)" by blast
    define room where "room = filter (roomFor m s) pool"
    show ?thesis
    proof (cases "room = []")
      case True
      then show ?thesis
        using False t by (intro exI [of _ t])
          (simp add: pickForSession_def ps f Let_def pool_def [symmetric] room_def [symmetric])
    next
      case rm: False
      have w: "warm c t = warm c s" using t(1) by (simp add: warm_def sameView_def fun_eq_iff)
      from t(1) have "affinity_inv t" by (simp add: sameView_def)
      from cooldownStage_exact [OF this rm, of c] w obtain u where u: "sameView t u"
        "cooldownStage room c (Some t) =
          (let l = filter (warm c s) room in (if l = [] then None else Some l), Some u)" by auto
      show ?thesis
        using False rm t u sameView_trans [OF t(1) u(1)] by (intro exI [of _ u])
          (simp add: pickForSession_def ps f Let_def pool_def [symmetric] room_def [symmetric])
    qed
  qed
qed

lemma Get_quiet:
  assumes "affinity_inv s"
  shows "affinity_inv (snd (Get sid s))" "occupancy (live (snd (Get sid s))) = occupancy (live s)"
    "window (snd (Get sid s)) = window s" "clock (snd (Get sid s)) = clock s"
  using assms by (simp_all add: aff.inv_get aff.get_occupancy)

lemma stickyBoundProxy_store:
  "snd (stickyBoundProxy store (Some s) route excludes) = Some (snd (Get (uSession route) s))"
  by (auto simp: stickyBoundProxy_def split: option.splits sum.splits prod.splits)

lemma stickyBoundProxy_result:
  assumes "fst (stickyBoundProxy store (Some s) route excludes) = Some p"
  obtains b where "live s (uSession route) = Some b" "0 < bProxyID b" "bProxyID b \<notin> set excludes"
    "\<not> bindingRegionMismatch b (uRegion route)" "nsGetProxyByID store (bProxyID b) = Inr p"
    "proxyAvailable p" "\<not> regionMismatch (pRegion p) (uRegion route)"
    "proxyMatchesUnlock p (uUnlock route)" "parentNotPausedFor store p"
proof -
  obtain b where b: "live s (uSession route) = Some b"
    and g: "fst (Get (uSession route) s) = Some (b\<lparr>bLastActive := clock s\<rparr>)"
  proof -
    have "fst (Get (uSession route) s) \<noteq> None"
      using assms by (cases "Get (uSession route) s") (auto simp: stickyBoundProxy_def split: option.splits)
    then show thesis using that by (auto simp: aff.get_result)
  qed
  then obtain s1 where "Get (uSession route) s = (Some (b\<lparr>bLastActive := clock s\<rparr>), s1)"
    by (metis prod.collapse)
  with assms b show thesis
    by (intro that [of b]) (auto simp: stickyBoundProxy_def bindingRegionMismatch_def excluded_def list_ex_iff
        split: sum.splits if_splits)
qed

text \<open>A section that binds nothing keeps every occupancy or lowers it, and opens no window.\<close>

definition quiet :: "SessionStore \<Rightarrow> SessionStore \<Rightarrow> bool" where
  "quiet s t \<longleftrightarrow> affinity_inv t \<and> clock t = clock s \<and> window t = window s \<and>
     (\<forall>q. occupancy (live t) q \<le> occupancy (live s) q)"

text \<open>A section that binds a session to \<open>pid\<close> found room and no open window there.\<close>

definition bound :: "int \<Rightarrow> int \<Rightarrow> int \<Rightarrow> SessionStore \<Rightarrow> SessionStore \<Rightarrow> bool" where
  "bound m c pid s t \<longleftrightarrow> affinity_inv t \<and> clock t = clock s \<and>
     (\<forall>q. q \<noteq> pid \<longrightarrow> occupancy (live t) q \<le> occupancy (live s) q) \<and>
     (m > 0 \<longrightarrow> int (occupancy (live t) pid) \<le> max m (int (occupancy (live s) pid))) \<and>
     (c > 0 \<longrightarrow> window s pid = None \<and>
        window t = (window s)(pid := (if 0 < cooldownNanos c then Some (clock s + cooldownNanos c) else None))) \<and>
     (\<not> c > 0 \<longrightarrow> window t = window s)"

lemma quiet_refl: "affinity_inv s \<Longrightarrow> quiet s s"
  by (simp add: quiet_def)

lemma quiet_trans: "quiet s t \<Longrightarrow> quiet t u \<Longrightarrow> quiet s u"
  unfolding quiet_def by (metis order_trans)

lemma sameView_quiet: "sameView s t \<Longrightarrow> quiet s t"
  by (simp add: quiet_def sameView_def)

lemma quiet_get: "affinity_inv s \<Longrightarrow> quiet s (snd (Get sid s))"
  using Get_quiet by (simp add: quiet_def)

lemma quiet_remove: "affinity_inv s \<Longrightarrow> quiet s (Remove sid s)"
  by (simp add: quiet_def aff.inv_rmv aff.rmv_occupancy)

lemma releaseStaleBinding_store:
  "snd (releaseStaleBinding s route excludes) =
     (if fst (Get (uSession route) s) = None then snd (Get (uSession route) s)
      else Remove (uSession route) (snd (Get (uSession route) s)))"
  by (auto simp: releaseStaleBinding_def Let_def split: prod.split option.split)

lemma releaseStaleBinding_region:
  "fst (releaseStaleBinding s route excludes) = uRegion route \<or> uRegion route = []"
  by (auto simp: releaseStaleBinding_def requestedOrBoundRegion_def Let_def split: prod.split option.split)

lemma quiet_release:
  assumes "affinity_inv s"
  shows "quiet s (snd (releaseStaleBinding s route excludes))"
  using quiet_trans [OF quiet_get [OF assms] quiet_remove [OF Get_quiet(1) [OF assms]]] quiet_get [OF assms]
  by (simp add: releaseStaleBinding_store)

lemma bindSession_bound:
  assumes "affinity_inv s" "roomFor m s p" "warm c s p"
  shows "bound m c (pID p) s (bindSession route p c s)"
proof -
  let ?t = "SetProxy (uSession route) (pID p) (pAddress p) (pRegion p) s"
  have occ: "occupancy (live ?t) q \<le> occupancy (live s) q + (if q = pID p then 1 else 0)" for q
    by (rule aff.setp_occupancy)
  have f: "affinity_inv ?t" "clock ?t = clock s" "window ?t = window s" using assms(1) by (simp_all add: aff.inv_setp)
  have "int (occupancy (live ?t) (pID p)) \<le> max m (int (occupancy (live s) (pID p)))" if "m > 0"
    using occ [of "pID p"] assms(2) that by (simp add: roomFor_def)
  moreover have "occupancy (live ?t) q \<le> occupancy (live s) q" if "q \<noteq> pID p" for q
    using occ [of q] that by simp
  ultimately show ?thesis
    using f assms(3)
    by (auto simp: bound_def bindSession_def Let_def aff.inv_setcd aff.setcd_view aff.setcd_wind warm_def
        sessionsNow_def Now_def)
qed

lemma quiet_bound:
  assumes "quiet s t" "bound m c pid t u"
  shows "bound m c pid s u"
proof -
  have le: "occupancy (live t) q \<le> occupancy (live s) q" for q using assms(1) by (simp add: quiet_def)
  have "max m (int (occupancy (live t) pid)) \<le> max m (int (occupancy (live s) pid))"
    using le [of pid] by simp
  moreover have "occupancy (live u) q \<le> occupancy (live s) q" if "q \<noteq> pid" for q
    using assms(2) that le [of q] by (auto simp: bound_def intro: order_trans)
  ultimately show ?thesis
    using assms by (auto simp: bound_def quiet_def intro: order_trans)
qed

text \<open>Whether the pinned section writes a new binding.\<close>

definition pinnedBinds :: "Config option \<Rightarrow> ParsedUsername \<Rightarrow> Proxy \<Rightarrow> SessionStore \<Rightarrow> bool" where
  "pinnedBinds cfg route p s \<longleftrightarrow>
     (case fst (Get (uSession route) s) of Some b \<Rightarrow> bProxyID b \<noteq> pID p | None \<Rightarrow> True) \<and>
     fst (pinnedSection cfg route p s) = Inr p"

lemma pinnedSection_effect:
  assumes inv: "affinity_inv s"
  shows "if pinnedBinds cfg route p s
    then bound (maxSessionsPerProxy cfg) (proxyCooldownMinutes cfg) (pID p) s (snd (pinnedSection cfg route p s))
    else quiet s (snd (pinnedSection cfg route p s))"
proof -
  define m c where "m = maxSessionsPerProxy cfg" and "c = proxyCooldownMinutes cfg"
  obtain g s1 where g: "Get (uSession route) s = (g, s1)" by fastforce
  have q1: "quiet s s1" using quiet_get [OF inv, of "uSession route"] g by simp
  then have i1: "affinity_inv s1" by (simp add: quiet_def)
  define k where "k = (if m > 0 then CountByProxy (pID p) s1 else (0, s1))"
  have v2: "sameView s1 (snd k)" and full: "m > 0 \<Longrightarrow> fst k = occupancy (live s1) (pID p)"
    using sameView_count [OF i1] sameView_refl [OF i1] aff.cnt_result [OF i1] by (simp_all add: k_def)
  then have i2: "affinity_inv (snd k)" by (simp add: sameView_def)
  define w where "w = (if c > 0 then InCooldown (pID p) (snd k) else (False, snd k))"
  have v3: "sameView (snd k) (snd w)" and cool: "c > 0 \<Longrightarrow> fst w \<longleftrightarrow> window (snd k) (pID p) \<noteq> None"
    using sameView_cooldown [OF i2] sameView_refl [OF i2] aff.incd_result by (simp_all add: w_def)
  have v: "sameView s1 (snd w)" by (rule sameView_trans [OF v2 v3])
  then have i3: "affinity_inv (snd w)" by (simp add: sameView_def)
  have qs: "quiet s s1" "quiet s (snd k)" "quiet s (snd w)"
    using q1 quiet_trans [OF q1] sameView_quiet v v2 by blast+
  have bnd: "bound m c (pID p) s (bindSession route p c (snd w))"
    if "\<not> (m > 0 \<and> int (fst k) \<ge> m)" "\<not> (c > 0 \<and> fst w)"
  proof (rule quiet_bound [OF qs(3) bindSession_bound [OF i3]])
    show "roomFor m (snd w) p" using that(1) full v by (auto simp: roomFor_def sameView_def)
    show "warm c (snd w) p" using that(2) cool v3 by (auto simp: warm_def sameView_def)
  qed
  have sec: "pinnedSection cfg route p s =
    (if (case g of Some b \<Rightarrow> bProxyID b = pID p | None \<Rightarrow> False) then (Inr p, s1)
     else if m > 0 \<and> int (fst k) \<ge> m then (Inl (noNodeCapacityError (uRegion route)), snd k)
     else if c > 0 \<and> fst w then (Inl (noNodeCooldownError (uRegion route)), snd w)
     else (Inr p, bindSession route p c (snd w)))"
    unfolding pinnedSection_def g Let_def k_def w_def m_def c_def by simp
  show ?thesis
    using bnd qs g by (auto simp: pinnedBinds_def sec m_def [symmetric] c_def [symmetric] split: option.splits)
qed

definition firstBinds ::
    "NodeStore \<Rightarrow> Config option \<Rightarrow> ParsedUsername \<Rightarrow> int list \<Rightarrow> SessionStore \<Rightarrow> Proxy option" where
  "firstBinds store cfg route excludes s =
     (if fst (stickyBoundProxy store (Some s) route excludes) = None
      then (case fst (firstBindSection store cfg route excludes s) of Inr p \<Rightarrow> Some p | Inl e \<Rightarrow> None)
      else None)"

lemma pickForSession_outcome:
  assumes inv: "affinity_inv s"
  obtains t where "sameView s t"
    "snd (pickForSession store (Some s) region session excludes m c unlock) = Some t"
    "\<And>p. fst (pickForSession store (Some s) region session excludes m c unlock) = Inr p \<Longrightarrow>
       p \<in> set (regionPool store region excludes unlock) \<and> roomFor m s p \<and> warm c s p"
proof (cases "nsGetByRegion store (normalizeRegion_sel region) excludes")
  case (Inl e)
  then show thesis using that [of s] inv by (simp add: pickForSession_def sameView_refl)
next
  case (Inr ps)
  define ready where "ready = filter (warm c s) (filter (roomFor m s) (regionPool store region excludes unlock))"
  from pickForSession_exact [OF inv Inr, of session m c unlock] obtain t where v: "sameView s t"
    and st: "snd (pickForSession store (Some s) region session excludes m c unlock) = Some t"
    and r: "\<And>p. fst (pickForSession store (Some s) region session excludes m c unlock) = Inr p \<Longrightarrow>
      ready \<noteq> [] \<and> p = pickSessionCandidateWithAffinity ready session (Some t)"
    by (auto simp: Let_def ready_def split: if_splits)
  show thesis
  proof (rule that [OF v st])
    fix p
    assume "fst (pickForSession store (Some s) region session excludes m c unlock) = Inr p"
    from r [OF this] pickSession_least(1) have "p \<in> set ready" by blast
    then show "p \<in> set (regionPool store region excludes unlock) \<and> roomFor m s p \<and> warm c s p"
      by (simp add: ready_def)
  qed
qed

lemma firstBindSection_effect:
  assumes inv: "affinity_inv s"
  shows "case firstBinds store cfg route excludes s of
      Some p \<Rightarrow> bound (maxSessionsPerProxy cfg) (proxyCooldownMinutes cfg) (pID p) s
                  (snd (firstBindSection store cfg route excludes s)) \<and>
                p \<in> set (regionPool store (fst (releaseStaleBinding (snd (Get (uSession route) s)) route excludes))
                          excludes (uUnlock route))
    | None \<Rightarrow> quiet s (snd (firstBindSection store cfg route excludes s))"
proof -
  define m c where "m = maxSessionsPerProxy cfg" and "c = proxyCooldownMinutes cfg"
  define s1 where "s1 = snd (Get (uSession route) s)"
  have q1: "quiet s s1" using quiet_get [OF inv] by (simp add: s1_def)
  then have i1: "affinity_inv s1" by (simp add: quiet_def)
  obtain r where st: "stickyBoundProxy store (Some s) route excludes = (r, Some s1)"
    using stickyBoundProxy_store [of store s route excludes] by (metis prod.collapse s1_def)
  obtain region s2 where rel: "releaseStaleBinding s1 route excludes = (region, s2)" by fastforce
  have q2: "quiet s s2" using quiet_trans [OF q1] quiet_release [OF i1] rel by (metis snd_conv)
  then have i2: "affinity_inv s2" by (simp add: quiet_def)
  let ?pick = "pickForSession store (Some s2) region (uSession route) excludes m c (uUnlock route)"
  obtain t where v: "sameView s2 t" and t: "snd ?pick = Some t"
    and pool: "\<And>p. fst ?pick = Inr p \<Longrightarrow>
      p \<in> set (regionPool store region excludes (uUnlock route)) \<and> roomFor m s2 p \<and> warm c s2 p"
    using pickForSession_outcome [OF i2] by blast
  have qt: "quiet s t" by (rule quiet_trans [OF q2 sameView_quiet [OF v]])
  then have it: "affinity_inv t" by (simp add: quiet_def)
  have sec: "firstBindSection store cfg route excludes s =
      (case ?pick of (Inl e, ss3) \<Rightarrow> (Inl e, the ss3)
       | (Inr p, ss3) \<Rightarrow> (Inr p, bindSession route p c (the ss3)))" if "r = None"
    unfolding firstBindSection_def st that m_def c_def by (simp add: rel)
  consider p where "r = Some p" | e where "r = None" "?pick = (Inl e, Some t)"
    | p where "r = None" "?pick = (Inr p, Some t)"
    using t by (cases r; cases ?pick; cases "fst ?pick") auto
  then show ?thesis
  proof cases
    case 1
    then show ?thesis using st q1 by (simp add: firstBinds_def firstBindSection_def)
  next
    case 2
    then show ?thesis using qt st by (simp add: firstBinds_def sec)
  next
    case (3 p)
    with pool have p: "p \<in> set (regionPool store region excludes (uUnlock route))" "roomFor m s2 p" "warm c s2 p"
      by auto
    with v have "warm c t p" "roomFor m t p" by (simp_all add: warm_def roomFor_def sameView_def)
    with p(1) 3 quiet_bound [OF qt bindSession_bound [OF it]] st show ?thesis
      by (simp add: firstBinds_def sec m_def c_def s1_def [symmetric] rel)
  qed
qed

section \<open>Interleavings of requests\<close>

text \<open>
  The session store under concurrent requests, the collector and the clock. Each step is one atomic
  section: the lock-free look of the sticky fast path, a first-bind section (serialised by the
  first-bind lock) of any route against any state of the node store, the release after a failed
  dial, a collection, a look at a cooldown, time passing. The second component logs the first binds,
  newest first, as proxy id and time.
\<close>

type_synonym gateway = "SessionStore \<times> (int \<times> int) list"

inductive gateway_step :: "Config option \<Rightarrow> gateway \<Rightarrow> gateway \<Rightarrow> bool" for cfg where
  look: "gateway_step cfg (s, l) (the (snd (stickyBoundProxy store (Some s) route excludes)), l)"
| pinned: "gateway_step cfg (s, l)
     (snd (pinnedSection cfg route p s), if pinnedBinds cfg route p s then (pID p, clock s) # l else l)"
| firstBind: "gateway_step cfg (s, l)
     (snd (firstBindSection store cfg route excludes s),
      case firstBinds store cfg route excludes s of Some p \<Rightarrow> (pID p, clock s) # l | None \<Rightarrow> l)"
| release: "gateway_step cfg (s, l) (snd (RemoveIfProxyID sid pid s), l)"
| collect: "gateway_step cfg (s, l) (collectExpired s, l)"
| cooldownLeft: "gateway_step cfg (s, l) (snd (CooldownRemaining pid s), l)"
| tick: "0 \<le> dt \<Longrightarrow> gateway_step cfg (s, l) (s\<lparr>clock := clock s + dt\<rparr>, l)"

inductive gateway_reachable :: "Config option \<Rightarrow> gateway \<Rightarrow> bool" for cfg where
  start: "gateway_reachable cfg (NewWithClock d0 t0, [])"
| step: "gateway_reachable cfg g \<Longrightarrow> gateway_step cfg g g' \<Longrightarrow> gateway_reachable cfg g'"

lemma quiet_live:
  assumes "affinity_inv t" "clock t = clock s" "window t = window s"
    "\<And>sid b. live t sid = Some b \<Longrightarrow> live s sid = Some b"
  shows "quiet s t"
  unfolding quiet_def occupancy_def
  using assms by (auto intro!: card_mono [OF aff.finite_sessions])

lemma quiet_release_failed: "affinity_inv s \<Longrightarrow> quiet s (snd (RemoveIfProxyID sid pid s))"
  by (rule quiet_live) (auto simp: RemoveIfProxyID_inv RemoveIfProxyID_live split: if_splits)

lemma quiet_collect: "affinity_inv s \<Longrightarrow> quiet s (collectExpired s)"
  using collectExpired_correct [of s] by (intro quiet_live) (auto simp: collectExpired_def Let_def)

lemma CooldownRemaining_window: "window (snd (CooldownRemaining pid s)) = window s"
  by (auto simp: CooldownRemaining_def window_def fun_eq_iff alist_conv Let_def split: option.split)

lemma quiet_cooldownLeft: "affinity_inv s \<Longrightarrow> quiet s (snd (CooldownRemaining pid s))"
  by (rule quiet_live) (simp_all add: cooldown_ops_inv CooldownRemaining_window)

lemma tick_live: "0 \<le> dt \<Longrightarrow> live (s\<lparr>clock := clock s + dt\<rparr>) sid = Some b \<Longrightarrow> live s sid = Some b"
  by (auto simp: live_def expired_def split: option.splits if_splits)

lemma tick_occupancy: "0 \<le> dt \<Longrightarrow> occupancy (live (s\<lparr>clock := clock s + dt\<rparr>)) q \<le> occupancy (live s) q"
  unfolding occupancy_def by (rule card_mono [OF aff.finite_sessions]) (auto dest: tick_live)

lemma tick_window:
  "window s pid = Some u \<Longrightarrow> clock s + dt < u \<Longrightarrow> window (s\<lparr>clock := clock s + dt\<rparr>) pid = Some u"
  by (auto simp: window_def split: option.splits if_splits)

text \<open>Every step is quiet, binds one proxy, or lets time pass.\<close>

lemma gateway_step_cases:
  assumes "gateway_step cfg (s, l) (t, l')" "affinity_inv s"
  obtains "quiet s t" "l' = l"
    | pid where "bound (maxSessionsPerProxy cfg) (proxyCooldownMinutes cfg) pid s t" "l' = (pid, clock s) # l"
    | dt where "0 \<le> dt" "t = s\<lparr>clock := clock s + dt\<rparr>" "l' = l"
  using assms(1)
proof (cases rule: gateway_step.cases)
  case (look store route excludes)
  then show thesis using that(1) quiet_get [OF assms(2)] by (simp add: stickyBoundProxy_store)
next
  case (pinned route p)
  then show thesis using that(1,2) pinnedSection_effect [OF assms(2), of cfg route p] by (auto split: if_splits)
next
  case (firstBind store route excludes)
  then show thesis using that(1,2) firstBindSection_effect [OF assms(2), of store cfg route excludes]
    by (auto split: option.splits)
next
  case (release sid pid)
  then show thesis using that(1) quiet_release_failed [OF assms(2)] by blast
next
  case collect
  then show thesis using that(1) quiet_collect [OF assms(2)] by blast
next
  case (cooldownLeft pid)
  then show thesis using that(1) quiet_cooldownLeft [OF assms(2)] by blast
next
  case (tick dt)
  then show thesis using that(3) by blast
qed

definition capacity_inv :: "Config option \<Rightarrow> SessionStore \<Rightarrow> bool" where
  "capacity_inv cfg s \<longleftrightarrow> affinity_inv s \<and>
     (maxSessionsPerProxy cfg > 0 \<longrightarrow> (\<forall>q. int (occupancy (live s) q) \<le> maxSessionsPerProxy cfg))"

lemma capacity_step:
  assumes "gateway_step cfg (s, l) (t, l')" "capacity_inv cfg s"
  shows "capacity_inv cfg t"
proof -
  have inv: "affinity_inv s" and le: "maxSessionsPerProxy cfg > 0 \<Longrightarrow> int (occupancy (live s) q) \<le> maxSessionsPerProxy cfg" for q
    using assms(2) by (auto simp: capacity_inv_def)
  show ?thesis
  proof (rule gateway_step_cases [OF assms(1) inv])
    assume "quiet s t"
    then show ?thesis using le by (auto simp: quiet_def capacity_inv_def intro: order_trans [OF of_nat_mono])
  next
    fix pid
    assume b: "bound (maxSessionsPerProxy cfg) (proxyCooldownMinutes cfg) pid s t"
    have "int (occupancy (live t) q) \<le> maxSessionsPerProxy cfg" if m: "maxSessionsPerProxy cfg > 0" for q
    proof (cases "q = pid")
      case True
      then show ?thesis using b m le [OF m, of pid] by (simp add: bound_def)
    next
      case False
      then have "occupancy (live t) q \<le> occupancy (live s) q" using b by (simp add: bound_def)
      then show ?thesis using le [OF m, of q] by linarith
    qed
    then show ?thesis using b by (simp add: capacity_inv_def bound_def)
  next
    fix dt
    assume "0 \<le> dt" "t = s\<lparr>clock := clock s + dt\<rparr>"
    then show ?thesis
      using le tick_occupancy [of dt s] inv
      by (auto simp: capacity_inv_def affinity_inv_def intro: order_trans [OF of_nat_mono])
  qed
qed

lemma new_store_live: "live (NewWithClock d0 t0) sid = None"
  by (simp add: live_def NewWithClock_def)

lemma reachable_capacity: "gateway_reachable cfg g \<Longrightarrow> capacity_inv cfg (fst g)"
proof (induction rule: gateway_reachable.induct)
  case (start d0 t0)
  then show ?case by (simp add: capacity_inv_def NewWithClock_inv occupancy_def new_store_live)
next
  case (step g g')
  then show ?case by (cases g; cases g') (auto intro: capacity_step)
qed

definition spaced :: "int \<Rightarrow> (int \<times> int) list \<Rightarrow> bool" where
  "spaced d l \<longleftrightarrow> sorted_wrt (\<lambda>new old. fst new = fst old \<longrightarrow> snd old + d \<le> snd new) l"

definition cooldown_inv :: "int \<Rightarrow> gateway \<Rightarrow> bool" where
  "cooldown_inv d g \<longleftrightarrow> spaced d (snd g) \<and>
     (\<forall>pid t. (pid, t) \<in> set (snd g) \<longrightarrow> clock (fst g) < t + d \<longrightarrow>
        (\<exists>u. window (fst g) pid = Some u \<and> t + d \<le> u))"

lemma cooldownNanos_exact: "0 < c \<Longrightarrow> c \<le> 153722867 \<Longrightarrow> cooldownNanos c = c * minuteNanos"
  by (simp add: cooldownNanos_def wrap64_def minuteNanos_def mod_pos_pos_trivial)

lemma cooldown_step:
  assumes "gateway_step cfg (s, l) (t, l')" "affinity_inv s" "cooldown_inv d (s, l)"
    and c: "0 < proxyCooldownMinutes cfg" "proxyCooldownMinutes cfg \<le> 153722867"
    and d: "d = proxyCooldownMinutes cfg * minuteNanos"
  shows "cooldown_inv d (t, l')"
proof (rule gateway_step_cases [OF assms(1,2)])
  assume "quiet s t" "l' = l"
  then show ?thesis using assms(3) by (simp add: cooldown_inv_def quiet_def)
next
  fix pid
  assume b: "bound (maxSessionsPerProxy cfg) (proxyCooldownMinutes cfg) pid s t" "l' = (pid, clock s) # l"
  have pos: "0 < d" using c d by (simp add: minuteNanos_def)
  have w: "window s pid = None" "window t = (window s)(pid \<mapsto> clock s + d)" "clock t = clock s"
    using b(1) c cooldownNanos_exact pos d by (simp_all add: bound_def)
  have old: "u + d \<le> clock s" if "(pid, u) \<in> set l" for u
    using assms(3) w(1) that by (fastforce simp: cooldown_inv_def)
  have "spaced d l'" using assms(3) old b(2) by (auto simp: cooldown_inv_def spaced_def)
  moreover have "\<exists>v. window t q = Some v \<and> u + d \<le> v" if "(q, u) \<in> set l'" "clock t < u + d" for q u
    using that w assms(3) old [of u] b(2) by (cases "q = pid") (auto simp: cooldown_inv_def)
  ultimately show ?thesis by (simp add: cooldown_inv_def)
next
  fix dt
  assume "0 \<le> dt" "t = s\<lparr>clock := clock s + dt\<rparr>" "l' = l"
  then show ?thesis using assms(3) tick_window by (fastforce simp: cooldown_inv_def)
qed

lemma reachable_cooldown:
  assumes "gateway_reachable cfg g" "0 < proxyCooldownMinutes cfg" "proxyCooldownMinutes cfg \<le> 153722867"
  shows "cooldown_inv (proxyCooldownMinutes cfg * minuteNanos) g"
  using assms(1)
proof (induction rule: gateway_reachable.induct)
  case (start d0 t0)
  then show ?case by (simp add: cooldown_inv_def spaced_def)
next
  case (step g g')
  have "affinity_inv (fst g)" using reachable_capacity [OF step.hyps(1)] by (simp add: capacity_inv_def)
  with step assms(2,3) cooldown_step show ?case by (cases g; cases g') auto
qed

end
