(* ===== verification/SelectorSpec.thy ===== *)
theory SelectorSpec
  imports SelectorHistory
begin

text \<open>
  The contracts of the package \<open>selector\<close>: which nodes a route may be given, how the hash of a session
  picks one of them, and how capacity and cooldown bound the first binds under any interleaving of
  requests. The node store it relies on is a locale, interpreted on the model of \<open>storage\<close>.
\<close>

section \<open>What the selector relies on in the node store\<close>

lemma pinnedSection_same: "fst (pinnedSection cfg route p s) = Inr q \<Longrightarrow> q = p"
  by (auto simp: pinnedSection_def Let_def split: prod.splits if_splits)

text \<open>
  The answers of the node store in a state: nodes that exist there, of the region asked for and not
  excluded, the one node of an id, an address or a key, and whether a parent subscription is paused.
\<close>

definition admissible ::
    "Proxy set \<Rightarrow> (Proxy \<Rightarrow> bool) \<Rightarrow> ParsedUsername \<Rightarrow> int list \<Rightarrow> Proxy \<Rightarrow> bool" where
  "admissible known parentOK route excludes p \<longleftrightarrow> p \<in> known \<and> proxyAvailable p \<and> pID p \<notin> set excludes \<and>
     \<not> regionMismatch (pRegion p) (uRegion route) \<and> proxyMatchesUnlock p (uUnlock route) \<and> parentOK p"

locale node_store =
  fixes answers :: "'s \<Rightarrow> NodeStore"
    and sinv :: "'s \<Rightarrow> bool"
    and nodes :: "'s \<Rightarrow> Proxy set"
    and parentOK :: "'s \<Rightarrow> Proxy \<Rightarrow> bool"
  assumes by_region: "sinv x \<Longrightarrow> nsGetByRegion (answers x) r ex = Inr ps \<Longrightarrow> p \<in> set ps \<Longrightarrow>
      p \<in> nodes x \<and> pID p \<notin> set ex \<and> parentOK x p"
    and by_region_match: "nsGetByRegion (answers x) r ex = Inr ps \<Longrightarrow> p \<in> set ps \<Longrightarrow>
      r \<noteq> [] \<Longrightarrow> normalizeRegion_sel r = r \<Longrightarrow> pRegion p = r"
    and by_id: "nsGetProxyByID (answers x) i = Inr p \<Longrightarrow> p \<in> nodes x \<and> pID p = i"
    and by_address: "nsGetProxyByAddress (answers x) a = Inr p \<Longrightarrow> p \<in> nodes x \<and> pAddress p = a"
    and by_key: "nsGetProxyByNodeKey (answers x) k = Inr p \<Longrightarrow> p \<in> nodes x \<and> pNodeKey p = TrimSpace k"
    and parent: "sinv x \<Longrightarrow> p \<in> nodes x \<Longrightarrow> parentNotPausedFor (answers x) p \<Longrightarrow> parentOK x p"
begin

lemma regionPool_admissible:
  assumes "sinv x" "p \<in> set (regionPool (answers x) region ex (uUnlock route))"
    "region = uRegion route \<or> uRegion route = []" "normalizeRegion_sel (uRegion route) = uRegion route"
  shows "admissible (nodes x) (parentOK x) route ex p"
proof -
  obtain ps where ps: "nsGetByRegion (answers x) (normalizeRegion_sel region) ex = Inr ps" "p \<in> set ps"
    "proxyAvailable p" "proxyMatchesUnlock p (uUnlock route)"
    using assms(2) by (cases "nsGetByRegion (answers x) (normalizeRegion_sel region) ex") (auto simp: regionPool_def)
  have "\<not> regionMismatch (pRegion p) (uRegion route)"
    using by_region_match [OF ps(1,2)] assms(3,4) by (cases "uRegion route = []") (auto simp: regionMismatch_def)
  with by_region [OF assms(1) ps(1,2)] ps(3,4) show ?thesis by (simp add: admissible_def)
qed

lemma pinned_admissible:
  assumes "sinv x" "resolvePinnedNode (answers x) route ex = Inr p"
  shows "admissible (nodes x) (parentOK x) route ex p"
    "if HasPrefix (uNode route) ''key-'' then pNodeKey p = TrimSpace (TrimPrefix (uNode route) ''key-'')
     else pAddress p = uNode route"
proof -
  let ?lookup = "if HasPrefix (uNode route) ''key-''
    then nsGetProxyByNodeKey (answers x) (TrimPrefix (uNode route) ''key-'')
    else nsGetProxyByAddress (answers x) (uNode route)"
  have r: "?lookup = Inr p" "\<not> excluded (pID p) ex" "proxyAvailable p"
    "\<not> regionMismatch (pRegion p) (uRegion route)" "proxyMatchesUnlock p (uUnlock route)"
    "parentNotPausedFor (answers x) p"
    using assms(2) unfolding resolvePinnedNode_def Let_def by (auto split: sum.splits if_splits)
  have n: "p \<in> nodes x" using r(1) by_key by_address by (auto split: if_splits)
  show "if HasPrefix (uNode route) ''key-'' then pNodeKey p = TrimSpace (TrimPrefix (uNode route) ''key-'')
     else pAddress p = uNode route"
    using r(1) by_key by_address by (auto split: if_splits)
  show "admissible (nodes x) (parentOK x) route ex p"
    using r n parent [OF assms(1) n] by (auto simp: admissible_def excluded_def list_ex_iff)
qed

lemma sticky_admissible:
  assumes "sinv x" "fst (stickyBoundProxy (answers x) (Some s) route ex) = Some p"
  shows "admissible (nodes x) (parentOK x) route ex p"
  using assms(2)
proof (rule stickyBoundProxy_result)
  fix b
  assume "nsGetProxyByID (answers x) (bProxyID b) = Inr p" "bProxyID b \<notin> set ex" "proxyAvailable p"
    "\<not> regionMismatch (pRegion p) (uRegion route)" "proxyMatchesUnlock p (uUnlock route)"
    "parentNotPausedFor (answers x) p"
  then show ?thesis using by_id parent [OF assms(1)] unfolding admissible_def by metis
qed

lemma firstBind_admissible:
  assumes "sinv x" "affinity_inv s" "normalizeRegion_sel (uRegion route) = uRegion route"
    "fst (firstBindSection (answers x) cfg route ex s) = Inr p"
  shows "admissible (nodes x) (parentOK x) route ex p"
proof (cases "fst (stickyBoundProxy (answers x) (Some s) route ex)")
  case None
  with assms(4) have "firstBinds (answers x) cfg route ex s = Some p" by (simp add: firstBinds_def)
  with firstBindSection_effect [OF assms(2), of "answers x" cfg route ex]
  have "p \<in> set (regionPool (answers x) (fst (releaseStaleBinding (snd (Get (uSession route) s)) route ex)) ex
      (uUnlock route))" by simp
  then show ?thesis
    by (rule regionPool_admissible [OF assms(1)]) (use releaseStaleBinding_region assms(3) in blast)+
next
  case (Some q)
  then have "q = p" using assms(4) by (simp add: firstBindSection_def split: prod.splits)
  then show ?thesis using sticky_admissible [OF assms(1)] Some by blast
qed

lemma storeless_admissible:
  assumes "sinv x" "normalizeRegion_sel (uRegion route) = uRegion route"
    "fst (pickForSession (answers x) None (uRegion route) session ex m c (uUnlock route)) = Inr p"
  shows "admissible (nodes x) (parentOK x) route ex p"
proof (rule regionPool_admissible [OF assms(1) _ _ assms(2)])
  obtain ps where ps: "nsGetByRegion (answers x) (normalizeRegion_sel (uRegion route)) ex = Inr ps"
    using assms(3) by (cases "nsGetByRegion (answers x) (normalizeRegion_sel (uRegion route)) ex")
      (auto simp: pickForSession_def)
  define pool where "pool = regionPool (answers x) (uRegion route) ex (uUnlock route)"
  have f: "filterByUnlock (availableProxies ps) (uUnlock route) = pool"
    by (simp add: pool_def regionPool_def ps filterByUnlock_filter availableProxies_def conj_commute)
  have "pool \<noteq> [] \<and> p = pickSessionCandidateWithAffinity pool session None"
    using assms(3) by (auto simp: pickForSession_def ps f occupancyStage_def cooldownStage_def Let_def split: if_splits)
  then show "p \<in> set (regionPool (answers x) (uRegion route) ex (uUnlock route))"
    using pickSession_least(1) unfolding pool_def by blast
qed simp

lemma PickUnlock_admissible:
  assumes "sinv x" "normalizeRegion_sel (uRegion route) = uRegion route" "\<And>n. 0 < n \<Longrightarrow> rnd n < n"
    "PickUnlock rnd (answers x) (uRegion route) ex (uUnlock route) = Inr p"
  shows "admissible (nodes x) (parentOK x) route ex p"
proof (rule regionPool_admissible [OF assms(1) _ _ assms(2)])
  obtain ps where ps: "nsGetByRegion (answers x) (normalizeRegion_sel (uRegion route)) ex = Inr ps"
    using assms(4) by (auto simp: PickUnlock_def Let_def split: sum.splits)
  define pool where "pool = regionPool (answers x) (uRegion route) ex (uUnlock route)"
  have f: "filterByUnlock (availableProxies ps) (uUnlock route) = pool"
    by (simp add: pool_def regionPool_def ps filterByUnlock_filter availableProxies_def conj_commute)
  have "pool \<noteq> []" "p = pickLowestLatency rnd pool"
    using assms(4) by (auto simp: PickUnlock_def ps f Let_def split: if_splits)
  with pickLowestLatency_mem [of pool rnd, OF _ assms(3)] lowestLatency_exact(2)
  show "p \<in> set (regionPool (answers x) (uRegion route) ex (uUnlock route))" unfolding pool_def by blast
qed simp

lemma Resolve_admissible:
  assumes inv: "sinv x" and aff: "\<And>s. sessions = Some s \<Longrightarrow> affinity_inv s"
    and norm: "normalizeRegion_sel (uRegion route) = uRegion route" and rnd: "\<And>n. 0 < n \<Longrightarrow> rnd n < n"
    and res: "fst (Resolve rnd (answers x) cfg sessions route ex) = Inr p"
  shows "admissible (nodes x) (parentOK x) route ex p"
proof -
  consider "uNode route \<noteq> []" | "uNode route = []" "uSession route = []"
    | "uNode route = []" "uSession route \<noteq> []" by blast
  then show ?thesis
  proof cases
    case 1
    with res have "resolvePinnedNode (answers x) route ex = Inr p"
      by (auto simp: Resolve_def dest: pinnedSection_same split: sum.splits if_splits option.splits)
    then show ?thesis by (rule pinned_admissible(1) [OF inv])
  next
    case 2
    with res have "PickUnlock rnd (answers x) (uRegion route) ex (uUnlock route) = Inr p"
      by (simp add: Resolve_def)
    then show ?thesis using PickUnlock_admissible [OF inv norm] rnd by blast
  next
    case 3
    show ?thesis
    proof (cases sessions)
      case None
      with 3 res show ?thesis
        using storeless_admissible [OF inv norm] by (simp add: Resolve_def stickyBoundProxy_def)
    next
      case (Some s)
      obtain r where st: "stickyBoundProxy (answers x) (Some s) route ex = (r, Some (snd (Get (uSession route) s)))"
        using stickyBoundProxy_store [of "answers x" s route ex] by (metis prod.collapse)
      show ?thesis
      proof (cases r)
        case None
        with 3 Some res st have "fst (firstBindSection (answers x) cfg route ex (snd (Get (uSession route) s))) = Inr p"
          by (simp add: Resolve_def)
        then show ?thesis
          by (rule firstBind_admissible [OF inv Get_quiet(1) [OF aff [OF Some]] norm])
      next
        case (Some q)
        with 3 \<open>sessions = Some s\<close> res st have "fst (stickyBoundProxy (answers x) (Some s) route ex) = Some p"
          by (simp add: Resolve_def)
        then show ?thesis by (rule sticky_admissible [OF inv])
      qed
    qed
  qed
qed

end

section \<open>The SQLite store is such a node store\<close>

text \<open>
  The five methods on a state of the tables; \<open>fs k\<close> scripts the faults the \<open>k\<close>-th method meets, so a
  lookup may fail while another succeeds.
\<close>

definition storageNodes :: "(nat \<Rightarrow> string option list) \<Rightarrow> DB \<Rightarrow> NodeStore" where
  "storageNodes fs d = \<lparr>
     nsGetByRegion = (\<lambda>r ex. fst (GetByRegion r ex (d\<lparr>faults := fs 0\<rparr>))),
     nsGetProxyByID = (\<lambda>i. fst (GetProxyByID i (d\<lparr>faults := fs 1\<rparr>))),
     nsGetProxyByAddress = (\<lambda>a. fst (GetProxyByAddress a (d\<lparr>faults := fs 2\<rparr>))),
     nsGetProxyByNodeKey = (\<lambda>k. fst (GetProxyByNodeKey k (d\<lparr>faults := fs 3\<rparr>))),
     nsIsSubscriptionPaused = (\<lambda>i. fst (IsSubscriptionPaused i (d\<lparr>faults := fs 4\<rparr>)))\<rparr>"

definition storedNodes :: "DB \<Rightarrow> Proxy set" where
  "storedNodes d = scanProxy ` set (proxies d)"

definition noPausedParent :: "DB \<Rightarrow> Proxy \<Rightarrow> bool" where
  "noPausedParent d p \<longleftrightarrow> (\<forall>s\<in>set (subscriptions d).
     sID s = pSubscriptionID p \<longrightarrow> pSource p = SourceSubscription \<longrightarrow> sStatus s \<noteq> ''paused'')"

lemma distinct_ids_same:
  "distinct (map f xs) \<Longrightarrow> a \<in> set xs \<Longrightarrow> b \<in> set xs \<Longrightarrow> f a = f b \<Longrightarrow> a = b"
  by (auto simp: distinct_map dest: inj_onD)

lemma selectable_noPausedParent:
  assumes "db_inv d" "selectableRow d r"
  shows "noPausedParent d (scanProxy r)"
  using assms distinct_ids_same [of sID "subscriptions d"]
  by (fastforce simp: noPausedParent_def selectableRow_def selectableSubscriptionScopeSQL_def parentStatusIs_def
      list_ex_iff scanProxy_def SourceSubscription_def db_inv_def)

lemma notPaused_noPausedParent:
  assumes "db_inv d" "parentNotPausedFor (storageNodes fs d) p"
  shows "noPausedParent d p"
  unfolding noPausedParent_def
proof (intro ballI impI)
  fix s
  assume s: "s \<in> set (subscriptions d)" "sID s = pSubscriptionID p"
  then have pos: "0 < pSubscriptionID p" using assms(1) by (auto simp: db_inv_def)
  then have "fst (IsSubscriptionPaused (pSubscriptionID p) (d\<lparr>faults := fs 4\<rparr>)) = Inr False"
    using assms(2) by (simp add: parentNotPausedFor_def storageNodes_def)
  then obtain s' where "find (\<lambda>s. sID s = pSubscriptionID p) (subscriptions d) = Some s'" "sStatus s' \<noteq> ''paused''"
    using pos by (auto simp: IsSubscriptionPaused_def bindOp_def querySQL_unfold returnOp_def failOp_def
        split: if_splits option.splits)
  moreover from this(1) have "s' = s"
    using s assms(1) distinct_ids_same [of sID "subscriptions d" s' s]
    by (auto simp: find_Some_iff db_inv_def)
  ultimately show "sStatus s \<noteq> ''paused''" by simp
qed

lemma scanProxy_columns [simp]:
  "pID (scanProxy r) = cID r" "pAddress (scanProxy r) = cAddress r" "pNodeKey (scanProxy r) = cNodeKey r"
  "pRegion (scanProxy r) = cRegion r"
  by (simp_all add: scanProxy_def)

lemma matchTwo_hd:
  assumes "matchTwo P d \<noteq> []"
  shows "hd (matchTwo P d) \<in> scanProxy ` {r \<in> set (proxies d). P r}"
proof -
  have "hd (matchTwo P d) \<in> set (matchTwo P d)" using assms by simp
  then show ?thesis by (auto simp: matchTwo_def dest!: in_set_takeD)
qed

lemma lookups_stored:
  "fst (GetProxyByID i d) = Inr p \<Longrightarrow> p \<in> storedNodes d \<and> pID p = i"
  "fst (GetProxyByAddress a d) = Inr p \<Longrightarrow> p \<in> storedNodes d \<and> pAddress p = a"
  "fst (GetProxyByNodeKey k d) = Inr p \<Longrightarrow> p \<in> storedNodes d \<and> pNodeKey p = TrimSpace k"
proof -
  show "fst (GetProxyByID i d) = Inr p \<Longrightarrow> p \<in> storedNodes d \<and> pID p = i"
    by (auto simp: GetProxyByID_def bindOp_def querySQL_unfold firstRow_def returnOp_def failOp_def storedNodes_def
        find_Some_iff split: if_splits option.splits)
  show "fst (GetProxyByAddress a d) = Inr p \<Longrightarrow> p \<in> storedNodes d \<and> pAddress p = a"
    using matchTwo_hd [of "\<lambda>r. cAddress r = a" "dropFault d"]
    by (auto simp: GetProxyByAddress_def bindOp_def querySQL_unfold returnOp_def failOp_def storedNodes_def
        split: if_splits)
  show "fst (GetProxyByNodeKey k d) = Inr p \<Longrightarrow> p \<in> storedNodes d \<and> pNodeKey p = TrimSpace k"
    using matchTwo_hd [of "\<lambda>r. cNodeKey r = TrimSpace k" "dropFault d"]
    by (auto simp: GetProxyByNodeKey_def bindOp_def querySQL_unfold returnOp_def failOp_def storedNodes_def
        Let_def split: if_splits)
qed

lemma faults_frame [simp]:
  "storedNodes (d\<lparr>faults := f\<rparr>) = storedNodes d" "regionCandidates r ex (d\<lparr>faults := f\<rparr>) = regionCandidates r ex d"
  by (simp_all add: storedNodes_def regionCandidates_def scope_tables(2) [of "d\<lparr>faults := f\<rparr>" d])

lemma regionCandidates_stored:
  assumes "p \<in> set (regionCandidates r ex d)"
  shows "p \<in> storedNodes d" "pID p \<notin> set ex" "db_inv d \<Longrightarrow> noPausedParent d p"
    "r \<noteq> [] \<Longrightarrow> normalizeRegion_sel r = r \<Longrightarrow> pRegion p = r"
  using assms selectable_noPausedParent [of d]
  by (auto simp: set_regionCandidates storedNodes_def normalizeRegion_sel_def normalizeRegion_def)

lemma GetByRegion_answer:
  "nsGetByRegion (storageNodes fs d) r ex = Inr ps \<Longrightarrow> ps = regionCandidates r ex d"
  by (auto simp: storageNodes_def GetByRegion_eq split: if_splits)

interpretation sql: node_store "\<lambda>x. storageNodes (fst x) (snd x)" "\<lambda>x. db_inv (snd x)"
  "\<lambda>x. storedNodes (snd x)" "\<lambda>x. noPausedParent (snd x)"
proof
  fix x :: "(nat \<Rightarrow> string option list) \<times> DB" and r ex ps p i a k
  let ?s = "storageNodes (fst x) (snd x)"
  show "db_inv (snd x) \<Longrightarrow> nsGetByRegion ?s r ex = Inr ps \<Longrightarrow> p \<in> set ps \<Longrightarrow>
      p \<in> storedNodes (snd x) \<and> pID p \<notin> set ex \<and> noPausedParent (snd x) p"
    using regionCandidates_stored(1,2,3) GetByRegion_answer by blast
  show "nsGetByRegion ?s r ex = Inr ps \<Longrightarrow> p \<in> set ps \<Longrightarrow> r \<noteq> [] \<Longrightarrow> normalizeRegion_sel r = r \<Longrightarrow> pRegion p = r"
    using regionCandidates_stored(4) GetByRegion_answer by blast
  show "nsGetProxyByID ?s i = Inr p \<Longrightarrow> p \<in> storedNodes (snd x) \<and> pID p = i"
    "nsGetProxyByAddress ?s a = Inr p \<Longrightarrow> p \<in> storedNodes (snd x) \<and> pAddress p = a"
    "nsGetProxyByNodeKey ?s k = Inr p \<Longrightarrow> p \<in> storedNodes (snd x) \<and> pNodeKey p = TrimSpace k"
    using lookups_stored [where d = "(snd x)\<lparr>faults := _\<rparr>"] by (simp_all add: storageNodes_def)
  show "db_inv (snd x) \<Longrightarrow> p \<in> storedNodes (snd x) \<Longrightarrow> parentNotPausedFor ?s p \<Longrightarrow> noPausedParent (snd x) p"
    using notPaused_noPausedParent by blast
qed

section \<open>Properties\<close>

lemmas alist_eval = SetProxy_def NewWithClock_def attachReverseLocked_def detachReverseLocked_def
  removeBindingLocked_def CountByProxy_def countByProxyLocked_def countVisit_def expired_def Let_def
  List.insert_def

definition limitedConfig :: Config where
  "limitedConfig = sampleConfig\<lparr>cfgMaxSessionsPerProxy := 1, cfgProxyCooldownMinutes := 5\<rparr>"

definition pinOf :: "string \<Rightarrow> ParsedUsername" where
  "pinOf session = \<lparr>uBase = ''u'', uRegion = [], uSession = session, uUnlock = [], uNode = ''h1''\<rparr>"

definition sampleNode :: Proxy where
  "sampleNode = scanProxy sampleRow"

lemma sampleNode_facts [simp]:
  "pID sampleNode = 1" "pAddress sampleNode = ''h1''" "pStatus sampleNode = ''active''"
  "pFailCount sampleNode = 0" "pUserPaused sampleNode = False" "pSubscriptionID sampleNode = 0"
  "pRegion sampleNode = []" "pLatency sampleNode = 0"
  by (simp_all add: sampleNode_def sampleRow_def newRow_def defaultRow_def scanProxy_def)

lemma limitedConfig_facts [simp]:
  "maxSessionsPerProxy (Some limitedConfig) = 1" "proxyCooldownMinutes (Some limitedConfig) = 5"
  by (simp_all add: maxSessionsPerProxy_def proxyCooldownMinutes_def limitedConfig_def)

definition oneBind :: SessionStore where
  "oneBind = snd (pinnedSection (Some limitedConfig) (pinOf ''s1'') sampleNode (NewWithClock 0 0))"

lemma oneBind_eval:
  "pinnedBinds (Some limitedConfig) (pinOf ''s1'') sampleNode (NewWithClock 0 0)"
  "live oneBind ''s1'' \<noteq> None" "clock oneBind = 0"
  by (simp_all add: oneBind_def pinnedBinds_def pinnedSection_def Get_def pinOf_def bindSession_def live_def
      SetCooldown_def InCooldown_def alist_eval)

lemma oneBind_reachable: "gateway_reachable (Some limitedConfig) (oneBind, [(1, 0)])"
  using gateway_reachable.step [OF gateway_reachable.start [of "Some limitedConfig" 0 0]
      gateway_step.pinned [where route = "pinOf ''s1''" and p = sampleNode]]
  by (simp add: oneBind_eval oneBind_def [symmetric]) (simp add: NewWithClock_def)

text \<open>
  C2: whatever the interleaving of requests, failed dials, collections and time, no node ever carries
  more live sessions than the configured maximum.
\<close>

theorem capacity_never_exceeded:
  assumes "gateway_reachable cfg (s, binds)" "maxSessionsPerProxy cfg > 0"
  shows "int (card {sid. \<exists>b. live s sid = Some b \<and> bProxyID b = pid}) \<le> maxSessionsPerProxy cfg"
  using reachable_capacity [OF assms(1)] assms(2) by (simp add: capacity_inv_def occupancy_def)

text \<open>A pinned session takes the only place of node 1.\<close>

theorem capacity_never_exceeded_witness:
  "int (card {sid. \<exists>b. live oneBind sid = Some b \<and> bProxyID b = 1}) \<le> 1 \<and> live oneBind ''s1'' \<noteq> None"
  using capacity_never_exceeded [OF oneBind_reachable, of 1] oneBind_eval(2) by simp

text \<open>
  C3: whatever the interleaving, two first binds of the same node are at least the configured
  cooldown apart (for every cooldown below the 292 years an \<open>int64\<close> of nanoseconds can hold).
\<close>

theorem first_binds_spaced:
  assumes "gateway_reachable cfg (s, binds)"
    "0 < proxyCooldownMinutes cfg" "proxyCooldownMinutes cfg \<le> 153722867"
    "i < j" "j < length binds" "fst (binds ! i) = fst (binds ! j)"
  shows "snd (binds ! j) + proxyCooldownMinutes cfg * 60000000000 \<le> snd (binds ! i)"
  using reachable_cooldown [OF assms(1-3)] assms(4-6)
  by (auto simp: cooldown_inv_def spaced_def sorted_wrt_iff_nth_less minuteNanos_def)

definition freed :: SessionStore where
  "freed = snd (RemoveIfProxyID ''s1'' 1 (oneBind\<lparr>clock := clock oneBind + 300000000000\<rparr>))"

lemma freed_bind:
  "pinnedBinds (Some limitedConfig) (pinOf ''s2'') sampleNode freed" "clock freed = 300000000000"
  by (simp_all add: freed_def oneBind_def pinnedBinds_def pinnedSection_def Get_def pinOf_def bindSession_def
      RemoveIfProxyID_def SetCooldown_def InCooldown_def cooldownNanos_def wrap64_def minuteNanos_def
      sessionsNow_def Now_def alist_eval)

text \<open>Node 1 is bound at time 0 and again, its first session released, five minutes later.\<close>

theorem first_binds_spaced_witness:
  "(\<exists>s. gateway_reachable (Some limitedConfig) (s, [(1, 300000000000), (1, 0)])) \<and> (0 :: int) + 5 * 60000000000 \<le> 300000000000"
proof -
  have "gateway_reachable (Some limitedConfig) (freed, [(1, 0)])"
    unfolding freed_def
    by (rule gateway_reachable.step [OF gateway_reachable.step [OF oneBind_reachable gateway_step.tick] gateway_step.release]) simp
  from gateway_reachable.step [OF this gateway_step.pinned [where route = "pinOf ''s2''" and p = sampleNode]] freed_bind
  have r: "gateway_reachable (Some limitedConfig) (snd (pinnedSection (Some limitedConfig) (pinOf ''s2'') sampleNode freed),
      [(1, 300000000000), (1, 0)])" by simp
  from first_binds_spaced [OF r, of 0 1] r show ?thesis by auto
qed

text \<open>
  C9: the pick for a session is a function of the set of candidates, not of their order: it is the
  candidate of least score, ties broken by identity.
\<close>

theorem session_pick_order_independent:
  assumes "ps \<noteq> []" "set qs = set ps" "\<forall>p\<in>set ps. 0 < pID p" "inj_on pID (set ps)"
  shows "pickSessionCandidateWithAffinity qs session sessions = pickSessionCandidateWithAffinity ps session sessions \<and>
    pickSessionCandidateWithAffinity ps session sessions \<in> set ps \<and>
    (\<forall>p\<in>set ps. sessionRendezvousScoreWithLoad session (pickSessionCandidateWithAffinity ps session sessions)
        (activeBindingCounts sessions (pID (pickSessionCandidateWithAffinity ps session sessions)))
      \<le> sessionRendezvousScoreWithLoad session p (activeBindingCounts sessions (pID p)))"
proof -
  let ?a = "pickSessionCandidateWithAffinity ps session sessions"
  let ?b = "pickSessionCandidateWithAffinity qs session sessions"
  let ?f = "sessionScore session sessions"
  have qs: "qs \<noteq> []" using assms(1,2) by auto
  note a = pickSession_least [OF assms(1), where session = session and sessions = sessions]
  note b = pickSession_least [OF qs, where session = session and sessions = sessions, unfolded assms(2)]
  have "rankedBy ?f ?a = rankedBy ?f ?b" using a b by (intro antisym) blast+
  then have "sessionProxyTieKey ?a = sessionProxyTieKey ?b" by (simp add: rankedBy_def)
  then have "pID ?a = pID ?b" using tieKey_inj a(1) b(1) assms(3) by blast
  then have "?b = ?a" using assms(4) a(1) b(1) by (auto dest: inj_onD)
  moreover have "?f ?a \<le> ?f p" if "p \<in> set ps" for p using a(2) [OF that] by (auto simp: rankedBy_def)
  ultimately show ?thesis using a(1) by (simp add: sessionScore_def sessionRendezvousScoreWithLoad_def)
qed

theorem session_pick_order_independent_witness:
  "(\<lambda>p q. pickSessionCandidateWithAffinity [q, p] ''s'' None = pickSessionCandidateWithAffinity [p, q] ''s'' None \<and>
      pickSessionCandidateWithAffinity [p, q] ''s'' None \<in> {p, q})
     sampleNode (sampleNode\<lparr>pID := 2\<rparr>)"
  using session_pick_order_independent [of "[sampleNode, sampleNode\<lparr>pID := 2\<rparr>]" "[sampleNode\<lparr>pID := 2\<rparr>, sampleNode]"]
  by (auto simp: inj_on_def)

text \<open>
  A request without session gets one of the eligible nodes of least latency (unknown latencies
  rank last), and the error that there is none exactly when no node of the region is eligible.
\<close>

theorem PickUnlock_lowest_latency:
  assumes "\<And>n. 0 < n \<Longrightarrow> rnd n < n" "nsGetByRegion store (normalizeRegion_sel region) excludes = Inr ps"
  shows "(case PickUnlock rnd store region excludes unlock of
      Inr p \<Rightarrow> p \<in> set ps \<and> proxyAvailable p \<and> proxyMatchesUnlock p unlock \<and>
        (\<forall>q\<in>set ps. proxyAvailable q \<longrightarrow> proxyMatchesUnlock q unlock \<longrightarrow>
           latencyRank (pLatency p) \<le> latencyRank (pLatency q))
    | Inl e \<Rightarrow> e = noNodeError (normalizeRegion_sel region) \<and>
        (\<forall>q\<in>set ps. \<not> (proxyAvailable q \<and> proxyMatchesUnlock q unlock)))"
proof -
  define pool where "pool = filter (\<lambda>p. proxyAvailable p \<and> proxyMatchesUnlock p unlock) ps"
  have f: "filterByUnlock (availableProxies ps) unlock = pool"
    by (simp add: pool_def filterByUnlock_filter availableProxies_def conj_commute)
  show ?thesis
  proof (cases "pool = []")
    case True
    then show ?thesis by (simp add: PickUnlock_def assms(2) f Let_def) (auto simp: pool_def filter_empty_conv)
  next
    case False
    from pickLowestLatency_mem [of pool rnd, OF False assms(1)] lowestLatency_exact(2) [OF False]
    have "pickLowestLatency rnd pool \<in> set pool \<and>
      (\<forall>q\<in>set pool. latencyRank (pLatency (pickLowestLatency rnd pool)) \<le> latencyRank (pLatency q))" by blast
    with False show ?thesis by (simp add: PickUnlock_def assms(2) f Let_def) (simp add: pool_def)
  qed
qed

definition sampleStore :: NodeStore where
  "sampleStore = storageNodes (\<lambda>k. []) sampleDB"

lemma trim_empty: "TrimSpace [] = []"
  by code_simp

lemma sampleStore_region: "nsGetByRegion sampleStore [] [] = Inr [sampleNode]"
  by (simp add: sampleStore_def storageNodes_def GetByRegion_eq faulty_def regionCandidates_def sample_facts
      sampleNode_def) (simp add: selectableRow_def sampleRow_def newRow_def defaultRow_def normalizeRegion_def
      selectableSubscriptionScopeSQL_def ToLower_def trim_empty)

theorem PickUnlock_lowest_latency_witness:
  "PickUnlock (\<lambda>n. n - 1) sampleStore [] [] [] = Inr sampleNode"
proof -
  have n: "normalizeRegion_sel [] = []" by (simp add: normalizeRegion_sel_def ToLower_def trim_empty)
  have "case PickUnlock (\<lambda>n. n - 1) sampleStore [] [] [] of Inr p \<Rightarrow> p = sampleNode | Inl e \<Rightarrow> False"
    using PickUnlock_lowest_latency [of "\<lambda>n. n - 1" sampleStore "[]" "[]" "[sampleNode]" "[]"] sampleStore_region n
    by (auto simp: proxyAvailable_def proxyMatchesUnlock_def split: sum.splits)
  then show ?thesis by (simp split: sum.splits)
qed

text \<open>
  The weights that bias the hash stay within (0.375, 2.5) whatever latency, counters and load a
  node has, and every score is a non-negative real, so no node is excluded or certain for a session.
\<close>

theorem candidate_weight_bounded:
  "0.375 < sessionCandidateWeight p n \<and> sessionCandidateWeight p n < 2.5 \<and>
   0 \<le> sessionRendezvousScoreWithLoad session p n"
  using candidateWeight_bounds score_bounds by (simp add: sessionRendezvousScoreWithLoad_def)

text \<open>
  The allocation-free hash of a candidate is the FNV-1a hash of the text of its identity, for every
  64-bit id including the least one, and its 20-byte digit buffer is never overrun.
\<close>

theorem sessionProxyHash_is_identity_hash:
  assumes "- (2 ^ 63) \<le> pID p" "pID p < 2 ^ 63"
  shows "sessionProxyHash seed p = Some (foldl sessionFNVWriteByte seed (sessionProxyIdentity p))"
  using sessionProxyHash_identity [OF assms] by (simp add: sessionFNVWriteString_def)

theorem sessionProxyHash_is_identity_hash_witness:
  "(\<lambda>p. sessionProxyHash 7 p = Some (foldl sessionFNVWriteByte 7 (sessionProxyIdentity p)) \<and> pID p = - (2 ^ 63))
     (sampleNode\<lparr>pID := - (2 ^ 63)\<rparr>)"
  using sessionProxyHash_is_identity_hash [of "sampleNode\<lparr>pID := - (2 ^ 63)\<rparr>" 7] by simp

text \<open>
  A pinned route is served by the pinned node or not at all: whatever the sessions hold, the answer
  is the node the pin resolves to or an error wrapping \<open>ErrNoNode\<close>, and a pin that does not resolve
  leaves the session store untouched.
\<close>

theorem pinned_route_never_falls_back:
  assumes "uNode route \<noteq> []"
  shows "(case resolvePinnedNode store route excludes of
      Inl e \<Rightarrow> Resolve rnd store cfg sessions route excludes = (Inl (noNodeError (uRegion route)), sessions)
    | Inr p \<Rightarrow> fst (Resolve rnd store cfg sessions route excludes) \<in>
        {Inr p, Inl (noNodeCapacityError (uRegion route)), Inl (noNodeCooldownError (uRegion route))})"
proof (cases "resolvePinnedNode store route excludes")
  case (Inl e)
  then have "e = noNodeError (uRegion route)"
    by (auto simp: resolvePinnedNode_def Let_def split: sum.splits if_splits)
  with Inl assms show ?thesis by (simp add: Resolve_def)
next
  case (Inr p)
  have "fst (pinnedSection cfg route p s) \<in>
      {Inr p, Inl (noNodeCapacityError (uRegion route)), Inl (noNodeCooldownError (uRegion route))}" for s
    by (auto simp: pinnedSection_def Let_def split: prod.split)
  with Inr assms show ?thesis by (auto simp: Resolve_def split: option.split)
qed

lemma sample_pin: "resolvePinnedNode sampleStore (pinOf ''s1'') [] = Inr sampleNode"
  by (simp add: resolvePinnedNode_def pinOf_def sampleStore_def storageNodes_def GetProxyByAddress_def bindOp_def
      querySQL_unfold faulty_def matchTwo_def sample_facts returnOp_def HasPrefix_def excluded_def)
    (simp add: sampleRow_def newRow_def defaultRow_def scanProxy_def sampleNode_def proxyAvailable_def
      regionMismatch_def proxyMatchesUnlock_def parentNotPausedFor_def)

theorem pinned_route_never_falls_back_witness:
  "fst (Resolve (\<lambda>n. 0) sampleStore None None (pinOf ''s1'') []) \<in>
     {Inr sampleNode, Inl (noNodeCapacityError []), Inl (noNodeCooldownError [])}"
  using pinned_route_never_falls_back [where route = "pinOf ''s1''" and store = sampleStore and excludes = "[]" and
      rnd = "\<lambda>n. 0" and cfg = None and sessions = None] sample_pin
  by (simp add: pinOf_def)

text \<open>
  A live session stays on its node as long as that node may serve it: the bound node is returned, its
  activity time is refreshed, and no occupancy and no cooldown window changes.
\<close>

theorem sticky_session_keeps_node:
  assumes "affinity_reachable s" "uNode route = []" "uSession route \<noteq> []"
    "live s (uSession route) = Some b" "0 < bProxyID b" "bProxyID b \<notin> set excludes"
    "\<not> bindingRegionMismatch b (uRegion route)" "nsGetProxyByID store (bProxyID b) = Inr p" "proxyAvailable p"
    "\<not> regionMismatch (pRegion p) (uRegion route)" "proxyMatchesUnlock p (uUnlock route)"
    "parentNotPausedFor store p"
  shows "\<exists>t. Resolve rnd store cfg (Some s) route excludes = (Inr p, Some t) \<and>
    live t (uSession route) = Some (b\<lparr>bLastActive := clock s\<rparr>) \<and>
    occupancy (live t) = occupancy (live s) \<and> window t = window s"
proof -
  have inv: "affinity_inv s" by (rule reachable_inv [OF assms(1)])
  let ?t = "snd (Get (uSession route) s)"
  have g: "Get (uSession route) s = (Some (b\<lparr>bLastActive := clock s\<rparr>), ?t)"
    using aff.get_result [of "uSession route" s] assms(4) by (simp add: prod_eq_iff)
  have "stickyBoundProxy store (Some s) route excludes = (Some p, Some ?t)"
    unfolding stickyBoundProxy_def option.case by (subst g)
      (use assms in \<open>simp add: excluded_def list_ex_iff bindingRegionMismatch_def\<close>)
  then have "Resolve rnd store cfg (Some s) route excludes = (Inr p, Some ?t)"
    using assms(2,3) by (simp add: Resolve_def)
  moreover have "live ?t (uSession route) = Some (b\<lparr>bLastActive := clock s\<rparr>)"
    using aff.get_view [of "uSession route" s] assms(4) aff.get_result [of "uSession route" s] by simp
  ultimately show ?thesis using Get_quiet [OF inv] by blast
qed

definition sessionOnly :: ParsedUsername where
  "sessionOnly = (pinOf ''s1'')\<lparr>uNode := []\<rparr>"

theorem sticky_session_keeps_node_witness:
  "(\<lambda>s. fst (Resolve (\<lambda>n. 0) sampleStore None (Some s) sessionOnly []) = Inr sampleNode)
     (SetProxy ''s1'' 1 ''h1'' [] (NewWithClock 10 0))"
proof -
  have r: "affinity_reachable (SetProxy ''s1'' 1 ''h1'' [] (NewWithClock 10 0))" by (intro reach_set reach_new)
  have "nsGetProxyByID sampleStore 1 = Inr sampleNode"
    by (simp add: sampleStore_def storageNodes_def GetProxyByID_def bindOp_def querySQL_unfold faulty_def
        firstRow_def sample_facts returnOp_def) (simp add: sampleRow_def newRow_def defaultRow_def sampleNode_def)
  with sticky_session_keeps_node [OF r, of sessionOnly "\<lparr>bProxyID = 1, bNodeAddress = ''h1'', bRegion = [], bLastActive = 0\<rparr>"
      "[]" sampleStore sampleNode "\<lambda>n. 0" None]
  show ?thesis
    by (auto simp: sessionOnly_def pinOf_def SetProxy_live proxyAvailable_def parentNotPausedFor_def
        regionMismatch_def bindingRegionMismatch_def proxyMatchesUnlock_def NewWithClock_def)
qed

definition wrongTypeAI :: string where
  "wrongTypeAI = [CHR ''{'', CHR 0x22] @ ''openai'' @ [CHR 0x22, CHR '':'', CHR 0x22, CHR ''x'', CHR 0x22, CHR ''}'']"

lemma wrongTypeAI_eval:
  "TrimSpace wrongTypeAI = wrongTypeAI" "unmarshalIntMap wrongTypeAI = (Some [(''openai'', 0)], True)"
  by code_simp+

text \<open>
  The unlock filter of the selector and the AI filter of the node API disagree on a result of the
  wrong JSON type: decoding \<open>{"openai":"x"}\<close> reports an error but leaves 0 under the key, the selector
  ignores the error and counts the node as unlocked, the node API rejects it.
\<close>

theorem unlock_filter_ignores_decode_error:
  "proxyMatchesUnlock (p\<lparr>pAIReachability := wrongTypeAI\<rparr>) [''openai''] \<and>
   \<not> aiReachableAll wrongTypeAI [''openai'']"
  by (simp add: proxyMatchesUnlock_def unlockMet_def aiMap_def aiReachableAll_def wrongTypeAI_eval Let_def)
    (simp add: wrongTypeAI_def)

end
