(* ===== verification/NetAddr.thy ===== *)
theory NetAddr
  imports GoBase
begin

text \<open>
  The parts of Go's package \<open>net\<close> the gateway uses: splitting and joining host and port, IP literals
  (\<open>ParseIP\<close>, \<open>To4\<close>, \<open>String\<close>) and the address classes. An IP is its list of bytes, four or sixteen.
\<close>

section \<open>Host and port\<close>

definition SplitHostPort :: "string \<Rightarrow> (string \<times> string) option" where
  "SplitHostPort hostport =
     (let i = LastIndexByte hostport CHR '':'' in
      if i < 0 then None
      else if take 1 hostport = ''['' then
        (let e = Index hostport '']'' in
         if e < 0 \<or> e + 1 \<noteq> i then None
         else if Contains (drop 1 hostport) ''['' \<or> Contains (drop (nat (e + 1)) hostport) '']'' then None
         else Some (drop 1 (take (nat e) hostport), drop (nat (i + 1)) hostport))
      else
        (let host = take (nat i) hostport in
         if Contains host '':'' then None
         else if Contains hostport ''['' \<or> Contains hostport '']'' then None
         else Some (host, drop (nat (i + 1)) hostport)))"

definition JoinHostPort :: "string \<Rightarrow> string \<Rightarrow> string" where
  "JoinHostPort host port = (if Contains host '':'' then ''['' @ host @ '']:'' @ port else host @ '':'' @ port)"

text \<open>\<open>strconv.ParseUint(s, 10, 16)\<close>.\<close>

definition ParseUint16 :: "string \<Rightarrow> int option" where
  "ParseUint16 s =
     (if s = [] \<or> \<not> list_all isDigitChar s then None
      else if digitsVal s 0 < 65536 then Some (digitsVal s 0) else None)"

section \<open>IP literals\<close>

definition parseOctet :: "string \<Rightarrow> nat option" where
  "parseOctet s =
     (if s = [] \<or> \<not> list_all isDigitChar s then None
      else if length s > 1 \<and> hd s = CHR ''0'' then None
      else if digitsVal s 0 > 255 then None else Some (nat (digitsVal s 0)))"

definition parseIPv4 :: "string \<Rightarrow> nat list option" where
  "parseIPv4 s =
     (case map parseOctet (SplitByte s CHR ''.'') of
        [Some a, Some b, Some c, Some d] \<Rightarrow> Some [a, b, c, d]
      | _ \<Rightarrow> None)"

definition hexDigit :: "char \<Rightarrow> nat option" where
  "hexDigit c =
     (if isDigitChar c then Some (byte c - 48)
      else if 97 \<le> byte c \<and> byte c \<le> 102 then Some (byte c - 87)
      else if 65 \<le> byte c \<and> byte c \<le> 70 then Some (byte c - 55) else None)"

fun hexGroup :: "string \<Rightarrow> nat \<Rightarrow> nat \<times> nat \<times> string" where
  "hexGroup [] acc = (acc, 0, [])"
| "hexGroup (c # s) acc =
     (case hexDigit c of
        None \<Rightarrow> (acc, 0, c # s)
      | Some v \<Rightarrow> (case hexGroup s (acc * 16 + v) of (a, n, r) \<Rightarrow> (a, Suc n, r)))"

text \<open>
  The loop of \<open>parseIPv6\<close>: \<open>n\<close> groups may still follow, \<open>out\<close> holds the bytes so far and \<open>ell\<close> the
  position of the ellipsis. The result is the bytes, the ellipsis and the unread rest.
\<close>

fun ipv6Groups :: "nat \<Rightarrow> string \<Rightarrow> nat list \<Rightarrow> nat option \<Rightarrow> (nat list \<times> nat option \<times> string) option" where
  "ipv6Groups 0 s out ell = Some (out, ell, s)"
| "ipv6Groups (Suc n) s out ell =
     (case hexGroup s 0 of
        (acc, off, rest) \<Rightarrow>
          if off = 0 \<or> off > 4 then None
          else if take 1 rest = ''.'' then
            (if ell = None \<and> length out \<noteq> 12 then None
             else if length out + 4 > 16 then None
             else (case parseIPv4 s of None \<Rightarrow> None | Some q \<Rightarrow> Some (out @ q, ell, [])))
          else
            (let out' = out @ [acc div 256, acc mod 256] in
             if rest = [] then Some (out', ell, [])
             else if hd rest \<noteq> CHR '':'' \<or> length rest = 1 then None
             else
               (let s' = tl rest in
                if hd s' = CHR '':'' then
                  (if ell \<noteq> None then None
                   else if tl s' = [] then Some (out', Some (length out'), [])
                   else ipv6Groups n (tl s') out' (Some (length out')))
                else ipv6Groups n s' out' ell)))"

definition expandEllipsis :: "nat list \<times> nat option \<times> string \<Rightarrow> nat list option" where
  "expandEllipsis r =
     (case r of (out, ell, s) \<Rightarrow>
        if s \<noteq> [] then None
        else (case ell of
                None \<Rightarrow> if length out = 16 then Some out else None
              | Some e \<Rightarrow>
                  if length out = 16 then None
                  else Some (take e out @ replicate (16 - length out) 0 @ drop e out)))"

definition parseIPv6 :: "string \<Rightarrow> nat list option" where
  "parseIPv6 s =
     (if CHR ''%'' \<in> set s then None
      else if prefix ''::'' s then
        (if drop 2 s = [] then Some (replicate 16 0)
         else Option.bind (ipv6Groups 8 (drop 2 s) [] (Some 0)) expandEllipsis)
      else Option.bind (ipv6Groups 8 s [] None) expandEllipsis)"

definition v4InV6 :: "nat list" where
  "v4InV6 = replicate 10 0 @ [255, 255]"

text \<open>\<open>net.ParseIP\<close>: the sixteen-byte form; the first of dot, colon and percent decides the family.\<close>

definition ParseIP :: "string \<Rightarrow> nat list option" where
  "ParseIP s =
     (case find (\<lambda>c. c = CHR ''.'' \<or> c = CHR '':'' \<or> c = CHR ''%'') s of
        None \<Rightarrow> None
      | Some c \<Rightarrow>
          if c = CHR ''.'' then map_option (\<lambda>q. v4InV6 @ q) (parseIPv4 s)
          else if c = CHR '':'' then parseIPv6 s else None)"

definition To4 :: "nat list \<Rightarrow> nat list option" where
  "To4 ip =
     (if length ip = 4 then Some ip
      else if length ip = 16 \<and> take 12 ip = v4InV6 then Some (drop 12 ip) else None)"

definition IsLoopback :: "nat list \<Rightarrow> bool" where
  "IsLoopback ip =
     (case To4 ip of
        Some q \<Rightarrow> q ! 0 = 127
      | None \<Rightarrow> ip = replicate 15 0 @ [1])"

definition IsPrivate :: "nat list \<Rightarrow> bool" where
  "IsPrivate ip =
     (case To4 ip of
        Some q \<Rightarrow> q ! 0 = 10 \<or> (q ! 0 = 172 \<and> q ! 1 div 16 = 1) \<or> (q ! 0 = 192 \<and> q ! 1 = 168)
      | None \<Rightarrow> length ip = 16 \<and> ip ! 0 div 2 = 126)"

definition ipv4String :: "nat list \<Rightarrow> string" where
  "ipv4String q = Join (map natDigits q) ''.''"

definition hexChar :: "nat \<Rightarrow> char" where
  "hexChar d = (if d < 10 then char_of (48 + d) else char_of (87 + d))"

fun hexNat :: "nat \<Rightarrow> string" where
  "hexNat n = (if n < 16 then [hexChar n] else hexNat (n div 16) @ [hexChar (n mod 16)])"

declare hexNat.simps [simp del]

fun groups16 :: "nat list \<Rightarrow> nat list" where
  "groups16 (a # b # xs) = (a * 256 + b) # groups16 xs"
| "groups16 _ = []"

definition zeroRun :: "nat list \<Rightarrow> nat" where
  "zeroRun gs = length (takeWhile (\<lambda>g. g = 0) gs)"

text \<open>The first longest run of at least two zero groups, as start and length.\<close>

definition longestZeros :: "nat list \<Rightarrow> nat \<times> nat" where
  "longestZeros gs =
     foldl (\<lambda>(st, len) i. let r = zeroRun (drop i gs) in if 2 \<le> r \<and> r > len then (i, r) else (st, len))
       (0, 0) [0..<length gs]"

definition ipv6String :: "nat list \<Rightarrow> string" where
  "ipv6String ip =
     (let gs = groups16 ip in
      case longestZeros gs of
        (st, len) \<Rightarrow>
          if len = 0 then Join (map hexNat gs) '':''
          else Join (map hexNat (take st gs)) '':'' @ ''::'' @ Join (map hexNat (drop (st + len) gs)) '':'')"

definition IPString :: "nat list \<Rightarrow> string" where
  "IPString ip = (case To4 ip of Some q \<Rightarrow> ipv4String q | None \<Rightarrow> ipv6String ip)"

section \<open>Facts\<close>

lemma indexOf_byte: "indexOf s [c] = None \<longleftrightarrow> c \<notin> set s"
  by (induction s) auto

lemma Contains_byte [simp]: "Contains s [c] \<longleftrightarrow> c \<in> set s"
  using indexOf_byte [of s c] by (simp add: Contains_def)

lemma LastIndexByte_absent: "b \<notin> set s \<Longrightarrow> LastIndexByte s b = - 1"
  by (induction s) auto

lemma LastIndexByte_last: "b \<notin> set t \<Longrightarrow> LastIndexByte (s @ b # t) b = int (length s)"
  by (induction s) (auto simp: LastIndexByte_absent)

definition plainAddr :: "string \<Rightarrow> bool" where
  "plainAddr s \<longleftrightarrow> CHR '':'' \<notin> set s \<and> CHR ''['' \<notin> set s \<and> CHR '']'' \<notin> set s"

lemma SplitHostPort_plain:
  assumes "plainAddr host" "plainAddr port"
  shows "SplitHostPort (host @ '':'' @ port) = Some (host, port)"
proof -
  have "take 1 (host @ '':'' @ port) \<noteq> ''[''"
    using assms by (cases host) (auto simp: plainAddr_def)
  then show ?thesis
    using assms LastIndexByte_last [of "CHR '':''" port host] by (simp add: SplitHostPort_def plainAddr_def nat_add_distrib)
qed

lemma JoinHostPort_plain: "plainAddr host \<Longrightarrow> JoinHostPort host port = host @ '':'' @ port"
  by (simp add: JoinHostPort_def plainAddr_def)

lemma natDigits_plain: "plainAddr (natDigits n)" and natDigits_no_dot: "CHR ''.'' \<notin> set (natDigits n)"
  using natDigits_digit [of n] by (auto simp: plainAddr_def isDigitChar_def)

lemma natDigits_leading: "natDigits n \<noteq> [] \<and> (1 < length (natDigits n) \<longrightarrow> hd (natDigits n) \<noteq> CHR ''0'')"
proof (induction n rule: natDigits.induct)
  case (1 n)
  show ?case
  proof (cases "n < 10")
    case True
    then show ?thesis by (simp add: natDigits.simps [of n])
  next
    case False
    have "hd (natDigits (n div 10)) \<noteq> CHR ''0''"
    proof (cases "n div 10 < 10")
      case True
      have "byte (char_of (48 + n div 10)) \<noteq> byte CHR ''0''" using False True by simp
      then have "char_of (48 + n div 10) \<noteq> CHR ''0''" by metis
      then show ?thesis using True by (simp add: natDigits.simps [of "n div 10"])
    next
      case big: False
      then have "1 < length (natDigits (n div 10))"
        using natDigits_not_Nil [of "n div 10 div 10"] by (subst natDigits.simps) (cases "natDigits (n div 10 div 10)"; simp)
      with 1 False show ?thesis by simp
    qed
    with False natDigits_not_Nil [of "n div 10"] show ?thesis by (simp add: natDigits.simps [of n])
  qed
qed

lemma parseOctet_natDigits: "n \<le> 255 \<Longrightarrow> parseOctet (natDigits n) = Some n"
  using natDigits_leading [of n] natDigits_digit [of n]
  by (auto simp: parseOctet_def digitsVal_natDigits list_all_iff)

definition ipv4Quad :: "nat list \<Rightarrow> bool" where
  "ipv4Quad q \<longleftrightarrow> length q = 4 \<and> (\<forall>x\<in>set q. x \<le> 255)"

lemma ipv4QuadE:
  assumes "ipv4Quad q"
  obtains a b c d where "q = [a, b, c, d]" "a \<le> 255" "b \<le> 255" "c \<le> 255" "d \<le> 255"
proof -
  from assms have "length q = Suc (Suc (Suc (Suc 0)))" by (simp add: ipv4Quad_def)
  then show thesis using assms that by (auto simp: length_Suc_conv ipv4Quad_def)
qed

lemma ipv4String_quad:
  "ipv4String [a, b, c, d] = natDigits a @ CHR ''.'' # natDigits b @ CHR ''.'' # natDigits c @ CHR ''.'' # natDigits d"
  by (simp add: ipv4String_def)

lemma parseIPv4_String: "ipv4Quad q \<Longrightarrow> parseIPv4 (ipv4String q) = Some q"
  by (elim ipv4QuadE)
    (simp add: parseIPv4_def SplitByte_def ipv4String_quad splitByteAux_sep splitByteAux_last natDigits_no_dot
      parseOctet_natDigits)

lemma ipv4String_chars:
  assumes "ipv4Quad q"
  shows "plainAddr (ipv4String q)" "\<forall>c\<in>set (ipv4String q). isDigitChar c \<or> c = CHR ''.''"
    "isDigitChar (hd (ipv4String q))" "isDigitChar (last (ipv4String q))" "ipv4String q \<noteq> []"
    "CHR ''.'' \<in> set (ipv4String q)"
proof -
  obtain a b c d where q: "q = [a, b, c, d]" using assms by (elim ipv4QuadE)
  note d = natDigits_digit [of a] natDigits_digit [of b] natDigits_digit [of c] natDigits_digit [of d]
  show all: "\<forall>c\<in>set (ipv4String q). isDigitChar c \<or> c = CHR ''.''"
    using d by (auto simp: q ipv4String_quad)
  then show "plainAddr (ipv4String q)" by (auto simp: plainAddr_def isDigitChar_def)
  show "isDigitChar (hd (ipv4String q))" "isDigitChar (last (ipv4String q))" "ipv4String q \<noteq> []"
    "CHR ''.'' \<in> set (ipv4String q)"
    using d natDigits_not_Nil by (simp_all add: q ipv4String_quad)
qed

lemma ParseIP_ipv4:
  assumes "ipv4Quad q"
  shows "ParseIP (ipv4String q) = Some (v4InV6 @ q)"
proof -
  note c = ipv4String_chars [OF assms]
  have "find (\<lambda>c. c = CHR ''.'' \<or> c = CHR '':'' \<or> c = CHR ''%'') (ipv4String q) \<noteq> None"
    using c(6) by (auto simp: find_None_iff)
  then obtain x where x: "find (\<lambda>c. c = CHR ''.'' \<or> c = CHR '':'' \<or> c = CHR ''%'') (ipv4String q) = Some x" by blast
  then have "x \<in> set (ipv4String q)" "x = CHR ''.'' \<or> x = CHR '':'' \<or> x = CHR ''%''"
    by (auto simp: find_Some_iff in_set_conv_nth)
  with c(2) have "x = CHR ''.''" by (auto simp: isDigitChar_def)
  with x show ?thesis by (simp add: ParseIP_def parseIPv4_String [OF assms])
qed

lemma To4_mapped: "length q = 4 \<Longrightarrow> To4 (v4InV6 @ q) = Some q"
  by (simp add: To4_def v4InV6_def)

end
