(* ===== verification/Targets.thy ===== *)
theory Targets
  imports NetAddr
begin

text \<open>
  Which targets the gateway accepts and which it dials directly: \<open>proxy/bypass.go\<close> and the target
  checks of \<open>proxy/server.go\<close>.
\<close>

section \<open>Definitions\<close>

text \<open>\<open>strings.Trim\<close> for a cutset of ASCII bytes, \<open>strings.TrimSuffix\<close>.\<close>

definition TrimCutset :: "string \<Rightarrow> string \<Rightarrow> string" where
  "TrimCutset s cutset =
     rev (dropWhile (\<lambda>c. c \<in> set cutset) (rev (dropWhile (\<lambda>c. c \<in> set cutset) s)))"

definition TrimSuffix :: "string \<Rightarrow> string \<Rightarrow> string" where
  "TrimSuffix s suf = (if HasSuffix s suf then take (length s - length suf) s else s)"

definition hostOnly :: "string \<Rightarrow> string" where
  "hostOnly target0 =
     (let target = TrimSpace target0 in
      if target = [] then []
      else (case SplitHostPort target of
              Some (host, _) \<Rightarrow> host
            | None \<Rightarrow> TrimCutset target ''[]''))"

definition isBypassTarget :: "string \<Rightarrow> bool" where
  "isBypassTarget target =
     (let host = hostOnly target in
      if host = [] then False
      else
        (let lower = ToLower (TrimSuffix host ''.'') in
         if lower = ''localhost'' \<or> HasSuffix lower ''.localhost'' then True
         else if HasSuffix lower ''.local'' then True
         else (case ParseIP host of
                 None \<Rightarrow> False
               | Some ip \<Rightarrow> IsLoopback ip \<or> IsPrivate ip)))"

datatype target_error =
    ErrSplitTarget
  | ErrTargetHost string
  | ErrTargetControl
  | ErrTargetPort string

definition validateTargetHost :: "string \<Rightarrow> target_error option" where
  "validateTargetHost host =
     (if host = [] \<or> TrimSpace host \<noteq> host then Some (ErrTargetHost host)
      else if list_ex (\<lambda>r. r \<le> 0x20 \<or> r = 0x7f) (runes host) then Some ErrTargetControl
      else None)"

definition validateConnectTarget :: "string \<Rightarrow> target_error option" where
  "validateConnectTarget target =
     (case SplitHostPort target of
        None \<Rightarrow> Some ErrSplitTarget
      | Some (host, port) \<Rightarrow>
          (case validateTargetHost host of
             Some e \<Rightarrow> Some e
           | None \<Rightarrow>
               (case ParseUint16 port of
                  None \<Rightarrow> Some (ErrTargetPort port)
                | Some p \<Rightarrow> if p = 0 then Some (ErrTargetPort port) else None)))"

section \<open>Facts\<close>

lemma digit_graphic: "isDigitChar c \<Longrightarrow> graphic c"
  by (simp add: isDigitChar_def graphic_def)

lemma HasSuffix_last: "HasSuffix s t \<Longrightarrow> t \<noteq> [] \<Longrightarrow> last s = last t"
  by (auto simp: HasSuffix_def suffix_def)

lemma ToLower_digit_last: "s \<noteq> [] \<Longrightarrow> isDigitChar (last s) \<Longrightarrow> last (ToLower s) = last s"
  by (auto simp: ToLower_def last_map toLowerChar_def isDigitChar_def isASCIIUpper_def)

lemma TrimSuffix_digit: "isDigitChar (last s) \<Longrightarrow> TrimSuffix s ''.'' = s"
  using HasSuffix_last [of s "''.''"] by (auto simp: TrimSuffix_def isDigitChar_def)

lemma ParseUint16_natDigits: "p < 65536 \<Longrightarrow> ParseUint16 (natDigits p) = Some (int p)"
  using natDigits_digit [of p] natDigits_not_Nil [of p]
  by (simp add: ParseUint16_def digitsVal_natDigits list_all_iff)

lemma runes_below_128: "\<forall>c\<in>set s. byte c < 128 \<Longrightarrow> runes s = map byte s"
  by (induction s) (simp_all add: decodeRune_def)

lemma validateTargetHost_graphic: "s \<noteq> [] \<Longrightarrow> \<forall>c\<in>set s. graphic c \<Longrightarrow> validateTargetHost s = None"
proof -
  assume s: "s \<noteq> []" and g: "\<forall>c\<in>set s. graphic c"
  then have "runes s = map byte s" by (intro runes_below_128) (auto simp: graphic_def)
  moreover have "TrimSpace s = s" using s g by (intro TrimSpace_graphic) auto
  ultimately show ?thesis using s g by (auto simp: validateTargetHost_def graphic_def list_ex_iff)
qed

lemma hostOnly_ipv4:
  assumes "ipv4Quad q"
  shows "hostOnly (JoinHostPort (ipv4String q) (natDigits port)) = ipv4String q"
proof -
  note c = ipv4String_chars [OF assms]
  let ?t = "ipv4String q @ '':'' @ natDigits port"
  have "hd ?t = hd (ipv4String q)" using c(5) by simp
  moreover have "isDigitChar (last ?t)" using natDigits_digit [of port] natDigits_not_Nil [of port] by simp
  ultimately have "TrimSpace ?t = ?t" using c(3) by (intro TrimSpace_graphic) (auto intro: digit_graphic)
  then show ?thesis
    using SplitHostPort_plain [OF c(1) natDigits_plain] JoinHostPort_plain [OF c(1)]
    by (simp add: hostOnly_def)
qed

lemma digit_not_local:
  assumes "s \<noteq> []" "isDigitChar (last s)"
  shows "ToLower s \<noteq> ''localhost''" "\<not> HasSuffix (ToLower s) ''.localhost''" "\<not> HasSuffix (ToLower s) ''.local''"
proof -
  have d: "isDigitChar (last (ToLower s))" using ToLower_digit_last [OF assms] assms(2) by simp
  then have no: "last (ToLower s) \<noteq> CHR ''t''" "last (ToLower s) \<noteq> CHR ''l''" by (auto simp: isDigitChar_def)
  then show "ToLower s \<noteq> ''localhost''" by auto
  show "\<not> HasSuffix (ToLower s) ''.localhost''" "\<not> HasSuffix (ToLower s) ''.local''"
    using no HasSuffix_last [of "ToLower s"] by fastforce+
qed

lemma bypass_ipv4_host:
  assumes "ipv4Quad q" "hostOnly t = ipv4String q"
  shows "isBypassTarget t \<longleftrightarrow> IsLoopback (v4InV6 @ q) \<or> IsPrivate (v4InV6 @ q)"
  using ipv4String_chars [OF assms(1)] digit_not_local [of "ipv4String q"]
  by (simp add: isBypassTarget_def assms TrimSuffix_digit ParseIP_ipv4)

lemma ipv4_class:
  "ipv4Quad q \<Longrightarrow> IsLoopback (v4InV6 @ q) \<or> IsPrivate (v4InV6 @ q) \<longleftrightarrow>
     q ! 0 = 127 \<or> q ! 0 = 10 \<or> q ! 0 = 172 \<and> 16 \<le> q ! 1 \<and> q ! 1 \<le> 31 \<or> q ! 0 = 192 \<and> q ! 1 = 168"
  by (auto simp: IsLoopback_def IsPrivate_def To4_mapped ipv4Quad_def)

lemma ipv4_valid_target:
  assumes "ipv4Quad q" "0 < port" "port < 65536"
  shows "validateConnectTarget (JoinHostPort (ipv4String q) (natDigits port)) = None"
proof -
  note c = ipv4String_chars [OF assms(1)]
  have "\<forall>c\<in>set (ipv4String q). graphic c" using c(2) by (auto simp: graphic_def isDigitChar_def)
  then show ?thesis
    using SplitHostPort_plain [OF c(1) natDigits_plain, of port] c(5) assms(2,3)
    by (simp add: validateConnectTarget_def JoinHostPort_plain [OF c(1)] validateTargetHost_graphic
        ParseUint16_natDigits)
qed

section \<open>Properties\<close>

text \<open>
  The bypass decision on every IPv4 literal and port: the target is accepted, and it is dialled
  directly exactly when it lies in 127.0.0.0/8, 10.0.0.0/8, 172.16.0.0/12 or 192.168.0.0/16. In
  particular no link-local address (the cloud metadata services of 169.254.0.0/16) is dialled directly.
\<close>

theorem bypass_exactly_local_ipv4:
  assumes "ipv4Quad q" "0 < port" "port < 65536"
  shows "validateConnectTarget (JoinHostPort (ipv4String q) (natDigits port)) = None \<and>
    (isBypassTarget (JoinHostPort (ipv4String q) (natDigits port)) \<longleftrightarrow>
       q ! 0 = 127 \<or> q ! 0 = 10 \<or> q ! 0 = 172 \<and> 16 \<le> q ! 1 \<and> q ! 1 \<le> 31 \<or> q ! 0 = 192 \<and> q ! 1 = 168)"
  using ipv4_valid_target [OF assms] bypass_ipv4_host [OF assms(1) hostOnly_ipv4 [OF assms(1)]]
    ipv4_class [OF assms(1)] by blast

theorem bypass_exactly_local_ipv4_witness:
  "\<not> isBypassTarget (JoinHostPort (ipv4String [169, 254, 169, 254]) (natDigits 80)) \<and>
   isBypassTarget (JoinHostPort (ipv4String [172, 31, 0, 1]) (natDigits 443))"
  using bypass_exactly_local_ipv4 [of "[169, 254, 169, 254]" 80] bypass_exactly_local_ipv4 [of "[172, 31, 0, 1]" 443]
  by (simp add: ipv4Quad_def)

end
