(* ===== verification/Socks.thy ===== *)
theory Socks
  imports Targets Config StorageModel
begin

text \<open>
  The SOCKS5 wire protocol of the package \<open>proxy\<close>: the inbound handshake and request of
  \<open>socks5_server.go\<close>, the outbound handshake, request and reply of \<open>server.go\<close>, and the two
  \<open>dialViaProxy\<close> functions that open a tunnel through a node.

  A connection is the bytes that will still arrive before the stream ends, the bytes written so far,
  and scripts of the writes and deadline calls that fail; running out of input stands for every way a
  read fails (end of file, reset, deadline). \<open>ReadResponse\<close> of \<open>net/http\<close> is an argument: from the
  bytes that arrive, the status code, the status text and the bytes it leaves unread, or an error.
\<close>

section \<open>Connections\<close>

record Conn =
  rx :: string
  tx :: string
  writeFaults :: "bool list"
  deadlineFaults :: "bool list"
  closed :: bool

datatype proxy_error =
    ErrRead
  | ErrWrite
  | ErrDeadline
  | ErrDial
  | ErrSOCKSVersion nat
  | ErrNoAcceptableMethod
  | ErrNoRuntimeConfig
  | ErrAuthVersion nat
  | ErrUsername auth_error
  | ErrAuthFailed
  | ErrCommand nat
  | ErrReserved nat
  | ErrAddressType nat
  | ErrTarget target_error
  | ErrZeroPort
  | ErrHandshake
  | ErrCredentialTooLong
  | ErrUpstreamAuth
  | ErrReplyVersion nat
  | ErrConnectReply nat
  | ErrDomainTooLong nat
  | ErrPortNumber
  | ErrHTTPResponse
  | ErrRejection string nat string
  | ErrProtocol string

type_synonym 'a conn_op = "Conn \<Rightarrow> (proxy_error + 'a) \<times> Conn"

definition returnC :: "'a \<Rightarrow> 'a conn_op" where
  "returnC x c = (Inr x, c)"

definition failC :: "proxy_error \<Rightarrow> 'a conn_op" where
  "failC e c = (Inl e, c)"

definition bindC :: "'a conn_op \<Rightarrow> ('a \<Rightarrow> 'b conn_op) \<Rightarrow> 'b conn_op" where
  "bindC m k c = (case m c of (Inl e, c1) \<Rightarrow> (Inl e, c1) | (Inr x, c1) \<Rightarrow> k x c1)"

text \<open>A call whose error the code ignores.\<close>

definition ignoreC :: "'a conn_op \<Rightarrow> unit conn_op" where
  "ignoreC m c = (Inr (), snd (m c))"

text \<open>\<open>io.ReadFull\<close> on a buffer of \<open>n\<close> bytes, \<open>conn.Write\<close>, \<open>conn.SetDeadline\<close>.\<close>

definition readFull :: "nat \<Rightarrow> string conn_op" where
  "readFull n c =
     (if length (rx c) < n then (Inl ErrRead, c\<lparr>rx := []\<rparr>)
      else (Inr (take n (rx c)), c\<lparr>rx := drop n (rx c)\<rparr>))"

definition writeC :: "string \<Rightarrow> unit conn_op" where
  "writeC bs c =
     (let c1 = c\<lparr>writeFaults := tl (writeFaults c)\<rparr> in
      if writeFaults c \<noteq> [] \<and> hd (writeFaults c) then (Inl ErrWrite, c1)
      else (Inr (), c1\<lparr>tx := tx c @ bs\<rparr>))"

definition setDeadline :: "unit conn_op" where
  "setDeadline c =
     (let c1 = c\<lparr>deadlineFaults := tl (deadlineFaults c)\<rparr> in
      if deadlineFaults c \<noteq> [] \<and> hd (deadlineFaults c) then (Inl ErrDeadline, c1) else (Inr (), c1))"

definition closeC :: "Conn \<Rightarrow> Conn" where
  "closeC c = c\<lparr>closed := True\<rparr>"

text \<open>\<open>if err != nil { conn.Close(); return nil, err }\<close> after every step of a dial.\<close>

definition closeOnError :: "'a conn_op \<Rightarrow> 'a conn_op" where
  "closeOnError m c = (case m c of (Inl e, c1) \<Rightarrow> (Inl e, closeC c1) | (Inr x, c1) \<Rightarrow> (Inr x, c1))"

text \<open>The conversion \<open>byte(n)\<close>.\<close>

definition octet :: "nat \<Rightarrow> char" where
  "octet n = char_of n"

lemma byte_octet [simp]: "n < 256 \<Longrightarrow> byte (octet n) = n" "n \<le> 255 \<Longrightarrow> byte (octet n) = n" and octet_byte [simp]: "octet (byte c) = c"
  by (simp_all add: octet_def)

section \<open>The inbound handshake\<close>

definition emptyRoute :: ParsedUsername where
  "emptyRoute = \<lparr>uBase = [], uRegion = [], uSession = [], uUnlock = [], uNode = []\<rparr>"

definition authReject :: "proxy_error \<Rightarrow> 'a conn_op" where
  "authReject e = bindC (ignoreC (writeC [octet 1, octet 1])) (\<lambda>u. failC e)"

definition socks5AuthWithConfig :: "Config option \<Rightarrow> ParsedUsername conn_op" where
  "socks5AuthWithConfig cfg0 =
     (case cfg0 of
        None \<Rightarrow> failC ErrNoRuntimeConfig
      | Some cfg \<Rightarrow>
          bindC (readFull 2) (\<lambda>h.
          if byte (h ! 0) \<noteq> 1 then failC (ErrAuthVersion (byte (h ! 0)))
          else
            bindC (readFull (byte (h ! 1))) (\<lambda>user.
            case ParseUsername user of
              Inl e \<Rightarrow> authReject (ErrUsername e)
            | Inr parsed \<Rightarrow>
                bindC (readFull 1) (\<lambda>l.
                bindC (readFull (byte (l ! 0))) (\<lambda>password.
                if \<not> VerifyPassword (uBase parsed) password (cfgProxyAuthUsername cfg)
                       (cfgProxyAuthPassword cfg) (cfgProxyAuthPasswordHash cfg)
                then authReject ErrAuthFailed
                else bindC (writeC [octet 1, octet 0]) (\<lambda>u. returnC parsed))))))"

definition selectMethod :: "Config option \<Rightarrow> string \<Rightarrow> nat" where
  "selectMethod cfg methods =
     (if (case cfg of None \<Rightarrow> False | Some c \<Rightarrow> cfgProxyAuthEnabled c)
      then (if octet 2 \<in> set methods then 2 else 255)
      else (if octet 0 \<in> set methods then 0 else 255))"

definition socks5Handshake :: "Config option \<Rightarrow> ParsedUsername conn_op" where
  "socks5Handshake cfg =
     bindC (readFull 2) (\<lambda>h.
     if byte (h ! 0) \<noteq> 5 then failC (ErrSOCKSVersion (byte (h ! 0)))
     else
       bindC (readFull (byte (h ! 1))) (\<lambda>methods.
       let selectedMethod = selectMethod cfg methods in
       bindC (writeC [octet 5, octet selectedMethod]) (\<lambda>u.
       if selectedMethod = 255 then failC ErrNoAcceptableMethod
       else if selectedMethod = 2 then socks5AuthWithConfig cfg
       else returnC emptyRoute)))"

section \<open>Addresses, requests and replies\<close>

definition validSOCKS5AddressType :: "nat \<Rightarrow> bool" where
  "validSOCKS5AddressType atyp \<longleftrightarrow> atyp = 1 \<or> atyp = 3 \<or> atyp = 4"

definition readSOCKS5Address :: "nat \<Rightarrow> string conn_op" where
  "readSOCKS5Address atyp =
     (if atyp = 1 then bindC (readFull 4) (\<lambda>a. returnC (IPString (map byte a)))
      else if atyp = 3 then
        bindC (readFull 1) (\<lambda>l.
        bindC (readFull (byte (l ! 0))) (\<lambda>host.
        case validateTargetHost host of
          Some e \<Rightarrow> failC (ErrTarget e)
        | None \<Rightarrow> returnC host))
      else if atyp = 4 then bindC (readFull 16) (\<lambda>a. returnC (IPString (map byte a)))
      else failC (ErrAddressType atyp))"

definition sendSOCKS5Reply :: "nat \<Rightarrow> unit conn_op" where
  "sendSOCKS5Reply rep =
     writeC (map octet [5, rep, 0, 1, 0, 0, 0, 0, 0, 0])"

definition replyAndFail :: "nat \<Rightarrow> proxy_error \<Rightarrow> 'a conn_op" where
  "replyAndFail rep e = bindC (ignoreC (sendSOCKS5Reply rep)) (\<lambda>u. failC e)"

definition readSOCKS5Request :: "string conn_op" where
  "readSOCKS5Request =
     bindC (readFull 4) (\<lambda>header.
     let atyp = byte (header ! 3) in
     if byte (header ! 0) \<noteq> 5 then failC (ErrSOCKSVersion (byte (header ! 0)))
     else if byte (header ! 1) \<noteq> 1 then replyAndFail 7 (ErrCommand (byte (header ! 1)))
     else if byte (header ! 2) \<noteq> 0 then replyAndFail 1 (ErrReserved (byte (header ! 2)))
     else if \<not> validSOCKS5AddressType atyp then replyAndFail 8 (ErrAddressType atyp)
     else
       bindC (readSOCKS5Address atyp) (\<lambda>host.
       bindC (readFull 2) (\<lambda>portBytes.
       let port = byte (portBytes ! 0) * 256 + byte (portBytes ! 1) in
       if port = 0 then failC ErrZeroPort
       else returnC (JoinHostPort host (natDigits port)))))"

definition readSOCKS5ConnectReply :: "unit conn_op" where
  "readSOCKS5ConnectReply =
     bindC (readFull 4) (\<lambda>header.
     if byte (header ! 0) \<noteq> 5 then failC (ErrReplyVersion (byte (header ! 0)))
     else
       bindC (readSOCKS5Address (byte (header ! 3))) (\<lambda>a.
       bindC (readFull 2) (\<lambda>port.
       if byte (header ! 1) \<noteq> 0 then failC (ErrConnectReply (byte (header ! 1)))
       else returnC ())))"

section \<open>The outbound handshake\<close>

definition socks5UserPassAuth :: "string \<Rightarrow> string \<Rightarrow> unit conn_op" where
  "socks5UserPassAuth username password =
     (if length username > 255 \<or> length password > 255 then failC ErrCredentialTooLong
      else
        bindC (writeC (octet 1 # octet (length username) # username @ octet (length password) # password)) (\<lambda>u.
        bindC (readFull 2) (\<lambda>resp.
        if byte (resp ! 1) \<noteq> 0 then failC ErrUpstreamAuth else returnC ())))"

definition socks5ClientHandshake :: "string \<Rightarrow> string \<Rightarrow> unit conn_op" where
  "socks5ClientHandshake username password =
     bindC (writeC (if username \<noteq> [] \<or> password \<noteq> [] then map octet [5, 2, 0, 2] else map octet [5, 1, 0])) (\<lambda>u.
     bindC (readFull 2) (\<lambda>handshake.
     if byte (handshake ! 0) \<noteq> 5 then failC ErrHandshake
     else if byte (handshake ! 1) = 0 then returnC ()
     else if byte (handshake ! 1) = 2 then socks5UserPassAuth username password
     else failC ErrHandshake))"

text \<open>The CONNECT request both dialers build; \<open>byte(len(host))\<close> keeps the low eight bits.\<close>

definition connectRequest :: "string \<Rightarrow> int \<Rightarrow> string" where
  "connectRequest host port =
     map octet [5, 1, 0] @
     (case ParseIP host of
        Some ip \<Rightarrow>
          (case To4 ip of
             Some ip4 \<Rightarrow> octet 1 # map octet ip4
           | None \<Rightarrow> octet 4 # map octet ip)
      | None \<Rightarrow> octet 3 # octet (length host) # host) @
     [octet (nat port div 256), octet (nat port mod 256)]"

section \<open>Dialling through a node\<close>

type_synonym readResponse = "string \<Rightarrow> (nat \<times> string \<times> string) option"

definition readHTTPConnectResponseForTarget :: "readResponse \<Rightarrow> string \<Rightarrow> unit conn_op" where
  "readHTTPConnectResponseForTarget ReadResponse target c =
     (case ReadResponse (rx c) of
        None \<Rightarrow> (Inl ErrHTTPResponse, c)
      | Some (statusCode, status, rest) \<Rightarrow>
          if statusCode \<noteq> 200 then (Inl (ErrRejection target statusCode status), c\<lparr>rx := rest\<rparr>)
          else (Inr (), c\<lparr>rx := rest\<rparr>))"

definition crlf :: string where
  "crlf = [CHR 0x0D, CHR 0x0A]"

definition connectHead :: "Proxy \<Rightarrow> string \<Rightarrow> string" where
  "connectHead p host =
     (if pUsername p \<noteq> [] \<or> pPassword p \<noteq> []
      then ''CONNECT '' @ host @ '' HTTP/1.1'' @ crlf @ ''Host: '' @ host @ crlf @
           ''Proxy-Authorization: Basic '' @ stdEncode (pUsername p @ '':'' @ pPassword p) @ crlf @ crlf
      else ''CONNECT '' @ host @ '' HTTP/1.1'' @ crlf @ ''Host: '' @ host @ crlf @ crlf)"

definition armDeadline :: "int \<Rightarrow> unit conn_op" where
  "armDeadline timeout = (if timeout > 0 then setDeadline else returnC ())"

text \<open>The HTTP branch, the same in both servers; the error of \<open>fmt.Fprintf\<close> is ignored.\<close>

definition tunnelHTTP :: "readResponse \<Rightarrow> int \<Rightarrow> Proxy \<Rightarrow> string \<Rightarrow> unit conn_op" where
  "tunnelHTTP ReadResponse timeout p host =
     closeOnError (
       bindC (armDeadline timeout) (\<lambda>u.
       bindC (ignoreC (writeC (connectHead p host))) (\<lambda>u.
       bindC (readHTTPConnectResponseForTarget ReadResponse host) (\<lambda>u. setDeadline))))"

definition sendConnect :: "string \<Rightarrow> string \<Rightarrow> unit conn_op" where
  "sendConnect host port =
     (case ParseUint16 port of
        None \<Rightarrow> failC ErrPortNumber
      | Some portUint \<Rightarrow>
          bindC (writeC (connectRequest host portUint)) (\<lambda>u.
          bindC readSOCKS5ConnectReply (\<lambda>u. setDeadline)))"

text \<open>The SOCKS5 branch of \<open>Server.dialViaProxy\<close>, once the TCP connection is open.\<close>

definition tunnelSOCKS5 :: "int \<Rightarrow> Proxy \<Rightarrow> string \<Rightarrow> unit conn_op" where
  "tunnelSOCKS5 timeout p target =
     closeOnError (
       bindC (armDeadline timeout) (\<lambda>u.
       bindC (socks5ClientHandshake (pUsername p) (pPassword p)) (\<lambda>u.
       case SplitHostPort target of
         None \<Rightarrow> failC (ErrTarget ErrSplitTarget)
       | Some (host, port) \<Rightarrow> sendConnect host port)))"

text \<open>The SOCKS5 branch of \<open>SOCKS5Server.dialViaProxy\<close>: the length check comes after the handshake.\<close>

definition tunnelSOCKS5Checked :: "int \<Rightarrow> Proxy \<Rightarrow> string \<Rightarrow> unit conn_op" where
  "tunnelSOCKS5Checked timeout p target =
     closeOnError (
       bindC (armDeadline timeout) (\<lambda>u.
       bindC (socks5ClientHandshake (pUsername p) (pPassword p)) (\<lambda>u.
       case SplitHostPort target of
         None \<Rightarrow> failC (ErrTarget ErrSplitTarget)
       | Some (host, port) \<Rightarrow>
           if ParseIP host = None \<and> length host > 255 then failC (ErrDomainTooLong (length host))
           else sendConnect host port)))"

text \<open>
  \<open>net.DialTimeout\<close> on an address is a parameter; the result is the error or success, and the
  connection, if one was opened.
\<close>

type_synonym dialer = "string \<Rightarrow> Conn option"
type_synonym dial_result = "(proxy_error + unit) \<times> Conn option"

definition onConn :: "dialer \<Rightarrow> string \<Rightarrow> unit conn_op \<Rightarrow> dial_result" where
  "onConn dial address m =
     (case dial address of
        None \<Rightarrow> (Inl ErrDial, None)
      | Some c \<Rightarrow> map_prod id Some (m c))"

definition dialViaProxy :: "dialer \<Rightarrow> readResponse \<Rightarrow> int \<Rightarrow> Proxy \<Rightarrow> string \<Rightarrow> dial_result" where
  "dialViaProxy dial ReadResponse timeout p host =
     (case validateConnectTarget host of
        Some e \<Rightarrow> (Inl (ErrTarget e), None)
      | None \<Rightarrow>
          if pProtocol p = ''http'' then onConn dial (pAddress p) (tunnelHTTP ReadResponse timeout p host)
          else if pProtocol p = ''socks5'' then
            (case SplitHostPort host of
               Some (targetHost, _) \<Rightarrow>
                 if ParseIP targetHost = None \<and> length targetHost > 255
                 then (Inl (ErrDomainTooLong (length targetHost)), None)
                 else onConn dial (pAddress p) (tunnelSOCKS5 timeout p host)
             | None \<Rightarrow> onConn dial (pAddress p) (tunnelSOCKS5 timeout p host))
          else (Inl (ErrProtocol (pProtocol p)), None))"

definition dialViaProxy_socks :: "dialer \<Rightarrow> readResponse \<Rightarrow> int \<Rightarrow> Proxy \<Rightarrow> string \<Rightarrow> dial_result" where
  "dialViaProxy_socks dial ReadResponse timeout p target =
     (case validateConnectTarget target of
        Some e \<Rightarrow> (Inl (ErrTarget e), None)
      | None \<Rightarrow>
          if pProtocol p = ''http'' then onConn dial (pAddress p) (tunnelHTTP ReadResponse timeout p target)
          else if pProtocol p = ''socks5'' then onConn dial (pAddress p) (tunnelSOCKS5Checked timeout p target)
          else (Inl (ErrProtocol (pProtocol p)), None))"

definition isHTTPConnectCapabilityRejection :: "proxy_error \<Rightarrow> bool" where
  "isHTTPConnectCapabilityRejection err =
     (case err of
        ErrRejection target statusCode status \<Rightarrow>
          target \<noteq> [] \<and>
          (case SplitHostPort target of
             None \<Rightarrow> False
           | Some (_, port) \<Rightarrow> port = ''80'' \<and> statusCode \<in> {403, 405, 501})
      | _ \<Rightarrow> False)"

section \<open>Reading and writing\<close>

lemma bindC_Inr:
  "bindC m k c = (Inr y, c2) \<longleftrightarrow> (\<exists>x c1. m c = (Inr x, c1) \<and> k x c1 = (Inr y, c2))"
  by (auto simp: bindC_def split: prod.splits sum.splits)

lemma returnC_Inr [simp]: "returnC x c = (Inr y, c1) \<longleftrightarrow> x = y \<and> c1 = c"
  by (auto simp: returnC_def)

lemma failC_Inr [simp]: "failC e c \<noteq> (Inr y, c1)"
  by (simp add: failC_def)

lemma authReject_Inr [simp]: "authReject e c \<noteq> (Inr y, c1)"
  by (simp add: authReject_def bindC_Inr)

lemma readFull_Inr:
  "readFull n c = (Inr bs, c1) \<longleftrightarrow> length bs = n \<and> (\<exists>rest. rx c = bs @ rest \<and> c1 = c\<lparr>rx := rest\<rparr>)"
proof
  assume "readFull n c = (Inr bs, c1)"
  then have "length bs = n" "rx c = bs @ drop n (rx c)" "c1 = c\<lparr>rx := drop n (rx c)\<rparr>"
    by (auto simp: readFull_def split: if_splits)
  then show "length bs = n \<and> (\<exists>rest. rx c = bs @ rest \<and> c1 = c\<lparr>rx := rest\<rparr>)" by blast
qed (auto simp: readFull_def)

lemma readFull_prefix [simp]: "readFull n (c\<lparr>rx := bs @ rest\<rparr>) = (Inr bs, c\<lparr>rx := rest\<rparr>)" if "length bs = n"
  using that by (simp add: readFull_def)

lemma writeC_Inr:
  "writeC bs c = (Inr u, c1) \<longleftrightarrow>
     \<not> (writeFaults c \<noteq> [] \<and> hd (writeFaults c)) \<and> c1 = c\<lparr>writeFaults := tl (writeFaults c), tx := tx c @ bs\<rparr>"
  by (auto simp: writeC_def Let_def)

lemma writeC_clean [simp]: "writeFaults c = [] \<Longrightarrow> writeC bs c = (Inr (), c\<lparr>tx := tx c @ bs\<rparr>)"
  by (cases c) (simp add: writeC_def)

text \<open>Reading one, two or four bytes, and a field whose length was read before it.\<close>

lemma read1_Inr:
  "readFull (Suc 0) c = (Inr bs, c1) \<longleftrightarrow> (\<exists>a rest. bs = [a] \<and> rx c = a # rest \<and> c1 = c\<lparr>rx := rest\<rparr>)"
  by (auto simp: readFull_Inr length_Suc_conv)

lemma read2_Inr:
  "readFull 2 c = (Inr bs, c1) \<longleftrightarrow> (\<exists>a b rest. bs = [a, b] \<and> rx c = a # b # rest \<and> c1 = c\<lparr>rx := rest\<rparr>)"
  by (auto simp: readFull_Inr length_Suc_conv numeral_2_eq_2)

lemma readField_Inr:
  "readFull (byte l) c = (Inr bs, c1) \<longleftrightarrow>
     l = octet (length bs) \<and> length bs \<le> 255 \<and> (\<exists>rest. rx c = bs @ rest \<and> c1 = c\<lparr>rx := rest\<rparr>)"
proof -
  have "length bs = byte l \<longleftrightarrow> l = octet (length bs) \<and> length bs \<le> 255"
  proof
    assume e: "length bs = byte l"
    then have "length bs < 256" using nat_of_char_less_256 [of l] by presburger
    then have "length bs \<le> 255" by linarith
    moreover from e have "l = octet (length bs)" by simp
    ultimately show "l = octet (length bs) \<and> length bs \<le> 255" by blast
  qed auto
  then show ?thesis by (auto simp: readFull_Inr)
qed

lemma byte_eq_octet: "n < 256 \<Longrightarrow> byte x = n \<longleftrightarrow> x = octet n"
  by (metis byte_octet(1) octet_byte)

text \<open>An error branch cannot be the one that succeeded.\<close>

lemma guard_Inr [simp]:
  "(if b then failC e else m) c = (Inr y, c1) \<longleftrightarrow> \<not> b \<and> m c = (Inr y, c1)"
  "(if b then authReject e else m) c = (Inr y, c1) \<longleftrightarrow> \<not> b \<and> m c = (Inr y, c1)"
  "(if b then replyAndFail rep e else m) c = (Inr y, c1) \<longleftrightarrow> \<not> b \<and> m c = (Inr y, c1)"
  "(case r of Inl e1 \<Rightarrow> authReject (f e1) | Inr x \<Rightarrow> k x) c = (Inr y, c1) \<longleftrightarrow> (\<exists>x. r = Inr x \<and> k x c = (Inr y, c1))"
  "(case o1 of Some e2 \<Rightarrow> failC (g e2) | None \<Rightarrow> m) c = (Inr y, c1) \<longleftrightarrow> o1 = None \<and> m c = (Inr y, c1)"
  by (auto simp: replyAndFail_def bindC_Inr split: sum.splits option.splits)

lemmas wire_eval = bindC_def readFull_def returnC_def failC_def

lemmas wire_simps = bindC_Inr read1_Inr read2_Inr readField_Inr

section \<open>Who passes the handshake\<close>

text \<open>The frames of a client that offers \<open>methods\<close> and sends a user name and a password.\<close>

definition greeting :: "string \<Rightarrow> string" where
  "greeting methods = octet 5 # octet (length methods) # methods"

definition credentials :: "string \<Rightarrow> string \<Rightarrow> string" where
  "credentials user password =
     octet 1 # octet (length user) # user @ octet (length password) # password"

definition authenticated :: "Config \<Rightarrow> string \<Rightarrow> string \<Rightarrow> ParsedUsername \<Rightarrow> bool" where
  "authenticated cfg user password route \<longleftrightarrow>
     ParseUsername user = Inr route \<and>
     VerifyPassword (uBase route) password (cfgProxyAuthUsername cfg) (cfgProxyAuthPassword cfg)
       (cfgProxyAuthPasswordHash cfg)"

lemma socks5Auth_Inr:
  assumes "writeFaults c = []"
  shows "socks5AuthWithConfig (Some cfg) c = (Inr route, c') \<longleftrightarrow>
    (\<exists>user password rest. length user \<le> 255 \<and> length password \<le> 255 \<and>
       rx c = credentials user password @ rest \<and> authenticated cfg user password route \<and>
       c' = c\<lparr>rx := rest, tx := tx c @ [octet 1, octet 0]\<rparr>)" (is "?L \<longleftrightarrow> ?R")
proof
  assume ?L
  with assms obtain user password rest where
    "rx c = octet 1 # octet (length user) # user @ octet (length password) # password @ rest"
    "length user \<le> 255" "length password \<le> 255" "authenticated cfg user password route"
    "c' = c\<lparr>rx := rest, tx := tx c @ [octet 1, octet 0]\<rparr>"
    by (auto simp: socks5AuthWithConfig_def wire_simps byte_eq_octet authenticated_def)
  then show ?R unfolding credentials_def by (intro exI conjI) simp_all
next
  assume ?R
  with assms show ?L
    by (auto simp: socks5AuthWithConfig_def authenticated_def credentials_def wire_eval)
qed

lemma selectMethod_auth: "cfgProxyAuthEnabled cfg \<Longrightarrow> selectMethod (Some cfg) ms \<in> {2, 255}"
  by (simp add: selectMethod_def)

lemma socks5_handshake_iff:
  assumes "cfgProxyAuthEnabled cfg" "writeFaults c = []"
  shows "socks5Handshake (Some cfg) c = (Inr route, c') \<longleftrightarrow>
    (\<exists>methods user password rest. length methods \<le> 255 \<and> length user \<le> 255 \<and> length password \<le> 255 \<and>
       rx c = greeting methods @ credentials user password @ rest \<and> octet 2 \<in> set methods \<and>
       authenticated cfg user password route \<and>
       c' = c\<lparr>rx := rest, tx := tx c @ [octet 5, octet 2, octet 1, octet 0]\<rparr>)"
  (is "?L \<longleftrightarrow> ?R")
proof
  assume ?L
  with assms obtain methods user password rest where
    "rx c = octet 5 # octet (length methods) # methods @ credentials user password @ rest"
    "length methods \<le> 255" "length user \<le> 255" "length password \<le> 255" "octet 2 \<in> set methods"
    "authenticated cfg user password route"
    "c' = c\<lparr>rx := rest, tx := tx c @ [octet 5, octet 2, octet 1, octet 0]\<rparr>"
    by (auto simp: socks5Handshake_def wire_simps byte_eq_octet selectMethod_def socks5Auth_Inr split: if_splits)
  then show ?R unfolding greeting_def by (intro exI conjI) simp_all
next
  assume ?R
  then obtain methods user password rest where r: "length methods \<le> 255" "length user \<le> 255" "length password \<le> 255"
    "rx c = greeting methods @ credentials user password @ rest" "octet 2 \<in> set methods"
    "authenticated cfg user password route"
    "c' = c\<lparr>rx := rest, tx := tx c @ [octet 5, octet 2, octet 1, octet 0]\<rparr>" by blast
  let ?c = "c\<lparr>rx := credentials user password @ rest, tx := tx c @ [octet 5, octet 2]\<rparr>"
  have "socks5AuthWithConfig (Some cfg) ?c = (Inr route, c')"
    using r assms by (subst socks5Auth_Inr) auto
  then show ?L using assms r by (simp add: socks5Handshake_def greeting_def wire_eval selectMethod_def)
qed

text \<open>Whatever writes fail, a route is only given for credentials that were sent.\<close>

lemma socks5Auth_presented:
  assumes "socks5AuthWithConfig (Some cfg) c = (Inr route, c')"
  shows "\<exists>user password rest. rx c = credentials user password @ rest \<and> authenticated cfg user password route"
proof -
  from assms obtain user password rest where
    "rx c = octet 1 # octet (length user) # user @ octet (length password) # password @ rest"
    "authenticated cfg user password route"
    by (auto simp: socks5AuthWithConfig_def wire_simps writeC_Inr byte_eq_octet authenticated_def)
  then show ?thesis unfolding credentials_def by (intro exI conjI) simp_all
qed

lemma handshake_presented:
  assumes "cfgProxyAuthEnabled cfg" "socks5Handshake (Some cfg) c = (Inr route, c')"
  shows "\<exists>methods user password rest. rx c = greeting methods @ credentials user password @ rest \<and>
    octet 2 \<in> set methods \<and> authenticated cfg user password route"
proof -
  from assms obtain h c1 methods c2 c3 where h: "readFull 2 c = (Inr h, c1)" "byte (h ! 0) = 5"
      "readFull (byte (h ! 1)) c1 = (Inr methods, c2)" "writeC [octet 5, octet 2] c2 = (Inr (), c3)" "octet 2 \<in> set methods"
      "socks5AuthWithConfig (Some cfg) c3 = (Inr route, c')"
    by (auto simp: socks5Handshake_def bindC_Inr Let_def selectMethod_def split: if_splits)
  from socks5Auth_presented [OF h(6)] obtain user password rest where
    u: "rx c3 = credentials user password @ rest" "authenticated cfg user password route" by blast
  have "rx c = greeting methods @ rx c3"
    using h(1-4) by (auto simp: read2_Inr readField_Inr writeC_Inr greeting_def byte_eq_octet)
  with u h(5) show ?thesis by auto
qed

text \<open>
  Authentication on the SOCKS5 port. When it is enabled, a connection gets past the handshake
  exactly when it offers the user/password method and then sends a user name the DSL accepts whose base
  and password match the configured credentials; the route it is given is the one parsed from that user
  name, nothing after the credentials is consumed, and the gateway has answered with the method 2 and
  the status 0.
\<close>

theorem socks5_handshake_authenticates:
  assumes "cfgProxyAuthEnabled cfg" "writeFaults c = []"
  shows "socks5Handshake (Some cfg) c = (Inr route, c') \<longleftrightarrow>
    (\<exists>methods user password rest. length methods \<le> 255 \<and> length user \<le> 255 \<and> length password \<le> 255 \<and>
       rx c = greeting methods @ credentials user password @ rest \<and> octet 2 \<in> set methods \<and>
       authenticated cfg user password route \<and>
       c' = c\<lparr>rx := rest, tx := tx c @ [octet 5, octet 2, octet 1, octet 0]\<rparr>)"
  using assms by (rule socks5_handshake_iff)

theorem socks5_handshake_authenticates_witness:
  "\<exists>route c'. socks5Handshake (Some (sampleConfig\<lparr>cfgProxyAuthEnabled := True, cfgProxyAuthUsername := ''u'',
       cfgProxyAuthPassword := ''p'', cfgProxyAuthPasswordHash := []\<rparr>))
     \<lparr>rx = greeting [octet 0, octet 2] @ credentials ''u'' ''p'', tx = [], writeFaults = [], deadlineFaults = [], closed = False\<rparr>
     = (Inr route, c')"
  (is "\<exists>route c'. socks5Handshake (Some ?cfg) ?c = (Inr route, c')")
proof -
  let ?r = "\<lparr>uBase = ''u'', uRegion = [], uSession = [], uUnlock = [], uNode = []\<rparr>"
  have "ParseUsername ''u'' = Inr ?r" by (simp add: dsl_eval)
  then have a: "authenticated ?cfg ''u'' ''p'' ?r"
    by (simp add: authenticated_def VerifyPassword_def VerifyPlainPassword_def ConstantTimeCompare_def)
  have "socks5Handshake (Some ?cfg) ?c = (Inr ?r, ?c\<lparr>rx := [], tx := tx ?c @ [octet 5, octet 2, octet 1, octet 0]\<rparr>)"
    by (subst socks5_handshake_authenticates, simp, simp, rule exI [of _ "[octet 0, octet 2]"], rule exI [of _ "''u''"],
        rule exI [of _ "''p''"]) (use a in simp)
  then show ?thesis by blast
qed

section \<open>What is asked of the node\<close>

text \<open>
  A target the client may name: an IPv4 literal, or a name of at most 255 bytes that is not an IP
  literal, passes the host check and has no colon or bracket.
\<close>

definition nameable :: "string \<Rightarrow> bool" where
  "nameable host \<longleftrightarrow>
     (\<exists>q. ipv4Quad q \<and> host = ipv4String q) \<or>
     (ParseIP host = None \<and> length host \<le> 255 \<and> validateTargetHost host = None \<and> plainAddr host)"

lemma ipv4String_graphic: "ipv4Quad q \<Longrightarrow> \<forall>c\<in>set (ipv4String q). graphic c"
  using ipv4String_chars(2) by (fastforce simp: graphic_def isDigitChar_def)

lemma nameable_facts:
  assumes "nameable host"
  shows "plainAddr host" "validateTargetHost host = None" "ParseIP host = None \<Longrightarrow> length host \<le> 255"
  using assms ipv4String_chars ipv4String_graphic validateTargetHost_graphic ParseIP_ipv4
  by (auto simp: nameable_def)

lemma nameable_split:
  "nameable host \<Longrightarrow> SplitHostPort (JoinHostPort host (natDigits port)) = Some (host, natDigits port)"
  using SplitHostPort_plain [of host "natDigits port"] natDigits_plain nameable_facts(1) [of host] by (simp add: JoinHostPort_plain)

lemma nameable_target:
  "nameable host \<Longrightarrow> 0 < port \<Longrightarrow> port < 65536 \<Longrightarrow> validateConnectTarget (JoinHostPort host (natDigits port)) = None"
  by (simp add: validateConnectTarget_def nameable_split nameable_facts ParseUint16_natDigits)

lemma port_bytes: "p < 65536 \<Longrightarrow> p div 256 < 256" for p :: nat
  by (simp add: less_mult_imp_div_less)

lemma port_nonzero: "0 < p \<Longrightarrow> 0 < p div 256 \<or> 0 < p mod 256" for p :: nat
  using div_mult_mod_eq [of p 256] by (metis gr0I mult_0 add_0 less_numeral_extra(3))

lemma read_connectRequest:
  assumes "nameable host" "0 < port" "port < 65536" "rx c = connectRequest host (int port) @ rest"
  shows "readSOCKS5Request c = (Inr (JoinHostPort host (natDigits port)), c\<lparr>rx := rest\<rparr>)"
proof -
  have p: "byte (octet (port div 256)) * 256 + byte (octet (port mod 256)) = port"
    using assms(3) port_bytes [of port] by simp
  note nz = port_nonzero [OF assms(2)]
  from assms(1) consider q where "ipv4Quad q" "host = ipv4String q"
    | "ParseIP host = None" "length host \<le> 255" "validateTargetHost host = None" by (auto simp: nameable_def)
  then show ?thesis
  proof cases
    case 1
    then obtain a b e d where q: "q = [a, b, e, d]" "a \<le> 255" "b \<le> 255" "e \<le> 255" "d \<le> 255" by (elim ipv4QuadE)
    have "To4 (v4InV6 @ q) = Some q" "To4 q = Some q" using To4_mapped [of q] q by (simp_all add: To4_def)
    then show ?thesis using 1 q p nz assms(2-4) ParseIP_ipv4 [OF 1(1)]
      by (simp add: readSOCKS5Request_def connectRequest_def validSOCKS5AddressType_def readSOCKS5Address_def
          IPString_def wire_eval)
  next
    case 2
    then show ?thesis using p nz assms(2-4)
      by (simp add: readSOCKS5Request_def connectRequest_def validSOCKS5AddressType_def readSOCKS5Address_def wire_eval)
  qed
qed

text \<open>
  What a dialer says before its request, and the replies that let it through: the choice of a method, for the
  method 2 the status of the login, and a confirmation with a bound address of any of the three types.
\<close>

definition offer :: "Proxy \<Rightarrow> string" where
  "offer p = (if pUsername p \<noteq> [] \<or> pPassword p \<noteq> [] then map octet [5, 2, 0, 2] else map octet [5, 1, 0])"

definition confirms :: "string \<Rightarrow> bool" where
  "confirms bs \<longleftrightarrow>
     (\<exists>x atyp address q0 q1. bs = [octet 5, octet 0, x, octet atyp] @ address @ [q0, q1] \<and>
        (atyp = 1 \<and> length address = 4 \<or> atyp = 4 \<and> length address = 16 \<or>
         atyp = 3 \<and> (\<exists>name. address = octet (length name) # name \<and> length name \<le> 255 \<and> validateTargetHost name = None)))"

definition admits :: "Proxy \<Rightarrow> string \<Rightarrow> string \<Rightarrow> bool" where
  "admits p hello reply \<longleftrightarrow>
     (\<exists>confirmation. confirms confirmation \<and>
        (hello = offer p \<and> reply = [octet 5, octet 0] @ confirmation \<or>
         (\<exists>v. hello = offer p @ credentials (pUsername p) (pPassword p) \<and> reply = [octet 5, octet 2, v, octet 0] @ confirmation \<and>
            length (pUsername p) \<le> 255 \<and> length (pPassword p) \<le> 255)))"

lemma readAddress_Inr:
  "readSOCKS5Address atyp c = (Inr a, c1) \<Longrightarrow> \<exists>address. rx c = address @ rx c1 \<and> tx c1 = tx c \<and>
     (atyp = 1 \<and> length address = 4 \<or> atyp = 4 \<and> length address = 16 \<or>
      atyp = 3 \<and> (\<exists>name. address = octet (length name) # name \<and> length name \<le> 255 \<and> validateTargetHost name = None))"
  by (auto simp: readSOCKS5Address_def bindC_Inr read1_Inr readField_Inr readFull_Inr [of 4] readFull_Inr [of 16] split: if_splits)

lemma connectReply_Inr:
  assumes "readSOCKS5ConnectReply c = (Inr u, c1)"
  shows "\<exists>confirmation. confirms confirmation \<and> rx c = confirmation @ rx c1 \<and> tx c1 = tx c"
proof -
  from assms obtain h c2 a c3 port where h: "readFull 4 c = (Inr h, c2)" "byte (h ! 0) = 5" "byte (h ! 1) = 0"
      "readSOCKS5Address (byte (h ! 3)) c2 = (Inr a, c3)" "readFull 2 c3 = (Inr port, c1)"
    by (auto simp: readSOCKS5ConnectReply_def bindC_Inr)
  from h(1) obtain h0 h1 x h3 where hs: "h = [h0, h1, x, h3]" "rx c = h @ rx c2" "tx c2 = tx c"
    by (auto simp: readFull_Inr length_Suc_conv numeral_eq_Suc)
  from h(5) obtain q0 q1 where q: "rx c3 = [q0, q1] @ rx c1" "tx c1 = tx c3" by (auto simp: read2_Inr)
  from readAddress_Inr [OF h(4)] obtain address where a: "rx c2 = address @ rx c3" "tx c3 = tx c2"
    "byte h3 = 1 \<and> length address = 4 \<or> byte h3 = 4 \<and> length address = 16 \<or>
     byte h3 = 3 \<and> (\<exists>name. address = octet (length name) # name \<and> length name \<le> 255 \<and> validateTargetHost name = None)"
    using hs(1) by auto
  have z: "h0 = octet 5" "h1 = octet 0" using h(2,3) hs(1) byte_eq_octet by auto
  have "confirms ([octet 5, octet 0, x, octet (byte h3)] @ address @ [q0, q1])"
    unfolding confirms_def using a(3)
    by (intro exI [of _ x] exI [of _ "byte h3"] exI [of _ address] exI [of _ q0] exI [of _ q1] conjI refl)
  moreover have "rx c = ([octet 5, octet 0, x, octet (byte h3)] @ address @ [q0, q1]) @ rx c1"
    using hs a(1) q(1) z by simp
  ultimately show ?thesis using hs(3) a(2) q(2) by auto
qed

lemma armDeadline_rx: "armDeadline timeout c = (r, c1) \<Longrightarrow> rx c1 = rx c \<and> tx c1 = tx c"
  by (auto simp: armDeadline_def setDeadline_def returnC_def Let_def split: if_splits)

lemma setDeadline_rx: "setDeadline c = (r, c1) \<Longrightarrow> rx c1 = rx c \<and> tx c1 = tx c"
  by (auto simp: setDeadline_def Let_def split: if_splits)

text \<open>A dialer that gets through has been admitted, and has said nothing but its hello and the request.\<close>

lemma login_Inr:
  assumes "socks5UserPassAuth user password c = (Inr u, c1)"
  shows "\<exists>v. rx c = [v, octet 0] @ rx c1 \<and> tx c1 = tx c @ credentials user password \<and> length user \<le> 255 \<and> length password \<le> 255"
  using assms
  by (auto simp: socks5UserPassAuth_def bindC_Inr writeC_Inr read2_Inr credentials_def byte_eq_octet split: if_splits)

lemma hello_Inr:
  assumes "socks5ClientHandshake (pUsername p) (pPassword p) c = (Inr u, c1)"
  shows "\<exists>hello chosen. tx c1 = tx c @ hello \<and> rx c = chosen @ rx c1 \<and>
    (hello = offer p \<and> chosen = [octet 5, octet 0] \<or>
     (\<exists>v. hello = offer p @ credentials (pUsername p) (pPassword p) \<and> chosen = [octet 5, octet 2, v, octet 0] \<and>
        length (pUsername p) \<le> 255 \<and> length (pPassword p) \<le> 255))"
proof -
  from assms obtain c2 h c3 where h: "writeC (offer p) c = (Inr (), c2)" "readFull 2 c2 = (Inr h, c3)" "byte (h ! 0) = 5"
      "byte (h ! 1) = 0 \<and> c1 = c3 \<or> byte (h ! 1) = 2 \<and> socks5UserPassAuth (pUsername p) (pPassword p) c3 = (Inr (), c1)"
    by (auto simp: socks5ClientHandshake_def bindC_Inr offer_def split: if_splits)
  have c2: "tx c2 = tx c @ offer p" "rx c2 = rx c" using h(1) by (auto simp: writeC_Inr)
  from h(2,3) obtain m where m: "rx c = [octet 5, m] @ rx c3" "tx c3 = tx c @ offer p" "h ! 1 = m"
    using c2 by (auto simp: read2_Inr byte_eq_octet)
  from h(4) show ?thesis
  proof
    assume "byte (h ! 1) = 0 \<and> c1 = c3"
    then show ?thesis using m byte_eq_octet by (intro exI [of _ "offer p"] exI [of _ "[octet 5, octet 0]"]) auto
  next
    assume l: "byte (h ! 1) = 2 \<and> socks5UserPassAuth (pUsername p) (pPassword p) c3 = (Inr (), c1)"
    then obtain v where "rx c3 = [v, octet 0] @ rx c1" "tx c1 = tx c3 @ credentials (pUsername p) (pPassword p)"
      "length (pUsername p) \<le> 255" "length (pPassword p) \<le> 255" using login_Inr by blast
    then show ?thesis using m l byte_eq_octet
      by (intro exI [of _ "offer p @ credentials (pUsername p) (pPassword p)"] exI [of _ "[octet 5, octet 2, v, octet 0]"]) auto
  qed
qed

lemma connect_Inr:
  assumes "sendConnect host (natDigits port) c = (Inr u, c1)" "port < 65536"
  shows "\<exists>confirmation. confirms confirmation \<and> rx c = confirmation @ rx c1 \<and> tx c1 = tx c @ connectRequest host (int port)"
proof -
  from assms obtain c2 c3 where s: "writeC (connectRequest host (int port)) c = (Inr (), c2)" "readSOCKS5ConnectReply c2 = (Inr (), c3)"
    "setDeadline c3 = (Inr u, c1)" by (auto simp: sendConnect_def bindC_Inr ParseUint16_natDigits)
  from connectReply_Inr [OF s(2)] setDeadline_rx [OF s(3)] s(1) show ?thesis by (auto simp: writeC_Inr)
qed

definition exchange :: "int \<Rightarrow> Proxy \<Rightarrow> string \<Rightarrow> nat \<Rightarrow> unit conn_op" where
  "exchange timeout p host port = bindC (armDeadline timeout) (\<lambda>x. bindC (socks5ClientHandshake (pUsername p) (pPassword p))
      (\<lambda>x. sendConnect host (natDigits port)))"

lemma tunnel_Inr:
  assumes "nameable host" "port < 65536" "exchange timeout p host port c = (Inr (), c1)"
  shows "\<exists>hello reply. admits p hello reply \<and> rx c = reply @ rx c1 \<and> tx c1 = tx c @ hello @ connectRequest host (int port)"
proof -
  from assms obtain c2 c3 where s: "armDeadline timeout c = (Inr (), c2)"
    "socks5ClientHandshake (pUsername p) (pPassword p) c2 = (Inr (), c3)" "sendConnect host (natDigits port) c3 = (Inr (), c1)"
    by (auto simp: bindC_Inr exchange_def)
  note a = armDeadline_rx [OF s(1)]
  from hello_Inr [OF s(2)] obtain hello m where h: "tx c3 = tx c2 @ hello" "rx c2 = m @ rx c3"
    "hello = offer p \<and> m = [octet 5, octet 0] \<or>
     (\<exists>v. hello = offer p @ credentials (pUsername p) (pPassword p) \<and> m = [octet 5, octet 2, v, octet 0] \<and>
        length (pUsername p) \<le> 255 \<and> length (pPassword p) \<le> 255)" by blast
  from connect_Inr [OF s(3) assms(2)] obtain q where
    q: "confirms q" "rx c3 = q @ rx c1" "tx c1 = tx c3 @ connectRequest host (int port)" by blast
  have "admits p hello (m @ q)" unfolding admits_def using q(1) h(3) by auto
  then show ?thesis using a h(1,2) q(2,3) by (intro exI [of _ hello] exI [of _ "m @ q"]) simp
qed

lemma setDeadline_clean [simp]: "deadlineFaults c = [] \<Longrightarrow> setDeadline c = (Inr (), c)"
  by (cases c) (simp add: setDeadline_def)

lemma armDeadline_clean [simp]: "deadlineFaults c = [] \<Longrightarrow> armDeadline timeout c = (Inr (), c)"
  by (simp add: armDeadline_def returnC_def)

text \<open>And without faults every admission lets it through.\<close>

lemma readAddress_clean:
  assumes "atyp = 1 \<and> length address = 4 \<or> atyp = 4 \<and> length address = 16 \<or>
      atyp = 3 \<and> (\<exists>name. address = octet (length name) # name \<and> length name \<le> 255 \<and> validateTargetHost name = None)"
    "rx c = address @ rest"
  shows "\<exists>a. readSOCKS5Address atyp c = (Inr a, c\<lparr>rx := rest\<rparr>)"
  using assms by (auto simp: readSOCKS5Address_def wire_eval)

lemma connectReply_clean:
  assumes "confirms q" "rx c = q @ rest"
  shows "readSOCKS5ConnectReply c = (Inr (), c\<lparr>rx := rest\<rparr>)"
proof -
  from assms(1) obtain x atyp address q0 q1 where q: "q = [octet 5, octet 0, x, octet atyp] @ address @ [q0, q1]"
    "atyp = 1 \<and> length address = 4 \<or> atyp = 4 \<and> length address = 16 \<or>
     atyp = 3 \<and> (\<exists>name. address = octet (length name) # name \<and> length name \<le> 255 \<and> validateTargetHost name = None)"
    by (auto simp: confirms_def)
  let ?c = "c\<lparr>rx := address @ [q0, q1] @ rest\<rparr>"
  have h: "readFull 4 c = (Inr [octet 5, octet 0, x, octet atyp], ?c)" using assms(2) q(1) by (simp add: readFull_def)
  obtain a where a: "readSOCKS5Address atyp ?c = (Inr a, ?c\<lparr>rx := [q0, q1] @ rest\<rparr>)"
    using readAddress_clean [OF q(2), of ?c "[q0, q1] @ rest"] by auto
  have "atyp < 256" using q(2) by auto
  then show ?thesis using h a by (simp add: readSOCKS5ConnectReply_def bindC_def readFull_def returnC_def)
qed

lemma hello_clean:
  assumes "hello = offer p \<and> chosen = [octet 5, octet 0] \<or>
     (\<exists>v. hello = offer p @ credentials (pUsername p) (pPassword p) \<and> chosen = [octet 5, octet 2, v, octet 0] \<and>
        length (pUsername p) \<le> 255 \<and> length (pPassword p) \<le> 255)"
    "rx c = chosen @ rest" "writeFaults c = []"
  shows "socks5ClientHandshake (pUsername p) (pPassword p) c = (Inr (), c\<lparr>rx := rest, tx := tx c @ hello\<rparr>)"
  using assms
  by (cases c; elim disjE exE conjE)
    (simp_all add: socks5ClientHandshake_def offer_def socks5UserPassAuth_def wire_eval credentials_def)

lemma tunnel_clean:
  assumes "admits p hello reply" "rx u = reply @ rest" "writeFaults u = []" "deadlineFaults u = []" "port < 65536"
  shows "exchange timeout p host port u =
    (Inr (), u\<lparr>rx := rest, tx := tx u @ hello @ connectRequest host (int port)\<rparr>)"
proof -
  from assms(1) obtain q chosen where q: "confirms q" "reply = chosen @ q"
    "hello = offer p \<and> chosen = [octet 5, octet 0] \<or>
     (\<exists>v. hello = offer p @ credentials (pUsername p) (pPassword p) \<and> chosen = [octet 5, octet 2, v, octet 0] \<and>
        length (pUsername p) \<le> 255 \<and> length (pPassword p) \<le> 255)"
    unfolding admits_def by (metis append_Cons append_Nil)
  let ?u = "u\<lparr>rx := q @ rest, tx := tx u @ hello\<rparr>" and ?v = "u\<lparr>rx := q @ rest, tx := tx u @ hello @ connectRequest host (int port)\<rparr>"
  have h: "socks5ClientHandshake (pUsername p) (pPassword p) u = (Inr (), ?u)"
    using hello_clean [OF q(3), of u "q @ rest"] assms(2,3) q(2) by simp
  have "readSOCKS5ConnectReply ?v = (Inr (), ?v\<lparr>rx := rest\<rparr>)" by (rule connectReply_clean [OF q(1)]) simp
  then have "sendConnect host (natDigits port) ?u = (Inr (), u\<lparr>rx := rest, tx := tx u @ hello @ connectRequest host (int port)\<rparr>)"
    using assms(3-5) by (simp add: sendConnect_def ParseUint16_natDigits bindC_def)
  with h assms(4) show ?thesis by (simp add: exchange_def bindC_def)
qed

text \<open>The two dialers on a target a client may name are this exchange.\<close>

lemma dial_tunnel:
  assumes "nameable host" "0 < port" "port < 65536" "pProtocol p = ''socks5''"
  shows "dialViaProxy dial ReadResponse timeout p (JoinHostPort host (natDigits port)) = onConn dial (pAddress p) (closeOnError (exchange timeout p host port))"
    "dialViaProxy_socks dial ReadResponse timeout p (JoinHostPort host (natDigits port)) =
       onConn dial (pAddress p) (closeOnError (exchange timeout p host port))"
proof -
  note v = nameable_target [OF assms(1-3)] and s = nameable_split [OF assms(1), of port]
  have n: "\<not> (ParseIP host = None \<and> 255 < length host)" using nameable_facts(3) [OF assms(1)] by auto
  then show "dialViaProxy dial ReadResponse timeout p (JoinHostPort host (natDigits port)) = onConn dial (pAddress p) (closeOnError (exchange timeout p host port))"
    using v s assms(4) by (cases "ParseIP host") (simp_all add: dialViaProxy_def tunnelSOCKS5_def exchange_def)
  show "dialViaProxy_socks dial ReadResponse timeout p (JoinHostPort host (natDigits port)) =
       onConn dial (pAddress p) (closeOnError (exchange timeout p host port))"
    using v s n assms(4) by (cases "ParseIP host") (simp_all add: dialViaProxy_socks_def tunnelSOCKS5Checked_def exchange_def)
qed

lemma dial_admitted:
  assumes "nameable host" "0 < port" "port < 65536" "pProtocol p = ''socks5''" "dial (pAddress p) = Some u"
    "admits p hello reply" "rx u = reply @ rest'" "writeFaults u = []" "deadlineFaults u = []"
  shows "dialViaProxy dial ReadResponse timeout p (JoinHostPort host (natDigits port)) =
      (Inr (), Some (u\<lparr>rx := rest', tx := tx u @ hello @ connectRequest host (int port)\<rparr>))"
    "dialViaProxy_socks dial ReadResponse timeout p (JoinHostPort host (natDigits port)) =
      (Inr (), Some (u\<lparr>rx := rest', tx := tx u @ hello @ connectRequest host (int port)\<rparr>))"
  using tunnel_clean [OF assms(6-9,3)] dial_tunnel [OF assms(1-4)] assms(5) by (simp_all add: onConn_def closeOnError_def)

lemma dial_Inr:
  assumes "nameable host" "0 < port" "port < 65536" "pProtocol p = ''socks5''"
    "dialViaProxy dial ReadResponse timeout p (JoinHostPort host (natDigits port)) = (Inr (), Some u') \<or>
     dialViaProxy_socks dial ReadResponse timeout p (JoinHostPort host (natDigits port)) = (Inr (), Some u')"
  shows "\<exists>u hello reply. dial (pAddress p) = Some u \<and> admits p hello reply \<and> rx u = reply @ rx u' \<and>
    tx u' = tx u @ hello @ connectRequest host (int port)"
proof -
  from assms(5) obtain u where u: "dial (pAddress p) = Some u"
    "exchange timeout p host port u = (Inr (), u')"
    unfolding dial_tunnel [OF assms(1-4)] by (auto simp: onConn_def closeOnError_def split: option.splits prod.splits sum.splits)
  from tunnel_Inr [OF assms(1,3) u(2)] u(1) show ?thesis by blast
qed

text \<open>
  The frame with which a client asks for a port of an IPv4 address, or of a name that is no IP literal, has at most 255
  bytes and contains no colon or bracket.
\<close>

definition asksFor :: "string \<Rightarrow> string \<Rightarrow> nat \<Rightarrow> bool" where
  "asksFor frame host port \<longleftrightarrow> 0 < port \<and> port < 65536 \<and>
     ((\<exists>a b c d. list_all (\<lambda>n. n \<le> 255) [a, b, c, d] \<and> host = ipv4String [a, b, c, d] \<and>
         frame = map octet [5, 1, 0, 1, a, b, c, d] @ map octet [port div 256, port mod 256]) \<or>
      ParseIP host = None \<and> length host \<le> 255 \<and> validateTargetHost host = None \<and> plainAddr host \<and>
        frame = map octet [5, 1, 0, 3, length host] @ host @ map octet [port div 256, port mod 256])"

lemma asksFor_frame:
  assumes "asksFor frame host port"
  shows "nameable host" "0 < port" "port < 65536" "frame = connectRequest host (int port)"
proof -
  show "0 < port" "port < 65536" using assms by (auto simp: asksFor_def)
  from assms consider a b c d where "ipv4Quad [a, b, c, d]" "host = ipv4String [a, b, c, d]"
      "frame = map octet [5, 1, 0, 1, a, b, c, d] @ map octet [port div 256, port mod 256]"
    | "ParseIP host = None" "length host \<le> 255" "validateTargetHost host = None" "plainAddr host"
      "frame = map octet [5, 1, 0, 3, length host] @ host @ map octet [port div 256, port mod 256]"
    by (fastforce simp: asksFor_def ipv4Quad_def)
  then have "nameable host \<and> frame = connectRequest host (int port)"
  proof cases
    case 1
    have "To4 (v4InV6 @ [a, b, c, d]) = Some [a, b, c, d]" using To4_mapped [of "[a, b, c, d]"] by simp
    with 1 show ?thesis using ParseIP_ipv4 [OF 1(1)] by (auto simp: nameable_def connectRequest_def)
  next
    case 2
    then show ?thesis by (auto simp: nameable_def connectRequest_def)
  qed
  then show "nameable host" "frame = connectRequest host (int port)" by blast+
qed

text \<open>
  C35: what the client asks is what the node is asked, byte for byte. A CONNECT frame for an IPv4 address, or for a name
  that is no IP literal and has no colon or bracket, is read as one target. Whenever either dialer opens a tunnel to
  that target through a SOCKS5 node, with or without credentials and whatever writes and deadlines fail on the way, it
  has written to the node its greeting, its credentials if and only if the node chose the method for them, and then
  exactly the frame of the client; and of the bytes of the node all those after its confirmation stay unread for the
  relay. If nothing fails, every node that lets the gateway in and confirms, with a bound address of any type, gives
  such a tunnel.
\<close>

theorem socks_request_forwarded_unchanged:
  assumes "asksFor frame host port" "rx c = frame @ rest" "pProtocol p = ''socks5''"
  shows "\<exists>target. readSOCKS5Request c = (Inr target, c\<lparr>rx := rest\<rparr>) \<and>
    (\<forall>u'. dialViaProxy dial ReadResponse timeout p target = (Inr (), Some u') \<or>
        dialViaProxy_socks dial ReadResponse timeout p target = (Inr (), Some u') \<longrightarrow>
      (\<exists>u hello reply. dial (pAddress p) = Some u \<and> admits p hello reply \<and> rx u = reply @ rx u' \<and>
         tx u' = tx u @ hello @ frame)) \<and>
    (\<forall>u hello reply rest'. dial (pAddress p) = Some u \<and> admits p hello reply \<and> rx u = reply @ rest' \<and>
        writeFaults u = [] \<and> deadlineFaults u = [] \<longrightarrow>
      dialViaProxy dial ReadResponse timeout p target = (Inr (), Some (u\<lparr>rx := rest', tx := tx u @ hello @ frame\<rparr>)) \<and>
      dialViaProxy_socks dial ReadResponse timeout p target = (Inr (), Some (u\<lparr>rx := rest', tx := tx u @ hello @ frame\<rparr>)))"
proof -
  note f = asksFor_frame [OF assms(1)]
  show ?thesis
    using read_connectRequest [OF f(1-3), of c rest] dial_Inr [OF f(1-3) assms(3), of dial ReadResponse timeout]
      dial_admitted [OF f(1-3) assms(3), of dial] assms(2)
    unfolding f(4) by (intro exI [of _ "JoinHostPort host (natDigits port)"]) blast
qed

definition quietConn :: "string \<Rightarrow> Conn" where
  "quietConn bs = \<lparr>rx = bs, tx = [], writeFaults = [], deadlineFaults = [], closed = False\<rparr>"

lemma quietConn_facts [simp]:
  "rx (quietConn bs) = bs" "tx (quietConn bs) = []" "writeFaults (quietConn bs) = []"
  "deadlineFaults (quietConn bs) = []" "\<not> closed (quietConn bs)"
  by (simp_all add: quietConn_def)

lemma example_name: "ParseIP ''a.example'' = None" "validateTargetHost ''a.example'' = None" "plainAddr ''a.example''"
proof -
  show "ParseIP ''a.example'' = None"
    by (simp add: ParseIP_def parseIPv4_def SplitByte_def parseOctet_def isDigitChar_def)
  show "validateTargetHost ''a.example'' = None"
    by (rule validateTargetHost_graphic) (auto simp: graphic_def)
  show "plainAddr ''a.example''" by (simp add: plainAddr_def)
qed

lemma nameable_example: "nameable ''a.example''"
  using example_name by (simp add: nameable_def)

text \<open>A confirmation with an IPv4 bound address, and the replies of a node that asks for nothing and of one that asks for credentials.\<close>

definition sampleConfirm :: string where
  "sampleConfirm = map octet [5, 0, 0, 1, 0, 0, 0, 0, 0, 0]"

definition sampleAccept :: string where
  "sampleAccept = map octet [5, 0] @ sampleConfirm"

lemma sampleConfirm_ok: "confirms sampleConfirm"
  unfolding confirms_def sampleConfirm_def
  by (intro exI [of _ "octet 0"] exI [of _ 1] exI [of _ "map octet [0, 0, 0, 0]"]) simp

lemma sampleAccept_ok: "admits p (offer p) sampleAccept"
  unfolding admits_def sampleAccept_def using sampleConfirm_ok by auto

theorem socks_request_forwarded_unchanged_witness:
  "(\<lambda>frame p node. \<exists>target. readSOCKS5Request (quietConn frame) = (Inr target, quietConn []) \<and>
     dialViaProxy_socks (\<lambda>a. Some node) (\<lambda>bs. None) 10 p target =
       (Inr (), Some (node\<lparr>rx := ''early'', tx := map octet [5, 2, 0, 2] @ credentials ''n'' ''s'' @ frame\<rparr>)))
   (map octet [5, 1, 0, 3, 9] @ ''a.example'' @ map octet [1, 187])
   ((scanProxy defaultRow)\<lparr>pProtocol := ''socks5'', pUsername := ''n'', pPassword := ''s''\<rparr>)
   (quietConn (map octet [5, 2, 1, 0] @ sampleConfirm @ ''early''))"
proof -
  let ?f = "map octet [5, 1, 0, 3, 9] @ ''a.example'' @ map octet [1, 187]"
  let ?p = "(scanProxy defaultRow)\<lparr>pProtocol := ''socks5'', pUsername := ''n'', pPassword := ''s''\<rparr>"
  let ?u = "quietConn (map octet [5, 2, 1, 0] @ sampleConfirm @ ''early'')"
  have f: "asksFor ?f ''a.example'' 443" using example_name by (simp add: asksFor_def) (simp add: numeral_eq_Suc)
  have a: "admits ?p (map octet [5, 2, 0, 2] @ credentials ''n'' ''s'') (map octet [5, 2, 1, 0] @ sampleConfirm)"
    unfolding admits_def by (intro exI [of _ sampleConfirm]) (simp add: sampleConfirm_ok offer_def)
  from socks_request_forwarded_unchanged [OF f, of "quietConn ?f" "[]" ?p "\<lambda>a. Some ?u" "\<lambda>bs. None" 10] a show ?thesis
    by fastforce
qed

section \<open>No connection is left open\<close>

text \<open>Nothing but \<open>closeC\<close> closes a connection.\<close>

definition staysOpen :: "'a conn_op \<Rightarrow> bool" where
  "staysOpen m \<longleftrightarrow> (\<forall>c. closed (snd (m c)) = closed c)"

lemma staysOpen_basic [simp]:
  "staysOpen (returnC x)" "staysOpen (failC e)" "staysOpen (readFull n)" "staysOpen (writeC bs)" "staysOpen setDeadline"
  by (simp_all add: staysOpen_def returnC_def failC_def readFull_def writeC_def setDeadline_def Let_def)

lemma staysOpen_bindC [intro]: "staysOpen m \<Longrightarrow> (\<And>x. staysOpen (k x)) \<Longrightarrow> staysOpen (bindC m k)"
  by (simp add: staysOpen_def bindC_def split: prod.split sum.split) (metis snd_conv)

lemma staysOpen_ignoreC [intro]: "staysOpen m \<Longrightarrow> staysOpen (ignoreC m)"
  by (simp add: staysOpen_def ignoreC_def)

lemma staysOpen_if [intro]: "(b \<Longrightarrow> staysOpen m) \<Longrightarrow> (\<not> b \<Longrightarrow> staysOpen m') \<Longrightarrow> staysOpen (if b then m else m')"
  by simp

lemma staysOpen_option [intro]:
  "(\<And>x. staysOpen (f x)) \<Longrightarrow> staysOpen m \<Longrightarrow> staysOpen (case y of None \<Rightarrow> m | Some x \<Rightarrow> f x)"
  by (simp split: option.split)

lemma staysOpen_address [simp]: "staysOpen (readSOCKS5Address atyp)"
  unfolding readSOCKS5Address_def by (intro staysOpen_if staysOpen_bindC staysOpen_option) simp_all

lemma staysOpen_reply [simp]: "staysOpen readSOCKS5ConnectReply"
  unfolding readSOCKS5ConnectReply_def by (intro staysOpen_if staysOpen_bindC) simp_all

lemma staysOpen_client [simp]: "staysOpen (socks5ClientHandshake user password)"
  unfolding socks5ClientHandshake_def socks5UserPassAuth_def by (intro staysOpen_if staysOpen_bindC) simp_all

lemma staysOpen_connect [simp]: "staysOpen (sendConnect host port)"
  unfolding sendConnect_def by (intro staysOpen_option staysOpen_bindC) simp_all

lemma staysOpen_arm [simp]: "staysOpen (armDeadline timeout)"
  by (simp add: armDeadline_def)

lemma staysOpen_response [simp]: "staysOpen (readHTTPConnectResponseForTarget ReadResponse target)"
  by (simp add: staysOpen_def readHTTPConnectResponseForTarget_def split: option.split)

text \<open>What a dial may return: an error with no open connection, or success with an open one.\<close>

definition settled :: "dial_result \<Rightarrow> bool" where
  "settled r \<longleftrightarrow>
     (case r of
        (Inl _, None) \<Rightarrow> True
      | (Inl _, Some c) \<Rightarrow> closed c
      | (Inr _, None) \<Rightarrow> False
      | (Inr _, Some c) \<Rightarrow> \<not> closed c)"

lemma onConn_settled:
  assumes "\<And>a c. dial a = Some c \<Longrightarrow> \<not> closed c" "staysOpen m"
  shows "settled (onConn dial address (closeOnError m))"
proof (cases "dial address")
  case None
  then show ?thesis by (simp add: settled_def onConn_def)
next
  case (Some c)
  then have "closed (snd (m c)) = False" using assms by (simp add: staysOpen_def)
  with Some show ?thesis
    by (cases "m c") (auto simp: settled_def onConn_def closeOnError_def closeC_def split: sum.splits)
qed

lemma staysOpen_pair [intro]: "(\<And>x y. staysOpen (f x y)) \<Longrightarrow> staysOpen (case p of (x, y) \<Rightarrow> f x y)"
  by (cases p) simp

lemma tunnels_settled:
  assumes "\<And>a c. dial a = Some c \<Longrightarrow> \<not> closed c"
  shows "settled (onConn dial address (tunnelHTTP ReadResponse timeout p host))"
    "settled (onConn dial address (tunnelSOCKS5 timeout p host))"
    "settled (onConn dial address (tunnelSOCKS5Checked timeout p host))"
  unfolding tunnelHTTP_def tunnelSOCKS5_def tunnelSOCKS5Checked_def
  by (rule onConn_settled [OF assms], assumption,
      intro staysOpen_bindC staysOpen_ignoreC staysOpen_option staysOpen_pair staysOpen_if; simp)+

text \<open>
  No dial leaks a connection. Whatever the target, the node, the bytes the node sends and the
  writes and deadline calls that fail, both dialers return success with an open connection or an error
  with the connection, if one was opened, closed.
\<close>

theorem dial_leaks_no_connection:
  assumes "\<And>a c. dial a = Some c \<Longrightarrow> \<not> closed c"
  shows "settled (dialViaProxy dial ReadResponse timeout p host) \<and>
    settled (dialViaProxy_socks dial ReadResponse timeout p host)"
  using tunnels_settled [OF assms]
  by (auto simp: dialViaProxy_def dialViaProxy_socks_def settled_def [of "(Inl _, None)"] split: option.splits)

theorem dial_leaks_no_connection_witness:
  "settled (dialViaProxy (\<lambda>a. Some (quietConn [octet 5])) (\<lambda>bs. None) 10 (scanProxy defaultRow) ''a:80'') \<and>
   settled (dialViaProxy_socks (\<lambda>a. Some (quietConn [octet 5])) (\<lambda>bs. None) 10 (scanProxy defaultRow) ''a:80'')"
  by (rule dial_leaks_no_connection) auto

section \<open>Names no node can be asked for\<close>

lemma bracket_split:
  assumes "CHR ''['' \<in> set host \<or> CHR '']'' \<in> set host" "CHR '':'' \<notin> set host" "take 1 host \<noteq> ''[''" "plainAddr port"
  shows "SplitHostPort (JoinHostPort host port) = None"
proof -
  have "take 1 (host @ '':'' @ port) \<noteq> ''[''" using assms(3) by (cases host) auto
  then show ?thesis
    using assms LastIndexByte_last [of "CHR '':''" port host]
    by (simp add: SplitHostPort_def JoinHostPort_def plainAddr_def)
qed

text \<open>
  A domain name with a square bracket inside passes the checks of the SOCKS5 request, but every dial
  of the target it becomes fails before any connection is opened.
\<close>

lemma bracket_request:
  assumes "CHR ''['' \<in> set host \<or> CHR '']'' \<in> set host" "CHR '':'' \<notin> set host" "take 1 host \<noteq> ''[''"
    "length host \<le> 255" "validateTargetHost host = None" "0 < port" "port < 65536"
    "rx c = map octet [5, 1, 0, 3] @ octet (length host) # host @ [octet (port div 256), octet (port mod 256)] @ rest"
  shows "readSOCKS5Request c = (Inr (JoinHostPort host (natDigits port)), c\<lparr>rx := rest\<rparr>)"
    "dialViaProxy_socks dial ReadResponse timeout p (JoinHostPort host (natDigits port)) =
       (Inl (ErrTarget ErrSplitTarget), None)"
proof -
  have p: "byte (octet (port div 256)) * 256 + byte (octet (port mod 256)) = port"
    using assms(7) port_bytes [of port] by simp
  note nz = port_nonzero [OF assms(6)]
  show "readSOCKS5Request c = (Inr (JoinHostPort host (natDigits port)), c\<lparr>rx := rest\<rparr>)"
    using assms p nz
    by (simp add: readSOCKS5Request_def validSOCKS5AddressType_def readSOCKS5Address_def wire_eval)
  show "dialViaProxy_socks dial ReadResponse timeout p (JoinHostPort host (natDigits port)) =
       (Inl (ErrTarget ErrSplitTarget), None)"
    using bracket_split [OF assms(1-3) natDigits_plain]
    by (simp add: dialViaProxy_socks_def validateConnectTarget_def)
qed

end
