(* ===== verification/HttpWire.thy ===== *)
theory HttpWire
  imports Socks
begin

text \<open>
  The HTTP side of the package \<open>proxy\<close> (\<open>server.go\<close>): Basic authentication of the proxy port, the
  headers that are not forwarded, the request body kept for a retry, and the copy of a response.

  A header is a map from canonical keys to values. A request body is its bytes and whether reading it
  ends in an error; a response is a script of the reads and of the writes to the client.
\<close>

section \<open>Headers\<close>

type_synonym header = "string \<rightharpoonup> string list"

text \<open>\<open>textproto.CanonicalMIMEHeaderKey\<close>: a key with a byte outside the token set is left alone.\<close>

definition tokenByte :: "char \<Rightarrow> bool" where
  "tokenByte c \<longleftrightarrow>
     isDigitChar c \<or> isASCIIUpper c \<or> isASCIILower c \<or> c \<in> set ''!#$%&*+-.^_`|~'' \<or> c = CHR 0x27"

fun canonicalFrom :: "bool \<Rightarrow> string \<Rightarrow> string" where
  "canonicalFrom upper [] = []"
| "canonicalFrom upper (c # s) =
     (if upper then toUpperChar c else toLowerChar c) # canonicalFrom (c = CHR ''-'') s"

definition CanonicalKey :: "string \<Rightarrow> string" where
  "CanonicalKey k = (if list_all tokenByte k then canonicalFrom True k else k)"

definition headerValues :: "header \<Rightarrow> string \<Rightarrow> string list" where
  "headerValues h k = (case h (CanonicalKey k) of None \<Rightarrow> [] | Some vs \<Rightarrow> vs)"

definition headerGet :: "header \<Rightarrow> string \<Rightarrow> string" where
  "headerGet h k = (case headerValues h k of [] \<Rightarrow> [] | v # vs \<Rightarrow> v)"

definition headerDel :: "string \<Rightarrow> header \<Rightarrow> header" where
  "headerDel k h = h(CanonicalKey k := None)"

definition hopByHop :: "string list" where
  "hopByHop = [''Proxy-Connection'', ''Connection'', ''Keep-Alive'', ''TE'', ''Trailer'', ''Transfer-Encoding'', ''Upgrade'']"

definition cleanHopByHopHeaders :: "header \<Rightarrow> header" where
  "cleanHopByHopHeaders h =
     (let h1 = fold (\<lambda>v h. fold (\<lambda>token h. headerDel (TrimSpace token) h) (SplitByte v CHR '','') h)
                 (headerValues h ''Connection'') h in
      fold headerDel hopByHop h1)"

definition cleanForwardHeaders :: "header \<Rightarrow> header" where
  "cleanForwardHeaders h = headerDel ''Proxy-Authorization'' (cleanHopByHopHeaders h)"

definition cleanResponseHeaders :: "header \<Rightarrow> header" where
  "cleanResponseHeaders h =
     headerDel ''Proxy-Authentication-Info'' (headerDel ''Proxy-Authenticate'' (cleanHopByHopHeaders h))"

text \<open>\<open>w.Header().Add(k, v)\<close> for every value of every key of the response.\<close>

definition addAll :: "header \<Rightarrow> header \<Rightarrow> header" where
  "addAll w h k =
     (case h k of
        None \<Rightarrow> w k
      | Some vs \<Rightarrow> if vs = [] then w k else Some ((case w k of None \<Rightarrow> [] | Some ws \<Rightarrow> ws) @ vs))"

section \<open>Basic authentication\<close>

text \<open>\<open>strings.SplitN(s, ":", 2)\<close> when it gives two parts.\<close>

fun splitColon :: "string \<Rightarrow> (string \<times> string) option" where
  "splitColon [] = None"
| "splitColon (c # s) = (if c = CHR '':'' then Some ([], s) else map_option (map_prod (Cons c) id) (splitColon s))"

definition basicPrefix :: string where
  "basicPrefix = ''Basic ''"

definition checkAuthWithConfig :: "header \<Rightarrow> Config option \<Rightarrow> ParsedUsername \<times> bool" where
  "checkAuthWithConfig h cfg0 =
     (case cfg0 of
        None \<Rightarrow> (emptyRoute, False)
      | Some cfg \<Rightarrow>
          (let authHeader = headerGet h ''Proxy-Authorization'' in
           if authHeader = [] then (emptyRoute, False)
           else if \<not> HasPrefix authHeader basicPrefix then (emptyRoute, False)
           else
             (case stdDecode (drop (length basicPrefix) authHeader) of
                None \<Rightarrow> (emptyRoute, False)
              | Some decoded \<Rightarrow>
                  (case splitColon decoded of
                     None \<Rightarrow> (emptyRoute, False)
                   | Some (user, password) \<Rightarrow>
                       (case ParseUsername user of
                          Inl e \<Rightarrow> (emptyRoute, False)
                        | Inr parsed \<Rightarrow>
                            (parsed, VerifyPassword (uBase parsed) password (cfgProxyAuthUsername cfg)
                               (cfgProxyAuthPassword cfg) (cfgProxyAuthPasswordHash cfg)))))))"

section \<open>Request bodies\<close>

record Body =
  bodyBytes :: string
  bodyFails :: bool

definition maxReplayBodyBytes :: nat where
  "maxReplayBodyBytes = 1048576"

text \<open>
  The three shapes of \<open>readReusableBody\<close>: no body, a buffered body, a stream of the prefix already
  read and the rest (\<open>r.Body\<close>); or the read error. At most one byte more than the limit is read ahead.
\<close>

record Reusable =
  rbBuffered :: "string option"
  rbStream :: "(string \<times> Body) option"
  rbReplayable :: bool

definition readReusableBody :: "Body option \<Rightarrow> Reusable option" where
  "readReusableBody body =
     (case body of
        None \<Rightarrow> Some \<lparr>rbBuffered = None, rbStream = None, rbReplayable = True\<rparr>
      | Some b \<Rightarrow>
          (let pre = take (maxReplayBodyBytes + 1) (bodyBytes b) in
           if length pre \<le> maxReplayBodyBytes \<and> bodyFails b then None
           else if length pre \<le> maxReplayBodyBytes
           then Some \<lparr>rbBuffered = Some pre, rbStream = None, rbReplayable = True\<rparr>
           else Some \<lparr>rbBuffered = None,
                  rbStream = Some (pre, b\<lparr>bodyBytes := drop (maxReplayBodyBytes + 1) (bodyBytes b)\<rparr>),
                  rbReplayable = False\<rparr>))"

text \<open>The reader one attempt sends, as a body of its own; \<open>None\<close> is a nil reader.\<close>

definition forwardBody :: "Reusable \<Rightarrow> Body option" where
  "forwardBody rb =
     (if \<not> rbReplayable rb then map_option (\<lambda>(pre, b). b\<lparr>bodyBytes := pre @ bodyBytes b\<rparr>) (rbStream rb)
      else map_option (\<lambda>bs. \<lparr>bodyBytes = bs, bodyFails = False\<rparr>) (rbBuffered rb))"

section \<open>Copying a response\<close>

datatype read_end = NoErr | EOF | ReadError

text \<open>One turn of the loop: bytes read and the error of the read, bytes written and whether the write failed.\<close>

record CopyTurn =
  ctRead :: nat
  ctEnd :: read_end
  ctWritten :: nat
  ctWriteError :: bool

datatype copy_outcome = CopyDone | CopyReadFailed | CopyWriteFailed | CopyShortWrite

text \<open>The result is \<open>None\<close> while the response has not ended.\<close>

fun copyHTTPResponse :: "nat \<Rightarrow> CopyTurn list \<Rightarrow> (nat \<times> copy_outcome) option" where
  "copyHTTPResponse bytes [] = None"
| "copyHTTPResponse bytes (t # ts) =
     (let bytes1 = (if ctRead t > 0 then bytes + ctWritten t else bytes) in
      if ctRead t > 0 \<and> ctWriteError t then Some (bytes1, CopyWriteFailed)
      else if ctRead t > 0 \<and> ctWritten t \<noteq> ctRead t then Some (bytes1, CopyShortWrite)
      else
        (case ctEnd t of
           EOF \<Rightarrow> Some (bytes1, CopyDone)
         | ReadError \<Rightarrow> Some (bytes1, CopyReadFailed)
         | NoErr \<Rightarrow> copyHTTPResponse bytes1 ts))"

section \<open>Headers that are forwarded\<close>

lemma fold_headerDel:
  "fold (\<lambda>t. headerDel (f t)) ks h k = (if k \<in> (\<lambda>t. CanonicalKey (f t)) ` set ks then None else h k)"
  by (induction ks arbitrary: h) (auto simp: headerDel_def)

definition connectionTokens :: "header \<Rightarrow> string set" where
  "connectionTokens h = {TrimSpace token | v token. v \<in> set (headerValues h ''Connection'') \<and> token \<in> set (SplitByte v CHR '','')}"

lemma fold_connection:
  "fold (\<lambda>v h. fold (\<lambda>token h. headerDel (TrimSpace token) h) (SplitByte v CHR '','') h) vs h k =
     (if \<exists>v\<in>set vs. k \<in> (\<lambda>t. CanonicalKey (TrimSpace t)) ` set (SplitByte v CHR '','') then None else h k)"
  by (induction vs arbitrary: h) (auto simp: fold_headerDel)

lemma canonical_names [simp]:
  "CanonicalKey ''Proxy-Connection'' = ''Proxy-Connection''" "CanonicalKey ''Connection'' = ''Connection''"
  "CanonicalKey ''Keep-Alive'' = ''Keep-Alive''" "CanonicalKey ''TE'' = ''Te''" "CanonicalKey ''Trailer'' = ''Trailer''"
  "CanonicalKey ''Transfer-Encoding'' = ''Transfer-Encoding''" "CanonicalKey ''Upgrade'' = ''Upgrade''"
  "CanonicalKey ''Proxy-Authorization'' = ''Proxy-Authorization''"
  "CanonicalKey ''Proxy-Authenticate'' = ''Proxy-Authenticate''"
  "CanonicalKey ''Proxy-Authentication-Info'' = ''Proxy-Authentication-Info''"
  by code_simp+

lemma cleanHopByHop_apply:
  "cleanHopByHopHeaders h k =
     (if k \<in> CanonicalKey ` (set hopByHop \<union> connectionTokens h) then None else h k)"
proof -
  have "k \<in> CanonicalKey ` connectionTokens h \<longleftrightarrow>
      (\<exists>v\<in>set (headerValues h ''Connection''). k \<in> (\<lambda>t. CanonicalKey (TrimSpace t)) ` set (SplitByte v CHR '',''))"
    by (auto simp: connectionTokens_def)
  then show ?thesis
    using fold_headerDel [of id hopByHop] by (simp add: cleanHopByHopHeaders_def fold_connection image_Un)
qed

text \<open>
  Which headers reach the other side. A forwarded request loses exactly the hop-by-hop headers, the
  headers its own \<open>Connection\<close> field names and the proxy credentials, and a response exactly the
  hop-by-hop headers, those its \<open>Connection\<close> names and the proxy challenge; every other header keeps
  its values.
\<close>

theorem forwarded_headers_exact:
  "cleanForwardHeaders h k =
     (if k \<in> {''Proxy-Connection'', ''Connection'', ''Keep-Alive'', ''Te'', ''Trailer'', ''Transfer-Encoding'',
              ''Upgrade'', ''Proxy-Authorization''} \<union> CanonicalKey ` connectionTokens h
      then None else h k) \<and>
   cleanResponseHeaders h k =
     (if k \<in> {''Proxy-Connection'', ''Connection'', ''Keep-Alive'', ''Te'', ''Trailer'', ''Transfer-Encoding'',
              ''Upgrade'', ''Proxy-Authenticate'', ''Proxy-Authentication-Info''} \<union> CanonicalKey ` connectionTokens h
      then None else h k)"
  by (auto simp: cleanForwardHeaders_def cleanResponseHeaders_def headerDel_def cleanHopByHop_apply hopByHop_def)

section \<open>Who passes Basic authentication\<close>

lemma splitColon_Some: "splitColon s = Some (u, w) \<longleftrightarrow> s = u @ '':'' @ w \<and> CHR '':'' \<notin> set u"
proof (induction s arbitrary: u)
  case (Cons c s)
  show ?case
  proof (cases "c = CHR '':''")
    case True
    then show ?thesis by (cases u) auto
  next
    case False
    then show ?thesis using Cons by (cases u) (auto simp: map_prod_def split: prod.splits)
  qed
qed simp

lemma checkAuth_iff:
  "checkAuthWithConfig h (Some cfg) = (route, True) \<longleftrightarrow>
     (\<exists>encoded user password. headerGet h ''Proxy-Authorization'' = basicPrefix @ encoded \<and>
        stdDecode encoded = Some (user @ '':'' @ password) \<and> CHR '':'' \<notin> set user \<and>
        authenticated cfg user password route)" (is "?L \<longleftrightarrow> ?R")
proof
  assume ?L
  then obtain user password where
    "HasPrefix (headerGet h ''Proxy-Authorization'') basicPrefix"
    "stdDecode (drop (length basicPrefix) (headerGet h ''Proxy-Authorization'')) = Some (user @ '':'' @ password)"
    "CHR '':'' \<notin> set user" "authenticated cfg user password route"
    by (auto simp: checkAuthWithConfig_def Let_def splitColon_Some authenticated_def
        split: if_splits option.splits sum.splits prod.splits)
  then show ?R by (metis HasPrefix_def prefix_def append_eq_conv_conj)
next
  assume ?R
  then obtain encoded user password where r: "headerGet h ''Proxy-Authorization'' = basicPrefix @ encoded"
    "stdDecode encoded = Some (user @ '':'' @ password)" "CHR '':'' \<notin> set user"
    "authenticated cfg user password route" by blast
  moreover have "splitColon (user @ '':'' @ password) = Some (user, password)" using r(3) splitColon_Some by blast
  ultimately show ?L
    by (simp add: checkAuthWithConfig_def HasPrefix_def authenticated_def basicPrefix_def)
qed

definition basicHeader :: "string \<Rightarrow> string \<Rightarrow> header" where
  "basicHeader user password = [''Proxy-Authorization'' \<mapsto> [basicPrefix @ stdEncode (user @ '':'' @ password)]]"

lemma basicHeader_get: "headerGet (basicHeader user password) ''Proxy-Authorization'' = basicPrefix @ stdEncode (user @ '':'' @ password)"
  by (simp add: basicHeader_def headerGet_def headerValues_def)

lemma checkAuth_basicHeader:
  assumes "CHR '':'' \<notin> set user"
  shows "checkAuthWithConfig (basicHeader user password) (Some cfg) = (route, True) \<longleftrightarrow> authenticated cfg user password route"
proof -
  have "u = user \<and> w = password" if "user @ '':'' @ password = u @ '':'' @ w" "CHR '':'' \<notin> set u" for u w
    using that assms splitColon_Some [of "user @ '':'' @ password"] by (metis option.inject prod.inject)
  then show ?thesis
    using assms by (auto simp: checkAuth_iff basicHeader_get stdDecode_stdEncode)
qed

text \<open>
  The two ports agree on who may enter. For every configuration with authentication enabled, user
  name without a colon and password, both of at most 255 bytes, the HTTP port accepts the Basic
  credentials with a route exactly when the SOCKS5 handshake accepts the same user name and password
  with the same route.
\<close>

theorem http_and_socks_authenticate_alike:
  assumes "cfgProxyAuthEnabled cfg" "CHR '':'' \<notin> set user" "length user \<le> 255" "length password \<le> 255"
  shows "checkAuthWithConfig (basicHeader user password) (Some cfg) = (route, True) \<longleftrightarrow>
    fst (socks5Handshake (Some cfg) (quietConn (greeting [octet 2] @ credentials user password))) = Inr route"
proof -
  let ?c = "quietConn (greeting [octet 2] @ credentials user password)"
  have "m = [octet 2] \<and> u = user \<and> w = password"
    if "greeting [octet 2] @ credentials user password = greeting m @ credentials u w @ rest"
      "length m \<le> 255" "length u \<le> 255" "length w \<le> 255" for m u w rest
  proof -
    have "length m = 1" using that(1,2) by (auto simp: greeting_def dest!: arg_cong [where f = byte])
    then obtain x where m: "m = [x]" by (auto simp: length_Suc_conv)
    with that have e: "octet (length user) = octet (length u)" "user @ octet (length password) # password = u @ octet (length w) # w @ rest"
      "x = octet 2"
      by (auto simp: greeting_def credentials_def)
    from e(1) have l: "length user = length u" using assms(3) that(3) by (metis byte_octet(2))
    with e(2) have u: "user = u" "octet (length password) # password = octet (length w) # w @ rest" by auto
    then have "length password = length w" using assms(4) that(4) by (metis byte_octet(2) list.inject)
    with u m e(3) show ?thesis by auto
  qed
  then have "socks5Handshake (Some cfg) ?c = (Inr route, c') \<Longrightarrow> authenticated cfg user password route" for c'
    using socks5_handshake_iff [OF assms(1), of ?c] by auto
  moreover have "\<exists>c'. socks5Handshake (Some cfg) ?c = (Inr route, c')" if "authenticated cfg user password route"
  proof -
    have "socks5Handshake (Some cfg) ?c = (Inr route, ?c\<lparr>rx := [], tx := tx ?c @ [octet 5, octet 2, octet 1, octet 0]\<rparr>)"
      by (subst socks5_handshake_iff [OF assms(1)], simp, rule exI [of _ "[octet 2]"], rule exI [of _ user],
          rule exI [of _ password], rule exI [of _ "[]"]) (use that assms in simp)
    then show ?thesis by blast
  qed
  ultimately show ?thesis using checkAuth_basicHeader [OF assms(2)] by (metis eq_fst_iff fst_conv)
qed

theorem http_and_socks_authenticate_alike_witness:
  "fst (socks5Handshake (Some (sampleConfig\<lparr>cfgProxyAuthEnabled := True, cfgProxyAuthUsername := ''u'',
       cfgProxyAuthPassword := ''p'', cfgProxyAuthPasswordHash := []\<rparr>))
     (quietConn (greeting [octet 2] @ credentials ''u'' ''p''))) =
   Inr \<lparr>uBase = ''u'', uRegion = [], uSession = [], uUnlock = [], uNode = []\<rparr>"
  (is "fst (socks5Handshake (Some ?cfg) ?c) = Inr ?r")
proof -
  have "ParseUsername ''u'' = Inr ?r" by (simp add: dsl_eval)
  then have "authenticated ?cfg ''u'' ''p'' ?r"
    by (simp add: authenticated_def VerifyPassword_def VerifyPlainPassword_def ConstantTimeCompare_def)
  then show ?thesis
    using http_and_socks_authenticate_alike [of ?cfg "''u''" "''p''" ?r] checkAuth_basicHeader [of "''u''" "''p''" ?cfg ?r] by simp
qed

section \<open>Bodies and responses\<close>

text \<open>
  The body of a request. Reading fails exactly when the body fails within the limit; otherwise
  every attempt sends exactly the bytes the client sent (and nothing when there was no body), at most
  1 MiB is buffered, and the body is replayable exactly when it has no more than 1 MiB.
\<close>

theorem forwarded_body_exact:
  "case readReusableBody body of
     None \<Rightarrow> \<exists>b. body = Some b \<and> bodyFails b \<and> length (bodyBytes b) \<le> maxReplayBodyBytes
   | Some rb \<Rightarrow>
       map_option bodyBytes (forwardBody rb) = map_option bodyBytes body \<and>
       (case rbBuffered rb of None \<Rightarrow> True | Some bs \<Rightarrow> length bs \<le> maxReplayBodyBytes) \<and>
       (rbReplayable rb \<longleftrightarrow> (case body of None \<Rightarrow> True | Some b \<Rightarrow> length (bodyBytes b) \<le> maxReplayBodyBytes))"
proof (cases body)
  case None
  then show ?thesis by (simp add: readReusableBody_def forwardBody_def)
next
  case (Some b)
  show ?thesis
  proof (cases "length (bodyBytes b) \<le> maxReplayBodyBytes")
    case True
    with Some show ?thesis by (cases "bodyFails b") (simp_all add: readReusableBody_def forwardBody_def Let_def)
  next
    case False
    then have "length (take (maxReplayBodyBytes + 1) (bodyBytes b)) = maxReplayBodyBytes + 1" by simp
    with Some False show ?thesis by (simp add: readReusableBody_def forwardBody_def Let_def)
  qed
qed

end
