(* ===== verification/Relay.thy ===== *)
theory Relay
  imports GoBase
begin

text \<open>
  The data plane of a tunnel: \<open>relaySOCKS5\<close> and its helpers of \<open>proxy/socks5_server.go\<close>, which the
  SOCKS5 port and the HTTP CONNECT port share. Two copies run at once and report on a channel to a
  coordinator; the model is a step relation in which the copies and the coordinator interleave freely
  and the network chooses what every read, write, deadline and half-close returns.
\<close>

section \<open>Data\<close>

datatype direction = ClientToUpstream | UpstreamToClient
datatype endpoint = Client | Upstream

fun src :: "direction \<Rightarrow> endpoint" where
  "src ClientToUpstream = Client"
| "src UpstreamToClient = Upstream"

fun dst :: "direction \<Rightarrow> endpoint" where
  "dst ClientToUpstream = Upstream"
| "dst UpstreamToClient = Client"

fun other :: "direction \<Rightarrow> direction" where
  "other ClientToUpstream = UpstreamToClient"
| "other UpstreamToClient = ClientToUpstream"

text \<open>Errors of a copy; the flag says whether it is a timeout.\<close>

datatype copy_error = ReadFailed bool | WriteFailed bool | InvalidWrite | ShortWrite

fun timedOut :: "copy_error option \<Rightarrow> bool" where
  "timedOut (Some (ReadFailed t)) = t"
| "timedOut (Some (WriteFailed t)) = t"
| "timedOut _ = False"

record CopyResult =
  crDirection :: direction
  crBytes :: nat
  crErr :: "copy_error option"
  crTimedOut :: bool

text \<open>The calls of the coordinator and of the idle deadlines that the network may fail.\<close>

datatype net_call = SetRead direction | SetWrite direction | HalfClose endpoint

datatype diagnostic = RefreshRead | RefreshWrite | ClearRead | ClearWrite

datatype coordination_error = ArmFailed direction | CloseWriteFailed endpoint | NoCloseWrite endpoint

record RelayResult =
  clientToUpstreamBytes :: nat
  clientToUpstreamErr :: "copy_error option"
  clientToUpstreamTimedOut :: bool
  clientToUpstreamCanceled :: bool
  clientToUpstreamDeadline :: "diagnostic option"
  upstreamToClientBytes :: nat
  upstreamToClientErr :: "copy_error option"
  upstreamToClientTimedOut :: bool
  upstreamToClientCanceled :: bool
  upstreamToClientDeadline :: "diagnostic option"
  coordinationDirection :: direction
  coordinationErr :: "coordination_error option"

definition zeroResult :: RelayResult where
  "zeroResult = \<lparr>clientToUpstreamBytes = 0, clientToUpstreamErr = None, clientToUpstreamTimedOut = False,
     clientToUpstreamCanceled = False, clientToUpstreamDeadline = None, upstreamToClientBytes = 0,
     upstreamToClientErr = None, upstreamToClientTimedOut = False, upstreamToClientCanceled = False,
     upstreamToClientDeadline = None, coordinationDirection = ClientToUpstream, coordinationErr = None\<rparr>"

definition addResult :: "CopyResult \<Rightarrow> bool \<Rightarrow> RelayResult \<Rightarrow> RelayResult" where
  "addResult result canceled r =
     (if crDirection result = ClientToUpstream
      then r\<lparr>clientToUpstreamBytes := crBytes result, clientToUpstreamErr := crErr result,
             clientToUpstreamTimedOut := crTimedOut result, clientToUpstreamCanceled := canceled\<rparr>
      else r\<lparr>upstreamToClientBytes := crBytes result, upstreamToClientErr := crErr result,
             upstreamToClientTimedOut := crTimedOut result, upstreamToClientCanceled := canceled\<rparr>)"

section \<open>Idle deadlines\<close>

record Idle =
  armed :: bool
  diagnosticErr :: "diagnostic option"

definition rememberDiagnosticLocked :: "diagnostic \<Rightarrow> Idle \<Rightarrow> Idle" where
  "rememberDiagnosticLocked e i = (if diagnosticErr i = None then i\<lparr>diagnosticErr := Some e\<rparr> else i)"

definition arm :: "(net_call \<Rightarrow> bool) \<Rightarrow> direction \<Rightarrow> Idle \<Rightarrow> bool \<times> Idle" where
  "arm fails d i =
     (if fails (SetRead d) then (False, i)
      else if fails (SetWrite d) then (False, i)
      else (True, i\<lparr>armed := True\<rparr>))"

definition progress :: "(net_call \<Rightarrow> bool) \<Rightarrow> direction \<Rightarrow> Idle \<Rightarrow> Idle" where
  "progress fails d i =
     (if \<not> armed i then i
      else
        (let i1 = (if fails (SetRead d) then rememberDiagnosticLocked RefreshRead i else i) in
         if fails (SetWrite d) then rememberDiagnosticLocked RefreshWrite i1 else i1))"

definition clear :: "(net_call \<Rightarrow> bool) \<Rightarrow> direction \<Rightarrow> Idle \<Rightarrow> Idle" where
  "clear fails d i =
     (if \<not> armed i then i
      else
        (let i0 = i\<lparr>armed := False\<rparr>;
             i1 = (if fails (SetRead d) then rememberDiagnosticLocked ClearRead i0 else i0) in
         if fails (SetWrite d) then rememberDiagnosticLocked ClearWrite i1 else i1))"

section \<open>The relay\<close>

text \<open>A connection offers \<open>CloseWrite\<close>, wraps one that may, or does neither.\<close>

datatype conn_kind = CloseWriter | Buffered conn_kind | OtherConn

fun closeSOCKS5RelayWrite :: "(net_call \<Rightarrow> bool) \<Rightarrow> endpoint \<Rightarrow> conn_kind \<Rightarrow> coordination_error option" where
  "closeSOCKS5RelayWrite fails e CloseWriter = (if fails (HalfClose e) then Some (CloseWriteFailed e) else None)"
| "closeSOCKS5RelayWrite fails e (Buffered k) = closeSOCKS5RelayWrite fails e k"
| "closeSOCKS5RelayWrite fails e OtherConn = Some (NoCloseWrite e)"

datatype phase =
    AwaitFirst
  | AwaitSecond CopyResult bool "coordination_error option"
  | Finished CopyResult CopyResult RelayResult

record Relay =
  rlCopied :: "direction \<Rightarrow> nat"
  rlEnded :: "direction \<Rightarrow> bool"
  rlResults :: "CopyResult list"
  rlPhase :: phase
  rlClosed :: "endpoint \<Rightarrow> bool"
  rlHalfClosed :: "endpoint \<Rightarrow> bool"
  rlIdle :: "direction \<Rightarrow> Idle"
  rlRecorded :: nat

definition startRelay :: Relay where
  "startRelay = \<lparr>rlCopied = (\<lambda>d. 0), rlEnded = (\<lambda>d. False), rlResults = [], rlPhase = AwaitFirst,
     rlClosed = (\<lambda>e. False), rlHalfClosed = (\<lambda>e. False),
     rlIdle = (\<lambda>d. \<lparr>armed = False, diagnosticErr = None\<rparr>), rlRecorded = 0\<rparr>"

text \<open>One turn of \<open>io.Copy\<close>: what the read and the write return.\<close>

datatype read_result = ReadMore | ReadEOF | ReadErr bool

record Turn =
  tnRead :: nat
  tnReadEnd :: read_result
  tnWritten :: nat
  tnWriteErr :: "bool option"

definition turnEnd :: "Turn \<Rightarrow> copy_error option option" where
  "turnEnd t =
     (if tnRead t > 0 \<and> tnWriteErr t \<noteq> None then Some (Some (WriteFailed (the (tnWriteErr t))))
      else if tnRead t > 0 \<and> tnWritten t > tnRead t then Some (Some InvalidWrite)
      else if tnRead t > 0 \<and> tnWritten t \<noteq> tnRead t then Some (Some ShortWrite)
      else
        (case tnReadEnd t of
           ReadMore \<Rightarrow> None
         | ReadEOF \<Rightarrow> Some None
         | ReadErr timeout \<Rightarrow> Some (Some (ReadFailed timeout))))"

text \<open>
  \<open>socks5RelayObservedWriter.Write\<close> and its callbacks: the deadline of the direction, and for the bytes
  of the upstream the caller's \<open>onUpstreamWrite\<close>, wrapped in a \<open>sync.Once\<close>.
\<close>

definition observeWrite :: "bool \<Rightarrow> (net_call \<Rightarrow> bool) \<Rightarrow> direction \<Rightarrow> Relay \<Rightarrow> Relay" where
  "observeWrite callback fails d r =
     (let r1 = r\<lparr>rlIdle := (rlIdle r)(d := progress fails d (rlIdle r d))\<rparr> in
      if d = UpstreamToClient \<and> callback \<and> rlRecorded r = 0 then r1\<lparr>rlRecorded := 1\<rparr> else r1)"

definition copyTurn :: "bool \<Rightarrow> (net_call \<Rightarrow> bool) \<Rightarrow> direction \<Rightarrow> Turn \<Rightarrow> Relay \<Rightarrow> Relay" where
  "copyTurn callback fails d t r =
     (let r1 = (if tnRead t > 0 \<and> tnWritten t > 0 then observeWrite callback fails d r else r);
          nw = (if tnRead t > 0 \<and> tnWritten t \<le> tnRead t then tnWritten t else 0);
          bytes = rlCopied r1 d + nw;
          r2 = r1\<lparr>rlCopied := (rlCopied r1)(d := bytes)\<rparr> in
      case turnEnd t of
        None \<Rightarrow> r2
      | Some err \<Rightarrow>
          r2\<lparr>rlEnded := (rlEnded r2)(d := True),
             rlResults := rlResults r2 @ [\<lparr>crDirection = d, crBytes = bytes, crErr = err, crTimedOut = timedOut err\<rparr>]\<rparr>)"

definition armRemainingSOCKS5Relay ::
    "(endpoint \<Rightarrow> conn_kind) \<Rightarrow> (net_call \<Rightarrow> bool) \<Rightarrow> direction \<Rightarrow> Relay \<Rightarrow> coordination_error option \<times> Relay" where
  "armRemainingSOCKS5Relay kind fails completed r =
     (case arm fails (other completed) (rlIdle r (other completed)) of
        (False, i) \<Rightarrow> (Some (ArmFailed (other completed)), r)
      | (True, i) \<Rightarrow>
          (let r1 = r\<lparr>rlIdle := (rlIdle r)(other completed := i)\<rparr> in
           case closeSOCKS5RelayWrite fails (dst completed) (kind (dst completed)) of
             Some e \<Rightarrow> (Some e, r1)
           | None \<Rightarrow> (None, r1\<lparr>rlHalfClosed := (rlHalfClosed r1)(dst completed := True)\<rparr>)))"

definition propagateSOCKS5RelayEOF ::
    "(endpoint \<Rightarrow> conn_kind) \<Rightarrow> (net_call \<Rightarrow> bool) \<Rightarrow> direction \<Rightarrow> Relay \<Rightarrow> coordination_error option \<times> Relay" where
  "propagateSOCKS5RelayEOF kind fails d r =
     (case closeSOCKS5RelayWrite fails (dst d) (kind (dst d)) of
        Some e \<Rightarrow> (Some e, r)
      | None \<Rightarrow> (None, r\<lparr>rlHalfClosed := (rlHalfClosed r)(dst d := True)\<rparr>))"

definition clearAndClose :: "(net_call \<Rightarrow> bool) \<Rightarrow> Relay \<Rightarrow> Relay" where
  "clearAndClose fails r = r\<lparr>rlIdle := (\<lambda>d. clear fails d (rlIdle r d)), rlClosed := (\<lambda>e. True)\<rparr>"

text \<open>The coordinator on the first result, and on the second.\<close>

definition onFirst :: "(endpoint \<Rightarrow> conn_kind) \<Rightarrow> (net_call \<Rightarrow> bool) \<Rightarrow> CopyResult \<Rightarrow> Relay \<Rightarrow> Relay" where
  "onFirst kind fails first r =
     (case (if crErr first \<noteq> None then (None, r) else armRemainingSOCKS5Relay kind fails (crDirection first) r) of
        (coordErr, r1) \<Rightarrow>
          (let fastClose = (crErr first \<noteq> None \<or> coordErr \<noteq> None);
               r2 = (if fastClose then clearAndClose fails r1 else r1) in
           r2\<lparr>rlPhase := AwaitSecond first fastClose coordErr\<rparr>))"

definition onSecond ::
    "(endpoint \<Rightarrow> conn_kind) \<Rightarrow> (net_call \<Rightarrow> bool) \<Rightarrow> CopyResult \<Rightarrow> bool \<Rightarrow> coordination_error option \<Rightarrow>
     CopyResult \<Rightarrow> Relay \<Rightarrow> Relay" where
  "onSecond kind fails first fastClose coordErr second r =
     (let propagates = (\<not> fastClose \<and> crErr second = None) in
      case (if propagates then propagateSOCKS5RelayEOF kind fails (crDirection second) r else (coordErr, r)) of
        (coordErr1, r1) \<Rightarrow>
          (let r2 = clearAndClose fails r1;
               res = addResult second fastClose (addResult first False zeroResult) in
           r2\<lparr>rlPhase := Finished first second (res\<lparr>
               clientToUpstreamDeadline := diagnosticErr (rlIdle r2 ClientToUpstream),
               upstreamToClientDeadline := diagnosticErr (rlIdle r2 UpstreamToClient),
               coordinationDirection := (if propagates then crDirection second else crDirection first),
               coordinationErr := coordErr1\<rparr>)\<rparr>))"

text \<open>
  What the network may answer: a write takes at most the bytes offered, and a copy with a closed end
  gets an error from its next read or write.
\<close>

definition netAllows :: "Relay \<Rightarrow> direction \<Rightarrow> Turn \<Rightarrow> bool" where
  "netAllows r d t \<longleftrightarrow>
     tnWritten t \<le> tnRead t \<and>
     (rlClosed r (src d) \<longrightarrow> tnRead t = 0 \<and> (\<exists>timeout. tnReadEnd t = ReadErr timeout))"

inductive relay_step :: "bool \<Rightarrow> (endpoint \<Rightarrow> conn_kind) \<Rightarrow> Relay \<Rightarrow> Relay \<Rightarrow> bool" for callback kind where
  step_copy: "\<not> rlEnded r d \<Longrightarrow> netAllows r d t \<Longrightarrow> relay_step callback kind r (copyTurn callback fails d t r)"
| step_first: "rlPhase r = AwaitFirst \<Longrightarrow> rlResults r = first # rest \<Longrightarrow>
    relay_step callback kind r (onFirst kind fails first (r\<lparr>rlResults := rest\<rparr>))"
| step_second: "rlPhase r = AwaitSecond first fastClose coordErr \<Longrightarrow> rlResults r = second # rest \<Longrightarrow>
    relay_step callback kind r (onSecond kind fails first fastClose coordErr second (r\<lparr>rlResults := rest\<rparr>))"

inductive relay_reachable :: "bool \<Rightarrow> (endpoint \<Rightarrow> conn_kind) \<Rightarrow> Relay \<Rightarrow> bool" for callback kind where
  relay_start: "relay_reachable callback kind startRelay"
| relay_next: "relay_reachable callback kind r \<Longrightarrow> relay_step callback kind r r' \<Longrightarrow> relay_reachable callback kind r'"

section \<open>The invariant\<close>

fun received :: "phase \<Rightarrow> CopyResult list" where
  "received AwaitFirst = []"
| "received (AwaitSecond first fastClose e) = [first]"
| "received (Finished first second res) = [first, second]"

abbreviation reports :: "Relay \<Rightarrow> CopyResult list" where
  "reports r \<equiv> received (rlPhase r) @ rlResults r"

definition reports_ok :: "Relay \<Rightarrow> bool" where
  "reports_ok r \<longleftrightarrow>
     distinct (map crDirection (reports r)) \<and>
     (\<forall>d. rlEnded r d \<longleftrightarrow> d \<in> crDirection ` set (reports r)) \<and>
     (\<forall>x\<in>set (reports r). crBytes x = rlCopied r (crDirection x))"

definition record_ok :: "bool \<Rightarrow> Relay \<Rightarrow> bool" where
  "record_ok callback r \<longleftrightarrow> rlRecorded r = (if callback \<and> rlCopied r UpstreamToClient > 0 then 1 else 0)"

definition eof_ok :: "Relay \<Rightarrow> bool" where
  "eof_ok r \<longleftrightarrow>
     (\<forall>d. rlHalfClosed r (dst d) \<longrightarrow> (\<exists>x\<in>set (received (rlPhase r)). crDirection x = d \<and> crErr x = None))"

definition bothClosed :: "Relay \<Rightarrow> bool" where
  "bothClosed r \<longleftrightarrow> rlClosed r Client \<and> rlClosed r Upstream"

fun close_ok :: "phase \<Rightarrow> Relay \<Rightarrow> bool" where
  "close_ok AwaitFirst r = True"
| "close_ok (AwaitSecond first fastClose e) r = (fastClose \<longrightarrow> bothClosed r)"
| "close_ok (Finished first second res) r =
     (bothClosed r \<and> (\<forall>d. \<not> armed (rlIdle r d)) \<and>
      (\<exists>canceled dc du dir e. res = (addResult second canceled (addResult first False zeroResult))\<lparr>
         clientToUpstreamDeadline := dc, upstreamToClientDeadline := du, coordinationDirection := dir,
         coordinationErr := e\<rparr>))"

definition relay_inv :: "bool \<Rightarrow> Relay \<Rightarrow> bool" where
  "relay_inv callback r \<longleftrightarrow> reports_ok r \<and> record_ok callback r \<and> eof_ok r \<and> close_ok (rlPhase r) r"

lemma dst_inj [simp]: "dst d = dst d' \<longleftrightarrow> d = d'"
  by (cases d; cases d') simp_all

lemma progress_unarmed [simp]: "\<not> armed i \<Longrightarrow> progress fails d i = i"
  by (simp add: progress_def)

lemma clear_unarmed [simp]: "\<not> armed (clear fails d i)"
  by (simp add: clear_def Let_def rememberDiagnosticLocked_def)

text \<open>What each step leaves alone.\<close>

lemma observeWrite_frame [simp]:
  "rlCopied (observeWrite cb fails d r) = rlCopied r" "rlEnded (observeWrite cb fails d r) = rlEnded r"
  "rlResults (observeWrite cb fails d r) = rlResults r" "rlPhase (observeWrite cb fails d r) = rlPhase r"
  "rlClosed (observeWrite cb fails d r) = rlClosed r" "rlHalfClosed (observeWrite cb fails d r) = rlHalfClosed r"
  by (simp_all add: observeWrite_def Let_def)

lemma observeWrite_recorded:
  "rlRecorded (observeWrite cb fails d r) =
     (if d = UpstreamToClient \<and> cb \<and> rlRecorded r = 0 then 1 else rlRecorded r)"
  by (simp add: observeWrite_def Let_def)

lemma copyTurn_frame [simp]:
  "rlPhase (copyTurn cb fails d t r) = rlPhase r" "rlClosed (copyTurn cb fails d t r) = rlClosed r"
  "rlHalfClosed (copyTurn cb fails d t r) = rlHalfClosed r"
  by (simp_all add: copyTurn_def Let_def split: option.split)

lemma copyTurn_copied:
  "rlCopied (copyTurn cb fails d t r) =
     (rlCopied r)(d := rlCopied r d + (if tnRead t > 0 \<and> tnWritten t \<le> tnRead t then tnWritten t else 0))"
  by (simp add: copyTurn_def Let_def split: option.split)

lemma copyTurn_ended:
  "rlEnded (copyTurn cb fails d t r) = (if turnEnd t = None then rlEnded r else (rlEnded r)(d := True))"
  by (simp add: copyTurn_def Let_def split: option.split)

lemma copyTurn_results:
  "rlResults (copyTurn cb fails d t r) =
     (case turnEnd t of None \<Rightarrow> rlResults r
      | Some err \<Rightarrow> rlResults r @ [\<lparr>crDirection = d, crBytes = rlCopied (copyTurn cb fails d t r) d, crErr = err,
          crTimedOut = timedOut err\<rparr>])"
  by (simp add: copyTurn_def Let_def split: option.split)

lemma copyTurn_recorded:
  "rlRecorded (copyTurn cb fails d t r) =
     (if tnRead t > 0 \<and> tnWritten t > 0 \<and> d = UpstreamToClient \<and> cb \<and> rlRecorded r = 0 then 1 else rlRecorded r)"
  by (simp add: copyTurn_def Let_def observeWrite_recorded split: option.split)

lemma copyTurn_idle: "armed (rlIdle (copyTurn cb fails d t r) e) = armed (rlIdle r e)"
  by (simp add: copyTurn_def observeWrite_def progress_def rememberDiagnosticLocked_def Let_def split: option.split)

lemma close_ok_mono:
  assumes "close_ok ph r" "rlClosed r' = rlClosed r" "\<And>e. armed (rlIdle r' e) = armed (rlIdle r e)"
  shows "close_ok ph r'"
  using assms by (cases ph) (auto simp: bothClosed_def)

lemma copyTurn_inv:
  assumes "relay_inv cb r" "\<not> rlEnded r d" "netAllows r d t"
  shows "relay_inv cb (copyTurn cb fails d t r)"
proof -
  have ok: "reports_ok r" "record_ok cb r" "eof_ok r" "close_ok (rlPhase r) r" using assms(1) by (auto simp: relay_inv_def)
  have fresh: "d \<notin> crDirection ` set (reports r)" using ok(1) assms(2) by (simp add: reports_ok_def)
  have "reports_ok (copyTurn cb fails d t r)"
    using ok(1) fresh
    by (auto simp: reports_ok_def copyTurn_results copyTurn_ended copyTurn_copied split: option.splits)
  moreover have "record_ok cb (copyTurn cb fails d t r)"
    using ok(2) assms(3) by (auto simp: record_ok_def copyTurn_recorded copyTurn_copied netAllows_def)
  moreover have "eof_ok (copyTurn cb fails d t r)" using ok(3) by (simp add: eof_ok_def)
  moreover have "close_ok (rlPhase (copyTurn cb fails d t r)) (copyTurn cb fails d t r)"
    using ok(4) by (auto intro: close_ok_mono simp: copyTurn_idle)
  ultimately show ?thesis by (simp add: relay_inv_def)
qed

text \<open>A coordinator helper touches only the half-closed ends and the idle deadlines.\<close>

definition onlyHalf :: "direction \<Rightarrow> Relay \<Rightarrow> Relay \<Rightarrow> bool" where
  "onlyHalf d r r' \<longleftrightarrow>
     rlCopied r' = rlCopied r \<and> rlEnded r' = rlEnded r \<and> rlResults r' = rlResults r \<and>
     rlRecorded r' = rlRecorded r \<and> (\<forall>d'. rlHalfClosed r' (dst d') \<longrightarrow> rlHalfClosed r (dst d') \<or> d' = d)"

lemma armRemaining_half: "onlyHalf d r (snd (armRemainingSOCKS5Relay kind fails d r))"
  by (auto simp: armRemainingSOCKS5Relay_def onlyHalf_def Let_def split: prod.splits bool.splits option.splits)

lemma propagate_half: "onlyHalf d r (snd (propagateSOCKS5RelayEOF kind fails d r))"
  by (auto simp: propagateSOCKS5RelayEOF_def onlyHalf_def split: option.splits)

lemma clearAndClose_half: "onlyHalf d r (clearAndClose fails r)"
  by (simp add: clearAndClose_def onlyHalf_def)

lemma clearAndClose_closed: "bothClosed (clearAndClose fails r)" "\<not> armed (rlIdle (clearAndClose fails r) d)"
  by (simp_all add: clearAndClose_def bothClosed_def)

lemma onlyHalf_trans: "onlyHalf d r r' \<Longrightarrow> onlyHalf d r' r'' \<Longrightarrow> onlyHalf d r r''"
  unfolding onlyHalf_def by metis

lemma onlyHalf_refl: "onlyHalf d r r"
  by (simp add: onlyHalf_def)

lemma phase_inv:
  assumes "relay_inv cb r0" "reports r0 = received ph @ rest" "set (received (rlPhase r0)) \<subseteq> set (received ph)"
    "onlyHalf d (r0\<lparr>rlResults := rest\<rparr>) r1"
    "rlHalfClosed r1 (dst d) \<longrightarrow> rlHalfClosed r0 (dst d) \<or> (\<exists>x\<in>set (received ph). crDirection x = d \<and> crErr x = None)"
    "close_ok ph (r1\<lparr>rlPhase := ph\<rparr>)"
  shows "relay_inv cb (r1\<lparr>rlPhase := ph\<rparr>)"
proof -
  have ok: "reports_ok r0" "record_ok cb r0" "eof_ok r0" using assms(1) by (auto simp: relay_inv_def)
  have f: "rlCopied r1 = rlCopied r0" "rlEnded r1 = rlEnded r0" "rlResults r1 = rest" "rlRecorded r1 = rlRecorded r0"
    "\<And>d'. rlHalfClosed r1 (dst d') \<Longrightarrow> rlHalfClosed r0 (dst d') \<or> d' = d"
    using assms(4) by (auto simp: onlyHalf_def)
  have "reports_ok (r1\<lparr>rlPhase := ph\<rparr>)" using ok(1) assms(2) by (simp add: reports_ok_def f)
  moreover have "record_ok cb (r1\<lparr>rlPhase := ph\<rparr>)" using ok(2) by (simp add: record_ok_def f)
  moreover have "eof_ok (r1\<lparr>rlPhase := ph\<rparr>)"
    using ok(3) assms(3,5) f(5) unfolding eof_ok_def by simp blast
  ultimately show ?thesis using assms(6) by (simp add: relay_inv_def)
qed

lemma onFirst_inv:
  assumes "relay_inv cb r" "rlPhase r = AwaitFirst" "rlResults r = first # rest"
  shows "relay_inv cb (onFirst kind fails first (r\<lparr>rlResults := rest\<rparr>))"
proof -
  let ?r = "r\<lparr>rlResults := rest\<rparr>" and ?d = "crDirection first"
  define ar where "ar = (if crErr first \<noteq> None then (None, ?r) else armRemainingSOCKS5Relay kind fails ?d ?r)"
  define fc where "fc = (crErr first \<noteq> None \<or> fst ar \<noteq> None)"
  define r2 where "r2 = (if fc then clearAndClose fails (snd ar) else snd ar)"
  have step: "onFirst kind fails first ?r = r2\<lparr>rlPhase := AwaitSecond first fc (fst ar)\<rparr>"
    by (cases "crErr first") (simp_all add: onFirst_def ar_def fc_def r2_def Let_def split: prod.split)
  have a: "onlyHalf ?d ?r (snd ar)" using armRemaining_half by (simp add: ar_def onlyHalf_refl)
  have h: "onlyHalf ?d ?r r2"
    using a onlyHalf_trans [OF a clearAndClose_half] by (auto simp: r2_def)
  have "crErr first \<noteq> None \<Longrightarrow> rlHalfClosed r2 = rlHalfClosed r"
    by (simp add: r2_def ar_def fc_def clearAndClose_def)
  then have e: "rlHalfClosed r2 (dst ?d) \<longrightarrow> rlHalfClosed r (dst ?d) \<or>
      (\<exists>x\<in>set (received (AwaitSecond first fc (fst ar))). crDirection x = ?d \<and> crErr x = None)" by auto
  have "close_ok (AwaitSecond first fc (fst ar)) (r2\<lparr>rlPhase := AwaitSecond first fc (fst ar)\<rparr>)"
    using clearAndClose_closed(1) [of fails "snd ar"] by (auto simp: r2_def bothClosed_def)
  from phase_inv [OF assms(1) _ _ h e this] show ?thesis
    unfolding step using assms(2,3) by simp
qed

lemma onSecond_inv:
  assumes "relay_inv cb r" "rlPhase r = AwaitSecond first fastClose coordErr" "rlResults r = second # rest"
  shows "relay_inv cb (onSecond kind fails first fastClose coordErr second (r\<lparr>rlResults := rest\<rparr>))"
proof -
  let ?r = "r\<lparr>rlResults := rest\<rparr>" and ?d = "crDirection second"
  define pr where "pr = (\<not> fastClose \<and> crErr second = None)"
  define ar where "ar = (if pr then propagateSOCKS5RelayEOF kind fails ?d ?r else (coordErr, ?r))"
  define r2 where "r2 = clearAndClose fails (snd ar)"
  define res where "res = (addResult second fastClose (addResult first False zeroResult))\<lparr>
       clientToUpstreamDeadline := diagnosticErr (rlIdle r2 ClientToUpstream),
       upstreamToClientDeadline := diagnosticErr (rlIdle r2 UpstreamToClient),
       coordinationDirection := (if pr then ?d else crDirection first), coordinationErr := fst ar\<rparr>"
  have step: "onSecond kind fails first fastClose coordErr second ?r = r2\<lparr>rlPhase := Finished first second res\<rparr>"
    by (simp add: onSecond_def ar_def pr_def r2_def res_def Let_def split: prod.split)
  have a: "onlyHalf ?d ?r (snd ar)" using propagate_half by (simp add: ar_def onlyHalf_refl)
  have h: "onlyHalf ?d ?r r2" unfolding r2_def by (rule onlyHalf_trans [OF a clearAndClose_half])
  have "\<not> pr \<Longrightarrow> rlHalfClosed r2 = rlHalfClosed r" by (simp add: r2_def ar_def clearAndClose_def)
  then have e: "rlHalfClosed r2 (dst ?d) \<longrightarrow> rlHalfClosed r (dst ?d) \<or>
      (\<exists>x\<in>set (received (Finished first second res)). crDirection x = ?d \<and> crErr x = None)"
    by (auto simp: pr_def)
  have "\<exists>canceled dc du dir e. res = (addResult second canceled (addResult first False zeroResult))\<lparr>
       clientToUpstreamDeadline := dc, upstreamToClientDeadline := du, coordinationDirection := dir, coordinationErr := e\<rparr>"
    unfolding res_def by blast
  then have "close_ok (Finished first second res) (r2\<lparr>rlPhase := Finished first second res\<rparr>)"
    using clearAndClose_closed [of fails "snd ar"] unfolding r2_def [symmetric] by (simp add: bothClosed_def)
  from phase_inv [OF assms(1) _ _ h e this] show ?thesis
    unfolding step using assms(2,3) by simp
qed

lemma relay_reachable_inv: "relay_reachable cb kind r \<Longrightarrow> relay_inv cb r"
proof (induction rule: relay_reachable.induct)
  case relay_start
  then show ?case
    by (simp add: relay_inv_def reports_ok_def record_ok_def eof_ok_def startRelay_def)
next
  case (relay_next r r')
  from relay_next(2,3) show ?case
    by (cases rule: relay_step.cases) (auto intro: copyTurn_inv onFirst_inv onSecond_inv)
qed

section \<open>Properties\<close>

lemma two_directions: "distinct [crDirection a, crDirection b] \<Longrightarrow> d = crDirection a \<or> d = crDirection b"
  by (cases d; cases "crDirection a"; cases "crDirection b") auto

lemma relay_finish:
  assumes "relay_reachable callback kind r" "rlPhase r = Finished first second res"
  shows "(\<forall>d. rlEnded r d \<and> \<not> armed (rlIdle r d)) \<and> rlClosed r Client \<and> rlClosed r Upstream \<and>
    clientToUpstreamBytes res = rlCopied r ClientToUpstream \<and>
    upstreamToClientBytes res = rlCopied r UpstreamToClient \<and>
    rlRecorded r = (if callback \<and> upstreamToClientBytes res > 0 then 1 else 0) \<and>
    (rlHalfClosed r Upstream \<longrightarrow> clientToUpstreamErr res = None) \<and>
    (rlHalfClosed r Client \<longrightarrow> upstreamToClientErr res = None)"
proof -
  have ok: "reports_ok r" "record_ok callback r" "eof_ok r" "close_ok (Finished first second res) r"
    using relay_reachable_inv [OF assms(1)] assms(2) by (auto simp: relay_inv_def)
  have dist: "crDirection first \<noteq> crDirection second" and
    bytes: "crBytes first = rlCopied r (crDirection first)" "crBytes second = rlCopied r (crDirection second)" and
    ended: "\<forall>d. rlEnded r d"
    using ok(1) assms(2) two_directions [of first second] by (auto simp: reports_ok_def)
  have eof: "\<exists>x\<in>{first, second}. crDirection x = d \<and> crErr x = None" if "rlHalfClosed r (dst d)" for d
    using ok(3) assms(2) that by (auto simp: eof_ok_def)
  have res: "clientToUpstreamBytes res = rlCopied r ClientToUpstream \<and> upstreamToClientBytes res = rlCopied r UpstreamToClient"
    using ok(4) dist bytes
    by (cases "crDirection first"; cases "crDirection second") (auto simp: addResult_def zeroResult_def)
  have errs: "(crDirection x = ClientToUpstream \<longrightarrow> clientToUpstreamErr res = crErr x) \<and>
      (crDirection x = UpstreamToClient \<longrightarrow> upstreamToClientErr res = crErr x)" if "x \<in> {first, second}" for x
    using ok(4) dist that
    by (cases "crDirection first"; cases "crDirection second") (auto simp: addResult_def zeroResult_def)
  have "rlHalfClosed r Upstream \<longrightarrow> clientToUpstreamErr res = None" using eof [of ClientToUpstream] errs by fastforce
  moreover have "rlHalfClosed r Client \<longrightarrow> upstreamToClientErr res = None" using eof [of UpstreamToClient] errs by fastforce
  ultimately show ?thesis
    using ok(2,4) ended res by (simp add: record_ok_def bothClosed_def)
qed

text \<open>
  C29: how a relay ends. In every interleaving of the two copies and the coordinator, whatever the
  network does, a relay that has finished has ended both copies, closed both connections and disarmed
  both deadlines; it reports for each direction exactly the bytes that were written; the success
  callback has run exactly once when a byte of the upstream reached the client and never otherwise; and
  an end was half-closed only after the copy towards it ended without error.
\<close>

theorem relay_ends_clean:
  assumes "relay_reachable callback kind r" "rlPhase r = Finished first second res"
  shows "(\<forall>d. rlEnded r d \<and> \<not> armed (rlIdle r d)) \<and> rlClosed r Client \<and> rlClosed r Upstream \<and>
    clientToUpstreamBytes res = rlCopied r ClientToUpstream \<and>
    upstreamToClientBytes res = rlCopied r UpstreamToClient \<and>
    rlRecorded r = (if callback \<and> upstreamToClientBytes res > 0 then 1 else 0) \<and>
    (rlHalfClosed r Upstream \<longrightarrow> clientToUpstreamErr res = None) \<and>
    (rlHalfClosed r Client \<longrightarrow> upstreamToClientErr res = None)"
  using assms by (rule relay_finish)

definition eofTurn :: Turn where
  "eofTurn = \<lparr>tnRead = 0, tnReadEnd = ReadEOF, tnWritten = 0, tnWriteErr = None\<rparr>"

definition dataTurn :: "nat \<Rightarrow> Turn" where
  "dataTurn n = \<lparr>tnRead = n, tnReadEnd = ReadMore, tnWritten = n, tnWriteErr = None\<rparr>"

text \<open>The upstream sends five bytes and both sides then close in turn.\<close>

definition sampleRun :: Relay where
  "sampleRun =
     (let ok = (\<lambda>c. False); k = (\<lambda>e. CloseWriter);
          r1 = copyTurn True ok UpstreamToClient (dataTurn 5) startRelay;
          r2 = copyTurn True ok UpstreamToClient eofTurn r1;
          r3 = onFirst k ok (hd (rlResults r2)) (r2\<lparr>rlResults := []\<rparr>);
          r4 = copyTurn True ok ClientToUpstream eofTurn r3 in
      onSecond k ok (hd (rlResults r2)) False None (hd (rlResults r4)) (r4\<lparr>rlResults := []\<rparr>))"

lemmas relay_eval = copyTurn_def onFirst_def onSecond_def observeWrite_def armRemainingSOCKS5Relay_def
  propagateSOCKS5RelayEOF_def clearAndClose_def arm_def clear_def progress_def startRelay_def eofTurn_def
  dataTurn_def turnEnd_def addResult_def zeroResult_def

lemma sampleRun_end:
  "\<exists>first second res. relay_reachable True (\<lambda>e. CloseWriter) sampleRun \<and> rlPhase sampleRun = Finished first second res \<and>
     upstreamToClientBytes res = 5"
proof -
  let ?ok = "\<lambda>c :: net_call. False" and ?k = "\<lambda>e :: endpoint. CloseWriter"
  define r1 where "r1 = copyTurn True ?ok UpstreamToClient (dataTurn 5) startRelay"
  define r2 where "r2 = copyTurn True ?ok UpstreamToClient eofTurn r1"
  define r3 where "r3 = onFirst ?k ?ok (hd (rlResults r2)) (r2\<lparr>rlResults := []\<rparr>)"
  define r4 where "r4 = copyTurn True ?ok ClientToUpstream eofTurn r3"
  have s: "sampleRun = onSecond ?k ?ok (hd (rlResults r2)) False None (hd (rlResults r4)) (r4\<lparr>rlResults := []\<rparr>)"
    by (simp only: sampleRun_def Let_def r1_def r2_def r3_def r4_def)
  have "relay_reachable True ?k r1" unfolding r1_def
    by (rule relay_next [OF relay_start], rule step_copy) (simp_all add: netAllows_def dataTurn_def startRelay_def)
  moreover have "relay_step True ?k r1 r2" unfolding r2_def
    by (rule step_copy) (simp_all add: r1_def netAllows_def relay_eval)
  moreover have "relay_step True ?k r2 r3" unfolding r3_def
    by (rule step_first) (simp_all add: r1_def r2_def relay_eval)
  moreover have "relay_step True ?k r3 r4" unfolding r4_def
    by (rule step_copy) (simp_all add: r1_def r2_def r3_def netAllows_def relay_eval)
  moreover have "relay_step True ?k r4 sampleRun" unfolding s
    by (rule step_second) (simp_all add: r1_def r2_def r3_def r4_def relay_eval)
  ultimately have "relay_reachable True ?k sampleRun" by (meson relay_next)
  moreover obtain first second res where
    f: "rlPhase sampleRun = Finished first second res" "upstreamToClientBytes res = 5"
    by (simp add: s r1_def r2_def r3_def r4_def relay_eval)
  ultimately show ?thesis by blast
qed

theorem relay_ends_clean_witness:
  "\<exists>first second res. rlPhase sampleRun = Finished first second res \<and> upstreamToClientBytes res = 5 \<and> rlRecorded sampleRun = 1"
  using sampleRun_end relay_ends_clean [of True "\<lambda>e. CloseWriter" sampleRun] by fastforce

text \<open>Steps still to come once both connections are closed: a turn per running copy, a step per result to receive.\<close>

definition pending :: "Relay \<Rightarrow> nat" where
  "pending r =
     (if rlEnded r ClientToUpstream then 0 else 1) + (if rlEnded r UpstreamToClient then 0 else 1) +
     (2 - length (received (rlPhase r)))"

lemma closed_turn_ends: "rlClosed r (src d) \<Longrightarrow> netAllows r d t \<Longrightarrow> turnEnd t \<noteq> None"
  by (auto simp: netAllows_def turnEnd_def)

lemma step_pending:
  assumes "relay_step callback kind r r'" "bothClosed r"
  shows "pending r' < pending r \<and> bothClosed r'"
  using assms
proof (cases rule: relay_step.cases)
  case (step_copy d t fails)
  have "rlClosed r (src d)" using assms(2) by (cases d) (simp_all add: bothClosed_def)
  then have "turnEnd t \<noteq> None" using step_copy closed_turn_ends by blast
  with step_copy assms(2) show ?thesis
    by (cases d) (simp_all add: pending_def copyTurn_ended bothClosed_def)
next
  case (step_first first rest fails)
  let ?ar = "armRemainingSOCKS5Relay kind fails (crDirection first) (r\<lparr>rlResults := rest\<rparr>)"
  have "rlEnded (snd ?ar) = rlEnded r \<and> rlClosed (snd ?ar) = rlClosed r"
    by (simp add: armRemainingSOCKS5Relay_def Let_def split: prod.split bool.split option.split)
  with step_first assms(2) show ?thesis
    by (cases "?ar") (auto simp: onFirst_def pending_def clearAndClose_def bothClosed_def Let_def)
next
  case (step_second first fastClose coordErr second rest fails)
  let ?ar = "propagateSOCKS5RelayEOF kind fails (crDirection second) (r\<lparr>rlResults := rest\<rparr>)"
  have "rlEnded (snd ?ar) = rlEnded r"
    by (simp add: propagateSOCKS5RelayEOF_def split: option.split)
  with step_second assms(2) show ?thesis
    by (cases "?ar") (auto simp: onSecond_def pending_def clearAndClose_def bothClosed_def Let_def)
qed

lemma result_or_running:
  assumes "reports_ok r" "\<not> rlEnded r d \<Longrightarrow> False" "\<not> rlEnded r (other d) \<Longrightarrow> False" "length (received (rlPhase r)) < 2"
  shows "rlResults r \<noteq> []"
proof
  assume none: "rlResults r = []"
  have "d \<in> crDirection ` set (reports r)" "other d \<in> crDirection ` set (reports r)"
    using assms(1-3) unfolding reports_ok_def by blast+
  then have "{d, other d} \<subseteq> crDirection ` set (received (rlPhase r))" using none by auto
  then have "card {d, other d} \<le> length (received (rlPhase r))"
    by (meson card_image_le card_length card_mono finite_imageI finite_set le_trans)
  moreover have "card {d, other d} = 2" by (cases d) auto
  ultimately show False using assms(4) by simp
qed

text \<open>
  C30: a relay that was told to close ends. Once both connections are closed (after any error, or a
  failed half-close) every step of either copy or the coordinator brings the relay nearer its end: at
  most four steps remain, each takes one away, a step is possible as long as any remains, and none
  remains exactly when the relay has finished.
\<close>

theorem relay_fast_close_terminates:
  assumes "relay_reachable callback kind r" "bothClosed r"
  shows "(\<forall>r'. relay_step callback kind r r' \<longrightarrow> pending r' < pending r \<and> bothClosed r') \<and> pending r \<le> 4 \<and>
    ((\<exists>r'. relay_step callback kind r r') \<longleftrightarrow> 0 < pending r) \<and>
    (pending r = 0 \<longleftrightarrow> (\<exists>first second res. rlPhase r = Finished first second res))"
proof -
  have ok: "reports_ok r" "close_ok (rlPhase r) r" using relay_reachable_inv [OF assms(1)] by (auto simp: relay_inv_def)
  have turn: "netAllows r d \<lparr>tnRead = 0, tnReadEnd = ReadErr False, tnWritten = 0, tnWriteErr = None\<rparr>" for d
    by (auto simp: netAllows_def)
  have fin: "rlEnded r d" if "rlPhase r = Finished first second res" for first second res d
    using ok(1) that two_directions [of first second d] by (auto simp: reports_ok_def)
  have "\<exists>r'. relay_step callback kind r r'" if p: "0 < pending r"
  proof (cases "\<exists>d. \<not> rlEnded r d")
    case True
    then show ?thesis using turn step_copy by blast
  next
    case False
    then have "length (received (rlPhase r)) < 2" using p by (simp add: pending_def split: if_splits)
    then have "rlResults r \<noteq> []" using result_or_running [OF ok(1)] False by blast
    then obtain x xs where "rlResults r = x # xs" by (cases "rlResults r") auto
    then show ?thesis using \<open>length _ < 2\<close> step_first step_second by (cases "rlPhase r") (auto, blast+)
  qed
  moreover have "pending r = 0 \<longleftrightarrow> (\<exists>first second res. rlPhase r = Finished first second res)"
    using fin by (cases "rlPhase r") (auto simp: pending_def)
  moreover have "pending r \<le> 4" by (cases "rlPhase r") (simp_all add: pending_def)
  ultimately show ?thesis using step_pending assms(2) by fastforce
qed

theorem relay_fast_close_terminates_witness:
  "\<exists>r. relay_reachable True (\<lambda>e. OtherConn) r \<and> bothClosed r \<and> (\<exists>r'. relay_step True (\<lambda>e. OtherConn) r r')"
proof -
  let ?ok = "\<lambda>c :: net_call. False" and ?k = "\<lambda>e :: endpoint. OtherConn"
  define r1 where "r1 = copyTurn True ?ok UpstreamToClient eofTurn startRelay"
  define r2 where "r2 = onFirst ?k ?ok (hd (rlResults r1)) (r1\<lparr>rlResults := []\<rparr>)"
  have "relay_reachable True ?k r1" unfolding r1_def
    by (rule relay_next [OF relay_start], rule step_copy) (simp_all add: netAllows_def eofTurn_def startRelay_def)
  moreover have "relay_step True ?k r1 r2" unfolding r2_def
    by (rule step_first) (simp_all add: r1_def relay_eval)
  ultimately have r: "relay_reachable True ?k r2" by (meson relay_next)
  have b: "bothClosed r2" and p: "0 < pending r2"
    by (simp_all add: r1_def r2_def relay_eval bothClosed_def pending_def)
  show ?thesis using relay_fast_close_terminates [OF r b] r b p by blast
qed

end
