(* ===== verification/Gateway.thy ===== *)
theory Gateway
  imports HttpWire Relay SelectorSpec
begin

text \<open>
  The request handlers of the package \<open>proxy\<close>: \<open>ServeHTTP\<close>, \<open>handleTunnel\<close>, \<open>handleHTTP\<close> (\<open>server.go\<close>)
  and \<open>handleConnection\<close> (\<open>socks5_server.go\<close>), with their retry loops over the selector, the tables and
  the session store.

  The state a request works on is the tables, the shared session store and the client's connection.
  What the world does during the \<open>k\<close>-th attempt is a record of arguments: what other requests and
  background jobs change before it, the random choice, driver faults, the dial, the client of
  \<open>net/http\<close>, and how the hijack and the relay go. The published configuration does not change during
  one request.
\<close>

section \<open>State and environment\<close>

record World =
  wDB :: DB
  wSessions :: "SessionStore option"
  wConn :: Conn

text \<open>What \<open>Hijack\<close> and the confirmation give.\<close>

datatype hijack =
    HijackUnsupported
  | HijackFailed
  | HijackIncomplete
  | ConfirmWriteFailed
  | ConfirmFlushFailed
  | Confirmed

text \<open>What \<open>client.Do\<close> gives: an error, or a status, a header and the turns of copying the body.\<close>

datatype do_result = DoError | DoResponse nat header "CopyTurn list"

record Attempt =
  atOther :: "World \<Rightarrow> World"
  atRnd :: "nat \<Rightarrow> nat"
  atFaults :: "nat \<Rightarrow> string option list"
  atDial :: dialer
  atHijack :: hijack
  atRelay :: "Relay \<times> RelayResult"
  atProxyURL :: bool
  atRequest :: bool
  atDo :: do_result
  atCanceledDo :: bool
  atCanceledRead :: bool
  atCanceledEnd :: bool

section \<open>Shared steps\<close>

definition failDisableThreshold :: int where
  "failDisableThreshold = 3"

definition secondNanos :: int where
  "secondNanos = 1000000000"

definition validateTimeout :: "Config \<Rightarrow> int" where
  "validateTimeout cfg = wrap64 (cfgValidateTimeout cfg * secondNanos)"

definition defaultSOCKS5RelayIdleTimeout :: int where
  "defaultSOCKS5RelayIdleTimeout = 10 * secondNanos"

definition relayIdleTimeout :: "Config option \<Rightarrow> int" where
  "relayIdleTimeout cfg =
     (case cfg of
        Some c \<Rightarrow> if cfgValidateTimeout c > 0 then validateTimeout c else defaultSOCKS5RelayIdleTimeout
      | None \<Rightarrow> defaultSOCKS5RelayIdleTimeout)"

definition withDefaultRegion :: "ParsedUsername \<Rightarrow> string \<Rightarrow> ParsedUsername" where
  "withDefaultRegion route defaultRegion =
     (if uRegion route \<noteq> [] \<or> defaultRegion = [] then route
      else route\<lparr>uRegion := ToLower (TrimSpace defaultRegion)\<rparr>)"

definition selectProxy ::
    "Config \<Rightarrow> Attempt \<Rightarrow> ParsedUsername \<Rightarrow> int list \<Rightarrow> World \<Rightarrow> (select_error + Proxy) \<times> World" where
  "selectProxy cfg att route tried w =
     (case Resolve (atRnd att) (storageNodes (atFaults att) (wDB w)) (Some cfg) (wSessions w)
             (withDefaultRegion route (cfgDefaultRegion cfg)) tried of
        (r, ss) \<Rightarrow> (r, w\<lparr>wSessions := ss\<rparr>))"

definition recordProxyFailure :: "Proxy \<Rightarrow> World \<Rightarrow> World" where
  "recordProxyFailure p w =
     w\<lparr>wDB := snd (RecordForwardFailure (RouteIdentityFromProxy p) failDisableThreshold (wDB w))\<rparr>"

definition recordProxySuccess :: "Proxy \<Rightarrow> World \<Rightarrow> World" where
  "recordProxySuccess p w = w\<lparr>wDB := snd (RecordForwardSuccess (RouteIdentityFromProxy p) (wDB w))\<rparr>"

definition releaseFailedBinding :: "ParsedUsername \<Rightarrow> Proxy \<Rightarrow> World \<Rightarrow> World" where
  "releaseFailedBinding route p w =
     (case wSessions w of
        None \<Rightarrow> w
      | Some s \<Rightarrow>
          if uSession route = [] then w
          else w\<lparr>wSessions := Some (snd (RemoveIfProxyID (uSession route) (pID p) s))\<rparr>)"

definition proxySelectionError :: "ParsedUsername \<Rightarrow> select_error \<Rightarrow> string" where
  "proxySelectionError route err =
     (case err of
        NoNode _ \<Rightarrow> if uRegion route \<noteq> [] then ''no available node for region: '' @ uRegion route
                   else ''no available proxy''
      | _ \<Rightarrow> ''no available proxy'')"

section \<open>The retry loop\<close>

text \<open>
  How a request ends, for the client. \<open>rnSelected\<close> is no state of the code: it records, for the statements
  below, the tables every selection of the run read and the node it gave.
\<close>

datatype outcome =
    HTTPError nat string
  | AuthRequired
  | Unanswered
  | Direct
  | Tunnel Proxy
  | Answered nat header "nat \<times> copy_outcome"
  | Stalled
  | SOCKSReplied nat

record Run =
  rnOutcome :: outcome
  rnTried :: "int list"
  rnSelected :: "(DB \<times> Proxy) list"
  rnWorld :: World

text \<open>
  \<open>for attempt := 0; attempt <= MaxRetry; attempt++\<close> of the three handlers: select a node that was not
  tried, remember it, and let the handler's attempt stop with an outcome or go on to the next.
\<close>

fun retryLoop ::
    "Config \<Rightarrow> (nat \<Rightarrow> Attempt) \<Rightarrow> ParsedUsername \<Rightarrow>
     (select_error \<Rightarrow> World \<Rightarrow> outcome \<times> World) \<Rightarrow>
     (Attempt \<Rightarrow> Proxy \<Rightarrow> World \<Rightarrow> outcome option \<times> World) \<Rightarrow>
     (World \<Rightarrow> outcome \<times> World) \<Rightarrow> nat \<Rightarrow> nat \<Rightarrow> int list \<Rightarrow> World \<Rightarrow> Run" where
  "retryLoop cfg env route noNode attempt allFailed 0 k tried w =
     (case allFailed w of (o1, w1) \<Rightarrow> \<lparr>rnOutcome = o1, rnTried = tried, rnSelected = [], rnWorld = w1\<rparr>)"
| "retryLoop cfg env route noNode attempt allFailed (Suc n) k tried w =
     (case selectProxy cfg (env k) route tried (atOther (env k) w) of
        (Inl e, w1) \<Rightarrow>
          (case noNode e w1 of (o1, w2) \<Rightarrow> \<lparr>rnOutcome = o1, rnTried = tried, rnSelected = [], rnWorld = w2\<rparr>)
      | (Inr p, w1) \<Rightarrow>
          (case attempt (env k) p w1 of
             (Some o1, w2) \<Rightarrow> \<lparr>rnOutcome = o1, rnTried = tried @ [pID p], rnSelected = [(wDB (atOther (env k) w), p)], rnWorld = w2\<rparr>
           | (None, w2) \<Rightarrow>
               (let run = retryLoop cfg env route noNode attempt allFailed n (Suc k) (tried @ [pID p]) w2 in
                run\<lparr>rnSelected := (wDB (atOther (env k) w), p) # rnSelected run\<rparr>)))"

definition retries :: "Config \<Rightarrow> nat" where
  "retries cfg = nat (cfgMaxRetry cfg + 1)"

section \<open>CONNECT over HTTP\<close>

text \<open>
  What a relay through a node leaves behind: the success its callback recorded and, without a byte
  from the upstream, the release of the binding. \<open>r\<close> is the final state of the relay.
\<close>

definition afterRelay :: "ParsedUsername \<Rightarrow> Proxy \<Rightarrow> Relay \<times> RelayResult \<Rightarrow> World \<Rightarrow> World" where
  "afterRelay route p relay w =
     (case relay of (r, result) \<Rightarrow>
        (let w1 = (if rlRecorded r > 0 then recordProxySuccess p w else w) in
         if upstreamToClientBytes result = 0 then releaseFailedBinding route p w1 else w1))"

text \<open>
  \<open>relayHTTPConnect\<close> for a selected node: every failure before the relay releases the binding; success
  is recorded by the relay's callback, and a relay without upstream data releases the binding.
\<close>

definition relayHTTPConnect :: "hijack \<Rightarrow> Relay \<times> RelayResult \<Rightarrow> Proxy option \<Rightarrow> ParsedUsername \<Rightarrow> World \<Rightarrow> outcome \<times> World" where
  "relayHTTPConnect hj relay selected route w =
     (let release = (\<lambda>w. case selected of None \<Rightarrow> w | Some p \<Rightarrow> releaseFailedBinding route p w) in
      case hj of
        HijackUnsupported \<Rightarrow> (HTTPError 500 ''hijack not supported'', release w)
      | HijackFailed \<Rightarrow> (Unanswered, release w)
      | HijackIncomplete \<Rightarrow> (Unanswered, release w)
      | ConfirmWriteFailed \<Rightarrow> (Unanswered, release w)
      | ConfirmFlushFailed \<Rightarrow> (Unanswered, release w)
      | Confirmed \<Rightarrow>
          (case selected of
             None \<Rightarrow> (Direct, w)
           | Some p \<Rightarrow> (Tunnel p, afterRelay route p relay w)))"

definition tunnelAttempt ::
    "readResponse \<Rightarrow> Config \<Rightarrow> ParsedUsername \<Rightarrow> string \<Rightarrow> Attempt \<Rightarrow> Proxy \<Rightarrow> World \<Rightarrow> outcome option \<times> World" where
  "tunnelAttempt ReadResponse cfg route host att p w =
     (case dialViaProxy (atDial att) ReadResponse (validateTimeout cfg) p host of
        (Inl e, _) \<Rightarrow>
          (let w1 = (if isHTTPConnectCapabilityRejection e then w else recordProxyFailure p w) in
           (None, releaseFailedBinding route p w1))
      | (Inr _, _) \<Rightarrow> map_prod Some id (relayHTTPConnect (atHijack att) (atRelay att) (Some p) route w))"

definition allProxiesFailed :: "World \<Rightarrow> outcome \<times> World" where
  "allProxiesFailed w = (HTTPError 502 ''all proxies failed'', w)"

definition serviceUnavailable :: "ParsedUsername \<Rightarrow> select_error \<Rightarrow> World \<Rightarrow> outcome \<times> World" where
  "serviceUnavailable route e w = (HTTPError 503 (proxySelectionError route e), w)"

definition finished :: "World \<Rightarrow> outcome \<Rightarrow> Run" where
  "finished w o1 = \<lparr>rnOutcome = o1, rnTried = [], rnSelected = [], rnWorld = w\<rparr>"

text \<open>\<open>tunnelDirect\<close>: \<open>direct\<close> is what \<open>net.DialTimeout\<close> gives for the target.\<close>

definition tunnelDirect :: "bool \<Rightarrow> hijack \<Rightarrow> Relay \<times> RelayResult \<Rightarrow> World \<Rightarrow> Run" where
  "tunnelDirect direct hj relay w =
     (if \<not> direct then finished w (HTTPError 502 ''direct dial failed'')
      else case relayHTTPConnect hj relay None emptyRoute w of (o1, w1) \<Rightarrow> finished w1 o1)"

definition handleTunnel ::
    "readResponse \<Rightarrow> Config \<Rightarrow> (nat \<Rightarrow> Attempt) \<Rightarrow> bool \<Rightarrow> hijack \<Rightarrow> Relay \<times> RelayResult \<Rightarrow> ParsedUsername \<Rightarrow> string \<Rightarrow> World \<Rightarrow> Run" where
  "handleTunnel ReadResponse cfg env direct hj relay route host w =
     (if validateConnectTarget host \<noteq> None then finished w (HTTPError 400 ''invalid CONNECT target'')
      else if isBypassTarget host then tunnelDirect direct hj relay w
      else retryLoop cfg env route (serviceUnavailable route) (tunnelAttempt ReadResponse cfg route host)
             allProxiesFailed (retries cfg) 0 [] w)"

section \<open>Plain HTTP\<close>

text \<open>
  The parts of the request the handler reads: whether its URL can be rebuilt, its scheme and host name
  (the result of \<open>http.NewRequest\<close>), the \<open>Host\<close>, the method, the header and the body.
\<close>

record Request =
  rqURL :: "(string \<times> string) option"
  rqHost :: string
  rqMethod :: string
  rqHeader :: header
  rqBody :: "Body option"

definition validateForwardRequest :: "Request \<Rightarrow> bool" where
  "validateForwardRequest r =
     (case rqURL r of
        None \<Rightarrow> False
      | Some (scheme, hostname) \<Rightarrow>
          \<not> ((ToLower scheme \<noteq> ''http'' \<and> ToLower scheme \<noteq> ''https'') \<or> hostname = []))"

definition buildClient :: "Attempt \<Rightarrow> Proxy \<Rightarrow> bool" where
  "buildClient att p =
     (if pProtocol p = ''http'' then atProxyURL att
      else if pProtocol p = ''socks5'' then True else False)"

definition failAttempt :: "bool \<Rightarrow> ParsedUsername \<Rightarrow> Proxy \<Rightarrow> World \<Rightarrow> outcome option \<times> World" where
  "failAttempt replayable route p w =
     (let w1 = releaseFailedBinding route p (recordProxyFailure p w) in
      if \<not> replayable then (Some (HTTPError 502 ''all proxies failed''), w1) else (None, w1))"

definition httpAttempt :: "bool \<Rightarrow> ParsedUsername \<Rightarrow> Attempt \<Rightarrow> Proxy \<Rightarrow> World \<Rightarrow> outcome option \<times> World" where
  "httpAttempt replayable route att p w =
     (if \<not> buildClient att p then failAttempt replayable route p w
      else if \<not> atRequest att then (Some (HTTPError 400 ''invalid forward request''), w)
      else
        (case atDo att of
           DoError \<Rightarrow> if atCanceledDo att then (Some Unanswered, w) else failAttempt replayable route p w
         | DoResponse status h turns \<Rightarrow>
             if pProtocol p = ''http'' \<and> status = 407 then failAttempt replayable route p w
             else
               (case copyHTTPResponse 0 turns of
                  None \<Rightarrow> (Some Stalled, w)
                | Some (bytes, res) \<Rightarrow>
                    (let answer = Answered status (addAll Map.empty (cleanResponseHeaders h)) (bytes, res) in
                     if res = CopyWriteFailed \<or> res = CopyShortWrite then (Some answer, w)
                     else if res = CopyReadFailed then
                       (if atCanceledRead att then (Some answer, w)
                        else (Some answer, releaseFailedBinding route p (recordProxyFailure p w)))
                     else if atCanceledEnd att then (Some answer, w)
                     else (Some answer, recordProxySuccess p w)))))"

text \<open>\<open>httpDirect\<close> answers from the target itself and touches neither the tables nor the sessions.\<close>

definition httpDirect :: "bool \<Rightarrow> do_result \<Rightarrow> outcome" where
  "httpDirect requestOK res =
     (if \<not> requestOK then HTTPError 502 ''build direct request failed''
      else
        (case res of
           DoError \<Rightarrow> HTTPError 502 ''direct request failed''
         | DoResponse status h turns \<Rightarrow>
             (case copyHTTPResponse 0 turns of
                None \<Rightarrow> Stalled
              | Some c \<Rightarrow> Answered status (addAll Map.empty (cleanResponseHeaders h)) c)))"

definition handleHTTP ::
    "Config \<Rightarrow> (nat \<Rightarrow> Attempt) \<Rightarrow> bool \<Rightarrow> do_result \<Rightarrow> ParsedUsername \<Rightarrow> Request \<Rightarrow> World \<Rightarrow> Run" where
  "handleHTTP cfg env requestOK direct route r w =
     (if \<not> validateForwardRequest r then finished w (HTTPError 400 ''invalid forward request'')
      else
        (case readReusableBody (rqBody r) of
           None \<Rightarrow> finished w (HTTPError 400 ''read request body failed'')
         | Some rb \<Rightarrow>
             if isBypassTarget (rqHost r) then finished w (httpDirect requestOK direct)
             else retryLoop cfg env route (serviceUnavailable route) (httpAttempt (rbReplayable rb) route)
                    allProxiesFailed (retries cfg) 0 [] w))"

text \<open>What one attempt sends to the node, or the direct request to the target.\<close>

definition forwardedRequest :: "Request \<Rightarrow> Reusable \<Rightarrow> header \<times> Body option" where
  "forwardedRequest r rb = (cleanForwardHeaders (rqHeader r), forwardBody rb)"

definition ServeHTTP ::
    "readResponse \<Rightarrow> Config \<Rightarrow> (nat \<Rightarrow> Attempt) \<Rightarrow> bool \<Rightarrow> hijack \<Rightarrow> Relay \<times> RelayResult \<Rightarrow> do_result \<Rightarrow> Request \<Rightarrow> World \<Rightarrow> Run" where
  "ServeHTTP ReadResponse cfg env direct hj relay res r w =
     (let authed = (if cfgProxyAuthEnabled cfg then checkAuthWithConfig (rqHeader r) (Some cfg) else (emptyRoute, True)) in
      if \<not> snd authed then finished w AuthRequired
      else if rqMethod r = ''CONNECT'' then handleTunnel ReadResponse cfg env direct hj relay (fst authed) (rqHost r) w
      else handleHTTP cfg env direct res (fst authed) r w)"

section \<open>SOCKS5\<close>

text \<open>An operation on the client's connection within the state.\<close>

definition onClient :: "'a conn_op \<Rightarrow> World \<Rightarrow> (proxy_error + 'a) \<times> World" where
  "onClient m w = (case m (wConn w) of (r, c) \<Rightarrow> (r, w\<lparr>wConn := c\<rparr>))"

definition replySOCKS :: "nat \<Rightarrow> World \<Rightarrow> outcome \<times> World" where
  "replySOCKS rep w = (SOCKSReplied rep, snd (onClient (sendSOCKS5Reply rep) w))"

definition socksAttempt ::
    "readResponse \<Rightarrow> Config \<Rightarrow> ParsedUsername \<Rightarrow> string \<Rightarrow> Attempt \<Rightarrow> Proxy \<Rightarrow> World \<Rightarrow> outcome option \<times> World" where
  "socksAttempt ReadResponse cfg route target att p w =
     (case dialViaProxy_socks (atDial att) ReadResponse (validateTimeout cfg) p target of
        (Inl e, _) \<Rightarrow>
          if isHTTPConnectCapabilityRejection e then (None, releaseFailedBinding route p w)
          else (None, releaseFailedBinding route p (recordProxyFailure p w))
      | (Inr _, _) \<Rightarrow>
          (case onClient (sendSOCKS5Reply 0) w of
             (Inl e, w1) \<Rightarrow> (Some Unanswered, releaseFailedBinding route p w1)
           | (Inr _, w1) \<Rightarrow> (Some (Tunnel p), afterRelay route p (atRelay att) w1)))"

definition socks5Direct :: "bool \<Rightarrow> World \<Rightarrow> outcome \<times> World" where
  "socks5Direct direct w =
     (if \<not> direct then replySOCKS 1 w
      else
        (case onClient (sendSOCKS5Reply 0) w of
           (Inl e, w1) \<Rightarrow> (Unanswered, w1)
         | (Inr _, w1) \<Rightarrow> (Direct, w1)))"

definition closeClient :: "Run \<Rightarrow> Run" where
  "closeClient run = run\<lparr>rnWorld := (rnWorld run)\<lparr>wConn := closeC (wConn (rnWorld run))\<rparr>\<rparr>"

text \<open>The inbound protocol: deadline, handshake, request, clearing the deadline.\<close>

definition inbound :: "Config \<Rightarrow> (ParsedUsername \<times> string) conn_op" where
  "inbound cfg =
     bindC (armDeadline (validateTimeout cfg)) (\<lambda>u.
     bindC (socks5Handshake (Some cfg)) (\<lambda>route.
     bindC readSOCKS5Request (\<lambda>target.
     bindC (armDeadline (validateTimeout cfg)) (\<lambda>u. returnC (route, target)))))"

definition handleConnection ::
    "readResponse \<Rightarrow> Config \<Rightarrow> (nat \<Rightarrow> Attempt) \<Rightarrow> bool \<Rightarrow> World \<Rightarrow> Run" where
  "handleConnection ReadResponse cfg env direct w =
     closeClient
       (case onClient (inbound cfg) w of
          (Inl e, w1) \<Rightarrow> finished w1 Unanswered
        | (Inr (route, target), w1) \<Rightarrow>
            if isBypassTarget target then (case socks5Direct direct w1 of (o1, w2) \<Rightarrow> finished w2 o1)
            else retryLoop cfg env route (\<lambda>e. replySOCKS 1) (socksAttempt ReadResponse cfg route target)
                   (replySOCKS 1) (retries cfg) 0 [] w1)"

section \<open>Routes and invariants\<close>

lemma lower_normal: "list_all isASCIILower r \<Longrightarrow> normalizeRegion_sel r = r"
proof -
  assume l: "list_all isASCIILower r"
  then have "\<forall>c\<in>set r. graphic c" by (auto simp: list_all_iff graphic_def isASCIILower_def)
  then have "TrimSpace r = r" using TrimSpace_graphic trim_empty by (cases "r = []") auto
  moreover have "ToLower r = r"
    using l by (auto simp: ToLower_def list_all_iff toLowerChar_def isASCIIUpper_def isASCIILower_def intro!: map_idI)
  ultimately show ?thesis by (simp add: normalizeRegion_sel_def)
qed

lemma parsed_region_normal:
  assumes "ParseUsername name = Inr route"
  shows "normalizeRegion_sel (uRegion route) = uRegion route"
proof -
  from ParseUsername_wellSegmented [OF assms] obtain rv where "regionSegment rv (uRegion route)"
    by (auto simp: wellSegmented_def)
  then have "list_all isASCIILower (uRegion route)" by (auto dest: regionSegment_shape)
  then show ?thesis by (rule lower_normal)
qed

definition regionLetters :: "string \<Rightarrow> bool" where
  "regionLetters s \<longleftrightarrow> list_all (\<lambda>c. isASCIIUpper c \<or> isASCIILower c) s"

lemma letters_lower:
  assumes "regionLetters s"
  shows "list_all isASCIILower (ToLower (TrimSpace s))"
proof -
  have "\<forall>c\<in>set s. graphic c"
    using assms by (auto simp: regionLetters_def list_all_iff graphic_def isASCIILower_def isASCIIUpper_def)
  then have "TrimSpace s = s" using TrimSpace_graphic trim_empty by (cases "s = []") auto
  then show ?thesis
    using assms by (auto simp: regionLetters_def ToLower_def list_all_iff toLowerChar_def isASCIILower_def isASCIIUpper_def)
qed

lemma withDefaultRegion_normal:
  "normalizeRegion_sel (uRegion route) = uRegion route \<Longrightarrow> regionLetters dr \<Longrightarrow>
   normalizeRegion_sel (uRegion (withDefaultRegion route dr)) = uRegion (withDefaultRegion route dr)"
  by (simp add: withDefaultRegion_def letters_lower lower_normal)

definition world_inv :: "World \<Rightarrow> bool" where
  "world_inv w \<longleftrightarrow> db_inv (wDB w) \<and> (\<forall>s. wSessions w = Some s \<longrightarrow> affinity_inv s)"

text \<open>
  What is assumed of the world: other requests and background jobs keep the invariants of the tables
  and of the session store, and the random choice is in range.
\<close>

definition fairEnv :: "(nat \<Rightarrow> Attempt) \<Rightarrow> bool" where
  "fairEnv env \<longleftrightarrow>
     (\<forall>k w. world_inv w \<longrightarrow> world_inv (atOther (env k) w)) \<and> (\<forall>k n. 0 < n \<longrightarrow> atRnd (env k) n < n)"

lemma pinnedSection_inv: "affinity_inv s \<Longrightarrow> affinity_inv (snd (pinnedSection cfg route p s))"
  using pinnedSection_effect [of s cfg route p] by (auto simp: bound_def quiet_def split: if_splits)

lemma firstBindSection_inv: "affinity_inv s \<Longrightarrow> affinity_inv (snd (firstBindSection store cfg route ex s))"
  using firstBindSection_effect [of s store cfg route ex] by (auto simp: bound_def quiet_def split: option.splits)

lemma Resolve_affinity_inv:
  assumes "\<And>s. sessions = Some s \<Longrightarrow> affinity_inv s" "snd (Resolve rnd store cfg sessions route ex) = Some t"
  shows "affinity_inv t"
proof (cases sessions)
  case None
  have "snd (pickForSession store None region session ex m c unlock) = None" for region session m c unlock
    by (auto simp: pickForSession_def occupancyStage_def cooldownStage_def Let_def split: sum.splits)
  then show ?thesis
    using assms(2) None by (auto simp: Resolve_def stickyBoundProxy_def split: sum.splits if_splits)
next
  case (Some s)
  then have inv: "affinity_inv s" using assms(1) by blast
  obtain r where st: "stickyBoundProxy store (Some s) route ex = (r, Some (snd (Get (uSession route) s)))"
    using stickyBoundProxy_store [of store s route ex] by (metis prod.collapse)
  have g: "affinity_inv (snd (Get (uSession route) s))" using quiet_get [OF inv] by (simp add: quiet_def)
  show ?thesis
    using assms(2) inv g pinnedSection_inv firstBindSection_inv [OF g]
    by (auto simp: Resolve_def Some st split: sum.splits if_splits option.splits)
qed

lemma selectProxy_inv:
  assumes "world_inv w" "selectProxy cfg att route tried w = (r, w1)"
  shows "world_inv w1"
  using assms Resolve_affinity_inv [where sessions = "wSessions w"]
  by (auto simp: selectProxy_def world_inv_def split: prod.splits) (metis snd_conv)+

lemma selectProxy_fresh:
  assumes "world_inv w" "\<And>n. 0 < n \<Longrightarrow> atRnd att n < n" "normalizeRegion_sel (uRegion route) = uRegion route"
    "regionLetters (cfgDefaultRegion cfg)" "selectProxy cfg att route tried w = (Inr p, w1)"
  shows "admissible (storedNodes (wDB w)) (noPausedParent (wDB w)) (withDefaultRegion route (cfgDefaultRegion cfg)) tried p"
proof -
  have "fst (Resolve (atRnd att) (storageNodes (atFaults att) (wDB w)) (Some cfg) (wSessions w)
      (withDefaultRegion route (cfgDefaultRegion cfg)) tried) = Inr p"
    using assms(5) by (auto simp: selectProxy_def split: prod.splits)
  then show ?thesis
    using sql.Resolve_admissible [of "(atFaults att, wDB w)" "wSessions w" "withDefaultRegion route (cfgDefaultRegion cfg)"
        "atRnd att" "Some cfg" tried p] assms(1,2) withDefaultRegion_normal [OF assms(3,4)] by (simp add: world_inv_def)
qed

lemma recordProxyFailure_inv: "world_inv w \<Longrightarrow> world_inv (recordProxyFailure p w)"
  by (simp add: world_inv_def recordProxyFailure_def db_inv_forwardFailure)

lemma recordProxySuccess_inv: "world_inv w \<Longrightarrow> world_inv (recordProxySuccess p w)"
proof -
  have "snd (runRouteOp (OpRecordForwardSuccess i) d) = snd (RecordForwardSuccess i d)" for i d
    by (cases "RecordForwardSuccess i d"; cases "fst (RecordForwardSuccess i d)")
      (auto simp: dropResult_def bindOp_def returnOp_def)
  then have "db_inv d \<Longrightarrow> db_inv (snd (RecordForwardSuccess i d))" for i d
    using runRouteOp_inv [of "OpRecordForwardSuccess i"] by (simp add: keepsInv_def)
  then show "world_inv w \<Longrightarrow> world_inv (recordProxySuccess p w)"
    by (simp add: world_inv_def recordProxySuccess_def)
qed

lemma releaseFailedBinding_inv: "world_inv w \<Longrightarrow> world_inv (releaseFailedBinding route p w)"
  by (auto simp: world_inv_def releaseFailedBinding_def RemoveIfProxyID_inv split: option.splits)

lemma afterRelay_inv: "world_inv w \<Longrightarrow> world_inv (afterRelay route p relay w)"
  by (cases relay) (simp add: afterRelay_def Let_def recordProxySuccess_inv releaseFailedBinding_inv)

lemma onClient_inv: "onClient m w = (r, w1) \<Longrightarrow> world_inv w1 \<longleftrightarrow> world_inv w"
  by (auto simp: onClient_def world_inv_def split: prod.splits)

lemmas step_inv_rules = recordProxyFailure_inv recordProxySuccess_inv releaseFailedBinding_inv afterRelay_inv

section \<open>The contract of an attempt\<close>

text \<open>
  What the retry loop needs of a handler: giving up and every attempt keep the invariants, and an
  attempt that goes on to the next node has released the session from the node that failed.
\<close>

definition unboundFrom :: "ParsedUsername \<Rightarrow> Proxy \<Rightarrow> World \<Rightarrow> bool" where
  "unboundFrom route p w \<longleftrightarrow>
     (\<forall>s. uSession route \<noteq> [] \<longrightarrow> wSessions w = Some s \<longrightarrow> uSession route \<notin> liveOn s (pID p))"

lemma release_unbound: "unboundFrom route p (releaseFailedBinding route p w)"
  by (auto simp: unboundFrom_def releaseFailedBinding_def liveOn_def RemoveIfProxyID_live split: option.splits if_splits)

text \<open>
  Every node of a run was admissible for its route when it was selected: it is a stored node of the tables
  the selection read, online, of the region asked for or else of the default region, with the services asked for, no
  paused parent, and not one of the nodes tried before.
\<close>

fun selectedFrom :: "Config \<Rightarrow> ParsedUsername \<Rightarrow> int list \<Rightarrow> (DB \<times> Proxy) list \<Rightarrow> bool" where
  "selectedFrom cfg route tried [] = True"
| "selectedFrom cfg route tried ((d, p) # rest) \<longleftrightarrow>
     admissible (storedNodes d) (noPausedParent d) (withDefaultRegion route (cfgDefaultRegion cfg)) tried p \<and>
     selectedFrom cfg route (tried @ [pID p]) rest"

definition admissibleRun :: "Config \<Rightarrow> ParsedUsername \<Rightarrow> Run \<Rightarrow> bool" where
  "admissibleRun cfg route run \<longleftrightarrow>
     rnTried run = map (pID \<circ> snd) (rnSelected run) \<and> selectedFrom cfg route [] (rnSelected run) \<and>
     distinct (rnTried run) \<and> length (rnTried run) \<le> retries cfg"

lemma finished_admissible [simp]: "admissibleRun cfg route (finished w o1)"
  by (simp add: admissibleRun_def finished_def)

locale attempt_contract =
  fixes route :: ParsedUsername
    and noNode :: "select_error \<Rightarrow> World \<Rightarrow> outcome \<times> World"
    and attempt :: "Attempt \<Rightarrow> Proxy \<Rightarrow> World \<Rightarrow> outcome option \<times> World"
    and allFailed :: "World \<Rightarrow> outcome \<times> World"
  assumes noNode_inv: "world_inv w \<Longrightarrow> world_inv (snd (noNode e w))"
    and try_inv: "world_inv w \<Longrightarrow> world_inv (snd (attempt att p w))"
    and try_releases: "fst (attempt att p w) = None \<Longrightarrow> unboundFrom route p (snd (attempt att p w))"
    and allFailed_inv: "world_inv w \<Longrightarrow> world_inv (snd (allFailed w))"
begin

lemma loop_inv:
  assumes "world_inv w" "fairEnv env"
  shows "world_inv (rnWorld (retryLoop cfg env route noNode attempt allFailed n k tried w))"
  using assms(1)
proof (induction n arbitrary: k tried w)
  case 0
  then show ?case using allFailed_inv [of w] by (cases "allFailed w") simp
next
  case (Suc n)
  have "world_inv (atOther (env k) w)" using Suc.prems assms(2) by (simp add: fairEnv_def)
  then have s: "world_inv w1" if "selectProxy cfg (env k) route tried (atOther (env k) w) = (r, w1)" for r w1
    using selectProxy_inv that by blast
  then have "world_inv w2" if "selectProxy cfg (env k) route tried (atOther (env k) w) = (Inr p, w1)"
      "attempt (env k) p w1 = (r, w2)" for p w1 r w2
    using try_inv that by (metis snd_conv)
  moreover have "world_inv w2" if "selectProxy cfg (env k) route tried (atOther (env k) w) = (Inl e, w1)"
      "noNode e w1 = (o1, w2)" for e w1 o1 w2
    using s noNode_inv that by (metis snd_conv)
  ultimately show ?case
    using Suc.IH by (auto simp: Let_def split: prod.splits sum.splits option.splits)
qed

lemma loop_admissible:
  assumes "world_inv w" "fairEnv env" "normalizeRegion_sel (uRegion route) = uRegion route"
    "regionLetters (cfgDefaultRegion cfg)" "distinct tried"
  shows "selectedFrom cfg route tried (rnSelected (retryLoop cfg env route noNode attempt allFailed n k tried w)) \<and>
    rnTried (retryLoop cfg env route noNode attempt allFailed n k tried w) =
      tried @ map (pID \<circ> snd) (rnSelected (retryLoop cfg env route noNode attempt allFailed n k tried w)) \<and>
    distinct (rnTried (retryLoop cfg env route noNode attempt allFailed n k tried w)) \<and>
    length (rnTried (retryLoop cfg env route noNode attempt allFailed n k tried w)) \<le> length tried + n"
  using assms(1,5)
proof (induction n arbitrary: k tried w)
  case 0
  then show ?case by (simp split: prod.split)
next
  case (Suc n)
  have i: "world_inv (atOther (env k) w)" using Suc.prems(1) assms(2) by (simp add: fairEnv_def)
  obtain r w1 where sel: "selectProxy cfg (env k) route tried (atOther (env k) w) = (r, w1)" by fastforce
  show ?case
  proof (cases r)
    case (Inl e)
    then show ?thesis using sel Suc.prems by (simp split: prod.split)
  next
    case (Inr p)
    have a: "admissible (storedNodes (wDB (atOther (env k) w))) (noPausedParent (wDB (atOther (env k) w)))
        (withDefaultRegion route (cfgDefaultRegion cfg)) tried p"
      using selectProxy_fresh [OF i _ assms(3,4), of "env k" tried p w1] sel Inr assms(2) by (simp add: fairEnv_def)
    then have d: "distinct (tried @ [pID p])" using Suc.prems(2) by (simp add: admissible_def)
    obtain o2 w2 where t: "attempt (env k) p w1 = (o2, w2)" by fastforce
    have "world_inv w2" using selectProxy_inv [OF i sel] try_inv t by (metis snd_conv)
    note ih = Suc.IH [OF this d, of "Suc k"]
    show ?thesis
    proof (cases o2)
      case None
      then show ?thesis using ih a sel Inr t by (elim conjE) (simp add: Let_def)
    next
      case (Some o1)
      then show ?thesis using sel Inr t d a by simp
    qed
  qed
qed

lemma loop_run:
  assumes "world_inv w" "fairEnv env" "normalizeRegion_sel (uRegion route) = uRegion route"
    "regionLetters (cfgDefaultRegion cfg)"
  shows "admissibleRun cfg route (retryLoop cfg env route noNode attempt allFailed (retries cfg) k [] w)"
  using loop_admissible [OF assms, of "[]" "retries cfg" k] distinct.simps(1)
  unfolding admissibleRun_def append_Nil list.size(3) add_0 by blast

end

lemma relayHTTPConnect_inv: "world_inv w \<Longrightarrow> world_inv (snd (relayHTTPConnect hj relay selected route w))"
  by (simp add: relayHTTPConnect_def step_inv_rules split: hijack.split option.split)

interpretation tunnel: attempt_contract route "serviceUnavailable route" "tunnelAttempt ReadResponse cfg route host"
  allProxiesFailed for route ReadResponse cfg host
proof
  fix w e att p
  show "world_inv w \<Longrightarrow> world_inv (snd (serviceUnavailable route e w))" by (simp add: serviceUnavailable_def)
  show "world_inv w \<Longrightarrow> world_inv (snd (allProxiesFailed w))" by (simp add: allProxiesFailed_def)
  show "world_inv w \<Longrightarrow> world_inv (snd (tunnelAttempt ReadResponse cfg route host att p w))"
    by (auto simp: tunnelAttempt_def Let_def step_inv_rules relayHTTPConnect_inv split: prod.split sum.split)
  show "fst (tunnelAttempt ReadResponse cfg route host att p w) = None \<Longrightarrow>
      unboundFrom route p (snd (tunnelAttempt ReadResponse cfg route host att p w))"
    by (auto simp: tunnelAttempt_def Let_def release_unbound split: prod.splits sum.splits)
qed

lemma failAttempt_inv: "world_inv w \<Longrightarrow> world_inv (snd (failAttempt replayable route p w))"
  by (simp add: failAttempt_def Let_def step_inv_rules)

interpretation http: attempt_contract route "serviceUnavailable route" "httpAttempt replayable route"
  allProxiesFailed for route replayable
proof
  fix w e att p
  show "world_inv w \<Longrightarrow> world_inv (snd (serviceUnavailable route e w))" by (simp add: serviceUnavailable_def)
  show "world_inv w \<Longrightarrow> world_inv (snd (allProxiesFailed w))" by (simp add: allProxiesFailed_def)
  show "world_inv w \<Longrightarrow> world_inv (snd (httpAttempt replayable route att p w))"
    by (auto simp: httpAttempt_def Let_def failAttempt_inv step_inv_rules split: do_result.split option.split)
  show "fst (httpAttempt replayable route att p w) = None \<Longrightarrow>
      unboundFrom route p (snd (httpAttempt replayable route att p w))"
    by (auto simp: httpAttempt_def failAttempt_def Let_def release_unbound
        split: do_result.splits option.splits if_splits prod.splits)
qed

interpretation socks: attempt_contract route "\<lambda>e. replySOCKS 1" "socksAttempt ReadResponse cfg route target"
  "replySOCKS 1" for route ReadResponse cfg target
proof
  have r: "world_inv (snd (replySOCKS n w)) = world_inv w" for n w
    by (cases "onClient (sendSOCKS5Reply n) w") (simp add: replySOCKS_def onClient_inv)
  fix w e att p
  show "world_inv w \<Longrightarrow> world_inv (snd (replySOCKS 1 w))" by (simp add: r)
  show "world_inv w \<Longrightarrow> world_inv (snd (replySOCKS 1 w))" by (simp add: r)
  show "world_inv w \<Longrightarrow> world_inv (snd (socksAttempt ReadResponse cfg route target att p w))"
    by (auto simp: socksAttempt_def step_inv_rules onClient_inv split: prod.split sum.split)
  show "fst (socksAttempt ReadResponse cfg route target att p w) = None \<Longrightarrow>
      unboundFrom route p (snd (socksAttempt ReadResponse cfg route target att p w))"
    by (auto simp: socksAttempt_def release_unbound split: prod.splits sum.splits if_splits)
qed

section \<open>Properties\<close>

lemma tunnelDirect_tried [simp]: "rnTried (tunnelDirect direct hj relay w) = []"
  by (simp add: tunnelDirect_def finished_def split: prod.split)

lemma tunnelDirect_world [simp]: "rnWorld (tunnelDirect direct hj relay w) = w"
  by (simp add: tunnelDirect_def finished_def relayHTTPConnect_def split: prod.split hijack.split)

lemma tunnelDirect_admissible [simp]: "admissibleRun cfg route (tunnelDirect direct hj relay w)"
  by (simp add: tunnelDirect_def split: prod.split)

lemma handleTunnel_admissible:
  assumes "world_inv w" "fairEnv env" "normalizeRegion_sel (uRegion route) = uRegion route" "regionLetters (cfgDefaultRegion cfg)"
  shows "admissibleRun cfg route (handleTunnel ReadResponse cfg env direct hj relay route host w)"
  using tunnel.loop_run [OF assms] by (simp add: handleTunnel_def)

lemma handleHTTP_admissible:
  assumes "world_inv w" "fairEnv env" "normalizeRegion_sel (uRegion route) = uRegion route" "regionLetters (cfgDefaultRegion cfg)"
  shows "admissibleRun cfg route (handleHTTP cfg env requestOK direct route r w)"
  using http.loop_run [OF assms] by (simp add: handleHTTP_def split: option.split)

lemma emptyRoute_normal: "normalizeRegion_sel (uRegion emptyRoute) = uRegion emptyRoute"
  using lower_normal [of "[]"] by (simp add: emptyRoute_def)

lemma checkAuth_normal:
  "checkAuthWithConfig h (Some cfg) = (route, True) \<Longrightarrow> normalizeRegion_sel (uRegion route) = uRegion route"
  using parsed_region_normal by (auto simp: checkAuth_iff authenticated_def)

lemma handshake_normal:
  assumes "socks5Handshake (Some cfg) c = (Inr route, c')"
  shows "normalizeRegion_sel (uRegion route) = uRegion route"
proof -
  have "route = emptyRoute \<or> (\<exists>user. ParseUsername user = Inr route)"
    using assms
    by (auto simp: socks5Handshake_def socks5AuthWithConfig_def bindC_Inr selectMethod_def Let_def split: if_splits)
  then show ?thesis using parsed_region_normal emptyRoute_normal by blast
qed

lemma inbound_Inr:
  assumes "inbound cfg c = (Inr (route, target), c')"
  obtains c0 c1 where "armDeadline (validateTimeout cfg) c = (Inr (), c0)" "socks5Handshake (Some cfg) c0 = (Inr route, c1)"
  using assms by (auto simp: inbound_def bindC_Inr)

lemma closeClient_frame [simp]: "rnTried (closeClient run) = rnTried run" "rnOutcome (closeClient run) = rnOutcome run"
  "world_inv (rnWorld (closeClient run)) = world_inv (rnWorld run)" "rnSelected (closeClient run) = rnSelected run"
  by (simp_all add: closeClient_def world_inv_def)

lemma closeClient_admissible [simp]: "admissibleRun cfg route (closeClient run) = admissibleRun cfg route run"
  by (simp add: admissibleRun_def)

lemma socks5Direct_inv: "world_inv (snd (socks5Direct direct w)) = world_inv w"
  by (cases "onClient (sendSOCKS5Reply 0) w"; cases "onClient (sendSOCKS5Reply 1) w")
    (auto simp: socks5Direct_def replySOCKS_def onClient_inv split: sum.split)

text \<open>The route a request on the HTTP port is served with.\<close>

definition requestRoute :: "Config \<Rightarrow> Request \<Rightarrow> ParsedUsername" where
  "requestRoute cfg r = (if cfgProxyAuthEnabled cfg then fst (checkAuthWithConfig (rqHeader r) (Some cfg)) else emptyRoute)"

lemma ServeHTTP_admissible:
  assumes "world_inv w" "fairEnv env" "regionLetters (cfgDefaultRegion cfg)"
  shows "admissibleRun cfg (requestRoute cfg r) (ServeHTTP ReadResponse cfg env direct hj relay res r w) \<and>
    world_inv (rnWorld (ServeHTTP ReadResponse cfg env direct hj relay res r w))"
proof -
  let ?run = "ServeHTTP ReadResponse cfg env direct hj relay res r w"
  define au where "au = (if cfgProxyAuthEnabled cfg then checkAuthWithConfig (rqHeader r) (Some cfg) else (emptyRoute, True))"
  have n: "normalizeRegion_sel (uRegion (fst au)) = uRegion (fst au)" if "snd au"
    using checkAuth_normal [of "rqHeader r" cfg "fst au"] emptyRoute_normal that
    by (cases au) (auto simp: au_def split: if_splits)
  have rt: "requestRoute cfg r = fst au" by (simp add: requestRoute_def au_def)
  have run: "?run = (if \<not> snd au then finished w AuthRequired
      else if rqMethod r = ''CONNECT'' then handleTunnel ReadResponse cfg env direct hj relay (fst au) (rqHost r) w
      else handleHTTP cfg env direct res (fst au) r w)" by (simp add: ServeHTTP_def au_def Let_def)
  have "admissibleRun cfg (fst au) ?run"
    using handleTunnel_admissible [OF assms(1,2) n assms(3)] handleHTTP_admissible [OF assms(1,2) n assms(3)]
    by (auto simp: run)
  moreover have "world_inv (rnWorld ?run)"
    using assms(1) tunnel.loop_inv [OF assms(1,2)] http.loop_inv [OF assms(1,2)]
    by (auto simp: run handleTunnel_def handleHTTP_def finished_def split: option.split)
  ultimately show ?thesis by (simp add: rt)
qed

text \<open>The route of a SOCKS5 connection, once the inbound protocol has given one.\<close>

definition connectionRoute :: "Config \<Rightarrow> Conn \<Rightarrow> ParsedUsername" where
  "connectionRoute cfg c = (case fst (inbound cfg c) of Inl e \<Rightarrow> emptyRoute | Inr (route, target) \<Rightarrow> route)"

lemma handleConnection_admissible:
  assumes "world_inv w" "fairEnv env" "regionLetters (cfgDefaultRegion cfg)"
  shows "admissibleRun cfg (connectionRoute cfg (wConn w)) (handleConnection ReadResponse cfg env direct w) \<and>
    world_inv (rnWorld (handleConnection ReadResponse cfg env direct w))"
proof (cases "onClient (inbound cfg) w")
  case (Pair ir w1)
  then have i: "world_inv w1" using onClient_inv assms(1) by blast
  obtain c' where c: "inbound cfg (wConn w) = (ir, c')" using Pair by (auto simp: onClient_def split: prod.splits)
  show ?thesis
  proof (cases ir)
    case (Inl e)
    then show ?thesis using Pair i by (simp add: handleConnection_def) (simp add: finished_def)
  next
    case (Inr rt)
    obtain route target where rt: "rt = (route, target)" by fastforce
    have nr: "normalizeRegion_sel (uRegion route) = uRegion route" using c Inr rt inbound_Inr handshake_normal by metis
    have cr: "connectionRoute cfg (wConn w) = route" using c Inr rt by (simp add: connectionRoute_def)
    show ?thesis
      using socks.loop_run [OF i assms(2) nr assms(3)] socks.loop_inv [OF i assms(2)] socks5Direct_inv [of direct w1] i
      by (cases "socks5Direct direct w1")
        (simp add: handleConnection_def Pair Inr rt cr finished_def [THEN arg_cong [of _ _ rnWorld]])
  qed
qed

text \<open>
  C28: what a request may do to the nodes. Whatever other requests and background jobs that keep the tables and the
  session store consistent do between its attempts, and for a default region of letters (or none), a request on either
  port tries at most \<open>MaxRetry + 1\<close> nodes and never the same node twice; each of them was, in the tables its selection
  read, a stored node, online and without a paused parent, of the region and the services its route asks for (the
  default region where the route names none) and none of the nodes tried before; and the tables and the session store
  are left consistent.
\<close>

theorem request_tries_each_node_once:
  assumes "world_inv w" "fairEnv env" "regionLetters (cfgDefaultRegion cfg)"
  shows "(\<lambda>run. rnTried run = map (pID \<circ> snd) (rnSelected run) \<and> distinct (rnTried run) \<and>
      int (length (rnTried run)) \<le> max 0 (cfgMaxRetry cfg + 1) \<and>
      selectedFrom cfg (requestRoute cfg r) [] (rnSelected run) \<and> world_inv (rnWorld run))
     (ServeHTTP ReadResponse cfg env direct hj relay res r w) \<and>
    (\<lambda>run. rnTried run = map (pID \<circ> snd) (rnSelected run) \<and> distinct (rnTried run) \<and>
      int (length (rnTried run)) \<le> max 0 (cfgMaxRetry cfg + 1) \<and>
      selectedFrom cfg (connectionRoute cfg (wConn w)) [] (rnSelected run) \<and> world_inv (rnWorld run))
     (handleConnection ReadResponse cfg env direct w)"
proof -
  have m: "int n \<le> max 0 (cfgMaxRetry cfg + 1)" if "n \<le> retries cfg" for n using that by (auto simp: retries_def)
  show ?thesis
    using ServeHTTP_admissible [OF assms] handleConnection_admissible [OF assms] m
    unfolding admissibleRun_def by blast
qed

definition idleAttempt :: Attempt where
  "idleAttempt = \<lparr>atOther = id, atRnd = (\<lambda>n. 0), atFaults = (\<lambda>k. []), atDial = (\<lambda>a. None), atHijack = Confirmed,
     atRelay = (startRelay, zeroResult), atProxyURL = True, atRequest = True, atDo = DoError,
     atCanceledDo = False, atCanceledRead = False, atCanceledEnd = False\<rparr>"

definition sampleWorld :: World where
  "sampleWorld = \<lparr>wDB = sampleDB, wSessions = None, wConn = quietConn []\<rparr>"

lemma sampleWorld_inv: "world_inv sampleWorld"
  using db_reachable_inv [OF sampleDB_reachable] by (simp add: world_inv_def sampleWorld_def)

lemma idle_fair: "fairEnv (\<lambda>k. idleAttempt)"
  by (simp add: fairEnv_def idleAttempt_def)

text \<open>
  A client that may enter: Basic credentials on the HTTP port, and a greeting, the credentials and a request
  on the SOCKS5 port, for the one node of the sample tables, which cannot be reached.
\<close>

definition closedConfig :: Config where
  "closedConfig = sampleConfig\<lparr>cfgProxyAuthEnabled := True, cfgProxyAuthUsername := ''u'', cfgProxyAuthPassword := ''p'',
     cfgProxyAuthPasswordHash := [], cfgMaxRetry := 0, cfgDefaultRegion := []\<rparr>"

definition clientRoute :: ParsedUsername where
  "clientRoute = \<lparr>uBase = ''u'', uRegion = [], uSession = [], uUnlock = [], uNode = []\<rparr>"

definition clientRequest :: Request where
  "clientRequest = \<lparr>rqURL = None, rqHost = ''a.example:443'', rqMethod = ''CONNECT'', rqHeader = basicHeader ''u'' ''p'', rqBody = None\<rparr>"

definition clientWorld :: World where
  "clientWorld = sampleWorld\<lparr>wConn := quietConn (greeting [octet 2] @ credentials ''u'' ''p'' @ connectRequest ''a.example'' 443)\<rparr>"

lemma clientWorld_inv: "world_inv clientWorld"
  using sampleWorld_inv by (simp add: clientWorld_def world_inv_def)

lemma client_authenticated: "authenticated closedConfig ''u'' ''p'' clientRoute"
  by (simp add: authenticated_def clientRoute_def dsl_eval closedConfig_def VerifyPassword_def VerifyPlainPassword_def ConstantTimeCompare_def)

lemma closedConfig_facts [simp]: "cfgProxyAuthEnabled closedConfig" "retries closedConfig = Suc 0" "cfgDefaultRegion closedConfig = []"
  by (simp_all add: closedConfig_def retries_def)

lemma client_select: "selectProxy closedConfig idleAttempt clientRoute [] w = (Inr sampleNode, w)"
  if "wDB w = sampleDB" "wSessions w = None" for w
proof -
  have "lowestLatency [sampleNode] = [sampleNode]" by (simp add: lowestLatency_def)
  then have "Resolve (\<lambda>n. 0) sampleStore (Some closedConfig) None clientRoute [] = (Inr sampleNode, None)"
    using sampleStore_region lower_normal [of "[]"]
    by (simp add: Resolve_def PickUnlock_def Let_def filterByUnlock_def availableProxies_def
        proxyAvailable_def pickLowestLatency_def clientRoute_def)
  then show ?thesis using that
    by (cases w) (simp add: selectProxy_def withDefaultRegion_def idleAttempt_def sampleStore_def)
qed

lemma client_target: "JoinHostPort ''a.example'' (natDigits 443) = ''a.example:443''"
  by code_simp

lemma client_target_ok: "validateConnectTarget ''a.example:443'' = None" "\<not> isBypassTarget ''a.example:443''"
proof -
  have s: "SplitHostPort ''a.example:443'' = Some (''a.example'', natDigits 443)"
    using nameable_split [OF nameable_example, of 443] by (simp add: client_target)
  have lower: "ToLower (TrimSuffix ''a.example'' ''.'') = ''a.example''" "\<not> HasSuffix ''a.example'' ''.localhost''"
    "\<not> HasSuffix ''a.example'' ''.local''" by code_simp+
  show "validateConnectTarget ''a.example:443'' = None"
    using nameable_target [OF nameable_example, of 443] by (simp add: client_target)
  show "\<not> isBypassTarget ''a.example:443''"
    using example_name TrimSpace_graphic [of "''a.example:443''"] lower
    by (simp add: isBypassTarget_def hostOnly_def s Let_def graphic_def)
qed

lemma client_http_tried:
  "rnTried (ServeHTTP (\<lambda>bs. None) closedConfig (\<lambda>k. idleAttempt) True Confirmed (startRelay, zeroResult) DoError clientRequest
     clientWorld) = [1]"
proof -
  have "checkAuthWithConfig (basicHeader ''u'' ''p'') (Some closedConfig) = (clientRoute, True)"
    using checkAuth_basicHeader [of "''u''"] client_authenticated by simp
  moreover have "fst (tunnelAttempt (\<lambda>bs. None) closedConfig clientRoute ''a.example:443'' idleAttempt sampleNode w) = None" for w
    by (auto simp: tunnelAttempt_def idleAttempt_def dialViaProxy_def onConn_def Let_def split: option.split)
  ultimately show ?thesis using client_select [of clientWorld] client_target_ok
    by (auto simp: ServeHTTP_def handleTunnel_def clientRequest_def clientWorld_def sampleWorld_def idleAttempt_def Let_def
        split: prod.split option.split)
qed

lemma client_inbound:
  "\<exists>c'. inbound closedConfig (wConn clientWorld) = (Inr (clientRoute, ''a.example:443''), c')"
proof -
  let ?c = "wConn clientWorld" and ?q = "connectRequest ''a.example'' 443"
  have f: "deadlineFaults ?c = []" "writeFaults ?c = []" "rx ?c = greeting [octet 2] @ credentials ''u'' ''p'' @ ?q"
    by (simp_all add: clientWorld_def)
  let ?d = "?c\<lparr>rx := ?q, tx := tx ?c @ [octet 5, octet 2, octet 1, octet 0]\<rparr>"
  have h: "socks5Handshake (Some closedConfig) ?c = (Inr clientRoute, ?d)"
    by (subst socks5_handshake_iff, simp, rule f(2), rule exI [of _ "[octet 2]"], rule exI [of _ "''u''"],
        rule exI [of _ "''p''"]) (use client_authenticated f(3) in simp)
  have "readSOCKS5Request ?d = (Inr ''a.example:443'', ?d\<lparr>rx := []\<rparr>)"
    using read_connectRequest [OF nameable_example, of 443 ?d "[]"] client_target by simp
  then show ?thesis using f(1) h by (simp add: inbound_def bindC_def returnC_def)
qed

lemma client_socks_tried: "rnTried (handleConnection (\<lambda>bs. None) closedConfig (\<lambda>k. idleAttempt) True clientWorld) = [1]"
proof -
  obtain c' where c: "onClient (inbound closedConfig) clientWorld = (Inr (clientRoute, ''a.example:443''), clientWorld\<lparr>wConn := c'\<rparr>)"
    using client_inbound by (auto simp: onClient_def)
  have "fst (socksAttempt (\<lambda>bs. None) closedConfig clientRoute ''a.example:443'' idleAttempt sampleNode w) = None" for w
    by (auto simp: socksAttempt_def idleAttempt_def dialViaProxy_socks_def onConn_def split: option.split)
  moreover have "atOther idleAttempt = id" by (simp add: idleAttempt_def)
  ultimately show ?thesis using client_select [of "clientWorld\<lparr>wConn := c'\<rparr>"] client_target_ok c
    by (auto simp: handleConnection_def clientWorld_def sampleWorld_def Let_def split: prod.split option.split)
qed

theorem request_tries_each_node_once_witness:
  "(\<lambda>run. rnTried run = [1] \<and>
      (\<exists>d p. rnSelected run = [(d, p)] \<and> admissible (storedNodes d) (noPausedParent d) clientRoute [] p))
   (ServeHTTP (\<lambda>bs. None) closedConfig (\<lambda>k. idleAttempt) True Confirmed (startRelay, zeroResult) DoError clientRequest clientWorld)"
proof -
  let ?run = "ServeHTTP (\<lambda>bs. None) closedConfig (\<lambda>k. idleAttempt) True Confirmed (startRelay, zeroResult) DoError
      clientRequest clientWorld"
  have r: "requestRoute closedConfig clientRequest = clientRoute"
    using checkAuth_basicHeader [of "''u''" "''p''" closedConfig clientRoute] client_authenticated
    by (simp add: requestRoute_def clientRequest_def)
  have "[1] = map (pID \<circ> snd) (rnSelected ?run) \<and> selectedFrom closedConfig clientRoute [] (rnSelected ?run)"
    using request_tries_each_node_once [OF clientWorld_inv idle_fair, of closedConfig "\<lambda>bs. None" True Confirmed
        "(startRelay, zeroResult)" DoError clientRequest] client_http_tried r
    by (simp add: regionLetters_def)
  then show ?thesis
    using client_http_tried by (cases "rnSelected ?run") (auto simp: withDefaultRegion_def)
qed

lemma loop_single:
  assumes "\<And>att p w. fst (attempt att p w) \<noteq> None"
  shows "length (rnTried (retryLoop cfg env route noNode attempt allFailed n k tried w)) \<le> Suc (length tried)"
proof (cases n)
  case 0
  then show ?thesis by (simp split: prod.split)
next
  case (Suc m)
  obtain r w1 where "selectProxy cfg (env k) route tried (atOther (env k) w) = (r, w1)" by fastforce
  moreover have "attempt (env k) p w1 \<noteq> (None, w2)" for p w2 using assms [of "env k" p w1] by auto
  ultimately show ?thesis using Suc by (auto split: sum.split prod.split option.split)
qed

lemma httpAttempt_once: "fst (httpAttempt False route att p w) \<noteq> None"
  by (auto simp: httpAttempt_def failAttempt_def Let_def split: do_result.split option.split)

text \<open>
  A body too large to keep is sent at most once. A request with more than 1 MiB of body is never
  tried on a second node, whatever the first one does.
\<close>

theorem large_body_sent_once:
  assumes "rqBody r = Some b" "maxReplayBodyBytes < length (bodyBytes b)"
  shows "length (rnTried (handleHTTP cfg env requestOK direct route r w)) \<le> 1"
proof -
  have "\<not> length (take (maxReplayBodyBytes + 1) (bodyBytes b)) \<le> maxReplayBodyBytes" using assms(2) by simp
  then obtain rb where "readReusableBody (Some b) = Some rb" "\<not> rbReplayable rb"
    by (auto simp: readReusableBody_def Let_def)
  then show ?thesis
    using loop_single [of "httpAttempt False route" cfg env route "serviceUnavailable route" allProxiesFailed "retries cfg" 0 "[]" w]
      httpAttempt_once assms(1)
    by (simp add: handleHTTP_def finished_def)
qed

definition largeRequest :: Request where
  "largeRequest = \<lparr>rqURL = Some (''http'', ''a.example''), rqHost = ''a.example'', rqMethod = ''POST'', rqHeader = Map.empty,
     rqBody = Some \<lparr>bodyBytes = replicate (Suc maxReplayBodyBytes) CHR ''x'', bodyFails = False\<rparr>\<rparr>"

theorem large_body_sent_once_witness:
  "length (rnTried (handleHTTP sampleConfig (\<lambda>k. idleAttempt) True DoError emptyRoute largeRequest sampleWorld)) \<le> 1"
  by (rule large_body_sent_once [of _ "\<lparr>bodyBytes = replicate (Suc maxReplayBodyBytes) CHR ''x'', bodyFails = False\<rparr>"])
    (simp_all add: largeRequest_def)

lemma httpDirect_keeps: "rnTried (finished w o1) = [] \<and> rnWorld (finished w o1) = w"
  by (simp add: finished_def)

text \<open>
  C23: nodes and state are only for authenticated clients. With authentication enabled, and whatever writes and deadline
  calls fail on the client's connection, a request that tries a node or changes the tables or the session store has
  presented, on the HTTP port, Basic credentials and, on the SOCKS5 port, a greeting that offers the user/password
  method and a user/password frame, whose user name parses and whose base and password are the configured ones.
\<close>

theorem node_use_needs_credentials:
  assumes "cfgProxyAuthEnabled cfg"
  shows "(rnTried (ServeHTTP ReadResponse cfg env direct hj relay res r w) \<noteq> [] \<or>
      rnWorld (ServeHTTP ReadResponse cfg env direct hj relay res r w) \<noteq> w \<longrightarrow>
     (\<exists>route encoded user password. headerGet (rqHeader r) ''Proxy-Authorization'' = basicPrefix @ encoded \<and>
        stdDecode encoded = Some (user @ '':'' @ password) \<and> authenticated cfg user password route)) \<and>
    (rnTried (handleConnection ReadResponse cfg env direct w) \<noteq> [] \<or>
      wDB (rnWorld (handleConnection ReadResponse cfg env direct w)) \<noteq> wDB w \<or>
      wSessions (rnWorld (handleConnection ReadResponse cfg env direct w)) \<noteq> wSessions w \<longrightarrow>
     (\<exists>route methods user password rest. rx (wConn w) = greeting methods @ credentials user password @ rest \<and>
        octet 2 \<in> set methods \<and> authenticated cfg user password route))"
proof (intro conjI impI)
  assume a: "rnTried (ServeHTTP ReadResponse cfg env direct hj relay res r w) \<noteq> [] \<or>
      rnWorld (ServeHTTP ReadResponse cfg env direct hj relay res r w) \<noteq> w"
  obtain route where "checkAuthWithConfig (rqHeader r) (Some cfg) = (route, True)"
    using a assms by (cases "checkAuthWithConfig (rqHeader r) (Some cfg)") (auto simp: ServeHTTP_def finished_def Let_def split: if_splits)
  then show "\<exists>route encoded user password. headerGet (rqHeader r) ''Proxy-Authorization'' = basicPrefix @ encoded \<and>
        stdDecode encoded = Some (user @ '':'' @ password) \<and> authenticated cfg user password route"
    unfolding checkAuth_iff by blast
next
  assume a: "rnTried (handleConnection ReadResponse cfg env direct w) \<noteq> [] \<or>
      wDB (rnWorld (handleConnection ReadResponse cfg env direct w)) \<noteq> wDB w \<or>
      wSessions (rnWorld (handleConnection ReadResponse cfg env direct w)) \<noteq> wSessions w"
  obtain ir c' where ib: "inbound cfg (wConn w) = (ir, c')" by fastforce
  have "\<exists>route target. ir = Inr (route, target)"
  proof (cases ir)
    case (Inl e)
    then show ?thesis using a ib by (simp add: handleConnection_def onClient_def finished_def closeClient_def)
  qed auto
  then obtain route target c0 c1 where c: "armDeadline (validateTimeout cfg) (wConn w) = (Inr (), c0)"
    "socks5Handshake (Some cfg) c0 = (Inr route, c1)" using ib inbound_Inr by metis
  from handshake_presented [OF assms c(2)] obtain methods user password rest where
    "rx c0 = greeting methods @ credentials user password @ rest" "octet 2 \<in> set methods" "authenticated cfg user password route"
    by blast
  with armDeadline_rx [OF c(1)]
  show "\<exists>route methods user password rest. rx (wConn w) = greeting methods @ credentials user password @ rest \<and>
        octet 2 \<in> set methods \<and> authenticated cfg user password route" by metis
qed

theorem node_use_needs_credentials_witness:
  "(\<lambda>cfg r w. cfgProxyAuthEnabled cfg \<and>
      rnTried (ServeHTTP (\<lambda>bs. None) cfg (\<lambda>k. idleAttempt) True Confirmed (startRelay, zeroResult) DoError r w) = [1] \<and>
      (\<exists>route encoded user password. headerGet (rqHeader r) ''Proxy-Authorization'' = basicPrefix @ encoded \<and>
         stdDecode encoded = Some (user @ '':'' @ password) \<and> authenticated cfg user password route) \<and>
      rnTried (handleConnection (\<lambda>bs. None) cfg (\<lambda>k. idleAttempt) True w) = [1] \<and>
      (\<exists>route methods user password rest. rx (wConn w) = greeting methods @ credentials user password @ rest \<and>
         octet 2 \<in> set methods \<and> authenticated cfg user password route))
   closedConfig clientRequest clientWorld"
  using node_use_needs_credentials [OF closedConfig_facts(1), of "\<lambda>bs. None" "\<lambda>k. idleAttempt" True Confirmed
      "(startRelay, zeroResult)" DoError clientRequest clientWorld] client_http_tried client_socks_tried
  by simp

text \<open>
  When a node gets credit. A finished relay whose callback is installed records the success of its
  node exactly when at least one byte of the upstream was written to the client, and otherwise leaves
  the tables as they were and releases the session from the node; so an established tunnel on either
  port changes the tables by one recorded success or not at all.
\<close>

theorem tunnel_credit_needs_data:
  assumes "relay_reachable True kind rl" "rlPhase rl = Finished first second result"
    "atRelay att = (rl, result)" "atHijack att = Confirmed"
    "dialViaProxy (atDial att) ReadResponse (validateTimeout cfg) p target = (Inr (), u)"
    "dialViaProxy_socks (atDial att) ReadResponse (validateTimeout cfg) p target = (Inr (), u')"
    "writeFaults (wConn w) = []"
  shows "wDB (snd (tunnelAttempt ReadResponse cfg route target att p w)) =
      (if 0 < upstreamToClientBytes result then snd (RecordForwardSuccess (RouteIdentityFromProxy p) (wDB w)) else wDB w) \<and>
    wDB (snd (socksAttempt ReadResponse cfg route target att p w)) =
      (if 0 < upstreamToClientBytes result then snd (RecordForwardSuccess (RouteIdentityFromProxy p) (wDB w)) else wDB w) \<and>
    (upstreamToClientBytes result = 0 \<longrightarrow>
      unboundFrom route p (snd (tunnelAttempt ReadResponse cfg route target att p w)) \<and>
      unboundFrom route p (snd (socksAttempt ReadResponse cfg route target att p w)))"
proof -
  have rec: "rlRecorded rl = (if upstreamToClientBytes result > 0 then 1 else 0)"
    using relay_finish [OF assms(1,2)] by simp
  have rel: "wDB (releaseFailedBinding route p v) = wDB v" for v
    by (simp add: releaseFailedBinding_def split: option.split)
  have db: "wDB (afterRelay route p (rl, result) v) = (if 0 < upstreamToClientBytes result
      then snd (RecordForwardSuccess (RouteIdentityFromProxy p) (wDB v)) else wDB v)" for v
    using rec by (simp add: afterRelay_def Let_def rel recordProxySuccess_def)
  have ub: "upstreamToClientBytes result = 0 \<Longrightarrow> unboundFrom route p (afterRelay route p (rl, result) v)" for v
    using release_unbound by (simp add: afterRelay_def Let_def)
  have t: "tunnelAttempt ReadResponse cfg route target att p w = (Some (Tunnel p), afterRelay route p (rl, result) w)"
    using assms(3-5) by (simp add: tunnelAttempt_def relayHTTPConnect_def)
  obtain v where v: "onClient (sendSOCKS5Reply 0) w = (Inr (), v)" "wDB v = wDB w"
    using assms(7) by (simp add: onClient_def sendSOCKS5Reply_def)
  have s: "socksAttempt ReadResponse cfg route target att p w = (Some (Tunnel p), afterRelay route p (rl, result) v)"
    using assms(3,6) v by (simp add: socksAttempt_def)
  show ?thesis using db ub t s v(2) by simp
qed

definition acceptedAttempt :: Attempt where
  "acceptedAttempt = idleAttempt\<lparr>atDial := (\<lambda>a. Some (quietConn sampleAccept)),
     atRelay := (sampleRun, case rlPhase sampleRun of Finished first second res \<Rightarrow> res)\<rparr>"

theorem tunnel_credit_needs_data_witness:
  "\<exists>p. wDB (snd (tunnelAttempt (\<lambda>bs. None) sampleConfig emptyRoute (JoinHostPort ''a.example'' (natDigits 443))
     acceptedAttempt p sampleWorld)) = snd (RecordForwardSuccess (RouteIdentityFromProxy p) sampleDB)"
proof -
  let ?p = "(scanProxy defaultRow)\<lparr>pProtocol := ''socks5''\<rparr>" and ?t = "JoinHostPort ''a.example'' (natDigits 443)"
  obtain first second res where f: "relay_reachable True (\<lambda>e. CloseWriter) sampleRun"
    "rlPhase sampleRun = Finished first second res" "upstreamToClientBytes res = 5" using sampleRun_end by blast
  obtain c where d: "dialViaProxy (atDial acceptedAttempt) (\<lambda>bs. None) (validateTimeout sampleConfig) ?p ?t = (Inr (), c)"
    "dialViaProxy_socks (atDial acceptedAttempt) (\<lambda>bs. None) (validateTimeout sampleConfig) ?p ?t = (Inr (), c)"
    using dial_admitted [OF nameable_example _ _ _ _ sampleAccept_ok, of 443 ?p "atDial acceptedAttempt" "quietConn sampleAccept" "[]"]
    by (auto simp: acceptedAttempt_def)
  have a: "atRelay acceptedAttempt = (sampleRun, res)" "atHijack acceptedAttempt = Confirmed" "writeFaults (wConn sampleWorld) = []"
    "wDB sampleWorld = sampleDB"
    using f(2) by (simp_all add: acceptedAttempt_def idleAttempt_def sampleWorld_def)
  from tunnel_credit_needs_data [OF f(1,2) a(1,2) d a(3), of emptyRoute] f(3) a(4) show ?thesis by auto
qed

text \<open>
  A failed attempt frees the session. On either port, an attempt that goes on to another node has
  released the session from the node that failed, so a later request is not stuck to it.
\<close>

theorem failed_attempt_frees_session:
  "(fst (tunnelAttempt ReadResponse cfg route host att p w) = None \<longrightarrow>
      unboundFrom route p (snd (tunnelAttempt ReadResponse cfg route host att p w))) \<and>
   (fst (socksAttempt ReadResponse cfg route host att p w) = None \<longrightarrow>
      unboundFrom route p (snd (socksAttempt ReadResponse cfg route host att p w))) \<and>
   (fst (httpAttempt replayable route att p w) = None \<longrightarrow>
      unboundFrom route p (snd (httpAttempt replayable route att p w)))"
  using tunnel.try_releases socks.try_releases http.try_releases by blast

theorem failed_attempt_frees_session_witness:
  "unboundFrom (pinOf ''s1'') sampleNode (snd (tunnelAttempt (\<lambda>bs. None) sampleConfig (pinOf ''s1'') ''a.example:443''
     idleAttempt sampleNode (sampleWorld\<lparr>wSessions := Some oneBind\<rparr>)))"
proof -
  have "\<exists>e c. dialViaProxy (\<lambda>a. None) (\<lambda>bs. None) (validateTimeout sampleConfig) sampleNode ''a.example:443'' = (Inl e, c)"
    by (auto simp: dialViaProxy_def onConn_def split: option.split)
  then have "fst (tunnelAttempt (\<lambda>bs. None) sampleConfig (pinOf ''s1'') ''a.example:443'' idleAttempt sampleNode
      (sampleWorld\<lparr>wSessions := Some oneBind\<rparr>)) = None"
    by (auto simp: tunnelAttempt_def idleAttempt_def Let_def)
  then show ?thesis using failed_attempt_frees_session by blast
qed

text \<open>
  A name no node can be asked for still charges the nodes. A SOCKS5 client may send a domain name
  with a square bracket inside: the request is accepted, every attempt then fails before any connection
  is opened, and each node selected for it is charged a forwarding failure all the same; after the
  configured retries \<open>MaxRetry + 1\<close> healthy nodes carry a failure a client caused by its own input.
\<close>

theorem bracket_name_charges_nodes:
  assumes "CHR ''['' \<in> set host \<or> CHR '']'' \<in> set host" "CHR '':'' \<notin> set host" "take 1 host \<noteq> ''[''"
    "length host \<le> 255" "validateTargetHost host = None" "0 < port" "port < 65536"
    "rx c = map octet [5, 1, 0, 3] @ octet (length host) # host @ [octet (port div 256), octet (port mod 256)] @ rest"
  shows "\<exists>target. readSOCKS5Request c = (Inr target, c\<lparr>rx := rest\<rparr>) \<and>
    (\<forall>att p w. socksAttempt ReadResponse cfg route target att p w =
       (None, releaseFailedBinding route p (recordProxyFailure p w)))"
  using bracket_request [OF assms]
  by (intro exI [of _ "JoinHostPort host (natDigits port)"])
    (simp add: socksAttempt_def isHTTPConnectCapabilityRejection_def)

theorem bracket_name_charges_nodes_witness:
  "\<exists>target. fst (readSOCKS5Request (quietConn (map octet [5, 1, 0, 3] @ octet 3 # ''a]b'' @ [octet 0, octet 80]))) = Inr target \<and>
     (\<forall>att p w. socksAttempt (\<lambda>bs. None) sampleConfig emptyRoute target att p w =
       (None, releaseFailedBinding emptyRoute p (recordProxyFailure p w)))"
proof -
  let ?c = "quietConn (map octet [5, 1, 0, 3] @ octet 3 # ''a]b'' @ [octet 0, octet 80])"
  have v: "validateTargetHost ''a]b'' = None" by (rule validateTargetHost_graphic) (auto simp: graphic_def)
  have "\<exists>target. readSOCKS5Request ?c = (Inr target, ?c\<lparr>rx := []\<rparr>) \<and>
      (\<forall>att p w. socksAttempt (\<lambda>bs. None) sampleConfig emptyRoute target att p w =
       (None, releaseFailedBinding emptyRoute p (recordProxyFailure p w)))"
    by (rule bracket_name_charges_nodes [OF _ _ _ _ v, of 80]) (simp_all add: numeral_3_eq_3)
  then show ?thesis by fastforce
qed

end
