(* ===== verification/Validator.thy ===== *)
theory Validator
  imports HttpWire StorageModel Json "HOL-Library.Multiset"
begin

text \<open>
  The package \<open>validator\<close>: probing a node through its own proxy client (connectivity, exit address and
  location from two sources, geographic policy, risk signals, AI reachability) and the bounded
  concurrent stream of results.

  A client is a function from a request (method headers aside, its URL) to a reply, or \<open>None\<close> when the
  request fails. Latencies, which probes the gate and the time budget still admit, and the order in
  which concurrent probes finish are arguments. Durations are in nanoseconds; scores are rationals.
  Case folding is ASCII, and \<open>\s\<close> and \<open>\b\<close> of a pattern are the ASCII classes RE2 uses.
\<close>

section \<open>Replies\<close>

record Reply =
  rpStatus :: nat
  rpHeader :: header
  rpURL :: string
  rpBody :: Body

type_synonym client = "string \<Rightarrow> Reply option"

text \<open>\<open>io.ReadAll(io.LimitReader(body, n))\<close>.\<close>

definition readLimited :: "nat \<Rightarrow> Body \<Rightarrow> string option" where
  "readLimited n b = (if length (bodyBytes b) < n \<and> bodyFails b then None else Some (take n (bodyBytes b)))"

section \<open>Risk values (risk.go)\<close>

record RiskInfo =
  riIPAPIIsScore :: go_float
  riFlags :: string
  riFlagsKnown :: bool
  riCFBlocked :: int
  riAIReachability :: string

definition IPAPIIsUnknown :: go_float where
  "IPAPIIsUnknown = Finite (- 1)"

definition UnknownRisk :: RiskInfo where
  "UnknownRisk = \<lparr>riIPAPIIsScore = IPAPIIsUnknown, riFlags = [], riFlagsKnown = False, riCFBlocked = - 1, riAIReachability = []\<rparr>"

definition ipapiFlags :: "bool \<Rightarrow> bool \<Rightarrow> bool \<Rightarrow> string" where
  "ipapiFlags proxy hosting mobile =
     Join ((if proxy then [''proxy''] else []) @ (if hosting then [''hosting''] else []) @ (if mobile then [''mobile''] else [])) '',''"

text \<open>
  \<open>strconv.ParseFloat\<close>: decimal literals, infinities and NaN; a magnitude that rounds past the largest
  \<open>float64\<close> is a range error. Hexadecimal literals are not modelled, values are not rounded.
\<close>

definition maxFloat64 :: rat where
  "maxFloat64 = 2 ^ 1024 - 2 ^ 970"

definition decimalValue :: "string \<Rightarrow> string \<Rightarrow> int \<Rightarrow> rat" where
  "decimalValue ip fp e =
     (let m = of_int (digitsVal (ip @ fp) 0); k = e - int (length fp) in
      if k \<ge> 0 then m * 10 ^ nat k else m / 10 ^ nat (- k))"

definition parseExponent :: "string \<Rightarrow> int option" where
  "parseExponent s =
     (if s = [] then Some 0
      else if hd s \<noteq> CHR ''e'' \<and> hd s \<noteq> CHR ''E'' then None
      else
        (let t = tl s; neg = (take 1 t = ''-''); ds = (if neg \<or> take 1 t = ''+'' then drop 1 t else t) in
         if ds = [] \<or> \<not> list_all isDigitChar ds then None
         else Some (if neg then - digitsVal ds 0 else digitsVal ds 0)))"

definition parseDecimal :: "string \<Rightarrow> rat option" where
  "parseDecimal s =
     (let ip = takeWhile isDigitChar s; r = dropWhile isDigitChar s;
          frac = (take 1 r = ''.'');
          fp = (if frac then takeWhile isDigitChar (drop 1 r) else []);
          ex = (if frac then dropWhile isDigitChar (drop 1 r) else r) in
      if ip = [] \<and> fp = [] then None
      else map_option (decimalValue ip fp) (parseExponent ex))"

definition ParseFloat :: "string \<Rightarrow> go_float option" where
  "ParseFloat s =
     (let neg = (take 1 s = ''-''); u = (if neg \<or> take 1 s = ''+'' then drop 1 s else s) in
      if ToLower u = ''inf'' \<or> ToLower u = ''infinity'' then Some (if neg then NegInf else PosInf)
      else if ToLower s = ''nan'' then Some NaN
      else
        (case parseDecimal u of
           None \<Rightarrow> None
         | Some v \<Rightarrow> if v \<ge> maxFloat64 then None else Some (Finite (if neg then - v else v))))"

definition cutScore :: "string \<Rightarrow> string" where
  "cutScore s = takeWhile (\<lambda>c. c \<noteq> CHR '' '' \<and> c \<noteq> CHR 0x09 \<and> c \<noteq> CHR ''('') s"

definition parseAbuserScore :: "string \<Rightarrow> go_float" where
  "parseAbuserScore raw =
     (let s = TrimSpace raw in
      if s = [] then Finite 0
      else
        (case ParseFloat (TrimSpace (cutScore s)) of
           None \<Rightarrow> Finite 0
         | Some NegInf \<Rightarrow> Finite 0
         | Some PosInf \<Rightarrow> Finite 1
         | Some NaN \<Rightarrow> NaN
         | Some (Finite v) \<Rightarrow> Finite (if v < 0 then 0 else if v > 1 then 1 else v)))"

section \<open>Exit information\<close>

record IPInfo =
  iiIP :: string
  iiLocation :: string
  iiProxy :: bool
  iiHosting :: bool
  iiMobile :: bool
  iiFlagsKnown :: bool
  iiOK :: bool

definition noIPInfo :: IPInfo where
  "noIPInfo = \<lparr>iiIP = [], iiLocation = [], iiProxy = False, iiHosting = False, iiMobile = False, iiFlagsKnown = False, iiOK = False\<rparr>"

definition exitCountryCode :: "string \<Rightarrow> string" where
  "exitCountryCode location = (case Fields location of [] \<Rightarrow> [] | f # fs \<Rightarrow> NormalizeCountryCode f)"

definition newExitIPInfo :: "string \<Rightarrow> string \<Rightarrow> string \<Rightarrow> bool \<Rightarrow> bool \<Rightarrow> bool \<Rightarrow> bool \<Rightarrow> IPInfo" where
  "newExitIPInfo ip countryCode0 city0 proxyFlag hosting mobile flagsKnown =
     (let countryCode = NormalizeCountryCode countryCode0; city = TrimSpace city0 in
      case ParseIP (TrimSpace ip) of
        None \<Rightarrow> noIPInfo
      | Some parsedIP \<Rightarrow>
          if countryCode = [] then noIPInfo
          else \<lparr>iiIP = IPString parsedIP,
                 iiLocation = (if city \<noteq> [] then countryCode @ '' '' @ city else countryCode),
                 iiProxy = proxyFlag, iiHosting = hosting, iiMobile = mobile, iiFlagsKnown = flagsKnown, iiOK = True\<rparr>)"

text \<open>
  Decoding an object into a struct: every key that folds to the field's name is stored in turn, \<open>null\<close>
  stores nothing, a value of another type is an error.
\<close>

definition structField :: "(json \<Rightarrow> 'a option) \<Rightarrow> 'a \<Rightarrow> string \<Rightarrow> json \<Rightarrow> 'a option" where
  "structField dec zero name v =
     (case v of
        JObj kvs \<Rightarrow>
          foldl (\<lambda>acc (k, x). if ToLower k \<noteq> name then acc
                   else case acc of None \<Rightarrow> None | Some a \<Rightarrow> if x = JNull then Some a else dec x) (Some zero) kvs
      | JNull \<Rightarrow> Some zero
      | _ \<Rightarrow> None)"

fun asString :: "json \<Rightarrow> string option" where
  "asString (JStr s) = Some s"
| "asString _ = None"

fun asBool :: "json \<Rightarrow> bool option" where
  "asBool (JBool b) = Some b"
| "asBool _ = None"

fun asObject :: "json \<Rightarrow> json option" where
  "asObject (JObj kvs) = Some (JObj kvs)"
| "asObject _ = None"

definition defaultExitInfoLimit :: nat where
  "defaultExitInfoLimit = 65536"

definition primaryExitInfoURL :: string where
  "primaryExitInfoURL = ''http://ip-api.com/json/?fields=status,country,countryCode,city,query,proxy,hosting,mobile''"

definition backupExitInfoURL :: string where
  "backupExitInfoURL = ''https://api.ipapi.is/''"

text \<open>The document of a successful reply within the size limit.\<close>

definition replyDocument :: "client \<Rightarrow> string \<Rightarrow> json option" where
  "replyDocument fetch url =
     (case fetch url of
        None \<Rightarrow> None
      | Some r \<Rightarrow>
          if rpStatus r < 200 \<or> rpStatus r \<ge> 300 then None
          else
            (case readLimited (defaultExitInfoLimit + 1) (rpBody r) of
               None \<Rightarrow> None
             | Some body \<Rightarrow> if length body > defaultExitInfoLimit then None else parseJSON body))"

definition queryPrimaryExitInfo :: "client \<Rightarrow> IPInfo" where
  "queryPrimaryExitInfo fetch =
     (case replyDocument fetch primaryExitInfoURL of
        None \<Rightarrow> noIPInfo
      | Some v \<Rightarrow>
          (case (structField asString [] ''status'' v, structField asString [] ''query'' v,
                 structField asString [] ''countrycode'' v, structField asString [] ''city'' v,
                 structField asBool False ''proxy'' v, structField asBool False ''hosting'' v,
                 structField asBool False ''mobile'' v) of
             (Some status, Some query, Some cc, Some city, Some proxy, Some hosting, Some mobile) \<Rightarrow>
               if status \<noteq> ''success'' then noIPInfo else newExitIPInfo query cc city proxy hosting mobile True
           | _ \<Rightarrow> noIPInfo))"

definition queryBackupExitInfo :: "client \<Rightarrow> IPInfo" where
  "queryBackupExitInfo fetch =
     (case replyDocument fetch backupExitInfoURL of
        None \<Rightarrow> noIPInfo
      | Some v \<Rightarrow>
          (case (structField asString [] ''ip'' v, structField asObject (JObj []) ''location'' v) of
             (Some ip, Some loc) \<Rightarrow>
               (case (structField asString [] ''country_code'' loc, structField asString [] ''city'' loc) of
                  (Some cc, Some city) \<Rightarrow> newExitIPInfo ip cc city False False False False
                | _ \<Rightarrow> noIPInfo)
           | _ \<Rightarrow> noIPInfo))"

fun mergeLoop :: "IPInfo \<Rightarrow> IPInfo list \<Rightarrow> IPInfo" where
  "mergeLoop merged [] = merged"
| "mergeLoop merged (candidate # rest) =
     (if iiIP candidate \<noteq> iiIP merged \<or> exitCountryCode (iiLocation candidate) \<noteq> exitCountryCode (iiLocation merged)
      then noIPInfo
      else if length (Fields (iiLocation merged)) = 1 \<and> length (Fields (iiLocation candidate)) > 1
      then mergeLoop (merged\<lparr>iiLocation := iiLocation candidate\<rparr>) rest
      else mergeLoop merged rest)"

definition mergeExitIPInfos :: "IPInfo list \<Rightarrow> IPInfo" where
  "mergeExitIPInfos infos = (case infos of [] \<Rightarrow> noIPInfo | i # rest \<Rightarrow> mergeLoop i rest)"

definition mergeCompletedExitIPInfos :: "IPInfo list \<Rightarrow> IPInfo" where
  "mergeCompletedExitIPInfos results =
     (if length results < 2 \<or> \<not> iiOK (results ! 1) then noIPInfo
      else if \<not> iiOK (results ! 0) then results ! 1
      else mergeExitIPInfos [results ! 0, results ! 1])"

text \<open>
  Both sources run concurrently under one deadline: a source that has not answered by then counts as
  the zero value, whichever it is.
\<close>

definition getExitIPInfo :: "(nat \<Rightarrow> bool) \<Rightarrow> client \<Rightarrow> IPInfo" where
  "getExitIPInfo answered fetch =
     mergeCompletedExitIPInfos
       [if answered 0 then queryPrimaryExitInfo fetch else noIPInfo,
        if answered 1 then queryBackupExitInfo fetch else noIPInfo]"

section \<open>Abuse score and Cloudflare\<close>

definition queryEscapeChar :: "char \<Rightarrow> string" where
  "queryEscapeChar c =
     (if isDigitChar c \<or> isASCIIUpper c \<or> isASCIILower c \<or> c \<in> set ''-_.~'' then [c]
      else if c = CHR '' '' then ''+''
      else CHR ''%'' # map toUpperChar [hexChar (byte c div 16), hexChar (byte c mod 16)])"

text \<open>\<open>json.NewDecoder(r).Decode\<close>: the first value of the stream, whatever follows it.\<close>

definition decodeFirst :: "string \<Rightarrow> json option" where
  "decodeFirst s = map_option fst (parseVal (Suc (length s)) 10000 s)"

text \<open>\<open>None\<close> is a query that gave no usable answer.\<close>

definition queryIPAPIIs :: "client \<Rightarrow> string \<Rightarrow> go_float option" where
  "queryIPAPIIs fetch exitIP =
     (if exitIP = [] then None
      else
        (case fetch (''https://api.ipapi.is/?q='' @ concat (map queryEscapeChar exitIP)) of
           None \<Rightarrow> None
         | Some r \<Rightarrow>
             if rpStatus r < 200 \<or> rpStatus r \<ge> 300 then None
             else
               (case decodeFirst (bodyBytes (rpBody r)) of
                  None \<Rightarrow> None
                | Some v \<Rightarrow>
                    if list_ex (\<lambda>n. structField asBool False n v = None)
                         [''is_datacenter'', ''is_vpn'', ''is_proxy'', ''is_tor'', ''is_abuser''] then None
                    else
                      (case structField asObject (JObj []) ''company'' v of
                         None \<Rightarrow> None
                       | Some co \<Rightarrow>
                           (case structField asString [] ''abuser_score'' co of
                              None \<Rightarrow> None
                            | Some sc \<Rightarrow> if TrimSpace sc = [] then None else Some (parseAbuserScore sc))))))"

definition cloudflareProbeURL :: string where
  "cloudflareProbeURL = ''https://www.cloudflare.com/cdn-cgi/trace''"

definition probeCloudflareBlocked :: "client \<Rightarrow> int" where
  "probeCloudflareBlocked fetch =
     (case fetch cloudflareProbeURL of
        None \<Rightarrow> - 1
      | Some r \<Rightarrow>
          if rpStatus r = 403 then 1
          else if headerGet (rpHeader r) ''cf-mitigated'' \<noteq> [] then 1
          else
            (case readLimited 65536 (rpBody r) of
               None \<Rightarrow> - 1
             | Some text1 \<Rightarrow>
                 if list_ex (Contains text1) [''Just a moment'', ''cf-chl'', ''Attention Required'', ''error code: 1020'']
                 then 1 else 0))"

section \<open>Regular expressions\<close>

text \<open>
  What the two rejection patterns use of \<open>regexp\<close>, case-insensitively: literals, runs of white space, word
  boundaries, sequence, choice and option. A match state is the character before and the text after.
\<close>

datatype re =
    Word string
  | Spaces
  | Boundary
  | Seq re re
  | Alt re re
  | Opt re

definition reSpace :: "char \<Rightarrow> bool" where
  "reSpace c \<longleftrightarrow> c \<in> {CHR 0x20, CHR 0x09, CHR 0x0A, CHR 0x0C, CHR 0x0D}"

definition reWordChar :: "char option \<Rightarrow> bool" where
  "reWordChar c =
     (case c of None \<Rightarrow> False | Some x \<Rightarrow> isDigitChar x \<or> isASCIIUpper x \<or> isASCIILower x \<or> x = CHR ''_'')"

fun spaceRuns :: "string \<Rightarrow> (char option \<times> string) list" where
  "spaceRuns [] = []"
| "spaceRuns (c # s) = (if reSpace c then (Some c, s) # spaceRuns s else [])"

fun reMatch :: "re \<Rightarrow> char option \<times> string \<Rightarrow> (char option \<times> string) list" where
  "reMatch (Word w) (p, s) =
     (if length w \<le> length s \<and> ToLower (take (length w) s) = w
      then [(if w = [] then p else Some (last (take (length w) s)), drop (length w) s)] else [])"
| "reMatch Spaces (p, s) = spaceRuns s"
| "reMatch Boundary (p, s) =
     (if reWordChar p \<noteq> reWordChar (if s = [] then None else Some (hd s)) then [(p, s)] else [])"
| "reMatch (Seq a b) st = concat (map (reMatch b) (reMatch a st))"
| "reMatch (Alt a b) st = reMatch a st @ reMatch b st"
| "reMatch (Opt a) st = reMatch a st @ [st]"

fun reSearch :: "re \<Rightarrow> char option \<Rightarrow> string \<Rightarrow> bool" where
  "reSearch r p [] = (reMatch r (p, []) \<noteq> [])"
| "reSearch r p (c # s) = (reMatch r (p, c # s) \<noteq> [] \<or> reSearch r (Some c) s)"

definition MatchString :: "re \<Rightarrow> string \<Rightarrow> bool" where
  "MatchString r s = reSearch r None s"

definition rePlace :: re where
  "rePlace = Alt (Word ''country'') (Alt (Word ''region'') (Word ''territory''))"

definition reYour :: re where
  "reYour = Opt (Seq (Word ''your'') Spaces)"

definition reOrPlace :: re where
  "reOrPlace = Opt (Seq Spaces (Seq (Word ''or'') (Seq Spaces (Seq reYour rePlace))))"

definition reDenied :: re where
  "reDenied = Alt (Seq (Word ''not'') (Seq Spaces (Alt (Word ''supported'') (Word ''available''))))
     (Alt (Word ''unavailable'') (Word ''restricted''))"

definition aiRegionalRejectionPatterns :: "re list" where
  "aiRegionalRejectionPatterns =
     [Seq Boundary (Seq reYour (Seq rePlace (Seq reOrPlace (Seq Spaces (Seq (Opt (Seq (Word ''is'') Spaces))
        (Seq reDenied Boundary)))))),
      Seq Boundary (Seq reDenied (Seq Spaces (Seq (Alt (Word ''in'') (Word ''for'')) (Seq Spaces
        (Seq reYour (Seq rePlace (Seq reOrPlace Boundary)))))))]"

definition hasExplicitRegionalRejection :: "string \<Rightarrow> bool" where
  "hasExplicitRegionalRejection body = list_ex (\<lambda>p. MatchString p body) aiRegionalRejectionPatterns"

section \<open>AI services\<close>

definition aiRegionalBlockCodes :: "string list" where
  "aiRegionalBlockCodes =
     [''unsupported_country'', ''unsupported_country_region_territory'', ''country_not_supported'', ''region_not_supported'']"

fun isRegionalBlockCodeField :: "string \<Rightarrow> json \<Rightarrow> bool" where
  "isRegionalBlockCodeField key (JStr text1) =
     (ToLower key \<in> {''code'', ''error_code'', ''reason'', ''status''} \<and> ToLower text1 \<in> set aiRegionalBlockCodes)"
| "isRegionalBlockCodeField key _ = False"

text \<open>The decoded map of an object keeps the last value of a repeated key.\<close>

definition lastOfKeys :: "(string \<times> json) list \<Rightarrow> (string \<times> json) list" where
  "lastOfKeys kvs = rev (AList.clearjunk (rev kvs))"

function containsRegionalBlockCode :: "json \<Rightarrow> bool" where
  "containsRegionalBlockCode (JObj kvs) =
     list_ex (\<lambda>(key, nested). isRegionalBlockCodeField key nested \<or> containsRegionalBlockCode nested) (lastOfKeys kvs)"
| "containsRegionalBlockCode (JArr xs) = list_ex containsRegionalBlockCode xs"
| "containsRegionalBlockCode JNull = False"
| "containsRegionalBlockCode (JBool b) = False"
| "containsRegionalBlockCode (JNum n) = False"
| "containsRegionalBlockCode (JStr s) = False"
  by pat_completeness auto

lemma lastOfKeys_subset: "set (lastOfKeys kvs) \<subseteq> set kvs"
proof -
  have "set (AList.clearjunk xs) \<subseteq> set xs" for xs :: "(string \<times> json) list"
    by (induction xs rule: AList.clearjunk.induct) (auto simp: AList.delete_eq)
  from this [of "rev kvs"] show ?thesis by (simp add: lastOfKeys_def)
qed

termination containsRegionalBlockCode
proof (relation "measure size")
  show "wf (measure (size :: json \<Rightarrow> nat))" by simp
  fix kvs :: "(string \<times> json) list" and z x y
  assume "z \<in> set (lastOfKeys kvs)" "(x, y) = z"
  then have "(x, y) \<in> set kvs" using lastOfKeys_subset by blast
  then have "size y \<le> size_list (size_prod (\<lambda>_. 0) size) kvs" by (induction kvs) auto
  then show "(y, JObj kvs) \<in> measure size" by simp
next
  fix xs :: "json list" and x
  assume "x \<in> set xs"
  then have "size x \<le> size_list size xs" by (induction xs) auto
  then show "(x, JArr xs) \<in> measure size" by simp
qed

definition hasRegionalBlockCode :: "string \<Rightarrow> bool" where
  "hasRegionalBlockCode body = (case parseJSON body of None \<Rightarrow> False | Some v \<Rightarrow> containsRegionalBlockCode v)"

definition aiCFBlockSignals :: "string list" where
  "aiCFBlockSignals = [''cf-chl'', ''error code: 1020'']"

definition hasAICloudflareBlock :: "nat \<Rightarrow> string \<Rightarrow> bool" where
  "hasAICloudflareBlock statusCode lower =
     (if list_ex (Contains lower) aiCFBlockSignals then True
      else if statusCode < 400 then False
      else Contains lower ''cloudflare'' \<and> (Contains lower ''just a moment'' \<or> Contains lower ''attention required''))"

definition containsAll :: "string \<Rightarrow> string list \<Rightarrow> bool" where
  "containsAll text1 signals = list_all (Contains text1) signals"

definition hasAnonymousCredentialChallenge :: "string \<Rightarrow> bool" where
  "hasAnonymousCredentialChallenge lower =
     (if list_ex (Contains lower) [''missing_auth'', ''missing_api_key'', ''api_key_missing'', ''authentication_required''] then True
      else if list_ex (\<lambda>term. Contains lower term \<and>
                (Contains lower ''missing'' \<or> Contains lower ''not provided'' \<or> Contains lower ''without ''))
               [''api key'', ''api_key'', ''authentication'', ''bearer token'', ''credential''] then True
      else Contains lower ''unregistered caller'' \<and> Contains lower ''api key'')"

definition classifyForbidden :: "string \<Rightarrow> int" where
  "classifyForbidden body = (if hasAnonymousCredentialChallenge (ToLower body) then 0 else - 1)"

definition aiProbeTargets :: "(string \<times> string) list" where
  "aiProbeTargets =
     [(''openai'', ''https://api.openai.com/v1/models''), (''claude'', ''https://api.anthropic.com/v1/models''),
      (''grok'', ''https://api.x.ai/v1/models''), (''gemini'', ''https://generativelanguage.googleapis.com/v1beta/models'')]"

definition aiProductProbeTargets :: "(string \<times> string list) list" where
  "aiProductProbeTargets =
     [(''openai'', [''https://api.openai.com/compliance/cookie_requirements'']), (''claude'', [''https://claude.ai/'']),
      (''gemini'', [''https://gemini.google.com/''])]"

text \<open>The groups of body signals that mean a service answers; another service uses the default rule.\<close>

definition unlockedBodyGroups :: "string \<Rightarrow> string list list" where
  "unlockedBodyGroups service =
     (if service = ''openai'' then [[''object'', ''list'', ''data''], [''authentication'', ''api key'']]
      else if service = ''claude'' then [[''authentication_error''], [''x-api-key'', ''required''], [''api key'', ''required'']]
      else if service = ''grok'' then [[''object'', ''list'', ''data''], [''incorrect api key''], [''api key'', ''required'']]
      else if service = ''gemini'' then [[''unregistered caller'', ''api key''], [''api key not valid''], [''api keys'', ''expected'']]
      else [[''object'', ''list'', ''data'', ''model'']])"

definition classifyAIResponseForService :: "string \<Rightarrow> nat \<Rightarrow> header \<Rightarrow> string \<Rightarrow> int" where
  "classifyAIResponseForService service statusCode h body =
     (if headerGet h ''cf-mitigated'' \<noteq> [] then 1
      else
        (let lower = ToLower body in
         if hasAICloudflareBlock statusCode lower then 1
         else if hasRegionalBlockCode body \<or> hasExplicitRegionalRejection body then 1
         else if statusCode = 401 then 0
         else if statusCode = 403 then classifyForbidden body
         else if statusCode < 200 \<or> statusCode \<ge> 300 then - 1
         else if list_ex (containsAll lower) (unlockedBodyGroups service) then 0 else - 1))"

definition aiProbeBodyLimit :: nat where
  "aiProbeBodyLimit = 65536"

definition probeOneAIForService :: "client \<Rightarrow> string \<Rightarrow> string \<Rightarrow> int" where
  "probeOneAIForService fetch service target =
     (case fetch target of
        None \<Rightarrow> 1
      | Some r \<Rightarrow>
          (case readLimited (aiProbeBodyLimit + 1) (rpBody r) of
             None \<Rightarrow> if rpStatus r = 401 then 0 else - 1
           | Some body0 \<Rightarrow>
               (let truncated = (length body0 > aiProbeBodyLimit);
                    body = (if truncated then take aiProbeBodyLimit body0 else body0);
                    result = classifyAIResponseForService service (rpStatus r) (rpHeader r) body in
                if truncated \<and> result \<noteq> 1 then - 1 else result)))"

definition classifyAIProductLayer :: "string \<Rightarrow> string \<Rightarrow> string \<Rightarrow> int" where
  "classifyAIProductLayer service final0 body =
     (let lower = ToLower body; final = ToLower final0 in
      if hasRegionalBlockCode body \<or> hasExplicitRegionalRejection body then 1
      else if service = ''claude'' \<and> (Contains final ''app-unavailable-in-region'' \<or> Contains final ''unavailable-in-region'') then 1
      else if service = ''openai'' \<and> Contains lower ''unsupported_country'' then 1
      else if service = ''gemini'' \<and> Contains lower ''45631641,null,true'' then 0
      else - 1)"

definition probeOneAIProductLayer :: "client \<Rightarrow> string \<Rightarrow> string \<Rightarrow> int" where
  "probeOneAIProductLayer fetch service target =
     (case fetch target of
        None \<Rightarrow> - 1
      | Some r \<Rightarrow>
          (case readLimited (aiProbeBodyLimit + 1) (rpBody r) of
             None \<Rightarrow> - 1
           | Some body \<Rightarrow> classifyAIProductLayer service (rpURL r) (take aiProbeBodyLimit body)))"

fun productLoop :: "client \<Rightarrow> string \<Rightarrow> int \<Rightarrow> string list \<Rightarrow> int" where
  "productLoop fetch service best [] = best"
| "productLoop fetch service best (u # us) =
     (let got = probeOneAIProductLayer fetch service u in
      if got = 1 then 1 else productLoop fetch service (if got = 0 then 0 else best) us)"

definition probeAIProductLayers :: "client \<Rightarrow> string \<Rightarrow> int" where
  "probeAIProductLayers fetch service =
     (case map_of aiProductProbeTargets service of
        None \<Rightarrow> - 1
      | Some urls \<Rightarrow> productLoop fetch service (- 1) urls)"

definition mergeAIProbeResults :: "int \<Rightarrow> int \<Rightarrow> int" where
  "mergeAIProbeResults api product =
     (if api = 1 \<or> product = 1 then 1 else if api = 0 \<or> product = 0 then 0 else - 1)"

text \<open>
  The four services run concurrently behind the gate; \<open>admitted\<close> says which of them get a slot before the
  budget ends. \<open>json.Marshal\<close> writes the map with its keys sorted.
\<close>

definition probeService :: "client \<Rightarrow> (string \<Rightarrow> bool) \<Rightarrow> string \<Rightarrow> int" where
  "probeService fetch admitted service =
     (if \<not> admitted service then - 1
      else mergeAIProbeResults
             (probeOneAIForService fetch service (the (map_of aiProbeTargets service)))
             (probeAIProductLayers fetch service))"

definition marshalReach :: "(string \<times> int) list \<Rightarrow> string" where
  "marshalReach kvs =
     ''{'' @ Join (map (\<lambda>(k, v). [CHR 0x22] @ k @ [CHR 0x22] @ '':'' @ fmtInt v) (sort_key fst kvs)) '','' @ ''}''"

definition probeAIReachabilityBounded :: "client \<Rightarrow> (string \<Rightarrow> bool) \<Rightarrow> string" where
  "probeAIReachabilityBounded fetch admitted =
     marshalReach (map (\<lambda>(service, target). (service, probeService fetch admitted service)) aiProbeTargets)"

section \<open>The probe budget\<close>

definition riskProbeFanout :: nat where
  "riskProbeFanout = 3"

definition riskProbeFallbackBudget :: int where
  "riskProbeFallbackBudget = 30000000000"

definition riskProbeBudget :: "int option \<Rightarrow> int" where
  "riskProbeBudget timeout =
     (case timeout of
        Some t \<Rightarrow> if t > 0 then t * 3 else riskProbeFallbackBudget
      | None \<Rightarrow> riskProbeFallbackBudget)"

text \<open>
  \<open>clientWithProbeBudget\<close>: from the timeout of the base client (\<open>None\<close> for a nil client) and the time left,
  the timeout of the derived client, or \<open>None\<close> when the probe is skipped.
\<close>

definition clientWithProbeBudget :: "int option \<Rightarrow> int \<Rightarrow> int option" where
  "clientWithProbeBudget base remaining =
     (case base of
        None \<Rightarrow> None
      | Some timeout \<Rightarrow>
          if remaining \<le> 0 then None
          else Some (if timeout \<le> 0 \<or> timeout > remaining then remaining else timeout))"

text \<open>\<open>assessRisk\<close>: the gate admits the abuse score (0), the Cloudflare probe (1) and the AI services.\<close>

definition assessRisk :: "client \<Rightarrow> (nat \<Rightarrow> bool) \<Rightarrow> (string \<Rightarrow> bool) \<Rightarrow> IPInfo \<Rightarrow> RiskInfo" where
  "assessRisk fetch admitted admittedAI ipInfo =
     \<lparr>riIPAPIIsScore =
        (if iiOK ipInfo \<and> iiIP ipInfo \<noteq> [] \<and> admitted 0
         then (case queryIPAPIIs fetch (iiIP ipInfo) of None \<Rightarrow> IPAPIIsUnknown | Some f \<Rightarrow> f)
         else IPAPIIsUnknown),
      riFlags = (if iiFlagsKnown ipInfo then ipapiFlags (iiProxy ipInfo) (iiHosting ipInfo) (iiMobile ipInfo) else []),
      riFlagsKnown = iiFlagsKnown ipInfo,
      riCFBlocked = (if admitted 1 then probeCloudflareBlocked fetch else - 1),
      riAIReachability = probeAIReachabilityBounded fetch admittedAI\<rparr>"

section \<open>Validating one node\<close>

record Validator =
  vConcurrency :: int
  vTimeout :: int
  vValidateURLs :: "string list"
  vMaxResponseMs :: int
  vCfg :: "Config option"

definition parseValidateURLs :: "string \<Rightarrow> string list" where
  "parseValidateURLs value = filter (\<lambda>t. t \<noteq> []) (map TrimSpace (SplitByte value CHR '',''))"

definition newValidator :: "int \<Rightarrow> int \<Rightarrow> string \<Rightarrow> Config option \<Rightarrow> Validator" where
  "newValidator concurrency timeoutSec validateURL cfg =
     \<lparr>vConcurrency = (if concurrency < 1 then 1 else concurrency), vTimeout = timeoutSec * 1000000000,
      vValidateURLs = parseValidateURLs validateURL,
      vMaxResponseMs = (case cfg of None \<Rightarrow> 0 | Some c \<Rightarrow> cfgMaxResponseMs c), vCfg = cfg\<rparr>"

definition NewWithConfig :: "Config \<Rightarrow> Validator" where
  "NewWithConfig cfg = newValidator (cfgValidateConcurrency cfg) (cfgValidateTimeout cfg) (cfgValidateURL cfg) (Some cfg)"

definition concurrencyBuffer :: "int \<Rightarrow> int \<Rightarrow> int" where
  "concurrencyBuffer n concurrency = (if n < concurrency * 10 then n else concurrency * 10)"

datatype failure_reason =
    FailureNone
  | FailureConnectivity
  | FailureLatency
  | FailureExitMetadata
  | FailureGeoRejected
  | FailureHTTPConnectRejected

record Result =
  rsProxy :: Proxy
  rsValid :: bool
  rsLatency :: int
  rsExitIP :: string
  rsExitLocation :: string
  rsRisk :: RiskInfo
  rsFailureReason :: failure_reason

definition passesGeoFilter :: "Config option \<Rightarrow> string \<Rightarrow> bool" where
  "passesGeoFilter cfg countryCode =
     (case cfg of
        None \<Rightarrow> True
      | Some c \<Rightarrow>
          if cfgAllowedCountries c \<noteq> [] then countryCode \<in> set (cfgAllowedCountries c)
          else countryCode \<notin> set (cfgBlockedCountries c))"

definition geoDecision :: "Config option \<Rightarrow> string \<Rightarrow> bool \<times> failure_reason" where
  "geoDecision cfg exitLocation =
     (let countryCode = exitCountryCode exitLocation in
      if countryCode = [] then (False, FailureExitMetadata)
      else if \<not> passesGeoFilter cfg countryCode then (False, FailureGeoRejected)
      else (True, FailureNone))"

text \<open>\<open>latency\<close> is the time the request to a target took.\<close>

fun validateConnectivity :: "client \<Rightarrow> (string \<Rightarrow> int) \<Rightarrow> string list \<Rightarrow> int \<times> bool" where
  "validateConnectivity fetch latency [] = (0, False)"
| "validateConnectivity fetch latency (target # rest) =
     (case fetch target of
        None \<Rightarrow> validateConnectivity fetch latency rest
      | Some r \<Rightarrow>
          if rpStatus r = 200 \<or> rpStatus r = 204 then (latency target, True)
          else validateConnectivity fetch latency rest)"

definition httpsTestTargets :: "string list" where
  "httpsTestTargets = [''https://www.google.com'', ''https://www.openai.com'', ''https://www.github.com'',
     ''https://www.cloudflare.com'', ''https://www.gstatic.com/generate_204'']"

text \<open>\<open>seed\<close> is the clock the random start comes from; \<open>urlOK\<close> whether the proxy URL parses.\<close>

definition checkHTTPSConnect :: "client \<Rightarrow> bool \<Rightarrow> nat \<Rightarrow> bool" where
  "checkHTTPSConnect fetch urlOK seed =
     (let n = length httpsTestTargets; start = seed mod n;
          passes = (\<lambda>attempt. case fetch (httpsTestTargets ! ((start + attempt) mod n)) of
                      None \<Rightarrow> False
                    | Some r \<Rightarrow> 200 \<le> rpStatus r \<and> rpStatus r < 400) in
      urlOK \<and> (passes 0 \<or> passes 1))"

text \<open>What one probe of a node meets.\<close>

record ProbeEnv =
  peClientOK :: bool
  peFetch :: client
  peLatency :: "string \<Rightarrow> int"
  peAnswered :: "nat \<Rightarrow> bool"
  peAdmitted :: "nat \<Rightarrow> bool"
  peAdmittedAI :: "string \<Rightarrow> bool"
  peTunnelFetch :: client
  peTunnelURL :: bool
  peSeed :: nat

definition failedResult :: "Proxy \<Rightarrow> int \<Rightarrow> string \<Rightarrow> string \<Rightarrow> failure_reason \<Rightarrow> Result" where
  "failedResult p latency ip loc reason =
     \<lparr>rsProxy = p, rsValid = False, rsLatency = latency, rsExitIP = ip, rsExitLocation = loc, rsRisk = UnknownRisk,
      rsFailureReason = reason\<rparr>"

definition ValidateOneResult :: "Validator \<Rightarrow> ProbeEnv \<Rightarrow> Proxy \<Rightarrow> Result" where
  "ValidateOneResult v e p =
     (if pProtocol p \<noteq> ''http'' \<and> pProtocol p \<noteq> ''socks5'' then failedResult p 0 [] [] FailureConnectivity
      else if \<not> peClientOK e then failedResult p 0 [] [] FailureConnectivity
      else
        (case validateConnectivity (peFetch e) (peLatency e) (vValidateURLs v) of
           (latency, ok) \<Rightarrow>
             if \<not> ok then failedResult p latency [] [] FailureConnectivity
             else if vMaxResponseMs v > 0 \<and> latency > vMaxResponseMs v * 1000000 then failedResult p latency [] [] FailureLatency
             else
               (let ipInfo = getExitIPInfo (peAnswered e) (peFetch e);
                    exitIP = iiIP ipInfo; exitLocation = iiLocation ipInfo;
                    geo = geoDecision (vCfg v) exitLocation in
                if exitIP = [] then failedResult p latency exitIP exitLocation FailureExitMetadata
                else if \<not> fst geo then failedResult p latency exitIP exitLocation (snd geo)
                else if pProtocol p = ''http'' \<and> \<not> checkHTTPSConnect (peTunnelFetch e) (peTunnelURL e) (peSeed e)
                then failedResult p latency exitIP exitLocation FailureHTTPConnectRejected
                else \<lparr>rsProxy = p, rsValid = True, rsLatency = latency, rsExitIP = exitIP, rsExitLocation = exitLocation,
                       rsRisk = assessRisk (peFetch e) (peAdmitted e) (peAdmittedAI e) ipInfo,
                       rsFailureReason = FailureNone\<rparr>)))"

section \<open>Properties\<close>

lemma merge_two:
  assumes "iiIP (mergeExitIPInfos [a, b]) \<noteq> []"
  shows "iiIP (mergeExitIPInfos [a, b]) = iiIP b \<and>
    exitCountryCode (iiLocation (mergeExitIPInfos [a, b])) = exitCountryCode (iiLocation b)"
  using assms by (auto simp: mergeExitIPInfos_def noIPInfo_def split: if_splits)

lemma getExitIPInfo_https:
  assumes "iiIP (getExitIPInfo answered fetch) \<noteq> []"
  shows "answered 1 \<and> iiOK (queryBackupExitInfo fetch) \<and>
    iiIP (getExitIPInfo answered fetch) = iiIP (queryBackupExitInfo fetch) \<and>
    exitCountryCode (iiLocation (getExitIPInfo answered fetch)) = exitCountryCode (iiLocation (queryBackupExitInfo fetch))"
proof -
  let ?a = "if answered 0 then queryPrimaryExitInfo fetch else noIPInfo"
  let ?b = "if answered 1 then queryBackupExitInfo fetch else noIPInfo"
  have b: "iiOK ?b"
    using assms by (auto simp: getExitIPInfo_def mergeCompletedExitIPInfos_def noIPInfo_def split: if_splits)
  then have "answered 1" by (auto simp: noIPInfo_def split: if_splits)
  then show ?thesis
    using assms b merge_two [of ?a "queryBackupExitInfo fetch"]
    by (auto simp: getExitIPInfo_def mergeCompletedExitIPInfos_def)
qed

text \<open>
  What a valid probe guarantees. A node is reported valid only if a configured target answered with
  200 or 204 within the latency limit, its exit address and country are those the HTTPS source reported
  (the plain-text source never decides alone), the country is a known alpha-2 code that the allow list
  contains or, without one, the block list does not, and an HTTP node has passed a CONNECT test; every
  other report carries a reason and unknown risk values.
\<close>

theorem valid_probe_guarantees:
  "if rsValid (ValidateOneResult v e p)
   then (let res = ValidateOneResult v e p; b = queryBackupExitInfo (peFetch e); cc = exitCountryCode (rsExitLocation res) in
     (\<exists>target\<in>set (vValidateURLs v). \<exists>r. peFetch e target = Some r \<and> rpStatus r \<in> {200, 204} \<and> rsLatency res = peLatency e target) \<and>
     (vMaxResponseMs v \<le> 0 \<or> rsLatency res \<le> vMaxResponseMs v * 1000000) \<and>
     peAnswered e 1 \<and> iiOK b \<and> rsExitIP res = iiIP b \<and> cc = exitCountryCode (iiLocation b) \<and> cc \<noteq> [] \<and>
     (case vCfg v of None \<Rightarrow> True
      | Some c \<Rightarrow> if cfgAllowedCountries c \<noteq> [] then cc \<in> set (cfgAllowedCountries c) else cc \<notin> set (cfgBlockedCountries c)) \<and>
     (pProtocol p = ''socks5'' \<or> pProtocol p = ''http'' \<and> checkHTTPSConnect (peTunnelFetch e) (peTunnelURL e) (peSeed e)))
   else rsFailureReason (ValidateOneResult v e p) \<noteq> FailureNone \<and> rsRisk (ValidateOneResult v e p) = UnknownRisk"
proof -
  have conn: "\<exists>target\<in>set us. \<exists>r. f target = Some r \<and> rpStatus r \<in> {200, 204} \<and> lat = l target"
    if "validateConnectivity f l us = (lat, True)" for f l us lat
    using that by (induction us) (auto split: option.splits if_splits)
  have geo: "snd (geoDecision c loc) \<noteq> FailureNone" if "\<not> fst (geoDecision c loc)" for c loc
    using that by (auto simp: geoDecision_def Let_def split: if_splits)
  obtain lat ok where vc: "validateConnectivity (peFetch e) (peLatency e) (vValidateURLs v) = (lat, ok)" by fastforce
  let ?i = "getExitIPInfo (peAnswered e) (peFetch e)"
  show ?thesis
  proof (cases "rsValid (ValidateOneResult v e p)")
    case True
    then have f: "ok" "iiIP ?i \<noteq> []" "fst (geoDecision (vCfg v) (iiLocation ?i))"
      "vMaxResponseMs v > 0 \<longrightarrow> lat \<le> vMaxResponseMs v * 1000000"
      "pProtocol p = ''socks5'' \<or> pProtocol p = ''http'' \<and> checkHTTPSConnect (peTunnelFetch e) (peTunnelURL e) (peSeed e)"
      "rsLatency (ValidateOneResult v e p) = lat" "rsExitIP (ValidateOneResult v e p) = iiIP ?i"
      "rsExitLocation (ValidateOneResult v e p) = iiLocation ?i"
      by (auto simp: ValidateOneResult_def failedResult_def vc Let_def split: if_splits)
    have g: "exitCountryCode (iiLocation ?i) \<noteq> []" "passesGeoFilter (vCfg v) (exitCountryCode (iiLocation ?i))"
      using f(3) by (auto simp: geoDecision_def Let_def split: if_splits)
    show ?thesis
      using True f g conn vc getExitIPInfo_https [OF f(2)]
      by (auto simp: Let_def passesGeoFilter_def split: option.splits)
  next
    case False
    then show ?thesis
      using geo by (auto simp: ValidateOneResult_def failedResult_def vc Let_def)
  qed
qed

text \<open>
  The bounds of the risk values. An abuse score read from the service lies between 0 and 1, the
  literal not-a-number alone passes through; and a probe never gets more time than the budget has left,
  nor any time once it is used up.
\<close>

theorem risk_values_bounded:
  "(case parseAbuserScore raw of Finite v \<Rightarrow> 0 \<le> v \<and> v \<le> 1 | NaN \<Rightarrow> ToLower (TrimSpace (cutScore (TrimSpace raw))) = ''nan''
    | _ \<Rightarrow> False) \<and>
   (case clientWithProbeBudget base remaining of
      None \<Rightarrow> base = None \<or> remaining \<le> 0
    | Some t \<Rightarrow> 0 < t \<and> t \<le> remaining \<and> (\<exists>b. base = Some b \<and> (b \<le> 0 \<or> t \<le> b)))"
proof -
  have "ParseFloat s = Some NaN \<Longrightarrow> ToLower s = ''nan''" for s
    by (auto simp: ParseFloat_def Let_def split: if_splits option.splits)
  then show ?thesis
    by (auto simp: parseAbuserScore_def Let_def clientWithProbeBudget_def split: option.split go_float.split)
qed

end
