(* ===== verification/ProbeStream.thy ===== *)
theory ProbeStream
  imports Validator
begin

text \<open>
  \<open>ValidateStream\<close> of the package \<open>validator\<close>: a dispatcher hands nodes to goroutines while a semaphore has
  slots, every goroutine probes its node and sends the result on a buffered channel, the consumer may
  stop receiving, and the context may be cancelled. The model is a step relation over these parts;
  \<open>probe\<close> is \<open>ValidateOneResult\<close>.
\<close>

section \<open>Steps\<close>

record Stream =
  smTodo :: "Proxy list"
  smProbing :: "Proxy list"
  smSending :: "Result list"
  smBuffer :: "Result list"
  smReceived :: "Result list"
  smDropped :: "Result list"
  smCancelled :: bool
  smStopped :: bool
  smClosed :: bool

definition startStream :: "Proxy list \<Rightarrow> Stream" where
  "startStream batch = \<lparr>smTodo = batch, smProbing = [], smSending = [], smBuffer = [], smReceived = [],
     smDropped = [], smCancelled = False, smStopped = False, smClosed = False\<rparr>"

text \<open>A goroutine holds its slot of the semaphore until its result is sent or dropped.\<close>

definition slotsUsed :: "Stream \<Rightarrow> nat" where
  "slotsUsed s = length (smProbing s) + length (smSending s)"

inductive stream_step :: "nat \<Rightarrow> nat \<Rightarrow> (Proxy \<Rightarrow> Result) \<Rightarrow> Stream \<Rightarrow> Stream \<Rightarrow> bool" for conc cap probe where
  dispatch: "smTodo s = p # ps \<Longrightarrow> \<not> smStopped s \<Longrightarrow> slotsUsed s < conc \<Longrightarrow>
    stream_step conc cap probe s (s\<lparr>smTodo := ps, smProbing := p # smProbing s\<rparr>)"
| stop: "smCancelled s \<Longrightarrow> \<not> smStopped s \<Longrightarrow> smTodo s \<noteq> [] \<Longrightarrow>
    stream_step conc cap probe s (s\<lparr>smStopped := True\<rparr>)"
| probed: "smProbing s = xs @ p # ys \<Longrightarrow>
    stream_step conc cap probe s (s\<lparr>smProbing := xs @ ys, smSending := probe p # smSending s\<rparr>)"
| send: "smSending s = xs @ r # ys \<Longrightarrow> length (smBuffer s) < cap \<Longrightarrow>
    stream_step conc cap probe s (s\<lparr>smSending := xs @ ys, smBuffer := smBuffer s @ [r]\<rparr>)"
| drop_result: "smSending s = xs @ r # ys \<Longrightarrow> smCancelled s \<Longrightarrow>
    stream_step conc cap probe s (s\<lparr>smSending := xs @ ys, smDropped := r # smDropped s\<rparr>)"
| close: "smTodo s = [] \<or> smStopped s \<Longrightarrow> smProbing s = [] \<Longrightarrow> smSending s = [] \<Longrightarrow> \<not> smClosed s \<Longrightarrow>
    stream_step conc cap probe s (s\<lparr>smClosed := True\<rparr>)"

inductive consumer_step :: "Stream \<Rightarrow> Stream \<Rightarrow> bool" where
  receive: "smBuffer s = r # rs \<Longrightarrow> consumer_step s (s\<lparr>smBuffer := rs, smReceived := smReceived s @ [r]\<rparr>)"
| cancel: "consumer_step s (s\<lparr>smCancelled := True\<rparr>)"

inductive stream_reachable :: "nat \<Rightarrow> nat \<Rightarrow> (Proxy \<Rightarrow> Result) \<Rightarrow> Proxy list \<Rightarrow> Stream \<Rightarrow> bool"
  for conc cap probe batch where
  stream_start: "stream_reachable conc cap probe batch (startStream batch)"
| stream_work: "stream_reachable conc cap probe batch s \<Longrightarrow> stream_step conc cap probe s s' \<Longrightarrow>
    stream_reachable conc cap probe batch s'"
| stream_consume: "stream_reachable conc cap probe batch s \<Longrightarrow> consumer_step s s' \<Longrightarrow>
    stream_reachable conc cap probe batch s'"

text \<open>The validator's own sizes.\<close>

definition streamConcurrency :: "Validator \<Rightarrow> nat" where
  "streamConcurrency v = nat (vConcurrency v)"

definition streamBuffer :: "Validator \<Rightarrow> Proxy list \<Rightarrow> nat" where
  "streamBuffer v batch = nat (concurrencyBuffer (int (length batch)) (vConcurrency v))"

section \<open>The invariant\<close>

definition produced :: "Stream \<Rightarrow> Result multiset" where
  "produced s = mset (smSending s) + mset (smBuffer s) + mset (smReceived s) + mset (smDropped s)"

definition stream_inv :: "nat \<Rightarrow> nat \<Rightarrow> (Proxy \<Rightarrow> Result) \<Rightarrow> Proxy list \<Rightarrow> Stream \<Rightarrow> bool" where
  "stream_inv conc cap probe batch s \<longleftrightarrow>
     image_mset probe (mset (smTodo s) + mset (smProbing s)) + produced s = image_mset probe (mset batch) \<and>
     slotsUsed s \<le> conc \<and> length (smBuffer s) \<le> cap \<and>
     (smDropped s \<noteq> [] \<or> smStopped s \<longrightarrow> smCancelled s) \<and>
     (smClosed s \<longrightarrow> (smTodo s = [] \<or> smStopped s) \<and> smProbing s = [] \<and> smSending s = [])"

lemma stream_step_inv:
  assumes "stream_step conc cap probe s s'" "stream_inv conc cap probe batch s"
  shows "stream_inv conc cap probe batch s'"
  using assms
  by (cases rule: stream_step.cases) (auto simp: stream_inv_def produced_def slotsUsed_def)

lemma consumer_step_inv:
  assumes "consumer_step s s'" "stream_inv conc cap probe batch s"
  shows "stream_inv conc cap probe batch s'"
  using assms
  by (cases rule: consumer_step.cases) (auto simp: stream_inv_def produced_def slotsUsed_def)

lemma stream_reachable_inv: "stream_reachable conc cap probe batch s \<Longrightarrow> stream_inv conc cap probe batch s"
proof (induction rule: stream_reachable.induct)
  case stream_start
  then show ?case by (simp add: stream_inv_def startStream_def produced_def slotsUsed_def)
qed (auto intro: stream_step_inv consumer_step_inv)

section \<open>Properties\<close>

text \<open>
  A batch of probes. In every interleaving the stream keeps at most \<open>concurrency\<close> probes in flight and
  never overfills its channel; no node is probed or reported twice; and a stream that has closed without
  being cancelled has delivered, once the buffer is drained, exactly one result for every node.
\<close>

theorem stream_delivers_each_result_once:
  assumes "stream_reachable conc cap probe batch s"
  shows "slotsUsed s \<le> conc \<and> length (smBuffer s) \<le> cap \<and>
    mset (smReceived s) \<subseteq># image_mset probe (mset batch) \<and>
    (smClosed s \<and> \<not> smCancelled s \<and> smBuffer s = [] \<longrightarrow> mset (smReceived s) = image_mset probe (mset batch))"
proof -
  have inv: "stream_inv conc cap probe batch s" by (rule stream_reachable_inv [OF assms])
  then have sum: "image_mset probe (mset (smTodo s) + mset (smProbing s)) + produced s = image_mset probe (mset batch)"
    by (simp add: stream_inv_def)
  have "mset (smReceived s) \<subseteq># image_mset probe (mset batch)"
    unfolding sum [symmetric] produced_def by (metis mset_subset_eq_add_left mset_subset_eq_add_right subset_mset.order_trans)
  moreover have "mset (smReceived s) = image_mset probe (mset batch)"
    if "smClosed s \<and> \<not> smCancelled s \<and> smBuffer s = []"
    using inv that by (auto simp: stream_inv_def produced_def)
  ultimately show ?thesis using inv by (auto simp: stream_inv_def)
qed

definition failingProbe :: "Proxy \<Rightarrow> Result" where
  "failingProbe p = failedResult p 0 [] [] FailureConnectivity"

theorem stream_delivers_each_result_once_witness:
  "\<exists>s. stream_reachable 1 1 failingProbe [scanProxy defaultRow] s \<and> smClosed s \<and>
     mset (smReceived s) = {#failingProbe (scanProxy defaultRow)#}"
proof -
  let ?p = "scanProxy defaultRow"
  define s0 where "s0 = startStream [?p]"
  define s1 where "s1 = s0\<lparr>smTodo := [], smProbing := [?p]\<rparr>"
  define s2 where "s2 = s1\<lparr>smProbing := [], smSending := [failingProbe ?p]\<rparr>"
  define s3 where "s3 = s2\<lparr>smSending := [], smBuffer := [failingProbe ?p]\<rparr>"
  define s4 where "s4 = s3\<lparr>smClosed := True\<rparr>"
  define s5 where "s5 = s4\<lparr>smBuffer := [], smReceived := [failingProbe ?p]\<rparr>"
  note d = s0_def s1_def s2_def s3_def s4_def s5_def startStream_def slotsUsed_def
  have "stream_step 1 1 failingProbe s0 s1" using stream_step.dispatch [of s0 ?p "[]" 1 1 failingProbe] by (simp add: d)
  moreover have "stream_step 1 1 failingProbe s1 s2" using stream_step.probed [of s1 "[]" ?p "[]" 1 1 failingProbe] by (simp add: d)
  moreover have "stream_step 1 1 failingProbe s2 s3" using stream_step.send [of s2 "[]" "failingProbe ?p" "[]" 1 1 failingProbe] by (simp add: d)
  moreover have "stream_step 1 1 failingProbe s3 s4" using stream_step.close [of s3 1 1 failingProbe] by (simp add: d)
  ultimately have "stream_reachable 1 1 failingProbe [?p] s4"
    using stream_start [of 1 1 failingProbe "[?p]"] unfolding s0_def [symmetric] by (meson stream_work)
  moreover have "consumer_step s4 s5" using receive [of s4 "failingProbe ?p" "[]"] by (simp add: d)
  ultimately have r: "stream_reachable 1 1 failingProbe [?p] s5" by (rule stream_consume)
  have "smClosed s5" "\<not> smCancelled s5" "smBuffer s5 = []" by (simp_all add: d)
  with stream_delivers_each_result_once [OF r] r show ?thesis by (intro exI [of _ s5]) simp
qed

text \<open>What the producers still have to do.\<close>

definition streamWork :: "Stream \<Rightarrow> nat" where
  "streamWork s =
     3 * length (smTodo s) + 2 * length (smProbing s) + length (smSending s) + (if smStopped s then 0 else 1) +
     (if smClosed s then 0 else 1)"

text \<open>
  C36: no goroutine outlives a cancelled stream. After the context is cancelled the producers need the
  consumer no more: as long as the channel is not closed one of them can step, every step brings the
  stream nearer to its end, and so the channel is closed after finitely many steps even when nothing is
  received any longer.
\<close>

theorem cancelled_stream_closes:
  assumes "stream_reachable conc cap probe batch s" "smCancelled s"
  shows "(\<forall>s'. stream_step conc cap probe s s' \<longrightarrow> streamWork s' < streamWork s \<and> smCancelled s') \<and>
    (smClosed s \<or> (\<exists>s'. stream_step conc cap probe s s'))"
proof (intro conjI allI impI)
  fix s'
  assume "stream_step conc cap probe s s'"
  then show "streamWork s' < streamWork s" "smCancelled s'"
    using assms(2) by (cases rule: stream_step.cases; simp add: streamWork_def)+
next
  show "smClosed s \<or> (\<exists>s'. stream_step conc cap probe s s')"
  proof (cases "smProbing s = [] \<and> smSending s = [] \<and> (smTodo s = [] \<or> smStopped s)")
    case True
    then show ?thesis using stream_step.close [of s conc cap probe] by blast
  next
    case False
    then consider p ps where "smProbing s = [] @ p # ps" | r rs where "smSending s = [] @ r # rs"
      | "smTodo s \<noteq> []" "\<not> smStopped s" by (metis append_Nil neq_Nil_conv)
    then show ?thesis
      using assms(2) stream_step.probed stream_step.drop_result stream_step.stop by cases blast+
  qed
qed

theorem cancelled_stream_closes_witness:
  "\<exists>s. stream_reachable 1 1 failingProbe [scanProxy defaultRow] s \<and> smCancelled s \<and> (\<exists>s'. stream_step 1 1 failingProbe s s')"
proof -
  let ?s = "(startStream [scanProxy defaultRow])\<lparr>smCancelled := True\<rparr>"
  have r: "stream_reachable 1 1 failingProbe [scanProxy defaultRow] ?s" by (rule stream_consume [OF stream_start cancel])
  have c: "smCancelled ?s" "\<not> smClosed ?s" by (simp_all add: startStream_def)
  from cancelled_stream_closes [OF r c(1)] r c show ?thesis by blast
qed

end
