(* ===== verification/Checker.thy ===== *)
theory Checker
  imports ProbeStream StorageSpec Selector
begin

text \<open>
  The package \<open>checker\<close> (\<open>health_checker.go\<close>): how the results of a batch of probes reach the tables, one
  whole check, and the life of the background loop.

  The results of a batch arrive one by one while the rest of the program keeps writing to the same
  tables; an arrival carries, beside the result, what others change before it is handled and between
  the two writes of a policy rejection. Pointers to configurations are numbers, since \<open>UpdateConfig\<close>
  compares them.
\<close>

section \<open>Recording one result\<close>

definition checkThreshold :: int where
  "checkThreshold = 3"

record healthCheckSummary =
  hsValid :: nat
  hsUpdated :: nat
  hsDisabled :: nat
  hsPolicyDisabled :: nat

definition noSummary :: healthCheckSummary where
  "noSummary = \<lparr>hsValid = 0, hsUpdated = 0, hsDisabled = 0, hsPolicyDisabled = 0\<rparr>"

text \<open>
  The score goes to a \<open>REAL\<close> column under the guard \<open>? >= 0\<close>. The driver binds NaN as \<open>NULL\<close>, for which the
  guard is not true, so for the update it is as good as unknown; infinities do not occur, because the
  parser cuts the score at 1.
\<close>

definition storedScore :: "go_float \<Rightarrow> rat" where
  "storedScore s = (case s of Finite v \<Rightarrow> v | PosInf \<Rightarrow> 1 | NegInf \<Rightarrow> -1 | NaN \<Rightarrow> -1)"

definition observationOf :: "Result \<Rightarrow> ExitObservation" where
  "observationOf res = \<lparr>oExitIP = rsExitIP res, oExitLocation = rsExitLocation res,
     oLatencyMS = sgn (rsLatency res) * (\<bar>rsLatency res\<bar> div 1000000), oIPAPIIsScore = storedScore (riIPAPIIsScore (rsRisk res)),
     oIPAPIFlags = riFlags (rsRisk res), oIPAPIFlagsKnown = riFlagsKnown (rsRisk res),
     oCFBlocked = riCFBlocked (rsRisk res), oAIReachability = riAIReachability (rsRisk res)\<rparr>"

record Arrival =
  arResult :: Result
  arBefore :: "DB \<Rightarrow> DB"
  arBetween :: "DB \<Rightarrow> DB"

definition handleResult :: "Arrival \<Rightarrow> healthCheckSummary \<times> DB \<Rightarrow> healthCheckSummary \<times> DB" where
  "handleResult ar st =
     (case st of
        (sm, d0) \<Rightarrow>
          (let res = arResult ar; d = arBefore ar d0; identity = RouteIdentityFromProxy (rsProxy res);
               ob = observationOf res in
           if rsValid res then
             (case ApplyProbeObservation identity ob d of
                (Inl _, d1) \<Rightarrow> (sm\<lparr>hsValid := hsValid sm + 1\<rparr>, d1)
              | (Inr _, d1) \<Rightarrow> (sm\<lparr>hsValid := hsValid sm + 1, hsUpdated := hsUpdated sm + 1\<rparr>, d1))
           else if rsFailureReason res = FailureGeoRejected then
             (case DisableRouteForPolicy identity d of
                (Inl _, d1) \<Rightarrow> (sm, d1)
              | (Inr _, d1) \<Rightarrow>
                  (case ApplyProbeObservation identity ob (arBetween ar d1) of
                     (Inl _, d2) \<Rightarrow> (sm\<lparr>hsPolicyDisabled := hsPolicyDisabled sm + 1\<rparr>, d2)
                   | (Inr _, d2) \<Rightarrow> (sm\<lparr>hsPolicyDisabled := hsPolicyDisabled sm + 1,
                       hsUpdated := hsUpdated sm + 1\<rparr>, d2)))
           else
             (case RecordProbeFailure identity ob checkThreshold d of
                (Inl _, d1) \<Rightarrow> (sm, d1)
              | (Inr disabled, d1) \<Rightarrow> (if disabled then sm\<lparr>hsDisabled := hsDisabled sm + 1\<rparr> else sm, d1))))"

definition checkBatchWithValidator :: "Arrival list \<Rightarrow> DB \<Rightarrow> healthCheckSummary \<times> DB" where
  "checkBatchWithValidator ars d = fold handleResult ars (noSummary, d)"

section \<open>One check\<close>

record HealthChecker =
  hcValidator :: "Validator option"
  hcFactory :: bool
  hcCfg :: "(nat \<times> Config) option"
  hcWake :: "bool option"

definition NewHealthChecker :: "Validator option \<Rightarrow> (nat \<times> Config) option \<Rightarrow> HealthChecker" where
  "NewHealthChecker v cfg = \<lparr>hcValidator = v, hcFactory = True, hcCfg = cfg, hcWake = None\<rparr>"

text \<open>\<open>hcWake\<close> is the wake channel: absent, or a buffer of one with or without a signal.\<close>

definition UpdateConfig :: "(nat \<times> Config) option \<Rightarrow> HealthChecker \<Rightarrow> HealthChecker" where
  "UpdateConfig cfg hc =
     (case cfg of
        None \<Rightarrow> hc
      | Some (ptr, c) \<Rightarrow>
          if map_option fst (hcCfg hc) = Some ptr then hc
          else hc\<lparr>hcCfg := cfg, hcValidator := (if hcFactory hc then Some (NewWithConfig c) else hcValidator hc),
                  hcWake := map_option (\<lambda>_. True) (hcWake hc)\<rparr>)"

definition defaultHealthCheckBatchSize :: int where
  "defaultHealthCheckBatchSize = 20"

definition batchSizeOf :: "Config \<Rightarrow> int" where
  "batchSizeOf cfg = (if cfgHealthCheckBatchSize cfg \<le> 0 then defaultHealthCheckBatchSize
     else cfgHealthCheckBatchSize cfg)"

text \<open>
  One check by the caller that won the flag. \<open>published\<close> is the published configuration, \<open>arrivals\<close> the results
  the stream of the validator delivers for a batch.
\<close>

definition runCheck ::
    "(nat \<times> Config) option \<Rightarrow> (Validator \<Rightarrow> Proxy list \<Rightarrow> Arrival list) \<Rightarrow> HealthChecker \<Rightarrow> DB \<Rightarrow>
     healthCheckSummary option \<times> HealthChecker \<times> DB" where
  "runCheck published arrivals hc0 d =
     (let hc = UpdateConfig published hc0 in
      case (hcCfg hc, hcValidator hc) of
        (Some (_, cfg), Some v) \<Rightarrow>
          (case GetBatchForHealthCheck (batchSizeOf cfg) d of
             (Inl _, d1) \<Rightarrow> (None, hc, d1)
           | (Inr batch, d1) \<Rightarrow>
               if batch = [] then (None, hc, d1)
               else (case checkBatchWithValidator (arrivals v batch) d1 of (sm, d2) \<Rightarrow> (Some sm, hc, d2)))
      | _ \<Rightarrow> (None, hc, d))"

definition backgroundInterval :: "(nat \<times> Config) option \<Rightarrow> int" where
  "backgroundInterval cfg =
     (case cfg of
        Some (_, c) \<Rightarrow> if cfgHealthIntervalMinutes c \<le> 0 then 60000000000
                      else wrap64 (cfgHealthIntervalMinutes c * 60000000000)
      | None \<Rightarrow> 60000000000)"

section \<open>The background loop\<close>

text \<open>
  Every start makes a loop of its own, with its own stop and wake channels and its own context; the
  newest comes first. A check in progress remembers whether it won the flag \<open>running\<close>.
\<close>

datatype loop_phase = Selecting | Checking bool | Exited

record Loop =
  lpPhase :: loop_phase
  lpStopped :: bool
  lpCancelled :: bool

record Background =
  bgRunning :: bool
  bgStarted :: bool
  bgStartCount :: nat
  bgLoops :: "Loop list"
  bgManual :: "bool list"

definition newBackground :: Background where
  "newBackground = \<lparr>bgRunning = False, bgStarted = False, bgStartCount = 0, bgLoops = [], bgManual = []\<rparr>"

definition StartBackground :: "Background \<Rightarrow> Background" where
  "StartBackground b =
     (if bgStarted b then b
      else b\<lparr>bgStarted := True, bgStartCount := bgStartCount b + 1,
             bgLoops := \<lparr>lpPhase = Selecting, lpStopped = False, lpCancelled = False\<rparr> # bgLoops b\<rparr>)"

text \<open>
  \<open>StopBackground\<close> up to the wait for the loop: cancel the context, close the stop channel of the current
  loop.
\<close>

definition StopBackground :: "Background \<Rightarrow> Background" where
  "StopBackground b =
     (if \<not> bgStarted b then b
      else b\<lparr>bgStarted := False,
             bgLoops := (case bgLoops b of [] \<Rightarrow> [] | l # ls \<Rightarrow> l\<lparr>lpCancelled := True, lpStopped := True\<rparr> # ls)\<rparr>)"

text \<open>\<open>CompareAndSwap\<close> on the way in, the deferred \<open>Store(false)\<close> of the winner on the way out.\<close>

definition acquire :: "Background \<Rightarrow> bool \<times> Background" where
  "acquire b = (\<not> bgRunning b, b\<lparr>bgRunning := True\<rparr>)"

definition release :: "bool \<Rightarrow> Background \<Rightarrow> Background" where
  "release won b = (if won then b\<lparr>bgRunning := False\<rparr> else b)"

definition setPhase :: "nat \<Rightarrow> loop_phase \<Rightarrow> Background \<Rightarrow> Background" where
  "setPhase k ph b = b\<lparr>bgLoops := (bgLoops b)[k := (bgLoops b ! k)\<lparr>lpPhase := ph\<rparr>]\<rparr>"

inductive background_step :: "Background \<Rightarrow> Background \<Rightarrow> bool" where
  start: "background_step b (StartBackground b)"
| stop: "background_step b (StopBackground b)"
| timer: "k < length (bgLoops b) \<Longrightarrow> lpPhase (bgLoops b ! k) = Selecting \<Longrightarrow> acquire b = (won, b1) \<Longrightarrow>
    background_step b (setPhase k (Checking won) b1)"
| checked: "k < length (bgLoops b) \<Longrightarrow> lpPhase (bgLoops b ! k) = Checking won \<Longrightarrow>
    background_step b (setPhase k Selecting (release won b))"
| exit: "k < length (bgLoops b) \<Longrightarrow> lpPhase (bgLoops b ! k) = Selecting \<Longrightarrow> lpStopped (bgLoops b ! k) \<Longrightarrow>
    background_step b (setPhase k Exited b)"
| run_once: "acquire b = (won, b1) \<Longrightarrow> background_step b (b1\<lparr>bgManual := won # bgManual b1\<rparr>)"
| run_done: "bgManual b = xs @ won # ys \<Longrightarrow> background_step b ((release won b)\<lparr>bgManual := xs @ ys\<rparr>)"

inductive background_reachable :: "Background \<Rightarrow> bool" where
  background_new: "background_reachable newBackground"
| background_next: "background_reachable b \<Longrightarrow> background_step b b' \<Longrightarrow> background_reachable b'"

text \<open>The checks in progress that won the flag.\<close>

definition activeChecks :: "Background \<Rightarrow> nat" where
  "activeChecks b = length (filter (\<lambda>l. lpPhase l = Checking True) (bgLoops b)) + length (filter id (bgManual b))"

definition loopFlags :: "Background \<Rightarrow> (bool \<times> bool) list" where
  "loopFlags b = map (\<lambda>l. (lpStopped l, lpCancelled l)) (bgLoops b)"

definition background_inv :: "Background \<Rightarrow> bool" where
  "background_inv b \<longleftrightarrow>
     activeChecks b = (if bgRunning b then 1 else 0) \<and> bgStartCount b = length (loopFlags b) \<and>
     list_all (\<lambda>f. f = (True, True)) (if bgStarted b then tl (loopFlags b) else loopFlags b) \<and>
     (bgStarted b \<longrightarrow> loopFlags b \<noteq> [] \<and> \<not> fst (hd (loopFlags b))) \<and>
     list_all (\<lambda>l. lpPhase l = Exited \<longrightarrow> lpStopped l) (bgLoops b)"

lemma filter_update:
  assumes "k < length xs"
  shows "length (filter P (xs[k := x])) + (if P (xs ! k) then 1 else 0) =
    length (filter P xs) + (if P x then 1 else 0)"
proof -
  have "filter P xs = filter P (take k xs @ xs ! k # drop (Suc k) xs)"
    using id_take_nth_drop [OF assms] by simp
  then show ?thesis using assms by (simp add: upd_conv_take_nth_drop)
qed

lemma setPhase_active:
  assumes "k < length (bgLoops b)"
  shows "activeChecks (setPhase k ph b) + (if lpPhase (bgLoops b ! k) = Checking True then 1 else 0) =
    activeChecks b + (if ph = Checking True then 1 else 0)"
  using filter_update [OF assms, of "\<lambda>l. lpPhase l = Checking True" "(bgLoops b ! k)\<lparr>lpPhase := ph\<rparr>"]
  by (simp add: activeChecks_def setPhase_def)

lemma active_frame [simp]:
  "activeChecks (b\<lparr>bgRunning := r\<rparr>) = activeChecks b" "activeChecks (release won b) = activeChecks b"
  "bgLoops (release won b) = bgLoops b" "bgStarted (release won b) = bgStarted b"
  "bgStartCount (release won b) = bgStartCount b" "bgRunning (release won b) = (bgRunning b \<and> \<not> won)"
  "bgRunning (setPhase k ph b) = bgRunning b" "bgStarted (setPhase k ph b) = bgStarted b"
  "bgStartCount (setPhase k ph b) = bgStartCount b"
  by (auto simp: activeChecks_def release_def setPhase_def)

lemma loopFlags_frame [simp]:
  "loopFlags (b\<lparr>bgRunning := r\<rparr>) = loopFlags b" "loopFlags (b\<lparr>bgManual := m\<rparr>) = loopFlags b"
  "loopFlags (release won b) = loopFlags b" "loopFlags (setPhase k ph b) = loopFlags b"
  by (simp_all add: loopFlags_def setPhase_def map_update) 
    (metis list_update_id map_update)

lemma exited_setPhase:
  assumes "list_all (\<lambda>l. lpPhase l = Exited \<longrightarrow> lpStopped l) (bgLoops b)"
    "k < length (bgLoops b)" "ph = Exited \<Longrightarrow> lpStopped (bgLoops b ! k)"
  shows "list_all (\<lambda>l. lpPhase l = Exited \<longrightarrow> lpStopped l) (bgLoops (setPhase k ph b))"
  using assms by (auto simp: setPhase_def list_all_iff dest!: set_update_subset_insert [THEN subsetD])

lemma background_step_inv: "background_step b b' \<Longrightarrow> background_inv b \<Longrightarrow> background_inv b'"
proof (induction rule: background_step.induct)
  case (start b)
  then show ?case by (auto simp: background_inv_def StartBackground_def loopFlags_def activeChecks_def)
next
  case (stop b)
  then show ?case
    by (cases "bgLoops b")
      (auto simp: background_inv_def StopBackground_def loopFlags_def activeChecks_def split: if_splits)
next
  case (timer k b won b1)
  then have b1: "b1 = b\<lparr>bgRunning := True\<rparr>" "won = (\<not> bgRunning b)" by (simp_all add: acquire_def)
  show ?case
    using timer setPhase_active [of k b1 "Checking won"] exited_setPhase [of b1 k "Checking won"]
    by (auto simp: background_inv_def b1 split: if_splits)
next
  case (checked k b won)
  then show ?case
    using setPhase_active [of k "release won b" Selecting] exited_setPhase [of "release won b" k Selecting]
    by (auto simp: background_inv_def split: if_splits)
next
  case (exit k b)
  then show ?case
    using setPhase_active [of k b Exited] exited_setPhase [of b k Exited]
    by (auto simp: background_inv_def)
next
  case (run_once b won b1)
  then show ?case by (auto simp: background_inv_def acquire_def activeChecks_def)
next
  case (run_done b xs won ys)
  then show ?case by (auto simp: background_inv_def activeChecks_def release_def split: if_splits)
qed

lemma background_reachable_inv: "background_reachable b \<Longrightarrow> background_inv b"
proof (induction rule: background_reachable.induct)
  case background_new
  then show ?case by (simp add: background_inv_def newBackground_def activeChecks_def loopFlags_def)
qed (rule background_step_inv)

section \<open>What recording a result does\<close>

lemma route_write_keeps:
  assumes "db_inv d" "r \<in> set (proxies d)" "\<not> routeIdentityWhere (routeOf p) r"
  shows "db_inv (snd (runRouteOp p d)) \<and> r \<in> set (proxies (snd (runRouteOp p d)))"
proof -
  obtain k where k: "k < length (proxies d)" "proxies d ! k = r" using assms(2) by (auto simp: in_set_conv_nth)
  have l: "list_all2 (\<lambda>r r'. r' = r \<or> routeIdentityWhere (routeOf p) r \<and> routeIdentityWhere (routeOf p) r')
      (proxies d) (proxies (snd (runRouteOp p d)))"
    using route_op_rows [of p] by (simp add: rowsRelated_def)
  then have "proxies (snd (runRouteOp p d)) ! k = r" using k assms(3) by (auto dest: list_all2_nthD)
  then have "r \<in> set (proxies (snd (runRouteOp p d)))"
    using k list_all2_lengthD [OF l] by (metis nth_mem)
  then show ?thesis using runRouteOp_inv [of p] assms(1) by (simp add: keepsInv_def)
qed

lemma snd_dropResult [simp]: "snd (dropResult m d) = snd (m d)"
  by (cases "m d"; cases "fst (m d)") (auto simp: dropResult_def bindOp_def returnOp_def)

lemmas probe_writes_keep =
  route_write_keeps [of _ _ "OpApplyProbeObservation i ob" for i ob, simplified]
  route_write_keeps [of _ _ "OpRecordProbeFailure i ob n" for i ob n, simplified]
  route_write_keeps [of _ _ "OpDisableRouteForPolicy i" for i, simplified]

definition keepsRow :: "ProxyRow \<Rightarrow> (DB \<Rightarrow> DB) \<Rightarrow> bool" where
  "keepsRow r f \<longleftrightarrow> (\<forall>d. db_inv d \<and> r \<in> set (proxies d) \<longrightarrow> db_inv (f d) \<and> r \<in> set (proxies (f d)))"

lemma handleResult_keeps:
  assumes "db_inv d" "r \<in> set (proxies d)" "keepsRow r (arBefore ar)" "keepsRow r (arBetween ar)"
    "\<not> routeIdentityWhere (RouteIdentityFromProxy (rsProxy (arResult ar))) r"
  shows "db_inv (snd (handleResult ar (sm, d))) \<and> r \<in> set (proxies (snd (handleResult ar (sm, d))))"
proof -
  let ?i = "RouteIdentityFromProxy (rsProxy (arResult ar))" and ?ob = "observationOf (arResult ar)"
  let ?d = "arBefore ar d" and ?d1 = "arBetween ar (snd (DisableRouteForPolicy ?i (arBefore ar d)))"
  have d: "db_inv ?d" "r \<in> set (proxies ?d)" using assms by (simp_all add: keepsRow_def)
  note w = probe_writes_keep [OF d assms(5)]
  have d1: "db_inv ?d1" "r \<in> set (proxies ?d1)" using w(3) assms(4) by (simp_all add: keepsRow_def)
  have s: "snd (handleResult ar (sm, d)) \<in> {snd (ApplyProbeObservation ?i ?ob ?d),
      snd (DisableRouteForPolicy ?i ?d), snd (ApplyProbeObservation ?i ?ob ?d1),
      snd (RecordProbeFailure ?i ?ob checkThreshold ?d)}"
    by (auto simp: handleResult_def Let_def split: prod.splits sum.splits)
  show ?thesis
    using s w probe_writes_keep(1) [OF d1 assms(5)] by fastforce
qed

text \<open>
  A check writes only to the nodes it probed. Whatever else writes to the tables between the results
  of a batch, a row that others leave alone and that is not, in all nine columns of its route, a node of
  the batch is still there unchanged when the check is over, and the tables stay consistent.
\<close>

theorem check_leaves_other_rows:
  assumes "db_inv d" "r \<in> set (proxies d)"
    "\<forall>ar\<in>set ars. keepsRow r (arBefore ar) \<and> keepsRow r (arBetween ar) \<and>
       \<not> routeIdentityWhere (RouteIdentityFromProxy (rsProxy (arResult ar))) r"
  shows "db_inv (snd (checkBatchWithValidator ars d)) \<and> r \<in> set (proxies (snd (checkBatchWithValidator ars d)))"
proof -
  have "db_inv (snd (fold handleResult ars st)) \<and> r \<in> set (proxies (snd (fold handleResult ars st)))"
    if "db_inv (snd st)" "r \<in> set (proxies (snd st))" for st
    using that assms(3)
  proof (induction ars arbitrary: st)
    case (Cons ar ars)
    then show ?case using handleResult_keeps [of "snd st" r ar "fst st"] by simp
  qed simp
  then show ?thesis using assms(1,2) by (simp add: checkBatchWithValidator_def)
qed

text \<open>A route update that finds its row, with a driver that does not fail.\<close>

lemma quiet_dropFault: "faults d = [] \<Longrightarrow> dropFault d = d"
  by (simp add: dropFault_def)

lemma affecting_hit:
  assumes "faults d = []" "db_inv d" "r \<in> set (proxies d)" "P d r" "\<And>x. rowIdentity (f d x) = rowIdentity x"
  shows "affecting (updateProxies P f) d = (Inr (), d\<lparr>proxies := updateRows (P d) (f d) (proxies d)\<rparr>)"
proof -
  have "identitiesUnique (updateRows (P d) (f d) (proxies d))"
    using assms(2,5) updateRows_identities [of "f d"] by (simp add: db_inv_def)
  moreover have "countRows (P d) (proxies d) \<noteq> 0" using assms(3,4) by (simp add: countRows_def filter_empty_conv, blast)
  ultimately show ?thesis
    using assms(1) by (simp add: affecting_def updateProxies_def bindOp_def execSQL_unfold faulty_def Let_def
        requireRowsAffected_def returnOp_def quiet_dropFault)
qed

lemma returning_hit:
  assumes "faults d = []" "db_inv d" "filter (P d) (proxies d) = [r]" "\<And>x. rowIdentity (f d x) = rowIdentity x"
  shows "bindOp (updateReturning P f) (\<lambda>s. returnOp (Q s)) d =
    (Inr (Q (cStatus (f d r))), d\<lparr>proxies := updateRows (P d) (f d) (proxies d)\<rparr>)"
proof -
  have "identitiesUnique (updateRows (P d) (f d) (proxies d))"
    using assms(2,4) updateRows_identities [of "f d"] by (simp add: db_inv_def)
  then show ?thesis
    using assms(1,3) by (simp add: updateReturning_def bindOp_def execSQL_unfold faulty_def Let_def
        returnOp_def quiet_dropFault)
qed

lemma updateRows_hit: "r \<in> set rs \<Longrightarrow> P r \<Longrightarrow> f r \<in> set (updateRows P f rs)"
  by (force simp: updateRows_def)

lemma set_columns_identity [simp]:
  "rowIdentity (setRisk ob r) = rowIdentity r" "rowIdentity (setRegion g ob r) = rowIdentity r"
  "rowIdentity (setLatency g ob r) = rowIdentity r" "rowIdentity (setExit g ob r) = rowIdentity r"
  "rowIdentity (setExitCheckedAt g d r) = rowIdentity r"
  by (simp_all add: set_columns rowIdentity_def)

lemma set_columns_health [simp]:
  "cFailCount (setRisk ob r) = cFailCount r" "cFailCount (setRegion g ob r) = cFailCount r"
  "cFailCount (setLatency g ob r) = cFailCount r" "cFailCount (setExit g ob r) = cFailCount r"
  "cFailCount (setExitCheckedAt g d r) = cFailCount r"
  "cStatus (setRisk ob r) = cStatus r" "cStatus (setRegion g ob r) = cStatus r"
  "cStatus (setLatency g ob r) = cStatus r" "cStatus (setExit g ob r) = cStatus r"
  "cStatus (setExitCheckedAt g d r) = cStatus r"
  "cDisabledAt (setRisk ob r) = cDisabledAt r" "cDisabledAt (setRegion g ob r) = cDisabledAt r"
  "cDisabledAt (setLatency g ob r) = cDisabledAt r" "cDisabledAt (setExit g ob r) = cDisabledAt r"
  "cDisabledAt (setExitCheckedAt g d r) = cDisabledAt r"
  by (simp_all add: set_columns)

text \<open>What each verdict does to the health columns of the row.\<close>

definition sameRoute :: "ProxyRow \<Rightarrow> ProxyRow \<Rightarrow> bool" where
  "sameRoute r r' \<longleftrightarrow> (\<forall>i. routeIdentityWhere i r' = routeIdentityWhere i r) \<and>
     cSource r' = cSource r \<and> cSubscriptionID r' = cSubscriptionID r"

lemma sameRoute_trans: "sameRoute r r1 \<Longrightarrow> sameRoute r1 r2 \<Longrightarrow> sameRoute r r2"
  by (simp add: sameRoute_def)

lemma sameRoute_parent: "sameRoute r r' \<Longrightarrow> parentActive d r' = parentActive d r"
  by (simp add: sameRoute_def parentActive_def parentStatusIs_def)

lemma apply_hit:
  assumes "faults d = []" "db_inv d" "r \<in> set (proxies d)" "routeIdentityWhere i r" "parentActive d r"
  obtains d1 r1 where "ApplyProbeObservation i ob d = (Inr (), d1)" "r1 \<in> set (proxies d1)" "sameRoute r r1"
    "cFailCount r1 = 0" "cStatus r1 = cStatus r" "cDisabledAt r1 = cDisabledAt r"
proof -
  define f where "f = (\<lambda>d r. setRisk ob (setRegion (trustedExit ob) ob (setExitCheckedAt (trustedExit ob) d
          (setExit (trustedExit ob) ob (setLatency True ob (r\<lparr>
             cFailCount := 0, cLastCheck := Some (now d)\<rparr>))))))"
  have "rowIdentity (f d x) = rowIdentity x" for x by (simp add: f_def) (simp add: rowIdentity_def)
  then have "ApplyProbeObservation i ob d = (Inr (), d\<lparr>proxies :=
      updateRows (\<lambda>r. routeIdentityWhere i r \<and> parentActive d r) (f d) (proxies d)\<rparr>)"
    using affecting_hit [OF assms(1,2,3), of "\<lambda>d r. routeIdentityWhere i r \<and> parentActive d r" f] assms(4,5)
    by (simp add: ApplyProbeObservation_def f_def)
  moreover have "sameRoute r (f d r)"
    by (simp add: sameRoute_def f_def set_columns routeIdentityWhere_def)
  ultimately show thesis
    using that [of _ "f d r"] updateRows_hit [OF assms(3), of "\<lambda>r. routeIdentityWhere i r \<and> parentActive d r" "f d"] assms(4,5) by (simp add: f_def)
qed

lemma policy_hit:
  assumes "faults d = []" "db_inv d" "r \<in> set (proxies d)" "routeIdentityWhere i r" "parentActive d r"
  obtains d1 r1 where "DisableRouteForPolicy i d = (Inr (), d1)" "r1 \<in> set (proxies d1)" "sameRoute r r1"
    "cStatus r1 = ''disabled''" "cDisabledAt r1 = None" "faults d1 = []" "subscriptions d1 = subscriptions d"
proof -
  define f where "f = (\<lambda>(d::DB) (r::ProxyRow). r\<lparr>cStatus := ''disabled'', cDisabledAt := None\<rparr>)"
  have "rowIdentity (f d x) = rowIdentity x" for x by (simp add: f_def rowIdentity_def)
  then have "DisableRouteForPolicy i d = (Inr (), d\<lparr>proxies :=
      updateRows (\<lambda>r. routeIdentityWhere i r \<and> parentActive d r) (f d) (proxies d)\<rparr>)"
    using affecting_hit [OF assms(1,2,3), of "\<lambda>d r. routeIdentityWhere i r \<and> parentActive d r" f] assms(4,5)
    by (simp add: DisableRouteForPolicy_def f_def)
  moreover have "sameRoute r (f d r)" by (simp add: sameRoute_def f_def routeIdentityWhere_def)
  ultimately show thesis
    using that [of _ "f d r"] updateRows_hit [OF assms(3), of "\<lambda>r. routeIdentityWhere i r \<and> parentActive d r" "f d"] assms(1,4,5) by (simp add: f_def)
qed

lemma failure_hit:
  assumes "faults d = []" "db_inv d" "r \<in> set (proxies d)" "routeIdentityWhere i r" "parentActive d r" "0 < n"
  obtains d1 r1 where "RecordProbeFailure i ob n d = (Inr (cStatus r1 = ''disabled''), d1)"
    "r1 \<in> set (proxies d1)" "sameRoute r r1" "cFailCount r1 = cFailCount r + 1"
    "cStatus r1 = failureStatus n r" "cDisabledAt r1 = failureDisabledAt n d r"
proof -
  define f where "f = (\<lambda>d r. setRisk ob (setRegion (trustedExit ob) ob (setExitCheckedAt (trustedExit ob) d
             (setExit (trustedExit ob) ob (setLatency (oLatencyMS ob > 0) ob (r\<lparr>
                cUseCount := cUseCount r + 1, cFailCount := cFailCount r + 1,
                cStatus := failureStatus n r, cLastCheck := Some (now d),
                cDisabledAt := failureDisabledAt n d r\<rparr>))))))"
  have u: "filter (\<lambda>r. routeIdentityWhere i r \<and> parentActive d r) (proxies d) = [r]"
    using route_unique [OF assms(2,3,4)] assms(5) by (simp flip: filter_filter)
  have "rowIdentity (f d x) = rowIdentity x" for x by (simp add: f_def) (simp add: rowIdentity_def)
  then have "RecordProbeFailure i ob n d = (Inr (cStatus (f d r) = ''disabled''), d\<lparr>proxies :=
      updateRows (\<lambda>r. routeIdentityWhere i r \<and> parentActive d r) (f d) (proxies d)\<rparr>)"
    using returning_hit [OF assms(1,2), of "\<lambda>d r. routeIdentityWhere i r \<and> parentActive d r" r f] u assms(6)
    by (simp add: RecordProbeFailure_def f_def)
  moreover have "sameRoute r (f d r)"
    by (simp add: sameRoute_def f_def set_columns routeIdentityWhere_def)
  ultimately show thesis
    using that [of "f d r"] updateRows_hit [OF assms(3), of "\<lambda>r. routeIdentityWhere i r \<and> parentActive d r" "f d"] assms(4,5) by (simp add: f_def)
qed

text \<open>
  C39: what a probe verdict does to its node. With a driver that does not fail, a result for a node whose
  row still carries the probed route and whose parent is active ends like this: a valid probe clears
  the failures and keeps status and clock; a rejection by the geographic policy disables the node without
  counting a failure and without starting the retention clock, and is counted apart; any other failure is
  counted, disables the node from the third on and starts the clock only then, and the summary counts a
  system disable exactly when the stored status says so.
\<close>

theorem verdict_reaches_row:
  assumes "db_inv d" "faults d = []" "r \<in> set (proxies d)" "parentActive d r"
    "routeIdentityWhere (RouteIdentityFromProxy (rsProxy res)) r"
    "ar = \<lparr>arResult = res, arBefore = id, arBetween = id\<rparr>"
  shows "\<exists>sm' d' r'. handleResult ar (sm, d) = (sm', d') \<and> r' \<in> set (proxies d') \<and> sameRoute r r' \<and>
    (if rsValid res then
       cFailCount r' = 0 \<and> cStatus r' = cStatus r \<and> cDisabledAt r' = cDisabledAt r \<and>
       sm' = sm\<lparr>hsValid := hsValid sm + 1, hsUpdated := hsUpdated sm + 1\<rparr>
     else if rsFailureReason res = FailureGeoRejected then
       cFailCount r' = 0 \<and> cStatus r' = ''disabled'' \<and> cDisabledAt r' = None \<and>
       sm' = sm\<lparr>hsPolicyDisabled := hsPolicyDisabled sm + 1, hsUpdated := hsUpdated sm + 1\<rparr>
     else
       cFailCount r' = cFailCount r + 1 \<and>
       cStatus r' = (if cFailCount r \<ge> 2 then ''disabled'' else cStatus r) \<and>
       cDisabledAt r' = (if cFailCount r \<ge> 2 \<and> cDisabledAt r = None then Some (now d) else cDisabledAt r) \<and>
       sm' = (if cStatus r' = ''disabled'' then sm\<lparr>hsDisabled := hsDisabled sm + 1\<rparr> else sm))"
proof -
  let ?i = "RouteIdentityFromProxy (rsProxy res)" and ?ob = "observationOf res"
  note row = assms(2,1,3,5,4)
  consider (valid) "rsValid res" | (policy) "\<not> rsValid res" "rsFailureReason res = FailureGeoRejected"
    | (failed) "\<not> rsValid res" "rsFailureReason res \<noteq> FailureGeoRejected" by blast
  then show ?thesis
  proof cases
    case valid
    show ?thesis
      by (rule apply_hit [OF row, of ?ob]) (use valid in \<open>auto simp: handleResult_def assms(6)\<close>)
  next
    case policy
    obtain d1 r1 where p: "DisableRouteForPolicy ?i d = (Inr (), d1)" "r1 \<in> set (proxies d1)" "sameRoute r r1"
        "cStatus r1 = ''disabled''" "cDisabledAt r1 = None" "faults d1 = []" "subscriptions d1 = subscriptions d"
      using policy_hit [OF row] .
    have "db_inv d1" using runRouteOp_inv [of "OpDisableRouteForPolicy ?i"] assms(1) p(1)
      by (simp add: keepsInv_def) (metis snd_conv)
    moreover have "parentActive d1 r1" "routeIdentityWhere ?i r1"
      using p(3,7) assms(4,5) by (auto simp: sameRoute_def parentActive_def parentStatusIs_def)
    ultimately obtain d2 r2 where "ApplyProbeObservation ?i ?ob d1 = (Inr (), d2)" "r2 \<in> set (proxies d2)"
        "sameRoute r1 r2" "cFailCount r2 = 0" "cStatus r2 = cStatus r1" "cDisabledAt r2 = cDisabledAt r1"
      using apply_hit [of d1 r1 ?i ?ob] p(2,6) by metis
    then show ?thesis
      using policy p sameRoute_trans [of r r1]
      by (intro exI conjI) (simp_all add: handleResult_def assms(6))
  next
    case failed
    have "0 < checkThreshold" by (simp add: checkThreshold_def)
    then obtain d1 r1 where f: "RecordProbeFailure ?i ?ob checkThreshold d = (Inr (cStatus r1 = ''disabled''), d1)"
        "r1 \<in> set (proxies d1)" "sameRoute r r1" "cFailCount r1 = cFailCount r + 1"
        "cStatus r1 = failureStatus checkThreshold r" "cDisabledAt r1 = failureDisabledAt checkThreshold d r"
      using failure_hit [OF row, of checkThreshold ?ob] by metis
    have h: "handleResult ar (sm, d) = (if cStatus r1 = ''disabled'' then sm\<lparr>hsDisabled := hsDisabled sm + 1\<rparr> else sm, d1)"
      using failed f(1) by (simp add: handleResult_def assms(6))
    have s: "cStatus r1 = (if cFailCount r \<ge> 2 then ''disabled'' else cStatus r)"
      using f(5) by (simp add: checkThreshold_def failureStatus_def)
    have c: "cDisabledAt r1 = (if cFailCount r \<ge> 2 \<and> cDisabledAt r = None then Some (now d) else cDisabledAt r)"
      using f(6) by (simp add: checkThreshold_def failureDisabledAt_def)
    show ?thesis
      unfolding if_not_P [OF failed(1)] if_not_P [OF failed(2)]
      by (intro exI conjI) (rule h f(2,3,4) s c refl)+
  qed
qed

definition rejectedResult :: Result where
  "rejectedResult = failedResult (scanProxy sampleRow) 0 ''203.0.113.7'' ''CN Test'' FailureGeoRejected"

theorem verdict_reaches_row_witness:
  "\<exists>sm' d' r'. handleResult \<lparr>arResult = rejectedResult, arBefore = id, arBetween = id\<rparr> (noSummary, sampleDB) = (sm', d') \<and>
     r' \<in> set (proxies d') \<and> cStatus r' = ''disabled'' \<and> cDisabledAt r' = None \<and> hsPolicyDisabled sm' = 1"
proof -
  have p: "parentActive sampleDB sampleRow"
    by (simp add: parentActive_def sampleRow_def newRow_def defaultRow_def SourceSubscription_def)
  have i: "routeIdentityWhere (RouteIdentityFromProxy (rsProxy rejectedResult)) sampleRow"
    using sample_facts(4) by (simp add: rejectedResult_def failedResult_def sampleRoute_def)
  have v: "\<not> rsValid rejectedResult" "rsFailureReason rejectedResult = FailureGeoRejected"
    by (simp_all add: rejectedResult_def failedResult_def)
  have m: "sampleRow \<in> set (proxies sampleDB)" by (simp add: sample_facts)
  obtain sm' d' r' where "handleResult \<lparr>arResult = rejectedResult, arBefore = id, arBetween = id\<rparr> (noSummary, sampleDB) = (sm', d')"
      "r' \<in> set (proxies d')" "cStatus r' = ''disabled''" "cDisabledAt r' = None"
      "sm' = noSummary\<lparr>hsPolicyDisabled := hsPolicyDisabled noSummary + 1, hsUpdated := hsUpdated noSummary + 1\<rparr>"
    using verdict_reaches_row [OF db_reachable_inv [OF sampleDB_reachable] sample_facts(1) m p i refl, of noSummary] v
    by auto
  then show ?thesis by (intro exI conjI) (auto simp: noSummary_def)
qed

theorem check_leaves_other_rows_witness:
  "sampleRow \<in> set (proxies (snd (checkBatchWithValidator
     [\<lparr>arResult = rejectedResult\<lparr>rsProxy := (scanProxy sampleRow)\<lparr>pID := 2\<rparr>\<rparr>, arBefore = id, arBetween = id\<rparr>] sampleDB)))"
  using check_leaves_other_rows [OF db_reachable_inv [OF sampleDB_reachable], of sampleRow
      "[\<lparr>arResult = rejectedResult\<lparr>rsProxy := (scanProxy sampleRow)\<lparr>pID := 2\<rparr>\<rparr>, arBefore = id, arBetween = id\<rparr>]"]
    sample_facts
  by (simp add: keepsRow_def routeIdentityWhere_def RouteIdentityFromProxy_def sampleRow_def newRow_def
      defaultRow_def)

section \<open>Checks do not overlap\<close>

text \<open>
  The guards of the background loop. However starts, stops, timers and manual runs interleave, at
  most one check is in progress at any time, and the flag says whether one is; every start that was not
  ignored made one loop, at most one loop has not been told to stop, every other one has its context
  cancelled as well, and a checker that counts as started has a loop that has not exited.
\<close>

theorem checks_never_overlap:
  assumes "background_reachable b"
  shows "activeChecks b = (if bgRunning b then 1 else 0) \<and> bgStartCount b = length (bgLoops b) \<and>
    length (filter (\<lambda>l. \<not> lpStopped l) (bgLoops b)) = (if bgStarted b then 1 else 0) \<and>
    length (filter (\<lambda>l. lpStopped l \<and> \<not> lpCancelled l) (bgLoops b)) = 0 \<and>
    (bgStarted b \<longrightarrow> lpPhase (hd (bgLoops b)) \<noteq> Exited)"
proof -
  have i: "background_inv b" by (rule background_reachable_inv [OF assms])
  show ?thesis
  proof (cases "bgLoops b")
    case (Cons l ls)
    then show ?thesis using i
      by (cases "bgStarted b") (auto simp: background_inv_def loopFlags_def list_all_iff filter_empty_conv)
  qed (use i in \<open>simp add: background_inv_def loopFlags_def\<close>)
qed

theorem checks_never_overlap_witness:
  "(\<lambda>b. background_reachable b \<and> bgStartCount b = 2 \<and> length (filter (\<lambda>l. \<not> lpStopped l) (bgLoops b)) = 1)
     (StartBackground (StopBackground (StartBackground newBackground)))"
proof -
  let ?b = "StartBackground (StopBackground (StartBackground newBackground))"
  have r: "background_reachable ?b"
    by (rule background_next [OF background_next [OF background_next [OF background_new start] stop] start])
  show ?thesis
    using checks_never_overlap [OF r] r by (simp add: StartBackground_def StopBackground_def newBackground_def)
qed

end
