(* ===== verification/ApiKeys.thy ===== *)
theory ApiKeys
  imports HttpWire Affinity "HOL-Library.AList"
begin

text \<open>
  The read-only API keys of the package \<open>webui\<close> (\<open>api_key_middleware.go\<close>): finding the key in a request,
  matching it against the stored fingerprints, and the token buckets that limit each key.

  Times are nanoseconds of the limiter's clock; the zero time of \<open>lastSweep\<close> is \<open>None\<close>. Tokens are
  rational numbers where the code has \<open>float64\<close>.
\<close>

section \<open>Token buckets\<close>

record tokenBucket =
  tbTokens :: rat
  tbLastSeen :: int

record apiKeyRateLimiter =
  rlRatePerMin :: int
  rlBuckets :: "(string \<times> tokenBucket) list"
  rlLastSweep :: "int option"

definition bucketIdleTTL :: int where
  "bucketIdleTTL = 600000000000"

definition sweepInterval :: int where
  "sweepInterval = 60000000000"

definition maxBuckets :: nat where
  "maxBuckets = 10000"

definition newAPIKeyRateLimiter :: "int \<Rightarrow> apiKeyRateLimiter" where
  "newAPIKeyRateLimiter rate =
     \<lparr>rlRatePerMin = (if rate \<le> 0 then 60 else rate), rlBuckets = [], rlLastSweep = None\<rparr>"

definition evictStaleLocked :: "int \<Rightarrow> apiKeyRateLimiter \<Rightarrow> apiKeyRateLimiter" where
  "evictStaleLocked t l =
     (let forced = length (rlBuckets l) \<ge> maxBuckets in
      if \<not> forced \<and> (case rlLastSweep l of None \<Rightarrow> False | Some s \<Rightarrow> t - s < sweepInterval) then l
      else l\<lparr>rlLastSweep := Some t,
             rlBuckets := filter (\<lambda>(k, b). \<not> t - tbLastSeen b \<ge> bucketIdleTTL) (rlBuckets l)\<rparr>)"

text \<open>Sixty seconds refill \<open>ratePerMin\<close> tokens; the bucket holds no more than that.\<close>

definition refill :: "int \<Rightarrow> int \<Rightarrow> tokenBucket \<Rightarrow> tokenBucket" where
  "refill rate t b =
     (let elapsed = (of_int (t - tbLastSeen b) / 1000000000 :: rat) in
      if elapsed > 0
      then \<lparr>tbTokens = min (tbTokens b + elapsed * of_int rate / 60) (of_int rate), tbLastSeen = t\<rparr>
      else b)"

definition takeToken :: "tokenBucket \<Rightarrow> bool \<times> tokenBucket" where
  "takeToken b = (if tbTokens b < 1 then (False, b) else (True, b\<lparr>tbTokens := tbTokens b - 1\<rparr>))"

definition allow :: "string \<Rightarrow> int \<Rightarrow> apiKeyRateLimiter \<Rightarrow> bool \<times> apiKeyRateLimiter" where
  "allow keyID t l0 =
     (if keyID = [] then (False, l0)
      else
        (let l = evictStaleLocked t l0 in
         case map_of (rlBuckets l) keyID of
           None \<Rightarrow>
             if length (rlBuckets l) \<ge> maxBuckets then (False, l)
             else
               (case takeToken \<lparr>tbTokens = of_int (rlRatePerMin l), tbLastSeen = t\<rparr> of
                  (ok, b) \<Rightarrow> (ok, l\<lparr>rlBuckets := (keyID, b) # rlBuckets l\<rparr>))
         | Some b0 \<Rightarrow>
             (case takeToken (refill (rlRatePerMin l) t b0) of
                (ok, b) \<Rightarrow> (ok, l\<lparr>rlBuckets := AList.update keyID b (rlBuckets l)\<rparr>))))"

section \<open>Keys\<close>

text \<open>
  \<open>strings.EqualFold\<close> against an ASCII word: besides the two cases of a letter, the only code points that
  fold to ASCII letters are the long s and the Kelvin sign.
\<close>

definition foldRune :: "nat \<Rightarrow> nat" where
  "foldRune r = (if 65 \<le> r \<and> r \<le> 90 then r + 32 else if r = 383 then 115 else if r = 8490 then 107 else r)"

definition EqualFold :: "string \<Rightarrow> string \<Rightarrow> bool" where
  "EqualFold s word \<longleftrightarrow> map foldRune (runes s) = map foldRune (runes word)"

definition bearerPrefix :: string where
  "bearerPrefix = ''Bearer ''"

text \<open>The scheme is compared exactly first, then without regard to case.\<close>

definition extractAPIKey :: "header \<Rightarrow> string" where
  "extractAPIKey h =
     (let auth = headerGet h ''Authorization'' in
      if auth \<noteq> [] \<and> HasPrefix auth bearerPrefix then TrimSpace (drop 7 auth)
      else if auth \<noteq> [] \<and> length auth > 7 \<and> EqualFold (take 7 auth) bearerPrefix then TrimSpace (drop 7 auth)
      else TrimSpace (headerGet h ''X-API-Key''))"

text \<open>The index of the matching key.\<close>

fun matchFrom :: "nat \<Rightarrow> string \<Rightarrow> APIKey list \<Rightarrow> nat option" where
  "matchFrom i want [] = None"
| "matchFrom i want (key # keys) =
     (if kDisabled key \<or> kHash key = [] then matchFrom (i + 1) want keys
      else if ConstantTimeCompare (kHash key) want = 1 then Some i
      else matchFrom (i + 1) want keys)"

definition matchReadOnlyAPIKey :: "Config option \<Rightarrow> string \<Rightarrow> nat option" where
  "matchReadOnlyAPIKey cfg plain =
     (case cfg of
        None \<Rightarrow> None
      | Some c \<Rightarrow> if plain = [] then None else matchFrom 0 (HashAPIKey plain) (cfgReadOnlyAPIKeys c))"

record ApiServer =
  asCfg :: "Config option"
  asLimiter :: "apiKeyRateLimiter option"

definition readOnlyAPIKeyMatch :: "ApiServer \<Rightarrow> string \<Rightarrow> (string \<times> string) option" where
  "readOnlyAPIKeyMatch s plain =
     (case (asCfg s, matchReadOnlyAPIKey (asCfg s) plain) of
        (Some c, Some i) \<Rightarrow> Some (kID (cfgReadOnlyAPIKeys c ! i), kHash (cfgReadOnlyAPIKeys c ! i))
      | _ \<Rightarrow> None)"

definition markReadOnlyAPIKeyUsed :: "string \<Rightarrow> int \<Rightarrow> ApiServer \<Rightarrow> bool \<times> ApiServer" where
  "markReadOnlyAPIKeyUsed plain usedAt s =
     (case (asCfg s, matchReadOnlyAPIKey (asCfg s) plain) of
        (Some c, Some i) \<Rightarrow>
          (True, s\<lparr>asCfg := Some (c\<lparr>cfgReadOnlyAPIKeys :=
             (cfgReadOnlyAPIKeys c)[i := (cfgReadOnlyAPIKeys c ! i)\<lparr>kLastUsedAt := usedAt\<rparr>]\<rparr>)\<rparr>)
      | _ \<Rightarrow> (False, s))"

definition ensureAPIKeyLimiter :: "ApiServer \<Rightarrow> apiKeyRateLimiter \<times> ApiServer" where
  "ensureAPIKeyLimiter s =
     (case asLimiter s of
        Some l \<Rightarrow> (l, s)
      | None \<Rightarrow>
          (let rate = (case asCfg s of
                         Some c \<Rightarrow> if cfgReadOnlyAPIRatePerMin c > 0 then cfgReadOnlyAPIRatePerMin c else 60
                       | None \<Rightarrow> 60);
               l = newAPIKeyRateLimiter rate in (l, s\<lparr>asLimiter := Some l\<rparr>)))"

datatype api_answer = Unauthorized | RateLimited | Forwarded

text \<open>
  The middleware; between its steps the administrator may replace the configuration: \<open>between\<close> is what
  others do before the last one.
\<close>

definition apiKeyMiddleware ::
    "(ApiServer \<Rightarrow> ApiServer) \<Rightarrow> int \<Rightarrow> int \<Rightarrow> header \<Rightarrow> ApiServer \<Rightarrow> api_answer \<times> ApiServer" where
  "apiKeyMiddleware between t usedAt h s =
     (let plain = extractAPIKey h in
      case readOnlyAPIKeyMatch s plain of
        None \<Rightarrow> (Unauthorized, s)
      | Some (keyID, hash) \<Rightarrow>
          (case ensureAPIKeyLimiter s of
             (l, s1) \<Rightarrow>
               (case allow (if keyID = [] then hash else keyID) t l of
                  (ok, l') \<Rightarrow>
                    (let s2 = between (s1\<lparr>asLimiter := Some l'\<rparr>) in
                     if \<not> ok then (RateLimited, s1\<lparr>asLimiter := Some l'\<rparr>)
                     else (case markReadOnlyAPIKeyUsed plain usedAt s2 of
                             (False, s3) \<Rightarrow> (Unauthorized, s3)
                           | (True, s3) \<Rightarrow> (Forwarded, s3))))))"

section \<open>The level of a bucket\<close>

text \<open>
  The tokens a key would have at a time, whether its bucket is stored or not: an absent bucket counts as
  full.
\<close>

definition level :: "int \<Rightarrow> tokenBucket option \<Rightarrow> int \<Rightarrow> rat" where
  "level rate bo t = (case bo of None \<Rightarrow> of_int rate | Some b \<Rightarrow> tbTokens (refill rate t b))"

definition bucket_ok :: "int \<Rightarrow> int \<Rightarrow> tokenBucket \<Rightarrow> bool" where
  "bucket_ok rate T b \<longleftrightarrow> 0 \<le> tbTokens b \<and> tbTokens b \<le> of_int rate \<and> tbLastSeen b \<le> T"

definition limiter_ok :: "int \<Rightarrow> apiKeyRateLimiter \<Rightarrow> bool" where
  "limiter_ok T l \<longleftrightarrow> 0 < rlRatePerMin l \<and> distinct (map fst (rlBuckets l)) \<and>
     length (rlBuckets l) \<le> maxBuckets \<and> (\<forall>(k, b)\<in>set (rlBuckets l). bucket_ok (rlRatePerMin l) T b)"

definition perNano :: "int \<Rightarrow> rat" where
  "perNano rate = of_int rate / 60000000000"

lemma level_Some:
  assumes "bucket_ok rate T b" "T \<le> t" "0 < rate"
  shows "level rate (Some b) t = min (tbTokens b + of_int (t - tbLastSeen b) * perNano rate) (of_int rate)"
proof (cases "tbLastSeen b < t")
  case True
  then show ?thesis by (simp add: level_def refill_def perNano_def Let_def)
next
  case False
  then have "tbLastSeen b = t" using assms by (simp add: bucket_ok_def)
  then show ?thesis using assms by (simp add: level_def refill_def bucket_ok_def)
qed

lemma level_bounds:
  assumes "\<forall>b. bo = Some b \<longrightarrow> bucket_ok rate T b" "T \<le> t" "0 < rate"
  shows "0 \<le> level rate bo t" "level rate bo t \<le> of_int rate"
proof -
  have "0 \<le> level rate (Some b) t \<and> level rate (Some b) t \<le> of_int rate" if "bucket_ok rate T b" for b
  proof -
    have "0 \<le> of_int (t - tbLastSeen b) * perNano rate"
      using that assms by (intro mult_nonneg_nonneg) (simp_all add: bucket_ok_def perNano_def)
    then show ?thesis using that assms(3) unfolding level_Some [OF that assms(2,3)] by (simp add: bucket_ok_def)
  qed
  moreover have "level rate None t = of_int rate" by (simp add: level_def)
  ultimately show "0 \<le> level rate bo t" "level rate bo t \<le> of_int rate"
    using assms by (cases bo; simp)+
qed

lemma level_later:
  assumes "\<forall>b. bo = Some b \<longrightarrow> bucket_ok rate T b" "T \<le> t" "t \<le> t'" "0 < rate"
  shows "level rate bo t' \<le> level rate bo t + of_int (t' - t) * perNano rate"
proof (cases bo)
  case None
  then show ?thesis using assms by (simp add: level_def perNano_def)
next
  case (Some b)
  have p: "0 \<le> of_int (t' - t) * perNano rate" using assms by (simp add: perNano_def)
  have "of_int (t' - tbLastSeen b) * perNano rate =
      of_int (t - tbLastSeen b) * perNano rate + of_int (t' - t) * perNano rate"
    by (simp add: algebra_simps)
  then show ?thesis
    using p level_Some [of rate T b t] level_Some [of rate T b t'] assms Some by (auto simp: min_def)
qed

text \<open>An idle bucket has filled up again before it may be dropped.\<close>

lemma level_idle:
  assumes "bucket_ok rate T b" "T \<le> t" "0 < rate" "bucketIdleTTL \<le> t - tbLastSeen b"
  shows "level rate (Some b) t = of_int rate"
proof -
  have "of_int bucketIdleTTL * perNano rate \<le> of_int (t - tbLastSeen b) * perNano rate"
    using assms(3,4) by (intro mult_right_mono) (simp_all add: perNano_def)
  moreover have "of_int bucketIdleTTL * perNano rate = 10 * of_int rate"
    by (simp add: bucketIdleTTL_def perNano_def)
  ultimately show ?thesis
    using level_Some [OF assms(1,2,3)] assms(1,3) by (auto simp: bucket_ok_def min_def)
qed

section \<open>What one request does to the levels\<close>

lemma evict_ok:
  assumes "limiter_ok T l" "T \<le> t"
  shows "limiter_ok t (evictStaleLocked t l)" "rlRatePerMin (evictStaleLocked t l) = rlRatePerMin l"
    "set (rlBuckets (evictStaleLocked t l)) \<subseteq> set (rlBuckets l)"
proof -
  have m: "bucket_ok r t b" if "bucket_ok r T b" for r b using that assms(2) by (simp add: bucket_ok_def)
  have "length (filter P (rlBuckets l)) \<le> maxBuckets" for P
    using assms(1) order_trans [OF length_filter_le, of "rlBuckets l" maxBuckets P] by (simp add: limiter_ok_def)
  then show "limiter_ok t (evictStaleLocked t l)"
    using assms(1) m by (auto simp: limiter_ok_def evictStaleLocked_def Let_def distinct_map_filter)
qed (auto simp: evictStaleLocked_def Let_def)

lemma evict_level:
  assumes "limiter_ok T l" "T \<le> t" "t \<le> t'"
  shows "level (rlRatePerMin l) (map_of (rlBuckets (evictStaleLocked t l)) k) t' =
    level (rlRatePerMin l) (map_of (rlBuckets l) k) t'"
proof -
  have f: "level (rlRatePerMin l) (map_of (filter (\<lambda>(k, b). \<not> t - tbLastSeen b \<ge> bucketIdleTTL) (rlBuckets l)) k) t' =
      level (rlRatePerMin l) (map_of (rlBuckets l) k) t'"
  proof (cases "map_of (rlBuckets l) k")
    case (Some b)
    then have "bucket_ok (rlRatePerMin l) T b" using assms(1) map_of_SomeD [OF Some] by (auto simp: limiter_ok_def)
    then show ?thesis
      using Some assms level_idle [of "rlRatePerMin l" T b t']
      by (auto simp: map_of_filter_distinct limiter_ok_def level_def)
  qed (use assms in \<open>simp add: map_of_filter_distinct limiter_ok_def\<close>)
  then show ?thesis by (simp add: evictStaleLocked_def Let_def)
qed

text \<open>Taking a token leaves a bucket that the level alone determines.\<close>

definition afterTake :: "int \<Rightarrow> tokenBucket option \<Rightarrow> int \<Rightarrow> bool \<times> tokenBucket" where
  "afterTake rate bo t =
     (let x = level rate bo t in
      if x < 1 then (False, \<lparr>tbTokens = x, tbLastSeen = t\<rparr>) else (True, \<lparr>tbTokens = x - 1, tbLastSeen = t\<rparr>))"

lemma takeToken_fresh: "takeToken \<lparr>tbTokens = of_int rate, tbLastSeen = t\<rparr> = afterTake rate None t"
  by (simp add: takeToken_def afterTake_def level_def Let_def)

lemma takeToken_refill:
  assumes "bucket_ok rate T b" "T \<le> t"
  shows "takeToken (refill rate t b) = afterTake rate (Some b) t"
proof -
  have "tbLastSeen (refill rate t b) = t" using assms by (auto simp: refill_def Let_def bucket_ok_def)
  then obtain x where "refill rate t b = \<lparr>tbTokens = x, tbLastSeen = t\<rparr>" by (cases "refill rate t b") simp
  then show ?thesis by (simp add: takeToken_def afterTake_def level_def Let_def)
qed

lemma afterTake_ok:
  assumes "\<forall>b. bo = Some b \<longrightarrow> bucket_ok rate T b" "T \<le> t" "0 < rate"
  shows "bucket_ok rate t (snd (afterTake rate bo t))"
  using level_bounds [OF assms] by (auto simp: afterTake_def bucket_ok_def Let_def)

lemma bucket_lookup:
  assumes "limiter_ok T l" "map_of (rlBuckets l) k = Some b"
  shows "bucket_ok (rlRatePerMin l) T b"
  using assms map_of_SomeD [OF assms(2)] by (auto simp: limiter_ok_def)

lemma update_entries: "set (AList.update k v xs) \<subseteq> insert (k, v) (set xs)"
  by (induction xs) auto

lemma length_update_present: "map_of xs k = Some b \<Longrightarrow> length (AList.update k v xs) = length xs"
  by (induction xs) (auto split: if_splits)

lemma allow_effect:
  assumes "limiter_ok T l" "T \<le> t" "keyID \<noteq> []"
  defines "r \<equiv> rlRatePerMin l" and "l1 \<equiv> evictStaleLocked t l"
  shows "allow keyID t l = (False, l1) \<and> keyID \<notin> fst ` set (rlBuckets l1) \<and> length (rlBuckets l1) = maxBuckets \<or>
    (\<exists>l'. allow keyID t l = (level r (map_of (rlBuckets l) keyID) t \<ge> 1, l') \<and> limiter_ok t l' \<and>
       rlRatePerMin l' = r \<and> map_of (rlBuckets l') =
         (map_of (rlBuckets l1))(keyID \<mapsto> snd (afterTake r (map_of (rlBuckets l) keyID) t)))"
proof -
  have ok: "limiter_ok t l1" and rate: "rlRatePerMin l1 = r"
    using evict_ok [OF assms(1,2)] by (simp_all add: l1_def r_def)
  have lev: "level r (map_of (rlBuckets l1) keyID) t = level r (map_of (rlBuckets l) keyID) t"
    using evict_level [OF assms(1,2) order_refl] by (simp add: l1_def r_def)
  then have take: "afterTake r (map_of (rlBuckets l1) keyID) t = afterTake r (map_of (rlBuckets l) keyID) t"
    by (simp add: afterTake_def)
  have fst: "fst (afterTake r bo t) = (level r bo t \<ge> 1)" for bo by (auto simp: afterTake_def Let_def)
  have b': "bucket_ok r t (snd (afterTake r (map_of (rlBuckets l1) keyID) t))"
    using afterTake_ok [of "map_of (rlBuckets l1) keyID" r t t] bucket_lookup [OF ok] ok rate
    by (auto simp: limiter_ok_def)
  show ?thesis
  proof (cases "map_of (rlBuckets l1) keyID")
    case None
    then have new: "keyID \<notin> fst ` set (rlBuckets l1)" by (simp add: map_of_eq_None_iff)
    show ?thesis
    proof (cases "length (rlBuckets l1) \<ge> maxBuckets")
      case True
      then show ?thesis using None new ok assms(3)
        by (simp add: allow_def l1_def [symmetric] limiter_ok_def)
    next
      case False
      let ?b = "snd (afterTake r None t)"
      have "allow keyID t l = (level r None t \<ge> 1, l1\<lparr>rlBuckets := (keyID, ?b) # rlBuckets l1\<rparr>)"
        using None False assms(3) fst [of None]
        by (simp add: allow_def l1_def [symmetric] rate takeToken_fresh case_prod_beta)
      moreover have "limiter_ok t (l1\<lparr>rlBuckets := (keyID, ?b) # rlBuckets l1\<rparr>)"
        using ok b' None new False rate by (auto simp: limiter_ok_def)
      ultimately show ?thesis using lev take None rate by auto
    qed
  next
    case (Some b)
    let ?b = "snd (afterTake r (Some b) t)"
    have "takeToken (refill r t b) = afterTake r (Some b) t"
      using takeToken_refill [of r t b t] bucket_lookup [OF ok Some] rate by simp
    then have "allow keyID t l = (level r (Some b) t \<ge> 1, l1\<lparr>rlBuckets := AList.update keyID ?b (rlBuckets l1)\<rparr>)"
      using Some assms(3) fst [of "Some b"]
      by (simp add: allow_def l1_def [symmetric] rate case_prod_beta)
    moreover have "limiter_ok t (l1\<lparr>rlBuckets := AList.update keyID ?b (rlBuckets l1)\<rparr>)"
      using ok b' Some rate update_entries [of keyID ?b "rlBuckets l1"]
        length_update_present [OF Some, of ?b]
      by (auto simp: limiter_ok_def distinct_update)
    ultimately show ?thesis using lev take Some rate by (auto simp: update_conv')
  qed
qed

section \<open>Sequences of requests\<close>

fun runLimiter :: "apiKeyRateLimiter \<Rightarrow> (string \<times> int) list \<Rightarrow> bool list" where
  "runLimiter l [] = []"
| "runLimiter l ((k, t) # reqs) = (case allow k t l of (ok, l') \<Rightarrow> ok # runLimiter l' reqs)"

text \<open>The decisions on the requests of one key.\<close>

fun decisionsOn :: "string \<Rightarrow> (string \<times> int) list \<Rightarrow> bool list \<Rightarrow> bool list" where
  "decisionsOn key ((k, t) # reqs) (ok # oks) = (if k = key then [ok] else []) @ decisionsOn key reqs oks"
| "decisionsOn key _ _ = []"

text \<open>A bucket of its own for one key, never dropped.\<close>

fun ownBucket :: "int \<Rightarrow> tokenBucket option \<Rightarrow> int list \<Rightarrow> bool list" where
  "ownBucket rate bo [] = []"
| "ownBucket rate bo (t # ts) =
     (case afterTake rate bo t of (ok, b) \<Rightarrow> ok # ownBucket rate (Some b) ts)"

definition timesOf :: "string \<Rightarrow> (string \<times> int) list \<Rightarrow> int list" where
  "timesOf key reqs = map snd (filter (\<lambda>(k, t). k = key) reqs)"

lemma ownBucket_cong:
  assumes "\<And>t. t \<in> set ts \<Longrightarrow> level rate bo t = level rate bo' t"
  shows "ownBucket rate bo ts = ownBucket rate bo' ts"
  using assms by (cases ts) (simp_all add: afterTake_def)

lemma new_limiter_ok: "limiter_ok T (newAPIKeyRateLimiter rate)"
  by (simp add: limiter_ok_def newAPIKeyRateLimiter_def)

lemma runLimiter_isolates:
  assumes "limiter_ok T l" "sorted (T # map snd reqs)" "[] \<notin> fst ` set reqs"
    "card (fst ` set (rlBuckets l) \<union> fst ` set reqs) \<le> maxBuckets" "key \<noteq> []"
  shows "decisionsOn key reqs (runLimiter l reqs) =
    ownBucket (rlRatePerMin l) (map_of (rlBuckets l) key) (timesOf key reqs)"
  using assms(1-4)
proof (induction reqs arbitrary: T l)
  case (Cons req reqs)
  obtain k t where req: "req = (k, t)" by fastforce
  let ?r = "rlRatePerMin l" and ?l1 = "evictStaleLocked t l"
  have k: "k \<noteq> []" "T \<le> t" and srt: "sorted (t # map snd reqs)" using Cons.prems req by auto
  note ev = evict_ok [OF Cons.prems(1) k(2)]
  have fin: "finite (fst ` set (rlBuckets l) \<union> fst ` set (req # reqs))" by simp
  have sub: "insert k (fst ` set (rlBuckets ?l1)) \<subseteq> fst ` set (rlBuckets l) \<union> fst ` set (req # reqs)"
    using ev(3) req by auto
  have "k \<in> fst ` set (rlBuckets ?l1) \<or> length (rlBuckets ?l1) \<noteq> maxBuckets"
  proof (rule ccontr)
    assume a: "\<not> ?thesis"
    then have "card (fst ` set (rlBuckets ?l1)) = maxBuckets"
      using ev(1) distinct_card [of "map fst (rlBuckets ?l1)"] by (simp add: limiter_ok_def)
    then have "card (insert k (fst ` set (rlBuckets ?l1))) = Suc maxBuckets" using a by simp
    then show False using card_mono [OF fin sub] Cons.prems(4) by simp
  qed
  then obtain l' where l': "allow k t l = (level ?r (map_of (rlBuckets l) k) t \<ge> 1, l')" "limiter_ok t l'"
      "rlRatePerMin l' = ?r" "map_of (rlBuckets l') =
         (map_of (rlBuckets ?l1))(k \<mapsto> snd (afterTake ?r (map_of (rlBuckets l) k) t))"
    using allow_effect [OF Cons.prems(1) k(2,1)] by auto
  have "fst ` set (rlBuckets l') = insert k (fst ` set (rlBuckets ?l1))"
    using arg_cong [OF l'(4), of dom] by (simp add: dom_map_of_conv_image_fst)
  then have "card (fst ` set (rlBuckets l') \<union> fst ` set reqs) \<le> maxBuckets"
    using order_trans [OF card_mono [OF fin, of "fst ` set (rlBuckets l') \<union> fst ` set reqs"] Cons.prems(4)] sub
    by (simp add: subset_iff)
  then have IH: "decisionsOn key reqs (runLimiter l' reqs) =
      ownBucket ?r (map_of (rlBuckets l') key) (timesOf key reqs)"
    using Cons.IH [OF l'(2) srt] Cons.prems(3) l'(3) by simp
  have later: "\<And>u. u \<in> set (timesOf key reqs) \<Longrightarrow> t \<le> u" using srt by (auto simp: timesOf_def)
  show ?case
  proof (cases "k = key")
    case True
    then show ?thesis
      using IH l' req by (simp add: timesOf_def afterTake_def Let_def not_less split: if_splits)
  next
    case False
    then have "ownBucket ?r (map_of (rlBuckets l') key) (timesOf key reqs) =
        ownBucket ?r (map_of (rlBuckets l) key) (timesOf key reqs)"
      using evict_level [OF Cons.prems(1) k(2)] later l'(4) by (intro ownBucket_cong) simp
    then show ?thesis using False IH l' req by (simp add: timesOf_def)
  qed
qed (simp add: timesOf_def)

definition limiterAfter :: "apiKeyRateLimiter \<Rightarrow> (string \<times> int) list \<Rightarrow> apiKeyRateLimiter" where
  "limiterAfter l reqs = fold (\<lambda>(k, t) l. snd (allow k t l)) reqs l"

lemma level_afterTake:
  assumes "\<forall>b. bo = Some b \<longrightarrow> bucket_ok rate T b" "T \<le> t" "0 < rate"
  shows "level rate (Some (snd (afterTake rate bo t))) t =
    (if level rate bo t \<ge> 1 then level rate bo t - 1 else level rate bo t)"
  using level_Some [OF afterTake_ok [OF assms] order_refl assms(3)] level_bounds [OF assms]
  by (simp add: afterTake_def Let_def min_def)

text \<open>One request changes the level of its own key by the token it takes, and no other level.\<close>

lemma allow_level:
  assumes "limiter_ok T l" "T \<le> t"
  shows "limiter_ok t (snd (allow k t l)) \<and> rlRatePerMin (snd (allow k t l)) = rlRatePerMin l \<and>
    level (rlRatePerMin l) (map_of (rlBuckets (snd (allow k t l))) key) t =
      level (rlRatePerMin l) (map_of (rlBuckets l) key) t - (if k = key \<and> fst (allow k t l) then 1 else 0)"
proof (cases "k = []")
  case True
  have "bucket_ok r t b" if "bucket_ok r T b" for r b using that assms(2) by (simp add: bucket_ok_def)
  then show ?thesis using True assms(1) by (fastforce simp: allow_def limiter_ok_def)
next
  case False
  let ?r = "rlRatePerMin l"
  have r: "0 < ?r" using assms(1) by (simp add: limiter_ok_def)
  note ev = evict_ok [OF assms] and lv = evict_level [OF assms order_refl]
  have own: "level ?r (Some (snd (afterTake ?r (map_of (rlBuckets l) k) t))) t =
      level ?r (map_of (rlBuckets l) k) t - (if level ?r (map_of (rlBuckets l) k) t \<ge> 1 then 1 else 0)"
    using level_afterTake [of "map_of (rlBuckets l) k" ?r T t] bucket_lookup [OF assms(1)] assms(2) r by simp
  show ?thesis using allow_effect [OF assms False]
  proof (elim disjE exE conjE)
    assume "allow k t l = (False, evictStaleLocked t l)"
    then show ?thesis using ev lv by simp
  next
    fix l'
    assume "allow k t l = (1 \<le> level ?r (map_of (rlBuckets l) k) t, l')" "limiter_ok t l'" "rlRatePerMin l' = ?r"
      "map_of (rlBuckets l') = (map_of (rlBuckets (evictStaleLocked t l)))(k \<mapsto> snd (afterTake ?r (map_of (rlBuckets l) k) t))"
    then show ?thesis using own lv by simp
  qed
qed

lemma limiterAfter_ok:
  assumes "limiter_ok T l" "sorted (T # map snd reqs)"
  shows "limiter_ok (last (T # map snd reqs)) (limiterAfter l reqs) \<and>
    rlRatePerMin (limiterAfter l reqs) = rlRatePerMin l"
  using assms
proof (induction reqs arbitrary: T l)
  case (Cons req reqs)
  then show ?case
    using allow_level [OF Cons.prems(1), of "snd req" "fst req"] Cons.IH [of "snd req" "snd (allow (fst req) (snd req) l)"]
    by (simp add: limiterAfter_def case_prod_beta)
qed (simp add: limiterAfter_def)

lemma runLimiter_bound:
  assumes "limiter_ok T l" "sorted (T # map snd reqs)" "last (T # map snd reqs) \<le> E"
  shows "of_nat (length (filter id (decisionsOn key reqs (runLimiter l reqs)))) \<le>
    level (rlRatePerMin l) (map_of (rlBuckets l) key) T + of_int (E - T) * perNano (rlRatePerMin l)"
  using assms
proof (induction reqs arbitrary: T l)
  case Nil
  have r: "0 < rlRatePerMin l" using Nil.prems(1) by (simp add: limiter_ok_def)
  then have "0 \<le> of_int (E - T) * perNano (rlRatePerMin l)"
    using Nil.prems(3) by (intro mult_nonneg_nonneg) (simp_all add: perNano_def)
  then show ?case
    using level_bounds(1) [of "map_of (rlBuckets l) key" "rlRatePerMin l" T T] bucket_lookup [OF Nil.prems(1)] r by simp
next
  case (Cons req reqs)
  obtain k t where req: "req = (k, t)" by fastforce
  let ?r = "rlRatePerMin l"
  have t: "T \<le> t" and srt: "sorted (t # map snd reqs)" "last (t # map snd reqs) \<le> E" using Cons.prems req by auto
  have r: "0 < ?r" using Cons.prems(1) by (simp add: limiter_ok_def)
  obtain ok l' where a: "allow k t l = (ok, l')" by fastforce
  note al = allow_level [OF Cons.prems(1) t, of k key, unfolded a fst_conv snd_conv]
  have al1: "limiter_ok t l'" "rlRatePerMin l' = ?r" using al by simp_all
  have IH: "of_nat (length (filter id (decisionsOn key reqs (runLimiter l' reqs)))) \<le>
      level ?r (map_of (rlBuckets l') key) t + of_int (E - t) * perNano ?r"
    using Cons.IH [OF al1(1) srt] by (simp only: al1(2))
  have "level ?r (map_of (rlBuckets l) key) t \<le>
      level ?r (map_of (rlBuckets l) key) T + of_int (t - T) * perNano ?r"
    using level_later [of "map_of (rlBuckets l) key" ?r T T t] bucket_lookup [OF Cons.prems(1)] t r by simp
  moreover have "of_int (E - T) * perNano ?r = of_int (t - T) * perNano ?r + of_int (E - t) * perNano ?r"
    by (simp add: algebra_simps)
  ultimately show ?case using IH al by (auto simp: req a id_def split: if_splits)
qed

section \<open>Properties\<close>

text \<open>
  C37: the request rate of a key is bounded. In every history of the limiter on a clock that does not
  run backwards, evictions, other keys and forced sweeps included, the requests of one key that are let
  through from one time to another are at most the configured rate per minute plus what the rate allows
  for the time between.
\<close>

theorem key_rate_bounded:
  assumes "sorted (map snd (before @ (k0, t0) # rest))" "E = last (t0 # map snd rest)"
  shows "of_nat (length (filter id (decisionsOn key ((k0, t0) # rest)
      (runLimiter (limiterAfter (newAPIKeyRateLimiter rate) before) ((k0, t0) # rest))))) \<le>
    of_int (rlRatePerMin (newAPIKeyRateLimiter rate)) * (1 + of_int (E - t0) / 60000000000 :: rat)"
proof -
  let ?r = "rlRatePerMin (newAPIKeyRateLimiter rate)" and ?l = "limiterAfter (newAPIKeyRateLimiter rate) before"
  let ?T = "hd (map snd before @ [t0])"
  have all: "sorted (map snd before)" "\<forall>x\<in>set (map snd before). x \<le> t0" "sorted (t0 # map snd rest)"
    using assms(1) by (auto simp: sorted_append)
  have s1: "sorted (?T # map snd before)" using all(1) by (cases before) auto
  have s2: "last (?T # map snd before) \<le> t0"
  proof (cases before)
    case (Cons x xs)
    then have "last (?T # map snd before) \<in> set (map snd before)" by (metis last_ConsR last_in_set list.map_disc_iff list.distinct(1))
    then show ?thesis using all(2) by blast
  qed simp
  have s3: "sorted (t0 # t0 # map snd rest)" using all(3) by simp
  note s = s1 s2 s3
  have ok: "limiter_ok (last (?T # map snd before)) ?l" "rlRatePerMin ?l = ?r"
    using limiterAfter_ok [OF new_limiter_ok s(1)] by simp_all
  then have l: "limiter_ok t0 ?l" "0 < ?r" using s(2) by (auto simp: limiter_ok_def bucket_ok_def)
  have "level ?r (map_of (rlBuckets ?l) key) t0 \<le> of_int ?r"
    using level_bounds(2) [of "map_of (rlBuckets ?l) key" ?r t0 t0] bucket_lookup [OF l(1)] ok(2) l(2) by simp
  then show ?thesis
    using runLimiter_bound [OF l(1), of "(k0, t0) # rest" E key] s(3) assms(2) ok(2)
    by (simp add: perNano_def algebra_simps)
qed

theorem key_rate_bounded_witness:
  "of_nat (length (filter id (decisionsOn ''a'' [(''a'', 0), (''a'', 1), (''b'', 2), (''a'', 30000000000)]
      (runLimiter (limiterAfter (newAPIKeyRateLimiter 1) []) [(''a'', 0), (''a'', 1), (''b'', 2), (''a'', 30000000000)])))) \<le>
    (of_int (rlRatePerMin (newAPIKeyRateLimiter 1)) * (1 + of_int (30000000000 - 0) / 60000000000) :: rat)"
  using key_rate_bounded [of "[]" "''a''" 0 "[(''a'', 1), (''b'', 2), (''a'', 30000000000)]" 30000000000 "''a''" 1]
  by simp

text \<open>
  Keys do not influence each other, and dropping idle buckets is invisible. While no more than the
  maximal number of keys are in use, the decisions on the requests of a key are those of a token bucket
  of its own that is never dropped, whatever the other keys do and whenever the limiter sweeps.
\<close>

theorem limiter_isolates_keys:
  assumes "sorted (map snd reqs)" "[] \<notin> fst ` set reqs" "card (fst ` set reqs) \<le> maxBuckets" "key \<noteq> []"
  shows "decisionsOn key reqs (runLimiter (newAPIKeyRateLimiter rate) reqs) =
    ownBucket (if rate \<le> 0 then 60 else rate) None (timesOf key reqs)"
proof -
  let ?l = "newAPIKeyRateLimiter rate"
  have s: "sorted (hd (map snd reqs @ [0]) # map snd reqs)" using assms(1) by (cases reqs) auto
  have l: "rlRatePerMin ?l = (if rate \<le> 0 then 60 else rate)" "rlBuckets ?l = []"
    by (simp_all add: newAPIKeyRateLimiter_def)
  have c: "card (fst ` set (rlBuckets ?l) \<union> fst ` set reqs) \<le> maxBuckets" using assms(3) l(2) by simp
  show ?thesis using runLimiter_isolates [OF new_limiter_ok s assms(2) c assms(4)] by (simp only: l map_of.simps)
qed

theorem limiter_isolates_keys_witness:
  "decisionsOn ''a'' [(''a'', 0), (''b'', 1), (''a'', 1200000000000)]
     (runLimiter (newAPIKeyRateLimiter 1) [(''a'', 0), (''b'', 1), (''a'', 1200000000000)]) = [True, True]"
proof -
  have "decisionsOn ''a'' [(''a'', 0), (''b'', 1), (''a'', 1200000000000)]
     (runLimiter (newAPIKeyRateLimiter 1) [(''a'', 0), (''b'', 1), (''a'', 1200000000000)]) =
     ownBucket 1 None (timesOf ''a'' [(''a'', 0), (''b'', 1), (''a'', 1200000000000)])"
    using limiter_isolates_keys [of "[(''a'', 0), (''b'', 1), (''a'', 1200000000000)]" "''a''" 1]
    by (simp add: maxBuckets_def card_insert_if)
  then show ?thesis
    by (simp add: timesOf_def afterTake_def level_def refill_def Let_def)
qed

section \<open>Who gets through\<close>

lemma matchFrom_Some:
  "matchFrom i want keys = Some j \<Longrightarrow>
     i \<le> j \<and> j - i < length keys \<and> \<not> kDisabled (keys ! (j - i)) \<and> kHash (keys ! (j - i)) \<noteq> [] \<and>
     ConstantTimeCompare (kHash (keys ! (j - i))) want = 1"
proof (induction keys arbitrary: i)
  case (Cons key keys)
  then show ?case
    by (fastforce simp: Suc_diff_le nth_Cons' split: if_splits)
qed simp

lemma matchFrom_None:
  "matchFrom i want keys = None \<longleftrightarrow>
     \<not> list_ex (\<lambda>key. \<not> (kDisabled key \<or> kHash key = []) \<and> ConstantTimeCompare (kHash key) want = 1) keys"
  by (induction keys arbitrary: i) auto

lemma match_validates: "(matchReadOnlyAPIKey cfg plain \<noteq> None) = ValidateReadOnlyAPIKey cfg plain"
  by (cases cfg) (simp_all add: matchReadOnlyAPIKey_def ValidateReadOnlyAPIKey_def matchFrom_None del: not_None_eq)

lemma markUsed_exact:
  "markReadOnlyAPIKeyUsed plain usedAt s = (ok, s') \<Longrightarrow>
     (if ValidateReadOnlyAPIKey (asCfg s) plain
      then ok \<and> asLimiter s' = asLimiter s \<and>
        (\<exists>c i. asCfg s = Some c \<and> i < length (cfgReadOnlyAPIKeys c) \<and>
           kHash (cfgReadOnlyAPIKeys c ! i) = HashAPIKey plain \<and> \<not> kDisabled (cfgReadOnlyAPIKeys c ! i) \<and>
           asCfg s' = Some (c\<lparr>cfgReadOnlyAPIKeys :=
             (cfgReadOnlyAPIKeys c)[i := (cfgReadOnlyAPIKeys c ! i)\<lparr>kLastUsedAt := usedAt\<rparr>]\<rparr>))
      else \<not> ok \<and> s' = s)"
proof (cases "matchReadOnlyAPIKey (asCfg s) plain")
  case None
  then show "markReadOnlyAPIKeyUsed plain usedAt s = (ok, s') \<Longrightarrow> ?thesis"
    by (auto simp: markReadOnlyAPIKeyUsed_def match_validates [symmetric] split: option.splits)
next
  case (Some i)
  then obtain c where c: "asCfg s = Some c" "matchFrom 0 (HashAPIKey plain) (cfgReadOnlyAPIKeys c) = Some i"
    by (auto simp: matchReadOnlyAPIKey_def split: option.splits if_splits)
  have "ValidateReadOnlyAPIKey (asCfg s) plain" using Some by (simp add: match_validates [symmetric])
  moreover have "i < length (cfgReadOnlyAPIKeys c)" "\<not> kDisabled (cfgReadOnlyAPIKeys c ! i)"
      "kHash (cfgReadOnlyAPIKeys c ! i) = HashAPIKey plain"
    using matchFrom_Some [OF c(2)] by (auto simp: ConstantTimeCompare_def split: if_splits)
  ultimately show "markReadOnlyAPIKeyUsed plain usedAt s = (ok, s') \<Longrightarrow> ?thesis"
    using Some c(1) by (auto simp: markReadOnlyAPIKeyUsed_def)
qed

text \<open>
  The API is closed to everyone without a key. A request reaches a handler of the read-only API only
  with a key whose fingerprint was stored and enabled both when it was looked up and, after whatever the
  administrator changed meanwhile, when its use was recorded; such a request is turned away exactly when its
  bucket is empty or the key has gone; and recording the use changes nothing but one time stamp.
\<close>

theorem api_needs_live_key:
  "(case apiKeyMiddleware between t usedAt h s of
      (answer, s') \<Rightarrow>
        let plain = extractAPIKey h;
            bucket = (case readOnlyAPIKeyMatch s plain of Some (k, f) \<Rightarrow> if k = [] then f else k | None \<Rightarrow> []);
            s1 = snd (ensureAPIKeyLimiter s);
            ok = fst (allow bucket t (fst (ensureAPIKeyLimiter s)));
            s2 = s1\<lparr>asLimiter := Some (snd (allow bucket t (fst (ensureAPIKeyLimiter s))))\<rparr> in
        if \<not> ValidateReadOnlyAPIKey (asCfg s) plain then answer = Unauthorized \<and> s' = s
        else if \<not> ok then answer = RateLimited \<and> s' = s2
        else if \<not> ValidateReadOnlyAPIKey (asCfg (between s2)) plain then answer = Unauthorized \<and> s' = between s2
        else answer = Forwarded \<and> asLimiter s' = asLimiter (between s2) \<and>
          (\<exists>c i. asCfg (between s2) = Some c \<and> i < length (cfgReadOnlyAPIKeys c) \<and>
             kHash (cfgReadOnlyAPIKeys c ! i) = HashAPIKey plain \<and> \<not> kDisabled (cfgReadOnlyAPIKeys c ! i) \<and>
             asCfg s' = Some (c\<lparr>cfgReadOnlyAPIKeys :=
               (cfgReadOnlyAPIKeys c)[i := (cfgReadOnlyAPIKeys c ! i)\<lparr>kLastUsedAt := usedAt\<rparr>]\<rparr>)))"
proof -
  let ?plain = "extractAPIKey h"
  note v = match_validates [symmetric]
  show ?thesis
  proof (cases "readOnlyAPIKeyMatch s ?plain")
    case None
    then have "\<not> ValidateReadOnlyAPIKey (asCfg s) ?plain"
      by (auto simp: readOnlyAPIKeyMatch_def v matchReadOnlyAPIKey_def split: option.splits)
    then show ?thesis using None by (simp add: apiKeyMiddleware_def Let_def)
  next
    case (Some key)
    then have "ValidateReadOnlyAPIKey (asCfg s) ?plain"
      by (auto simp: readOnlyAPIKeyMatch_def v split: option.splits)
    moreover obtain l0 s1 where e: "ensureAPIKeyLimiter s = (l0, s1)" by fastforce
    moreover obtain k f where key: "key = (k, f)" by fastforce
    moreover obtain ok l' where a: "allow (if k = [] then f else k) t l0 = (ok, l')" by fastforce
    moreover obtain used s3 where m: "markReadOnlyAPIKeyUsed ?plain usedAt (between (s1\<lparr>asLimiter := Some l'\<rparr>)) = (used, s3)"
      by fastforce
    ultimately show ?thesis
      using Some markUsed_exact [OF m]
      by (cases used; cases ok) (simp_all add: apiKeyMiddleware_def Let_def split: if_splits)
  qed
qed

end
