(* ===== verification/Login.thy ===== *)
theory Login
  imports ApiKeys Targets
begin

text \<open>
  Who may use the administration interface (\<open>webui/server.go\<close>): session tokens, the lockout after wrong
  passwords, the client a login is counted for, the check against forged requests, and the middleware in
  front of every administrative handler.

  Times are nanoseconds; the zero time is \<open>None\<close>. The session cookie and the host and scheme of a parsed
  URL are what \<open>net/http\<close> and \<open>net/url\<close> give for the request.
\<close>

section \<open>Sessions\<close>

type_synonym sessions = "(string \<times> int) list"

definition sessionTTL :: int where
  "sessionTTL = 86400000000000"

definition pruneExpiredSessionsLocked :: "int \<Rightarrow> sessions \<Rightarrow> sessions" where
  "pruneExpiredSessionsLocked t ss = filter (\<lambda>(token, expiry). t < expiry) ss"

definition newSession :: "string \<Rightarrow> int \<Rightarrow> sessions \<Rightarrow> sessions" where
  "newSession token t ss = AList.update token (t + sessionTTL) (pruneExpiredSessionsLocked t ss)"

definition validSession :: "string option \<Rightarrow> int \<Rightarrow> sessions \<Rightarrow> bool" where
  "validSession cookie t ss =
     (case cookie of
        None \<Rightarrow> False
      | Some token \<Rightarrow> (case map_of ss token of None \<Rightarrow> False | Some expiry \<Rightarrow> t < expiry))"

section \<open>The client of a login\<close>

record WebRequest =
  wrMethod :: string
  wrPath :: string
  wrHost :: string
  wrRemoteAddr :: string
  wrHeader :: header
  wrCookie :: "string option"

text \<open>One header value, read from its end; the argument is the value reversed.\<close>

function scanForwarded :: "string \<Rightarrow> string option" where
  "scanForwarded rv =
     (if rv = [] then None
      else
        (case ParseIP (TrimSpace (rev (takeWhile (\<lambda>c. c \<noteq> CHR '','') rv))) of
           Some ip \<Rightarrow> Some (IPString ip)
         | None \<Rightarrow>
             (case dropWhile (\<lambda>c. c \<noteq> CHR '','') rv of
                [] \<Rightarrow> None
              | _ # rest \<Rightarrow> scanForwarded rest)))"
  by pat_completeness auto
termination
proof (relation "measure length")
  fix rv rest :: string and c
  assume "dropWhile (\<lambda>c. c \<noteq> CHR '','') rv = c # rest"
  then have "length (c # rest) \<le> length rv" by (metis length_dropWhile_le)
  then show "(rest, rv) \<in> measure length" by simp
qed simp

declare scanForwarded.simps [simp del]

fun firstForwarded :: "string list \<Rightarrow> string" where
  "firstForwarded [] = []"
| "firstForwarded (value # values) =
     (case scanForwarded (rev value) of Some ip \<Rightarrow> ip | None \<Rightarrow> firstForwarded values)"

definition rightmostForwardedIP :: "string list \<Rightarrow> string" where
  "rightmostForwardedIP values = firstForwarded (rev values)"

definition remoteAddressHost :: "string \<Rightarrow> string" where
  "remoteAddressHost remoteAddr =
     (case SplitHostPort remoteAddr of
        None \<Rightarrow> remoteAddr
      | Some (host, _) \<Rightarrow> if host = [] then remoteAddr else host)"

definition isLoopbackRemote :: "string \<Rightarrow> bool" where
  "isLoopbackRemote remoteAddr =
     (let host = (case SplitHostPort remoteAddr of None \<Rightarrow> remoteAddr | Some (h, _) \<Rightarrow> h) in
      case ParseIP host of None \<Rightarrow> False | Some ip \<Rightarrow> IsLoopback ip)"

definition loginClientKey :: "WebRequest \<Rightarrow> string" where
  "loginClientKey r =
     (let remoteHost = remoteAddressHost (wrRemoteAddr r);
          forwardedIP = rightmostForwardedIP (headerValues (wrHeader r) ''X-Forwarded-For'') in
      if isLoopbackRemote (wrRemoteAddr r) \<and> forwardedIP \<noteq> [] then forwardedIP else remoteHost)"

section \<open>Lockout\<close>

record loginAttempt =
  laFailures :: nat
  laLockedUntil :: "int option"
  laLastFailure :: "int option"

type_synonym attempts = "(string \<times> loginAttempt) list"

definition maxLoginFailures :: nat where
  "maxLoginFailures = 5"

definition loginLockout :: int where
  "loginLockout = 60000000000"

definition zeroAttempt :: loginAttempt where
  "zeroAttempt = \<lparr>laFailures = 0, laLockedUntil = None, laLastFailure = None\<rparr>"

definition attemptOf :: "attempts \<Rightarrow> string \<Rightarrow> loginAttempt" where
  "attemptOf as key = (case map_of as key of None \<Rightarrow> zeroAttempt | Some a \<Rightarrow> a)"

definition lockedAt :: "loginAttempt \<Rightarrow> int \<Rightarrow> bool" where
  "lockedAt a t = (case laLockedUntil a of None \<Rightarrow> False | Some u \<Rightarrow> t < u)"

text \<open>The distance from the zero time saturates far above the lockout.\<close>

definition longSince :: "loginAttempt \<Rightarrow> int \<Rightarrow> bool" where
  "longSince a t = (case laLastFailure a of None \<Rightarrow> True | Some f \<Rightarrow> t - f > loginLockout)"

definition loginRateLimited :: "string \<Rightarrow> int \<Rightarrow> attempts \<Rightarrow> bool" where
  "loginRateLimited key t as = lockedAt (attemptOf as key) t"

definition pruneStaleLoginAttemptsLocked :: "int \<Rightarrow> attempts \<Rightarrow> attempts" where
  "pruneStaleLoginAttemptsLocked t as = filter (\<lambda>(key, a). \<not> (\<not> lockedAt a t \<and> longSince a t)) as"

definition recordLoginFailure :: "string \<Rightarrow> int \<Rightarrow> attempts \<Rightarrow> attempts" where
  "recordLoginFailure key t as0 =
     (let as = pruneStaleLoginAttemptsLocked t as0;
          a = attemptOf as key;
          n = (if longSince a t then 0 else laFailures a) + 1 in
      AList.update key
        \<lparr>laFailures = n, laLockedUntil = (if n \<ge> maxLoginFailures then Some (t + loginLockout) else laLockedUntil a),
         laLastFailure = Some t\<rparr> as)"

definition recordLoginSuccess :: "string \<Rightarrow> attempts \<Rightarrow> attempts" where
  "recordLoginSuccess key as = filter (\<lambda>(k, a). k \<noteq> key) as"

section \<open>Forged requests\<close>

definition isUnsafeMethod :: "string \<Rightarrow> bool" where
  "isUnsafeMethod m = (m \<notin> {''GET'', ''HEAD'', ''OPTIONS'', ''TRACE''})"

definition validCSRFFromHeader :: "WebRequest \<Rightarrow> bool" where
  "validCSRFFromHeader r =
     (case wrCookie r of
        None \<Rightarrow> False
      | Some value \<Rightarrow>
          (let token = headerGet (wrHeader r) ''X-CSRF-Token'' in
           value \<noteq> [] \<and> token \<noteq> [] \<and> length token = length value \<and> ConstantTimeCompare token value = 1))"

text \<open>\<open>parse\<close> is \<open>url.Parse\<close>: the scheme and the host, or nothing on an error.\<close>

type_synonym url_parser = "string \<Rightarrow> (string \<times> string) option"

definition sameOriginHeader :: "url_parser \<Rightarrow> string \<Rightarrow> string \<Rightarrow> bool" where
  "sameOriginHeader parse raw host =
     (raw \<noteq> [] \<and> host \<noteq> [] \<and>
      (case parse raw of
         None \<Rightarrow> False
       | Some (scheme, h) \<Rightarrow> h \<noteq> [] \<and> h = host \<and> scheme \<in> {''http'', ''https''}))"

definition validCSRF :: "url_parser \<Rightarrow> WebRequest \<Rightarrow> bool" where
  "validCSRF parse r \<longleftrightarrow>
     validCSRFFromHeader r \<or> sameOriginHeader parse (headerGet (wrHeader r) ''Origin'') (wrHost r) \<or>
     sameOriginHeader parse (headerGet (wrHeader r) ''Referer'') (wrHost r)"

datatype web_answer = Next bool | WebError nat string | Redirect string | LoginPage nat

text \<open>\<open>Next True\<close>: the handler runs with its body limited to \<open>maxAPIRequestBody\<close>.\<close>

definition isAPIPath :: "string \<Rightarrow> bool" where
  "isAPIPath path = (length path \<ge> 4 \<and> take 4 path = ''/api'')"

definition authMiddleware :: "url_parser \<Rightarrow> int \<Rightarrow> sessions \<Rightarrow> WebRequest \<Rightarrow> web_answer" where
  "authMiddleware parse t ss r =
     (if \<not> validSession (wrCookie r) t ss then
        (if isAPIPath (wrPath r) then WebError 401 ''unauthorized'' else Redirect ''/login'')
      else if isAPIPath (wrPath r) \<and> isUnsafeMethod (wrMethod r) then
        (if \<not> validCSRF parse r then WebError 403 ''forbidden'' else Next True)
      else Next False)"

section \<open>Login and logout\<close>

record WebState =
  wbSessions :: sessions
  wbAttempts :: attempts
  wbPasswordHash :: string

text \<open>
  \<open>upgradeWebUIPasswordHash\<close>: \<open>salt\<close> is the random salt or nothing on an error, \<open>saved\<close> whether the
  configuration could be written.
\<close>

definition upgradeWebUIPasswordHash :: "string option \<Rightarrow> bool \<Rightarrow> string \<Rightarrow> WebState \<Rightarrow> WebState" where
  "upgradeWebUIPasswordHash salt saved plain st =
     (case salt of
        None \<Rightarrow> st
      | Some s \<Rightarrow>
          if HasPrefix (wbPasswordHash st) (pbkdf2Scheme @ ''$'') then st
          else if saved then st\<lparr>wbPasswordHash := HashWebUIPassword s plain\<rparr> else st)"

datatype form = FormTooLarge | FormInvalid | Form string

record LoginEnv =
  leForm :: form
  leSalt :: "string option"
  leSaved :: bool
  leToken :: string

text \<open>
  \<open>handleLogin\<close> in the two sections other requests may come between: the lockout is looked up first, and
  the password is checked and the outcome recorded later, under the time taken at the start.
\<close>

definition loginFinish :: "LoginEnv \<Rightarrow> int \<Rightarrow> int \<Rightarrow> WebRequest \<Rightarrow> WebState \<Rightarrow> web_answer \<times> WebState" where
  "loginFinish e started t r st =
     (case leForm e of
        FormTooLarge \<Rightarrow> (WebError 413 ''request body too large'', st)
      | FormInvalid \<Rightarrow> (WebError 400 ''invalid request'', st)
      | Form password \<Rightarrow>
          (case VerifyWebUIPassword password (wbPasswordHash st) of
             (matched, needsUpgrade) \<Rightarrow>
               if \<not> matched then
                 (LoginPage 200, st\<lparr>wbAttempts := recordLoginFailure (loginClientKey r) started (wbAttempts st)\<rparr>)
               else
                 (let st1 = st\<lparr>wbAttempts := recordLoginSuccess (loginClientKey r) (wbAttempts st)\<rparr>;
                      st2 = (if needsUpgrade then upgradeWebUIPasswordHash (leSalt e) (leSaved e) password st1 else st1) in
                  (Redirect ''/'', st2\<lparr>wbSessions := newSession (leToken e) t (wbSessions st2)\<rparr>))))"

definition handleLogin :: "LoginEnv \<Rightarrow> int \<Rightarrow> int \<Rightarrow> WebRequest \<Rightarrow> WebState \<Rightarrow> web_answer \<times> WebState" where
  "handleLogin e started t r st =
     (if wrMethod r = ''GET'' then (LoginPage 200, st)
      else if wrMethod r \<noteq> ''POST'' then (WebError 405 ''method not allowed'', st)
      else if loginRateLimited (loginClientKey r) started (wbAttempts st) then (LoginPage 429, st)
      else loginFinish e started t r st)"

definition handleLogout :: "url_parser \<Rightarrow> WebRequest \<Rightarrow> WebState \<Rightarrow> web_answer \<times> WebState" where
  "handleLogout parse r st =
     (if wrMethod r \<noteq> ''POST'' then (WebError 405 ''method not allowed'', st)
      else if \<not> validCSRF parse r then (WebError 403 ''forbidden'', st)
      else
        (case wrCookie r of
           None \<Rightarrow> (Redirect ''/login'', st)
         | Some token \<Rightarrow> (Redirect ''/login'', st\<lparr>wbSessions := AList.delete token (wbSessions st)\<rparr>)))"

section \<open>The wrong guesses of a client\<close>

type_synonym login_history = "(LoginEnv \<times> int \<times> int \<times> WebRequest) list"

definition startOf :: "LoginEnv \<times> int \<times> int \<times> WebRequest \<Rightarrow> int" where
  "startOf h = fst (snd h)"

lemma startOf_simp [simp]: "startOf (e, s, t, r) = s"
  by (simp add: startOf_def)

text \<open>The start times of the wrong passwords checked for a client since its last successful login.\<close>

definition noteGuess :: "string \<Rightarrow> WebRequest \<Rightarrow> int \<Rightarrow> web_answer \<Rightarrow> int list \<Rightarrow> int list" where
  "noteGuess key r s answer ws =
     (if loginClientKey r \<noteq> key then ws
      else if wrMethod r = ''POST'' \<and> answer = LoginPage 200 then ws @ [s]
      else if answer = Redirect ''/'' then [] else ws)"

fun wrongGuesses :: "string \<Rightarrow> login_history \<Rightarrow> WebState \<Rightarrow> int list \<Rightarrow> int list" where
  "wrongGuesses key [] st ws = ws"
| "wrongGuesses key ((e, s, t, r) # hist) st ws =
     (case handleLogin e s t r st of (answer, st') \<Rightarrow> wrongGuesses key hist st' (noteGuess key r s answer ws))"

definition spaced :: "int list \<Rightarrow> bool" where
  "spaced ws \<longleftrightarrow> (\<forall>i. i + maxLoginFailures < length ws \<longrightarrow> loginLockout \<le> ws ! (i + maxLoginFailures) - ws ! i)"

definition lock_inv :: "int \<Rightarrow> int list \<Rightarrow> loginAttempt option \<Rightarrow> bool" where
  "lock_inv T ws ao \<longleftrightarrow> sorted (ws @ [T]) \<and> spaced ws \<and>
     (case ao of
        None \<Rightarrow> ws = [] \<or> T - last ws > loginLockout
      | Some a \<Rightarrow> ws \<noteq> [] \<and> laLastFailure a = Some (last ws) \<and>
          (\<forall>j. 0 < j \<and> j \<le> length ws \<and> last ws - ws ! (length ws - j) < loginLockout \<longrightarrow> j \<le> laFailures a) \<and>
          (maxLoginFailures \<le> laFailures a \<longrightarrow> laLockedUntil a = Some (last ws + loginLockout)))"

lemma lock_inv_later: "lock_inv T ws ao \<Longrightarrow> T \<le> t \<Longrightarrow> lock_inv t ws ao"
  by (auto simp: lock_inv_def sorted_append split: option.splits)

lemma lock_inv_success: "sorted [T] \<Longrightarrow> lock_inv T [] None"
  by (simp add: lock_inv_def spaced_def)

text \<open>The entry after pruning.\<close>

definition pruned :: "int \<Rightarrow> loginAttempt option \<Rightarrow> loginAttempt option" where
  "pruned t ao = (case ao of None \<Rightarrow> None | Some a \<Rightarrow> if \<not> lockedAt a t \<and> longSince a t then None else Some a)"

lemma map_of_prune:
  "distinct (map fst as) \<Longrightarrow> map_of (pruneStaleLoginAttemptsLocked t as) key = pruned t (map_of as key)"
  using map_of_filter_distinct [of as "\<lambda>a. \<not> (\<not> lockedAt a t \<and> longSince a t)" key]
  by (auto simp: pruneStaleLoginAttemptsLocked_def pruned_def split: option.splits)

lemma lock_inv_pruned: "lock_inv t ws ao \<Longrightarrow> lock_inv t ws (pruned t ao)"
  by (auto simp: lock_inv_def pruned_def longSince_def split: option.splits)

definition failed :: "int \<Rightarrow> loginAttempt option \<Rightarrow> loginAttempt" where
  "failed t ao =
     (let a = (case pruned t ao of None \<Rightarrow> zeroAttempt | Some a \<Rightarrow> a);
          n = (if longSince a t then 0 else laFailures a) + 1 in
      \<lparr>laFailures = n, laLockedUntil = (if n \<ge> maxLoginFailures then Some (t + loginLockout) else laLockedUntil a),
       laLastFailure = Some t\<rparr>)"

lemma recent_entry:
  assumes "lock_inv t ws ao" "t - last ws < loginLockout" "ws \<noteq> []"
  obtains a where "ao = Some a" "\<not> longSince a t" "pruned t ao = Some a"
proof -
  obtain a where a: "ao = Some a" using assms by (auto simp: lock_inv_def split: option.splits)
  moreover have "\<not> longSince a t" using assms a by (auto simp: lock_inv_def longSince_def)
  ultimately show thesis using that by (simp add: pruned_def)
qed

lemma last_ge_nth:
  fixes ws :: "int list"
  assumes "sorted (ws @ [t])" "i < length ws"
  shows "ws ! i \<le> last ws" "last ws \<le> t"
proof -
  have ne: "ws \<noteq> []" using assms(2) by auto
  then show "last ws \<le> t" using assms(1) by (simp add: sorted_append)
  have "ws ! i \<le> ws ! (length ws - 1)" using assms by (intro sorted_nth_mono) (auto simp: sorted_append)
  then show "ws ! i \<le> last ws" using ne by (simp add: last_conv_nth)
qed

lemma lock_inv_failed:
  assumes lck: "lock_inv t ws ao" and free: "\<not> lockedAt (case ao of None \<Rightarrow> zeroAttempt | Some a \<Rightarrow> a) t"
  shows "lock_inv t (ws @ [t]) (Some (failed t ao))"
proof -
  let ?n = "length ws"
  have srt: "sorted (ws @ [t])" "spaced ws" using lck by (simp_all add: lock_inv_def)
  have count: "j \<le> laFailures (failed t ao)"
    if j: "0 < j" "j \<le> Suc ?n" "t - (ws @ [t]) ! (Suc ?n - j) < loginLockout" for j
  proof (cases "j = 1")
    case True
    then show ?thesis by (simp add: failed_def Let_def)
  next
    case False
    then obtain k where k: "j = Suc k" "0 < k" "k \<le> ?n" using j by (cases j) auto
    then have idx: "?n - k < ?n" "(ws @ [t]) ! (Suc ?n - j) = ws ! (?n - k)" by (auto simp: nth_append)
    note le = last_ge_nth [OF srt(1) idx(1)]
    have "ws \<noteq> []" using idx(1) by auto
    moreover have "t - last ws < loginLockout" using j(3) idx(2) le by linarith
    ultimately obtain a where a: "ao = Some a" "\<not> longSince a t" "pruned t ao = Some a"
      using recent_entry [OF lck] by blast
    have "k \<le> laFailures a" using lck a(1) k j(3) idx(2) le by (simp add: lock_inv_def)
    then show ?thesis using a k(1) by (simp add: failed_def Let_def)
  qed
  have new: "loginLockout \<le> t - ws ! i" if n: "i + maxLoginFailures = ?n" for i
  proof (rule ccontr)
    assume far: "\<not> ?thesis"
    have idx: "i < ?n" using n by (simp add: maxLoginFailures_def)
    note le = last_ge_nth [OF srt(1) idx]
    have "ws \<noteq> []" using idx by auto
    then obtain a where a: "ao = Some a" using recent_entry [OF lck] far le by force
    have "?n - maxLoginFailures = i" using n by simp
    then have "maxLoginFailures \<le> laFailures a"
      using lck far le n a by (simp add: lock_inv_def maxLoginFailures_def)
    then have "laLockedUntil a = Some (last ws + loginLockout)" using lck a by (simp add: lock_inv_def)
    then show False using free a far le by (simp add: lockedAt_def)
  qed
  have "spaced (ws @ [t])"
    unfolding spaced_def
  proof (intro allI impI)
    fix i
    assume "i + maxLoginFailures < length (ws @ [t])"
    then consider "i + maxLoginFailures < ?n" | "i + maxLoginFailures = ?n" "i < ?n"
      by (fastforce simp: maxLoginFailures_def)
    then show "loginLockout \<le> (ws @ [t]) ! (i + maxLoginFailures) - (ws @ [t]) ! i"
      using new [of i] srt(2) by cases (auto simp: nth_append spaced_def)
  qed
  then show ?thesis
    using srt(1) count by (auto simp: lock_inv_def sorted_append failed_def Let_def)
qed

lemma recordLoginFailure_entries:
  assumes "distinct (map fst as)"
  shows "distinct (map fst (recordLoginFailure key t as))"
    "map_of (recordLoginFailure key t as) k = (if k = key then Some (failed t (map_of as key)) else pruned t (map_of as k))"
proof -
  have d: "distinct (map fst (pruneStaleLoginAttemptsLocked t as))"
    using assms by (simp add: pruneStaleLoginAttemptsLocked_def distinct_map_filter)
  then show "distinct (map fst (recordLoginFailure key t as))"
    by (simp add: recordLoginFailure_def Let_def distinct_update)
  show "map_of (recordLoginFailure key t as) k = (if k = key then Some (failed t (map_of as key)) else pruned t (map_of as k))"
    by (simp add: recordLoginFailure_def Let_def update_conv' attemptOf_def failed_def map_of_prune [OF assms])
qed

lemma recordLoginSuccess_entries:
  assumes "distinct (map fst as)"
  shows "distinct (map fst (recordLoginSuccess key as))"
    "map_of (recordLoginSuccess key as) k = (if k = key then None else map_of as k)"
proof -
  show "distinct (map fst (recordLoginSuccess key as))"
    using assms by (simp add: recordLoginSuccess_def distinct_map_filter)
  show "map_of (recordLoginSuccess key as) k = (if k = key then None else map_of as k)"
    by (induction as) (auto simp: recordLoginSuccess_def)
qed

lemma upgrade_frame [simp]:
  "wbAttempts (upgradeWebUIPasswordHash salt saved p st) = wbAttempts st"
  "wbSessions (upgradeWebUIPasswordHash salt saved p st) = wbSessions st"
  by (auto simp: upgradeWebUIPasswordHash_def split: option.split)

text \<open>What one login does to the attempts.\<close>

lemma handleLogin_cases:
  obtains (same) "wbAttempts (snd (handleLogin e s t r st)) = wbAttempts st"
      "fst (handleLogin e s t r st) \<noteq> Redirect ''/''"
      "wrMethod r = ''POST'' \<Longrightarrow> fst (handleLogin e s t r st) \<noteq> LoginPage 200"
  | (wrong) "wrMethod r = ''POST''" "fst (handleLogin e s t r st) = LoginPage 200"
      "\<not> lockedAt (attemptOf (wbAttempts st) (loginClientKey r)) s"
      "wbAttempts (snd (handleLogin e s t r st)) = recordLoginFailure (loginClientKey r) s (wbAttempts st)"
  | (right) "fst (handleLogin e s t r st) = Redirect ''/''"
      "wbAttempts (snd (handleLogin e s t r st)) = recordLoginSuccess (loginClientKey r) (wbAttempts st)"
proof (cases "wrMethod r = ''POST'' \<and> \<not> loginRateLimited (loginClientKey r) s (wbAttempts st)")
  case False
  then show thesis by (intro same) (auto simp: handleLogin_def)
next
  case True
  then have h: "handleLogin e s t r st = loginFinish e s t r st" by (simp add: handleLogin_def)
  show thesis
  proof (cases "leForm e")
    case (Form password)
    then show thesis
      using True h right wrong
      by (cases "fst (VerifyWebUIPassword password (wbPasswordHash st))")
        (auto simp: loginFinish_def Let_def loginRateLimited_def case_prod_beta)
  qed (use h in \<open>auto simp: loginFinish_def intro: same\<close>)
qed

lemma handleLogin_lock:
  assumes "distinct (map fst (wbAttempts st))" "lock_inv T ws (map_of (wbAttempts st) key)" "T \<le> s"
  shows "distinct (map fst (wbAttempts (snd (handleLogin e s t r st)))) \<and>
    lock_inv s (noteGuess key r s (fst (handleLogin e s t r st)) ws)
      (map_of (wbAttempts (snd (handleLogin e s t r st))) key)"
proof -
  note i = lock_inv_later [OF assms(2,3)]
  show ?thesis
  proof (cases e s t r st rule: handleLogin_cases)
    case same
    then show ?thesis using i assms(1) by (auto simp: noteGuess_def)
  next
    case wrong
    then show ?thesis
      using i recordLoginFailure_entries [OF assms(1)] lock_inv_pruned [OF i] lock_inv_failed [OF i]
      by (auto simp: noteGuess_def attemptOf_def)
  next
    case right
    then show ?thesis
      using i recordLoginSuccess_entries [OF assms(1)] lock_inv_success by (auto simp: noteGuess_def)
  qed
qed

lemma wrongGuesses_spaced:
  assumes "distinct (map fst (wbAttempts st))" "lock_inv T ws (map_of (wbAttempts st) key)"
    "sorted (T # map startOf hist)"
  shows "spaced (wrongGuesses key hist st ws)"
  using assms
proof (induction hist arbitrary: T st ws)
  case Nil
  then show ?case by (simp add: lock_inv_def)
next
  case (Cons x hist)
  obtain e s t r where x: "x = (e, s, t, r)" by (metis prod_cases4)
  then have s: "T \<le> s" "sorted (s # map startOf hist)" using Cons.prems(3) by auto
  then show ?case
    using Cons.IH [OF _ _ s(2)] handleLogin_lock [OF Cons.prems(1,2) s(1), of e t r]
    by (simp add: x case_prod_beta)
qed

section \<open>Properties\<close>

text \<open>
  Guessing the administration password is slow. Among logins handled one after the other, whatever
  other clients do, six wrong passwords checked for one client without a success in between always span
  the lockout of a minute.
\<close>

theorem six_wrong_passwords_take_a_minute:
  assumes "sorted (map startOf hist)" "wbAttempts st = []"
    "ws = wrongGuesses key hist st []" "i + 5 < length ws"
  shows "60000000000 \<le> ws ! (i + 5) - ws ! i"
proof -
  let ?s = "map startOf hist"
  have "sorted (hd (?s @ [0]) # ?s)" using assms(1) by (cases hist) auto
  then have "spaced ws"
    using wrongGuesses_spaced [of st "hd (?s @ [0])" "[]" key hist] lock_inv_success [of "hd (?s @ [0])"] assms(2,3) by simp
  then show ?thesis using assms(4) by (simp add: spaced_def maxLoginFailures_def loginLockout_def)
qed

definition guessRequest :: WebRequest where
  "guessRequest = \<lparr>wrMethod = ''POST'', wrPath = ''/login'', wrHost = ''h'', wrRemoteAddr = ''192.0.2.1:4000'',
     wrHeader = Map.empty, wrCookie = None\<rparr>"

definition guessEnv :: "string \<Rightarrow> LoginEnv" where
  "guessEnv password = \<lparr>leForm = Form password, leSalt = None, leSaved = False, leToken = ''t''\<rparr>"

definition freshWeb :: WebState where
  "freshWeb = \<lparr>wbSessions = [], wbAttempts = [], wbPasswordHash = []\<rparr>"

lemma TrimSpace_Nil: "TrimSpace [] = []"
  by code_simp

text \<open>No password matches an empty hash.\<close>

lemma noPassword [simp]: "VerifyWebUIPassword p [] = (False, False)"
  by (simp add: VerifyWebUIPassword_def TrimSpace_Nil)

lemma guessClient: "loginClientKey guessRequest = ''192.0.2.1''"
  by code_simp

theorem six_wrong_passwords_take_a_minute_witness:
  "wrongGuesses ''192.0.2.1'' (map (\<lambda>s. (guessEnv ''x'', s, s, guessRequest)) [0, 0, 0, 0, 0, 0, 60000000000]) freshWeb [] =
     [0, 0, 0, 0, 0, 60000000000] \<and> (60000000000::int) \<le> [0, 0, 0, 0, 0, 60000000000] ! (0 + 5) - [0, 0, 0, 0, 0, 60000000000] ! 0"
proof -
  let ?h = "map (\<lambda>s. (guessEnv ''x'', s, s, guessRequest)) [0, 0, 0, 0, 0, 0, 60000000000]"
  have w: "wrongGuesses ''192.0.2.1'' ?h freshWeb [] = [0, 0, 0, 0, 0, 60000000000]"
    by (simp add: handleLogin_def loginFinish_def guessClient noteGuess_def guessEnv_def freshWeb_def
        loginRateLimited_def lockedAt_def attemptOf_def zeroAttempt_def recordLoginFailure_def
        pruneStaleLoginAttemptsLocked_def longSince_def loginLockout_def maxLoginFailures_def Let_def)
      (simp add: guessRequest_def)
  show ?thesis
    using six_wrong_passwords_take_a_minute [of ?h freshWeb "[0, 0, 0, 0, 0, 60000000000]" "''192.0.2.1''" 0] w
    by (simp add: freshWeb_def)
qed

text \<open>
  The lockout is looked up when a login starts and the failure recorded when its password has been
  checked; a login in between counts for neither.
\<close>

record Logins =
  lgState :: WebState
  lgWaiting :: "(LoginEnv \<times> int \<times> WebRequest) list"
  lgChecked :: "(string \<times> int) list"

inductive login_step :: "Logins \<Rightarrow> Logins \<Rightarrow> bool" where
  enter: "wrMethod r = ''POST'' \<Longrightarrow> \<not> loginRateLimited (loginClientKey r) s (wbAttempts (lgState l)) \<Longrightarrow>
    login_step l (l\<lparr>lgWaiting := (e, s, r) # lgWaiting l\<rparr>)"
| finish: "lgWaiting l = xs @ (e, s, r) # ys \<Longrightarrow> loginFinish e s t r (lgState l) = (answer, st) \<Longrightarrow>
    login_step l (l\<lparr>lgState := st, lgWaiting := xs @ ys,
      lgChecked := (if answer = LoginPage 200 then (loginClientKey r, s) # lgChecked l else lgChecked l)\<rparr>)"

lemma enter_many:
  assumes "wrMethod r = ''POST''" "\<not> loginRateLimited (loginClientKey r) s (wbAttempts (lgState l))"
  shows "login_step\<^sup>*\<^sup>* l (l\<lparr>lgWaiting := replicate n (e, s, r) @ lgWaiting l\<rparr>)"
proof (induction n)
  case (Suc n)
  then show ?case
    using enter [of r s "l\<lparr>lgWaiting := replicate n (e, s, r) @ lgWaiting l\<rparr>" e] assms
    by (simp add: rtranclp.rtrancl_into_rtrancl)
qed simp

lemma finish_wrong:
  assumes "lgWaiting l = (e, s, r) # ys" "leForm e = Form p" "\<not> fst (VerifyWebUIPassword p (wbPasswordHash (lgState l)))"
  shows "\<exists>l'. login_step l l' \<and> lgWaiting l' = ys \<and> lgChecked l' = (loginClientKey r, s) # lgChecked l \<and>
    wbPasswordHash (lgState l') = wbPasswordHash (lgState l)"
proof -
  have f: "loginFinish e s s r (lgState l) = (LoginPage 200,
      (lgState l)\<lparr>wbAttempts := recordLoginFailure (loginClientKey r) s (wbAttempts (lgState l))\<rparr>)"
    using assms(2,3) by (simp add: loginFinish_def case_prod_beta)
  show ?thesis using finish [of l "[]", OF _ f] assms(1) by (intro exI [of _ "l\<lparr>lgState := snd (loginFinish e s s r (lgState l)),
      lgWaiting := ys, lgChecked := (loginClientKey r, s) # lgChecked l\<rparr>"]) (simp add: f)
qed

lemma finish_many:
  assumes "lgWaiting l = replicate n (e, s, r)" "leForm e = Form p"
    "\<not> fst (VerifyWebUIPassword p (wbPasswordHash (lgState l)))"
  shows "\<exists>l'. login_step\<^sup>*\<^sup>* l l' \<and> lgChecked l' = replicate n (loginClientKey r, s) @ lgChecked l"
  using assms(1,3)
proof (induction n arbitrary: l)
  case (Suc n)
  obtain l1 where l1: "login_step l l1" "lgWaiting l1 = replicate n (e, s, r)"
      "lgChecked l1 = (loginClientKey r, s) # lgChecked l" "wbPasswordHash (lgState l1) = wbPasswordHash (lgState l)"
    using finish_wrong [of l e s r "replicate n (e, s, r)" p] Suc.prems assms(2) by auto
  then obtain l2 where "login_step\<^sup>*\<^sup>* l1 l2" "lgChecked l2 = replicate n (loginClientKey r, s) @ lgChecked l1"
    using Suc.IH [of l1] Suc.prems(2) by auto
  then show ?case
    using l1(1,3) by (intro exI [of _ l2]) (auto simp: replicate_append_same intro: converse_rtranclp_into_rtranclp)
qed auto

text \<open>
  Concurrent logins evade the lockout. From any state in which a client is not locked out, any number
  of its wrong passwords can be checked for one and the same instant: every request passes the lookup
  before the first failure is recorded.
\<close>

theorem concurrent_logins_evade_lockout:
  fixes e :: LoginEnv
  assumes "wrMethod r = ''POST''" "\<not> loginRateLimited (loginClientKey r) s (wbAttempts st)"
    "leForm e = Form p" "\<not> fst (VerifyWebUIPassword p (wbPasswordHash st))"
  shows "\<exists>l. login_step\<^sup>*\<^sup>* \<lparr>lgState = st, lgWaiting = [], lgChecked = []\<rparr> l \<and>
    lgChecked l = replicate n (loginClientKey r, s)"
proof -
  let ?l0 = "\<lparr>lgState = st, lgWaiting = [], lgChecked = []\<rparr>"
  let ?l1 = "?l0\<lparr>lgWaiting := replicate n (e, s, r)\<rparr>"
  have "login_step\<^sup>*\<^sup>* ?l0 ?l1" using enter_many [of r s ?l0 n e] assms by simp
  moreover obtain l2 where "login_step\<^sup>*\<^sup>* ?l1 l2" "lgChecked l2 = replicate n (loginClientKey r, s)"
    using finish_many [of ?l1 n e s r p] assms by auto
  ultimately show ?thesis by (meson rtranclp_trans)
qed

theorem concurrent_logins_evade_lockout_witness:
  "\<exists>l. login_step\<^sup>*\<^sup>* \<lparr>lgState = freshWeb, lgWaiting = [], lgChecked = []\<rparr> l \<and>
     lgChecked l = replicate 1000 (loginClientKey guessRequest, 0)"
  using concurrent_logins_evade_lockout [of guessRequest 0 freshWeb "guessEnv ''x''" "''x''" 1000]
  by (simp add: guessRequest_def guessEnv_def freshWeb_def loginRateLimited_def attemptOf_def zeroAttempt_def
      lockedAt_def)

section \<open>Where a session comes from\<close>

datatype web_event = LoginEvent LoginEnv int int WebRequest | LogoutEvent url_parser WebRequest

fun webStep :: "web_event \<Rightarrow> WebState \<Rightarrow> web_answer \<times> WebState" where
  "webStep (LoginEvent e s t r) st = handleLogin e s t r st"
| "webStep (LogoutEvent parse r) st = handleLogout parse r st"

text \<open>
  When the token was last handed out to a login with a correct password, unless it was given back since. What counts as
  correct is a parameter, asked with the hash stored at the time of the login and the password of its form; the answer
  of the login alone does not count.
\<close>

definition correctForm :: "(string \<Rightarrow> string \<Rightarrow> bool) \<Rightarrow> string \<Rightarrow> LoginEnv \<Rightarrow> bool" where
  "correctForm correct stored e = (case leForm e of Form password \<Rightarrow> correct stored password | _ \<Rightarrow> False)"

fun noteToken ::
    "(string \<Rightarrow> string \<Rightarrow> bool) \<Rightarrow> string \<Rightarrow> string \<Rightarrow> web_event \<Rightarrow> web_answer \<Rightarrow> int option \<Rightarrow> int option" where
  "noteToken correct stored token (LoginEvent e s t r) answer opened =
     (if correctForm correct stored e \<and> answer = Redirect ''/'' \<and> leToken e = token then Some t else opened)"
| "noteToken correct stored token (LogoutEvent parse r) answer opened =
     (if answer = Redirect ''/login'' \<and> wrCookie r = Some token then None else opened)"

fun runWeb :: "web_event list \<Rightarrow> WebState \<Rightarrow> WebState" where
  "runWeb [] st = st"
| "runWeb (ev # evs) st = runWeb evs (snd (webStep ev st))"

fun issuedAt :: "(string \<Rightarrow> string \<Rightarrow> bool) \<Rightarrow> string \<Rightarrow> web_event list \<Rightarrow> WebState \<Rightarrow> int option \<Rightarrow> int option" where
  "issuedAt correct token [] st opened = opened"
| "issuedAt correct token (ev # evs) st opened =
     issuedAt correct token evs (snd (webStep ev st))
       (noteToken correct (wbPasswordHash st) token ev (fst (webStep ev st)) opened)"

text \<open>Two readings of a correct password: it verifies against the stored hash, and it has the key of a known password.\<close>

definition verifies :: "string \<Rightarrow> string \<Rightarrow> bool" where
  "verifies stored password = fst (VerifyWebUIPassword password stored)"

definition hasKeyOf :: "string \<Rightarrow> string \<Rightarrow> string \<Rightarrow> string \<Rightarrow> bool" where
  "hasKeyOf salt pw stored password \<longleftrightarrow> pbkdf2Key password salt 210000 32 = pbkdf2Key pw salt 210000 32"

fun eventBefore :: "int \<Rightarrow> web_event \<Rightarrow> bool" where
  "eventBefore T (LoginEvent e s t r) = (t \<le> T)"
| "eventBefore T (LogoutEvent parse r) = True"

definition session_inv :: "string \<Rightarrow> int \<Rightarrow> sessions \<Rightarrow> int option \<Rightarrow> bool" where
  "session_inv token T ss opened \<longleftrightarrow> distinct (map fst ss) \<and>
     (case map_of ss token of
        Some expiry \<Rightarrow> opened = Some (expiry - sessionTTL)
      | None \<Rightarrow> (case opened of None \<Rightarrow> True | Some t \<Rightarrow> t + sessionTTL \<le> T))"

lemma newSession_inv:
  assumes "session_inv token T ss opened" "t \<le> T"
  shows "session_inv token T (newSession tk t ss) (if tk = token then Some t else opened)"
proof -
  have d: "distinct (map fst (pruneExpiredSessionsLocked t ss))"
    using assms(1) by (simp add: session_inv_def pruneExpiredSessionsLocked_def distinct_map_filter)
  have "map_of (pruneExpiredSessionsLocked t ss) token =
      (case map_of ss token of None \<Rightarrow> None | Some x \<Rightarrow> if t < x then Some x else None)"
    using assms(1) map_of_filter_distinct [of ss "\<lambda>x. t < x" token]
    by (simp add: session_inv_def pruneExpiredSessionsLocked_def)
  then show ?thesis
    using assms d by (auto simp: session_inv_def newSession_def update_conv' distinct_update split: option.splits
        simp del: map_of_eq_Some_iff)
qed

lemma webStep_session:
  assumes "session_inv token T (wbSessions st) opened" "eventBefore T ev"
  shows "session_inv token T (wbSessions (snd (webStep ev st))) (noteToken verifies (wbPasswordHash st) token ev (fst (webStep ev st)) opened)"
proof (cases ev)
  case (LoginEvent e s t r)
  then have t: "t \<le> T" using assms(2) by simp
  show ?thesis
    using LoginEvent assms(1) newSession_inv [OF assms(1) t, of "leToken e"]
    by (auto simp: handleLogin_def loginFinish_def Let_def case_prod_beta correctForm_def verifies_def split: form.splits)
next
  case (LogoutEvent parse r)
  then show ?thesis
    using assms(1) by (auto simp: handleLogout_def session_inv_def delete_conv' distinct_delete split: option.splits
        simp del: map_of_eq_Some_iff)
qed

lemma runWeb_session:
  assumes "session_inv token T (wbSessions st) opened" "\<forall>ev\<in>set evs. eventBefore T ev"
  shows "session_inv token T (wbSessions (runWeb evs st)) (issuedAt verifies token evs st opened)"
  using assms by (induction evs arbitrary: st opened) (simp_all add: webStep_session)

lemma session_issued:
  assumes "\<forall>ev\<in>set evs. eventBefore T ev" "wbSessions st = []"
  shows "validSession cookie T (wbSessions (runWeb evs st)) \<longleftrightarrow>
    (\<exists>token t. cookie = Some token \<and> issuedAt verifies token evs st None = Some t \<and> T < t + sessionTTL)"
proof -
  have "validSession (Some token) T (wbSessions (runWeb evs st)) \<longleftrightarrow>
      (\<exists>t. issuedAt verifies token evs st None = Some t \<and> T < t + sessionTTL)" for token
    using runWeb_session [of token T st None evs] assms
    by (auto simp: session_inv_def validSession_def split: option.splits simp del: map_of_eq_Some_iff)
  then show ?thesis by (cases cookie) (simp_all add: validSession_def)
qed

text \<open>A salted hash is never rewritten by a login, so the passwords it accepts stay those with its key.\<close>

lemma salted_stays:
  assumes "salt \<noteq> []" "wbPasswordHash st = HashWebUIPassword salt pw"
  shows "wbPasswordHash (snd (webStep ev st)) = HashWebUIPassword salt pw"
proof -
  have p: "HasPrefix (HashWebUIPassword salt pw) (pbkdf2Scheme @ ''$'')"
    by (simp add: HasPrefix_def HashWebUIPassword_def encodePBKDF2_def)
  have u: "wbPasswordHash (upgradeWebUIPasswordHash s b q st1) = HashWebUIPassword salt pw"
    if "wbPasswordHash st1 = HashWebUIPassword salt pw" for s b q st1
    using that p by (simp add: upgradeWebUIPasswordHash_def split: option.split)
  show ?thesis
    using assms(2) by (cases ev) (auto simp: handleLogin_def handleLogout_def loginFinish_def Let_def case_prod_beta u
        split: form.splits option.splits)
qed

lemma issuedAt_salted:
  assumes "salt \<noteq> []" "wbPasswordHash st = HashWebUIPassword salt pw"
  shows "issuedAt verifies token evs st opened = issuedAt (hasKeyOf salt pw) token evs st opened"
  using assms(2)
proof (induction evs arbitrary: st opened)
  case (Cons ev evs)
  have "correctForm verifies (wbPasswordHash st) e = correctForm (hasKeyOf salt pw) (wbPasswordHash st) e" for e
    using Cons.prems VerifyWebUIPassword_hash [OF assms(1)]
    by (simp add: correctForm_def verifies_def hasKeyOf_def split: form.split)
  then have "noteToken verifies (wbPasswordHash st) token ev answer opened =
      noteToken (hasKeyOf salt pw) (wbPasswordHash st) token ev answer opened" for answer
    by (cases ev) simp_all
  then show ?case using Cons.IH [OF salted_stays [OF assms(1) Cons.prems]] by simp
qed simp

text \<open>
  Who reaches an administrative handler. Whatever logins and logouts came before, the handler behind
  the middleware runs exactly for a request whose session token was handed out for a correct password
  less than a day ago and not given back since, and which, if it may change something through the API,
  also carries the token in its own header or comes from the same origin; its body is then limited.
\<close>

theorem admin_access_needs_login:
  assumes "\<forall>ev\<in>set evs. eventBefore T ev" "wbSessions st = []"
  shows "authMiddleware parse T (wbSessions (runWeb evs st)) r = Next limited \<longleftrightarrow>
    (\<exists>token t. wrCookie r = Some token \<and> issuedAt verifies token evs st None = Some t \<and> T < t + sessionTTL) \<and>
    limited = (isAPIPath (wrPath r) \<and> isUnsafeMethod (wrMethod r)) \<and> (\<not> limited \<or> validCSRF parse r)"
  using session_issued [OF assms, of "wrCookie r"] by (auto simp: authMiddleware_def)

theorem admin_access_needs_login_witness:
  "authMiddleware (\<lambda>u. None) 5 (wbSessions (runWeb
      [LoginEvent ((guessEnv ''pw'')\<lparr>leToken := ''tok''\<rparr>) 0 0 guessRequest]
      (freshWeb\<lparr>wbPasswordHash := HashWebUIPassword ''salt'' ''pw''\<rparr>)))
     (guessRequest\<lparr>wrMethod := ''GET'', wrPath := ''/api/stats'', wrCookie := Some ''tok''\<rparr>) = Next False"
proof -
  let ?st = "freshWeb\<lparr>wbPasswordHash := HashWebUIPassword ''salt'' ''pw''\<rparr>"
  let ?ev = "LoginEvent ((guessEnv ''pw'')\<lparr>leToken := ''tok''\<rparr>) 0 0 guessRequest"
  let ?r = "guessRequest\<lparr>wrMethod := ''GET'', wrPath := ''/api/stats'', wrCookie := Some ''tok''\<rparr>"
  have v: "VerifyWebUIPassword ''pw'' (HashWebUIPassword ''salt'' ''pw'') = (True, False)"
    using VerifyWebUIPassword_hash [of "''salt''" "''pw''" "''pw''"] by simp
  have i: "issuedAt verifies ''tok'' [?ev] ?st None = Some 0"
    by (simp add: handleLogin_def loginFinish_def v guessEnv_def guessRequest_def freshWeb_def loginRateLimited_def
        attemptOf_def zeroAttempt_def lockedAt_def correctForm_def verifies_def)
  show ?thesis
    using admin_access_needs_login [of "[?ev]" 5 ?st "\<lambda>u. None" ?r False] i
    by (simp add: freshWeb_def isAPIPath_def isUnsafeMethod_def sessionTTL_def)
qed

end
