(* ===== verification/AdminConfig.thy ===== *)
theory AdminConfig
  imports Login StorageSpec Selector
begin

text \<open>
  The handlers of the administration interface that change the configuration (\<open>webui/config_handlers.go\<close>,
  \<open>webui/apikey_handlers.go\<close>, and the password upgrade of \<open>webui/server.go\<close>).

  The state is what they share: the configuration the interface runs with, the saved file and the
  configuration published to the rest of the program, the session store and the tables. Every handler
  holds the configuration lock over its whole change, so each is one step. A request is given decoded, or
  as the error the decoder reports; whether a save fails, and at which step, is an argument.
\<close>

section \<open>State\<close>

record Admin =
  adCfg :: Config
  adWorld :: ConfigWorld
  adSessions :: SessionStore
  adDB :: DB
  adNotified :: bool

datatype 'a decoded = BodyTooLarge | BodyInvalid | Body 'a

datatype admin_answer = Done | KeyCreated string string | Refused nat string

definition jsonDecodeError :: "'a decoded \<Rightarrow> admin_answer" where
  "jsonDecodeError b =
     (case b of BodyTooLarge \<Rightarrow> Refused 413 ''request body too large'' | _ \<Rightarrow> Refused 400 ''invalid request'')"

text \<open>\<open>configSave(&newCfg)\<close> and, on success, \<open>s.cfg = &newCfg\<close>.\<close>

definition saveAndPublish :: "fsFault option \<Rightarrow> Config \<Rightarrow> Admin \<Rightarrow> bool \<times> Admin" where
  "saveAndPublish fault cfg a =
     (case saveConfigAt fault cfg (adWorld a) of
        (Inl _, w) \<Rightarrow> (False, a\<lparr>adWorld := w\<rparr>)
      | (Inr _, w) \<Rightarrow> (True, a\<lparr>adWorld := w, adCfg := cfg\<rparr>))"

section \<open>API keys\<close>

text \<open>The end every key handler shares.\<close>

definition saveKeys :: "fsFault option \<Rightarrow> APIKey list \<Rightarrow> admin_answer \<Rightarrow> Admin \<Rightarrow> admin_answer \<times> Admin" where
  "saveKeys fault keys answer a =
     (case saveAndPublish fault ((adCfg a)\<lparr>cfgReadOnlyAPIKeys := keys\<rparr>) a of
        (False, a1) \<Rightarrow> (Refused 500 ''failed to save config'', a1)
      | (True, a1) \<Rightarrow> (answer, a1))"

record apiKeyPublicView =
  pvID :: string
  pvName :: string
  pvCreatedAt :: int
  pvLastUsedAt :: int
  pvDisabled :: bool

definition apiAPIKeysList :: "string \<Rightarrow> Admin \<Rightarrow> (nat \<times> string) + apiKeyPublicView list" where
  "apiAPIKeysList meth a =
     (if meth \<noteq> ''GET'' then Inl (405, ''method not allowed'')
      else Inr (map (\<lambda>k. \<lparr>pvID = kID k, pvName = kName k, pvCreatedAt = kCreatedAt k,
                          pvLastUsedAt = kLastUsedAt k, pvDisabled = kDisabled k\<rparr>)
                 (cfgReadOnlyAPIKeys (adCfg a))))"

text \<open>\<open>secret\<close> and \<open>ident\<close> are what the two reads of the random source give.\<close>

definition apiAPIKeyCreate ::
    "string option \<Rightarrow> string option \<Rightarrow> int \<Rightarrow> fsFault option \<Rightarrow> string \<Rightarrow> string decoded \<Rightarrow> Admin \<Rightarrow>
     admin_answer \<times> Admin" where
  "apiAPIKeyCreate secret ident t fault meth body a =
     (if meth \<noteq> ''POST'' then (Refused 405 ''method not allowed'', a)
      else case body of
        Body rawName \<Rightarrow>
          (let name = TrimSpace rawName in
           if name = [] then (Refused 400 ''name is required'', a)
           else case (secret, ident) of
             (Some plain, Some i) \<Rightarrow>
               (let entry = \<lparr>kID = i, kName = name, kHash = HashAPIKey plain, kCreatedAt = t, kLastUsedAt = 0,
                             kDisabled = False\<rparr> in
                saveKeys fault (cfgReadOnlyAPIKeys (adCfg a) @ [entry]) (KeyCreated i plain) a)
           | _ \<Rightarrow> (Refused 500 ''failed to create api key'', a))
      | b \<Rightarrow> (jsonDecodeError b, a))"

fun disableFirst :: "string \<Rightarrow> APIKey list \<Rightarrow> APIKey list option" where
  "disableFirst i [] = None"
| "disableFirst i (k # ks) =
     (if kID k = i then Some (k\<lparr>kDisabled := True\<rparr> # ks)
      else case disableFirst i ks of None \<Rightarrow> None | Some ks' \<Rightarrow> Some (k # ks'))"

definition apiAPIKeyRevoke :: "fsFault option \<Rightarrow> string \<Rightarrow> string decoded \<Rightarrow> Admin \<Rightarrow> admin_answer \<times> Admin" where
  "apiAPIKeyRevoke fault meth body a =
     (if meth \<noteq> ''POST'' then (Refused 405 ''method not allowed'', a)
      else case body of
        Body rawID \<Rightarrow>
          (let i = TrimSpace rawID in
           if i = [] then (Refused 400 ''invalid request'', a)
           else case disableFirst i (cfgReadOnlyAPIKeys (adCfg a)) of
             None \<Rightarrow> (Refused 404 ''api key not found'', a)
           | Some keys \<Rightarrow> saveKeys fault keys Done a)
      | b \<Rightarrow> (jsonDecodeError b, a))"

definition apiAPIKeyDelete :: "fsFault option \<Rightarrow> string \<Rightarrow> string decoded \<Rightarrow> Admin \<Rightarrow> admin_answer \<times> Admin" where
  "apiAPIKeyDelete fault meth body a =
     (if meth \<noteq> ''POST'' then (Refused 405 ''method not allowed'', a)
      else case body of
        Body rawID \<Rightarrow>
          (let i = TrimSpace rawID; src = cfgReadOnlyAPIKeys (adCfg a) in
           if i = [] then (Refused 400 ''invalid request'', a)
           else if \<not> list_ex (\<lambda>k. kID k = i) src then (Refused 404 ''api key not found'', a)
           else saveKeys fault (filter (\<lambda>k. kID k \<noteq> i) src) Done a)
      | b \<Rightarrow> (jsonDecodeError b, a))"

section \<open>Settings\<close>

record ConfigRequest =
  crProxyAuthEnabled :: bool
  crProxyAuthUsername :: string
  crProxyAuthPassword :: string
  crSessionTTLMinutes :: int
  crDefaultRegion :: string
  crHealthIntervalMinutes :: int
  crMaxRetry :: int
  crSingBoxPath :: string
  crBlockedCountries :: "string list"
  crAllowedCountries :: "string list"
  crHTTPPort :: string
  crSOCKS5Port :: string
  crWebUIPort :: string

definition portChanged :: "string \<Rightarrow> string \<Rightarrow> bool" where
  "portChanged requested current = (TrimSpace requested \<noteq> [] \<and> TrimSpace requested \<noteq> current)"

definition applyCountryFilters :: "Config \<Rightarrow> DB \<Rightarrow> bool \<times> DB" where
  "applyCountryFilters cfg d =
     (if cfgAllowedCountries cfg \<noteq> [] then
        (case DisableNotAllowedCountries (cfgAllowedCountries cfg) d of (r, d1) \<Rightarrow> (\<not> isl r, d1))
      else if cfgBlockedCountries cfg \<noteq> [] then
        (case DisableBlockedCountries (cfgBlockedCountries cfg) d of (r, d1) \<Rightarrow> (\<not> isl r, d1))
      else (True, d))"

definition ttlNanos :: "Config \<Rightarrow> int" where
  "ttlNanos cfg = wrap64 (cfgSessionTTLMinutes cfg * 60000000000)"

definition requestedConfig :: "ConfigRequest \<Rightarrow> Config \<Rightarrow> Config" where
  "requestedConfig q old =
     (let c = old\<lparr>cfgProxyAuthEnabled := crProxyAuthEnabled q, cfgProxyAuthUsername := TrimSpace (crProxyAuthUsername q)\<rparr>;
          c1 = (if crProxyAuthPassword q \<noteq> []
                then c\<lparr>cfgProxyAuthPassword := crProxyAuthPassword q,
                       cfgProxyAuthPasswordHash := hexEncode (Sum256 (crProxyAuthPassword q))\<rparr>
                else c) in
      c1\<lparr>cfgSessionTTLMinutes := crSessionTTLMinutes q, cfgDefaultRegion := NormalizeCountryCode (crDefaultRegion q),
         cfgHealthIntervalMinutes := crHealthIntervalMinutes q, cfgMaxRetry := crMaxRetry q,
         cfgSingBoxPath := TrimSpace (crSingBoxPath q),
         cfgBlockedCountries := NormalizeCountryCodes (crBlockedCountries q),
         cfgAllowedCountries := NormalizeCountryCodes (crAllowedCountries q)\<rparr>)"

definition apiConfigSave ::
    "fsFault option \<Rightarrow> fsFault option \<Rightarrow> string \<Rightarrow> ConfigRequest decoded \<Rightarrow> Admin \<Rightarrow> admin_answer \<times> Admin" where
  "apiConfigSave fault rollbackFault meth body a =
     (if meth \<noteq> ''POST'' then (Refused 405 ''method not allowed'', a)
      else case body of
        Body q \<Rightarrow>
          (let old = adCfg a; new = requestedConfig q old in
           if TrimSpace (crProxyAuthUsername q) = [] \<or> crSessionTTLMinutes q \<le> 0 \<or> crHealthIntervalMinutes q \<le> 0 \<or>
              crMaxRetry q < 0 \<or> TrimSpace (crSingBoxPath q) = []
           then (Refused 400 ''invalid config'', a)
           else if portChanged (crHTTPPort q) (cfgHTTPPort old) \<or> portChanged (crSOCKS5Port q) (cfgSOCKS5Port old) \<or>
              portChanged (crWebUIPort q) (cfgWebUIPort old)
           then (Refused 400 ''port fields are read-only at runtime and require restart'', a)
           else if TrimSpace (crSingBoxPath q) \<noteq> TrimSpace (cfgSingBoxPath old)
           then (Refused 400 ''singbox_path requires restart'', a)
           else case saveAndPublish fault new a of
             (False, a1) \<Rightarrow> (Refused 500 ''failed to save config'', a1)
           | (True, a1) \<Rightarrow>
               (let a2 = a1\<lparr>adSessions := SetTTL (ttlNanos new) (adSessions a1)\<rparr> in
                case applyCountryFilters new (adDB a2) of
                  (True, d) \<Rightarrow> (Done, a2\<lparr>adDB := d, adNotified := True\<rparr>)
                | (False, d) \<Rightarrow>
                    (case saveAndPublish rollbackFault old (a2\<lparr>adDB := d\<rparr>) of
                       (False, a3) \<Rightarrow> (Refused 500 ''failed to apply country filters'', a3)
                     | (True, a3) \<Rightarrow> (Refused 500 ''failed to apply country filters'',
                         a3\<lparr>adSessions := SetTTL (ttlNanos old) (adSessions a3)\<rparr>))))
      | b \<Rightarrow> (jsonDecodeError b, a))"

text \<open>The password upgrade after a login, and the stamp of a used key.\<close>

definition upgradeHash :: "string option \<Rightarrow> fsFault option \<Rightarrow> string \<Rightarrow> Admin \<Rightarrow> Admin" where
  "upgradeHash salt fault plain a =
     (case salt of
        None \<Rightarrow> a
      | Some s \<Rightarrow>
          if HasPrefix (cfgWebUIPasswordHash (adCfg a)) (pbkdf2Scheme @ ''$'') then a
          else snd (saveAndPublish fault ((adCfg a)\<lparr>cfgWebUIPasswordHash := HashWebUIPassword s plain\<rparr>) a))"

definition stampKey :: "string \<Rightarrow> int \<Rightarrow> Admin \<Rightarrow> Admin" where
  "stampKey plain usedAt a =
     (case markReadOnlyAPIKeyUsed plain usedAt \<lparr>asCfg = Some (adCfg a), asLimiter = None\<rparr> of
        (_, s) \<Rightarrow> (case asCfg s of Some c \<Rightarrow> a\<lparr>adCfg := c\<rparr> | None \<Rightarrow> a))"

section \<open>Histories\<close>

datatype admin_op =
    OpKeyCreate "string option" "string option" int "fsFault option" string "string decoded"
  | OpKeyRevoke "fsFault option" string "string decoded"
  | OpKeyDelete "fsFault option" string "string decoded"
  | OpConfigSave "fsFault option" "fsFault option" string "ConfigRequest decoded"
  | OpUpgradeHash "string option" "fsFault option" string
  | OpStampKey string int

fun runAdmin :: "admin_op \<Rightarrow> Admin \<Rightarrow> admin_answer \<times> Admin" where
  "runAdmin (OpKeyCreate secret ident t fault m b) a = apiAPIKeyCreate secret ident t fault m b a"
| "runAdmin (OpKeyRevoke fault m b) a = apiAPIKeyRevoke fault m b a"
| "runAdmin (OpKeyDelete fault m b) a = apiAPIKeyDelete fault m b a"
| "runAdmin (OpConfigSave fault rollback m b) a = apiConfigSave fault rollback m b a"
| "runAdmin (OpUpgradeHash salt fault plain) a = (Done, upgradeHash salt fault plain a)"
| "runAdmin (OpStampKey plain t) a = (Done, stampKey plain t a)"

text \<open>A configuration without the stamps of use, which live in memory until the next save.\<close>

definition withoutStamps :: "Config \<Rightarrow> Config" where
  "withoutStamps c = c\<lparr>cfgReadOnlyAPIKeys := map (\<lambda>k. k\<lparr>kLastUsedAt := 0\<rparr>) (cfgReadOnlyAPIKeys c)\<rparr>"

definition savedFrom :: "Config \<Rightarrow> ConfigWorld \<Rightarrow> bool" where
  "savedFrom c w \<longleftrightarrow> diskConfig w = Some (jsonRoundTrip (toSaved c)) \<and>
     globalCfg w = Some (c\<lparr>cfgDefaultRegion := NormalizeCountryCode (cfgDefaultRegion c),
       cfgBlockedCountries := NormalizeCountryCodes (cfgBlockedCountries c),
       cfgAllowedCountries := NormalizeCountryCodes (cfgAllowedCountries c)\<rparr>)"

definition admin_inv :: "Admin \<Rightarrow> bool" where
  "admin_inv a \<longleftrightarrow> (\<exists>c. savedFrom c (adWorld a) \<and> withoutStamps c = withoutStamps (adCfg a)) \<and>
     ttl (adSessions a) = ttlNanos (adCfg a)"

lemma saveConfigAt_savedFrom: "saveConfigAt fault cfg w = (Inr u, w1) \<Longrightarrow> savedFrom cfg w1"
  by (auto simp: saveConfigAt_def savedFrom_def Let_def split: option.splits if_splits)

lemma saveAndPublish_cases:
  obtains (failed) "saveAndPublish fault cfg a = (False, a)" "\<exists>e. fst (saveConfigAt fault cfg (adWorld a)) = Inl e"
  | (saved) w where "saveAndPublish fault cfg a = (True, a\<lparr>adWorld := w, adCfg := cfg\<rparr>)" "savedFrom cfg w"
proof (cases "saveConfigAt fault cfg (adWorld a)")
  case (Pair r w)
  then show thesis
    using failed saved [of w] save_atomic [of fault cfg "adWorld a"] saveConfigAt_savedFrom [of fault cfg "adWorld a"]
    by (cases r) (auto simp: saveAndPublish_def)
qed

lemma withoutStamps_ttl: "withoutStamps c = withoutStamps c' \<Longrightarrow> ttlNanos c = ttlNanos c'"
  by (drule arg_cong [of _ _ cfgSessionTTLMinutes]) (simp add: withoutStamps_def ttlNanos_def)

lemma saved_inv:
  assumes "ttl (adSessions a) = ttlNanos cfg" "savedFrom cfg w"
  shows "admin_inv (a\<lparr>adWorld := w, adCfg := cfg\<rparr>)"
  using assms by (auto simp: admin_inv_def)

lemma saveAndPublish_inv:
  assumes "admin_inv a" "cfgSessionTTLMinutes cfg = cfgSessionTTLMinutes (adCfg a)"
  shows "admin_inv (snd (saveAndPublish fault cfg a))"
  using assms
  by (cases fault cfg a rule: saveAndPublish_cases) (auto simp: admin_inv_def ttlNanos_def)

lemma stamped_withoutStamps:
  assumes "markReadOnlyAPIKeyUsed plain t \<lparr>asCfg = Some c, asLimiter = None\<rparr> = (ok, s)" "asCfg s = Some c'"
  shows "withoutStamps c' = withoutStamps c"
proof (cases "matchReadOnlyAPIKey (Some c) plain")
  case (Some i)
  then have "c' = c\<lparr>cfgReadOnlyAPIKeys := (cfgReadOnlyAPIKeys c)[i := (cfgReadOnlyAPIKeys c ! i)\<lparr>kLastUsedAt := t\<rparr>]\<rparr>"
    using assms by (auto simp: markReadOnlyAPIKeyUsed_def)
  moreover have "map (\<lambda>k. k\<lparr>kLastUsedAt := 0\<rparr>) (ks[i := (ks ! i)\<lparr>kLastUsedAt := t\<rparr>]) = map (\<lambda>k. k\<lparr>kLastUsedAt := 0\<rparr>) ks" for ks :: "APIKey list"
    by (cases "i < length ks") (auto intro!: nth_equalityI simp: nth_list_update)
  ultimately show ?thesis by (simp add: withoutStamps_def)
qed (use assms in \<open>auto simp: markReadOnlyAPIKeyUsed_def\<close>)

lemma stampKey_inv: "admin_inv a \<Longrightarrow> admin_inv (stampKey plain t a)"
proof -
  assume i: "admin_inv a"
  obtain ok s where m: "markReadOnlyAPIKeyUsed plain t \<lparr>asCfg = Some (adCfg a), asLimiter = None\<rparr> = (ok, s)" by fastforce
  show ?thesis
  proof (cases "asCfg s")
    case (Some c)
    then have "withoutStamps c = withoutStamps (adCfg a)" using stamped_withoutStamps [OF m] by simp
    then show ?thesis using i Some m withoutStamps_ttl [of c "adCfg a"] by (simp add: stampKey_def admin_inv_def)
  qed (use i m in \<open>simp add: stampKey_def\<close>)
qed

lemma upgradeHash_inv: "admin_inv a \<Longrightarrow> admin_inv (upgradeHash salt fault plain a)"
  by (auto simp: upgradeHash_def intro: saveAndPublish_inv split: option.split)

lemma apiConfigSave_cases:
  obtains (unchanged) c m where "apiConfigSave fault rollback meth body a = (Refused c m, a)"
  | (applied) q w d where "body = Body q" "savedFrom (requestedConfig q (adCfg a)) w"
      "apiConfigSave fault rollback meth body a = (Done, a\<lparr>adWorld := w, adCfg := requestedConfig q (adCfg a),
         adSessions := SetTTL (ttlNanos (requestedConfig q (adCfg a))) (adSessions a), adDB := d, adNotified := True\<rparr>)"
  | (rolledBack) q w c m where "body = Body q" "savedFrom (adCfg a) w"
      "fst (applyCountryFilters (requestedConfig q (adCfg a)) (adDB a)) = False"
      "apiConfigSave fault rollback meth body a = (Refused c m, a\<lparr>adWorld := w,
         adSessions := SetTTL (ttlNanos (adCfg a)) (adSessions a),
         adDB := snd (applyCountryFilters (requestedConfig q (adCfg a)) (adDB a))\<rparr>)"
  | (stuck) q w c m where "body = Body q" "savedFrom (requestedConfig q (adCfg a)) w"
      "fst (applyCountryFilters (requestedConfig q (adCfg a)) (adDB a)) = False"
      "\<exists>e. fst (saveConfigAt rollback (adCfg a) w) = Inl e"
      "apiConfigSave fault rollback meth body a = (Refused c m, a\<lparr>adWorld := w, adCfg := requestedConfig q (adCfg a),
         adSessions := SetTTL (ttlNanos (requestedConfig q (adCfg a))) (adSessions a),
         adDB := snd (applyCountryFilters (requestedConfig q (adCfg a)) (adDB a))\<rparr>)"
proof (cases "\<exists>c m. apiConfigSave fault rollback meth body a = (Refused c m, a)")
  case True
  then show thesis using unchanged by blast
next
  case False
  then obtain q where q: "body = Body q" "meth = ''POST''"
    by (cases body) (auto simp: apiConfigSave_def jsonDecodeError_def split: if_splits)
  let ?new = "requestedConfig q (adCfg a)"
  have h: "apiConfigSave fault rollback meth body a =
      (case saveAndPublish fault ?new a of
         (False, a1) \<Rightarrow> (Refused 500 ''failed to save config'', a1)
       | (True, a1) \<Rightarrow>
           (let a2 = a1\<lparr>adSessions := SetTTL (ttlNanos ?new) (adSessions a1)\<rparr> in
            case applyCountryFilters ?new (adDB a2) of
              (True, d) \<Rightarrow> (Done, a2\<lparr>adDB := d, adNotified := True\<rparr>)
            | (False, d) \<Rightarrow>
                (case saveAndPublish rollback (adCfg a) (a2\<lparr>adDB := d\<rparr>) of
                   (False, a3) \<Rightarrow> (Refused 500 ''failed to apply country filters'', a3)
                 | (True, a3) \<Rightarrow> (Refused 500 ''failed to apply country filters'',
                     a3\<lparr>adSessions := SetTTL (ttlNanos (adCfg a)) (adSessions a3)\<rparr>))))"
    using False q by (auto simp: apiConfigSave_def Let_def split: if_splits)
  obtain w where w: "saveAndPublish fault ?new a = (True, a\<lparr>adWorld := w, adCfg := ?new\<rparr>)" "savedFrom ?new w"
    by (cases fault ?new a rule: saveAndPublish_cases) (use False h in auto)
  let ?a2 = "a\<lparr>adWorld := w, adCfg := ?new, adSessions := SetTTL (ttlNanos ?new) (adSessions a)\<rparr>"
  obtain ok d where f: "applyCountryFilters ?new (adDB a) = (ok, d)" by fastforce
  show thesis
  proof (cases ok)
    case True
    then show thesis using applied [OF q(1) w(2)] h w(1) f by (simp add: Let_def)
  next
    case no: False
    show thesis
    proof (cases rollback "adCfg a" "?a2\<lparr>adDB := d\<rparr>" rule: saveAndPublish_cases)
      case failed
      then show thesis using stuck [OF q(1) w(2)] h w(1) f no by (simp add: Let_def)
    next
      case (saved w')
      then show thesis using rolledBack [OF q(1) saved(2)] h w(1) f no by (simp add: Let_def SetTTL_def)
    qed
  qed
qed

text \<open>A key handler changes nothing or saves the configuration with other keys.\<close>

fun isKeyOp :: "admin_op \<Rightarrow> bool" where
  "isKeyOp (OpKeyCreate _ _ _ _ _ _) = True"
| "isKeyOp (OpKeyRevoke _ _ _) = True"
| "isKeyOp (OpKeyDelete _ _ _) = True"
| "isKeyOp _ = False"

lemma saveKeys_cases:
  obtains (failed) c m where "saveKeys fault ks answer a = (Refused c m, a)"
  | (saved) w where "saveKeys fault ks answer a = (answer, a\<lparr>adWorld := w, adCfg := (adCfg a)\<lparr>cfgReadOnlyAPIKeys := ks\<rparr>\<rparr>)"
      "savedFrom ((adCfg a)\<lparr>cfgReadOnlyAPIKeys := ks\<rparr>) w"
  by (cases fault "(adCfg a)\<lparr>cfgReadOnlyAPIKeys := ks\<rparr>" a rule: saveAndPublish_cases) (auto simp: saveKeys_def)

lemma keyOp_saves:
  assumes "isKeyOp op"
  shows "(\<exists>c m. runAdmin op a = (Refused c m, a)) \<or>
    (\<exists>fault ks answer. runAdmin op a = saveKeys fault ks answer a \<and> (\<forall>c m. answer \<noteq> Refused c m))"
proof -
  define P where "P = (\<lambda>r. (\<exists>c m. r = (Refused c m, a)) \<or>
    (\<exists>fault ks answer. r = saveKeys fault ks answer a \<and> (\<forall>c m. answer \<noteq> Refused c m)))"
  have "P (Refused c m, a)" "P (saveKeys f ks Done a)" "P (saveKeys f ks (KeyCreated i s) a)" for c m f ks i s
    unfolding P_def by blast+
  then have "P (runAdmin op a)"
    using assms
    by (cases op)
      (simp_all add: apiAPIKeyCreate_def apiAPIKeyRevoke_def apiAPIKeyDelete_def Let_def jsonDecodeError_def
        split: decoded.split option.split)
  then show ?thesis by (simp add: P_def)
qed

lemma keyOp_effect:
  assumes "isKeyOp op"
  obtains (refused) c m where "runAdmin op a = (Refused c m, a)"
  | (saved) ks w answer where "runAdmin op a = (answer, a\<lparr>adWorld := w, adCfg := (adCfg a)\<lparr>cfgReadOnlyAPIKeys := ks\<rparr>\<rparr>)"
      "savedFrom ((adCfg a)\<lparr>cfgReadOnlyAPIKeys := ks\<rparr>) w" "\<forall>c m. answer \<noteq> Refused c m"
proof -
  from keyOp_saves [OF assms, of a] consider c m where "runAdmin op a = (Refused c m, a)"
    | fault ks answer where "runAdmin op a = saveKeys fault ks answer a" "\<forall>c m. answer \<noteq> Refused c m" by blast
  then show thesis
  proof cases
    case (2 fault ks answer)
    show thesis
    proof (cases fault ks answer a rule: saveKeys_cases)
      case (failed c m)
      then show thesis using 2(1) refused [of c m] by simp
    next
      case ok: (saved w)
      then show thesis using 2 saved [OF _ ok(2)] by simp
    qed
  qed (rule refused)
qed

lemma runAdmin_inv: "admin_inv a \<Longrightarrow> admin_inv (snd (runAdmin op a))"
proof -
  assume i: "admin_inv a"
  consider (key) "isKeyOp op" | (config) fault rollback m b where "op = OpConfigSave fault rollback m b"
    | (hash) salt fault plain where "op = OpUpgradeHash salt fault plain" | (stamp) plain t where "op = OpStampKey plain t"
    by (cases op) auto
  then show ?thesis
  proof cases
    case key
    show ?thesis by (rule keyOp_effect [OF key, of a]) (use i in \<open>auto simp: admin_inv_def ttlNanos_def\<close>)
  next
    case config
    then show ?thesis
      using i by (cases fault rollback m b a rule: apiConfigSave_cases) (auto simp: admin_inv_def SetTTL_def)
  qed (use i in \<open>simp_all add: upgradeHash_inv stampKey_inv\<close>)
qed

section \<open>Properties\<close>

text \<open>
  C38: the interface runs with the configuration that is on disk and published. After any sequence of
  administrative changes, with saves, rollbacks and filters failing at any point, the file and the
  published configuration are those of one save whose settings are, up to the stamps of key use, the
  settings the interface runs with, and the session store has their time to live.
\<close>

theorem running_config_is_saved:
  assumes "savedFrom (adCfg a) (adWorld a)" "ttl (adSessions a) = ttlNanos (adCfg a)"
    "a' = fold (\<lambda>op a. snd (runAdmin op a)) ops a"
  shows "\<exists>c. savedFrom c (adWorld a') \<and> withoutStamps c = withoutStamps (adCfg a') \<and>
    ttl (adSessions a') = ttlNanos (adCfg a')"
proof -
  have "admin_inv (fold (\<lambda>op a. snd (runAdmin op a)) ops a)" if "admin_inv a" for a
    using that by (induction ops arbitrary: a) (simp_all add: runAdmin_inv)
  then show ?thesis using assms by (auto simp: admin_inv_def)
qed

lemma filters_atomic:
  assumes "db_inv d" "\<not> fst (applyCountryFilters cfg d)"
  shows "tables (snd (applyCountryFilters cfg d)) = tables d"
proof -
  have i: "isl (fst (dropResult m d)) = isl (fst (m d))" "snd (dropResult m d) = snd (m d)" for m :: "int db_op"
    by (simp add: isl_dropResult) (cases "m d"; cases "fst (m d)"; auto simp: dropResult_def bindOp_def returnOp_def)
  note at = atomic_isl [OF runStateOp_atomic assms(1)]
  show ?thesis
    using assms(2) at [of "OpDisableNotAllowedCountries (cfgAllowedCountries cfg)"]
      at [of "OpDisableBlockedCountries (cfgBlockedCountries cfg)"]
    by (auto simp: applyCountryFilters_def i split: prod.splits if_splits)
qed

text \<open>
  A refused change changes nothing. When an administrative change is answered with an error, the
  settings, the file and the published configuration (up to the stamps of key use), the time to live of
  sessions and the tables are as before; the one exception is a change of settings whose country filters
  failed and whose rollback could not be saved either: then the new settings stay, consistently.
\<close>

theorem refused_changes_nothing:
  assumes "admin_inv a" "db_inv (adDB a)" "runAdmin op a = (Refused c m, a')"
  shows "tables (adDB a') = tables (adDB a) \<and> adNotified a' = adNotified a \<and>
    (adCfg a' = adCfg a \<and> adSessions a' = adSessions a \<and>
       (adWorld a' = adWorld a \<or> savedFrom (adCfg a) (adWorld a')) \<or>
     (\<exists>fault rollback meth q. op = OpConfigSave fault rollback meth (Body q) \<and>
        adCfg a' = requestedConfig q (adCfg a) \<and> savedFrom (adCfg a') (adWorld a') \<and>
        (\<exists>e. fst (saveConfigAt rollback (adCfg a) (adWorld a')) = Inl e)))"
proof (cases "isKeyOp op")
  case True
  then show ?thesis by (rule keyOp_effect [of op a]) (use assms(3) in auto)
next
  case False
  then obtain fault rollback meth body where op: "op = OpConfigSave fault rollback meth body"
    using assms(3) by (cases op) auto
  then have r: "apiConfigSave fault rollback meth body a = (Refused c m, a')" using assms(3) by simp
  show ?thesis
  proof (cases fault rollback meth body a rule: apiConfigSave_cases)
    case (rolledBack q w)
    then show ?thesis using r assms(1) filters_atomic [OF assms(2)] by (auto simp: admin_inv_def SetTTL_def)
  next
    case (stuck q w)
    then show ?thesis using r op filters_atomic [OF assms(2)] by auto
  qed (use r in auto)
qed

definition sampleAdmin :: Admin where
  "sampleAdmin = \<lparr>adCfg = sampleConfig, adWorld = snd (saveConfigAt None sampleConfig emptyWorld),
     adSessions = NewWithClock (ttlNanos sampleConfig) 0, adDB = emptyDB 0 [], adNotified = False\<rparr>"

lemma sampleAdmin_saved: "savedFrom (adCfg sampleAdmin) (adWorld sampleAdmin)" "ttl (adSessions sampleAdmin) = ttlNanos (adCfg sampleAdmin)"
proof -
  obtain w1 where w1: "saveConfigAt None sampleConfig emptyWorld = (Inr (), w1)"
    by (simp add: saveConfigAt_def validateForSave_def sampleConfig_def Let_def)
  then show "savedFrom (adCfg sampleAdmin) (adWorld sampleAdmin)"
    using saveConfigAt_savedFrom [OF w1] by (simp add: sampleAdmin_def)
  show "ttl (adSessions sampleAdmin) = ttlNanos (adCfg sampleAdmin)" by (simp add: sampleAdmin_def NewWithClock_def)
qed

theorem running_config_is_saved_witness:
  "\<exists>c. savedFrom c (adWorld (snd (apiAPIKeyRevoke (Some FailRename) ''POST'' (Body ''i'') sampleAdmin))) \<and>
     withoutStamps c = withoutStamps (adCfg (snd (apiAPIKeyRevoke (Some FailRename) ''POST'' (Body ''i'') sampleAdmin)))"
  using running_config_is_saved [OF sampleAdmin_saved refl, of "[OpKeyRevoke (Some FailRename) ''POST'' (Body ''i'')]"]
  by auto

theorem refused_changes_nothing_witness:
  "adCfg (snd (apiAPIKeyDelete None ''GET'' BodyInvalid sampleAdmin)) = adCfg sampleAdmin"
proof -
  have r: "runAdmin (OpKeyDelete None ''GET'' BodyInvalid) sampleAdmin = (Refused 405 ''method not allowed'', sampleAdmin)"
    by (simp add: apiAPIKeyDelete_def)
  have i: "admin_inv sampleAdmin" using sampleAdmin_saved by (auto simp: admin_inv_def)
  have d: "db_inv (adDB sampleAdmin)" using db_reachable_inv [OF db_new] by (simp add: sampleAdmin_def)
  show ?thesis using refused_changes_nothing [OF i d r] by (auto simp: apiAPIKeyDelete_def)
qed

section \<open>The life of an API key\<close>

lemma disableFirst_gone:
  assumes "disableFirst i ks = Some ks'" "distinct (map kID ks)" "k \<in> set ks'" "\<not> kDisabled k"
  shows "kID k \<noteq> i"
  using assms
proof (induction ks arbitrary: ks')
  case (Cons x xs)
  show ?case
  proof (cases "kID x = i")
    case True
    then have "ks' = x\<lparr>kDisabled := True\<rparr> # xs" using Cons.prems(1) by simp
    then have "k \<in> set xs" using Cons.prems(3,4) by auto
    moreover have "kID x \<notin> kID ` set xs" using Cons.prems(2) by simp
    ultimately show ?thesis using True by (metis imageI)
  next
    case False
    then obtain ys where "disableFirst i xs = Some ys" "ks' = x # ys" using Cons.prems(1) by (auto split: option.splits)
    then show ?thesis using Cons False by auto
  qed
qed simp

lemma match_in:
  assumes "matchReadOnlyAPIKey (Some c) plain = Some j"
  shows "j < length (cfgReadOnlyAPIKeys c)" "\<not> kDisabled (cfgReadOnlyAPIKeys c ! j)"
    "kHash (cfgReadOnlyAPIKeys c ! j) = HashAPIKey plain"
  using assms matchFrom_Some [of 0 "HashAPIKey plain" "cfgReadOnlyAPIKeys c" j]
  by (auto simp: matchReadOnlyAPIKey_def ConstantTimeCompare_def split: if_splits)

lemma saveKeys_keys: "saveKeys fault ks answer a = (x, a') \<Longrightarrow> \<forall>c m. x \<noteq> Refused c m \<Longrightarrow>
    x = answer \<and> cfgReadOnlyAPIKeys (adCfg a') = ks"
  by (cases fault ks answer a rule: saveKeys_cases) auto

lemma created_key:
  assumes "apiAPIKeyCreate (Some secret) ident t fault meth body a = (KeyCreated i plain, a')" "secret \<noteq> []"
  shows "plain = secret \<and> ValidateReadOnlyAPIKey (Some (adCfg a')) plain"
proof -
  have h: "HashAPIKey secret \<noteq> []" by (rule hash_not_Nil)
  obtain entry i' where "saveKeys fault (cfgReadOnlyAPIKeys (adCfg a) @ [entry]) (KeyCreated i' secret) a = (KeyCreated i plain, a')"
      "kHash entry = HashAPIKey secret" "\<not> kDisabled entry"
    using assms(1)
    by (fastforce simp: apiAPIKeyCreate_def Let_def jsonDecodeError_def split: if_splits decoded.splits option.splits)
  then show ?thesis
    using saveKeys_keys [of fault _ "KeyCreated i' secret" a "KeyCreated i plain" a'] assms(2) h
    by (auto simp: ValidateReadOnlyAPIKey_def ConstantTimeCompare_def)
qed

lemma revoked_key:
  assumes "distinct (map kID (cfgReadOnlyAPIKeys (adCfg a)))"
    "apiAPIKeyRevoke fault meth (Body i) a = (Done, a')" "matchReadOnlyAPIKey (Some (adCfg a')) plain = Some j"
  shows "kID (cfgReadOnlyAPIKeys (adCfg a') ! j) \<noteq> TrimSpace i"
proof -
  obtain ks where ks: "disableFirst (TrimSpace i) (cfgReadOnlyAPIKeys (adCfg a)) = Some ks"
      "saveKeys fault ks Done a = (Done, a')"
    using assms(2) by (auto simp: apiAPIKeyRevoke_def Let_def split: if_splits option.splits)
  then have "cfgReadOnlyAPIKeys (adCfg a') = ks" using saveKeys_keys [OF ks(2)] by simp
  then show ?thesis using disableFirst_gone [OF ks(1) assms(1)] match_in [OF assms(3)] by simp
qed

lemma deleted_key:
  assumes "apiAPIKeyDelete fault meth (Body i) a = (Done, a')"
  shows "cfgReadOnlyAPIKeys (adCfg a') = filter (\<lambda>k. kID k \<noteq> TrimSpace i) (cfgReadOnlyAPIKeys (adCfg a))"
proof -
  have "saveKeys fault (filter (\<lambda>k. kID k \<noteq> TrimSpace i) (cfgReadOnlyAPIKeys (adCfg a))) Done a = (Done, a')"
    using assms by (auto simp: apiAPIKeyDelete_def Let_def split: if_splits)
  then show ?thesis using saveKeys_keys by fastforce
qed

text \<open>
  A key works from its creation to its withdrawal. The secret answered by a creation is accepted
  from then on; after a key was revoked or deleted no request is matched to it any more, and a deletion
  leaves all other keys alone.
\<close>

theorem key_lifecycle:
  assumes "distinct (map kID (cfgReadOnlyAPIKeys (adCfg a)))"
  shows "(apiAPIKeyCreate (Some secret) ident t fault meth body a = (KeyCreated i plain, a') \<and> secret \<noteq> [] \<longrightarrow>
      plain = secret \<and> ValidateReadOnlyAPIKey (Some (adCfg a')) plain) \<and>
    (apiAPIKeyRevoke fault meth (Body i) a = (Done, a') \<and> matchReadOnlyAPIKey (Some (adCfg a')) plain = Some j \<longrightarrow>
      kID (cfgReadOnlyAPIKeys (adCfg a') ! j) \<noteq> TrimSpace i) \<and>
    (apiAPIKeyDelete fault meth (Body i) a = (Done, a') \<longrightarrow>
      cfgReadOnlyAPIKeys (adCfg a') = filter (\<lambda>k. kID k \<noteq> TrimSpace i) (cfgReadOnlyAPIKeys (adCfg a)))"
  using created_key [of secret ident t fault meth body a i plain a'] deleted_key [of fault meth i a a']
    revoked_key [OF assms, of fault meth i a' plain j] by blast

theorem key_lifecycle_witness:
  "\<exists>a'. apiAPIKeyCreate (Some ''s'') (Some ''j'') 0 None ''POST'' (Body ''n'') sampleAdmin = (KeyCreated ''j'' ''s'', a') \<and>
     ValidateReadOnlyAPIKey (Some (adCfg a')) ''s''"
proof -
  have d: "distinct (map kID (cfgReadOnlyAPIKeys (adCfg sampleAdmin)))" by (simp add: sampleAdmin_def sampleConfig_def)
  have n: "TrimSpace ''n'' = ''n''" by (simp add: TrimSpace_graphic graphic_def)
  obtain a' where a': "apiAPIKeyCreate (Some ''s'') (Some ''j'') 0 None ''POST'' (Body ''n'') sampleAdmin = (KeyCreated ''j'' ''s'', a')"
    by (auto simp: apiAPIKeyCreate_def n saveKeys_def saveAndPublish_def saveConfigAt_def validateForSave_def
        sampleAdmin_def sampleConfig_def Let_def)
  show ?thesis using key_lifecycle [OF d, of "''s''" "Some ''j''" 0 None "''POST''" "Body ''n''" "''j''" "''s''" a'] a' by simp
qed

end
