(* ===== verification/IPRanges.thy ===== *)
theory IPRanges
  imports ApiKeys Targets
begin

text \<open>
  The classes of IP addresses the web interface tells apart (\<open>net.IP\<close> and \<open>webui/sessions.go\<close>), and that
  the masks of the code are the address blocks its comments list.
\<close>

section \<open>Definitions\<close>

definition IsUnspecified :: "nat list \<Rightarrow> bool" where
  "IsUnspecified ip \<longleftrightarrow> ip = v4InV6 @ [0, 0, 0, 0] \<or> ip = replicate 16 0 \<or> ip = [0, 0, 0, 0]"

definition IsLinkLocalUnicast :: "nat list \<Rightarrow> bool" where
  "IsLinkLocalUnicast ip =
     (case To4 ip of
        Some q \<Rightarrow> q ! 0 = 169 \<and> q ! 1 = 254
      | None \<Rightarrow> length ip = 16 \<and> ip ! 0 = 254 \<and> and (ip ! 1) 192 = 128)"

definition IsLinkLocalMulticast :: "nat list \<Rightarrow> bool" where
  "IsLinkLocalMulticast ip =
     (case To4 ip of
        Some q \<Rightarrow> q ! 0 = 224 \<and> q ! 1 = 0 \<and> q ! 2 = 0
      | None \<Rightarrow> length ip = 16 \<and> ip ! 0 = 255 \<and> and (ip ! 1) 15 = 2)"

definition isPrivateOrInternalIP :: "nat list \<Rightarrow> bool" where
  "isPrivateOrInternalIP ip =
     (if IsLoopback ip \<or> IsUnspecified ip \<or> IsLinkLocalUnicast ip \<or> IsLinkLocalMulticast ip \<or> IsPrivate ip
      then True
      else
        (case To4 ip of
           Some v4 \<Rightarrow> v4 ! 0 = 100 \<and> and (v4 ! 1) 192 = 64
         | None \<Rightarrow> False))"

section \<open>What counts as internal\<close>

text \<open>The address blocks the comments name, as prefixes of so many bits.\<close>

fun samePrefix :: "nat \<Rightarrow> nat list \<Rightarrow> nat list \<Rightarrow> bool" where
  "samePrefix n (a # as) (b # bs) =
     (if n \<ge> 8 then a = b \<and> samePrefix (n - 8) as bs
      else a div 2 ^ (8 - n) = b div 2 ^ (8 - n) \<and> length as = length bs)"
| "samePrefix n [] [] = True"
| "samePrefix n _ _ = False"

definition blocksV4 :: "(nat list \<times> nat) list" where
  "blocksV4 =
     [([127, 0, 0, 0], 8), ([10, 0, 0, 0], 8), ([172, 16, 0, 0], 12), ([192, 168, 0, 0], 16), ([100, 64, 0, 0], 10),
      ([169, 254, 0, 0], 16), ([224, 0, 0, 0], 24), ([0, 0, 0, 0], 32)]"

definition blocksV6 :: "(nat list \<times> nat) list" where
  "blocksV6 =
     [(replicate 15 0 @ [1], 128), (replicate 16 0, 128), (252 # replicate 15 0, 7), (254 # 128 # replicate 14 0, 10)] @
     map (\<lambda>k. (255 # (16 * k + 2) # replicate 14 0, 16)) [0..<16]"

definition internalAddress :: "nat list \<Rightarrow> bool" where
  "internalAddress ip =
     (let c = (case To4 ip of Some q \<Rightarrow> q | None \<Rightarrow> ip) in
      list_ex (\<lambda>(base, n). samePrefix n base c) (blocksV4 @ blocksV6))"

lemma length_eq_4: "length q = 4 \<Longrightarrow> \<exists>a b c d. q = [a, b, c, d]"
  by (auto simp: length_Suc_conv eval_nat_numeral)

lemma and_192: "and b (192 :: nat) = 64 * (b div 64 mod 4)"
proof -
  have "and b (push_bit 6 (mask 2)) = push_bit 6 (and (drop_bit 6 b) (mask 2 :: nat))"
    by (rule bit_eqI) (auto simp: bit_simps)
  then have "and b (push_bit 6 (mask 2)) = push_bit 6 (take_bit 2 (drop_bit 6 b))"
    by (simp only: take_bit_eq_mask)
  then show ?thesis
    by (simp add: push_bit_eq_mult drop_bit_eq_div take_bit_eq_mod mask_eq_exp_minus_1 mult.commute)
qed

lemma and_15: "and b (15 :: nat) = b mod 16"
  using take_bit_eq_mask [of 4 b] by (simp add: take_bit_eq_mod mask_eq_exp_minus_1)

lemma parseOctet_byte: "parseOctet s = Some n \<Longrightarrow> n < 256"
  by (auto simp: parseOctet_def split: if_splits)

lemma parseIPv4_bytes: "parseIPv4 s = Some q \<Longrightarrow> length q = 4 \<and> (\<forall>b\<in>set q. b < 256)"
proof -
  assume "parseIPv4 s = Some q"
  then obtain a b c d where m: "map parseOctet (SplitByte s CHR ''.'') = [Some a, Some b, Some c, Some d]"
    and q: "q = [a, b, c, d]"
    unfolding parseIPv4_def by (auto split: list.splits option.splits)
  from m have "Some n \<in> parseOctet ` set (SplitByte s CHR ''.'')" if "n \<in> {a, b, c, d}" for n
    using that by (metis insertE list.set_intros list.set_map singletonD set_subset_Cons subsetD)
  then have "n < 256" if "n \<in> {a, b, c, d}" for n
    using that parseOctet_byte by (metis (no_types, lifting) imageE)
  then show ?thesis using q by simp
qed

lemma hexGroup_bound: "hexGroup s acc = (a, n, r) \<Longrightarrow> a < (acc + 1) * 16 ^ n"
proof (induction s acc arbitrary: a n r rule: hexGroup.induct)
  case (2 c s acc)
  show ?case
  proof (cases "NetAddr.hexDigit c")
    case None
    with 2 show ?thesis by simp
  next
    case (Some v)
    then have v: "v < 16" by (auto simp: NetAddr.hexDigit_def isDigitChar_def split: if_splits)
    obtain m where m: "hexGroup s (acc * 16 + v) = (a, m, r)" "n = Suc m"
      using 2(2) Some by (auto split: prod.splits)
    from 2(1) [OF Some m(1)] have "a < (acc * 16 + v + 1) * 16 ^ m" .
    also have "\<dots> \<le> ((acc + 1) * 16) * 16 ^ m" using v by (intro mult_right_mono) auto
    finally show ?thesis by (simp add: m(2) algebra_simps)
  qed
qed simp

lemma hexGroup_word: "hexGroup s 0 = (a, n, r) \<Longrightarrow> n \<le> 4 \<Longrightarrow> a div 256 < 256 \<and> a mod 256 < 256"
proof -
  assume "hexGroup s 0 = (a, n, r)" "n \<le> 4"
  then have "a < 16 ^ n" "(16 :: nat) ^ n \<le> 16 ^ 4"
    using hexGroup_bound [of s 0 a n r] power_increasing [of n 4 "16 :: nat"] by auto
  then have "a < 65536" by simp
  then show ?thesis by (simp add: div_less_dividend less_mult_imp_div_less)
qed

lemma ipv6Groups_bytes:
  "ipv6Groups n s out ell = Some (out', ell', r) \<Longrightarrow> \<forall>b\<in>set out. b < 256 \<Longrightarrow> length out + 2 * n \<le> 16 \<Longrightarrow>
   (\<forall>b\<in>set out'. b < 256) \<and> length out' \<le> 16"
proof (induction n arbitrary: s out ell)
  case (Suc n)
  obtain acc off rest where h: "hexGroup s 0 = (acc, off, rest)" by (metis prod_cases3)
  let ?o = "out @ [acc div 256, acc mod 256]"
  have "0 < off \<and> off \<le> 4" using Suc.prems(1) h by (simp split: if_splits)
  then have o: "\<forall>b\<in>set ?o. b < 256" "length ?o + 2 * n \<le> 16"
    using hexGroup_word [OF h] Suc.prems(2,3) by auto
  have "(\<exists>q. parseIPv4 s = Some q \<and> out' = out @ q \<and> length out + 4 \<le> 16) \<or> out' = ?o \<or>
      (\<exists>t e. ipv6Groups n t ?o e = Some (out', ell', r))"
  proof (cases "take 1 rest = ''.''")
    case True
    then show ?thesis using Suc.prems(1) by (simp add: h split: if_split_asm option.split_asm)
  next
    case False
    consider "rest = []" | "rest \<noteq> []" "hd (tl rest) = CHR '':''" "tl (tl rest) = []"
      | "rest \<noteq> []" "hd (tl rest) = CHR '':''" "tl (tl rest) \<noteq> []" | "rest \<noteq> []" "hd (tl rest) \<noteq> CHR '':''"
      by blast
    then show ?thesis
    proof cases
      case 1
      then show ?thesis using Suc.prems(1) False by (simp add: h Let_def split: if_split_asm)
    next
      case 2
      then have "Some (?o, Some (length ?o), []) = Some (out', ell', r)"
        using Suc.prems(1) False by (simp add: h Let_def split: if_split_asm)
      then show ?thesis by blast
    next
      case 3
      then have "ipv6Groups n (tl (tl rest)) ?o (Some (length ?o)) = Some (out', ell', r)"
        using Suc.prems(1) False by (simp add: h Let_def split: if_split_asm)
      then show ?thesis by blast
    next
      case 4
      then have "ipv6Groups n (tl rest) ?o ell = Some (out', ell', r)"
        using Suc.prems(1) False by (simp add: h Let_def split: if_split_asm)
      then show ?thesis by blast
    qed
  qed
  then consider q where "parseIPv4 s = Some q" "out' = out @ q" "length out + 4 \<le> 16" | "out' = ?o"
    | t e where "ipv6Groups n t ?o e = Some (out', ell', r)"
    by blast
  then show ?case
  proof cases
    case 1
    then show ?thesis using parseIPv4_bytes [of s q] Suc.prems(2) by auto
  next
    case 2
    have "length ?o \<le> 16" using o(2) by linarith
    with o(1) show ?thesis unfolding 2 by (rule conjI)
  next
    case 3
    then show ?thesis using Suc.IH o by blast
  qed
qed auto

lemma ParseIP_bytes: "ParseIP s = Some ip \<Longrightarrow> length ip = 16 \<and> (\<forall>b\<in>set ip. b < 256)"
proof -
  assume p: "ParseIP s = Some ip"
  have six: "length ip = 16 \<and> (\<forall>b\<in>set ip. b < 256)"
    if b: "Option.bind (ipv6Groups 8 t [] ell) expandEllipsis = Some ip" for t ell
  proof -
    from b obtain out e r where g: "ipv6Groups 8 t [] ell = Some (out, e, r)" and x: "expandEllipsis (out, e, r) = Some ip"
      by (cases "ipv6Groups 8 t [] ell") auto
    from ipv6Groups_bytes [OF g] have o: "\<forall>b\<in>set out. b < 256" "length out \<le> 16" by simp_all
    from x have "set ip \<subseteq> insert 0 (set out)" "length ip = 16"
      using o(2) set_take_subset set_drop_subset
      by (fastforce simp: expandEllipsis_def split: if_splits option.splits)+
    with o(1) show ?thesis by auto
  qed
  from p consider q where "parseIPv4 s = Some q" "ip = v4InV6 @ q" | "parseIPv6 s = Some ip"
    by (auto simp: ParseIP_def split: option.splits if_splits)
  then show ?thesis
  proof cases
    case 1
    then show ?thesis using parseIPv4_bytes [of s q] by (auto simp: v4InV6_def)
  next
    case 2
    then show ?thesis using six by (auto simp: parseIPv6_def split: if_splits)
  qed
qed

lemma samePrefix_length: "samePrefix n a b \<Longrightarrow> length a = length b"
  by (induction n a b rule: samePrefix.induct) (auto split: if_splits)

lemma not_blocksV6: "length c = 4 \<Longrightarrow> \<not> list_ex (\<lambda>(base, n). samePrefix n base c) blocksV6"
  by (auto simp: blocksV6_def list_ex_iff simp del: samePrefix.simps dest: samePrefix_length)

lemma not_blocksV4: "length c = 16 \<Longrightarrow> \<not> list_ex (\<lambda>(base, n). samePrefix n base c) blocksV4"
  by (auto simp: blocksV4_def simp del: samePrefix.simps dest: samePrefix_length)

lemma v4InV6_not_zero: "v4InV6 @ xs \<noteq> replicate 16 0"
proof
  assume eq: "v4InV6 @ xs = replicate 16 0"
  have "255 \<in> set (v4InV6 @ xs)" by (simp add: v4InV6_def)
  then show False unfolding eq by simp
qed

lemma internal_v4:
  assumes "To4 ip = Some [a, b, c, d]" "length ip = 16" "b < 256" "c < 256" "d < 256"
  shows "isPrivateOrInternalIP ip = internalAddress ip"
proof -
  have ip: "ip = v4InV6 @ [a, b, c, d]"
    using assms(1,2) append_take_drop_id [of 12 ip] by (auto simp: To4_def simp del: append_take_drop_id split: if_splits)
  have u: "IsUnspecified ip \<longleftrightarrow> [a, b, c, d] = [0, 0, 0, 0]"
    using ip assms(2) by (auto simp: IsUnspecified_def v4InV6_not_zero)
  have m: "and b 192 = 64 \<longleftrightarrow> b div 64 = 1" using assms(3) by (auto simp: and_192)
  have "isPrivateOrInternalIP ip \<longleftrightarrow> a = 127 \<or> [a, b, c, d] = [0, 0, 0, 0] \<or> a = 169 \<and> b = 254 \<or> a = 224 \<and> b = 0 \<and> c = 0 \<or>
      a = 10 \<or> a = 172 \<and> b div 16 = 1 \<or> a = 192 \<and> b = 168 \<or> a = 100 \<and> b div 64 = 1"
    by (simp add: isPrivateOrInternalIP_def assms(1) u m IsLoopback_def IsLinkLocalUnicast_def IsLinkLocalMulticast_def
        IsPrivate_def) blast
  moreover have "internalAddress ip \<longleftrightarrow> a = 127 \<or> a = 10 \<or> a = 172 \<and> b div 16 = 1 \<or> a = 192 \<and> b = 168 \<or>
      a = 100 \<and> b div 64 = 1 \<or> a = 169 \<and> b = 254 \<or> a = 224 \<and> b = 0 \<and> c = 0 \<or> [a, b, c, d] = [0, 0, 0, 0]"
    using assms(3-5)
    by (simp add: internalAddress_def assms(1) not_blocksV6) (simp add: blocksV4_def; metis)
  ultimately show ?thesis by blast
qed

lemma samePrefix_full: "n = 8 * length a \<Longrightarrow> samePrefix n a b \<longleftrightarrow> a = b"
  by (induction n a b rule: samePrefix.induct) auto

lemma samePrefix_none: "\<forall>b\<in>set bs. b < 256 \<Longrightarrow> samePrefix 0 (replicate k 0) bs \<longleftrightarrow> length bs = k"
  by (cases k; cases bs) auto

lemma internal_v6:
  assumes "To4 ip = None" "length ip = 16" "\<forall>b\<in>set ip. b < 256"
  shows "isPrivateOrInternalIP ip = internalAddress ip"
proof -
  obtain x y zs where ip: "ip = x # y # zs" "length zs = 14"
    using assms(2) by (cases ip; cases "tl ip") auto
  have y: "y < 256" and zs: "\<forall>b\<in>set zs. b < 256" using assms(3) ip by auto
  have m: "and y 192 = 128 \<longleftrightarrow> 2 = y div 64" using y by (auto simp: and_192)
  have k: "(\<exists>k\<in>{0..<16}. 16 * k + 2 = y) \<longleftrightarrow> y mod 16 = 2"
  proof
    assume "y mod 16 = 2"
    then have "16 * (y div 16) + 2 = y" "y div 16 < 16" using y div_mult_mod_eq [of y 16] by auto
    then show "\<exists>k\<in>{0..<16}. 16 * k + 2 = y" by auto
  next
    assume "\<exists>k\<in>{0..<16}. 16 * k + 2 = y"
    then obtain k where "y = 2 + 16 * k" by auto
    then show "y mod 16 = 2" by (simp only: mod_mult_self2) simp
  qed
  have "ip \<noteq> v4InV6 @ [0, 0, 0, 0]" using assms(1) by (auto simp: To4_mapped)
  then have "isPrivateOrInternalIP ip \<longleftrightarrow> ip = replicate 15 0 @ [1] \<or> ip = replicate 16 0 \<or> x = 254 \<and> 2 = y div 64 \<or>
      x = 255 \<and> y mod 16 = 2 \<or> x div 2 = 126"
    using assms(1,2) ip
    by (simp add: isPrivateOrInternalIP_def IsLoopback_def IsUnspecified_def IsLinkLocalUnicast_def
        IsLinkLocalMulticast_def IsPrivate_def and_15 m) auto
  moreover have "internalAddress ip \<longleftrightarrow> list_ex (\<lambda>(base, n). samePrefix n base ip) blocksV6"
    using assms(1,2) by (simp add: internalAddress_def not_blocksV4)
  moreover have "list_ex (\<lambda>(base, n). samePrefix n base ip) blocksV6 \<longleftrightarrow>
      replicate 15 0 @ [1] = ip \<or> replicate 16 0 = ip \<or> 126 = x div 2 \<or> x = 254 \<and> 2 = y div 64 \<or>
      255 = x \<and> (\<exists>k\<in>{0..<16}. 16 * k + 2 = y)"
    using samePrefix_full [of 128 "replicate 15 0 @ [1]" ip] samePrefix_full [of 128 "replicate 16 0" ip] zs ip
    by (simp add: blocksV6_def list_ex_iff samePrefix_none)
  ultimately show ?thesis unfolding k by auto
qed

lemma internal_exact:
  assumes "ParseIP s = Some ip"
  shows "isPrivateOrInternalIP ip = internalAddress ip"
proof (cases "To4 ip")
  case None
  then show ?thesis using ParseIP_bytes [OF assms] internal_v6 by blast
next
  case (Some q)
  then have "length q = 4" using ParseIP_bytes [OF assms] by (auto simp: To4_def split: if_splits)
  then obtain a b c d where q: "q = [a, b, c, d]" using length_eq_4 by blast
  have "set q \<subseteq> set ip" using Some set_drop_subset by (fastforce simp: To4_def split: if_splits)
  then show ?thesis using ParseIP_bytes [OF assms] Some q by (intro internal_v4) auto
qed

end
