(* ===== verification/NodesApi.thy ===== *)
theory NodesApi
  imports AdminConfig SelectorSpec StorageSubs Validator IPRanges
begin

text \<open>
  The read-only interface for external programs and the session views (\<open>webui/api_v1_nodes.go\<close>,
  \<open>webui/sessions.go\<close>, \<open>webui/public_host.go\<close>, \<open>webui/public_ip.go\<close>): the query of
  \<open>GET /api/v1/nodes\<close>, how each node is presented (directly, or through the gateway with a user name that
  pins it), paging over the nodes of one kind, the occupancy report and its redaction, the list of
  sessions, and the address the gateway is reached under.

  A request carries its decoded query. Times are left as numbers where the code formats them; the fixed
  human-readable note of a gateway entry is left out.
\<close>

section \<open>Addresses\<close>

text \<open>\<open>n, _ := strconv.Atoi(s)\<close>: zero on a syntax error, the nearest bound on a range error.\<close>

definition AtoiValue :: "string \<Rightarrow> int" where
  "AtoiValue s =
     (case Atoi s of
        Some v \<Rightarrow> v
      | None \<Rightarrow>
          (let neg = (take 1 s = ''-''); ds = (if neg \<or> take 1 s = ''+'' then drop 1 s else s) in
           if ds = [] \<or> \<not> list_all isDigitChar ds then 0 else if neg then - (2 ^ 63) else 2 ^ 63 - 1))"

definition proxyAddressHost :: "string \<Rightarrow> string" where
  "proxyAddressHost addr =
     (let host = TrimSpace addr in
      if host = [] then []
      else TrimCutset (case SplitHostPort host of Some (h, _) \<Rightarrow> h | None \<Rightarrow> host) ''[]'')"

definition isPrivateOrInternalProxyAddress :: "string \<Rightarrow> bool" where
  "isPrivateOrInternalProxyAddress addr =
     (let host = proxyAddressHost addr in
      if host = [] then False
      else if EqualFold host ''localhost'' then True
      else (case ParseIP host of None \<Rightarrow> True | Some ip \<Rightarrow> isPrivateOrInternalIP ip))"

definition isLocalMixedDisplayAddress :: "string \<Rightarrow> bool" where
  "isLocalMixedDisplayAddress addr =
     (let host = proxyAddressHost addr in
      if host = [] then False
      else if EqualFold host ''localhost'' then True
      else (case ParseIP host of None \<Rightarrow> False | Some ip \<Rightarrow> IsLoopback ip))"

definition splitAddressHostPort :: "string \<Rightarrow> string \<times> int" where
  "splitAddressHostPort address0 =
     (let address = TrimSpace address0 in
      if address = [] then ([], 0)
      else
        (case SplitHostPort address of
           None \<Rightarrow> (TrimCutset address ''[]'', 0)
         | Some (host, portStr) \<Rightarrow> (host, AtoiValue portStr)))"

definition stripLeadingColonPort :: "string \<Rightarrow> int" where
  "stripLeadingColonPort raw0 =
     (let raw = TrimPrefix (TrimSpace raw0) '':'' in if raw = [] then 0 else AtoiValue raw)"

section \<open>The public address of the gateway\<close>

definition publicIPCacheTTL :: int where
  "publicIPCacheTTL = 5 * 60 * 10 ^ 9"

record publicIPCache =
  piValue :: string
  piCountry :: string
  piDone :: bool
  piFetchedAt :: "int option"
  piFetching :: bool

definition publicIPProviders :: "string list" where
  "publicIPProviders =
     [''https://api.ipify.org'', ''https://ip.sb'', ''https://ifconfig.me/ip'', ''https://icanhazip.com'']"

definition tryFetchIP :: "client \<Rightarrow> string \<Rightarrow> string" where
  "tryFetchIP fetch url =
     (case fetch url of
        None \<Rightarrow> []
      | Some r \<Rightarrow>
          if rpStatus r \<noteq> 200 then []
          else
            (case readLimited 64 (rpBody r) of
               None \<Rightarrow> []
             | Some body \<Rightarrow>
                 let candidate = TrimSpace body in if ParseIP candidate = None then [] else candidate))"

fun firstPublicIP :: "client \<Rightarrow> string list \<Rightarrow> string" where
  "firstPublicIP fetch [] = []"
| "firstPublicIP fetch (url # urls) =
     (let ip = tryFetchIP fetch url in if ip \<noteq> [] then ip else firstPublicIP fetch urls)"

definition fetchPublicIP :: "client \<Rightarrow> string" where
  "fetchPublicIP fetch = firstPublicIP fetch publicIPProviders"

definition publicIPAndCountryURL :: string where
  "publicIPAndCountryURL = ''http://ip-api.com/json/?fields=status,countryCode,query''"

text \<open>The answer of the combined source, when it has one.\<close>

definition combinedPublicIP :: "client \<Rightarrow> (string \<times> string) option" where
  "combinedPublicIP fetch =
     (case fetch publicIPAndCountryURL of
        None \<Rightarrow> None
      | Some r \<Rightarrow>
          if rpStatus r \<noteq> 200 then None
          else
            (case parseJSON (take 512 (bodyBytes (rpBody r))) of
               None \<Rightarrow> None
             | Some v \<Rightarrow>
                 (case (structField asString [] ''status'' v, structField asString [] ''countrycode'' v,
                        structField asString [] ''query'' v) of
                    (Some status, Some cc, Some query) \<Rightarrow>
                      if status = ''success'' \<and> ParseIP query \<noteq> None then Some (query, ToUpper cc) else None
                  | _ \<Rightarrow> None)))"

definition fetchPublicIPAndCountry :: "client \<Rightarrow> string \<times> string" where
  "fetchPublicIPAndCountry fetch =
     (case combinedPublicIP fetch of Some r \<Rightarrow> r | None \<Rightarrow> (fetchPublicIP fetch, []))"

text \<open>
  The phases of \<open>cachedPublicIP\<close>: the section under the mutex that finds a fresh value, joins the fetch in
  progress or claims it, and the section that stores what the fetch, made without the mutex, returned.
\<close>

datatype lookup = Fresh string string | JoinFetch | OwnFetch

definition cachedPublicIPStart :: "int \<Rightarrow> publicIPCache \<Rightarrow> lookup \<times> publicIPCache" where
  "cachedPublicIPStart t c =
     (if piDone c \<and> piValue c \<noteq> [] \<and> (case piFetchedAt c of None \<Rightarrow> False | Some f \<Rightarrow> t - f < publicIPCacheTTL)
      then (Fresh (piValue c) (piCountry c), c)
      else if piFetching c then (JoinFetch, c)
      else (OwnFetch, c\<lparr>piFetching := True\<rparr>))"

definition cachedPublicIPStore :: "int \<Rightarrow> string \<times> string \<Rightarrow> publicIPCache \<Rightarrow> (string \<times> string) \<times> publicIPCache" where
  "cachedPublicIPStore t r c =
     (let c' = (if fst r = [] then c\<lparr>piValue := [], piCountry := [], piDone := False, piFetchedAt := None\<rparr>
                else c\<lparr>piValue := fst r, piCountry := snd r, piDone := True, piFetchedAt := Some t\<rparr>)
      in ((piValue c', piCountry c'), c'\<lparr>piFetching := False\<rparr>))"

definition cachedPublicIPOnly :: "int \<Rightarrow> publicIPCache \<Rightarrow> string" where
  "cachedPublicIPOnly t c =
     (if \<not> piDone c \<or> piValue c = [] \<or>
         (case piFetchedAt c of None \<Rightarrow> False | Some f \<Rightarrow> t - f \<ge> publicIPCacheTTL)
      then [] else piValue c)"

definition stripHostPort :: "string \<Rightarrow> string" where
  "stripHostPort hostport0 =
     (let hostport = TrimSpace hostport0 in
      if hostport = [] then []
      else (case SplitHostPort hostport of Some (h, _) \<Rightarrow> h | None \<Rightarrow> TrimCutset hostport ''[]''))"

definition hostFromRequest :: "WebRequest \<Rightarrow> string" where
  "hostFromRequest r = stripHostPort (wrHost r)"

definition normalizePublicHostCandidate :: "string \<Rightarrow> string" where
  "normalizePublicHostCandidate raw0 =
     (let raw = TrimSpace raw0 in
      if raw = [] then []
      else if Contains raw '':'' \<and> SplitHostPort raw \<noteq> None then fst (the (SplitHostPort raw))
      else TrimCutset raw ''[]'')"

definition isUnusablePublicHost :: "string \<Rightarrow> bool" where
  "isUnusablePublicHost h0 =
     (let h = TrimSpace h0 in
      if h = [] then True
      else if EqualFold h ''localhost'' then True
      else (case ParseIP h of Some ip \<Rightarrow> isPrivateOrInternalIP ip | None \<Rightarrow> False))"

fun firstUsableHost :: "string list \<Rightarrow> string \<times> bool" where
  "firstUsableHost [] = ([], True)"
| "firstUsableHost (c # cs) =
     (let h = normalizePublicHostCandidate c in
      if h = [] \<or> isUnusablePublicHost h then firstUsableHost cs else (h, False))"

definition resolvePublicHost :: "Config \<Rightarrow> int \<Rightarrow> publicIPCache \<Rightarrow> WebRequest \<Rightarrow> string \<times> bool" where
  "resolvePublicHost cfg t cache r =
     firstUsableHost [TrimSpace (cfgPublicHost cfg), cachedPublicIPOnly t cache, hostFromRequest r]"

section \<open>How a node is presented\<close>

definition isGatewayNode :: "Proxy \<Rightarrow> bool" where
  "isGatewayNode p = (if pDualProtocol p then True else isPrivateOrInternalProxyAddress (pAddress p))"

definition connectModeForProxy :: "Proxy \<Rightarrow> string" where
  "connectModeForProxy p = (if isGatewayNode p then ''gateway'' else ''direct'')"

definition gatewayUsernameHint :: "string \<Rightarrow> string \<Rightarrow> string \<Rightarrow> string + string" where
  "gatewayUsernameHint base0 region nodeKey =
     (let base1 = TrimSpace base0; base = (if base1 = [] then ''username'' else base1);
          rawRegion = TrimSpace region; normalizedRegion = NormalizeCountryCode rawRegion;
          encodedNodeKey = EncodeNodeKeyPin nodeKey in
      if rawRegion \<noteq> [] \<and> normalizedRegion = [] then
        Inl ''cannot generate username hint: node region must be empty or a 2-letter country code''
      else if encodedNodeKey = [] then
        Inl ''cannot generate username hint: gateway node has no stable node key''
      else if normalizedRegion = [] then Inr (base @ ''-node-key-'' @ encodedNodeKey @ ''-session-api'')
      else Inr (base @ ''-region-'' @ ToLower normalizedRegion @ ''-node-key-'' @ encodedNodeKey @ ''-session-api''))"

datatype connectView =
    GatewayConn (gwHost: string) (gwSocks5Port: int) (gwHttpPort: int) (gwHint: "string + string") (gwUnresolved: bool)
  | DirectConn (dcHost: string) (dcPort: int) (dcDual: bool)

text \<open>What every view of one answer shares: host, whether it is unresolved, the two ports, the base user.\<close>

record gatewayInfo =
  giHost :: string
  giUnresolved :: bool
  giSocksPort :: int
  giHttpPort :: int
  giUsernameBase :: string

definition buildConnectView :: "gatewayInfo \<Rightarrow> Proxy \<Rightarrow> connectView" where
  "buildConnectView g p =
     (if isGatewayNode p then
        GatewayConn (giHost g) (giSocksPort g) (giHttpPort g)
          (gatewayUsernameHint (giUsernameBase g) (pRegion p) (pNodeKey p))
          (giUnresolved g \<or> giHost g = [])
      else (case splitAddressHostPort (pAddress p) of (host, port) \<Rightarrow> DirectConn host port (pDualProtocol p)))"

record purityView =
  pvScore :: rat
  pvFlags :: "string list"
  pvFlagsSeen :: bool

definition buildPurityView :: "Proxy \<Rightarrow> purityView" where
  "buildPurityView p =
     \<lparr>pvScore = pIPAPIIsScore p,
      pvFlags = (if TrimSpace (pIPAPIFlags p) \<noteq> []
                 then filter (\<lambda>t. t \<noteq> []) (map TrimSpace (SplitByte (pIPAPIFlags p) CHR '','')) else []),
      pvFlagsSeen = pIPAPIFlagsSeen p\<rparr>"

definition parseAIReachabilityObject :: "string \<Rightarrow> (string \<times> int) list" where
  "parseAIReachabilityObject raw0 =
     (let raw = TrimSpace raw0 in
      if raw = [] then []
      else (case unmarshalIntMap raw of
              (m, err) \<Rightarrow> if err then [] else (case m of None \<Rightarrow> [] | Some kvs \<Rightarrow> kvs)))"

record nodeView =
  nvID :: int
  nvProtocol :: string
  nvSource :: string
  nvRegion :: string
  nvRegionSource :: string
  nvConnect :: connectView
  nvExitIP :: string
  nvExitLocation :: string
  nvLatency :: int
  nvQualityGrade :: string
  nvPurity :: purityView
  nvCFBlocked :: int
  nvAIReachability :: "(string \<times> int) list"
  nvLastCheck :: "int option"
  nvStatus :: string

definition buildNodeAPIView :: "gatewayInfo \<Rightarrow> Proxy \<Rightarrow> nodeView" where
  "buildNodeAPIView g p =
     \<lparr>nvID = pID p, nvProtocol = pProtocol p, nvSource = pSource p, nvRegion = pRegion p,
      nvRegionSource = pRegionSource p, nvConnect = buildConnectView g p, nvExitIP = pExitIP p,
      nvExitLocation = pExitLocation p, nvLatency = pLatency p, nvQualityGrade = pQualityGrade p,
      nvPurity = buildPurityView p, nvCFBlocked = pCFBlocked p,
      nvAIReachability = parseAIReachabilityObject (pAIReachability p), nvLastCheck = pLastCheck p,
      nvStatus = pStatus p\<rparr>"

section \<open>The query of the node list\<close>

type_synonym query = "(string \<times> string) list"

definition queryGet :: "query \<Rightarrow> string \<Rightarrow> string" where
  "queryGet q key = (case map_of q key of None \<Rightarrow> [] | Some v \<Rightarrow> v)"

definition isNodeAPIAlpha2Region :: "string \<Rightarrow> bool" where
  "isNodeAPIAlpha2Region region \<longleftrightarrow> length region = 2 \<and> list_all (\<lambda>r. 97 \<le> r \<and> r \<le> 122) (runes region)"

definition parseMaxAbuse :: "string \<Rightarrow> string + go_float option" where
  "parseMaxAbuse raw =
     (if raw = [] then Inr None
      else
        (case ParseFloat raw of
           None \<Rightarrow> Inl ''invalid max_abuse''
         | Some NaN \<Rightarrow> Inr (Some NaN)
         | Some PosInf \<Rightarrow> Inl ''invalid max_abuse''
         | Some NegInf \<Rightarrow> Inl ''invalid max_abuse''
         | Some (Finite v) \<Rightarrow> if v < 0 \<or> v > 1 then Inl ''invalid max_abuse'' else Inr (Some (Finite v))))"

fun parseAINames :: "string list \<Rightarrow> string list \<Rightarrow> string + string list" where
  "parseAINames [] acc = (if acc = [] then Inl ''invalid ai'' else Inr acc)"
| "parseAINames (p # ps) acc =
     (let t = ToLower (TrimSpace p) in
      if t = [] then parseAINames ps acc
      else if t \<in> {''openai'', ''claude'', ''grok'', ''gemini''} then parseAINames ps (acc @ [t])
      else Inl ''invalid ai'')"

definition parseAI :: "string \<Rightarrow> string + string list" where
  "parseAI raw = (if raw = [] then Inr [] else parseAINames (SplitByte raw CHR '','') [])"

definition parseLimit :: "string \<Rightarrow> string + int" where
  "parseLimit raw =
     (if raw = [] then Inr 0
      else
        (case Atoi raw of
           None \<Rightarrow> Inl ''invalid limit''
         | Some v \<Rightarrow> if v \<le> 0 \<or> v > nodeAPIMaxLimit then Inl ''invalid limit'' else Inr v))"

definition parseOffset :: "string \<Rightarrow> string + int" where
  "parseOffset raw =
     (if raw = [] then Inr 0
      else (case Atoi raw of None \<Rightarrow> Inl ''invalid offset'' | Some v \<Rightarrow> if v < 0 then Inl ''invalid offset'' else Inr v))"

text \<open>The words of the query, checked in the order of the code; \<open>None\<close> when all are allowed.\<close>

definition wordError :: "string \<Rightarrow> string \<Rightarrow> string \<Rightarrow> string \<Rightarrow> string \<Rightarrow> string option" where
  "wordError region protocol source status cf =
     (if region \<noteq> [] \<and> \<not> isNodeAPIAlpha2Region region then Some ''invalid region''
      else if protocol \<notin> {[], ''http'', ''socks5''} then Some ''invalid protocol''
      else if source \<notin> {[], SourceManual, SourceSubscription} then Some ''invalid source''
      else if status \<noteq> [] \<and> status \<noteq> ''all'' then Some ''invalid status''
      else if cf \<notin> {[], ''open'', ''blocked''} then Some ''invalid cf''
      else None)"

definition connectWord :: "string \<Rightarrow> string + string" where
  "connectWord connect =
     (if connect \<in> {[], ''direct'', ''gateway''} then Inr connect else Inl ''invalid connect'')"

definition parseNodeAPIFilter :: "query \<Rightarrow> string + NodeAPIFilter \<times> string" where
  "parseNodeAPIFilter q =
     (let low = (\<lambda>key. ToLower (TrimSpace (queryGet q key)));
          region = low ''region''; protocol = low ''protocol''; source = low ''source'';
          status = low ''status''; cf = low ''cf'' in
      case wordError region protocol source status cf of
        Some e \<Rightarrow> Inl e
      | None \<Rightarrow>
        andThen (parseMaxAbuse (TrimSpace (queryGet q ''max_abuse''))) (\<lambda>abuse.
        andThen (parseAI (TrimSpace (queryGet q ''ai''))) (\<lambda>ai.
        andThen (parseLimit (TrimSpace (queryGet q ''limit''))) (\<lambda>lim1.
        andThen (parseOffset (TrimSpace (queryGet q ''offset''))) (\<lambda>off.
        andThen (connectWord (low ''connect'')) (\<lambda>connect.
          Inr (\<lparr>fRegion = region, fProtocol = protocol, fSource = source, fStatus = status, fMaxAbuse = abuse,
                fCF = cf, fAI = ai, fLimit = lim1, fOffset = off\<rparr>, connect)))))))"

section \<open>Listing nodes\<close>

text \<open>One node of a scan: the count of nodes of the wanted kind and the page so far.\<close>

definition connectStep ::
    "string \<Rightarrow> int \<Rightarrow> int \<Rightarrow> gatewayInfo \<Rightarrow> int \<times> nodeView list \<Rightarrow> Proxy \<Rightarrow> int \<times> nodeView list" where
  "connectStep connectMode pageLimit pageOffset g st p =
     (if connectModeForProxy p \<noteq> connectMode then st
      else
        (let tot = fst st + 1; nodes = snd st in
         if tot \<le> pageOffset \<or> int (length nodes) \<ge> pageLimit then (tot, nodes)
         else (tot, nodes @ [buildNodeAPIView g p])))"

text \<open>
  The scan: pages of \<open>nodesAPIMaxLimit\<close> rows until the total is reached. Every page but the last moves the
  offset on, so the number of rows bounds the pages; without fuel the result would be \<open>None\<close>.
\<close>

fun scanConnect ::
    "nat \<Rightarrow> NodeAPIFilter \<Rightarrow> string \<Rightarrow> int \<Rightarrow> int \<Rightarrow> gatewayInfo \<Rightarrow> int \<times> nodeView list \<Rightarrow>
     (int \<times> nodeView list) option db_op" where
  "scanConnect 0 f connectMode pageLimit pageOffset g st = returnOp None"
| "scanConnect (Suc n) f connectMode pageLimit pageOffset g st =
     bindOp (ListNodesForAPI f) (\<lambda>res.
       case res of
         None \<Rightarrow> returnOp None
       | Some (page, filteredTotal) \<Rightarrow>
           let st' = foldl (connectStep connectMode pageLimit pageOffset g) st page in
           if page = [] \<or> fOffset f + int (length page) \<ge> filteredTotal then returnOp (Some st')
           else scanConnect n (f\<lparr>fOffset := fOffset f + int (length page)\<rparr>) connectMode pageLimit pageOffset g st')"

definition listNodesAPIViewWithConnectFilter ::
    "NodeAPIFilter \<Rightarrow> string \<Rightarrow> gatewayInfo \<Rightarrow> (int \<times> nodeView list) option db_op" where
  "listNodesAPIViewWithConnectFilter f connectMode g d =
     scanConnect (Suc (length (proxies d))) (f\<lparr>fLimit := nodeAPIMaxLimit, fOffset := 0\<rparr>) connectMode
       (if fLimit f = 0 then nodeAPIDefaultLimit else fLimit f) (fOffset f) g (0, []) d"

definition gatewayInfoOf :: "Config \<Rightarrow> int \<Rightarrow> publicIPCache \<Rightarrow> WebRequest \<Rightarrow> gatewayInfo" where
  "gatewayInfoOf cfg t cache r =
     (case resolvePublicHost cfg t cache r of
        (publicHost, hostUnresolved) \<Rightarrow>
          \<lparr>giHost = publicHost, giUnresolved = hostUnresolved,
           giSocksPort = stripLeadingColonPort (cfgSOCKS5Port cfg), giHttpPort = stripLeadingColonPort (cfgHTTPPort cfg),
           giUsernameBase = (if TrimSpace (cfgProxyAuthUsername cfg) \<noteq> [] then TrimSpace (cfgProxyAuthUsername cfg)
                             else ''username'')\<rparr>)"

datatype nodes_answer = NodesError nat string | Nodes (ansTotal: int) (ansNodes: "nodeView list") | NodesHang

definition apiV1Nodes ::
    "Config \<Rightarrow> int \<Rightarrow> publicIPCache \<Rightarrow> WebRequest \<Rightarrow> query \<Rightarrow> DB \<Rightarrow> nodes_answer \<times> DB" where
  "apiV1Nodes cfg t cache r q d =
     (if wrMethod r \<noteq> ''GET'' then (NodesError 405 ''method not allowed'', d)
      else
        (case parseNodeAPIFilter q of
           Inl e \<Rightarrow> (NodesError 400 e, d)
         | Inr (f, connectMode) \<Rightarrow>
             let g = gatewayInfoOf cfg t cache r in
             if connectMode \<noteq> [] then
               (case listNodesAPIViewWithConnectFilter f connectMode g d of
                  (Inl _, d1) \<Rightarrow> (NodesError 500 ''failed to list nodes'', d1)
                | (Inr None, d1) \<Rightarrow> (NodesHang, d1)
                | (Inr (Some (tot, nodes)), d1) \<Rightarrow> (Nodes tot nodes, d1))
             else
               (case ListNodesForAPI f d of
                  (Inl _, d1) \<Rightarrow> (NodesError 500 ''failed to list nodes'', d1)
                | (Inr None, d1) \<Rightarrow> (NodesHang, d1)
                | (Inr (Some (page, tot)), d1) \<Rightarrow> (Nodes tot (map (buildNodeAPIView g) page), d1))))"

section \<open>Sessions and occupancy\<close>

definition sessionRouteLabel :: "string \<Rightarrow> string \<Rightarrow> string" where
  "sessionRouteLabel region sessionID =
     (let s = TrimSpace sessionID; r = ToLower (TrimSpace region) in
      if s = [] then []
      else if r \<noteq> [] \<and> r \<noteq> ''unknown'' then ''region-'' @ r @ ''-session-'' @ s
      else ''session-'' @ s)"

definition sessionExitRegion :: "string \<Rightarrow> string" where
  "sessionExitRegion exitLocation =
     (case Fields exitLocation of
        [] \<Rightarrow> []
      | part # _ \<Rightarrow>
          if length part \<noteq> 2 then []
          else
            (let region = ToLower part in
             if list_ex (\<lambda>ch. ch < 97 \<or> ch > 122) (runes region) then [] else region))"

record sessionRow =
  srSessionID :: string
  srProxyID :: int
  srRouteLabel :: string
  srNode :: string
  srBindAddress :: string
  srSelectedRegion :: string
  srExitIP :: string
  srExitRegion :: string
  srExitLocation :: string
  srExitCheckedAt :: "int option"
  srProtocol :: string
  srSource :: string
  srSubscriptionName :: string
  srNote :: string
  srQualityGrade :: string
  srLatency :: int
  srDualProtocol :: bool
  srLastActive :: int
  srRemainingTTLSeconds :: int
  srCooldownRemainingSeconds :: int
  srActiveSessionsOnProxy :: int
  srMaxSessionsPerProxy :: int

text \<open>\<open>int64(d.Seconds())\<close> for a duration that is not negative.\<close>

definition seconds :: "int \<Rightarrow> int" where
  "seconds t = t div 10 ^ 9"

text \<open>The two fixed names, in UTF-8.\<close>

definition subscriptionLabel :: string where
  "subscriptionLabel = [CHR 0xE8, CHR 0xAE, CHR 0xA2, CHR 0xE9, CHR 0x98, CHR 0x85]"

definition manualLabel :: string where
  "manualLabel = [CHR 0xE6, CHR 0x89, CHR 0x8B, CHR 0xE5, CHR 0xB7, CHR 0xA5]"

definition sourceLabel :: "(int \<times> string) list \<Rightarrow> Proxy \<Rightarrow> string" where
  "sourceLabel subNameByID p =
     (if pSource p = SourceSubscription then
        (case map_of subNameByID (pSubscriptionID p) of
           Some name \<Rightarrow> if name \<noteq> [] then name else subscriptionLabel
         | None \<Rightarrow> subscriptionLabel)
      else if pSource p = SourceManual then manualLabel
      else [])"

definition enrichRow :: "(int \<times> string) list \<Rightarrow> Proxy \<Rightarrow> sessionRow \<Rightarrow> sessionRow" where
  "enrichRow subNameByID p row =
     (let row1 = row\<lparr>srQualityGrade := pQualityGrade p, srLatency := pLatency p, srProtocol := pProtocol p,
                     srSource := pSource p, srNote := pNote p, srDualProtocol := pDualProtocol p,
                     srSubscriptionName := sourceLabel subNameByID p\<rparr> in
      if pExitIP p \<noteq> [] \<and> pExitLocation p \<noteq> [] then
        row1\<lparr>srExitIP := pExitIP p, srNode := pExitIP p, srExitLocation := pExitLocation p,
             srExitRegion := sessionExitRegion (pExitLocation p), srExitCheckedAt := pExitCheckedAt p\<rparr>
      else row1)"

definition activeOn :: "SessionBinding list \<Rightarrow> int \<Rightarrow> int" where
  "activeOn bs pid = int (length (filter (\<lambda>b. sbProxyID b = pid) bs))"

definition sessionRowOf ::
    "(int \<times> string) list \<Rightarrow> int \<Rightarrow> SessionBinding list \<Rightarrow> SessionBinding \<Rightarrow> SessionStore \<times> DB \<Rightarrow>
     sessionRow \<times> SessionStore \<times> DB" where
  "sessionRowOf subNameByID maxSessions bs b w =
     (case w of (s, d) \<Rightarrow>
        case CooldownRemaining (sbProxyID b) s of (cool, s1) \<Rightarrow>
          let selectedRegion = ToLower (TrimSpace (sbRegion b));
              row = \<lparr>srSessionID = sbSessionID b, srProxyID = sbProxyID b,
                     srRouteLabel = sessionRouteLabel selectedRegion (sbSessionID b), srNode = [],
                     srBindAddress = sbNodeAddress b, srSelectedRegion = selectedRegion, srExitIP = [],
                     srExitRegion = [], srExitLocation = [], srExitCheckedAt = None, srProtocol = [],
                     srSource = [], srSubscriptionName = [], srNote = [], srQualityGrade = [],
                     srLatency = 0, srDualProtocol = False, srLastActive = sbLastActive b,
                     srRemainingTTLSeconds = seconds (RemainingTTL b s), srCooldownRemainingSeconds = seconds cool,
                     srActiveSessionsOnProxy = (if sbProxyID b > 0 then activeOn bs (sbProxyID b) else 0),
                     srMaxSessionsPerProxy = maxSessions\<rparr> in
          if sbProxyID b > 0 then
            (case GetProxyByID (sbProxyID b) d of
               (Inr p, d1) \<Rightarrow> (enrichRow subNameByID p row, s1, d1)
             | (Inl _, d1) \<Rightarrow> (row, s1, d1))
          else (row, s1, d))"

fun sessionRows ::
    "(int \<times> string) list \<Rightarrow> int \<Rightarrow> SessionBinding list \<Rightarrow> SessionBinding list \<Rightarrow> SessionStore \<times> DB \<Rightarrow>
     sessionRow list \<times> SessionStore \<times> DB" where
  "sessionRows names maxSessions bs [] w = ([], w)"
| "sessionRows names maxSessions bs (b # rest) w =
     (case sessionRowOf names maxSessions bs b w of (row, w1) \<Rightarrow>
        case sessionRows names maxSessions bs rest w1 of (rows, w2) \<Rightarrow> (row # rows, w2))"

text \<open>Latest activity first, session names break ties.\<close>

definition sortedSessions :: "SessionStore \<Rightarrow> SessionBinding list" where
  "sortedSessions s = sort_key (\<lambda>b. (- sbLastActive b, sbSessionID b)) (ListSessions s)"

definition apiSessions :: "Config \<Rightarrow> SessionStore option \<Rightarrow> DB \<Rightarrow> sessionRow list \<times> SessionStore option \<times> DB" where
  "apiSessions cfg affinity d =
     (case affinity of
        None \<Rightarrow> ([], None, d)
      | Some s \<Rightarrow>
          let bs = sortedSessions s in
          case GetSubscriptions d of (subs, d1) \<Rightarrow>
            let names = (case subs of Inl _ \<Rightarrow> [] | Inr l \<Rightarrow> map (\<lambda>x. (sID x, sName x)) (rev l)) in
            case sessionRows names (cfgMaxSessionsPerProxy cfg) bs bs (s, d1) of
              (rows, s1, d2) \<Rightarrow> (rows, Some s1, d2))"

record proxyOccupancyRow =
  orProxyID :: int
  orAddress :: string
  orActiveSessions :: int
  orMaxSessions :: int
  orCooldownRemainingSeconds :: int
  orNote :: string

text \<open>
  \<open>counts\<close> and \<open>addressByID\<close> in one association list, in the order the nodes first occur (the code
  iterates a map, in no fixed order).
\<close>

definition countBinding :: "(int \<times> int \<times> string) list \<Rightarrow> SessionBinding \<Rightarrow> (int \<times> int \<times> string) list" where
  "countBinding m b =
     (if sbProxyID b \<le> 0 then m
      else
        (case map_of m (sbProxyID b) of
           None \<Rightarrow> m @ [(sbProxyID b, 1, sbNodeAddress b)]
         | Some (n, a) \<Rightarrow> AList.update (sbProxyID b) (n + 1, a) m))"

fun occupancyRows :: "int \<Rightarrow> (int \<times> int \<times> string) list \<Rightarrow> SessionStore \<Rightarrow> proxyOccupancyRow list \<times> SessionStore" where
  "occupancyRows maxSessions [] s = ([], s)"
| "occupancyRows maxSessions ((pid, active, addr) # rest) s =
     (case CooldownRemaining pid s of (cool, s1) \<Rightarrow>
        case occupancyRows maxSessions rest s1 of (rows, s2) \<Rightarrow>
          (\<lparr>orProxyID = pid, orAddress = addr, orActiveSessions = active, orMaxSessions = maxSessions,
            orCooldownRemainingSeconds = seconds cool, orNote = []\<rparr> # rows, s2))"

definition buildProxyOccupancyRows ::
    "Config \<Rightarrow> SessionStore option \<Rightarrow> proxyOccupancyRow list \<times> SessionStore option" where
  "buildProxyOccupancyRows cfg affinity =
     (case affinity of
        None \<Rightarrow> ([], None)
      | Some s \<Rightarrow>
          (case occupancyRows (cfgMaxSessionsPerProxy cfg) (foldl countBinding [] (ListSessions s)) s of
             (rows, s1) \<Rightarrow> (rows, Some s1)))"

definition apiProxyOccupancy :: "Config \<Rightarrow> SessionStore option \<Rightarrow> proxyOccupancyRow list \<times> SessionStore option" where
  "apiProxyOccupancy cfg affinity = buildProxyOccupancyRows cfg affinity"

definition redactRow :: "proxyOccupancyRow \<Rightarrow> proxyOccupancyRow" where
  "redactRow r =
     (if isPrivateOrInternalProxyAddress (orAddress r)
      then r\<lparr>orAddress := ''gateway-local'', orNote := ''private/internal address redacted''\<rparr> else r)"

definition apiV1Occupancy ::
    "Config \<Rightarrow> string \<Rightarrow> SessionStore option \<Rightarrow> ((nat \<times> string) + proxyOccupancyRow list) \<times> SessionStore option" where
  "apiV1Occupancy cfg meth affinity =
     (if meth \<noteq> ''GET'' then (Inl (405, ''method not allowed''), affinity)
      else (case buildProxyOccupancyRows cfg affinity of (rows, s) \<Rightarrow> (Inr (map redactRow rows), s)))"

section \<open>Internal addresses stay inside\<close>

lemma indexOf_take: "indexOf s [c] = Some n \<Longrightarrow> c \<notin> set (take n s)"
proof (induction s arbitrary: n)
  case (Cons x s)
  then show ?case by (cases n) (auto simp: split: if_splits)
qed simp

lemma SplitHostPort_brackets:
  assumes "SplitHostPort s = Some (h, p)"
  shows "CHR ''['' \<notin> set h" "CHR '']'' \<notin> set h"
proof -
  show "CHR ''['' \<notin> set h"
    using assms by (auto simp: SplitHostPort_def Let_def drop_take split: if_splits dest: in_set_takeD)
  show "CHR '']'' \<notin> set h"
    using assms by (auto simp: SplitHostPort_def Let_def Index_def split: if_splits option.splits
        dest: in_set_takeD in_set_dropD indexOf_take)
qed

lemma TrimCutset_none: "set s \<inter> set cs = {} \<Longrightarrow> TrimCutset s cs = s"
proof -
  assume "set s \<inter> set cs = {}"
  then have "dropWhile (\<lambda>c. c \<in> set cs) s = s" "dropWhile (\<lambda>c. c \<in> set cs) (rev s) = rev s"
    by (auto simp: dropWhile_eq_self_iff hd_rev dest: hd_in_set last_in_set)
  then show ?thesis by (simp add: TrimCutset_def)
qed

lemma direct_host: "fst (splitAddressHostPort a) = proxyAddressHost a"
proof (cases "SplitHostPort (TrimSpace a)")
  case (Some hp)
  obtain h p where hp: "hp = (h, p)" by (cases hp)
  with Some have "TrimCutset h ''[]'' = h" by (intro TrimCutset_none) (auto dest: SplitHostPort_brackets)
  with Some hp show ?thesis by (simp add: splitAddressHostPort_def proxyAddressHost_def Let_def)
qed (simp add: splitAddressHostPort_def proxyAddressHost_def Let_def)

definition publicHost :: "string \<Rightarrow> bool" where
  "publicHost h \<longleftrightarrow> h = [] \<or> (\<exists>ip. ParseIP h = Some ip \<and> \<not> internalAddress ip)"

lemma not_internal_public: "\<not> isPrivateOrInternalProxyAddress a \<Longrightarrow> publicHost (proxyAddressHost a)"
  by (auto simp: isPrivateOrInternalProxyAddress_def publicHost_def Let_def internal_exact
      split: if_splits option.splits)

fun directHost :: "connectView \<Rightarrow> string option" where
  "directHost (DirectConn h p b) = Some h"
| "directHost (GatewayConn h s p n u) = None"

lemma direct_view_public: "directHost (buildConnectView g p) = Some h \<Longrightarrow> publicHost h"
  using direct_host [of "pAddress p"] not_internal_public [of "pAddress p"]
  by (auto simp: buildConnectView_def isGatewayNode_def split: if_splits prod.splits)

lemma view_connect [simp]: "nvConnect (buildNodeAPIView g p) = buildConnectView g p"
  by (simp add: buildNodeAPIView_def)

definition viewOf :: "gatewayInfo \<Rightarrow> nodeView \<Rightarrow> bool" where
  "viewOf g v \<longleftrightarrow> (\<exists>p. v = buildNodeAPIView g p)"

lemma foldl_connectStep_views:
  "\<forall>v\<in>set (snd st). viewOf g v \<Longrightarrow> \<forall>v\<in>set (snd (foldl (connectStep m l k g) st ps)). viewOf g v"
proof (induction ps arbitrary: st)
  case (Cons p ps)
  then have "\<forall>v\<in>set (snd (connectStep m l k g st p)). viewOf g v"
    by (auto simp: connectStep_def Let_def viewOf_def)
  with Cons.IH show ?case by simp
qed simp

lemma scanConnect_views:
  "scanConnect n f m l k g st d = (Inr (Some r), d1) \<Longrightarrow> \<forall>v\<in>set (snd st). viewOf g v \<Longrightarrow>
   \<forall>v\<in>set (snd r). viewOf g v"
proof (induction n arbitrary: f st d)
  case (Suc n)
  then show ?case
    using foldl_connectStep_views [of st g m l k]
    by (auto simp: bindOp_def returnOp_def Let_def split: prod.splits sum.splits option.splits if_splits)
qed (simp add: returnOp_def)

lemma apiV1Nodes_views:
  assumes "apiV1Nodes cfg t cache r q d = (Nodes tot vs, d1)"
  shows "\<forall>v\<in>set vs. viewOf (gatewayInfoOf cfg t cache r) v"
  using assms scanConnect_views [of _ _ _ _ _ "gatewayInfoOf cfg t cache r" "(0, [])"]
  by (fastforce simp: apiV1Nodes_def Let_def listNodesAPIViewWithConnectFilter_def viewOf_def
      simp del: scanConnect.simps split: if_splits sum.splits prod.splits option.splits)

section \<open>Occupancy\<close>

lemma occupancyRows_ids:
  "map (\<lambda>r. (orProxyID r, orActiveSessions r, orAddress r)) (fst (occupancyRows n m s)) = m"
  by (induction n m s rule: occupancyRows.induct) (auto split: prod.splits)

definition bindingsOn :: "SessionBinding list \<Rightarrow> int \<Rightarrow> nat" where
  "bindingsOn bs pid = length (filter (\<lambda>b. sbProxyID b = pid) bs)"

definition counted :: "SessionBinding list \<Rightarrow> (int \<times> int \<times> string) list \<Rightarrow> bool" where
  "counted bs m \<longleftrightarrow> distinct (map fst m) \<and>
     (\<forall>pid. map_option fst (map_of m pid) =
       (if pid \<le> 0 \<or> bindingsOn bs pid = 0 then None else Some (int (bindingsOn bs pid))))"

lemma bindingsOn_snoc [simp]: "bindingsOn (bs @ [b]) pid = bindingsOn bs pid + (if sbProxyID b = pid then 1 else 0)"
  by (simp add: bindingsOn_def)

lemma counted_step:
  assumes "counted bs m"
  shows "counted (bs @ [b]) (countBinding m b)"
proof (cases "sbProxyID b \<le> 0")
  case True
  then show ?thesis using assms by (auto simp: counted_def countBinding_def)
next
  case pos: False
  let ?p = "sbProxyID b"
  have counts: "map_option fst (map_of m pid) =
      (if pid \<le> 0 \<or> bindingsOn bs pid = 0 then None else Some (int (bindingsOn bs pid)))" for pid
    using assms unfolding counted_def by blast
  then have n: "map_option fst (map_of m ?p) = (if bindingsOn bs ?p = 0 then None else Some (int (bindingsOn bs ?p)))"
    using pos by simp
  show ?thesis
  proof (cases "map_of m ?p")
    case None
    have m: "countBinding m b = m @ [(?p, 1, sbNodeAddress b)]"
      using pos None by (simp add: countBinding_def)
    have new: "?p \<notin> fst ` set m" using None by (simp add: map_of_eq_None_iff)
    have zero: "bindingsOn bs ?p = 0" using n None by (simp split: if_splits)
    have "map_of (countBinding m b) pid = (if pid = ?p then Some (1, sbNodeAddress b) else map_of m pid)" for pid
      using None by (auto simp: m map_add_def split: option.splits)
    with counts have "map_option fst (map_of (countBinding m b) pid) =
        (if pid \<le> 0 \<or> bindingsOn (bs @ [b]) pid = 0 then None else Some (int (bindingsOn (bs @ [b]) pid)))" for pid
      using zero pos by (cases "pid = ?p") simp_all
    with assms new show ?thesis unfolding counted_def by (simp add: m)
  next
    case (Some v)
    then obtain k a where v: "map_of m ?p = Some (k, a)" by (cases v) auto
    then have m: "countBinding m b = AList.update ?p (k + 1, a) m" using pos by (simp add: countBinding_def)
    have "k = int (bindingsOn bs ?p)" "bindingsOn bs ?p \<noteq> 0" using n v by (auto split: if_splits)
    with counts have "map_option fst (map_of (countBinding m b) pid) =
        (if pid \<le> 0 \<or> bindingsOn (bs @ [b]) pid = 0 then None else Some (int (bindingsOn (bs @ [b]) pid)))" for pid
      using pos by (cases "pid = ?p") (simp_all add: m update_conv)
    with assms show ?thesis unfolding counted_def by (simp add: m distinct_update)
  qed
qed

lemma counts_counted: "counted bs (foldl countBinding [] bs)"
proof (induction bs rule: rev_induct)
  case Nil
  then show ?case by (simp add: counted_def bindingsOn_def)
qed (simp add: counted_step)

section \<open>Paging over one kind of node\<close>

lemma connectStep_fold:
  assumes "0 \<le> k" "0 \<le> l"
  shows "foldl (connectStep m l k g) (0, []) ps =
    (let qs = filter (\<lambda>p. connectModeForProxy p = m) ps in
     (int (length qs), map (buildNodeAPIView g) (take (nat l) (drop (nat k) qs))))"
proof (induction ps rule: rev_induct)
  case (snoc p ps)
  let ?qs = "filter (\<lambda>p. connectModeForProxy p = m) ps"
  show ?case
  proof (cases "connectModeForProxy p = m")
    case True
    have len: "int (length (take (nat l) (drop (nat k) ?qs))) = min l (max 0 (int (length ?qs) - k))"
      using assms by auto
    have "take (nat l) (drop (nat k) (?qs @ [p])) =
        (if int (length ?qs) + 1 \<le> k \<or> int (length (take (nat l) (drop (nat k) ?qs))) \<ge> l
         then take (nat l) (drop (nat k) ?qs) else take (nat l) (drop (nat k) ?qs) @ [p])"
      using assms by (auto simp: len nat_le_iff)
    with True snoc show ?thesis by (simp add: connectStep_def Let_def)
  qed (use snoc in \<open>simp add: connectStep_def Let_def\<close>)
qed (simp add: Let_def)

lemma apiReference_cong: "tables d1 = tables d \<Longrightarrow> apiReference (f\<lparr>fOffset := k\<rparr>) d1 = apiReference f d"
proof -
  assume t: "tables d1 = tables d"
  have "buildNodeAPIWhere (f\<lparr>fOffset := k\<rparr>) d1 = buildNodeAPIWhere f d1"
    by (simp add: buildNodeAPIWhere_def fun_eq_iff)
  with buildNodeAPIWhere_tables [OF t, of f] t show ?thesis by (simp add: apiReference_def tables_def)
qed

lemma apiReference_length: "length (apiReference f d) \<le> length (proxies d)"
  unfolding apiReference_def by (rule le_trans [OF length_filter_le]) simp

lemma scanConnect_exact:
  assumes "db_inv d" "0 \<le> fOffset f" "fLimit f = nodeAPIMaxLimit"
    "0 < n" "int (length (apiReference f d)) < fOffset f + int n"
    "scanConnect n f m l k g st d = (Inr r, d1)"
  shows "r = Some (foldl (connectStep m l k g) st (drop (nat (fOffset f)) (apiReference f d)))"
  using assms
proof (induction n arbitrary: f st d)
  case (Suc n)
  let ?ref = "apiReference f d" and ?o = "nat (fOffset f)"
  let ?page = "take 2000 (drop ?o ?ref)"
  have pag: "normalizeNodeAPIPaging (fLimit f) (fOffset f) = (2000, fOffset f)"
    using Suc.prems(2,3) by (simp add: normalizeNodeAPIPaging_def nodeAPIMaxLimit_def)
  from Suc.prems(6) obtain res d2 where l: "ListNodesForAPI f d = (Inr res, d2)"
    and k: "(case res of None \<Rightarrow> returnOp None
       | Some (page, filteredTotal) \<Rightarrow>
           let st' = foldl (connectStep m l k g) st page in
           if page = [] \<or> fOffset f + int (length page) \<ge> filteredTotal then returnOp (Some st')
           else scanConnect n (f\<lparr>fOffset := fOffset f + int (length page)\<rparr>) m l k g st') d2 = (Inr r, d1)"
    unfolding scanConnect.simps by (rule bindOp_InrD)
  from ListNodesForAPI_exact [OF Suc.prems(1) l pag]
  have res: "res = Some (?page, int (length ?ref))" and t: "tables d2 = tables d" by simp_all
  show ?case
  proof (cases "?page = [] \<or> fOffset f + int (length ?page) \<ge> int (length ?ref)")
    case True
    have "?page = drop ?o ?ref"
      using True Suc.prems(2) by (auto simp: min_def split: if_splits)
    with True k res show ?thesis by (simp add: returnOp_def Let_def)
  next
    case False
    let ?f = "f\<lparr>fOffset := fOffset f + int (length ?page)\<rparr>"
    have ref: "apiReference ?f d2 = ?ref" by (rule apiReference_cong [OF t])
    have len: "length ?page = 2000" using False Suc.prems(2) by (auto simp: min_def split: if_splits)
    have "scanConnect n ?f m l k g (foldl (connectStep m l k g) st ?page) d2 = (Inr r, d1)"
      using k res False by (simp add: Let_def)
    from Suc.IH [OF _ _ _ _ _ this]
    have "r = Some (foldl (connectStep m l k g) (foldl (connectStep m l k g) st ?page)
        (drop (nat (fOffset f + int (length ?page))) ?ref))"
      using Suc.prems(1-5) db_inv_tables [OF t] ref len False by auto
    moreover have "drop ?o ?ref = ?page @ drop (nat (fOffset f + int (length ?page))) ?ref"
    proof -
      have "nat (fOffset f + int (length ?page)) = 2000 + ?o" using Suc.prems(2) len by simp
      then show ?thesis by (simp only: drop_drop [symmetric] append_take_drop_id)
    qed
    ultimately show ?thesis by (metis foldl_append)
  qed
qed simp

lemma parsed_paging:
  assumes "parseNodeAPIFilter q = Inr (f, m)"
  shows "0 \<le> fLimit f" "fLimit f \<le> 2000" "0 \<le> fOffset f"
proof -
  have "parseLimit s = Inr l \<Longrightarrow> 0 \<le> l \<and> l \<le> 2000" for s l
    by (auto simp: parseLimit_def nodeAPIMaxLimit_def split: if_splits option.splits)
  moreover have "parseOffset s = Inr k \<Longrightarrow> 0 \<le> k" for s k
    by (auto simp: parseOffset_def split: if_splits option.splits)
  moreover have "\<exists>s t. parseLimit s = Inr (fLimit f) \<and> parseOffset t = Inr (fOffset f)"
    using assms by (auto simp: parseNodeAPIFilter_def Let_def andThen_eq_Inr split: option.splits)
  ultimately show "0 \<le> fLimit f" "fLimit f \<le> 2000" "0 \<le> fOffset f" by blast+
qed

lemma connect_filter_exact:
  assumes "db_inv d" "0 \<le> fLimit f" "0 \<le> fOffset f" "listNodesAPIViewWithConnectFilter f m g d = (Inr r, d1)"
  shows "r = Some (let qs = filter (\<lambda>p. connectModeForProxy p = m) (apiReference f d) in
     (int (length qs), map (buildNodeAPIView g)
        (take (nat (if fLimit f = 0 then 500 else fLimit f)) (drop (nat (fOffset f)) qs))))"
proof -
  let ?f = "f\<lparr>fLimit := nodeAPIMaxLimit, fOffset := 0\<rparr>"
  have "buildNodeAPIWhere ?f d = buildNodeAPIWhere f d" by (simp add: buildNodeAPIWhere_def fun_eq_iff)
  then have ref: "apiReference ?f d = apiReference f d" by (simp add: apiReference_def)
  have "r = Some (foldl (connectStep m (if fLimit f = 0 then nodeAPIDefaultLimit else fLimit f) (fOffset f) g) (0, [])
      (drop (nat (fOffset ?f)) (apiReference ?f d)))"
    using assms(4) apiReference_length [of f d] assms(1)
    by (intro scanConnect_exact [where n = "Suc (length (proxies d))"])
      (simp_all add: listNodesAPIViewWithConnectFilter_def ref del: scanConnect.simps)
  then show ?thesis
    using assms(2,3) by (simp add: ref connectStep_fold nodeAPIDefaultLimit_def)
qed

section \<open>User names that pin a node\<close>

lemma NormalizeCountryCode_two:
  assumes "NormalizeCountryCode s \<noteq> []"
  shows "NormalizeCountryCode s = ToUpper (TrimSpace s)" "length (NormalizeCountryCode s) = 2"
    "list_all isASCIIUpper (NormalizeCountryCode s)"
proof -
  let ?c = "ToUpper (TrimSpace s)"
  have n: "NormalizeCountryCode s = ?c" "length ?c = 2" and r: "\<not> list_ex (\<lambda>r. r < 65 \<or> r > 90) (runes ?c)"
    using assms by (auto simp: NormalizeCountryCode_def Let_def split: if_splits)
  then show "NormalizeCountryCode s = ToUpper (TrimSpace s)" "length (NormalizeCountryCode s) = 2" by simp_all
  have alpha: "isAlpha ?c"
    using r by (auto simp: isAlpha_def isASCIIAlpha_def asciiLetterRune_def list_ex_iff list_all_iff)
  then have "asciiString ?c"
    using isAlpha_bytes [OF alpha] by (auto simp: asciiString_def list_all_iff asciiLetterRune_def)
  then show "list_all isASCIIUpper (NormalizeCountryCode s)"
    using r n(1) by (auto simp: runes_ascii isASCIIUpper_def list_ex_iff list_all_iff)
qed

definition hintBase :: "string \<Rightarrow> string" where
  "hintBase base = (if TrimSpace base = [] then ''username'' else TrimSpace base)"

lemma TrimSpace_all_graphic: "list_all graphic v \<Longrightarrow> TrimSpace v = v"
  by (cases "v = []") (auto simp: TrimSpace_Nil list_all_iff intro!: TrimSpace_graphic)

lemma lower_facts:
  assumes "list_all isASCIILower v"
  shows "list_all graphic v" "TrimSpace v = v" "ToLower v = v" "ToLower (ToUpper v) = v" "isAlpha v"
    "CHR ''-'' \<notin> set v"
proof -
  have low: "isASCIILower c" if "c \<in> set v" for c using assms that by (simp add: list_all_iff)
  then show g: "list_all graphic v" by (fastforce simp: list_all_iff isASCIILower_def graphic_def)
  then show "TrimSpace v = v" by (rule TrimSpace_all_graphic)
  have up: "toLowerChar c = c" "toLowerChar (toUpperChar c) = c" if "c \<in> set v" for c
    using low [OF that] by (auto simp: toLowerChar_def toUpperChar_def isASCIILower_def isASCIIUpper_def)
  then show "ToLower v = v" "ToLower (ToUpper v) = v" by (simp_all add: ToLower_def ToUpper_def map_idI)
  have "asciiString v" using low by (fastforce simp: asciiString_def list_all_iff isASCIILower_def)
  then show "isAlpha v"
    using low by (fastforce simp: isAlpha_def runes_ascii list_all_iff asciiLetterRune_def isASCIILower_def)
  show "CHR ''-'' \<notin> set v" using low [of "CHR ''-''"] by (auto simp: isASCIILower_def)
qed

lemma markerFree_plain: "CHR ''-'' \<notin> set v \<Longrightarrow> markerFree (v @ ''-'')"
proof (induction v)
  case (Cons c v)
  then have "\<not> startsMarker (c # v @ ''-'')" using startsMarker_dash [of "c # v @ ''-''"] by auto
  with Cons show ?case by (simp add: suffixes_Cons_all)
qed (simp add: suffixes_Cons_all not_startsMarker_short)

lemma hint_parses:
  assumes h: "gatewayUsernameHint base region key = Inr h"
    and b: "markerFree (hintBase base @ ''-'')" and k: "list_all graphic key" and r: "list_all isASCIILower region"
  shows "ParseUsername h = Inr \<lparr>uBase = hintBase base, uRegion = region, uSession = ''api'', uUnlock = [],
    uNode = ''key-'' @ key\<rparr>" "key \<noteq> []"
proof -
  have tk: "TrimSpace key = key" using k by (rule TrimSpace_all_graphic)
  have ascii: "asciiString key" using k by (auto simp: asciiString_def list_all_iff graphic_def)
  have enc: "EncodeNodeKeyPin key = rawEncode urlAlphabet key"
    using tk urlEnc.encode_eq_Nil_iff [of "[]"] by (auto simp: EncodeNodeKeyPin_def Let_def)
  show key: "key \<noteq> []"
    using h by (auto simp: gatewayUsernameHint_def Let_def EncodeNodeKeyPin_def TrimSpace_Nil split: if_splits)
  define rv where "rv = (if region = [] then None else Some region)"
  have two: "length region = 2 \<and> NormalizeCountryCode region = ToUpper region" if "region \<noteq> []"
  proof -
    have "NormalizeCountryCode region \<noteq> []"
      using h that by (auto simp: gatewayUsernameHint_def Let_def lower_facts(2) [OF r] split: if_splits)
    with NormalizeCountryCode_two [of region] show ?thesis by (simp add: lower_facts(2) [OF r] ToUpper_def)
  qed
  have nil: "NormalizeCountryCode [] = []" by (simp add: NormalizeCountryCode_def TrimSpace_Nil ToUpper_def)
  have hs: "h = hintBase base @ segment ''-region-'' rv @ segment ''-unlock-'' None @
      segment ''-node-'' (Some (nodeKeyPrefix @ rawEncode urlAlphabet key)) @ segment ''-session-'' (Some ''api'')"
    using h two lower_facts(2,4) [OF r] nil
    by (auto simp: gatewayUsernameHint_def Let_def hintBase_def rv_def enc nodeKeyPrefix_def ToUpper_def
        split: if_splits)
  have "hintBase base \<noteq> []" by (simp add: hintBase_def)
  moreover have "safeValue rv" "regionSegment rv region"
    using two lower_facts(3,5,6) [OF r] markerFree_plain [of region] by (auto simp: rv_def)
  moreover have "markerFree (''api'' @ ''-'')" by (rule markerFree_plain) simp
  ultimately show "ParseUsername h = Inr \<lparr>uBase = hintBase base, uRegion = region, uSession = ''api'', uUnlock = [],
      uNode = ''key-'' @ key\<rparr>"
    unfolding hs
    using ParseUsername_segments [of "hintBase base" rv None "Some (nodeKeyPrefix @ rawEncode urlAlphabet key)"
        "Some ''api''" region "[]" "nodeKeyPrefix @ key" "''api''"] b key_encode_safe [OF ascii] nodeSegment_key [OF key]
    by (simp add: nodeKeyPrefix_def dsl_eval)
qed

section \<open>A sample\<close>

definition oneRow :: "string \<Rightarrow> ProxyRow" where
  "oneRow a = (newRow a ''http'' ''manual'' 0)\<lparr>cID := 1, cRegion := ''us'', cNodeKey := ''vm:h:1''\<rparr>"

definition oneDB :: "string \<Rightarrow> DB" where
  "oneDB a = (emptyDB 0 [])\<lparr>proxies := [oneRow a], nextProxyID := 2\<rparr>"

definition noFilter :: NodeAPIFilter where
  "noFilter = \<lparr>fRegion = [], fProtocol = [], fSource = [], fStatus = [], fMaxAbuse = None, fCF = [], fAI = [],
     fLimit = 0, fOffset = 0\<rparr>"

definition noCache :: publicIPCache where
  "noCache = \<lparr>piValue = [], piCountry = [], piDone = False, piFetchedAt = None, piFetching = False\<rparr>"

definition getRequest :: WebRequest where
  "getRequest = \<lparr>wrMethod = ''GET'', wrPath = ''/api/v1/nodes'', wrHost = ''gw.example'', wrRemoteAddr = ''1.1.1.1:5'',
     wrHeader = Map.empty, wrCookie = None\<rparr>"

lemma oneDB_facts:
  "faults (oneDB a) = []" "proxies (oneDB a) = [oneRow a]" "subscriptions (oneDB a) = []" "db_inv (oneDB a)"
  "selectableRow d (oneRow a)" "cAddress (oneRow a) = a" "cRegion (oneRow a) = ''us''"
  "cNodeKey (oneRow a) = ''vm:h:1''" "cSubscriptionID (oneRow a) = 0" "cDualProtocol (oneRow a) = 0"
  by (simp_all add: oneDB_def oneRow_def emptyDB_def newRow_def defaultRow_def db_inv_def identitiesUnique_def
      subscriptionsUnique_def selectableRow_def selectableSubscriptionScopeSQL_def)

lemma parse_noFilter:
  "parseNodeAPIFilter [] = Inr (noFilter, [])"
  "parseNodeAPIFilter [(''connect'', ''gateway'')] = Inr (noFilter, ''gateway'')"
proof -
  have e: "TrimSpace ''gateway'' = ''gateway''" by (rule TrimSpace_graphic) (simp_all add: graphic_def)
  show "parseNodeAPIFilter [] = Inr (noFilter, [])"
    "parseNodeAPIFilter [(''connect'', ''gateway'')] = Inr (noFilter, ''gateway'')"
    by (simp_all add: parseNodeAPIFilter_def Let_def queryGet_def TrimSpace_Nil ToLower_def wordError_def
        parseMaxAbuse_def parseAI_def parseLimit_def parseOffset_def connectWord_def noFilter_def e toLowerChar_def
        isASCIIUpper_def)
qed

lemma one_listed:
  assumes "0 \<le> l"
  shows "\<exists>d1. ListNodesForAPI (noFilter\<lparr>fLimit := l\<rparr>) (oneDB a) = (Inr (Some ([scanProxy (oneRow a)], 1)), d1)"
proof -
  let ?f = "noFilter\<lparr>fLimit := l\<rparr>"
  obtain m where p: "normalizeNodeAPIPaging (fLimit ?f) (fOffset ?f) = (m, 0)"
    by (auto simp: normalizeNodeAPIPaging_def noFilter_def Let_def)
  have m: "0 < m" using paging_bounds [of "fLimit ?f" "fOffset ?f"] p by simp
  have lt: "lowerTrim [] = []" by (simp add: lowerTrim_def ToLower_def TrimSpace_Nil)
  have w: "buildNodeAPIWhere ?f d' (oneRow a)" for d'
    by (simp add: buildNodeAPIWhere_def noFilter_def lt oneDB_facts)
  have nf: "\<not> faulty (oneDB a)" "\<not> faulty (dropFault (oneDB a))" "\<not> faulty (dropFault (dropFault (oneDB a)))"
    "\<not> faulty (dropFault (dropFault (dropFault (oneDB a))))"
    by (simp_all add: faulty_def oneDB_facts)
  have c: "countRows (buildNodeAPIWhere ?f d') (proxies (oneDB a)) = 1" for d'
    by (simp add: countRows_def oneDB_facts w)
  have ai: "normalizeAIList (fAI noFilter) = []" by (simp add: noFilter_def normalizeAIList_def)
  obtain res d1 where r: "ListNodesForAPI ?f (oneDB a) = (Inr res, d1)"
    using p nf c ai by (simp add: ListNodesForAPI_def withTx_unfold listNodesForAPI_def Let_def
        bindOp_def countNodesForAPI_def querySQL_unfold returnOp_def)
  have "apiReference ?f (oneDB a) = [scanProxy (oneRow a)]"
    by (simp add: apiReference_def oneDB_facts w ai aiReachableAll_def)
  with ListNodesForAPI_exact(1) [OF oneDB_facts(4) r p] r m show ?thesis by simp
qed

lemma selectable_available: "selectableRow d r \<Longrightarrow> proxyAvailable (scanProxy r)"
  by (auto simp: selectableRow_def proxyAvailable_def scanProxy_def)

lemma selectable_parent:
  assumes "db_inv d" "selectableRow d r" "cSource r \<noteq> SourceSubscription \<longrightarrow> cSubscriptionID r \<le> 0"
  shows "parentNotPausedFor (storageNodes (\<lambda>k. []) d) (scanProxy r)"
  unfolding parentNotPausedFor_def
proof
  assume pos: "0 < pSubscriptionID (scanProxy r)"
  then have sub: "cSource r = SourceSubscription" using assms(3) by (auto simp: scanProxy_def)
  then obtain s where s: "s \<in> set (subscriptions d)" "sID s = cSubscriptionID r" "sStatus s \<noteq> ''paused''"
    using assms(2) by (auto simp: selectableRow_def selectableSubscriptionScopeSQL_def parentStatusIs_def list_ex_iff
        SourceSubscription_def)
  then obtain s' where f: "find (\<lambda>x. sID x = cSubscriptionID r) (subscriptions d) = Some s'"
    by (metis (mono_tags, lifting) find_None_iff option.exhaust)
  then have "s' = s"
    using s assms(1) distinct_ids_same [of sID "subscriptions d" s' s] by (auto simp: find_Some_iff db_inv_def)
  with f s pos show "nsIsSubscriptionPaused (storageNodes (\<lambda>k. []) d) (pSubscriptionID (scanProxy r)) = Inr False"
    by (simp add: storageNodes_def IsSubscriptionPaused_def bindOp_def querySQL_unfold faulty_def returnOp_def
        scanProxy_def)
qed

lemma unique_key_lookup:
  assumes "db_inv d" "r \<in> set (proxies d)" "\<forall>x\<in>set (proxies d). cNodeKey x = cNodeKey r \<longrightarrow> x = r"
    "TrimSpace (cNodeKey r) = cNodeKey r" "cNodeKey r \<noteq> []"
  shows "nsGetProxyByNodeKey (storageNodes (\<lambda>k. []) d) (cNodeKey r) = Inr (scanProxy r)"
proof -
  have "filter (\<lambda>x. cNodeKey x = cNodeKey r) (proxies d) = [r]"
  proof -
    have "filter (\<lambda>x. cNodeKey x = cNodeKey r) (proxies d) = filter (\<lambda>x. x = r) (proxies d)"
      using assms(3) by (intro filter_cong) auto
    also have "\<dots> = [r]" using assms(1,2) by (intro filter_by_id) (auto simp: db_inv_def)
    finally show ?thesis .
  qed
  then show ?thesis
    using assms(4,5)
    by (simp add: storageNodes_def GetProxyByNodeKey_def Let_def bindOp_def querySQL_unfold faulty_def matchTwo_def
        returnOp_def)
qed

lemma bindingsOn_live:
  assumes "distinct (map fst (bindings s))"
  shows "bindingsOn (ListSessions s) pid = card (liveOn s pid)"
proof -
  let ?xs = "filter (\<lambda>e. \<not> expired s (snd e) \<and> bProxyID (snd e) = pid) (bindings s)"
  have "live s sid = Some b \<longleftrightarrow> map_of (bindings s) sid = Some b \<and> \<not> expired s b" for sid b
    by (auto simp: live_def split: option.splits)
  then have lv: "live s sid = Some b \<longleftrightarrow> (sid, b) \<in> set (bindings s) \<and> \<not> expired s b" for sid b
    by (simp add: map_of_eq_Some_iff [OF assms])
  have "liveOn s pid = set (map fst ?xs)"
  proof (rule set_eqI)
    fix sid
    have "sid \<in> liveOn s pid \<longleftrightarrow> (\<exists>b. (sid, b) \<in> set (bindings s) \<and> \<not> expired s b \<and> bProxyID b = pid)"
      unfolding liveOn_def mem_Collect_eq lv by blast
    also have "\<dots> \<longleftrightarrow> sid \<in> set (map fst ?xs)" by (force simp: image_iff)
    finally show "sid \<in> liveOn s pid \<longleftrightarrow> sid \<in> set (map fst ?xs)" .
  qed
  moreover have "distinct (map fst ?xs)" using assms by (rule distinct_map_filter)
  ultimately have "card (liveOn s pid) = length ?xs" using distinct_card [of "map fst ?xs"] by (simp del: set_map)
  moreover have "filter (\<lambda>b. sbProxyID b = pid) (ListSessions s) =
      map (\<lambda>(sid, b). \<lparr>sbSessionID = sid, sbProxyID = bProxyID b, sbNodeAddress = bNodeAddress b,
            sbRegion = bRegion b, sbLastActive = bLastActive b\<rparr>) ?xs"
    by (simp add: ListSessions_def filter_map comp_def case_prod_beta conj_commute)
  ultimately show ?thesis by (simp add: bindingsOn_def)
qed

lemma redactRow_fields [simp]:
  "orProxyID (redactRow r) = orProxyID r" "orActiveSessions (redactRow r) = orActiveSessions r"
  by (simp_all add: redactRow_def)

lemma finite_liveOn: "distinct (map fst (bindings s)) \<Longrightarrow> finite (liveOn s pid)"
  by (rule finite_subset [of _ "fst ` set (bindings s)"])
    (auto simp: liveOn_def live_def split: option.splits dest!: map_of_SomeD intro!: rev_image_eqI)

section \<open>Properties\<close>

text \<open>
  A node entry of the read-only API never gives away an internal address. Whatever is stored and asked,
  an entry that tells the client to connect directly names no host or a literal address outside every
  loopback, private, shared, link-local and unspecified block.
\<close>

theorem node_list_hides_internal_hosts:
  assumes "apiV1Nodes cfg t cache r q d = (Nodes tot vs, d1)" "v \<in> set vs" "directHost (nvConnect v) = Some h"
  shows "h = [] \<or> (\<exists>ip. ParseIP h = Some ip \<and> \<not> internalAddress ip)"
proof -
  obtain p where "v = buildNodeAPIView (gatewayInfoOf cfg t cache r) p"
    using apiV1Nodes_views [OF assms(1)] assms(2) by (auto simp: viewOf_def)
  with assms(3) direct_view_public show ?thesis by (auto simp: publicHost_def)
qed

theorem node_list_hides_internal_hosts_witness:
  "\<exists>v d1. apiV1Nodes sampleConfig 0 noCache getRequest [] (oneDB ''8.8.8.8:80'') = (Nodes 1 [v], d1) \<and>
     directHost (nvConnect v) = Some ''8.8.8.8'' \<and>
     (''8.8.8.8'' = [] \<or> (\<exists>ip. ParseIP ''8.8.8.8'' = Some ip \<and> \<not> internalAddress ip))"
proof -
  let ?p = "scanProxy (oneRow ''8.8.8.8:80'')" and ?g = "gatewayInfoOf sampleConfig 0 noCache getRequest"
  obtain d1 where l: "ListNodesForAPI noFilter (oneDB ''8.8.8.8:80'') = (Inr (Some ([?p], 1)), d1)"
    using one_listed [of 0 "''8.8.8.8:80''"] by (auto simp: noFilter_def)
  have api: "apiV1Nodes sampleConfig 0 noCache getRequest [] (oneDB ''8.8.8.8:80'') = (Nodes 1 [buildNodeAPIView ?g ?p], d1)"
    by (simp add: apiV1Nodes_def parse_noFilter l Let_def) (simp add: getRequest_def)
  have sp: "SplitHostPort ''8.8.8.8:80'' = Some (''8.8.8.8'', ''80'')"
    using SplitHostPort_plain [of "''8.8.8.8''" "''80''"] by (simp add: plainAddr_def)
  have tr: "TrimSpace ''8.8.8.8:80'' = ''8.8.8.8:80''" by (rule TrimSpace_graphic) (simp_all add: graphic_def)
  have ip: "ParseIP ''8.8.8.8'' = Some (v4InV6 @ [8, 8, 8, 8])"
    by (simp add: ParseIP_def parseIPv4_def SplitByte_def parseOctet_def isDigitChar_def)
  have host: "proxyAddressHost ''8.8.8.8:80'' = ''8.8.8.8''"
    by (simp add: proxyAddressHost_def tr sp TrimCutset_def)
  have "\<not> isPrivateOrInternalIP (v4InV6 @ [8, 8, 8, 8])"
    by (simp add: isPrivateOrInternalIP_def IsLoopback_def IsUnspecified_def IsLinkLocalUnicast_def
        IsLinkLocalMulticast_def IsPrivate_def To4_mapped v4InV6_not_zero)
  moreover have "\<not> EqualFold ''8.8.8.8'' ''localhost''" by (simp add: EqualFold_def decodeRune_ascii foldRune_def)
  ultimately have "\<not> isGatewayNode ?p"
    by (simp add: isGatewayNode_def scanProxy_def oneDB_facts isPrivateOrInternalProxyAddress_def host ip)
  then have dh: "directHost (nvConnect (buildNodeAPIView ?g ?p)) = Some ''8.8.8.8''"
    using direct_host [of "''8.8.8.8:80''"] host
    by (cases "splitAddressHostPort ''8.8.8.8:80''") (simp add: buildConnectView_def oneDB_facts)
  from node_list_hides_internal_hosts [OF api _ dh] api dh show ?thesis by auto
qed

text \<open>
  The node list pages correctly for every kind of node. Whenever the handler answers without an error,
  the answer is the requested page of the one sorted list of matching nodes, restricted to the nodes of the
  requested kind, with the length of that restricted list as the total, although the table is scanned in
  pages that mix both kinds; the scan always ends.
\<close>

theorem node_list_pages:
  assumes "db_inv d" "parseNodeAPIFilter q = Inr (f, mode)" "wrMethod r = ''GET''"
    "apiV1Nodes cfg t cache r q d = (ans, d1)" "\<forall>code msg. ans \<noteq> NodesError code msg"
  shows "ans = (let qs = filter (\<lambda>p. mode = [] \<or> connectModeForProxy p = mode) (apiReference f d) in
     Nodes (int (length qs)) (map (buildNodeAPIView (gatewayInfoOf cfg t cache r))
       (take (nat (if fLimit f = 0 then 500 else fLimit f)) (drop (nat (fOffset f)) qs))))"
proof -
  let ?g = "gatewayInfoOf cfg t cache r"
  note inv = assms(1) and pag = parsed_paging [OF assms(2)]
  show ?thesis
  proof (cases "mode = []")
    case True
    obtain res where l: "ListNodesForAPI f d = (Inr res, d1)"
      using assms(2-5) True by (cases "ListNodesForAPI f d"; cases "fst (ListNodesForAPI f d)")
        (auto simp: apiV1Nodes_def Let_def split: option.splits prod.splits)
    have "normalizeNodeAPIPaging (fLimit f) (fOffset f) = (if fLimit f = 0 then 500 else fLimit f, fOffset f)"
      using pag by (auto simp: normalizeNodeAPIPaging_def nodeAPIMaxLimit_def nodeAPIDefaultLimit_def Let_def)
    from ListNodesForAPI_exact(1) [OF inv l this] l True show ?thesis
      using assms(2-4) by (simp add: apiV1Nodes_def Let_def)
  next
    case False
    obtain res where l: "listNodesAPIViewWithConnectFilter f mode ?g d = (Inr res, d1)"
      using assms(2-5) False by (cases "listNodesAPIViewWithConnectFilter f mode ?g d";
          cases "fst (listNodesAPIViewWithConnectFilter f mode ?g d)")
        (auto simp: apiV1Nodes_def Let_def split: option.splits prod.splits)
    from connect_filter_exact [OF inv pag(1,3) l] l False show ?thesis
      using assms(2-4) by (simp add: apiV1Nodes_def Let_def)
  qed
qed

theorem node_list_pages_witness:
  "\<exists>v. fst (apiV1Nodes sampleConfig 0 noCache getRequest [(''connect'', ''gateway'')] (oneDB ''h1'')) = Nodes 1 [v]"
proof -
  let ?p = "scanProxy (oneRow ''h1'')" and ?g = "gatewayInfoOf sampleConfig 0 noCache getRequest"
  let ?q = "[(''connect'', ''gateway'')]"
  obtain d1 where l: "ListNodesForAPI (noFilter\<lparr>fLimit := 2000\<rparr>) (oneDB ''h1'') = (Inr (Some ([?p], 1)), d1)"
    using one_listed [of 2000 "''h1''"] by auto
  have tr: "TrimSpace ''h1'' = ''h1''" by (rule TrimSpace_graphic) (simp_all add: graphic_def)
  have "proxyAddressHost ''h1'' = ''h1''"
    by (simp add: proxyAddressHost_def tr SplitHostPort_def TrimCutset_def)
  then have g: "connectModeForProxy ?p = ''gateway''"
    by (simp add: connectModeForProxy_def isGatewayNode_def scanProxy_def oneDB_facts isPrivateOrInternalProxyAddress_def
        ParseIP_def)
  have off: "noFilter\<lparr>fLimit := 2000, fOffset := 0\<rparr> = noFilter\<lparr>fLimit := 2000\<rparr>" by (simp add: noFilter_def)
  have "apiV1Nodes sampleConfig 0 noCache getRequest ?q (oneDB ''h1'') = (Nodes 1 [buildNodeAPIView ?g ?p], d1)"
    by (simp add: apiV1Nodes_def parse_noFilter Let_def listNodesAPIViewWithConnectFilter_def bindOp_def
        nodeAPIMaxLimit_def off l connectStep_def g returnOp_def oneDB_facts)
      (simp add: getRequest_def noFilter_def nodeAPIDefaultLimit_def)
  moreover from this have "apiReference noFilter (oneDB ''h1'') \<noteq> []"
    using node_list_pages [OF oneDB_facts(4) parse_noFilter(2), of getRequest sampleConfig 0 noCache "''h1''"]
    by (auto simp: getRequest_def Let_def)
  ultimately show ?thesis by simp
qed

text \<open>A key that two rows share is ambiguous.\<close>

lemma shared_key_lookup:
  assumes "x \<in> set (proxies d)" "y \<in> set (proxies d)" "y \<noteq> x" "cNodeKey y = cNodeKey x"
    "TrimSpace (cNodeKey x) = cNodeKey x" "cNodeKey x \<noteq> []"
  shows "\<exists>e. nsGetProxyByNodeKey (storageNodes (\<lambda>k. []) d) (cNodeKey x) = Inl e"
proof -
  let ?f = "filter (\<lambda>r. cNodeKey r = cNodeKey x) (proxies d)"
  have "card {x, y} \<le> card (set ?f)" using assms(1,2,4) by (intro card_mono) auto
  also have "\<dots> \<le> length ?f" by (rule card_length)
  finally have "2 \<le> length ?f" using assms(3) by simp
  then have "length (matchTwo (\<lambda>r. cNodeKey r = cNodeKey x) d) = 2" by (simp add: matchTwo_def)
  then have "\<exists>e. fst (GetProxyByNodeKey (cNodeKey x) (d\<lparr>faults := []\<rparr>)) = Inl e"
    using assms(5,6) by (auto simp: GetProxyByNodeKey_def Let_def bindOp_def querySQL_unfold faulty_def matchTwo_def failOp_def
        returnOp_def)
  then show ?thesis by (simp add: storageNodes_def)
qed

text \<open>
  C40: the user name the node list shows for a gateway node leads to that node and to no other. For a selectable row
  with a key of visible ASCII characters, a region of lower-case letters and a base name without a marker of the user
  name language, the name parses to the configured base, the region of the node and the session \<open>api\<close>, and resolving
  its pin gives exactly that node if its key belongs to no other row. If another row has the same key, as subscriptions
  may share one, the name that is shown selects nothing. The tables are consistent, a row that is not of a subscription
  names none, and the driver does not fail.
\<close>

theorem username_hint_selects_node:
  assumes "db_inv d" "x \<in> set (proxies d)" "selectableRow d x"
    and "cSource x \<noteq> SourceSubscription \<longrightarrow> cSubscriptionID x \<le> 0"
    and "list_all graphic (cNodeKey x)" "list_all isASCIILower (cRegion x)" "markerFree (hintBase base @ ''-'')"
    and "gatewayUsernameHint base (cRegion x) (cNodeKey x) = Inr h"
  shows "\<exists>u. ParseUsername h = Inr u \<and> uBase u = hintBase base \<and> uRegion u = cRegion x \<and> uSession u = ''api'' \<and>
    resolvePinnedNode (storageNodes (\<lambda>k. []) d) u [] =
      (if \<exists>y\<in>set (proxies d). y \<noteq> x \<and> cNodeKey y = cNodeKey x then Inl (noNodeError (cRegion x)) else Inr (scanProxy x))"
proof -
  note inv = assms(1) and hp = hint_parses [OF assms(8,7,5,6)] and tr = TrimSpace_all_graphic [OF assms(5)]
  let ?u = "\<lparr>uBase = hintBase base, uRegion = cRegion x, uSession = ''api'', uUnlock = [], uNode = ''key-'' @ cNodeKey x\<rparr>"
  have "resolvePinnedNode (storageNodes (\<lambda>k. []) d) ?u [] =
      (if \<exists>y\<in>set (proxies d). y \<noteq> x \<and> cNodeKey y = cNodeKey x then Inl (noNodeError (cRegion x)) else Inr (scanProxy x))"
  proof (cases "\<exists>y\<in>set (proxies d). y \<noteq> x \<and> cNodeKey y = cNodeKey x")
    case True
    then obtain e where "nsGetProxyByNodeKey (storageNodes (\<lambda>k. []) d) (cNodeKey x) = Inl e"
      using shared_key_lookup [OF assms(2) _ _ _ tr hp(2)] by blast
    with True show ?thesis by (simp add: resolvePinnedNode_def HasPrefix_def TrimPrefix_def)
  next
    case False
    then have "nsGetProxyByNodeKey (storageNodes (\<lambda>k. []) d) (cNodeKey x) = Inr (scanProxy x)"
      using unique_key_lookup [OF inv assms(2) _ tr hp(2)] by blast
    with False show ?thesis
      using selectable_available [OF assms(3)] selectable_parent [OF inv assms(3,4)]
      by (simp add: resolvePinnedNode_def HasPrefix_def TrimPrefix_def excluded_def regionMismatch_def
          proxyMatchesUnlock_def)
  qed
  with hp(1) show ?thesis by simp
qed

text \<open>Two rows with one key.\<close>

definition twoDB :: DB where
  "twoDB = (emptyDB 0 [])\<lparr>proxies := [oneRow ''127.0.0.1:9'', (oneRow ''127.0.0.1:8'')\<lparr>cID := 2\<rparr>], nextProxyID := 3\<rparr>"

lemma twoDB_facts: "db_inv twoDB" "proxies twoDB = [oneRow ''127.0.0.1:9'', (oneRow ''127.0.0.1:8'')\<lparr>cID := 2\<rparr>]"
  by (simp_all add: twoDB_def oneRow_def emptyDB_def newRow_def defaultRow_def db_inv_def identitiesUnique_def
      subscriptionsUnique_def rowIdentity_def)

theorem username_hint_selects_node_witness:
  "\<exists>h u. gatewayUsernameHint ''me'' ''us'' ''vm:h:1'' = Inr h \<and> ParseUsername h = Inr u \<and> uBase u = ''me'' \<and>
     resolvePinnedNode (storageNodes (\<lambda>k. []) (oneDB ''127.0.0.1:9'')) u [] = Inr (scanProxy (oneRow ''127.0.0.1:9'')) \<and>
     resolvePinnedNode (storageNodes (\<lambda>k. []) twoDB) u [] = Inl (noNodeError ''us'')"
proof -
  have t: "TrimSpace ''me'' = ''me''" "TrimSpace ''us'' = ''us''" "TrimSpace ''vm:h:1'' = ''vm:h:1''"
    by (rule TrimSpace_graphic; simp add: graphic_def)+
  have n: "NormalizeCountryCode ''us'' = ''US''"
    by (simp add: NormalizeCountryCode_def t Let_def ToUpper_def toUpperChar_def isASCIILower_def decodeRune_ascii
        char_of_def bit_0)
  have "EncodeNodeKeyPin ''vm:h:1'' \<noteq> []"
    using urlEnc.encode_eq_Nil_iff by (simp add: EncodeNodeKeyPin_def t Let_def)
  then obtain h where h: "gatewayUsernameHint ''me'' ''us'' ''vm:h:1'' = Inr h"
    by (simp add: gatewayUsernameHint_def t n Let_def)
  have b: "markerFree (hintBase ''me'' @ ''-'')" "hintBase ''me'' = ''me''"
    using markerFree_plain [of "''me''"] by (simp_all add: hintBase_def t)
  have k: "list_all graphic ''vm:h:1''" "list_all isASCIILower ''us''" by (simp_all add: graphic_def isASCIILower_def)
  have "\<exists>u. ParseUsername h = Inr u \<and> uBase u = ''me'' \<and>
      resolvePinnedNode (storageNodes (\<lambda>k. []) (oneDB ''127.0.0.1:9'')) u [] = Inr (scanProxy (oneRow ''127.0.0.1:9''))"
    using username_hint_selects_node [of "oneDB ''127.0.0.1:9''" "oneRow ''127.0.0.1:9''" "''me''" h] h b k
    by (simp add: oneDB_facts) blast
  moreover have "\<exists>u. ParseUsername h = Inr u \<and> resolvePinnedNode (storageNodes (\<lambda>k. []) twoDB) u [] = Inl (noNodeError ''us'')"
  proof -
    have ne: "(oneRow ''127.0.0.1:8'')\<lparr>cID := 2\<rparr> \<noteq> oneRow ''127.0.0.1:9''"
      using oneDB_facts(6) [of "''127.0.0.1:9''"] oneDB_facts(6) [of "''127.0.0.1:8''"] by (auto dest: arg_cong [of _ _ cID] simp: oneRow_def)
    show ?thesis
      using username_hint_selects_node [of twoDB "oneRow ''127.0.0.1:9''" "''me''" h] h b k ne
      by (simp add: oneDB_facts twoDB_facts) blast
  qed
  ultimately show ?thesis using h by fastforce
qed

text \<open>
  The occupancy report of the read-only API is exact and discloses nothing internal. It has one row per
  node that holds a live session, each with the number of live sessions bound to that node, and every address
  in it is the placeholder or has a public host.
\<close>

theorem occupancy_report_exact:
  assumes "affinity_reachable s" "apiV1Occupancy cfg ''GET'' (Some s) = (Inr rows, s1)"
  shows "distinct (map orProxyID rows) \<and> orProxyID ` set rows = {pid. 0 < pid \<and> liveOn s pid \<noteq> {}} \<and>
    (\<forall>r\<in>set rows. orActiveSessions r = int (card (liveOn s (orProxyID r))) \<and>
       (orAddress r = ''gateway-local'' \<or> publicHost (proxyAddressHost (orAddress r))))"
proof -
  let ?m = "foldl countBinding [] (ListSessions s)" and ?raw = "fst (occupancyRows (cfgMaxSessionsPerProxy cfg)
      (foldl countBinding [] (ListSessions s)) s)"
  have rows: "rows = map redactRow ?raw"
    using assms(2) by (auto simp: apiV1Occupancy_def buildProxyOccupancyRows_def split: prod.splits)
  have ids: "map orProxyID rows = map fst ?m" "map orActiveSessions rows = map (fst \<circ> snd) ?m"
    using arg_cong [OF occupancyRows_ids [of "cfgMaxSessionsPerProxy cfg" ?m s], of "map fst"]
      arg_cong [OF occupancyRows_ids [of "cfgMaxSessionsPerProxy cfg" ?m s], of "map (fst \<circ> snd)"]
    by (simp_all add: rows comp_def)
  note inv = affinity_invD(1) [OF reachable_inv [OF assms(1)]]
  have dist: "distinct (map fst ?m)" and cnt: "map_option fst (map_of ?m pid) =
      (if pid \<le> 0 \<or> card (liveOn s pid) = 0 then None else Some (int (card (liveOn s pid))))" for pid
    using counts_counted [of "ListSessions s"] bindingsOn_live [OF inv] by (auto simp: counted_def)
  have keys: "fst ` set ?m = {pid. 0 < pid \<and> liveOn s pid \<noteq> {}}"
  proof -
    have "pid \<in> fst ` set ?m \<longleftrightarrow> \<not> (pid \<le> 0 \<or> card (liveOn s pid) = 0)" for pid
      using cnt [of pid] map_of_eq_None_iff [of ?m pid] by (cases "map_of ?m pid") (simp_all split: if_splits)
    then show ?thesis using finite_liveOn [OF inv] by (auto simp: not_le card_eq_0_iff)
  qed
  have act: "orActiveSessions r = int (card (liveOn s (orProxyID r)))" if r: "r \<in> set rows" for r
  proof -
    obtain i where i: "i < length rows" "r = rows ! i" using r by (metis in_set_conv_nth)
    then have "i < length ?m" using ids(1) by (metis length_map)
    then have "orProxyID r = fst (?m ! i)" "orActiveSessions r = fst (snd (?m ! i))"
      using i ids by (metis nth_map, metis comp_apply nth_map)
    moreover have "map_of ?m (fst (?m ! i)) = Some (snd (?m ! i))"
      using dist \<open>i < length ?m\<close> by (simp add: map_of_eq_Some_iff)
    ultimately show ?thesis using cnt [of "orProxyID r"] by (auto split: if_splits)
  qed
  have addr: "orAddress r = ''gateway-local'' \<or> publicHost (proxyAddressHost (orAddress r))" if "r \<in> set rows" for r
    using that not_internal_public by (auto simp: rows redactRow_def)
  have "orProxyID ` set rows = fst ` set ?m" using arg_cong [OF ids(1), of set] by simp
  moreover have "distinct (map orProxyID rows)" unfolding ids(1) by (rule dist)
  ultimately show ?thesis
    by (intro conjI ballI act addr) (simp_all only: keys)
qed

theorem occupancy_report_exact_witness:
  "\<exists>r s1. apiV1Occupancy sampleConfig ''GET'' (Some (SetProxy ''s1'' 1 ''127.0.0.1:9'' ''us'' (NewWithClock 0 0))) =
       (Inr [r], s1) \<and> orActiveSessions r = 1 \<and> orAddress r = ''gateway-local''"
proof -
  let ?s = "SetProxy ''s1'' 1 ''127.0.0.1:9'' ''us'' (NewWithClock 0 0)"
  have reach: "affinity_reachable ?s" by (intro reach_set reach_new)
  have sp: "SplitHostPort ''127.0.0.1:9'' = Some (''127.0.0.1'', ''9'')"
    using SplitHostPort_plain [of "''127.0.0.1''" "''9''"] by (simp add: plainAddr_def)
  have tr: "TrimSpace ''127.0.0.1:9'' = ''127.0.0.1:9''" by (rule TrimSpace_graphic) (simp_all add: graphic_def)
  have ip: "ParseIP ''127.0.0.1'' = Some (v4InV6 @ [127, 0, 0, 1])"
    by (simp add: ParseIP_def parseIPv4_def SplitByte_def parseOctet_def isDigitChar_def)
  have "isPrivateOrInternalProxyAddress ''127.0.0.1:9''"
    by (simp add: isPrivateOrInternalProxyAddress_def proxyAddressHost_def tr sp TrimCutset_def ip isPrivateOrInternalIP_def
        IsLoopback_def To4_mapped)
  then obtain r s1 where a: "apiV1Occupancy sampleConfig ''GET'' (Some ?s) = (Inr [r], s1)"
    "orProxyID r = 1" "orAddress r = ''gateway-local''"
    by (simp add: apiV1Occupancy_def buildProxyOccupancyRows_def ListSessions_def SetProxy_def NewWithClock_def
        attachReverseLocked_def expired_def countBinding_def CooldownRemaining_def redactRow_def)
  have "liveOn ?s 1 = {''s1''}"
    by (auto simp: liveOn_def live_def SetProxy_def NewWithClock_def attachReverseLocked_def expired_def split: if_splits)
  then have "orActiveSessions r = 1"
    using occupancy_report_exact [OF reach a(1)] a(2) by simp
  with a show ?thesis by blast
qed

end
