(* ===== verification/Outbound.thy ===== *)
theory Outbound
  imports NodesApi Sha256
begin

text \<open>
  Nodes of a subscription and the outbound each becomes (\<open>custom/parser.go\<close>: \<open>ParsedNode\<close>, its key and the
  direct fields; \<open>custom/singbox.go\<close>: \<open>buildOutbound\<close> and what it calls).

  A value of type \<open>interface{}\<close> is a \<open>goval\<close>. Of a \<open>float64\<close> the program reads three things, and these
  represent it: the integer it truncates to, its JSON text and its text under \<open>%v\<close>. A \<open>[]string\<close> is another
  type than \<open>[]interface{}\<close> and has a constructor of its own. A map is an
  association list, looked up at the first entry of a key.
\<close>

section \<open>Values\<close>

datatype goval =
    GNull
  | GBool bool
  | GInt int
  | GFloat int string string
  | GStr string
  | GArr "goval list"
  | GStrs "string list"
  | GMap "(string \<times> goval) list"

type_synonym gomap = "(string \<times> goval) list"

definition getStr :: "gomap \<Rightarrow> string \<Rightarrow> string" where
  "getStr m key = (case map_of m key of Some (GStr s) \<Rightarrow> s | _ \<Rightarrow> [])"

definition getStrDefault :: "gomap \<Rightarrow> string \<Rightarrow> string \<Rightarrow> string" where
  "getStrDefault m key def = (let s = getStr m key in if s \<noteq> [] then s else def)"

definition getInt :: "gomap \<Rightarrow> string \<Rightarrow> int" where
  "getInt m key =
     (case map_of m key of
        Some (GInt i) \<Rightarrow> i
      | Some (GFloat i _ _) \<Rightarrow> i
      | Some (GStr s) \<Rightarrow> AtoiValue s
      | _ \<Rightarrow> 0)"

definition getBool :: "gomap \<Rightarrow> string \<Rightarrow> bool" where
  "getBool m key =
     (case map_of m key of Some (GBool b) \<Rightarrow> b | Some (GStr s) \<Rightarrow> s = ''true'' | _ \<Rightarrow> False)"

text \<open>The type assertions to a map and to a slice.\<close>

definition asMap :: "goval option \<Rightarrow> gomap option" where
  "asMap v = (case v of Some (GMap m) \<Rightarrow> Some m | _ \<Rightarrow> None)"

definition asArr :: "goval option \<Rightarrow> goval list option" where
  "asArr v = (case v of Some (GArr l) \<Rightarrow> Some l | _ \<Rightarrow> None)"

definition asStr :: "goval option \<Rightarrow> string option" where
  "asStr v = (case v of Some (GStr s) \<Rightarrow> Some s | _ \<Rightarrow> None)"

text \<open>\<open>%v\<close>.\<close>

primrec fmtV :: "goval \<Rightarrow> string" where
  "fmtV GNull = ''<nil>''"
| "fmtV (GBool b) = (if b then ''true'' else ''false'')"
| "fmtV (GInt i) = fmtInt i"
| "fmtV (GFloat i j v) = v"
| "fmtV (GStr s) = s"
| "fmtV (GArr l) = ''['' @ Join (map fmtV l) '' '' @ '']''"
| "fmtV (GStrs l) = ''['' @ Join l '' '' @ '']''"
| "fmtV (GMap m) =
     ''map['' @ Join (map (\<lambda>(k, s). k @ '':'' @ s) (sort_key fst (map (map_prod id fmtV) m))) '' '' @ '']''"

section \<open>JSON text\<close>

text \<open>\<open>encoding/json\<close> with HTML escaping, as \<open>json.Marshal\<close> writes strings.\<close>

definition jsonByte :: "char \<Rightarrow> string" where
  "jsonByte c =
     (if c = CHR 0x22 \<or> c = CHR 0x5C then [CHR 0x5C, c]
      else if c = CHR 0x08 then [CHR 0x5C, CHR ''b'']
      else if c = CHR 0x0C then [CHR 0x5C, CHR ''f'']
      else if c = CHR 0x0A then [CHR 0x5C, CHR ''n'']
      else if c = CHR 0x0D then [CHR 0x5C, CHR ''r'']
      else if c = CHR 0x09 then [CHR 0x5C, CHR ''t'']
      else if byte c < 32 \<or> c \<in> set ''<>&'' then CHR 0x5C # ''u00'' @ [hexChar (byte c div 16), hexChar (byte c mod 16)]
      else [c])"

function jsonChars :: "string \<Rightarrow> string" where
  "jsonChars [] = []"
| "jsonChars (c # s) =
     (if byte c < 128 then jsonByte c @ jsonChars s
      else
        (case decodeRune c s of
           (r, w) \<Rightarrow>
             if r = runeError \<and> w = 1 then CHR 0x5C # ''ufffd'' @ jsonChars s
             else if r = 0x2028 \<or> r = 0x2029 then
               CHR 0x5C # ''u202'' @ [hexChar (r mod 16)] @ jsonChars (drop (w - 1) s)
             else c # take (w - 1) s @ jsonChars (drop (w - 1) s)))"
  by pat_completeness auto
termination
  by (relation "measure length") auto

definition jsonString :: "string \<Rightarrow> string" where
  "jsonString s = CHR 0x22 # jsonChars s @ [CHR 0x22]"

primrec marshal :: "goval \<Rightarrow> string" where
  "marshal GNull = ''null''"
| "marshal (GBool b) = (if b then ''true'' else ''false'')"
| "marshal (GInt i) = fmtInt i"
| "marshal (GFloat i j v) = j"
| "marshal (GStr s) = jsonString s"
| "marshal (GArr l) = ''['' @ Join (map marshal l) '','' @ '']''"
| "marshal (GStrs l) = ''['' @ Join (map jsonString l) '','' @ '']''"
| "marshal (GMap m) =
     ''{'' @ Join (map (\<lambda>(k, s). jsonString k @ '':'' @ s) (sort_key fst (map (map_prod id marshal) m))) '','' @ ''}''"

section \<open>Nodes\<close>

record ParsedNode =
  nName :: string
  nType :: string
  nServer :: string
  nPort :: int
  nRaw :: gomap
  nUsername :: string
  nPassword :: string

primrec canonicalValue :: "goval \<Rightarrow> goval" where
  "canonicalValue GNull = GNull"
| "canonicalValue (GBool b) = GBool b"
| "canonicalValue (GInt i) = GInt i"
| "canonicalValue (GFloat i j v) = GFloat i j v"
| "canonicalValue (GStr s) = GStr s"
| "canonicalValue (GArr l) = GArr (map canonicalValue l)"
| "canonicalValue (GStrs l) = GStrs l"
| "canonicalValue (GMap m) = GMap (filter (\<lambda>(k, v). k \<noteq> ''name'') (map (map_prod id canonicalValue) m))"

definition canonicalNodeRaw :: "gomap \<Rightarrow> gomap" where
  "canonicalNodeRaw raw = filter (\<lambda>(k, v). k \<noteq> ''name'') (map (map_prod id canonicalValue) raw)"

definition NodeKey :: "ParsedNode \<Rightarrow> string" where
  "NodeKey n =
     (let canonical = [(''type'', GStr (nType n)), (''server'', GStr (nServer n)), (''port'', GInt (nPort n))] @
            (if nRaw n \<noteq> [] then [(''raw'', GMap (canonicalNodeRaw (nRaw n)))] else [])
      in nType n @ '':'' @ nServer n @ '':'' @ fmtInt (nPort n) @ '':'' @
           hexEncode (take 8 (Sum256 (marshal (GMap canonical)))))"

definition IsDirect :: "ParsedNode \<Rightarrow> bool" where
  "IsDirect n \<longleftrightarrow> nType n = ''http'' \<or> nType n = ''socks5''"

definition DirectAddress :: "ParsedNode \<Rightarrow> string" where
  "DirectAddress n = JoinHostPort (nServer n) (fmtInt (nPort n))"

definition DirectProtocol :: "ParsedNode \<Rightarrow> string" where
  "DirectProtocol n = (if nType n = ''socks5'' then ''socks5'' else ''http'')"

definition DirectCredentials :: "ParsedNode \<Rightarrow> string \<times> string" where
  "DirectCredentials n =
     (if nUsername n = [] \<and> nPassword n = [] then
        (case asStr (map_of (nRaw n) ''username'') of Some v \<Rightarrow> v | None \<Rightarrow> [],
         case asStr (map_of (nRaw n) ''password'') of Some v \<Rightarrow> v | None \<Rightarrow> [])
      else (nUsername n, nPassword n))"

section \<open>Outbounds\<close>

definition put :: "string \<Rightarrow> goval \<Rightarrow> gomap \<Rightarrow> gomap" where
  "put k v m = AList.update k v m"

definition parseSpeed :: "string \<Rightarrow> int" where
  "parseSpeed s =
     (let n = AtoiValue (TrimSuffix (TrimSuffix (TrimSpace s) '' Mbps'') ''Mbps'') in if n = 0 then 100 else n)"

definition convertPluginOpts :: "gomap \<Rightarrow> string" where
  "convertPluginOpts opts = Join (map (\<lambda>(k, v). k @ ''='' @ fmtV v) (sort_key fst opts)) '';''"

definition enabledUTLS :: "string \<Rightarrow> goval" where
  "enabledUTLS fp = GMap [(''enabled'', GBool True), (''fingerprint'', GStr fp)]"

definition tlsServerName :: "gomap \<Rightarrow> gomap \<Rightarrow> gomap" where
  "tlsServerName raw c =
     (if getStr raw ''sni'' \<noteq> [] then put ''server_name'' (GStr (getStr raw ''sni'')) c
      else if getStr raw ''servername'' \<noteq> [] then put ''server_name'' (GStr (getStr raw ''servername'')) c
      else c)"

definition tlsInsecure :: "gomap \<Rightarrow> gomap \<Rightarrow> gomap" where
  "tlsInsecure raw c = (if getBool raw ''skip-cert-verify'' then put ''insecure'' (GBool True) c else c)"

definition tlsALPN :: "gomap \<Rightarrow> gomap \<Rightarrow> gomap" where
  "tlsALPN raw c =
     (case asArr (map_of raw ''alpn'') of
        None \<Rightarrow> c
      | Some alpn \<Rightarrow>
          let strs = filter (\<lambda>a. asStr (Some a) \<noteq> None) alpn in
          if strs \<noteq> [] then put ''alpn'' (GArr strs) c else c)"

definition tlsFingerprint :: "gomap \<Rightarrow> gomap \<Rightarrow> gomap" where
  "tlsFingerprint raw c =
     (let fp = getStr raw ''client-fingerprint'' in if fp \<noteq> [] then put ''utls'' (enabledUTLS fp) c else c)"

definition tlsReality :: "gomap \<Rightarrow> gomap \<Rightarrow> gomap" where
  "tlsReality raw c =
     (case asMap (map_of raw ''reality-opts'') of
        None \<Rightarrow> c
      | Some opts \<Rightarrow>
          let c1 = put ''reality'' (GMap [(''enabled'', GBool True), (''public_key'', GStr (getStr opts ''public-key'')),
                                        (''short_id'', GStr (getStr opts ''short-id''))]) c in
          if getStr raw ''client-fingerprint'' = [] then put ''utls'' (enabledUTLS ''chrome'') c1 else c1)"

definition applyTLS :: "gomap \<Rightarrow> gomap \<Rightarrow> gomap" where
  "applyTLS raw out =
     (if \<not> getBool raw ''tls'' \<and> getStr raw ''sni'' = [] \<and> getStr raw ''client-fingerprint'' = [] then out
      else put ''tls'' (GMap (tlsReality raw (tlsFingerprint raw (tlsALPN raw (tlsInsecure raw
             (tlsServerName raw [(''enabled'', GBool True)])))))) out)"

definition forceTLS :: "gomap \<Rightarrow> gomap \<Rightarrow> gomap" where
  "forceTLS raw out = applyTLS (put ''tls'' (GBool True) raw) out"

datatype build_error = UnsupportedType string | UnsupportedTransport string

definition wsTransport :: "gomap \<Rightarrow> gomap" where
  "wsTransport raw =
     (let t = [(''type'', GStr ''ws'')] in
      case asMap (map_of raw ''ws-opts'') of
        None \<Rightarrow> t
      | Some o1 \<Rightarrow>
          let t1 = (if getStr o1 ''path'' \<noteq> [] then put ''path'' (GStr (getStr o1 ''path'')) t else t) in
          (case asMap (map_of o1 ''headers'') of Some h \<Rightarrow> put ''headers'' (GMap h) t1 | None \<Rightarrow> t1))"

definition grpcTransport :: "gomap \<Rightarrow> gomap" where
  "grpcTransport raw =
     (let t = [(''type'', GStr ''grpc'')] in
      case asMap (map_of raw ''grpc-opts'') of
        None \<Rightarrow> t
      | Some o1 \<Rightarrow>
          if getStr o1 ''grpc-service-name'' \<noteq> [] then put ''service_name'' (GStr (getStr o1 ''grpc-service-name'')) t
          else t)"

text \<open>The first element of a slice when it is a string.\<close>

definition firstStr :: "goval list \<Rightarrow> string" where
  "firstStr l = (case l of [] \<Rightarrow> [] | x # _ \<Rightarrow> (case asStr (Some x) of Some s \<Rightarrow> s | None \<Rightarrow> []))"

definition httpPath :: "gomap \<Rightarrow> string" where
  "httpPath o1 =
     (if getStr o1 ''path'' \<noteq> [] then getStr o1 ''path''
      else (case asArr (map_of o1 ''path'') of Some l \<Rightarrow> firstStr l | None \<Rightarrow> []))"

definition httpHost :: "gomap \<Rightarrow> string" where
  "httpHost o1 =
     (let host = (case asArr (map_of o1 ''host'') of
                    Some (x # l) \<Rightarrow> firstStr (x # l)
                  | _ \<Rightarrow> getStr o1 ''host'') in
      if host \<noteq> [] then host
      else
        (case asMap (map_of o1 ''headers'') of
           None \<Rightarrow> []
         | Some h \<Rightarrow>
             if getStr h ''Host'' \<noteq> [] then getStr h ''Host''
             else if getStr h ''host'' \<noteq> [] then getStr h ''host''
             else (case asArr (map_of h ''Host'') of Some l \<Rightarrow> firstStr l | None \<Rightarrow> [])))"

definition httpTransport :: "string \<Rightarrow> gomap \<Rightarrow> gomap" where
  "httpTransport network raw =
     (let t = [(''type'', GStr ''http'')];
          optsKey = (if network = ''http'' then ''http-opts'' else ''h2-opts'') in
      case asMap (map_of raw optsKey) of
        None \<Rightarrow> t
      | Some o1 \<Rightarrow>
          let t1 = (if httpPath o1 \<noteq> [] then put ''path'' (GStr (httpPath o1)) t else t) in
          if httpHost o1 \<noteq> [] then put ''host'' (GArr [GStr (httpHost o1)]) t1 else t1)"

definition upgradeTransport :: "gomap \<Rightarrow> gomap" where
  "upgradeTransport raw =
     (let t = [(''type'', GStr ''httpupgrade'')] in
      case asMap (map_of raw ''ws-opts'') of
        None \<Rightarrow> t
      | Some o1 \<Rightarrow>
          let t1 = (if getStr o1 ''path'' \<noteq> [] then put ''path'' (GStr (getStr o1 ''path'')) t else t) in
          (case asMap (map_of o1 ''headers'') of
             None \<Rightarrow> t1
           | Some h \<Rightarrow> (case asStr (map_of h ''Host'') of Some s \<Rightarrow> put ''host'' (GStr s) t1 | None \<Rightarrow> t1)))"

definition applyTransport :: "gomap \<Rightarrow> gomap \<Rightarrow> build_error + gomap" where
  "applyTransport raw out =
     (let network = getStrDefault raw ''network'' ''tcp'' in
      if network \<in> {''tcp'', '''', ''raw'', ''none''} then Inr out
      else if network = ''ws'' then Inr (put ''transport'' (GMap (wsTransport raw)) out)
      else if network = ''grpc'' then Inr (put ''transport'' (GMap (grpcTransport raw)) out)
      else if network = ''h2'' \<or> network = ''http'' then Inr (put ''transport'' (GMap (httpTransport network raw)) out)
      else if network = ''httpupgrade'' then Inr (put ''transport'' (GMap (upgradeTransport raw)) out)
      else Inl (UnsupportedTransport network))"

definition shadowsocksOutbound :: "gomap \<Rightarrow> gomap \<Rightarrow> gomap" where
  "shadowsocksOutbound raw out =
     (let out1 = put ''password'' (GStr (getStr raw ''password'')) (put ''method'' (GStr (getStr raw ''cipher''))
                   (put ''type'' (GStr ''shadowsocks'') out));
          plugin = getStr raw ''plugin'' in
      if plugin = [] then out1
      else
        (let out2 = put ''plugin'' (GStr plugin) out1 in
         if getStr raw ''plugin-opts-raw'' \<noteq> [] then put ''plugin_opts'' (GStr (getStr raw ''plugin-opts-raw'')) out2
         else (case asMap (map_of raw ''plugin-opts'') of
                 Some o1 \<Rightarrow> put ''plugin_opts'' (GStr (convertPluginOpts o1)) out2
               | None \<Rightarrow> out2)))"

definition hysteriaOutbound :: "gomap \<Rightarrow> gomap \<Rightarrow> gomap" where
  "hysteriaOutbound raw out =
     (let out1 = put ''auth_str'' (GStr (getStr raw ''auth-str'')) (put ''type'' (GStr ''hysteria'') out);
          up = getStr raw ''up''; down = getStr raw ''down'';
          out2 = (if up \<noteq> [] then put ''up_mbps'' (GInt (parseSpeed up)) out1 else out1);
          out3 = (if down \<noteq> [] then put ''down_mbps'' (GInt (parseSpeed down)) out2 else out2)
      in forceTLS raw out3)"

definition buildOutbound :: "ParsedNode \<Rightarrow> string \<Rightarrow> build_error + gomap" where
  "buildOutbound n tag =
     (let raw = nRaw n;
          out = [(''tag'', GStr (''out-'' @ tag)), (''server'', GStr (nServer n)), (''server_port'', GInt (nPort n))];
          typed = put ''type'' (GStr (nType n)) out in
      if nType n = ''vmess'' then
        applyTransport raw (applyTLS raw (put ''security'' (GStr (getStrDefault raw ''cipher'' ''auto''))
          (put ''alter_id'' (GInt (getInt raw ''alterId'')) (put ''uuid'' (GStr (getStr raw ''uuid'')) typed))))
      else if nType n = ''vless'' then
        applyTransport raw (applyTLS raw (put ''flow'' (GStr (getStr raw ''flow''))
          (put ''uuid'' (GStr (getStr raw ''uuid'')) typed)))
      else if nType n = ''trojan'' then
        applyTransport raw (forceTLS raw (put ''password'' (GStr (getStr raw ''password'')) typed))
      else if nType n = ''shadowsocks'' then Inr (shadowsocksOutbound raw out)
      else if nType n = ''hysteria2'' then Inr (forceTLS raw (put ''password'' (GStr (getStr raw ''password'')) typed))
      else if nType n = ''hysteria'' then Inr (hysteriaOutbound raw out)
      else if nType n = ''tuic'' then
        Inr (forceTLS raw (put ''congestion_control'' (GStr (getStrDefault raw ''congestion-controller'' ''bbr''))
          (put ''password'' (GStr (getStr raw ''password'')) (put ''uuid'' (GStr (getStr raw ''uuid'')) typed))))
      else if nType n = ''anytls'' then Inr (forceTLS raw (put ''password'' (GStr (getStr raw ''password'')) typed))
      else Inl (UnsupportedType (nType n)))"

section \<open>What an outbound keeps of its node\<close>

lemma map_of_put [simp]: "map_of (put k v m) = (map_of m)(k \<mapsto> v)"
  by (simp add: put_def update_conv')

lemma getters_put [simp]:
  "k \<noteq> k' \<Longrightarrow> getStr (put k v m) k' = getStr m k'" "k \<noteq> k' \<Longrightarrow> getBool (put k v m) k' = getBool m k'"
  "getBool (put k (GBool b) m) k = b"
  by (simp_all add: getStr_def getBool_def)

text \<open>The TLS section of an outbound, read back against the fields of the node.\<close>

definition tlsSection :: "gomap \<Rightarrow> gomap \<Rightarrow> bool" where
  "tlsSection raw tls \<longleftrightarrow>
     map_of tls ''enabled'' = Some (GBool True) \<and>
     (map_of tls ''insecure'' \<noteq> None \<longleftrightarrow> getBool raw ''skip-cert-verify'') \<and>
     (map_of tls ''reality'' \<noteq> None \<longleftrightarrow> asMap (map_of raw ''reality-opts'') \<noteq> None) \<and>
     (getStr raw ''sni'' \<noteq> [] \<longrightarrow> map_of tls ''server_name'' = Some (GStr (getStr raw ''sni''))) \<and>
     (getStr raw ''client-fingerprint'' \<noteq> [] \<longrightarrow>
        map_of tls ''utls'' = Some (enabledUTLS (getStr raw ''client-fingerprint''))) \<and>
     (map_of tls ''reality'' \<noteq> None \<longrightarrow> (\<exists>fp. fp \<noteq> [] \<and> map_of tls ''utls'' = Some (enabledUTLS fp)))"

definition wantsTLS :: "ParsedNode \<Rightarrow> bool" where
  "wantsTLS n \<longleftrightarrow>
     nType n \<in> {''trojan'', ''hysteria2'', ''hysteria'', ''tuic'', ''anytls''} \<or>
     nType n \<in> {''vmess'', ''vless''} \<and>
       (getBool (nRaw n) ''tls'' \<or> getStr (nRaw n) ''sni'' \<noteq> [] \<or> getStr (nRaw n) ''client-fingerprint'' \<noteq> [])"

lemma tls_layers:
  "k \<noteq> ''server_name'' \<Longrightarrow> map_of (tlsServerName raw c) k = map_of c k"
  "k \<noteq> ''insecure'' \<Longrightarrow> map_of (tlsInsecure raw c) k = map_of c k"
  "k \<noteq> ''alpn'' \<Longrightarrow> map_of (tlsALPN raw c) k = map_of c k"
  "k \<noteq> ''utls'' \<Longrightarrow> map_of (tlsFingerprint raw c) k = map_of c k"
  "k \<notin> {''reality'', ''utls''} \<Longrightarrow> map_of (tlsReality raw c) k = map_of c k"
  by (auto simp: tlsServerName_def tlsInsecure_def tlsALPN_def tlsFingerprint_def tlsReality_def Let_def
      split: option.split)

lemma tls_server_name:
  "getStr raw ''sni'' \<noteq> [] \<Longrightarrow> map_of (tlsServerName raw c) ''server_name'' = Some (GStr (getStr raw ''sni''))"
  by (simp add: tlsServerName_def)

lemma tls_insecure:
  "map_of c ''insecure'' = None \<Longrightarrow> map_of (tlsInsecure raw c) ''insecure'' \<noteq> None \<longleftrightarrow> getBool raw ''skip-cert-verify''"
  by (simp add: tlsInsecure_def)

lemma tls_reality:
  "map_of c ''reality'' = None \<Longrightarrow>
     map_of (tlsReality raw c) ''reality'' \<noteq> None \<longleftrightarrow> asMap (map_of raw ''reality-opts'') \<noteq> None"
  by (auto simp: tlsReality_def Let_def split: option.split)

lemma tls_utls:
  "getStr raw ''client-fingerprint'' \<noteq> [] \<Longrightarrow> map_of (tlsReality raw (tlsFingerprint raw c)) ''utls'' =
     Some (enabledUTLS (getStr raw ''client-fingerprint''))"
  "getStr raw ''client-fingerprint'' = [] \<Longrightarrow> asMap (map_of raw ''reality-opts'') \<noteq> None \<Longrightarrow>
     map_of (tlsReality raw c) ''utls'' = Some (enabledUTLS ''chrome'')"
  by (auto simp: tlsReality_def tlsFingerprint_def Let_def split: option.split)

lemma tls_built:
  "tlsSection raw (tlsReality raw (tlsFingerprint raw (tlsALPN raw (tlsInsecure raw
     (tlsServerName raw [(''enabled'', GBool True)])))))"
proof -
  let ?t = "tlsReality raw (tlsFingerprint raw (tlsALPN raw (tlsInsecure raw
     (tlsServerName raw [(''enabled'', GBool True)]))))"
  have r: "map_of ?t ''reality'' \<noteq> None \<longleftrightarrow> asMap (map_of raw ''reality-opts'') \<noteq> None"
    by (rule tls_reality) (simp add: tls_layers)
  have "map_of ?t ''insecure'' \<noteq> None \<longleftrightarrow> getBool raw ''skip-cert-verify''"
    using tls_insecure [of "tlsServerName raw [(''enabled'', GBool True)]" raw] by (simp add: tls_layers)
  moreover have "map_of ?t ''enabled'' = Some (GBool True)" by (simp add: tls_layers)
  moreover have "getStr raw ''sni'' \<noteq> [] \<longrightarrow> map_of ?t ''server_name'' = Some (GStr (getStr raw ''sni''))"
    by (simp add: tls_layers tls_server_name)
  moreover have "getStr raw ''client-fingerprint'' \<noteq> [] \<longrightarrow>
      map_of ?t ''utls'' = Some (enabledUTLS (getStr raw ''client-fingerprint''))"
    by (simp add: tls_utls(1))
  moreover have "map_of ?t ''reality'' \<noteq> None \<longrightarrow> (\<exists>fp. fp \<noteq> [] \<and> map_of ?t ''utls'' = Some (enabledUTLS fp))"
  proof
    assume "map_of ?t ''reality'' \<noteq> None"
    with r have m: "asMap (map_of raw ''reality-opts'') \<noteq> None" by blast
    show "\<exists>fp. fp \<noteq> [] \<and> map_of ?t ''utls'' = Some (enabledUTLS fp)"
    proof (cases "getStr raw ''client-fingerprint'' = []")
      case True
      from tls_utls(2) [OF this m] show ?thesis by blast
    next
      case False
      from tls_utls(1) [OF this] False show ?thesis by blast
    qed
  qed
  ultimately show ?thesis unfolding tlsSection_def using r by (intro conjI) assumption+
qed

definition hasTLS :: "gomap \<Rightarrow> gomap \<Rightarrow> bool" where
  "hasTLS raw out \<longleftrightarrow> (\<exists>tls. map_of out ''tls'' = Some (GMap tls) \<and> tlsSection raw tls)"

lemma applyTLS_has:
  "getBool raw ''tls'' \<or> getStr raw ''sni'' \<noteq> [] \<or> getStr raw ''client-fingerprint'' \<noteq> [] \<Longrightarrow>
   hasTLS raw (applyTLS raw out)"
  using tls_built [of raw] by (auto simp: applyTLS_def hasTLS_def)

lemma tlsSection_put: "tlsSection (put ''tls'' v raw) tls = tlsSection raw tls"
  by (simp add: tlsSection_def)

lemma forceTLS_has: "hasTLS raw (forceTLS raw out)"
  using applyTLS_has [of "put ''tls'' (GBool True) raw" out]
  by (auto simp: forceTLS_def hasTLS_def tlsSection_put)

lemma applyTransport_keeps: "applyTransport raw out = Inr out' \<Longrightarrow> k \<noteq> ''transport'' \<Longrightarrow> map_of out' k = map_of out k"
  by (auto simp: applyTransport_def Let_def split: if_split_asm)

lemma applyTLS_keeps: "k \<noteq> ''tls'' \<Longrightarrow> map_of (applyTLS raw out) k = map_of out k"
  by (simp add: applyTLS_def)

lemma forceTLS_keeps: "k \<noteq> ''tls'' \<Longrightarrow> map_of (forceTLS raw out) k = map_of out k"
  by (simp add: forceTLS_def applyTLS_keeps)

lemma hasTLS_transport: "applyTransport raw out = Inr out' \<Longrightarrow> hasTLS raw out' = hasTLS raw out"
  using applyTransport_keeps [of raw out out' "''tls''"] by (simp add: hasTLS_def)

definition endpointOf :: "ParsedNode \<Rightarrow> gomap \<Rightarrow> bool" where
  "endpointOf n out \<longleftrightarrow>
     map_of out ''server'' = Some (GStr (nServer n)) \<and> map_of out ''server_port'' = Some (GInt (nPort n)) \<and>
     map_of out ''type'' = Some (GStr (nType n))"

lemma endpoint_put: "endpointOf n out \<Longrightarrow> k \<notin> {''server'', ''server_port'', ''type''} \<Longrightarrow> endpointOf n (put k v out)"
  by (auto simp: endpointOf_def)

lemma endpoint_TLS:
  "endpointOf n out \<Longrightarrow> endpointOf n (applyTLS raw out)" "endpointOf n out \<Longrightarrow> endpointOf n (forceTLS raw out)"
  by (simp_all add: endpointOf_def applyTLS_keeps forceTLS_keeps)

lemma endpoint_transport: "applyTransport raw out = Inr out' \<Longrightarrow> endpointOf n out \<Longrightarrow> endpointOf n out'"
  by (simp add: endpointOf_def applyTransport_keeps)

lemmas endpoint_steps = endpoint_put endpoint_TLS

lemma endpoint_start:
  "endpointOf n (put ''type'' (GStr (nType n)) [(''tag'', t), (''server'', GStr (nServer n)), (''server_port'', GInt (nPort n))])"
  by (simp add: endpointOf_def)

lemma endpoint_shadowsocks:
  "endpointOf n (put ''type'' (GStr ''shadowsocks'') out) \<Longrightarrow> endpointOf n (shadowsocksOutbound raw out)"
  by (simp add: shadowsocksOutbound_def Let_def endpoint_put split: option.split)

lemma endpoint_hysteria: "endpointOf n (put ''type'' (GStr ''hysteria'') out) \<Longrightarrow> endpointOf n (hysteriaOutbound raw out)"
  by (simp add: hysteriaOutbound_def Let_def endpoint_steps)

lemma outbound_endpoint:
  assumes "buildOutbound n tag = Inr out"
  shows "endpointOf n out"
proof -
  note start = endpoint_start [of n "GStr (''out-'' @ tag)"]
  consider "nType n \<in> {''vmess'', ''vless'', ''trojan''}" | "nType n = ''shadowsocks''" | "nType n = ''hysteria''"
    | "nType n \<in> {''hysteria2'', ''tuic'', ''anytls''}"
    using assms by (auto simp: buildOutbound_def Let_def split: if_split_asm)
  then show ?thesis
  proof cases
    case 1
    then obtain base where "applyTransport (nRaw n) base = Inr out" "endpointOf n base"
      using assms start by (fastforce simp: buildOutbound_def Let_def intro!: endpoint_steps)
    then show ?thesis by (rule endpoint_transport)
  next
    case 2
    with assms start show ?thesis by (auto simp: buildOutbound_def Let_def intro!: endpoint_shadowsocks)
  next
    case 3
    with assms start show ?thesis by (auto simp: buildOutbound_def Let_def intro!: endpoint_hysteria)
  next
    case 4
    with assms start show ?thesis by (auto simp: buildOutbound_def Let_def intro!: endpoint_steps)
  qed
qed

lemma outbound_tls:
  assumes "buildOutbound n tag = Inr out" "wantsTLS n"
  shows "hasTLS (nRaw n) out"
  using assms
  by (auto simp: buildOutbound_def Let_def wantsTLS_def hysteriaOutbound_def forceTLS_has applyTLS_has
      hasTLS_transport split: if_split_asm)

definition transportKnown :: "gomap \<Rightarrow> bool" where
  "transportKnown raw \<longleftrightarrow> getStrDefault raw ''network'' ''tcp'' \<in>
     {''tcp'', ''raw'', ''none'', ''ws'', ''grpc'', ''h2'', ''http'', ''httpupgrade''}"

lemma applyTransport_Inr: "isl (applyTransport raw out) \<longleftrightarrow> \<not> transportKnown raw"
  by (auto simp: applyTransport_def Let_def transportKnown_def getStrDefault_def)

lemma buildOutbound_isl:
  "isl (buildOutbound n tag) \<longleftrightarrow>
     nType n \<notin> {''vmess'', ''vless'', ''trojan'', ''shadowsocks'', ''hysteria2'', ''hysteria'', ''tuic'', ''anytls''} \<or>
     nType n \<in> {''vmess'', ''vless'', ''trojan''} \<and> \<not> transportKnown (nRaw n)"
  by (auto simp: buildOutbound_def Let_def applyTransport_Inr)

text \<open>
  The transport a node asks for, as the transport of the configuration: none for plain TCP, the same name for most of
  the others, and \<open>http\<close> for both names of HTTP/2. Any other name is not supported.
\<close>

definition wantedTransport :: "gomap \<Rightarrow> string option option" where
  "wantedTransport raw =
     map_of [(''tcp'', None), (''raw'', None), (''none'', None), (''ws'', Some ''ws''), (''grpc'', Some ''grpc''),
       (''h2'', Some ''http''), (''http'', Some ''http''), (''httpupgrade'', Some ''httpupgrade'')]
       (getStrDefault raw ''network'' ''tcp'')"

definition supportedNode :: "ParsedNode \<Rightarrow> bool" where
  "supportedNode n \<longleftrightarrow>
     nType n \<in> {''shadowsocks'', ''hysteria2'', ''hysteria'', ''tuic'', ''anytls''} \<or>
     nType n \<in> {''vmess'', ''vless'', ''trojan''} \<and> wantedTransport (nRaw n) \<noteq> None"

definition hasTransport :: "string option \<Rightarrow> gomap \<Rightarrow> bool" where
  "hasTransport name out \<longleftrightarrow>
     (case name of
        None \<Rightarrow> map_of out ''transport'' = None
      | Some t \<Rightarrow> (\<exists>m. map_of out ''transport'' = Some (GMap m) \<and> map_of m ''type'' = Some (GStr t)))"

lemma transportKnown_wanted: "transportKnown raw \<longleftrightarrow> wantedTransport raw \<noteq> None"
  by (simp add: transportKnown_def wantedTransport_def)

lemma supportedNode_iff: "isl (buildOutbound n tag) \<longleftrightarrow> \<not> supportedNode n"
  unfolding buildOutbound_isl supportedNode_def transportKnown_wanted by auto

lemma transport_types:
  "map_of (wsTransport raw) ''type'' = Some (GStr ''ws'')" "map_of (grpcTransport raw) ''type'' = Some (GStr ''grpc'')"
  "map_of (httpTransport network raw) ''type'' = Some (GStr ''http'')"
  "map_of (upgradeTransport raw) ''type'' = Some (GStr ''httpupgrade'')"
  by (simp_all add: wsTransport_def grpcTransport_def httpTransport_def upgradeTransport_def Let_def split: option.split)

lemma applyTransport_wanted:
  assumes "applyTransport raw out = Inr out1" "map_of out ''transport'' = None"
  shows "\<exists>t. wantedTransport raw = Some t \<and> hasTransport t out1"
  using assms
  by (auto simp: applyTransport_def Let_def wantedTransport_def hasTransport_def transport_types getStrDefault_def split: if_split_asm)

lemma outbound_transport:
  assumes "buildOutbound n tag = Inr out" "nType n \<in> {''vmess'', ''vless'', ''trojan''}"
  shows "\<exists>t. wantedTransport (nRaw n) = Some t \<and> hasTransport t out"
proof -
  have "map_of (applyTLS raw out) ''transport'' = map_of out ''transport''"
    "map_of (forceTLS raw out) ''transport'' = map_of out ''transport''" for raw out
    by (simp_all add: applyTLS_keeps forceTLS_keeps)
  with assms obtain base where "applyTransport (nRaw n) base = Inr out" "map_of base ''transport'' = None"
    by (auto simp: buildOutbound_def Let_def)
  then show ?thesis by (rule applyTransport_wanted)
qed



end
