(* ===== verification/SingBox.thy ===== *)
theory SingBox
  imports Outbound
begin

text \<open>
  One sing-box child process and the configuration it runs (\<open>custom/singbox.go\<close>): assembling a
  configuration with one local port per node, pruning nodes the binary rejects, and reloading, with every
  failure branch and the state it leaves.

  What the process outside decides is given by an environment: whether files can be read and written, the
  verdicts of \<open>sing-box check\<close>, whether the child starts, when it exits and which ports answer. The file on
  disk is part of the state, and may be left garbled by a failed write. The port offset is never changed by
  the code and is left out, as are log lines; waiting for old ports to be released only logs.
\<close>

section \<open>State\<close>

datatype reject = BuildRejected build_error | CheckRejected

record assemblyDiagnostics =
  adAccepted :: "ParsedNode list"
  adRejected :: "(ParsedNode \<times> reject) list"
  adSegmentFull :: "ParsedNode list"

definition noDiagnostics :: assemblyDiagnostics where
  "noDiagnostics = \<lparr>adAccepted = [], adRejected = [], adSegmentFull = []\<rparr>"

definition rejectedKeys :: "assemblyDiagnostics \<Rightarrow> string list" where
  "rejectedKeys d = map (\<lambda>(n, e). NodeKey n) (adRejected d)"

definition acceptedKeys :: "assemblyDiagnostics \<Rightarrow> string list" where
  "acceptedKeys d = map NodeKey (adAccepted d)"

definition hasEvidenceForSegmentFull :: "assemblyDiagnostics \<Rightarrow> string \<Rightarrow> bool" where
  "hasEvidenceForSegmentFull d key = list_ex (\<lambda>n. NodeKey n = key) (adSegmentFull d)"

definition portRangeSpan :: int where
  "portRangeSpan = 5000"

definition SingBoxStatusNoTunnelNodes :: string where
  "SingBoxStatusNoTunnelNodes = ''no_tunnel_nodes''"

definition SingBoxStatusRunning :: string where
  "SingBoxStatusRunning = ''running''"

definition SingBoxStatusStopped :: string where
  "SingBoxStatusStopped = ''stopped''"

definition SingBoxStatusPartial :: string where
  "SingBoxStatusPartial = ''partial''"

definition SingBoxStatusFailed :: string where
  "SingBoxStatusFailed = ''failed''"

lemmas status_names = SingBoxStatusNoTunnelNodes_def SingBoxStatusRunning_def SingBoxStatusStopped_def
  SingBoxStatusPartial_def SingBoxStatusFailed_def

record SingBoxRuntimeStatus =
  rsRunning :: bool
  rsStatus :: string
  rsReason :: string
  rsNodes :: int
  rsReadyPorts :: int
  rsTotalPorts :: int

datatype config_file = NoFile | Garbled | Stored goval

type_synonym port_map = "(string \<times> int) list"

record SingBoxProcess =
  spBinPath :: string
  spBasePort :: int
  spInitErr :: bool
  spPortMap :: port_map
  spNodes :: "ParsedNode list"
  spRunning :: bool
  spStatus :: string
  spReason :: string
  spReadyPorts :: int
  spAssembly :: assemblyDiagnostics
  spFile :: config_file
  spCmd :: "nat option"
  spSpawned :: nat

text \<open>What becomes of the data directory.\<close>

datatype dir_result = DirReady | DirUnnamed | DirNoPath | DirNotMade | DirNotPrivate

definition NewSingBoxProcess :: "dir_result \<Rightarrow> config_file \<Rightarrow> string \<Rightarrow> int \<Rightarrow> SingBoxProcess" where
  "NewSingBoxProcess dir file binPath basePort =
     (let s = \<lparr>spBinPath = binPath, spBasePort = basePort, spInitErr = False, spPortMap = [], spNodes = [],
               spRunning = False, spStatus = SingBoxStatusNoTunnelNodes, spReason = SingBoxStatusNoTunnelNodes,
               spReadyPorts = 0, spAssembly = noDiagnostics, spFile = file, spCmd = None, spSpawned = 0\<rparr>;
          failed = (\<lambda>reason. s\<lparr>spInitErr := True, spStatus := SingBoxStatusFailed, spReason := reason\<rparr>) in
      case dir of
        DirReady \<Rightarrow> s
      | DirUnnamed \<Rightarrow> failed ''data_dir_invalid''
      | DirNoPath \<Rightarrow> failed ''data_dir_invalid''
      | DirNotMade \<Rightarrow> failed ''data_dir_unavailable''
      | DirNotPrivate \<Rightarrow> failed ''data_dir_permission_denied'')"

definition setStatusLocked :: "string \<Rightarrow> string \<Rightarrow> int \<Rightarrow> SingBoxProcess \<Rightarrow> SingBoxProcess" where
  "setStatusLocked status reason readyPorts s =
     s\<lparr>spStatus := status, spReason := reason, spReadyPorts := readyPorts\<rparr>"

section \<open>Assembling a configuration\<close>

record assembled =
  asPorts :: port_map
  asEntries :: "(string \<times> int \<times> gomap) list"
  asDiagnostics :: assemblyDiagnostics

text \<open>A node keeps the port it had; a new one takes the first free port of the segment, or none (0).\<close>

definition allocPort :: "int \<Rightarrow> int \<Rightarrow> port_map \<Rightarrow> int list \<Rightarrow> string \<Rightarrow> int \<times> int list" where
  "allocPort segmentStart segmentEnd old used key =
     (case map_of old key of
        Some p \<Rightarrow> (p, used)
      | None \<Rightarrow>
          (case find (\<lambda>p. p \<notin> set used) [segmentStart..segmentEnd - 1] of
             Some p \<Rightarrow> (p, p # used)
           | None \<Rightarrow> (0, used)))"

fun assembleLoop ::
    "int \<Rightarrow> int \<Rightarrow> port_map \<Rightarrow> nat \<Rightarrow> ParsedNode list \<Rightarrow> int list \<Rightarrow> assembled \<Rightarrow> assembled" where
  "assembleLoop segmentStart segmentEnd old i [] used a = a"
| "assembleLoop segmentStart segmentEnd old i (n # ns) used a =
     (let tag = ''node-'' @ natDigits i; d = asDiagnostics a in
      case buildOutbound n tag of
        Inl e \<Rightarrow>
          assembleLoop segmentStart segmentEnd old (Suc i) ns used
            (a\<lparr>asDiagnostics := d\<lparr>adRejected := adRejected d @ [(n, BuildRejected e)]\<rparr>\<rparr>)
      | Inr outbound \<Rightarrow>
          (case allocPort segmentStart segmentEnd old used (NodeKey n) of
             (mixedPort, used1) \<Rightarrow>
               if mixedPort = 0 then
                 assembleLoop segmentStart segmentEnd old (Suc i) ns used1
                   (a\<lparr>asDiagnostics := d\<lparr>adSegmentFull := adSegmentFull d @ [n]\<rparr>\<rparr>)
               else
                 assembleLoop segmentStart segmentEnd old (Suc i) ns used1
                   (a\<lparr>asPorts := AList.update (NodeKey n) mixedPort (asPorts a),
                      asEntries := asEntries a @ [(tag, mixedPort, outbound)],
                      asDiagnostics := d\<lparr>adAccepted := adAccepted d @ [n]\<rparr>\<rparr>)))"

definition usedPorts :: "port_map \<Rightarrow> ParsedNode list \<Rightarrow> int list" where
  "usedPorts old nodes = map snd (filter (\<lambda>(k, p). k \<in> set (map NodeKey nodes)) old)"

definition noAssembly :: assembled where
  "noAssembly = \<lparr>asPorts = [], asEntries = [], asDiagnostics = noDiagnostics\<rparr>"

definition assembleConfigWithDiagnostics :: "SingBoxProcess \<Rightarrow> ParsedNode list \<Rightarrow> assembled" where
  "assembleConfigWithDiagnostics s nodes =
     assembleLoop (spBasePort s + 1) (spBasePort s + portRangeSpan) (spPortMap s) 0 (sort_key NodeKey nodes)
       (usedPorts (spPortMap s) nodes) noAssembly"

definition mixedInbound :: "string \<times> int \<times> gomap \<Rightarrow> goval" where
  "mixedInbound e =
     (case e of (tag, port, out) \<Rightarrow>
        GMap [(''type'', GStr ''mixed''), (''tag'', GStr (''in-'' @ tag)), (''listen'', GStr ''127.0.0.1''),
              (''listen_port'', GInt port)])"

definition routeRule :: "string \<times> int \<times> gomap \<Rightarrow> goval" where
  "routeRule e =
     (case e of (tag, port, out) \<Rightarrow>
        GMap [(''inbound'', GArr [GStr (''in-'' @ tag)]), (''outbound'', GStr (''out-'' @ tag))])"

definition renderConfig :: "(string \<times> int \<times> gomap) list \<Rightarrow> goval" where
  "renderConfig es = GMap
     [(''log'', GMap [(''level'', GStr ''warn'')]),
      (''dns'', GMap [(''servers'', GArr [GMap [(''type'', GStr ''local''), (''tag'', GStr ''local'')]])]),
      (''inbounds'', if es = [] then GNull else GArr (map mixedInbound es)),
      (''outbounds'', GArr (map (\<lambda>(tag, port, out). GMap out) es @
         [GMap [(''type'', GStr ''direct''), (''tag'', GStr ''direct'')]])),
      (''route'', GMap
         [(''rules'', if es = [] then GNull else GArr (map routeRule es)),
          (''final'', GStr ''direct''),
          (''default_domain_resolver'', GMap [(''server'', GStr ''local''), (''strategy'', GStr ''prefer_ipv4'')])])]"

definition buildConfigBytes :: "SingBoxProcess \<Rightarrow> ParsedNode list \<Rightarrow> goval" where
  "buildConfigBytes s nodes = renderConfig (asEntries (assembleConfigWithDiagnostics s nodes))"

section \<open>Missing ports\<close>

record incomplete =
  icMissing :: nat
  icNodes :: nat
  icSegmentFull :: "ParsedNode list"
  icBuildFailures :: "ParsedNode list"
  icUnknown :: "ParsedNode list"

definition hasPort :: "port_map \<Rightarrow> ParsedNode \<Rightarrow> bool" where
  "hasPort pm n \<longleftrightarrow> map_of pm (NodeKey n) \<noteq> None"

definition incompletePortAllocationErrorWithDiagnostics ::
    "ParsedNode list \<Rightarrow> port_map \<Rightarrow> assemblyDiagnostics \<Rightarrow> incomplete option" where
  "incompletePortAllocationErrorWithDiagnostics nodes portMap d =
     (let missing = filter (\<lambda>n. \<not> hasPort portMap n) nodes;
          buildFailure = (\<lambda>n. NodeKey n \<in> set (rejectedKeys d) \<or> isl (buildOutbound n ''diagnostic''));
          full = (\<lambda>n. hasEvidenceForSegmentFull d (NodeKey n)) in
      if missing = [] then None
      else Some \<lparr>icMissing = length missing, icNodes = length nodes,
                 icSegmentFull = filter (\<lambda>n. \<not> buildFailure n \<and> full n) missing,
                 icBuildFailures = filter buildFailure missing,
                 icUnknown = filter (\<lambda>n. \<not> buildFailure n \<and> \<not> full n) missing\<rparr>)"

definition incompletePortAllocationError :: "ParsedNode list \<Rightarrow> port_map \<Rightarrow> incomplete option" where
  "incompletePortAllocationError nodes portMap =
     incompletePortAllocationErrorWithDiagnostics nodes portMap noDiagnostics"

section \<open>Checking and pruning\<close>

datatype write_result = Written | WriteFailed | NotPrivate

datatype check_result = CheckPassed | CheckTimedOut | CheckInvalid string

record StartEnv =
  seBinFound :: bool
  seCheck :: check_result
  seStartError :: "string option"
  seExited :: "nat \<Rightarrow> bool"
  seAnswers :: "nat \<Rightarrow> int \<Rightarrow> bool"

text \<open>
  The writes of a reload are the first configuration, the rebuilt one and the restored one. \<open>reTemp\<close> says
  whether the temporary file for checking a list of nodes could be written.
\<close>

record ReloadEnv =
  reReadable :: bool
  reWrite :: "nat \<Rightarrow> write_result"
  reBinFound :: bool
  reTemp :: "ParsedNode list \<Rightarrow> bool"
  reCheck :: "goval \<Rightarrow> bool"
  reStart :: StartEnv

definition checkNodes :: "ReloadEnv \<Rightarrow> SingBoxProcess \<Rightarrow> ParsedNode list \<Rightarrow> bool" where
  "checkNodes e s nodes \<longleftrightarrow>
     nodes = [] \<or> reTemp e nodes \<and> reBinFound e \<and> reCheck e (buildConfigBytes s nodes)"

text \<open>Bisection; the empty list always passes, so both halves are shorter whenever it recurses.\<close>

function pruneInvalidNodes :: "(ParsedNode list \<Rightarrow> bool) \<Rightarrow> ParsedNode list \<Rightarrow> ParsedNode list" where
  "pruneInvalidNodes check nodes =
     (if check nodes then nodes
      else if length nodes \<le> 1 then []
      else pruneInvalidNodes check (take (length nodes div 2) nodes) @
           pruneInvalidNodes check (drop (length nodes div 2) nodes))"
  by pat_completeness auto
termination
  by (relation "measure (\<lambda>(check, nodes). length nodes)") auto

declare pruneInvalidNodes.simps [simp del]

definition prunedAsRejected :: "ParsedNode list \<Rightarrow> ParsedNode list \<Rightarrow> (ParsedNode \<times> reject) list" where
  "prunedAsRejected before after =
     map (\<lambda>n. (n, CheckRejected)) (filter (\<lambda>n. NodeKey n \<notin> NodeKey ` set after) before)"

section \<open>The configuration file\<close>

definition writePrivateSingBoxConfig :: "write_result \<Rightarrow> config_file \<Rightarrow> bool \<times> config_file" where
  "writePrivateSingBoxConfig w new =
     (case w of Written \<Rightarrow> (True, new) | WriteFailed \<Rightarrow> (False, Garbled) | NotPrivate \<Rightarrow> (False, new))"

definition generateConfig ::
    "write_result \<Rightarrow> ParsedNode list \<Rightarrow> SingBoxProcess \<Rightarrow> assemblyDiagnostics option \<times> SingBoxProcess" where
  "generateConfig w nodes s =
     (let a = assembleConfigWithDiagnostics s nodes in
      case writePrivateSingBoxConfig w (Stored (renderConfig (asEntries a))) of
        (ok, file) \<Rightarrow> (if ok then Some (asDiagnostics a) else None, s\<lparr>spPortMap := asPorts a, spFile := file\<rparr>))"

section \<open>The child process\<close>

definition stopLocked :: "SingBoxProcess \<Rightarrow> SingBoxProcess" where
  "stopLocked s =
     (if spCmd s = None \<or> \<not> spRunning s then s
      else
        (let s1 = s\<lparr>spRunning := False, spCmd := None\<rparr> in
         if spPortMap s1 \<noteq> [] then setStatusLocked SingBoxStatusStopped SingBoxStatusStopped 0 s1
         else setStatusLocked SingBoxStatusNoTunnelNodes SingBoxStatusNoTunnelNodes 0 s1))"

datatype start_error =
    StartBinary
  | StartCheckTimeout
  | StartInvalid string
  | StartFailed string
  | StartExited
  | StartNoPorts
  | StartNotReady int int

definition countReadyPortsLocked :: "StartEnv \<Rightarrow> nat \<Rightarrow> port_map \<Rightarrow> int" where
  "countReadyPortsLocked e i pm = int (length (filter (\<lambda>(k, p). seAnswers e i p) pm))"

text \<open>The polling loop; \<open>None\<close> when the child is seen to have exited.\<close>

fun waitReady :: "StartEnv \<Rightarrow> port_map \<Rightarrow> nat \<Rightarrow> nat \<Rightarrow> int \<Rightarrow> int option" where
  "waitReady e pm 0 i ready = Some ready"
| "waitReady e pm (Suc k) i ready =
     (if seExited e i then None
      else
        (let ready1 = countReadyPortsLocked e i pm in
         if pm \<noteq> [] \<and> ready1 = int (length pm) then Some ready1 else waitReady e pm k (Suc i) ready1))"

definition startLocked :: "StartEnv \<Rightarrow> SingBoxProcess \<Rightarrow> start_error option \<times> SingBoxProcess" where
  "startLocked e s =
     (let fail = (\<lambda>err reason s. (Some err, setStatusLocked SingBoxStatusFailed reason 0 s)) in
      if \<not> seBinFound e then fail StartBinary ''binary_not_found'' s
      else
        (case seCheck e of
           CheckTimedOut \<Rightarrow> fail StartCheckTimeout ''config_check_timeout'' s
         | CheckInvalid output \<Rightarrow> fail (StartInvalid output) ''config_invalid'' s
         | CheckPassed \<Rightarrow>
             (case seStartError e of
                Some err \<Rightarrow> fail (StartFailed err) ''start_failed'' s
              | None \<Rightarrow>
                  let s1 = s\<lparr>spRunning := True, spCmd := Some (spSpawned s), spSpawned := Suc (spSpawned s)\<rparr>;
                      totalPorts = int (length (spPortMap s1)) in
                  (case waitReady e (spPortMap s1) 20 0 0 of
                     None \<Rightarrow> fail StartExited ''process_exited_on_start'' s1
                   | Some readyPorts \<Rightarrow>
                       if totalPorts = 0 then fail StartNoPorts ''no_ports_allocated'' s1
                       else if readyPorts < totalPorts then
                         (Some (StartNotReady readyPorts totalPorts),
                          setStatusLocked SingBoxStatusPartial ''ports_not_ready'' readyPorts s1)
                       else (None, setStatusLocked SingBoxStatusRunning SingBoxStatusRunning readyPorts s1)))))"

text \<open>What the goroutine that waits for a child does when that child has exited.\<close>

definition childExited :: "nat \<Rightarrow> SingBoxProcess \<Rightarrow> SingBoxProcess" where
  "childExited c s =
     (if spCmd s = Some c then
        (let s1 = s\<lparr>spRunning := False\<rparr>;
             s2 = (if spStatus s1 \<noteq> SingBoxStatusFailed
                   then setStatusLocked SingBoxStatusStopped ''process_exited'' 0 s1 else s1)
         in s2\<lparr>spCmd := None\<rparr>)
      else s)"

text \<open>The messages of the start errors, in UTF-8, and the words they are classified by.\<close>

definition utf8 :: "nat list \<Rightarrow> string" where
  "utf8 bs = map char_of bs"

definition zhNotFound :: string where
  "zhNotFound = utf8 [0xE6, 0x9C, 0xAA, 0xE6, 0x89, 0xBE, 0xE5, 0x88, 0xB0]"

definition zhInvalid :: string where
  "zhInvalid = utf8 [0xE9, 0x85, 0x8D, 0xE7, 0xBD, 0xAE, 0xE6, 0x97, 0xA0, 0xE6, 0x95, 0x88]"

definition zhExited :: string where
  "zhExited = utf8 [0xE7, 0xAB, 0x8B, 0xE5, 0x8D, 0xB3, 0xE9, 0x80, 0x80, 0xE5, 0x87, 0xBA]"

definition zhUnallocated :: string where
  "zhUnallocated = utf8 [0xE6, 0x9C, 0xAA, 0xE5, 0x88, 0x86, 0xE9, 0x85, 0x8D]"

definition zhNotReady :: string where
  "zhNotReady = utf8 [0xE6, 0x9C, 0xAA, 0xE5, 0xAE, 0x8C, 0xE5, 0x85, 0xA8, 0xE5, 0xB0, 0xB1, 0xE7, 0xBB, 0xAA]"

definition zhIncomplete :: string where
  "zhIncomplete = utf8 [0xE4, 0xB8, 0x8D, 0xE5, 0xAE, 0x8C, 0xE6, 0x95, 0xB4]"

definition msgCheckTimeout :: string where
  "msgCheckTimeout = utf8 [0xE9, 0x85, 0x8D, 0xE7, 0xBD, 0xAE, 0xE6, 0xA3, 0x80, 0xE6, 0x9F, 0xA5, 0xE8, 0xB6, 0x85, 0xE6, 0x97, 0xB6]"

definition msgStart :: string where
  "msgStart = utf8 [0xE5, 0x90, 0xAF, 0xE5, 0x8A, 0xA8, 0xE5, 0xA4, 0xB1, 0xE8, 0xB4, 0xA5]"

definition msgExitedPre :: string where
  "msgExitedPre = utf8 [0xE8, 0xBF, 0x9B, 0xE7, 0xA8, 0x8B, 0xE5, 0x90, 0xAF, 0xE5, 0x8A, 0xA8, 0xE5, 0x90, 0x8E]"

definition msgExitedPost :: string where
  "msgExitedPost = utf8 [0xEF, 0xBC, 0x8C, 0xE8, 0xAF, 0xB7, 0xE6, 0xA3, 0x80, 0xE6, 0x9F, 0xA5, 0xE6, 0x97, 0xA5, 0xE5, 0xBF, 0x97]"

definition msgPorts :: string where
  "msgPorts = utf8 [0xE7, 0xAB, 0xAF, 0xE5, 0x8F, 0xA3]"

definition msgListen :: string where
  "msgListen = utf8 [0xE6, 0x9C, 0xAC, 0xE5, 0x9C, 0xB0, 0xE7, 0x9B, 0x91, 0xE5, 0x90, 0xAC, 0xE7, 0xAB, 0xAF, 0xE5, 0x8F, 0xA3]"

definition msgInstall :: string where
  "msgInstall = utf8 [0xEF, 0xBC, 0x88, 0xE8, 0xAF, 0xB7, 0xE5, 0xAE, 0x89, 0xE8, 0xA3, 0x85, 0x20, 0x73, 0x69, 0x6E, 0x67, 0x2D, 0x62, 0x6F, 0x78, 0x20, 0xE6, 0x88, 0x96, 0xE8, 0xAE, 0xBE, 0xE7, 0xBD, 0xAE, 0x20, 0x53, 0x49, 0x4E, 0x47, 0x42, 0x4F, 0x58, 0x5F, 0x50, 0x41, 0x54, 0x48, 0xEF, 0xBC, 0x89]"

definition msgOpen :: string where
  "msgOpen = utf8 [0xEF, 0xBC, 0x88]"

definition msgClose :: string where
  "msgClose = utf8 [0xEF, 0xBC, 0x89]"

fun startErrorText :: "string \<Rightarrow> start_error \<Rightarrow> string" where
  "startErrorText binPath StartBinary = ''sing-box '' @ zhNotFound @ '': '' @ binPath @ msgInstall"
| "startErrorText binPath StartCheckTimeout = ''sing-box '' @ msgCheckTimeout @ msgOpen @ ''30s'' @ msgClose"
| "startErrorText binPath (StartInvalid output) = ''sing-box '' @ zhInvalid @ '': '' @ output"
| "startErrorText binPath (StartFailed err) = ''sing-box '' @ msgStart @ '': '' @ err"
| "startErrorText binPath StartExited = ''sing-box '' @ msgExitedPre @ zhExited @ msgExitedPost"
| "startErrorText binPath StartNoPorts = ''sing-box '' @ zhUnallocated @ msgListen"
| "startErrorText binPath (StartNotReady r t) =
     ''sing-box '' @ msgPorts @ zhNotReady @ msgOpen @ fmtInt r @ ''/'' @ fmtInt t @ msgClose"

definition classifySingBoxStartError :: "string \<Rightarrow> string" where
  "classifySingBoxStartError msg =
     (if Contains msg zhNotFound then ''binary_not_found''
      else if Contains msg zhInvalid then ''config_invalid''
      else if Contains msg zhExited then ''process_exited_on_start''
      else if Contains msg zhUnallocated then ''no_ports_allocated''
      else if Contains msg zhNotReady then ''ports_not_ready''
      else if Contains msg zhIncomplete then ''ports_incomplete''
      else ''start_failed'')"

section \<open>Reloading\<close>

datatype reload_error =
    EInit
  | EGenerate
  | EAllRejected "incomplete option"
  | EPorts incomplete
  | EBinary
  | EAllInvalid
  | ERebuild
  | EStart start_error

definition restoreState :: "ReloadEnv \<Rightarrow> SingBoxProcess \<Rightarrow> SingBoxProcess \<Rightarrow> SingBoxProcess" where
  "restoreState e old s =
     s\<lparr>spPortMap := spPortMap old, spNodes := spNodes old, spAssembly := spAssembly old,
       spFile := (if reReadable e \<and> spFile old \<noteq> NoFile
                  then snd (writePrivateSingBoxConfig (reWrite e 2) (spFile old)) else spFile s)\<rparr>"

definition failReload :: "ReloadEnv \<Rightarrow> SingBoxProcess \<Rightarrow> string \<Rightarrow> SingBoxProcess \<Rightarrow> SingBoxProcess" where
  "failReload e old reason s = setStatusLocked SingBoxStatusFailed reason 0 (restoreState e old s)"

text \<open>Rebuilding the configuration without the pruned nodes.\<close>

definition rebuildPruned ::
    "ReloadEnv \<Rightarrow> assemblyDiagnostics \<Rightarrow> ParsedNode list \<Rightarrow> SingBoxProcess \<Rightarrow>
     (reload_error \<times> string) option \<times> SingBoxProcess" where
  "rebuildPruned e d good s =
     (if length good = length (adAccepted d) then (None, s)
      else
        (case generateConfig (reWrite e 1) good s of
           (None, s1) \<Rightarrow> (Some (ERebuild, ''config_rebuild_failed''), s1)
         | (Some d1, s1) \<Rightarrow>
             let d2 = d1\<lparr>adRejected := adRejected d @ adRejected d1 @ prunedAsRejected (adAccepted d) good\<rparr>;
                 s2 = s1\<lparr>spAssembly := d2\<rparr> in
             (case incompletePortAllocationErrorWithDiagnostics (adAccepted d2) (spPortMap s2) d2 of
                Some ic \<Rightarrow> (Some (EPorts ic, ''ports_incomplete''), s2)
              | None \<Rightarrow> (None, s2))))"

text \<open>Stopping the old child and starting the new one.\<close>

definition restartWith ::
    "ReloadEnv \<Rightarrow> SingBoxProcess \<Rightarrow> ParsedNode list \<Rightarrow> SingBoxProcess \<Rightarrow> reload_error option \<times> SingBoxProcess" where
  "restartWith e old good s =
     (case startLocked (reStart e) (stopLocked s) of
        (Some err, s1) \<Rightarrow>
          if spStatus s1 = SingBoxStatusPartial then (Some (EStart err), s1\<lparr>spNodes := good\<rparr>)
          else (Some (EStart err), failReload e old (classifySingBoxStartError (startErrorText (spBinPath s1) err)) s1)
      | (None, s1) \<Rightarrow> (None, s1\<lparr>spNodes := good, spAssembly := (spAssembly s1)\<lparr>adAccepted := good\<rparr>\<rparr>))"

text \<open>The part of a reload that follows a written configuration with diagnostics \<open>d\<close>.\<close>

definition reloadGenerated ::
    "ReloadEnv \<Rightarrow> SingBoxProcess \<Rightarrow> ParsedNode list \<Rightarrow> assemblyDiagnostics \<Rightarrow> SingBoxProcess \<Rightarrow>
     reload_error option \<times> SingBoxProcess" where
  "reloadGenerated e old tunnelNodes d s =
     (if adAccepted d = [] then
        (Some (EAllRejected (incompletePortAllocationErrorWithDiagnostics tunnelNodes (spPortMap old) d)),
         failReload e old ''all_tunnel_nodes_rejected'' s)
      else if adSegmentFull d \<noteq> [] then
        (map_option EPorts (incompletePortAllocationErrorWithDiagnostics tunnelNodes (spPortMap old) d),
         failReload e old ''ports_incomplete'' s)
      else
        (case incompletePortAllocationErrorWithDiagnostics (adAccepted d) (spPortMap s) d of
           Some ic \<Rightarrow> (Some (EPorts ic), failReload e old ''ports_incomplete'' s)
         | None \<Rightarrow>
             if \<not> reBinFound e then (Some EBinary, failReload e old ''binary_not_found'' s)
             else
               (let good = pruneInvalidNodes (checkNodes e s) (adAccepted d) in
                if good = [] then (Some EAllInvalid, failReload e old ''all_tunnel_nodes_invalid'' s)
                else
                  (case rebuildPruned e d good s of
                     (Some (err, reason), s1) \<Rightarrow> (Some err, failReload e old reason s1)
                   | (None, s1) \<Rightarrow> restartWith e old good s1))))"

definition Reload :: "ReloadEnv \<Rightarrow> ParsedNode list \<Rightarrow> SingBoxProcess \<Rightarrow> reload_error option \<times> SingBoxProcess" where
  "Reload e nodes s =
     (let tunnelNodes = filter (\<lambda>n. \<not> IsDirect n) nodes in
      if tunnelNodes = [] then
        (None, setStatusLocked SingBoxStatusNoTunnelNodes SingBoxStatusNoTunnelNodes 0
           ((stopLocked s)\<lparr>spRunning := False, spNodes := [], spPortMap := [], spAssembly := noDiagnostics\<rparr>))
      else if spInitErr s then (Some EInit, setStatusLocked SingBoxStatusFailed (spReason s) 0 s)
      else
        (case generateConfig (reWrite e 0) tunnelNodes s of
           (None, s1) \<Rightarrow> (Some EGenerate, failReload e s ''config_generation_failed'' s1)
         | (Some d, s1) \<Rightarrow> reloadGenerated e s tunnelNodes d (s1\<lparr>spAssembly := d\<rparr>)))"

section \<open>Queries\<close>

definition GetRuntimeStatus :: "SingBoxProcess \<Rightarrow> SingBoxRuntimeStatus" where
  "GetRuntimeStatus s =
     (let (status, reason) =
        (if spStatus s = [] then
           (if spPortMap s = [] then (SingBoxStatusNoTunnelNodes, SingBoxStatusNoTunnelNodes)
            else if spRunning s then (SingBoxStatusRunning, SingBoxStatusRunning)
            else (SingBoxStatusStopped, SingBoxStatusStopped))
         else (spStatus s, spReason s)) in
      \<lparr>rsRunning = spRunning s, rsStatus = status, rsReason = reason, rsNodes = int (length (spPortMap s)),
       rsReadyPorts = spReadyPorts s, rsTotalPorts = int (length (spPortMap s))\<rparr>)"

definition GetLocalAddress :: "SingBoxProcess \<Rightarrow> string \<Rightarrow> string" where
  "GetLocalAddress s nodeKey =
     (case map_of (spPortMap s) nodeKey of Some port \<Rightarrow> JoinHostPort ''127.0.0.1'' (fmtInt port) | None \<Rightarrow> [])"

definition GetNodeCount :: "SingBoxProcess \<Rightarrow> int" where
  "GetNodeCount s = int (length (spPortMap s))"

section \<open>Ports are unique and stable\<close>

definition portsOK :: "int \<Rightarrow> int \<Rightarrow> port_map \<Rightarrow> bool" where
  "portsOK lo hi m \<longleftrightarrow>
     distinct (map fst m) \<and>
     (\<forall>k k' p. map_of m k = Some p \<and> map_of m k' = Some p \<longrightarrow> k = k') \<and>
     (\<forall>k p. map_of m k = Some p \<longrightarrow> lo \<le> p \<and> p < hi)"

lemma portsOK_Nil [simp]: "portsOK lo hi []"
  by (simp add: portsOK_def)

definition oldPorts :: "port_map \<Rightarrow> string set \<Rightarrow> int set" where
  "oldPorts old K = {p. \<exists>k\<in>K. map_of old k = Some p}"

text \<open>The loop so far: \<open>K\<close> are the keys of all nodes of the reload.\<close>

definition loopOK :: "int \<Rightarrow> int \<Rightarrow> port_map \<Rightarrow> string set \<Rightarrow> int list \<Rightarrow> port_map \<Rightarrow> bool" where
  "loopOK lo hi old K used m \<longleftrightarrow>
     portsOK lo hi m \<and> oldPorts old K \<subseteq> set used \<and>
     (\<forall>k p. map_of m k = Some p \<longrightarrow> k \<in> K \<and> p \<in> set used \<and>
        (case map_of old k of Some q \<Rightarrow> p = q | None \<Rightarrow> p \<notin> oldPorts old K))"

lemma alloc_old:
  assumes "loopOK lo hi old K used m" "portsOK lo hi old" "k \<in> K" "map_of old k = Some p"
  shows "loopOK lo hi old K used (AList.update k p m)"
proof -
  have p: "lo \<le> p" "p < hi" "p \<in> oldPorts old K" "p \<in> set used"
    using assms by (auto simp: portsOK_def loopOK_def oldPorts_def)
  have other: "k' = k" if m: "map_of m k' = Some p" for k'
  proof (cases "map_of old k'")
    case None
    with m assms(1) p(3) show ?thesis by (force simp: loopOK_def)
  next
    case (Some q)
    with m assms(1) have "q = p" by (force simp: loopOK_def)
    with Some assms(2,4) show ?thesis unfolding portsOK_def by blast
  qed
  have "portsOK lo hi (AList.update k p m)"
    using assms(1) other p(1,2)
    unfolding loopOK_def portsOK_def
    by (auto simp: distinct_update update_conv' split: if_splits)
  moreover have "\<forall>k' p'. map_of (AList.update k p m) k' = Some p' \<longrightarrow> k' \<in> K \<and> p' \<in> set used \<and>
        (case map_of old k' of Some q \<Rightarrow> p' = q | None \<Rightarrow> p' \<notin> oldPorts old K)"
    using assms p(4) unfolding loopOK_def by (auto simp: update_conv' split: if_splits)
  ultimately show ?thesis using assms(1) by (simp add: loopOK_def)
qed

lemma alloc_new:
  assumes "loopOK lo hi old K used m" "k \<in> K" "map_of old k = None" "p \<notin> set used" "lo \<le> p" "p < hi"
  shows "loopOK lo hi old K (p # used) (AList.update k p m)"
proof -
  have fresh: "map_of m k' \<noteq> Some p" for k' using assms(1,4) by (auto simp: loopOK_def)
  have "portsOK lo hi (AList.update k p m)"
    using assms(1,5,6) fresh unfolding loopOK_def portsOK_def
    by (auto simp: distinct_update update_conv' split: if_splits)
  moreover have "\<forall>k' p'. map_of (AList.update k p m) k' = Some p' \<longrightarrow> k' \<in> K \<and> p' \<in> set (p # used) \<and>
        (case map_of old k' of Some q \<Rightarrow> p' = q | None \<Rightarrow> p' \<notin> oldPorts old K)"
    using assms unfolding loopOK_def by (auto simp: update_conv' split: if_splits)
  ultimately show ?thesis using assms(1) by (auto simp: loopOK_def)
qed

lemma allocPort_cases:
  assumes "allocPort lo hi old used k = (p, used1)" "p \<noteq> 0"
  obtains "map_of old k = Some p" "used1 = used"
    | "map_of old k = None" "used1 = p # used" "p \<notin> set used" "lo \<le> p" "p < hi"
  using assms by (auto simp: allocPort_def find_Some_iff split: option.splits)

lemma allocPort_zero: "allocPort lo hi old used k = (0, used1) \<Longrightarrow> 0 < lo \<Longrightarrow> portsOK lo hi old \<Longrightarrow> used1 = used"
  by (auto simp: allocPort_def portsOK_def find_Some_iff split: option.splits)

lemma assembleLoop_ports:
  assumes "portsOK lo hi old" "0 < lo" "NodeKey ` set ns \<subseteq> K" "loopOK lo hi old K used (asPorts a)"
  shows "\<exists>used'. loopOK lo hi old K used' (asPorts (assembleLoop lo hi old i ns used a))"
  using assms(3,4)
proof (induction ns arbitrary: i used a)
  case (Cons n ns)
  obtain p used1 where al: "allocPort lo hi old used (NodeKey n) = (p, used1)" by fastforce
  show ?case
  proof (cases "buildOutbound n (''node-'' @ natDigits i)")
    case (Inl err)
    with Cons show ?thesis by (simp add: Let_def)
  next
    case (Inr out)
    show ?thesis
    proof (cases "p = 0")
      case True
      then have "used1 = used" using allocPort_zero al assms(1,2) by blast
      with Cons Inr al True show ?thesis by (simp add: Let_def)
    next
      case False
      have "loopOK lo hi old K used1 (AList.update (NodeKey n) p (asPorts a))"
        using Cons.prems al False
        by (cases rule: allocPort_cases [OF al False]) (auto intro: alloc_old [OF _ assms(1)] alloc_new)
      with Cons Inr al False show ?thesis by (simp add: Let_def)
    qed
  qed
qed auto

definition seen :: "assemblyDiagnostics \<Rightarrow> ParsedNode set" where
  "seen d = set (adAccepted d) \<union> fst ` set (adRejected d) \<union> set (adSegmentFull d)"

lemma assembleLoop_seen:
  "seen (asDiagnostics (assembleLoop lo hi old i ns used a)) = seen (asDiagnostics a) \<union> set ns"
  by (induction ns arbitrary: i used a) (auto simp: Let_def seen_def split: sum.split prod.split)

lemma assembleLoop_accepted:
  assumes "fst ` set (asPorts a) = NodeKey ` set (adAccepted (asDiagnostics a))"
  shows "fst ` set (asPorts (assembleLoop lo hi old i ns used a)) =
    NodeKey ` set (adAccepted (asDiagnostics (assembleLoop lo hi old i ns used a)))"
  using assms
  by (induction ns arbitrary: i used a) (auto simp: Let_def dom_update split: sum.split prod.split)

lemma assembled_ports:
  fixes s :: SingBoxProcess and nodes :: "ParsedNode list"
  assumes "portsOK (spBasePort s + 1) (spBasePort s + portRangeSpan) (spPortMap s)" "0 \<le> spBasePort s"
  defines "a \<equiv> assembleConfigWithDiagnostics s nodes"
  shows "portsOK (spBasePort s + 1) (spBasePort s + portRangeSpan) (asPorts a)"
    and "map_of (asPorts a) k = Some p \<Longrightarrow> map_of (spPortMap s) k = Some q \<Longrightarrow> p = q"
    and "fst ` set (asPorts a) = NodeKey ` set (adAccepted (asDiagnostics a))"
    and "seen (asDiagnostics a) = set nodes"
proof -
  let ?lo = "spBasePort s + 1" and ?hi = "spBasePort s + portRangeSpan" and ?K = "NodeKey ` set nodes"
  have "oldPorts (spPortMap s) ?K \<subseteq> set (usedPorts (spPortMap s) nodes)"
    by (force simp: oldPorts_def usedPorts_def dest: map_of_SomeD)
  then have start: "loopOK ?lo ?hi (spPortMap s) ?K (usedPorts (spPortMap s) nodes) (asPorts noAssembly)"
    by (simp add: loopOK_def noAssembly_def)
  obtain used' where l: "loopOK ?lo ?hi (spPortMap s) ?K used' (asPorts a)"
    using assembleLoop_ports [OF assms(1) _ _ start, of "sort_key NodeKey nodes" 0] assms(2)
    by (auto simp: a_def assembleConfigWithDiagnostics_def)
  then show "portsOK ?lo ?hi (asPorts a)" by (simp add: loopOK_def)
  show "map_of (asPorts a) k = Some p \<Longrightarrow> map_of (spPortMap s) k = Some q \<Longrightarrow> p = q"
    using l by (force simp: loopOK_def)
  show "fst ` set (asPorts a) = NodeKey ` set (adAccepted (asDiagnostics a))"
    unfolding a_def assembleConfigWithDiagnostics_def
    by (rule assembleLoop_accepted) (simp add: noAssembly_def noDiagnostics_def)
  show "seen (asDiagnostics a) = set nodes"
    by (simp add: a_def assembleConfigWithDiagnostics_def assembleLoop_seen)
      (simp add: seen_def noAssembly_def noDiagnostics_def)
qed

text \<open>What starting and stopping leave alone.\<close>

definition configOf :: "SingBoxProcess \<Rightarrow> string \<times> int \<times> bool \<times> port_map \<times> ParsedNode list \<times> assemblyDiagnostics \<times> config_file" where
  "configOf s = (spBinPath s, spBasePort s, spInitErr s, spPortMap s, spNodes s, spAssembly s, spFile s)"

lemma configOf_eq:
  "configOf s = configOf t \<longleftrightarrow>
     spBinPath s = spBinPath t \<and> spBasePort s = spBasePort t \<and> spInitErr s = spInitErr t \<and>
     spPortMap s = spPortMap t \<and> spNodes s = spNodes t \<and> spAssembly s = spAssembly t \<and> spFile s = spFile t"
  by (auto simp: configOf_def)

lemma configOf_setStatusLocked [simp]: "configOf (setStatusLocked st r k s) = configOf s"
  by (simp add: configOf_def setStatusLocked_def)

lemma configOf_child [simp]: "configOf (s\<lparr>spRunning := b, spCmd := c, spSpawned := k\<rparr>) = configOf s"
  "configOf (s\<lparr>spRunning := b, spCmd := c\<rparr>) = configOf s"
  "configOf (s\<lparr>spRunning := b\<rparr>) = configOf s" "configOf (s\<lparr>spCmd := c\<rparr>) = configOf s"
  by (simp_all add: configOf_def)

lemma configOf_stopLocked [simp]: "configOf (stopLocked s) = configOf s"
  by (simp add: stopLocked_def Let_def)

lemma configOf_childExited [simp]: "configOf (childExited c s) = configOf s"
  by (simp add: childExited_def Let_def)

lemma configOf_startLocked: "startLocked e s = (r, s1) \<Longrightarrow> configOf s1 = configOf s"
  by (auto simp: startLocked_def Let_def simp del: waitReady.simps split: if_splits check_result.splits option.splits)

definition processOK :: "SingBoxProcess \<Rightarrow> bool" where
  "processOK s \<longleftrightarrow> 0 \<le> spBasePort s \<and> portsOK (spBasePort s + 1) (spBasePort s + portRangeSpan) (spPortMap s)"

definition portsAgree :: "port_map \<Rightarrow> port_map \<Rightarrow> bool" where
  "portsAgree m m' \<longleftrightarrow> (\<forall>k p q. map_of m k = Some p \<and> map_of m' k = Some q \<longrightarrow> p = q)"

lemma portsAgree_refl [simp]: "portsAgree m m" "portsAgree m []"
  by (auto simp: portsAgree_def)

lemma portsAgree_trans:
  assumes "portsAgree m m1" "portsAgree m1 m2" "fst ` set m2 \<subseteq> fst ` set m1"
  shows "portsAgree m m2"
  unfolding portsAgree_def
proof (intro allI impI, elim conjE)
  fix k p q assume m: "map_of m k = Some p" and m2: "map_of m2 k = Some q"
  from m2 assms(3) have "k \<in> fst ` set m1" by (force dest: map_of_SomeD)
  then obtain r where "map_of m1 k = Some r" by (metis domD dom_map_of_conv_image_fst)
  with m m2 assms(1,2) show "p = q" unfolding portsAgree_def by metis
qed

lemma generateConfig_spec:
  assumes "generateConfig w nodes s = (r, s1)" "processOK s"
  shows "processOK s1 \<and> spBasePort s1 = spBasePort s \<and> portsAgree (spPortMap s) (spPortMap s1) \<and>
    spBinPath s1 = spBinPath s \<and> spInitErr s1 = spInitErr s \<and> fst ` set (spPortMap s1) \<subseteq> NodeKey ` set nodes"
    and "r = Some d \<Longrightarrow> fst ` set (spPortMap s1) = NodeKey ` set (adAccepted d)"
    and "r = Some d \<Longrightarrow> seen d = set nodes"
    and "r = Some d \<Longrightarrow> spFile s1 = Stored (renderConfig (asEntries (assembleConfigWithDiagnostics s nodes)))"
proof -
  let ?a = "assembleConfigWithDiagnostics s nodes"
  have ok: "portsOK (spBasePort s + 1) (spBasePort s + portRangeSpan) (spPortMap s)" "0 \<le> spBasePort s"
    using assms(2) by (simp_all add: processOK_def)
  note a = assembled_ports [OF ok, of nodes]
  have s1: "spPortMap s1 = asPorts ?a" "spBasePort s1 = spBasePort s" "spBinPath s1 = spBinPath s"
    "spInitErr s1 = spInitErr s"
    and r: "r = Some d \<Longrightarrow> d = asDiagnostics ?a" for d
    using assms(1) by (auto simp: generateConfig_def Let_def split: prod.splits if_splits)
  have "NodeKey ` set (adAccepted (asDiagnostics ?a)) \<subseteq> NodeKey ` set nodes"
    using a(4) by (auto simp: seen_def)
  moreover have agree: "portsAgree (spPortMap s) (asPorts ?a)"
    unfolding portsAgree_def using a(2) by blast
  ultimately show "processOK s1 \<and> spBasePort s1 = spBasePort s \<and> portsAgree (spPortMap s) (spPortMap s1) \<and>
    spBinPath s1 = spBinPath s \<and> spInitErr s1 = spInitErr s \<and> fst ` set (spPortMap s1) \<subseteq> NodeKey ` set nodes"
    using s1 a(1,3) ok(2) agree by (simp add: processOK_def)
  show "r = Some d \<Longrightarrow> fst ` set (spPortMap s1) = NodeKey ` set (adAccepted d)" using r a(3) s1(1) by simp
  show "r = Some d \<Longrightarrow> seen d = set nodes" using r a(4) by simp
  show "r = Some d \<Longrightarrow> spFile s1 = Stored (renderConfig (asEntries ?a))"
    using assms(1) by (auto simp: generateConfig_def Let_def writePrivateSingBoxConfig_def split: prod.splits if_splits write_result.splits)
qed

section \<open>Pruning\<close>

lemma prune_subset: "set (pruneInvalidNodes check nodes) \<subseteq> set nodes"
proof (induction check nodes rule: pruneInvalidNodes.induct)
  case (1 check nodes)
  then show ?case
    by (subst pruneInvalidNodes.simps) (auto dest: in_set_takeD in_set_dropD)
qed

text \<open>When a list passes exactly if each of its nodes does, bisection keeps exactly the nodes that pass.\<close>

lemma prune_exact:
  assumes "\<And>ns. check ns \<longleftrightarrow> list_all valid ns"
  shows "pruneInvalidNodes check nodes = filter valid nodes"
  using assms
proof (induction check nodes rule: pruneInvalidNodes.induct)
  case (1 check nodes)
  show ?case
  proof (cases "check nodes")
    case True
    then show ?thesis using 1(3) by (subst pruneInvalidNodes.simps) (simp add: list_all_iff)
  next
    case False
    show ?thesis
    proof (cases "length nodes \<le> 1")
      case True
      then obtain n where "nodes = [n]" using False 1(3) by (cases nodes) auto
      then show ?thesis using False 1(3) by (subst pruneInvalidNodes.simps) auto
    next
      case long: False
      have "pruneInvalidNodes check nodes =
          filter valid (take (length nodes div 2) nodes) @ filter valid (drop (length nodes div 2) nodes)"
        using False long 1(1) [OF False long 1(3)] 1(2) [OF False long 1(3)]
        by (subst pruneInvalidNodes.simps) (simp del: take_drop)
      then show ?thesis by (metis append_take_drop_id filter_append)
    qed
  qed
qed

section \<open>Reload, branch by branch\<close>

lemma buildable_any_tag: "isl (buildOutbound n tag) = isl (buildOutbound n tag')"
  by (simp only: buildOutbound_isl)

text \<open>Nodes that can be built and have a port are all accepted again.\<close>

lemma assembleLoop_again:
  assumes "\<forall>n\<in>set ns. \<not> isl (buildOutbound n tag) \<and> (\<exists>p. map_of old (NodeKey n) = Some p \<and> p \<noteq> 0)"
  shows "asDiagnostics (assembleLoop lo hi old i ns used a) =
    (asDiagnostics a)\<lparr>adAccepted := adAccepted (asDiagnostics a) @ ns\<rparr>"
  using assms
proof (induction ns arbitrary: i a)
  case (Cons n ns)
  then obtain p where p: "map_of old (NodeKey n) = Some p" "p \<noteq> 0" by auto
  have "\<not> isl (buildOutbound n (''node-'' @ natDigits i))"
    using Cons.prems by (subst buildable_any_tag [of _ _ tag]) simp
  then obtain out where "buildOutbound n (''node-'' @ natDigits i) = Inr out"
    by (cases "buildOutbound n (''node-'' @ natDigits i)") simp_all
  with Cons p show ?case by (simp add: allocPort_def Let_def)
qed simp

lemma assembleLoop_buildable:
  assumes "list_all (\<lambda>n. \<not> isl (buildOutbound n tag)) (adAccepted (asDiagnostics a))"
  shows "list_all (\<lambda>n. \<not> isl (buildOutbound n tag)) (adAccepted (asDiagnostics (assembleLoop lo hi old i ns used a)))"
  using assms
proof (induction ns arbitrary: i used a)
  case (Cons n ns)
  obtain p used1 where al: "allocPort lo hi old used (NodeKey n) = (p, used1)" by fastforce
  show ?case
  proof (cases "buildOutbound n (''node-'' @ natDigits i)")
    case (Inl e)
    then show ?thesis using Cons by (simp add: Let_def)
  next
    case (Inr out)
    then have "\<not> isl (buildOutbound n tag)" by (subst buildable_any_tag [of _ _ "''node-'' @ natDigits i"]) simp
    with Inr al Cons show ?thesis by (simp add: Let_def)
  qed
qed simp

text \<open>The state just before the child is restarted.\<close>

definition prepared :: "SingBoxProcess \<Rightarrow> ParsedNode list \<Rightarrow> ParsedNode list \<Rightarrow> SingBoxProcess \<Rightarrow> bool" where
  "prepared old tunnelNodes good s \<longleftrightarrow>
     processOK s \<and> spBasePort s = spBasePort old \<and> portsAgree (spPortMap old) (spPortMap s) \<and>
     fst ` set (spPortMap s) = NodeKey ` set good \<and> good \<noteq> [] \<and> set good \<subseteq> set tunnelNodes \<and>
     (\<forall>n\<in>set tunnelNodes. NodeKey n \<in> NodeKey ` set good \<or> NodeKey n \<in> set (rejectedKeys (spAssembly s))) \<and>
     adSegmentFull (spAssembly s) = []"

definition generatedOK :: "SingBoxProcess \<Rightarrow> ParsedNode list \<Rightarrow> assemblyDiagnostics \<Rightarrow> SingBoxProcess \<Rightarrow> bool" where
  "generatedOK old tunnelNodes d s \<longleftrightarrow>
     processOK s \<and> spBasePort s = spBasePort old \<and> portsAgree (spPortMap old) (spPortMap s) \<and>
     fst ` set (spPortMap s) = NodeKey ` set (adAccepted d) \<and> seen d = set tunnelNodes \<and> spAssembly s = d \<and>
     (\<forall>n\<in>set (adAccepted d). \<not> isl (buildOutbound n []))"

lemma generatedOK_generate:
  assumes "generateConfig w nodes s = (Some d, s1)" "processOK s"
  shows "generatedOK s nodes d (s1\<lparr>spAssembly := d\<rparr>)"
proof -
  have "d = asDiagnostics (assembleConfigWithDiagnostics s nodes)"
    using assms(1) by (auto simp: generateConfig_def Let_def split: prod.splits if_splits)
  then have "\<forall>n\<in>set (adAccepted d). \<not> isl (buildOutbound n [])"
    using assembleLoop_buildable [of "[]" noAssembly]
    by (simp add: assembleConfigWithDiagnostics_def noAssembly_def noDiagnostics_def list_all_iff)
  with generateConfig_spec [OF assms] show ?thesis by (auto simp: generatedOK_def processOK_def)
qed

lemma rebuilt_accepts:
  assumes "generatedOK old tunnelNodes d s" "set good \<subseteq> set (adAccepted d)"
  shows "asDiagnostics (assembleConfigWithDiagnostics s good) = noDiagnostics\<lparr>adAccepted := sort_key NodeKey good\<rparr>"
proof -
  have "\<exists>p. map_of (spPortMap s) (NodeKey n) = Some p \<and> p \<noteq> 0" if "n \<in> set good" for n
  proof -
    from that assms have "NodeKey n \<in> fst ` set (spPortMap s)" by (auto simp: generatedOK_def)
    then obtain p where p: "map_of (spPortMap s) (NodeKey n) = Some p" by (metis domD dom_map_of_conv_image_fst)
    with assms(1) have "spBasePort s + 1 \<le> p" "0 \<le> spBasePort s" by (auto simp: generatedOK_def processOK_def portsOK_def)
    with p show ?thesis by auto
  qed
  then have "\<forall>n\<in>set (sort_key NodeKey good). \<not> isl (buildOutbound n []) \<and>
      (\<exists>p. map_of (spPortMap s) (NodeKey n) = Some p \<and> p \<noteq> 0)"
    using assms by (auto simp: generatedOK_def)
  from assembleLoop_again [OF this] show ?thesis
    by (simp add: assembleConfigWithDiagnostics_def noAssembly_def noDiagnostics_def)
qed

lemma generated_node:
  assumes "generatedOK old tunnelNodes d s" "adSegmentFull d = []" "n \<in> set tunnelNodes"
  obtains "n \<in> set (adAccepted d)" | r where "(n, r) \<in> set (adRejected d)"
proof -
  have "n \<in> set (adAccepted d) \<union> fst ` set (adRejected d)"
    using assms by (simp add: generatedOK_def seen_def)
  with that show ?thesis by force
qed

lemma rebuildPruned_ok:
  assumes "generatedOK old tunnelNodes d s" "good \<noteq> []" "set good \<subseteq> set (adAccepted d)" "adSegmentFull d = []"
    "length good = length (adAccepted d) \<longrightarrow> good = adAccepted d" "rebuildPruned e d good s = (None, s1)"
  shows "prepared old tunnelNodes good s1"
proof (cases "length good = length (adAccepted d)")
  case True
  with assms have s1: "s1 = s" "good = adAccepted d" by (simp_all add: rebuildPruned_def)
  have "NodeKey n \<in> NodeKey ` set good \<or> NodeKey n \<in> set (rejectedKeys d)" if "n \<in> set tunnelNodes" for n
  proof -
    from assms(1,4) that show ?thesis by (cases rule: generated_node) (force simp: s1(2) rejectedKeys_def)+
  qed
  moreover have "set (adAccepted d) \<subseteq> set tunnelNodes" using assms(1) by (auto simp: generatedOK_def seen_def)
  ultimately show ?thesis using assms(1,2,4) by (simp add: prepared_def generatedOK_def s1)
next
  case False
  obtain d1 s2 where g: "generateConfig (reWrite e 1) good s = (Some d1, s2)"
    using assms(6) False by (auto simp: rebuildPruned_def split: prod.splits option.splits)
  then have d1: "d1 = noDiagnostics\<lparr>adAccepted := sort_key NodeKey good\<rparr>"
    using rebuilt_accepts [OF assms(1,3)] by (auto simp: generateConfig_def Let_def split: prod.splits if_splits)
  have s1: "s1 = s2\<lparr>spAssembly := d1\<lparr>adRejected := adRejected d @ adRejected d1 @ prunedAsRejected (adAccepted d) good\<rparr>\<rparr>"
    using assms(6) False g by (auto simp: rebuildPruned_def Let_def split: option.splits)
  have ok: "processOK s" using assms(1) by (simp add: generatedOK_def)
  note gs = generateConfig_spec(1,2) [OF g ok]
  have keys: "fst ` set (spPortMap s2) = NodeKey ` set good" using gs(2) d1 by simp
  moreover have "portsAgree (spPortMap old) (spPortMap s2)"
    by (rule portsAgree_trans [of _ "spPortMap s"]) (use assms(1,3) gs(1) keys in \<open>auto simp: generatedOK_def\<close>)
  moreover have "\<forall>n\<in>set tunnelNodes. NodeKey n \<in> NodeKey ` set good \<or> NodeKey n \<in> set (rejectedKeys (spAssembly s1))"
  proof
    fix n assume "n \<in> set tunnelNodes"
    with assms(1,4) show "NodeKey n \<in> NodeKey ` set good \<or> NodeKey n \<in> set (rejectedKeys (spAssembly s1))"
      by (cases rule: generated_node) (force simp: s1 rejectedKeys_def prunedAsRejected_def)+
  qed
  ultimately show ?thesis
    using assms(1,2,3) gs(1) by (auto simp: prepared_def s1 d1 noDiagnostics_def generatedOK_def processOK_def seen_def)
qed

lemma prune_same_length:
  "length (pruneInvalidNodes check nodes) \<le> length nodes \<and>
   (length (pruneInvalidNodes check nodes) = length nodes \<longrightarrow> pruneInvalidNodes check nodes = nodes)"
proof (induction check nodes rule: pruneInvalidNodes.induct)
  case (1 check nodes)
  show ?case
  proof (cases "check nodes \<or> length nodes \<le> 1")
    case True
    then show ?thesis by (subst (1 2 3) pruneInvalidNodes.simps) auto
  next
    case False
    let ?m = "length nodes div 2"
    let ?l = "pruneInvalidNodes check (take ?m nodes)" and ?r = "pruneInvalidNodes check (drop ?m nodes)"
    have p: "pruneInvalidNodes check nodes = ?l @ ?r" using False by (subst pruneInvalidNodes.simps) simp
    have ih: "length ?l \<le> ?m" "length ?l = ?m \<longrightarrow> ?l = take ?m nodes"
      "length ?r \<le> length nodes - ?m" "length ?r = length nodes - ?m \<longrightarrow> ?r = drop ?m nodes"
      using 1 False by auto
    have "?l @ ?r = nodes" if "length (?l @ ?r) = length nodes"
    proof -
      have "length ?l + length ?r = length nodes" "?m \<le> length nodes" using that by simp_all
      then have "length ?l = ?m" "length ?r = length nodes - ?m" using ih(1,3) by linarith+
      then show ?thesis using ih(2,4) by simp
    qed
    with p ih(1,3) show ?thesis by auto
  qed
qed

lemma countReady_le: "countReadyPortsLocked e i pm \<le> int (length pm)"
  by (simp add: countReadyPortsLocked_def)

lemma countReady_all: "countReadyPortsLocked e i pm = int (length pm) \<longleftrightarrow> (\<forall>(k, p)\<in>set pm. seAnswers e i p)"
proof -
  have "length (filter (\<lambda>(k, p). seAnswers e i p) pm) = length pm \<longleftrightarrow> (\<forall>x\<in>set pm. case x of (k, p) \<Rightarrow> seAnswers e i p)"
    by (metis (no_types, lifting) filter_True length_filter_less less_irrefl)
  then show ?thesis by (simp add: countReadyPortsLocked_def)
qed

lemma waitReady_all:
  "waitReady e pm k i ready = Some r \<Longrightarrow> int (length pm) \<le> r \<Longrightarrow> ready < int (length pm) \<Longrightarrow> pm \<noteq> [] \<Longrightarrow>
   r = int (length pm) \<and> (\<exists>j. \<forall>(k, p)\<in>set pm. seAnswers e j p)"
proof (induction k arbitrary: i ready)
  case (Suc k)
  show ?case
  proof (cases "countReadyPortsLocked e i pm = int (length pm)")
    case True
    moreover from this Suc.prems have "r = int (length pm)" by (auto simp: Let_def split: if_splits)
    ultimately show ?thesis using countReady_all [of e i pm] by blast
  next
    case False
    with countReady_le [of e i pm] have "countReadyPortsLocked e i pm < int (length pm)" by simp
    moreover have "waitReady e pm k (Suc i) (countReadyPortsLocked e i pm) = Some r"
      using Suc.prems(1) False by (auto simp: Let_def split: if_splits)
    ultimately show ?thesis using Suc.IH Suc.prems(2,4) by blast
  qed
qed simp

definition allAnswer :: "StartEnv \<Rightarrow> port_map \<Rightarrow> bool" where
  "allAnswer e pm \<longleftrightarrow> (\<exists>j. \<forall>(k, p)\<in>set pm. seAnswers e j p)"

lemma startLocked_cases:
  assumes "startLocked e s = (r, s1)"
  obtains "r = None" "spStatus s1 = SingBoxStatusRunning" "spReason s1 = SingBoxStatusRunning" "spRunning s1"
      "spReadyPorts s1 = int (length (spPortMap s1))" "allAnswer e (spPortMap s1)" "spCmd s1 \<noteq> None"
  | err where "r = Some err" "spStatus s1 = SingBoxStatusFailed"
  | a b where "r = Some (StartNotReady a b)" "a < b" "spStatus s1 = SingBoxStatusPartial" "spRunning s1"
proof -
  consider "r \<noteq> None" "spStatus s1 = SingBoxStatusFailed"
    | k where "waitReady e (spPortMap s) 20 0 0 = Some k" "spPortMap s \<noteq> []" "spPortMap s1 = spPortMap s"
        "r = (if k < int (length (spPortMap s)) then Some (StartNotReady k (int (length (spPortMap s)))) else None)"
        "spStatus s1 = (if k < int (length (spPortMap s)) then SingBoxStatusPartial else SingBoxStatusRunning)"
        "spReason s1 = (if k < int (length (spPortMap s)) then ''ports_not_ready'' else SingBoxStatusRunning)"
        "spReadyPorts s1 = k" "spRunning s1" "spCmd s1 \<noteq> None"
    using assms
    by (auto simp: startLocked_def Let_def setStatusLocked_def simp del: waitReady.simps
        split: if_splits check_result.splits option.splits)
  then show ?thesis
  proof cases
    case 1
    then show ?thesis using that(2) by blast
  next
    case (2 k)
    show ?thesis
    proof (cases "k < int (length (spPortMap s))")
      case True
      with 2 show ?thesis using that(3) by simp
    next
      case False
      with 2 waitReady_all [OF 2(1)] have "k = int (length (spPortMap s))" "allAnswer e (spPortMap s)"
        by (auto simp: allAnswer_def)
      with 2 False show ?thesis using that(1) by simp
    qed
  qed
qed

text \<open>The four ways a reload can end.\<close>

definition restored :: "ReloadEnv \<Rightarrow> SingBoxProcess \<Rightarrow> SingBoxProcess \<Rightarrow> bool" where
  "restored e old s \<longleftrightarrow>
     spPortMap s = spPortMap old \<and> spNodes s = spNodes old \<and> spAssembly s = spAssembly old \<and>
     spBasePort s = spBasePort old \<and> spStatus s = SingBoxStatusFailed \<and> spReadyPorts s = 0 \<and>
     (reReadable e \<and> reWrite e 2 = Written \<and> spFile old \<noteq> NoFile \<longrightarrow> spFile s = spFile old)"

lemma restored_failReload: "spBasePort s = spBasePort old \<Longrightarrow> restored e old (failReload e old reason s)"
  by (simp add: restored_def failReload_def restoreState_def setStatusLocked_def writePrivateSingBoxConfig_def)

definition tunnels :: "ParsedNode list \<Rightarrow> ParsedNode list" where
  "tunnels nodes = filter (\<lambda>n. \<not> IsDirect n) nodes"

definition started :: "ReloadEnv \<Rightarrow> ParsedNode list \<Rightarrow> SingBoxProcess \<Rightarrow> SingBoxProcess \<Rightarrow> bool" where
  "started e good s1 s \<longleftrightarrow>
     spPortMap s = spPortMap s1 \<and> spBasePort s = spBasePort s1 \<and> spNodes s = good \<and>
     spAssembly s = (spAssembly s1)\<lparr>adAccepted := good\<rparr> \<and> spStatus s = SingBoxStatusRunning \<and>
     spReason s = SingBoxStatusRunning \<and> spRunning s \<and> spReadyPorts s = int (length (spPortMap s1)) \<and>
     allAnswer (reStart e) (spPortMap s1)"

definition halfStarted :: "ParsedNode list \<Rightarrow> SingBoxProcess \<Rightarrow> SingBoxProcess \<Rightarrow> bool" where
  "halfStarted good s1 s \<longleftrightarrow>
     spPortMap s = spPortMap s1 \<and> spBasePort s = spBasePort s1 \<and> spNodes s = good \<and>
     spStatus s = SingBoxStatusPartial \<and> spRunning s"

lemma restartWith_cases:
  assumes "restartWith e old good s = (r, s')" "spBasePort s = spBasePort old"
  obtains "r \<noteq> None" "restored e old s'" | "r \<noteq> None" "halfStarted good s s'" | "r = None" "started e good s s'"
proof -
  obtain r1 s1 where st: "startLocked (reStart e) (stopLocked s) = (r1, s1)" by fastforce
  then have c: "configOf s1 = configOf s" using configOf_startLocked by fastforce
  from st show ?thesis
  proof (cases rule: startLocked_cases)
    case 1
    with assms(1) st c show ?thesis using that(3) by (auto simp: restartWith_def started_def configOf_eq)
  next
    case (2 err)
    with assms(1) st have "r \<noteq> None" "\<exists>reason. s' = failReload e old reason s1"
      by (auto simp: restartWith_def status_names)
    with c assms(2) show ?thesis using that(1) by (auto simp: configOf_eq intro!: restored_failReload)
  next
    case (3 a b)
    with assms(1) st c show ?thesis using that(2) by (auto simp: restartWith_def halfStarted_def configOf_eq)
  qed
qed

lemma rebuildPruned_error:
  assumes "rebuildPruned e d good s = (Some (err, reason), s1)"
  shows "spBasePort s1 = spBasePort s"
  using assms
  by (auto simp: rebuildPruned_def generateConfig_def Let_def split: if_splits prod.splits option.splits)

lemma reloadGenerated_cases:
  assumes "reloadGenerated e old T d s = (r, s')" "generatedOK old T d s"
  obtains "restored e old s'" "adSegmentFull d \<noteq> [] \<or> r \<noteq> None"
    | good s1 where "prepared old T good s1" "r \<noteq> None" "halfStarted good s1 s'"
    | good s1 where "prepared old T good s1" "r = None" "started e good s1 s'"
proof -
  have base: "spBasePort s = spBasePort old" using assms(2) by (simp add: generatedOK_def)
  let ?good = "pruneInvalidNodes (checkNodes e s) (adAccepted d)"
  consider "\<exists>reason. s' = failReload e old reason s" "adSegmentFull d \<noteq> [] \<or> r \<noteq> None"
    | "adSegmentFull d = []" "?good \<noteq> []"
      "(r, s') = (case rebuildPruned e d ?good s of
         (Some (err, reason), s1) \<Rightarrow> (Some err, failReload e old reason s1)
       | (None, s1) \<Rightarrow> restartWith e old ?good s1)"
    using assms(1) by (auto simp: reloadGenerated_def Let_def split: if_splits option.splits)
  then show ?thesis
  proof cases
    case 1
    then show ?thesis using that(1) restored_failReload [OF base] by blast
  next
    case 2
    obtain o1 s1 where rb: "rebuildPruned e d ?good s = (o1, s1)" by fastforce
    show ?thesis
    proof (cases o1)
      case (Some x)
      obtain err reason where x: "x = (err, reason)" by fastforce
      with 2(3) rb Some have "r = Some err" "s' = failReload e old reason s1" by simp_all
      moreover have "spBasePort s1 = spBasePort old" using rebuildPruned_error rb Some x base by simp
      ultimately show ?thesis using that(1) restored_failReload by blast
    next
      case None
      have "length ?good = length (adAccepted d) \<longrightarrow> ?good = adAccepted d" using prune_same_length by blast
      then have prep: "prepared old T ?good s1"
        using rebuildPruned_ok [OF assms(2) 2(2) prune_subset 2(1)] rb None by blast
      have rs: "restartWith e old ?good s1 = (r, s')" using 2(3) rb None by simp
      have "spBasePort s1 = spBasePort old" using prep by (simp add: prepared_def)
      from rs this show ?thesis by (cases rule: restartWith_cases) (use that prep in blast)+
    qed
  qed
qed

text \<open>Where the segment was full, some node has no port in the old map either, so an error is returned.\<close>

lemma segmentFull_unmapped:
  assumes "n \<in> set (adSegmentFull (asDiagnostics (assembleLoop lo hi old i ns used a)))"
    "portsOK lo hi old" "0 < lo" "\<forall>n\<in>set (adSegmentFull (asDiagnostics a)). map_of old (NodeKey n) = None"
  shows "map_of old (NodeKey n) = None"
proof -
  have "list_all (\<lambda>n. map_of old (NodeKey n) = None) (adSegmentFull (asDiagnostics (assembleLoop lo hi old i ns used a)))"
    if "list_all (\<lambda>n. map_of old (NodeKey n) = None) (adSegmentFull (asDiagnostics a))" for a
    using that
  proof (induction ns arbitrary: i used a)
    case (Cons n ns)
    obtain p used1 where al: "allocPort lo hi old used (NodeKey n) = (p, used1)" by fastforce
    have "p = 0 \<Longrightarrow> map_of old (NodeKey n) = None"
      using al assms(2,3) by (fastforce simp: allocPort_def portsOK_def split: option.splits)
    with Cons al show ?case
      by (cases "buildOutbound n (''node-'' @ natDigits i)"; cases "p = 0") (simp_all add: Let_def)
  qed simp
  with assms(1,4) show ?thesis by (simp add: list_all_iff)
qed

lemma missing_error:
  assumes "n \<in> set nodes" "\<not> hasPort pm n"
  shows "incompletePortAllocationErrorWithDiagnostics nodes pm d \<noteq> None"
  using assms by (auto simp: incompletePortAllocationErrorWithDiagnostics_def Let_def filter_empty_conv)

lemma segmentFull_reported:
  assumes "generateConfig w T s = (Some d, s1)" "processOK s" "adSegmentFull d \<noteq> []"
    "reloadGenerated e s T d s2 = (r, s')"
  shows "r \<noteq> None"
proof (cases "adAccepted d = []")
  case False
  have d: "d = asDiagnostics (assembleConfigWithDiagnostics s T)"
    using assms(1) by (auto simp: generateConfig_def Let_def split: prod.splits if_splits)
  obtain n where n: "n \<in> set (adSegmentFull d)" using assms(3) by (cases "adSegmentFull d") auto
  then have "map_of (spPortMap s) (NodeKey n) = None"
    using segmentFull_unmapped [of n] assms(2)
    unfolding d assembleConfigWithDiagnostics_def noAssembly_def noDiagnostics_def processOK_def by simp
  moreover have "n \<in> set T"
    using n generateConfig_spec(3) [OF assms(1,2)] by (auto simp: seen_def)
  ultimately have "incompletePortAllocationErrorWithDiagnostics T (spPortMap s) d \<noteq> None"
    by (intro missing_error) (simp_all add: hasPort_def)
  with assms(3,4) False show ?thesis by (auto simp: reloadGenerated_def)
qed (use assms(4) in \<open>auto simp: reloadGenerated_def\<close>)

lemma Reload_cases:
  assumes "Reload e nodes s = (r, s')" "processOK s"
  obtains (cleared) "tunnels nodes = []" "r = None" "spPortMap s' = []" "spNodes s' = []" "spRunning s' = False"
      "spStatus s' = SingBoxStatusNoTunnelNodes" "spReadyPorts s' = 0" "spBasePort s' = spBasePort s"
      "spAssembly s' = noDiagnostics"
    | (failed) "tunnels nodes \<noteq> []" "r \<noteq> None" "restored e s s'"
    | (partial) good s1 where "tunnels nodes \<noteq> []" "prepared s (tunnels nodes) good s1" "r \<noteq> None" "halfStarted good s1 s'"
    | (loaded) good s1 where "tunnels nodes \<noteq> []" "prepared s (tunnels nodes) good s1" "r = None" "started e good s1 s'"
proof (cases "tunnels nodes = []")
  case True
  have "spBasePort (stopLocked s) = spBasePort s" using configOf_stopLocked [of s] unfolding configOf_eq by blast
  with True assms(1) show ?thesis using that(1)
    by (auto simp: Reload_def tunnels_def [symmetric] setStatusLocked_def)
next
  case False
  obtain g s1 where gen: "generateConfig (reWrite e 0) (tunnels nodes) s = (g, s1)" by fastforce
  consider "spInitErr s" | "\<not> spInitErr s" "g = None" | d where "\<not> spInitErr s" "g = Some d" by auto
  then show ?thesis
  proof cases
    case 1
    with False assms(1) have "r \<noteq> None" "restored e s s'"
      by (auto simp: Reload_def tunnels_def [symmetric] setStatusLocked_def restored_def)
    with False show ?thesis using that(2) by blast
  next
    case 2
    with False assms(1) gen have "r \<noteq> None" "\<exists>reason. s' = failReload e s reason s1"
      by (auto simp: Reload_def tunnels_def [symmetric])
    moreover have "spBasePort s1 = spBasePort s" using generateConfig_spec(1) [OF gen assms(2)] by simp
    ultimately show ?thesis using that(2) False restored_failReload by blast
  next
    case (3 d)
    with gen have gen: "generateConfig (reWrite e 0) (tunnels nodes) s = (Some d, s1)" by simp
    have rg: "reloadGenerated e s (tunnels nodes) d (s1\<lparr>spAssembly := d\<rparr>) = (r, s')"
      using False assms(1) gen 3 by (simp add: Reload_def tunnels_def [symmetric])
    from rg generatedOK_generate [OF gen assms(2)] show ?thesis
    proof (cases rule: reloadGenerated_cases)
      case 1
      then have "r \<noteq> None" using segmentFull_reported [OF gen assms(2) _ rg] by blast
      with 1(1) False show ?thesis using that(2) by blast
    qed (use False that(3,4) in blast)+
  qed
qed

section \<open>Reachable states\<close>

inductive processReachable :: "SingBoxProcess \<Rightarrow> bool" where
  new: "0 \<le> basePort \<Longrightarrow> processReachable (NewSingBoxProcess dir file binPath basePort)"
| reload: "processReachable s \<Longrightarrow> processReachable (snd (Reload e nodes s))"
| stop: "processReachable s \<Longrightarrow> processReachable (stopLocked s)"
| exited: "processReachable s \<Longrightarrow> processReachable (childExited c s)"

lemma processOK_config: "configOf s = configOf t \<Longrightarrow> processOK s = processOK t"
  by (simp add: configOf_eq processOK_def)

lemma processOK_reload:
  assumes "processOK s"
  shows "processOK (snd (Reload e nodes s))" "spBasePort (snd (Reload e nodes s)) = spBasePort s"
    "portsAgree (spPortMap s) (spPortMap (snd (Reload e nodes s)))"
proof -
  obtain r s' where r: "Reload e nodes s = (r, s')" by fastforce
  from r assms have "processOK s' \<and> spBasePort s' = spBasePort s \<and> portsAgree (spPortMap s) (spPortMap s')"
    by (cases rule: Reload_cases)
      (use assms in \<open>auto simp: processOK_def restored_def prepared_def halfStarted_def started_def\<close>)
  with r show "processOK (snd (Reload e nodes s))" "spBasePort (snd (Reload e nodes s)) = spBasePort s"
    "portsAgree (spPortMap s) (spPortMap (snd (Reload e nodes s)))" by simp_all
qed

lemma processReachable_OK: "processReachable s \<Longrightarrow> processOK s"
proof (induction rule: processReachable.induct)
  case (new basePort dir f binPath)
  then show ?case by (simp add: processOK_def NewSingBoxProcess_def Let_def split: dir_result.split)
next
  case (stop s)
  then show ?case using processOK_config [OF configOf_stopLocked] by blast
next
  case (exited s c)
  then show ?case using processOK_config [OF configOf_childExited] by blast
qed (rule processOK_reload)


definition sampleStartEnv :: StartEnv where
  "sampleStartEnv = \<lparr>seBinFound = True, seCheck = CheckPassed, seStartError = None, seExited = (\<lambda>i. False),
     seAnswers = (\<lambda>i p. True)\<rparr>"

definition sampleReloadEnv :: ReloadEnv where
  "sampleReloadEnv = \<lparr>reReadable = True, reWrite = (\<lambda>i. Written), reBinFound = True, reTemp = (\<lambda>ns. True),
     reCheck = (\<lambda>c. True), reStart = sampleStartEnv\<rparr>"

definition sampleTunnel :: "string \<Rightarrow> ParsedNode" where
  "sampleTunnel t = \<lparr>nName = [], nType = t, nServer = ''h'', nPort = 443, nRaw = [], nUsername = [], nPassword = []\<rparr>"

definition sampleProcess :: SingBoxProcess where
  "sampleProcess = NewSingBoxProcess DirReady NoFile ''sing-box'' 20000"

lemma sample_reachable: "processReachable sampleProcess"
  unfolding sampleProcess_def by (rule processReachable.new) simp

definition sampleLoaded :: SingBoxProcess where
  "sampleLoaded = snd (Reload sampleReloadEnv [sampleTunnel ''trojan''] sampleProcess)"

lemma sample_loads:
  "fst (Reload sampleReloadEnv [sampleTunnel ''trojan''] sampleProcess) = None"
  "spPortMap sampleLoaded = [(NodeKey (sampleTunnel ''trojan''), 20001)]"
  "spStatus sampleLoaded = SingBoxStatusRunning" "spReason sampleLoaded = SingBoxStatusRunning"
  "spReadyPorts sampleLoaded = 1" "adRejected (spAssembly sampleLoaded) = []"
proof -
  let ?n = "sampleTunnel ''trojan''"
  obtain out where out: "buildOutbound ?n (''node-'' @ natDigits 0) = Inr out"
    using buildOutbound_isl [of ?n "''node-'' @ natDigits 0"]
    by (cases "buildOutbound ?n (''node-'' @ natDigits 0)")
      (simp_all add: sampleTunnel_def transportKnown_def getStrDefault_def getStr_def)
  have port: "find (\<lambda>p. True) [20001..24999] = Some (20001::int)" by (simp add: upto_rec1)
  have d: "\<not> IsDirect ?n" by (simp add: sampleTunnel_def IsDirect_def)
  define a where "a = assembleConfigWithDiagnostics sampleProcess [?n]"
  have a: "asPorts a = [(NodeKey ?n, 20001)]" "asDiagnostics a = noDiagnostics\<lparr>adAccepted := [?n]\<rparr>"
    using out port by (simp_all add: a_def assembleConfigWithDiagnostics_def sampleProcess_def NewSingBoxProcess_def
      usedPorts_def allocPort_def noAssembly_def noDiagnostics_def Let_def portRangeSpan_def)
  define s1 where "s1 = sampleProcess\<lparr>spPortMap := [(NodeKey ?n, 20001)],
    spFile := Stored (renderConfig (asEntries a)), spAssembly := asDiagnostics a\<rparr>"
  have up: "generateConfig Written [?n] sampleProcess = (Some (asDiagnostics a),
      sampleProcess\<lparr>spPortMap := [(NodeKey ?n, 20001)], spFile := Stored (renderConfig (asEntries a))\<rparr>)"
    by (simp add: generateConfig_def a_def [symmetric] a(1) writePrivateSingBoxConfig_def)
  have nocmd: "spCmd s1 = None" "spPortMap s1 = [(NodeKey ?n, 20001)]" "spInitErr sampleProcess = False"
    by (simp_all add: s1_def sampleProcess_def NewSingBoxProcess_def)
  have good: "pruneInvalidNodes (checkNodes sampleReloadEnv s1) [?n] = [?n]"
    by (subst pruneInvalidNodes.simps) (simp add: checkNodes_def sampleReloadEnv_def)
  have w: "waitReady sampleStartEnv [(NodeKey ?n, 20001)] 20 0 0 = Some 1"
    by (simp add: eval_nat_numeral countReadyPortsLocked_def sampleStartEnv_def)
  have start: "startLocked sampleStartEnv s1 = (None, setStatusLocked SingBoxStatusRunning SingBoxStatusRunning 1
      (s1\<lparr>spRunning := True, spCmd := Some (spSpawned s1), spSpawned := Suc (spSpawned s1)\<rparr>))"
    using w nocmd(2) by (simp add: startLocked_def Let_def) (simp add: sampleStartEnv_def)
  have "Reload sampleReloadEnv [?n] sampleProcess =
      reloadGenerated sampleReloadEnv sampleProcess [?n] (asDiagnostics a) s1"
    using up d nocmd(3) by (simp add: Reload_def sampleReloadEnv_def s1_def)
  also have "\<dots> = restartWith sampleReloadEnv sampleProcess [?n] s1"
    using good nocmd(2) by (simp add: reloadGenerated_def rebuildPruned_def a(2) noDiagnostics_def hasPort_def
      incompletePortAllocationErrorWithDiagnostics_def) (simp add: sampleReloadEnv_def)
  finally have r: "Reload sampleReloadEnv [?n] sampleProcess = restartWith sampleReloadEnv sampleProcess [?n] s1" .
  obtain s2 where s2: "restartWith sampleReloadEnv sampleProcess [?n] s1 = (None, s2)"
    "spPortMap s2 = [(NodeKey ?n, 20001)]" "spStatus s2 = SingBoxStatusRunning" "spReason s2 = SingBoxStatusRunning"
    "spReadyPorts s2 = 1" "adRejected (spAssembly s2) = []"
    using start nocmd by (simp add: restartWith_def stopLocked_def setStatusLocked_def sampleReloadEnv_def)
      (simp add: s1_def a(2) noDiagnostics_def)
  then have l: "sampleLoaded = s2" by (simp add: sampleLoaded_def r)
  show "fst (Reload sampleReloadEnv [?n] sampleProcess) = None" by (simp add: r s2)
  show "spPortMap sampleLoaded = [(NodeKey ?n, 20001)]" "spStatus sampleLoaded = SingBoxStatusRunning"
    "spReason sampleLoaded = SingBoxStatusRunning" "spReadyPorts sampleLoaded = 1"
    "adRejected (spAssembly sampleLoaded) = []"
    by (simp_all add: l s2)
qed

text \<open>
  The reason a check timeout is first recorded with does not survive the reload: no word of its message is
  one the classification looks for.
\<close>

lemma check_timeout_reason_lost:
  "spReason (snd (startLocked (sampleStartEnv\<lparr>seCheck := CheckTimedOut\<rparr>) s)) = ''config_check_timeout''"
  "classifySingBoxStartError (startErrorText binPath StartCheckTimeout) = ''start_failed''"
proof -
  show "spReason (snd (startLocked (sampleStartEnv\<lparr>seCheck := CheckTimedOut\<rparr>) s)) = ''config_check_timeout''"
    by (simp add: startLocked_def sampleStartEnv_def setStatusLocked_def)
  have "classifySingBoxStartError (startErrorText [] StartCheckTimeout) = ''start_failed''" by code_simp
  then show "classifySingBoxStartError (startErrorText binPath StartCheckTimeout) = ''start_failed''" by simp
qed

text \<open>
  Stability does not survive a detour: a port is only remembered while its node is loaded. If a reload drops
  a node and a second one brings it back, as a rollback does, the node gets the first free port again, which
  need not be the one it had.
\<close>

lemma lone_node_port:
  assumes "\<not> isl (buildOutbound n tag)" "map_of (spPortMap s) (NodeKey n) = None" "0 \<le> spBasePort s"
  shows "asPorts (assembleConfigWithDiagnostics s [n]) = [(NodeKey n, spBasePort s + 1)]"
proof -
  obtain out where out: "buildOutbound n (''node-'' @ natDigits 0) = Inr out"
    using assms(1) buildable_any_tag [of n "''node-'' @ natDigits 0" tag]
    by (cases "buildOutbound n (''node-'' @ natDigits 0)") simp_all
  have used: "usedPorts (spPortMap s) [n] = []"
    using assms(2) by (force simp: usedPorts_def filter_empty_conv map_of_eq_None_iff)
  have port: "find (\<lambda>p. True) [spBasePort s + 1..spBasePort s + portRangeSpan - 1] = Some (spBasePort s + 1)"
    by (simp add: upto_rec1 portRangeSpan_def)
  have al: "allocPort (spBasePort s + 1) (spBasePort s + portRangeSpan) (spPortMap s) [] (NodeKey n) =
      (spBasePort s + 1, [spBasePort s + 1])"
    using assms(2) port by (simp add: allocPort_def)
  show ?thesis
    using out assms(3) by (simp add: assembleConfigWithDiagnostics_def used al noAssembly_def Let_def)
qed

lemma rollback_can_move_port:
  assumes "\<not> isl (buildOutbound a tag)" "\<not> isl (buildOutbound b tag)" "NodeKey a \<noteq> NodeKey b" "0 \<le> spBasePort s"
    "spPortMap s = [(NodeKey a, spBasePort s + 2)]"
  defines "s1 \<equiv> s\<lparr>spPortMap := asPorts (assembleConfigWithDiagnostics s [b])\<rparr>"
  shows "map_of (asPorts (assembleConfigWithDiagnostics s1 [a])) (NodeKey a) = Some (spBasePort s + 1)"
proof -
  have "asPorts (assembleConfigWithDiagnostics s [b]) = [(NodeKey b, spBasePort s + 1)]"
    using lone_node_port [OF assms(2) _ assms(4)] assms(3,5) by simp
  then show ?thesis using lone_node_port [OF assms(1), of s1] assms(3,4) by (simp add: s1_def)
qed

text \<open>
  Local ports are unique, confined and stable. In every state a process can reach, no two nodes share a
  port, every port lies in the segment the process owns, and whatever a reload does, succeed, fail half-way
  or fail altogether, a node that has a port before and after it has the same port.
\<close>

theorem local_ports_stable:
  assumes "processReachable s" "map_of (spPortMap s) k = Some p"
  shows "spBasePort s < p \<and> p < spBasePort s + portRangeSpan \<and>
    (\<forall>k'. map_of (spPortMap s) k' = Some p \<longrightarrow> k' = k) \<and>
    (\<forall>q. map_of (spPortMap (snd (Reload e nodes s))) k = Some q \<longrightarrow> q = p)"
proof -
  have ok: "processOK s" using assms(1) by (rule processReachable_OK)
  then have "spBasePort s + 1 \<le> p" "p < spBasePort s + portRangeSpan"
    "\<forall>k'. map_of (spPortMap s) k' = Some p \<longrightarrow> k' = k"
    using assms(2) unfolding processOK_def portsOK_def by blast+
  moreover have "\<forall>q. map_of (spPortMap (snd (Reload e nodes s))) k = Some q \<longrightarrow> q = p"
    using processOK_reload(3) [OF ok, of e nodes] assms(2) unfolding portsAgree_def by metis
  ultimately show ?thesis by auto
qed

theorem local_ports_stable_witness:
  "map_of (spPortMap sampleLoaded) (NodeKey (sampleTunnel ''trojan'')) = Some 20001 \<and>
   20001 < spBasePort sampleLoaded + portRangeSpan"
proof -
  have m: "map_of (spPortMap sampleLoaded) (NodeKey (sampleTunnel ''trojan'')) = Some 20001"
    by (simp add: sample_loads(2))
  have "processReachable sampleLoaded"
    unfolding sampleLoaded_def by (rule processReachable.reload [OF sample_reachable])
  from local_ports_stable [OF this m] m show ?thesis by blast
qed

text \<open>
  A reload either takes full effect or leaves the old configuration in place. When it reports success
  with tunnel nodes to run, the child runs, every port in the map answered a connection, the ports are those
  of the loaded nodes, and every requested node has a port or is recorded as rejected. When it reports an
  error, either the ports, nodes and diagnostics (and the file, if it could be read and written back) are the
  old ones and the status is failed, or the new child is running with the ports of the loaded nodes and the
  status is partial.
\<close>

theorem reload_complete_or_restored:
  assumes "processReachable s" "Reload e nodes s = (r, s')" "tunnels nodes \<noteq> []"
  shows "(case r of
      None \<Rightarrow>
        spRunning s' \<and> spStatus s' = SingBoxStatusRunning \<and> spReadyPorts s' = int (length (spPortMap s')) \<and>
        allAnswer (reStart e) (spPortMap s') \<and> fst ` set (spPortMap s') = NodeKey ` set (spNodes s') \<and>
        set (spNodes s') \<subseteq> set (tunnels nodes) \<and> spNodes s' \<noteq> [] \<and>
        (\<forall>n\<in>set (tunnels nodes). hasPort (spPortMap s') n \<or> NodeKey n \<in> set (rejectedKeys (spAssembly s')))
    | Some err \<Rightarrow>
        restored e s s' \<or>
        spStatus s' = SingBoxStatusPartial \<and> spRunning s' \<and> fst ` set (spPortMap s') = NodeKey ` set (spNodes s'))"
proof -
  have port: "hasPort pm n \<longleftrightarrow> NodeKey n \<in> fst ` set pm" for pm n
    by (simp add: hasPort_def map_of_eq_None_iff)
  from assms(2) processReachable_OK [OF assms(1)] show ?thesis
  proof (cases rule: Reload_cases)
    case (loaded good s1)
    moreover from this have "rejectedKeys (spAssembly s') = rejectedKeys (spAssembly s1)"
      by (simp add: started_def rejectedKeys_def)
    ultimately show ?thesis by (simp add: started_def prepared_def port)
  next
    case (partial good s1)
    then show ?thesis by (auto simp: halfStarted_def prepared_def)
  qed (use assms(3) in auto)
qed

theorem reload_complete_or_restored_witness:
  "spRunning sampleLoaded \<and> allAnswer sampleStartEnv (spPortMap sampleLoaded)"
proof -
  have r: "Reload sampleReloadEnv [sampleTunnel ''trojan''] sampleProcess = (None, sampleLoaded)"
    using sample_loads(1) unfolding sampleLoaded_def by (metis prod.collapse)
  have t: "tunnels [sampleTunnel ''trojan''] \<noteq> []" by (simp add: tunnels_def sampleTunnel_def IsDirect_def)
  have e: "reStart sampleReloadEnv = sampleStartEnv" by (simp add: sampleReloadEnv_def)
  from reload_complete_or_restored [OF sample_reachable r t] show ?thesis unfolding e by simp
qed

end
