(* ===== verification/Shards.thy ===== *)
theory Shards
  imports SingBox Selector
begin

text \<open>
  The shards of \<open>custom/sharded_singbox.go\<close>: nodes are spread over several sing-box processes by a fixed
  hash of their key, a reload touches only the shards whose nodes changed or that are not healthy, and a
  failure rolls the touched shards back.

  The operations of a shard are an interface in the code; here they are the record \<open>singBoxShard\<close>, and the
  laws a shard keeps are the locale \<open>shard_laws\<close>, interpreted on the process of \<open>SingBox\<close>. A call is given
  the events around it: which children were seen to exit before and after it, and the environment of the
  reload itself. Exits of children outside such a call are steps of their own.
\<close>

unbundle bit_operations_syntax

section \<open>The interface of a shard\<close>

record ('s, 'e) singBoxShard =
  opReload :: "'e \<Rightarrow> ParsedNode list \<Rightarrow> 's \<Rightarrow> reload_error option \<times> 's"
  opStop :: "'s \<Rightarrow> 's"
  opPortMap :: "'s \<Rightarrow> port_map"
  opNodes :: "'s \<Rightarrow> ParsedNode list"
  opRuntimeStatus :: "'s \<Rightarrow> SingBoxRuntimeStatus"
  opLocalAddress :: "'s \<Rightarrow> string \<Rightarrow> string"
  opDiagnostics :: "('s \<Rightarrow> assemblyDiagnostics) option"

type_synonym key_set = "string set"

record 's ShardedSingBox =
  sbShards :: "'s list"
  sbAssigned :: "key_set list"
  sbAssembly :: assemblyDiagnostics
  sbStopping :: bool

definition newShardedSingBoxWithFactory :: "int \<Rightarrow> int \<Rightarrow> (int \<Rightarrow> int \<Rightarrow> 's) \<Rightarrow> 's ShardedSingBox" where
  "newShardedSingBoxWithFactory basePort shardCount factory =
     (let n = (if shardCount < 1 then 1 else shardCount) in
      \<lparr>sbShards = map (\<lambda>i. factory i (basePort + i * portRangeSpan)) [0..n - 1],
       sbAssigned = map (\<lambda>i. {}) [0..n - 1], sbAssembly = noDiagnostics, sbStopping = False\<rparr>)"

text \<open>\<open>hash/fnv\<close>, the 64-bit FNV-1a.\<close>

definition fnvSum64a :: "string \<Rightarrow> u64" where
  "fnvSum64a s = foldl (\<lambda>h c. (h XOR word_of_nat (byte c)) * 1099511628211) 14695981039346656037 s"

definition shardIndexForKey :: "string \<Rightarrow> nat \<Rightarrow> nat" where
  "shardIndexForKey key shardCount = (if shardCount = 0 then 0 else unat (fnvSum64a key) mod shardCount)"

section \<open>Helpers\<close>

definition rejectedNodesOnly :: "(ParsedNode \<times> reject) list \<Rightarrow> ParsedNode list" where
  "rejectedNodesOnly rejected = map fst rejected"

definition nodeKeySet :: "ParsedNode list \<Rightarrow> key_set" where
  "nodeKeySet nodes = set (map NodeKey nodes)"

definition keySetsEqual :: "key_set \<Rightarrow> key_set \<Rightarrow> bool" where
  "keySetsEqual a b \<longleftrightarrow> card a = card b \<and> (\<forall>k\<in>a. k \<in> b)"

definition sortNodesByKey :: "ParsedNode list \<Rightarrow> ParsedNode list" where
  "sortNodesByKey nodes = sort_key NodeKey nodes"

definition diagnosticsOf :: "('s, 'e) singBoxShard \<Rightarrow> 's \<Rightarrow> assemblyDiagnostics" where
  "diagnosticsOf ops s = (case opDiagnostics ops of Some get \<Rightarrow> get s | None \<Rightarrow> noDiagnostics)"

text \<open>Diagnostics are concatenated shard by shard.\<close>

definition mergeShard :: "('s, 'e) singBoxShard \<Rightarrow> assemblyDiagnostics \<Rightarrow> 's \<Rightarrow> assemblyDiagnostics" where
  "mergeShard ops d s =
     (case opDiagnostics ops of
        None \<Rightarrow> d\<lparr>adAccepted := adAccepted d @ opNodes ops s\<rparr>
      | Some get \<Rightarrow>
          d\<lparr>adAccepted := adAccepted d @ adAccepted (get s), adRejected := adRejected d @ adRejected (get s),
            adSegmentFull := adSegmentFull d @ adSegmentFull (get s)\<rparr>)"

definition mergeAssemblyDiagnostics ::
    "('s, 'e) singBoxShard \<Rightarrow> (ParsedNode \<times> reject) list \<Rightarrow> 's list \<Rightarrow> assemblyDiagnostics" where
  "mergeAssemblyDiagnostics ops preRejected shards =
     foldl (mergeShard ops) (noDiagnostics\<lparr>adRejected := preRejected\<rparr>) shards"

datatype commit_error =
    CommitMissing "incomplete option"
  | CommitAllRejected "incomplete option"
  | CommitPartial SingBoxRuntimeStatus
  | CommitNotReady int int

definition shardReloadCommitError ::
    "('s, 'e) singBoxShard \<Rightarrow> ParsedNode list \<Rightarrow> 's \<Rightarrow> commit_error + ParsedNode list" where
  "shardReloadCommitError ops target s =
     (if target = [] then Inr []
      else
        (let portMap = opPortMap ops s;
             d = diagnosticsOf ops s;
             notRejected = filter (\<lambda>n. NodeKey n \<notin> set (rejectedKeys d)) target;
             accepted = filter (hasPort portMap) notRejected;
             missing = filter (\<lambda>n. \<not> hasPort portMap n) notRejected;
             rs = opRuntimeStatus ops s in
         if missing \<noteq> [] then Inl (CommitMissing (incompletePortAllocationErrorWithDiagnostics missing portMap d))
         else if accepted = [] then
           Inl (CommitAllRejected (incompletePortAllocationErrorWithDiagnostics target portMap d))
         else if rsStatus rs = SingBoxStatusPartial \<or> rsReason rs = ''ports_not_ready'' then Inl (CommitPartial rs)
         else if rsTotalPorts rs > 0 \<and> rsReadyPorts rs \<noteq> rsTotalPorts rs then
           Inl (CommitNotReady (rsReadyPorts rs) (rsTotalPorts rs))
         else Inr accepted))"

definition shardNeedsReloadForRuntime :: "('s, 'e) singBoxShard \<Rightarrow> ParsedNode list \<Rightarrow> 's \<Rightarrow> bool" where
  "shardNeedsReloadForRuntime ops target s =
     (if target = [] then False
      else
        (let rs = opRuntimeStatus ops s in
         if rsStatus rs = SingBoxStatusFailed \<or> rsStatus rs = SingBoxStatusStopped \<or>
            rsStatus rs = SingBoxStatusPartial then True
         else if rsReason rs = ''ports_not_ready'' then True
         else if rsTotalPorts rs > 0 \<and> rsReadyPorts rs \<noteq> rsTotalPorts rs then True
         else isl (shardReloadCommitError ops target s)))"

section \<open>Reloading the shards\<close>

datatype shard_error =
    ShardClear nat reload_error
  | ShardReload nat reload_error
  | ShardCommit nat commit_error
  | RollbackClear nat reload_error
  | RollbackReload nat reload_error
  | RollbackCommit nat commit_error

datatype sharded_error =
    AlreadyStopped
  | AllRejectedError "incomplete option"
  | ShardErrors "shard_error list"

definition prefilter :: "ParsedNode list \<Rightarrow> ParsedNode list \<times> (ParsedNode \<times> reject) list" where
  "prefilter nodes =
     (let candidates = filter (\<lambda>n. \<not> IsDirect n) nodes in
      (filter (\<lambda>n. \<not> isl (buildOutbound n ''prefilter'')) candidates,
       concat (map (\<lambda>n. case buildOutbound n ''prefilter'' of Inl e \<Rightarrow> [(n, BuildRejected e)] | Inr out \<Rightarrow> [])
         candidates)))"

text \<open>One shard of the clearing loop, and one of the reload loop: the error, the shard and its key set.\<close>

definition clearShard ::
    "('s, 'e) singBoxShard \<Rightarrow> 'e \<Rightarrow> nat \<Rightarrow> 's \<Rightarrow> key_set \<Rightarrow> shard_error list \<times> 's \<times> key_set" where
  "clearShard ops e i s keys =
     (case opReload ops e [] (opStop ops s) of
        (Some err, s1) \<Rightarrow> ([ShardClear i err], s1, keys)
      | (None, s1) \<Rightarrow> ([], s1, {}))"

definition targetFor :: "nat \<Rightarrow> ParsedNode list \<Rightarrow> nat \<Rightarrow> ParsedNode list" where
  "targetFor shardCount nodes i =
     sortNodesByKey (filter (\<lambda>n. shardIndexForKey (NodeKey n) shardCount = i) nodes)"

definition shardSkipped :: "('s, 'e) singBoxShard \<Rightarrow> ParsedNode list \<Rightarrow> 's \<Rightarrow> key_set \<Rightarrow> bool" where
  "shardSkipped ops target s keys \<longleftrightarrow>
     keySetsEqual (nodeKeySet target) keys \<and> \<not> shardNeedsReloadForRuntime ops target s"

definition reloadShard ::
    "('s, 'e) singBoxShard \<Rightarrow> 'e \<Rightarrow> nat \<Rightarrow> ParsedNode list \<Rightarrow> 's \<Rightarrow> key_set \<Rightarrow> shard_error list \<times> 's \<times> key_set" where
  "reloadShard ops e i target s keys =
     (if shardSkipped ops target s keys then ([], s, keys)
      else
        (case opReload ops e target s of
           (Some err, s1) \<Rightarrow> ([ShardReload i err], s1, keys)
         | (None, s1) \<Rightarrow>
             (case shardReloadCommitError ops target s1 of
                Inl err \<Rightarrow> ([ShardCommit i err], s1, keys)
              | Inr accepted \<Rightarrow> ([], s1, nodeKeySet accepted))))"

definition rollbackShard ::
    "('s, 'e) singBoxShard \<Rightarrow> 'e \<Rightarrow> nat \<Rightarrow> ParsedNode list \<Rightarrow> 's \<Rightarrow> shard_error list \<times> 's" where
  "rollbackShard ops e i oldNodes s =
     (if oldNodes = [] then
        (case opReload ops e [] (opStop ops s) of
           (Some err, s1) \<Rightarrow> ([RollbackClear i err], s1)
         | (None, s1) \<Rightarrow> ([], s1))
      else
        (case opReload ops e oldNodes s of
           (Some err, s1) \<Rightarrow> ([RollbackReload i err], s1)
         | (None, s1) \<Rightarrow>
             (case shardReloadCommitError ops oldNodes s1 of
                Inl err \<Rightarrow> ([RollbackCommit i err], s1)
              | Inr accepted \<Rightarrow> ([], s1))))"

text \<open>The loops run over the shards in order; \<open>indexed\<close> gives each its number.\<close>

definition indexed :: "'a list \<Rightarrow> (nat \<times> 'a) list" where
  "indexed xs = zip [0..<length xs] xs"

definition eachShard ::
    "(nat \<Rightarrow> 's \<Rightarrow> key_set \<Rightarrow> shard_error list \<times> 's \<times> key_set) \<Rightarrow> 's ShardedSingBox \<Rightarrow>
     shard_error list \<times> 's ShardedSingBox" where
  "eachShard f sb =
     (let rs = map (\<lambda>(i, s, keys). f i s keys) (indexed (zip (sbShards sb) (sbAssigned sb))) in
      (concat (map fst rs), sb\<lparr>sbShards := map (fst \<circ> snd) rs, sbAssigned := map (snd \<circ> snd) rs\<rparr>))"

text \<open>
  A reload; \<open>env\<close> gives the environment of the first call on each shard and \<open>revert\<close> that of its rollback. The
  old node lists and key sets are read before any shard is changed.
\<close>

definition ShardedReload ::
    "('s, 'e) singBoxShard \<Rightarrow> (nat \<Rightarrow> 'e) \<Rightarrow> (nat \<Rightarrow> 'e) \<Rightarrow> ParsedNode list \<Rightarrow> 's ShardedSingBox \<Rightarrow>
     sharded_error option \<times> 's ShardedSingBox" where
  "ShardedReload ops env revert nodes sb =
     (if sbStopping sb then (Some AlreadyStopped, sb)
      else
        (case prefilter nodes of (tunnelNodes, preRejected) \<Rightarrow>
           if tunnelNodes = [] then
             if preRejected \<noteq> [] then
               (Some (AllRejectedError (incompletePortAllocationErrorWithDiagnostics (rejectedNodesOnly preRejected) []
                  (noDiagnostics\<lparr>adRejected := preRejected\<rparr>))), sb)
             else
               (case eachShard (\<lambda>i. clearShard ops (env i) i) sb of
                  (errs, sb1) \<Rightarrow>
                    if errs \<noteq> [] then (Some (ShardErrors errs), sb1)
                    else (None, sb1\<lparr>sbAssembly := noDiagnostics\<rparr>))
           else
             (let target = targetFor (length (sbShards sb)) tunnelNodes in
              case eachShard (\<lambda>i. reloadShard ops (env i) i (target i)) sb of
                (errs, sb1) \<Rightarrow>
                  if errs = [] then
                    (None, sb1\<lparr>sbAssembly := mergeAssemblyDiagnostics ops preRejected (sbShards sb1)\<rparr>)
                  else
                    (case eachShard (\<lambda>i s keys.
                         if shardSkipped ops (target i) (sbShards sb ! i) (sbAssigned sb ! i) then ([], s, keys)
                         else (case rollbackShard ops (revert i) i (opNodes ops (sbShards sb ! i)) s of
                           (rbErrs, s1) \<Rightarrow> (rbErrs, s1, sbAssigned sb ! i))) sb1 of
                       (rbErrs, sb2) \<Rightarrow> (Some (ShardErrors (errs @ rbErrs)), sb2)))))"

definition recoverShard ::
    "('s, 'e) singBoxShard \<Rightarrow> 'e \<Rightarrow> nat \<Rightarrow> 's \<Rightarrow> key_set \<Rightarrow> shard_error list \<times> 's \<times> key_set" where
  "recoverShard ops e i s keys =
     (if keys = {} \<or> \<not> shardNeedsReloadForRuntime ops (opNodes ops s) s then ([], s, keys)
      else
        (case opReload ops e (opNodes ops s) s of
           (Some err, s1) \<Rightarrow> ([ShardReload i err], s1, keys)
         | (None, s1) \<Rightarrow>
             (case shardReloadCommitError ops (opNodes ops s) s1 of
                Inl err \<Rightarrow> ([ShardCommit i err], s1, keys)
              | Inr accepted \<Rightarrow> ([], s1, nodeKeySet accepted))))"

definition recoverFailedShards ::
    "('s, 'e) singBoxShard \<Rightarrow> (nat \<Rightarrow> 'e) \<Rightarrow> 's ShardedSingBox \<Rightarrow> shard_error list \<times> 's ShardedSingBox" where
  "recoverFailedShards ops env sb =
     (if sbStopping sb then ([], sb) else eachShard (\<lambda>i. recoverShard ops (env i) i) sb)"

definition ShardedStop :: "('s, 'e) singBoxShard \<Rightarrow> 's ShardedSingBox \<Rightarrow> 's ShardedSingBox" where
  "ShardedStop ops sb =
     (if sbStopping sb then sb else sb\<lparr>sbStopping := True, sbShards := map (opStop ops) (sbShards sb)\<rparr>)"

section \<open>Queries\<close>

definition ShardedPortMap :: "('s, 'e) singBoxShard \<Rightarrow> 's ShardedSingBox \<Rightarrow> string \<rightharpoonup> int" where
  "ShardedPortMap ops sb = foldl (\<lambda>m s. m ++ map_of (opPortMap ops s)) Map.empty (sbShards sb)"

definition ShardedNodes :: "('s, 'e) singBoxShard \<Rightarrow> 's ShardedSingBox \<Rightarrow> ParsedNode list" where
  "ShardedNodes ops sb = concat (map (opNodes ops) (sbShards sb))"

definition ShardedNodeCount :: "('s, 'e) singBoxShard \<Rightarrow> 's ShardedSingBox \<Rightarrow> int" where
  "ShardedNodeCount ops sb = (\<Sum>s\<leftarrow>sbShards sb. int (length (opPortMap ops s)))"

definition ShardedLocalAddress :: "('s, 'e) singBoxShard \<Rightarrow> 's ShardedSingBox \<Rightarrow> string \<Rightarrow> string" where
  "ShardedLocalAddress ops sb key =
     opLocalAddress ops (sbShards sb ! shardIndexForKey key (length (sbShards sb))) key"

text \<open>The loop carries the reason seen so far.\<close>

fun failureReason :: "string \<Rightarrow> SingBoxRuntimeStatus list \<Rightarrow> string" where
  "failureReason reason [] = (if reason = [] then ''all_shards_failed'' else reason)"
| "failureReason reason (rs # rest) =
     (let candidate = TrimSpace (rsReason rs) in
      if rsStatus rs \<noteq> SingBoxStatusFailed then ''all_shards_failed''
      else if candidate = [] then ''all_shards_failed''
      else if reason = [] then failureReason candidate rest
      else if reason \<noteq> candidate then ''all_shards_failed''
      else failureReason reason rest)"

definition aggregateShardFailureReason :: "SingBoxRuntimeStatus list \<Rightarrow> string" where
  "aggregateShardFailureReason statuses = failureReason [] statuses"

definition considered :: "SingBoxRuntimeStatus \<Rightarrow> bool" where
  "considered rs \<longleftrightarrow> rsNodes rs > 0 \<or> rsStatus rs = SingBoxStatusFailed"

definition ShardedRuntimeStatus :: "('s, 'e) singBoxShard \<Rightarrow> 's ShardedSingBox \<Rightarrow> SingBoxRuntimeStatus" where
  "ShardedRuntimeStatus ops sb =
     (let statuses = map (opRuntimeStatus ops) (sbShards sb);
          cs = filter considered statuses;
          runningCount = length (filter (\<lambda>rs. rsRunning rs \<and> rsStatus rs = SingBoxStatusRunning) cs);
          summary = (\<lambda>running status reason.
            \<lparr>rsRunning = running, rsStatus = status, rsReason = reason, rsNodes = sum_list (map rsNodes statuses),
             rsReadyPorts = sum_list (map rsReadyPorts statuses), rsTotalPorts = sum_list (map rsTotalPorts statuses)\<rparr>) in
      if cs = [] then
        \<lparr>rsRunning = False, rsStatus = SingBoxStatusNoTunnelNodes, rsReason = ''no_tunnel_nodes'', rsNodes = 0,
         rsReadyPorts = 0, rsTotalPorts = 0\<rparr>
      else if runningCount = length cs then summary True SingBoxStatusRunning SingBoxStatusRunning
      else if runningCount = 0 then summary False SingBoxStatusFailed (aggregateShardFailureReason cs)
      else summary True SingBoxStatusPartial ''partial_shards'')"

section \<open>The process as a shard\<close>

record procEnv =
  peBefore :: "nat list"
  peReload :: ReloadEnv
  peAfter :: "nat list"

definition processReload :: "procEnv \<Rightarrow> ParsedNode list \<Rightarrow> SingBoxProcess \<Rightarrow> reload_error option \<times> SingBoxProcess" where
  "processReload e nodes s =
     (case Reload (peReload e) nodes (fold childExited (peBefore e) s) of
        (r, s1) \<Rightarrow> (r, fold childExited (peAfter e) s1))"

definition processShard :: "(SingBoxProcess, procEnv) singBoxShard" where
  "processShard = \<lparr>opReload = processReload, opStop = stopLocked, opPortMap = spPortMap, opNodes = spNodes,
     opRuntimeStatus = GetRuntimeStatus, opLocalAddress = GetLocalAddress, opDiagnostics = Some spAssembly\<rparr>"

definition NewShardedSingBox ::
    "(int \<Rightarrow> dir_result) \<Rightarrow> (int \<Rightarrow> config_file) \<Rightarrow> string \<Rightarrow> int \<Rightarrow> int \<Rightarrow> SingBoxProcess ShardedSingBox" where
  "NewShardedSingBox dirs files binPath basePort shardCount =
     newShardedSingBoxWithFactory basePort shardCount (\<lambda>i p. NewSingBoxProcess (dirs i) (files i) binPath p)"

section \<open>Loops over the shards\<close>

lemma shardIndex_lt: "n \<noteq> 0 \<Longrightarrow> shardIndexForKey k n < n"
  by (simp add: shardIndexForKey_def)

definition shaped :: "'s ShardedSingBox \<Rightarrow> bool" where
  "shaped sb \<longleftrightarrow> sbShards sb \<noteq> [] \<and> length (sbAssigned sb) = length (sbShards sb)"

lemma indexed_zip:
  "length ys = length xs \<Longrightarrow>
   map (\<lambda>(i, s, keys). f i s keys) (indexed (zip xs ys)) = map (\<lambda>i. f i (xs ! i) (ys ! i)) [0..<length xs]"
  by (rule nth_equalityI) (simp_all add: indexed_def)

lemma eachShard_shaped:
  "shaped sb \<Longrightarrow> eachShard f sb =
     (let rs = map (\<lambda>i. f i (sbShards sb ! i) (sbAssigned sb ! i)) [0..<length (sbShards sb)] in
      (concat (map fst rs), sb\<lparr>sbShards := map (fst \<circ> snd) rs, sbAssigned := map (snd \<circ> snd) rs\<rparr>))"
  by (simp add: shaped_def eachShard_def indexed_zip)

lemma eachShard_nth:
  assumes "shaped sb"
  shows "shaped (snd (eachShard f sb))" "length (sbShards (snd (eachShard f sb))) = length (sbShards sb)"
    "i < length (sbShards sb) \<Longrightarrow> sbShards (snd (eachShard f sb)) ! i = fst (snd (f i (sbShards sb ! i) (sbAssigned sb ! i)))"
    "i < length (sbShards sb) \<Longrightarrow> sbAssigned (snd (eachShard f sb)) ! i = snd (snd (f i (sbShards sb ! i) (sbAssigned sb ! i)))"
    "sbStopping (snd (eachShard f sb)) = sbStopping sb" "sbAssembly (snd (eachShard f sb)) = sbAssembly sb"
  unfolding eachShard_shaped [OF assms] using assms by (simp_all add: shaped_def Let_def)

lemma eachShard_errs:
  assumes "shaped sb"
  shows "fst (eachShard f sb) = [] \<longleftrightarrow> (\<forall>i<length (sbShards sb). fst (f i (sbShards sb ! i) (sbAssigned sb ! i)) = [])"
  unfolding eachShard_shaped [OF assms] by (auto simp: Let_def)

definition shardsAll :: "(nat \<Rightarrow> 's \<Rightarrow> bool) \<Rightarrow> 's ShardedSingBox \<Rightarrow> bool" where
  "shardsAll P sb \<longleftrightarrow> (\<forall>i<length (sbShards sb). P i (sbShards sb ! i))"

lemma eachShard_all:
  assumes "shaped sb" "shardsAll P sb"
    "\<And>i s keys. i < length (sbShards sb) \<Longrightarrow> P i s \<Longrightarrow> P i (fst (snd (f i s keys)))"
  shows "shardsAll P (snd (eachShard f sb))"
  using assms by (simp add: shardsAll_def eachShard_nth)

lemma merged_map:
  assumes "j < length ss" "\<And>i. i < length ss \<Longrightarrow> i \<noteq> j \<Longrightarrow> map_of (f (ss ! i)) k = None"
  shows "foldl (\<lambda>m s. m ++ map_of (f s)) Map.empty ss k = map_of (f (ss ! j)) k"
  using assms
proof (induction ss rule: rev_induct)
  case (snoc s ss)
  have none: "foldl (\<lambda>m s. m ++ map_of (f s)) Map.empty ss k = None"
    if "\<And>i. i < length ss \<Longrightarrow> map_of (f (ss ! i)) k = None"
    using that
  proof (induction ss rule: rev_induct)
    case (snoc x xs)
    have "map_of (f (xs ! i)) k = None" if "i < length xs" for i
      using snoc.prems [of i] that by (simp add: nth_append)
    moreover have "map_of (f x) k = None" using snoc.prems [of "length xs"] by simp
    ultimately show ?case using snoc.IH by (simp add: map_add_def)
  qed simp
  show ?case
  proof (cases "j = length ss")
    case True
    have "foldl (\<lambda>m s. m ++ map_of (f s)) Map.empty ss k = None"
    proof (rule none)
      fix i assume "i < length ss"
      with snoc.prems(2) [of i] True show "map_of (f (ss ! i)) k = None" by (simp add: nth_append)
    qed
    with True show ?thesis by (simp add: map_add_def split: option.split)
  next
    case False
    then have j: "j < length ss" using snoc.prems(1) by simp
    have "foldl (\<lambda>m s. m ++ map_of (f s)) Map.empty ss k = map_of (f (ss ! j)) k"
    proof (rule snoc.IH [OF j])
      fix i assume "i < length ss" "i \<noteq> j"
      with snoc.prems(2) [of i] show "map_of (f (ss ! i)) k = None" by (simp add: nth_append)
    qed
    moreover have "map_of (f s) k = None" using snoc.prems(2) [of "length ss"] False by simp
    ultimately show ?thesis using j by (simp add: nth_append map_add_def)
  qed
qed simp

section \<open>The laws of a shard\<close>

text \<open>
  \<open>shardOK b\<close> is the invariant of a shard whose segment starts after port \<open>b\<close>. A reload leaves either ports
  and nodes that all belong to the requested ones, or the old ports and nodes; reloading nothing clears.
\<close>

locale shard_laws =
  fixes ops :: "('s, 'e) singBoxShard" and shardOK :: "int \<Rightarrow> 's \<Rightarrow> bool"
  assumes reload_OK: "shardOK b s \<Longrightarrow> shardOK b (snd (opReload ops e ns s))"
    and stop_OK: "shardOK b s \<Longrightarrow> shardOK b (opStop ops s)"
    and ports: "shardOK b s \<Longrightarrow> portsOK (b + 1) (b + portRangeSpan) (opPortMap ops s)"
    and reload_frame: "shardOK b s \<Longrightarrow> opReload ops e ns s = (r, s') \<Longrightarrow>
      fst ` set (opPortMap ops s') \<subseteq> NodeKey ` set ns \<and> set (opNodes ops s') \<subseteq> set ns \<or>
      opPortMap ops s' = opPortMap ops s \<and> opNodes ops s' = opNodes ops s"
    and reload_nothing: "fst (opReload ops e [] s) = None"
    and stop_frame: "opPortMap ops (opStop ops s) = opPortMap ops s" "opNodes ops (opStop ops s) = opNodes ops s"
    and address: "opLocalAddress ops s k =
      (case map_of (opPortMap ops s) k of Some p \<Rightarrow> JoinHostPort ''127.0.0.1'' (fmtInt p) | None \<Rightarrow> [])"
begin

text \<open>Everything in shard \<open>i\<close> of \<open>n\<close> hashes to \<open>i\<close>.\<close>

definition placed :: "nat \<Rightarrow> nat \<Rightarrow> 's \<Rightarrow> bool" where
  "placed n i s \<longleftrightarrow> (\<forall>k\<in>fst ` set (opPortMap ops s) \<union> NodeKey ` set (opNodes ops s). shardIndexForKey k n = i)"

definition shardGood :: "int \<Rightarrow> nat \<Rightarrow> nat \<Rightarrow> 's \<Rightarrow> bool" where
  "shardGood base n i s \<longleftrightarrow> shardOK (base + int i * portRangeSpan) s \<and> placed n i s"

definition shardedOK :: "int \<Rightarrow> 's ShardedSingBox \<Rightarrow> bool" where
  "shardedOK base sb \<longleftrightarrow> shaped sb \<and> shardsAll (shardGood base (length (sbShards sb))) sb"

lemma good_reload:
  assumes "shardGood base n i s" "\<forall>m\<in>set ns. shardIndexForKey (NodeKey m) n = i" "opReload ops e ns s = (r, s')"
  shows "shardGood base n i s'"
proof -
  have ok: "shardOK (base + int i * portRangeSpan) s" using assms(1) by (simp add: shardGood_def)
  have "placed n i s'"
    using reload_frame [OF ok assms(3)]
  proof (elim disjE)
    assume "opPortMap ops s' = opPortMap ops s \<and> opNodes ops s' = opNodes ops s"
    with assms(1) show ?thesis by (simp add: placed_def shardGood_def)
  qed (use assms(2) in \<open>auto simp: placed_def\<close>)
  with reload_OK [OF ok, of e ns] assms(3) show ?thesis by (simp add: shardGood_def)
qed

lemma good_stop: "shardGood base n i s \<Longrightarrow> shardGood base n i (opStop ops s)"
  by (simp add: shardGood_def placed_def stop_OK stop_frame)

lemma good_nodes: "shardGood base n i s \<Longrightarrow> \<forall>m\<in>set (opNodes ops s). shardIndexForKey (NodeKey m) n = i"
  by (simp add: shardGood_def placed_def)

lemma good_clear: "shardGood base n i s \<Longrightarrow> shardGood base n i (fst (snd (clearShard ops e j s keys)))"
  using good_reload [OF good_stop, of base n i s "[]" e]
  by (auto simp: clearShard_def split: prod.split option.split)

lemma good_reloadShard:
  assumes "shardGood base n i s" "\<forall>m\<in>set ns. shardIndexForKey (NodeKey m) n = i"
  shows "shardGood base n i (fst (snd (reloadShard ops e j ns s keys)))"
  using good_reload [OF assms, of e] assms(1)
  by (auto simp: reloadShard_def split: prod.split option.split sum.split)

lemma good_rollback:
  assumes "shardGood base n i s" "\<forall>m\<in>set ns. shardIndexForKey (NodeKey m) n = i"
  shows "shardGood base n i (snd (rollbackShard ops e j ns s))"
  using good_reload [OF assms, of e] good_reload [OF good_stop [OF assms(1)], of "[]" e]
  by (auto simp: rollbackShard_def split: prod.split option.split sum.split)

lemma good_recover:
  assumes "shardGood base n i s"
  shows "shardGood base n i (fst (snd (recoverShard ops e j s keys)))"
  using good_reload [OF assms good_nodes [OF assms], of e] assms
  by (auto simp: recoverShard_def split: prod.split option.split sum.split)

lemma OK_each:
  assumes "shardedOK base sb"
    "\<And>i s keys. i < length (sbShards sb) \<Longrightarrow> shardGood base (length (sbShards sb)) i s \<Longrightarrow>
       shardGood base (length (sbShards sb)) i (fst (snd (f i s keys)))"
  shows "shardedOK base (snd (eachShard f sb))"
  using assms eachShard_all [of sb "shardGood base (length (sbShards sb))" f]
  by (auto simp: shardedOK_def eachShard_nth)

lemma OK_assembly [simp]: "shardedOK base (sb\<lparr>sbAssembly := d\<rparr>) = shardedOK base sb"
  by (simp add: shardedOK_def shaped_def shardsAll_def)

lemma target_placed: "\<forall>m\<in>set (targetFor n ns i). shardIndexForKey (NodeKey m) n = i"
  by (simp add: targetFor_def sortNodesByKey_def)

lemma OK_stop: "shardedOK base sb \<Longrightarrow> shardedOK base (ShardedStop ops sb)"
  by (auto simp: ShardedStop_def shardedOK_def shaped_def shardsAll_def good_stop)

lemma OK_recover: "shardedOK base sb \<Longrightarrow> shardedOK base (snd (recoverFailedShards ops env sb))"
  by (auto simp: recoverFailedShards_def intro: OK_each good_recover)

lemma OK_reload:
  assumes "shardedOK base sb"
  shows "shardedOK base (snd (ShardedReload ops env revert nodes sb))"
proof -
  let ?n = "length (sbShards sb)"
  obtain ts pre where p: "prefilter nodes = (ts, pre)" by fastforce
  let ?f = "\<lambda>i. reloadShard ops (env i) i (targetFor ?n ts i)"
  let ?g = "\<lambda>i s keys. if shardSkipped ops (targetFor ?n ts i) (sbShards sb ! i) (sbAssigned sb ! i) then ([], s, keys)
    else (case rollbackShard ops (revert i) i (opNodes ops (sbShards sb ! i)) s of (rbErrs, s1) \<Rightarrow> (rbErrs, s1, sbAssigned sb ! i))"
  have old: "shardGood base ?n i (sbShards sb ! i)" if "i < ?n" for i
    using assms that by (simp add: shardedOK_def shardsAll_def)
  have c: "shardedOK base (snd (eachShard (\<lambda>i. clearShard ops (env i) i) sb))"
    by (rule OK_each [OF assms]) (rule good_clear)
  have f: "shardedOK base (snd (eachShard ?f sb))"
    by (rule OK_each [OF assms]) (rule good_reloadShard [OF _ target_placed])
  have shaped: "shaped sb" using assms by (simp add: shardedOK_def)
  have "shardGood base ?n i (fst (snd (?g i s keys)))" if "i < ?n" "shardGood base ?n i s" for i s keys
    using good_rollback [OF that(2) good_nodes [OF old [OF that(1)]], of "revert i" i] that(2)
    by (simp add: case_prod_beta)
  then have g: "shardedOK base (snd (eachShard ?g (snd (eachShard ?f sb))))"
    by (intro OK_each [OF f]) (simp add: eachShard_nth(2) [OF shaped])
  show ?thesis
    using assms p c f g by (auto simp: ShardedReload_def Let_def split: prod.splits if_splits)
qed

lemma port_of_key:
  assumes "shardedOK base sb"
  shows "ShardedPortMap ops sb k = map_of (opPortMap ops (sbShards sb ! shardIndexForKey k (length (sbShards sb)))) k"
  unfolding ShardedPortMap_def
proof (rule merged_map)
  let ?n = "length (sbShards sb)"
  show "shardIndexForKey k ?n < ?n" using assms shardIndex_lt by (simp add: shardedOK_def shaped_def)
  fix i assume i: "i < ?n" "i \<noteq> shardIndexForKey k ?n"
  with assms have "placed ?n i (sbShards sb ! i)" by (simp add: shardedOK_def shardsAll_def shardGood_def)
  with i(2) have "k \<notin> fst ` set (opPortMap ops (sbShards sb ! i))" by (auto simp: placed_def)
  then show "map_of (opPortMap ops (sbShards sb ! i)) k = None" by (simp add: map_of_eq_None_iff)
qed

lemma segment_order: "base + int j * portRangeSpan < p \<Longrightarrow> p < base + int i * portRangeSpan + portRangeSpan \<Longrightarrow> j \<le> i"
  unfolding portRangeSpan_def by linarith

lemma segment_index:
  assumes "base + int i * portRangeSpan < p" "p < base + int i * portRangeSpan + portRangeSpan"
    "base + int j * portRangeSpan < p" "p < base + int j * portRangeSpan + portRangeSpan"
  shows "i = j"
  using segment_order assms by (meson le_antisym)

lemma sharded_ports:
  assumes "shardedOK base sb" "ShardedPortMap ops sb k = Some p"
  shows "base + int (shardIndexForKey k (length (sbShards sb))) * portRangeSpan < p \<and>
    p < base + int (shardIndexForKey k (length (sbShards sb))) * portRangeSpan + portRangeSpan \<and>
    ShardedLocalAddress ops sb k = JoinHostPort ''127.0.0.1'' (fmtInt p) \<and>
    (\<forall>k'. ShardedPortMap ops sb k' = Some p \<longrightarrow> k' = k)"
proof -
  let ?n = "length (sbShards sb)"
  have inj: "portsOK (base + int i * portRangeSpan + 1) (base + int i * portRangeSpan + portRangeSpan)
      (opPortMap ops (sbShards sb ! i))" if "i < ?n" for i
    using assms(1) that ports by (simp add: shardedOK_def shardsAll_def shardGood_def)
  have lt: "shardIndexForKey x ?n < ?n" for x using assms(1) shardIndex_lt by (simp add: shardedOK_def shaped_def)
  have bounds: "base + int (shardIndexForKey x ?n) * portRangeSpan < q \<and>
      q < base + int (shardIndexForKey x ?n) * portRangeSpan + portRangeSpan"
    if "ShardedPortMap ops sb x = Some q" for x q
    using inj [OF lt, of x] that unfolding port_of_key [OF assms(1)] portsOK_def by fastforce
  have "k' = k" if k': "ShardedPortMap ops sb k' = Some p" for k'
  proof -
    have "shardIndexForKey k' ?n = shardIndexForKey k ?n"
      using segment_index bounds [OF k'] bounds [OF assms(2)] by blast
    then show ?thesis using inj [OF lt, of k] k' assms(2) unfolding port_of_key [OF assms(1)] portsOK_def by metis
  qed
  moreover have "ShardedLocalAddress ops sb k = JoinHostPort ''127.0.0.1'' (fmtInt p)"
    using assms(2) by (simp add: ShardedLocalAddress_def address port_of_key [OF assms(1), symmetric])
  ultimately show ?thesis using bounds [OF assms(2)] by blast
qed

text \<open>A reload that fails leaves the record of what each shard was last given as it was.\<close>

lemma failed_keeps_assigned:
  assumes "shaped sb" "ShardedReload ops env revert nodes sb = (Some err, sb')"
  shows "sbAssigned sb' = sbAssigned sb"
proof -
  let ?n = "length (sbShards sb)"
  obtain ts pre where p: "prefilter nodes = (ts, pre)" by fastforce
  have "fst (clearShard ops e i s keys) = []" for e i s keys
    using reload_nothing [of e "opStop ops s"] by (auto simp: clearShard_def split: prod.split option.split)
  then have c: "fst (eachShard (\<lambda>i. clearShard ops (env i) i) sb) = []" using eachShard_errs [OF assms(1)] by blast
  let ?f = "\<lambda>i. reloadShard ops (env i) i (targetFor ?n ts i)"
  let ?g = "\<lambda>i s keys. if shardSkipped ops (targetFor ?n ts i) (sbShards sb ! i) (sbAssigned sb ! i) then ([], s, keys)
    else (case rollbackShard ops (revert i) i (opNodes ops (sbShards sb ! i)) s of (rbErrs, s1) \<Rightarrow> (rbErrs, s1, sbAssigned sb ! i))"
  define sb1 where "sb1 = snd (eachShard ?f sb)"
  have sb1: "shaped sb1" "length (sbShards sb1) = ?n" using eachShard_nth [OF assms(1)] by (simp_all add: sb1_def)
  have g: "sbAssigned (snd (eachShard ?g sb1)) = sbAssigned sb"
  proof (rule nth_equalityI)
    show "length (sbAssigned (snd (eachShard ?g sb1))) = length (sbAssigned sb)"
      using eachShard_nth(1,2) [OF sb1(1), of ?g] sb1(2) assms(1) by (simp add: shaped_def)
    fix i assume "i < length (sbAssigned (snd (eachShard ?g sb1)))"
    then have i: "i < ?n" using eachShard_nth(1,2) [OF sb1(1), of ?g] sb1(2) by (simp add: shaped_def)
    show "sbAssigned (snd (eachShard ?g sb1)) ! i = sbAssigned sb ! i"
      using eachShard_nth(4) [OF sb1(1), of i ?g] eachShard_nth(4) [OF assms(1) i, of ?f] i sb1(2)
      by (auto simp: sb1_def reloadShard_def split: prod.split)
  qed
  show ?thesis
    using assms(2) p c g by (auto simp: ShardedReload_def Let_def sb1_def split: prod.splits if_splits)
qed

end

section \<open>Processes keep the laws\<close>

lemma configOf_exits: "configOf (fold childExited cs s) = configOf s"
  by (induction cs arbitrary: s) simp_all

lemma exits_keep [simp]:
  "spPortMap (fold childExited cs s) = spPortMap s" "spNodes (fold childExited cs s) = spNodes s"
  "spBasePort (fold childExited cs s) = spBasePort s" "spAssembly (fold childExited cs s) = spAssembly s"
  using configOf_exits [of cs s] by (simp_all add: configOf_eq)

lemma stop_keeps [simp]:
  "spPortMap (stopLocked s) = spPortMap s" "spNodes (stopLocked s) = spNodes s" "spBasePort (stopLocked s) = spBasePort s"
  using configOf_stopLocked [of s] unfolding configOf_eq by blast+

text \<open>A process marked as running has a child.\<close>

definition runOK :: "SingBoxProcess \<Rightarrow> bool" where
  "runOK s \<longleftrightarrow> (spRunning s \<longrightarrow> spCmd s \<noteq> None)"

lemma runOK_setStatus [simp]: "runOK (setStatusLocked st r k s) = runOK s"
  by (simp add: runOK_def setStatusLocked_def)

lemma runOK_stop: "runOK s \<Longrightarrow> runOK (stopLocked s) \<and> \<not> spRunning (stopLocked s)"
  by (auto simp: runOK_def stopLocked_def Let_def setStatusLocked_def)

lemma runOK_exits: "runOK s \<Longrightarrow> runOK (fold childExited cs s)"
proof (induction cs arbitrary: s)
  case (Cons c cs)
  from Cons.prems have "runOK (childExited c s)" by (auto simp: runOK_def childExited_def Let_def setStatusLocked_def)
  with Cons.IH show ?case by simp
qed simp

lemma runOK_start: "startLocked e s = (r, s1) \<Longrightarrow> runOK s \<Longrightarrow> runOK s1"
  by (auto simp: startLocked_def Let_def runOK_def setStatusLocked_def simp del: waitReady.simps
      split: if_splits check_result.splits option.splits)

lemma runOK_fail [simp]: "runOK (failReload e old reason s) = runOK s"
  by (simp add: failReload_def restoreState_def) (simp add: runOK_def)

lemma runOK_generate: "generateConfig w ns s = (r, s1) \<Longrightarrow> runOK s1 = runOK s"
  by (auto simp: generateConfig_def Let_def runOK_def split: prod.splits)

lemma runOK_rebuild: "rebuildPruned e d good s = (r, s1) \<Longrightarrow> runOK s1 = runOK s"
  using runOK_generate [of "reWrite e 1" good s]
  by (auto simp: rebuildPruned_def Let_def runOK_def split: if_splits prod.splits option.splits)

lemma runOK_restart: "restartWith e old good s = (r, s1) \<Longrightarrow> runOK s \<Longrightarrow> runOK s1"
  using runOK_start [of "reStart e" "stopLocked s"] runOK_stop [of s]
  by (auto simp: restartWith_def split: prod.splits option.splits if_splits) (simp_all add: runOK_def)

lemma runOK_generated: "reloadGenerated e old T d s = (r, s1) \<Longrightarrow> runOK s \<Longrightarrow> runOK s1"
  by (auto simp: reloadGenerated_def Let_def runOK_rebuild intro: runOK_restart
      split: if_splits prod.splits option.splits)

lemma runOK_reload: "Reload e ns s = (r, s1) \<Longrightarrow> runOK s \<Longrightarrow> runOK s1"
proof (cases "generateConfig (reWrite e 0) (filter (\<lambda>n. \<not> IsDirect n) ns) s")
  case (Pair g s2)
  assume r: "Reload e ns s = (r, s1)" and s: "runOK s"
  have s2: "runOK s2" using runOK_generate [OF Pair] s by simp
  then have "runOK (s2\<lparr>spAssembly := d\<rparr>)" for d by (simp add: runOK_def)
  then have "reloadGenerated e s T d (s2\<lparr>spAssembly := d\<rparr>) = (r, s1) \<Longrightarrow> runOK s1" for T d
    using runOK_generated by blast
  with r s s2 Pair show "runOK s1"
    by (auto simp: Reload_def Let_def split: if_splits option.splits) (simp add: runOK_def)
qed

definition processAt :: "int \<Rightarrow> SingBoxProcess \<Rightarrow> bool" where
  "processAt b s \<longleftrightarrow> processOK s \<and> spBasePort s = b \<and> runOK s"

lemma processOK_exits: "processOK (fold childExited cs s) = processOK s"
  by (rule processOK_config [OF configOf_exits])

lemma processAt_reload:
  assumes "processAt b s" "processReload e ns s = (r, s')"
  shows "processAt b s'"
    "fst ` set (spPortMap s') \<subseteq> NodeKey ` set ns \<and> set (spNodes s') \<subseteq> set ns \<or>
     spPortMap s' = spPortMap s \<and> spNodes s' = spNodes s"
proof -
  define s0 where "s0 = fold childExited (peBefore e) s"
  have s0: "processOK s0" "spBasePort s0 = b" "spPortMap s0 = spPortMap s" "spNodes s0 = spNodes s"
    using assms(1) by (simp_all add: s0_def processOK_exits processAt_def)
  obtain s1 where r: "Reload (peReload e) ns s0 = (r, s1)" and s': "s' = fold childExited (peAfter e) s1"
    using assms(2) by (auto simp: processReload_def s0_def split: prod.splits)
  have "runOK s0" using assms(1) by (simp add: s0_def processAt_def runOK_exits)
  then have "runOK s'" using runOK_reload [OF r] by (simp add: s' runOK_exits)
  then show "processAt b s'"
    using processOK_reload(1,2) [OF s0(1), of "peReload e" ns] r s0(2) by (simp add: s' processAt_def processOK_exits)
  have "set (tunnels ns) \<subseteq> set ns" by (auto simp: tunnels_def)
  with r s0(1) have "fst ` set (spPortMap s1) \<subseteq> NodeKey ` set ns \<and> set (spNodes s1) \<subseteq> set ns \<or>
     spPortMap s1 = spPortMap s0 \<and> spNodes s1 = spNodes s0"
    by (cases rule: Reload_cases) (auto simp: restored_def halfStarted_def started_def prepared_def)
  then show "fst ` set (spPortMap s') \<subseteq> NodeKey ` set ns \<and> set (spNodes s') \<subseteq> set ns \<or>
     spPortMap s' = spPortMap s \<and> spNodes s' = spNodes s" by (simp add: s' s0)
qed

interpretation pr: shard_laws processShard processAt
proof
  fix b s e ns
  assume "processAt b s"
  then show "processAt b (snd (opReload processShard e ns s))"
    using processAt_reload(1) [of b s e ns] by (simp add: processShard_def) (metis prod.collapse)
next
  fix b s e ns r s'
  assume "processAt b s" "opReload processShard e ns s = (r, s')"
  then show "fst ` set (opPortMap processShard s') \<subseteq> NodeKey ` set ns \<and> set (opNodes processShard s') \<subseteq> set ns \<or>
      opPortMap processShard s' = opPortMap processShard s \<and> opNodes processShard s' = opNodes processShard s"
    using processAt_reload(2) [of b s e ns r s'] by (simp add: processShard_def)
next
  fix e s
  show "fst (opReload processShard e [] s) = None"
    by (simp add: processShard_def processReload_def Reload_def)
next
  fix b s
  assume "processAt b s"
  then show "processAt b (opStop processShard s)"
    using processOK_config [OF configOf_stopLocked [of s]] runOK_stop by (simp add: processShard_def processAt_def)
qed (simp_all add: processShard_def processAt_def processOK_def GetLocalAddress_def)

lemma processShard_sel [simp]:
  "opReload processShard = processReload" "opStop processShard = stopLocked" "opPortMap processShard = spPortMap"
  "opNodes processShard = spNodes" "opRuntimeStatus processShard = GetRuntimeStatus"
  "opLocalAddress processShard = GetLocalAddress" "opDiagnostics processShard = Some spAssembly"
  by (simp_all add: processShard_def)

section \<open>Reachable states\<close>

inductive shardsReachable :: "int \<Rightarrow> SingBoxProcess ShardedSingBox \<Rightarrow> bool" where
  new: "0 \<le> basePort \<Longrightarrow> shardsReachable basePort (NewShardedSingBox dirs files binPath basePort shardCount)"
| reload: "shardsReachable b sb \<Longrightarrow> shardsReachable b (snd (ShardedReload processShard env revert nodes sb))"
| recover: "shardsReachable b sb \<Longrightarrow> shardsReachable b (snd (recoverFailedShards processShard env sb))"
| stop: "shardsReachable b sb \<Longrightarrow> shardsReachable b (ShardedStop processShard sb)"
| exited: "shardsReachable b sb \<Longrightarrow> i < length (sbShards sb) \<Longrightarrow>
    shardsReachable b (sb\<lparr>sbShards := (sbShards sb)[i := childExited c (sbShards sb ! i)]\<rparr>)"

lemma new_OK:
  assumes "0 \<le> basePort"
  shows "pr.shardedOK basePort (NewShardedSingBox dirs f binPath basePort shardCount)"
proof -
  have new: "pr.shardGood basePort n i (NewSingBoxProcess d c binPath (basePort + int i * portRangeSpan))" for n i d c
    using assms by (simp add: pr.shardGood_def pr.placed_def processAt_def processOK_def NewSingBoxProcess_def Let_def
        portRangeSpan_def runOK_def split: dir_result.split)
  let ?n = "if shardCount < 1 then 1 else shardCount"
  have "[0..?n - 1] \<noteq> []" "length [0..?n - 1] = nat ?n" "\<And>i. i < nat ?n \<Longrightarrow> [0..?n - 1] ! i = int i"
    by auto
  with new show ?thesis
    unfolding pr.shardedOK_def shaped_def shardsAll_def NewShardedSingBox_def newShardedSingBoxWithFactory_def Let_def
    by (simp del: upto.simps upto_single)
qed

lemma exit_OK:
  assumes "pr.shardedOK b sb" "i < length (sbShards sb)"
  shows "pr.shardedOK b (sb\<lparr>sbShards := (sbShards sb)[i := childExited c (sbShards sb ! i)]\<rparr>)"
proof -
  let ?s = "sbShards sb ! i"
  have "configOf (childExited c ?s) = configOf ?s" by simp
  moreover have "runOK ?s \<Longrightarrow> runOK (childExited c ?s)" using runOK_exits [of ?s "[c]"] by simp
  ultimately have "pr.shardGood b n j ?s \<Longrightarrow> pr.shardGood b n j (childExited c ?s)" for n j
    using processOK_config [of "childExited c ?s" ?s]
    by (simp add: pr.shardGood_def pr.placed_def processAt_def configOf_eq del: configOf_childExited)
  with assms show ?thesis
    by (auto simp: pr.shardedOK_def shaped_def shardsAll_def nth_list_update)
qed

lemma reachable_OK: "shardsReachable b sb \<Longrightarrow> pr.shardedOK b sb"
  by (induction rule: shardsReachable.induct)
    (auto intro: new_OK exit_OK pr.OK_reload pr.OK_recover pr.OK_stop)

section \<open>What a reload achieves\<close>

lemma commit_covers:
  assumes "shardReloadCommitError ops target s = Inr accepted" "n \<in> set target"
  shows "hasPort (opPortMap ops s) n \<or> NodeKey n \<in> set (rejectedKeys (diagnosticsOf ops s))"
  using assms by (auto simp: shardReloadCommitError_def Let_def filter_empty_conv split: if_splits)

lemma skipped_covers:
  assumes "shardSkipped ops target s keys" "n \<in> set target"
  shows "hasPort (opPortMap ops s) n \<or> NodeKey n \<in> set (rejectedKeys (diagnosticsOf ops s))"
proof -
  have "\<not> isl (shardReloadCommitError ops target s)"
    using assms by (auto simp: shardSkipped_def shardNeedsReloadForRuntime_def Let_def split: if_splits)
  then obtain acc where "shardReloadCommitError ops target s = Inr acc" by (cases "shardReloadCommitError ops target s") auto
  from commit_covers [OF this assms(2)] show ?thesis .
qed

lemma reloadShard_covers:
  assumes "fst (reloadShard ops e i target s keys) = []" "n \<in> set target"
  defines "s' \<equiv> fst (snd (reloadShard ops e i target s keys))"
  shows "hasPort (opPortMap ops s') n \<or> NodeKey n \<in> set (rejectedKeys (diagnosticsOf ops s'))"
proof (cases "shardSkipped ops target s keys")
  case True
  with skipped_covers [OF True assms(2)] show ?thesis by (simp add: s'_def reloadShard_def)
next
  case False
  with assms(1) obtain s1 acc where "opReload ops e target s = (None, s1)" "shardReloadCommitError ops target s1 = Inr acc"
    by (auto simp: reloadShard_def split: prod.splits option.splits sum.splits)
  with False commit_covers [of ops target s1 acc n] assms(2) show ?thesis by (simp add: s'_def reloadShard_def)
qed

lemma merged_rejected:
  "set (adRejected (foldl (mergeShard ops) d ss)) =
     set (adRejected d) \<union> (\<Union>s\<in>set ss. set (adRejected (diagnosticsOf ops s)))"
  by (induction ss arbitrary: d) (auto simp: mergeShard_def diagnosticsOf_def noDiagnostics_def split: option.split)

lemma merged_rejectedKeys:
  "set (rejectedKeys (mergeAssemblyDiagnostics ops pre ss)) =
     NodeKey ` fst ` set pre \<union> (\<Union>s\<in>set ss. set (rejectedKeys (diagnosticsOf ops s)))"
  by (auto simp: mergeAssemblyDiagnostics_def rejectedKeys_def merged_rejected noDiagnostics_def image_iff split: prod.splits) force+

lemma split_by:
  "set T = set (filter (\<lambda>n. \<not> isl (b n)) T) \<union>
     fst ` set (concat (map (\<lambda>n. case b n of Inl e \<Rightarrow> [(n, BuildRejected e)] | Inr out \<Rightarrow> []) T))"
  (is "_ = ?kept \<union> fst ` set (concat (map ?rej T))")
proof (intro set_eqI iffI)
  fix n assume n: "n \<in> set T"
  show "n \<in> ?kept \<union> fst ` set (concat (map ?rej T))"
  proof (cases "b n")
    case (Inl e)
    then have "(n, BuildRejected e) \<in> set (concat (map ?rej T))" using n by force
    then show ?thesis by force
  qed (use n in simp)
qed (auto split: sum.splits)

lemma prefilter_split:
  assumes "prefilter nodes = (ts, pre)"
  shows "set (tunnels nodes) = set ts \<union> fst ` set pre"
  using assms split_by [of "tunnels nodes" "\<lambda>n. buildOutbound n ''prefilter''"]
  unfolding prefilter_def tunnels_def Let_def prod.inject by (elim conjE) (simp only:)

text \<open>Shards whose nodes are unchanged and that are healthy keep their very state.\<close>

lemma reload_skips:
  assumes "shaped sb" "i < length (sbShards sb)" "prefilter nodes = (ts, pre)" "ts \<noteq> []"
    "shardSkipped ops (targetFor (length (sbShards sb)) ts i) (sbShards sb ! i) (sbAssigned sb ! i)"
  shows "sbShards (snd (ShardedReload ops env revert nodes sb)) ! i = sbShards sb ! i"
proof -
  let ?f = "\<lambda>i. reloadShard ops (env i) i (targetFor (length (sbShards sb)) ts i)"
  have f: "sbShards (snd (eachShard ?f sb)) ! i = sbShards sb ! i"
    using eachShard_nth(3) [OF assms(1,2), of ?f] assms(5) by (simp add: reloadShard_def)
  have g: "sbShards (snd (eachShard g (snd (eachShard ?f sb)))) ! i = sbShards sb ! i"
    if "\<And>s keys. g i s keys = ([], s, keys)" for g
    using eachShard_nth(3) [OF eachShard_nth(1) [OF assms(1)], of i ?f g] eachShard_nth(2) [OF assms(1)] assms(2) f that
    by simp
  have gg: "sbShards (snd (eachShard (\<lambda>i s keys. if shardSkipped ops (targetFor (length (sbShards sb)) ts i)
      (sbShards sb ! i) (sbAssigned sb ! i) then ([], s, keys) else h i s keys) (snd (eachShard ?f sb)))) ! i =
      sbShards sb ! i" for h
    by (rule g) (simp add: assms(5))
  show ?thesis
    using f gg assms(4) by (simp add: ShardedReload_def assms(3) Let_def case_prod_beta)
qed

lemma reload_covers:
  assumes "shaped sb" "ShardedReload ops env revert nodes sb = (None, sb')" "n \<in> set (tunnels nodes)"
  shows "(\<exists>s\<in>set (sbShards sb'). hasPort (opPortMap ops s) n) \<or> NodeKey n \<in> set (rejectedKeys (sbAssembly sb'))"
proof -
  let ?n = "length (sbShards sb)"
  obtain ts pre where p: "prefilter nodes = (ts, pre)" by fastforce
  have ts: "ts \<noteq> []"
    using assms(2,3) p prefilter_split [OF p] by (auto simp: ShardedReload_def split: if_splits prod.splits)
  let ?f = "\<lambda>i. reloadShard ops (env i) i (targetFor ?n ts i)"
  obtain errs sb1 where e: "eachShard ?f sb = (errs, sb1)" by fastforce
  then have errs: "errs = []" and sb': "sb' = sb1\<lparr>sbAssembly := mergeAssemblyDiagnostics ops pre (sbShards sb1)\<rparr>"
    using assms(2) p ts by (auto simp: ShardedReload_def Let_def split: if_splits prod.splits)
  consider "n \<in> set ts" | "n \<in> fst ` set pre" using assms(3) prefilter_split [OF p] by blast
  then show ?thesis
  proof cases
    case 1
    define i where "i = shardIndexForKey (NodeKey n) ?n"
    have i: "i < ?n" using assms(1) shardIndex_lt by (simp add: i_def shaped_def)
    have n: "n \<in> set (targetFor ?n ts i)" using 1 by (simp add: targetFor_def sortNodesByKey_def i_def)
    have "fst (?f i (sbShards sb ! i) (sbAssigned sb ! i)) = []"
      using eachShard_errs [OF assms(1), of ?f] e errs i by simp
    from reloadShard_covers [OF this n]
    have c: "hasPort (opPortMap ops (sbShards sb1 ! i)) n \<or> NodeKey n \<in> set (rejectedKeys (diagnosticsOf ops (sbShards sb1 ! i)))"
      using eachShard_nth(3) [OF assms(1) i, of ?f] e by simp
    have "sbShards sb1 ! i \<in> set (sbShards sb1)" using eachShard_nth(2) [OF assms(1), of ?f] e i by simp
    with c show ?thesis by (auto simp: sb' merged_rejectedKeys)
  next
    case 2
    then show ?thesis by (auto simp: sb' merged_rejectedKeys)
  qed
qed

section \<open>A sample run\<close>

definition sampleShards :: "SingBoxProcess ShardedSingBox" where
  "sampleShards = NewShardedSingBox (\<lambda>i. DirReady) (\<lambda>i. NoFile) ''sing-box'' 20000 1"

definition sampleEnv :: procEnv where
  "sampleEnv = \<lparr>peBefore = [], peReload = sampleReloadEnv, peAfter = []\<rparr>"

lemma sampleShards_eq:
  "sampleShards = \<lparr>sbShards = [sampleProcess], sbAssigned = [{}], sbAssembly = noDiagnostics, sbStopping = False\<rparr>"
  by (simp add: sampleShards_def NewShardedSingBox_def newShardedSingBoxWithFactory_def sampleProcess_def)

lemma sampleShards_reachable: "shardsReachable 20000 sampleShards"
  unfolding sampleShards_def by (rule shardsReachable.new) simp

lemma sampleShards_loads:
  "\<exists>sb. ShardedReload processShard (\<lambda>i. sampleEnv) (\<lambda>i. sampleEnv) [sampleTunnel ''trojan''] sampleShards = (None, sb) \<and>
     sbShards sb = [sampleLoaded]"
proof -
  let ?n = "sampleTunnel ''trojan''"
  have b: "\<not> isl (buildOutbound ?n t)" for t
    by (simp add: buildOutbound_isl sampleTunnel_def transportKnown_def getStrDefault_def getStr_def)
  have "\<not> isl (buildOutbound ?n ''prefilter'')" by (rule b)
  then obtain out where "buildOutbound ?n ''prefilter'' = Inr out" by (cases "buildOutbound ?n ''prefilter''") auto
  then have p: "prefilter [?n] = ([?n], [])" by (simp add: prefilter_def IsDirect_def) (simp add: sampleTunnel_def)
  have t: "targetFor 1 [?n] 0 = [?n]" by (simp add: targetFor_def sortNodesByKey_def shardIndexForKey_def)
  have r: "processReload sampleEnv [?n] sampleProcess = (None, sampleLoaded)"
    using sample_loads(1) by (simp add: processReload_def sampleEnv_def sampleLoaded_def case_prod_beta prod_eq_iff)
  have c: "shardReloadCommitError processShard [?n] sampleLoaded = Inr [?n]"
    using sample_loads(2-)
    by (simp add: shardReloadCommitError_def Let_def diagnosticsOf_def rejectedKeys_def hasPort_def GetRuntimeStatus_def)
      (simp add: status_names)
  have f: "reloadShard processShard sampleEnv 0 [?n] sampleProcess {} = ([], sampleLoaded, nodeKeySet [?n])"
    using r c by (simp add: reloadShard_def shardSkipped_def keySetsEqual_def nodeKeySet_def)
  have "eachShard (\<lambda>i. reloadShard processShard sampleEnv i (targetFor 1 [?n] i)) sampleShards =
      ([], sampleShards\<lparr>sbShards := [sampleLoaded], sbAssigned := [nodeKeySet [?n]]\<rparr>)"
    using f t by (simp add: eachShard_def sampleShards_eq indexed_def)
  then show ?thesis using p by (simp add: ShardedReload_def) (simp add: sampleShards_eq)
qed

text \<open>
  Over all shards, local ports identify nodes. In every state the shards can reach, the merged port map
  gives different nodes different ports, each port lies in the segment of the shard its node hashes to, and
  the address looked up for a node is the one with that port.
\<close>

theorem sharded_ports_identify_nodes:
  assumes "shardsReachable basePort sb" "ShardedPortMap processShard sb k = Some p"
  shows "basePort + int (shardIndexForKey k (length (sbShards sb))) * portRangeSpan < p \<and>
    p < basePort + int (shardIndexForKey k (length (sbShards sb))) * portRangeSpan + portRangeSpan \<and>
    ShardedLocalAddress processShard sb k = JoinHostPort ''127.0.0.1'' (fmtInt p) \<and>
    (\<forall>k'. ShardedPortMap processShard sb k' = Some p \<longrightarrow> k' = k)"
  using pr.sharded_ports [OF reachable_OK [OF assms(1)] assms(2)] .

theorem sharded_ports_identify_nodes_witness:
  "\<exists>sb. shardsReachable 20000 sb \<and> ShardedPortMap processShard sb (NodeKey (sampleTunnel ''trojan'')) = Some 20001 \<and>
     ShardedLocalAddress processShard sb (NodeKey (sampleTunnel ''trojan'')) = JoinHostPort ''127.0.0.1'' (fmtInt 20001)"
proof -
  obtain sb where sb: "ShardedReload processShard (\<lambda>i. sampleEnv) (\<lambda>i. sampleEnv) [sampleTunnel ''trojan''] sampleShards = (None, sb)"
    "sbShards sb = [sampleLoaded]" using sampleShards_loads by blast
  have r: "shardsReachable 20000 sb"
    using shardsReachable.reload [OF sampleShards_reachable] sb(1) by (metis snd_conv)
  have p: "ShardedPortMap processShard sb (NodeKey (sampleTunnel ''trojan'')) = Some 20001"
    by (simp add: ShardedPortMap_def sb(2) sample_loads(2))
  from sharded_ports_identify_nodes [OF r p] r p show ?thesis by blast
qed



text \<open>
  Stopping is final. Once the shards were told to stop, no child is running, and neither a reload, which
  reports that they are stopped, nor the health check starts one again.
\<close>

theorem sharded_stop_is_final:
  assumes "shardsReachable basePort sb" "sbStopping sb"
  shows "(\<forall>s\<in>set (sbShards sb). \<not> spRunning s) \<and>
    ShardedReload processShard env revert nodes sb = (Some AlreadyStopped, sb) \<and>
    recoverFailedShards processShard env sb = ([], sb)"
proof -
  have "sbStopping sb \<longrightarrow> (\<forall>s\<in>set (sbShards sb). \<not> spRunning s)"
    using assms(1)
  proof (induction rule: shardsReachable.induct)
    case (new basePort dirs f binPath shardCount)
    then show ?case by (simp add: NewShardedSingBox_def newShardedSingBoxWithFactory_def Let_def)
  next
    case (reload b sb env revert nodes)
    have "sbStopping (snd (ShardedReload processShard env revert nodes sb)) = sbStopping sb"
      by (simp add: ShardedReload_def Let_def case_prod_beta eachShard_def)
    with reload show ?case by (auto simp: ShardedReload_def)
  next
    case (recover b sb env)
    then show ?case by (auto simp: recoverFailedShards_def eachShard_def Let_def)
  next
    case (stop b sb)
    have "\<forall>s\<in>set (sbShards sb). runOK s"
      using reachable_OK [OF stop.hyps] by (auto simp: pr.shardedOK_def shardsAll_def pr.shardGood_def processAt_def in_set_conv_nth)
    with stop.IH show ?case by (auto simp: ShardedStop_def runOK_stop)
  next
    case (exited b sb i c)
    have "\<not> spRunning s \<Longrightarrow> \<not> spRunning (childExited c s)" for s
      by (simp add: childExited_def Let_def setStatusLocked_def)
    with exited show ?case by (auto dest!: subsetD [OF set_update_subset_insert])
  qed
  with assms(2) show ?thesis by (simp add: ShardedReload_def recoverFailedShards_def)
qed

theorem sharded_stop_is_final_witness:
  "ShardedReload processShard (\<lambda>i. sampleEnv) (\<lambda>i. sampleEnv) [sampleTunnel ''trojan''] (ShardedStop processShard sampleShards) =
     (Some AlreadyStopped, ShardedStop processShard sampleShards)"
proof -
  have "sbStopping (ShardedStop processShard sampleShards)" by (simp add: ShardedStop_def)
  from sharded_stop_is_final [OF shardsReachable.stop [OF sampleShards_reachable] this] show ?thesis by blast
qed

end
