(* ===== verification/SubscriptionSpec.thy ===== *)
theory SubscriptionSpec
  imports StorageSpec "HOL-Library.Multiset"
begin

text \<open>
  What replacing the nodes of a subscription does to the tables: its rows become exactly the given entries,
  known nodes keep their row, and only a node whose route is unchanged and verified stays selectable.
\<close>

section \<open>Normalised entries\<close>

definition entriesOK :: "subscriptionProxyEntry list \<Rightarrow> bool" where
  "entriesOK es \<longleftrightarrow> distinct (map eAddr es) \<and> distinct (filter (\<lambda>k. k \<noteq> []) (map eNodeKey es))"

lemma normalizeEntries_OK: "entriesOK acc \<Longrightarrow> entriesOK (normalizeEntries acc es)"
  by (induction es arbitrary: acc) (auto simp: entriesOK_def)

lemma normalize_OK: "entriesOK (normalizeSubscriptionProxyEntries es)"
  unfolding normalizeSubscriptionProxyEntries_def by (rule normalizeEntries_OK) (simp add: entriesOK_def)

lemma distinct_key_entry:
  assumes "entriesOK es" "e \<in> set es" "e' \<in> set es" "eNodeKey e = eNodeKey e'" "eNodeKey e \<noteq> []"
  shows "e = e'"
proof -
  have "distinct (map eNodeKey (filter (\<lambda>e. eNodeKey e \<noteq> []) es))"
    using assms(1) by (simp add: entriesOK_def filter_map comp_def)
  moreover have "e \<in> set (filter (\<lambda>e. eNodeKey e \<noteq> []) es)" "e' \<in> set (filter (\<lambda>e. eNodeKey e \<noteq> []) es)"
    using assms by auto
  ultimately show ?thesis using assms(4) by (metis distinct_map inj_onD)
qed

section \<open>The statements of the transaction\<close>

text \<open>What a step may change besides the rows: nothing but the fault script.\<close>

definition sameRest :: "DB \<Rightarrow> DB \<Rightarrow> bool" where
  "sameRest d d' \<longleftrightarrow> subscriptions d' = subscriptions d \<and> nextSubID d' = nextSubID d \<and> now d' = now d"

lemma sameRest_trans: "sameRest d d1 \<Longrightarrow> sameRest d1 d2 \<Longrightarrow> sameRest d d2"
  by (simp add: sameRest_def)

lemma forOp_ConsE:
  assumes "forOp f (x # xs) d = (Inr u, d1)"
  obtains d2 where "f x d = (Inr (), d2)" "forOp f xs d2 = (Inr u, d1)"
  using assms by (auto elim: bindOp_InrD)

lemma deletes_spec:
  assumes "forOp (\<lambda>r. bindOp (deleteProxies (\<lambda>d r'. cID r' = cID r)) (\<lambda>n. returnOp ())) rs d = (Inr u, d1)"
  shows "proxies d1 = filter (\<lambda>r. cID r \<notin> cID ` set rs) (proxies d) \<and> nextProxyID d1 = nextProxyID d \<and> sameRest d d1"
  using assms
proof (induction rs arbitrary: d)
  case Nil
  then show ?case by (simp add: returnOp_def sameRest_def)
next
  case (Cons x xs)
  from forOp_ConsE [OF Cons.prems] obtain d2 where
    h: "bindOp (deleteProxies (\<lambda>d r'. cID r' = cID x)) (\<lambda>n. returnOp ()) d = (Inr (), d2)"
    and tl: "forOp (\<lambda>r. bindOp (deleteProxies (\<lambda>d r'. cID r' = cID r)) (\<lambda>n. returnOp ())) xs d2 = (Inr u, d1)" .
  from h have d2: "d2 = (dropFault d)\<lparr>proxies := filter (\<lambda>r. cID r \<noteq> cID x) (proxies d)\<rparr>"
    by (auto simp: deleteProxies_def execSQL_unfold bindOp_def returnOp_def split: if_splits)
  from Cons.IH [OF tl] show ?case
    by (auto simp: d2 sameRest_def intro!: filter_cong)
qed

lemma updates_spec:
  assumes "forOp (\<lambda>ku. bindOp (updateProxies (\<lambda>d r. cID r = kuID ku) (\<lambda>d. g ku)) (\<lambda>n. returnOp ())) kus d = (Inr u, d1)"
  shows "proxies d1 = fold (\<lambda>ku. updateRows (\<lambda>r. cID r = kuID ku) (g ku)) kus (proxies d) \<and>
    nextProxyID d1 = nextProxyID d \<and> sameRest d d1"
  using assms
proof (induction kus arbitrary: d)
  case Nil
  then show ?case by (simp add: returnOp_def sameRest_def)
next
  case (Cons x xs)
  from forOp_ConsE [OF Cons.prems] obtain d2 where
    h: "bindOp (updateProxies (\<lambda>d r. cID r = kuID x) (\<lambda>d. g x)) (\<lambda>n. returnOp ()) d = (Inr (), d2)"
    and tl: "forOp (\<lambda>ku. bindOp (updateProxies (\<lambda>d r. cID r = kuID ku) (\<lambda>d. g ku)) (\<lambda>n. returnOp ())) xs d2 = (Inr u, d1)" .
  from h have d2: "d2 = (dropFault d)\<lparr>proxies := updateRows (\<lambda>r. cID r = kuID x) (g x) (proxies d)\<rparr>"
    by (auto simp: updateProxies_def execSQL_unfold Let_def bindOp_def returnOp_def split: if_splits)
  from Cons.IH [OF tl] show ?case by (simp add: d2 sameRest_def)
qed

definition applyUpdates :: "(keyedUpdate \<Rightarrow> ProxyRow \<Rightarrow> ProxyRow) \<Rightarrow> keyedUpdate list \<Rightarrow> ProxyRow \<Rightarrow> ProxyRow" where
  "applyUpdates g kus r = (case find (\<lambda>ku. kuID ku = cID r) kus of Some ku \<Rightarrow> g ku r | None \<Rightarrow> r)"

text \<open>Updates of rows with different ids, one after the other, are one pass over the rows.\<close>

lemma fold_updates:
  assumes "distinct (map kuID kus)" "\<And>ku r. cID (g ku r) = cID r"
  shows "fold (\<lambda>ku. updateRows (\<lambda>r. cID r = kuID ku) (g ku)) kus rs = map (applyUpdates g kus) rs"
  using assms(1)
proof (induction kus arbitrary: rs)
  case Nil
  then show ?case by (simp add: applyUpdates_def)
next
  case (Cons x xs)
  have none: "find (\<lambda>ku. kuID ku = kuID x) xs = None" using Cons.prems by (auto simp: find_None_iff image_iff)
  have "applyUpdates g xs (if cID r = kuID x then g x r else r) = applyUpdates g (x # xs) r" for r
    using none by (auto simp: applyUpdates_def assms(2))
  with Cons show ?case by (simp add: updateRows_def)
qed

lemma find_last: "find P xs = None \<Longrightarrow> P x \<Longrightarrow> find P (xs @ [x]) = Some x"
  by (induction xs) (auto split: if_splits)

lemma insertEntry_spec:
  assumes "insertEntry subID p d = (Inr (j, x), d1)" "identitiesUnique (proxies d)"
    "(eAddr (piEntry p), SourceSubscription, subID) \<notin> rowIdentity ` set (proxies d)"
  shows "proxies d1 = proxies d @ [(insertedRow subID p)\<lparr>cID := nextProxyID d, cCreatedAt := now d\<rparr>]"
    "nextProxyID d1 = nextProxyID d + 1" "sameRest d d1" "j = piIndex p"
    "x = entryProxy subID (nextProxyID d) ''disabled'' (piUserPaused p) (piEntry p)"
proof -
  let ?id = "(eAddr (piEntry p), SourceSubscription, subID)"
  let ?new = "(insertedRow subID p)\<lparr>cID := nextProxyID d, cCreatedAt := now d\<rparr>"
  have rid: "rowIdentity (insertedRow subID p) = ?id" "rowIdentity ?new = ?id"
    by (simp_all add: rowIdentity_def insertedRow_def Let_def)
  define d2 where "d2 = (dropFault d)\<lparr>proxies := proxies d @ [?new], nextProxyID := nextProxyID d + 1\<rparr>"
  have "upsertProxy (insertedRow subID p) insertConflict d = (Inr (), d2) \<or>
      (\<exists>e d2. upsertProxy (insertedRow subID p) insertConflict d = (Inl e, d2))"
    using assms(3) by (auto simp: upsertProxy_def execSQL_unfold rid d2_def)
  with assms(1) have u: "upsertProxy (insertedRow subID p) insertConflict d = (Inr (), d2)"
    by (auto simp: insertEntry_def bindOp_def)
  have "\<forall>r\<in>set (proxies d). rowIdentity r \<noteq> ?id" using assms(3) by (auto simp: image_iff)
  then have "find (\<lambda>r. rowIdentity r = ?id) (proxies d) = None" by (auto simp: find_None_iff)
  then have f: "find (\<lambda>r. rowIdentity r = ?id) (proxies d2) = Some ?new"
    by (simp add: d2_def find_last rid)
  from assms(1) u f have "d1 = dropFault d2 \<and> j = piIndex p \<and>
      x = entryProxy subID (nextProxyID d) ''disabled'' (piUserPaused p) (piEntry p)"
    by (auto simp: insertEntry_def bindOp_def querySQL_unfold returnOp_def split: if_splits)
  then show "proxies d1 = proxies d @ [?new]" "nextProxyID d1 = nextProxyID d + 1" "sameRest d d1" "j = piIndex p"
    "x = entryProxy subID (nextProxyID d) ''disabled'' (piUserPaused p) (piEntry p)"
    by (simp_all add: d2_def sameRest_def)
qed

fun insertedRows :: "int \<Rightarrow> int \<Rightarrow> int \<Rightarrow> pendingInsert list \<Rightarrow> ProxyRow list" where
  "insertedRows subID n t [] = []"
| "insertedRows subID n t (p # ps) =
     (insertedRow subID p)\<lparr>cID := n, cCreatedAt := t\<rparr> # insertedRows subID (n + 1) t ps"

lemma rowIdentity_inserted:
  "rowIdentity ((insertedRow subID p)\<lparr>cID := n, cCreatedAt := t\<rparr>) = (eAddr (piEntry p), SourceSubscription, subID)"
  by (simp add: rowIdentity_def insertedRow_def Let_def)

lemma inserts_spec:
  assumes "mapOp (insertEntry subID) ps d = (Inr xs, d1)" "identitiesUnique (proxies d)"
    "\<forall>p\<in>set ps. (eAddr (piEntry p), SourceSubscription, subID) \<notin> rowIdentity ` set (proxies d)"
    "distinct (map (eAddr \<circ> piEntry) ps)"
  shows "proxies d1 = proxies d @ insertedRows subID (nextProxyID d) (now d) ps \<and> sameRest d d1"
  using assms
proof (induction ps arbitrary: d xs)
  case Nil
  then show ?case by (simp add: returnOp_def sameRest_def)
next
  case (Cons p ps)
  from Cons.prems(1) obtain jx d2 ys where h: "insertEntry subID p d = (Inr jx, d2)"
    and tl: "mapOp (insertEntry subID) ps d2 = (Inr ys, d1)"
    by (auto simp: returnOp_def elim!: bindOp_InrD)
  obtain j x where "jx = (j, x)" by fastforce
  with h have "insertEntry subID p d = (Inr (j, x), d2)" by simp
  note s = insertEntry_spec [OF this Cons.prems(2)]
  have p2: "proxies d2 = proxies d @ [(insertedRow subID p)\<lparr>cID := nextProxyID d, cCreatedAt := now d\<rparr>]"
    using s(1) Cons.prems(3) by simp
  have "identitiesUnique (proxies d2)"
    using Cons.prems(2,3) by (simp add: p2 identitiesUnique_def rowIdentity_inserted)
  moreover have "\<forall>p\<in>set ps. (eAddr (piEntry p), SourceSubscription, subID) \<notin> rowIdentity ` set (proxies d2)"
    using Cons.prems(3,4) by (auto simp: p2 rowIdentity_inserted image_iff)
  moreover have "nextProxyID d2 = nextProxyID d + 1" "sameRest d d2" using s(2,3) Cons.prems(3) by simp_all
  ultimately show ?case using Cons.IH [OF tl] Cons.prems(4) p2 sameRest_trans by (auto simp: sameRest_def)
qed

section \<open>Old rows and their entries\<close>

text \<open>The rows of a subscription with a node key have different keys.\<close>

definition keysDistinct :: "int \<Rightarrow> ProxyRow list \<Rightarrow> bool" where
  "keysDistinct subID rs \<longleftrightarrow> distinct (map cNodeKey (filter (\<lambda>r. ofSub subID r \<and> cNodeKey r \<noteq> []) rs))"

lemma keysDistinctD:
  "keysDistinct subID rs \<Longrightarrow> r \<in> set rs \<Longrightarrow> r' \<in> set rs \<Longrightarrow> ofSub subID r \<Longrightarrow> ofSub subID r' \<Longrightarrow>
   cNodeKey r = cNodeKey r' \<Longrightarrow> cNodeKey r \<noteq> [] \<Longrightarrow> r = r'"
  by (auto simp: keysDistinct_def distinct_map inj_on_def)

definition oldOf :: "subscriptionProxyEntry list \<Rightarrow> ProxyRow list \<Rightarrow> subscriptionProxyEntry \<Rightarrow> ProxyRow option" where
  "oldOf es mine e = (if eNodeKey e \<noteq> [] then keyToOld es mine (eNodeKey e) else None)"

lemma oldOf_Some:
  assumes "oldOf es mine e = Some r"
  shows "r \<in> set mine" "cNodeKey r = eNodeKey e" "eNodeKey e \<noteq> []"
  using assms by (auto simp: oldOf_def keyToOld_def find_Some_iff split: if_splits) (metis length_rev nth_mem set_rev)

lemma oldOf_row:
  assumes "keysDistinct subID rs" "r \<in> set rs" "ofSub subID r" "e \<in> set es" "eNodeKey e = cNodeKey r" "cNodeKey r \<noteq> []"
  shows "oldOf es (filter (ofSub subID) rs) e = Some r"
proof -
  have "incomingKey es (eNodeKey e)" using assms(4-6) by (auto simp: incomingKey_def image_iff intro!: bexI [of _ e])
  with assms have "\<exists>x\<in>set (rev (filter (ofSub subID) rs)). cNodeKey x = eNodeKey e \<and> incomingKey es (eNodeKey e)" by auto
  then have "find (\<lambda>x. cNodeKey x = eNodeKey e \<and> incomingKey es (eNodeKey e)) (rev (filter (ofSub subID) rs)) \<noteq> None"
    unfolding find_None_iff by blast
  then have "oldOf es (filter (ofSub subID) rs) e \<noteq> None" using assms(5,6) by (simp add: oldOf_def keyToOld_def)
  then obtain r' where r': "oldOf es (filter (ofSub subID) rs) e = Some r'" by blast
  with oldOf_Some [OF r'] keysDistinctD [OF assms(1), of r' r] assms show ?thesis by simp
qed

lemma concat_zip_filter:
  assumes "length xs = length es" "\<And>i e r. h (G i e r) = H e r"
  shows "map h (concat (map (\<lambda>(i, e). case F e of Some r \<Rightarrow> [G i e r] | None \<Rightarrow> []) (zip xs es))) =
    map (\<lambda>e. H e (the (F e))) (filter (\<lambda>e. F e \<noteq> None) es)"
  using assms(1)
proof (induction es arbitrary: xs)
  case (Cons e es)
  then obtain i xs' where "xs = i # xs'" by (cases xs) auto
  with Cons show ?case by (auto simp: assms(2) split: option.split)
qed simp

section \<open>The table after the transaction\<close>

definition updateFor :: "string \<Rightarrow> ProxyRow list \<Rightarrow> nat \<Rightarrow> subscriptionProxyEntry \<Rightarrow> ProxyRow \<Rightarrow> keyedUpdate" where
  "updateFor status pauseRows i e old =
     \<lparr>kuIndex = i, kuID = cID old, kuEntry = e, kuUserPaused = intOfBool (pausedBefore pauseRows e),
      kuPreserveActive = preserveActive status e old, kuResetEvidence = resetEvidence e old\<rparr>"

definition insertFor :: "ProxyRow list \<Rightarrow> nat \<Rightarrow> subscriptionProxyEntry \<Rightarrow> pendingInsert" where
  "insertFor pauseRows i e = \<lparr>piIndex = i, piEntry = e, piUserPaused = intOfBool (pausedBefore pauseRows e)\<rparr>"

definition refreshedRow :: "keyedUpdate \<Rightarrow> ProxyRow \<Rightarrow> ProxyRow" where
  "refreshedRow ku r = (preUpdate ku r)\<lparr>cAddress := eAddr (kuEntry ku)\<rparr>"

lemma keyedUpdates_alt:
  "keyedUpdates status es pr mine =
     concat (map (\<lambda>(i, e). case oldOf es mine e of Some r \<Rightarrow> [updateFor status pr i e r] | None \<Rightarrow> []) (zip [0..<length es] es))"
  unfolding keyedUpdates_def oldOf_def updateFor_def by simp

lemma pendingInserts_alt:
  "pendingInserts es pr mine =
     concat (map (\<lambda>(i, e). case oldOf es mine e of Some r \<Rightarrow> [] | None \<Rightarrow> [insertFor pr i e]) (zip [0..<length es] es))"
  unfolding pendingInserts_def oldOf_def insertFor_def by simp

lemma keyed_mem:
  assumes "ku \<in> set (keyedUpdates status es pr mine)"
  obtains i e r where "e \<in> set es" "oldOf es mine e = Some r" "ku = updateFor status pr i e r"
proof -
  from assms obtain z where z: "z \<in> set (zip [0..<length es] es)"
    "ku \<in> set (case oldOf es mine (snd z) of Some r \<Rightarrow> [updateFor status pr (fst z) (snd z) r] | None \<Rightarrow> [])"
    by (auto simp: keyedUpdates_alt case_prod_beta)
  then obtain r where "oldOf es mine (snd z) = Some r" "ku = updateFor status pr (fst z) (snd z) r"
    by (cases "oldOf es mine (snd z)") auto
  moreover have "snd z \<in> set es" using z(1) by (metis prod.collapse set_zip_rightD)
  ultimately show ?thesis using that by blast
qed

lemma keyed_exists:
  assumes "e \<in> set es" "oldOf es mine e = Some r"
  shows "\<exists>i. updateFor status pr i e r \<in> set (keyedUpdates status es pr mine)"
proof -
  from assms(1) obtain i where "i < length es" "e = es ! i" by (auto simp: in_set_conv_nth)
  then have "(i, e) \<in> set (zip [0..<length es] es)" by (auto simp: in_set_zip intro!: exI [of _ i])
  with assms(2) show ?thesis by (force simp: keyedUpdates_alt)
qed

lemma keyed_ids_distinct:
  assumes "entriesOK es" "distinct (map cID mine)"
  shows "distinct (map kuID (keyedUpdates status es pr mine))"
proof -
  let ?has = "filter (\<lambda>e. oldOf es mine e \<noteq> None) es"
  have "map kuID (keyedUpdates status es pr mine) = map (\<lambda>e. cID (the (oldOf es mine e))) ?has"
    unfolding keyedUpdates_alt by (rule concat_zip_filter) (simp_all add: updateFor_def)
  moreover have "distinct es" using assms(1) by (simp add: entriesOK_def distinct_map)
  moreover have "inj_on (\<lambda>e. cID (the (oldOf es mine e))) (set ?has)"
  proof (rule inj_onI)
    fix e e' assume e: "e \<in> set ?has" "e' \<in> set ?has" "cID (the (oldOf es mine e)) = cID (the (oldOf es mine e'))"
    then obtain r r' where r: "oldOf es mine e = Some r" "oldOf es mine e' = Some r'" by auto
    with e(3) oldOf_Some(1) [OF r(1)] oldOf_Some(1) [OF r(2)] assms(2) have "r = r'"
      by (auto simp: distinct_map inj_on_def)
    with oldOf_Some(2,3) [OF r(1)] oldOf_Some(2) [OF r(2)] distinct_key_entry [OF assms(1)] e show "e = e'" by simp
  qed
  ultimately show ?thesis by (simp add: distinct_map)
qed

lemma insert_entries: "map piEntry (pendingInserts es pr mine) = filter (\<lambda>e. oldOf es mine e = None) es"
proof -
  have "map piEntry (concat (map (\<lambda>(i, e). case oldOf es mine e of Some r \<Rightarrow> [] | None \<Rightarrow> [insertFor pr i e]) (zip xs ys))) =
      filter (\<lambda>e. oldOf es mine e = None) ys" if "length xs = length ys" for xs ys
    using that
  proof (induction ys arbitrary: xs)
    case (Cons y ys)
    then obtain i xs' where "xs = i # xs'" by (cases xs) auto
    with Cons show ?case by (auto simp: insertFor_def split: option.split)
  qed simp
  then show ?thesis by (simp add: pendingInserts_alt)
qed

lemma preUpdate_fields [simp]:
  "cSubscriptionID (preUpdate ku r) = cSubscriptionID r" "cSource (preUpdate ku r) = cSource r"
  by (simp_all add: preUpdate_def clearEvidence_def Let_def)

definition replacedTable ::
    "int \<Rightarrow> subscriptionProxyEntry list \<Rightarrow> string \<Rightarrow> DB \<Rightarrow> ProxyRow list" where
  "replacedTable subID es status d =
     (let mine = filter (ofSub subID) (proxies d) in
      map (applyUpdates refreshedRow (keyedUpdates status es mine mine))
        (filter (\<lambda>r. \<not> (ofSub subID r \<and> staleRow es r)) (proxies d)) @
      insertedRows subID (nextProxyID d) (now d) (pendingInserts es mine mine))"

lemma applyUpdates_twice:
  assumes "\<And>ku r. cID (g ku r) = cID r"
  shows "applyUpdates h kus (applyUpdates g kus r) = applyUpdates (\<lambda>ku r. h ku (g ku r)) kus r"
  using assms by (auto simp: applyUpdates_def split: option.split)

text \<open>How a kept row is rewritten: rows of others are not touched, a row of the subscription takes its entry.\<close>

lemma applied_other:
  assumes "distinct (map cID rs)" "r \<in> set rs" "\<not> ofSub subID r"
  shows "applyUpdates g (keyedUpdates status es pr (filter (ofSub subID) rs)) r = r"
proof -
  have "kuID ku \<noteq> cID r" if ku: "ku \<in> set (keyedUpdates status es pr (filter (ofSub subID) rs))" for ku
  proof
    assume id: "kuID ku = cID r"
    from ku obtain i e r' where k: "oldOf es (filter (ofSub subID) rs) e = Some r'" "ku = updateFor status pr i e r'"
      by (rule keyed_mem)
    with oldOf_Some(1) [OF k(1)] id have "r' \<in> set rs" "ofSub subID r'" "cID r' = cID r" by (simp_all add: updateFor_def)
    with assms show False by (auto simp: distinct_map inj_on_def)
  qed
  then have "find (\<lambda>ku. kuID ku = cID r) (keyedUpdates status es pr (filter (ofSub subID) rs)) = None"
    by (auto simp: find_None_iff)
  then show ?thesis by (simp add: applyUpdates_def)
qed

lemma applied_mine:
  assumes "distinct (map cID rs)" "keysDistinct subID rs" "entriesOK es" "r \<in> set rs" "ofSub subID r"
    "e \<in> set es" "eNodeKey e = cNodeKey r" "cNodeKey r \<noteq> []"
  obtains i where "applyUpdates g (keyedUpdates status es pr (filter (ofSub subID) rs)) r = g (updateFor status pr i e r) r"
proof -
  let ?kus = "keyedUpdates status es pr (filter (ofSub subID) rs)"
  have old: "oldOf es (filter (ofSub subID) rs) e = Some r" using assms by (intro oldOf_row)
  obtain j where "updateFor status pr j e r \<in> set ?kus" using keyed_exists [OF assms(6) old] by blast
  then have "find (\<lambda>ku. kuID ku = cID r) ?kus \<noteq> None" by (auto simp: find_None_iff updateFor_def)
  then obtain ku where f: "find (\<lambda>ku. kuID ku = cID r) ?kus = Some ku" by blast
  then have ku: "ku \<in> set ?kus" "kuID ku = cID r" by (auto simp: find_Some_iff)
  from ku(1) obtain i e' r' where k: "e' \<in> set es" "oldOf es (filter (ofSub subID) rs) e' = Some r'" "ku = updateFor status pr i e' r'"
    by (rule keyed_mem)
  have "cID r' = cID r" using ku(2) k(3) by (simp add: updateFor_def)
  moreover have "r' \<in> set rs" using oldOf_Some(1) [OF k(2)] by simp
  ultimately have r': "r' = r" using assms(1,4) by (auto simp: distinct_map inj_on_def)
  then have "e' = e" using oldOf_Some(2,3) [OF k(2)] distinct_key_entry [OF assms(3) k(1) assms(6)] assms(7) by simp
  with f k(3) r' show ?thesis using that by (simp add: applyUpdates_def)
qed

lemma incomingKeyE:
  assumes "incomingKey es k"
  obtains e where "e \<in> set es" "eNodeKey e = k" "k \<noteq> []"
  using assms by (auto simp: incomingKey_def)

lemma keptE:
  assumes "\<not> (ofSub subID r \<and> staleRow es r)" "ofSub subID r"
  obtains e where "e \<in> set es" "eNodeKey e = cNodeKey r" "cNodeKey r \<noteq> []"
  using assms incomingKeyE by (auto simp: staleRow_def)

lemma stale_ids:
  assumes "distinct (map cID rs)"
  shows "filter (\<lambda>r. cID r \<notin> cID ` set (filter (staleRow es) (filter (ofSub subID) rs))) rs =
    filter (\<lambda>r. \<not> (ofSub subID r \<and> staleRow es r)) rs"
proof (rule filter_cong [OF refl])
  fix r assume r: "r \<in> set rs"
  show "(cID r \<notin> cID ` set (filter (staleRow es) (filter (ofSub subID) rs))) = (\<not> (ofSub subID r \<and> staleRow es r))"
  proof (cases "ofSub subID r \<and> staleRow es r")
    case True
    with r show ?thesis by simp
  next
    case False
    have "cID r \<noteq> cID r'" if "r' \<in> set (filter (staleRow es) (filter (ofSub subID) rs))" for r'
    proof
      assume "cID r = cID r'"
      with that r assms have "r = r'" by (metis (no_types) distinct_map filter_is_subset inj_onD subsetD)
      with that False show False by simp
    qed
    with False show ?thesis by blast
  qed
qed

lemma refreshed_address:
  assumes "distinct (map cID rs)" "keysDistinct subID rs" "entriesOK es" "r \<in> set rs"
    "\<not> (ofSub subID r \<and> staleRow es r)" "e \<in> set es" "oldOf es (filter (ofSub subID) rs) e = None"
  shows "rowIdentity (applyUpdates refreshedRow (keyedUpdates status es pr (filter (ofSub subID) rs)) r) \<noteq>
    (eAddr e, SourceSubscription, subID)"
proof (cases "ofSub subID r")
  case True
  from keptE [OF assms(5) True] obtain e' where e': "e' \<in> set es" "eNodeKey e' = cNodeKey r" "cNodeKey r \<noteq> []" .
  have "oldOf es (filter (ofSub subID) rs) e' = Some r" using assms True e' by (intro oldOf_row)
  with assms(7) have "e' \<noteq> e" by auto
  with assms(3,6) e'(1) have "eAddr e' \<noteq> eAddr e" by (auto simp: entriesOK_def distinct_map inj_on_def)
  moreover obtain i where "applyUpdates refreshedRow (keyedUpdates status es pr (filter (ofSub subID) rs)) r =
      refreshedRow (updateFor status pr i e' r) r"
    using applied_mine [OF assms(1-4) True e'] .
  ultimately show ?thesis by (simp add: refreshedRow_def updateFor_def rowIdentity_def)
next
  case False
  then show ?thesis using applied_other [OF assms(1,4)] by (auto simp: rowIdentity_def ofSub_def)
qed

lemma keepsInv_InrD: "keepsInv m \<Longrightarrow> db_inv d \<Longrightarrow> m d = (x, d1) \<Longrightarrow> db_inv d1"
  unfolding keepsInv_def by (metis snd_conv)

lemma keeps_deletes:
  "keepsInv (forOp (\<lambda>r. bindOp (deleteProxies (\<lambda>d r'. cID r' = cID r)) (\<lambda>n. returnOp ())) rs)"
  by (intro keeps_forOp keeps_bind keeps_deleteProxies keeps_return)

lemma keeps_updates:
  assumes "\<And>ku r. cID (g ku r) = cID r"
  shows "keepsInv (forOp (\<lambda>ku. bindOp (updateProxies (\<lambda>d r. cID r = kuID ku) (\<lambda>d. g ku)) (\<lambda>n. returnOp ())) kus)"
  by (intro keeps_forOp keeps_bind keeps_updateProxies keeps_return assms)

lemma preUpdate_id [simp]: "cID (preUpdate ku r) = cID r"
  by (simp add: preUpdate_def clearEvidence_def Let_def)

lemma insert_addresses:
  "entriesOK es \<Longrightarrow> distinct (map (eAddr \<circ> piEntry) (pendingInserts es pr mine))"
  unfolding map_map [symmetric] insert_entries by (simp add: entriesOK_def distinct_map_filter)

lemma insert_mem:
  assumes "p \<in> set (pendingInserts es pr mine)"
  shows "piEntry p \<in> set es" "oldOf es mine (piEntry p) = None"
proof -
  have "piEntry p \<in> set (map piEntry (pendingInserts es pr mine))" using assms by simp
  then show "piEntry p \<in> set es" "oldOf es mine (piEntry p) = None" by (simp_all add: insert_entries)
qed

lemma refreshedRow_alt: "(\<lambda>ku r. (preUpdate ku r)\<lparr>cAddress := eAddr (kuEntry ku)\<rparr>) = refreshedRow"
  by (simp add: refreshedRow_def fun_eq_iff)

text \<open>The four loops of a successful replacement.\<close>

lemma replaceRows_stages:
  assumes "replaceRows subID es status pr mine d = (Inr ps, d')"
  obtains u1 u2 u3 ips d1 d2 d3 d4 where
    "forOp (\<lambda>r. bindOp (deleteProxies (\<lambda>d r'. cID r' = cID r)) (\<lambda>n. returnOp ())) (filter (staleRow es) mine) d = (Inr u1, d1)"
    "forOp (\<lambda>ku. bindOp (updateProxies (\<lambda>d r. cID r = kuID ku) (\<lambda>d. preUpdate ku)) (\<lambda>n. returnOp ()))
       (keyedUpdates status es pr mine) d1 = (Inr u2, d2)"
    "forOp (\<lambda>ku. bindOp (updateProxies (\<lambda>d r. cID r = kuID ku) (\<lambda>d r. r\<lparr>cAddress := eAddr (kuEntry ku)\<rparr>))
       (\<lambda>n. returnOp ())) (keyedUpdates status es pr mine) d2 = (Inr u3, d3)"
    "mapOp (insertEntry subID) (pendingInserts es pr mine) d3 = (Inr ips, d4)" "proxies d' = proxies d4"
proof -
  have fin: "proxies d2 = proxies d1" if "updateSubscriptions P f d1 = (Inr n, d2)" for P f n d1 d2
    using that by (auto simp: updateSubscriptions_def execSQL_unfold Let_def split: if_splits)
  show ?thesis
    using assms unfolding replaceRows_def Let_def
    apply (elim bindOp_InrD)
    apply (rule that, assumption+)
    apply (drule fin)
    by (simp add: returnOp_def failOp_def split: if_splits)
qed

lemma replaceRows_table:
  fixes d :: DB and subID :: int
  defines "mine \<equiv> filter (ofSub subID) (proxies d)"
  assumes run: "replaceRows subID es status mine mine d = (Inr ps, d')"
    and inv: "db_inv d" and es: "entriesOK es" and keys: "keysDistinct subID (proxies d)"
  shows "proxies d' = replacedTable subID es status d"
proof -
  let ?kus = "keyedUpdates status es mine mine"
  let ?ins = "pendingInserts es mine mine"
  let ?kept = "filter (\<lambda>r. \<not> (ofSub subID r \<and> staleRow es r)) (proxies d)"
  have ids: "distinct (map cID (proxies d))" using inv by (simp add: db_inv_def)
  have kids: "distinct (map kuID ?kus)" using ids by (intro keyed_ids_distinct es) (simp add: mine_def distinct_map_filter)
  from replaceRows_stages [OF run] obtain u1 u2 u3 ips d1 d2 d3 d4 where
    d1: "forOp (\<lambda>r. bindOp (deleteProxies (\<lambda>d r'. cID r' = cID r)) (\<lambda>n. returnOp ())) (filter (staleRow es) mine) d = (Inr u1, d1)"
    and d2: "forOp (\<lambda>ku. bindOp (updateProxies (\<lambda>d r. cID r = kuID ku) (\<lambda>d. preUpdate ku)) (\<lambda>n. returnOp ())) ?kus d1 = (Inr u2, d2)"
    and d3: "forOp (\<lambda>ku. bindOp (updateProxies (\<lambda>d r. cID r = kuID ku) (\<lambda>d r. r\<lparr>cAddress := eAddr (kuEntry ku)\<rparr>))
        (\<lambda>n. returnOp ())) ?kus d2 = (Inr u3, d3)"
    and d4: "mapOp (insertEntry subID) ?ins d3 = (Inr ips, d4)" and p': "proxies d' = proxies d4" .
  have s1: "proxies d1 = ?kept" "nextProxyID d1 = nextProxyID d" "sameRest d d1"
    using deletes_spec [OF d1] stale_ids [OF ids] by (simp_all add: mine_def)
  have s2: "proxies d2 = map (applyUpdates preUpdate ?kus) ?kept" "nextProxyID d2 = nextProxyID d" "sameRest d d2"
    using updates_spec [OF d2] fold_updates [OF kids] s1 sameRest_trans [OF s1(3)] by simp_all
  have s3: "proxies d3 = map (applyUpdates refreshedRow ?kus) ?kept" "nextProxyID d3 = nextProxyID d" "sameRest d d3"
    using updates_spec [OF d3] fold_updates [OF kids, of "\<lambda>ku r. r\<lparr>cAddress := eAddr (kuEntry ku)\<rparr>"] s2
      sameRest_trans [OF s2(3)] by (simp_all add: applyUpdates_twice refreshedRow_alt)
  have "db_inv d1" by (rule keepsInv_InrD [OF keeps_deletes inv d1])
  then have "db_inv d2" using keepsInv_InrD [OF keeps_updates [of preUpdate]] d2 by simp
  then have "db_inv d3" using keepsInv_InrD [OF keeps_updates [of "\<lambda>ku r. r\<lparr>cAddress := eAddr (kuEntry ku)\<rparr>"]] d3 by simp
  then have u3: "identitiesUnique (proxies d3)" by (simp add: db_inv_def)
  have fresh: "\<forall>p\<in>set ?ins. (eAddr (piEntry p), SourceSubscription, subID) \<notin> rowIdentity ` set (proxies d3)"
    using refreshed_address [OF ids keys es] insert_mem by (fastforce simp: s3(1) mine_def)
  from inserts_spec [OF d4 u3 fresh insert_addresses [OF es]] s3 p' show ?thesis
    by (simp add: replacedTable_def mine_def sameRest_def Let_def)
qed

section \<open>The rows of the subscription\<close>

text \<open>The entry a row stores.\<close>

definition rowEntry :: "ProxyRow \<Rightarrow> subscriptionProxyEntry" where
  "rowEntry r = \<lparr>eAddr = cAddress r, eProto = cProtocol r, eDual = (cDualProtocol r \<noteq> 0),
     eUsername = cProxyUsername r, ePassword = cProxyPassword r, eNodeKey = cNodeKey r\<rparr>"

lemma rowEntry_refreshed [simp]: "rowEntry (refreshedRow (updateFor st pr i e r) r) = e"
  by (simp add: rowEntry_def refreshedRow_def updateFor_def preUpdate_def Let_def intOfBool_def)

lemma rowEntry_inserted [simp]: "rowEntry ((insertedRow subID p)\<lparr>cID := n, cCreatedAt := t\<rparr>) = piEntry p"
  by (simp add: rowEntry_def insertedRow_def Let_def intOfBool_def)

lemma ofSub_refreshed [simp]: "ofSub subID (refreshedRow ku r) = ofSub subID r"
  by (simp add: ofSub_def refreshedRow_def)

lemma ofSub_inserted: "list_all (ofSub subID) (insertedRows subID n t ps)"
  by (induction ps arbitrary: n) (simp_all add: ofSub_def insertedRow_def Let_def)

lemma entries_inserted: "map rowEntry (insertedRows subID n t ps) = map piEntry ps"
  by (induction ps arbitrary: n) simp_all

lemma disabled_inserted: "list_all (\<lambda>r. cStatus r = ''disabled'') (insertedRows subID n t ps)"
  by (induction ps arbitrary: n) (simp_all add: insertedRow_def Let_def)

text \<open>A row of the subscription in the new table: a known row that took its entry, or an inserted one.\<close>

lemma replacedTable_mine:
  assumes "distinct (map cID (proxies d))" "keysDistinct subID (proxies d)" "entriesOK es"
    "r \<in> set (replacedTable subID es status d)" "ofSub subID r"
  obtains
    (known) i e old where "old \<in> set (proxies d)" "ofSub subID old" "e \<in> set es" "eNodeKey e = cNodeKey old"
      "r = refreshedRow (updateFor status (filter (ofSub subID) (proxies d)) i e old) old"
  | (fresh) "r \<in> set (insertedRows subID (nextProxyID d) (now d)
      (pendingInserts es (filter (ofSub subID) (proxies d)) (filter (ofSub subID) (proxies d))))"
proof (cases "r \<in> set (insertedRows subID (nextProxyID d) (now d)
      (pendingInserts es (filter (ofSub subID) (proxies d)) (filter (ofSub subID) (proxies d))))")
  case True
  then show thesis by (rule fresh)
next
  case False
  let ?mine = "filter (ofSub subID) (proxies d)"
  from False assms(4) obtain old where old: "old \<in> set (proxies d)" "\<not> (ofSub subID old \<and> staleRow es old)"
    "r = applyUpdates refreshedRow (keyedUpdates status es ?mine ?mine) old"
    by (auto simp: replacedTable_def Let_def)
  have own: "ofSub subID old"
  proof (rule ccontr)
    assume no: "\<not> ofSub subID old"
    then have "r = old" using applied_other [OF assms(1) old(1) no] old(3) by simp
    with no assms(5) show False by simp
  qed
  from keptE [OF old(2) own] obtain e where e: "e \<in> set es" "eNodeKey e = cNodeKey old" "cNodeKey old \<noteq> []" .
  from applied_mine [OF assms(1-3) old(1) own e] old(3) known [OF old(1) own e(1,2)] show thesis by metis
qed

lemma replacedTable_known:
  assumes "distinct (map cID (proxies d))" "keysDistinct subID (proxies d)" "entriesOK es"
    "old \<in> set (proxies d)" "ofSub subID old" "e \<in> set es" "eNodeKey e = cNodeKey old" "cNodeKey old \<noteq> []"
  obtains i where "refreshedRow (updateFor status (filter (ofSub subID) (proxies d)) i e old) old \<in>
    set (replacedTable subID es status d)"
proof -
  let ?mine = "filter (ofSub subID) (proxies d)"
  obtain i where i: "applyUpdates refreshedRow (keyedUpdates status es ?mine ?mine) old =
      refreshedRow (updateFor status ?mine i e old) old"
    using applied_mine [OF assms] .
  have "\<not> staleRow es old" using assms(6-8) by (auto simp: staleRow_def incomingKey_def image_iff intro!: bexI [of _ e])
  with assms(4) i [symmetric] show thesis
    by (intro that [of i]) (auto simp: replacedTable_def Let_def)
qed

lemma replacedTable_entries:
  assumes "distinct (map cID (proxies d))" "keysDistinct subID (proxies d)" "entriesOK es"
  shows "rowEntry ` set (filter (ofSub subID) (replacedTable subID es status d)) = set es"
proof (intro equalityI subsetI)
  let ?mine = "filter (ofSub subID) (proxies d)"
  let ?ins = "pendingInserts es ?mine ?mine"
  have ins: "rowEntry ` set (insertedRows subID (nextProxyID d) (now d) ?ins) = {e \<in> set es. oldOf es ?mine e = None}"
    using arg_cong [OF entries_inserted [of subID "nextProxyID d" "now d" ?ins], of set] arg_cong [OF insert_entries [of es ?mine ?mine], of set]
    by simp
  fix e
  {
    assume "e \<in> rowEntry ` set (filter (ofSub subID) (replacedTable subID es status d))"
    then obtain r where r: "r \<in> set (replacedTable subID es status d)" "ofSub subID r" "e = rowEntry r" by auto
    from assms r(1,2) show "e \<in> set es"
      by (cases rule: replacedTable_mine) (use r(3) ins in auto)
  next
    assume e: "e \<in> set es"
    show "e \<in> rowEntry ` set (filter (ofSub subID) (replacedTable subID es status d))"
    proof (cases "oldOf es ?mine e")
      case None
      with e ins have "e \<in> rowEntry ` set (insertedRows subID (nextProxyID d) (now d) ?ins)" by simp
      then obtain r where r: "r \<in> set (insertedRows subID (nextProxyID d) (now d) ?ins)" "e = rowEntry r" by (rule imageE) blast
      have "ofSub subID r" using ofSub_inserted r(1) unfolding list_all_iff by (rule bspec)
      with r(1) have "r \<in> set (filter (ofSub subID) (replacedTable subID es status d))"
        by (simp add: replacedTable_def Let_def)
      from imageI [OF this, of rowEntry] show ?thesis using r(2) by simp
    next
      case (Some old)
      from oldOf_Some [OF Some] have o: "old \<in> set (proxies d)" "ofSub subID old" "eNodeKey e = cNodeKey old" "cNodeKey old \<noteq> []"
        by simp_all
      obtain i where i: "refreshedRow (updateFor status ?mine i e old) old \<in> set (replacedTable subID es status d)"
        using replacedTable_known [OF assms o(1,2) e o(3,4)] .
      with o(2) have "refreshedRow (updateFor status ?mine i e old) old \<in> set (filter (ofSub subID) (replacedTable subID es status d))"
        by simp
      from imageI [OF this, of rowEntry] show ?thesis by simp
    qed
  }
qed

lemma replacedTable_others:
  assumes "distinct (map cID (proxies d))" "keysDistinct subID (proxies d)" "entriesOK es"
  shows "filter (\<lambda>r. \<not> ofSub subID r) (replacedTable subID es status d) = filter (\<lambda>r. \<not> ofSub subID r) (proxies d)"
proof -
  let ?mine = "filter (ofSub subID) (proxies d)"
  let ?f = "applyUpdates refreshedRow (keyedUpdates status es ?mine ?mine)"
  have sub: "ofSub subID (applyUpdates refreshedRow kus r) = ofSub subID r" for kus r
    by (simp add: applyUpdates_def split: option.split)
  have keep: "filter (\<lambda>r. \<not> ofSub subID r) (filter (\<lambda>r. \<not> (ofSub subID r \<and> staleRow es r)) rs) =
      filter (\<lambda>r. \<not> ofSub subID r) rs" for rs by (induction rs) auto
  have none: "filter (\<lambda>r. \<not> ofSub subID r) (insertedRows subID n t ps) = []" for n t ps
    using ofSub_inserted by (simp add: filter_empty_conv list_all_iff)
  have "filter (\<lambda>r. \<not> ofSub subID r) (replacedTable subID es status d) =
      map ?f (filter (\<lambda>r. \<not> ofSub subID r) (proxies d))"
    by (simp only: replacedTable_def Let_def filter_append none append_Nil2 filter_map comp_def sub keep)
  also have "\<dots> = filter (\<lambda>r. \<not> ofSub subID r) (proxies d)"
    using applied_other [OF assms(1)] by (intro map_idI) simp
  finally show ?thesis .
qed

section \<open>The replacement\<close>

lemma replace_table:
  assumes "replaceSubscriptionProxies subID entries d = (Inr ps, d')" "db_inv d" "keysDistinct subID (proxies d)"
  obtains status where "status \<in> sStatus ` {s \<in> set (subscriptions d). sID s = subID}"
    "proxies d' = replacedTable subID (normalizeSubscriptionProxyEntries entries) status d"
proof -
  let ?es = "normalizeSubscriptionProxyEntries entries"
  from withTx_InrE [OF assms(1) [unfolded replaceSubscriptionProxies_def Let_def]] obtain d1 where
    b: "bindOp (querySQL (\<lambda>d. map_option sStatus (find (\<lambda>s. sID s = subID) (subscriptions d)))) (\<lambda>st. case st of
          None \<Rightarrow> failOp ErrNoRows
        | Some status \<Rightarrow> bindOp (querySQL (\<lambda>d. filter (ofSub subID) (proxies d))) (\<lambda>pauseRows.
            bindOp (querySQL (\<lambda>d. filter (ofSub subID) (proxies d))) (\<lambda>mine.
            replaceRows subID ?es status pauseRows mine))) (dropFault d) = (Inr ps, d1)" and d': "d' = dropFault d1" .
  define d3 where "d3 = dropFault (dropFault (dropFault (dropFault d)))"
  have t: "proxies d3 = proxies d" "subscriptions d3 = subscriptions d" "nextProxyID d3 = nextProxyID d"
    "now d3 = now d" "db_inv d3" using assms(2) by (simp_all add: d3_def)
  from b obtain status where st: "map_option sStatus (find (\<lambda>s. sID s = subID) (subscriptions d)) = Some status"
    and run: "replaceRows subID ?es status (filter (ofSub subID) (proxies d3)) (filter (ofSub subID) (proxies d3)) d3 = (Inr ps, d1)"
    by (auto simp: bindOp_def querySQL_unfold failOp_def t d3_def split: if_splits option.splits)
  from st have "status \<in> sStatus ` {s \<in> set (subscriptions d). sID s = subID}"
    by (auto simp: find_Some_iff)
  moreover have "proxies d' = replacedTable subID ?es status d"
    using replaceRows_table [OF run t(5) normalize_OK] assms(3) d' by (simp add: t replacedTable_def)
  ultimately show thesis by (rule that)
qed

lemma entries_mset:
  assumes "db_inv d'" "entriesOK es" "rowEntry ` set (filter (ofSub subID) (proxies d')) = set es"
  shows "mset (map rowEntry (filter (ofSub subID) (proxies d'))) = mset es"
proof -
  have "distinct (map rowIdentity (filter (ofSub subID) (proxies d')))"
    using assms(1) by (simp add: db_inv_def identitiesUnique_def distinct_map_filter)
  moreover have "map rowIdentity (filter (ofSub subID) (proxies d')) =
      map (\<lambda>e. (eAddr e, SourceSubscription, subID)) (map rowEntry (filter (ofSub subID) (proxies d')))"
    by (simp add: rowIdentity_def rowEntry_def ofSub_def)
  ultimately have "distinct (map rowEntry (filter (ofSub subID) (proxies d')))" by (metis distinct_map)
  moreover have "distinct es" using assms(2) by (simp add: entriesOK_def distinct_map)
  ultimately show ?thesis using assms(3) by (metis list.set_map set_eq_iff_mset_eq_distinct)
qed

lemma keysDistinct_entries:
  assumes "entriesOK es" "mset (map rowEntry (filter (ofSub subID) rs)) = mset es"
  shows "keysDistinct subID rs"
proof -
  have "map cNodeKey (filter (\<lambda>r. ofSub subID r \<and> cNodeKey r \<noteq> []) rs) =
      filter (\<lambda>k. k \<noteq> []) (map eNodeKey (map rowEntry (filter (ofSub subID) rs)))"
    by (induction rs) (simp_all add: rowEntry_def)
  moreover have "mset (filter (\<lambda>k. k \<noteq> []) (map eNodeKey (map rowEntry (filter (ofSub subID) rs)))) =
      mset (filter (\<lambda>k. k \<noteq> []) (map eNodeKey es))"
    using assms(2) by (simp only: mset_filter mset_map)
  ultimately show ?thesis using assms(1) unfolding keysDistinct_def entriesOK_def
    by (metis mset_eq_imp_distinct_iff)
qed

lemma pausedBefore_old:
  assumes "keysDistinct subID rs" "old \<in> set rs" "ofSub subID old" "eNodeKey e = cNodeKey old" "cNodeKey old \<noteq> []"
  shows "pausedBefore (filter (ofSub subID) rs) e \<longleftrightarrow> cUserPaused old = 1"
proof -
  have "r = old" if "r \<in> set rs" "ofSub subID r" "cNodeKey r = cNodeKey old" for r
    using keysDistinctD [OF assms(1), of r old] that assms by simp
  with assms show ?thesis by (auto simp: pausedBefore_def list_ex_iff)
qed

definition keepsHistory :: "ProxyRow \<Rightarrow> ProxyRow \<Rightarrow> bool" where
  "keepsHistory old new \<longleftrightarrow>
     cID new = cID old \<and> cNote new = cNote old \<and> cStarred new = cStarred old \<and> cCreatedAt new = cCreatedAt old \<and>
     cUseCount new = cUseCount old \<and> cSuccessCount new = cSuccessCount old \<and>
     (cUserPaused new = 1 \<longleftrightarrow> cUserPaused old = 1) \<and> (cRegionSource old = ''manual'' \<longrightarrow> cRegion new = cRegion old)"

text \<open>
  C11: Refreshing a subscription replaces its nodes by exactly the normalised entries of the fetched list: whatever
  was stored before, after a successful replacement the rows of the subscription are those entries, each once, the
  rows of every other source are untouched, and a node key still names at most one row.  A node whose key was
  already known keeps its row: its id, note, star, creation time, counters, a region set by hand and the user's
  pause.  A replacement that fails leaves both tables as they were.
\<close>

theorem refresh_replaces_exactly:
  assumes "db_inv d" "keysDistinct subID (proxies d)"
  shows "case replaceSubscriptionProxies subID entries d of
      (Inl err, d') \<Rightarrow> proxies d' = proxies d \<and> subscriptions d' = subscriptions d
    | (Inr ps, d') \<Rightarrow>
        mset (map rowEntry (filter (ofSub subID) (proxies d'))) = mset (normalizeSubscriptionProxyEntries entries) \<and>
        filter (\<lambda>r. \<not> ofSub subID r) (proxies d') = filter (\<lambda>r. \<not> ofSub subID r) (proxies d) \<and>
        keysDistinct subID (proxies d') \<and>
        (\<forall>old\<in>set (proxies d). ofSub subID old \<and> cNodeKey old \<noteq> [] \<and>
           cNodeKey old \<in> eNodeKey ` set (normalizeSubscriptionProxyEntries entries) \<longrightarrow>
           (\<exists>new\<in>set (proxies d'). ofSub subID new \<and> cNodeKey new = cNodeKey old \<and> keepsHistory old new))"
proof (cases "replaceSubscriptionProxies subID entries d")
  case (Pair res d')
  let ?es = "normalizeSubscriptionProxyEntries entries"
  note ids = conjunct1 [OF conjunct2 [OF assms(1) [unfolded db_inv_def]]]
  show ?thesis
  proof (cases res)
    case (Inl err)
    have "atomicOp (replaceSubscriptionProxies subID entries)"
      unfolding replaceSubscriptionProxies_def Let_def by (rule atomic_withTx)
    with Pair Inl assms(1) have "tables d' = tables d" unfolding atomicOp_def by blast
    with Pair Inl show ?thesis by (simp add: tables_def)
  next
    case (Inr ps)
    note run = Pair [unfolded Inr]
    obtain status where t: "proxies d' = replacedTable subID ?es status d"
      using replace_table [OF run assms] .
    have ms: "mset (map rowEntry (filter (ofSub subID) (proxies d'))) = mset ?es"
      using keepsInv_InrD [OF keeps_replace assms(1) run] normalize_OK replacedTable_entries [OF ids assms(2) normalize_OK]
      by (intro entries_mset) (simp_all add: t)
    have known: "\<exists>new\<in>set (proxies d'). ofSub subID new \<and> cNodeKey new = cNodeKey old \<and> keepsHistory old new"
      if old: "old \<in> set (proxies d)" "ofSub subID old" "cNodeKey old \<noteq> []" "cNodeKey old \<in> eNodeKey ` set ?es" for old
    proof -
      from old(4) obtain e where e: "e \<in> set ?es" "eNodeKey e = cNodeKey old" by (rule imageE) simp
      obtain i where n: "refreshedRow (updateFor status (filter (ofSub subID) (proxies d)) i e old) old \<in> set (proxies d')"
        using replacedTable_known [OF ids assms(2) normalize_OK old(1,2) e old(3)] unfolding t .
      have "keepsHistory old (refreshedRow (updateFor status (filter (ofSub subID) (proxies d)) i e old) old)"
        using pausedBefore_old [OF assms(2) old(1,2) e(2) old(3)]
        by (simp add: keepsHistory_def refreshedRow_def updateFor_def preUpdate_def clearEvidence_def Let_def intOfBool_def)
      moreover have "cNodeKey (refreshedRow (updateFor status (filter (ofSub subID) (proxies d)) i e old) old) = cNodeKey old"
        using e(2) by (simp add: refreshedRow_def updateFor_def preUpdate_def Let_def)
      ultimately show ?thesis using old(2) by (intro bexI [OF _ n]) simp
    qed
    show ?thesis
      using run ms replacedTable_others [OF ids assms(2) normalize_OK] keysDistinct_entries [OF normalize_OK ms] known
      by (simp add: t)
  qed
qed

text \<open>A subscription with a verified node, one of its fetched lists repeats that node, drops another and adds one.\<close>

definition verifiedRow :: ProxyRow where
  "verifiedRow = defaultRow\<lparr>cID := 1, cAddress := ''h1'', cProtocol := ''http'', cSource := SourceSubscription,
     cSubscriptionID := 1, cExitCheckedAt := Some 5, cExitIP := ''1.2.3.4'', cExitLocation := ''US'', cLatency := 9,
     cNodeKey := ''k1'', cStarred := 1\<rparr>"

definition refreshDB :: DB where
  "refreshDB = (emptyDB 0 [])\<lparr>
     proxies := [verifiedRow, verifiedRow\<lparr>cID := 2, cAddress := ''h2'', cNodeKey := ''k2''\<rparr>], nextProxyID := 3,
     subscriptions := [defaultSubscription\<lparr>sID := 1, sURL := ''u''\<rparr>], nextSubID := 2\<rparr>"

definition refreshEntries :: "subscriptionProxyEntry list" where
  "refreshEntries = [rowEntry verifiedRow, (rowEntry verifiedRow)\<lparr>eAddr := ''h3'', eNodeKey := ''k3''\<rparr>,
     (rowEntry verifiedRow)\<lparr>eAddr := ''h4''\<rparr>]"

lemma refreshDB_ok: "db_inv refreshDB \<and> keysDistinct 1 (proxies refreshDB)"
  by code_simp

lemma refreshDB_run:
  obtains ps d' where "replaceSubscriptionProxies 1 refreshEntries refreshDB = (Inr ps, d')"
    "map cStatus (proxies d') = [''active'', ''disabled'']" "list_all (ofSub 1) (proxies d')"
proof -
  have "case replaceSubscriptionProxies 1 refreshEntries refreshDB of
     (Inr ps, d') \<Rightarrow> map cStatus (proxies d') = [''active'', ''disabled''] \<and> list_all (ofSub 1) (proxies d')
   | _ \<Rightarrow> False"
    by code_simp
  then show thesis using that
    by (cases "replaceSubscriptionProxies 1 refreshEntries refreshDB") (simp split: sum.splits)
qed

theorem refresh_replaces_exactly_witness:
  "\<exists>ps d'. replaceSubscriptionProxies 1 refreshEntries refreshDB = (Inr ps, d') \<and>
    mset (map rowEntry (filter (ofSub 1) (proxies d'))) = mset (normalizeSubscriptionProxyEntries refreshEntries) \<and>
    keysDistinct 1 (proxies d')"
proof -
  obtain ps d' where run: "replaceSubscriptionProxies 1 refreshEntries refreshDB = (Inr ps, d')"
    using refreshDB_run .
  from refresh_replaces_exactly [OF conjunct1 [OF refreshDB_ok] conjunct2 [OF refreshDB_ok], of refreshEntries]
  show ?thesis by (simp add: run)
qed

text \<open>
  C12: A refresh never makes a node selectable that was not verified on the same route: a row of the subscription
  whose status after the replacement is not disabled is a row that was active, unpaused, without failures and with
  recorded evidence of its exit before, whose address, protocol and credentials the fetched list repeats unchanged,
  and the subscription itself is active.
\<close>

theorem refresh_trusts_only_verified:
  assumes "replaceSubscriptionProxies subID entries d = (Inr ps, d')" "db_inv d" "keysDistinct subID (proxies d)"
    "r \<in> set (proxies d')" "ofSub subID r" "cStatus r \<noteq> ''disabled''"
  shows "\<exists>old\<in>set (proxies d). cID old = cID r \<and> rowEntry old = rowEntry r \<and> cStatus old = ''active'' \<and>
    cUserPaused old = 0 \<and> cFailCount old = 0 \<and> cExitCheckedAt old \<noteq> None \<and> cExitIP old \<noteq> [] \<and> cLatency old > 0 \<and>
    ''active'' \<in> sStatus ` {s \<in> set (subscriptions d). sID s = subID}"
proof -
  note ids = conjunct1 [OF conjunct2 [OF assms(2) [unfolded db_inv_def]]]
  obtain status where st: "status \<in> sStatus ` {s \<in> set (subscriptions d). sID s = subID}"
    and t: "proxies d' = replacedTable subID (normalizeSubscriptionProxyEntries entries) status d"
    using replace_table [OF assms(1-3)] .
  show ?thesis using ids assms(3) normalize_OK assms(4) [unfolded t] assms(5)
  proof (cases rule: replacedTable_mine)
    case (known i e old)
    have "kuStatus (updateFor status (filter (ofSub subID) (proxies d)) i e old) \<noteq> ''disabled''"
      using assms(6) known(5) by (simp add: refreshedRow_def preUpdate_def Let_def updateFor_def)
    then have p: "preserveActive status e old" by (simp add: kuStatus_def updateFor_def split: if_splits)
    have "rowEntry old = e" using p by (auto simp: preserveActive_def resetEvidence_def rowEntry_def)
    moreover have "rowEntry r = e" "cID r = cID old"
      unfolding known(5) by (simp_all only: rowEntry_refreshed) (simp add: refreshedRow_def)
    ultimately show ?thesis using p known(1) st by (intro bexI [of _ old]) (auto simp: preserveActive_def)
  next
    case fresh
    have "cStatus r = ''disabled''" using disabled_inserted fresh unfolding list_all_iff by (rule bspec)
    with assms(6) show ?thesis by simp
  qed
qed

theorem refresh_trusts_only_verified_witness:
  "\<exists>ps d' r. replaceSubscriptionProxies 1 refreshEntries refreshDB = (Inr ps, d') \<and> r \<in> set (proxies d') \<and>
    cStatus r = ''active'' \<and> (\<exists>old\<in>set (proxies refreshDB). cID old = cID r \<and> rowEntry old = rowEntry r)"
proof -
  obtain ps d' where run: "replaceSubscriptionProxies 1 refreshEntries refreshDB = (Inr ps, d')"
    and st: "map cStatus (proxies d') = [''active'', ''disabled'']" and own: "list_all (ofSub 1) (proxies d')"
    using refreshDB_run .
  from st obtain r where r: "r \<in> set (proxies d')" "cStatus r = ''active''" by (cases "proxies d'") auto
  have "ofSub 1 r" using own r(1) unfolding list_all_iff by (rule bspec)
  with refresh_trusts_only_verified [OF run conjunct1 [OF refreshDB_ok] conjunct2 [OF refreshDB_ok] r(1)] r
  have "\<exists>old\<in>set (proxies refreshDB). cID old = cID r \<and> rowEntry old = rowEntry r" by auto
  with run r show ?thesis by blast
qed

end
