(* ===== verification/UrlParse.thy ===== *)
theory UrlParse
  imports NetAddr
begin

text \<open>
  What the program uses of \<open>net/url\<close>: \<open>url.Parse\<close> as in Go 1.25.0 (the version \<open>go.mod\<close> names) with its checks of the
  authority, the unescaping of every part, \<open>Hostname\<close> and \<open>Port\<close>, and the query string. Of the path only whether it
  unescapes matters.
\<close>

section \<open>Unescaping\<close>

datatype escapeMode = EncPath | EncHost | EncZone | EncUserPassword | EncQueryComponent | EncFragment

text \<open>What \<open>shouldEscape\<close> leaves alone in a host.\<close>

definition hostByte :: "char \<Rightarrow> bool" where
  "hostByte c \<longleftrightarrow> isASCIIUpper c \<or> isASCIILower c \<or> isDigitChar c \<or> c \<in> set ''!$&()*+,;=:[]<>-_.~'' \<or> c = CHR 0x22 \<or> c = CHR 0x27"

text \<open>An escape in a host must stand for a byte outside ASCII, or be the percent sign.\<close>

definition escapeAllowed :: "escapeMode \<Rightarrow> nat \<Rightarrow> nat \<Rightarrow> bool" where
  "escapeAllowed mode h l \<longleftrightarrow>
     (mode = EncHost \<longrightarrow> h \<ge> 8 \<or> (h, l) = (2, 5)) \<and>
     (mode = EncZone \<longrightarrow> (h, l) = (2, 5) \<or> h * 16 + l = 32 \<or> hostByte (char_of (h * 16 + l)))"

fun unescape :: "escapeMode \<Rightarrow> string \<Rightarrow> string option" where
  "unescape mode [] = Some []"
| "unescape mode (c # s) =
     (if c = CHR ''%'' then
        (case s of
           a # b # t \<Rightarrow>
             (case (hexDigit a, hexDigit b) of
                (Some h, Some l) \<Rightarrow>
                  if escapeAllowed mode h l then map_option ((#) (char_of (h * 16 + l))) (unescape mode t) else None
              | _ \<Rightarrow> None)
         | _ \<Rightarrow> None)
      else if mode = EncQueryComponent \<and> c = CHR ''+'' then map_option ((#) CHR 0x20) (unescape mode s)
      else if (mode = EncHost \<or> mode = EncZone) \<and> byte c < 128 \<and> \<not> hostByte c then None
      else map_option ((#) c) (unescape mode s))"

definition QueryUnescape :: "string \<Rightarrow> string option" where
  "QueryUnescape s = unescape EncQueryComponent s"

section \<open>Parts of a URL\<close>

text \<open>\<open>strings.Cut\<close> at one byte: what is before, what is after, and whether it occurs.\<close>

fun CutByte :: "char \<Rightarrow> string \<Rightarrow> string \<times> string \<times> bool" where
  "CutByte sep [] = ([], [], False)"
| "CutByte sep (c # s) =
     (if c = sep then ([], s, True) else (case CutByte sep s of (b, a, found) \<Rightarrow> (c # b, a, found)))"

text \<open>The scheme and the rest; \<open>None\<close> is a missing scheme.\<close>

fun schemeFrom :: "nat \<Rightarrow> string \<Rightarrow> string \<Rightarrow> string \<Rightarrow> (string \<times> string) option" where
  "schemeFrom i seen [] raw = Some ([], raw)"
| "schemeFrom i seen (c # s) raw =
     (if isASCIIUpper c \<or> isASCIILower c then schemeFrom (Suc i) (seen @ [c]) s raw
      else if isDigitChar c \<or> c \<in> set ''+-.'' then
        (if i = 0 then Some ([], raw) else schemeFrom (Suc i) (seen @ [c]) s raw)
      else if c = CHR '':'' then (if i = 0 then None else Some (seen, s))
      else Some ([], raw))"

definition getScheme :: "string \<Rightarrow> (string \<times> string) option" where
  "getScheme raw = schemeFrom 0 [] raw raw"

definition validOptionalPort :: "string \<Rightarrow> bool" where
  "validOptionalPort port \<longleftrightarrow> (case port of [] \<Rightarrow> True | c # ds \<Rightarrow> c = CHR '':'' \<and> list_all isDigitChar ds)"

definition parseHost :: "string \<Rightarrow> string option" where
  "parseHost host =
     (if HasPrefix host ''['' then
        (let i = LastIndexByte host CHR '']'' in
         if i < 0 then None
         else if \<not> validOptionalPort (drop (nat (i + 1)) host) then None
         else
           (let z = Index (take (nat i) host) ''%25'' in
            if z \<ge> 0 then
              (case (unescape EncHost (take (nat z) host), unescape EncZone (drop (nat z) (take (nat i) host)),
                     unescape EncHost (drop (nat i) host)) of
                 (Some h1, Some h2, Some h3) \<Rightarrow> Some (h1 @ h2 @ h3)
               | _ \<Rightarrow> None)
            else unescape EncHost host))
      else
        (let i = LastIndexByte host CHR '':'' in
         if i \<noteq> - 1 \<and> \<not> validOptionalPort (drop (nat i) host) then None else unescape EncHost host))"

definition validUserinfo :: "string \<Rightarrow> bool" where
  "validUserinfo s \<longleftrightarrow> list_all (\<lambda>c. isASCIIUpper c \<or> isASCIILower c \<or> isDigitChar c \<or> c \<in> set ''-._:~!$&()*+,;=%@'' \<or> c = CHR 0x27) s"

text \<open>The user name, and the password when there is one.\<close>

definition parseUserinfo :: "string \<Rightarrow> (string \<times> string option) option" where
  "parseUserinfo s =
     (if \<not> validUserinfo s then None
      else
        (case CutByte CHR '':'' s of
           (user, pw, found) \<Rightarrow>
             if \<not> found then map_option (\<lambda>u. (u, None)) (unescape EncUserPassword s)
             else
               (case (unescape EncUserPassword user, unescape EncUserPassword pw) of
                  (Some u, Some p) \<Rightarrow> Some (u, Some p)
                | _ \<Rightarrow> None)))"

definition parseAuthority :: "string \<Rightarrow> ((string \<times> string option) option \<times> string) option" where
  "parseAuthority authority =
     (let i = LastIndexByte authority CHR ''@'' in
      if i < 0 then map_option (\<lambda>h. (None, h)) (parseHost authority)
      else
        (case parseHost (drop (nat (i + 1)) authority) of
           None \<Rightarrow> None
         | Some h \<Rightarrow> map_option (\<lambda>u. (Some u, h)) (parseUserinfo (take (nat i) authority))))"

record goURL =
  guUser :: "(string \<times> string option) option"
  guHost :: string
  guRawQuery :: string
  guFragment :: string

definition hasControlByte :: "string \<Rightarrow> bool" where
  "hasControlByte s \<longleftrightarrow> list_ex (\<lambda>c. byte c < 32 \<or> byte c = 127) s"

definition noAuthority :: "string \<Rightarrow> goURL" where
  "noAuthority q = \<lparr>guUser = None, guHost = [], guRawQuery = q, guFragment = []\<rparr>"

text \<open>\<open>parse\<close>, for text without a fragment.\<close>

definition parseRaw :: "string \<Rightarrow> goURL option" where
  "parseRaw raw =
     (if hasControlByte raw then None
      else if raw = ''*'' then Some (noAuthority [])
      else
        (case getScheme raw of
           None \<Rightarrow> None
         | Some (scheme, rest0) \<Rightarrow>
             (case CutByte CHR ''?'' rest0 of
                (rest, q, found) \<Rightarrow>
                  if \<not> HasPrefix rest ''/'' \<and> scheme \<noteq> [] then Some (noAuthority q)
                  else if \<not> HasPrefix rest ''/'' \<and> Contains (fst (CutByte CHR ''/'' rest)) '':'' then None
                  else if (scheme \<noteq> [] \<or> \<not> HasPrefix rest ''///'') \<and> HasPrefix rest ''//'' then
                    (let authority = fst (CutByte CHR ''/'' (drop 2 rest)); path = drop (length authority) (drop 2 rest) in
                     case parseAuthority authority of
                       None \<Rightarrow> None
                     | Some (user, host) \<Rightarrow>
                         if unescape EncPath path = None then None
                         else Some \<lparr>guUser = user, guHost = host, guRawQuery = q, guFragment = []\<rparr>)
                  else if unescape EncPath rest = None then None
                  else Some (noAuthority q))))"

definition parseURL :: "string \<Rightarrow> goURL option" where
  "parseURL raw =
     (case CutByte CHR ''#'' raw of
        (u, frag, found) \<Rightarrow>
          (case parseRaw u of
             None \<Rightarrow> None
           | Some url \<Rightarrow>
               if frag = [] then Some url
               else map_option (\<lambda>f. url\<lparr>guFragment := f\<rparr>) (unescape EncFragment frag)))"

text \<open>\<open>URL.Hostname\<close> and \<open>URL.Port\<close>.\<close>

definition urlHostPort :: "string \<Rightarrow> string \<times> string" where
  "urlHostPort hostPort =
     (let i = LastIndexByte hostPort CHR '':'';
          (host, port) = (if i \<ge> 0 \<and> list_all isDigitChar (drop (nat (i + 1)) hostPort)
                          then (take (nat i) hostPort, drop (nat (i + 1)) hostPort) else (hostPort, [])) in
      (if HasPrefix host ''['' \<and> HasSuffix host '']'' then drop 1 (take (length host - 1) host) else host, port))"

section \<open>The query string\<close>

text \<open>\<open>Query\<close>: fields with a semicolon or a broken escape are left out. \<open>Get\<close> takes the first value of a key.\<close>

definition queryField :: "string \<Rightarrow> (string \<times> string) list" where
  "queryField f =
     (if CHR '';'' \<in> set f \<or> f = [] then []
      else
        (case CutByte CHR ''='' f of
           (k, v, found) \<Rightarrow>
             (case (QueryUnescape k, QueryUnescape v) of (Some k', Some v') \<Rightarrow> [(k', v')] | _ \<Rightarrow> [])))"

definition urlQuery :: "goURL \<Rightarrow> (string \<times> string) list" where
  "urlQuery u = concat (map queryField (SplitByte (guRawQuery u) CHR ''&''))"

definition queryGet :: "(string \<times> string) list \<Rightarrow> string \<Rightarrow> string" where
  "queryGet params k = (case map_of params k of Some v \<Rightarrow> v | None \<Rightarrow> [])"

end
