(* ===== verification/SubscriptionFetch.thy ===== *)
theory SubscriptionFetch
  imports IPRanges HttpWire Json StorageModel UrlParse
begin

text \<open>
  Fetching a subscription from its URL (\<open>custom/manager.go\<close>, \<open>fetchSubscriptionURL\<close> and below): which addresses
  may be dialled, the custom headers, redirects as the client of \<open>net/http\<close> follows them, and the retries.
\<close>

section \<open>Addresses that are never dialled\<close>

definition unsafeSubscriptionPrefixes :: "(nat list \<times> nat) list" where
  "unsafeSubscriptionPrefixes =
     [([100, 64, 0, 0], 10), ([192, 0, 0, 0], 24), ([192, 0, 2, 0], 24), ([192, 88, 99, 0], 24), ([198, 18, 0, 0], 15),
      ([198, 51, 100, 0], 24), ([203, 0, 113, 0], 24), ([240, 0, 0, 0], 4),
      ([0, 100, 255, 155] @ replicate 12 0, 96), ([0, 100, 255, 155, 0, 1] @ replicate 10 0, 48),
      ([1, 0] @ replicate 14 0, 64), ([32, 1, 0, 2] @ replicate 12 0, 48), ([32, 1, 13, 184] @ replicate 12 0, 32)]"

text \<open>
  The classes of \<open>netip.Addr\<close>, on the four or sixteen bytes of an address that is not an IPv4 address mapped into
  IPv6.
\<close>

definition addrIsLinkLocalUnicast :: "nat list \<Rightarrow> bool" where
  "addrIsLinkLocalUnicast c \<longleftrightarrow>
     (if length c = 4 then c ! 0 = 169 \<and> c ! 1 = 254 else and (256 * c ! 0 + c ! 1) 0xFFC0 = 0xFE80)"

definition addrIsGlobalUnicast :: "nat list \<Rightarrow> bool" where
  "addrIsGlobalUnicast c \<longleftrightarrow>
     (if length c = 4 then
        c \<noteq> [0, 0, 0, 0] \<and> c \<noteq> [255, 255, 255, 255] \<and> c ! 0 \<noteq> 127 \<and> and (c ! 0) 0xF0 \<noteq> 0xE0 \<and> \<not> addrIsLinkLocalUnicast c
      else c \<noteq> replicate 16 0 \<and> c \<noteq> replicate 15 0 @ [1] \<and> c ! 0 \<noteq> 255 \<and> \<not> addrIsLinkLocalUnicast c)"

definition addrIsPrivate :: "nat list \<Rightarrow> bool" where
  "addrIsPrivate c \<longleftrightarrow>
     (if length c = 4 then c ! 0 = 10 \<or> c ! 0 = 172 \<and> and (c ! 1) 0xF0 = 16 \<or> c ! 0 = 192 \<and> c ! 1 = 168
      else and (c ! 0) 0xFE = 0xFC)"

definition isUnsafeSubscriptionIP :: "nat list \<Rightarrow> bool" where
  "isUnsafeSubscriptionIP ip =
     (if length ip \<noteq> 4 \<and> length ip \<noteq> 16 then True
      else let addr = (case To4 ip of Some q \<Rightarrow> q | None \<Rightarrow> ip) in
        if \<not> addrIsGlobalUnicast addr \<or> addrIsPrivate addr \<or> addrIsLinkLocalUnicast addr then True
        else list_ex (\<lambda>(base, n). samePrefix n base addr) unsafeSubscriptionPrefixes)"

section \<open>Requests and the outside world\<close>

text \<open>A parsed URL: its text, scheme and host with optional port. Credentials inside a URL are left out.\<close>

record subURL =
  uText :: string
  uScheme :: string
  uHost :: string

type_synonym hdrs = "(string \<times> string) list"

record subRequest =
  rqURL :: subURL
  rqHeaders :: hdrs

record httpAnswer =
  haStatus :: int
  haLocation :: string
  haBody :: string
  haFails :: bool

datatype fetchError =
    ErrParseURL | ErrScheme string | ErrMissingHost | ErrPrivateTarget string | ErrResolvedPrivate string
  | ErrLookup string | ErrDialAddress string | ErrDial string | ErrNoAddress string | ErrHeaders
  | ErrTooManyRedirects | ErrLocation | ErrTransport string | ErrStatus int string | ErrRead | ErrTooLarge | ErrUnknown

text \<open>
  What the code does not decide: how URLs are parsed and references resolved (\<open>net/url\<close>), the ASCII form of a host
  name, the answers of the name server, of the network and of the servers, whether an idle connection is still
  usable, and in which order a map is enumerated. The answers are numbered, so they may change from call to call.
\<close>

record fetchEnv =
  feParse :: "string \<Rightarrow> subURL option"
  feResolve :: "subURL \<Rightarrow> string \<Rightarrow> subURL option"
  feASCII :: "string \<Rightarrow> string"
  feLookup :: "nat \<Rightarrow> string \<Rightarrow> string + nat list list"
  feConnect :: "nat \<Rightarrow> string option"
  feReuse :: "nat \<Rightarrow> bool"
  feAnswer :: "nat \<Rightarrow> string + httpAnswer"
  feRange :: "hdrs \<Rightarrow> hdrs"

text \<open>What has happened: lookups made, addresses dialled, connections kept, requests given to the transport, pauses.\<close>

record fetchState =
  fsLookups :: nat
  fsDialled :: "string list"
  fsConns :: "(string \<times> string) list"
  fsRequests :: "subRequest list"
  fsSleeps :: nat

type_synonym 'a fetch = "fetchState \<Rightarrow> (fetchError + 'a) \<times> fetchState"

section \<open>Host checks and dialling\<close>

definition Hostname :: "subURL \<Rightarrow> string" where
  "Hostname u = fst (urlHostPort (uHost u))"

definition lookupSubscriptionHost :: "fetchEnv \<Rightarrow> string \<Rightarrow> nat list list fetch" where
  "lookupSubscriptionHost env host st =
     (case feLookup env (fsLookups st) host of
        Inl e \<Rightarrow> (Inl (ErrLookup e), st\<lparr>fsLookups := Suc (fsLookups st)\<rparr>)
      | Inr ips \<Rightarrow> (Inr ips, st\<lparr>fsLookups := Suc (fsLookups st)\<rparr>))"

definition validateSubscriptionHost :: "fetchEnv \<Rightarrow> string \<Rightarrow> unit fetch" where
  "validateSubscriptionHost env host st =
     (case ParseIP host of
        Some ip \<Rightarrow> (if isUnsafeSubscriptionIP ip then Inl (ErrPrivateTarget (IPString ip)) else Inr (), st)
      | None \<Rightarrow>
          (case lookupSubscriptionHost env host st of
             (Inl e, st1) \<Rightarrow> (Inl e, st1)
           | (Inr ips, st1) \<Rightarrow>
               (case find isUnsafeSubscriptionIP ips of
                  Some ip \<Rightarrow> (Inl (ErrResolvedPrivate (IPString ip)), st1)
                | None \<Rightarrow> (Inr (), st1))))"

definition validateSubscriptionURLTarget :: "fetchEnv \<Rightarrow> string \<Rightarrow> unit fetch" where
  "validateSubscriptionURLTarget env urlStr st =
     (case feParse env urlStr of
        None \<Rightarrow> (Inl ErrParseURL, st)
      | Some u \<Rightarrow>
          if uScheme u \<noteq> ''http'' \<and> uScheme u \<noteq> ''https'' then (Inl (ErrScheme (uScheme u)), st)
          else if Hostname u = [] then (Inl ErrMissingHost, st)
          else validateSubscriptionHost env (Hostname u) st)"

text \<open>One \<open>Dialer.DialContext\<close>: the address is recorded whether or not the connection comes up.\<close>

definition dialAddr :: "fetchEnv \<Rightarrow> string \<Rightarrow> unit fetch" where
  "dialAddr env address st =
     (case feConnect env (length (fsDialled st)) of
        Some e \<Rightarrow> (Inl (ErrDial e), st\<lparr>fsDialled := fsDialled st @ [address]\<rparr>)
      | None \<Rightarrow> (Inr (), st\<lparr>fsDialled := fsDialled st @ [address]\<rparr>))"

fun dialIPs :: "fetchEnv \<Rightarrow> string \<Rightarrow> string \<Rightarrow> fetchError option \<Rightarrow> nat list list \<Rightarrow> unit fetch" where
  "dialIPs env host port firstErr [] st =
     (case firstErr of Some e \<Rightarrow> (Inl e, st) | None \<Rightarrow> (Inl (ErrNoAddress host), st))"
| "dialIPs env host port firstErr (ip # ips) st =
     (if isUnsafeSubscriptionIP ip then (Inl (ErrResolvedPrivate (IPString ip)), st)
      else
        (case dialAddr env (JoinHostPort (IPString ip) port) st of
           (Inr u, st1) \<Rightarrow> (Inr u, st1)
         | (Inl e, st1) \<Rightarrow> dialIPs env host port (if firstErr = None then Some e else firstErr) ips st1))"

definition safeSubscriptionDialContext :: "fetchEnv \<Rightarrow> string \<Rightarrow> unit fetch" where
  "safeSubscriptionDialContext env address st =
     (case SplitHostPort address of
        None \<Rightarrow> (Inl (ErrDialAddress address), st)
      | Some (host, port) \<Rightarrow>
          (case validateSubscriptionHost env host st of
             (Inl e, st1) \<Rightarrow> (Inl e, st1)
           | (Inr u, st1) \<Rightarrow>
               (case lookupSubscriptionHost env host st1 of
                  (Inl e, st2) \<Rightarrow> (Inl e, st2)
                | (Inr ips, st2) \<Rightarrow> dialIPs env host port None ips st2)))"

section \<open>Headers\<close>

text \<open>\<open>Header.Set\<close> and \<open>Header.Get\<close>; the code sets at most one value of a key.\<close>

definition hdrSet :: "string \<Rightarrow> string \<Rightarrow> hdrs \<Rightarrow> hdrs" where
  "hdrSet k v h = (CanonicalKey k, v) # filter (\<lambda>(k', _). k' \<noteq> CanonicalKey k) h"

definition hdrGet :: "hdrs \<Rightarrow> string \<Rightarrow> string" where
  "hdrGet h k = (case map_of h (CanonicalKey k) of Some v \<Rightarrow> v | None \<Rightarrow> [])"

text \<open>Decoding into \<open>map[string]string\<close>: a null keeps the zero value, any other value that is no string is an error.\<close>

fun decodeStringMembers :: "(string \<times> json) list \<Rightarrow> hdrs \<Rightarrow> hdrs option" where
  "decodeStringMembers [] m = Some m"
| "decodeStringMembers ((k, JStr v) # ms) m = decodeStringMembers ms ((k, v) # filter (\<lambda>(k', _). k' \<noteq> k) m)"
| "decodeStringMembers ((k, JNull) # ms) m = decodeStringMembers ms ((k, []) # filter (\<lambda>(k', _). k' \<noteq> k) m)"
| "decodeStringMembers _ m = None"

definition parseSubscriptionHeaders :: "string \<Rightarrow> hdrs option" where
  "parseSubscriptionHeaders headersJSON =
     (if headersJSON = [] then Some []
      else (case parseJSON headersJSON of Some (JObj ms) \<Rightarrow> decodeStringMembers ms [] | _ \<Rightarrow> None))"

definition ValidateSubscriptionHeaders :: "string \<Rightarrow> bool" where
  "ValidateSubscriptionHeaders headersJSON \<longleftrightarrow> parseSubscriptionHeaders headersJSON \<noteq> None"

definition buildSubscriptionRequest :: "fetchEnv \<Rightarrow> string \<Rightarrow> string \<Rightarrow> fetchError + subRequest" where
  "buildSubscriptionRequest env urlStr headersJSON =
     (case feParse env urlStr of
        None \<Rightarrow> Inl ErrParseURL
      | Some u \<Rightarrow>
          (case parseSubscriptionHeaders headersJSON of
             None \<Rightarrow> Inl ErrHeaders
           | Some custom \<Rightarrow>
               Inr \<lparr>rqURL = u,
                    rqHeaders = fold (\<lambda>(k, v) h. if k \<noteq> [] then hdrSet k v h else h) (feRange env custom)
                      (hdrSet ''User-Agent'' ''v2rayN'' [])\<rparr>))"

section \<open>Redirects\<close>

definition sameSubscriptionOrigin :: "subURL \<Rightarrow> subURL \<Rightarrow> bool" where
  "sameSubscriptionOrigin a b \<longleftrightarrow> EqualFold (uScheme a) (uScheme b) \<and> EqualFold (uHost a) (uHost b)"

definition subscriptionCheckRedirect :: "fetchEnv \<Rightarrow> subRequest \<Rightarrow> subRequest list \<Rightarrow> subRequest fetch" where
  "subscriptionCheckRedirect env req via st =
     (if length via \<ge> 5 then (Inl ErrTooManyRedirects, st)
      else
        (case validateSubscriptionURLTarget env (uText (rqURL req)) st of
           (Inl e, st1) \<Rightarrow> (Inl e, st1)
         | (Inr u, st1) \<Rightarrow>
             if via = [] then (Inr req, st1)
             else if sameSubscriptionOrigin (rqURL (last via)) (rqURL req) then (Inr req, st1)
             else (let ua = hdrGet (rqHeaders req) ''User-Agent'' in
               (Inr (req\<lparr>rqHeaders := (if ua \<noteq> [] then hdrSet ''User-Agent'' ua [] else [])\<rparr>), st1))))"

text \<open>
  The client of \<open>net/http\<close>: the headers of a redirected request are copied from the first request, without the
  sensitive ones once the host is not the first one or below it, and the previous URL becomes the referrer.
\<close>

definition sensitiveHeader :: "string \<Rightarrow> bool" where
  "sensitiveHeader k \<longleftrightarrow> k \<in> set [''Authorization'', ''Www-Authenticate'', ''Cookie'', ''Cookie2'', ''Proxy-Authorization'', ''Proxy-Authenticate'']"

definition isDomainOrSubdomain :: "string \<Rightarrow> string \<Rightarrow> bool" where
  "isDomainOrSubdomain sub parent \<longleftrightarrow>
     (if sub = parent then True
      else if list_ex (\<lambda>c. c = CHR '':'' \<or> c = CHR ''%'') sub then False
      else HasSuffix sub (CHR ''.'' # parent))"

definition copyHeaders :: "bool \<Rightarrow> hdrs \<Rightarrow> hdrs" where
  "copyHeaders strip h = filter (\<lambda>(k, _). \<not> (sensitiveHeader k \<and> strip)) h"

definition refererForURL :: "subURL \<Rightarrow> subURL \<Rightarrow> string \<Rightarrow> string" where
  "refererForURL lastURL newURL explicitRef =
     (if uScheme lastURL = ''https'' \<and> uScheme newURL = ''http'' then []
      else if explicitRef \<noteq> [] then explicitRef else uText lastURL)"

definition redirectStatus :: "int \<Rightarrow> bool" where
  "redirectStatus code \<longleftrightarrow> code \<in> {301, 302, 303, 307, 308}"

definition redirectedRequest :: "subRequest \<Rightarrow> bool \<Rightarrow> subRequest \<Rightarrow> subURL \<Rightarrow> subRequest" where
  "redirectedRequest ireq strip req u =
     (let h = copyHeaders strip (rqHeaders ireq); ref = refererForURL (rqURL req) u (hdrGet h ''Referer'') in
      \<lparr>rqURL = u, rqHeaders = (if ref \<noteq> [] then hdrSet ''Referer'' ref h else h)\<rparr>)"

text \<open>The address of a connection: the host in ASCII, and the port or the default of the scheme.\<close>

definition canonicalAddr :: "fetchEnv \<Rightarrow> subURL \<Rightarrow> string" where
  "canonicalAddr env u =
     (let port = snd (urlHostPort (uHost u)) in
      JoinHostPort (feASCII env (Hostname u))
        (if port \<noteq> [] then port else if uScheme u = ''https'' then ''443'' else ''80''))"

definition validHeader :: "string \<times> string \<Rightarrow> bool" where
  "validHeader h \<longleftrightarrow> fst h \<noteq> [] \<and> list_all tokenByte (fst h) \<and>
     list_all (\<lambda>c. byte c = 9 \<or> (32 \<le> byte c \<and> byte c \<noteq> 127)) (snd h)"

definition sendRequest :: "fetchEnv \<Rightarrow> subRequest \<Rightarrow> httpAnswer fetch" where
  "sendRequest env req st =
     (if \<not> list_all validHeader (rqHeaders req) then (Inl (ErrTransport ''invalid header''), st)
      else
        let n = length (fsRequests st);
            conn = (uScheme (rqURL req), canonicalAddr env (rqURL req));
            (dialled, st1) = (if conn \<in> set (fsConns st) \<and> feReuse env n then (Inr (), st)
                              else safeSubscriptionDialContext env (snd conn) st) in
        case dialled of
          Inl e \<Rightarrow> (Inl e, st1)
        | Inr u \<Rightarrow>
            (let st2 = st1\<lparr>fsConns := conn # fsConns st1, fsRequests := fsRequests st1 @ [req]\<rparr> in
             case feAnswer env n of Inl e \<Rightarrow> (Inl (ErrTransport e), st2) | Inr a \<Rightarrow> (Inr a, st2)))"

lemma checkRedirect_limit:
  "subscriptionCheckRedirect env req via st = (Inr r, st1) \<Longrightarrow> length via < 5"
  by (simp add: subscriptionCheckRedirect_def split: if_splits)

text \<open>
  One turn of \<open>Client.Do\<close> for a \<open>GET\<close>: the answer, or the request that follows and whether sensitive headers are
  dropped from now on; \<open>via\<close> holds the requests made before \<open>req\<close>, the first of them first.
\<close>

definition clientHop ::
    "fetchEnv \<Rightarrow> subRequest \<Rightarrow> bool \<Rightarrow> subRequest list \<Rightarrow> subRequest \<Rightarrow> (httpAnswer + bool \<times> subRequest) fetch" where
  "clientHop env ireq strip via req st =
     (case sendRequest env req st of
        (Inl e, st1) \<Rightarrow> (Inl e, st1)
      | (Inr a, st1) \<Rightarrow>
          if \<not> redirectStatus (haStatus a) \<or> haLocation a = [] then (Inr (Inl a), st1)
          else
            (case feResolve env (rqURL req) (haLocation a) of
               None \<Rightarrow> (Inl ErrLocation, st1)
             | Some u \<Rightarrow>
                 (let strip1 = (strip \<or> uHost (rqURL ireq) \<noteq> uHost u \<and>
                        \<not> isDomainOrSubdomain (feASCII env (Hostname u)) (feASCII env (Hostname (rqURL ireq)))) in
                  case subscriptionCheckRedirect env (redirectedRequest ireq strip1 req u) (via @ [req]) st1 of
                    (Inl e, st2) \<Rightarrow> (Inl e, st2)
                  | (Inr req1, st2) \<Rightarrow> (Inr (Inr (strip1, req1)), st2))))"

lemma clientHop_limit:
  "clientHop env ireq strip via req st = (Inr (Inr x), st1) \<Longrightarrow> length via < 4"
  by (auto simp: clientHop_def Let_def dest!: checkRedirect_limit split: prod.splits sum.splits option.splits if_splits)

function clientDo :: "fetchEnv \<Rightarrow> subRequest \<Rightarrow> bool \<Rightarrow> subRequest list \<Rightarrow> subRequest \<Rightarrow> httpAnswer fetch" where
  "clientDo env ireq strip via req st =
     (case clientHop env ireq strip via req st of
        (Inl e, st1) \<Rightarrow> (Inl e, st1)
      | (Inr (Inl a), st1) \<Rightarrow> (Inr a, st1)
      | (Inr (Inr (strip1, req1)), st1) \<Rightarrow> clientDo env ireq strip1 (via @ [req]) req1 st1)"
  by pat_completeness auto
termination
  by (relation "measure (\<lambda>(env, ireq, strip, via, req, st). 6 - length via)") (auto dest: clientHop_limit [OF sym])

declare clientDo.simps [simp del]

section \<open>The fetch\<close>

definition subscriptionResponseMaxBytes :: nat where
  "subscriptionResponseMaxBytes = 64 * 1048576"

definition subscriptionFetchMaxAttempts :: nat where
  "subscriptionFetchMaxAttempts = 2"

definition subscriptionResponseSnippetMaxBytes :: nat where
  "subscriptionResponseSnippetMaxBytes = 512"

text \<open>The body is read up to one byte more than allowed.\<close>

definition readSubscriptionResponse :: "httpAnswer \<Rightarrow> nat \<Rightarrow> fetchError + string" where
  "readSubscriptionResponse a limit =
     (if length (haBody a) > limit then Inl ErrTooLarge else if haFails a then Inl ErrRead else Inr (haBody a))"

definition isSubscriptionFetchRetryableStatus :: "int \<Rightarrow> bool" where
  "isSubscriptionFetchRetryableStatus code \<longleftrightarrow> code = 429 \<or> code \<ge> 500"

text \<open>The error carries the part of the body that is read; how its text hides credentials is not modelled.\<close>

definition formatSubscriptionHTTPStatusError :: "httpAnswer \<Rightarrow> fetchError" where
  "formatSubscriptionHTTPStatusError a = ErrStatus (haStatus a) (take (Suc subscriptionResponseSnippetMaxBytes) (haBody a))"

text \<open>The attempts that are left, \<open>lastErr\<close> the error of the last one.\<close>

fun fetchAttempts :: "fetchEnv \<Rightarrow> string \<Rightarrow> string \<Rightarrow> nat \<Rightarrow> fetchError option \<Rightarrow> string fetch" where
  "fetchAttempts env urlStr headersJSON 0 lastErr st =
     (Inl (case lastErr of Some e \<Rightarrow> e | None \<Rightarrow> ErrUnknown), st)"
| "fetchAttempts env urlStr headersJSON (Suc n) lastErr st =
     (case buildSubscriptionRequest env urlStr headersJSON of
        Inl e \<Rightarrow> (Inl e, st)
      | Inr req \<Rightarrow>
          (case clientDo env req False [] req st of
             (Inl e, st1) \<Rightarrow> (Inl e, st1)
           | (Inr a, st1) \<Rightarrow>
               if haStatus a = 200 then (readSubscriptionResponse a subscriptionResponseMaxBytes, st1)
               else
                 (let err = formatSubscriptionHTTPStatusError a in
                  if \<not> isSubscriptionFetchRetryableStatus (haStatus a) \<or> n = 0 then (Inl err, st1)
                  else fetchAttempts env urlStr headersJSON n (Some err) (st1\<lparr>fsSleeps := Suc (fsSleeps st1)\<rparr>))))"

definition freshFetch :: "nat \<Rightarrow> fetchState" where
  "freshFetch k = \<lparr>fsLookups = k, fsDialled = [], fsConns = [], fsRequests = [], fsSleeps = 0\<rparr>"

definition fetchSubscriptionURL :: "fetchEnv \<Rightarrow> string \<Rightarrow> string \<Rightarrow> nat \<Rightarrow> (fetchError + string) \<times> fetchState" where
  "fetchSubscriptionURL env urlStr headersJSON k =
     (case validateSubscriptionURLTarget env urlStr (freshFetch k) of
        (Inl e, st) \<Rightarrow> (Inl e, st)
      | (Inr u, st) \<Rightarrow> fetchAttempts env urlStr headersJSON subscriptionFetchMaxAttempts None st)"

text \<open>A subscription with a file is read from it, and only one without is fetched; the file system answers \<open>readFile\<close>.\<close>

definition fetchSubscriptionData ::
    "fetchEnv \<Rightarrow> (string \<Rightarrow> string option) \<Rightarrow> Subscription \<Rightarrow> nat \<Rightarrow> (fetchError + string) \<times> fetchState" where
  "fetchSubscriptionData env readFile sub k =
     (if sFilePath sub \<noteq> [] then
        (case readFile (sFilePath sub) of None \<Rightarrow> (Inl ErrRead, freshFetch k) | Some data \<Rightarrow> (Inr data, freshFetch k))
      else if sURL sub = [] then (Inl ErrParseURL, freshFetch k)
      else fetchSubscriptionURL env (sURL sub) (sHeaders sub) k)"

end
