(* ===== verification/FetchSpec.thy ===== *)
theory FetchSpec
  imports SubscriptionFetch
begin

text \<open>
  What a fetch of a subscription can reach and what it sends there: no address of a refused range is dialled, the
  requests are bounded, and which headers another origin receives.
\<close>

section \<open>Refused ranges\<close>

text \<open>
  The ranges no fetch may reach, written out on the numbers of an address: the unspecified address, \<open>10/8\<close>,
  \<open>100.64/10\<close>, \<open>127/8\<close>, \<open>169.254/16\<close>, \<open>172.16/12\<close>, \<open>192.0.0/24\<close>, \<open>192.0.2/24\<close>, \<open>192.88.99/24\<close>, \<open>192.168/16\<close>,
  \<open>198.18/15\<close>, \<open>198.51.100/24\<close>, \<open>203.0.113/24\<close> and everything from \<open>224.0.0.0\<close> on; of IPv6 \<open>::\<close>, \<open>::1\<close>, \<open>fc00::/7\<close>,
  \<open>fe80::/10\<close>, \<open>ff00::/8\<close>, \<open>64:ff9b::/96\<close>, \<open>64:ff9b:1::/48\<close>, \<open>100::/64\<close>, \<open>2001:2::/48\<close> and \<open>2001:db8::/32\<close>.
  An IPv4 address in IPv6 form counts as the IPv4 address. Of \<open>0.0.0.0/8\<close> only the first address is refused, and no
  range that the list leaves out, such as \<open>2002::/16\<close>, is.
\<close>

definition refusedV4 :: "nat \<Rightarrow> nat \<Rightarrow> nat \<Rightarrow> nat \<Rightarrow> bool" where
  "refusedV4 a b c d \<longleftrightarrow>
     a = 0 \<and> b = 0 \<and> c = 0 \<and> d = 0 \<or> a = 10 \<or> a = 100 \<and> 64 \<le> b \<and> b \<le> 127 \<or> a = 127 \<or> a = 169 \<and> b = 254 \<or>
     a = 172 \<and> 16 \<le> b \<and> b \<le> 31 \<or> a = 192 \<and> b = 0 \<and> c = 0 \<or> a = 192 \<and> b = 0 \<and> c = 2 \<or> a = 192 \<and> b = 88 \<and> c = 99 \<or>
     a = 192 \<and> b = 168 \<or> a = 198 \<and> 18 \<le> b \<and> b \<le> 19 \<or> a = 198 \<and> b = 51 \<and> c = 100 \<or> a = 203 \<and> b = 0 \<and> c = 113 \<or>
     224 \<le> a"

definition hextet :: "nat list \<Rightarrow> nat \<Rightarrow> nat" where
  "hextet ip i = 256 * ip ! (2 * i) + ip ! (2 * i + 1)"

definition refusedV6 :: "nat list \<Rightarrow> bool" where
  "refusedV6 ip \<longleftrightarrow>
     list_all (\<lambda>i. hextet ip i = 0) [0, 1, 2, 3, 4, 5, 6] \<and> hextet ip 7 \<le> 1 \<or>
     0xff00 \<le> hextet ip 0 \<or> 0xfe80 \<le> hextet ip 0 \<and> hextet ip 0 \<le> 0xfebf \<or> 0xfc00 \<le> hextet ip 0 \<and> hextet ip 0 \<le> 0xfdff \<or>
     hextet ip 0 = 0x64 \<and> hextet ip 1 = 0xff9b \<and> list_all (\<lambda>i. hextet ip i = 0) [2, 3, 4, 5] \<or>
     hextet ip 0 = 0x64 \<and> hextet ip 1 = 0xff9b \<and> hextet ip 2 = 1 \<or>
     hextet ip 0 = 0x100 \<and> list_all (\<lambda>i. hextet ip i = 0) [1, 2, 3] \<or>
     hextet ip 0 = 0x2001 \<and> hextet ip 1 = 2 \<and> hextet ip 2 = 0 \<or> hextet ip 0 = 0x2001 \<and> hextet ip 1 = 0xdb8"

definition outsideRefused :: "nat list \<Rightarrow> bool" where
  "outsideRefused ip \<longleftrightarrow>
     (case To4 ip of
        Some q \<Rightarrow> \<not> refusedV4 (q ! 0) (q ! 1) (q ! 2) (q ! 3)
      | None \<Rightarrow> length ip = 16 \<and> \<not> refusedV6 ip)"

text \<open>The masks the code computes with are prefixes, to which the table of the code adds its own.\<close>

definition maskedBlocks :: "(nat list \<times> nat) list" where
  "maskedBlocks =
     [([0, 0, 0, 0], 32), ([255, 255, 255, 255], 32), ([127, 0, 0, 0], 8), ([169, 254, 0, 0], 16), ([224, 0, 0, 0], 4),
      ([10, 0, 0, 0], 8), ([172, 16, 0, 0], 12), ([192, 168, 0, 0], 16),
      (replicate 16 0, 128), (replicate 15 0 @ [1], 128), (255 # replicate 15 0, 8), (254 # 128 # replicate 14 0, 10),
      (252 # replicate 15 0, 7)]"

lemma and_block: "and b (push_bit k (mask m)) = 2 ^ k * (b div 2 ^ k mod 2 ^ m)" for b :: nat
proof -
  have "and b (push_bit k (mask m)) = push_bit k (and (drop_bit k b) (mask m))"
    by (rule bit_eqI) (auto simp: bit_simps)
  then show ?thesis
    by (simp add: take_bit_eq_mask [symmetric] push_bit_eq_mult drop_bit_eq_div take_bit_eq_mod mult.commute)
qed

lemma and_masks:
  "and b 240 = 16 * (b div 16 mod 16)" "and b 254 = 2 * (b div 2 mod 128)" "and b 65472 = 64 * (b div 64 mod 1024)"
  for b :: nat
  using and_block [of b 4 4] and_block [of b 1 7] and_block [of b 6 10]
  by (simp_all add: push_bit_eq_mult mask_eq_exp_minus_1)

lemma samePrefix_lengths: "length a \<noteq> length b \<Longrightarrow> \<not> samePrefix n a b"
  using samePrefix_length by blast

lemma unsafe_v4:
  assumes "length q = 4" "\<forall>b\<in>set q. b < 256"
  shows "(\<not> addrIsGlobalUnicast q \<or> addrIsPrivate q \<or> addrIsLinkLocalUnicast q \<or>
      list_ex (\<lambda>(base, n). samePrefix n base q) unsafeSubscriptionPrefixes) =
    list_ex (\<lambda>(base, n). samePrefix n base q) (maskedBlocks @ unsafeSubscriptionPrefixes)"
proof -
  obtain a b c d where q: "q = [a, b, c, d]" using assms(1) length_eq_4 by blast
  have m: "and a 240 = 224 \<longleftrightarrow> a div 16 = 14" "and b 240 = 16 \<longleftrightarrow> b div 16 = 1" using assms(2) q by (auto simp: and_masks)
  have sp: "samePrefix 8 [127, 0, 0, 0] q \<longleftrightarrow> a = 127" "samePrefix 16 [169, 254, 0, 0] q \<longleftrightarrow> a = 169 \<and> b = 254"
    "samePrefix 4 [224, 0, 0, 0] q \<longleftrightarrow> a div 16 = 14" "samePrefix 8 [10, 0, 0, 0] q \<longleftrightarrow> a = 10"
    "samePrefix 12 [172, 16, 0, 0] q \<longleftrightarrow> a = 172 \<and> b div 16 = 1" "samePrefix 16 [192, 168, 0, 0] q \<longleftrightarrow> a = 192 \<and> b = 168"
    "[0, 0, 0, 0] = q \<longleftrightarrow> [a, b, c, d] = [0, 0, 0, 0]" "[255, 255, 255, 255] = q \<longleftrightarrow> [a, b, c, d] = [255, 255, 255, 255]"
    using assms(2) by (auto simp: q)
  have v6: "\<not> samePrefix n base q" if "length base = 16" for n base using that assms(1) by (intro samePrefix_lengths) simp
  have full: "samePrefix 32 base q \<longleftrightarrow> base = q" if "length base = 4" for base using samePrefix_full [of 32 base q] that by simp
  show ?thesis
    unfolding maskedBlocks_def list_ex_append
    by (simp only: list_ex_Nil_iff list_ex_Cons_iff prod.case v6 full sp length_append length_replicate list.size simp_thms)
      (simp add: v6 addrIsGlobalUnicast_def addrIsPrivate_def addrIsLinkLocalUnicast_def q m; blast)
qed

lemma unsafe_v6:
  assumes "length q = 16" "\<forall>b\<in>set q. b < 256"
  shows "(\<not> addrIsGlobalUnicast q \<or> addrIsPrivate q \<or> addrIsLinkLocalUnicast q \<or>
      list_ex (\<lambda>(base, n). samePrefix n base q) unsafeSubscriptionPrefixes) =
    list_ex (\<lambda>(base, n). samePrefix n base q) (maskedBlocks @ unsafeSubscriptionPrefixes)"
proof -
  obtain x y zs where q: "q = x # y # zs" "length zs = 14" using assms(1) by (cases q; cases "tl q") auto
  have b: "x < 256" "y < 256" "\<forall>b\<in>set zs. b < 256" using assms(2) q by auto
  have p: "and x 254 = 252 \<longleftrightarrow> 126 = x div 2" using b by (auto simp: and_masks)
  have "(256 * x + y) div 64 = 4 * x + y div 64" by simp
  then have "and (256 * x + y) 65472 = 64 * (4 * x + y div 64)" using b by (simp add: and_masks)
  moreover have "64 * (4 * x + k) = 65152 \<longleftrightarrow> 254 = x \<and> 2 = k" if "k < 4" for k
  proof -
    have m: "(65152 :: nat) = 64 * 1018" by simp
    have "64 * (4 * x + k) = 65152 \<longleftrightarrow> 4 * x + k = 1018" unfolding m by (simp only: mult_cancel1) simp
    also have "\<dots> \<longleftrightarrow> 254 = x \<and> 2 = k" using that by presburger
    finally show ?thesis .
  qed
  ultimately have l: "and (256 * x + y) 65472 = 65152 \<longleftrightarrow> 254 = x \<and> 2 = y div 64" using b by simp
  have nth: "q ! 0 = x" "q ! 1 = y" "q ! Suc 0 = y" using q(1) by simp_all
  have v4: "\<not> samePrefix n base q" if "length base = 4" for n base using that assms(1) by (intro samePrefix_lengths) simp
  have z: "samePrefix 128 (replicate 16 0) q \<longleftrightarrow> replicate 16 0 = q" "samePrefix 128 (replicate 15 0 @ [1]) q \<longleftrightarrow> replicate 15 0 @ [1] = q"
    using samePrefix_full [of 128 "replicate 16 0" q] samePrefix_full [of 128 "replicate 15 0 @ [1]" q] by simp_all
  have blocks: "samePrefix 8 (255 # replicate 15 0) q \<longleftrightarrow> 255 = x" "samePrefix 7 (252 # replicate 15 0) q \<longleftrightarrow> 126 = x div 2"
    "samePrefix 10 (254 # 128 # replicate 14 0) q \<longleftrightarrow> 254 = x \<and> 2 = y div 64"
    using b q by (simp_all add: samePrefix_none)
  show ?thesis
    unfolding maskedBlocks_def list_ex_append
    unfolding list_ex_Nil_iff list_ex_Cons_iff prod.case z blocks
    by (simp add: v4 addrIsGlobalUnicast_def addrIsPrivate_def addrIsLinkLocalUnicast_def assms(1) nth p l eq_commute [of q]; blast)
qed

lemma To4_length: "To4 ip = Some q \<Longrightarrow> length q = 4 \<and> set q \<subseteq> set ip"
  using set_drop_subset by (fastforce simp: To4_def split: if_splits)

text \<open>The same blocks as ranges of numbers.\<close>

lemma blocks_v4:
  assumes "length q = 4" "\<forall>b\<in>set q. b < 256"
  shows "list_ex (\<lambda>(base, n). samePrefix n base q) (maskedBlocks @ unsafeSubscriptionPrefixes) =
    refusedV4 (q ! 0) (q ! 1) (q ! 2) (q ! 3)"
proof -
  obtain a b c d where q: "q = [a, b, c, d]" using assms(1) length_eq_4 by blast
  have v6: "\<not> samePrefix n base q" if "length base = 16" for n base using that assms(1) by (intro samePrefix_lengths) simp
  have full: "samePrefix 32 base q \<longleftrightarrow> base = q" if "length base = 4" for base using samePrefix_full [of 32 base q] that by simp
  have d: "14 = a div 16 \<longleftrightarrow> 224 \<le> a \<and> a < 240" "15 = a div 16 \<longleftrightarrow> 240 \<le> a" "Suc 0 = b div 16 \<longleftrightarrow> 16 \<le> b \<and> b \<le> 31"
    "Suc 0 = b div 64 \<longleftrightarrow> 64 \<le> b \<and> b \<le> 127" "9 = b div 2 \<longleftrightarrow> 18 \<le> b \<and> b \<le> 19"
    "b div 256 = 0" "c div 256 = 0" "d div 256 = 0"
    using assms(2) by (auto simp: q)
  have eq: "list_ex (\<lambda>(base, n). samePrefix n base q) (maskedBlocks @ unsafeSubscriptionPrefixes) \<longleftrightarrow>
     [0, 0, 0, 0] = q \<or> [255, 255, 255, 255] = q \<or> a = 127 \<or> a = 169 \<and> b = 254 \<or> 224 \<le> a \<and> a < 240 \<or> a = 10 \<or>
     a = 172 \<and> 16 \<le> b \<and> b \<le> 31 \<or> a = 192 \<and> b = 168 \<or> a = 100 \<and> 64 \<le> b \<and> b \<le> 127 \<or> a = 192 \<and> b = 0 \<and> c = 0 \<or>
     a = 192 \<and> b = 0 \<and> c = 2 \<or> a = 192 \<and> b = 88 \<and> c = 99 \<or> a = 198 \<and> 18 \<le> b \<and> b \<le> 19 \<or>
     a = 198 \<and> b = 51 \<and> c = 100 \<or> a = 203 \<and> b = 0 \<and> c = 113 \<or> 240 \<le> a"
    unfolding maskedBlocks_def unsafeSubscriptionPrefixes_def list_ex_append
    by (simp only: list_ex_Nil_iff list_ex_Cons_iff prod.case v6 full length_append length_replicate list.size simp_thms)
      (simp add: v6 q d eq_commute [of _ a] eq_commute [of _ b] eq_commute [of _ c])
  have nths: "q ! 0 = a" "q ! 1 = b" "q ! 2 = c" "q ! 3 = d" "[0, 0, 0, 0] = q \<longleftrightarrow> a = 0 \<and> b = 0 \<and> c = 0 \<and> d = 0" by (auto simp: q)
  have high: "224 \<le> a \<longleftrightarrow> 224 \<le> a \<and> a < 240 \<or> [255, 255, 255, 255] = q \<or> 240 \<le> a" by (auto simp: q)
  show ?thesis unfolding eq refusedV4_def nths by (subst (2) high) (simp only: disj_ac)
qed

lemma hextet_split: "y < 256 \<Longrightarrow> 256 * x + y = n \<longleftrightarrow> x = n div 256 \<and> y = n mod 256" for x y n :: nat
  by auto

lemma hextet_range:
  fixes x y m :: nat
  assumes "y < 256"
  shows "256 * m \<le> 256 * x + y \<longleftrightarrow> m \<le> x" "256 * x + y \<le> 256 * m + 255 \<longleftrightarrow> x \<le> m"
  using assms by linarith+

lemma blocks_v6:
  assumes "length q = 16" "\<forall>b\<in>set q. b < 256"
  shows "list_ex (\<lambda>(base, n). samePrefix n base q) (maskedBlocks @ unsafeSubscriptionPrefixes) = refusedV6 q"
proof -
  obtain x y x1 y1 x2 y2 x3 y3 x4 y4 x5 y5 x6 y6 x7 y7 where
    q: "q = [x, y, x1, y1, x2, y2, x3, y3, x4, y4, x5, y5, x6, y6, x7, y7]"
    using assms(1) by (auto simp: length_Suc_conv eval_nat_numeral)
  have v4: "\<not> samePrefix n base q" if "length base = 4" for n base using that assms(1) by (intro samePrefix_lengths) simp
  have b: "x < 256" "y < 256" "y1 < 256" "y2 < 256" "y3 < 256" "y4 < 256" "y5 < 256" "y6 < 256" "y7 < 256" "x2 < 256" "x3 < 256"
      "x4 < 256" "x5 < 256" "x6 < 256" using assms(2) by (simp_all add: q)
  have d: "126 = x div 2 \<longleftrightarrow> 252 \<le> x \<and> x \<le> 253" "2 = y div 64 \<longleftrightarrow> 128 \<le> y \<and> y \<le> 191" "255 \<le> x \<longleftrightarrow> x = 255" using b(1) by auto
  have h: "hextet q 0 = 256 * x + y" "hextet q 1 = 256 * x1 + y1" "hextet q 2 = 256 * x2 + y2" "hextet q 3 = 256 * x3 + y3"
    "hextet q 4 = 256 * x4 + y4" "hextet q 5 = 256 * x5 + y5" "hextet q 6 = 256 * x6 + y6" "hextet q 7 = 256 * x7 + y7"
    by (simp_all add: hextet_def q)
  have hi: "0xfc00 \<le> hextet q 0 \<longleftrightarrow> 252 \<le> x" "hextet q 0 \<le> 0xfdff \<longleftrightarrow> x \<le> 253" "0xff00 \<le> hextet q 0 \<longleftrightarrow> x = 255"
    using b unfolding h by linarith+
  have link: "0xfe80 \<le> hextet q 0 \<and> hextet q 0 \<le> 0xfebf \<longleftrightarrow> x = 254 \<and> 128 \<le> y \<and> y \<le> 191"
    using b(1,2) unfolding h by presburger
  have last: "hextet q 7 \<le> 1 \<longleftrightarrow> x7 = 0 \<and> y7 = 0 \<or> x7 = 0 \<and> y7 = 1" unfolding h by linarith
  have z: "replicate 10 0 = ([0, 0, 0, 0, 0, 0, 0, 0, 0, 0] :: nat list)" "replicate 12 0 = ([0, 0, 0, 0, 0, 0, 0, 0, 0, 0, 0, 0] :: nat list)" "replicate 14 0 = ([0, 0, 0, 0, 0, 0, 0, 0, 0, 0, 0, 0, 0, 0] :: nat list)" "replicate 15 0 = ([0, 0, 0, 0, 0, 0, 0, 0, 0, 0, 0, 0, 0, 0, 0] :: nat list)" "replicate 16 0 = ([0, 0, 0, 0, 0, 0, 0, 0, 0, 0, 0, 0, 0, 0, 0, 0] :: nat list)"
    by (simp_all add: numeral_eq_Suc)
  have byte: "x3 div 256 = 0" "x4 div 256 = 0" "x6 div 256 = 0" "x2 div 256 = 0" "y div 256 = 0" using b by simp_all
  have one: "Suc 0 = x \<longleftrightarrow> x = Suc 0" "Suc 0 = y \<longleftrightarrow> y = Suc 0" "Suc 0 = y2 \<longleftrightarrow> y2 = Suc 0" "Suc 0 = y7 \<longleftrightarrow> y7 = Suc 0" by auto
  have blocks: "list_ex (\<lambda>(base, n). samePrefix n base q) (maskedBlocks @ unsafeSubscriptionPrefixes) \<longleftrightarrow>
      q = replicate 16 0 \<or> q = replicate 15 0 @ [1] \<or> x = 255 \<or> x = 254 \<and> 128 \<le> y \<and> y \<le> 191 \<or> 252 \<le> x \<and> x \<le> 253 \<or>
      q = [0, 100, 255, 155, 0, 0, 0, 0, 0, 0, 0, 0, x6, y6, x7, y7] \<or>
      [x, y, x1, y1, x2, y2] = [0, 100, 255, 155, 0, 1] \<or> [x, y, x1, y1, x2, y2, x3, y3] = [1, 0, 0, 0, 0, 0, 0, 0] \<or>
      [x, y, x1, y1, x2, y2] = [32, 1, 0, 2, 0, 0] \<or> [x, y, x1, y1] = [32, 1, 13, 184]"
    unfolding maskedBlocks_def unsafeSubscriptionPrefixes_def list_ex_append
    by (simp only: list_ex_Nil_iff list_ex_Cons_iff prod.case v4 list.size simp_thms)
      (simp add: q z d byte b one)
  have hex: "hextet q 0 = n \<longleftrightarrow> x = n div 256 \<and> y = n mod 256" "hextet q 1 = n \<longleftrightarrow> x1 = n div 256 \<and> y1 = n mod 256"
    "hextet q 2 = n \<longleftrightarrow> x2 = n div 256 \<and> y2 = n mod 256" "hextet q 3 = n \<longleftrightarrow> x3 = n div 256 \<and> y3 = n mod 256"
    "hextet q 4 = n \<longleftrightarrow> x4 = n div 256 \<and> y4 = n mod 256" "hextet q 5 = n \<longleftrightarrow> x5 = n div 256 \<and> y5 = n mod 256"
    "hextet q 6 = n \<longleftrightarrow> x6 = n div 256 \<and> y6 = n mod 256" for n
    unfolding h by (intro hextet_split b)+
  show ?thesis
    unfolding blocks refusedV6_def list.pred_inject hi link last hex
    by (simp add: q z conj_disj_distribL)
qed

lemma unsafe_exact:
  assumes "\<forall>b\<in>set ip. b < 256"
  shows "isUnsafeSubscriptionIP ip \<longleftrightarrow> \<not> outsideRefused ip"
proof (cases "To4 ip")
  case None
  then have "length ip \<noteq> 4" by (auto simp: To4_def)
  with None show ?thesis using unsafe_v6 [OF _ assms] blocks_v6 [OF _ assms]
    by (simp add: isUnsafeSubscriptionIP_def outsideRefused_def Let_def) blast
next
  case (Some q)
  have l: "length ip = 4 \<or> length ip = 16" using Some by (auto simp: To4_def split: if_splits)
  have q: "length q = 4" "\<forall>b\<in>set q. b < 256" using To4_length [OF Some] assms by auto
  from unsafe_v4 [OF q] blocks_v4 [OF q] l Some show ?thesis by (simp add: isUnsafeSubscriptionIP_def outsideRefused_def Let_def) blast
qed

section \<open>What is dialled\<close>

text \<open>An address and port that a name server answered and the check let through.\<close>

definition checkedTarget :: "fetchEnv \<Rightarrow> string \<Rightarrow> bool" where
  "checkedTarget env a \<longleftrightarrow> (\<exists>ip port n host ips. a = JoinHostPort (IPString ip) port \<and> \<not> isUnsafeSubscriptionIP ip \<and>
     feLookup env n host = Inr ips \<and> ip \<in> set ips)"

definition dialsChecked :: "fetchEnv \<Rightarrow> fetchState \<Rightarrow> fetchState \<Rightarrow> bool" where
  "dialsChecked env st st1 \<longleftrightarrow> (\<exists>as. fsDialled st1 = fsDialled st @ as \<and> list_all (checkedTarget env) as) \<and>
     fsRequests st1 = fsRequests st"

lemma dialsChecked_refl [simp]: "dialsChecked env st st"
  by (simp add: dialsChecked_def)

lemma dialsChecked_trans: "dialsChecked env st st1 \<Longrightarrow> dialsChecked env st1 st2 \<Longrightarrow> dialsChecked env st st2"
  by (auto simp: dialsChecked_def)

lemma lookup_step:
  assumes "lookupSubscriptionHost env host st = (r, st1)"
  shows "dialsChecked env st st1" "r = Inr ips \<Longrightarrow> \<exists>n. feLookup env n host = Inr ips"
  using assms by (auto simp: lookupSubscriptionHost_def dialsChecked_def split: sum.splits)

lemma validateHost_step:
  assumes "validateSubscriptionHost env host st = (r, st1)"
  shows "dialsChecked env st st1"
proof (cases "ParseIP host")
  case None
  obtain l st2 where l: "lookupSubscriptionHost env host st = (l, st2)" by fastforce
  with assms None have "st1 = st2" by (auto simp: validateSubscriptionHost_def split: sum.splits option.splits)
  with lookup_step(1) [OF l] show ?thesis by simp
qed (use assms in \<open>auto simp: validateSubscriptionHost_def\<close>)

lemma validateTarget_step: "validateSubscriptionURLTarget env u st = (r, st1) \<Longrightarrow> dialsChecked env st st1"
  by (auto simp: validateSubscriptionURLTarget_def dest: validateHost_step split: option.splits if_splits)

lemma dialAddr_step:
  assumes "dialAddr env a st = (r, st1)" "checkedTarget env a"
  shows "dialsChecked env st st1"
  using assms by (auto simp: dialAddr_def dialsChecked_def split: option.splits)

lemma dialIPs_step:
  "dialIPs env host port e ips st = (r, st1) \<Longrightarrow> list_all (\<lambda>ip. \<exists>n host ips. feLookup env n host = Inr ips \<and> ip \<in> set ips) ips \<Longrightarrow>
   dialsChecked env st st1"
proof (induction ips arbitrary: e st)
  case (Cons ip ips)
  show ?case
  proof (cases "isUnsafeSubscriptionIP ip")
    case False
    obtain d st2 where d: "dialAddr env (JoinHostPort (IPString ip) port) st = (d, st2)" by fastforce
    have "checkedTarget env (JoinHostPort (IPString ip) port)" unfolding checkedTarget_def using False Cons.prems(2) by auto
    then have s: "dialsChecked env st st2" using dialAddr_step [OF d] by blast
    show ?thesis
    proof (cases d)
      case (Inl err)
      with Cons.prems d False have "dialIPs env host port (if e = None then Some err else e) ips st2 = (r, st1)" by simp
      from Cons.IH [OF this] Cons.prems(2) s show ?thesis using dialsChecked_trans by auto
    qed (use Cons.prems d False s in simp)
  qed (use Cons.prems in simp)
qed (auto split: option.splits)

lemma dialContext_step:
  assumes "safeSubscriptionDialContext env a st = (r, st1)"
  shows "dialsChecked env st st1"
proof (cases "SplitHostPort a")
  case (Some hp)
  obtain host port where hp: "hp = (host, port)" by fastforce
  obtain v st2 where v: "validateSubscriptionHost env host st = (v, st2)" by fastforce
  obtain l st3 where l: "lookupSubscriptionHost env host st2 = (l, st3)" by fastforce
  note s = validateHost_step [OF v] lookup_step(1) [OF l]
  show ?thesis
  proof (cases v)
    case (Inr u)
    show ?thesis
    proof (cases l)
      case (Inr ips)
      have "dialIPs env host port None ips st3 = (r, st1)"
        using assms Some hp v l \<open>v = Inr u\<close> Inr by (simp add: safeSubscriptionDialContext_def)
      moreover have "list_all (\<lambda>ip. \<exists>n host ips. feLookup env n host = Inr ips \<and> ip \<in> set ips) ips"
        using lookup_step(2) [OF l Inr] by (auto simp: list_all_iff)
      ultimately have "dialsChecked env st3 st1" by (rule dialIPs_step)
      with s show ?thesis using dialsChecked_trans by blast
    qed (use assms Some hp v l Inr s dialsChecked_trans in \<open>auto simp: safeSubscriptionDialContext_def\<close>)
  qed (use assms Some hp v s in \<open>auto simp: safeSubscriptionDialContext_def\<close>)
qed (use assms in \<open>auto simp: safeSubscriptionDialContext_def\<close>)

lemma checkRedirect_step: "subscriptionCheckRedirect env req via st = (r, st1) \<Longrightarrow> dialsChecked env st st1"
  by (auto simp: subscriptionCheckRedirect_def Let_def dest: validateTarget_step split: prod.splits sum.splits if_splits)

section \<open>What is requested\<close>

definition fetchStep :: "fetchEnv \<Rightarrow> fetchState \<Rightarrow> fetchState \<Rightarrow> subRequest list \<Rightarrow> bool" where
  "fetchStep env st st1 rs \<longleftrightarrow> (\<exists>as. fsDialled st1 = fsDialled st @ as \<and> list_all (checkedTarget env) as) \<and>
     fsRequests st1 = fsRequests st @ rs"

lemma fetchStep_none: "dialsChecked env st st1 \<Longrightarrow> fetchStep env st st1 []"
  by (simp add: dialsChecked_def fetchStep_def)

lemma fetchStep_trans: "fetchStep env st st1 rs \<Longrightarrow> fetchStep env st1 st2 rs' \<Longrightarrow> fetchStep env st st2 (rs @ rs')"
  by (auto simp: fetchStep_def)

text \<open>The headers that may follow a request to another origin.\<close>

definition hopOK :: "subRequest \<Rightarrow> subRequest \<Rightarrow> bool" where
  "hopOK r r' \<longleftrightarrow> sameSubscriptionOrigin (rqURL r) (rqURL r') \<or> fst ` set (rqHeaders r') \<subseteq> {''User-Agent''}"

lemma canonical_ua: "CanonicalKey ''User-Agent'' = ''User-Agent''"
  by code_simp

lemma checkRedirect_hop:
  assumes "subscriptionCheckRedirect env req (via @ [prev]) st = (Inr req1, st1)"
  shows "hopOK prev req1"
  using assms by (auto simp: subscriptionCheckRedirect_def Let_def hopOK_def hdrSet_def canonical_ua
      split: prod.splits sum.splits if_splits)

lemma sendRequest_step:
  assumes "sendRequest env req st = (r, st1)"
  obtains rs where "fetchStep env st st1 rs" "rs = [] \<or> rs = [req]"
    "\<And>a. r = Inr a \<Longrightarrow> rs = [req] \<and> feAnswer env (length (fsRequests st)) = Inr a"
proof (cases "list_all validHeader (rqHeaders req)")
  case True
  define conn where "conn = (uScheme (rqURL req), canonicalAddr env (rqURL req))"
  obtain d st2 where d: "(if conn \<in> set (fsConns st) \<and> feReuse env (length (fsRequests st)) then (Inr (), st)
      else safeSubscriptionDialContext env (snd conn) st) = (d, st2)" by fastforce
  then have s: "dialsChecked env st st2" using dialContext_step by (fastforce split: if_splits)
  define st3 where "st3 = st2\<lparr>fsConns := conn # fsConns st2, fsRequests := fsRequests st2 @ [req]\<rparr>"
  have s3: "fetchStep env st st3 [req]" using s by (simp add: dialsChecked_def fetchStep_def st3_def)
  show thesis
  proof (cases d)
    case (Inl e)
    with assms True d have "r = Inl e" "st1 = st2" by (simp_all add: sendRequest_def conn_def [symmetric])
    with that [of "[]"] fetchStep_none [OF s] show thesis by simp
  next
    case (Inr u)
    with assms True d have "(case feAnswer env (length (fsRequests st)) of Inl e \<Rightarrow> (Inl (ErrTransport e), st3) | Inr a \<Rightarrow> (Inr a, st3)) = (r, st1)"
      by (cases "feAnswer env (length (fsRequests st))") (simp_all add: sendRequest_def conn_def [symmetric] st3_def Let_def)
    then have "st1 = st3" "\<And>a. r = Inr a \<Longrightarrow> feAnswer env (length (fsRequests st)) = Inr a" by (auto split: sum.splits)
    with that [of "[req]"] s3 show thesis by simp
  qed
next
  case False
  with assms that [of "[]"] show thesis by (auto simp: sendRequest_def fetchStep_def)
qed

lemma clientHop_step:
  assumes "clientHop env ireq strip via req st = (r, st1)"
  obtains rs where "fetchStep env st st1 rs" "rs = [] \<or> rs = [req]"
    "\<And>a. r = Inr (Inl a) \<Longrightarrow> rs = [req] \<and> feAnswer env (length (fsRequests st)) = Inr a"
    "\<And>s req1. r = Inr (Inr (s, req1)) \<Longrightarrow> rs = [req] \<and> hopOK req req1"
proof -
  obtain x st2 where x: "sendRequest env req st = (x, st2)" by fastforce
  from sendRequest_step [OF x] obtain rs where rs: "fetchStep env st st2 rs" "rs = [] \<or> rs = [req]"
    "\<And>a. x = Inr a \<Longrightarrow> rs = [req] \<and> feAnswer env (length (fsRequests st)) = Inr a" by metis
  from assms x consider (same) "st1 = st2" "\<And>a. r = Inr (Inl a) \<Longrightarrow> x = Inr a" "\<And>s req1. r \<noteq> Inr (Inr (s, req1))"
    | (checked) a strip1 u c where "x = Inr a"
      "subscriptionCheckRedirect env (redirectedRequest ireq strip1 req u) (via @ [req]) st2 = (c, st1)"
      "\<And>a. r \<noteq> Inr (Inl a)" "\<And>s req1. r = Inr (Inr (s, req1)) \<Longrightarrow> c = Inr req1"
    by (auto simp: clientHop_def Let_def split: sum.splits if_splits option.splits prod.splits)
  then show thesis
  proof cases
    case same
    with rs show thesis by (intro that [of rs]) auto
  next
    case checked
    have "fetchStep env st st1 rs" using fetchStep_trans [OF rs(1) fetchStep_none [OF checkRedirect_step [OF checked(2)]]] by simp
    moreover have "rs = [req]" using rs(3) checked(1) by blast
    moreover have "hopOK req req1" if "r = Inr (Inr (s, req1))" for s req1
      using checkRedirect_hop checked(2) checked(4) [OF that] by simp
    ultimately show thesis using checked(3) by (intro that [of rs]) (simp, simp, blast, blast)
  qed
qed

lemma clientDo_step:
  "clientDo env ireq strip via req st = (r, st1) \<Longrightarrow> length via \<le> 5 \<Longrightarrow>
   \<exists>rs. fetchStep env st st1 rs \<and> length rs \<le> 6 - length via \<and> successively hopOK rs \<and> (rs \<noteq> [] \<longrightarrow> hd rs = req) \<and>
     (\<forall>a. r = Inr a \<longrightarrow> rs \<noteq> [] \<and> feAnswer env (length (fsRequests st1) - 1) = Inr a)"
proof (induction env ireq strip via req st rule: clientDo.induct)
  case (1 env ireq strip via req st)
  obtain x st2 where x: "clientHop env ireq strip via req st = (x, st2)" by fastforce
  from clientHop_step [OF x] obtain rs where rs: "fetchStep env st st2 rs" "rs = [] \<or> rs = [req]"
    "\<And>a. x = Inr (Inl a) \<Longrightarrow> rs = [req] \<and> feAnswer env (length (fsRequests st)) = Inr a"
    "\<And>s req1. x = Inr (Inr (s, req1)) \<Longrightarrow> rs = [req] \<and> hopOK req req1" by metis
  show ?case
  proof (cases "\<exists>s req1. x = Inr (Inr (s, req1))")
    case True
    then obtain s req1 where n: "x = Inr (Inr (s, req1))" by blast
    have run: "clientDo env ireq s (via @ [req]) req1 st2 = (r, st1)"
      using "1.prems"(1) x n by (simp add: clientDo.simps [of env ireq strip via req st])
    have via: "length via < 4" using clientHop_limit x n by blast
    from "1.IH" [OF x [symmetric] n refl refl run] via obtain rs' where
      rs': "fetchStep env st2 st1 rs'" "length rs' \<le> 6 - length (via @ [req])" "successively hopOK rs'"
        "rs' \<noteq> [] \<longrightarrow> hd rs' = req1"
        "\<forall>a. r = Inr a \<longrightarrow> rs' \<noteq> [] \<and> feAnswer env (length (fsRequests st1) - 1) = Inr a" by auto
    have one: "rs = [req]" "hopOK req req1" using rs(4) n by blast+
    have "successively hopOK (req # rs')" using rs'(3,4) one(2) by (cases rs') auto
    moreover have "fetchStep env st st1 (req # rs')" using fetchStep_trans [OF rs(1) rs'(1)] one by simp
    ultimately show ?thesis using rs' via by (intro exI [of _ "req # rs'"]) auto
  next
    case False
    then have "st1 = st2" "\<And>a. r = Inr a \<Longrightarrow> x = Inr (Inl a)"
      using "1.prems"(1) x by (auto simp: clientDo.simps [of env ireq strip via req st] split: sum.splits)
    with rs "1.prems"(2) show ?thesis by (intro exI [of _ rs]) (auto simp: fetchStep_def)
  qed
qed

section \<open>The fetch\<close>

text \<open>The attempts: each a chain of at most six requests.\<close>

definition attemptsOK :: "subRequest list list \<Rightarrow> bool" where
  "attemptsOK hops \<longleftrightarrow> list_all (\<lambda>rs. length rs \<le> 6 \<and> successively hopOK rs) hops"

lemma fetchAttempts_step:
  "fetchAttempts env u h n e st = (r, st1) \<Longrightarrow>
   \<exists>hops. fetchStep env st st1 (concat hops) \<and> length hops \<le> n \<and> attemptsOK hops \<and>
     (\<forall>data. r = Inr data \<longrightarrow> (\<exists>a. feAnswer env (length (fsRequests st1) - 1) = Inr a \<and> fsRequests st1 \<noteq> [] \<and> haStatus a = 200 \<and>
        \<not> haFails a \<and> data = haBody a \<and> length data \<le> subscriptionResponseMaxBytes))"
proof (induction n arbitrary: e st)
  case 0
  then show ?case by (intro exI [of _ "[]"]) (auto simp: fetchStep_def attemptsOK_def)
next
  case (Suc n)
  show ?case
  proof (cases "buildSubscriptionRequest env u h")
    case (Inl err)
    with Suc.prems show ?thesis by (intro exI [of _ "[]"]) (auto simp: fetchStep_def attemptsOK_def)
  next
    case (Inr req)
    obtain x st2 where x: "clientDo env req False [] req st = (x, st2)" by fastforce
    from clientDo_step [OF this] obtain rs where rs: "fetchStep env st st2 rs" "length rs \<le> 6" "successively hopOK rs"
      "\<forall>a. x = Inr a \<longrightarrow> rs \<noteq> [] \<and> feAnswer env (length (fsRequests st2) - 1) = Inr a" by auto
    have one: "fetchStep env st st2 (concat [rs])" "attemptsOK [rs]" using rs by (simp_all add: attemptsOK_def)
    show ?thesis
    proof (cases "\<exists>a. x = Inr a \<and> haStatus a \<noteq> 200 \<and> isSubscriptionFetchRetryableStatus (haStatus a) \<and> n \<noteq> 0")
      case True
      then obtain a where a: "x = Inr a" "haStatus a \<noteq> 200" "isSubscriptionFetchRetryableStatus (haStatus a)" "n \<noteq> 0" by blast
      define st3 where "st3 = st2\<lparr>fsSleeps := Suc (fsSleeps st2)\<rparr>"
      have "fetchAttempts env u h n (Some (formatSubscriptionHTTPStatusError a)) st3 = (r, st1)"
        using Suc.prems Inr x a by (simp add: st3_def Let_def)
      from Suc.IH [OF this] obtain hops where c: "fetchStep env st3 st1 (concat hops)" "length hops \<le> n" "attemptsOK hops"
        "\<forall>data. r = Inr data \<longrightarrow> (\<exists>a. feAnswer env (length (fsRequests st1) - 1) = Inr a \<and> fsRequests st1 \<noteq> [] \<and> haStatus a = 200 \<and>
           \<not> haFails a \<and> data = haBody a \<and> length data \<le> subscriptionResponseMaxBytes)" by blast
      have "fetchStep env st st3 rs" using rs(1) by (simp add: fetchStep_def st3_def)
      from fetchStep_trans [OF this c(1)] c(2-) one(2) show ?thesis
        by (intro exI [of _ "rs # hops"]) (auto simp: attemptsOK_def)
    next
      case False
      with Suc.prems Inr x have s: "st1 = st2" "\<And>data. r = Inr data \<Longrightarrow>
          \<exists>a. x = Inr a \<and> haStatus a = 200 \<and> readSubscriptionResponse a subscriptionResponseMaxBytes = Inr data"
        by (auto simp: Let_def split: sum.splits if_splits)
      have "\<exists>a. feAnswer env (length (fsRequests st1) - 1) = Inr a \<and> fsRequests st1 \<noteq> [] \<and> haStatus a = 200 \<and> \<not> haFails a \<and>
          data = haBody a \<and> length data \<le> subscriptionResponseMaxBytes" if "r = Inr data" for data
        using s(2) [OF that] rs s(1) by (auto simp: readSubscriptionResponse_def fetchStep_def split: if_splits)
      with one s(1) show ?thesis by (intro exI [of _ "[rs]"]) auto
    qed
  qed
qed

lemma fetch_step:
  assumes "fetchSubscriptionURL env u h k = (r, st)"
  obtains hops where "list_all (checkedTarget env) (fsDialled st)" "fsRequests st = concat hops" "length hops \<le> 2"
    "attemptsOK hops"
    "\<And>data. r = Inr data \<Longrightarrow> \<exists>a. feAnswer env (length (fsRequests st) - 1) = Inr a \<and> fsRequests st \<noteq> [] \<and> haStatus a = 200 \<and>
        \<not> haFails a \<and> data = haBody a \<and> length data \<le> subscriptionResponseMaxBytes"
proof -
  obtain v st0 where v: "validateSubscriptionURLTarget env u (freshFetch k) = (v, st0)" by fastforce
  have s0: "fetchStep env (freshFetch k) st0 []" using fetchStep_none validateTarget_step [OF v] by blast
  show thesis
  proof (cases v)
    case (Inl e)
    with assms v s0 show thesis by (intro that [of "[]"]) (auto simp: fetchSubscriptionURL_def fetchStep_def freshFetch_def attemptsOK_def)
  next
    case (Inr w)
    with assms v have "fetchAttempts env u h 2 None st0 = (r, st)"
      by (simp add: fetchSubscriptionURL_def subscriptionFetchMaxAttempts_def)
    from fetchAttempts_step [OF this] obtain hops where c: "fetchStep env st0 st (concat hops)" "length hops \<le> 2" "attemptsOK hops"
      "\<forall>data. r = Inr data \<longrightarrow> (\<exists>a. feAnswer env (length (fsRequests st) - 1) = Inr a \<and> fsRequests st \<noteq> [] \<and> haStatus a = 200 \<and>
           \<not> haFails a \<and> data = haBody a \<and> length data \<le> subscriptionResponseMaxBytes)" by blast
    from fetchStep_trans [OF s0 c(1)] have "fetchStep env (freshFetch k) st (concat hops)" by simp
    with c(2-) show thesis by (intro that [of hops]) (auto simp: fetchStep_def freshFetch_def)
  qed
qed

lemma hops_bound: "attemptsOK hops \<Longrightarrow> length (concat hops) \<le> 6 * length hops"
  by (induction hops) (auto simp: attemptsOK_def)

section \<open>A fetch that is redirected twice\<close>

text \<open>The host \<open>a.test\<close> redirects to \<open>b.test\<close>, which redirects to itself; every name resolves to a public address.\<close>

definition sampleURL :: "string \<Rightarrow> string \<Rightarrow> subURL" where
  "sampleURL host path = \<lparr>uText = ''http://'' @ host @ path, uScheme = ''http'', uHost = host\<rparr>"

definition sampleParse :: "string \<Rightarrow> subURL option" where
  "sampleParse s = find (\<lambda>u. uText u = s) [sampleURL ''a.test'' ''/'', sampleURL ''b.test'' ''/1'', sampleURL ''b.test'' ''/2'']"

definition sampleEnv :: fetchEnv where
  "sampleEnv = \<lparr>feParse = sampleParse, feResolve = (\<lambda>u. sampleParse), feASCII = (\<lambda>h. h), feLookup = (\<lambda>n h. Inr [[8, 8, 8, 8]]),
     feConnect = (\<lambda>n. None), feReuse = (\<lambda>n. False),
     feAnswer = (\<lambda>n. Inr (if n = 0 then \<lparr>haStatus = 302, haLocation = ''http://b.test/1'', haBody = [], haFails = False\<rparr>
       else if n = 1 then \<lparr>haStatus = 302, haLocation = ''http://b.test/2'', haBody = [], haFails = False\<rparr>
       else \<lparr>haStatus = 200, haLocation = [], haBody = ''nodes'', haFails = False\<rparr>)),
     feRange = (\<lambda>h. h)\<rparr>"

definition sampleReq0 :: subRequest where
  "sampleReq0 = \<lparr>rqURL = sampleURL ''a.test'' ''/'', rqHeaders = [(''X-Token'', ''secret''), (''User-Agent'', ''v2rayN'')]\<rparr>"

definition sampleReq1 :: subRequest where
  "sampleReq1 = \<lparr>rqURL = sampleURL ''b.test'' ''/1'', rqHeaders = [(''User-Agent'', ''v2rayN'')]\<rparr>"

definition sampleReq2 :: subRequest where
  "sampleReq2 = \<lparr>rqURL = sampleURL ''b.test'' ''/2'',
     rqHeaders = [(''Referer'', ''http://b.test/1''), (''X-Token'', ''secret''), (''User-Agent'', ''v2rayN'')]\<rparr>"

definition sampleState :: "nat \<Rightarrow> nat \<Rightarrow> fetchState" where
  "sampleState k n = \<lparr>fsLookups = k, fsDialled = replicate n ''8.8.8.8:80'',
     fsConns = rev (map (\<lambda>h. (''http'', h @ '':80'')) (take n [''a.test'', ''b.test'', ''b.test''])),
     fsRequests = take n [sampleReq0, sampleReq1, sampleReq2], fsSleeps = 0\<rparr>"

lemma sample_start:
  "buildSubscriptionRequest sampleEnv ''http://a.test/'' ''{\"X-Token\":\"secret\"}'' = Inr (sampleReq0)"
  "validateSubscriptionURLTarget sampleEnv ''http://a.test/'' (freshFetch 0) = (Inr (), sampleState 1 0)"
  by code_simp+

lemma sample_dials:
  "safeSubscriptionDialContext sampleEnv ''a.test:80'' (sampleState 1 0) = (Inr (), (sampleState 3 0)\<lparr>fsDialled := [''8.8.8.8:80'']\<rparr>)"
  "safeSubscriptionDialContext sampleEnv ''b.test:80'' (sampleState 4 1) = (Inr (), (sampleState 6 1)\<lparr>fsDialled := replicate 2 ''8.8.8.8:80''\<rparr>)"
  "safeSubscriptionDialContext sampleEnv ''b.test:80'' (sampleState 7 2) = (Inr (), (sampleState 9 2)\<lparr>fsDialled := replicate 3 ''8.8.8.8:80''\<rparr>)"
  by code_simp+

lemma sample_conns:
  "canonicalAddr sampleEnv (rqURL (sampleReq0)) = ''a.test:80''"
  "canonicalAddr sampleEnv (rqURL (sampleReq1)) = ''b.test:80''"
  "canonicalAddr sampleEnv (rqURL (sampleReq2)) = ''b.test:80''"
  "list_all validHeader (rqHeaders (sampleReq0))" "list_all validHeader (rqHeaders (sampleReq1))"
  "list_all validHeader (rqHeaders (sampleReq2))"
  by code_simp+

lemma sample_answers:
  "feReuse sampleEnv n = False"
  "feAnswer sampleEnv (length (fsRequests (sampleState 1 0))) = Inr \<lparr>haStatus = 302, haLocation = ''http://b.test/1'', haBody = [], haFails = False\<rparr>"
  "feAnswer sampleEnv (length (fsRequests (sampleState 4 1))) = Inr \<lparr>haStatus = 302, haLocation = ''http://b.test/2'', haBody = [], haFails = False\<rparr>"
  "feAnswer sampleEnv (length (fsRequests (sampleState 7 2))) = Inr \<lparr>haStatus = 200, haLocation = [], haBody = ''nodes'', haFails = False\<rparr>"
  by (simp add: sampleEnv_def, code_simp+)

lemma sample_states:
  "(\<lambda>st req conn. st\<lparr>fsDialled := [''8.8.8.8:80''], fsConns := conn # fsConns (st\<lparr>fsDialled := [''8.8.8.8:80'']\<rparr>),
      fsRequests := fsRequests (st\<lparr>fsDialled := [''8.8.8.8:80'']\<rparr>) @ [req]\<rparr>)
    (sampleState 3 0) (sampleReq0) (uScheme (rqURL (sampleReq0)), ''a.test:80'') = sampleState 3 1"
  "(\<lambda>st req conn as. st\<lparr>fsDialled := as, fsConns := conn # fsConns (st\<lparr>fsDialled := as\<rparr>),
      fsRequests := fsRequests (st\<lparr>fsDialled := as\<rparr>) @ [req]\<rparr>)
    (sampleState 6 1) (sampleReq1) (uScheme (rqURL (sampleReq1)), ''b.test:80'') (replicate 2 ''8.8.8.8:80'') = sampleState 6 2"
  "(\<lambda>st req conn as. st\<lparr>fsDialled := as, fsConns := conn # fsConns (st\<lparr>fsDialled := as\<rparr>),
      fsRequests := fsRequests (st\<lparr>fsDialled := as\<rparr>) @ [req]\<rparr>)
    (sampleState 9 2) (sampleReq2) (uScheme (rqURL (sampleReq2)), ''b.test:80'') (replicate 3 ''8.8.8.8:80'') = sampleState 9 3"
  by code_simp+

lemma sample_sends:
  "sendRequest sampleEnv (sampleReq0) (sampleState 1 0) =
     (Inr \<lparr>haStatus = 302, haLocation = ''http://b.test/1'', haBody = [], haFails = False\<rparr>, sampleState 3 1)"
  "sendRequest sampleEnv (sampleReq1) (sampleState 4 1) =
     (Inr \<lparr>haStatus = 302, haLocation = ''http://b.test/2'', haBody = [], haFails = False\<rparr>, sampleState 6 2)"
  "sendRequest sampleEnv (sampleReq2) (sampleState 7 2) =
     (Inr \<lparr>haStatus = 200, haLocation = [], haBody = ''nodes'', haFails = False\<rparr>, sampleState 9 3)"
  unfolding sendRequest_def sample_conns Let_def snd_conv sample_answers simp_thms if_False not_True_eq_False prod.case sample_dials sum.case
    sample_states [symmetric]
  by (simp_all only: sample_conns not_True_eq_False if_False)

definition sampleCopied :: subRequest where
  "sampleCopied = \<lparr>rqURL = sampleURL ''b.test'' ''/1'',
     rqHeaders = [(''Referer'', ''http://a.test/''), (''X-Token'', ''secret''), (''User-Agent'', ''v2rayN'')]\<rparr>"

lemma sample_copies:
  "redirectedRequest sampleReq0 True sampleReq0 (sampleURL ''b.test'' ''/1'') = sampleCopied"
  "redirectedRequest sampleReq0 True sampleReq1 (sampleURL ''b.test'' ''/2'') = sampleReq2"
  by code_simp+

lemma sample_origins:
  "sameSubscriptionOrigin (rqURL sampleReq0) (rqURL sampleCopied) = False"
  "sameSubscriptionOrigin (rqURL sampleReq1) (rqURL sampleReq2) = True"
  by (simp_all add: sameSubscriptionOrigin_def sampleReq0_def sampleReq1_def sampleReq2_def sampleCopied_def sampleURL_def
      EqualFold_def decodeRune_ascii foldRune_def)

lemma sample_headers:
  "uText (rqURL sampleCopied) = ''http://b.test/1''" "uText (rqURL sampleReq2) = ''http://b.test/2''"
  "hdrGet (rqHeaders sampleCopied) ''User-Agent'' = ''v2rayN''"
  "sampleCopied\<lparr>rqHeaders := hdrSet ''User-Agent'' ''v2rayN'' []\<rparr> = sampleReq1"
  by code_simp+

lemma sample_targets:
  "validateSubscriptionURLTarget sampleEnv ''http://b.test/1'' (sampleState 3 1) = (Inr (), sampleState 4 1)"
  "validateSubscriptionURLTarget sampleEnv ''http://b.test/2'' (sampleState 6 2) = (Inr (), sampleState 7 2)"
  by code_simp+

lemma sample_redirects:
  "subscriptionCheckRedirect sampleEnv sampleCopied [sampleReq0] (sampleState 3 1) = (Inr (sampleReq1), sampleState 4 1)"
  "subscriptionCheckRedirect sampleEnv (sampleReq2) [sampleReq0, sampleReq1] (sampleState 6 2) =
     (Inr (sampleReq2), sampleState 7 2)"
  unfolding subscriptionCheckRedirect_def sample_headers sample_targets
  by (simp_all add: sample_origins sample_headers)

lemma sample_resolve:
  "feResolve sampleEnv u ''http://b.test/1'' = Some (sampleURL ''b.test'' ''/1'')"
  "feResolve sampleEnv u ''http://b.test/2'' = Some (sampleURL ''b.test'' ''/2'')"
  "isDomainOrSubdomain (feASCII sampleEnv (Hostname (sampleURL ''b.test'' ''/1''))) (feASCII sampleEnv (Hostname (rqURL (sampleReq0)))) = False"
  "(uHost (rqURL (sampleReq0)) \<noteq> uHost (sampleURL ''b.test'' ''/1'')) = True"
  by code_simp+

lemma sample_hops:
  "clientHop sampleEnv (sampleReq0) False [] (sampleReq0) (sampleState 1 0) =
     (Inr (Inr (True, sampleReq1)), sampleState 4 1)"
  "clientHop sampleEnv (sampleReq0) True [sampleReq0] (sampleReq1) (sampleState 4 1) =
     (Inr (Inr (True, sampleReq2)), sampleState 7 2)"
  "clientHop sampleEnv (sampleReq0) True [sampleReq0, sampleReq1] (sampleReq2) (sampleState 7 2) =
     (Inr (Inl \<lparr>haStatus = 200, haLocation = [], haBody = ''nodes'', haFails = False\<rparr>), sampleState 9 3)"
  unfolding clientHop_def sample_sends Let_def
  by (simp_all only: prod.case sum.case httpAnswer.simps sample_resolve sample_copies sample_redirects option.case redirectStatus_def simp_thms
      if_True if_False append_Nil append_Cons) simp_all

lemma sample_run:
  "fetchSubscriptionURL sampleEnv ''http://a.test/'' ''{\"X-Token\":\"secret\"}'' 0 = (Inr ''nodes'', sampleState 9 3)"
proof -
  have run: "clientDo sampleEnv (sampleReq0) False [] (sampleReq0) (sampleState 1 0) =
      (Inr \<lparr>haStatus = 200, haLocation = [], haBody = ''nodes'', haFails = False\<rparr>, sampleState 9 3)"
    by (simp only: sample_hops prod.case sum.case append_Nil append_Cons clientDo.simps [of sampleEnv "sampleReq0" False]
        clientDo.simps [of sampleEnv "sampleReq0" True "[sampleReq0]"]
        clientDo.simps [of sampleEnv "sampleReq0" True "[sampleReq0, sampleReq1]"])
  have two: "subscriptionFetchMaxAttempts = Suc 1" by (simp add: subscriptionFetchMaxAttempts_def)
  show ?thesis
    unfolding fetchSubscriptionURL_def sample_start(2) prod.case sum.case two fetchAttempts.simps sample_start(1) run
    by (simp add: readSubscriptionResponse_def subscriptionResponseMaxBytes_def)
qed

text \<open>
  C13: Fetching a subscription never dials an address of the refused ranges (\<open>refusedV4\<close> and \<open>refusedV6\<close> list them:
  loopback, private, link-local, shared, documentation, benchmark, multicast and reserved ranges, but not the rest of
  \<open>0.0.0.0/8\<close>), whatever the URL, the redirects, the servers and the name server do, even when the name server changes
  its answer between the check and the connection: every address dialled is one that the name server returned and that
  lies in none of them. A fetch makes at most twelve requests, and it succeeds only with the complete body, of at most
  64 MiB, of an answer with status 200 to the last of them.
\<close>

theorem fetch_avoids_refused_ranges:
  assumes "fetchSubscriptionURL env u h k = (r, st)"
    "\<forall>n host ips. feLookup env n host = Inr ips \<longrightarrow> (\<forall>ip\<in>set ips. \<forall>b\<in>set ip. b < 256)"
  shows "(\<forall>a\<in>set (fsDialled st). \<exists>ip port n host ips. a = JoinHostPort (IPString ip) port \<and> outsideRefused ip \<and>
      feLookup env n host = Inr ips \<and> ip \<in> set ips) \<and>
    length (fsRequests st) \<le> 12 \<and>
    (\<forall>data. r = Inr data \<longrightarrow> (\<exists>a. feAnswer env (length (fsRequests st) - 1) = Inr a \<and> fsRequests st \<noteq> [] \<and>
       haStatus a = 200 \<and> \<not> haFails a \<and> data = haBody a \<and> length data \<le> 64 * 1048576))"
proof -
  from fetch_step [OF assms(1)] obtain hops where f: "list_all (checkedTarget env) (fsDialled st)" "fsRequests st = concat hops"
    "length hops \<le> 2" "attemptsOK hops"
    "\<And>data. r = Inr data \<Longrightarrow> \<exists>a. feAnswer env (length (fsRequests st) - 1) = Inr a \<and> fsRequests st \<noteq> [] \<and> haStatus a = 200 \<and>
        \<not> haFails a \<and> data = haBody a \<and> length data \<le> subscriptionResponseMaxBytes" by metis
  have "\<exists>ip port n host ips. a = JoinHostPort (IPString ip) port \<and> outsideRefused ip \<and> feLookup env n host = Inr ips \<and> ip \<in> set ips"
    if "checkedTarget env a" for a
    using that unsafe_exact assms(2) unfolding checkedTarget_def by metis
  moreover have "length (fsRequests st) \<le> 12" using hops_bound [OF f(4)] f(2,3) by simp
  ultimately show ?thesis using f(1,5) by (auto simp: list_all_iff subscriptionResponseMaxBytes_def)
qed

theorem fetch_avoids_refused_ranges_witness:
  "(\<lambda>(r, st). r = Inr ''nodes'' \<and> fsDialled st = replicate 3 ''8.8.8.8:80'' \<and> length (fsRequests st) = 3 \<and>
     list_all (\<lambda>a. \<exists>ip port. a = JoinHostPort (IPString ip) port \<and> outsideRefused ip) (fsDialled st) \<and>
     length (fsRequests st) \<le> 12)
   (fetchSubscriptionURL sampleEnv ''http://a.test/'' ''{\"X-Token\":\"secret\"}'' 0)"
proof -
  have "\<forall>n host ips. feLookup sampleEnv n host = Inr ips \<longrightarrow> (\<forall>ip\<in>set ips. \<forall>b\<in>set ip. b < 256)"
    by (auto simp: sampleEnv_def)
  note c = fetch_avoids_refused_ranges [OF sample_run this]
  have s: "fsDialled (sampleState 9 3) = replicate 3 ''8.8.8.8:80''" "length (fsRequests (sampleState 9 3)) = 3"
    by (simp_all add: sampleState_def)
  from c have l: "list_all (\<lambda>a. \<exists>ip port. a = JoinHostPort (IPString ip) port \<and> outsideRefused ip) (fsDialled (sampleState 9 3))"
    unfolding list_all_iff by blast
  show ?thesis unfolding sample_run prod.case using c l s by (intro conjI) simp_all
qed

text \<open>What a hop does to the headers of the first request.\<close>

lemma map_of_filter_ne: "map_of (filter (\<lambda>(k', _). k' \<noteq> k) h) x = (if x = k then None else map_of h x)"
  by (induction h) auto

lemma hdrGet_hdrSet: "hdrGet (hdrSet k v h) x = (if CanonicalKey x = CanonicalKey k then v else hdrGet h x)"
  by (simp add: hdrGet_def hdrSet_def map_of_filter_ne)

lemma hdrGet_copyHeaders: "\<not> sensitiveHeader (CanonicalKey k) \<Longrightarrow> hdrGet (copyHeaders strip h) k = hdrGet h k"
  unfolding hdrGet_def copyHeaders_def by (induction h) auto

lemma canonical_referer: "CanonicalKey ''Referer'' = ''Referer''"
  by code_simp

lemma hop_headers:
  assumes "clientHop env ireq strip via req st = (Inr (Inr (strip1, req1)), st1)"
    "\<not> sensitiveHeader (CanonicalKey k)" "CanonicalKey k \<noteq> ''User-Agent''" "CanonicalKey k \<noteq> ''Referer''"
  shows "hdrGet (rqHeaders req1) k =
    (if sameSubscriptionOrigin (rqURL req) (rqURL req1) then hdrGet (rqHeaders ireq) k else [])"
proof -
  have set: "hdrGet (hdrSet ''User-Agent'' v []) k = []" "hdrGet [] k = []" for v
    using assms(3) by (simp_all add: hdrGet_hdrSet canonical_ua) (simp_all add: hdrGet_def)
  have copied: "hdrGet (rqHeaders (redirectedRequest ireq s req u)) k = hdrGet (rqHeaders ireq) k" for s u
    using assms(2,4) by (simp add: redirectedRequest_def Let_def hdrGet_hdrSet hdrGet_copyHeaders canonical_referer)
  from assms(1) obtain u st2 where
    "subscriptionCheckRedirect env (redirectedRequest ireq strip1 req u) (via @ [req]) st2 = (Inr req1, st1)"
    by (auto simp: clientHop_def Let_def split: prod.splits sum.splits if_splits option.splits)
  then show ?thesis
    by (auto simp: subscriptionCheckRedirect_def Let_def copied set split: prod.splits sum.splits if_splits)
qed

text \<open>
  C14: The protection of custom headers is lost on the second redirect. A redirect to another origin drops every header
  of the first request but \<open>User-Agent\<close>; yet when the server redirected to answers with a further redirect within its
  own origin, the request that follows carries every custom header of the first request again (all but the credential
  headers the client itself withholds, such as \<open>Authorization\<close> and \<open>Cookie\<close>, and \<open>Referer\<close>), because the client copies
  the headers of the first request at every hop and the check compares only the last two origins. The second part says
  that this request is the one the client goes on with.
\<close>

theorem second_redirect_leaks_header:
  assumes "clientHop env ireq strip via req st = (Inr (Inr (strip1, req1)), st1)"
    "\<not> sameSubscriptionOrigin (rqURL req) (rqURL req1)"
    "clientHop env ireq strip1 (via @ [req]) req1 st1 = (Inr (Inr (strip2, req2)), st2)"
    "sameSubscriptionOrigin (rqURL req1) (rqURL req2)"
    "\<not> sensitiveHeader (CanonicalKey k)" "CanonicalKey k \<noteq> ''User-Agent''" "CanonicalKey k \<noteq> ''Referer''"
  shows "hdrGet (rqHeaders req1) k = [] \<and> hdrGet (rqHeaders req2) k = hdrGet (rqHeaders ireq) k \<and>
    fsRequests st2 = fsRequests st @ [req, req1] \<and>
    clientDo env ireq strip via req st = clientDo env ireq strip2 (via @ [req, req1]) req2 st2"
proof -
  note h = hop_headers [OF assms(1,5-7)] hop_headers [OF assms(3,5-7)]
  have "fetchStep env st st1 [req]" "fetchStep env st1 st2 [req1]"
    using clientHop_step [OF assms(1)] clientHop_step [OF assms(3)] by metis+
  then have "fsRequests st2 = fsRequests st @ [req, req1]" by (simp add: fetchStep_def)
  moreover have "clientDo env ireq strip via req st = clientDo env ireq strip2 (via @ [req, req1]) req2 st2"
    by (simp add: clientDo.simps [of env ireq strip via req st] clientDo.simps [of env ireq strip1 "via @ [req]" req1 st1] assms(1,3))
  ultimately show ?thesis using h assms(2,4) by simp
qed

theorem second_redirect_leaks_header_witness:
  "hdrGet (rqHeaders sampleReq1) ''X-Token'' = [] \<and> hdrGet (rqHeaders sampleReq2) ''X-Token'' = ''secret'' \<and>
   uHost (rqURL sampleReq2) = ''b.test'' \<and>
   fsRequests (snd (fetchSubscriptionURL sampleEnv ''http://a.test/'' ''{\"X-Token\":\"secret\"}'' 0)) =
     [sampleReq0, sampleReq1, sampleReq2]"
proof -
  have k: "CanonicalKey ''X-Token'' = ''X-Token''" by code_simp
  have o: "\<not> sameSubscriptionOrigin (rqURL sampleReq0) (rqURL sampleReq1)"
    "sameSubscriptionOrigin (rqURL sampleReq1) (rqURL sampleReq2)"
    using sample_origins by (simp_all add: sampleReq1_def sampleCopied_def)
  have s: "clientHop sampleEnv sampleReq0 True ([] @ [sampleReq0]) sampleReq1 (sampleState 4 1) =
    (Inr (Inr (True, sampleReq2)), sampleState 7 2)" using sample_hops(2) by simp
  have c: "\<not> sensitiveHeader (CanonicalKey ''X-Token'')" "CanonicalKey ''X-Token'' \<noteq> ''User-Agent''" "CanonicalKey ''X-Token'' \<noteq> ''Referer''"
    unfolding k by (simp_all add: sensitiveHeader_def)
  have first: "hdrGet (rqHeaders sampleReq0) ''X-Token'' = ''secret''" "uHost (rqURL sampleReq2) = ''b.test''"
    "fsRequests (sampleState 9 3) = [sampleReq0, sampleReq1, sampleReq2]"
    by code_simp+
  from second_redirect_leaks_header [OF sample_hops(1) o(1) s o(2) c] first show ?thesis
    unfolding sample_run snd_conv by simp
qed

end
