(* ===== verification/Manager.thy ===== *)
theory Manager
  imports Shards Checker SubscriptionStore SubscriptionFetch
begin

text \<open>
  The subscription manager (\<open>custom/manager.go\<close>): it keeps the rows of the tables and the nodes of the tunnel
  runtime in step. A refresh fetches and parses a subscription, reloads the runtime with its tunnel nodes, replaces the
  rows and validates them; adding and deleting nodes and subscriptions change the runtime first and take that back when
  the tables refuse. The manager uses the runtime through the record \<open>tunnelRuntime\<close>, of which the shards are one.
\<close>

section \<open>The runtime and the state\<close>

text \<open>The port map and the nodes are lists in the order in which they are ranged over.\<close>

record ('s, 'e, 'x) tunnelRuntime =
  rtReload :: "'e \<Rightarrow> ParsedNode list \<Rightarrow> 's \<Rightarrow> 'x option \<times> 's"
  rtStop :: "'s \<Rightarrow> 's"
  rtPortMap :: "'s \<Rightarrow> port_map"
  rtNodes :: "'s \<Rightarrow> ParsedNode list"
  rtDiagnostics :: "('s \<Rightarrow> assemblyDiagnostics) option"
  rtStatus :: "'s \<Rightarrow> SingBoxRuntimeStatus"

record 's Manager =
  mgDB :: DB
  mgRuntime :: 's
  mgStopped :: bool
  mgEvicted :: "string list"

datatype 'x managerError =
    MgrStopped | MgrStore store_error | MgrNotActive string | MgrFetch fetchError | MgrParse | MgrNoNodes
  | MgrReload 'x | MgrCommit commit_error | MgrNoPort string | MgrNotManual | MgrRollback "'x managerError" 'x

type_synonym ('s, 'x, 'a) mgr = "'s Manager \<Rightarrow> ('x managerError + 'a) \<times> 's Manager"

text \<open>A call of the tables, and a reload.\<close>

definition store :: "'a db_op \<Rightarrow> ('s, 'x, 'a) mgr" where
  "store f m =
     (case f (mgDB m) of
        (Inl e, d) \<Rightarrow> (Inl (MgrStore e), m\<lparr>mgDB := d\<rparr>)
      | (Inr x, d) \<Rightarrow> (Inr x, m\<lparr>mgDB := d\<rparr>))"

definition ignoring :: "'a db_op \<Rightarrow> 's Manager \<Rightarrow> 's Manager" where
  "ignoring f m = m\<lparr>mgDB := snd (f (mgDB m))\<rparr>"

definition reload :: "('s, 'e, 'x) tunnelRuntime \<Rightarrow> 'e \<Rightarrow> ParsedNode list \<Rightarrow> ('s, 'x, unit) mgr" where
  "reload ops e nodes m =
     (case rtReload ops e nodes (mgRuntime m) of
        (Some err, s) \<Rightarrow> (Inl (MgrReload err), m\<lparr>mgRuntime := s\<rparr>)
      | (None, s) \<Rightarrow> (Inr (), m\<lparr>mgRuntime := s\<rparr>))"

text \<open>The compensation after a runtime change: the old nodes are loaded again and the first error is reported.\<close>

definition rollback ::
    "('s, 'e, 'x) tunnelRuntime \<Rightarrow> 'e \<Rightarrow> ParsedNode list \<Rightarrow> 'x managerError \<Rightarrow> ('s, 'x, 'a) mgr" where
  "rollback ops e oldNodes err m =
     (case rtReload ops e oldNodes (mgRuntime m) of
        (Some rb, s) \<Rightarrow> (Inl (MgrRollback err rb), m\<lparr>mgRuntime := s\<rparr>)
      | (None, s) \<Rightarrow> (Inl err, m\<lparr>mgRuntime := s\<rparr>))"

section \<open>Nodes and local addresses\<close>

definition isLocalTunnelAddress :: "string \<Rightarrow> bool" where
  "isLocalTunnelAddress addr =
     (case SplitHostPort addr of
        None \<Rightarrow> False
      | Some (host, port) \<Rightarrow>
          host = ''127.0.0.1'' \<or> host = ''localhost'' \<or> (case ParseIP host of Some ip \<Rightarrow> IsLoopback ip | None \<Rightarrow> False))"

definition longTermDisabledRetention :: int where
  "longTermDisabledRetention = 24 * 3600 * 10 ^ 9"

text \<open>\<open>t\<close> is the time in nanoseconds; the tables keep seconds.\<close>

definition isLongTermDisabledProxy :: "Proxy \<Rightarrow> int \<Rightarrow> bool" where
  "isLongTermDisabledProxy p t \<longleftrightarrow>
     (if pStatus p \<noteq> ''disabled'' then False
      else (case pDisabledAt p of None \<Rightarrow> False | Some s \<Rightarrow> t - s * 10 ^ 9 > longTermDisabledRetention))"

definition disabledProxyHasRuntimePort :: "string \<Rightarrow> port_map \<Rightarrow> bool" where
  "disabledProxyHasRuntimePort address portMap =
     (if \<not> isLocalTunnelAddress address then True
      else (case SplitHostPort address of
              None \<Rightarrow> False
            | Some (host, portStr) \<Rightarrow>
                (case Atoi portStr of None \<Rightarrow> False | Some port \<Rightarrow> list_ex (\<lambda>(k, p). p = port) portMap)))"

definition localAddrMatches :: "port_map \<Rightarrow> string \<Rightarrow> string \<Rightarrow> bool" where
  "localAddrMatches portMap key address =
     (case map_of portMap key of
        None \<Rightarrow> False
      | Some port \<Rightarrow> JoinHostPort ''127.0.0.1'' (fmtInt port) = address \<or> JoinHostPort ''localhost'' (fmtInt port) = address)"

definition nodeKeyForLocalAddress :: "ParsedNode list \<Rightarrow> port_map \<Rightarrow> string \<Rightarrow> string" where
  "nodeKeyForLocalAddress nodes portMap address =
     (case find (\<lambda>n. localAddrMatches portMap (NodeKey n) address) nodes of
        Some n \<Rightarrow> NodeKey n
      | None \<Rightarrow>
          (case SplitHostPort address of
             None \<Rightarrow> []
           | Some (host, portStr) \<Rightarrow>
               (case Atoi portStr of
                  None \<Rightarrow> []
                | Some port \<Rightarrow> (case find (\<lambda>(k, p). p = port) portMap of Some (k, p) \<Rightarrow> k | None \<Rightarrow> []))))"

definition retainedRuntimeAddresses :: "Proxy list \<Rightarrow> int \<Rightarrow> string list" where
  "retainedRuntimeAddresses ps t =
     map pAddress (filter (\<lambda>p. \<not> (\<not> isLocalTunnelAddress (pAddress p) \<or> isLongTermDisabledProxy p t)) ps)"

definition nodesExcludingKeys :: "ParsedNode list \<Rightarrow> string list \<Rightarrow> ParsedNode list" where
  "nodesExcludingKeys nodes keys = (if keys = [] then nodes else filter (\<lambda>n. NodeKey n \<notin> set keys) nodes)"

text \<open>A map from keys to nodes: the last node of a key replaces the one before. \<open>order\<close> is the order of ranging.\<close>

definition addNode :: "ParsedNode \<Rightarrow> (string \<times> ParsedNode) list \<Rightarrow> (string \<times> ParsedNode) list" where
  "addNode n nodeMap = AList.update (NodeKey n) n nodeMap"

definition mapValues :: "(ParsedNode list \<Rightarrow> ParsedNode list) \<Rightarrow> (string \<times> ParsedNode) list \<Rightarrow> ParsedNode list" where
  "mapValues order nodeMap = order (map snd nodeMap)"

text \<open>The keys of long disabled nodes that still hold a local port nobody else needs.\<close>

definition longTermKeys :: "Proxy list \<Rightarrow> Proxy list \<Rightarrow> ParsedNode list \<Rightarrow> port_map \<Rightarrow> int \<Rightarrow> string list" where
  "longTermKeys disabled allProxies nodes portMap t =
     (let retained = retainedRuntimeAddresses allProxies t in
      filter (\<lambda>k. k \<noteq> []) (map (\<lambda>p. nodeKeyForLocalAddress nodes portMap (pAddress p))
        (filter (\<lambda>p. isLongTermDisabledProxy p t \<and> isLocalTunnelAddress (pAddress p) \<and> pAddress p \<notin> set retained) disabled)))"

definition markLongTermEvictedKeys :: "string list \<Rightarrow> 's Manager \<Rightarrow> 's Manager" where
  "markLongTermEvictedKeys ks m = m\<lparr>mgEvicted := filter (\<lambda>k. k \<notin> set ks) (mgEvicted m) @ remdups ks\<rparr>"

definition clearLongTermEvictedKey :: "string \<Rightarrow> 's Manager \<Rightarrow> 's Manager" where
  "clearLongTermEvictedKey k m = m\<lparr>mgEvicted := filter (\<lambda>k'. k' \<noteq> k) (mgEvicted m)\<rparr>"

text \<open>Errors of the tables are not reported: then only the recorded keys are excluded.\<close>

definition longTermDisabledRuntimeKeys :: "('s, 'e, 'x) tunnelRuntime \<Rightarrow> int \<Rightarrow> 's Manager \<Rightarrow> string list \<times> 's Manager" where
  "longTermDisabledRuntimeKeys ops t m =
     (case GetDisabledCustomProxies (mgDB m) of
        (Inl e, d1) \<Rightarrow> (mgEvicted m, m\<lparr>mgDB := d1\<rparr>)
      | (Inr disabled, d1) \<Rightarrow>
          (case GetAllForAdmin d1 of
             (Inl e, d2) \<Rightarrow> (mgEvicted m, m\<lparr>mgDB := d2\<rparr>)
           | (Inr allProxies, d2) \<Rightarrow>
               (let ks = longTermKeys disabled allProxies (rtNodes ops (mgRuntime m)) (rtPortMap ops (mgRuntime m)) t in
                (mgEvicted m @ ks, markLongTermEvictedKeys ks (m\<lparr>mgDB := d2\<rparr>)))))"

definition collectAllTunnelNodesExcludingSubscription ::
    "('s, 'e, 'x) tunnelRuntime \<Rightarrow> (ParsedNode list \<Rightarrow> ParsedNode list) \<Rightarrow> int \<Rightarrow> string list \<Rightarrow> 's Manager \<Rightarrow>
     ParsedNode list \<times> 's Manager" where
  "collectAllTunnelNodesExcludingSubscription ops order t excludedKeys m =
     (case longTermDisabledRuntimeKeys ops t m of
        (longTerm, m1) \<Rightarrow>
          (mapValues order (fold addNode (filter (\<lambda>n. NodeKey n \<notin> set excludedKeys \<and> NodeKey n \<notin> set longTerm)
             (rtNodes ops (mgRuntime m1))) []), m1))"

definition mergeWithExistingTunnelNodes ::
    "('s, 'e, 'x) tunnelRuntime \<Rightarrow> (ParsedNode list \<Rightarrow> ParsedNode list) \<Rightarrow> int \<Rightarrow> ParsedNode \<Rightarrow> 's Manager \<Rightarrow>
     ParsedNode list \<times> 's Manager" where
  "mergeWithExistingTunnelNodes ops order t node m =
     (case collectAllTunnelNodesExcludingSubscription ops order t [] m of
        (existing, m1) \<Rightarrow> (mapValues order (addNode node (fold addNode existing [])), m1))"

text \<open>The runtime keys of the rows of a subscription, each with the address of its last row.\<close>

definition rowRuntimeKey :: "ParsedNode list \<Rightarrow> port_map \<Rightarrow> ProxyRow \<Rightarrow> string" where
  "rowRuntimeKey nodes portMap r =
     (let key = TrimSpace (cNodeKey r) in
      if key \<noteq> [] then (if key \<in> set (map NodeKey nodes) then key else [])
      else nodeKeyForLocalAddress nodes portMap (cAddress r))"

definition ownKeys :: "ParsedNode list \<Rightarrow> port_map \<Rightarrow> ProxyRow list \<Rightarrow> (string \<times> string) list" where
  "ownKeys nodes portMap rows =
     fold (\<lambda>r keys. let k = rowRuntimeKey nodes portMap r in if k \<noteq> [] then AList.update k (cAddress r) keys else keys) rows []"

fun unsharedKeys :: "int \<Rightarrow> (string \<times> string) list \<Rightarrow> string list db_op" where
  "unsharedKeys subID [] = returnOp []"
| "unsharedKeys subID ((k, a) # kas) =
     bindOp (HasOtherSubscriptionProxyOwner k a subID) (\<lambda>other.
       bindOp (unsharedKeys subID kas) (\<lambda>ks. returnOp (if other then ks else k # ks)))"

definition subscriptionTunnelRuntimeKeys :: "int \<Rightarrow> ParsedNode list \<Rightarrow> port_map \<Rightarrow> string list db_op" where
  "subscriptionTunnelRuntimeKeys subID nodes portMap =
     bindOp (querySQL (\<lambda>d. filter (ofSub subID) (proxies d))) (\<lambda>rows. unsharedKeys subID (ownKeys nodes portMap rows))"

section \<open>Which nodes may be stored\<close>

text \<open>Without diagnostics of the assembly the outbound is built again to tell a rejected node from a missing one.\<close>

definition commitDiagnostics :: "assemblyDiagnostics \<Rightarrow> ParsedNode list \<Rightarrow> port_map \<Rightarrow> assemblyDiagnostics" where
  "commitDiagnostics d target portMap =
     (if adRejected d = [] \<and> adAccepted d = [] \<and> adSegmentFull d = [] then
        d\<lparr>adRejected := concat (map (\<lambda>n. if hasPort portMap n then []
            else (case buildOutbound n ''diagnostic'' of Inl e \<Rightarrow> [(n, BuildRejected e)] | Inr out \<Rightarrow> [])) target)\<rparr>
      else d)"

definition acceptedNodesForCommit ::
    "assemblyDiagnostics \<Rightarrow> ParsedNode list \<Rightarrow> port_map \<Rightarrow> commit_error + ParsedNode list" where
  "acceptedNodesForCommit d0 target portMap =
     (if target = [] then Inr []
      else
        (let d = commitDiagnostics d0 target portMap;
             notRejected = filter (\<lambda>n. NodeKey n \<notin> set (rejectedKeys d)) target;
             accepted = filter (hasPort portMap) notRejected;
             missing = filter (\<lambda>n. \<not> hasPort portMap n) notRejected in
         if missing \<noteq> [] then Inl (CommitMissing (incompletePortAllocationErrorWithDiagnostics missing portMap d))
         else if accepted = [] then Inl (CommitAllRejected (incompletePortAllocationErrorWithDiagnostics target portMap d))
         else Inr accepted))"

definition runtimeDiagnostics :: "('s, 'e, 'x) tunnelRuntime \<Rightarrow> 's \<Rightarrow> assemblyDiagnostics" where
  "runtimeDiagnostics ops s = (case rtDiagnostics ops of Some get \<Rightarrow> get s | None \<Rightarrow> noDiagnostics)"

definition directEntry :: "ParsedNode \<Rightarrow> subscriptionProxyEntry" where
  "directEntry n = \<lparr>eAddr = DirectAddress n, eProto = DirectProtocol n, eDual = False,
     eUsername = fst (DirectCredentials n), ePassword = snd (DirectCredentials n), eNodeKey = NodeKey n\<rparr>"

definition tunnelEntries :: "port_map \<Rightarrow> ParsedNode list \<Rightarrow> subscriptionProxyEntry list" where
  "tunnelEntries portMap nodes =
     concat (map (\<lambda>n. case map_of portMap (NodeKey n) of
         None \<Rightarrow> []
       | Some port \<Rightarrow> [\<lparr>eAddr = JoinHostPort ''127.0.0.1'' (fmtInt port), eProto = ''socks5'', eDual = True,
           eUsername = [], ePassword = [], eNodeKey = NodeKey n\<rparr>]) nodes)"

section \<open>Writing validation results back\<close>

text \<open>
  The loops of \<open>validateCustomProxies\<close> and \<open>validateManualProxies\<close> are the same: the results of the stream in the
  order they arrive, with what others did to the tables in between.
\<close>

definition handleValidated :: "Arrival \<Rightarrow> (int \<times> int) \<times> DB \<Rightarrow> (int \<times> int) \<times> DB" where
  "handleValidated ar st =
     (case st of
        ((valid, invalid), d0) \<Rightarrow>
          (let res = arResult ar; d = arBefore ar d0; identity = RouteIdentityFromProxy (rsProxy res);
               ob = observationOf res in
           if \<not> rsValid res then
             (if rsFailureReason res = FailureGeoRejected then
                (case DisableRouteForPolicy identity d of
                   (Inl e, d1) \<Rightarrow> ((valid, invalid + 1), d1)
                 | (Inr u, d1) \<Rightarrow> ((valid, invalid + 1), snd (ApplyProbeObservation identity ob (arBetween ar d1))))
              else ((valid, invalid + 1), snd (RecordProbeFailure identity ob 1 d)))
           else
             (case RecoverProxyFromProbe identity ob d of
                (Inr u, d1) \<Rightarrow> ((valid + 1, invalid), d1)
              | (Inl e, d1) \<Rightarrow>
                  if \<not> isNoRows e then ((valid, invalid + 1), d1)
                  else
                    (case ApplyProbeObservation identity ob (arBetween ar d1) of
                       (Inr u, d2) \<Rightarrow> ((valid + 1, invalid), d2)
                     | (Inl e2, d2) \<Rightarrow> ((valid, invalid + 1), snd (DisableRouteForPolicy identity d2))))))"

definition writeValidated :: "Arrival list \<Rightarrow> DB \<Rightarrow> (int \<times> int) \<times> DB" where
  "writeValidated ars d = fold handleValidated ars ((0, 0), d)"

definition validateCustomProxies ::
    "(Proxy list \<Rightarrow> Arrival list) \<Rightarrow> Proxy list \<Rightarrow> int \<Rightarrow> 's Manager \<Rightarrow> int \<times> 's Manager" where
  "validateCustomProxies stream ps subID m =
     (if ps = [] then (0, m)
      else
        (case writeValidated (stream ps) (mgDB m) of
           ((valid, invalid), d) \<Rightarrow>
             (valid, m\<lparr>mgDB := (if valid > 0 \<and> subID > 0 then snd (UpdateSubscriptionSuccess subID d) else d)\<rparr>)))"

text \<open>Without a validator the nodes stay as they are.\<close>

definition validateManualProxies ::
    "(Proxy list \<Rightarrow> Arrival list) option \<Rightarrow> Proxy list \<Rightarrow> 's Manager \<Rightarrow> 's Manager" where
  "validateManualProxies stream ps m =
     (case stream of
        None \<Rightarrow> m
      | Some run \<Rightarrow> if ps = [] then m else m\<lparr>mgDB := snd (writeValidated (run ps) (mgDB m))\<rparr>)"

section \<open>Refreshing a subscription\<close>

text \<open>
  What surrounds a refresh: the network and the files, which nodes the parser finds in the data (\<open>custom/parser.go\<close>),
  the order of ranging over maps, the time, what others do to the tables while the data is fetched, the events around
  the reload and around the one that takes it back, and the validation stream.
\<close>

record 'e refreshEnv =
  reFetch :: fetchEnv
  reReadFile :: "string \<Rightarrow> string option"
  reLookups :: nat
  reParse :: "string \<Rightarrow> string \<Rightarrow> ParsedNode list option"
  reOrder :: "ParsedNode list \<Rightarrow> ParsedNode list"
  reTime :: int
  reMeanwhile :: "DB \<Rightarrow> DB"
  reLoad :: 'e
  reBack :: 'e
  reStream :: "Proxy list \<Rightarrow> Arrival list"

text \<open>The data and the nodes; nothing is changed yet.\<close>

definition refreshNodes :: "'e refreshEnv \<Rightarrow> int \<Rightarrow> ('s, 'x, ParsedNode list) mgr" where
  "refreshNodes env subID m =
     (if mgStopped m then (Inl MgrStopped, m)
      else
        (case store (GetSubscription subID) m of
           (Inl e, m1) \<Rightarrow> (Inl e, m1)
         | (Inr sub, m1) \<Rightarrow>
             if sStatus sub \<noteq> ''active'' then (Inl (MgrNotActive (sStatus sub)), m1)
             else
               (let m2 = m1\<lparr>mgDB := reMeanwhile env (mgDB m1)\<rparr> in
                case fst (fetchSubscriptionData (reFetch env) (reReadFile env) sub (reLookups env)) of
                  Inl e \<Rightarrow> (Inl (MgrFetch e), m2)
                | Inr data \<Rightarrow>
                    (case reParse env data (sFormat sub) of
                       None \<Rightarrow> (Inl MgrParse, m2)
                     | Some nodes \<Rightarrow> if nodes = [] then (Inl MgrNoNodes, m2) else (Inr nodes, m2)))))"

text \<open>The runtime is loaded with the tunnel nodes; the entries they get there. The flag says whether it was changed.\<close>

definition refreshRuntime ::
    "('s, 'e, 'x) tunnelRuntime \<Rightarrow> 'e refreshEnv \<Rightarrow> ParsedNode list \<Rightarrow> string list \<Rightarrow>
     ('s, 'x, subscriptionProxyEntry list \<times> bool) mgr" where
  "refreshRuntime ops env tunnelNodes oldSubKeys m =
     (if tunnelNodes = [] \<and> oldSubKeys = [] then (Inr ([], False), m)
      else
        (case collectAllTunnelNodesExcludingSubscription ops (reOrder env) (reTime env) oldSubKeys m of
           (others, m1) \<Rightarrow>
             (let m2 = fold clearLongTermEvictedKey (map NodeKey tunnelNodes) m1;
                  merged = mapValues (reOrder env) (fold addNode tunnelNodes (fold addNode others []));
                  oldNodes = rtNodes ops (mgRuntime m) in
              case reload ops (reLoad env) merged m2 of
                (Inl e, m3) \<Rightarrow> (Inl e, m3)
              | (Inr u, m3) \<Rightarrow>
                  (let portMap = rtPortMap ops (mgRuntime m3) in
                   case acceptedNodesForCommit (runtimeDiagnostics ops (mgRuntime m3)) tunnelNodes portMap of
                     Inl err \<Rightarrow> rollback ops (reBack env) oldNodes (MgrCommit err) m3
                   | Inr accepted \<Rightarrow> (Inr (tunnelEntries portMap accepted, True), m3)))))"

definition refreshCommit ::
    "('s, 'e, 'x) tunnelRuntime \<Rightarrow> 'e refreshEnv \<Rightarrow> int \<Rightarrow> ParsedNode list \<Rightarrow> ('s, 'x, Proxy list) mgr" where
  "refreshCommit ops env subID nodes m =
     (let direct = filter IsDirect nodes; tunnel = filter (\<lambda>n. \<not> IsDirect n) nodes;
          directEntries = normalizeSubscriptionProxyEntries (map directEntry direct);
          oldNodes = rtNodes ops (mgRuntime m) in
      case store (subscriptionTunnelRuntimeKeys subID oldNodes (rtPortMap ops (mgRuntime m))) m of
        (Inl e, m1) \<Rightarrow> (Inl e, m1)
      | (Inr oldSubKeys, m1) \<Rightarrow>
          (case refreshRuntime ops env tunnel oldSubKeys m1 of
             (Inl e, m2) \<Rightarrow> (Inl e, m2)
           | (Inr (entries, runtimeChanged), m2) \<Rightarrow>
               (case store (replaceSubscriptionProxies subID (entries @ directEntries)) m2 of
                  (Inr ps, m3) \<Rightarrow> (Inr ps, m3)
                | (Inl e, m3) \<Rightarrow> if runtimeChanged then rollback ops (reBack env) oldNodes e m3 else (Inl e, m3))))"

definition RefreshSubscription ::
    "('s, 'e, 'x) tunnelRuntime \<Rightarrow> 'e refreshEnv \<Rightarrow> int \<Rightarrow> ('s, 'x, unit) mgr" where
  "RefreshSubscription ops env subID m =
     (case refreshNodes env subID m of
        (Inl e, m1) \<Rightarrow> (Inl e, m1)
      | (Inr nodes, m1) \<Rightarrow>
          (case refreshCommit ops env subID nodes m1 of
             (Inl e, m2) \<Rightarrow> (Inl e, m2)
           | (Inr ps, m2) \<Rightarrow> (Inr (), snd (validateCustomProxies (reStream env) ps subID m2))))"

section \<open>Deleting\<close>

definition deleteProxyWithRuntime ::
    "('s, 'e, 'x) tunnelRuntime \<Rightarrow> 'e refreshEnv \<Rightarrow> Proxy \<Rightarrow> ('s, 'x, unit) mgr" where
  "deleteProxyWithRuntime ops env p m =
     (if \<not> isLocalTunnelAddress (pAddress p) then store (DeleteProxyByID (pID p)) m
      else
        (let oldNodes = rtNodes ops (mgRuntime m); portMap = rtPortMap ops (mgRuntime m);
             key0 = nodeKeyForLocalAddress oldNodes portMap (pAddress p);
             removeKey = (if key0 = [] then TrimSpace (pNodeKey p) else key0) in
         case store (HasOtherProxyOwner removeKey (pAddress p) (pID p)) m of
           (Inl e, m1) \<Rightarrow> (Inl e, m1)
         | (Inr otherOwner, m1) \<Rightarrow>
             (let newNodes = (if otherOwner then oldNodes
                    else filter (\<lambda>n. \<not> (removeKey \<noteq> [] \<and> NodeKey n = removeKey) \<and>
                           \<not> (removeKey = [] \<and> localAddrMatches portMap (NodeKey n) (pAddress p))) oldNodes);
                  change = (length newNodes \<noteq> length oldNodes) in
              case (if change then reload ops (reLoad env) newNodes m1 else (Inr (), m1)) of
                (Inl e, m2) \<Rightarrow> (Inl e, m2)
              | (Inr u, m2) \<Rightarrow>
                  (case store (DeleteProxyByID (pID p)) m2 of
                     (Inr u, m3) \<Rightarrow> (Inr u, m3)
                   | (Inl e, m3) \<Rightarrow> if change then rollback ops (reBack env) oldNodes e m3 else (Inl e, m3)))))"

definition DeleteManualNode :: "('s, 'e, 'x) tunnelRuntime \<Rightarrow> 'e refreshEnv \<Rightarrow> int \<Rightarrow> ('s, 'x, unit) mgr" where
  "DeleteManualNode ops env i m =
     (case store (GetProxyByID i) m of
        (Inl e, m1) \<Rightarrow> (Inl e, m1)
      | (Inr p, m1) \<Rightarrow> if pSource p \<noteq> SourceManual then (Inl MgrNotManual, m1) else deleteProxyWithRuntime ops env p m1)"

definition DeleteManagedProxy :: "('s, 'e, 'x) tunnelRuntime \<Rightarrow> 'e refreshEnv \<Rightarrow> int \<Rightarrow> ('s, 'x, unit) mgr" where
  "DeleteManagedProxy ops env i m =
     (case store (GetProxyByID i) m of
        (Inl e, m1) \<Rightarrow> (Inl e, m1)
      | (Inr p, m1) \<Rightarrow> deleteProxyWithRuntime ops env p m1)"

text \<open>Both batch operations: how many were deleted, and the errors of the others.\<close>

fun deleteEach ::
    "(int \<Rightarrow> ('s, 'x, unit) mgr) \<Rightarrow> int list \<Rightarrow> 's Manager \<Rightarrow> (int \<times> (int \<times> 'x managerError) list) \<times> 's Manager" where
  "deleteEach del [] m = ((0, []), m)"
| "deleteEach del (i # is) m =
     (case del i m of
        (Inl e, m1) \<Rightarrow> (case deleteEach del is m1 of ((n, errs), m2) \<Rightarrow> ((n, (i, e) # errs), m2))
      | (Inr u, m1) \<Rightarrow> (case deleteEach del is m1 of ((n, errs), m2) \<Rightarrow> ((n + 1, errs), m2)))"

definition DeleteManualNodes where
  "DeleteManualNodes ops env = deleteEach (\<lambda>i. DeleteManualNode ops (env i) i)"

definition DeleteManagedProxies where
  "DeleteManagedProxies ops env = deleteEach (\<lambda>i. DeleteManagedProxy ops (env i) i)"

definition DeleteSubscription_mgr ::
    "('s, 'e, 'x) tunnelRuntime \<Rightarrow> 'e refreshEnv \<Rightarrow> int \<Rightarrow> ('s, 'x, unit) mgr" where
  "DeleteSubscription_mgr ops env i m =
     (let oldNodes = rtNodes ops (mgRuntime m) in
      case store (subscriptionTunnelRuntimeKeys i oldNodes (rtPortMap ops (mgRuntime m))) m of
        (Inl e, m1) \<Rightarrow> (Inl e, m1)
      | (Inr removeKeys, m1) \<Rightarrow>
          (case (if removeKeys \<noteq> [] then reload ops (reLoad env) (nodesExcludingKeys oldNodes removeKeys) m1 else (Inr (), m1)) of
             (Inl e, m2) \<Rightarrow> (Inl e, m2)
           | (Inr u, m2) \<Rightarrow>
               (case store (DeleteSubscription i) m2 of
                  (Inr u, m3) \<Rightarrow> (Inr u, m3)
                | (Inl e, m3) \<Rightarrow> if removeKeys \<noteq> [] then rollback ops (reBack env) oldNodes e m3 else (Inl e, m3))))"

section \<open>Adding nodes by hand\<close>

text \<open>A tunnel node joins the runtime first; every failure after that takes the node out again.\<close>

definition addManualTunnelNode ::
    "('s, 'e, 'x) tunnelRuntime \<Rightarrow> 'e refreshEnv \<Rightarrow> ParsedNode \<Rightarrow> string \<Rightarrow> string \<Rightarrow> ('s, 'x, unit) mgr" where
  "addManualTunnelNode ops env node region note m =
     (let oldNodes = rtNodes ops (mgRuntime m); key = NodeKey node in
      case mergeWithExistingTunnelNodes ops (reOrder env) (reTime env) node m of
        (merged, m1) \<Rightarrow>
          (case reload ops (reLoad env) merged m1 of
             (Inl e, m2) \<Rightarrow> (Inl e, m2)
           | (Inr u, m2) \<Rightarrow>
               (case map_of (rtPortMap ops (mgRuntime m2)) key of
                  None \<Rightarrow> rollback ops (reBack env) oldNodes (MgrNoPort key) m2
                | Some port \<Rightarrow>
                    (let addr = JoinHostPort ''127.0.0.1'' (fmtInt port) in
                     case store (AddManualProxyWithNodeKey addr ''socks5'' region note key) m2 of
                       (Inl e, m3) \<Rightarrow> rollback ops (reBack env) oldNodes e m3
                     | (Inr u, m3) \<Rightarrow>
                         (case store (GetProxyByAddress addr) m3 of
                            (Inl e, m4) \<Rightarrow> rollback ops (reBack env) oldNodes e (ignoring (DeleteManualProxy addr) m4)
                          | (Inr p, m4) \<Rightarrow>
                              (case store (SetProxyDualProtocol (pID p) True) m4 of
                                 (Inl e, m5) \<Rightarrow> rollback ops (reBack env) oldNodes e (ignoring (DeleteProxyByID (pID p)) m5)
                               | (Inr u, m5) \<Rightarrow> (Inr (), m5)))))))"

text \<open>\<open>parseLink\<close> is \<open>ParseSingleLink\<close> of \<open>custom/parser.go\<close>.\<close>

definition AddManualNode ::
    "('s, 'e, 'x) tunnelRuntime \<Rightarrow> (string \<Rightarrow> ParsedNode option) \<Rightarrow> (Proxy list \<Rightarrow> Arrival list) option \<Rightarrow> 'e refreshEnv \<Rightarrow>
     string \<Rightarrow> string \<Rightarrow> string \<Rightarrow> ('s, 'x, unit) mgr" where
  "AddManualNode ops parseLink stream env link region note m =
     (case parseLink link of
        None \<Rightarrow> (Inl MgrParse, m)
      | Some node \<Rightarrow>
          if \<not> IsDirect node then addManualTunnelNode ops env node region note m
          else
            (case store (AddManualProxyWithCredentials (DirectAddress node) (DirectProtocol node) region note
                (fst (DirectCredentials node)) (snd (DirectCredentials node))) m of
               (Inl e, m1) \<Rightarrow> (Inl e, m1)
             | (Inr u, m1) \<Rightarrow>
                 (case store (GetProxyByIdentity (DirectAddress node) SourceManual 0) m1 of
                    (Inl e, m2) \<Rightarrow> (Inl e, m2)
                  | (Inr p, m2) \<Rightarrow> (Inr (), validateManualProxies stream [p] m2))))"

section \<open>Importing a list of links\<close>

definition importSchemes :: "string list" where
  "importSchemes = [''socks5://'', ''socks4://'', ''https://'', ''http://'']"

text \<open>The first scheme that occurs, where an earlier one in the list wins at the same place.\<close>

definition firstScheme :: "string \<Rightarrow> (int \<times> string) option" where
  "firstScheme lower =
     fold (\<lambda>scheme best. let i = Index lower scheme in
         if i \<ge> 0 \<and> (case best of None \<Rightarrow> True | Some (b, s) \<Rightarrow> i < b) then Some (i, scheme) else best) importSchemes None"

fun tokenOf :: "string \<Rightarrow> string" where
  "tokenOf [] = []"
| "tokenOf (c # s) =
     (if list_ex (HasPrefix (c # s)) goSpaces \<or> c = CHR ''|'' \<or> c = CHR '','' \<or> c = CHR '';'' then [] else c # tokenOf s)"

definition trimJunk :: "string \<Rightarrow> string" where
  "trimJunk s = rev (dropWhile (\<lambda>c. c \<in> {CHR '')'', CHR '']'', CHR ''}'', CHR ''>'', CHR 0x22, CHR 0x27}) (rev s))"

text \<open>
  The place of the scheme is looked up in the line in lower case and used as an index into the line itself; \<open>None\<close> is
  the panic of a slice out of range. \<open>lower\<close> is \<open>strings.ToLower\<close>.
\<close>

definition extractProxyLinkFromLine :: "(string \<Rightarrow> string) \<Rightarrow> string \<Rightarrow> string option" where
  "extractProxyLinkFromLine lower line0 =
     (let line = TrimSpace line0 in
      if line = [] \<or> HasPrefix line ''#'' then Some []
      else
        (case firstScheme (lower line) of
           None \<Rightarrow> Some []
         | Some (best, scheme) \<Rightarrow>
             if nat best + length scheme > length line then None
             else
               (let token = TrimSpace (tokenOf (drop (nat best + length scheme) line)) in
                Some (if token = [] then [] else scheme @ trimJunk token))))"

definition truncateForError :: "string \<Rightarrow> int \<Rightarrow> string" where
  "truncateForError s0 n =
     (let s = TrimSpace s0 in if n \<le> 0 \<or> int (length s) \<le> n then s else take (nat n) s @ ''...'')"

datatype importError = NoProxyURL string | BadLink string | NotDirectLink string

record ManualImportResult =
  irTotal :: int
  irAdded :: int
  irSkipped :: int
  irFailed :: int
  irErrors :: "importError list"
  irAddedAddrs :: "string list"

definition importFailed :: "importError \<Rightarrow> ManualImportResult \<Rightarrow> ManualImportResult" where
  "importFailed e r = r\<lparr>irFailed := irFailed r + 1, irErrors := (if length (irErrors r) < 20 then irErrors r @ [e] else irErrors r)\<rparr>"

text \<open>The lines one after the other: the result so far, the addresses and protocols seen, the nodes to add.\<close>

fun importLines ::
    "(string \<Rightarrow> string) \<Rightarrow> (string \<Rightarrow> ParsedNode option) \<Rightarrow> string list \<Rightarrow> ManualImportResult \<Rightarrow> string list \<Rightarrow> Proxy list \<Rightarrow> DB \<Rightarrow>
     (ManualImportResult \<times> Proxy list) option \<times> DB" where
  "importLines lower parseLink [] r have_keys toAdd d = (Some (r, toAdd), d)"
| "importLines lower parseLink (raw # ls) r0 have_keys toAdd d =
     (let line = TrimSpace raw in
      if line = [] \<or> HasPrefix line ''#'' then importLines lower parseLink ls r0 have_keys toAdd d
      else
        (let r = r0\<lparr>irTotal := irTotal r0 + 1\<rparr> in
         case extractProxyLinkFromLine lower line of
           None \<Rightarrow> (None, d)
         | Some link \<Rightarrow>
             if link = [] then importLines lower parseLink ls (importFailed (NoProxyURL (truncateForError line 48)) r) have_keys toAdd d
             else
               (case parseLink link of
                  None \<Rightarrow> importLines lower parseLink ls (importFailed (BadLink link) r) have_keys toAdd d
                | Some node \<Rightarrow>
                    if \<not> IsDirect node then importLines lower parseLink ls (importFailed (NotDirectLink link) r) have_keys toAdd d
                    else
                      (let addr = DirectAddress node; key = addr @ ''|'' @ DirectProtocol node in
                       if key \<in> set have_keys then importLines lower parseLink ls (r\<lparr>irSkipped := irSkipped r + 1\<rparr>) have_keys toAdd d
                       else
                         (case GetProxyByIdentity addr SourceManual 0 d of
                            (Inr p, d1) \<Rightarrow> importLines lower parseLink ls (r\<lparr>irSkipped := irSkipped r + 1\<rparr>) (key # have_keys) toAdd d1
                          | (Inl e, d1) \<Rightarrow>
                              importLines lower parseLink ls (r\<lparr>irAddedAddrs := irAddedAddrs r @ [addr]\<rparr>) (key # have_keys)
                                (toAdd @ [zeroProxy\<lparr>pAddress := addr, pProtocol := DirectProtocol node,
                                   pUsername := fst (DirectCredentials node), pPassword := snd (DirectCredentials node)\<rparr>]) d1)))))"

fun lookupAdded :: "Proxy list \<Rightarrow> DB \<Rightarrow> Proxy list \<times> DB" where
  "lookupAdded [] d = ([], d)"
| "lookupAdded (p # ps) d =
     (case GetProxyByIdentity (pAddress p) SourceManual 0 d of
        (Inl e, d1) \<Rightarrow> lookupAdded ps d1
      | (Inr q, d1) \<Rightarrow> (case lookupAdded ps d1 of (qs, d2) \<Rightarrow> (q # qs, d2)))"

text \<open>\<open>None\<close> is the panic.\<close>

definition ImportManualLinks ::
    "(string \<Rightarrow> string) \<Rightarrow> (string \<Rightarrow> ParsedNode option) \<Rightarrow> (Proxy list \<Rightarrow> Arrival list) option \<Rightarrow> string \<Rightarrow> string \<Rightarrow> string \<Rightarrow>
     's Manager \<Rightarrow> (ManualImportResult \<times> store_error option) option \<times> 's Manager" where
  "ImportManualLinks lower parseLink stream txt region note m =
     (case importLines lower parseLink (SplitByte txt CHR 0x0A)
         \<lparr>irTotal = 0, irAdded = 0, irSkipped = 0, irFailed = 0, irErrors = [], irAddedAddrs = []\<rparr> [] [] (mgDB m) of
        (None, d1) \<Rightarrow> (None, m\<lparr>mgDB := d1\<rparr>)
      | (Some (r, toAdd), d1) \<Rightarrow>
          if toAdd = [] then (Some (r, None), m\<lparr>mgDB := d1\<rparr>)
          else
            (case AddManualProxies toAdd region note d1 of
               (Inl e, d2) \<Rightarrow> (Some (r, Some e), m\<lparr>mgDB := d2\<rparr>)
             | (Inr u, d2) \<Rightarrow>
                 (case lookupAdded toAdd d2 of
                    (pending, d3) \<Rightarrow>
                      (Some (r\<lparr>irAdded := int (length toAdd)\<rparr>, None), validateManualProxies stream pending (m\<lparr>mgDB := d3\<rparr>)))))"

section \<open>Probing disabled nodes\<close>

record disabledProbeTarget =
  dpProxy :: Proxy
  dpTunnelNodeKey :: string

definition pruneLongTermDisabledFromRuntime ::
    "('s, 'e, 'x) tunnelRuntime \<Rightarrow> 'e refreshEnv \<Rightarrow> Proxy list \<Rightarrow> ('s, 'x, int) mgr" where
  "pruneLongTermDisabledFromRuntime ops env disabled m =
     (let nodes = rtNodes ops (mgRuntime m) in
      if disabled = [] \<or> nodes = [] then (Inr 0, m)
      else
        (case store GetAllForAdmin m of
           (Inl e, m1) \<Rightarrow> (Inl e, m1)
         | (Inr allProxies, m1) \<Rightarrow>
             (let removeKeys = remdups (longTermKeys disabled allProxies nodes (rtPortMap ops (mgRuntime m)) (reTime env));
                  m2 = markLongTermEvictedKeys removeKeys m1;
                  newNodes = nodesExcludingKeys nodes removeKeys in
              if removeKeys = [] \<or> length newNodes = length nodes then (Inr 0, m2)
              else
                (case reload ops (reLoad env) newNodes m2 of
                   (Inl e, m3) \<Rightarrow> (Inl e, m3)
                 | (Inr u, m3) \<Rightarrow> (Inr (int (length removeKeys)), m3)))))"

text \<open>The first part, under the lock: what is probed. A tunnel node without a port of the runtime is not.\<close>

definition probeTargets :: "ParsedNode list \<Rightarrow> port_map \<Rightarrow> int \<Rightarrow> Proxy list \<Rightarrow> disabledProbeTarget list" where
  "probeTargets nodes portMap t disabled =
     concat (map (\<lambda>p.
       if isLongTermDisabledProxy p t then []
       else if isLocalTunnelAddress (pAddress p) then
         (let key = nodeKeyForLocalAddress nodes portMap (pAddress p) in
          if key = [] then [] else [\<lparr>dpProxy = p, dpTunnelNodeKey = key\<rparr>])
       else [\<lparr>dpProxy = p, dpTunnelNodeKey = []\<rparr>]) disabled)"

definition probePlan ::
    "('s, 'e, 'x) tunnelRuntime \<Rightarrow> 'e refreshEnv \<Rightarrow> 's Manager \<Rightarrow> disabledProbeTarget list \<times> 's Manager" where
  "probePlan ops env m =
     (case GetDisabledCustomProxies (mgDB m) of
        (Inl e, d) \<Rightarrow> ([], m\<lparr>mgDB := d\<rparr>)
      | (Inr disabled, d) \<Rightarrow>
          if disabled = [] then ([], m\<lparr>mgDB := d\<rparr>)
          else
            (let m1 = snd (pruneLongTermDisabledFromRuntime ops env disabled (m\<lparr>mgDB := d\<rparr>)) in
             (probeTargets (rtNodes ops (mgRuntime m1)) (rtPortMap ops (mgRuntime m1)) (reTime env) disabled, m1)))"

definition probeTargetStillCurrentLocked ::
    "('s, 'e, 'x) tunnelRuntime \<Rightarrow> disabledProbeTarget \<Rightarrow> 's Manager \<Rightarrow> bool \<times> 's Manager" where
  "probeTargetStillCurrentLocked ops target m =
     (let p = dpProxy target in
      case GetProxyByIdentity (pAddress p) SourceSubscription (pSubscriptionID p) (mgDB m) of
        (Inl e, d) \<Rightarrow> (False, m\<lparr>mgDB := d\<rparr>)
      | (Inr current, d) \<Rightarrow>
          (pID current = pID p \<and> pAddress current = pAddress p \<and> pStatus current = ''disabled'' \<and>
           pNodeKey current = pNodeKey p \<and> pProtocol current = pProtocol p \<and> pDualProtocol current = pDualProtocol p \<and>
           pUsername current = pUsername p \<and> pPassword current = pPassword p \<and>
           (dpTunnelNodeKey target = [] \<or>
            localAddrMatches (rtPortMap ops (mgRuntime m)) (dpTunnelNodeKey target) (pAddress p)), m\<lparr>mgDB := d\<rparr>))"

text \<open>One target after its probe, under the lock again: whether it was recovered.\<close>

definition probeWriteBack ::
    "('s, 'e, 'x) tunnelRuntime \<Rightarrow> disabledProbeTarget \<Rightarrow> Result \<Rightarrow> 's Manager \<Rightarrow> bool \<times> 's Manager" where
  "probeWriteBack ops target result m =
     (let identity = RouteIdentityFromProxy (dpProxy target); ob = observationOf result in
      case probeTargetStillCurrentLocked ops target m of
        (current, m1) \<Rightarrow>
          if \<not> current then (False, m1)
          else if \<not> rsValid result then
            (if rsFailureReason result = FailureGeoRejected then
               (case ApplyProbeObservation identity ob (mgDB m1) of
                  (Inl e, d) \<Rightarrow> (False, m1\<lparr>mgDB := d\<rparr>)
                | (Inr u, d) \<Rightarrow> (False, m1\<lparr>mgDB := snd (DisableRouteForPolicy identity d)\<rparr>))
             else (False, m1\<lparr>mgDB := snd (RecordDisabledProbeFailure identity ob (mgDB m1))\<rparr>))
          else
            (case RecoverProxyFromProbe identity ob (mgDB m1) of
               (Inl e, d) \<Rightarrow> (False, m1\<lparr>mgDB := d\<rparr>)
             | (Inr u, d) \<Rightarrow> (True, m1\<lparr>mgDB := d\<rparr>)))"

text \<open>The lock is free while a node is probed; \<open>others k\<close> is what happens before the result of the kth target.\<close>

fun probeEach ::
    "('s, 'e, 'x) tunnelRuntime \<Rightarrow> (disabledProbeTarget \<Rightarrow> Result) \<Rightarrow> (nat \<Rightarrow> 's Manager \<Rightarrow> 's Manager) \<Rightarrow> nat \<Rightarrow>
     disabledProbeTarget list \<Rightarrow> 's Manager \<Rightarrow> int list \<times> 's Manager" where
  "probeEach ops probe others k [] m = ([], m)"
| "probeEach ops probe others k (target # ts) m =
     (case probeWriteBack ops target (probe target) (others k m) of
        (recovered, m1) \<Rightarrow>
          (case probeEach ops probe others (Suc k) ts m1 of
             (subs, m2) \<Rightarrow> (if recovered then pSubscriptionID (dpProxy target) # subs else subs, m2)))"

definition probeDisabled ::
    "('s, 'e, 'x) tunnelRuntime \<Rightarrow> 'e refreshEnv \<Rightarrow> (disabledProbeTarget \<Rightarrow> Result) \<Rightarrow> (nat \<Rightarrow> 's Manager \<Rightarrow> 's Manager) \<Rightarrow>
     (int list \<Rightarrow> int list) \<Rightarrow> 's Manager \<Rightarrow> 's Manager" where
  "probeDisabled ops env probe others order m =
     (case probePlan ops env m of
        (targets, m1) \<Rightarrow>
          (case probeEach ops probe others 0 targets m1 of
             (subs, m2) \<Rightarrow> fold (\<lambda>i m. if i > 0 then ignoring (UpdateSubscriptionSuccess i) m else m) (order (remdups subs)) m2))"

section \<open>The loops in the background\<close>

definition StopManager :: "('s, 'e, 'x) tunnelRuntime \<Rightarrow> 's Manager \<Rightarrow> 's Manager" where
  "StopManager ops m = m\<lparr>mgStopped := True, mgRuntime := rtStop ops (mgRuntime m)\<rparr>"

text \<open>\<open>env\<close> gives the surroundings of the refresh of each subscription; errors are only logged.\<close>

definition RefreshAll :: "('s, 'e, 'x) tunnelRuntime \<Rightarrow> (int \<Rightarrow> 'e refreshEnv) \<Rightarrow> 's Manager \<Rightarrow> 's Manager" where
  "RefreshAll ops env m =
     (case GetSubscriptions (mgDB m) of
        (Inl e, d) \<Rightarrow> m\<lparr>mgDB := d\<rparr>
      | (Inr subs, d) \<Rightarrow>
          fold (\<lambda>s m. if sStatus s \<noteq> ''active'' then m else snd (RefreshSubscription ops (env (sID s)) (sID s) m))
            subs (m\<lparr>mgDB := d\<rparr>))"

definition initialRefresh :: "('s, 'e, 'x) tunnelRuntime \<Rightarrow> (int \<Rightarrow> 'e refreshEnv) \<Rightarrow> 's Manager \<Rightarrow> 's Manager" where
  "initialRefresh ops env m =
     (if mgStopped m then m
      else
        (case GetSubscriptions (mgDB m) of
           (Inl e, d) \<Rightarrow> m\<lparr>mgDB := d\<rparr>
         | (Inr subs, d) \<Rightarrow>
             if filter (\<lambda>s. sStatus s = ''active'') subs = [] then m\<lparr>mgDB := d\<rparr> else RefreshAll ops env (m\<lparr>mgDB := d\<rparr>)))"

definition cleanupStaleSubscriptions :: "'s Manager \<Rightarrow> 's Manager" where
  "cleanupStaleSubscriptions m =
     (case GetStaleSubscriptions 7 (mgDB m) of
        (Inl e, d) \<Rightarrow> m\<lparr>mgDB := d\<rparr>
      | (Inr subs, d) \<Rightarrow> fold (\<lambda>s. ignoring (PauseSubscription (sID s))) subs (m\<lparr>mgDB := d\<rparr>))"

definition minuteNs :: int where
  "minuteNs = 60 * 10 ^ 9"

definition refreshDue :: "int \<Rightarrow> Subscription \<Rightarrow> bool" where
  "refreshDue t s \<longleftrightarrow> sStatus s = ''active'' \<and>
     \<not> (case sLastFetch s of None \<Rightarrow> False | Some f \<Rightarrow> t - f * 10 ^ 9 < wrap64 (sRefreshMin s * minuteNs))"

definition checkAndRefresh ::
    "('s, 'e, 'x) tunnelRuntime \<Rightarrow> (int \<Rightarrow> 'e refreshEnv) \<Rightarrow> 's Manager \<Rightarrow> 's Manager" where
  "checkAndRefresh ops env m =
     (if mgStopped m then m
      else
        (let m1 = cleanupStaleSubscriptions m in
         case GetSubscriptions (mgDB m1) of
           (Inl e, d) \<Rightarrow> m1\<lparr>mgDB := d\<rparr>
         | (Inr subs, d) \<Rightarrow>
             fold (\<lambda>s m. if \<not> refreshDue (reTime (env (sID s))) s then m
                else (case RefreshSubscription ops (env (sID s)) (sID s) m of
                        (Inl e, m2) \<Rightarrow> ignoring (UpdateSubscriptionAttempt (sID s)) m2
                      | (Inr u, m2) \<Rightarrow> m2)) subs (m1\<lparr>mgDB := d\<rparr>)))"

text \<open>The pause of \<open>probeLoop\<close> between two probes.\<close>

definition probeInterval :: "Config \<Rightarrow> int" where
  "probeInterval cfg =
     (let interval = wrap64 (cfgCustomProbeInterval cfg * minuteNs) in if interval < minuteNs then 10 * minuteNs else interval)"

section \<open>Status and checks\<close>

record managerStatus =
  gsSingBox :: SingBoxRuntimeStatus
  gsSubscriptionCount :: "store_error + int"
  gsDisabledCount :: "store_error + int"
  gsSubscriptionTotal :: "store_error + int"

definition GetStatus :: "('s, 'e, 'x) tunnelRuntime \<Rightarrow> 's Manager \<Rightarrow> managerStatus \<times> 's Manager" where
  "GetStatus ops m =
     (case CountBySource SourceSubscription (mgDB m) of
        (n, d1) \<Rightarrow>
          (case GetDisabledCustomProxies d1 of
             (dis, d2) \<Rightarrow>
               (case GetSubscriptions d2 of
                  (subs, d3) \<Rightarrow>
                    (\<lparr>gsSingBox = rtStatus ops (mgRuntime m), gsSubscriptionCount = n,
                      gsDisabledCount = map_sum id (\<lambda>ps. int (length ps)) dis,
                      gsSubscriptionTotal = map_sum id (\<lambda>ss. int (length ss)) subs\<rparr>, m\<lparr>mgDB := d3\<rparr>))))"

definition ValidateSubscription :: "'e refreshEnv \<Rightarrow> string \<Rightarrow> string \<Rightarrow> string \<Rightarrow> 'x managerError + int" where
  "ValidateSubscription env url filePath headersJSON =
     (case fst (fetchSubscriptionData (reFetch env) (reReadFile env)
             (defaultSubscription\<lparr>sURL := url, sFilePath := filePath, sHeaders := headersJSON\<rparr>) (reLookups env)) of
        Inl e \<Rightarrow> Inl (MgrFetch e)
      | Inr data \<Rightarrow>
          (case reParse env data ''auto'' of
             None \<Rightarrow> Inl MgrParse
           | Some nodes \<Rightarrow> if nodes = [] then Inl MgrNoNodes else Inr (int (length nodes))))"

definition isGeoBlocked :: "string \<Rightarrow> Config \<Rightarrow> bool" where
  "isGeoBlocked exitLocation cfg =
     (if exitLocation = [] \<or> length exitLocation < 2 then False
      else
        (let countryCode = take 2 exitLocation in
         if cfgAllowedCountries cfg \<noteq> [] then countryCode \<notin> set (cfgAllowedCountries cfg)
         else countryCode \<in> set (cfgBlockedCountries cfg)))"

text \<open>\<open>addPendingSubscriptionProxy\<close>: the row is added, disabled and read back; \<open>None\<close> when a step fails.\<close>

definition addPendingSubscriptionProxy :: "string \<Rightarrow> string \<Rightarrow> int \<Rightarrow> bool \<Rightarrow> 's Manager \<Rightarrow> Proxy option \<times> 's Manager" where
  "addPendingSubscriptionProxy addr proto subID dualProtocol m =
     (case AddProxyWithSource addr proto SourceSubscription [subID] (mgDB m) of
        (Inl e, d1) \<Rightarrow> (None, m\<lparr>mgDB := d1\<rparr>)
      | (Inr u, d1) \<Rightarrow>
          (case DisableSubscriptionProxy addr subID d1 of
             (Inl e, d2) \<Rightarrow> (None, m\<lparr>mgDB := d2\<rparr>)
           | (Inr u, d2) \<Rightarrow>
               (case GetProxyByIdentity addr SourceSubscription subID d2 of
                  (Inl e, d3) \<Rightarrow> (None, m\<lparr>mgDB := d3\<rparr>)
                | (Inr p, d3) \<Rightarrow>
                    if \<not> dualProtocol then (Some p, m\<lparr>mgDB := d3\<rparr>)
                    else
                      (case SetProxyDualProtocol (pID p) True d3 of
                         (Inl e, d4) \<Rightarrow> (None, m\<lparr>mgDB := d4\<rparr>)
                       | (Inr u, d4) \<Rightarrow> (Some (p\<lparr>pDualProtocol := True\<rparr>), m\<lparr>mgDB := d4\<rparr>)))))"

section \<open>The shards as the runtime\<close>

record shardedEnv =
  seFirst :: "nat \<Rightarrow> procEnv"
  seRevert :: "nat \<Rightarrow> procEnv"

definition shardedRuntime :: "(SingBoxProcess ShardedSingBox, shardedEnv, sharded_error) tunnelRuntime" where
  "shardedRuntime = \<lparr>rtReload = (\<lambda>e. ShardedReload processShard (seFirst e) (seRevert e)),
     rtStop = ShardedStop processShard,
     rtPortMap = (\<lambda>sb. concat (map spPortMap (rev (sbShards sb)))),
     rtNodes = ShardedNodes processShard, rtDiagnostics = Some sbAssembly, rtStatus = ShardedRuntimeStatus processShard\<rparr>"

end
