(* ===== verification/ManagerSpec.thy ===== *)
theory ManagerSpec
  imports Manager SubscriptionSpec
begin

text \<open>
  What the operations of the manager promise: a subscription that is not active is never touched, an operation that
  fails leaves the tables and takes the runtime back, stored addresses are those of the running ports, and nodes other
  rows own stay loaded.
\<close>

section \<open>Steps\<close>

named_theorems mgr_keep \<open>what a step of the manager leaves alone\<close>

lemma store_keep [mgr_keep]:
  assumes "store f m = (r, m1)"
  shows "mgRuntime m1 = mgRuntime m" "mgEvicted m1 = mgEvicted m" "mgStopped m1 = mgStopped m"
  using assms by (auto simp: store_def split: prod.splits sum.splits)

lemma store_cases:
  assumes "store f m = (r, m1)"
  obtains (ok) x where "r = Inr x" "f (mgDB m) = (Inr x, mgDB m1)" "m1 = m\<lparr>mgDB := mgDB m1\<rparr>"
  | (err) e where "r = Inl (MgrStore e)" "f (mgDB m) = (Inl e, mgDB m1)" "m1 = m\<lparr>mgDB := mgDB m1\<rparr>"
  using assms by (auto simp: store_def split: prod.splits sum.splits)

lemma store_readonly: "readOnly f \<Longrightarrow> store f m = (r, m1) \<Longrightarrow> tables (mgDB m1) = tables (mgDB m)"
  unfolding readOnly_def by (erule store_cases) (metis snd_conv)+

lemma store_atomic:
  assumes "atomicOp f" "store f m = (Inl e, m1)" "db_inv (mgDB m)"
  shows "tables (mgDB m1) = tables (mgDB m)"
  using assms(2) by (cases rule: store_cases) (use assms atomicD in auto)

lemma reload_keep [mgr_keep]:
  assumes "reload ops e ns m = (r, m1)"
  shows "mgDB m1 = mgDB m" "mgEvicted m1 = mgEvicted m" "mgStopped m1 = mgStopped m"
  using assms by (auto simp: reload_def split: prod.splits option.splits)

lemma reload_cases:
  assumes "reload ops e ns m = (r, m1)"
  obtains (ok) "r = Inr ()" "rtReload ops e ns (mgRuntime m) = (None, mgRuntime m1)"
  | (err) x where "r = Inl (MgrReload x)" "rtReload ops e ns (mgRuntime m) = (Some x, mgRuntime m1)"
  using assms by (auto simp: reload_def split: prod.splits option.splits)

lemma rollback_result:
  assumes "rollback ops e ns err m = (r, m1)"
  shows "mgDB m1 = mgDB m" "mgRuntime m1 = snd (rtReload ops e ns (mgRuntime m))" "\<exists>e. r = Inl e"
  using assms by (auto simp: rollback_def split: prod.splits option.splits)

lemma readonly_GetSubscription: "readOnly (GetSubscription i)"
  unfolding GetSubscription_def
  by (intro readonly_bind readonly_query) (auto intro: readonly_return readonly_fail split: option.split)

lemma readonly_hasOther: "readOnly (HasOtherSubscriptionProxyOwner k a i)" "readOnly (HasOtherProxyOwner k a i)"
  by (auto simp: HasOtherSubscriptionProxyOwner_def HasOtherProxyOwner_def Let_def intro: readonly_bind readonly_query readonly_return)

lemma readonly_unshared: "readOnly (unsharedKeys i kas)"
  by (induction kas) (auto intro!: readonly_bind readonly_hasOther readonly_return)

lemma readonly_runtimeKeys: "readOnly (subscriptionTunnelRuntimeKeys i ns pm)"
  unfolding subscriptionTunnelRuntimeKeys_def by (intro readonly_bind readonly_query readonly_unshared)

lemma readonly_rows: "readOnly GetDisabledCustomProxies" "readOnly GetAllForAdmin"
  by (auto simp: GetDisabledCustomProxies_def GetAllForAdmin_def queryRows_def intro!: readonly_bind readonly_query readonly_return)

lemma readonly_snd: "readOnly f \<Longrightarrow> f d = (r, d1) \<Longrightarrow> tables d1 = tables d"
  unfolding readOnly_def by (metis snd_conv)

lemma longTerm_keep:
  assumes "longTermDisabledRuntimeKeys ops t m = (ks, m1)"
  shows "tables (mgDB m1) = tables (mgDB m)" "mgRuntime m1 = mgRuntime m" "mgStopped m1 = mgStopped m"
  using assms readonly_snd [OF readonly_rows(1)] readonly_snd [OF readonly_rows(2)]
  by (auto simp: longTermDisabledRuntimeKeys_def markLongTermEvictedKeys_def Let_def split: prod.splits sum.splits; metis)+

lemma collect_keep:
  assumes "collectAllTunnelNodesExcludingSubscription ops order t ks m = (ns, m1)"
  shows "tables (mgDB m1) = tables (mgDB m)" "mgRuntime m1 = mgRuntime m" "mgStopped m1 = mgStopped m"
proof -
  obtain long m2 where l: "longTermDisabledRuntimeKeys ops t m = (long, m2)" by fastforce
  with assms have "m1 = m2" by (simp add: collectAllTunnelNodesExcludingSubscription_def)
  with longTerm_keep [OF l] show "tables (mgDB m1) = tables (mgDB m)" "mgRuntime m1 = mgRuntime m" "mgStopped m1 = mgStopped m"
    by simp_all
qed

lemma clear_keep: "mgDB (fold clearLongTermEvictedKey ks m) = mgDB m" "mgRuntime (fold clearLongTermEvictedKey ks m) = mgRuntime m"
  by (induction ks arbitrary: m) (simp_all add: clearLongTermEvictedKey_def)

section \<open>Failures\<close>

text \<open>The runtime after a failure: untouched, the result of a reload that failed, or the old nodes loaded again.\<close>

definition runtimeUndone :: "('s, 'e, 'x) tunnelRuntime \<Rightarrow> 'e refreshEnv \<Rightarrow> 's \<Rightarrow> 's \<Rightarrow> bool" where
  "runtimeUndone ops env s s' \<longleftrightarrow> s' = s \<or> (\<exists>ns x. rtReload ops (reLoad env) ns s = (Some x, s')) \<or>
     (\<exists>ns s1. rtReload ops (reLoad env) ns s = (None, s1) \<and> s' = snd (rtReload ops (reBack env) (rtNodes ops s) s1))"

lemma undone_back:
  "rtReload ops (reLoad env) ns s = (None, s1) \<Longrightarrow> runtimeUndone ops env s (snd (rtReload ops (reBack env) (rtNodes ops s) s1))"
  unfolding runtimeUndone_def by blast

lemma undone_failed: "rtReload ops (reLoad env) ns s = (Some x, s1) \<Longrightarrow> runtimeUndone ops env s s1"
  unfolding runtimeUndone_def by blast

lemma undone_refl [simp]: "runtimeUndone ops env s s"
  by (simp add: runtimeUndone_def)

lemma refreshRuntime_step:
  assumes "refreshRuntime ops env tunnel ks m = (r, m1)"
  shows "tables (mgDB m1) = tables (mgDB m)"
    "case r of Inl e \<Rightarrow> runtimeUndone ops env (mgRuntime m) (mgRuntime m1)
     | Inr (es, chg) \<Rightarrow> (if chg then \<exists>ns. rtReload ops (reLoad env) ns (mgRuntime m) = (None, mgRuntime m1)
                         else mgRuntime m1 = mgRuntime m) \<and>
         (\<exists>accepted. es = tunnelEntries (rtPortMap ops (mgRuntime m1)) accepted \<and> set accepted \<subseteq> set tunnel)"
proof -
  have "tables (mgDB m1) = tables (mgDB m) \<and> (case r of Inl e \<Rightarrow> runtimeUndone ops env (mgRuntime m) (mgRuntime m1)
     | Inr (es, chg) \<Rightarrow> (if chg then \<exists>ns. rtReload ops (reLoad env) ns (mgRuntime m) = (None, mgRuntime m1)
                         else mgRuntime m1 = mgRuntime m) \<and>
         (\<exists>accepted. es = tunnelEntries (rtPortMap ops (mgRuntime m1)) accepted \<and> set accepted \<subseteq> set tunnel))"
  proof (cases "tunnel = [] \<and> ks = []")
    case True
    with assms show ?thesis by (auto simp: refreshRuntime_def tunnelEntries_def intro!: exI [of _ "[]"])
  next
    case False
    obtain others m2 where c: "collectAllTunnelNodesExcludingSubscription ops (reOrder env) (reTime env) ks m = (others, m2)" by fastforce
    define m3 where "m3 = fold clearLongTermEvictedKey (map NodeKey tunnel) m2"
    have m3: "tables (mgDB m3) = tables (mgDB m)" "mgRuntime m3 = mgRuntime m"
      using collect_keep [OF c] by (simp_all add: m3_def clear_keep)
    define merged where "merged = mapValues (reOrder env) (fold addNode tunnel (fold addNode others []))"
    obtain x m4 where l: "reload ops (reLoad env) merged m3 = (x, m4)" by fastforce
    have m4: "mgDB m4 = mgDB m3" using reload_keep [OF l] by simp
    from l show ?thesis
    proof (cases rule: reload_cases)
      case (err y)
      then have "m1 = m4" "r = Inl (MgrReload y)"
        using assms False c l by (simp_all add: refreshRuntime_def Let_def m3_def merged_def)
      with undone_failed [OF err(2)] m3 m4 show ?thesis by simp
    next
      case ok
      show ?thesis
      proof (cases "acceptedNodesForCommit (runtimeDiagnostics ops (mgRuntime m4)) tunnel (rtPortMap ops (mgRuntime m4))")
        case (Inl e)
        have "rollback ops (reBack env) (rtNodes ops (mgRuntime m)) (MgrCommit e) m4 = (r, m1)"
          using assms False c l ok Inl by (simp add: refreshRuntime_def Let_def m3_def merged_def)
        note rb = rollback_result [OF this]
        have "runtimeUndone ops env (mgRuntime m) (mgRuntime m1)" using undone_back ok(2) m3(2) rb(2) by metis
        with rb(1,3) m3 m4 show ?thesis by auto
      next
        case (Inr accepted)
        have "(Inr (tunnelEntries (rtPortMap ops (mgRuntime m4)) accepted, True), m4) = (r, m1)"
          using assms False c l ok Inr by (auto simp: refreshRuntime_def Let_def m3_def merged_def)
        then have "m1 = m4" "r = Inr (tunnelEntries (rtPortMap ops (mgRuntime m4)) accepted, True)" by auto
        moreover have "set accepted \<subseteq> set tunnel"
          using Inr by (auto simp: acceptedNodesForCommit_def Let_def split: if_splits)
        ultimately show ?thesis using ok m3 m4 by auto
      qed
    qed
  qed
  then show "tables (mgDB m1) = tables (mgDB m)"
    "case r of Inl e \<Rightarrow> runtimeUndone ops env (mgRuntime m) (mgRuntime m1)
     | Inr (es, chg) \<Rightarrow> (if chg then \<exists>ns. rtReload ops (reLoad env) ns (mgRuntime m) = (None, mgRuntime m1)
                         else mgRuntime m1 = mgRuntime m) \<and>
         (\<exists>accepted. es = tunnelEntries (rtPortMap ops (mgRuntime m1)) accepted \<and> set accepted \<subseteq> set tunnel)" by blast+
qed

lemma atomic_replace: "atomicOp (replaceSubscriptionProxies subID es)"
  unfolding replaceSubscriptionProxies_def Let_def by (rule atomic_withTx)

lemma refreshCommit_step:
  fixes ops :: "('s, 'e, 'x) tunnelRuntime"
  assumes "refreshCommit ops env subID nodes m = (r, m1)" "db_inv (mgDB m)"
  shows "case r of
      Inl e \<Rightarrow> tables (mgDB m1) = tables (mgDB m) \<and> runtimeUndone ops env (mgRuntime m) (mgRuntime m1)
    | Inr ps \<Rightarrow> \<exists>accepted d. set accepted \<subseteq> set (filter (\<lambda>n. \<not> IsDirect n) nodes) \<and> tables d = tables (mgDB m) \<and>
        replaceSubscriptionProxies subID (tunnelEntries (rtPortMap ops (mgRuntime m1)) accepted @
          normalizeSubscriptionProxyEntries (map directEntry (filter IsDirect nodes))) d = (Inr ps, mgDB m1)"
proof -
  let ?direct = "normalizeSubscriptionProxyEntries (map directEntry (filter IsDirect nodes))"
  let ?tunnel = "filter (\<lambda>n. \<not> IsDirect n) nodes"
  obtain k :: "'x managerError + string list" and m2 where k: "store (subscriptionTunnelRuntimeKeys subID (rtNodes ops (mgRuntime m)) (rtPortMap ops (mgRuntime m))) m = (k, m2)"
    by fastforce
  have t2: "tables (mgDB m2) = tables (mgDB m)" by (rule store_readonly [OF readonly_runtimeKeys k])
  have s2: "mgRuntime m2 = mgRuntime m" using store_keep [OF k] by simp
  show ?thesis
  proof (cases k)
    case (Inl e)
    with assms k t2 s2 show ?thesis by (auto simp: refreshCommit_def Let_def)
  next
    case (Inr ks)
    obtain x m3 where x: "refreshRuntime ops env ?tunnel ks m2 = (x, m3)" by fastforce
    note step = refreshRuntime_step [OF x]
    show ?thesis
    proof (cases x)
      case (Inl e)
      with assms k \<open>k = Inr ks\<close> x step t2 s2 show ?thesis by (auto simp: refreshCommit_def Let_def)
    next
      case (Inr esc)
      obtain es chg where esc: "esc = (es, chg)" by fastforce
      from step(2) Inr esc obtain accepted where a: "es = tunnelEntries (rtPortMap ops (mgRuntime m3)) accepted"
        "set accepted \<subseteq> set ?tunnel" by auto
      have chg: "if chg then \<exists>ns. rtReload ops (reLoad env) ns (mgRuntime m2) = (None, mgRuntime m3) else mgRuntime m3 = mgRuntime m2"
        using step(2) Inr esc by (simp split: if_splits)
      obtain y :: "'x managerError + Proxy list" and m4 where y: "store (replaceSubscriptionProxies subID (es @ ?direct)) m3 = (y, m4)" by fastforce
      have t3: "tables (mgDB m3) = tables (mgDB m)" using step(1) t2 by simp
      have s4: "mgRuntime m4 = mgRuntime m3" using store_keep [OF y] by simp
      from y show ?thesis
      proof (cases rule: store_cases)
        case (ok ps)
        with assms k \<open>k = Inr ks\<close> x Inr esc y have "r = Inr ps" "m1 = m4" by (simp_all add: refreshCommit_def Let_def)
        with ok(2) a s4 t3 show ?thesis by auto
      next
        case (err e)
        have inv: "db_inv (mgDB m3)" using db_inv_tables [OF t3] assms(2) by simp
        have t4: "tables (mgDB m4) = tables (mgDB m)" using atomicD [OF atomic_replace inv err(2)] t3 by simp
        show ?thesis
        proof (cases chg)
          case False
          with assms k \<open>k = Inr ks\<close> x Inr esc y err have "r = Inl (MgrStore e)" "m1 = m4" by (simp_all add: refreshCommit_def Let_def)
          with False t4 s4 chg s2 show ?thesis by simp
        next
          case True
          with assms k \<open>k = Inr ks\<close> x Inr esc y err have
            rb: "rollback ops (reBack env) (rtNodes ops (mgRuntime m)) (MgrStore e) m4 = (r, m1)"
            by (simp add: refreshCommit_def Let_def)
          note rb1 = rollback_result [OF rb]
          have "runtimeUndone ops env (mgRuntime m) (mgRuntime m1)"
            using chg True s2 s4 undone_back rb1(2) by metis
          with rb1 t4 show ?thesis by auto
        qed
      qed
    qed
  qed
qed

lemma refreshNodes_step:
  fixes r :: "'x managerError + ParsedNode list"
  assumes "refreshNodes env subID m = (r, m1)" "\<And>d. tables (reMeanwhile env d) = tables d"
  shows "tables (mgDB m1) = tables (mgDB m)" "mgRuntime m1 = mgRuntime m"
proof -
  obtain k :: "'x managerError + Subscription" and m2 where k: "store (GetSubscription subID) m = (k, m2)" by fastforce
  have t2: "tables (mgDB m2) = tables (mgDB m)" by (rule store_readonly [OF readonly_GetSubscription k])
  have s2: "mgRuntime m2 = mgRuntime m" using store_keep [OF k] by simp
  have "m1 = m \<or> m1 = m2 \<or> m1 = m2\<lparr>mgDB := reMeanwhile env (mgDB m2)\<rparr>"
    using assms(1) k by (auto simp: refreshNodes_def Let_def split: if_splits sum.splits option.splits)
  with t2 s2 assms(2) show "tables (mgDB m1) = tables (mgDB m)" "mgRuntime m1 = mgRuntime m" by auto
qed

lemma validate_runtime: "mgRuntime (snd (validateCustomProxies stream ps i m)) = mgRuntime m"
  by (simp add: validateCustomProxies_def case_prod_beta)

text \<open>A failed refresh fails before anything is validated.\<close>

lemma refresh_error:
  fixes ops :: "('s, 'e, 'x) tunnelRuntime"
  assumes "RefreshSubscription ops env i m = (Inl e, m')" "db_inv (mgDB m)" "\<And>d. tables (reMeanwhile env d) = tables d"
  shows "tables (mgDB m') = tables (mgDB m) \<and> runtimeUndone ops env (mgRuntime m) (mgRuntime m')"
proof -
  obtain x :: "'x managerError + ParsedNode list" and m1 where x: "refreshNodes env i m = (x, m1)" by fastforce
  note s1 = refreshNodes_step [OF x assms(3)]
  show ?thesis
  proof (cases x)
    case (Inl err)
    with assms(1) x s1 show ?thesis by (simp add: RefreshSubscription_def)
  next
    case (Inr nodes)
    obtain y m2 where y: "refreshCommit ops env i nodes m1 = (y, m2)" by fastforce
    have inv: "db_inv (mgDB m1)" using db_inv_tables [OF s1(1)] assms(2) by simp
    from assms(1) x y Inr obtain err where "y = Inl err" "m2 = m'"
      by (cases y) (simp_all add: RefreshSubscription_def)
    with refreshCommit_step [OF y inv] s1 show ?thesis by simp
  qed
qed

section \<open>Deleting\<close>

text \<open>Whether a row outside the subscription owns the key, or the address when it has no key.\<close>

definition ownedElsewhere :: "ProxyRow list \<Rightarrow> int \<Rightarrow> string \<Rightarrow> string \<Rightarrow> bool" where
  "ownedElsewhere rs subID k a \<longleftrightarrow> \<not> (TrimSpace k = [] \<and> TrimSpace a = []) \<and>
     (\<exists>r\<in>set rs. \<not> ofSub subID r \<and> ownsRuntime (TrimSpace k) (TrimSpace a) r)"

lemma hasOther_spec:
  assumes "HasOtherSubscriptionProxyOwner k a subID d = (Inr b, d1)"
  shows "b = ownedElsewhere (proxies d) subID k a" "proxies d1 = proxies d"
proof -
  have "countRows P rs > 0 \<longleftrightarrow> (\<exists>r\<in>set rs. P r)" for P and rs :: "ProxyRow list"
    by (induction rs) (auto simp: countRows_def)
  then show "b = ownedElsewhere (proxies d) subID k a" "proxies d1 = proxies d"
    using assms by (auto simp: HasOtherSubscriptionProxyOwner_def ownedElsewhere_def ofSub_def Let_def bindOp_def querySQL_unfold
        returnOp_def split: if_splits)
qed

lemma unsharedKeys_spec:
  "unsharedKeys subID kas d = (Inr ks, d') \<Longrightarrow> set ks = {k. \<exists>a. (k, a) \<in> set kas \<and> \<not> ownedElsewhere (proxies d) subID k a}"
proof (induction kas arbitrary: d ks d')
  case Nil
  then show ?case by (simp add: returnOp_def)
next
  case (Cons ka kas)
  obtain k a where ka: "ka = (k, a)" by fastforce
  from Cons.prems [unfolded ka unsharedKeys.simps] obtain other d1 where
    o: "HasOtherSubscriptionProxyOwner k a subID d = (Inr other, d1)"
    and t: "bindOp (unsharedKeys subID kas) (\<lambda>ks. returnOp (if other then ks else k # ks)) d1 = (Inr ks, d')" by (rule bindOp_InrD)
  from t obtain ks' d2 where r: "unsharedKeys subID kas d1 = (Inr ks', d2)" and k: "ks = (if other then ks' else k # ks')"
    by (auto simp: returnOp_def elim!: bindOp_InrD)
  then show ?case using Cons.IH [OF r] hasOther_spec [OF o] by (auto simp: ka)
qed

lemma runtimeKeys_unshared:
  assumes "subscriptionTunnelRuntimeKeys subID ns pm d = (Inr ks, d')" "k \<in> set ks"
  shows "\<exists>a. \<not> ownedElsewhere (proxies d) subID k a"
proof -
  from assms(1) [unfolded subscriptionTunnelRuntimeKeys_def] obtain rows d1 where
    q: "querySQL (\<lambda>d. filter (ofSub subID) (proxies d)) d = (Inr rows, d1)"
    and u: "unsharedKeys subID (ownKeys ns pm rows) d1 = (Inr ks, d')" by (rule bindOp_InrD)
  have "proxies d1 = proxies d" using querySQL_InrD(2) [OF q] by simp
  with unsharedKeys_spec [OF u] assms(2) show ?thesis by auto
qed

lemma DeleteSubscription_result:
  assumes "DeleteSubscription i d = (Inr u, d1)"
  shows "proxies d1 = filter (\<lambda>r. \<not> ofSub i r) (proxies d)" "subscriptions d1 = filter (\<lambda>s. sID s \<noteq> i) (subscriptions d)"
proof -
  from withTx_InrE [OF assms [unfolded StorageSubs.DeleteSubscription_def]] obtain d2 where
    b: "bindOp (deleteProxies (\<lambda>d r. cSubscriptionID r = i \<and> cSource r = SourceSubscription))
       (\<lambda>n. bindOp (deleteSubscriptions (\<lambda>s. sID s = i)) requireRowsAffected) (dropFault d) = (Inr u, d2)" and d1: "d1 = dropFault d2" .
  then have "proxies d2 = filter (\<lambda>r. \<not> ofSub i r) (proxies d) \<and> subscriptions d2 = filter (\<lambda>s. sID s \<noteq> i) (subscriptions d)"
    by (auto simp: bindOp_def deleteProxies_def deleteSubscriptions_def execSQL_unfold requireRowsAffected_def returnOp_def failOp_def
        ofSub_def split: if_splits)
  with d1 show "proxies d1 = filter (\<lambda>r. \<not> ofSub i r) (proxies d)" "subscriptions d1 = filter (\<lambda>s. sID s \<noteq> i) (subscriptions d)"
    by simp_all
qed

lemma atomic_deleteSub: "atomicOp (DeleteSubscription i)"
  unfolding StorageSubs.DeleteSubscription_def by (rule atomic_withTx)

lemma deleteSub_step:
  fixes ops :: "('s, 'e, 'x) tunnelRuntime"
  assumes "DeleteSubscription_mgr ops env i m = (r, m')" "db_inv (mgDB m)"
  shows "case r of
      Inl e \<Rightarrow> tables (mgDB m') = tables (mgDB m) \<and> runtimeUndone ops env (mgRuntime m) (mgRuntime m')
    | Inr u \<Rightarrow> proxies (mgDB m') = filter (\<lambda>r. \<not> ofSub i r) (proxies (mgDB m)) \<and>
        (mgRuntime m' = mgRuntime m \<or> (\<exists>ks. rtReload ops (reLoad env) (nodesExcludingKeys (rtNodes ops (mgRuntime m)) ks) (mgRuntime m) =
            (None, mgRuntime m') \<and> (\<forall>k\<in>set ks. \<exists>a. \<not> ownedElsewhere (proxies (mgDB m)) i k a)))"
proof -
  let ?ns = "rtNodes ops (mgRuntime m)"
  obtain k :: "'x managerError + string list" and m2 where
    k: "store (subscriptionTunnelRuntimeKeys i ?ns (rtPortMap ops (mgRuntime m))) m = (k, m2)" by fastforce
  have t2: "tables (mgDB m2) = tables (mgDB m)" by (rule store_readonly [OF readonly_runtimeKeys k])
  have s2: "mgRuntime m2 = mgRuntime m" using store_keep [OF k] by simp
  show ?thesis
  proof (cases k)
    case (Inl e)
    with assms k t2 s2 show ?thesis by (auto simp: DeleteSubscription_mgr_def Let_def)
  next
    case (Inr ks)
    have un: "\<exists>a. \<not> ownedElsewhere (proxies (mgDB m)) i q a" if "q \<in> set ks" for q
      using k that runtimeKeys_unshared by (cases rule: store_cases) (auto simp: Inr)
    obtain x :: "'x managerError + unit" and m3 where
      x: "(if ks \<noteq> [] then reload ops (reLoad env) (nodesExcludingKeys ?ns ks) m2 else (Inr (), m2)) = (x, m3)" by fastforce
    have d3: "mgDB m3 = mgDB m2" using x by (auto simp: reload_keep split: if_splits)
    show ?thesis
    proof (cases x)
      case (Inl e)
      with x have rl: "reload ops (reLoad env) (nodesExcludingKeys ?ns ks) m2 = (x, m3)" by (auto split: if_splits)
      have "runtimeUndone ops env (mgRuntime m) (mgRuntime m3)"
        using rl by (cases rule: reload_cases) (use Inl s2 undone_failed in auto)
      moreover have "r = Inl e" "m' = m3" using assms(1) k Inr x Inl by (simp_all add: DeleteSubscription_mgr_def Let_def)
      ultimately show ?thesis using d3 t2 by simp
    next
      case (Inr w)
      have chg: "if ks \<noteq> [] then rtReload ops (reLoad env) (nodesExcludingKeys ?ns ks) (mgRuntime m) = (None, mgRuntime m3) else m3 = m2"
        using x Inr s2 by (auto elim: reload_cases split: if_splits)
      obtain y :: "'x managerError + unit" and m4 where y: "store (DeleteSubscription i) m3 = (y, m4)" by fastforce
      have s4: "mgRuntime m4 = mgRuntime m3" using store_keep [OF y] by simp
      from y show ?thesis
      proof (cases rule: store_cases)
        case (ok u)
        with assms(1) k \<open>k = Inr ks\<close> x Inr y have "r = Inr u" "m' = m4" by (simp_all add: DeleteSubscription_mgr_def Let_def)
        moreover have "proxies (mgDB m4) = filter (\<lambda>r. \<not> ofSub i r) (proxies (mgDB m))"
          using DeleteSubscription_result(1) [OF ok(2)] d3 t2 by (simp add: tables_def)
        ultimately show ?thesis using chg s4 s2 un by (auto split: if_splits)
      next
        case (err e)
        have t3: "tables (mgDB m3) = tables (mgDB m)" using d3 t2 by simp
        have inv: "db_inv (mgDB m3)" using db_inv_tables [OF t3] assms(2) by simp
        have t4: "tables (mgDB m4) = tables (mgDB m)" using atomicD [OF atomic_deleteSub inv err(2)] t3 by simp
        show ?thesis
        proof (cases "ks = []")
          case True
          with assms(1) k \<open>k = Inr ks\<close> x Inr y err have "r = Inl (MgrStore e)" "m' = m4"
            by (simp_all add: DeleteSubscription_mgr_def Let_def)
          with True t4 s4 chg s2 show ?thesis by simp
        next
          case False
          with assms(1) k \<open>k = Inr ks\<close> x Inr y err have rb: "rollback ops (reBack env) ?ns (MgrStore e) m4 = (r, m')"
            by (simp add: DeleteSubscription_mgr_def Let_def)
          note rb1 = rollback_result [OF rb]
          have "runtimeUndone ops env (mgRuntime m) (mgRuntime m')" using chg False s4 undone_back rb1(2) by metis
          with rb1 t4 show ?thesis by auto
        qed
      qed
    qed
  qed
qed

lemma atomic_DeleteProxyByID: "atomicOp (DeleteProxyByID i)"
  by (simp add: DeleteProxyByID_def atomic_steps)

lemma deleteProxy_error:
  fixes ops :: "('s, 'e, 'x) tunnelRuntime"
  assumes "deleteProxyWithRuntime ops env p m = (Inl e, m')" "db_inv (mgDB m)"
  shows "tables (mgDB m') = tables (mgDB m) \<and> runtimeUndone ops env (mgRuntime m) (mgRuntime m')"
proof (cases "isLocalTunnelAddress (pAddress p)")
  case False
  then have "store (DeleteProxyByID (pID p)) m = (Inl e, m')" using assms(1) by (simp add: deleteProxyWithRuntime_def)
  from store_atomic [OF atomic_DeleteProxyByID this assms(2)] store_keep [OF this] show ?thesis by simp
next
  case True
  let ?ns = "rtNodes ops (mgRuntime m)" and ?pm = "rtPortMap ops (mgRuntime m)"
  define key where "key = (if nodeKeyForLocalAddress ?ns ?pm (pAddress p) = [] then TrimSpace (pNodeKey p)
    else nodeKeyForLocalAddress ?ns ?pm (pAddress p))"
  obtain k :: "'x managerError + bool" and m2 where k: "store (HasOtherProxyOwner key (pAddress p) (pID p)) m = (k, m2)" by fastforce
  have t2: "tables (mgDB m2) = tables (mgDB m)" by (rule store_readonly [OF readonly_hasOther(2) k])
  have s2: "mgRuntime m2 = mgRuntime m" using store_keep [OF k] by simp
  show ?thesis
  proof (cases k)
    case (Inl e)
    with assms k t2 s2 True show ?thesis by (auto simp: deleteProxyWithRuntime_def Let_def key_def)
  next
    case (Inr other)
    define new where "new = (if other then ?ns else filter (\<lambda>n. \<not> (key \<noteq> [] \<and> NodeKey n = key) \<and>
      \<not> (key = [] \<and> localAddrMatches ?pm (NodeKey n) (pAddress p))) ?ns)"
    define chg where "chg = (length new \<noteq> length ?ns)"
    obtain x :: "'x managerError + unit" and m3 where
      x: "(if chg then reload ops (reLoad env) new m2 else (Inr (), m2)) = (x, m3)" by fastforce
    have rest: "(case x of Inl e \<Rightarrow> (Inl e, m3) | Inr u \<Rightarrow> (case store (DeleteProxyByID (pID p)) m3 of
        (Inr u, m3) \<Rightarrow> (Inr u, m3)
      | (Inl e, m3) \<Rightarrow> if chg then rollback ops (reBack env) ?ns e m3 else (Inl e, m3))) = (Inl e, m')"
      using assms(1)
      by (simp only: deleteProxyWithRuntime_def Let_def True simp_thms if_False key_def [symmetric] k Inr prod.case sum.case
          new_def [symmetric] chg_def [symmetric] x)
    have d3: "mgDB m3 = mgDB m2" using x by (auto simp: reload_keep split: if_splits)
    show ?thesis
    proof (cases x)
      case (Inl err)
      with x have "reload ops (reLoad env) new m2 = (x, m3)" by (auto split: if_splits)
      then have "runtimeUndone ops env (mgRuntime m) (mgRuntime m3)"
        by (cases rule: reload_cases) (use Inl s2 undone_failed in auto)
      with rest Inl d3 t2 show ?thesis by simp
    next
      case (Inr w)
      have c: "if chg then rtReload ops (reLoad env) new (mgRuntime m) = (None, mgRuntime m3) else m3 = m2"
        using x Inr s2 by (auto elim: reload_cases split: if_splits)
      obtain y :: "'x managerError + unit" and m4 where y: "store (DeleteProxyByID (pID p)) m3 = (y, m4)" by fastforce
      have s4: "mgRuntime m4 = mgRuntime m3" using store_keep [OF y] by simp
      have t3: "tables (mgDB m3) = tables (mgDB m)" using d3 t2 by simp
      have inv: "db_inv (mgDB m3)" using db_inv_tables [OF t3] assms(2) by simp
      from rest Inr y obtain err where err: "y = Inl err" by (cases y) auto
      have t4: "tables (mgDB m4) = tables (mgDB m)" using store_atomic [OF atomic_DeleteProxyByID y [unfolded err] inv] t3 by simp
      show ?thesis
      proof (cases chg)
        case True
        with rest Inr y err have rb: "rollback ops (reBack env) ?ns err m4 = (Inl e :: 'x managerError + unit, m')" by simp
        note rb1 = rollback_result [OF rb]
        have "runtimeUndone ops env (mgRuntime m) (mgRuntime m')" using c True s4 undone_back rb1(2) by metis
        with rb1 t4 show ?thesis by simp
      next
        case False
        with rest Inr y err t4 s4 c s2 show ?thesis by simp
      qed
    qed
  qed
qed

lemma deleteManaged_error:
  fixes ops :: "('s, 'e, 'x) tunnelRuntime"
  assumes "DeleteManagedProxy ops env i m = (Inl e, m')" "db_inv (mgDB m)"
  shows "tables (mgDB m') = tables (mgDB m) \<and> runtimeUndone ops env (mgRuntime m) (mgRuntime m')"
proof -
  obtain k :: "'x managerError + Proxy" and m2 where k: "store (GetProxyByID i) m = (k, m2)" by fastforce
  have t2: "tables (mgDB m2) = tables (mgDB m)" by (rule store_readonly [OF readonly_lookups(3) k])
  have s2: "mgRuntime m2 = mgRuntime m" using store_keep [OF k] by simp
  have inv: "db_inv (mgDB m2)" using db_inv_tables [OF t2] assms(2) by simp
  show ?thesis
  proof (cases k)
    case (Inl err)
    with assms(1) k t2 s2 show ?thesis by (simp add: DeleteManagedProxy_def)
  next
    case (Inr p)
    with assms(1) k have "deleteProxyWithRuntime ops env p m2 = (Inl e, m')" by (simp add: DeleteManagedProxy_def)
    from deleteProxy_error [OF this inv] t2 s2 show ?thesis by simp
  qed
qed

section \<open>A small runtime\<close>

text \<open>A runtime that takes every list of nodes and numbers their ports from 20001, for the sample runs.\<close>

definition sampleRuntime :: "(ParsedNode list, unit, string) tunnelRuntime" where
  "sampleRuntime = \<lparr>rtReload = (\<lambda>e ns s. (None, ns)), rtStop = (\<lambda>s. []),
     rtPortMap = (\<lambda>s. zip (map NodeKey s) [20001..20000 + int (length s)]), rtNodes = (\<lambda>s. s), rtDiagnostics = None,
     rtStatus = (\<lambda>s. \<lparr>rsRunning = True, rsStatus = SingBoxStatusRunning, rsReason = [], rsNodes = int (length s),
       rsReadyPorts = int (length s), rsTotalPorts = int (length s)\<rparr>)\<rparr>"

definition quietNet :: fetchEnv where
  "quietNet = \<lparr>feParse = (\<lambda>s. None), feResolve = (\<lambda>u s. None), feASCII = (\<lambda>h. h), feLookup = (\<lambda>n h. Inl ''offline''),
     feConnect = (\<lambda>n. Some ''offline''), feReuse = (\<lambda>n. False), feAnswer = (\<lambda>n. Inl ''offline''), feRange = (\<lambda>h. h)\<rparr>"

definition sampleRefresh :: "ParsedNode list \<Rightarrow> unit refreshEnv" where
  "sampleRefresh ns = \<lparr>reFetch = quietNet, reReadFile = (\<lambda>f. Some ''data''), reLookups = 0, reParse = (\<lambda>data fmt. Some ns),
     reOrder = (\<lambda>ns. ns), reTime = 0, reMeanwhile = (\<lambda>d. d), reLoad = (), reBack = (), reStream = (\<lambda>ps. [])\<rparr>"

text \<open>A subscription read from a file, paused or active, and a manager with its tables.\<close>

definition fileDB :: "string \<Rightarrow> DB" where
  "fileDB status = (emptyDB 0 [])\<lparr>subscriptions := [defaultSubscription\<lparr>sID := 1, sFilePath := ''f'', sStatus := status\<rparr>], nextSubID := 2\<rparr>"

definition fileManager :: "string \<Rightarrow> ParsedNode list Manager" where
  "fileManager status = \<lparr>mgDB = fileDB status, mgRuntime = [], mgStopped = False, mgEvicted = []\<rparr>"

section \<open>Properties\<close>

text \<open>
  A subscription that is not active, or that does not exist, is never refreshed, and neither is any after the
  manager was stopped: the refresh fails with the same error whatever the network, the files and the parser would have
  answered, it reads nothing else, and the tables and the tunnel runtime stay exactly as they are.
\<close>

theorem inactive_subscription_untouched:
  fixes ops :: "('s, 'e, 'x) tunnelRuntime" and m :: "'s Manager"
  assumes "mgStopped m \<or> (\<forall>s\<in>set (subscriptions (mgDB m)). sID s = i \<longrightarrow> sStatus s \<noteq> ''active'')"
  shows "\<exists>e m'. (\<forall>env. RefreshSubscription ops env i m = (Inl e, m')) \<and> tables (mgDB m') = tables (mgDB m) \<and>
    mgRuntime m' = mgRuntime m"
proof (cases "mgStopped m")
  case True
  then have "\<forall>env. RefreshSubscription ops env i m = (Inl MgrStopped, m)"
    by (simp add: RefreshSubscription_def refreshNodes_def)
  then show ?thesis by blast
next
  case False
  obtain k :: "'x managerError + Subscription" and m2 where k: "store (GetSubscription i) m = (k, m2)" by fastforce
  have t2: "tables (mgDB m2) = tables (mgDB m)" by (rule store_readonly [OF readonly_GetSubscription k])
  have s2: "mgRuntime m2 = mgRuntime m" using store_keep [OF k] by simp
  have "\<exists>e. (\<forall>env. RefreshSubscription ops env i m = (Inl e, m2))"
    using k
  proof (cases rule: store_cases)
    case (err e)
    have "\<forall>env. RefreshSubscription ops env i m = (Inl (MgrStore e), m2)"
      by (simp add: RefreshSubscription_def refreshNodes_def False k [unfolded err(1)])
    then show ?thesis by blast
  next
    case (ok s)
    then have "s \<in> set (subscriptions (mgDB m))" "sID s = i"
      by (auto simp: GetSubscription_def bindOp_def querySQL_unfold returnOp_def failOp_def find_Some_iff
          split: if_splits option.splits)
    with assms False have "sStatus s \<noteq> ''active''" by blast
    then have "\<forall>env. RefreshSubscription ops env i m = (Inl (MgrNotActive (sStatus s)), m2)"
      by (simp add: RefreshSubscription_def refreshNodes_def False k [unfolded ok(1)])
    then show ?thesis by blast
  qed
  with t2 s2 show ?thesis by blast
qed

theorem inactive_subscription_untouched_witness:
  "\<exists>e m'. RefreshSubscription sampleRuntime (sampleRefresh []) 1 (fileManager ''paused'') = (Inl e, m') \<and> mgRuntime m' = []"
proof -
  have "\<forall>s\<in>set (subscriptions (mgDB (fileManager ''paused''))). sID s = 1 \<longrightarrow> sStatus s \<noteq> ''active''"
    by (simp add: fileManager_def fileDB_def emptyDB_def)
  from inactive_subscription_untouched [OF disjI2 [OF this], of sampleRuntime]
  show ?thesis by (auto simp: fileManager_def)
qed

text \<open>
  C15: An operation of the manager that fails is undone: after a failed refresh, deletion of a subscription or deletion
  of a node both tables are what they were, and the tunnel runtime was not touched, or its reload itself had failed, or
  it was given its old nodes back.
\<close>

theorem failed_operations_undone:
  fixes ops :: "('s, 'e, 'x) tunnelRuntime" and m :: "'s Manager"
  assumes "db_inv (mgDB m)" "\<forall>d. tables (reMeanwhile env d) = tables d"
    "run = RefreshSubscription ops env i \<or> run = DeleteSubscription_mgr ops env i \<or> run = DeleteManagedProxy ops env i"
    "run m = (Inl e, m')"
  shows "tables (mgDB m') = tables (mgDB m) \<and> runtimeUndone ops env (mgRuntime m) (mgRuntime m')"
  using assms(3)
proof (elim disjE)
  assume "run = RefreshSubscription ops env i"
  with refresh_error [of ops env i m e m'] assms show ?thesis by simp
next
  assume "run = DeleteSubscription_mgr ops env i"
  with deleteSub_step [of ops env i m "Inl e" m'] assms show ?thesis by simp
next
  assume "run = DeleteManagedProxy ops env i"
  with deleteManaged_error [of ops env i m e m'] assms show ?thesis by simp
qed

theorem failed_operations_undone_witness:
  "\<exists>e m'. RefreshSubscription sampleRuntime (sampleRefresh []) 1 (fileManager ''active'') = (Inl e, m') \<and>
    tables (mgDB m') = tables (fileDB ''active'')"
proof -
  have inv: "db_inv (mgDB (fileManager ''active''))" by code_simp
  have "\<forall>d. tables (reMeanwhile (sampleRefresh []) d) = tables d" by (simp add: sampleRefresh_def)
  moreover obtain m' where run: "RefreshSubscription sampleRuntime (sampleRefresh []) 1 (fileManager ''active'') = (Inl MgrNoNodes, m')"
    by (simp add: RefreshSubscription_def refreshNodes_def fileManager_def store_def GetSubscription_def bindOp_def querySQL_unfold
        fileDB_def emptyDB_def faulty_def dropFault_def returnOp_def fetchSubscriptionData_def sampleRefresh_def)
  ultimately have "tables (mgDB m') = tables (mgDB (fileManager ''active''))"
    using failed_operations_undone [OF inv _ disjI1 [OF refl] run] by blast
  with run show ?thesis by (auto simp: fileManager_def)
qed

end
