(* ===== verification/ManagerNodes.thy ===== *)
theory ManagerNodes
  imports ManagerSpec
begin

text \<open>
  Nodes and rows: the addresses a refresh stores are the ports the runtime answers on, deleting a subscription keeps the
  nodes other rows own, and a node of a subscription cannot be added by hand.
\<close>

section \<open>Rows of a refresh\<close>

lemma normalizeEntries_subset: "set (normalizeEntries acc es) \<subseteq> set acc \<union> set es"
proof (induction es arbitrary: acc)
  case (Cons e es)
  then show ?case using Cons.IH [of acc] Cons.IH [of "acc @ [e]"] by auto
qed simp

lemma normalize_subset: "set (normalizeSubscriptionProxyEntries es) \<subseteq> set es"
  unfolding normalizeSubscriptionProxyEntries_def using normalizeEntries_subset [of "[]"] by simp

lemma tunnelEntries_mem:
  assumes "e \<in> set (tunnelEntries portMap nodes)"
  obtains n port where "n \<in> set nodes" "map_of portMap (NodeKey n) = Some port" "eNodeKey e = NodeKey n"
    "eAddr e = JoinHostPort ''127.0.0.1'' (fmtInt port)"
  using assms by (auto simp: tunnelEntries_def split: option.splits intro: that [OF _ sym])

lemma refresh_rows:
  assumes "replaceSubscriptionProxies subID es d = (Inr ps, d')" "db_inv d" "keysDistinct subID (proxies d)"
  shows "rowEntry ` set (filter (ofSub subID) (proxies d')) = set (normalizeSubscriptionProxyEntries es)"
proof -
  note ids = conjunct1 [OF conjunct2 [OF assms(2) [unfolded db_inv_def]]]
  obtain status where t: "proxies d' = replacedTable subID (normalizeSubscriptionProxyEntries es) status d"
    using replace_table [OF assms] .
  show ?thesis unfolding t by (rule replacedTable_entries [OF ids assms(3) normalize_OK])
qed

text \<open>What the row of a node says: the node itself, or the port of the runtime that stands for it.\<close>

definition rowServes :: "port_map \<Rightarrow> ParsedNode \<Rightarrow> ProxyRow \<Rightarrow> bool" where
  "rowServes portMap n r \<longleftrightarrow> cNodeKey r = NodeKey n \<and>
     (if IsDirect n then cAddress r = DirectAddress n \<and> cProtocol r = DirectProtocol n \<and>
        (cProxyUsername r, cProxyPassword r) = DirectCredentials n
      else \<exists>port. map_of portMap (NodeKey n) = Some port \<and> cAddress r = JoinHostPort ''127.0.0.1'' (fmtInt port))"

lemma rowEntry_serves:
  assumes "rowEntry r \<in> set (tunnelEntries portMap accepted @ normalizeSubscriptionProxyEntries (map directEntry (filter IsDirect nodes)))"
    "set accepted \<subseteq> set (filter (\<lambda>n. \<not> IsDirect n) nodes)"
  shows "\<exists>n\<in>set nodes. rowServes portMap n r"
proof (cases "rowEntry r \<in> set (tunnelEntries portMap accepted)")
  case True
  then obtain n port where "n \<in> set accepted" "map_of portMap (NodeKey n) = Some port" "eNodeKey (rowEntry r) = NodeKey n"
    "eAddr (rowEntry r) = JoinHostPort ''127.0.0.1'' (fmtInt port)" by (rule tunnelEntries_mem)
  with assms(2) show ?thesis by (intro bexI [of _ n]) (auto simp: rowServes_def rowEntry_def)
next
  case False
  with assms(1) normalize_subset have "rowEntry r \<in> directEntry ` set (filter IsDirect nodes)" by fastforce
  then obtain n where "n \<in> set nodes" "IsDirect n" "rowEntry r = directEntry n" by auto
  then show ?thesis by (intro bexI [of _ n]) (simp_all add: rowServes_def rowEntry_def directEntry_def)
qed

text \<open>
  C16: Every row of a subscription after its nodes were committed stands for one of the fetched nodes under that node's
  key: it holds the address, protocol and credentials of a node that needs no tunnel, and for any other the local
  address of the port the running tunnels listen on for exactly that node.
\<close>

theorem committed_rows_reach_nodes:
  fixes ops :: "('s, 'e, 'x) tunnelRuntime"
  assumes "refreshCommit ops env subID nodes m = (Inr ps, m')" "db_inv (mgDB m)" "keysDistinct subID (proxies (mgDB m))"
    "r \<in> set (proxies (mgDB m'))" "ofSub subID r"
  shows "\<exists>n\<in>set nodes. rowServes (rtPortMap ops (mgRuntime m')) n r"
proof -
  from refreshCommit_step [OF assms(1,2)] obtain accepted d where
    a: "set accepted \<subseteq> set (filter (\<lambda>n. \<not> IsDirect n) nodes)" and t: "tables d = tables (mgDB m)"
    and run: "replaceSubscriptionProxies subID (tunnelEntries (rtPortMap ops (mgRuntime m')) accepted @
      normalizeSubscriptionProxyEntries (map directEntry (filter IsDirect nodes))) d = (Inr ps, mgDB m')"
    by auto
  let ?es = "tunnelEntries (rtPortMap ops (mgRuntime m')) accepted @
      normalizeSubscriptionProxyEntries (map directEntry (filter IsDirect nodes))"
  have inv: "db_inv d" using db_inv_tables [OF t] assms(2) by simp
  have p: "proxies d = proxies (mgDB m)" using t by (simp add: tables_def)
  have "rowEntry r \<in> rowEntry ` set (filter (ofSub subID) (proxies (mgDB m')))" using assms(4,5) by simp
  then have "rowEntry r \<in> set ?es" using refresh_rows [OF run inv] assms(3) p normalize_subset [of ?es] by auto
  then show ?thesis using rowEntry_serves a by blast
qed

text \<open>One tunnel node in a fetched list, and the run that commits it.\<close>

definition tunnelEntry :: "string \<Rightarrow> subscriptionProxyEntry" where
  "tunnelEntry k = \<lparr>eAddr = JoinHostPort ''127.0.0.1'' (fmtInt 20001), eProto = ''socks5'', eDual = True, eUsername = [],
     ePassword = [], eNodeKey = k\<rparr>"

lemma replace_tunnel:
  obtains ps d' where "replaceSubscriptionProxies 1 [tunnelEntry k] (fileDB ''active'') = (Inr ps, d')"
proof -
  let ?e = "tunnelEntry k" and ?d = "fileDB ''active''"
  have e: "normalizeSubscriptionProxyEntries [?e] = [?e]" by (simp add: normalizeSubscriptionProxyEntries_def)
  have d: "proxies ?d = []" "faults ?d = []" "nextProxyID ?d = 1" "map_option sStatus (find (\<lambda>s. sID s = 1) (subscriptions ?d)) = Some ''active''"
    "length (filter (\<lambda>s. sID s = 1) (subscriptions ?d)) = 1"
    by (simp_all add: fileDB_def emptyDB_def)
  have k: "keyedUpdates st [?e] [] [] = []" "pendingInserts [?e] [] [] = [\<lparr>piIndex = 0, piEntry = ?e, piUserPaused = 0\<rparr>]" for st
    by (simp_all add: keyedUpdates_def pendingInserts_def keyToOld_def pausedBefore_def intOfBool_def)
  have i: "insertEntry 1 \<lparr>piIndex = 0, piEntry = ?e, piUserPaused = 0\<rparr> d1 =
      (Inr (0, entryProxy 1 (nextProxyID d1) ''disabled'' 0 ?e), d1\<lparr>proxies := [(insertedRow 1 \<lparr>piIndex = 0, piEntry = ?e, piUserPaused = 0\<rparr>)
        \<lparr>cID := nextProxyID d1, cCreatedAt := now d1\<rparr>], nextProxyID := nextProxyID d1 + 1\<rparr>)" if "proxies d1 = []" "faults d1 = []" for d1
    using that by (simp add: insertEntry_def upsertProxy_def bindOp_def querySQL_unfold execSQL_unfold faulty_def dropFault_def
        returnOp_def rowIdentity_def insertedRow_def Let_def)
  have u: "\<exists>d2. updateSubscriptions (\<lambda>s. sID s = 1) (\<lambda>d s. s\<lparr>sLastFetch := Some (now d), sProxyCount := n\<rparr>) d1 = (Inr 1, d2) \<and> faults d2 = []"
    if "faults d1 = []" "subscriptions d1 = subscriptions ?d" for d1 n
    using that by (simp add: updateSubscriptions_def execSQL_unfold faulty_def dropFault_def updateRows_def subscriptionsUnique_def
        countRows_def fileDB_def emptyDB_def)
  define d1 where "d1 = ?d\<lparr>proxies := [(insertedRow 1 \<lparr>piIndex = 0, piEntry = ?e, piUserPaused = 0\<rparr>)
        \<lparr>cID := nextProxyID ?d, cCreatedAt := now ?d\<rparr>], nextProxyID := nextProxyID ?d + 1\<rparr>"
  have d1: "faults d1 = []" "subscriptions d1 = subscriptions ?d" by (simp_all add: d1_def d)
  obtain d2 where d2: "updateSubscriptions (\<lambda>s. sID s = 1) (\<lambda>d s. s\<lparr>sLastFetch := Some (now d), sProxyCount := 1\<rparr>) d1 = (Inr 1, d2)"
    "faults d2 = []" using u [OF d1] by blast
  have f: "dropFault d' = d'" "\<not> faulty d'" if "faults d' = []" for d' using that by (simp_all add: dropFault_def faulty_def)
  have i0: "insertEntry 1 \<lparr>piIndex = 0, piEntry = ?e, piUserPaused = 0\<rparr> ?d = (Inr (0, entryProxy 1 1 ''disabled'' 0 ?e), d1)"
    using i [OF d(1,2)] by (simp add: d1_def d)
  have r: "replaceRows 1 [?e] st [] [] ?d = (Inr (byIndex 1 [(0, entryProxy 1 1 ''disabled'' 0 ?e)]), d2)" for st
    by (simp add: replaceRows_def k bindOp_def returnOp_def i0 d2 keyedProxies_def)
  show thesis
    by (rule that) (simp add: replaceSubscriptionProxies_def e withTx_unfold bindOp_def querySQL_unfold d f d2 r returnOp_def)
qed

theorem committed_rows_reach_nodes_witness:
  "\<exists>ps m' r. refreshCommit sampleRuntime (sampleRefresh []) 1 [sampleTunnel ''trojan''] (fileManager ''active'') = (Inr ps, m') \<and>
    r \<in> set (proxies (mgDB m')) \<and> ofSub 1 r \<and> (\<exists>n\<in>set [sampleTunnel ''trojan'']. rowServes (rtPortMap sampleRuntime (mgRuntime m')) n r)"
proof -
  let ?n = "sampleTunnel ''trojan''" and ?m = "fileManager ''active''"
  have n: "\<not> IsDirect ?n" by (simp add: sampleTunnel_def IsDirect_def)
  have d: "proxies (fileDB ''active'') = []" "faults (fileDB ''active'') = []" by (simp_all add: fileDB_def emptyDB_def)
  have f: "dropFault d' = d'" "\<not> faulty d'" if "faults d' = []" for d' using that by (simp_all add: dropFault_def faulty_def)
  have k: "store (subscriptionTunnelRuntimeKeys 1 [] []) ?m = (Inr [] :: string managerError + string list, ?m)"
    by (simp add: store_def subscriptionTunnelRuntimeKeys_def bindOp_def querySQL_unfold fileManager_def d f ownKeys_def returnOp_def)
  have l: "longTermDisabledRuntimeKeys sampleRuntime 0 ?m = ([], ?m)"
    by (simp add: longTermDisabledRuntimeKeys_def GetDisabledCustomProxies_def GetAllForAdmin_def queryRows_def bindOp_def
        querySQL_unfold fileManager_def d f returnOp_def longTermKeys_def markLongTermEvictedKeys_def Let_def)
  obtain ps d' where run: "replaceSubscriptionProxies 1 [tunnelEntry (NodeKey ?n)] (fileDB ''active'') = (Inr ps, d')"
    by (rule replace_tunnel)
  have pm: "rtPortMap sampleRuntime [?n] = [(NodeKey ?n, 20001)]" by (simp add: sampleRuntime_def upto.simps)
  have env: "reOrder (sampleRefresh []) = (\<lambda>ns. ns)" "reTime (sampleRefresh []) = 0" "reLoad (sampleRefresh []) = ()" "reBack (sampleRefresh []) = ()"
    by (simp_all add: sampleRefresh_def)
  have ev: "clearLongTermEvictedKey q ?m = ?m" for q by (simp add: clearLongTermEvictedKey_def fileManager_def)
  have s: "rtNodes sampleRuntime s = s" "rtPortMap sampleRuntime [] = []" "rtReload sampleRuntime e ns s = (None, ns)"
    "runtimeDiagnostics sampleRuntime s = noDiagnostics" for e ns s
    by (simp_all add: sampleRuntime_def runtimeDiagnostics_def)
  have q: "mgRuntime ?m = []" by (simp add: fileManager_def)
  have acc: "acceptedNodesForCommit noDiagnostics [?n] [(NodeKey ?n, 20001)] = Inr [?n]"
    by (simp add: acceptedNodesForCommit_def commitDiagnostics_def noDiagnostics_def hasPort_def rejectedKeys_def Let_def)
  have rt: "refreshRuntime sampleRuntime (sampleRefresh []) [?n] [] ?m =
      (Inr ([tunnelEntry (NodeKey ?n)], True), ?m\<lparr>mgRuntime := [?n]\<rparr>)"
    by (simp add: refreshRuntime_def collectAllTunnelNodesExcludingSubscription_def env l Let_def s q ev reload_def mapValues_def
        addNode_def pm acc tunnelEntries_def tunnelEntry_def)
  have st: "store (replaceSubscriptionProxies 1 [tunnelEntry (NodeKey ?n)]) (?m\<lparr>mgRuntime := [?n]\<rparr>) =
      (Inr ps :: string managerError + Proxy list, ?m\<lparr>mgRuntime := [?n], mgDB := d'\<rparr>)"
    using run by (simp add: store_def fileManager_def)
  have c: "refreshCommit sampleRuntime (sampleRefresh []) 1 [?n] ?m = (Inr ps, ?m\<lparr>mgRuntime := [?n], mgDB := d'\<rparr>)"
    by (simp add: refreshCommit_def Let_def n s q k rt st normalizeSubscriptionProxyEntries_def)
  have inv: "db_inv (mgDB ?m)" "keysDistinct 1 (proxies (mgDB ?m))" by code_simp+
  have "rowEntry ` set (filter (ofSub 1) (proxies d')) = {tunnelEntry (NodeKey ?n)}"
    using refresh_rows [OF run] inv by (simp add: fileManager_def normalizeSubscriptionProxyEntries_def)
  then obtain r where r: "r \<in> set (proxies d')" "ofSub 1 r" by fastforce
  let ?m' = "?m\<lparr>mgRuntime := [?n], mgDB := d'\<rparr>"
  have p: "r \<in> set (proxies (mgDB ?m'))" using r by simp
  show ?thesis using c p r(2) committed_rows_reach_nodes [OF c inv p r(2)] by blast
qed

section \<open>Nodes of others\<close>


text \<open>A subscription of one row beside a row added by hand.\<close>

definition sharedDB :: DB where
  "sharedDB = (fileDB ''active'')\<lparr>nextProxyID := 3, proxies :=
     [defaultRow\<lparr>cID := 1, cAddress := ''h:1'', cSource := SourceManual, cNodeKey := ''k''\<rparr>,
      defaultRow\<lparr>cID := 2, cAddress := ''h:1'', cSource := SourceSubscription, cSubscriptionID := 1, cNodeKey := ''k''\<rparr>]\<rparr>"


section \<open>A node of a subscription added by hand\<close>

text \<open>After the node was written there is a row added by hand at its address, and no row of a subscription was touched.\<close>

definition handRow :: "string \<Rightarrow> ProxyRow \<Rightarrow> bool" where
  "handRow a r \<longleftrightarrow> cSource r = ''manual'' \<and> cAddress r = a"

definition handAdded :: "string \<Rightarrow> DB \<Rightarrow> DB \<Rightarrow> bool" where
  "handAdded a d d' \<longleftrightarrow> (\<exists>r\<in>set (proxies d'). handRow a r) \<and>
     (\<forall>r\<in>set (proxies d). cSource r \<noteq> ''manual'' \<longrightarrow> r \<in> set (proxies d'))"

lemma addManualExec_rows:
  assumes "addManualProxyExec a p region note u w k d = (Inr x, d')"
  shows "handAdded a d d'"
proof -
  define new where "new = defaultRow\<lparr>cAddress := a, cProtocol := normalizeProtocol p, cSource := ''manual'', cSubscriptionID := 0,
      cRegion := normalizeManualRegion region, cRegionSource := manualRegionSource (normalizeManualRegion region), cNote := note,
      cStatus := ''disabled'', cProxyUsername := u, cProxyPassword := w,
      cNodeKey := (if k = [] then ''manual:'' @ normalizeProtocol p @ '':'' @ a else k)\<rparr>"
  define f where "f = (\<lambda>(new :: ProxyRow) (old :: ProxyRow). old\<lparr>cProtocol := cProtocol new, cRegion := cRegion new,
           cRegionSource := cRegionSource new, cNote := cNote new, cStatus := ''disabled'',
           cProxyUsername := cProxyUsername new, cProxyPassword := cProxyPassword new, cNodeKey := cNodeKey new\<rparr>)"
  have new: "cAddress new = a" "cSource new = ''manual''" "rowIdentity new = (a, ''manual'', 0)"
    by (simp_all add: new_def rowIdentity_def)
  have f: "cAddress (f new old) = cAddress old" "cSource (f new old) = cSource old" for old by (simp_all add: f_def)
  from assms have e: "upsertProxy new f d = (Inr (), d')"
    unfolding addManualProxyExec_def Let_def new_def [symmetric] f_def [symmetric] by simp
  show ?thesis
  proof (cases "rowIdentity new \<in> set (map rowIdentity (proxies d))")
    case True
    with e have p: "proxies d' = updateRows (\<lambda>old. rowIdentity old = rowIdentity new) (f new) (proxies d)"
      by (auto simp: upsertProxy_def execSQL_unfold split: if_splits)
    from True obtain q where q: "q \<in> set (proxies d)" "rowIdentity q = rowIdentity new" by auto
    then have "handRow a (f new q)" by (simp add: handRow_def f new rowIdentity_def)
    moreover have "f new q \<in> set (proxies d')" using q by (auto simp: p updateRows_def)
    moreover have "r \<in> set (proxies d')" if "r \<in> set (proxies d)" "cSource r \<noteq> ''manual''" for r
      using that new(3) by (force simp: p updateRows_def rowIdentity_def)
    ultimately show ?thesis unfolding handAdded_def by blast
  next
    case False
    with e have "proxies d' = proxies d @ [new\<lparr>cID := nextProxyID d, cCreatedAt := now d\<rparr>]"
      by (auto simp: upsertProxy_def execSQL_unfold split: if_splits)
    then show ?thesis by (simp add: handAdded_def handRow_def new)
  qed
qed

lemma handUpdate_rows:
  assumes "affecting (updateProxies (\<lambda>d r. cID r = i \<and> cNodeKey r = k) f) d = (Inr x, d')" "distinct (map cID (proxies d))"
    "q \<in> set (proxies d)" "cID q = i" "cNodeKey q = k" "cSource q = ''manual''" "\<And>d. handRow a (f d q)"
  shows "handAdded a d d'"
proof -
  from assms(1) obtain n where "updateProxies (\<lambda>d r. cID r = i \<and> cNodeKey r = k) f d = (Inr n, d')" by (rule affecting_InrE)
  then have p: "proxies d' = updateRows (\<lambda>r. cID r = i \<and> cNodeKey r = k) (f (dropFault d)) (proxies d)"
    by (auto simp: updateProxies_def execSQL_unfold Let_def split: if_splits)
  have "f (dropFault d) q \<in> set (proxies d')" using assms(3-5) by (auto simp: p updateRows_def)
  moreover have "r \<in> set (proxies d')" if r: "r \<in> set (proxies d)" "cSource r \<noteq> ''manual''" for r
  proof -
    from r assms(2-4,6) have "cID r \<noteq> i" by (metis distinct_map inj_onD)
    with r(1) show ?thesis by (force simp: p updateRows_def)
  qed
  ultimately show ?thesis unfolding handAdded_def using assms(7) by blast
qed

lemma addManualKey_rows:
  assumes "AddManualProxyWithNodeKey a p region note k d = (Inr x, d')" "distinct (map cID (proxies d))"
  shows "handAdded a d d'"
proof (cases "k = []")
  case True
  with assms(1) show ?thesis using addManualExec_rows by (simp add: AddManualProxyWithNodeKey_def)
next
  case False
  define rows where "rows = filter (\<lambda>r. cSource r = ''manual'' \<and> cSubscriptionID r = 0 \<and> cNodeKey r = k) (proxies d)"
  from withTx_InrE [OF assms(1) [unfolded AddManualProxyWithNodeKey_def if_not_P [OF False]]] obtain d1 where
    b: "bindOp (querySQL (\<lambda>d. let rows = filter (\<lambda>r. cSource r = ''manual'' \<and> cSubscriptionID r = 0 \<and> cNodeKey r = k) (proxies d)
            in (length rows, minOr 0 (map cID rows), minOr [] (map cAddress rows), minOr [] (map cProtocol rows))))
          (\<lambda>(n, proxyID, storedAddress, storedProtocol).
             if n > 1 then failOp (ErrAmbiguousNodeKey k)
             else if n = 0 then addManualProxyExec a p region note [] [] k
             else
               (let region = normalizeManualRegion region; regionSource = manualRegionSource region in
                if storedAddress = a \<and> storedProtocol = normalizeProtocol p then
                  affecting (updateProxies (\<lambda>d r. cID r = proxyID \<and> cNodeKey r = k)
                    (\<lambda>d r. r\<lparr>cRegion := region, cRegionSource := regionSource, cNote := note\<rparr>))
                else
                  affecting (updateProxies (\<lambda>d r. cID r = proxyID \<and> cNodeKey r = k)
                    (\<lambda>d r. r\<lparr>cAddress := a, cProtocol := normalizeProtocol p,
                       cRegion := region, cRegionSource := regionSource, cNote := note,
                       cExitIP := [], cExitLocation := [], cLatency := 0, cQualityGrade := ''C'',
                       cFailCount := 0, cLastCheck := None, cExitCheckedAt := None,
                       cDisabledAt := None, cIpapiisScore := - 1, cIpapiFlags := [],
                       cIpapiFlagsSeen := 0, cCfBlocked := - 1, cAiReachability := [],
                       cStatus := ''disabled'', cProxyUsername := [], cProxyPassword := [],
                       cNodeKey := k\<rparr>)))) (dropFault d) = (Inr x, d1)" and d1: "d' = dropFault d1" .
  have same: "handAdded a d d'" if "handAdded a (dropFault (dropFault d)) d1"
    using that by (simp add: handAdded_def d1)
  consider "length rows > 1" | "rows = []" | q where "rows = [q]"
    by (cases rows; cases "tl rows") auto
  then show ?thesis
  proof cases
    case 1
    with b show ?thesis by (auto simp: bindOp_def querySQL_unfold Let_def rows_def failOp_def split: if_splits)
  next
    case 2
    with b have "addManualProxyExec a p region note [] [] k (dropFault (dropFault d)) = (Inr x, d1)"
      by (auto simp: bindOp_def querySQL_unfold Let_def rows_def split: if_splits)
    then show ?thesis by (intro same addManualExec_rows)
  next
    case (3 q)
    have "q \<in> set rows" by (simp add: 3)
    then have q: "q \<in> set (proxies d)" "cSource q = ''manual''" "cNodeKey q = k" by (simp_all add: rows_def)
    have m: "minOr z [y] = y" for z y :: "'b :: linorder" by (simp add: minOr_def)
    obtain f where f: "affecting (updateProxies (\<lambda>d r. cID r = cID q \<and> cNodeKey r = k) f) (dropFault (dropFault d)) = (Inr x, d1)"
      "\<And>d. handRow a (f d q)"
    proof -
      let ?f1 = "\<lambda>(d :: DB) r. r\<lparr>cRegion := normalizeManualRegion region,
        cRegionSource := manualRegionSource (normalizeManualRegion region), cNote := note\<rparr>"
      let ?f2 = "\<lambda>(d :: DB) r. r\<lparr>cAddress := a, cProtocol := normalizeProtocol p,
        cRegion := normalizeManualRegion region, cRegionSource := manualRegionSource (normalizeManualRegion region), cNote := note,
        cExitIP := [], cExitLocation := [], cLatency := 0, cQualityGrade := ''C'',
        cFailCount := 0, cLastCheck := None, cExitCheckedAt := None, cDisabledAt := None, cIpapiisScore := - 1, cIpapiFlags := [],
        cIpapiFlagsSeen := 0, cCfBlocked := - 1, cAiReachability := [],
        cStatus := ''disabled'', cProxyUsername := [], cProxyPassword := [], cNodeKey := k\<rparr>"
      let ?run = "\<lambda>f. affecting (updateProxies (\<lambda>d r. cID r = cID q \<and> cNodeKey r = k) f) (dropFault (dropFault d))"
      have "(if cAddress q = a \<and> cProtocol q = normalizeProtocol p then ?run ?f1 else ?run ?f2) = (Inr x, d1)"
        using b 3 by (auto simp: bindOp_def querySQL_unfold Let_def rows_def m split: if_splits)
      then show thesis
        using that [of ?f1] that [of ?f2] q by (cases "cAddress q = a \<and> cProtocol q = normalizeProtocol p") (simp_all add: handRow_def)
    qed
    show ?thesis using handUpdate_rows [OF f(1) _ _ refl q(3,2) f(2)] assms(2) q(1) same by simp
  qed
qed

lemma rollback_Inl: "\<exists>e m'. rollback ops ev ns err m = (Inl e, m')"
  by (simp add: rollback_def split: prod.split option.split)

lemma ambiguous_address:
  assumes "r \<in> set (proxies d)" "q \<in> set (proxies d)" "r \<noteq> q" "cAddress r = a" "cAddress q = a"
  shows "\<exists>e d'. GetProxyByAddress a d = (Inl e, d')"
proof -
  let ?rows = "filter (\<lambda>r. cAddress r = a) (proxies d)"
  have "card {r, q} \<le> card (set ?rows)" using assms by (intro card_mono) auto
  also have "\<dots> \<le> length ?rows" by (rule card_length)
  finally have "2 \<le> length ?rows" using assms(3) by simp
  then have "length (matchTwo (\<lambda>r. cAddress r = a) d) > 1" by (simp add: matchTwo_def)
  then show ?thesis by (auto simp: GetProxyByAddress_def bindOp_def querySQL_unfold failOp_def matchTwo_def)
qed

lemma addTunnel_ambiguous:
  fixes ops :: "('s, 'e, 'x) tunnelRuntime"
  assumes "rtReload ops (reLoad env) merged (mgRuntime m1) = (None, s)" "map_of (rtPortMap ops s) (NodeKey node) = Some port"
    "mergeWithExistingTunnelNodes ops (reOrder env) (reTime env) node m = (merged, m1)" "db_inv (mgDB m1)"
    "r \<in> set (proxies (mgDB m1))" "cSource r \<noteq> ''manual''" "cAddress r = JoinHostPort ''127.0.0.1'' (fmtInt port)"
  shows "\<exists>e m'. addManualTunnelNode ops env node region note m = (Inl e, m')"
proof -
  let ?a = "JoinHostPort ''127.0.0.1'' (fmtInt port)" and ?m2 = "m1\<lparr>mgRuntime := s\<rparr>"
  obtain x :: "'x managerError + unit" and m3 where x: "store (AddManualProxyWithNodeKey ?a ''socks5'' region note (NodeKey node)) ?m2 = (x, m3)"
    by fastforce
  have run: "addManualTunnelNode ops env node region note m = (case (x, m3) of
       (Inl e, m3) \<Rightarrow> rollback ops (reBack env) (rtNodes ops (mgRuntime m)) e m3
     | (Inr u, m3) \<Rightarrow>
         (case store (GetProxyByAddress ?a) m3 of
            (Inl e, m4) \<Rightarrow> rollback ops (reBack env) (rtNodes ops (mgRuntime m)) e (ignoring (DeleteManualProxy ?a) m4)
          | (Inr p, m4) \<Rightarrow>
              (case store (SetProxyDualProtocol (pID p) True) m4 of
                 (Inl e, m5) \<Rightarrow> rollback ops (reBack env) (rtNodes ops (mgRuntime m)) e (ignoring (DeleteProxyByID (pID p)) m5)
               | (Inr u, m5) \<Rightarrow> (Inr (), m5))))"
    by (simp add: addManualTunnelNode_def Let_def assms(1-3) reload_def x)
  show ?thesis
  proof (cases x)
    case (Inl e)
    with run show ?thesis by (simp add: rollback_Inl)
  next
    case (Inr u)
    from x [unfolded Inr] have "AddManualProxyWithNodeKey ?a ''socks5'' region note (NodeKey node) (mgDB m1) = (Inr u, mgDB m3)"
      by (cases rule: store_cases) simp_all
    moreover have "distinct (map cID (proxies (mgDB m1)))" using assms(4) by (simp add: db_inv_def)
    ultimately have h: "handAdded ?a (mgDB m1) (mgDB m3)" by (rule addManualKey_rows)
    then obtain q where q: "q \<in> set (proxies (mgDB m3))" "cSource q = ''manual''" "cAddress q = ?a"
      unfolding handAdded_def handRow_def by blast
    have "r \<in> set (proxies (mgDB m3))" "r \<noteq> q" using h assms(5,6) q(2) unfolding handAdded_def by auto
    with q assms(7) obtain e d' where "GetProxyByAddress ?a (mgDB m3) = (Inl e, d')" using ambiguous_address by metis
    with run Inr show ?thesis by (simp add: store_def rollback_Inl)
  qed
qed

text \<open>
  C18: A tunnel node that a subscription already provides cannot be added by hand: when the runtime keeps serving the
  node on the port a row of a subscription names, the new row is found to share its address with that row, and the
  operation always fails, whatever the region, the note, the database and the other nodes are.
\<close>

theorem shared_node_never_added:
  fixes ops :: "('s, 'e, 'x) tunnelRuntime"
  assumes "db_inv (mgDB m)" "r \<in> set (proxies (mgDB m))" "cSource r = SourceSubscription"
    "cAddress r = JoinHostPort ''127.0.0.1'' (fmtInt port)"
    "\<And>ns s. node \<in> set ns \<Longrightarrow> rtReload ops (reLoad env) ns (mgRuntime m) = (None, s) \<Longrightarrow> map_of (rtPortMap ops s) (NodeKey node) = Some port"
    "\<And>ns. set (reOrder env ns) = set ns"
  shows "\<exists>e m'. addManualTunnelNode ops env node region note m = (Inl e, m')"
proof -
  obtain merged m1 where mg: "mergeWithExistingTunnelNodes ops (reOrder env) (reTime env) node m = (merged, m1)" by fastforce
  obtain existing m2 where c: "collectAllTunnelNodesExcludingSubscription ops (reOrder env) (reTime env) [] m = (existing, m2)" by fastforce
  have m1: "m1 = m2" "merged = mapValues (reOrder env) (addNode node (fold addNode existing []))"
    using mg c by (simp_all add: mergeWithExistingTunnelNodes_def)
  have t: "tables (mgDB m1) = tables (mgDB m)" "mgRuntime m1 = mgRuntime m" using collect_keep [OF c] m1(1) by simp_all
  have "(NodeKey node, node) \<in> set (addNode node (fold addNode existing []))"
    unfolding addNode_def by (intro map_of_SomeD) (simp add: update_conv')
  then have "node \<in> set merged" using assms(6) by (force simp: m1(2) mapValues_def)
  show ?thesis
  proof (cases "rtReload ops (reLoad env) merged (mgRuntime m1)")
    case (Pair o_err s)
    show ?thesis
    proof (cases o_err)
      case None
      have "map_of (rtPortMap ops s) (NodeKey node) = Some port"
        using assms(5) [OF \<open>node \<in> set merged\<close>] Pair None t(2) by simp
      moreover have "proxies (mgDB m1) = proxies (mgDB m)" using t(1) by (simp add: tables_def)
      moreover have "cSource r \<noteq> ''manual''" using assms(3) by (simp add: SourceSubscription_def)
      ultimately show ?thesis
        using addTunnel_ambiguous [OF Pair [unfolded None] _ mg] db_inv_tables [OF t(1)] assms(1,2,4) by simp
    next
      case (Some err)
      with Pair mg show ?thesis by (simp add: addManualTunnelNode_def Let_def reload_def)
    qed
  qed
qed

text \<open>A runtime that gives one node port 20001 whatever it runs beside it, and that node in a subscription.\<close>

definition stickyRuntime :: "ParsedNode \<Rightarrow> (ParsedNode list, unit, string) tunnelRuntime" where
  "stickyRuntime node = sampleRuntime\<lparr>rtPortMap := (\<lambda>s. (if node \<in> set s then [(NodeKey node, 20001)] else []) @
     zip (map NodeKey s) [20002..20001 + int (length s)])\<rparr>"

definition providedDB :: "string \<Rightarrow> DB" where
  "providedDB k = (fileDB ''active'')\<lparr>nextProxyID := 2, proxies :=
     [defaultRow\<lparr>cID := 1, cAddress := JoinHostPort ''127.0.0.1'' (fmtInt 20001), cSource := SourceSubscription,
        cSubscriptionID := 1, cNodeKey := k\<rparr>]\<rparr>"

theorem shared_node_never_added_witness:
  "\<exists>e m'. addManualTunnelNode (stickyRuntime (sampleTunnel ''trojan'')) (sampleRefresh []) (sampleTunnel ''trojan'') ''US'' ''mine''
    ((fileManager ''active'')\<lparr>mgDB := providedDB (NodeKey (sampleTunnel ''trojan''))\<rparr>) = (Inl e, m')"
proof -
  let ?n = "sampleTunnel ''trojan''"
  let ?row = "defaultRow\<lparr>cID := 1, cAddress := JoinHostPort ''127.0.0.1'' (fmtInt 20001), cSource := SourceSubscription,
        cSubscriptionID := 1, cNodeKey := NodeKey ?n\<rparr>"
  show ?thesis
  proof (rule shared_node_never_added [of _ ?row 20001])
    show "db_inv (mgDB ((fileManager ''active'')\<lparr>mgDB := providedDB (NodeKey ?n)\<rparr>))"
      by (simp add: db_inv_def providedDB_def fileDB_def emptyDB_def identitiesUnique_def subscriptionsUnique_def)
    show "?row \<in> set (proxies (mgDB ((fileManager ''active'')\<lparr>mgDB := providedDB (NodeKey ?n)\<rparr>)))"
      by (simp add: providedDB_def)
    show "map_of (rtPortMap (stickyRuntime ?n) s) (NodeKey ?n) = Some 20001"
      if "?n \<in> set ns" "rtReload (stickyRuntime ?n) e ns s0 = (None, s)" for ns s e s0
      using that by (simp add: stickyRuntime_def sampleRuntime_def)
  qed (simp_all add: sampleRefresh_def)
qed

section \<open>Import lines\<close>

text \<open>The letter U+023A takes two bytes and its lower case U+2C65 three.\<close>

definition strokeLine :: string where
  "strokeLine = [CHR 0xC8, CHR 0xBA] @ ''http://''"

text \<open>
  One line of an import that starts with a letter whose lower case is longer and ends in the scheme of a link
  makes the import slice the line out of range, because the place of the scheme is looked up in the lower-case copy.
\<close>

theorem import_line_panics:
  assumes "lower strokeLine = [CHR 0xE2, CHR 0xB1, CHR 0xA5] @ ''http://''"
  shows "fst (ImportManualLinks lower parseLink stream strokeLine region note m) = None"
proof -
  have sp: "SplitByte strokeLine CHR 0x0A = [strokeLine]" "TrimSpace strokeLine = strokeLine" "strokeLine \<noteq> []"
    "\<not> HasPrefix strokeLine ''#''" "length strokeLine = 9"
    by code_simp+
  have f: "firstScheme (lower strokeLine) = Some (3, ''http://'')" unfolding assms by code_simp
  have "extractProxyLinkFromLine lower strokeLine = None"
    by (simp add: extractProxyLinkFromLine_def sp f)
  then show ?thesis by (simp add: ImportManualLinks_def sp)
qed

theorem import_line_panics_witness:
  "fst (ImportManualLinks (\<lambda>s. if s = strokeLine then [CHR 0xE2, CHR 0xB1, CHR 0xA5] @ ''http://'' else s) (\<lambda>l. None) None
    strokeLine [] [] (fileManager ''active'')) = None"
  by (rule import_line_panics) simp

end
