(* ===== verification/Parser.thy ===== *)
theory Parser
  imports Outbound UrlParse Json Base64
begin

text \<open>
  The parsers of subscriptions and links (\<open>custom/parser.go\<close>, \<open>custom/singbox_parser.go\<close>): detection of the format,
  Clash lists, share links, plain lines and sing-box configurations, each down to the fields a node keeps.

  An error is either the one of an invalid endpoint, which stops a whole list, or any other, which skips a line.
  Arguments are \<open>strings.ToLower\<close>, the \<open>float64\<close> a JSON literal decodes to (\<open>None\<close> when it is out of range), and the
  two calls of \<open>yaml.v3\<close>: parsing a document into nodes, and decoding a node into a map.
\<close>

section \<open>Values from outside\<close>

datatype yamlKind = NoKind | DocumentNode | SequenceNode | MappingNode | ScalarNode | AliasNode

datatype yamlNode = YamlNode (yKind: yamlKind) (yValue: string) (yContent: "yamlNode list")

record parserLib =
  plLower :: "string \<Rightarrow> string"
  plFloat :: "string \<Rightarrow> goval option"
  plYaml :: "string \<Rightarrow> yamlNode option"
  plDecode :: "yamlNode \<Rightarrow> gomap option"

datatype parseError = InvalidEndpoint | ParseFailed string

text \<open>\<open>json.Unmarshal\<close> into \<open>interface{}\<close>; of several members with one key the last one stays.\<close>

primrec goOfJson :: "(string \<Rightarrow> goval option) \<Rightarrow> json \<Rightarrow> goval option" where
  "goOfJson num JNull = Some GNull"
| "goOfJson num (JBool b) = Some (GBool b)"
| "goOfJson num (JNum l) = num l"
| "goOfJson num (JStr s) = Some (GStr s)"
| "goOfJson num (JArr l) = map_option GArr (those (map (goOfJson num) l))"
| "goOfJson num (JObj kvs) =
     map_option (\<lambda>ms. GMap (fold (\<lambda>(k, v). AList.update k v) ms []))
       (those (map (\<lambda>(k, v). map_option (Pair k) v) (map (map_prod id (goOfJson num)) kvs)))"

text \<open>Into a map: \<open>null\<close> leaves the map nil.\<close>

definition unmarshalMap :: "(string \<Rightarrow> goval option) \<Rightarrow> json \<Rightarrow> gomap option" where
  "unmarshalMap num j =
     (case j of
        JNull \<Rightarrow> Some []
      | JObj kvs \<Rightarrow> (case goOfJson num j of Some (GMap m) \<Rightarrow> Some m | _ \<Rightarrow> None)
      | _ \<Rightarrow> None)"

section \<open>Endpoints\<close>

definition validatePort :: "int \<Rightarrow> parseError + unit" where
  "validatePort port = (if port < 1 \<or> port > 65535 then Inl InvalidEndpoint else Inr ())"

definition validateProxyEndpoint :: "string \<Rightarrow> int \<Rightarrow> parseError + unit" where
  "validateProxyEndpoint host port = (if TrimSpace host = [] then Inl InvalidEndpoint else validatePort port)"

text \<open>
  A \<open>float64\<close> between 1 and 65535 is whole exactly if its text is the one of the integer it truncates to.
\<close>

definition parseProxyPort :: "goval option \<Rightarrow> parseError + int" where
  "parseProxyPort value =
     (case (case value of
              Some (GInt v) \<Rightarrow> Some v
            | Some (GFloat i j v) \<Rightarrow> if v \<noteq> fmtInt i \<or> i < 1 \<or> i > 65535 then None else Some i
            | Some (GStr s) \<Rightarrow> Atoi (TrimSpace s)
            | _ \<Rightarrow> None) of
        None \<Rightarrow> Inl InvalidEndpoint
      | Some port \<Rightarrow> (case validatePort port of Inl e \<Rightarrow> Inl e | Inr u \<Rightarrow> Inr port))"

section \<open>Base64\<close>

definition urlDecode :: "string \<Rightarrow> string option" where
  "urlDecode s =
     (let t = filter (\<lambda>c. c \<noteq> CHR 0x0D \<and> c \<noteq> CHR 0x0A) s in
      if length t mod 4 \<noteq> 0 then None else rawDecode urlAlphabet (stripPadding t))"

definition firstSome :: "'a option list \<Rightarrow> 'a option" where
  "firstSome xs = (case find (\<lambda>x. x \<noteq> None) xs of Some x \<Rightarrow> x | None \<Rightarrow> None)"

definition tryBase64Decode :: "string \<Rightarrow> string option" where
  "tryBase64Decode s0 =
     (let s = filter (\<lambda>c. c \<noteq> CHR 0x0D \<and> c \<noteq> CHR 0x0A \<and> c \<noteq> CHR 0x20) (TrimSpace s0) in
      firstSome [stdDecode s, urlDecode s, rawDecode stdAlphabet s, rawDecode urlAlphabet s])"

section \<open>Plain lines\<close>

definition splitDirectHostPort :: "string \<Rightarrow> parseError + string \<times> int" where
  "splitDirectHostPort addr =
     (case SplitHostPort addr of
        None \<Rightarrow> Inl (ParseFailed ''address'')
      | Some (host, portStr) \<Rightarrow>
          (case Atoi portStr of
             None \<Rightarrow> Inl (ParseFailed ''port'')
           | Some port \<Rightarrow> (case validateProxyEndpoint host port of Inl e \<Rightarrow> Inl e | Inr u \<Rightarrow> Inr (host, port))))"

definition directScheme :: "string \<Rightarrow> string option" where
  "directScheme lower =
     (if HasPrefix lower ''socks5://'' \<or> HasPrefix lower ''socks4://'' then Some ''socks5''
      else if HasPrefix lower ''http://'' \<or> HasPrefix lower ''https://'' then Some ''http''
      else None)"

definition parseDirectPlainLine ::
    "parserLib \<Rightarrow> string \<Rightarrow> parseError + string \<times> string \<times> int \<times> string \<times> string" where
  "parseDirectPlainLine lib line =
     (case directScheme (plLower lib line) of
        None \<Rightarrow> map_sum id (\<lambda>(host, port). (''http'', host, port, [], [])) (splitDirectHostPort line)
      | Some protocol \<Rightarrow>
          (case parseURL line of
             None \<Rightarrow> Inl (ParseFailed ''url'')
           | Some u \<Rightarrow>
               (case urlHostPort (guHost u) of
                  (host, portStr) \<Rightarrow>
                    if host = [] \<or> portStr = [] then Inl (ParseFailed ''missing host or port'')
                    else
                      (case Atoi portStr of
                         None \<Rightarrow> Inl (ParseFailed ''port'')
                       | Some port \<Rightarrow>
                           (case validateProxyEndpoint host port of
                              Inl e \<Rightarrow> Inl e
                            | Inr _ \<Rightarrow>
                                (case guUser u of
                                   None \<Rightarrow> Inr (protocol, host, port, [], [])
                                 | Some (user, pw) \<Rightarrow>
                                     Inr (protocol, host, port, user, case pw of Some p \<Rightarrow> p | None \<Rightarrow> [])))))))"

definition plainNode :: "string \<times> string \<times> int \<times> string \<times> string \<Rightarrow> ParsedNode" where
  "plainNode r =
     (case r of (protocol, host, port, user, pw) \<Rightarrow>
        \<lparr>nName = JoinHostPort host (fmtInt port), nType = protocol, nServer = host, nPort = port,
         nRaw = [(''type'', GStr protocol), (''server'', GStr host), (''port'', GInt port)],
         nUsername = user, nPassword = pw\<rparr>)"

text \<open>
  The loop over lines that \<open>parsePlain\<close> and \<open>parseProxyLinks\<close> share: blank lines and comments are skipped, and so is
  a line with any error but the one of an invalid endpoint, which ends the loop.
\<close>

fun parseLines :: "(string \<Rightarrow> parseError + ParsedNode) \<Rightarrow> string list \<Rightarrow> parseError + ParsedNode list" where
  "parseLines one [] = Inr []"
| "parseLines one (raw # ls) =
     (let line = TrimSpace raw in
      if line = [] \<or> HasPrefix line ''#'' then parseLines one ls
      else
        (case one line of
           Inl InvalidEndpoint \<Rightarrow> Inl InvalidEndpoint
         | Inl e \<Rightarrow> parseLines one ls
         | Inr n \<Rightarrow> map_sum id ((#) n) (parseLines one ls)))"

definition parsePlain :: "parserLib \<Rightarrow> string \<Rightarrow> parseError + ParsedNode list" where
  "parsePlain lib data =
     parseLines (\<lambda>line. map_sum id plainNode (parseDirectPlainLine lib line)) (SplitByte data CHR 0x0A)"

definition parseBase64 :: "parserLib \<Rightarrow> string \<Rightarrow> parseError + ParsedNode list" where
  "parseBase64 lib data =
     (let s = TrimSpace data in
      case firstSome [stdDecode s, urlDecode s, rawDecode stdAlphabet s] of
        None \<Rightarrow> Inl (ParseFailed ''base64'')
      | Some decoded \<Rightarrow> parsePlain lib decoded)"

section \<open>Share links\<close>

definition looksLikeProxyLinks :: "string \<Rightarrow> bool" where
  "looksLikeProxyLinks s \<longleftrightarrow> list_ex (Contains s)
     [''vmess://'', ''vless://'', ''trojan://'', ''ss://'', ''ssr://'', ''hysteria2://'', ''hy2://'', ''tuic://'']"

text \<open>\<open>fmt.Sprintf("%v", m[k])\<close>; a missing key reads as nil.\<close>

definition fmtOf :: "gomap \<Rightarrow> string \<Rightarrow> string" where
  "fmtOf m k = (case map_of m k of Some v \<Rightarrow> fmtV v | None \<Rightarrow> fmtV GNull)"

definition putIf :: "bool \<Rightarrow> string \<Rightarrow> goval \<Rightarrow> gomap \<Rightarrow> gomap" where
  "putIf b k v m = (if b then put k v m else m)"

definition vmessTransport :: "gomap \<Rightarrow> string \<Rightarrow> gomap \<Rightarrow> gomap" where
  "vmessTransport info network raw =
     (let path = getStr info ''path''; host = getStr info ''host'' in
      if network = ''ws'' then
        put ''ws-opts'' (GMap (putIf (host \<noteq> []) ''headers'' (GMap [(''Host'', GStr host)])
          (putIf (path \<noteq> []) ''path'' (GStr path) []))) raw
      else if network = ''grpc'' then
        put ''grpc-opts'' (GMap (putIf (path \<noteq> []) ''grpc-service-name'' (GStr path) [])) raw
      else raw)"

definition vmessTLS :: "gomap \<Rightarrow> gomap \<Rightarrow> gomap" where
  "vmessTLS info raw =
     (if fmtOf info ''tls'' = ''tls'' then
        (case map_of info ''sni'' of
           Some sni \<Rightarrow> put ''sni'' sni (put ''tls'' (GBool True) raw)
         | None \<Rightarrow> put ''tls'' (GBool True) raw)
      else raw)"

definition vmessNode :: "gomap \<Rightarrow> string \<Rightarrow> int \<Rightarrow> ParsedNode" where
  "vmessNode info server port =
     (let ps = fmtOf info ''ps''; name = (if ps = [] \<or> ps = ''<nil>'' then server else ps);
          raw = [(''type'', GStr ''vmess''), (''name'', GStr name), (''server'', GStr server), (''port'', GInt port),
            (''uuid'', GStr (fmtOf info ''id'')), (''alterId'', GInt (getInt info ''aid'')),
            (''cipher'', GStr (getStrDefault info ''scy'' ''auto''))];
          network = getStrDefault info ''net'' ''tcp'' in
      \<lparr>nName = name, nType = ''vmess'', nServer = server, nPort = port,
       nRaw = vmessTransport info network (put ''network'' (GStr network) (vmessTLS info raw)),
       nUsername = [], nPassword = []\<rparr>)"

definition parseVmessLink :: "parserLib \<Rightarrow> string \<Rightarrow> parseError + ParsedNode" where
  "parseVmessLink lib link =
     (case tryBase64Decode (TrimPrefix link ''vmess://'') of
        None \<Rightarrow> Inl (ParseFailed ''base64'')
      | Some decoded \<Rightarrow>
          (case Option.bind (parseJSON decoded) (unmarshalMap (plFloat lib)) of
             None \<Rightarrow> Inl (ParseFailed ''json'')
           | Some info \<Rightarrow>
               (let server = fmtOf info ''add''; port = AtoiValue (fmtOf info ''port'') in
                case validateProxyEndpoint server port of
                  Inl e \<Rightarrow> Inl e
                | Inr u \<Rightarrow> Inr (vmessNode info server port))))"

definition linkCredentials :: "string \<Rightarrow> (string \<times> string option) option \<Rightarrow> gomap \<Rightarrow> gomap" where
  "linkCredentials typ user raw =
     (case user of
        None \<Rightarrow> raw
      | Some (name, pw) \<Rightarrow>
          if typ = ''trojan'' \<or> typ = ''hysteria2'' then put ''password'' (GStr name) raw
          else if typ = ''vless'' \<or> typ = ''tuic'' then
            (case pw of
               Some p \<Rightarrow> put ''password'' (GStr p) (put ''uuid'' (GStr name) raw)
             | None \<Rightarrow> put ''uuid'' (GStr name) raw)
          else raw)"

definition linkTLS :: "string \<Rightarrow> (string \<times> string) list \<Rightarrow> gomap \<Rightarrow> gomap" where
  "linkTLS typ params raw =
     (let get = queryGet params; security = get ''security'' in
      if security \<noteq> ''none'' \<and> security \<noteq> [] \<or> typ = ''trojan'' \<or> typ = ''hysteria2'' then
        putIf (get ''allowInsecure'' = ''1'' \<or> get ''insecure'' = ''1'') ''skip-cert-verify'' (GBool True)
          (putIf (get ''alpn'' \<noteq> []) ''alpn'' (GStrs (SplitByte (get ''alpn'') CHR '',''))
            (putIf (get ''fp'' \<noteq> []) ''client-fingerprint'' (GStr (get ''fp''))
              (putIf (get ''sni'' \<noteq> []) ''sni'' (GStr (get ''sni'')) (put ''tls'' (GBool True) raw))))
      else raw)"

definition linkReality :: "(string \<times> string) list \<Rightarrow> gomap \<Rightarrow> gomap" where
  "linkReality params raw =
     (let get = queryGet params in
      if get ''security'' = ''reality'' then
        put ''reality-opts'' (GMap (putIf (get ''sid'' \<noteq> []) ''short-id'' (GStr (get ''sid''))
          (putIf (get ''pbk'' \<noteq> []) ''public-key'' (GStr (get ''pbk'')) []))) (put ''tls'' (GBool True) raw)
      else raw)"

definition linkTransport :: "(string \<times> string) list \<Rightarrow> gomap \<Rightarrow> gomap" where
  "linkTransport params raw0 =
     (let get = queryGet params; netType = (if get ''type'' = [] then ''tcp'' else get ''type'');
          raw = put ''network'' (GStr netType) raw0 in
      if netType = ''ws'' then
        put ''ws-opts'' (GMap (putIf (get ''host'' \<noteq> []) ''headers'' (GMap [(''Host'', GStr (get ''host''))])
          (putIf (get ''path'' \<noteq> []) ''path'' (GStr (get ''path'')) []))) raw
      else if netType = ''grpc'' then
        put ''grpc-opts'' (GMap (putIf (get ''serviceName'' \<noteq> []) ''grpc-service-name'' (GStr (get ''serviceName'')) [])) raw
      else raw)"

definition linkExtras :: "string \<Rightarrow> (string \<times> string) list \<Rightarrow> gomap \<Rightarrow> gomap" where
  "linkExtras typ params raw =
     (let get = queryGet params;
          raw1 = (if typ = ''hysteria2'' \<and> get ''obfs'' \<noteq> []
                  then put ''obfs-password'' (GStr (get ''obfs-password'')) (put ''obfs'' (GStr (get ''obfs'')) raw) else raw) in
      putIf (typ = ''vless'' \<and> get ''flow'' \<noteq> []) ''flow'' (GStr (get ''flow'')) raw1)"

definition standardNode :: "string \<Rightarrow> goURL \<Rightarrow> string \<Rightarrow> int \<Rightarrow> ParsedNode" where
  "standardNode typ u host port =
     (let name = (if guFragment u = [] then host else guFragment u); params = urlQuery u;
          raw = [(''type'', GStr typ), (''name'', GStr name), (''server'', GStr host), (''port'', GInt port)] in
      \<lparr>nName = name, nType = typ, nServer = host, nPort = port,
       nRaw = linkExtras typ params (linkTransport params (linkReality params (linkTLS typ params
         (linkCredentials typ (guUser u) raw)))),
       nUsername = [], nPassword = []\<rparr>)"

definition parseStandardLink :: "string \<Rightarrow> string \<Rightarrow> parseError + ParsedNode" where
  "parseStandardLink link typ =
     (case parseURL link of
        None \<Rightarrow> Inl (ParseFailed ''url'')
      | Some u \<Rightarrow>
          (case urlHostPort (guHost u) of
             (host, portText) \<Rightarrow>
               (case if portText \<noteq> [] then Atoi portText else Some 443 of
                  None \<Rightarrow> Inl InvalidEndpoint
                | Some port \<Rightarrow>
                    (case validateProxyEndpoint host port of
                       Inl e \<Rightarrow> Inl e
                     | Inr _ \<Rightarrow> Inr (standardNode typ u host port)))))"

fun pluginValue :: "string list \<Rightarrow> string" where
  "pluginValue [] = []"
| "pluginValue (f # fs) =
     (case CutByte CHR ''='' f of
        (key, value, ok) \<Rightarrow>
          if \<not> ok \<or> QueryUnescape key \<noteq> Some ''plugin'' then pluginValue fs
          else (case QueryUnescape value of None \<Rightarrow> [] | Some v \<Rightarrow> TrimSpace v))"

definition parseShadowsocksPlugin :: "string \<Rightarrow> string \<times> string" where
  "parseShadowsocksPlugin rawQuery =
     (case CutByte CHR '';'' (pluginValue (SplitByte rawQuery CHR ''&'')) of
        (name, opts, found) \<Rightarrow>
          let plugin = TrimSpace name in
          if plugin = [] then ([], []) else if \<not> found then (plugin, []) else (plugin, TrimSpace opts))"

text \<open>Method and password: without a colon both stay empty.\<close>

definition methodPassword :: "string \<Rightarrow> string \<times> string" where
  "methodPassword s = (case CutByte CHR '':'' s of (m, p, found) \<Rightarrow> if found then (m, p) else ([], []))"

definition shadowsocksAddress :: "string \<Rightarrow> parseError + string \<times> int" where
  "shadowsocksAddress hostPort =
     (case SplitHostPort hostPort of
        None \<Rightarrow> Inl (ParseFailed ''address'')
      | Some (h, p) \<Rightarrow> Inr (h, AtoiValue p))"

text \<open>Server, port, method and password of both formats.\<close>

definition shadowsocksParts :: "string \<Rightarrow> parseError + (string \<times> int) \<times> string \<times> string" where
  "shadowsocksParts link =
     (let i = LastIndexByte link CHR ''@'' in
      if i \<ge> 0 then
        (let userInfo = take (nat i) link;
             decoded = (case tryBase64Decode userInfo of Some d \<Rightarrow> d | None \<Rightarrow> userInfo) in
         map_sum id (\<lambda>a. (a, methodPassword decoded)) (shadowsocksAddress (drop (nat (i + 1)) link)))
      else
        (case tryBase64Decode link of
           None \<Rightarrow> Inl (ParseFailed ''base64'')
         | Some s \<Rightarrow>
             (let j = LastIndexByte s CHR ''@'' in
              if j < 0 then Inl (ParseFailed ''format'')
              else map_sum id (\<lambda>a. (a, methodPassword (take (nat j) s))) (shadowsocksAddress (drop (nat (j + 1)) s)))))"

definition shadowsocksNode :: "string \<Rightarrow> string \<Rightarrow> int \<Rightarrow> string \<Rightarrow> string \<Rightarrow> string \<times> string \<Rightarrow> ParsedNode" where
  "shadowsocksNode name0 server port method password pl =
     (let name = (if name0 = [] then server else name0);
          raw = [(''type'', GStr ''ss''), (''name'', GStr name), (''server'', GStr server), (''port'', GInt port),
            (''cipher'', GStr method), (''password'', GStr password)] in
      \<lparr>nName = name, nType = ''shadowsocks'', nServer = server, nPort = port,
       nRaw = putIf (fst pl \<noteq> [] \<and> snd pl \<noteq> []) ''plugin-opts-raw'' (GStr (snd pl))
         (putIf (fst pl \<noteq> []) ''plugin'' (GStr (fst pl)) raw),
       nUsername = [], nPassword = []\<rparr>)"

definition parseShadowsocksLink :: "string \<Rightarrow> parseError + ParsedNode" where
  "parseShadowsocksLink link0 =
     (case CutByte CHR ''#'' (TrimPrefix link0 ''ss://'') of
        (link1, frag, named) \<Rightarrow>
          let name = (if named then (case QueryUnescape frag of Some n \<Rightarrow> n | None \<Rightarrow> []) else []) in
          case CutByte CHR ''?'' link1 of
            (link, q, queried) \<Rightarrow>
              let pl = (if queried then parseShadowsocksPlugin q else ([], [])) in
              case shadowsocksParts link of
                Inl e \<Rightarrow> Inl e
              | Inr ((server, port), method, password) \<Rightarrow>
                  (case validateProxyEndpoint server port of
                     Inl e \<Rightarrow> Inl e
                   | Inr u \<Rightarrow> Inr (shadowsocksNode name server port method password pl)))"

definition parseProxyLink :: "parserLib \<Rightarrow> string \<Rightarrow> parseError + ParsedNode" where
  "parseProxyLink lib link0 =
     (let link = TrimSpace link0 in
      if HasPrefix link ''vmess://'' then parseVmessLink lib link
      else if HasPrefix link ''vless://'' then parseStandardLink link ''vless''
      else if HasPrefix link ''trojan://'' then parseStandardLink link ''trojan''
      else if HasPrefix link ''ss://'' then parseShadowsocksLink link
      else if HasPrefix link ''hysteria2://'' \<or> HasPrefix link ''hy2://'' then parseStandardLink link ''hysteria2''
      else if HasPrefix link ''tuic://'' then parseStandardLink link ''tuic''
      else Inl (ParseFailed ''scheme''))"

definition parseProxyLinks :: "parserLib \<Rightarrow> string \<Rightarrow> parseError + ParsedNode list" where
  "parseProxyLinks lib content = parseLines (parseProxyLink lib) (SplitByte content CHR 0x0A)"

section \<open>Clash\<close>

definition looksLikeYAML :: "string \<Rightarrow> bool" where
  "looksLikeYAML s0 =
     (let s = TrimSpace s0 in
      Contains s ''proxies:'' \<or> Contains s ''proxy-groups:'' \<or> HasPrefix s ''port:'' \<or> HasPrefix s ''mixed-port:'' \<or>
      HasPrefix s ''#'' \<or> HasPrefix s ''---'')"

text \<open>The value of the first member \<open>proxies\<close> or \<open>Proxy\<close>; items that do not decode are left out.\<close>

fun findProxies :: "yamlNode list \<Rightarrow> yamlNode option" where
  "findProxies (k # v # rest) = (if yValue k = ''proxies'' \<or> yValue k = ''Proxy'' then Some v else findProxies rest)"
| "findProxies _ = None"

definition extractProxiesFromNode :: "parserLib \<Rightarrow> yamlNode \<Rightarrow> gomap list" where
  "extractProxiesFromNode lib doc =
     (let items = (\<lambda>root. case findProxies (yContent root) of
            None \<Rightarrow> []
          | Some v \<Rightarrow> if yKind v \<noteq> SequenceNode then [] else concat (map (\<lambda>n. case plDecode lib n of Some m \<Rightarrow> [m] | None \<Rightarrow> []) (yContent v))) in
      if yKind doc = DocumentNode \<and> yContent doc \<noteq> [] then items (hd (yContent doc))
      else if yKind doc = MappingNode then items doc
      else [])"

definition clashTypes :: "string list" where
  "clashTypes = [''vmess'', ''vless'', ''trojan'', ''shadowsocks'', ''hysteria'', ''hysteria2'', ''tuic'', ''anytls'', ''http'', ''socks5'']"

definition parseClashProxy :: "parserLib \<Rightarrow> gomap \<Rightarrow> parseError + ParsedNode" where
  "parseClashProxy lib proxy =
     (let name = getStr proxy ''name''; typ0 = getStr proxy ''type''; server = getStr proxy ''server'' in
      if typ0 = [] \<or> server = [] then Inl (ParseFailed ''missing type or server'')
      else
        (case parseProxyPort (map_of proxy ''port'') of
           Inl e \<Rightarrow> Inl e
         | Inr port \<Rightarrow>
             (case validateProxyEndpoint server port of
                Inl e \<Rightarrow> Inl e
              | Inr u \<Rightarrow>
                  (let typ1 = plLower lib typ0; typ = (if typ1 = ''ss'' then ''shadowsocks'' else typ1) in
                   if typ = ''ssr'' \<or> typ = ''shadowsocksr'' then Inl (ParseFailed ''shadowsocksr'')
                   else if typ \<notin> set clashTypes then Inl (ParseFailed ''unsupported type'')
                   else Inr \<lparr>nName = name, nType = typ, nServer = server, nPort = port, nRaw = proxy,
                             nUsername = [], nPassword = []\<rparr>))))"

fun parseClashProxies :: "parserLib \<Rightarrow> gomap list \<Rightarrow> parseError + ParsedNode list" where
  "parseClashProxies lib [] = Inr []"
| "parseClashProxies lib (p # ps) =
     (case parseClashProxy lib p of
        Inl InvalidEndpoint \<Rightarrow> Inl InvalidEndpoint
      | Inl e \<Rightarrow> parseClashProxies lib ps
      | Inr n \<Rightarrow> map_sum id ((#) n) (parseClashProxies lib ps))"

definition parseClash :: "parserLib \<Rightarrow> string \<Rightarrow> parseError + ParsedNode list" where
  "parseClash lib data0 =
     (let data = (if looksLikeYAML (TrimSpace data0) then data0
                  else (case tryBase64Decode (TrimSpace data0) of
                          Some d \<Rightarrow> if looksLikeYAML d then d else data0
                        | None \<Rightarrow> data0)) in
      case plYaml lib data of
        None \<Rightarrow> Inl (ParseFailed ''yaml'')
      | Some doc \<Rightarrow> parseClashProxies lib (extractProxiesFromNode lib doc))"

section \<open>sing-box\<close>

definition singBoxProxyTypes :: "string list" where
  "singBoxProxyTypes = [''vmess'', ''vless'', ''trojan'', ''shadowsocks'', ''hysteria2'', ''hysteria'', ''tuic'', ''anytls'', ''socks'', ''http'']"

text \<open>A text field that is copied under another name when it is not empty.\<close>

definition copyStr :: "gomap \<Rightarrow> string \<Rightarrow> string \<Rightarrow> gomap \<Rightarrow> gomap" where
  "copyStr from src dst m = (let v = getStr from src in putIf (v \<noteq> []) dst (GStr v) m)"

definition singBoxReality :: "gomap \<Rightarrow> gomap" where
  "singBoxReality reality = copyStr reality ''short_id'' ''short-id'' (copyStr reality ''public_key'' ''public-key'' [])"

definition applySingBoxTLS :: "gomap \<Rightarrow> gomap \<Rightarrow> gomap" where
  "applySingBoxTLS ob raw =
     (case asMap (map_of ob ''tls'') of
        None \<Rightarrow> raw
      | Some tlsObj \<Rightarrow>
          if \<not> getBool tlsObj ''enabled'' then raw
          else
            (let raw1 = copyStr tlsObj ''server_name'' ''sni'' (put ''tls'' (GBool True) raw);
                 raw2 = putIf (getBool tlsObj ''insecure'') ''skip-cert-verify'' (GBool True) raw1;
                 raw3 = (case asArr (map_of tlsObj ''alpn'') of
                           Some alpn \<Rightarrow> putIf (alpn \<noteq> []) ''alpn'' (GArr alpn) raw2
                         | None \<Rightarrow> raw2);
                 raw4 = (case asMap (map_of tlsObj ''utls'') of
                           Some utls \<Rightarrow> copyStr utls ''fingerprint'' ''client-fingerprint'' raw3
                         | None \<Rightarrow> raw3) in
             case asMap (map_of tlsObj ''reality'') of
               Some reality \<Rightarrow> put ''reality-opts'' (GMap (singBoxReality reality)) raw4
             | None \<Rightarrow> raw4))"

definition singBoxWsOpts :: "gomap \<Rightarrow> gomap" where
  "singBoxWsOpts transport =
     (let opts = copyStr transport ''path'' ''path'' [] in
      case asMap (map_of transport ''headers'') of Some h \<Rightarrow> put ''headers'' (GMap h) opts | None \<Rightarrow> opts)"

definition singBoxH2Opts :: "gomap \<Rightarrow> gomap" where
  "singBoxH2Opts transport =
     (let opts = copyStr transport ''path'' ''path'' []; host = getStr transport ''host'' in
      case asArr (map_of transport ''host'') of
        Some (x # l) \<Rightarrow> put ''host'' (GArr (x # l)) opts
      | _ \<Rightarrow> putIf (host \<noteq> []) ''host'' (GArr [GStr host]) opts)"

definition applySingBoxTransport :: "parserLib \<Rightarrow> gomap \<Rightarrow> gomap \<Rightarrow> gomap" where
  "applySingBoxTransport lib ob raw =
     (case asMap (map_of ob ''transport'') of
        None \<Rightarrow> raw
      | Some transport \<Rightarrow>
          (let ttype = plLower lib (getStr transport ''type'') in
           if ttype = ''ws'' then put ''ws-opts'' (GMap (singBoxWsOpts transport)) (put ''network'' (GStr ''ws'') raw)
           else if ttype = ''grpc'' then
             put ''grpc-opts'' (GMap (copyStr transport ''service_name'' ''grpc-service-name'' [])) (put ''network'' (GStr ''grpc'') raw)
           else if ttype = ''http'' then put ''h2-opts'' (GMap (singBoxH2Opts transport)) (put ''network'' (GStr ''h2'') raw)
           else if ttype = ''httpupgrade'' then
             put ''ws-opts'' (GMap (singBoxWsOpts transport)) (put ''network'' (GStr ''httpupgrade'') raw)
           else putIf (ttype \<noteq> []) ''network'' (GStr ttype) raw))"

definition copyCredentials :: "gomap \<Rightarrow> gomap \<Rightarrow> gomap" where
  "copyCredentials ob raw = copyStr ob ''password'' ''password'' (copyStr ob ''username'' ''username'' raw)"

definition singBoxFields :: "parserLib \<Rightarrow> string \<Rightarrow> gomap \<Rightarrow> gomap \<Rightarrow> gomap" where
  "singBoxFields lib typ ob raw =
     (let keep = (\<lambda>k. put k (GStr (getStr ob k))); tls = applySingBoxTLS ob; transport = applySingBoxTransport lib ob in
      if typ = ''vmess'' then
        transport (tls (copyStr ob ''security'' ''cipher'' (put ''alterId'' (GInt (getInt ob ''alter_id'')) (keep ''uuid'' raw))))
      else if typ = ''vless'' then transport (tls (copyStr ob ''flow'' ''flow'' (keep ''uuid'' raw)))
      else if typ = ''trojan'' then transport (tls (keep ''password'' raw))
      else if typ = ''shadowsocks'' then
        (let raw1 = keep ''password'' (put ''cipher'' (GStr (getStr ob ''method'')) raw) in
         if getStr ob ''plugin'' \<noteq> [] then copyStr ob ''plugin_opts'' ''plugin-opts-raw'' (copyStr ob ''plugin'' ''plugin'' raw1)
         else raw1)
      else if typ = ''hysteria2'' \<or> typ = ''anytls'' then tls (keep ''password'' raw)
      else if typ = ''hysteria'' then tls (copyStr ob ''auth_str'' ''auth-str'' raw)
      else if typ = ''tuic'' then
        tls (copyStr ob ''congestion_control'' ''congestion-controller'' (keep ''password'' (keep ''uuid'' raw)))
      else if typ = ''http'' \<or> typ = ''socks'' then copyCredentials ob raw
      else raw)"

definition singBoxOutboundToNode :: "parserLib \<Rightarrow> gomap \<Rightarrow> string \<Rightarrow> ParsedNode option" where
  "singBoxOutboundToNode lib ob typ =
     (let server = getStr ob ''server'' in
      case parseProxyPort (map_of ob ''server_port'') of
        Inl e \<Rightarrow> None
      | Inr port \<Rightarrow>
          (case validateProxyEndpoint server port of
             Inl e \<Rightarrow> None
           | Inr u \<Rightarrow>
               (let tag = getStr ob ''tag''; name = (if tag = [] then server else tag);
                    nodeType = (if typ = ''socks'' then ''socks5'' else typ);
                    raw = [(''type'', GStr nodeType), (''name'', GStr name), (''server'', GStr server), (''port'', GInt port)] in
                Some \<lparr>nName = name, nType = nodeType, nServer = server, nPort = port, nRaw = singBoxFields lib typ ob raw,
                      nUsername = [], nPassword = []\<rparr>)))"

fun singBoxNodes :: "parserLib \<Rightarrow> gomap list \<Rightarrow> parseError + ParsedNode list" where
  "singBoxNodes lib [] = Inr []"
| "singBoxNodes lib (ob # obs) =
     (let typ = plLower lib (getStr ob ''type'') in
      if typ \<notin> set singBoxProxyTypes then singBoxNodes lib obs
      else
        (case parseProxyPort (map_of ob ''server_port'') of
           Inl e \<Rightarrow> Inl e
         | Inr port \<Rightarrow>
             (case validateProxyEndpoint (getStr ob ''server'') port of
                Inl e \<Rightarrow> Inl e
              | Inr u \<Rightarrow>
                  (case singBoxOutboundToNode lib ob typ of
                     None \<Rightarrow> Inl (ParseFailed ''cannot convert'')
                   | Some n \<Rightarrow> map_sum id ((#) n) (singBoxNodes lib obs)))))"

text \<open>
  The struct with the one field \<open>outbounds\<close>: names match without regard to case, where \<open>encoding/json\<close> also reads the
  long s as an s. A document that repeats the member is read as its last value.
\<close>

fun foldLongS :: "string \<Rightarrow> string" where
  "foldLongS [] = []"
| "foldLongS [c] = [c]"
| "foldLongS (c # d # s) = (if c = CHR 0xC5 \<and> d = CHR 0xBF then CHR ''s'' # foldLongS s else c # foldLongS (d # s))"

definition isOutboundsKey :: "string \<Rightarrow> bool" where
  "isOutboundsKey k \<longleftrightarrow> ToLower (foldLongS k) = ''outbounds''"

text \<open>\<open>None\<close> is an error; the inner one a nil slice.\<close>

definition unmarshalOutbounds :: "parserLib \<Rightarrow> json \<Rightarrow> gomap list option option" where
  "unmarshalOutbounds lib j =
     (case j of
        JNull \<Rightarrow> Some None
      | JObj kvs \<Rightarrow>
          (case find (\<lambda>(k, v). isOutboundsKey k) (rev kvs) of
             None \<Rightarrow> Some None
           | Some (k, JNull) \<Rightarrow> Some None
           | Some (k, JArr items) \<Rightarrow> map_option Some (those (map (unmarshalMap (plFloat lib)) items))
           | Some _ \<Rightarrow> None)
      | _ \<Rightarrow> None)"

definition parseSingBoxJSON :: "parserLib \<Rightarrow> string \<Rightarrow> parseError + ParsedNode list" where
  "parseSingBoxJSON lib data =
     (if TrimSpace data = [] then Inl (ParseFailed ''empty'')
      else
        (case Option.bind (parseJSON data) (unmarshalOutbounds lib) of
           None \<Rightarrow> Inl (ParseFailed ''json'')
         | Some None \<Rightarrow> Inl (ParseFailed ''no outbounds'')
         | Some (Some obs) \<Rightarrow>
             (case singBoxNodes lib obs of
                Inl e \<Rightarrow> Inl e
              | Inr nodes \<Rightarrow> if nodes = [] then Inl (ParseFailed ''no proxies'') else Inr nodes)))"

section \<open>Choosing the format\<close>

text \<open>The first result if it has nodes, else the second.\<close>

definition nodesOr :: "parseError + ParsedNode list \<Rightarrow> parseError + ParsedNode list \<Rightarrow> parseError + ParsedNode list" where
  "nodesOr a b = (case a of Inr (n # ns) \<Rightarrow> Inr (n # ns) | _ \<Rightarrow> b)"

definition parseDecoded :: "parserLib \<Rightarrow> string \<Rightarrow> parseError + ParsedNode list" where
  "parseDecoded lib decoded =
     (let s = TrimSpace decoded in
      if s = [] then Inl (ParseFailed ''empty after base64'')
      else if HasPrefix s ''{'' then parseSingBoxJSON lib decoded
      else if looksLikeYAML s then parseClash lib decoded
      else if looksLikeProxyLinks s then parseProxyLinks lib s
      else nodesOr (parsePlain lib decoded) (Inl (ParseFailed ''unknown format'')))"

definition parseAutoDetect :: "parserLib \<Rightarrow> string \<Rightarrow> parseError + ParsedNode list" where
  "parseAutoDetect lib data =
     (let content = TrimSpace data in
      if content = [] then Inl (ParseFailed ''empty'')
      else if HasPrefix content ''{'' then parseSingBoxJSON lib data
      else nodesOr (if looksLikeYAML content then parseClash lib data else Inr [])
        (if looksLikeProxyLinks content then parseProxyLinks lib content
         else nodesOr (parsePlain lib data)
           (case tryBase64Decode content of
              None \<Rightarrow> Inl (ParseFailed ''unknown format'')
            | Some decoded \<Rightarrow> parseDecoded lib decoded)))"

definition Parse :: "parserLib \<Rightarrow> string \<Rightarrow> string \<Rightarrow> parseError + ParsedNode list" where
  "Parse lib data format =
     (let f = plLower lib (TrimSpace format); content = TrimSpace data in
      if f = ''singbox'' \<or> f = ''sing-box'' then parseSingBoxJSON lib data
      else if f = ''clash'' then nodesOr (parseClash lib data) (parseAutoDetect lib data)
      else if f = ''base64'' then nodesOr (parseBase64 lib data) (parseAutoDetect lib data)
      else if f = ''links'' then
        nodesOr (if looksLikeProxyLinks content then parseProxyLinks lib content else Inr []) (parseAutoDetect lib data)
      else parseAutoDetect lib data)"

definition ParseSingleLink :: "parserLib \<Rightarrow> string \<Rightarrow> parseError + ParsedNode" where
  "ParseSingleLink lib link0 =
     (let link = TrimSpace link0 in
      if link = [] then Inl (ParseFailed ''empty'')
      else if looksLikeProxyLinks link then parseProxyLink lib link
      else
        (case parsePlain lib link of
           Inl e \<Rightarrow> Inl e
         | Inr [] \<Rightarrow> Inl (ParseFailed ''no node'')
         | Inr (n # ns) \<Rightarrow> Inr n))"

end
