(* ===== verification/ParserSpec.thy ===== *)
theory ParserSpec
  imports Parser
begin

text \<open>
  What the parsers promise: every node they return can be dialled or becomes an outbound, a list with an invalid
  endpoint is refused as a whole, links in the formats of share links are read back exactly, and which fields are lost.
\<close>

section \<open>Lists\<close>

definition significant :: "string list \<Rightarrow> string list" where
  "significant ls = filter (\<lambda>l. l \<noteq> [] \<and> \<not> HasPrefix l ''#'') (map TrimSpace ls)"

definition goodNodes :: "(string \<Rightarrow> parseError + ParsedNode) \<Rightarrow> string list \<Rightarrow> ParsedNode list" where
  "goodNodes one ls = concat (map (\<lambda>l. case one l of Inr n \<Rightarrow> [n] | Inl e \<Rightarrow> []) ls)"

lemma parseLines_spec:
  "parseLines one ls = (if Inl InvalidEndpoint \<in> one ` set (significant ls) then Inl InvalidEndpoint
     else Inr (goodNodes one (significant ls)))"
proof (induction ls)
  case Nil
  then show ?case by (simp add: significant_def goodNodes_def)
next
  case (Cons raw ls)
  show ?case
  proof (cases "TrimSpace raw = [] \<or> HasPrefix (TrimSpace raw) ''#''")
    case True
    then have "significant (raw # ls) = significant ls" by (auto simp: significant_def)
    with True Cons.IH show ?thesis by simp
  next
    case False
    then have s: "significant (raw # ls) = TrimSpace raw # significant ls" by (simp add: significant_def)
    consider e where "one (TrimSpace raw) = Inl e" "e \<noteq> InvalidEndpoint" | "one (TrimSpace raw) = Inl InvalidEndpoint"
      | n where "one (TrimSpace raw) = Inr n"
      by (cases "one (TrimSpace raw)") auto
    then show ?thesis
    proof cases
      case (1 e)
      with False Cons.IH show ?thesis by (cases e) (auto simp: s goodNodes_def)
    next
      case 2
      with False show ?thesis by (simp add: s)
    next
      case (3 n)
      with False Cons.IH show ?thesis by (simp add: s goodNodes_def)
    qed
  qed
qed

lemma parseLines_mem: "parseLines one ls = Inr ns \<Longrightarrow> n \<in> set ns \<Longrightarrow> \<exists>l. one l = Inr n"
  by (force simp: parseLines_spec goodNodes_def split: if_splits sum.splits)

section \<open>Every node is usable\<close>

definition nodeTypes :: "string list" where
  "nodeTypes = [''vmess'', ''vless'', ''trojan'', ''shadowsocks'', ''hysteria'', ''hysteria2'', ''tuic'', ''anytls'', ''http'', ''socks5'']"

definition usableNode :: "ParsedNode \<Rightarrow> bool" where
  "usableNode n \<longleftrightarrow> 1 \<le> nPort n \<and> nPort n \<le> 65535 \<and> TrimSpace (nServer n) \<noteq> [] \<and> nType n \<in> set nodeTypes"

lemma endpoint_ok: "validateProxyEndpoint h p = Inr u \<Longrightarrow> TrimSpace h \<noteq> [] \<and> 1 \<le> p \<and> p \<le> 65535"
  by (auto simp: validateProxyEndpoint_def validatePort_def split: if_splits)

lemma splitDirect_usable: "splitDirectHostPort a = Inr (h, p) \<Longrightarrow> TrimSpace h \<noteq> [] \<and> 1 \<le> p \<and> p \<le> 65535"
  using endpoint_ok by (fastforce simp: splitDirectHostPort_def split: option.splits sum.splits prod.splits)

lemma plainLine_usable:
  assumes "parseDirectPlainLine lib line = Inr (proto, h, p, u, w)"
  shows "TrimSpace h \<noteq> [] \<and> 1 \<le> p \<and> p \<le> 65535 \<and> proto \<in> {''http'', ''socks5''}"
proof (cases "directScheme (plLower lib line)")
  case None
  with assms have "splitDirectHostPort line = Inr (h, p)" "proto = ''http''"
    by (cases "splitDirectHostPort line"; auto simp: parseDirectPlainLine_def)+
  with splitDirect_usable show ?thesis by simp
next
  case (Some s)
  then have "s \<in> {''http'', ''socks5''}" by (auto simp: directScheme_def split: if_splits)
  with Some assms endpoint_ok show ?thesis
    by (fastforce simp: parseDirectPlainLine_def split: option.splits prod.splits sum.splits if_splits)
qed

lemma plain_usable: "map_sum id plainNode (parseDirectPlainLine lib line) = Inr n \<Longrightarrow> usableNode n"
proof -
  assume a: "map_sum id plainNode (parseDirectPlainLine lib line) = Inr n"
  then obtain proto h p u w where r: "parseDirectPlainLine lib line = Inr (proto, h, p, u, w)"
    by (cases "parseDirectPlainLine lib line") auto
  with a plainLine_usable [OF r] show "usableNode n" by (auto simp: plainNode_def usableNode_def nodeTypes_def)
qed

lemma vmess_usable: "parseVmessLink lib link = Inr n \<Longrightarrow> usableNode n"
  using endpoint_ok by (fastforce simp: parseVmessLink_def vmessNode_def Let_def usableNode_def nodeTypes_def split: option.splits sum.splits)

lemma standard_usable: "parseStandardLink link typ = Inr n \<Longrightarrow> typ \<in> set nodeTypes \<Longrightarrow> usableNode n"
  using endpoint_ok by (fastforce simp: parseStandardLink_def standardNode_def Let_def usableNode_def split: option.splits sum.splits prod.splits)

lemma shadowsocks_usable:
  assumes "parseShadowsocksLink link = Inr n"
  shows "usableNode n"
proof -
  obtain link1 frag named l q queried where c: "CutByte CHR ''#'' (TrimPrefix link ''ss://'') = (link1, frag, named)"
    "CutByte CHR ''?'' link1 = (l, q, queried)" by (metis prod_cases3)
  with assms obtain server port cipher password where p: "shadowsocksParts l = Inr ((server, port), cipher, password)"
    by (cases "shadowsocksParts l") (auto simp: parseShadowsocksLink_def Let_def)
  with assms c obtain u where "validateProxyEndpoint server port = Inr u"
    by (cases "validateProxyEndpoint server port") (simp_all add: parseShadowsocksLink_def Let_def)
  moreover from this assms c p have "nServer n = server" "nPort n = port" "nType n = ''shadowsocks''"
    by (auto simp: parseShadowsocksLink_def Let_def shadowsocksNode_def)
  ultimately show ?thesis using endpoint_ok by (simp add: usableNode_def nodeTypes_def)
qed

lemma link_usable: "parseProxyLink lib link = Inr n \<Longrightarrow> usableNode n"
  using vmess_usable shadowsocks_usable standard_usable
  by (auto simp: parseProxyLink_def Let_def nodeTypes_def split: if_splits)

lemma clashProxy_usable: "parseClashProxy lib p = Inr n \<Longrightarrow> usableNode n"
  using endpoint_ok
  by (fastforce simp: parseClashProxy_def Let_def usableNode_def clashTypes_def nodeTypes_def split: sum.splits if_splits)

lemma clash_usable: "parseClashProxies lib ps = Inr ns \<Longrightarrow> n \<in> set ns \<Longrightarrow> usableNode n"
proof (induction ps arbitrary: ns)
  case (Cons p ps)
  then show ?case
    using clashProxy_usable by (cases "parseClashProxies lib ps") (auto split: sum.splits parseError.splits)
qed simp

lemma outbound_usable: "singBoxOutboundToNode lib ob typ = Some n \<Longrightarrow> typ \<in> set singBoxProxyTypes \<Longrightarrow> usableNode n"
  using endpoint_ok
  by (fastforce simp: singBoxOutboundToNode_def Let_def usableNode_def singBoxProxyTypes_def nodeTypes_def split: sum.splits)

lemma singBox_usable: "singBoxNodes lib obs = Inr ns \<Longrightarrow> n \<in> set ns \<Longrightarrow> usableNode n"
proof (induction obs arbitrary: ns)
  case (Cons ob obs)
  then show ?case
    using outbound_usable by (cases "singBoxNodes lib obs") (auto simp: Let_def split: sum.splits option.splits if_splits)
qed simp

lemma nodesOr_mem: "nodesOr a b = Inr ns \<Longrightarrow> a = Inr ns \<or> b = Inr ns"
  by (auto simp: nodesOr_def split: sum.splits list.splits)

definition onlyUsable :: "parseError + ParsedNode list \<Rightarrow> bool" where
  "onlyUsable r \<longleftrightarrow> (case r of Inl e \<Rightarrow> True | Inr ns \<Rightarrow> list_all usableNode ns)"

lemma onlyUsable_or [simp]: "onlyUsable a \<Longrightarrow> onlyUsable b \<Longrightarrow> onlyUsable (nodesOr a b)"
  by (auto simp: onlyUsable_def nodesOr_def split: sum.splits list.splits)

lemma onlyUsable_simps [simp]: "onlyUsable (Inl e)" "onlyUsable (Inr [])"
  by (simp_all add: onlyUsable_def)

lemma onlyUsable_parsers [simp]:
  "onlyUsable (parsePlain lib data)" "onlyUsable (parseProxyLinks lib data)" "onlyUsable (parseClash lib data)"
  "onlyUsable (parseSingBoxJSON lib data)" "onlyUsable (parseBase64 lib data)"
proof -
  show p: "onlyUsable (parsePlain lib data)" for data
    using parseLines_mem plain_usable by (fastforce simp: onlyUsable_def parsePlain_def list_all_iff split: sum.split)
  show "onlyUsable (parseProxyLinks lib data)"
    using parseLines_mem link_usable by (fastforce simp: onlyUsable_def parseProxyLinks_def list_all_iff split: sum.split)
  show "onlyUsable (parseClash lib data)"
    using clash_usable by (fastforce simp: onlyUsable_def parseClash_def Let_def list_all_iff split: sum.split option.split)
  show "onlyUsable (parseSingBoxJSON lib data)"
    using singBox_usable
    by (fastforce simp: onlyUsable_def parseSingBoxJSON_def list_all_iff split: sum.splits option.splits if_splits)
  show "onlyUsable (parseBase64 lib data)" using p by (simp add: parseBase64_def Let_def split: option.split)
qed

lemma onlyUsable_Parse: "onlyUsable (Parse lib data format)"
proof -
  have d: "onlyUsable (parseDecoded lib s)" for s by (simp add: parseDecoded_def Let_def)
  have "onlyUsable (parseAutoDetect lib data)"
    by (simp add: parseAutoDetect_def Let_def d split: option.split)
  then show ?thesis by (simp add: Parse_def Let_def)
qed

text \<open>
  C19: Whatever the data of a subscription, every node read from it can be used: its port is between 1 and 65535, its
  server is not blank, its type is one of the ten supported ones, and it is either dialled directly or becomes an
  outbound; the only thing left that can make building the outbound fail is a transport that is not supported.
\<close>

theorem parsed_nodes_usable:
  assumes "Parse lib data format = Inr ns" "n \<in> set ns"
  shows "1 \<le> nPort n \<and> nPort n \<le> 65535 \<and> TrimSpace (nServer n) \<noteq> [] \<and>
    (isl (buildOutbound n tag) \<longleftrightarrow> IsDirect n \<or> nType n \<in> {''vmess'', ''vless'', ''trojan''} \<and> \<not> transportKnown (nRaw n))"
proof -
  have "onlyUsable (Inr ns)" using onlyUsable_Parse [of lib data format] assms(1) by simp
  with assms(2) have u: "usableNode n" by (auto simp: onlyUsable_def list_all_iff)
  then show ?thesis unfolding buildOutbound_isl by (auto simp: usableNode_def nodeTypes_def IsDirect_def)
qed

definition plainLib :: parserLib where
  "plainLib = \<lparr>plLower = ToLower, plFloat = (\<lambda>l. None), plYaml = (\<lambda>s. None), plDecode = (\<lambda>n. None)\<rparr>"

lemma sample_plain: "Parse plainLib ''a.test:80'' ''plain'' = Inr [plainNode (''http'', ''a.test'', 80, [], [])]"
  by code_simp

theorem parsed_nodes_usable_witness:
  "nPort (plainNode (''http'', ''a.test'', 80, [], [])) = 80 \<and> isl (buildOutbound (plainNode (''http'', ''a.test'', 80, [], [])) ''t'')"
  using parsed_nodes_usable [OF sample_plain, of "plainNode (''http'', ''a.test'', 80, [], [])" "''t''"]
  by (simp add: plainNode_def IsDirect_def)

section \<open>Invalid endpoints\<close>

text \<open>
  C20: A list of plain lines or of links is read line by line, without blank lines and comments, in their order, and a
  line that does not parse is left out; but one line whose server or port is invalid refuses the whole list, so that a
  damaged list is never taken for one that dropped nodes.
\<close>

theorem lists_fail_closed:
  "parsePlain lib content =
     (if Inl InvalidEndpoint \<in> parseDirectPlainLine lib ` set (significant (SplitByte content CHR 0x0A)) then Inl InvalidEndpoint
      else Inr (map plainNode (concat (map (\<lambda>l. case parseDirectPlainLine lib l of Inr r \<Rightarrow> [r] | Inl e \<Rightarrow> [])
        (significant (SplitByte content CHR 0x0A)))))) \<and>
   parseProxyLinks lib content =
     (if Inl InvalidEndpoint \<in> parseProxyLink lib ` set (significant (SplitByte content CHR 0x0A)) then Inl InvalidEndpoint
      else Inr (concat (map (\<lambda>l. case parseProxyLink lib l of Inr n \<Rightarrow> [n] | Inl e \<Rightarrow> [])
        (significant (SplitByte content CHR 0x0A)))))"
proof -
  let ?f = "parseDirectPlainLine lib" and ?ls = "significant (SplitByte content CHR 0x0A)"
  have "Inl InvalidEndpoint \<in> (\<lambda>l. map_sum id plainNode (?f l)) ` A \<longleftrightarrow> Inl InvalidEndpoint \<in> ?f ` A" for A
  proof -
    have "Inl InvalidEndpoint = map_sum id plainNode (?f l) \<longleftrightarrow> Inl InvalidEndpoint = ?f l" for l
      by (cases "?f l") auto
    then show ?thesis by (simp add: image_iff)
  qed
  moreover have "goodNodes (\<lambda>l. map_sum id plainNode (?f l)) ls =
      map plainNode (concat (map (\<lambda>l. case ?f l of Inr r \<Rightarrow> [r] | Inl e \<Rightarrow> []) ls))" for ls
    by (induction ls) (auto simp: goodNodes_def split: sum.split)
  ultimately show ?thesis by (simp add: parsePlain_def parseProxyLinks_def parseLines_spec goodNodes_def)
qed

section \<open>Fields that are lost\<close>

text \<open>The ALPN list of the TLS section of an outbound.\<close>

definition outboundALPN :: "gomap \<Rightarrow> goval option" where
  "outboundALPN out = (case asMap (map_of out ''tls'') of Some tls \<Rightarrow> map_of tls ''alpn'' | None \<Rightarrow> None)"

lemma outboundALPN_put [simp]: "k \<noteq> ''tls'' \<Longrightarrow> outboundALPN (put k v out) = outboundALPN out"
  by (simp add: outboundALPN_def)

lemma tls_noALPN:
  assumes "asArr (map_of raw ''alpn'') = None"
  shows "map_of (tlsReality raw (tlsFingerprint raw (tlsALPN raw (tlsInsecure raw
     (tlsServerName raw [(''enabled'', GBool True)]))))) ''alpn'' = None"
  using assms by (simp add: tls_layers tlsALPN_def)

lemma applyTLS_noALPN:
  "asArr (map_of raw ''alpn'') = None \<Longrightarrow> outboundALPN out = None \<Longrightarrow> outboundALPN (applyTLS raw out) = None"
  by (simp add: applyTLS_def outboundALPN_def asMap_def tls_noALPN)

lemma forceTLS_noALPN:
  "asArr (map_of raw ''alpn'') = None \<Longrightarrow> outboundALPN out = None \<Longrightarrow> outboundALPN (forceTLS raw out) = None"
  by (simp add: forceTLS_def applyTLS_noALPN)

lemma applyTransport_noALPN: "applyTransport raw out = Inr out' \<Longrightarrow> outboundALPN out' = outboundALPN out"
  using applyTransport_keeps [of raw out out' "''tls''"] by (simp add: outboundALPN_def)

lemma build_noALPN:
  assumes "buildOutbound n tag = Inr out" "asArr (map_of (nRaw n) ''alpn'') = None"
  shows "outboundALPN out = None"
proof -
  have start: "outboundALPN [(''tag'', t), (''server'', v), (''server_port'', p)] = None" for t v p
    by (simp add: outboundALPN_def asMap_def)
  consider "nType n \<in> {''vmess'', ''vless'', ''trojan''}" | "nType n = ''shadowsocks''" | "nType n = ''hysteria''"
    | "nType n \<in> {''hysteria2'', ''tuic'', ''anytls''}"
    using assms by (auto simp: buildOutbound_def Let_def split: if_split_asm)
  then show ?thesis
  proof cases
    case 1
    with assms show ?thesis
      by (auto simp: buildOutbound_def Let_def applyTLS_noALPN forceTLS_noALPN start dest!: applyTransport_noALPN)
  next
    case 2
    with assms start show ?thesis by (auto simp: buildOutbound_def shadowsocksOutbound_def Let_def split: option.split)
  next
    case 3
    with assms start show ?thesis by (auto simp: buildOutbound_def hysteriaOutbound_def Let_def intro!: forceTLS_noALPN)
  next
    case 4
    with assms start show ?thesis by (auto simp: buildOutbound_def Let_def intro!: forceTLS_noALPN)
  qed
qed

lemma putIf_other [simp]: "k \<noteq> k' \<Longrightarrow> map_of (putIf b k v m) k' = map_of m k'"
  by (simp add: putIf_def)

lemma link_steps:
  "map_of (linkCredentials typ user raw) ''alpn'' = map_of raw ''alpn''"
  "map_of (linkReality params raw) ''alpn'' = map_of raw ''alpn''"
  "map_of (linkTransport params raw) ''alpn'' = map_of raw ''alpn''"
  "map_of (linkExtras typ params raw) ''alpn'' = map_of raw ''alpn''"
  by (simp_all add: linkCredentials_def linkReality_def linkTransport_def linkExtras_def Let_def split: option.split)

lemma linkTLS_alpn: "asArr (map_of raw ''alpn'') = None \<Longrightarrow> asArr (map_of (linkTLS typ params raw) ''alpn'') = None"
  by (simp add: linkTLS_def Let_def putIf_def asArr_def)

lemma standardNode_alpn: "asArr (map_of (nRaw (standardNode typ u host port)) ''alpn'') = None"
proof -
  have raw: "asArr None = None" by (simp add: asArr_def)
  show ?thesis by (simp add: standardNode_def Let_def link_steps linkTLS_alpn raw)
qed

text \<open>
  C22: The ALPN list of a share link never reaches the outbound. The parser keeps it as a \<open>[]string\<close>, the builder only
  looks for a \<open>[]interface{}\<close>, so whatever \<open>alpn\<close> the link asks for, the TLS section of the outbound has none.
\<close>

theorem link_alpn_lost:
  assumes "parseStandardLink link typ = Inr n" "buildOutbound n tag = Inr out"
  shows "outboundALPN out = None"
proof (rule build_noALPN [OF assms(2)])
  from assms(1) obtain u host port where "n = standardNode typ u host port"
    by (auto simp: parseStandardLink_def split: option.splits prod.splits sum.splits)
  then show "asArr (map_of (nRaw n) ''alpn'') = None" by (simp add: standardNode_alpn)
qed

definition alpnLink :: string where
  "alpnLink = ''trojan://pw@h.test:443?sni=s.test&alpn=h2,http/1.1#n''"

definition alpnURL :: goURL where
  "alpnURL = \<lparr>guUser = Some (''pw'', None), guHost = ''h.test:443'', guRawQuery = ''sni=s.test&alpn=h2,http/1.1'', guFragment = ''n''\<rparr>"

lemma alpnLink_parsed: "parseURL alpnLink = Some alpnURL"
  by code_simp

lemma alpnLink_node: "parseStandardLink alpnLink ''trojan'' = Inr (standardNode ''trojan'' alpnURL ''h.test'' 443)"
proof -
  have "urlHostPort (guHost alpnURL) = (''h.test'', ''443'')" "Atoi ''443'' = Some 443"
    "validateProxyEndpoint ''h.test'' 443 = Inr ()" by code_simp+
  then show ?thesis by (simp add: parseStandardLink_def alpnLink_parsed)
qed

theorem link_alpn_lost_witness:
  "\<exists>n out. parseStandardLink alpnLink ''trojan'' = Inr n \<and> map_of (nRaw n) ''alpn'' = Some (GStrs [''h2'', ''http/1.1'']) \<and>
    buildOutbound n ''t'' = Inr out \<and> outboundALPN out = None"
proof -
  let ?n = "standardNode ''trojan'' alpnURL ''h.test'' 443"
  have "\<not> isl (buildOutbound ?n ''t'')"
    unfolding buildOutbound_isl by code_simp
  then obtain out where o: "buildOutbound ?n ''t'' = Inr out" by (cases "buildOutbound ?n ''t''") auto
  moreover have "map_of (nRaw ?n) ''alpn'' = Some (GStrs [''h2'', ''http/1.1''])" by code_simp
  ultimately show ?thesis using alpnLink_node link_alpn_lost [OF alpnLink_node o] by blast
qed

section \<open>Links read back\<close>

definition encodedChar :: "char \<Rightarrow> bool" where
  "encodedChar c \<longleftrightarrow> c \<in> set stdAlphabet \<or> c = CHR ''=''"

lemma stdEncode_chars: "list_all encodedChar (stdEncode s)"
  using stdEnc.set_encode [of s] by (auto simp: stdEncode_def Let_def list_all_iff encodedChar_def)

lemma encodedChar_plain:
  assumes "encodedChar c"
  shows "graphic c" "c \<notin> {CHR 0x0D, CHR 0x0A, CHR 0x20, CHR ''#'', CHR ''?'', CHR ''@''}"
proof -
  have "list_all (\<lambda>c. graphic c \<and> c \<notin> {CHR 0x0D, CHR 0x0A, CHR 0x20, CHR ''#'', CHR ''?'', CHR ''@''}) (CHR ''='' # stdAlphabet)"
    by code_simp
  then show "graphic c" "c \<notin> {CHR 0x0D, CHR 0x0A, CHR 0x20, CHR ''#'', CHR ''?'', CHR ''@''}"
    using assms by (auto simp: list_all_iff encodedChar_def)
qed

lemma tryBase64_stdEncode: "tryBase64Decode (stdEncode s) = Some s"
proof -
  have c: "list_all (\<lambda>c. graphic c \<and> c \<noteq> CHR 0x0D \<and> c \<noteq> CHR 0x0A \<and> c \<noteq> CHR 0x20) (stdEncode s)"
    using stdEncode_chars [of s] encodedChar_plain by (auto simp: list_all_iff)
  then have "TrimSpace (stdEncode s) = stdEncode s" by (intro TrimSpace_all_graphic) (auto simp: list_all_iff)
  moreover have "filter (\<lambda>c. c \<noteq> CHR 0x0D \<and> c \<noteq> CHR 0x0A \<and> c \<noteq> CHR 0x20) (stdEncode s) = stdEncode s"
    using c by (auto simp: filter_id_conv list_all_iff)
  ultimately show ?thesis by (simp add: tryBase64Decode_def stdDecode_stdEncode firstSome_def)
qed

lemma CutByte_at: "c \<notin> set a \<Longrightarrow> CutByte c (a @ c # b) = (a, b, True)"
  by (induction a) auto

lemma CutByte_absent: "c \<notin> set a \<Longrightarrow> CutByte c a = (a, [], False)"
  by (induction a) auto

text \<open>The characters of a host name, and those of a node name that need no escape.\<close>

definition hostChar :: "char \<Rightarrow> bool" where
  "hostChar c \<longleftrightarrow> isASCIIUpper c \<or> isASCIILower c \<or> isDigitChar c \<or> c = CHR ''-'' \<or> c = CHR ''.''"

definition nameChar :: "char \<Rightarrow> bool" where
  "nameChar c \<longleftrightarrow> graphic c \<and> c \<noteq> CHR ''%'' \<and> c \<noteq> CHR ''+''"

lemma hostChar_plain:
  assumes "hostChar c"
  shows "graphic c" "c \<notin> {CHR '':'', CHR ''['', CHR '']'', CHR ''#'', CHR ''?'', CHR ''@''}"
  using assms by (auto simp: hostChar_def isASCIIUpper_def isASCIILower_def isDigitChar_def graphic_def)

lemma fmtInt_plain:
  assumes "0 \<le> p" "c \<in> set (fmtInt p)"
  shows "hostChar c"
  using assms natDigits_digit [of "nat p"] by (auto simp: fmtInt_def hostChar_def)

lemma unescape_name: "list_all nameChar s \<Longrightarrow> QueryUnescape s = Some s"
  unfolding QueryUnescape_def by (induction s) (auto simp: nameChar_def)

lemma drop_prefix: "TrimPrefix (''ss://'' @ s) ''ss://'' = s"
  by (simp add: TrimPrefix_def HasPrefix_def)

text \<open>A share link of a shadowsocks node in the first format.\<close>

definition shadowsocksLink :: "string \<Rightarrow> string \<Rightarrow> string \<Rightarrow> int \<Rightarrow> string \<Rightarrow> string" where
  "shadowsocksLink method password host port name =
     ''ss://'' @ stdEncode (method @ '':'' @ password) @ ''@'' @ JoinHostPort host (fmtInt port) @ ''#'' @ name"

lemma shadowsocksLink_trim:
  assumes "list_all nameChar name"
  shows "TrimSpace (shadowsocksLink method password host port name) = shadowsocksLink method password host port name"
proof (rule TrimSpace_graphic)
  let ?l = "shadowsocksLink method password host port name"
  show "?l \<noteq> []" "graphic (hd ?l)" by (simp_all add: shadowsocksLink_def graphic_def)
  have "last ?l = (if name = [] then CHR ''#'' else last name)" by (simp add: shadowsocksLink_def)
  moreover have "graphic (last name)" if "name \<noteq> []" using assms that by (auto simp: list_all_iff nameChar_def)
  ultimately show "graphic (last ?l)" by (simp add: graphic_def)
qed

lemma shadowsocksLink_parts:
  assumes "CHR '':'' \<notin> set method" "list_all hostChar host" "1 \<le> port" "port \<le> 65535"
  shows "shadowsocksParts (stdEncode (method @ '':'' @ password) @ ''@'' @ JoinHostPort host (fmtInt port)) =
    Inr ((host, port), method, password)"
proof -
  let ?e = "stdEncode (method @ '':'' @ password)"
  have h: "\<And>c. c \<in> set host \<Longrightarrow> c \<notin> {CHR '':'', CHR ''['', CHR '']'', CHR ''#'', CHR ''?'', CHR ''@''}"
    using assms(2) hostChar_plain(2) by (auto simp: list_all_iff)
  have p: "\<And>c. c \<in> set (fmtInt port) \<Longrightarrow> c \<notin> {CHR '':'', CHR ''['', CHR '']'', CHR ''#'', CHR ''?'', CHR ''@''}"
    using assms(3) fmtInt_plain [of port] hostChar_plain(2) by force
  have j: "JoinHostPort host (fmtInt port) = host @ '':'' @ fmtInt port" using h by (auto simp: JoinHostPort_def)
  have pl: "plainAddr host" "plainAddr (fmtInt port)" using h p by (auto simp: plainAddr_def)
  have at: "CHR ''@'' \<notin> set (host @ CHR '':'' # fmtInt port)" using h p by auto
  have split: "shadowsocksParts (e @ CHR ''@'' # t) = map_sum id (\<lambda>x. (x, methodPassword d)) (shadowsocksAddress t)"
    if "CHR ''@'' \<notin> set t" "tryBase64Decode e = Some d" for e t d
    using LastIndexByte_last [OF that(1), of e] that(2) by (simp add: shadowsocksParts_def Let_def nat_add_distrib)
  have "AtoiValue (fmtInt port) = port" using Atoi_fmtInt [of port] assms(3,4) by (simp add: AtoiValue_def)
  then have "shadowsocksAddress (host @ '':'' @ fmtInt port) = Inr (host, port)"
    using SplitHostPort_plain [OF pl] by (simp add: shadowsocksAddress_def)
  moreover have "methodPassword (method @ '':'' @ password) = (method, password)"
    using CutByte_at [OF assms(1), of password] by (simp add: methodPassword_def)
  ultimately show ?thesis
    using split [OF at tryBase64_stdEncode, of "method @ '':'' @ password"] by (simp add: j)
qed

lemma shadowsocks_roundtrip:
  assumes "CHR '':'' \<notin> set method" "list_all hostChar host" "host \<noteq> []" "1 \<le> port" "port \<le> 65535" "list_all nameChar name"
  shows "parseShadowsocksLink (shadowsocksLink method password host port name) =
    Inr (shadowsocksNode name host port method password ([], []))"
proof -
  let ?b = "stdEncode (method @ '':'' @ password) @ ''@'' @ JoinHostPort host (fmtInt port)"
  have e: "c \<notin> {CHR ''#'', CHR ''?'', CHR ''@''}" if "c \<in> set (stdEncode (method @ '':'' @ password))" for c
    using that stdEncode_chars [of "method @ '':'' @ password"] encodedChar_plain(2) by (auto simp: list_all_iff)
  have h: "c \<notin> {CHR ''#'', CHR ''?''}" if "c \<in> set host \<union> set (fmtInt port)" for c
    using that assms(2,4) fmtInt_plain [of port] hostChar_plain(2) [of c] by (auto simp: list_all_iff)
  have b: "CHR ''#'' \<notin> set ?b" "CHR ''?'' \<notin> set ?b" using e h by (auto simp: JoinHostPort_def)
  have c: "CutByte CHR ''#'' (TrimPrefix (shadowsocksLink method password host port name) ''ss://'') = (?b, name, True)"
    using CutByte_at [OF b(1), of name] by (simp add: shadowsocksLink_def TrimPrefix_def HasPrefix_def)
  have "TrimSpace host = host" using assms(2) hostChar_plain(1) by (intro TrimSpace_all_graphic) (auto simp: list_all_iff)
  then have v: "validateProxyEndpoint host port = Inr ()" using assms(3-5) by (simp add: validateProxyEndpoint_def validatePort_def)
  define body where "body = ?b"
  have q: "CutByte CHR ''?'' body = (body, [], False)" unfolding body_def by (rule CutByte_absent [OF b(2)])
  have p: "shadowsocksParts body = Inr ((host, port), method, password)"
    unfolding body_def by (rule shadowsocksLink_parts [OF assms(1,2,4,5)])
  show ?thesis
    by (simp add: parseShadowsocksLink_def c [folded body_def] q p unescape_name [OF assms(6)] v)
qed

text \<open>
  C21: The link of a shadowsocks node is read back exactly: for every method without a colon, every password whatever
  its bytes, every host name, port and node name, the link that encodes them parses to the node with that server, port,
  name, method and password, and no plugin.
\<close>

theorem shadowsocks_link_roundtrip:
  assumes "CHR '':'' \<notin> set method" "list_all hostChar host" "host \<noteq> []" "1 \<le> port" "port \<le> 65535" "list_all nameChar name"
  shows "\<exists>n. ParseSingleLink lib (shadowsocksLink method password host port name) = Inr n \<and>
    nType n = ''shadowsocks'' \<and> nServer n = host \<and> nPort n = port \<and> nName n = (if name = [] then host else name) \<and>
    getStr (nRaw n) ''cipher'' = method \<and> getStr (nRaw n) ''password'' = password \<and> map_of (nRaw n) ''plugin'' = None"
proof -
  let ?l = "shadowsocksLink method password host port name"
  have t: "TrimSpace ?l = ?l" by (rule shadowsocksLink_trim [OF assms(6)])
  have "Contains ?l ''ss://''" by (simp add: shadowsocksLink_def Contains_def)
  then have "looksLikeProxyLinks ?l" by (simp add: looksLikeProxyLinks_def)
  moreover have "?l \<noteq> []" by (simp add: shadowsocksLink_def)
  moreover have "\<not> HasPrefix ?l ''vmess://''" "\<not> HasPrefix ?l ''vless://''" "\<not> HasPrefix ?l ''trojan://''" "HasPrefix ?l ''ss://''"
    by (simp_all add: shadowsocksLink_def HasPrefix_def)
  ultimately have "ParseSingleLink lib ?l = Inr (shadowsocksNode name host port method password ([], []))"
    using shadowsocks_roundtrip [OF assms] by (simp add: ParseSingleLink_def parseProxyLink_def t)
  then show ?thesis by (simp add: shadowsocksNode_def Let_def getStr_def putIf_def)
qed

theorem shadowsocks_link_roundtrip_witness:
  "\<exists>n. ParseSingleLink plainLib (shadowsocksLink ''aes-256-gcm'' ''p:w@#'' ''h.test'' 8388 ''node'') = Inr n \<and>
    getStr (nRaw n) ''password'' = ''p:w@#''"
proof -
  have "CHR '':'' \<notin> set ''aes-256-gcm''" "list_all hostChar ''h.test''" "list_all nameChar ''node''" by code_simp+
  from shadowsocks_link_roundtrip [OF this(1,2) _ _ _ this(3), of 8388 plainLib "''p:w@#''"] show ?thesis by auto
qed

section \<open>A link without an address\<close>

text \<open>
  A vmess link whose document has a port but no address and no id is not refused: both are read as the text of a
  missing value, so the node gets the server and the user id \<open><nil>\<close> and passes the check of the endpoint.
\<close>

theorem vmess_without_address_accepted:
  "\<exists>n. parseVmessLink lib (''vmess://'' @ stdEncode ''{\"port\":\"443\"}'') = Inr n \<and> usableNode n \<and>
    nServer n = ''<nil>'' \<and> nPort n = 443 \<and> getStr (nRaw n) ''uuid'' = ''<nil>''"
proof -
  let ?m = "[(''port'', GStr ''443'')]"
  have t: "TrimPrefix (''vmess://'' @ s) ''vmess://'' = s" for s by (simp add: TrimPrefix_def HasPrefix_def)
  have j: "parseJSON ''{\"port\":\"443\"}'' = Some (JObj [(''port'', JStr ''443'')])" by code_simp
  have u: "unmarshalMap (plFloat lib) (JObj [(''port'', JStr ''443'')]) = Some ?m" by (simp add: unmarshalMap_def)
  have f: "fmtOf ?m ''add'' = ''<nil>''" "AtoiValue (fmtOf ?m ''port'') = 443" "validateProxyEndpoint ''<nil>'' 443 = Inr ()"
    by code_simp+
  have v: "parseVmessLink lib (''vmess://'' @ stdEncode ''{\"port\":\"443\"}'') = Inr (vmessNode ?m ''<nil>'' 443)"
    by (simp only: parseVmessLink_def t tryBase64_stdEncode option.case Option.bind.simps j u f Let_def sum.case)
  have "nServer (vmessNode ?m ''<nil>'' 443) = ''<nil>''" "nPort (vmessNode ?m ''<nil>'' 443) = 443" by (simp_all add: vmessNode_def Let_def)
  moreover have "getStr (nRaw (vmessNode ?m ''<nil>'' 443)) ''uuid'' = ''<nil>''" by code_simp
  ultimately show ?thesis using v vmess_usable [OF v] by blast
qed

end
