(* ===== verification/Logger.thy ===== *)
theory Logger
  imports GoBase
begin

text \<open>
  The package \<open>logger\<close>: the last lines of the log, kept in memory for the administration interface. Writing and
  reading hold the lock, so each is one step on the list of lines; the copy on the console is left out.
\<close>

definition maxLines :: nat where
  "maxLines = 500"

text \<open>\<open>strings.TrimRight(s, "\n")\<close>.\<close>

definition trimNewlines :: "string \<Rightarrow> string" where
  "trimNewlines s = rev (dropWhile (\<lambda>c. c = CHR 0x0A) (rev s))"

text \<open>\<open>ts\<close> is the time as \<open>15:04:05\<close>.\<close>

definition formatLine :: "string \<Rightarrow> string \<Rightarrow> string" where
  "formatLine ts p = ''['' @ ts @ ''] '' @ trimNewlines p"

definition lastLines :: "nat \<Rightarrow> 'a list \<Rightarrow> 'a list" where
  "lastLines n ls = drop (length ls - n) ls"

definition logWrite :: "string \<Rightarrow> string \<Rightarrow> string list \<Rightarrow> string list" where
  "logWrite ts p ls =
     (let ls1 = ls @ [formatLine ts p] in if length ls1 > maxLines then lastLines maxLines ls1 else ls1)"

definition GetLines :: "int \<Rightarrow> string list \<Rightarrow> string list" where
  "GetLines n ls = lastLines (if n \<le> 0 \<or> n > int (length ls) then length ls else nat n) ls"

lemma lastLines_all [simp]: "length ls \<le> n \<Longrightarrow> lastLines n ls = ls"
  by (simp add: lastLines_def)

lemma lastLines_append: "lastLines n (lastLines n ls @ [x]) = lastLines n (ls @ [x])"
  by (cases "length ls \<le> n") (simp_all add: lastLines_def Suc_diff_le)

lemma logWrite_lastLines: "length ls \<le> maxLines \<Longrightarrow> logWrite ts p ls = lastLines maxLines (ls @ [formatLine ts p])"
  by (auto simp: logWrite_def Let_def lastLines_def)

text \<open>However many lines are written, the buffer holds the last 500 of them, and reading gives the end of that.\<close>

lemma log_keeps_last_lines:
  "fold (\<lambda>(ts, p). logWrite ts p) ws [] = lastLines maxLines (map (\<lambda>(ts, p). formatLine ts p) ws)"
proof (induction ws rule: rev_induct)
  case (snoc w ws)
  obtain ts p where w: "w = (ts, p)" by fastforce
  have "length (lastLines maxLines ls) \<le> maxLines" for ls :: "string list" by (simp add: lastLines_def)
  then show ?case by (simp add: w snoc.IH logWrite_lastLines lastLines_append)
qed (simp add: lastLines_def)

lemma GetLines_recent:
  "0 < n \<Longrightarrow> n \<le> 500 \<Longrightarrow>
   GetLines n (fold (\<lambda>(ts, p). logWrite ts p) ws []) = lastLines (nat n) (map (\<lambda>(ts, p). formatLine ts p) ws)"
  by (simp add: log_keeps_last_lines GetLines_def lastLines_def maxLines_def)

end
