(* ===== verification/WebNodes.thy ===== *)
theory WebNodes
  imports Manager AdminConfig NodesApi Logger
begin

text \<open>
  The handlers of the administration interface for nodes (\<open>webui/api_handlers.go\<close>,
  \<open>webui/manual_node_handlers.go\<close>) over the tables, the sessions and the subscription manager. A request is given by
  its method and its decoded body; the answer is a status with a message, or the document. What a handler starts in a
  goroutine is a task in its result, which \<open>runTask\<close> carries out.
\<close>

section \<open>The server\<close>

text \<open>The tables are those of the manager; \<open>wsManaged\<close> says whether the server was given a manager at all.\<close>

record 's WebServer =
  wsManager :: "'s Manager"
  wsManaged :: bool
  wsConfig :: Config
  wsAffinity :: "SessionStore option"

datatype 'p reply = Refusal nat string | Answer 'p | Aborted

datatype task = RefreshTask int | RefreshAllTask | ProbeTask Proxy | LatencyTask

type_synonym ('s, 'p) handler = "'s WebServer \<Rightarrow> 'p reply \<times> task list \<times> 's WebServer"

definition refuse :: "nat \<Rightarrow> string \<Rightarrow> ('s, 'p) handler" where
  "refuse code msg sv = (Refusal code msg, [], sv)"

definition answer :: "'p \<Rightarrow> ('s, 'p) handler" where
  "answer p sv = (Answer p, [], sv)"

definition wsTables :: "'s WebServer \<Rightarrow> DB" where
  "wsTables sv = mgDB (wsManager sv)"

definition setTables :: "DB \<Rightarrow> 's WebServer \<Rightarrow> 's WebServer" where
  "setTables d sv = sv\<lparr>wsManager := (wsManager sv)\<lparr>mgDB := d\<rparr>\<rparr>"

definition onTables :: "'a db_op \<Rightarrow> 's WebServer \<Rightarrow> (store_error + 'a) \<times> 's WebServer" where
  "onTables f sv = (case f (wsTables sv) of (r, d) \<Rightarrow> (r, setTables d sv))"

definition onManager :: "('s, 'x, 'a) mgr \<Rightarrow> 's WebServer \<Rightarrow> ('x managerError + 'a) \<times> 's WebServer" where
  "onManager f sv = (case f (wsManager sv) of (r, m) \<Rightarrow> (r, sv\<lparr>wsManager := m\<rparr>))"

text \<open>The beginning of every handler that changes something.\<close>

definition decodeError :: "'q decoded \<Rightarrow> ('s, 'p) handler" where
  "decodeError b = (case b of BodyTooLarge \<Rightarrow> refuse 413 ''request body too large'' | _ \<Rightarrow> refuse 400 ''invalid request'')"

definition posted :: "string \<Rightarrow> 'q decoded \<Rightarrow> ('q \<Rightarrow> ('s, 'p) handler) \<Rightarrow> ('s, 'p) handler" where
  "posted meth body k =
     (if meth \<noteq> ''POST'' then refuse 405 ''method not allowed''
      else (case body of Body q \<Rightarrow> k q | b \<Rightarrow> decodeError b))"

text \<open>The answer after a write of the tables.\<close>

definition finishing :: "unit db_op \<Rightarrow> string \<Rightarrow> string \<Rightarrow> ('s, string) handler" where
  "finishing f msg status sv =
     (case onTables f sv of
        (Inl e, sv1) \<Rightarrow> refuse 500 msg sv1
      | (Inr u, sv1) \<Rightarrow> answer status sv1)"

section \<open>Error texts\<close>

text \<open>
  \<open>err.Error()\<close>, in which some handlers look for words. Escapes inside the quotes are left out, and so is the
  number in the text of a missing id.
\<close>

fun errorText :: "store_error \<Rightarrow> string" where
  "errorText ErrNoRows = ''sql: no rows in result set''"
| "errorText (ErrNotFound a) = ''proxy '' @ a @ '' not found: sql: no rows in result set''"
| "errorText (ErrAmbiguousProxyAddress a) = ''ambiguous proxy address: \"'' @ a @ ''\"''"
| "errorText (ErrAmbiguousNodeKey k) = ''ambiguous proxy node_key: '' @ k"
| "errorText ErrUniqueConstraint = ''UNIQUE constraint failed''"
| "errorText (ErrDriver m) = m"
| "errorText (ErrRejected m) = m"

definition missingError :: "store_error \<Rightarrow> bool" where
  "missingError e \<longleftrightarrow> e = ErrNoRows \<or> Contains (errorText e) ''not found''"

fun isAmbiguousAddress :: "store_error \<Rightarrow> bool" where
  "isAmbiguousAddress (ErrAmbiguousProxyAddress a) = True"
| "isAmbiguousAddress _ = False"

definition ambiguousError :: "store_error \<Rightarrow> bool" where
  "ambiguousError e \<longleftrightarrow> isAmbiguousAddress e \<or> Contains (errorText e) ''ambiguous''"

section \<open>Views\<close>

definition apiAuthCheck :: "string option \<Rightarrow> int \<Rightarrow> sessions \<Rightarrow> bool" where
  "apiAuthCheck cookie t ss = validSession cookie t ss"

record statsView =
  stTotal :: int
  stHTTP :: int
  stSOCKS5 :: int
  stSubscriptionCount :: int
  stActiveSessions :: nat
  stHTTPPort :: string
  stSOCKS5Port :: string
  stWebUIPort :: string

definition statCounts :: "(int \<times> int \<times> int \<times> int) db_op" where
  "statCounts =
     bindOp CountAll (\<lambda>n. bindOp (CountAvailableByProtocol ''http'') (\<lambda>h. bindOp (CountAvailableByProtocol ''socks5'') (\<lambda>s.
       bindOp (CountBySource SourceSubscription) (\<lambda>c. returnOp (n, h, s, c)))))"

definition apiStats :: "('s, statsView) handler" where
  "apiStats sv =
     (case onTables statCounts sv of
        (Inl e, sv1) \<Rightarrow> refuse 500 ''failed to load stats'' sv1
      | (Inr (n, h, s, c), sv1) \<Rightarrow>
          answer \<lparr>stTotal = n, stHTTP = h, stSOCKS5 = s, stSubscriptionCount = c,
            stActiveSessions = (case wsAffinity sv1 of None \<Rightarrow> 0 | Some st \<Rightarrow> Count st),
            stHTTPPort = cfgHTTPPort (wsConfig sv1), stSOCKS5Port = cfgSOCKS5Port (wsConfig sv1),
            stWebUIPort = cfgWebUIPort (wsConfig sv1)\<rparr> sv1)"

record proxyView =
  vwProxy :: Proxy
  vwSubscriptionName :: string
  vwSubscriptionStatus :: string

text \<open>The last subscription of an id decides, as in a map filled in order.\<close>

definition subscriptionField :: "(Subscription \<Rightarrow> string) \<Rightarrow> Subscription list \<Rightarrow> int \<Rightarrow> string" where
  "subscriptionField f subs i = (case find (\<lambda>s. sID s = i) (rev subs) of Some s \<Rightarrow> f s | None \<Rightarrow> [])"

definition proxyViewOf :: "Subscription list \<Rightarrow> Proxy \<Rightarrow> proxyView" where
  "proxyViewOf subs p =
     (if pSource p = SourceSubscription then
        \<lparr>vwProxy = p, vwSubscriptionName = subscriptionField sName subs (pSubscriptionID p),
         vwSubscriptionStatus = subscriptionField sStatus subs (pSubscriptionID p)\<rparr>
      else \<lparr>vwProxy = p, vwSubscriptionName = [], vwSubscriptionStatus = []\<rparr>)"

definition apiProxies :: "('s, proxyView list) handler" where
  "apiProxies sv =
     (case onTables GetAllForAdmin sv of
        (Inl e, sv1) \<Rightarrow> refuse 500 ''failed to list proxies'' sv1
      | (Inr ps, sv1) \<Rightarrow>
          (case onTables GetSubscriptions sv1 of
             (Inl e, sv2) \<Rightarrow> refuse 500 ''failed to list proxies'' sv2
           | (Inr subs, sv2) \<Rightarrow> answer (map (proxyViewOf subs) ps) sv2))"

definition apiLogs :: "string list \<Rightarrow> string list" where
  "apiLogs ls = GetLines 500 ls"

section \<open>One node\<close>

record NodeRequest =
  nqID :: int
  nqAddress :: string

record ToggleRequest = NodeRequest +
  tqEnable :: bool

record StarRequest = NodeRequest +
  sqStarred :: bool

record RegionRequest = NodeRequest +
  rqRegion :: string

record NoteRequest = NodeRequest +
  nqNote :: string

definition findNode :: "'z NodeRequest_scheme \<Rightarrow> Proxy db_op" where
  "findNode q = (if nqID q > 0 then GetProxyByID (nqID q) else GetProxyByAddress (nqAddress q))"

definition noNode :: "'z NodeRequest_scheme \<Rightarrow> bool" where
  "noNode q \<longleftrightarrow> nqID q \<le> 0 \<and> nqAddress q = []"

text \<open>
  \<open>meanwhile\<close> is what others write between the lookup and the deletion. The manager wraps every error, so its errors
  are never the one the last comparison looks for.
\<close>

definition apiDeleteProxy ::
    "('s, 'e, 'x) tunnelRuntime \<Rightarrow> 'e refreshEnv \<Rightarrow> (DB \<Rightarrow> DB) \<Rightarrow> string \<Rightarrow> NodeRequest decoded \<Rightarrow> ('s, string) handler" where
  "apiDeleteProxy ops env meanwhile meth body =
     posted meth body (\<lambda>q sv.
       if noNode q then refuse 400 ''invalid request'' sv
       else
         (case onTables (findNode q) sv of
            (Inl e, sv1) \<Rightarrow>
              if missingError e then answer ''deleted'' sv1
              else if ambiguousError e then refuse 409 ''ambiguous proxy address; use id'' sv1
              else refuse 500 ''failed to delete proxy'' sv1
          | (Inr p, sv1) \<Rightarrow>
              (let sv2 = setTables (meanwhile (wsTables sv1)) sv1 in
               if wsManaged sv2 then
                 (case onManager (DeleteManagedProxy ops env (pID p)) sv2 of
                    (Inl e, sv3) \<Rightarrow> refuse 500 ''failed to delete proxy'' sv3
                  | (Inr u, sv3) \<Rightarrow> answer ''deleted'' sv3)
               else
                 (case onTables (if nqID q > 0 then DeleteProxyByID (nqID q) else Delete (nqAddress q)) sv2 of
                    (Inl e, sv3) \<Rightarrow> if e = ErrNoRows then answer ''deleted'' sv3 else refuse 500 ''failed to delete proxy'' sv3
                  | (Inr u, sv3) \<Rightarrow> answer ''deleted'' sv3))))"

definition apiToggleProxy :: "string \<Rightarrow> ToggleRequest decoded \<Rightarrow> ('s, string) handler" where
  "apiToggleProxy meth body =
     posted meth body (\<lambda>q.
       if noNode q then refuse 400 ''invalid request''
       else finishing
         (if nqID q > 0 then (if tqEnable q then UnpauseProxyByID (nqID q) else PauseProxyByID (nqID q))
          else (if tqEnable q then UnpauseProxy (nqAddress q) else PauseProxy (nqAddress q)))
         ''failed to toggle proxy'' ''toggled'')"

definition apiStarProxy :: "string \<Rightarrow> StarRequest decoded \<Rightarrow> ('s, string) handler" where
  "apiStarProxy meth body =
     posted meth body (\<lambda>q sv.
       if noNode q then refuse 400 ''invalid request'' sv
       else if nqID q > 0 then finishing (SetProxyStarred (nqID q) (sqStarred q)) ''failed to star proxy'' ''starred'' sv
       else
         (case onTables (GetProxyByAddress (nqAddress q)) sv of
            (Inl e, sv1) \<Rightarrow> refuse 404 ''proxy not found'' sv1
          | (Inr p, sv1) \<Rightarrow> finishing (SetProxyStarred (pID p) (sqStarred q)) ''failed to star proxy'' ''starred'' sv1))"

definition apiRefreshProxy :: "string \<Rightarrow> NodeRequest decoded \<Rightarrow> ('s, string) handler" where
  "apiRefreshProxy meth body =
     posted meth body (\<lambda>q sv.
       if noNode q then refuse 400 ''invalid request'' sv
       else
         (case onTables (findNode q) sv of
            (Inl e, sv1) \<Rightarrow> refuse 404 ''proxy not found'' sv1
          | (Inr p, sv1) \<Rightarrow> (Answer ''refresh started'', [ProbeTask p], sv1)))"

definition apiRefreshLatency :: "string \<Rightarrow> ('s, string) handler" where
  "apiRefreshLatency meth sv =
     (if meth \<noteq> ''POST'' then refuse 405 ''method not allowed'' sv else (Answer ''refresh started'', [LatencyTask], sv))"

section \<open>Writing back a probe\<close>

text \<open>\<open>between\<close> is what others write between the two statements.\<close>

definition applyProbeResult :: "(DB \<Rightarrow> DB) \<Rightarrow> Result \<Rightarrow> unit db_op" where
  "applyProbeResult between res d =
     (let identity = RouteIdentityFromProxy (rsProxy res); ob = observationOf res in
      if \<not> rsValid res then
        (if rsFailureReason res = FailureGeoRejected then
           (case DisableRouteForPolicy identity d of
              (Inl e, d1) \<Rightarrow> (Inl e, d1)
            | (Inr u, d1) \<Rightarrow> ApplyProbeObservation identity ob (between d1))
         else if pStatus (rsProxy res) = ''disabled'' then RecordDisabledProbeFailure identity ob d
         else bindOp (RecordProbeFailure identity ob 1) (\<lambda>disabled. returnOp ()) d)
      else
        (case RecoverProxyFromProbe identity ob d of
           (Inr u, d1) \<Rightarrow> (Inr u, d1)
         | (Inl e, d1) \<Rightarrow> if isNoRows e then ApplyProbeObservation identity ob (between d1) else (Inl e, d1)))"

text \<open>One result as it arrives; errors are only logged.\<close>

definition writeBack :: "Arrival \<Rightarrow> DB \<Rightarrow> DB" where
  "writeBack ar d = snd (applyProbeResult (arBetween ar) (arResult ar) (arBefore ar d))"

text \<open>
  The task of a goroutine: \<open>arrivals\<close> are the results the validator delivers for a list of nodes, and \<open>env\<close> the
  surroundings of each refresh.
\<close>

definition runTask ::
    "('s, 'e, 'x) tunnelRuntime \<Rightarrow> (int \<Rightarrow> 'e refreshEnv) \<Rightarrow> (Proxy list \<Rightarrow> Arrival list) \<Rightarrow> task \<Rightarrow> 's WebServer \<Rightarrow> 's WebServer" where
  "runTask ops env arrivals task sv =
     (case task of
        RefreshTask i \<Rightarrow> snd (onManager (RefreshSubscription ops (env i) i) sv)
      | RefreshAllTask \<Rightarrow> sv\<lparr>wsManager := RefreshAll ops env (wsManager sv)\<rparr>
      | ProbeTask p \<Rightarrow> setTables (fold writeBack (take 1 (arrivals [p])) (wsTables sv)) sv
      | LatencyTask \<Rightarrow>
          (case onTables GetAll sv of
             (Inl e, sv1) \<Rightarrow> sv1
           | (Inr ps, sv1) \<Rightarrow> if ps = [] then sv1 else setTables (fold writeBack (arrivals ps) (wsTables sv1)) sv1))"

section \<open>Nodes added by hand\<close>

definition unmanaged :: "('s, 'p) handler" where
  "unmanaged = refuse 500 ''manual node manager unavailable''"

record LinkRequest =
  lqText :: string
  lqRegion :: string
  lqNote :: string

text \<open>A panic of the import ends the connection without an answer.\<close>

definition apiManualNodeImport ::
    "(string \<Rightarrow> string) \<Rightarrow> (string \<Rightarrow> ParsedNode option) \<Rightarrow> (Proxy list \<Rightarrow> Arrival list) option \<Rightarrow> string \<Rightarrow>
     LinkRequest decoded \<Rightarrow> ('s, ManualImportResult) handler" where
  "apiManualNodeImport lower parseLink stream meth body =
     posted meth body (\<lambda>q sv.
       if TrimSpace (lqText q) = [] then refuse 400 ''invalid request'' sv
       else if \<not> wsManaged sv then unmanaged sv
       else
         (case ImportManualLinks lower parseLink stream (lqText q) (lqRegion q) (lqNote q) (wsManager sv) of
            (None, m) \<Rightarrow> (Aborted, [], sv\<lparr>wsManager := m\<rparr>)
          | (Some (r, Some e), m) \<Rightarrow> refuse 400 ''failed to import manual nodes'' (sv\<lparr>wsManager := m\<rparr>)
          | (Some (r, None), m) \<Rightarrow> answer r (sv\<lparr>wsManager := m\<rparr>)))"

definition apiManualNodeBatchDelete ::
    "('s, 'e, 'x) tunnelRuntime \<Rightarrow> (int \<Rightarrow> 'e refreshEnv) \<Rightarrow> string \<Rightarrow> int list decoded \<Rightarrow>
     ('s, int \<times> (int \<times> 'x managerError) list) handler" where
  "apiManualNodeBatchDelete ops env meth body =
     posted meth body (\<lambda>ids sv.
       if ids = [] then refuse 400 ''invalid request'' sv
       else if \<not> wsManaged sv then unmanaged sv
       else (case DeleteManagedProxies ops env ids (wsManager sv) of (r, m) \<Rightarrow> answer r (sv\<lparr>wsManager := m\<rparr>)))"

definition apiManualNodeAdd ::
    "('s, 'e, 'x) tunnelRuntime \<Rightarrow> (string \<Rightarrow> ParsedNode option) \<Rightarrow> (Proxy list \<Rightarrow> Arrival list) option \<Rightarrow> 'e refreshEnv \<Rightarrow>
     string \<Rightarrow> LinkRequest decoded \<Rightarrow> ('s, string) handler" where
  "apiManualNodeAdd ops parseLink stream env meth body =
     posted meth body (\<lambda>q sv.
       if lqText q = [] then refuse 400 ''invalid request'' sv
       else if \<not> wsManaged sv then unmanaged sv
       else
         (case onManager (AddManualNode ops parseLink stream env (lqText q) (lqRegion q) (lqNote q)) sv of
            (Inl e, sv1) \<Rightarrow> refuse 400 ''failed to add manual node'' sv1
          | (Inr u, sv1) \<Rightarrow> answer ''added'' sv1))"

text \<open>\<open>k\<close> is the rest of the handler, with the decoded request and the node.\<close>

definition lookupProxyRequest ::
    "bool \<Rightarrow> string \<Rightarrow> 'z NodeRequest_scheme decoded \<Rightarrow> ('z NodeRequest_scheme \<Rightarrow> Proxy \<Rightarrow> ('s, 'p) handler) \<Rightarrow> ('s, 'p) handler" where
  "lookupProxyRequest manualOnly meth body k =
     posted meth body (\<lambda>q sv.
       if noNode q then refuse 400 ''invalid request'' sv
       else
         (case onTables (findNode q) sv of
            (Inl e, sv1) \<Rightarrow>
              if ambiguousError e then refuse 409 ''ambiguous proxy address; use id'' sv1
              else if isNoRows e \<or> missingError e then refuse 404 ''manual node not found'' sv1
              else refuse 500 ''failed to lookup manual node'' sv1
          | (Inr p, sv1) \<Rightarrow>
              if manualOnly \<and> pSource p \<noteq> SourceManual then refuse 403 ''manual nodes only'' sv1 else k q p sv1))"

definition requireNoteEditableRequest ::
    "string \<Rightarrow> 'z NodeRequest_scheme decoded \<Rightarrow> ('z NodeRequest_scheme \<Rightarrow> Proxy \<Rightarrow> ('s, 'p) handler) \<Rightarrow> ('s, 'p) handler" where
  "requireNoteEditableRequest = lookupProxyRequest False"

definition requireManualNodeRequest ::
    "string \<Rightarrow> 'z NodeRequest_scheme decoded \<Rightarrow> ('z NodeRequest_scheme \<Rightarrow> Proxy \<Rightarrow> ('s, 'p) handler) \<Rightarrow> ('s, 'p) handler" where
  "requireManualNodeRequest = lookupProxyRequest True"

definition apiManualNodeRegion :: "string \<Rightarrow> RegionRequest decoded \<Rightarrow> ('s, string) handler" where
  "apiManualNodeRegion meth body =
     requireNoteEditableRequest meth body (\<lambda>q p.
       if rqRegion q \<noteq> [] \<and> \<not> isNodeAPIAlpha2Region (ToLower (TrimSpace (rqRegion q))) then refuse 400 ''invalid region''
       else finishing (UpdateProxyRegionByID (pID p) (rqRegion q) True) ''failed to update node region'' ''updated'')"

definition apiManualNodeNote :: "string \<Rightarrow> NoteRequest decoded \<Rightarrow> ('s, string) handler" where
  "apiManualNodeNote meth body =
     requireNoteEditableRequest meth body (\<lambda>q p.
       finishing (UpdateProxyNoteByID (pID p) (nqNote q)) ''failed to update node note'' ''updated'')"

definition apiManualNodeDelete ::
    "('s, 'e, 'x) tunnelRuntime \<Rightarrow> 'e refreshEnv \<Rightarrow> (DB \<Rightarrow> DB) \<Rightarrow> string \<Rightarrow> NodeRequest decoded \<Rightarrow> ('s, string) handler" where
  "apiManualNodeDelete ops env meanwhile meth body =
     requireManualNodeRequest meth body (\<lambda>q p sv0.
       (let sv = setTables (meanwhile (wsTables sv0)) sv0 in
        if wsManaged sv then
          (case onManager (DeleteManualNode ops env (pID p)) sv of
             (Inl e, sv1) \<Rightarrow> refuse 500 ''failed to delete manual node'' sv1
           | (Inr u, sv1) \<Rightarrow> answer ''deleted'' sv1)
        else finishing (DeleteProxyByID (pID p)) ''failed to delete manual node'' ''deleted'' sv))"

end
