(* ===== verification/WebNodesSpec.thy ===== *)
theory WebNodesSpec
  imports WebNodes ManagerSpec
begin

text \<open>
  What the node handlers do to the tables: a write-back keeps the region of a node whose region is marked as given by
  hand, so a region cleared by hand is never detected again; and a deletion that another one overtakes is reported as a
  failure.
\<close>

section \<open>Steps of a handler\<close>

lemma onTables_unfold: "onTables f sv = (fst (f (wsTables sv)), setTables (snd (f (wsTables sv))) sv)"
  by (simp add: onTables_def split: prod.split)

lemma wsTables_set [simp]: "wsTables (setTables d sv) = d" "wsManaged (setTables d sv) = wsManaged sv"
  "wsManager (setTables d sv) = (wsManager sv)\<lparr>mgDB := d\<rparr>"
  by (simp_all add: wsTables_def setTables_def)

lemma posted_answer:
  assumes "posted meth body k sv = (Answer p, ts, sv1)"
  obtains q where "meth = ''POST''" "body = Body q" "k q sv = (Answer p, ts, sv1)"
  using assms by (cases "meth = ''POST''"; cases body) (simp_all add: posted_def decodeError_def refuse_def)

lemma lookup_answer:
  assumes "lookupProxyRequest manualOnly meth body k sv = (Answer p, ts, sv1)"
  obtains q n d where "body = Body q" "findNode q (wsTables sv) = (Inr n, d)" "manualOnly \<longrightarrow> pSource n = SourceManual"
    "k q n (setTables d sv) = (Answer p, ts, sv1)"
  using assms unfolding lookupProxyRequest_def
proof (rule posted_answer)
  fix q
  assume b: "body = Body q" and eq: "(if noNode q then refuse 400 ''invalid request'' sv
      else case onTables (findNode q) sv of
        (Inl e, sv1) \<Rightarrow>
          if ambiguousError e then refuse 409 ''ambiguous proxy address; use id'' sv1
          else if isNoRows e \<or> missingError e then refuse 404 ''manual node not found'' sv1
          else refuse 500 ''failed to lookup manual node'' sv1
      | (Inr p, sv1) \<Rightarrow>
          if manualOnly \<and> pSource p \<noteq> SourceManual then refuse 403 ''manual nodes only'' sv1 else k q p sv1) =
      (Answer p, ts, sv1)"
  obtain r d where f: "findNode q (wsTables sv) = (r, d)" by fastforce
  have n: "\<not> noNode q" using eq by (cases "noNode q") (simp_all add: refuse_def)
  show thesis
  proof (cases r)
    case (Inl e)
    with eq n f show thesis by (simp add: onTables_unfold refuse_def split: if_splits)
  next
    case (Inr x)
    with eq n f have h: "manualOnly \<longrightarrow> pSource x = SourceManual"
      by (cases "manualOnly \<and> pSource x \<noteq> SourceManual") (simp_all add: onTables_unfold refuse_def)
    then have "\<not> (manualOnly \<and> pSource x \<noteq> SourceManual)" by blast
    with eq n f Inr have "k q x (setTables d sv) = (Answer p, ts, sv1)" by (simp only: onTables_unfold prod.case sum.case if_False fst_conv snd_conv)
    then show thesis using that [OF b _ h] f Inr by simp
  qed
qed

lemma readonly_findNode: "readOnly (findNode q)"
  by (simp add: findNode_def readonly_lookups)

section \<open>Regions given by hand\<close>

text \<open>What a write-back may do to a row: its id stays, and so does a region given by hand.\<close>

definition keepsManualRegion :: "ProxyRow \<Rightarrow> ProxyRow \<Rightarrow> bool" where
  "keepsManualRegion r r' \<longleftrightarrow> cID r' = cID r \<and>
     (cRegionSource r = ''manual'' \<longrightarrow> cRegionSource r' = ''manual'' \<and> cRegion r' = cRegion r)"

lemma keepsManual_refl: "keepsManualRegion r r"
  by (simp add: keepsManualRegion_def)

lemma related_writes:
  "rowsRelated keepsManualRegion (ApplyProbeObservation i ob)"
  "rowsRelated keepsManualRegion (RecoverProxyFromProbe i ob)"
  "rowsRelated keepsManualRegion (RecordDisabledProbeFailure i ob)"
  "rowsRelated keepsManualRegion (DisableRouteForPolicy i)"
  "rowsRelated keepsManualRegion (bindOp (RecordProbeFailure i ob n) (\<lambda>b. returnOp ()))"
proof -
  show "rowsRelated keepsManualRegion (ApplyProbeObservation i ob)" "rowsRelated keepsManualRegion (RecoverProxyFromProbe i ob)"
    "rowsRelated keepsManualRegion (RecordDisabledProbeFailure i ob)" "rowsRelated keepsManualRegion (DisableRouteForPolicy i)"
    by (auto simp: route_ops set_columns keepsManualRegion_def intro!: related_steps)
  have "rowsRelated keepsManualRegion (RecordProbeFailure i ob n)"
    by (auto simp: route_ops set_columns keepsManualRegion_def intro!: related_steps)
  then show "rowsRelated keepsManualRegion (bindOp (RecordProbeFailure i ob n) (\<lambda>b. returnOp ()))"
    by (rule related_bind_return) (simp add: returnOp_def)
qed

definition rowsKept :: "DB \<Rightarrow> DB \<Rightarrow> bool" where
  "rowsKept d d' \<longleftrightarrow> list_all2 keepsManualRegion (proxies d) (proxies d')"

lemma rowsKept_refl [simp]: "rowsKept d d"
  by (simp add: rowsKept_def list_all2_refl keepsManual_refl)

lemma rowsKept_trans: "rowsKept d d1 \<Longrightarrow> rowsKept d1 d2 \<Longrightarrow> rowsKept d d2"
  unfolding rowsKept_def
  by (rule list_all2_trans [of keepsManualRegion keepsManualRegion keepsManualRegion]) (auto simp: keepsManualRegion_def)

lemma rowsKept_write: "rowsRelated keepsManualRegion m \<Longrightarrow> m d = (r, d') \<Longrightarrow> rowsKept d d'"
  unfolding rowsRelated_def rowsKept_def by (metis snd_conv)

lemma applyProbeResult_keeps:
  assumes "\<And>d. rowsKept d (between d)"
  shows "rowsKept d (snd (applyProbeResult between res d))"
proof -
  let ?i = "RouteIdentityFromProxy (rsProxy res)" and ?ob = "observationOf res"
  have two: "rowsKept d (snd (ApplyProbeObservation ?i ?ob (between d1)))" if "rowsKept d d1" for d1
    using rowsKept_write [OF related_writes(1)] rowsKept_trans [OF rowsKept_trans [OF that assms]] by (metis prod.collapse)
  show ?thesis
  proof (cases "rsValid res")
    case True
    obtain x d1 where x: "RecoverProxyFromProbe ?i ?ob d = (x, d1)" by fastforce
    then have k: "rowsKept d d1" by (rule rowsKept_write [OF related_writes(2)])
    show ?thesis using two [OF k] k by (cases x) (simp_all add: applyProbeResult_def Let_def True x)
  next
    case False
    obtain x d1 where x: "DisableRouteForPolicy ?i d = (x, d1)" by fastforce
    then have k: "rowsKept d d1" by (rule rowsKept_write [OF related_writes(4)])
    have "rowsKept d (snd (RecordDisabledProbeFailure ?i ?ob d))"
      "rowsKept d (snd (bindOp (RecordProbeFailure ?i ?ob 1) (\<lambda>b. returnOp ()) d))"
      using rowsKept_write [OF related_writes(3)] rowsKept_write [OF related_writes(5)] by (metis prod.collapse)+
    then show ?thesis using two [OF k] k by (cases x) (simp_all add: applyProbeResult_def Let_def False x)
  qed
qed

text \<open>
  What others may write in between: anything that keeps the rows and leaves regions given by hand alone, as probes,
  forwarding results and the pauses, stars and notes of the user do.
\<close>

definition keepingArrival :: "Arrival \<Rightarrow> bool" where
  "keepingArrival ar \<longleftrightarrow> (\<forall>d. rowsKept d (arBefore ar d) \<and> rowsKept d (arBetween ar d))"

lemma writeBack_keeps: "keepingArrival ar \<Longrightarrow> rowsKept d (writeBack ar d)"
  unfolding writeBack_def keepingArrival_def
  by (rule rowsKept_trans [of d "arBefore ar d"]) (auto intro: applyProbeResult_keeps)

lemma fold_writeBack_keeps: "list_all keepingArrival ars \<Longrightarrow> rowsKept d (fold writeBack ars d)"
  by (induction ars arbitrary: d) (auto intro: rowsKept_trans writeBack_keeps)

lemma rowsKept_manual:
  assumes "rowsKept d d'" "\<And>r. r \<in> set (proxies d) \<Longrightarrow> cID r = i \<Longrightarrow> cRegionSource r = ''manual'' \<and> cRegion r = R"
    "r' \<in> set (proxies d')" "cID r' = i"
  shows "cRegion r' = R \<and> cRegionSource r' = ''manual''"
proof -
  from assms(3) obtain k where k: "k < length (proxies d')" "r' = proxies d' ! k" by (auto simp: in_set_conv_nth)
  with assms(1) have "keepsManualRegion (proxies d ! k) r'" "proxies d ! k \<in> set (proxies d)"
    by (simp_all add: rowsKept_def list_all2_conv_all_nth)
  then obtain r where "r \<in> set (proxies d)" "keepsManualRegion r r'" by blast
  with assms(2) [of r] assms(4) show ?thesis by (simp add: keepsManualRegion_def)
qed

lemma region_rows:
  assumes "UpdateProxyRegionByID i region True d = (Inr u, d1)"
  shows "proxies d1 = updateRows (\<lambda>r. cID r = i)
      (\<lambda>r. r\<lparr>cRegion := normalizeManualRegion region, cRegionSource := ''manual''\<rparr>) (proxies d) \<and>
    list_ex (\<lambda>r. cID r = i) (proxies d)"
proof -
  from assms obtain n where n: "updateProxies (whereID i) (\<lambda>d r. r\<lparr>cRegion := normalizeManualRegion region,
      cRegionSource := (if True then ''manual'' else ''auto'')\<rparr>) d = (Inr n, d1)" "n \<noteq> 0"
    unfolding UpdateProxyRegionByID_def by (rule affecting_InrE)
  from updateProxies_InrD [OF n(1)]
  have "proxies d1 = updateRows (\<lambda>r. cID r = i)
      (\<lambda>r. r\<lparr>cRegion := normalizeManualRegion region, cRegionSource := ''manual''\<rparr>) (proxies d)"
    by (simp add: whereID_def [abs_def])
  moreover have "countRows (whereID i (dropFault d)) (proxies d) \<noteq> 0"
    using n by (auto simp: updateProxies_def execSQL_unfold Let_def split: if_splits)
  then have "list_ex (\<lambda>r. cID r = i) (proxies d)"
    by (auto simp: countRows_def whereID_def list_ex_iff filter_empty_conv)
  ultimately show ?thesis by simp
qed

text \<open>
  C27: A region cleared by hand is never detected again. The handler promises that an empty region takes the entry by
  hand back, but it marks the row as given by hand with no region, and every later probe, of the interface or of the
  checker and whatever else is written in between, leaves the region of such a row alone. So the node has no region
  until somebody sets one.
\<close>

theorem cleared_region_never_detected:
  assumes "apiManualNodeRegion meth (Body q) sv = (Answer p, ts, sv1)" "rqRegion q = []" "nqID q > 0"
    "list_all keepingArrival ars"
  shows "list_ex (\<lambda>r. cID r = nqID q) (proxies (wsTables sv1)) \<and>
    list_all (\<lambda>r. cRegion r = [] \<and> cRegionSource r = ''manual'')
      (filter (\<lambda>r. cID r = nqID q) (proxies (fold writeBack ars (wsTables sv1))))"
  using assms(1) unfolding apiManualNodeRegion_def requireNoteEditableRequest_def
proof (rule lookup_answer)
  fix q' n d
  let ?sv = "setTables d sv"
  assume b: "Body q = Body q'" and f: "findNode q' (wsTables sv) = (Inr n, d)"
    and k: "(if rqRegion q' \<noteq> [] \<and> \<not> isNodeAPIAlpha2Region (ToLower (TrimSpace (rqRegion q')))
       then refuse 400 ''invalid region''
       else finishing (UpdateProxyRegionByID (pID n) (rqRegion q') True) ''failed to update node region'' ''updated'')
      ?sv = (Answer p, ts, sv1)"
  have i: "pID n = nqID q" using f b assms(3) lookups_stored(1) [of "nqID q" "wsTables sv" n] by (simp add: findNode_def)
  obtain r d1 where u: "UpdateProxyRegionByID (pID n) [] True d = (r, d1)" by fastforce
  with k b assms(2) obtain u' where r: "r = Inr u'" "sv1 = setTables d1 ?sv"
    by (cases r) (auto simp: finishing_def onTables_unfold refuse_def answer_def)
  note rows = region_rows [OF u [unfolded r]]
  have e: "normalizeManualRegion [] = []" by (simp add: normalizeManualRegion_def alpha2RegionPattern_def normalizeRegion_def TrimSpace_Nil ToLower_def)
  have 1: "list_ex (\<lambda>r. cID r = nqID q) (proxies d1)"
    using rows i by (auto simp: list_ex_iff updateRows_bex)
  have 2: "cRegionSource r = ''manual'' \<and> cRegion r = []" if "r \<in> set (proxies d1)" "cID r = nqID q" for r
    using that rows i e by (auto simp: updateRows_def split: if_splits)
  show ?thesis
    using 1 rowsKept_manual [OF fold_writeBack_keeps [OF assms(4)] 2] by (simp add: r(2) list_all_iff)
qed

text \<open>A node with a region given by hand, the request that clears it, and a probe that sees an exit in Japan.\<close>

definition handRow :: ProxyRow where
  "handRow = defaultRow\<lparr>cID := 1, cAddress := ''h:1'', cProtocol := ''http'', cSource := ''manual'', cRegion := ''us'',
     cRegionSource := ''manual'', cStatus := ''active''\<rparr>"

definition handServer :: "unit WebServer" where
  "handServer = \<lparr>wsManager = \<lparr>mgDB = (emptyDB 0 [])\<lparr>proxies := [handRow]\<rparr>, mgRuntime = (), mgStopped = False, mgEvicted = []\<rparr>,
     wsManaged = False, wsConfig = DefaultConfig (\<lambda>k. None) [], wsAffinity = None\<rparr>"

definition clearRequest :: RegionRequest where
  "clearRequest = \<lparr>nqID = 1, nqAddress = [], rqRegion = []\<rparr>"

definition seenInJapan :: Arrival where
  "seenInJapan = \<lparr>arResult = \<lparr>rsProxy = scanProxy (handRow\<lparr>cRegion := []\<rparr>), rsValid = True, rsLatency = 1000000, rsExitIP = ''1.2.3.4'',
     rsExitLocation = ''JP Tokyo'', rsRisk = UnknownRisk, rsFailureReason = FailureNone\<rparr>, arBefore = (\<lambda>d. d), arBetween = (\<lambda>d. d)\<rparr>"

theorem cleared_region_never_detected_witness:
  "(case apiManualNodeRegion ''POST'' (Body clearRequest) handServer of (rep, ts, sv1) \<Rightarrow>
     rep = Answer ''updated'' \<and>
     list_all (\<lambda>r. cRegion r = []) (filter (\<lambda>r. cID r = 1) (proxies (fold writeBack [seenInJapan] (wsTables sv1)))))"
proof -
  let ?sv = "setTables ((emptyDB 0 [])\<lparr>proxies := [handRow\<lparr>cRegion := []\<rparr>]\<rparr>) handServer"
  have n: "normalizeManualRegion [] = []"
    by (simp add: normalizeManualRegion_def alpha2RegionPattern_def normalizeRegion_def TrimSpace_Nil ToLower_def)
  have f: "findNode clearRequest (wsTables handServer) = (Inr (scanProxy handRow), wsTables handServer)"
    by (simp add: findNode_def clearRequest_def handServer_def wsTables_def GetProxyByID_def bindOp_def querySQL_unfold
        firstRow_def returnOp_def handRow_def emptyDB_def faulty_def dropFault_def)
  have "UpdateProxyRegionByID 1 [] True (wsTables handServer) = (Inr (), wsTables ?sv)"
    by (simp add: UpdateProxyRegionByID_def affecting_def bindOp_def updateProxies_def execSQL_unfold Let_def whereID_def n
        requireRowsAffected_def returnOp_def handServer_def wsTables_def setTables_def emptyDB_def faulty_def dropFault_def
        countRows_def updateRows_def identitiesUnique_def handRow_def)
  with f have e: "apiManualNodeRegion ''POST'' (Body clearRequest) handServer = (Answer ''updated'', [], ?sv)"
    by (simp add: apiManualNodeRegion_def requireNoteEditableRequest_def lookupProxyRequest_def posted_def onTables_unfold
        noNode_def clearRequest_def finishing_def answer_def setTables_def wsTables_def handRow_def scanProxy_def)
  have k: "list_all keepingArrival [seenInJapan]" by (simp add: keepingArrival_def seenInJapan_def)
  from cleared_region_never_detected [OF e _ _ k] e show ?thesis by (simp add: clearRequest_def list_all_iff)
qed

section \<open>A deletion that is overtaken\<close>

text \<open>
  A node somebody else deletes between the lookup and the deletion counts as deleted without a manager, which is what
  the handler is meant to do; with one the answer is an error, since the manager wraps the error the handler compares with.
\<close>

lemma overtaken_delete:
  fixes ops :: "('s, 'e, 'x) tunnelRuntime"
  assumes "findNode q (wsTables sv) = (Inr p, d)" "nqID q > 0" "\<forall>r\<in>set (proxies (meanwhile d)). cID r \<noteq> pID p"
    "faults (meanwhile d) = []"
  shows "fst (apiDeleteProxy ops env meanwhile ''POST'' (Body q) sv) =
    (if wsManaged sv then Refusal 500 ''failed to delete proxy'' else Answer ''deleted'')"
proof -
  have i: "pID p = nqID q" using assms(1,2) lookups_stored(1) [of "nqID q" "wsTables sv" p] by (simp add: findNode_def)
  have n: "\<not> noNode q" using assms(2) by (simp add: noNode_def)
  let ?d = "meanwhile d"
  have e: "GetProxyByID (nqID q) ?d = (Inl (ErrRejected ''proxy id not found''), dropFault ?d)"
    using assms(3,4) i find_None_iff [of "\<lambda>r. cID r = nqID q" "proxies ?d"]
    by (simp add: GetProxyByID_def bindOp_def querySQL_unfold firstRow_def failOp_def faulty_def dropFault_def)
  have g: "fst (DeleteProxyByID (nqID q) ?d) = Inl ErrNoRows"
    using assms(3,4) i
    by (simp add: DeleteProxyByID_def affecting_def bindOp_def deleteProxies_def execSQL_unfold Let_def whereID_def
        requireRowsAffected_def failOp_def faulty_def dropFault_def countRows_def filter_empty_conv)
  show ?thesis
  proof (cases "wsManaged sv")
    case True
    then show ?thesis using assms(1) n e i
      by (simp add: apiDeleteProxy_def posted_def onTables_unfold Let_def onManager_def DeleteManagedProxy_def store_def refuse_def)
  next
    case False
    then show ?thesis using assms(1,2) n g i
      by (simp add: apiDeleteProxy_def posted_def onTables_unfold Let_def answer_def)
  qed
qed

end
