(* ===== verification/FilePath.thy ===== *)
theory FilePath
  imports GoBase
begin

text \<open>
  The part of \<open>path/filepath\<close> and of the file system the program uses for the files of subscriptions: paths are
  cleaned word by word, as on Unix, and a file system maps absolute paths to directories and files with their mode.
  Symbolic links are left out.
\<close>

section \<open>Paths\<close>

definition pathParts :: "string \<Rightarrow> string list" where
  "pathParts p = filter (\<lambda>c. c \<noteq> [] \<and> c \<noteq> ''.'') (SplitByte p CHR ''/'')"

text \<open>\<open>..\<close> takes back the part before it, and at the root nothing.\<close>

fun cleanRooted :: "string list \<Rightarrow> string list \<Rightarrow> string list" where
  "cleanRooted acc [] = rev acc"
| "cleanRooted acc (c # cs) = (if c = ''..'' then cleanRooted (tl acc) cs else cleanRooted (c # acc) cs)"

fun cleanRelative :: "string list \<Rightarrow> string list \<Rightarrow> string list" where
  "cleanRelative acc [] = rev acc"
| "cleanRelative acc (c # cs) =
     (if c = ''..'' \<and> acc \<noteq> [] \<and> hd acc \<noteq> ''..'' then cleanRelative (tl acc) cs else cleanRelative (c # acc) cs)"

definition IsAbs :: "string \<Rightarrow> bool" where
  "IsAbs p = HasPrefix p ''/''"

definition rootedPath :: "string list \<Rightarrow> string" where
  "rootedPath cs = (if cs = [] then ''/'' else concat (map (\<lambda>c. CHR ''/'' # c) cs))"

definition rootedParts :: "string \<Rightarrow> string list" where
  "rootedParts p = cleanRooted [] (pathParts p)"

definition Clean :: "string \<Rightarrow> string" where
  "Clean p =
     (if IsAbs p then rootedPath (rootedParts p)
      else (let cs = cleanRelative [] (pathParts p) in if cs = [] then ''.'' else Join cs ''/''))"

definition JoinPath :: "string \<Rightarrow> string \<Rightarrow> string" where
  "JoinPath a b = (if a = [] then (if b = [] then [] else Clean b) else Clean (a @ ''/'' @ b))"

text \<open>\<open>wd\<close> is the answer of \<open>os.Getwd\<close>.\<close>

definition AbsPath :: "string option \<Rightarrow> string \<Rightarrow> string option" where
  "AbsPath wd p = (if IsAbs p then Some (Clean p) else map_option (\<lambda>d. JoinPath d p) wd)"

fun relParts :: "string list \<Rightarrow> string list \<Rightarrow> string list" where
  "relParts [] ts = ts"
| "relParts (b # bs) [] = replicate (Suc (length bs)) ''..''"
| "relParts (b # bs) (t # ts) = (if b = t then relParts bs ts else replicate (Suc (length bs)) ''..'' @ t # ts)"

text \<open>\<open>filepath.Rel\<close> of two absolute paths.\<close>

definition Rel :: "string \<Rightarrow> string \<Rightarrow> string" where
  "Rel base targ =
     (let bs = rootedParts base; ts = rootedParts targ in if bs = ts then ''.'' else Join (relParts bs ts) ''/'')"

section \<open>Files\<close>

datatype fileEntry = Directory | Regular nat string

type_synonym files = "string \<Rightarrow> fileEntry option"

text \<open>The file a path names for a process in the directory \<open>cwd\<close>.\<close>

definition locate :: "string \<Rightarrow> string \<Rightarrow> string" where
  "locate cwd p = (case AbsPath (Some cwd) p of Some a \<Rightarrow> a | None \<Rightarrow> p)"

definition readFile :: "string \<Rightarrow> files \<Rightarrow> string \<Rightarrow> string option" where
  "readFile cwd fs p = (case fs (locate cwd p) of Some (Regular m c) \<Rightarrow> Some c | _ \<Rightarrow> None)"

text \<open>The regular files alone.\<close>

definition regularFiles :: "files \<Rightarrow> string \<Rightarrow> (nat \<times> string) option" where
  "regularFiles fs p = (case fs p of Some (Regular m c) \<Rightarrow> Some (m, c) | _ \<Rightarrow> None)"

section \<open>Lemmas\<close>

lemma relParts_up: "relParts bs ts = (if take (length bs) ts = bs then drop (length bs) ts else relParts bs ts)"
  by (induction bs ts rule: relParts.induct) auto

lemma relParts_outside:
  assumes "take (length bs) ts \<noteq> bs"
  shows "\<exists>rest. relParts bs ts = ''..'' # rest"
  using assms by (induction bs ts rule: relParts.induct) auto

lemma Join_up: "Join (''..'' # rest) ''/'' = ''..'' \<or> HasPrefix (Join (''..'' # rest) ''/'') ''../''"
  by (cases rest) (simp_all add: HasPrefix_def)

text \<open>A relative path that does not lead upwards stays below its base.\<close>

lemma Rel_inside:
  assumes "Rel base targ \<noteq> ''..''" "\<not> HasPrefix (Rel base targ) ''../''"
  obtains rest where "rootedParts targ = rootedParts base @ rest"
proof (cases "rootedParts base = rootedParts targ")
  case False
  have "take (length (rootedParts base)) (rootedParts targ) = rootedParts base"
  proof (rule ccontr)
    assume "take (length (rootedParts base)) (rootedParts targ) \<noteq> rootedParts base"
    then obtain rest where "relParts (rootedParts base) (rootedParts targ) = ''..'' # rest"
      using relParts_outside by blast
    with False assms Join_up [of rest] show False by (simp add: Rel_def)
  qed
  then show thesis using that by (metis append_take_drop_id)
qed (use that [of "[]"] in simp)

lemma rootedPath_append:
  assumes "bs \<noteq> []" "rest \<noteq> []"
  shows "HasPrefix (rootedPath (bs @ rest)) (rootedPath bs @ ''/'')"
  using assms by (cases rest) (simp_all add: rootedPath_def HasPrefix_def)

text \<open>Cleaning an absolute path again changes nothing.\<close>

definition plainPart :: "string \<Rightarrow> bool" where
  "plainPart c \<longleftrightarrow> c \<noteq> [] \<and> c \<noteq> ''.'' \<and> c \<noteq> ''..'' \<and> CHR ''/'' \<notin> set c"

lemma splitByteAux_parts: "b \<notin> set cur \<Longrightarrow> c \<in> set (splitByteAux b cur s) \<Longrightarrow> b \<notin> set c"
  by (induction b cur s rule: splitByteAux.induct) (auto split: if_splits)

lemma cleanRooted_plain:
  assumes "\<And>c. c \<in> set cs \<Longrightarrow> c \<noteq> ''..'' \<Longrightarrow> plainPart c" "list_all plainPart acc"
  shows "list_all plainPart (cleanRooted acc cs)"
  using assms
proof (induction acc cs rule: cleanRooted.induct)
  case (2 acc c cs)
  show ?case
  proof (cases "c = ''..''")
    case True
    have "list_all plainPart (tl acc)" using 2(4) by (cases acc) simp_all
    with True 2(1) 2(3) show ?thesis by simp
  next
    case False
    with 2 show ?thesis by simp
  qed
qed (simp add: list_all_iff)

lemma rootedParts_plain: "list_all plainPart (rootedParts p)"
  unfolding rootedParts_def
proof (rule cleanRooted_plain)
  fix c
  assume "c \<in> set (pathParts p)" "c \<noteq> ''..''"
  then show "plainPart c" using splitByteAux_parts [of "CHR ''/''" "[]" c p] by (simp add: pathParts_def SplitByte_def plainPart_def)
qed simp

lemma splitByteAux_concat:
  "list_all plainPart cs \<Longrightarrow> CHR ''/'' \<notin> set cur \<Longrightarrow>
   splitByteAux CHR ''/'' cur (concat (map (\<lambda>c. CHR ''/'' # c) cs)) = rev cur # cs"
proof (induction cs arbitrary: cur)
  case (Cons c cs)
  have step: "splitByteAux CHR ''/'' [] (c @ concat (map (\<lambda>c. CHR ''/'' # c) cs)) = c # cs"
  proof (cases cs)
    case Nil
    with Cons.prems(1) show ?thesis using splitByteAux_last [of "CHR ''/''" c "[]"] by (simp add: plainPart_def)
  next
    case (Cons d ds)
    with Cons.prems(1) Cons.IH [of "[]"]
    have "splitByteAux CHR ''/'' [] (d @ concat (map (\<lambda>c. CHR ''/'' # c) ds)) = d # ds" by simp
    with Cons Cons.prems(1) show ?thesis
      using splitByteAux_sep [of "CHR ''/''" c "[]" "d @ concat (map (\<lambda>c. CHR ''/'' # c) ds)"] by (simp add: plainPart_def)
  qed
  show ?case by (simp add: step)
qed simp

lemma cleanRooted_id: "list_all plainPart cs \<Longrightarrow> cleanRooted acc cs = rev acc @ cs"
  by (induction cs arbitrary: acc) (simp_all add: plainPart_def)

lemma rootedParts_path:
  assumes "list_all plainPart cs"
  shows "rootedParts (rootedPath cs) = cs"
proof (cases "cs = []")
  case False
  have f: "filter (\<lambda>c. c \<noteq> [] \<and> c \<noteq> ''.'') cs = cs" using assms by (auto simp: list_all_iff plainPart_def filter_id_conv)
  have "pathParts (rootedPath cs) = cs"
    using False assms f by (simp add: pathParts_def rootedPath_def SplitByte_def splitByteAux_concat)
  then show ?thesis using assms by (simp add: rootedParts_def cleanRooted_id)
qed (simp add: rootedParts_def rootedPath_def pathParts_def SplitByte_def)

lemma rootedPath_abs: "IsAbs (rootedPath cs)"
  by (cases cs) (simp_all add: IsAbs_def rootedPath_def HasPrefix_def)

lemma Clean_abs: "IsAbs p \<Longrightarrow> IsAbs (Clean p)" "IsAbs p \<Longrightarrow> Clean (Clean p) = Clean p"
  "IsAbs p \<Longrightarrow> rootedParts (Clean p) = rootedParts p"
  by (simp_all add: Clean_def rootedPath_abs rootedParts_path rootedParts_plain)

lemma IsAbs_append: "IsAbs p \<Longrightarrow> IsAbs (p @ q)"
  by (auto simp: IsAbs_def HasPrefix_def prefix_def)

text \<open>An absolute path the program computes names the same file as the path it was computed from.\<close>

lemma AbsPath_locate:
  assumes "AbsPath wd p = Some a" "IsAbs cwd" "wd = None \<or> wd = Some cwd"
  shows "IsAbs a" "locate cwd p = a" "locate cwd a = a" "a \<noteq> []"
proof -
  have j: "cwd \<noteq> []" "IsAbs (cwd @ ''/'' @ p)" using assms(2) by (auto simp: IsAbs_append) (auto simp: IsAbs_def HasPrefix_def)
  obtain x where x: "IsAbs x" "a = Clean x" "locate cwd p = a"
  proof (cases "IsAbs p")
    case True
    with assms(1) that [of p] show thesis by (simp add: AbsPath_def locate_def)
  next
    case False
    with assms(1,3) that [of "cwd @ ''/'' @ p"] j show thesis by (auto simp: AbsPath_def locate_def JoinPath_def)
  qed
  then show a: "IsAbs a" and "locate cwd p = a" by (simp_all add: Clean_abs)
  show "locate cwd a = a" using a x by (simp add: locate_def AbsPath_def Clean_abs)
  show "a \<noteq> []" using a by (auto simp: IsAbs_def HasPrefix_def)
qed

end
