(* ===== verification/WebSubscriptions.thy ===== *)
theory WebSubscriptions
  imports WebNodesSpec FilePath
begin

text \<open>
  The handlers of the administration interface for subscriptions (\<open>webui/subscription_handlers.go\<close>). Beside the server
  they use the file system: pasted content is kept in a file of its own below the data directory until the subscription
  is deleted. Every system call may fail; an argument says which ones do.
\<close>

section \<open>Server and files\<close>

record 's FileServer =
  fsServer :: "'s WebServer"
  fsFiles :: files
  fsCwd :: string

type_synonym ('s, 'p) file_handler = "'s FileServer \<Rightarrow> 'p reply \<times> task list \<times> 's FileServer"

definition withServer :: "('s, 'p) handler \<Rightarrow> ('s, 'p) file_handler" where
  "withServer h fs = (case h (fsServer fs) of (r, ts, sv) \<Rightarrow> (r, ts, fs\<lparr>fsServer := sv\<rparr>))"

definition fsRefuse :: "nat \<Rightarrow> string \<Rightarrow> ('s, 'p) file_handler" where
  "fsRefuse code msg = withServer (refuse code msg)"

definition fsAnswer :: "'p \<Rightarrow> ('s, 'p) file_handler" where
  "fsAnswer p = withServer (answer p)"

definition fsPosted :: "string \<Rightarrow> 'q decoded \<Rightarrow> ('q \<Rightarrow> ('s, 'p) file_handler) \<Rightarrow> ('s, 'p) file_handler" where
  "fsPosted meth body k =
     (if meth \<noteq> ''POST'' then fsRefuse 405 ''method not allowed''
      else (case body of Body q \<Rightarrow> k q | b \<Rightarrow> withServer (decodeError b)))"

definition fsTables :: "'a db_op \<Rightarrow> 's FileServer \<Rightarrow> (store_error + 'a) \<times> 's FileServer" where
  "fsTables f fs = (case onTables f (fsServer fs) of (r, sv) \<Rightarrow> (r, fs\<lparr>fsServer := sv\<rparr>))"

text \<open>
  What the calls outside the program answer: the data directory, whether \<open>os.Getwd\<close>, \<open>Chmod\<close>, \<open>Close\<close>, \<open>Lstat\<close> and
  the removal work, the random part of the name of the new file, and after how many bytes the write stops, if it does.
\<close>

record fileEnv =
  feDataDir :: "string option"
  feMkdir :: bool
  feTemp :: "string option"
  feChmod :: bool
  feWritten :: "nat option"
  feClose :: bool
  feGetwd :: bool
  feLstat :: bool
  feRemove :: bool

definition getwd :: "fileEnv \<Rightarrow> 's FileServer \<Rightarrow> string option" where
  "getwd env fs = (if feGetwd env then Some (fsCwd fs) else None)"

definition setFile :: "string \<Rightarrow> fileEntry option \<Rightarrow> 's FileServer \<Rightarrow> 's FileServer" where
  "setFile p e fs = fs\<lparr>fsFiles := (fsFiles fs)(locate (fsCwd fs) p := e)\<rparr>"

text \<open>\<open>os.Remove\<close> of a file; an empty name names no file.\<close>

definition removeFile :: "fileEnv \<Rightarrow> string \<Rightarrow> 's FileServer \<Rightarrow> bool \<times> 's FileServer" where
  "removeFile env p fs = (if feRemove env \<and> p \<noteq> [] then (True, setFile p None fs) else (False, fs))"

definition maxSubscriptionFileContentBytes :: nat where
  "maxSubscriptionFileContentBytes = 2 ^ 20"

text \<open>The mode is \<open>0600\<close> from the creation on. The flag says whether the file was written.\<close>

definition ownerOnly :: nat where
  "ownerOnly = 384"

definition writeSubscriptionFile :: "fileEnv \<Rightarrow> string \<Rightarrow> string \<Rightarrow> 's FileServer \<Rightarrow> bool \<times> 's FileServer" where
  "writeSubscriptionFile env p content fs =
     (let written = (if \<not> feChmod env then [] else (case feWritten env of None \<Rightarrow> content | Some n \<Rightarrow> take n content));
          fs1 = setFile p (Some (Regular ownerOnly written)) fs in
      if feChmod env \<and> feWritten env = None \<and> feClose env then (True, fs1)
      else (False, snd (removeFile env p fs1)))"

section \<open>Lists and status\<close>

record subWithStats =
  ssSubscription :: Subscription
  ssActiveCount :: int
  ssDisabledCount :: int
  ssPausedCount :: int

fun subscriptionStats :: "Subscription list \<Rightarrow> subWithStats list db_op" where
  "subscriptionStats [] = returnOp []"
| "subscriptionStats (s # ss) =
     bindOp (CountBySubscriptionID (sID s)) (\<lambda>(active, disabled).
       bindOp (CountPausedBySubscriptionID (sID s)) (\<lambda>paused.
         bindOp (subscriptionStats ss) (\<lambda>rest.
           returnOp (\<lparr>ssSubscription = s, ssActiveCount = active, ssDisabledCount = disabled, ssPausedCount = paused\<rparr> # rest))))"

definition apiSubscriptions :: "('s, subWithStats list) handler" where
  "apiSubscriptions sv =
     (case onTables (bindOp GetSubscriptions subscriptionStats) sv of
        (Inl e, sv1) \<Rightarrow> refuse 500 ''failed to list subscriptions'' sv1
      | (Inr rows, sv1) \<Rightarrow> answer rows sv1)"

text \<open>\<open>None\<close> stands for the document with zeroes of a server without a manager.\<close>

definition apiCustomStatus :: "('s, 'e, 'x) tunnelRuntime \<Rightarrow> ('s, managerStatus option) handler" where
  "apiCustomStatus ops sv =
     (if \<not> wsManaged sv then answer None sv
      else (case GetStatus ops (wsManager sv) of (st, m) \<Rightarrow> answer (Some st) (sv\<lparr>wsManager := m\<rparr>)))"

section \<open>Adding\<close>

record MetaRequest =
  srName :: string
  srURL :: string
  srRefreshMin :: int
  srHeaders :: string

record SubscriptionRequest = MetaRequest +
  srFileContent :: string

text \<open>The name of a subscription without one, in UTF-8.\<close>

definition defaultName :: string where
  "defaultName = [CHR 0xE8, CHR 0xAE, CHR 0xA2, CHR 0xE9, CHR 0x98, CHR 0x85]"

text \<open>The name \<open>os.CreateTemp(subDir, "sub_*.yaml")\<close> gives to a file, with the random part \<open>r\<close>.\<close>

definition tempName :: "string \<Rightarrow> string \<Rightarrow> string" where
  "tempName subDir r = subDir @ ''/sub_'' @ r @ ''.yaml''"

text \<open>
  Keeping the pasted content: the path of the file, or nothing without content, or the refusal. When the absolute path
  cannot be found, the variable with the path has already lost it.
\<close>

definition keepContent :: "fileEnv \<Rightarrow> string \<Rightarrow> 's FileServer \<Rightarrow> ((nat \<times> string) + string) \<times> 's FileServer" where
  "keepContent env content fs =
     (if content = [] then (Inr [], fs)
      else
        (case feDataDir env of
           None \<Rightarrow> (Inl (500, ''failed to resolve data directory''), fs)
         | Some dataDir \<Rightarrow>
             (let failed = Inl (500, ''failed to save subscription file''); subDir = JoinPath dataDir ''subscriptions'' in
              if \<not> feMkdir env then (failed, fs)
              else
                (case feTemp env of
                   None \<Rightarrow> (failed, fs)
                 | Some r \<Rightarrow>
                     (let name = tempName subDir r in
                      if fsFiles fs (locate (fsCwd fs) name) \<noteq> None then (failed, fs)
                      else
                        (case writeSubscriptionFile env name content fs of
                           (False, fs1) \<Rightarrow> (failed, fs1)
                         | (True, fs1) \<Rightarrow>
                             (case AbsPath (getwd env fs1) name of
                                None \<Rightarrow> (failed, snd (removeFile env [] fs1))
                              | Some a \<Rightarrow> (Inr a, fs1))))))))"

text \<open>The validation reads the file that was just written; everything else of the fetch is as for a refresh.\<close>

definition validateNew :: "'e refreshEnv \<Rightarrow> string \<Rightarrow> string \<Rightarrow> string \<Rightarrow> 's FileServer \<Rightarrow> 'x managerError + int" where
  "validateNew renv url filePath headers fs =
     ValidateSubscription (renv\<lparr>reReadFile := readFile (fsCwd fs) (fsFiles fs)\<rparr>) url filePath headers"

definition dropFile :: "fileEnv \<Rightarrow> string \<Rightarrow> 's FileServer \<Rightarrow> 's FileServer" where
  "dropFile env p fs = (if p = [] then fs else snd (removeFile env p fs))"

text \<open>\<open>interval\<close> is the refresh interval of the published configuration.\<close>

definition apiSubscriptionAdd ::
    "fileEnv \<Rightarrow> 'e refreshEnv \<Rightarrow> int \<Rightarrow> string \<Rightarrow> SubscriptionRequest decoded \<Rightarrow> ('s, int) file_handler" where
  "apiSubscriptionAdd env renv interval meth body =
     fsPosted meth body (\<lambda>q fs.
       if length (srFileContent q) > maxSubscriptionFileContentBytes then fsRefuse 413 ''file_content too large'' fs
       else if srURL q = [] \<and> srFileContent q = [] then fsRefuse 400 ''no url and no file'' fs
       else if \<not> ValidateSubscriptionHeaders (srHeaders q) then fsRefuse 400 ''invalid headers'' fs
       else
         (let refreshMin = (if srRefreshMin q \<le> 0 then interval else srRefreshMin q);
              name = (if srName q = [] then defaultName else srName q) in
          case keepContent env (srFileContent q) fs of
            (Inl (code, msg), fs1) \<Rightarrow> fsRefuse code msg fs1
          | (Inr filePath, fs1) \<Rightarrow>
              if wsManaged (fsServer fs1) \<and> isl (validateNew renv (srURL q) filePath (srHeaders q) fs1 :: unit managerError + int)
              then fsRefuse 400 ''subscription validation failed'' (dropFile env filePath fs1)
              else
                (case fsTables (AddSubscription name (srURL q) filePath ''auto'' refreshMin (srHeaders q)) fs1 of
                   (Inl e, fs2) \<Rightarrow> fsRefuse 500 ''failed to add subscription'' (dropFile env filePath fs2)
                 | (Inr i, fs2) \<Rightarrow> (Answer i, if wsManaged (fsServer fs2) then [RefreshTask i] else [], fs2))))"

section \<open>Deleting\<close>

text \<open>The flag is false when an error is reported; a file outside the managed directory is left alone without one.\<close>

definition removeManagedSubscriptionFile :: "fileEnv \<Rightarrow> string \<Rightarrow> 's FileServer \<Rightarrow> bool \<times> 's FileServer" where
  "removeManagedSubscriptionFile env filePath fs =
     (if filePath = [] then (True, fs)
      else
        (case feDataDir env of
           None \<Rightarrow> (False, fs)
         | Some dataDir \<Rightarrow>
             (case (AbsPath (getwd env fs) (JoinPath dataDir ''subscriptions''), AbsPath (getwd env fs) filePath) of
                (Some managedDir, Some candidate) \<Rightarrow>
                  (let rel = Rel managedDir candidate in
                   if rel = ''..'' \<or> HasPrefix rel ''../'' then (True, fs)
                   else if \<not> feLstat env then (False, fs)
                   else (case fsFiles fs candidate of
                           None \<Rightarrow> (True, fs)
                         | Some Directory \<Rightarrow> (True, fs)
                         | Some (Regular m c) \<Rightarrow> removeFile env candidate fs))
              | _ \<Rightarrow> (False, fs))))"

text \<open>The body of a request that only names a subscription is its id.\<close>

definition fsManager :: "('s, 'x, 'a) mgr \<Rightarrow> 's FileServer \<Rightarrow> ('x managerError + 'a) \<times> 's FileServer" where
  "fsManager f fs = (case onManager f (fsServer fs) of (r, sv) \<Rightarrow> (r, fs\<lparr>fsServer := sv\<rparr>))"

definition apiSubscriptionDelete ::
    "('s, 'e, 'x) tunnelRuntime \<Rightarrow> fileEnv \<Rightarrow> 'e refreshEnv \<Rightarrow> string \<Rightarrow> int decoded \<Rightarrow> ('s, string) file_handler" where
  "apiSubscriptionDelete ops env renv meth body =
     fsPosted meth body (\<lambda>i fs.
       if i \<le> 0 then fsRefuse 400 ''invalid request'' fs
       else
         (case fsTables (GetSubscription i) fs of
            (Inl e, fs1) \<Rightarrow> fsRefuse 500 ''failed to delete subscription'' fs1
          | (Inr sub, fs1) \<Rightarrow>
              (case (if wsManaged (fsServer fs1)
                     then (case fsManager (DeleteSubscription_mgr ops renv i) fs1 of (r, fs2) \<Rightarrow> (\<not> isl r, fs2))
                     else (case fsTables (DeleteSubscription i) fs1 of (r, fs2) \<Rightarrow> (\<not> isl r, fs2))) of
                 (False, fs2) \<Rightarrow> fsRefuse 500 ''failed to delete subscription'' fs2
               | (True, fs2) \<Rightarrow>
                   (case removeManagedSubscriptionFile env (sFilePath sub) fs2 of
                      (False, fs3) \<Rightarrow> fsRefuse 500 ''subscription deleted but file cleanup failed'' fs3
                    | (True, fs3) \<Rightarrow> fsAnswer ''deleted'' fs3))))"

section \<open>Refreshing, pausing and changing\<close>

definition startRefresh :: "bool \<Rightarrow> task \<Rightarrow> string \<Rightarrow> ('s, string) handler" where
  "startRefresh wanted task status sv = (Answer status, if wanted \<and> wsManaged sv then [task] else [], sv)"

definition apiSubscriptionRefresh :: "string \<Rightarrow> int decoded \<Rightarrow> ('s, string) handler" where
  "apiSubscriptionRefresh meth body =
     posted meth body (\<lambda>i.
       if i \<le> 0 then refuse 400 ''invalid request'' else startRefresh True (RefreshTask i) ''refresh started'')"

definition apiSubscriptionRefreshAll :: "string \<Rightarrow> ('s, string) handler" where
  "apiSubscriptionRefreshAll meth =
     (if meth \<noteq> ''POST'' then refuse 405 ''method not allowed'' else startRefresh True RefreshAllTask ''refresh all started'')"

definition apiSubscriptionToggle :: "string \<Rightarrow> int decoded \<Rightarrow> ('s, string) handler" where
  "apiSubscriptionToggle meth body =
     posted meth body (\<lambda>i sv.
       if i \<le> 0 then refuse 400 ''invalid request'' sv
       else
         (case onTables (ToggleSubscription i) sv of
            (Inl e, sv1) \<Rightarrow> refuse 500 ''failed to toggle subscription'' sv1
          | (Inr status, sv1) \<Rightarrow> startRefresh (status = ''active'') (RefreshTask i) status sv1))"

record UpdateRequest = MetaRequest +
  urID :: int

definition apiSubscriptionUpdate :: "string \<Rightarrow> UpdateRequest decoded \<Rightarrow> ('s, string) handler" where
  "apiSubscriptionUpdate meth body =
     posted meth body (\<lambda>q sv.
       if urID q \<le> 0 then refuse 400 ''invalid request'' sv
       else if \<not> ValidateSubscriptionHeaders (srHeaders q) then refuse 400 ''invalid headers'' sv
       else
         (case onTables (GetSubscription (urID q)) sv of
            (Inl e, sv1) \<Rightarrow> refuse 404 ''subscription not found'' sv1
          | (Inr existing, sv1) \<Rightarrow>
              if srURL q = [] \<and> sFilePath existing = [] then refuse 400 ''no url'' sv1
              else
                (case onTables (UpdateSubscription (urID q) (if srName q = [] then sName existing else srName q) (srURL q)
                        (sFilePath existing) (sFormat existing)
                        (if srRefreshMin q \<le> 0 then sRefreshMin existing else srRefreshMin q) (srHeaders q)) sv1 of
                   (Inl e, sv2) \<Rightarrow> refuse 500 ''failed to update subscription'' sv2
                 | (Inr u, sv2) \<Rightarrow> startRefresh True (RefreshTask (urID q)) ''updated'' sv2)))"

end
