(* ===== verification/WebSubscriptionsSpec.thy ===== *)
theory WebSubscriptionsSpec
  imports WebSubscriptions
begin

text \<open>
  What the subscription handlers promise: adding a subscription does all of it or nothing, but for the new file when a
  call to find its path or to remove it fails; deleting one removes at most the file of that subscription, which lies
  below the managed directory.
\<close>

section \<open>Steps\<close>

lemma withServer_files:
  "withServer h fs = (r, ts, fs1) \<Longrightarrow> fsFiles fs1 = fsFiles fs \<and> fsCwd fs1 = fsCwd fs"
  by (auto simp: withServer_def split: prod.splits)

lemma fsRefuse_simp [simp]: "fsRefuse c m fs = (Refusal c m, [], fs)"
  by (simp add: fsRefuse_def withServer_def refuse_def)

lemma fsAnswer_simp [simp]: "fsAnswer p fs = (Answer p, [], fs)"
  by (simp add: fsAnswer_def withServer_def answer_def)

definition fsDB :: "'s FileServer \<Rightarrow> DB" where
  "fsDB fs = wsTables (fsServer fs)"

lemma fsTables_cases:
  assumes "fsTables f fs = (r, fs1)"
  shows "f (fsDB fs) = (r, fsDB fs1)" "fsFiles fs1 = fsFiles fs" "fsCwd fs1 = fsCwd fs"
    "wsManaged (fsServer fs1) = wsManaged (fsServer fs)"
  using assms by (auto simp: fsTables_def onTables_unfold fsDB_def)

lemma setFile_simps [simp]:
  "fsServer (setFile p e fs) = fsServer fs" "fsCwd (setFile p e fs) = fsCwd fs"
  "fsFiles (setFile p e fs) = (fsFiles fs)(locate (fsCwd fs) p := e)"
  by (simp_all add: setFile_def)

lemma removeFile_simps [simp]:
  "fsServer (snd (removeFile env p fs)) = fsServer fs" "fsCwd (snd (removeFile env p fs)) = fsCwd fs"
  "fsServer (dropFile env p fs) = fsServer fs" "fsCwd (dropFile env p fs) = fsCwd fs"
  by (simp_all add: removeFile_def dropFile_def)

text \<open>
  The one file a request may make. An error removes it again, unless the removal fails or, for a relative name, the path
  was lost with the directory of the process; what stays then is content of the request only its owner can read.
\<close>

definition freshFile :: "fileEnv \<Rightarrow> 's FileServer \<Rightarrow> string \<Rightarrow> bool" where
  "freshFile env fs p \<longleftrightarrow>
     (\<exists>d r. feDataDir env = Some d \<and> feTemp env = Some r \<and>
        p = locate (fsCwd fs) (tempName (JoinPath d ''subscriptions'') r) \<and> fsFiles fs p = None \<and>
        (feRemove env \<longrightarrow> \<not> feGetwd env \<and> \<not> IsAbs (tempName (JoinPath d ''subscriptions'') r)))"

definition leftBehind :: "fileEnv \<Rightarrow> string \<Rightarrow> 's FileServer \<Rightarrow> 's FileServer \<Rightarrow> bool" where
  "leftBehind env content fs fs1 \<longleftrightarrow>
     (\<exists>p n. freshFile env fs p \<and> fsFiles fs1 = (fsFiles fs)(p := Some (Regular ownerOnly (take n content))))"

lemma leftBehindI:
  "freshFile env fs p \<Longrightarrow> fsFiles fs1 = (fsFiles fs)(p := Some (Regular ownerOnly (take n content))) \<Longrightarrow> leftBehind env content fs fs1"
  unfolding leftBehind_def by blast

text \<open>What keeping the content leaves when it succeeds: the one new file holds the content.\<close>

definition keptContent :: "fileEnv \<Rightarrow> string \<Rightarrow> string \<Rightarrow> 's FileServer \<Rightarrow> 's FileServer \<Rightarrow> bool" where
  "keptContent env content p fs fs1 \<longleftrightarrow> fsServer fs1 = fsServer fs \<and> fsCwd fs1 = fsCwd fs \<and>
     (if content = [] then p = [] \<and> fsFiles fs1 = fsFiles fs
      else IsAbs p \<and> locate (fsCwd fs) p = p \<and> fsFiles fs p = None \<and> (\<not> feRemove env \<longrightarrow> freshFile env fs p) \<and>
        fsFiles fs1 = (fsFiles fs)(p := Some (Regular ownerOnly content)))"

lemma writeFile_result:
  assumes "writeSubscriptionFile env p content fs = (w, fs1)" "fsFiles fs (locate (fsCwd fs) p) = None" "p \<noteq> []"
  shows "fsServer fs1 = fsServer fs" "fsCwd fs1 = fsCwd fs"
    "w \<Longrightarrow> fsFiles fs1 = (fsFiles fs)(locate (fsCwd fs) p := Some (Regular ownerOnly content))"
    "\<not> w \<Longrightarrow> fsFiles fs1 = fsFiles fs \<or>
       \<not> feRemove env \<and> (\<exists>n. fsFiles fs1 = (fsFiles fs)(locate (fsCwd fs) p := Some (Regular ownerOnly (take n content))))"
proof -
  have z: "take 0 content = []" "take (length content) content = content" by simp_all
  show "fsServer fs1 = fsServer fs" "fsCwd fs1 = fsCwd fs"
    "w \<Longrightarrow> fsFiles fs1 = (fsFiles fs)(locate (fsCwd fs) p := Some (Regular ownerOnly content))"
    "\<not> w \<Longrightarrow> fsFiles fs1 = fsFiles fs \<or>
       \<not> feRemove env \<and> (\<exists>n. fsFiles fs1 = (fsFiles fs)(locate (fsCwd fs) p := Some (Regular ownerOnly (take n content))))"
    using assms z
    by (auto simp: writeSubscriptionFile_def Let_def removeFile_def fun_upd_idem split: if_splits option.splits; metis)+
qed

lemma keepContent_result:
  assumes "keepContent env content fs = (r, fs1)" "IsAbs (fsCwd fs)"
  shows "case r of Inl e \<Rightarrow> fsServer fs1 = fsServer fs \<and> (fsFiles fs1 = fsFiles fs \<or> leftBehind env content fs fs1)
    | Inr p \<Rightarrow> keptContent env content p fs fs1"
proof (cases "content = [] \<or> feDataDir env = None \<or> \<not> feMkdir env \<or> feTemp env = None")
  case True
  with assms(1) show ?thesis by (auto simp: keepContent_def keptContent_def Let_def split: option.splits if_splits)
next
  case False
  then obtain d t where e: "feDataDir env = Some d" "feTemp env = Some t" "content \<noteq> []" "feMkdir env" by auto
  define name where "name = tempName (JoinPath d ''subscriptions'') t"
  show ?thesis
  proof (cases "fsFiles fs (locate (fsCwd fs) name)")
    case (Some x)
    with assms(1) e show ?thesis by (auto simp: keepContent_def Let_def name_def)
  next
    case None
    obtain w fs2 where w: "writeSubscriptionFile env name content fs = (w, fs2)" by fastforce
    have n: "name \<noteq> []" by (simp add: name_def tempName_def)
    note wr = writeFile_result [OF w None n]
    have fresh: "freshFile env fs (locate (fsCwd fs) name)" if "feRemove env \<longrightarrow> \<not> feGetwd env \<and> \<not> IsAbs name"
      unfolding freshFile_def using e(1,2) None that by (simp add: name_def)
    show ?thesis
    proof (cases w)
      case False
      with assms(1) e None w have "isl r" "fs1 = fs2" by (auto simp: keepContent_def Let_def name_def [symmetric])
      with wr(1) wr(4) [OF False] fresh show ?thesis by (auto simp: isl_def intro: leftBehindI)
    next
      case True
      have all: "fsFiles fs2 = (fsFiles fs)(locate (fsCwd fs) name := Some (Regular ownerOnly (take (length content) content)))"
        using wr(3) [OF True] by simp
      show ?thesis
      proof (cases "AbsPath (getwd env fs2) name")
        case lost: None
        then have "\<not> feGetwd env \<and> \<not> IsAbs name" by (auto simp: AbsPath_def getwd_def split: if_splits)
        moreover from assms(1) e None w True lost have "isl r" "fs1 = fs2"
          by (auto simp: keepContent_def Let_def name_def [symmetric] removeFile_def)
        ultimately show ?thesis using leftBehindI [OF fresh all] wr(1) by (auto simp: isl_def)
      next
        case (Some a)
        have "getwd env fs2 = None \<or> getwd env fs2 = Some (fsCwd fs)" using wr(2) by (simp add: getwd_def)
        note l = AbsPath_locate [OF Some assms(2) this]
        from assms(1) e None w True Some have "r = Inr a" "fs1 = fs2"
          by (simp_all add: keepContent_def Let_def name_def [symmetric])
        with wr True l e(3) None fresh show ?thesis by (simp add: keptContent_def)
      qed
    qed
  qed
qed

lemma AddSubscription_result:
  assumes "AddSubscription name url p fmt rm hs d = (Inr i, d1)"
  shows "\<exists>s. subscriptions d1 = subscriptions d @ [s] \<and> proxies d1 = proxies d \<and> sID s = i \<and> sName s = name \<and> sURL s = url \<and>
    sFilePath s = p \<and> sHeaders s = hs \<and> sStatus s = ''active'' \<and> sRefreshMin s = rm"
proof -
  define s0 where "s0 = defaultSubscription\<lparr>sName := name, sURL := url, sFilePath := p, sFormat := fmt, sRefreshMin := rm, sHeaders := hs\<rparr>"
  have "insertSubscription s0 d = (Inr i, d1)"
    using onUnique_InrD [OF assms [unfolded AddSubscription_def]] by (simp add: s0_def)
  then have "subscriptions d1 = subscriptions d @ [s0\<lparr>sID := i, sCreatedAt := now (dropFault d)\<rparr>]" "proxies d1 = proxies d"
    by (auto simp: insertSubscription_def execSQL_unfold Let_def split: if_splits)
  then show ?thesis by (simp add: s0_def defaultSubscription_def)
qed

lemma atomic_AddSubscription: "atomicOp (AddSubscription name url p fmt rm hs)"
  unfolding AddSubscription_def by (intro onUnique_atomic atomic_insertSubscription)

text \<open>Dropping the kept file again gives the files from before, unless the removal fails.\<close>

lemma dropFile_kept:
  assumes "keptContent env content p fs fs1" "fsFiles fs2 = fsFiles fs1" "fsCwd fs2 = fsCwd fs1" "fs3 = dropFile env p fs2"
  shows "fsFiles fs3 = fsFiles fs \<or> leftBehind env content fs fs3"
proof (cases "content = [] \<or> feRemove env")
  case True
  then show ?thesis
    using assms by (auto simp: keptContent_def dropFile_def removeFile_def fun_upd_idem IsAbs_def HasPrefix_def split: if_splits)
next
  case False
  then have "freshFile env fs p" "fsFiles fs3 = (fsFiles fs)(p := Some (Regular ownerOnly (take (length content) content)))"
    using assms by (simp_all add: keptContent_def dropFile_def removeFile_def)
  then show ?thesis by (intro disjI2 leftBehindI)
qed

section \<open>Adding\<close>

text \<open>
  C24: Adding a subscription does all of it or nothing, but for one file in two named cases. If it is refused, for
  whatever reason (the request, a failing system call, a source that does not give a single node, the tables), the
  tables are as before and nothing is started; the files are as before too, unless the removal of the new file fails, or
  the file has a relative name and the directory of the process cannot be found: then exactly one file more stays, which
  did not exist before, holds pasted content of the request and can be read by its owner only. If it is answered, there
  is exactly one new subscription, active, with the URL and the headers of the request; pasted content is the content of
  one new file only its owner can read, under the absolute path the row names; with a manager, the source gave nodes and
  a refresh is started, without one nothing is started. The directory of the process, known or not, is an absolute path,
  and the tables are consistent.
\<close>

theorem subscription_add_all_or_nothing:
  fixes fs :: "'s FileServer"
  assumes "apiSubscriptionAdd env renv interval meth (Body q) fs = (rep, ts, fs1)" "db_inv (fsDB fs)"
    "IsAbs (fsCwd fs)"
  shows "case rep of
      Answer i \<Rightarrow> \<exists>s. subscriptions (fsDB fs1) = subscriptions (fsDB fs) @ [s] \<and> proxies (fsDB fs1) = proxies (fsDB fs) \<and>
        sID s = i \<and> sURL s = srURL q \<and> sHeaders s = srHeaders q \<and> sStatus s = ''active'' \<and>
        (if srFileContent q = [] then sFilePath s = [] \<and> fsFiles fs1 = fsFiles fs
         else IsAbs (sFilePath s) \<and> fsFiles fs (sFilePath s) = None \<and>
           fsFiles fs1 = (fsFiles fs)(sFilePath s := Some (Regular ownerOnly (srFileContent q)))) \<and>
        (if wsManaged (fsServer fs)
         then ts = [RefreshTask i] \<and> \<not> isl (validateNew renv (srURL q) (sFilePath s) (srHeaders q) fs1 :: unit managerError + int)
         else ts = [])
    | _ \<Rightarrow> tables (fsDB fs1) = tables (fsDB fs) \<and> ts = [] \<and>
        (fsFiles fs1 = fsFiles fs \<or> leftBehind env (srFileContent q) fs fs1)"
proof (cases "meth \<noteq> ''POST'' \<or> length (srFileContent q) > maxSubscriptionFileContentBytes \<or>
    (srURL q = [] \<and> srFileContent q = []) \<or> \<not> ValidateSubscriptionHeaders (srHeaders q)")
  case True
  then have "\<exists>c m. rep = Refusal c m" "fs1 = fs" "ts = []"
    using assms(1) by (auto simp: apiSubscriptionAdd_def fsPosted_def split: if_splits)
  then show ?thesis by auto
next
  case False
  define nm where "nm = (if srName q = [] then defaultName else srName q)"
  define rm where "rm = (if srRefreshMin q \<le> 0 then interval else srRefreshMin q)"
  define bad where "bad = (\<lambda>p (f :: 's FileServer). wsManaged (fsServer f) \<and> isl (validateNew renv (srURL q) p (srHeaders q) f :: unit managerError + int))"
  obtain k fk where k: "keepContent env (srFileContent q) fs = (k, fk)" by fastforce
  note kr = keepContent_result [OF k assms(3)]
  have h: "(case k of Inl (code, msg) \<Rightarrow> fsRefuse code msg fk
      | Inr p \<Rightarrow> if bad p fk then fsRefuse 400 ''subscription validation failed'' (dropFile env p fk)
          else (case fsTables (AddSubscription nm (srURL q) p ''auto'' rm (srHeaders q)) fk of
              (Inl e, fs2) \<Rightarrow> fsRefuse 500 ''failed to add subscription'' (dropFile env p fs2)
            | (Inr i, fs2) \<Rightarrow> (Answer i, if wsManaged (fsServer fs2) then [RefreshTask i] else [], fs2))) = (rep, ts, fs1)"
    using assms(1) False
    by (simp only: apiSubscriptionAdd_def fsPosted_def decoded.case Let_def nm_def [symmetric] rm_def [symmetric] k prod.case
        bad_def if_False simp_thms not_not de_Morgan_disj)
  show ?thesis
  proof (cases k)
    case (Inl e)
    with h kr show ?thesis by (cases e) (auto simp: fsDB_def)
  next
    case (Inr p)
    with kr have kc: "keptContent env (srFileContent q) p fs fk" by simp
    then have same: "fsDB fk = fsDB fs" "wsManaged (fsServer fk) = wsManaged (fsServer fs)" by (simp_all add: keptContent_def fsDB_def)
    show ?thesis
    proof (cases "bad p fk")
      case True
      with h Inr have "rep = Refusal 400 ''subscription validation failed''" "ts = []" "fs1 = dropFile env p fk" by auto
      with dropFile_kept [OF kc refl refl] same show ?thesis by (simp add: fsDB_def)
    next
      case ok: False
      obtain a fa where a: "fsTables (AddSubscription nm (srURL q) p ''auto'' rm (srHeaders q)) fk = (a, fa)" by fastforce
      note at = fsTables_cases [OF a]
      show ?thesis
      proof (cases a)
        case (Inl e)
        with h \<open>k = Inr p\<close> ok a have "rep = Refusal 500 ''failed to add subscription''" "ts = []" "fs1 = dropFile env p fa" by auto
        moreover have "tables (fsDB fa) = tables (fsDB fs)"
          using atomicD [OF atomic_AddSubscription, of "fsDB fk" nm "srURL q" p "''auto''" rm "srHeaders q" e "fsDB fa"] at(1) Inl same(1) assms(2)
          by simp
        ultimately show ?thesis using dropFile_kept [OF kc at(2,3)] by (simp add: fsDB_def)
      next
        case (Inr i)
        with h \<open>k = Inr p\<close> ok a have r: "rep = Answer i" "fs1 = fa" "ts = (if wsManaged (fsServer fa) then [RefreshTask i] else [])" by auto
        from AddSubscription_result [OF at(1) [unfolded Inr]] obtain s where
          s: "subscriptions (fsDB fa) = subscriptions (fsDB fs) @ [s]" "proxies (fsDB fa) = proxies (fsDB fs)" "sID s = i"
            "sURL s = srURL q" "sFilePath s = p" "sHeaders s = srHeaders q" "sStatus s = ''active''"
          unfolding same(1) by auto
        have v: "\<not> isl (validateNew renv (srURL q) p (srHeaders q) fa :: unit managerError + int)" if "wsManaged (fsServer fs)"
          using ok that same(2) at(2,3) by (simp add: bad_def validateNew_def)
        show ?thesis using kc at(2,4) same(2) s v unfolding r(1,3) r(2) reply.case
          by (intro exI [of _ s]) (auto simp: keptContent_def split: if_splits)
      qed
    qed
  qed
qed

text \<open>
  A server with empty tables and a manager, and a request with pasted content: where every call works and the content
  gives a node, and where it gives none and the removal fails.
\<close>

definition emptyServer :: "unit FileServer" where
  "emptyServer = \<lparr>fsServer = handServer\<lparr>wsManager := \<lparr>mgDB = emptyDB 0 [], mgRuntime = (), mgStopped = False, mgEvicted = []\<rparr>,
     wsManaged := True\<rparr>, fsFiles = (\<lambda>p. None), fsCwd = ''/''\<rparr>"

definition allWorks :: fileEnv where
  "allWorks = \<lparr>feDataDir = Some ''/d'', feMkdir = True, feTemp = Some ''1'', feChmod = True, feWritten = None, feClose = True,
     feGetwd = True, feLstat = True, feRemove = True\<rparr>"

definition pasteRequest :: SubscriptionRequest where
  "pasteRequest = \<lparr>srName = ''n'', srURL = [], srRefreshMin = 5, srHeaders = [], srFileContent = ''h:1''\<rparr>"

lemma emptyServer_facts:
  "wsManaged (fsServer emptyServer)" "wsTables (fsServer emptyServer) = emptyDB 0 []" "db_inv (fsDB emptyServer)"
  "IsAbs (fsCwd emptyServer)" "subscriptions (fsDB emptyServer) = []" "srFileContent pasteRequest = ''h:1''"
proof -
  show t: "wsManaged (fsServer emptyServer)" "wsTables (fsServer emptyServer) = emptyDB 0 []"
    by (simp_all add: emptyServer_def handServer_def wsTables_def)
  show "srFileContent pasteRequest = ''h:1''" by (simp add: pasteRequest_def)
  show "db_inv (fsDB emptyServer)" "subscriptions (fsDB emptyServer) = []" unfolding fsDB_def t by code_simp+
  show "IsAbs (fsCwd emptyServer)" by code_simp
qed

definition pasteFile :: string where
  "pasteFile = ''/d/subscriptions/sub_1.yaml''"

lemma paste_path: "tempName (JoinPath ''/d'' ''subscriptions'') ''1'' = pasteFile" "AbsPath (Some ''/'') pasteFile = Some pasteFile"
  "ValidateSubscriptionHeaders []" "locate ''/'' pasteFile = pasteFile" "pasteFile \<noteq> []"
  by code_simp+

lemma paste_kept: "keepContent (allWorks\<lparr>feRemove := b\<rparr>) ''h:1'' emptyServer =
    (Inr pasteFile, setFile pasteFile (Some (Regular ownerOnly ''h:1'')) emptyServer)"
  by (simp add: keepContent_def allWorks_def paste_path(1,2) Let_def emptyServer_def writeSubscriptionFile_def getwd_def)

lemma paste_valid: "isl (validateNew (sampleRefresh ns) [] pasteFile []
    (setFile pasteFile (Some (Regular ownerOnly ''h:1'')) emptyServer) :: unit managerError + int) = (ns = [])"
proof -
  have "readFile ''/'' ((fsFiles emptyServer)(pasteFile := Some (Regular ownerOnly ''h:1''))) pasteFile = Some ''h:1''"
    by (simp add: readFile_def paste_path(4))
  moreover have "fsCwd emptyServer = ''/''" by (simp add: emptyServer_def)
  ultimately show ?thesis
    using paste_path(4,5) by (simp add: validateNew_def ValidateSubscription_def fetchSubscriptionData_def defaultSubscription_def sampleRefresh_def)
qed

theorem subscription_add_all_or_nothing_witness:
  "(case apiSubscriptionAdd allWorks (sampleRefresh [sampleTunnel ''trojan'']) 60 ''POST'' (Body pasteRequest) emptyServer of (rep, ts, fs1) \<Rightarrow>
     rep = Answer 1 \<and> ts = [RefreshTask 1] \<and> map sFilePath (subscriptions (fsDB fs1)) = [pasteFile] \<and>
     fsFiles fs1 pasteFile = Some (Regular 384 ''h:1'')) \<and>
   (case apiSubscriptionAdd (allWorks\<lparr>feRemove := False\<rparr>) (sampleRefresh []) 60 ''POST'' (Body pasteRequest) emptyServer of (rep, ts, fs1) \<Rightarrow>
     rep = Refusal 400 ''subscription validation failed'' \<and> ts = [] \<and> tables (fsDB fs1) = tables (emptyDB 0 []) \<and>
     leftBehind (allWorks\<lparr>feRemove := False\<rparr>) ''h:1'' emptyServer fs1)"
proof -
  note u = emptyServer_facts
  have "case AddSubscription ''n'' [] pasteFile ''auto'' 5 [] (emptyDB 0 []) of (r, d) \<Rightarrow> r = Inr 1 \<and> map sFilePath (subscriptions d) = [pasteFile]"
    by code_simp
  then obtain d where d: "AddSubscription ''n'' [] pasteFile ''auto'' 5 [] (emptyDB 0 []) = (Inr 1, d)" "map sFilePath (subscriptions d) = [pasteFile]"
    by (cases "AddSubscription ''n'' [] pasteFile ''auto'' 5 [] (emptyDB 0 [])") simp
  have w: "allWorks = allWorks\<lparr>feRemove := True\<rparr>" by (simp add: allWorks_def)
  obtain rep ts fs1 where r: "apiSubscriptionAdd allWorks (sampleRefresh [sampleTunnel ''trojan'']) 60 ''POST'' (Body pasteRequest) emptyServer =
      (rep, ts, fs1)" by (metis prod_cases3)
  have e: "rep = Answer 1 \<and> ts = [RefreshTask 1] \<and> map sFilePath (subscriptions (fsDB fs1)) = [pasteFile]"
    using r paste_kept [of True] paste_valid [of "[sampleTunnel ''trojan'']"]
    by (auto simp: apiSubscriptionAdd_def fsPosted_def pasteRequest_def maxSubscriptionFileContentBytes_def paste_path u(1,2)
        w [symmetric] fsTables_def onTables_unfold d fsDB_def)
  from subscription_add_all_or_nothing [OF r u(3,4)] e u(5,6) obtain s where
    "subscriptions (fsDB fs1) = [s]" "fsFiles fs1 = (fsFiles emptyServer)(sFilePath s := Some (Regular ownerOnly ''h:1''))"
    by auto
  with r e have one: "case apiSubscriptionAdd allWorks (sampleRefresh [sampleTunnel ''trojan'']) 60 ''POST'' (Body pasteRequest) emptyServer of
      (rep, ts, fs1) \<Rightarrow> rep = Answer 1 \<and> ts = [RefreshTask 1] \<and> map sFilePath (subscriptions (fsDB fs1)) = [pasteFile] \<and>
      fsFiles fs1 pasteFile = Some (Regular 384 ''h:1'')" by (simp add: ownerOnly_def)
  let ?env = "allWorks\<lparr>feRemove := False\<rparr>"
  obtain rep' ts' fs' where r': "apiSubscriptionAdd ?env (sampleRefresh []) 60 ''POST'' (Body pasteRequest) emptyServer = (rep', ts', fs')"
    by (metis prod_cases3)
  have e': "rep' = Refusal 400 ''subscription validation failed'' \<and> fsFiles fs' pasteFile \<noteq> None"
    using r' paste_kept [of False] paste_valid [of "[]"]
    by (auto simp: apiSubscriptionAdd_def fsPosted_def pasteRequest_def maxSubscriptionFileContentBytes_def paste_path u(1,2)
        dropFile_def removeFile_def emptyServer_def)
  have "fsFiles emptyServer pasteFile = None" by (simp add: emptyServer_def)
  with subscription_add_all_or_nothing [OF r' u(3,4)] e' u(2,6) have "tables (fsDB fs') = tables (emptyDB 0 [])" "ts' = []"
    "leftBehind ?env ''h:1'' emptyServer fs'" by (auto simp: fsDB_def)
  with one r' e' show ?thesis by simp
qed

section \<open>The file that stays\<close>

text \<open>
  The handler forgets the path of the new file when \<open>filepath.Abs\<close> fails, because the failing call has overwritten the
  variable: the request is refused, and the pasted content, credentials included, stays on disk under a name no row has.
\<close>

lemma lost_path_leaves_content:
  assumes "srFileContent q \<noteq> []" "length (srFileContent q) \<le> maxSubscriptionFileContentBytes" "ValidateSubscriptionHeaders (srHeaders q)"
    "feDataDir env = Some d" "feMkdir env" "feTemp env = Some r" "feChmod env" "feWritten env = None" "feClose env"
    "\<not> feGetwd env" "\<not> IsAbs (tempName (JoinPath d ''subscriptions'') r)"
    "fsFiles fs (locate (fsCwd fs) (tempName (JoinPath d ''subscriptions'') r)) = None"
  shows "apiSubscriptionAdd env renv interval ''POST'' (Body q) fs =
    (Refusal 500 ''failed to save subscription file'', [],
     setFile (tempName (JoinPath d ''subscriptions'') r) (Some (Regular ownerOnly (srFileContent q))) fs)"
proof -
  let ?n = "tempName (JoinPath d ''subscriptions'') r"
  have "keepContent env (srFileContent q) fs = (Inl (500, ''failed to save subscription file''),
      setFile ?n (Some (Regular ownerOnly (srFileContent q))) fs)"
    using assms
    by (simp add: keepContent_def Let_def writeSubscriptionFile_def AbsPath_def getwd_def removeFile_def)
  with assms(1-3) show ?thesis by (simp add: apiSubscriptionAdd_def fsPosted_def Let_def)
qed

section \<open>Deleting\<close>

lemma deleteManaged_gone:
  fixes ops :: "('s, 'e, 'x) tunnelRuntime"
  assumes "DeleteSubscription_mgr ops env i m = (Inr u, m')" "s \<in> set (subscriptions (mgDB m'))"
  shows "sID s \<noteq> i"
proof -
  obtain m1 u' where "store (DeleteSubscription i) m1 = (Inr u' :: 'x managerError + unit, m')"
    using assms(1)
    by (auto simp: DeleteSubscription_mgr_def Let_def rollback_def split: prod.splits sum.splits if_splits option.splits)
  then obtain u'' where "DeleteSubscription i (mgDB m1) = (Inr u'', mgDB m')" by (cases rule: store_cases) auto
  from DeleteSubscription_result(2) [OF this] assms(2) show ?thesis by simp
qed

text \<open>The paths below the directory the interface keeps its files in.\<close>

definition managedPath :: "string \<Rightarrow> string \<Rightarrow> string \<Rightarrow> bool" where
  "managedPath cwd dataDir p \<longleftrightarrow> prefix (rootedParts (locate cwd (JoinPath dataDir ''subscriptions''))) (rootedParts p)"

lemma removeManaged_result:
  assumes "removeManagedSubscriptionFile env q fs = (b, fs1)" "IsAbs (fsCwd fs)"
  shows "fsServer fs1 = fsServer fs \<and> (fsFiles fs1 = fsFiles fs \<or>
    (\<exists>d m c. feDataDir env = Some d \<and> managedPath (fsCwd fs) d (locate (fsCwd fs) q) \<and>
       fsFiles fs (locate (fsCwd fs) q) = Some (Regular m c) \<and> fsFiles fs1 = (fsFiles fs)(locate (fsCwd fs) q := None)))"
proof (cases "fsFiles fs1 = fsFiles fs")
  case True
  have "fsServer fs1 = fsServer fs"
    using assms(1)
    by (auto simp: removeManagedSubscriptionFile_def Let_def removeFile_def split: if_splits option.splits fileEntry.splits)
  with True show ?thesis by simp
next
  case False
  let ?wd = "getwd env fs"
  have w: "?wd = None \<or> ?wd = Some (fsCwd fs)" by (simp add: getwd_def)
  from False assms(1) obtain d dir a m c where
    d: "feDataDir env = Some d" "AbsPath ?wd (JoinPath d ''subscriptions'') = Some dir" "AbsPath ?wd q = Some a"
      "\<not> (Rel dir a = ''..'' \<or> HasPrefix (Rel dir a) ''../'')" "fsFiles fs a = Some (Regular m c)" "removeFile env a fs = (b, fs1)"
    by (auto simp: removeManagedSubscriptionFile_def Let_def split: if_splits option.splits fileEntry.splits)
  note la = AbsPath_locate [OF d(3) assms(2) w] and ld = AbsPath_locate [OF d(2) assms(2) w]
  from d(4) obtain rest where "rootedParts a = rootedParts dir @ rest" using Rel_inside by blast
  then have "managedPath (fsCwd fs) d (locate (fsCwd fs) q)" using la(2) ld(2) by (simp add: managedPath_def)
  moreover have "fsFiles fs1 = (fsFiles fs)(a := None)" "fsServer fs1 = fsServer fs"
    using d(6) False la(3) by (auto simp: removeFile_def split: if_splits)
  ultimately show ?thesis using d(1,5) la(2) by auto
qed

lemma GetSubscription_found:
  assumes "GetSubscription i d = (Inr s, d1)"
  shows "s \<in> set (subscriptions d) \<and> sID s = i"
  using assms
  by (auto simp: GetSubscription_def bindOp_def querySQL_unfold returnOp_def failOp_def find_Some_iff split: if_splits option.splits)

text \<open>
  C26: Deleting a subscription removes at most one file, and only that subscription's own: a regular file below the
  directory the interface keeps pasted content in, whatever path the row carries, and only after the subscription has
  left the tables. So neither a path stored in the tables nor a failing deletion can take any other file away.
\<close>

theorem delete_removes_own_file_only:
  fixes ops :: "('s, 'e, 'x) tunnelRuntime"
  assumes "apiSubscriptionDelete ops env renv meth body fs = (rep, ts, fs1)" "fsFiles fs1 p \<noteq> fsFiles fs p" "IsAbs (fsCwd fs)"
  shows "\<exists>s d. body = Body (sID s) \<and> s \<in> set (subscriptions (fsDB fs)) \<and> p = locate (fsCwd fs) (sFilePath s) \<and>
    feDataDir env = Some d \<and> managedPath (fsCwd fs) d p \<and> (\<exists>m c. fsFiles fs p = Some (Regular m c)) \<and>
    fsFiles fs1 = (fsFiles fs)(p := None) \<and> list_all (\<lambda>s'. sID s' \<noteq> sID s) (subscriptions (fsDB fs1))"
proof -
  have post: "meth = ''POST''" and "\<exists>i. body = Body i"
    using assms(1,2) by (cases "meth = ''POST''"; cases body; auto simp: apiSubscriptionDelete_def fsPosted_def dest: withServer_files)+
  then obtain i where i: "body = Body i" by blast
  have pos: "\<not> i \<le> 0" using assms(1,2) post i by (auto simp: apiSubscriptionDelete_def fsPosted_def split: if_splits)
  obtain g fa where g: "fsTables (GetSubscription i) fs = (g, fa)" by fastforce
  note gt = fsTables_cases [OF g]
  define step where "step = (if wsManaged (fsServer fa)
     then (case fsManager (DeleteSubscription_mgr ops renv i) fa of (r, fs2) \<Rightarrow> (\<not> isl r, fs2))
     else (case fsTables (DeleteSubscription i) fa of (r, fs2) \<Rightarrow> (\<not> isl r, fs2)))"
  obtain w fb where w: "step = (w, fb)" by fastforce
  have h: "(case g of Inl e \<Rightarrow> fsRefuse 500 ''failed to delete subscription'' fa
      | Inr sub \<Rightarrow> (case step of
          (False, fs2) \<Rightarrow> fsRefuse 500 ''failed to delete subscription'' fs2
        | (True, fs2) \<Rightarrow> (case removeManagedSubscriptionFile env (sFilePath sub) fs2 of
            (False, fs3) \<Rightarrow> fsRefuse 500 ''subscription deleted but file cleanup failed'' fs3
          | (True, fs3) \<Rightarrow> fsAnswer ''deleted'' fs3))) = (rep, ts, fs1)"
    using assms(1) pos
    by (simp only: apiSubscriptionDelete_def fsPosted_def decoded.case i post simp_thms if_False g prod.case step_def)
  have same: "fsFiles fb = fsFiles fs" "fsCwd fb = fsCwd fs"
    using w gt by (auto simp: step_def fsManager_def fsTables_def onTables_unfold split: if_splits prod.splits)
  from h assms(2) gt(2) obtain s where s: "g = Inr s" by (cases g) auto
  from h assms(2) w same(1) s have ok: w by (cases w) auto
  obtain b fc where r: "removeManagedSubscriptionFile env (sFilePath s) fb = (b, fc)" by fastforce
  with h w s ok have f: "fs1 = fc" by (cases b) auto
  from removeManaged_result [OF r] assms(2,3) f same obtain d m c where
    rm: "fsServer fs1 = fsServer fb" "feDataDir env = Some d" "managedPath (fsCwd fs) d (locate (fsCwd fs) (sFilePath s))"
      "fsFiles fs (locate (fsCwd fs) (sFilePath s)) = Some (Regular m c)" "fsFiles fs1 = (fsFiles fs)(locate (fsCwd fs) (sFilePath s) := None)"
    by auto
  have p: "p = locate (fsCwd fs) (sFilePath s)" using assms(2) rm(5) by (auto split: if_splits)
  from GetSubscription_found gt(1) s have own: "s \<in> set (subscriptions (fsDB fs))" "sID s = i" by fastforce+
  have "sID s' \<noteq> i" if "s' \<in> set (subscriptions (fsDB fb))" for s'
  proof (cases "wsManaged (fsServer fa)")
    case True
    obtain z :: "'x managerError + unit" and m1 where z: "DeleteSubscription_mgr ops renv i (wsManager (fsServer fa)) = (z, m1)" by fastforce
    with w True have "w = (\<not> isl z)" and m: "mgDB m1 = fsDB fb"
      by (auto simp: step_def fsManager_def onManager_def fsDB_def wsTables_def)
    with ok obtain u where "z = Inr u" by (cases z) auto
    with z deleteManaged_gone [of ops renv i _ u m1 s'] that m show ?thesis by simp
  next
    case False
    with w ok obtain x where "fsTables (DeleteSubscription i) fa = (Inr x, fb)"
      by (cases "fsTables (DeleteSubscription i) fa"; cases "fst (fsTables (DeleteSubscription i) fa)") (auto simp: step_def)
    from DeleteSubscription_result(2) [OF fsTables_cases(1) [OF this]] that show ?thesis by simp
  qed
  then have "list_all (\<lambda>s'. sID s' \<noteq> sID s) (subscriptions (fsDB fs1))"
    using rm(1) own(2) by (simp add: list_all_iff fsDB_def)
  with rm own p i show ?thesis by blast
qed

text \<open>A server with one subscription, whose content is kept in a file.\<close>

definition keptDB :: DB where
  "keptDB = (emptyDB 0 [])\<lparr>subscriptions := [defaultSubscription\<lparr>sID := 1, sFilePath := ''/d/subscriptions/a''\<rparr>], nextSubID := 2\<rparr>"

definition keptServer :: "ParsedNode list FileServer" where
  "keptServer = \<lparr>fsServer = \<lparr>wsManager = \<lparr>mgDB = keptDB, mgRuntime = [], mgStopped = False, mgEvicted = []\<rparr>, wsManaged = False,
     wsConfig = DefaultConfig (\<lambda>k. None) [], wsAffinity = None\<rparr>,
     fsFiles = [''/d/subscriptions/a'' \<mapsto> Regular 384 ''h:1''], fsCwd = ''/''\<rparr>"

theorem delete_removes_own_file_only_witness:
  "(case apiSubscriptionDelete sampleRuntime allWorks (sampleRefresh []) ''POST'' (Body 1) keptServer of (rep, ts, fs1) \<Rightarrow>
     rep = Answer ''deleted'' \<and> fsFiles fs1 ''/d/subscriptions/a'' = None \<and> managedPath ''/'' ''/d'' ''/d/subscriptions/a'')"
proof -
  let ?p = "''/d/subscriptions/a''"
  have c: "AbsPath (Some ''/'') (JoinPath ''/d'' ''subscriptions'') = Some ''/d/subscriptions''" "AbsPath (Some ''/'') ?p = Some ?p"
    "Rel ''/d/subscriptions'' ?p = ''a''" "IsAbs (fsCwd keptServer)" by code_simp+
  have k: "wsManaged (fsServer keptServer) = False" "wsTables (fsServer keptServer) = keptDB" "fsCwd keptServer = ''/''"
    "fsFiles keptServer = [?p \<mapsto> Regular 384 ''h:1'']" by (simp_all add: keptServer_def wsTables_def)
  have "case GetSubscription 1 keptDB of (Inr s, d) \<Rightarrow> sFilePath s = ?p \<and> d = keptDB | _ \<Rightarrow> False" by code_simp
  then obtain s where g: "GetSubscription 1 keptDB = (Inr s, keptDB)" "sFilePath s = ?p"
    by (cases "GetSubscription 1 keptDB") (auto split: sum.splits)
  have "case DeleteSubscription 1 keptDB of (Inr u, d) \<Rightarrow> True | _ \<Rightarrow> False" by code_simp
  then obtain u d where d: "DeleteSubscription 1 keptDB = (Inr u, d)"
    by (cases "DeleteSubscription 1 keptDB") (auto split: sum.splits)
  define fb where "fb = keptServer\<lparr>fsServer := setTables d (setTables keptDB (fsServer keptServer))\<rparr>"
  have r: "removeManagedSubscriptionFile allWorks ?p fb = (True, setFile ?p None fb)"
    using c k(3,4)
    by (simp add: removeManagedSubscriptionFile_def allWorks_def getwd_def fb_def Let_def removeFile_def HasPrefix_def)
  have e: "apiSubscriptionDelete sampleRuntime allWorks (sampleRefresh []) ''POST'' (Body 1) keptServer =
      (Answer ''deleted'', [], setFile ?p None fb)"
    by (simp add: apiSubscriptionDelete_def fsPosted_def fsTables_def onTables_unfold k g d r [unfolded fb_def] fb_def)
  have l: "locate (fsCwd fb) ?p = ?p" using c(2) k(3) by (simp add: fb_def locate_def)
  have n: "fsFiles (setFile ?p None fb) ?p \<noteq> fsFiles keptServer ?p" using l k(4) by simp
  from delete_removes_own_file_only [OF e n c(4)] obtain d' where
    "feDataDir allWorks = Some d'" "managedPath (fsCwd keptServer) d' ?p" by blast
  then have "managedPath ''/'' ''/d'' ?p" using k(3) by (simp add: allWorks_def)
  with e l show ?thesis by simp
qed

end
