(* ===== verification/WebRoutes.thy ===== *)
theory WebRoutes
  imports WebSubscriptionsSpec
begin

text \<open>
  The rest of \<open>webui/server.go\<close>: the table of routes with the check in front of each, the pages and assets with their
  caching, the cookies and the server settings. At the end the handlers that change something are put behind the checks
  of their routes, and a change needs a live session and a request that was not forged.
\<close>

section \<open>Routes\<close>

datatype guard = Public | SessionGuard | KeyGuard

definition routes :: "(string \<times> guard) list" where
  "routes =
     [(''/'', Public), (''/login'', Public), (''/logout'', SessionGuard),
      (''/assets/dashboard.css'', Public), (''/assets/dashboard.js'', Public),
      (''/api/auth/check'', Public), (''/api/public-ip'', SessionGuard),
      (''/api/stats'', SessionGuard), (''/api/proxies'', SessionGuard), (''/api/logs'', SessionGuard),
      (''/api/config'', SessionGuard), (''/api/sessions'', SessionGuard), (''/api/proxy-occupancy'', SessionGuard),
      (''/api/proxy/delete'', SessionGuard), (''/api/proxy/toggle'', SessionGuard), (''/api/proxy/refresh'', SessionGuard),
      (''/api/proxy/star'', SessionGuard), (''/api/refresh-latency'', SessionGuard), (''/api/config/save'', SessionGuard),
      (''/api/subscriptions'', SessionGuard), (''/api/custom/status'', SessionGuard), (''/api/subscription/add'', SessionGuard),
      (''/api/subscription/delete'', SessionGuard), (''/api/subscription/refresh'', SessionGuard),
      (''/api/subscription/refresh-all'', SessionGuard), (''/api/subscription/toggle'', SessionGuard),
      (''/api/subscription/update'', SessionGuard), (''/api/manual-node/add'', SessionGuard),
      (''/api/manual-node/import'', SessionGuard), (''/api/manual-node/batch-delete'', SessionGuard),
      (''/api/manual-node/region'', SessionGuard), (''/api/manual-node/note'', SessionGuard),
      (''/api/manual-node/delete'', SessionGuard), (''/api/apikeys'', SessionGuard), (''/api/apikey/create'', SessionGuard),
      (''/api/apikey/revoke'', SessionGuard), (''/api/apikey/delete'', SessionGuard),
      (''/api/v1/ping'', KeyGuard), (''/api/v1/nodes'', KeyGuard), (''/api/v1/occupancy'', KeyGuard)]"

text \<open>The mux compares whole paths; every other path is the one of the index, which is not found there.\<close>

definition routeGuard :: "string \<Rightarrow> guard" where
  "routeGuard path = (case map_of routes path of Some g \<Rightarrow> g | None \<Rightarrow> Public)"

definition isNoiseRequest :: "WebRequest \<Rightarrow> bool" where
  "isNoiseRequest r \<longleftrightarrow>
     wrPath r \<in> {''/api/logs'', ''/api/stats'', ''/api/sessions'', ''/api/proxy-occupancy''} \<or>
     (wrPath r = ''/'' \<and> wrMethod r = ''GET'' \<and> isLoopbackRemote (wrRemoteAddr r))"

record HTTPServer =
  hsAddr :: string
  hsReadHeaderTimeout :: int
  hsReadTimeout :: int
  hsWriteTimeout :: int
  hsIdleTimeout :: int

definition webUIHTTPServer :: "string \<Rightarrow> HTTPServer" where
  "webUIHTTPServer addr = \<lparr>hsAddr = addr, hsReadHeaderTimeout = 10 * 10 ^ 9, hsReadTimeout = 30 * 10 ^ 9,
     hsWriteTimeout = 60 * 10 ^ 9, hsIdleTimeout = 120 * 10 ^ 9\<rparr>"

text \<open>The rate a new server limits API keys to.\<close>

definition newServerRate :: "Config option \<Rightarrow> int" where
  "newServerRate cfg =
     (case cfg of None \<Rightarrow> 60 | Some c \<Rightarrow> if cfgReadOnlyAPIRatePerMin c > 0 then cfgReadOnlyAPIRatePerMin c else 60)"

section \<open>Pages and assets\<close>

text \<open>\<open>Page\<close> carries what \<open>Cache-Control\<close> says.\<close>

datatype page = PageNotFound | Page string string

definition handleIndex :: "string \<Rightarrow> string \<Rightarrow> int \<Rightarrow> sessions \<Rightarrow> WebRequest \<Rightarrow> page" where
  "handleIndex loginHTML dashboardHTML t ss r =
     (if wrPath r \<noteq> ''/'' then PageNotFound
      else Page ''no-store'' (if validSession (wrCookie r) t ss then dashboardHTML else loginHTML))"

definition assetETag :: "string \<Rightarrow> string" where
  "assetETag content = ''\"'' @ hexEncode (Sum256 content) @ ''\"''"

definition etagMatches :: "string \<Rightarrow> string \<Rightarrow> bool" where
  "etagMatches header0 etag =
     (let header = TrimSpace header0 in
      header = ''*'' \<or>
      list_ex (\<lambda>candidate. TrimPrefix (TrimSpace candidate) ''W/'' = etag) (SplitByte header CHR '',''))"

datatype asset_answer = AssetNotFound | NotModified string | Asset string string string

text \<open>Entity tag, content type and content.\<close>

definition serveAsset :: "string \<Rightarrow> string \<Rightarrow> WebRequest \<Rightarrow> asset_answer" where
  "serveAsset contentType content r =
     (let etag = assetETag content; match = headerGet (wrHeader r) ''If-None-Match'' in
      if match \<noteq> [] \<and> etagMatches match etag then NotModified etag else Asset etag contentType content)"

definition handleAssetCSS :: "string \<Rightarrow> WebRequest \<Rightarrow> asset_answer" where
  "handleAssetCSS dashboardCSS r =
     (if wrPath r \<noteq> ''/assets/dashboard.css'' then AssetNotFound else serveAsset ''text/css; charset=utf-8'' dashboardCSS r)"

definition handleAssetJS :: "string \<Rightarrow> WebRequest \<Rightarrow> asset_answer" where
  "handleAssetJS dashboardJS r =
     (if wrPath r \<noteq> ''/assets/dashboard.js'' then AssetNotFound
      else serveAsset ''application/javascript; charset=utf-8'' dashboardJS r)"

section \<open>Cookies\<close>

record Cookie =
  ckValue :: string
  ckExpires :: "int option"
  ckMaxAge :: int
  ckHttpOnly :: bool
  ckSecure :: bool

text \<open>\<open>tls\<close>: the connection itself is encrypted.\<close>

definition cookieSecure :: "bool \<Rightarrow> WebRequest \<Rightarrow> bool" where
  "cookieSecure tls r \<longleftrightarrow> tls \<or> headerGet (wrHeader r) ''X-Forwarded-Proto'' = ''https''"

definition sessionCookie :: "bool \<Rightarrow> int \<Rightarrow> WebRequest \<Rightarrow> string \<Rightarrow> Cookie" where
  "sessionCookie tls t r token = \<lparr>ckValue = token, ckExpires = Some (t + sessionTTL), ckMaxAge = 0, ckHttpOnly = True,
     ckSecure = cookieSecure tls r\<rparr>"

definition clearSessionCookie :: "bool \<Rightarrow> WebRequest \<Rightarrow> Cookie" where
  "clearSessionCookie tls r = \<lparr>ckValue = [], ckExpires = None, ckMaxAge = - 1, ckHttpOnly = True, ckSecure = cookieSecure tls r\<rparr>"

section \<open>Handlers behind their routes\<close>

text \<open>A request to one of the handlers that change nodes or subscriptions, with its body and its surroundings.\<close>

datatype 'e call =
    CallDelete "'e refreshEnv" "DB \<Rightarrow> DB" "NodeRequest decoded"
  | CallToggle "ToggleRequest decoded"
  | CallRefresh "NodeRequest decoded"
  | CallStar "StarRequest decoded"
  | CallRefreshLatency
  | CallSubAdd fileEnv "'e refreshEnv" int "SubscriptionRequest decoded"
  | CallSubDelete fileEnv "'e refreshEnv" "int decoded"
  | CallSubRefresh "int decoded"
  | CallSubRefreshAll
  | CallSubToggle "int decoded"
  | CallSubUpdate "UpdateRequest decoded"
  | CallNodeAdd "string \<Rightarrow> ParsedNode option" "(Proxy list \<Rightarrow> Arrival list) option" "'e refreshEnv" "LinkRequest decoded"
  | CallNodeImport "string \<Rightarrow> string" "string \<Rightarrow> ParsedNode option" "(Proxy list \<Rightarrow> Arrival list) option" "LinkRequest decoded"
  | CallBatchDelete "int \<Rightarrow> 'e refreshEnv" "int list decoded"
  | CallNodeRegion "RegionRequest decoded"
  | CallNodeNote "NoteRequest decoded"
  | CallNodeDelete "'e refreshEnv" "DB \<Rightarrow> DB" "NodeRequest decoded"

fun callPath :: "'e call \<Rightarrow> string" where
  "callPath (CallDelete env mw b) = ''/api/proxy/delete''"
| "callPath (CallToggle b) = ''/api/proxy/toggle''"
| "callPath (CallRefresh b) = ''/api/proxy/refresh''"
| "callPath (CallStar b) = ''/api/proxy/star''"
| "callPath CallRefreshLatency = ''/api/refresh-latency''"
| "callPath (CallSubAdd fe env n b) = ''/api/subscription/add''"
| "callPath (CallSubDelete fe env b) = ''/api/subscription/delete''"
| "callPath (CallSubRefresh b) = ''/api/subscription/refresh''"
| "callPath CallSubRefreshAll = ''/api/subscription/refresh-all''"
| "callPath (CallSubToggle b) = ''/api/subscription/toggle''"
| "callPath (CallSubUpdate b) = ''/api/subscription/update''"
| "callPath (CallNodeAdd pl st env b) = ''/api/manual-node/add''"
| "callPath (CallNodeImport lo pl st b) = ''/api/manual-node/import''"
| "callPath (CallBatchDelete env b) = ''/api/manual-node/batch-delete''"
| "callPath (CallNodeRegion b) = ''/api/manual-node/region''"
| "callPath (CallNodeNote b) = ''/api/manual-node/note''"
| "callPath (CallNodeDelete env mw b) = ''/api/manual-node/delete''"

text \<open>The status code of an answer; an aborted connection has none.\<close>

definition replyCode :: "'p reply \<Rightarrow> nat" where
  "replyCode r = (case r of Refusal c m \<Rightarrow> c | Answer p \<Rightarrow> 200 | Aborted \<Rightarrow> 0)"

definition onFiles :: "('s, 'p) file_handler \<Rightarrow> 's FileServer \<Rightarrow> nat \<times> task list \<times> 's FileServer" where
  "onFiles h fs = (case h fs of (r, ts, fs1) \<Rightarrow> (replyCode r, ts, fs1))"

definition onServer :: "('s, 'p) handler \<Rightarrow> 's FileServer \<Rightarrow> nat \<times> task list \<times> 's FileServer" where
  "onServer h = onFiles (withServer h)"

fun runCall :: "('s, 'e, 'x) tunnelRuntime \<Rightarrow> string \<Rightarrow> 'e call \<Rightarrow> 's FileServer \<Rightarrow> nat \<times> task list \<times> 's FileServer" where
  "runCall ops m (CallDelete env mw b) = onServer (apiDeleteProxy ops env mw m b)"
| "runCall ops m (CallToggle b) = onServer (apiToggleProxy m b)"
| "runCall ops m (CallRefresh b) = onServer (apiRefreshProxy m b)"
| "runCall ops m (CallStar b) = onServer (apiStarProxy m b)"
| "runCall ops m CallRefreshLatency = onServer (apiRefreshLatency m)"
| "runCall ops m (CallSubAdd fe env n b) = onFiles (apiSubscriptionAdd fe env n m b)"
| "runCall ops m (CallSubDelete fe env b) = onFiles (apiSubscriptionDelete ops fe env m b)"
| "runCall ops m (CallSubRefresh b) = onServer (apiSubscriptionRefresh m b)"
| "runCall ops m CallSubRefreshAll = onServer (apiSubscriptionRefreshAll m)"
| "runCall ops m (CallSubToggle b) = onServer (apiSubscriptionToggle m b)"
| "runCall ops m (CallSubUpdate b) = onServer (apiSubscriptionUpdate m b)"
| "runCall ops m (CallNodeAdd pl st env b) = onServer (apiManualNodeAdd ops pl st env m b)"
| "runCall ops m (CallNodeImport lo pl st b) = onServer (apiManualNodeImport lo pl st m b)"
| "runCall ops m (CallBatchDelete env b) = onServer (apiManualNodeBatchDelete ops env m b)"
| "runCall ops m (CallNodeRegion b) = onServer (apiManualNodeRegion m b)"
| "runCall ops m (CallNodeNote b) = onServer (apiManualNodeNote m b)"
| "runCall ops m (CallNodeDelete env mw b) = onServer (apiManualNodeDelete ops env mw m b)"

text \<open>The request through its route. The call is the one the path names.\<close>

definition serveCall ::
    "('s, 'e, 'x) tunnelRuntime \<Rightarrow> url_parser \<Rightarrow> int \<Rightarrow> sessions \<Rightarrow> WebRequest \<Rightarrow> 'e call \<Rightarrow> 's FileServer \<Rightarrow>
     nat \<times> task list \<times> 's FileServer" where
  "serveCall ops parse t ss r call fs =
     (case routeGuard (wrPath r) of
        SessionGuard \<Rightarrow>
          (case authMiddleware parse t ss r of
             Next limited \<Rightarrow> runCall ops (wrMethod r) call fs
           | WebError code msg \<Rightarrow> (code, [], fs)
           | Redirect url \<Rightarrow> (302, [], fs)
           | LoginPage code \<Rightarrow> (code, [], fs))
      | KeyGuard \<Rightarrow> (401, [], fs)
      | Public \<Rightarrow> runCall ops (wrMethod r) call fs)"

section \<open>What the checks give\<close>

text \<open>Every route but the index, the login, the assets and the check of the session is guarded.\<close>

lemma guarded_routes:
  "map fst (filter (\<lambda>(p, g). g = Public) routes) =
     [''/'', ''/login'', ''/assets/dashboard.css'', ''/assets/dashboard.js'', ''/api/auth/check'']"
  by code_simp

lemma call_guarded: "routeGuard (callPath call) = SessionGuard \<and> isAPIPath (callPath call)"
  by (cases call) (simp_all add: routeGuard_def routes_def isAPIPath_def)

text \<open>An asset a client has under its entity tag is not sent again, and every other one is.\<close>

lemma asset_validation:
  assumes "headerGet (wrHeader r) ''If-None-Match'' = assetETag old" "TrimSpace (assetETag old) = assetETag old"
    "CHR '','' \<notin> set (assetETag old)"
  shows "serveAsset ct content r =
    (if assetETag old = assetETag content then NotModified (assetETag content) else Asset (assetETag content) ct content)"
proof -
  have "TrimPrefix (assetETag old) ''W/'' = assetETag old" "assetETag old \<noteq> ''*''" "assetETag old \<noteq> []"
    by (simp_all add: assetETag_def TrimPrefix_def HasPrefix_def)
  with assms show ?thesis
    using splitByteAux_last [OF assms(3), of "[]"] by (simp add: serveAsset_def etagMatches_def Let_def SplitByte_def)
qed

text \<open>A handler that changes something only does so for \<open>POST\<close>.\<close>

lemma not_posted: "m \<noteq> ''POST'' \<Longrightarrow> posted m body k sv = (Refusal 405 ''method not allowed'', [], sv)"
  by (simp add: posted_def refuse_def)

lemma onServer_refusal: "h (fsServer fs) = (Refusal c msg, [], fsServer fs) \<Longrightarrow> onServer h fs = (c, [], fs)"
  by (simp add: onServer_def onFiles_def withServer_def replyCode_def)

lemma runCall_needs_post:
  assumes "m \<noteq> ''POST''"
  shows "runCall ops m call fs = (405, [], fs)"
proof -
  note handlers = apiDeleteProxy_def apiToggleProxy_def apiRefreshProxy_def apiStarProxy_def apiRefreshLatency_def
    apiSubscriptionRefresh_def apiSubscriptionRefreshAll_def apiSubscriptionToggle_def apiSubscriptionUpdate_def
    apiManualNodeAdd_def apiManualNodeImport_def apiManualNodeBatchDelete_def apiManualNodeRegion_def apiManualNodeNote_def
    apiManualNodeDelete_def requireNoteEditableRequest_def requireManualNodeRequest_def lookupProxyRequest_def
  show ?thesis
    by (cases call)
      (simp_all add: handlers not_posted [OF assms] assms refuse_def onServer_refusal onFiles_def apiSubscriptionAdd_def
        apiSubscriptionDelete_def fsPosted_def replyCode_def)
qed

text \<open>
  C25: Nothing changes nodes or subscriptions without a login and against the will of the one who logged in. Whatever
  logins and logouts came before: when a request to one of the handlers that change them changes anything, in the
  tables, the tunnels or the files, or starts a task, it is a \<open>POST\<close> with a session token that was handed out less than
  a day ago, and not given back since, to a login whose form held a password that verifies against the hash stored at
  that moment; and it carries that token in its own header or comes from the same origin. If the stored hash is the
  salted one of a password, the form held a password with the same PBKDF2 key.
\<close>

theorem changes_need_login_and_origin:
  assumes "\<forall>ev\<in>set evs. eventBefore T ev" "wbSessions st = []" "wrPath r = callPath call"
    "serveCall ops parse T (wbSessions (runWeb evs st)) r call fs = (code, ts, fs1)" "fs1 \<noteq> fs \<or> ts \<noteq> []"
  shows "wrMethod r = ''POST'' \<and> validCSRF parse r \<and>
    (\<exists>token t. wrCookie r = Some token \<and> issuedAt verifies token evs st None = Some t \<and> T < t + sessionTTL \<and>
      (\<forall>salt pw. salt \<noteq> [] \<and> wbPasswordHash st = HashWebUIPassword salt pw \<longrightarrow>
         issuedAt (hasKeyOf salt pw) token evs st None = Some t))"
proof -
  let ?ss = "wbSessions (runWeb evs st)"
  have g: "routeGuard (wrPath r) = SessionGuard" "isAPIPath (wrPath r)" using call_guarded [of call] assms(3) by simp_all
  obtain limited where n: "authMiddleware parse T ?ss r = Next limited"
    using assms(4,5) g(1) by (cases "authMiddleware parse T ?ss r") (auto simp: serveCall_def)
  have "runCall ops (wrMethod r) call fs = (code, ts, fs1)" using assms(4) g(1) n by (simp add: serveCall_def)
  with runCall_needs_post [of "wrMethod r" ops call fs] assms(5) have p: "wrMethod r = ''POST''" by fastforce
  have v: "validSession (wrCookie r) T ?ss" using n by (auto simp: authMiddleware_def split: if_splits)
  moreover have "isUnsafeMethod (wrMethod r)" by (simp add: p isUnsafeMethod_def)
  ultimately have "validCSRF parse r" using n g(2) by (simp add: authMiddleware_def split: if_splits)
  with p session_issued [OF assms(1,2), of "wrCookie r"] v issuedAt_salted show ?thesis by auto
qed

theorem changes_need_login_and_origin_witness:
  "(\<lambda>evs st r. serveCall sampleRuntime (\<lambda>u. None) 5 (wbSessions (runWeb evs st)) r (CallRefreshLatency :: unit call) keptServer =
       (200, [LatencyTask], keptServer) \<and> issuedAt verifies ''tok'' evs st None = Some 0 \<and>
     issuedAt (hasKeyOf ''salt'' ''pw'') ''tok'' evs st None = Some 0 \<and> validCSRF (\<lambda>u. None) r)
     [LoginEvent ((guessEnv ''pw'')\<lparr>leToken := ''tok''\<rparr>) 0 0 guessRequest]
     (freshWeb\<lparr>wbPasswordHash := HashWebUIPassword ''salt'' ''pw''\<rparr>)
     (guessRequest\<lparr>wrPath := ''/api/refresh-latency'', wrCookie := Some ''tok'', wrHeader := [''X-Csrf-Token'' \<mapsto> [''tok'']]\<rparr>)"
proof -
  let ?st = "freshWeb\<lparr>wbPasswordHash := HashWebUIPassword ''salt'' ''pw''\<rparr>"
  let ?ev = "LoginEvent ((guessEnv ''pw'')\<lparr>leToken := ''tok''\<rparr>) 0 0 guessRequest"
  let ?r = "guessRequest\<lparr>wrPath := ''/api/refresh-latency'', wrCookie := Some ''tok'', wrHeader := [''X-Csrf-Token'' \<mapsto> [''tok'']]\<rparr>"
  have v: "VerifyWebUIPassword ''pw'' (HashWebUIPassword ''salt'' ''pw'') = (True, False)"
    using VerifyWebUIPassword_hash [of "''salt''" "''pw''" "''pw''"] by simp
  note login = handleLogin_def loginFinish_def v guessEnv_def guessRequest_def freshWeb_def loginRateLimited_def
    attemptOf_def zeroAttempt_def lockedAt_def
  have i: "issuedAt verifies ''tok'' [?ev] ?st None = Some 0" by (simp add: login correctForm_def verifies_def)
  have s: "wbSessions (runWeb [?ev] ?st) = [(''tok'', sessionTTL)]"
    by (simp add: login newSession_def pruneExpiredSessionsLocked_def)
  have c: "validCSRF (\<lambda>u. None) ?r" by code_simp
  have e: "serveCall sampleRuntime (\<lambda>u. None) 5 (wbSessions (runWeb [?ev] ?st)) ?r (CallRefreshLatency :: unit call) keptServer =
      (200, [LatencyTask], keptServer)"
    unfolding s using c
    by (simp add: serveCall_def routeGuard_def routes_def authMiddleware_def validSession_def sessionTTL_def isAPIPath_def
        guessRequest_def onServer_def onFiles_def withServer_def apiRefreshLatency_def replyCode_def)
  have w: "\<forall>ev\<in>set [?ev]. eventBefore 5 ev" "wbSessions ?st = []"
    "wrPath ?r = callPath (CallRefreshLatency :: unit call)" by (simp_all add: freshWeb_def)
  have "keptServer \<noteq> keptServer \<or> [LatencyTask] \<noteq> []" by simp
  note changed = changes_need_login_and_origin [OF w e this]
  then obtain token t where k: "wrCookie ?r = Some token" "issuedAt verifies token [?ev] ?st None = Some t"
      "\<forall>salt pw. salt \<noteq> [] \<and> wbPasswordHash ?st = HashWebUIPassword salt pw \<longrightarrow>
         issuedAt (hasKeyOf salt pw) token [?ev] ?st None = Some t"
    by (elim conjE exE) (rule that)
  have "token = ''tok''" using k(1) by simp
  moreover have "issuedAt (hasKeyOf ''salt'' ''pw'') token [?ev] ?st None = Some t"
    by (rule k(3) [rule_format]) simp
  ultimately have "issuedAt (hasKeyOf ''salt'' ''pw'') ''tok'' [?ev] ?st None = Some 0" using k(2) i by (simp only: option.inject)
  with e i c show ?thesis by (simp only: simp_thms)
qed

end
