(* ===== verification/Spec2Isabelle.thy ===== *)
theory Spec2Isabelle
  imports Auth Affinity StorageSpec StorageSubs Config SelectorSpec Gateway Checker NodesApi Shards SubscriptionSpec FetchSpec ManagerNodes ParserSpec WebRoutes
begin

text \<open>
  GeoProxy is a proxy gateway written in Go: clients connect to an HTTP or a SOCKS5 port with a user name
  that says which region, unlocked services, node or sticky session they want, and the gateway forwards
  them through one of many upstream nodes. This library models the program and proves what makes it
  correct. The sources are under \<open>src/\<close>.

  \<^bold>\<open>The parts and how they interact.\<close> A client's user name is parsed (\<open>auth\<close>) and its password checked; the
  request handlers (\<open>proxy\<close>) ask the selector (\<open>selector\<close>) for a node, which reads the tables (\<open>storage\<close>) and
  the session store (\<open>affinity\<close>); the handlers dial the node, relay the data and write the outcome back to
  the tables and the sessions. The validator (\<open>validator\<close>) probes nodes in the background for the health
  checker (\<open>checker\<close>), which records the verdicts in the same tables. Nodes with a tunnel protocol are reached
  through local ports that child processes serve (\<open>custom\<close>). The administration interface and the
  read-only API (\<open>webui\<close>) change the configuration (\<open>config\<close>) that all of them read.

  \<^bold>\<open>Theories and sources.\<close>
  \<^item> \<open>GoBase\<close>, \<open>Base64\<close>, \<open>Sha256\<close>, \<open>Json\<close>, \<open>NetAddr\<close>, \<open>UrlParse\<close>: the parts of the Go language and its standard library
    the program uses (strings as bytes, runes, integers with their width, Base64, SHA-256, JSON documents,
    host and port syntax, IP addresses, URLs), with the facts about them the components share.
  \<^item> \<open>Auth\<close>: \<open>auth/dsl.go\<close>, \<open>auth/credentials.go\<close>. The grammar of user names as a relation between text and
    route; the node key pin and its round trip; the panic of \<open>parseNode\<close>.
  \<^item> \<open>Affinity\<close>: \<open>affinity/store.go\<close>. The store as a record, its mutex sections as atomic updates, the reverse
    index as a mirror of the bindings, a refinement to a map from sessions to nodes.
  \<^item> \<open>StorageModel\<close>, \<open>StorageQueries\<close>, \<open>StorageProxies\<close>, \<open>StorageSubs\<close>, \<open>StorageHistory\<close>, \<open>StorageSpec\<close>: the package
    \<open>storage\<close>. The two tables are lists of rows; an SQL statement is one guarded update with a scripted driver
    fault; transactions roll back. \<open>StorageHistory\<close> collects all operations, their atomicity and the invariant of
    the tables; \<open>StorageSpec\<close> states what they promise.
  \<^item> \<open>Config\<close>: \<open>config/config.go\<close>, \<open>config/api_key.go\<close>, \<open>config/password.go\<close>. Environment, defaults, saving with every
    I/O failure point, loading, first-boot credentials, PBKDF2.
  \<^item> \<open>Selector\<close>, \<open>SelectorHistory\<close>, \<open>SelectorSpec\<close>: the package \<open>selector\<close>. Rendezvous scoring, occupancy and cooldown
    filters, sticky and pinned routes; histories of concurrent requests under the first-bind lock.
  \<^item> \<open>Targets\<close>, \<open>Socks\<close>, \<open>HttpWire\<close>, \<open>Relay\<close>, \<open>Gateway\<close>: the package \<open>proxy\<close>. Target checks and the bypass rule; both
    sides of SOCKS5 and of CONNECT as programs over a connection that may fail at every call; headers and
    bodies; the relay as a step relation; the handlers with their retry loops over selector, tables and
    sessions, while other requests run in between. What a client asks for is what a SOCKS5 node is asked for; a node is
    only used for credentials that were presented, and every node a request tries was admissible when it was selected
    (a run records, for this statement only, the tables each selection read).
  \<^item> \<open>Validator\<close>, \<open>ProbeStream\<close>: the package \<open>validator\<close>. One probe as a function of the HTTP exchanges; a batch as
    an interleaving of dispatcher, probing goroutines, channel and consumer.
  \<^item> \<open>Checker\<close>: \<open>checker/health_checker.go\<close>. Recording verdicts; the background loop.
  \<^item> \<open>ApiKeys\<close>, \<open>Login\<close>, \<open>AdminConfig\<close>: \<open>webui/api_key_middleware.go\<close>, \<open>webui/server.go\<close>, \<open>webui/apikey_handlers.go\<close>,
    \<open>webui/config_handlers.go\<close>. Token buckets, lockout, sessions and CSRF, and the handlers that change the
    configuration. A session counts as logged in only if the form of its login held a password that verifies against the
    stored hash, whatever the handler answered.
  \<^item> \<open>IPRanges\<close>, \<open>NodesApi\<close>: \<open>webui/api_v1_nodes.go\<close>, \<open>webui/sessions.go\<close>, \<open>webui/public_host.go\<close>,
    \<open>webui/public_ip.go\<close>. The classes of internal addresses against their CIDR blocks; the read-only node list,
    its user name hints and paging, session and occupancy reports, the public address and its cache.
  \<^item> \<open>Outbound\<close>: the node of \<open>custom/parser.go\<close>, its key, and its translation into a sing-box outbound in
    \<open>custom/singbox.go\<close>.
  \<^item> \<open>Parser\<close>, \<open>ParserSpec\<close>: the rest of \<open>custom/parser.go\<close> and \<open>custom/singbox_parser.go\<close>. The formats of a
    subscription (Clash YAML, Base64 lists, share links, plain addresses, sing-box JSON) down to nodes; what every
    parsed node has, which lists are refused, and what a link loses on its way into an outbound.
  \<^item> \<open>SingBox\<close>: the rest of \<open>custom/singbox.go\<close>. One child process with its configuration and ports; a reload and
    all its failure branches; the states a process can reach.
  \<^item> \<open>Shards\<close>: \<open>custom/sharded_singbox.go\<close>. The interface of a shard as a record of operations, its laws as the
    locale \<open>shard_laws\<close> with an interpretation on the process, and reload, rollback and recovery over all shards.
  \<^item> \<open>SubscriptionStore\<close>, \<open>SubscriptionSpec\<close>: the transaction of \<open>custom/manager.go\<close> that replaces the rows of a
    subscription, and what it keeps and trusts.
  \<^item> \<open>SubscriptionFetch\<close>, \<open>FetchSpec\<close>: fetching a subscription in \<open>custom/manager.go\<close>: target checks, dialling, headers,
    redirects, limits and the retry; that no address of the refused ranges, listed apart from the code's own table, is
    dialled, and which headers reach which origin.
  \<^item> \<open>Manager\<close>, \<open>ManagerSpec\<close>, \<open>ManagerNodes\<close>: the other operations of \<open>custom/manager.go\<close> over the tables, the fetch
    and a runtime given as a record of operations, of which the shards are one instance. The second theory shows what
    a failed operation leaves, the third how rows, nodes and ports belong together: after a deletion the shards still
    serve the nodes that other rows name.
  \<^item> \<open>Logger\<close>, \<open>WebNodes\<close>, \<open>WebNodesSpec\<close>: \<open>logger/logger.go\<close>, \<open>webui/api_handlers.go\<close>,
    \<open>webui/manual_node_handlers.go\<close>. The handlers for nodes as functions from a request to an answer, the tasks they
    start and the changed server; how probe results are written back; regions cleared by hand; deletions that race.
  \<^item> \<open>FilePath\<close>, \<open>WebSubscriptions\<close>, \<open>WebSubscriptionsSpec\<close>: paths and files, and \<open>webui/subscription_handlers.go\<close>. The
    handlers for subscriptions over server and files, with every system call that may fail; adding is all or nothing
    but for the one new file when it cannot be removed or its path is lost, deleting takes at most the subscription's own
    file.
  \<^item> \<open>WebRoutes\<close>: the rest of \<open>webui/server.go\<close>. Routes and their guards, assets, cookies; the handlers for nodes and
    subscriptions behind the guards, where every change needs a login and a request of the same origin.

  \<^bold>\<open>Conventions.\<close> Every Go error, early return and panic is a branch of a sum or option type. Sections under a
  mutex are atomic; what goroutines do between them is a step relation or an argument. The clock, random
  sources, driver and file faults, network answers and the code of \<open>net/http\<close>, \<open>net/url\<close> and the SQLite driver
  are arguments. Times are integers in nanoseconds. Where the code has \<open>float64\<close> (scores, weights, token
  counts) the model has real or rational numbers.

  \<^bold>\<open>Fuel and loops.\<close> Loops are structural recursion, or recursion with a measure. Only the batched cursor loop
  of the node query takes fuel, and its theorem shows that the number of rows is enough. The relay and the
  probe stream have measures on their own steps.

  \<^bold>\<open>Not modelled.\<close> In the parsers the YAML decoder (\<open>yaml.v3\<close>), lower case beyond ASCII, the text of a
  \<open>float64\<close> and the decoding of a YAML node into a map are arguments; \<open>Manager\<close> takes the parsers as arguments, for which
  \<open>Parse\<close> and \<open>ParseSingleLink\<close> stand. The regular
  expressions that mask secrets in error texts and credentials in subscription URLs are left out. Bodies of requests
  are given decoded and answers as documents. The number of rows a statement affected is taken as known: the error
  \<open>RowsAffected\<close> could return, and the SQLite driver never does, has no branch. Symbolic links are left out. Schema migrations (DDL text), the HTML, CSS and JavaScript of the
  dashboard, the wiring in \<open>main.go\<close> and the example clients carry no logic the theorems are about.
\<close>

section \<open>Properties that span the components\<close>

text \<open>
  C1: end to end, from the user name a client sends to the node it is given. Whatever the history of the
  tables and of the session store, the configuration, the driver faults and the random choice, a node
  returned for a parsed user name is a stored node that is online, not paused by the user, below three
  failures and not excluded, of the region asked for, unlocking every service asked for, with no
  paused parent subscription, and the pinned node when the name pins one.
\<close>

theorem username_served_by_admissible_node:
  assumes "ParseUsername name = Inr route" "db_reachable d" "\<forall>s. sessions = Some s \<longrightarrow> affinity_reachable s"
    "\<forall>n>0. rnd n < n" "fst (Resolve rnd (storageNodes fs d) cfg sessions route excludes) = Inr p"
  shows "p \<in> scanProxy ` set (proxies d) \<and> pStatus p \<in> {''active'', ''degraded''} \<and> \<not> pUserPaused p \<and>
    pFailCount p < 3 \<and> pID p \<notin> set excludes \<and>
    (uRegion route = [] \<or> normalizeRegion_sel (pRegion p) = uRegion route) \<and>
    (\<forall>u\<in>set (uUnlock route). unlockMet p u) \<and> noPausedParent d p \<and>
    (uNode route = [] \<or> (if HasPrefix (uNode route) ''key-''
       then pNodeKey p = TrimSpace (TrimPrefix (uNode route) ''key-'') else pAddress p = uNode route))"
proof -
  note n = parsed_region_normal [OF assms(1)] and i = db_reachable_inv [OF assms(2)]
  have a: "admissible (storedNodes d) (noPausedParent d) route excludes p"
    using sql.Resolve_admissible [of "(fs, d)" sessions route rnd cfg excludes p] n i assms(3-5) reachable_inv by auto
  have pin: "if HasPrefix (uNode route) ''key-''
       then pNodeKey p = TrimSpace (TrimPrefix (uNode route) ''key-'') else pAddress p = uNode route"
    if "uNode route \<noteq> []"
  proof -
    from assms(5) that have "resolvePinnedNode (storageNodes fs d) route excludes = Inr p"
      by (auto simp: Resolve_def dest: pinnedSection_same split: sum.splits if_splits option.splits)
    then show ?thesis using sql.pinned_admissible(2) [of "(fs, d)"] i by simp
  qed
  have "p \<in> scanProxy ` set (proxies d)" "pID p \<notin> set excludes" "noPausedParent d p"
    "pStatus p \<in> {''active'', ''degraded''} \<and> \<not> pUserPaused p \<and> pFailCount p < 3"
    using a by (auto simp: admissible_def storedNodes_def proxyAvailable_def)
  moreover have "uRegion route = [] \<or> normalizeRegion_sel (pRegion p) = uRegion route"
    using a n by (auto simp: admissible_def regionMismatch_def)
  moreover have "\<forall>u\<in>set (uUnlock route). unlockMet p u"
    using a by (auto simp: admissible_def proxyMatchesUnlock_def list_all_iff split: if_splits)
  ultimately show ?thesis using pin by blast
qed

theorem username_served_by_admissible_node_witness:
  "fst (Resolve (\<lambda>n. 0) (storageNodes (\<lambda>k. []) sampleDB) None None
      \<lparr>uBase = ''u'', uRegion = [], uSession = [], uUnlock = [], uNode = []\<rparr> []) = Inr sampleNode \<and>
   pStatus sampleNode \<in> {''active'', ''degraded''}"
proof -
  let ?r = "\<lparr>uBase = ''u'', uRegion = [], uSession = [], uUnlock = [], uNode = []\<rparr>"
  have p: "ParseUsername ''u'' = Inr ?r" by (simp add: dsl_eval)
  have "lowestLatency [sampleNode] = [sampleNode]" by (simp add: lowestLatency_def)
  then have r: "fst (Resolve (\<lambda>n. 0) (storageNodes (\<lambda>k. []) sampleDB) None None ?r []) = Inr sampleNode"
    using sampleStore_region lower_normal [of "[]"]
    by (simp add: Resolve_def PickUnlock_def sampleStore_def Let_def filterByUnlock_def availableProxies_def
        proxyAvailable_def pickLowestLatency_def)
  from username_served_by_admissible_node [OF p sampleDB_reachable _ _ r] r show ?thesis by simp
qed

end
